(* ===== verification/Prelude.thy ===== *)
theory Prelude
  imports Main "HOL-Library.List_Lexorder" "HOL-Library.Char_ord" "HOL-Library.AList"
    "HOL-Library.Multiset"
begin

text \<open>
  The vocabulary every other theory of the development shares: the part of Go's standard
  library the hub uses on strings and instants, association lists for Go maps whose
  iteration order matters, and the generic list lemmas the component proofs rest on.

  A Go string is a sequence of bytes, so it is modelled by \<open>string\<close>, a list of 8-bit
  characters; string order is the bytewise lexicographic order, which is the instance of
  \<open>linorder\<close> that List_Lexorder and Char_ord give. White space is Go's
  \<open>unicode.IsSpace\<close> over UTF-8: the list \<open>space_encodings\<close> holds the byte sequences
  of all its code points. Case mapping is modelled on ASCII letters and leaves other bytes
  alone.
\<close>

named_theorems go_simps \<open>unfolding rules for the Go library functions\<close>

section \<open>Strings\<close>

type_synonym gostr = string

definition has_prefix :: "string \<Rightarrow> string \<Rightarrow> bool" where
  "has_prefix p s \<longleftrightarrow> take (length p) s = p"

definition has_suffix :: "string \<Rightarrow> string \<Rightarrow> bool" where
  "has_suffix p s \<longleftrightarrow> length p \<le> length s \<and> drop (length s - length p) s = p"

definition trim_prefix :: "string \<Rightarrow> string \<Rightarrow> string" where
  "trim_prefix p s = (if has_prefix p s then drop (length p) s else s)"

definition trim_suffix :: "string \<Rightarrow> string \<Rightarrow> string" where
  "trim_suffix p s = (if has_suffix p s then take (length s - length p) s else s)"

lemma has_prefix_iff: "has_prefix p s \<longleftrightarrow> (\<exists>r. s = p @ r)"
  unfolding has_prefix_def by (metis append_take_drop_id append_eq_conv_conj)

lemma has_prefix_append [simp]: "has_prefix p (p @ r)"
  by (simp add: has_prefix_iff)

lemma has_prefix_refl [simp]: "has_prefix s s"
  by (simp add: has_prefix_def)

lemma has_suffix_iff: "has_suffix p s \<longleftrightarrow> (\<exists>r. s = r @ p)"
proof
  assume "has_suffix p s"
  then have "s = take (length s - length p) s @ p"
    unfolding has_suffix_def by (metis append_take_drop_id)
  then show "\<exists>r. s = r @ p" ..
qed (auto simp: has_suffix_def)

lemma has_suffix_append [simp]: "has_suffix p (r @ p)"
  by (simp add: has_suffix_def)

lemma trim_prefix_append [simp]: "trim_prefix p (p @ r) = r"
  by (simp add: trim_prefix_def)

lemma trim_suffix_append [simp]: "trim_suffix p (r @ p) = r"
  by (simp add: trim_suffix_def)

text \<open>The UTF-8 encodings of the code points \<open>unicode.IsSpace\<close> accepts.\<close>

definition space_encodings :: "string list" where
  "space_encodings =
     map (map char_of)
      ([[9], [10], [11], [12], [13], [32], [0xC2, 0x85], [0xC2, 0xA0],
        [0xE1, 0x9A, 0x80],
        [0xE2, 0x80, 0x80], [0xE2, 0x80, 0x81], [0xE2, 0x80, 0x82], [0xE2, 0x80, 0x83],
        [0xE2, 0x80, 0x84], [0xE2, 0x80, 0x85], [0xE2, 0x80, 0x86], [0xE2, 0x80, 0x87],
        [0xE2, 0x80, 0x88], [0xE2, 0x80, 0x89], [0xE2, 0x80, 0x8A],
        [0xE2, 0x80, 0xA8], [0xE2, 0x80, 0xA9], [0xE2, 0x80, 0xAF], [0xE2, 0x81, 0x9F],
        [0xE3, 0x80, 0x80]] :: int list list)"

text \<open>Length of the white space encoding a string starts (ends) with; 0 when there is none.\<close>

definition space_at :: "string \<Rightarrow> nat" where
  "space_at s = (case find (\<lambda>e. has_prefix e s) space_encodings of None \<Rightarrow> 0 | Some e \<Rightarrow> length e)"

definition space_end :: "string \<Rightarrow> nat" where
  "space_end s = (case find (\<lambda>e. has_suffix e s) space_encodings of None \<Rightarrow> 0 | Some e \<Rightarrow> length e)"

function trim_left :: "string \<Rightarrow> string" where
  "trim_left s =
     (if s = [] \<or> space_at s = 0 then s else trim_left (drop (space_at s) s))"
  by pat_completeness auto
termination
  by (relation "measure length") auto

function trim_right :: "string \<Rightarrow> string" where
  "trim_right s =
     (if s = [] \<or> space_end s = 0 then s else trim_right (take (length s - space_end s) s))"
  by pat_completeness auto
termination
  by (relation "measure length") auto

declare trim_left.simps [simp del] trim_right.simps [simp del]

definition trim_space :: "string \<Rightarrow> string" where
  "trim_space s = trim_right (trim_left s)"

lemma has_prefix_take: "has_prefix e (take n s) \<Longrightarrow> has_prefix e s"
  by (metis append_take_drop_id has_prefix_iff append.assoc)

lemma space_at_zero: "space_at s = 0 \<longleftrightarrow> (\<forall>e\<in>set space_encodings. \<not> has_prefix e s)"
proof -
  have "[] \<notin> set space_encodings" by code_simp
  then show ?thesis by (auto simp: space_at_def find_None_iff find_Some_iff split: option.splits) (metis nth_mem)
qed

lemma space_end_zero: "space_end s = 0 \<longleftrightarrow> (\<forall>e\<in>set space_encodings. \<not> has_suffix e s)"
proof -
  have "[] \<notin> set space_encodings" by code_simp
  then show ?thesis by (auto simp: space_end_def find_None_iff find_Some_iff split: option.splits) (metis nth_mem)
qed

lemma trim_left_done: "trim_left s = [] \<or> space_at (trim_left s) = 0"
  by (induction s rule: trim_left.induct) (metis trim_left.simps)

lemma trim_right_done: "trim_right s = [] \<or> space_end (trim_right s) = 0"
  by (induction s rule: trim_right.induct) (metis trim_right.simps)

lemma trim_right_prefix: "\<exists>n. trim_right s = take n s"
proof (induction s rule: trim_right.induct)
  case (1 s)
  show ?case
  proof (cases "s = [] \<or> space_end s = 0")
    case True
    then have "trim_right s = take (length s) s" by (subst trim_right.simps) auto
    then show ?thesis ..
  next
    case False
    with 1 obtain n where "trim_right (take (length s - space_end s) s) = take n (take (length s - space_end s) s)" by auto
    with False have "trim_right s = take (min n (length s - space_end s)) s" by (subst trim_right.simps) simp
    then show ?thesis ..
  qed
qed

text \<open>A string without white space at its ends, the fixed points of \<open>trim_space\<close>.\<close>

definition trimmed :: "string \<Rightarrow> bool" where
  "trimmed s \<longleftrightarrow> s = [] \<or> (space_at s = 0 \<and> space_end s = 0)"

lemma trim_space_trimmed [simp]: "trimmed s \<Longrightarrow> trim_space s = s"
  by (auto simp: trimmed_def trim_space_def trim_left.simps [of s] trim_right.simps [of s])

lemma trimmed_trim_space [simp]: "trimmed (trim_space s)"
proof (cases "trim_space s = []")
  case False
  obtain n where n: "trim_space s = take n (trim_left s)"
    using trim_right_prefix [of "trim_left s"] by (auto simp: trim_space_def)
  with False have "space_at (trim_left s) = 0" using trim_left_done [of s] by auto
  then have "space_at (trim_space s) = 0" unfolding n space_at_zero using has_prefix_take by blast
  moreover have "space_end (trim_space s) = 0" using False trim_right_done [of "trim_left s"] by (simp add: trim_space_def)
  ultimately show ?thesis by (simp add: trimmed_def)
qed (simp add: trimmed_def)

lemma trim_space_idem [simp]: "trim_space (trim_space s) = trim_space s"
  by simp

text \<open>\<open>strings.Fields\<close>: the maximal runs without white space. \<open>w\<close> is the field being read.\<close>

function str_fields_from :: "string \<Rightarrow> string \<Rightarrow> string list" where
  "str_fields_from w s =
     (case s of [] \<Rightarrow> (if w = [] then [] else [w])
      | c # cs \<Rightarrow>
          (if space_at s = 0 then str_fields_from (w @ [c]) cs
           else (if w = [] then [] else [w]) @ str_fields_from [] (drop (space_at s) s)))"
  by pat_completeness auto
termination
  by (relation "measure (\<lambda>(w, s). length s)") auto

declare str_fields_from.simps [simp del]

definition str_fields :: "string \<Rightarrow> string list" where
  "str_fields s = str_fields_from [] s"

fun split_on :: "char \<Rightarrow> string \<Rightarrow> string list" where
  "split_on c [] = [[]]"
| "split_on c (x # xs) =
     (if x = c then [] # split_on c xs
      else (case split_on c xs of [] \<Rightarrow> [[x]] | w # ws \<Rightarrow> (x # w) # ws))"

fun join_with :: "string \<Rightarrow> string list \<Rightarrow> string" where
  "join_with sep [] = []"
| "join_with sep [w] = w"
| "join_with sep (w # v # ws) = w @ sep @ join_with sep (v # ws)"

lemma split_on_nonempty [simp]: "split_on c s \<noteq> []"
  by (induction s) (auto split: list.splits)

lemma split_on_no_sep: "c \<notin> set s \<Longrightarrow> split_on c s = [s]"
  by (induction s) auto

lemma split_on_append: "c \<notin> set w \<Longrightarrow> split_on c (w @ c # s) = w # split_on c s"
  by (induction w) auto

lemma split_on_join:
  "ws \<noteq> [] \<Longrightarrow> \<forall>w\<in>set ws. c \<notin> set w \<Longrightarrow> split_on c (join_with [c] ws) = ws"
  by (induction "[c]" ws rule: join_with.induct) (auto simp: split_on_no_sep split_on_append)

text \<open>\<open>strings.Cut\<close> on a one-byte separator: the part before, the part after, whether it occurs.\<close>

definition cut :: "char \<Rightarrow> string \<Rightarrow> string \<times> string \<times> bool" where
  "cut c s = (if c \<in> set s then (takeWhile (\<lambda>x. x \<noteq> c) s, tl (dropWhile (\<lambda>x. x \<noteq> c) s), True)
              else (s, [], False))"

text \<open>\<open>strings.LastIndex\<close> on a one-byte separator.\<close>

definition last_index :: "char \<Rightarrow> string \<Rightarrow> nat option" where
  "last_index c s =
     (if c \<in> set s then Some (length s - 1 - length (takeWhile (\<lambda>x. x \<noteq> c) (rev s))) else None)"

text \<open>Lower case is that of ASCII: Go also lowers other letters, which are left as they are here.\<close>

definition lower_char :: "char \<Rightarrow> char" where
  "lower_char c = (let n = (of_char c :: int) in if 65 \<le> n \<and> n \<le> 90 then char_of (n + 32) else c)"

definition to_lower :: "string \<Rightarrow> string" where
  "to_lower s = map lower_char s"

definition equal_fold :: "string \<Rightarrow> string \<Rightarrow> bool" where
  "equal_fold a b \<longleftrightarrow> to_lower a = to_lower b"

lemma lower_char_idem [simp]: "lower_char (lower_char c) = lower_char c"
  by (auto simp: lower_char_def Let_def)

lemma to_lower_idem [simp]: "to_lower (to_lower s) = to_lower s"
  by (simp add: to_lower_def)

lemma length_to_lower [simp]: "length (to_lower s) = length s"
  by (simp add: to_lower_def)

lemma equal_fold_refl [simp]: "equal_fold s s"
  by (simp add: equal_fold_def)

lemma equal_fold_to_lower: "equal_fold (to_lower a) b = equal_fold a b"
  by (simp add: equal_fold_def)

section \<open>Instants and durations\<close>

text \<open>The value of a computation on \<open>int64\<close>, which wraps around.\<close>

definition wrap64 :: "int \<Rightarrow> int" where
  "wrap64 x = (x + 2 ^ 63) mod 2 ^ 64 - 2 ^ 63"

lemma wrap64_id: "- (2 ^ 63) \<le> x \<Longrightarrow> x < 2 ^ 63 \<Longrightarrow> wrap64 x = x"
  by (simp add: wrap64_def)

text \<open>
  A duration is a count of nanoseconds, an instant a count of nanoseconds since Go's zero
  time (1 January of year 1), which is therefore \<open>0\<close>. \<open>Time.Sub\<close> saturates at the bounds
  of an \<open>int64\<close>.
\<close>

type_synonym duration = int
type_synonym instant = int

abbreviation zero_time :: instant where
  "zero_time \<equiv> 0"

definition millisecond :: duration where
  "millisecond = 1000000"

definition second :: duration where
  "second = 1000000000"

definition minute :: duration where
  "minute = 60 * second"

definition max_duration :: duration where
  "max_duration = 2 ^ 63 - 1"

definition min_duration :: duration where
  "min_duration = - (2 ^ 63)"

definition time_sub :: "instant \<Rightarrow> instant \<Rightarrow> duration" where
  "time_sub t u = max min_duration (min max_duration (t - u))"

lemmas duration_defs = millisecond_def second_def minute_def max_duration_def min_duration_def

text \<open>Saturation never changes a comparison with a duration an \<open>int64\<close> can hold.\<close>

lemma time_sub_less: "min_duration < d \<Longrightarrow> d \<le> max_duration \<Longrightarrow> time_sub t u < d \<longleftrightarrow> t - u < d"
  by (auto simp: time_sub_def max_def min_def)

lemma time_sub_le: "min_duration \<le> d \<Longrightarrow> d < max_duration \<Longrightarrow> time_sub t u \<le> d \<longleftrightarrow> t - u \<le> d"
  by (auto simp: time_sub_def max_def min_def)

lemma time_sub_gt: "min_duration \<le> d \<Longrightarrow> d < max_duration \<Longrightarrow> d < time_sub t u \<longleftrightarrow> d < t - u"
  by (auto simp: time_sub_def max_def min_def)

lemma time_sub_ge: "min_duration < d \<Longrightarrow> d \<le> max_duration \<Longrightarrow> d \<le> time_sub t u \<longleftrightarrow> d \<le> t - u"
  by (auto simp: time_sub_def max_def min_def)

section \<open>Lists and maps\<close>

text \<open>Appending only what is new: Go's \<open>if !seen[k] { seen[k] = true; out = append(out, k) }\<close>.\<close>

fun dedup_from :: "'a list \<Rightarrow> 'a list \<Rightarrow> 'a list" where
  "dedup_from seen [] = []"
| "dedup_from seen (x # xs) =
     (if x \<in> set seen then dedup_from seen xs else x # dedup_from (x # seen) xs)"

abbreviation dedup :: "'a list \<Rightarrow> 'a list" where
  "dedup xs \<equiv> dedup_from [] xs"

lemma set_dedup_from: "set (dedup_from seen xs) = set xs - set seen"
  by (induction xs arbitrary: seen) auto

lemma set_dedup [simp]: "set (dedup xs) = set xs"
  by (simp add: set_dedup_from)

lemma distinct_dedup_from [simp]: "distinct (dedup_from seen xs)"
  by (induction xs arbitrary: seen) (auto simp: set_dedup_from)

lemma dedup_from_cong: "set s = set t \<Longrightarrow> dedup_from s xs = dedup_from t xs"
proof (induction xs arbitrary: s t)
  case (Cons x xs)
  then have "dedup_from (x # s) xs = dedup_from (x # t) xs" by (metis list.simps(15))
  moreover have "dedup_from s xs = dedup_from t xs" by (rule Cons.IH [OF Cons.prems])
  ultimately show ?case using Cons.prems by simp
qed simp

lemma dedup_from_append:
  "dedup_from seen (xs @ ys) = dedup_from seen xs @ dedup_from (xs @ seen) ys"
proof (induction xs arbitrary: seen)
  case (Cons x xs)
  have "dedup_from (xs @ x # seen) ys = dedup_from (x # xs @ seen) ys"
    by (rule dedup_from_cong) auto
  moreover have "x \<in> set seen \<Longrightarrow> dedup_from (xs @ seen) ys = dedup_from (x # xs @ seen) ys"
    by (rule dedup_from_cong) auto
  ultimately show ?case using Cons by auto
qed simp

lemma dedup_from_disjoint: "distinct xs \<Longrightarrow> set xs \<inter> set seen = {} \<Longrightarrow> dedup_from seen xs = xs"
  by (induction xs arbitrary: seen) auto

lemma dedup_distinct [simp]: "distinct xs \<Longrightarrow> dedup xs = xs"
  by (simp add: dedup_from_disjoint)

lemma length_filter_mono:
  "(\<And>x. x \<in> set xs \<Longrightarrow> P x \<Longrightarrow> Q x) \<Longrightarrow> length (filter P xs) \<le> length (filter Q xs)"
  by (induction xs) (auto intro: le_SucI)

text \<open>A map built by inserting the pairs of a list in order: the last pair of a key wins.\<close>

definition map_from :: "('a \<Rightarrow> 'k) \<Rightarrow> ('a \<Rightarrow> 'v) \<Rightarrow> 'a list \<Rightarrow> ('k \<rightharpoonup> 'v)" where
  "map_from key val xs = map_of (rev (map (\<lambda>x. (key x, val x)) xs))"

lemma map_from_Nil [simp]: "map_from key val [] = Map.empty"
  by (simp add: map_from_def)

lemma map_from_snoc: "map_from key val (xs @ [x]) = (map_from key val xs)(key x \<mapsto> val x)"
  by (simp add: map_from_def)

lemma dom_map_from [simp]: "dom (map_from key val xs) = key ` set xs"
  by (auto simp: map_from_def dom_map_of_conv_image_fst image_comp)

lemma map_from_SomeD: "map_from key val xs k = Some v \<Longrightarrow> \<exists>x\<in>set xs. key x = k \<and> val x = v"
  by (auto simp: map_from_def dest!: map_of_SomeD)

lemma map_from_distinct:
  "distinct (map key xs) \<Longrightarrow> x \<in> set xs \<Longrightarrow> map_from key val xs (key x) = Some (val x)"
  by (auto simp: map_from_def comp_def distinct_rev rev_map [symmetric] intro!: map_of_is_SomeI)

text \<open>A Go map that is ranged over: an association list with distinct keys, in iteration order.\<close>

abbreviation wf_alist :: "('k \<times> 'v) list \<Rightarrow> bool" where
  "wf_alist m \<equiv> distinct (map fst m)"

lemma wf_alist_update [simp]: "wf_alist m \<Longrightarrow> wf_alist (AList.update k v m)"
  by (rule distinct_update)

lemma set_alist_update: "set (AList.update k v m) \<subseteq> insert (k, v) (set m)"
  by (induction m) auto

text \<open>A Go map filled in a loop.\<close>

lemma fold_alist_update:
  "wf_alist m \<Longrightarrow> wf_alist (fold (\<lambda>x. AList.update (k x) (v x)) xs m) \<and>
     fst ` set (fold (\<lambda>x. AList.update (k x) (v x)) xs m) = fst ` set m \<union> k ` set xs \<and>
     (\<forall>p\<in>set (fold (\<lambda>x. AList.update (k x) (v x)) xs m). p \<in> set m \<or> (\<exists>x\<in>set xs. p = (k x, v x)))"
proof (induction xs arbitrary: m)
  case (Cons x xs)
  from Cons.IH [of "AList.update (k x) (v x) m"] Cons.prems set_alist_update [of "k x" "v x" m]
  have ih: "wf_alist (fold (\<lambda>x. AList.update (k x) (v x)) xs (AList.update (k x) (v x) m))"
    "fst ` set (fold (\<lambda>x. AList.update (k x) (v x)) xs (AList.update (k x) (v x) m)) = insert (k x) (fst ` set m) \<union> k ` set xs"
    "\<forall>p\<in>set (fold (\<lambda>x. AList.update (k x) (v x)) xs (AList.update (k x) (v x) m)).
      p \<in> insert (k x, v x) (set m) \<or> (\<exists>x\<in>set xs. p = (k x, v x))"
    by (simp_all add: dom_update, blast)
  then show ?case by auto
qed simp

lemma wf_alist_perm: "mset m = mset m' \<Longrightarrow> wf_alist m \<longleftrightarrow> wf_alist m'"
  by (metis mset_eq_imp_distinct_iff mset_map)

text \<open>Folds whose steps commute do not see the order a Go map is ranged in.\<close>

lemma fold_perm:
  assumes comm: "\<And>x y s. f x (f y s) = f y (f x s)" and perm: "mset xs = mset ys"
  shows "fold f xs s = fold f ys s"
  using fold_multiset_equiv [of xs f ys] comm perm by (auto simp: comp_def fun_eq_iff)

lemma distinct_map_sort_key: "distinct (map f (sort_key g xs)) = distinct (map f xs)"
  by (simp add: distinct_map)

lemma sort_key_perm:
  assumes "mset xs = mset ys" and "distinct (map k xs)"
  shows "sort_key k xs = sort_key k ys"
proof -
  have "distinct (map k ys)" using assms by (metis mset_eq_imp_distinct_iff mset_map)
  with assms show ?thesis
    by (intro map_sorted_distinct_set_unique [where f = k])
      (auto simp: distinct_map inj_on_def dest: mset_eq_setD)
qed

end
