(* ===== verification/GoFloat.thy ===== *)
theory GoFloat
  imports Complex_Main Prelude
begin

text \<open>
  Go's \<open>float64\<close>: a finite IEEE-754 binary64 value is the rational it denotes, and an
  arithmetic operation is the exact rational operation followed by \<open>fl\<close>, rounding to
  nearest with ties to even, with gradual underflow (the quantum never falls below
  \<open>2 ^ (-1074)\<close>). Infinities and NaN are not represented: the code modelled here divides only
  behind a zero test, and its operands are below \<open>2 ^ 64\<close>, far from the overflow bound.
  The lemmas say what the health and rate computations need of rounding: it is monotone,
  keeps zero, and is exact on integers up to \<open>2 ^ 53\<close>.
\<close>

type_synonym float64 = rat

section \<open>Rounding\<close>

definition rne :: "rat \<Rightarrow> int" where
  "rne q = (let f = \<lfloor>q\<rfloor>; d = q - of_int f
            in if d < 1 / 2 then f else if 1 / 2 < d then f + 1 else if even f then f else f + 1)"

fun bits :: "nat \<Rightarrow> nat" where
  "bits n = (if n = 0 then 0 else Suc (bits (n div 2)))"

declare bits.simps [simp del]

text \<open>The exponent \<open>e\<close> with \<open>2 ^ e \<le> q < 2 ^ (e + 1)\<close>, for positive \<open>q\<close>.\<close>

definition ilog2 :: "rat \<Rightarrow> int" where
  "ilog2 q = (if 1 \<le> q then int (bits (nat \<lfloor>q\<rfloor>)) - 1 else - int (bits (nat (\<lceil>1 / q\<rceil> - 1))))"

definition quantum :: "rat \<Rightarrow> int" where
  "quantum q = max (ilog2 q - 52) (- 1074)"

definition fl_pos :: "rat \<Rightarrow> float64" where
  "fl_pos q = of_int (rne (q / 2 powi quantum q)) * 2 powi quantum q"

definition fl :: "rat \<Rightarrow> float64" where
  "fl q = (if q = 0 then 0 else if q < 0 then - fl_pos (- q) else fl_pos q)"

text \<open>\<open>float64(n)\<close>, and the truncation \<open>uint64(x)\<close> of a non-negative value.\<close>

definition float_of_nat :: "nat \<Rightarrow> float64" where
  "float_of_nat n = fl (of_nat n)"

definition nat_of_float :: "float64 \<Rightarrow> nat" where
  "nat_of_float x = nat \<lfloor>x\<rfloor>"

definition fdiv :: "float64 \<Rightarrow> float64 \<Rightarrow> float64" where
  "fdiv a b = fl (a / b)"

definition fmul :: "float64 \<Rightarrow> float64 \<Rightarrow> float64" where
  "fmul a b = fl (a * b)"

definition fadd :: "float64 \<Rightarrow> float64 \<Rightarrow> float64" where
  "fadd a b = fl (a + b)"

text \<open>\<open>Duration.Seconds\<close>: the whole seconds and the fraction are converted apart.\<close>

definition seconds_of :: "duration \<Rightarrow> float64" where
  "seconds_of d =
     (let q = (if d < 0 then - (- d div second) else d div second)
      in fadd (fl (of_int q)) (fdiv (fl (of_int (d - q * second))) 1000000000))"

section \<open>Nearest integer\<close>

lemma rne_bounds: "\<lfloor>q\<rfloor> \<le> rne q" "rne q \<le> \<lfloor>q\<rfloor> + 1"
  by (simp_all add: rne_def Let_def)

lemma rne_of_int [simp]: "rne (of_int n) = n"
  by (simp add: rne_def)

lemma rne_mono: "q \<le> r \<Longrightarrow> rne q \<le> rne r"
proof -
  assume le: "q \<le> r"
  show ?thesis
  proof (cases "\<lfloor>q\<rfloor> = \<lfloor>r\<rfloor>")
    case True
    with le show ?thesis by (auto simp: rne_def Let_def)
  next
    case False
    with le have "\<lfloor>q\<rfloor> + 1 \<le> \<lfloor>r\<rfloor>" by (meson floor_mono order_le_imp_less_or_eq zless_imp_add1_zle)
    with rne_bounds(2) [of q] rne_bounds(1) [of r] show ?thesis by linarith
  qed
qed

section \<open>The exponent\<close>

lemma bits_bounds: "n < 2 ^ bits n" "0 < n \<Longrightarrow> 2 ^ bits n \<le> 2 * n"
proof (induction n rule: bits.induct)
  case (1 n)
  {
    case 1
    show ?case
    proof (cases "n = 0")
      case False
      then have "n div 2 < 2 ^ bits (n div 2)" by (rule "1.IH")
      with False show ?thesis by (simp add: bits.simps [of n])
    qed (simp add: bits.simps)
  next
    case 2
    show ?case
    proof (cases "n div 2 = 0")
      case True
      with 2 show ?thesis by (simp add: bits.simps [of n] bits.simps [of 0])
    next
      case False
      then have "2 ^ bits (n div 2) \<le> 2 * (n div 2)" using "1.IH" 2 by simp
      with 2 show ?thesis by (simp add: bits.simps [of n])
    qed
  }
qed

lemma ilog2_bounds:
  assumes "0 < q"
  shows "2 powi ilog2 q \<le> q" and "q < 2 powi (ilog2 q + 1)"
proof -
  have "2 powi ilog2 q \<le> q \<and> q < 2 powi (ilog2 q + 1)"
  proof (cases "1 \<le> q")
    case True
    define n where "n = nat \<lfloor>q\<rfloor>"
    have n: "0 < n" "of_nat n \<le> q" "q < of_nat n + 1" using True by (auto simp: n_def) linarith+
    have b: "n < 2 ^ bits n" "2 ^ bits n \<le> 2 * n" using bits_bounds n(1) by auto
    then have "Suc n \<le> 2 ^ bits n" by simp
    then have "(of_nat (Suc n) :: rat) \<le> of_nat (2 ^ bits n)" by (rule of_nat_mono)
    moreover have "(of_nat (2 ^ bits n) :: rat) \<le> of_nat (2 * n)" using b(2) by (rule of_nat_mono)
    ultimately have "q < 2 ^ bits n" "(2 :: rat) ^ bits n \<le> 2 * q" using n by auto
    with True show ?thesis
      by (simp add: ilog2_def n_def [symmetric] power_int_diff power_int_minus)
  next
    case False
    define n where "n = nat (\<lceil>1 / q\<rceil> - 1)"
    have gt1: "1 < 1 / q" using False assms by simp
    then have c: "2 \<le> \<lceil>1 / q\<rceil>" by linarith
    then have n: "0 < n" "of_nat n < 1 / q" "1 / q \<le> of_nat n + 1" by (auto simp: n_def) linarith+
    have b: "n < 2 ^ bits n" "2 ^ bits n \<le> 2 * n" using bits_bounds n(1) by auto
    then have "Suc n \<le> 2 ^ bits n" by simp
    then have "(of_nat (Suc n) :: rat) \<le> of_nat (2 ^ bits n)" by (rule of_nat_mono)
    moreover have "(of_nat (2 ^ bits n) :: rat) \<le> of_nat (2 * n)" using b(2) by (rule of_nat_mono)
    ultimately have "1 / q \<le> 2 ^ bits n" "(2 :: rat) ^ bits n < 2 * (1 / q)" using n by auto
    then have "1 / 2 ^ bits n \<le> q" "q < 2 / 2 ^ bits n" using assms by (simp_all add: field_simps)
    with False show ?thesis
      by (simp add: ilog2_def n_def [symmetric] power_int_minus power_int_diff field_simps)
  qed
  then show "2 powi ilog2 q \<le> q" "q < 2 powi (ilog2 q + 1)" by simp_all
qed

lemma ilog2_mono:
  assumes "0 < q" "q \<le> r"
  shows "ilog2 q \<le> ilog2 r"
proof (rule ccontr)
  assume "\<not> ilog2 q \<le> ilog2 r"
  then have "(2 :: rat) powi (ilog2 r + 1) \<le> 2 powi ilog2 q"
    by (intro power_int_increasing) auto
  with ilog2_bounds(1) [of q] ilog2_bounds(2) [of r] assms show False by linarith
qed

lemma ilog2_unique:
  assumes "2 powi e \<le> q" "q < 2 powi (e + 1)"
  shows "ilog2 q = e"
proof -
  have q: "0 < q" using assms(1) by (smt (verit) zero_less_power_int order_less_le_trans zero_less_numeral)
  have "e < ilog2 q + 1"
  proof (rule ccontr)
    assume "\<not> ?thesis"
    then have "(2 :: rat) powi (ilog2 q + 1) \<le> 2 powi e" by (intro power_int_increasing) auto
    with ilog2_bounds(2) [OF q] assms(1) show False by linarith
  qed
  moreover have "ilog2 q < e + 1"
  proof (rule ccontr)
    assume "\<not> ?thesis"
    then have "(2 :: rat) powi (e + 1) \<le> 2 powi ilog2 q" by (intro power_int_increasing) auto
    with ilog2_bounds(1) [OF q] assms(2) show False by linarith
  qed
  ultimately show ?thesis by linarith
qed

section \<open>Rounding is monotone\<close>

lemma fl_0 [simp]: "fl 0 = 0"
  by (simp add: fl_def)

lemma fl_pos_nonneg: "0 < q \<Longrightarrow> 0 \<le> fl_pos q"
  using rne_mono [of 0 "q / 2 powi quantum q"] rne_of_int [of 0]
  by (simp add: fl_pos_def zero_le_power_int)

lemma powi_int_multiple:
  assumes "u \<le> e"
  shows "\<exists>n :: int. (2 :: rat) powi e = of_int n * 2 powi u"
proof -
  have "(2 :: rat) powi e = 2 powi (e - u) * 2 powi u" by (simp add: power_int_add [symmetric])
  moreover have "(2 :: rat) powi (e - u) = of_int (2 ^ nat (e - u))"
    using assms by (simp add: power_int_def)
  ultimately show ?thesis by metis
qed

lemma fl_pos_le_multiple:
  assumes "q \<le> of_int n * 2 powi quantum q"
  shows "fl_pos q \<le> of_int n * 2 powi quantum q"
proof -
  have "q / 2 powi quantum q \<le> of_int n" using assms by (simp add: divide_le_eq)
  then have "rne (q / 2 powi quantum q) \<le> n" using rne_mono rne_of_int by metis
  then show ?thesis by (simp add: fl_pos_def mult_right_mono zero_le_power_int)
qed

lemma fl_pos_ge_multiple:
  assumes "of_int n * 2 powi quantum q \<le> q"
  shows "of_int n * 2 powi quantum q \<le> fl_pos q"
proof -
  have "of_int n \<le> q / 2 powi quantum q" using assms by (simp add: le_divide_eq)
  then have "n \<le> rne (q / 2 powi quantum q)" using rne_mono rne_of_int by metis
  then show ?thesis by (simp add: fl_pos_def mult_right_mono zero_le_power_int)
qed

lemma fl_pos_mono:
  assumes "0 < q" "q \<le> r"
  shows "fl_pos q \<le> fl_pos r"
proof (cases "quantum q = quantum r")
  case True
  have "q / 2 powi quantum r \<le> r / 2 powi quantum r" using assms by (simp add: divide_right_mono)
  then have "rne (q / 2 powi quantum r) \<le> rne (r / 2 powi quantum r)" by (rule rne_mono)
  with True show ?thesis by (simp add: fl_pos_def mult_right_mono zero_le_power_int)
next
  case False
  have "ilog2 q \<le> ilog2 r" using assms by (rule ilog2_mono)
  with False have e: "ilog2 q + 1 \<le> ilog2 r" and u: "quantum r = ilog2 r - 52" "quantum q \<le> ilog2 r"
    by (auto simp: quantum_def max_def split: if_splits)
  obtain n where n: "(2 :: rat) powi ilog2 r = of_int n * 2 powi quantum q"
    using powi_int_multiple [OF u(2)] by blast
  obtain m where m: "(2 :: rat) powi ilog2 r = of_int m * 2 powi quantum r"
    using powi_int_multiple [of "quantum r" "ilog2 r"] u(1) by auto
  have "q < 2 powi (ilog2 q + 1)" by (rule ilog2_bounds(2) [OF assms(1)])
  also have "(2 :: rat) powi (ilog2 q + 1) \<le> 2 powi ilog2 r" using e by (intro power_int_increasing) auto
  finally have "fl_pos q \<le> 2 powi ilog2 r" using fl_pos_le_multiple [of q n] n by simp
  also have "2 powi ilog2 r \<le> fl_pos r"
    using fl_pos_ge_multiple [of m r] m ilog2_bounds(1) [of r] assms by simp
  finally show ?thesis .
qed

lemma fl_mono: "q \<le> r \<Longrightarrow> fl q \<le> fl r"
proof -
  assume le: "q \<le> r"
  consider "0 < q" | "q < 0" "r < 0" | "q \<le> 0" "0 \<le> r" using le by linarith
  then show ?thesis
  proof cases
    case 1
    with le show ?thesis by (simp add: fl_def fl_pos_mono)
  next
    case 2
    with le show ?thesis by (simp add: fl_def fl_pos_mono)
  next
    case 3
    then show ?thesis using fl_pos_nonneg [of r] fl_pos_nonneg [of "- q"] by (auto simp: fl_def)
  qed
qed

lemma fl_nonneg: "0 \<le> q \<Longrightarrow> 0 \<le> fl q"
  using fl_mono [of 0 q] by simp

section \<open>Exact values\<close>

lemma fl_pos_exact:
  assumes "q = of_int n * 2 powi quantum q"
  shows "fl_pos q = q"
proof -
  have "q / 2 powi quantum q = of_int n"
    using assms by (metis nonzero_mult_div_cancel_right power_int_eq_0_iff zero_neq_numeral)
  with assms show ?thesis by (simp add: fl_pos_def)
qed

lemma fl_of_nat:
  assumes "n < 2 ^ 53"
  shows "fl (of_nat n) = of_nat n"
proof (cases "n = 0")
  case False
  then have pos: "(0 :: rat) < of_nat n" by simp
  have "(of_nat n :: rat) < of_nat (2 ^ 53)" using assms by (simp only: of_nat_less_iff)
  then have "(2 :: rat) powi ilog2 (of_nat n) < 2 powi 53"
    using ilog2_bounds(1) [OF pos] by simp
  then have "ilog2 (of_nat n) < 53"
    by (metis not_less power_int_increasing numeral_One one_le_numeral order.asym order_le_less)
  then have "quantum (of_nat n) \<le> 0" by (simp add: quantum_def)
  then obtain m where "(2 :: rat) powi 0 = of_int m * 2 powi quantum (of_nat n)"
    using powi_int_multiple by blast
  then have "(of_nat n :: rat) = of_int (int n * m) * 2 powi quantum (of_nat n)"
    by (simp add: mult.assoc)
  then have "fl_pos (of_nat n) = of_nat n" by (rule fl_pos_exact)
  with pos show ?thesis by (simp add: fl_def)
qed simp

lemma fl_1 [simp]: "fl 1 = 1"
  using fl_of_nat [of 1] by simp

lemma fl_le_1: "q \<le> 1 \<Longrightarrow> fl q \<le> 1"
  using fl_mono [of q 1] by simp

lemma float_of_nat_mono: "m \<le> n \<Longrightarrow> float_of_nat m \<le> float_of_nat n"
  by (simp add: float_of_nat_def fl_mono)

lemma float_of_nat_nonneg [simp]: "0 \<le> float_of_nat n"
  by (simp add: float_of_nat_def fl_nonneg)

lemma float_of_nat_0 [simp]: "float_of_nat 0 = 0"
  by (simp add: float_of_nat_def)

lemma float_of_nat_exact: "n < 2 ^ 53 \<Longrightarrow> float_of_nat n = of_nat n"
  by (simp add: float_of_nat_def fl_of_nat)

lemma float_of_nat_ge1: "0 < n \<Longrightarrow> 1 \<le> float_of_nat n"
  using fl_mono [of 1 "of_nat n"] by (simp add: float_of_nat_def)

lemma fdiv_mono: "a \<le> b \<Longrightarrow> 0 \<le> c \<Longrightarrow> fdiv a c \<le> fdiv b c"
  by (simp add: fdiv_def fl_mono divide_right_mono)

lemma fdiv_nonneg: "0 \<le> a \<Longrightarrow> 0 \<le> b \<Longrightarrow> 0 \<le> fdiv a b"
  by (simp add: fdiv_def fl_nonneg)

section \<open>Rounding twice\<close>

lemma fl_pos_representable:
  assumes "0 < q"
  shows "\<exists>n. fl_pos q = of_int n * 2 powi quantum (fl_pos q)"
proof -
  define u x where "u = quantum q" and "x = fl_pos q"
  obtain n where n: "x = of_int n * 2 powi u" by (auto simp: x_def u_def fl_pos_def)
  have nonneg: "0 \<le> x" using fl_pos_nonneg [OF assms] by (simp add: x_def)
  consider "x = 0" | "0 < x" "quantum x \<le> u" | "0 < x" "u < quantum x" using nonneg by linarith
  then have "\<exists>n. x = of_int n * 2 powi quantum x"
  proof cases
    case 1
    then show ?thesis by (intro exI [of _ 0]) simp
  next
    case 2
    then obtain m where "(2 :: rat) powi u = of_int m * 2 powi quantum x" using powi_int_multiple by blast
    then have "x = of_int (n * m) * 2 powi quantum x" using n by (simp add: mult.assoc)
    then show ?thesis by blast
  next
    case 3
    then have l: "quantum x = ilog2 x - 52" "u + 52 < ilog2 x" "ilog2 q \<le> u + 52"
      by (auto simp: quantum_def u_def max_def split: if_splits)
    define e where "e = max (ilog2 q + 1) u"
    obtain m where m: "(2 :: rat) powi e = of_int m * 2 powi u" using powi_int_multiple [of u e] by (auto simp: e_def)
    have "q < 2 powi (ilog2 q + 1)" by (rule ilog2_bounds(2) [OF assms])
    also have "(2 :: rat) powi (ilog2 q + 1) \<le> 2 powi e" by (intro power_int_increasing) (auto simp: e_def)
    finally have "x \<le> 2 powi e" using fl_pos_le_multiple [of q m] m by (simp add: x_def u_def)
    moreover have "(2 :: rat) powi e \<le> 2 powi ilog2 x" using l by (intro power_int_increasing) (auto simp: e_def)
    moreover have "2 powi ilog2 x \<le> x" by (rule ilog2_bounds(1) [OF 3(1)])
    ultimately have "x = 2 powi ilog2 x" by linarith
    then show ?thesis using powi_int_multiple [of "quantum x" "ilog2 x"] l(1) by auto
  qed
  then show ?thesis by (simp add: x_def)
qed

lemma fl_fl [simp]: "fl (fl q) = fl q"
proof -
  have pos: "fl (fl_pos r) = fl_pos r" if r: "0 < r" for r
  proof -
    obtain n where "fl_pos r = of_int n * 2 powi quantum (fl_pos r)" using fl_pos_representable [OF r] by blast
    then have "fl_pos (fl_pos r) = fl_pos r" by (rule fl_pos_exact)
    then show ?thesis using fl_pos_nonneg [OF r] by (auto simp: fl_def)
  qed
  have neg: "fl (- r) = - fl r" for r by (auto simp: fl_def)
  consider "q = 0" | "0 < q" | "q < 0" by linarith
  then show ?thesis
  proof cases
    case 3
    then have "fl q = - fl_pos (- q)" by (simp add: fl_def)
    then show ?thesis using pos [of "- q"] neg [of "fl_pos (- q)"] 3 by simp
  qed (auto simp: fl_def [of q] pos)
qed

lemma fadd_grows: "fl a = a \<Longrightarrow> 0 \<le> b \<Longrightarrow> a \<le> fadd a b"
  using fl_mono [of a "a + b"] by (simp add: fadd_def)

lemma float_nonneg: "0 \<le> a \<Longrightarrow> 0 \<le> b \<Longrightarrow> 0 \<le> fadd a b" "0 \<le> a \<Longrightarrow> 0 \<le> b \<Longrightarrow> 0 \<le> fmul a b"
  by (simp_all add: fadd_def fmul_def fl_nonneg)

end
