(* ===== verification/Ranking.thy ===== *)
theory Ranking
  imports Prelude
begin

text \<open>
  The interface behind every "worst of" rule of the hub: a rank on a type of verdicts and a
  binary choice that returns one of its two arguments, of the greater rank. Health statuses,
  alert severities and criticality tiers provide it (each with its own rank), and the folds
  that roll up groups, tiers and whole reports are clients: the rank of a fold is the
  greatest rank in it, whatever the order of the members.
\<close>

locale worst_of =
  fixes rank :: "'a \<Rightarrow> nat"
    and pick :: "'a \<Rightarrow> 'a \<Rightarrow> 'a"
  assumes pick_cases: "pick a b = a \<or> pick a b = b"
    and rank_pick: "rank (pick a b) = max (rank a) (rank b)"
begin

lemma rank_foldl: "rank (foldl pick a xs) = Max (rank ` insert a (set xs))"
proof (induction xs arbitrary: a)
  case (Cons x xs)
  have "rank (foldl pick a (x # xs)) = Max (insert (rank (pick a x)) (rank ` set xs))"
    using Cons.IH [of "pick a x"] by simp
  also have "\<dots> = Max (rank ` insert a (set (x # xs)))"
    by (cases xs) (simp_all add: rank_pick max.assoc Max_insert del: Max_insert2)
  finally show ?case .
qed simp

lemma foldl_cases: "foldl pick a xs \<in> insert a (set xs)"
proof (induction xs arbitrary: a)
  case (Cons x xs)
  show ?case using pick_cases [of a x] Cons.IH [of "pick a x"] by (cases "pick a x = a") auto
qed simp

lemma rank_foldl_ge: "x \<in> insert a (set xs) \<Longrightarrow> rank x \<le> rank (foldl pick a xs)"
  unfolding rank_foldl by (rule Max_ge) auto

lemma rank_foldl_cong: "set xs = set ys \<Longrightarrow> rank (foldl pick a xs) = rank (foldl pick a ys)"
  by (simp add: rank_foldl)

lemma foldl_unique:
  assumes "set xs = set ys" and "\<And>x y. x \<in> insert a (set xs) \<Longrightarrow> y \<in> insert a (set xs) \<Longrightarrow>
    rank x = rank y \<Longrightarrow> x = y"
  shows "foldl pick a xs = foldl pick a ys"
  using assms foldl_cases [of a xs] foldl_cases [of a ys] rank_foldl_cong [of xs ys a] by auto

end

end
