(* ===== verification/Roles.thy ===== *)
theory Roles
  imports Prelude
begin

text \<open>
  Roles, grants and identities (hub/internal/auth/auth.go). A role is a string, as in the
  code: a stored row can hold any text, and every rule here says what an unknown role may do
  (nothing). The lemmas characterise the access decision by the grants themselves: an
  identity may act on a project at a role exactly when one of its grants covers the project
  at that role, and adding grants never takes access away.
\<close>

type_synonym role = string

definition role_admin :: role where "role_admin = ''admin''"

definition role_editor :: role where "role_editor = ''editor''"

definition role_viewer :: role where "role_viewer = ''viewer''"

lemmas role_defs = role_admin_def role_editor_def role_viewer_def

definition role_rank :: "role \<Rightarrow> nat" where
  "role_rank r = (if r = role_admin then 3 else if r = role_editor then 2
     else if r = role_viewer then 1 else 0)"

definition role_allows :: "role \<Rightarrow> role \<Rightarrow> bool" where
  "role_allows r need = (if role_rank need = 0 then False else role_rank need \<le> role_rank r)"

definition parse_role :: "string \<Rightarrow> role option" where
  "parse_role s = (if s = role_admin \<or> s = role_editor \<or> s = role_viewer then Some s else None)"

record grant =
  g_scope :: string
  g_role :: role

record identity =
  id_user :: string
  id_email :: string
  id_name :: string
  id_origin :: string
  id_anonymous :: bool
  id_grants :: "grant list"

definition covers :: "grant \<Rightarrow> string \<Rightarrow> bool" where
  "covers g project \<longleftrightarrow> g_scope g = ''*'' \<or> g_scope g = project"

text \<open>The loop of \<open>RoleFor\<close>; \<open>best\<close> is \<open>None\<close> until a grant is found.\<close>

fun role_for_from :: "string \<Rightarrow> role option \<Rightarrow> grant list \<Rightarrow> role option" where
  "role_for_from project best [] = best"
| "role_for_from project best (g # gs) =
     (if covers g project then
        (if parse_role (g_role g) = None then role_for_from project best gs
         else role_for_from project
           (case best of None \<Rightarrow> Some (g_role g)
            | Some b \<Rightarrow> if role_rank b < role_rank (g_role g) then Some (g_role g) else Some b) gs)
      else role_for_from project best gs)"

definition role_for :: "identity \<Rightarrow> string \<Rightarrow> role option" where
  "role_for i project = role_for_from project None (id_grants i)"

definition can_access :: "identity \<Rightarrow> string \<Rightarrow> role \<Rightarrow> bool" where
  "can_access i project need =
     (case role_for i project of None \<Rightarrow> False | Some r \<Rightarrow> role_allows r need)"

definition is_admin :: "identity \<Rightarrow> bool" where
  "is_admin i = list_ex (\<lambda>g. g_scope g = ''*'' \<and> g_role g = role_admin) (id_grants i)"

definition has_wildcard :: "identity \<Rightarrow> bool" where
  "has_wildcard i = list_ex (\<lambda>g. g_scope g = ''*'' \<and> parse_role (g_role g) \<noteq> None) (id_grants i)"

definition project_scopes :: "identity \<Rightarrow> string list" where
  "project_scopes i = dedup (map g_scope (filter (\<lambda>g. g_scope g \<noteq> ''*'') (id_grants i)))"

section \<open>Ranks\<close>

lemma role_rank_simps [simp]:
  "role_rank role_admin = 3" "role_rank role_editor = 2" "role_rank role_viewer = 1"
  by (simp_all add: role_rank_def role_defs)

lemma role_rank_pos: "0 < role_rank r \<longleftrightarrow> parse_role r \<noteq> None"
  by (auto simp: role_rank_def parse_role_def)

lemma role_rank_le3: "role_rank r \<le> 3"
  by (simp add: role_rank_def)

lemma role_rank_inj: "role_rank r = role_rank s \<Longrightarrow> 0 < role_rank r \<Longrightarrow> r = s"
  by (auto simp: role_rank_def split: if_splits)

lemma parse_role_Some [simp]: "parse_role r = Some s \<longleftrightarrow> s = r \<and> 0 < role_rank r"
  by (auto simp: parse_role_def role_rank_def)

lemma parse_role_None [simp]: "parse_role r = None \<longleftrightarrow> role_rank r = 0"
  by (simp add: parse_role_def role_rank_def role_defs)

lemma role_allows_iff: "role_allows r need \<longleftrightarrow> 0 < role_rank need \<and> role_rank need \<le> role_rank r"
  by (simp add: role_allows_def)

lemma role_allows_trans: "role_allows a b \<Longrightarrow> role_allows b c \<Longrightarrow> role_allows a c"
  by (auto simp: role_allows_iff)

section \<open>The strongest role\<close>

text \<open>The grants that count for a project: they cover it and carry a known role.\<close>

definition counts_for :: "grant \<Rightarrow> string \<Rightarrow> bool" where
  "counts_for g project \<longleftrightarrow> covers g project \<and> 0 < role_rank (g_role g)"

lemma role_for_from_rank:
  assumes "\<forall>b. best = Some b \<longrightarrow> 0 < role_rank b"
  shows "case role_for_from project best gs of
      None \<Rightarrow> best = None \<and> (\<forall>g\<in>set gs. \<not> counts_for g project)
    | Some r \<Rightarrow> 0 < role_rank r \<and> (best = Some r \<or> (\<exists>g\<in>set gs. counts_for g project \<and> g_role g = r)) \<and>
        (\<forall>b. best = Some b \<longrightarrow> role_rank b \<le> role_rank r) \<and>
        (\<forall>g\<in>set gs. counts_for g project \<longrightarrow> role_rank (g_role g) \<le> role_rank r)"
  using assms
proof (induction gs arbitrary: best)
  case Nil
  then show ?case by (auto split: option.splits)
next
  case (Cons g gs)
  show ?case
  proof (cases "counts_for g project")
    case False
    with Cons.IH [of best] Cons.prems show ?thesis
      by (auto simp: counts_for_def split: option.splits)
  next
    case True
    define best' where "best' = (case best of None \<Rightarrow> Some (g_role g)
        | Some b \<Rightarrow> if role_rank b < role_rank (g_role g) then Some (g_role g) else Some b)"
    have eq: "role_for_from project best (g # gs) = role_for_from project best' gs"
      using True by (simp add: counts_for_def best'_def)
    have "\<forall>b. best' = Some b \<longrightarrow> 0 < role_rank b"
      using True Cons.prems by (auto simp: best'_def counts_for_def split: option.splits)
    from Cons.IH [OF this] True show ?thesis
      unfolding eq by (fastforce simp: best'_def split: option.splits if_splits)
  qed
qed

lemma role_for_None: "role_for i project = None \<longleftrightarrow> (\<forall>g\<in>set (id_grants i). \<not> counts_for g project)"
  using role_for_from_rank [where best = None and project = project and gs = "id_grants i"]
  by (force simp: role_for_def split: option.splits)

lemma role_for_SomeD:
  assumes "role_for i project = Some r"
  shows "0 < role_rank r" "\<exists>g\<in>set (id_grants i). counts_for g project \<and> g_role g = r"
    "\<And>g. g \<in> set (id_grants i) \<Longrightarrow> counts_for g project \<Longrightarrow> role_rank (g_role g) \<le> role_rank r"
  using role_for_from_rank [where best = None and project = project and gs = "id_grants i"] assms by (auto simp: role_for_def)

lemma can_access_iff:
  "can_access i project need \<longleftrightarrow>
     (\<exists>g\<in>set (id_grants i). covers g project \<and> role_allows (g_role g) need)"
proof (cases "role_for i project")
  case None
  then show ?thesis using role_for_None [of i project]
    by (auto simp: can_access_def counts_for_def role_allows_iff)
next
  case (Some r)
  with role_for_SomeD [OF Some] show ?thesis
    by (auto simp: can_access_def counts_for_def role_allows_iff)
      (metis gr_zeroI le_zero_eq le_trans not_less)
qed

lemma can_access_mono_grants:
  "can_access i project need \<Longrightarrow> set (id_grants i) \<subseteq> set (id_grants j) \<Longrightarrow> can_access j project need"
  by (auto simp: can_access_iff)

lemma can_access_weaker: "can_access i project need \<Longrightarrow> role_allows need need' \<Longrightarrow> can_access i project need'"
  by (auto simp: can_access_iff intro: role_allows_trans)

lemma is_admin_iff: "is_admin i \<longleftrightarrow> (\<exists>g\<in>set (id_grants i). g_scope g = ''*'' \<and> g_role g = role_admin)"
  by (simp add: is_admin_def list_ex_iff)

lemma is_admin_can_access: "is_admin i \<Longrightarrow> 0 < role_rank need \<Longrightarrow> can_access i project need"
  using role_rank_le3 [of need]
  by (auto simp: is_admin_iff can_access_iff covers_def role_allows_iff intro!: bexI)

lemma set_project_scopes: "set (project_scopes i) = {s. s \<noteq> ''*'' \<and> (\<exists>g\<in>set (id_grants i). g_scope g = s)}"
  by (auto simp: project_scopes_def)

section \<open>Properties\<close>

text \<open>The role an identity holds on a project is the strongest one among its grants that
  cover the project (by name or through the wildcard scope) with a known role: it is one of
  those roles, no covering grant outranks it, and there is none exactly when no such grant
  exists. Unknown role strings in stored rows never count.\<close>

theorem role_for_strongest:
  "role_for i project = Some r \<longleftrightarrow>
     (\<exists>g\<in>set (id_grants i). counts_for g project \<and> g_role g = r) \<and>
     (\<nexists>g. g \<in> set (id_grants i) \<and> counts_for g project \<and> role_rank r < role_rank (g_role g))"
  (is "?l \<longleftrightarrow> ?r")
proof
  assume ?l
  from role_for_SomeD [OF this] show ?r by (auto simp: not_less)
next
  assume r: ?r
  then obtain s where s: "role_for i project = Some s" using role_for_None by fastforce
  from r role_for_SomeD [OF s] have "role_rank r = role_rank s"
    by (metis counts_for_def le_antisym not_less)
  with role_for_SomeD(1) [OF s] role_rank_inj s show ?l by metis
qed

end
