(* ===== verification/Limiter.thy ===== *)
theory Limiter
  imports Prelude
begin

text \<open>
  The contract of a limiter that looks back over a sliding window: an operation on a key at
  an instant is admitted or refused, and what the state remembers of a key is the list of
  its admissions that are still inside the window. The debounce of token bookkeeping writes
  and the bound on client registrations both provide it. The client lemma is the guarantee a
  caller wants: over any run whose clock does not go back, no window holds more than
  \<open>limit\<close> admissions of one key.
\<close>

text \<open>The admissions of one key in a run over a list of calls, with their instants.\<close>

fun admissions :: "('s \<Rightarrow> 'k \<Rightarrow> instant \<Rightarrow> bool \<times> 's) \<Rightarrow> 's \<Rightarrow> 'k \<Rightarrow> ('k \<times> instant) list \<Rightarrow> instant list" where
  "admissions step s key [] = []"
| "admissions step s key ((k, now) # cs) =
     (case step s k now of (ok, s') \<Rightarrow>
        (if ok \<and> k = key then [now] else []) @ admissions step s' key cs)"

definition clock_ok :: "('k \<times> instant) list \<Rightarrow> bool" where
  "clock_ok cs \<longleftrightarrow> sorted (map snd cs)"

text \<open>How many instants of a log fall in the window that opens just after \<open>a\<close>.\<close>

definition in_window :: "duration \<Rightarrow> instant \<Rightarrow> instant list \<Rightarrow> nat" where
  "in_window w a log = length (filter (\<lambda>t. a < t \<and> t \<le> a + w) log)"

lemma in_window_Nil [simp]: "in_window w a [] = 0"
  by (simp add: in_window_def)

lemma in_window_append [simp]: "in_window w a (xs @ ys) = in_window w a xs + in_window w a ys"
  by (simp add: in_window_def)

locale sliding_limiter =
  fixes step :: "'s \<Rightarrow> 'k \<Rightarrow> instant \<Rightarrow> bool \<times> 's"
    and recent :: "'s \<Rightarrow> 'k \<Rightarrow> instant \<Rightarrow> instant list"
    and window :: duration
    and limit :: nat
    and good :: "'s \<Rightarrow> bool"
  assumes good_step: "good s \<Longrightarrow> good (snd (step s k now))"
    and admitted_room: "fst (step s k now) \<Longrightarrow> length (recent s k now) < limit"
    and recent_step: "good s \<Longrightarrow> now \<le> later \<Longrightarrow>
      mset (recent (snd (step s k now)) k' later) =
      filter_mset (\<lambda>t. later - t < window)
        (mset (recent s k' now) + (if fst (step s k now) \<and> k' = k then {#now#} else {#}))"
begin

lemma room_after:
  assumes "length (filter (\<lambda>t. now - t < window) old) < limit"
    and "\<And>a. in_window window a old \<le> limit"
  shows "in_window window a (old @ [now]) \<le> limit"
proof (cases "a < now \<and> now \<le> a + window")
  case True
  then have "length (filter (\<lambda>t. a < t \<and> t \<le> a + window) old) \<le> length (filter (\<lambda>t. now - t < window) old)"
    by (intro length_filter_mono) auto
  with assms(1) show ?thesis by (simp add: in_window_def)
next
  case False
  with assms(2) [of a] show ?thesis by (auto simp: in_window_def)
qed

lemma window_bound_from:
  assumes "good s" and "clock_ok cs" and "\<forall>c\<in>set cs. start \<le> snd c"
    and "\<And>later. start \<le> later \<Longrightarrow> mset (recent s key later) = filter_mset (\<lambda>t. later - t < window) (mset old)"
    and "\<And>a. in_window window a old \<le> limit"
  shows "in_window window a (old @ admissions step s key cs) \<le> limit"
  using assms
proof (induction cs arbitrary: s start old)
  case Nil
  then show ?case by simp
next
  case (Cons c cs)
  obtain k now where c: "c = (k, now)" by (cases c)
  obtain ok s' where st: "step s k now = (ok, s')" by (cases "step s k now")
  define new where "new = (if ok \<and> k = key then [now] else [])"
  have start: "start \<le> now" and rest: "clock_ok cs" "\<forall>c\<in>set cs. now \<le> snd c"
    using Cons.prems(2,3) by (auto simp: c clock_ok_def)
  have rec: "mset (recent s' key later) = filter_mset (\<lambda>t. later - t < window) (mset (old @ new))"
    if "now \<le> later" for later
    using recent_step [OF Cons.prems(1) that, of k key] Cons.prems(4) [OF start] that
    by (auto simp: st new_def filter_filter_mset intro!: filter_mset_cong)
  have room: "in_window window a (old @ new) \<le> limit" for a
  proof (cases "ok \<and> k = key")
    case True
    then have "size (mset (recent s key now)) < limit" using admitted_room [of s k now] st by simp
    with True Cons.prems(4) [OF start] have "length (filter (\<lambda>t. now - t < window) old) < limit"
      by (metis mset_filter size_mset)
    then have "in_window window a (old @ [now]) \<le> limit" using Cons.prems(5) by (rule room_after)
    with True show ?thesis by (simp add: new_def)
  qed (use Cons.prems(5) in \<open>auto simp: new_def\<close>)
  have "in_window window a ((old @ new) @ admissions step s' key cs) \<le> limit"
    using Cons.IH [OF _ rest rec room] good_step [OF Cons.prems(1), of k now] st by simp
  then show ?case by (simp add: c st new_def)
qed

lemma window_bound:
  assumes "good s" and "clock_ok cs" and "\<And>later. recent s key later = []"
  shows "in_window window a (admissions step s key cs) \<le> limit"
proof (cases cs)
  case (Cons c cs')
  have "in_window window a ([] @ admissions step s key cs) \<le> limit"
    by (rule window_bound_from [where start = "snd c"])
      (use assms Cons in \<open>auto simp: clock_ok_def\<close>)
  then show ?thesis by simp
qed simp

end

end
