(* ===== verification/Registrar.thy ===== *)
theory Registrar
  imports Limiter
begin

text \<open>
  The bound on unauthenticated client registrations (hub/internal/oauth/limit.go). The state
  maps a caller's address to the instants of its admitted attempts that are still inside the
  window; the method holds a mutex for its whole body, so one call is one step.
\<close>

record registrar =
  per_ip :: "string \<rightharpoonup> instant list"
  reg_window :: duration
  reg_max :: int

definition new_registrar :: "int \<Rightarrow> duration \<Rightarrow> registrar" where
  "new_registrar mx w = \<lparr>per_ip = Map.empty, reg_window = w, reg_max = mx\<rparr>"

definition attempts_of :: "registrar \<Rightarrow> string \<Rightarrow> instant list" where
  "attempts_of r ip = (case per_ip r ip of None \<Rightarrow> [] | Some ts \<Rightarrow> ts)"

definition registrar_allow :: "registrar \<Rightarrow> string \<Rightarrow> instant \<Rightarrow> bool \<times> registrar" where
  "registrar_allow r ip now =
     (let cut_at = now - reg_window r;
          kept = filter (\<lambda>t. cut_at < t) (attempts_of r ip);
          r1 = r\<lparr>per_ip := (if kept = [] then (per_ip r)(ip := None) else (per_ip r)(ip \<mapsto> kept))\<rparr>
      in if reg_max r \<le> int (length kept) then (False, r1)
         else (True, r1\<lparr>per_ip := (per_ip r1)(ip \<mapsto> attempts_of r1 ip @ [now])\<rparr>))"

section \<open>The sliding window\<close>

definition live_attempts :: "registrar \<Rightarrow> string \<Rightarrow> instant \<Rightarrow> instant list" where
  "live_attempts r ip now = filter (\<lambda>t. now - t < reg_window r) (attempts_of r ip)"

lemma registrar_allow_params [simp]:
  "reg_window (snd (registrar_allow r ip now)) = reg_window r"
  "reg_max (snd (registrar_allow r ip now)) = reg_max r"
  by (simp_all add: registrar_allow_def Let_def)

lemma attempts_after_allow:
  "attempts_of (snd (registrar_allow r ip now)) ip' =
     (if ip' = ip then live_attempts r ip now @ (if fst (registrar_allow r ip now) then [now] else [])
      else attempts_of r ip')"
proof -
  have "(\<lambda>t. now - reg_window r < t) = (\<lambda>t. now - t < reg_window r)" by (auto simp: fun_eq_iff)
  then show ?thesis
    by (auto simp: registrar_allow_def Let_def attempts_of_def live_attempts_def)
qed

lemma allow_iff_room:
  "fst (registrar_allow r ip now) \<longleftrightarrow> int (length (live_attempts r ip now)) < reg_max r"
proof -
  have "(\<lambda>t. now - reg_window r < t) = (\<lambda>t. now - t < reg_window r)" by (auto simp: fun_eq_iff)
  then show ?thesis by (auto simp: registrar_allow_def Let_def live_attempts_def)
qed

text \<open>
  The limiter contract, with the parameters held fixed: a step of a registrar with a given
  window and bound is a step of the sliding limiter.
\<close>

definition fixed_allow :: "int \<Rightarrow> duration \<Rightarrow> (string \<rightharpoonup> instant list) \<Rightarrow> string \<Rightarrow> instant \<Rightarrow>
    bool \<times> (string \<rightharpoonup> instant list)" where
  "fixed_allow mx w m ip now =
     (case registrar_allow \<lparr>per_ip = m, reg_window = w, reg_max = mx\<rparr> ip now of (ok, r) \<Rightarrow> (ok, per_ip r))"

definition fixed_recent :: "int \<Rightarrow> duration \<Rightarrow> (string \<rightharpoonup> instant list) \<Rightarrow> string \<Rightarrow> instant \<Rightarrow> instant list" where
  "fixed_recent mx w m ip now = live_attempts \<lparr>per_ip = m, reg_window = w, reg_max = mx\<rparr> ip now"

lemma allow_eq_fixed:
  "registrar_allow r ip now =
     (case fixed_allow (reg_max r) (reg_window r) (per_ip r) ip now of (ok, m) \<Rightarrow> (ok, r\<lparr>per_ip := m\<rparr>))"
  by (cases r) (simp add: fixed_allow_def registrar_allow_def Let_def attempts_of_def split: prod.splits)

lemma fixed_allow_attempts:
  "attempts_of \<lparr>per_ip = snd (fixed_allow mx w m ip now), reg_window = w, reg_max = mx\<rparr> ip' =
     (if ip' = ip then fixed_recent mx w m ip now @ (if fst (fixed_allow mx w m ip now) then [now] else [])
      else attempts_of \<lparr>per_ip = m, reg_window = w, reg_max = mx\<rparr> ip')"
proof -
  let ?r = "\<lparr>per_ip = m, reg_window = w, reg_max = mx\<rparr>"
  have "attempts_of \<lparr>per_ip = snd (fixed_allow mx w m ip now), reg_window = w, reg_max = mx\<rparr> ip' =
      attempts_of (snd (registrar_allow ?r ip now)) ip'"
    by (simp add: fixed_allow_def attempts_of_def split: prod.splits)
  moreover have "fst (fixed_allow mx w m ip now) = fst (registrar_allow ?r ip now)"
    by (simp add: fixed_allow_def split: prod.splits)
  ultimately show ?thesis by (simp add: attempts_after_allow fixed_recent_def)
qed

lemma later_window:
  "now \<le> later \<Longrightarrow> (later - t < w \<and> now - t < w) = (later - t < (w :: duration))"
  "now \<le> later \<Longrightarrow> (now - t < w \<and> later - t < w) = (later - t < (w :: duration))"
  by auto

interpretation reg: sliding_limiter "fixed_allow mx w" "fixed_recent mx w" w "nat mx" "\<lambda>_. True" for mx w
proof
  fix s k now
  show "fst (fixed_allow mx w s k now) \<Longrightarrow> length (fixed_recent mx w s k now) < nat mx"
    using allow_iff_room [of "\<lparr>per_ip = s, reg_window = w, reg_max = mx\<rparr>" k now]
    by (auto simp: fixed_allow_def fixed_recent_def split: prod.splits)
  fix later k'
  assume le: "now \<le> (later :: int)"
  show "mset (fixed_recent mx w (snd (fixed_allow mx w s k now)) k' later) =
      filter_mset (\<lambda>t. later - t < w) (mset (fixed_recent mx w s k' now) +
        (if fst (fixed_allow mx w s k now) \<and> k' = k then {#now#} else {#}))"
    unfolding fixed_recent_def [of mx w "snd (fixed_allow mx w s k now)"] live_attempts_def
      fixed_allow_attempts
    by (simp add: fixed_recent_def live_attempts_def filter_filter_mset later_window [OF le]
        mset_filter [symmetric] del: mset_filter)
qed

lemma admissions_fixed:
  "admissions registrar_allow r ip cs = admissions (fixed_allow (reg_max r) (reg_window r)) (per_ip r) ip cs"
proof (induction cs arbitrary: r)
  case (Cons c cs)
  obtain k now where c: "c = (k, now)" by (cases c)
  show ?case
    by (simp add: c allow_eq_fixed [of r] Cons.IH split: prod.splits)
qed simp

section \<open>Properties\<close>

text \<open>Client registration is bounded per address: over any sequence of registration
  attempts whose clock does not go back, no window of the configured length, wherever it
  starts, holds more than the configured number of admitted attempts from one address.\<close>

theorem registrations_bounded:
  assumes "clock_ok cs"
  shows "in_window w a (admissions registrar_allow (new_registrar mx w) ip cs) \<le> nat mx"
  using reg.window_bound [OF TrueI assms, of mx w Map.empty ip a]
  by (simp add: admissions_fixed new_registrar_def fixed_recent_def live_attempts_def attempts_of_def)

theorem registrations_bounded_witness:
  "in_window 60 0 (admissions registrar_allow (new_registrar 2 60) ''ip''
      [(''ip'', 1), (''ip'', 2), (''ip'', 3), (''other'', 3), (''ip'', 62)]) \<le> nat 2 \<and>
   admissions registrar_allow (new_registrar 2 60) ''ip''
      [(''ip'', 1), (''ip'', 2), (''ip'', 3), (''other'', 3), (''ip'', 62)] = [1, 2, 62]"
proof
  show "in_window 60 0 (admissions registrar_allow (new_registrar 2 60) ''ip''
      [(''ip'', 1), (''ip'', 2), (''ip'', 3), (''other'', 3), (''ip'', 62)]) \<le> nat 2"
    by (rule registrations_bounded) (simp add: clock_ok_def)
qed (simp add: new_registrar_def registrar_allow_def attempts_of_def Let_def)

end
