(* ===== verification/RateLimit.thy ===== *)
theory RateLimit
  imports Prelude Limiter
begin

text \<open>
  The failed-credential limiter (hub/internal/auth/ratelimit.go): three fixed-window counters,
  per account and source, per source, and per account alone. The maps are looked up and
  pruned key by key, so they are functions; a count is an \<open>int\<close>. Checking a guess and counting
  its failure are critical sections of their own with the password check between them, so guesses
  interleave. The three axes are instances of one interface, and its client lemma bounds how many
  wrong guesses any stretch of one window's length can hold, by the limit and the most guesses
  that were between their two sections at once.
\<close>

definition max_login_attempts :: int where "max_login_attempts = 5"

definition max_login_attempts_per_ip :: int where "max_login_attempts_per_ip = 30"

definition max_account_attempts :: int where "max_account_attempts = 20"

definition login_window :: duration where "login_window = minute"

lemmas limit_defs = max_login_attempts_def max_login_attempts_per_ip_def max_account_attempts_def

record window =
  win_start :: instant
  win_count :: int

type_synonym windows = "string \<rightharpoonup> window"

record rate_limiter =
  key_windows :: windows
  ip_windows :: windows
  acct_windows :: windows

definition new_rate_limiter :: rate_limiter where
  "new_rate_limiter = \<lparr>key_windows = Map.empty, ip_windows = Map.empty, acct_windows = Map.empty\<rparr>"

definition prune_windows :: "windows \<Rightarrow> instant \<Rightarrow> windows" where
  "prune_windows m now = (\<lambda>k. case m k of None \<Rightarrow> None
     | Some w \<Rightarrow> if login_window < time_sub now (win_start w) then None else Some w)"

definition prune :: "rate_limiter \<Rightarrow> instant \<Rightarrow> rate_limiter" where
  "prune l now = \<lparr>key_windows = prune_windows (key_windows l) now,
     ip_windows = prune_windows (ip_windows l) now,
     acct_windows = prune_windows (acct_windows l) now\<rparr>"

definition bump :: "windows \<Rightarrow> string \<Rightarrow> instant \<Rightarrow> windows" where
  "bump m key now =
     (case m key of
        None \<Rightarrow> m(key \<mapsto> \<lparr>win_start = now, win_count = 1\<rparr>)
      | Some w \<Rightarrow>
          if login_window < time_sub now (win_start w)
          then m(key \<mapsto> \<lparr>win_start = now, win_count = 1\<rparr>)
          else m(key \<mapsto> w\<lparr>win_count := win_count w + 1\<rparr>))"

definition over_limit :: "windows \<Rightarrow> string \<Rightarrow> int \<Rightarrow> bool" where
  "over_limit m key mx = (case m key of None \<Rightarrow> False | Some w \<Rightarrow> mx \<le> win_count w)"

definition blocked :: "rate_limiter \<Rightarrow> string \<Rightarrow> string \<Rightarrow> string \<Rightarrow> instant \<Rightarrow> bool \<times> rate_limiter" where
  "blocked l key ip acct now =
     (let l1 = prune l now in
      if over_limit (key_windows l1) key max_login_attempts then (True, l1)
      else if over_limit (ip_windows l1) ip max_login_attempts_per_ip then (True, l1)
      else if over_limit (acct_windows l1) acct max_account_attempts then (True, l1)
      else (False, l1))"

definition fail_attempt :: "rate_limiter \<Rightarrow> string \<Rightarrow> string \<Rightarrow> string \<Rightarrow> instant \<Rightarrow> rate_limiter" where
  "fail_attempt l key ip acct now =
     \<lparr>key_windows = bump (key_windows l) key now, ip_windows = bump (ip_windows l) ip now,
      acct_windows = bump (acct_windows l) acct now\<rparr>"

text \<open>
  A guess, as both callers (\<open>Login\<close> and \<open>ChangePassword\<close>) use the limiter. It is refused when
  blocked; otherwise the password is checked, and it fails, which is counted, or ends otherwise
  (the password was right, or the store did not answer). These are events of their own, and those
  of other guesses may come between them.
\<close>

record guess =
  at_key :: string
  at_ip :: string
  at_acct :: string

datatype attempt = Checks guess | Fails guess | Leaves guess

text \<open>The guesses between their check and their end, and the failures that were counted.\<close>

record guess_run =
  gr_limiter :: rate_limiter
  gr_flight :: "guess list"
  gr_failed :: "(guess \<times> instant) list"

definition no_guesses :: guess_run where
  "no_guesses = \<lparr>gr_limiter = new_rate_limiter, gr_flight = [], gr_failed = []\<rparr>"

definition attempt_step :: "attempt \<times> instant \<Rightarrow> guess_run \<Rightarrow> guess_run" where
  "attempt_step e s =
     (case e of
        (Checks g, now) \<Rightarrow>
          (case blocked (gr_limiter s) (at_key g) (at_ip g) (at_acct g) now of
             (True, l) \<Rightarrow> s\<lparr>gr_limiter := l\<rparr>
           | (False, l) \<Rightarrow> s\<lparr>gr_limiter := l, gr_flight := g # gr_flight s\<rparr>)
      | (Fails g, now) \<Rightarrow>
          if g \<in> set (gr_flight s)
          then s\<lparr>gr_limiter := fail_attempt (gr_limiter s) (at_key g) (at_ip g) (at_acct g) now,
                  gr_flight := remove1 g (gr_flight s), gr_failed := gr_failed s @ [(g, now)]\<rparr>
          else s
      | (Leaves g, now) \<Rightarrow> s\<lparr>gr_flight := remove1 g (gr_flight s)\<rparr>)"

definition run_attempts :: "(attempt \<times> instant) list \<Rightarrow> guess_run \<Rightarrow> guess_run" where
  "run_attempts es s = fold attempt_step es s"

text \<open>The instants of the guesses on one key that failed, and how many are in flight: now, and at most.\<close>

definition failed_at :: "(guess \<Rightarrow> string) \<Rightarrow> string \<Rightarrow> guess_run \<Rightarrow> instant list" where
  "failed_at key_of k s = map snd (filter (\<lambda>p. key_of (fst p) = k) (gr_failed s))"

definition in_flight :: "(guess \<Rightarrow> string) \<Rightarrow> string \<Rightarrow> guess_run \<Rightarrow> nat" where
  "in_flight key_of k s = length (filter (\<lambda>g. key_of g = k) (gr_flight s))"

fun peak_flight :: "(guess \<Rightarrow> string) \<Rightarrow> string \<Rightarrow> guess_run \<Rightarrow> (attempt \<times> instant) list \<Rightarrow> nat" where
  "peak_flight key_of k s [] = in_flight key_of k s"
| "peak_flight key_of k s (e # es) = max (in_flight key_of k s) (peak_flight key_of k (attempt_step e s) es)"

lemma login_window_less [simp]: "login_window < time_sub now t \<longleftrightarrow> login_window < now - t"
  by (rule time_sub_gt) (simp_all add: login_window_def duration_defs)

section \<open>One axis\<close>

text \<open>
  The log of one key as windows, newest first: each window has its start, which is the first guess
  counted in it, and the guesses counted in it; windows do not overlap and none is over the limit.
\<close>

fun windows_ok :: "nat \<Rightarrow> (instant \<times> instant list) list \<Rightarrow> bool" where
  "windows_ok mx [] = True"
| "windows_ok mx ((s, ts) # ws) =
     (length ts \<le> mx \<and> s \<in> set ts \<and> (\<forall>t\<in>set ts. s \<le> t \<and> t \<le> s + login_window) \<and>
      (\<forall>w\<in>set ws. fst w + login_window < s) \<and> windows_ok mx ws)"

lemma windows_ok_old:
  "windows_ok mx ws \<Longrightarrow> (\<forall>w\<in>set ws. fst w + login_window < s) \<Longrightarrow> t \<in> set (concat (map snd ws)) \<Longrightarrow> t < s"
  by (induction mx ws rule: windows_ok.induct) fastforce+

lemma in_window_old: "\<forall>t\<in>set ts. t \<le> a \<Longrightarrow> in_window w a ts = 0"
  by (auto simp: in_window_def filter_empty_conv)

lemma in_window_le_length: "in_window w a ts \<le> length ts"
  by (simp add: in_window_def)

lemma in_window_start: "s \<in> set ts \<Longrightarrow> s \<le> a \<Longrightarrow> in_window w a ts < length ts"
  unfolding in_window_def by (rule length_filter_less [of s]) auto

text \<open>Two windows meet an interval of their length; the older one's first guess is before it.\<close>

lemma windows_ok_two:
  assumes "windows_ok mx ws"
  shows "in_window login_window a (concat (map snd ws)) \<le> 2 * mx - 1"
  using assms
proof (induction mx ws rule: windows_ok.induct)
  case (2 mx s ts ws)
  note ok = "2.prems"
  have len: "in_window login_window a ts \<le> mx" "1 \<le> mx"
    using ok in_window_le_length [of login_window a ts] by (auto, cases ts) auto
  show ?case
  proof (cases "in_window login_window a ts = 0")
    case True
    with 2 show ?thesis by simp
  next
    case False
    then obtain t where t: "t \<in> set ts" "t \<le> a + login_window"
      by (auto simp: in_window_def filter_empty_conv)
    with ok have a: "s - login_window \<le> a" by auto
    show ?thesis
    proof (cases ws)
      case (Cons w ws')
      obtain s' ts' where w: "w = (s', ts')" by (cases w)
      with ok Cons a have "s' \<le> a" by auto
      have "\<forall>u\<in>set (concat (map snd ws')). u < s'"
        using windows_ok_old [of mx ws' s'] ok Cons w by auto
      with \<open>s' \<le> a\<close> have "in_window login_window a (concat (map snd ws')) = 0"
        by (intro in_window_old) force
      moreover have "in_window login_window a ts' < mx"
        using ok Cons w in_window_start [OF _ \<open>s' \<le> a\<close>, of ts' login_window] by simp
      ultimately show ?thesis using Cons w len by simp
    qed (use len in simp)
  qed
qed simp

text \<open>How the stored window of a key describes the newest window of its log.\<close>

definition axis_inv :: "nat \<Rightarrow> window option \<Rightarrow> (instant \<times> instant list) list \<Rightarrow> instant \<Rightarrow> bool" where
  "axis_inv mx w ws now \<longleftrightarrow> windows_ok mx ws \<and>
     (case w of
        None \<Rightarrow> \<forall>v\<in>set ws. fst v + login_window < now
      | Some v \<Rightarrow> (\<exists>ts ws'. ws = (win_start v, ts) # ws' \<and> win_count v = int (length ts)) \<and> win_start v \<le> now)"

lemma login_window_nonneg: "0 \<le> login_window"
  by (simp add: login_window_def duration_defs)

text \<open>Once the newest window is over, every window of the log is.\<close>

lemma windows_over:
  assumes "windows_ok mx ((s, ts) # ws)" and "login_window < t - s"
  shows "\<forall>w\<in>set ((s, ts) # ws). fst w + login_window < t"
  using assms login_window_nonneg by fastforce

lemma axis_inv_prune:
  assumes "axis_inv mx (m k) ws now" and "now \<le> t"
  shows "axis_inv mx (prune_windows m t k) ws t"
proof (cases "m k")
  case None
  with assms show ?thesis by (auto simp: axis_inv_def prune_windows_def)
next
  case (Some w)
  with assms obtain ts ws' where ws: "ws = (win_start w, ts) # ws'" "windows_ok mx ws"
    by (auto simp: axis_inv_def)
  show ?thesis
    using Some assms ws windows_over [of mx "win_start w" ts ws' t]
    by (auto simp: axis_inv_def prune_windows_def)
qed

lemma axis_inv_later: "axis_inv mx w ws now \<Longrightarrow> now \<le> t \<Longrightarrow> axis_inv mx w ws t"
  by (fastforce simp: axis_inv_def split: option.splits)

text \<open>How many guesses of a key are counted in its window, if it is still open at an instant.\<close>

definition counted_now :: "window option \<Rightarrow> instant \<Rightarrow> int" where
  "counted_now w now = (case w of None \<Rightarrow> 0 | Some v \<Rightarrow> if now - win_start v \<le> login_window then win_count v else 0)"

lemma axis_inv_bump:
  assumes "axis_inv mx (m k) ws now" and "now \<le> t" and "counted_now (m k) t < int mx"
  shows "(\<exists>ws'. axis_inv mx (bump m k t k) ws' t \<and>
    mset (concat (map snd ws')) = mset (concat (map snd ws)) + {#t#}) \<and>
    counted_now (bump m k t k) t = counted_now (m k) t + 1"
proof (cases "m k")
  case None
  with assms show ?thesis
    by (intro conjI exI [of _ "(t, [t]) # ws"])
      (auto simp: axis_inv_def bump_def counted_now_def login_window_def duration_defs)
next
  case (Some w)
  with assms(1) obtain ts ws' where ws: "ws = (win_start w, ts) # ws'" "win_count w = int (length ts)"
    and le: "win_start w \<le> now" and ok: "windows_ok mx ws"
    by (auto simp: axis_inv_def)
  show ?thesis
  proof (cases "login_window < t - win_start w")
    case True
    with windows_over [of mx "win_start w" ts ws' t] ok ws
    have over: "\<forall>v\<in>set ws. fst v + login_window < t" by simp
    show ?thesis
      using Some assms(3) ok over True login_window_nonneg
      by (intro conjI exI [of _ "(t, [t]) # ws"]) (simp_all add: axis_inv_def bump_def counted_now_def)
  next
    case False
    with Some assms ok ws le show ?thesis
      by (intro conjI exI [of _ "(win_start w, t # ts) # ws'"])
        (auto simp: axis_inv_def bump_def counted_now_def)
  qed
qed

locale fixed_window_axis =
  fixes get :: "rate_limiter \<Rightarrow> windows"
    and key_of :: "guess \<Rightarrow> string"
    and limit :: nat
  assumes limit_pos: "0 < limit"
    and starts_empty: "get new_rate_limiter = Map.empty"
    and checked: "blocked l (at_key g) (at_ip g) (at_acct g) now = (b, l') \<Longrightarrow>
      get l' = prune_windows (get l) now \<and> (\<not> b \<longrightarrow> \<not> over_limit (get l') (key_of g) (int limit))"
    and counted: "get (fail_attempt l (at_key g) (at_ip g) (at_acct g) now) = bump (get l) (key_of g) now"
begin

text \<open>What a run keeps of a key when at most \<open>c\<close> of its guesses are in flight at once: the windows of its log,
  and room for all that are in flight to be counted.\<close>

definition run_inv :: "nat \<Rightarrow> string \<Rightarrow> guess_run \<Rightarrow> instant \<Rightarrow> bool" where
  "run_inv c k s now \<longleftrightarrow>
     (\<exists>ws. axis_inv (limit - 1 + c) (get (gr_limiter s) k) ws now \<and>
       mset (concat (map snd ws)) = mset (failed_at key_of k s)) \<and>
     (\<forall>t\<ge>now. counted_now (get (gr_limiter s) k) t + int (in_flight key_of k s) \<le> int (limit - 1 + c))"

lemma pruned_counts: "counted_now (prune_windows m t k) t' \<le> counted_now (m k) t' \<or> t' < t"
  by (auto simp: counted_now_def prune_windows_def split: option.split)

lemma pruned_room:
  assumes "\<not> over_limit (prune_windows m t) k (int limit)"
  shows "counted_now (prune_windows m t k) t' \<le> int (limit - 1)"
  using assms limit_pos by (auto simp: counted_now_def over_limit_def split: option.splits)

lemma checks_inv:
  assumes inv: "run_inv c k s now" and "now \<le> t" and "in_flight key_of k (attempt_step (Checks g, t) s) \<le> c"
  shows "run_inv c k (attempt_step (Checks g, t) s) t"
proof -
  obtain b l' where bl: "blocked (gr_limiter s) (at_key g) (at_ip g) (at_acct g) t = (b, l')" by fastforce
  note ch = checked [OF bl]
  let ?s = "attempt_step (Checks g, t) s"
  have s': "gr_limiter ?s = l'" "failed_at key_of k ?s = failed_at key_of k s"
    "in_flight key_of k ?s = in_flight key_of k s + (if \<not> b \<and> key_of g = k then 1 else 0)"
    by (simp_all add: attempt_step_def bl failed_at_def in_flight_def split: bool.split)
  from inv obtain ws where ws: "axis_inv (limit - 1 + c) (get (gr_limiter s) k) ws now"
      "mset (concat (map snd ws)) = mset (failed_at key_of k s)"
    unfolding run_inv_def by blast
  have "axis_inv (limit - 1 + c) (get l' k) ws t"
    using axis_inv_prune [of _ "get (gr_limiter s)" k, OF ws(1) assms(2)] ch by simp
  moreover have "counted_now (get l' k) t' + int (in_flight key_of k ?s) \<le> int (limit - 1 + c)" if "t \<le> t'" for t'
  proof (cases "\<not> b \<and> key_of g = k")
    case True
    then have "\<not> over_limit (get l') k (int limit)" using ch by blast
    then have "counted_now (get l' k) t' \<le> int (limit - 1)"
      unfolding conjunct1 [OF ch] by (rule pruned_room)
    then show ?thesis using assms(3) by simp
  next
    case False
    have "counted_now (get l' k) t' \<le> counted_now (get (gr_limiter s) k) t'"
      using pruned_counts [of "get (gr_limiter s)" t k t'] that ch by simp
    moreover have "counted_now (get (gr_limiter s) k) t' + int (in_flight key_of k s) \<le> int (limit - 1 + c)"
      using inv assms(2) that unfolding run_inv_def by simp
    ultimately show ?thesis unfolding s'(3) if_not_P [OF False] by simp
  qed
  ultimately show ?thesis using ws(2) s' unfolding run_inv_def by auto
qed

lemma in_flight_member: "g \<in> set (gr_flight s) \<Longrightarrow> key_of g = k \<Longrightarrow> 0 < in_flight key_of k s"
  by (auto simp: in_flight_def filter_empty_conv)

lemma in_flight_remove:
  fixes s :: guess_run and g :: guess
  shows "in_flight key_of k (s\<lparr>gr_flight := remove1 g (gr_flight s)\<rparr>) =
     in_flight key_of k s - (if g \<in> set (gr_flight s) \<and> key_of g = k then 1 else 0)"
  by (simp add: in_flight_def filter_remove1 length_remove1)

lemma fails_inv:
  assumes inv: "run_inv c k s now" and "now \<le> t"
  shows "run_inv c k (attempt_step (Fails g, t) s) t"
proof (cases "g \<in> set (gr_flight s)")
  case False
  then show ?thesis using inv assms(2) axis_inv_later unfolding run_inv_def attempt_step_def by fastforce
next
  case in_air: True
  let ?s = "attempt_step (Fails g, t) s" and ?m = "get (gr_limiter s)"
  have s': "get (gr_limiter ?s) = bump ?m (key_of g) t"
    "failed_at key_of k ?s = failed_at key_of k s @ (if key_of g = k then [t] else [])"
    "in_flight key_of k ?s = in_flight key_of k s - (if key_of g = k then 1 else 0)"
    using in_air in_flight_remove [where k = k and s = s and g = g] by (simp_all add: attempt_step_def counted failed_at_def in_flight_def)
  from inv obtain ws where ws: "axis_inv (limit - 1 + c) (?m k) ws now"
      "mset (concat (map snd ws)) = mset (failed_at key_of k s)"
    and room: "\<And>t'. now \<le> t' \<Longrightarrow> counted_now (?m k) t' + int (in_flight key_of k s) \<le> int (limit - 1 + c)"
    unfolding run_inv_def by blast
  show ?thesis
  proof (cases "key_of g = k")
    case False
    then have "bump ?m (key_of g) t k = ?m k" by (auto simp: bump_def split: option.splits)
    then show ?thesis using False ws axis_inv_later [OF ws(1) assms(2)] room assms(2) unfolding run_inv_def s' by auto
  next
    case True
    have f: "0 < in_flight key_of k s" by (rule in_flight_member [OF in_air True])
    have "counted_now (?m k) t < int (limit - 1 + c)" using room [OF assms(2)] f by simp
    note b = axis_inv_bump [of _ ?m k, OF ws(1) assms(2) this]
    have after: "counted_now (bump ?m k t k) t' \<le> counted_now (bump ?m k t k) t" if "t \<le> t'" for t'
      using b that by (auto simp: counted_now_def axis_inv_def bump_def split: option.splits if_splits)
    have "counted_now (bump ?m k t k) t' + int (in_flight key_of k s - 1) \<le> int (limit - 1 + c)" if "t \<le> t'" for t'
      using after [OF that] conjunct2 [OF b] room [OF assms(2)] f by simp
    then show ?thesis using b ws(2) True unfolding run_inv_def s' by auto
  qed
qed

lemma leaves_inv:
  assumes "run_inv c k s now" and "now \<le> t"
  shows "run_inv c k (attempt_step (Leaves g, t) s) t"
proof -
  let ?s = "attempt_step (Leaves g, t) s"
  have fl: "in_flight key_of k ?s \<le> in_flight key_of k s"
    using in_flight_remove [where k = k and s = s and g = g] by (simp add: attempt_step_def)
  have s': "gr_limiter ?s = gr_limiter s" "failed_at key_of k ?s = failed_at key_of k s"
    by (simp_all add: attempt_step_def failed_at_def)
  from assms(1) obtain ws where ws: "axis_inv (limit - 1 + c) (get (gr_limiter s) k) ws now"
      "mset (concat (map snd ws)) = mset (failed_at key_of k s)"
    and room: "\<And>t'. now \<le> t' \<Longrightarrow> counted_now (get (gr_limiter s) k) t' + int (in_flight key_of k s) \<le> int (limit - 1 + c)"
    unfolding run_inv_def by blast
  have "counted_now (get (gr_limiter s) k) t' + int (in_flight key_of k ?s) \<le> int (limit - 1 + c)" if "t \<le> t'" for t'
    using room [of t'] that assms(2) fl by simp
  then show ?thesis using ws(2) axis_inv_later [OF ws(1) assms(2)] unfolding run_inv_def s' by blast
qed

lemma run_keeps:
  assumes "run_inv c k s now" and "sorted (now # map snd es)" and "peak_flight key_of k s es \<le> c"
  shows "\<exists>t. run_inv c k (run_attempts es s) t"
  using assms
proof (induction es arbitrary: s now)
  case Nil
  then show ?case by (auto simp: run_attempts_def)
next
  case (Cons e es)
  obtain a t where e: "e = (a, t)" by (cases e)
  have le: "now \<le> t" "sorted (t # map snd es)" using Cons.prems(2) by (simp_all add: e)
  have fl: "peak_flight key_of k (attempt_step e s) es \<le> c" using Cons.prems(3) by simp
  then have room: "in_flight key_of k (attempt_step e s) \<le> c" by (cases es) auto
  have "run_inv c k (attempt_step e s) t"
  proof (cases a)
    case (Checks g)
    show ?thesis unfolding e Checks by (rule checks_inv [OF Cons.prems(1) le(1)]) (use room e Checks in simp)
  qed (use fails_inv [OF Cons.prems(1) le(1)] leaves_inv [OF Cons.prems(1) le(1)] e in blast)+
  from Cons.IH [OF this le(2) fl] show ?case by (simp add: run_attempts_def)
qed

lemma log_bound:
  assumes "sorted (map snd es)"
  shows "in_window login_window a (failed_at key_of k (run_attempts es no_guesses)) \<le>
    2 * (limit - 1 + peak_flight key_of k no_guesses es) - 1"
proof -
  let ?c = "peak_flight key_of k no_guesses es" and ?now = "if es = [] then 0 else snd (hd es)"
  have e: "get (gr_limiter no_guesses) k = None" "failed_at key_of k no_guesses = []" "in_flight key_of k no_guesses = 0"
    by (simp_all add: no_guesses_def starts_empty failed_at_def in_flight_def)
  have "axis_inv (limit - 1 + ?c) None [] ?now" by (simp add: axis_inv_def)
  moreover have "mset (concat (map snd ([] :: (instant \<times> instant list) list))) = mset []" by simp
  ultimately have "run_inv ?c k no_guesses ?now" unfolding run_inv_def e counted_now_def by fastforce
  moreover have "sorted (?now # map snd es)" using assms by (cases es) auto
  ultimately obtain t where "run_inv ?c k (run_attempts es no_guesses) t" using run_keeps by blast
  then obtain ws where ws: "windows_ok (limit - 1 + ?c) ws"
      "mset (concat (map snd ws)) = mset (failed_at key_of k (run_attempts es no_guesses))"
    unfolding run_inv_def axis_inv_def by blast
  then have "in_window login_window a (failed_at key_of k (run_attempts es no_guesses)) =
      in_window login_window a (concat (map snd ws))"
    unfolding in_window_def by (metis mset_filter size_mset)
  with windows_ok_two [OF ws(1)] show ?thesis by simp
qed

end

lemma blocked_limits:
  assumes "blocked l key ip acct now = (b, l')"
  shows "l' = prune l now"
    and "\<not> b \<Longrightarrow> \<not> over_limit (key_windows l') key max_login_attempts"
    and "\<not> b \<Longrightarrow> \<not> over_limit (ip_windows l') ip max_login_attempts_per_ip"
    and "\<not> b \<Longrightarrow> \<not> over_limit (acct_windows l') acct max_account_attempts"
  using assms by (auto simp: blocked_def Let_def split: if_splits)

interpretation per_key: fixed_window_axis key_windows at_key 5
proof
  show "blocked l (at_key g) (at_ip g) (at_acct g) now = (b, l') \<Longrightarrow>
      key_windows l' = prune_windows (key_windows l) now \<and> (\<not> b \<longrightarrow> \<not> over_limit (key_windows l') (at_key g) (int 5))" for l g now b l'
    using blocked_limits [of l "at_key g" "at_ip g" "at_acct g" now b l'] by (simp add: prune_def limit_defs)
qed (simp_all add: new_rate_limiter_def fail_attempt_def)

interpretation per_source: fixed_window_axis ip_windows at_ip 30
proof
  show "blocked l (at_key g) (at_ip g) (at_acct g) now = (b, l') \<Longrightarrow>
      ip_windows l' = prune_windows (ip_windows l) now \<and> (\<not> b \<longrightarrow> \<not> over_limit (ip_windows l') (at_ip g) (int 30))" for l g now b l'
    using blocked_limits [of l "at_key g" "at_ip g" "at_acct g" now b l'] by (simp add: prune_def limit_defs)
qed (simp_all add: new_rate_limiter_def fail_attempt_def)

interpretation per_account: fixed_window_axis acct_windows at_acct 20
proof
  show "blocked l (at_key g) (at_ip g) (at_acct g) now = (b, l') \<Longrightarrow>
      acct_windows l' = prune_windows (acct_windows l) now \<and> (\<not> b \<longrightarrow> \<not> over_limit (acct_windows l') (at_acct g) (int 20))" for l g now b l'
    using blocked_limits [of l "at_key g" "at_ip g" "at_acct g" now b l'] by (simp add: prune_def limit_defs)
qed (simp_all add: new_rate_limiter_def fail_attempt_def)

section \<open>Properties\<close>

text \<open>C39. The account axis survives address rotation: over any interleaving of guesses from any mix of addresses,
  the number of wrong guesses at one account's password that fall within a minute is at most 37
  plus twice the most guesses at this account that were under way at once, between the limiter's
  check and the count of their failure. Guesses made one after another are therefore at most 39
  (two windows of twenty, less the first of the older); every one made at the same time adds to it.\<close>

theorem account_guesses_bounded:
  assumes "sorted (map snd es)"
  shows "in_window login_window a (failed_at at_acct acct (run_attempts es no_guesses)) \<le>
    37 + 2 * peak_flight at_acct acct no_guesses es"
  using per_account.log_bound [OF assms, of a acct] by simp

section \<open>The bound is reached\<close>

text \<open>Guesses at one account made one after another at an instant, each from an address of its own.\<close>

definition lone :: "char \<Rightarrow> guess" where
  "lone c = \<lparr>at_key = [c], at_ip = [c], at_acct = []\<rparr>"

lemma lone_fields [simp]: "at_key (lone c) = [c]" "at_ip (lone c) = [c]" "at_acct (lone c) = []"
  by (simp_all add: lone_def)

definition burst :: "char list \<Rightarrow> instant \<Rightarrow> (attempt \<times> instant) list" where
  "burst cs t = concat (map (\<lambda>c. [(Checks (lone c), t), (Fails (lone c), t)]) cs)"

lemma burst_simps [simp]:
  "burst [] t = []" "burst (c # cs) t = (Checks (lone c), t) # (Fails (lone c), t) # burst cs t"
  by (simp_all add: burst_def)

lemma run_attempts_simps [simp]:
  "run_attempts [] s = s" "run_attempts (e # es) s = run_attempts es (attempt_step e s)"
  "run_attempts (es @ es') s = run_attempts es' (run_attempts es s)"
  by (simp_all add: run_attempts_def)

lemma peak_append: "peak_flight f k s (es @ es') = max (peak_flight f k s es) (peak_flight f k (run_attempts es s) es')"
proof (induction es arbitrary: s)
  case Nil
  show ?case by (cases es') auto
qed simp

text \<open>Nobody is in flight, and these addresses were not seen before.\<close>

definition calm :: "guess_run \<Rightarrow> char set \<Rightarrow> bool" where
  "calm s C \<longleftrightarrow> gr_flight s = [] \<and> (\<forall>c\<in>C. key_windows (gr_limiter s) [c] = None \<and> ip_windows (gr_limiter s) [c] = None)"

lemma lone_guess:
  fixes t :: instant
  assumes "calm s C" and "c \<in> C"
  defines "w \<equiv> prune_windows (acct_windows (gr_limiter s)) t []"
  defines "s' \<equiv> attempt_step (Fails (lone c), t) (attempt_step (Checks (lone c), t) s)"
  shows "(case w of None \<Rightarrow> True | Some v \<Rightarrow> win_count v < 20) \<Longrightarrow> calm s' (C - {c}) \<and>
      failed_at at_acct [] s' = failed_at at_acct [] s @ [t] \<and>
      acct_windows (gr_limiter s') [] = Some (case w of None \<Rightarrow> \<lparr>win_start = t, win_count = 1\<rparr> | Some v \<Rightarrow> v\<lparr>win_count := win_count v + 1\<rparr>) \<and>
      peak_flight at_acct [] s [(Checks (lone c), t), (Fails (lone c), t)] = 1"
    and "w = Some \<lparr>win_start = u, win_count = 20\<rparr> \<Longrightarrow> calm s' (C - {c}) \<and> failed_at at_acct [] s' = failed_at at_acct [] s \<and>
      acct_windows (gr_limiter s') [] = w \<and> peak_flight at_acct [] s [(Checks (lone c), t), (Fails (lone c), t)] = 0"
proof -
  have fresh: "prune_windows (key_windows (gr_limiter s)) t [c] = None" "prune_windows (ip_windows (gr_limiter s)) t [c] = None"
    "gr_flight s = []" using assms(1,2) by (simp_all add: calm_def prune_windows_def)
  have keep: "\<forall>d\<in>C - {c}. prune_windows (key_windows (gr_limiter s)) t [d] = None \<and> prune_windows (ip_windows (gr_limiter s)) t [d] = None"
    using assms(1) by (simp add: calm_def prune_windows_def)
  have bump: "bump m [c] t [d] = m [d]" if "d \<noteq> c" for m d
    using that by (simp add: bump_def split: option.split)
  note step = attempt_step_def blocked_def over_limit_def prune_def fresh fail_attempt_def limit_defs
  {
    assume room: "case w of None \<Rightarrow> True | Some v \<Rightarrow> win_count v < 20"
    then have c: "attempt_step (Checks (lone c), t) s = s\<lparr>gr_limiter := prune (gr_limiter s) t, gr_flight := [lone c]\<rparr>"
      by (simp add: step w_def split: option.splits)
    have f: "s' = s\<lparr>gr_limiter := fail_attempt (prune (gr_limiter s) t) [c] [c] [] t, gr_flight := [],
        gr_failed := gr_failed s @ [(lone c, t)]\<rparr>"
      unfolding s'_def c by (simp add: attempt_step_def)
    have a: "acct_windows (gr_limiter s') [] = Some (case w of None \<Rightarrow> \<lparr>win_start = t, win_count = 1\<rparr> | Some v \<Rightarrow> v\<lparr>win_count := win_count v + 1\<rparr>)"
      by (auto simp: f fail_attempt_def prune_def bump_def w_def prune_windows_def split: option.splits if_splits)
    have "peak_flight at_acct [] s [(Checks (lone c), t), (Fails (lone c), t)] = 1"
      unfolding peak_flight.simps unfolding s'_def [symmetric] unfolding c f by (simp add: in_flight_def fresh(3))
    then show "calm s' (C - {c}) \<and> failed_at at_acct [] s' = failed_at at_acct [] s @ [t] \<and>
      acct_windows (gr_limiter s') [] = Some (case w of None \<Rightarrow> \<lparr>win_start = t, win_count = 1\<rparr> | Some v \<Rightarrow> v\<lparr>win_count := win_count v + 1\<rparr>) \<and>
      peak_flight at_acct [] s [(Checks (lone c), t), (Fails (lone c), t)] = 1"
      using keep a by (simp add: f calm_def fail_attempt_def prune_def bump failed_at_def)
  next
    assume full: "w = Some \<lparr>win_start = u, win_count = 20\<rparr>"
    then have c: "attempt_step (Checks (lone c), t) s = s\<lparr>gr_limiter := prune (gr_limiter s) t\<rparr>"
      by (simp add: step w_def)
    have f: "s' = s\<lparr>gr_limiter := prune (gr_limiter s) t\<rparr>" unfolding s'_def c by (simp add: attempt_step_def fresh(3))
    have "peak_flight at_acct [] s [(Checks (lone c), t), (Fails (lone c), t)] = 0"
      unfolding peak_flight.simps unfolding s'_def [symmetric] unfolding c f by (simp add: in_flight_def fresh(3))
    then show "calm s' (C - {c}) \<and> failed_at at_acct [] s' = failed_at at_acct [] s \<and>
      acct_windows (gr_limiter s') [] = w \<and> peak_flight at_acct [] s [(Checks (lone c), t), (Fails (lone c), t)] = 0"
      using keep fresh(3) by (simp add: f calm_def prune_def w_def failed_at_def)
  }
qed

lemma two_events: "run_attempts (burst (c # cs) t) s = run_attempts (burst cs t) (attempt_step (Fails (lone c), t) (attempt_step (Checks (lone c), t) s))"
  "peak_flight f k s (burst (c # cs) t) = max (peak_flight f k s [(Checks (lone c), t), (Fails (lone c), t)])
     (peak_flight f k (attempt_step (Fails (lone c), t) (attempt_step (Checks (lone c), t) s)) (burst cs t))"
  using peak_append [of f k s "[(Checks (lone c), t), (Fails (lone c), t)]" "burst cs t"] by simp_all

text \<open>A burst while a window is open fills it, and what comes when it is full is refused.\<close>

lemma burst_run:
  assumes "calm s C" and "set cs \<subseteq> C" and "distinct cs" and "n \<le> 20" and "t - u \<le> login_window"
    and "acct_windows (gr_limiter s) [] = Some \<lparr>win_start = u, win_count = int n\<rparr>"
  defines "s' \<equiv> run_attempts (burst cs t) s"
  shows "calm s' (C - set cs) \<and> failed_at at_acct [] s' = failed_at at_acct [] s @ replicate (min (length cs) (20 - n)) t \<and>
    acct_windows (gr_limiter s') [] = Some \<lparr>win_start = u, win_count = int (min (n + length cs) 20)\<rparr> \<and>
    peak_flight at_acct [] s (burst cs t) \<le> 1"
  using assms(1-4,6) unfolding s'_def
proof (induction cs arbitrary: s C n)
  case Nil
  then show ?case by (simp add: in_flight_def calm_def)
next
  case (Cons c cs)
  let ?s = "attempt_step (Fails (lone c), t) (attempt_step (Checks (lone c), t) s)"
  have c: "c \<in> C" using Cons.prems(2) by simp
  have w: "prune_windows (acct_windows (gr_limiter s)) t [] = Some \<lparr>win_start = u, win_count = int n\<rparr>"
    using Cons.prems(5) assms(5) by (simp add: prune_windows_def)
  have cs: "set cs \<subseteq> C - {c}" "distinct cs" "C - set (c # cs) = C - {c} - set cs" using Cons.prems(2,3) by auto
  show ?case
  proof (cases "n < 20")
    case True
    note g = lone_guess(1) [OF Cons.prems(1) c, of t, unfolded w]
    have "calm ?s (C - {c})" "acct_windows (gr_limiter ?s) [] = Some \<lparr>win_start = u, win_count = int (Suc n)\<rparr>" "Suc n \<le> 20"
      using g True by simp_all
    note ih = Cons.IH [OF this(1) cs(1,2) this(3,2)]
    have "min (length (c # cs)) (20 - n) = Suc (min (length cs) (20 - Suc n))" "min (n + length (c # cs)) 20 = min (Suc n + length cs) 20"
      using True by simp_all
    then show ?thesis using ih g True unfolding two_events cs(3) by simp
  next
    case False
    then have n: "n = 20" using Cons.prems(4) by simp
    note g = lone_guess(2) [OF Cons.prems(1) c, of t u, unfolded w]
    have "calm ?s (C - {c})" "acct_windows (gr_limiter ?s) [] = Some \<lparr>win_start = u, win_count = int n\<rparr>"
      using g n by simp_all
    from Cons.IH [OF this(1) cs(1,2) Cons.prems(4) this(2)] g n show ?thesis
      unfolding two_events cs(3) by simp
  qed
qed

text \<open>One guess opens a window, nineteen come when it is about to close and twenty-two when it has closed, of which the
  last two are refused.\<close>

definition patient_guesses :: "(attempt \<times> instant) list" where
  "patient_guesses = burst ''0'' 0 @ burst ''abcdefghijklmnopqrs'' login_window @ burst ''A'' (login_window + 1) @
     burst ''BCDEFGHIJKLMNOPQRSTUV'' (login_window + 1)"

theorem account_guesses_bounded_witness:
  "in_window login_window 1 (failed_at at_acct [] (run_attempts patient_guesses no_guesses)) = 39 \<and>
   peak_flight at_acct [] no_guesses patient_guesses \<le> 1"
proof -
  define s1 where "s1 = run_attempts (burst ''0'' 0) no_guesses"
  define s2 where "s2 = run_attempts (burst ''abcdefghijklmnopqrs'' login_window) s1"
  define s3 where "s3 = run_attempts (burst ''A'' (login_window + 1)) s2"
  define s4 where "s4 = run_attempts (burst ''BCDEFGHIJKLMNOPQRSTUV'' (login_window + 1)) s3"
  have l: "min (length ''abcdefghijklmnopqrs'') (20 - 1) = 19" "min (1 + length ''abcdefghijklmnopqrs'') 20 = 20"
    "min (length ''BCDEFGHIJKLMNOPQRSTUV'') (20 - 1) = 19" by simp_all
  have w: "0 < login_window" by (simp add: login_window_def duration_defs)
  have 0: "calm no_guesses UNIV" "acct_windows (gr_limiter no_guesses) = Map.empty" "failed_at at_acct [] no_guesses = []"
    by (simp_all add: calm_def no_guesses_def new_rate_limiter_def failed_at_def)
  have 1: "calm s1 (UNIV - set ''0'') \<and> failed_at at_acct [] s1 = [0] \<and>
      acct_windows (gr_limiter s1) [] = Some \<lparr>win_start = 0, win_count = int 1\<rparr> \<and> peak_flight at_acct [] no_guesses (burst ''0'' 0) \<le> 1"
    using lone_guess(1) [OF 0(1), of "CHR ''0''" 0] 0(2,3) by (simp add: s1_def prune_windows_def del: peak_flight.simps)
  have 2: "calm s2 (UNIV - set ''0'' - set ''abcdefghijklmnopqrs'') \<and> failed_at at_acct [] s2 = [0] @ replicate 19 login_window \<and>
      acct_windows (gr_limiter s2) [] = Some \<lparr>win_start = 0, win_count = int 20\<rparr> \<and>
      peak_flight at_acct [] s1 (burst ''abcdefghijklmnopqrs'' login_window) \<le> 1"
    using burst_run [where s = s1 and C = "UNIV - set ''0''" and cs = "''abcdefghijklmnopqrs''" and n = 1 and t = login_window and u = 0, unfolded l] 1
    by (simp add: s2_def del: burst_simps)
  have 3: "calm s3 (UNIV - set ''0'' - set ''abcdefghijklmnopqrs'' - set ''A'') \<and>
      failed_at at_acct [] s3 = [0] @ replicate 19 login_window @ [login_window + 1] \<and>
      acct_windows (gr_limiter s3) [] = Some \<lparr>win_start = login_window + 1, win_count = int 1\<rparr> \<and>
      peak_flight at_acct [] s2 (burst ''A'' (login_window + 1)) \<le> 1"
    using lone_guess(1) [of s2 "UNIV - set ''0'' - set ''abcdefghijklmnopqrs''" "CHR ''A''" "login_window + 1"] 2
    by (simp add: s3_def prune_windows_def del: peak_flight.simps)
  have 4: "failed_at at_acct [] s4 = [0] @ replicate 19 login_window @ [login_window + 1] @ replicate 19 (login_window + 1) \<and>
      peak_flight at_acct [] s3 (burst ''BCDEFGHIJKLMNOPQRSTUV'' (login_window + 1)) \<le> 1"
    using burst_run [where s = s3 and C = "UNIV - set ''0'' - set ''abcdefghijklmnopqrs'' - set ''A''" and cs = "''BCDEFGHIJKLMNOPQRSTUV''"
        and n = 1 and t = "login_window + 1" and u = "login_window + 1", unfolded l] 3 w
    by (simp add: s4_def del: burst_simps)
  have run: "run_attempts patient_guesses no_guesses = s4"
    unfolding patient_guesses_def run_attempts_simps s1_def [symmetric] s2_def [symmetric] s3_def [symmetric] s4_def [symmetric] ..
  have p: "peak_flight at_acct [] no_guesses patient_guesses \<le> 1"
    unfolding patient_guesses_def peak_append s1_def [symmetric] s2_def [symmetric] s3_def [symmetric]
    by (intro max.boundedI 1 [THEN conjunct2, THEN conjunct2, THEN conjunct2] 2 [THEN conjunct2, THEN conjunct2, THEN conjunct2]
      3 [THEN conjunct2, THEN conjunct2, THEN conjunct2] conjunct2 [OF 4])
  have "1 < login_window" by (simp add: login_window_def duration_defs)
  then have n: "39 \<le> in_window login_window 1 (failed_at at_acct [] (run_attempts patient_guesses no_guesses))"
    unfolding run in_window_def conjunct1 [OF 4] filter_append length_append filter_replicate by simp
  have b: "map snd (burst cs t) = replicate (2 * length cs) t" for cs t by (induction cs) simp_all
  have "sorted (map snd patient_guesses)"
    unfolding patient_guesses_def map_append b using w by (auto simp: sorted_append)
  from account_guesses_bounded [OF this, of 1 "[]"] n p show ?thesis by simp
qed

end
