(* ===== verification/LastUsed.thy ===== *)
theory LastUsed
  imports Limiter
begin

text \<open>
  The debounce of \<open>LastUsedAt\<close> writes (hub/internal/auth/lastused.go). The map is ranged over
  when it is swept, so it is an association list; its length is Go's \<open>len(l.at)\<close>.
\<close>

definition touch_window :: duration where
  "touch_window = minute"

definition last_used_prune_at :: nat where
  "last_used_prune_at = 1024"

type_synonym last_used = "(string \<times> instant) list"

definition should_touch :: "last_used \<Rightarrow> string \<Rightarrow> instant \<Rightarrow> bool \<times> last_used" where
  "should_touch at hash now =
     (if (case map_of at hash of None \<Rightarrow> False | Some prev \<Rightarrow> time_sub now prev < touch_window)
      then (False, at)
      else (True, AList.update hash now
        (if last_used_prune_at \<le> length at
         then filter (\<lambda>(k, t). \<not> touch_window \<le> time_sub now t) at else at)))"

text \<open>The touch the state still remembers as recent.\<close>

definition recent_touch :: "last_used \<Rightarrow> string \<Rightarrow> instant \<Rightarrow> instant list" where
  "recent_touch at hash now =
     (case map_of at hash of None \<Rightarrow> [] | Some t \<Rightarrow> if now - t < touch_window then [t] else [])"

lemma touch_window_less [simp]: "time_sub now t < touch_window \<longleftrightarrow> now - t < touch_window"
  by (rule time_sub_less) (simp_all add: touch_window_def duration_defs)

lemma touch_window_le [simp]: "touch_window \<le> time_sub now t \<longleftrightarrow> touch_window \<le> now - t"
  by (rule time_sub_ge) (simp_all add: touch_window_def duration_defs)

lemma should_touch_iff: "fst (should_touch at hash now) \<longleftrightarrow> recent_touch at hash now = []"
  by (simp add: should_touch_def recent_touch_def split: option.splits)

lemma wf_should_touch: "wf_alist at \<Longrightarrow> wf_alist (snd (should_touch at hash now))"
  by (auto simp: should_touch_def distinct_map_filter intro!: distinct_update)

lemma map_of_sweep:
  "wf_alist at \<Longrightarrow> map_of (filter (\<lambda>(k, t). P t) at) h =
     (case map_of at h of None \<Rightarrow> None | Some t \<Rightarrow> if P t then Some t else None)"
  by (induction at) (auto simp: map_of_eq_None_iff split: option.splits dest: map_of_SomeD)

text \<open>Sweeping forgets only touches that no later call could count.\<close>

lemma recent_touch_step:
  assumes "wf_alist at" and "now \<le> later"
  shows "recent_touch (snd (should_touch at hash now)) h later =
    filter (\<lambda>t. later - t < touch_window)
      (recent_touch at h now @ (if fst (should_touch at hash now) \<and> h = hash then [now] else []))"
  using assms
  by (auto simp: should_touch_def recent_touch_def update_conv' map_of_sweep split: option.splits)

interpretation touch: sliding_limiter should_touch recent_touch touch_window 1 "\<lambda>at. wf_alist at"
proof
  show "wf_alist (snd (should_touch s k now))" if "wf_alist s" for s k now
    using that by (rule wf_should_touch)
  show "length (recent_touch s k now) < 1" if "fst (should_touch s k now)" for s k now
    using that by (simp add: should_touch_iff)
  show "mset (recent_touch (snd (should_touch s k now)) k' later) =
      filter_mset (\<lambda>t. later - t < touch_window) (mset (recent_touch s k' now) +
        (if fst (should_touch s k now) \<and> k' = k then {#now#} else {#}))"
    if "wf_alist s" "now \<le> later" for s k now k' later
    by (subst recent_touch_step [OF that]) (auto simp: should_touch_iff recent_touch_def split: option.splits if_splits)
qed

section \<open>Properties\<close>

text \<open>C35. Bookkeeping writes are debounced: over any sequence of authenticated requests
  whose clock does not go back, at most one write of a token's last-used time is admitted in
  any window of \<open>TouchWindow\<close>, and sweeping the map never lets an extra one through.\<close>

theorem touches_debounced:
  assumes "clock_ok cs"
  shows "in_window touch_window a (admissions should_touch [] hash cs) \<le> 1"
  by (rule touch.window_bound) (use assms in \<open>simp_all add: recent_touch_def\<close>)

theorem touches_debounced_witness:
  "in_window touch_window 0 (admissions should_touch [] ''h'' [(''h'', 1), (''h'', 2)]) \<le> 1 \<and>
   admissions should_touch [] ''h'' [(''h'', 1), (''h'', 2)] = [1]"
proof
  show "in_window touch_window 0 (admissions should_touch [] ''h'' [(''h'', 1), (''h'', 2)]) \<le> 1"
    by (rule touches_debounced) (simp add: clock_ok_def)
qed code_simp

end
