(* ===== verification/GroupMapping.thy ===== *)
theory GroupMapping
  imports Roles "HOL-Library.Product_Lexorder"
begin

text \<open>
  SSO group mapping (hub/internal/auth/oidcconfig.go, mapping.go and mappingcache.go): the
  rules an IdP's groups are turned into grants by. The chart declares rules, an admin can
  author more in the database, and the merged rules are held in a snapshot that every
  authenticated request reads. The YAML decoder is third-party code: \<open>parse_oidc_config\<close>
  takes it as an argument.

  \<open>sort.Slice\<close> does not promise an order for rules with equal keys; \<open>merge_mapping\<close> keeps
  them as they were appended, and the properties about grants do not depend on it.
\<close>

record group_map =
  gm_group :: string
  gm_role :: role
  gm_projects :: "string list"

record oidc_config =
  oc_issuer :: string
  oc_client_id :: string
  oc_client_secret :: string
  oc_groups_claim :: string
  oc_mapping :: "group_map list"
  oc_default_role :: role
  oc_default_projects :: "string list"
  oc_force_sso :: bool

record raw_oidc =
  ro_issuer :: string
  ro_client_id :: string
  ro_groups_claim :: string
  ro_mapping :: "group_map list"
  ro_default_role :: string
  ro_default_projects :: "string list"
  ro_force_sso :: bool

datatype oidc_error =
    OidcYaml
  | OidcIssuerRequired
  | OidcMappingRole nat string
  | OidcMappingGroup nat
  | OidcDefaultRole string

section \<open>The chart's configuration\<close>

fun parse_rules :: "nat \<Rightarrow> group_map list \<Rightarrow> oidc_error + group_map list" where
  "parse_rules i [] = Inr []"
| "parse_rules i (m # ms) =
     (case parse_role (gm_role m) of
        None \<Rightarrow> Inl (OidcMappingRole i (gm_role m))
      | Some r \<Rightarrow>
          if gm_group m = [] then Inl (OidcMappingGroup i)
          else (case parse_rules (Suc i) ms of
                  Inl e \<Rightarrow> Inl e
                | Inr rest \<Rightarrow> Inr (\<lparr>gm_group = gm_group m, gm_role = r, gm_projects = gm_projects m\<rparr> # rest)))"

definition parse_oidc_config :: "(string \<Rightarrow> raw_oidc option) \<Rightarrow> string \<Rightarrow> string \<Rightarrow> oidc_error + oidc_config" where
  "parse_oidc_config yaml body secret =
     (case yaml body of
        None \<Rightarrow> Inl OidcYaml
      | Some r \<Rightarrow>
          if ro_issuer r = [] \<or> ro_client_id r = [] then Inl OidcIssuerRequired
          else case parse_rules 0 (ro_mapping r) of
            Inl e \<Rightarrow> Inl e
          | Inr rules \<Rightarrow>
              let c = \<lparr>oc_issuer = ro_issuer r, oc_client_id = ro_client_id r, oc_client_secret = secret,
                oc_groups_claim = (if ro_groups_claim r = [] then ''groups'' else ro_groups_claim r),
                oc_mapping = rules, oc_default_role = [], oc_default_projects = ro_default_projects r,
                oc_force_sso = ro_force_sso r\<rparr>
              in if ro_default_role r = [] then Inr c
                 else (case parse_role (ro_default_role r) of
                    None \<Rightarrow> Inl (OidcDefaultRole (ro_default_role r))
                  | Some d \<Rightarrow> Inr (c\<lparr>oc_default_role := d\<rparr>)))"

section \<open>Grants\<close>

text \<open>
  The closure \<open>add\<close> both functions build their grants with: the set of keys already seen,
  and the grants in the order they were added.
\<close>

type_synonym grant_acc = "string list \<times> grant list"

definition grant_key :: "string \<Rightarrow> role \<Rightarrow> string" where
  "grant_key scope r = scope @ ''|'' @ r"

definition add_grant :: "role \<Rightarrow> grant_acc \<Rightarrow> string \<Rightarrow> grant_acc" where
  "add_grant r acc scope =
     (case acc of (seen, out) \<Rightarrow>
        if grant_key scope r \<in> set seen then (seen, out)
        else (grant_key scope r # seen, out @ [\<lparr>g_scope = scope, g_role = r\<rparr>]))"

fun map_groups_loop :: "string list \<Rightarrow> group_map list \<Rightarrow> bool \<Rightarrow> grant_acc \<Rightarrow> bool \<times> grant_acc" where
  "map_groups_loop groups [] matched acc = (matched, acc)"
| "map_groups_loop groups (m # ms) matched acc =
     (if gm_group m \<in> set groups
      then map_groups_loop groups ms True (foldl (add_grant (gm_role m)) acc (gm_projects m))
      else map_groups_loop groups ms matched acc)"

definition map_groups :: "oidc_config \<Rightarrow> string list \<Rightarrow> grant list" where
  "map_groups c groups =
     (case map_groups_loop groups (oc_mapping c) False ([], []) of (matched, acc) \<Rightarrow>
        snd (if \<not> matched \<and> oc_default_role c \<noteq> []
             then foldl (add_grant (oc_default_role c)) acc (oc_default_projects c) else acc))"

record stored_rule =
  sr_group :: string
  sr_role :: string
  sr_projects :: "string list"

record effective_mapping =
  em_group :: string
  em_role :: role
  em_projects :: "string list"
  em_source :: string
  em_editable :: bool
  em_shadowed :: bool

definition merge_rows :: "group_map list \<Rightarrow> stored_rule list \<Rightarrow> effective_mapping list" where
  "merge_rows cfg db =
     map (\<lambda>m. \<lparr>em_group = gm_group m, em_role = gm_role m, em_projects = gm_projects m,
       em_source = ''config'', em_editable = False, em_shadowed = False\<rparr>) cfg @
     List.map_filter (\<lambda>m. map_option (\<lambda>r. \<lparr>em_group = sr_group m, em_role = r, em_projects = sr_projects m,
       em_source = ''db'', em_editable = True, em_shadowed = sr_group m \<in> set (map gm_group cfg)\<rparr>)
         (parse_role (sr_role m))) db"

definition merge_mapping :: "group_map list \<Rightarrow> stored_rule list \<Rightarrow> effective_mapping list" where
  "merge_mapping cfg db = sort_key (\<lambda>m. (em_group m, em_source m)) (merge_rows cfg db)"

fun grants_for_loop :: "string list \<Rightarrow> effective_mapping list \<Rightarrow> bool \<Rightarrow> grant_acc \<Rightarrow> bool \<times> grant_acc" where
  "grants_for_loop groups [] matched acc = (matched, acc)"
| "grants_for_loop groups (m # ms) matched acc =
     (if em_shadowed m \<or> em_group m \<notin> set groups then grants_for_loop groups ms matched acc
      else grants_for_loop groups ms True (foldl (add_grant (em_role m)) acc (em_projects m)))"

definition grants_for :: "effective_mapping list \<Rightarrow> string list \<Rightarrow> role \<Rightarrow> string list \<Rightarrow> grant list" where
  "grants_for mapping groups default_role default_projects =
     (case grants_for_loop groups mapping False ([], []) of (matched, acc) \<Rightarrow>
        snd (if \<not> matched \<and> default_role \<noteq> []
             then foldl (add_grant default_role) acc default_projects else acc))"

section \<open>The snapshot\<close>

record mapping_config =
  mc_mapping :: "group_map list"
  mc_default_role :: role
  mc_default_projects :: "string list"

record mapping_snapshot =
  ms_mapping :: "effective_mapping list"
  ms_default_role :: role
  ms_default_projects :: "string list"

record mapping_cache =
  cache_cfg :: mapping_config
  cache_snapshot :: mapping_snapshot

definition new_mapping_cache :: mapping_cache where
  "new_mapping_cache =
     \<lparr>cache_cfg = \<lparr>mc_mapping = [], mc_default_role = [], mc_default_projects = []\<rparr>,
      cache_snapshot = \<lparr>ms_mapping = [], ms_default_role = [], ms_default_projects = []\<rparr>\<rparr>"

definition set_config :: "mapping_config \<Rightarrow> mapping_cache \<Rightarrow> mapping_cache" where
  "set_config cfg c = c\<lparr>cache_cfg := cfg\<rparr>"

text \<open>What the store answers to a refresh: it is not connected, its query fails, or it
  returns the rows.\<close>

datatype rules_answer = NoStore | QueryFailed | Rules "stored_rule list"

definition take_snapshot :: "mapping_config \<Rightarrow> stored_rule list \<Rightarrow> mapping_snapshot" where
  "take_snapshot cfg rows =
     \<lparr>ms_mapping = merge_mapping (mc_mapping cfg) rows, ms_default_role = mc_default_role cfg,
      ms_default_projects = mc_default_projects cfg\<rparr>"

definition refresh :: "rules_answer \<Rightarrow> mapping_cache \<Rightarrow> bool \<times> mapping_cache" where
  "refresh ans c =
     (case ans of
        NoStore \<Rightarrow> (True, c\<lparr>cache_snapshot := take_snapshot (cache_cfg c) []\<rparr>)
      | QueryFailed \<Rightarrow> (False, c)
      | Rules rows \<Rightarrow> (True, c\<lparr>cache_snapshot := take_snapshot (cache_cfg c) rows\<rparr>))"

definition mapper :: "mapping_cache \<Rightarrow> string list \<Rightarrow> grant list" where
  "mapper c groups =
     grants_for (ms_mapping (cache_snapshot c)) groups (ms_default_role (cache_snapshot c))
       (ms_default_projects (cache_snapshot c))"

section \<open>What the loops collect\<close>

definition rule_grants :: "role \<Rightarrow> string list \<Rightarrow> grant set" where
  "rule_grants r projects = (\<lambda>p. \<lparr>g_scope = p, g_role = r\<rparr>) ` set projects"

text \<open>A role without the separator; every parsed role is one, so grant keys do not collide.\<close>

definition clean_role :: "role \<Rightarrow> bool" where
  "clean_role r \<longleftrightarrow> CHR ''|'' \<notin> set r"

lemma parse_role_clean: "parse_role s = Some r \<Longrightarrow> clean_role r"
  by (auto simp: parse_role_def clean_role_def role_defs split: if_splits)

lemma known_role_clean: "0 < role_rank r \<Longrightarrow> clean_role r"
  by (auto simp: role_rank_def clean_role_def role_defs split: if_splits)

lemma clean_role_empty [simp]: "clean_role []"
  by (simp add: clean_role_def)

lemma takeWhile_to_sep: "c \<notin> set xs \<Longrightarrow> takeWhile ((\<noteq>) c) (xs @ c # ys) = xs"
  by (induction xs) auto

lemma grant_key_inj:
  assumes "clean_role r" and "clean_role r'" and "grant_key p r = grant_key p' r'"
  shows "p = p' \<and> r = r'"
proof -
  have "takeWhile ((\<noteq>) CHR ''|'') (rev (grant_key q x)) = rev x" if "clean_role x" for q x
    using that takeWhile_to_sep [of "CHR ''|''" "rev x" "rev q"] by (simp add: grant_key_def clean_role_def)
  with assms have "rev r = rev r'" by metis
  with assms(3) show ?thesis by (simp add: grant_key_def)
qed

definition acc_ok :: "grant_acc \<Rightarrow> bool" where
  "acc_ok acc \<longleftrightarrow> set (fst acc) = (\<lambda>g. grant_key (g_scope g) (g_role g)) ` set (snd acc) \<and>
     (\<forall>g\<in>set (snd acc). clean_role (g_role g)) \<and> distinct (snd acc)"

lemma acc_ok_empty [simp]: "acc_ok ([], [])"
  by (simp add: acc_ok_def)

lemma add_grant_ok:
  assumes "acc_ok acc" and "clean_role r"
  shows "acc_ok (add_grant r acc p) \<and> set (snd (add_grant r acc p)) = insert \<lparr>g_scope = p, g_role = r\<rparr> (set (snd acc))"
proof (cases "grant_key p r \<in> set (fst acc)")
  case True
  then obtain g where g: "g \<in> set (snd acc)" "grant_key p r = grant_key (g_scope g) (g_role g)"
    using assms(1) by (auto simp: acc_ok_def)
  have "clean_role (g_role g)" using assms(1) g(1) by (simp add: acc_ok_def)
  from grant_key_inj [OF assms(2) this g(2)] have "\<lparr>g_scope = p, g_role = r\<rparr> = g" by simp
  with g(1) have "insert \<lparr>g_scope = p, g_role = r\<rparr> (set (snd acc)) = set (snd acc)" by (simp add: insert_absorb)
  moreover have "add_grant r acc p = acc" using True by (cases acc) (simp add: add_grant_def)
  ultimately show ?thesis using assms(1) by simp
next
  case False
  have "\<lparr>g_scope = p, g_role = r\<rparr> \<notin> set (snd acc)"
  proof
    assume "\<lparr>g_scope = p, g_role = r\<rparr> \<in> set (snd acc)"
    then have "grant_key p r \<in> (\<lambda>g. grant_key (g_scope g) (g_role g)) ` set (snd acc)"
      by (rule rev_image_eqI) simp
    with assms(1) False show False by (simp add: acc_ok_def)
  qed
  with False assms show ?thesis by (auto simp: add_grant_def acc_ok_def split: prod.splits)
qed

lemma add_grants_ok:
  "acc_ok acc \<Longrightarrow> clean_role r \<Longrightarrow>
   acc_ok (foldl (add_grant r) acc ps) \<and> set (snd (foldl (add_grant r) acc ps)) = set (snd acc) \<union> rule_grants r ps"
proof (induction ps arbitrary: acc)
  case (Cons p ps)
  from Cons.IH [of "add_grant r acc p"] add_grant_ok [OF Cons.prems, of p] Cons.prems(2)
  show ?case by (auto simp: rule_grants_def)
qed (simp add: rule_grants_def)

definition rule_live :: "string list \<Rightarrow> effective_mapping \<Rightarrow> bool" where
  "rule_live groups m \<longleftrightarrow> \<not> em_shadowed m \<and> em_group m \<in> set groups"

lemma grants_for_loop_ok:
  assumes "acc_ok acc" and "\<forall>m\<in>set ms. clean_role (em_role m)"
  shows "acc_ok (snd (grants_for_loop groups ms b acc)) \<and>
    (fst (grants_for_loop groups ms b acc) \<longleftrightarrow> b \<or> (\<exists>m\<in>set ms. rule_live groups m)) \<and>
    set (snd (snd (grants_for_loop groups ms b acc))) = set (snd acc) \<union>
      (\<Union>m\<in>{m\<in>set ms. rule_live groups m}. rule_grants (em_role m) (em_projects m))"
  using assms
proof (induction groups ms b acc rule: grants_for_loop.induct)
  case (2 groups m ms b acc)
  show ?case
  proof (cases "rule_live groups m")
    case True
    with "2.IH"(2) add_grants_ok [OF "2.prems"(1), of "em_role m" "em_projects m"] "2.prems"(2)
    show ?thesis by (auto simp: rule_live_def)
  next
    case False
    with "2.IH"(1) "2.prems" show ?thesis by (auto simp: rule_live_def)
  qed
qed simp

lemma grants_for_spec:
  assumes "\<forall>m\<in>set ms. clean_role (em_role m)" and "clean_role dr"
  shows "distinct (grants_for ms groups dr dp) \<and> set (grants_for ms groups dr dp) =
    (if \<exists>m\<in>set ms. rule_live groups m
     then (\<Union>m\<in>{m\<in>set ms. rule_live groups m}. rule_grants (em_role m) (em_projects m))
     else if dr \<noteq> [] then rule_grants dr dp else {})"
proof -
  obtain b acc where e: "grants_for_loop groups ms False ([], []) = (b, acc)" by (cases "grants_for_loop groups ms False ([], [])")
  from grants_for_loop_ok [OF acc_ok_empty assms(1), of groups False] e
  have acc: "acc_ok acc" "b \<longleftrightarrow> (\<exists>m\<in>set ms. rule_live groups m)"
    "set (snd acc) = (\<Union>m\<in>{m\<in>set ms. rule_live groups m}. rule_grants (em_role m) (em_projects m))"
    by auto
  with add_grants_ok [OF acc(1) assms(2), of dp] show ?thesis
    unfolding grants_for_def e by (auto simp: acc_ok_def)
qed

text \<open>\<open>MapGroups\<close> is \<open>GrantsFor\<close> on the rules of the configuration alone.\<close>

definition config_rule :: "group_map \<Rightarrow> effective_mapping" where
  "config_rule m = \<lparr>em_group = gm_group m, em_role = gm_role m, em_projects = gm_projects m,
     em_source = ''config'', em_editable = False, em_shadowed = False\<rparr>"

lemma map_groups_loop_eq:
  "map_groups_loop groups ms b acc = grants_for_loop groups (map config_rule ms) b acc"
  by (induction groups ms b acc rule: map_groups_loop.induct) (auto simp: config_rule_def)

lemma map_groups_eq:
  "map_groups c groups =
     grants_for (map config_rule (oc_mapping c)) groups (oc_default_role c) (oc_default_projects c)"
  by (simp add: map_groups_def grants_for_def map_groups_loop_eq)

lemma set_map_filter: "set (List.map_filter f xs) = {y. \<exists>x\<in>set xs. f x = Some y}"
  by (force simp: List.map_filter_def)

lemma merge_rows_set:
  "set (merge_rows cfg db) = config_rule ` set cfg \<union>
     {\<lparr>em_group = sr_group m, em_role = r, em_projects = sr_projects m, em_source = ''db'',
       em_editable = True, em_shadowed = sr_group m \<in> gm_group ` set cfg\<rparr> | m r.
       m \<in> set db \<and> parse_role (sr_role m) = Some r}"
  by (auto simp: merge_rows_def set_map_filter config_rule_def)

lemma merge_rows_clean:
  "\<forall>m\<in>set cfg. clean_role (gm_role m) \<Longrightarrow> m \<in> set (merge_rows cfg db) \<Longrightarrow> clean_role (em_role m)"
  by (auto simp: merge_rows_set config_rule_def dest: known_role_clean)

lemma parse_rules_known: "parse_rules i ms = Inr rules \<Longrightarrow> \<forall>m\<in>set rules. 0 < role_rank (gm_role m)"
  by (induction i ms arbitrary: rules rule: parse_rules.induct)
    (auto split: option.splits if_splits sum.splits)

lemma parse_rules_clean: "parse_rules i ms = Inr rules \<Longrightarrow> m \<in> set rules \<Longrightarrow> clean_role (gm_role m)"
  using parse_rules_known known_role_clean by blast

lemma parse_oidc_clean:
  assumes "parse_oidc_config yaml body secret = Inr c"
  shows "\<forall>m\<in>set (oc_mapping c). clean_role (gm_role m)" "clean_role (oc_default_role c)"
  using assms
  by (auto simp: parse_oidc_config_def Let_def split: option.splits if_splits sum.splits
      dest: known_role_clean parse_rules_clean)

section \<open>Properties\<close>

text \<open>With no database rules the overlay changes nothing: whatever order the merged
  rules are held in, a user's groups resolve to the same grants, each once, that the chart's
  configuration alone gives, the default role's fallback included.\<close>

theorem empty_overlay_reproduces_config:
  assumes "parse_oidc_config yaml body secret = Inr c"
    and "mset rules = mset (merge_mapping (oc_mapping c) [])"
  shows "mset (grants_for rules groups (oc_default_role c) (oc_default_projects c)) = mset (map_groups c groups)"
proof -
  note clean = parse_oidc_clean [OF assms(1)]
  have rules: "set rules = config_rule ` set (oc_mapping c)"
    using mset_eq_setD [OF assms(2)] by (simp add: merge_mapping_def merge_rows_set)
  have "\<forall>m\<in>set rules. clean_role (em_role m)" "\<forall>m\<in>set (map config_rule (oc_mapping c)). clean_role (em_role m)"
    using clean(1) by (auto simp: rules config_rule_def)
  note specs = this [THEN grants_for_spec, OF clean(2), of groups "oc_default_projects c"]
  with rules show ?thesis
    unfolding map_groups_eq by (intro iffD1 [OF set_eq_iff_mset_eq_distinct]) auto
qed

theorem empty_overlay_reproduces_config_witness:
  "\<exists>c. parse_oidc_config (\<lambda>_. Some \<lparr>ro_issuer = ''i'', ro_client_id = ''c'', ro_groups_claim = [],
      ro_mapping = [\<lparr>gm_group = ''ops'', gm_role = ''admin'', gm_projects = [''*'']\<rparr>],
      ro_default_role = ''viewer'', ro_default_projects = [''p''], ro_force_sso = False\<rparr>) [] ''s'' = Inr c \<and>
    mset (grants_for (merge_mapping (oc_mapping c) []) [''dev''] (oc_default_role c) (oc_default_projects c)) =
      mset (map_groups c [''dev'']) \<and>
    map_groups c [''dev''] = [\<lparr>g_scope = ''p'', g_role = ''viewer''\<rparr>]"
  (is "\<exists>c. ?p = Inr c \<and> _")
proof -
  define c where "c = \<lparr>oc_issuer = ''i'', oc_client_id = ''c'', oc_client_secret = ''s'', oc_groups_claim = ''groups'',
      oc_mapping = [\<lparr>gm_group = ''ops'', gm_role = ''admin'', gm_projects = [''*'']\<rparr>],
      oc_default_role = ''viewer'', oc_default_projects = [''p''], oc_force_sso = False\<rparr>"
  have p: "?p = Inr c" unfolding c_def by code_simp
  have "map_groups c [''dev''] = [\<lparr>g_scope = ''p'', g_role = ''viewer''\<rparr>]"
    by (simp add: c_def map_groups_def add_grant_def)
  with p empty_overlay_reproduces_config [OF p refl, of "[''dev'']"] show ?thesis by blast
qed

text \<open>The database rules that count: their role is known and the chart does not declare
  their group.\<close>

definition db_live :: "group_map list \<Rightarrow> string list \<Rightarrow> stored_rule \<Rightarrow> bool" where
  "db_live cfg groups m \<longleftrightarrow> 0 < role_rank (sr_role m) \<and> sr_group m \<notin> gm_group ` set cfg \<and> sr_group m \<in> set groups"

lemma merged_live:
  "{m \<in> set (merge_rows cfg db). rule_live groups m} =
     config_rule ` {m\<in>set cfg. gm_group m \<in> set groups} \<union>
     {\<lparr>em_group = sr_group m, em_role = sr_role m, em_projects = sr_projects m, em_source = ''db'',
       em_editable = True, em_shadowed = False\<rparr> | m. m \<in> set db \<and> db_live cfg groups m}"
  by (auto simp: merge_rows_set rule_live_def db_live_def config_rule_def)

text \<open>The chart wins: the grants of a merged mapping are exactly those of the matching
  chart rules and of the matching database rules with a known role whose group the chart
  does not declare; the default role applies only when none of either matches. A shadowed
  rule or one with an unknown role gives nothing and does not stop the fallback.\<close>

theorem merged_grants:
  assumes "\<forall>m\<in>set cfg. 0 < role_rank (gm_role m)" and "dr = [] \<or> 0 < role_rank dr"
    and "mset rules = mset (merge_mapping cfg db)"
  shows "set (grants_for rules groups dr dp) =
    (if (\<exists>m\<in>set cfg. gm_group m \<in> set groups) \<or> (\<exists>m\<in>set db. db_live cfg groups m)
     then (\<Union>m\<in>{m\<in>set cfg. gm_group m \<in> set groups}. rule_grants (gm_role m) (gm_projects m)) \<union>
       (\<Union>m\<in>{m\<in>set db. db_live cfg groups m}. rule_grants (sr_role m) (sr_projects m))
     else if dr \<noteq> [] then rule_grants dr dp else {})"
proof -
  have rules: "set rules = set (merge_rows cfg db)"
    using mset_eq_setD [OF assms(3)] by (simp add: merge_mapping_def)
  have "\<forall>m\<in>set cfg. clean_role (gm_role m)" using assms(1) known_role_clean by blast
  from merge_rows_clean [OF this] have "\<forall>m\<in>set rules. clean_role (em_role m)" unfolding rules by blast
  moreover have "clean_role dr" using assms(2) by (auto intro: known_role_clean)
  ultimately have clean: "\<forall>m\<in>set rules. clean_role (em_role m)" "clean_role dr" by blast+
  from grants_for_spec [OF clean, of groups dp] have "set (grants_for rules groups dr dp) =
    (if {m\<in>set (merge_rows cfg db). rule_live groups m} \<noteq> {}
     then (\<Union>m\<in>{m\<in>set (merge_rows cfg db). rule_live groups m}. rule_grants (em_role m) (em_projects m))
     else if dr \<noteq> [] then rule_grants dr dp else {})"
    by (auto simp: rules)
  then show ?thesis unfolding merged_live by (auto simp: config_rule_def)
qed

theorem merged_grants_witness:
  "set (grants_for (merge_mapping [\<lparr>gm_group = ''ops'', gm_role = role_viewer, gm_projects = [''p'']\<rparr>]
       [\<lparr>sr_group = ''ops'', sr_role = role_admin, sr_projects = [''*'']\<rparr>]) [''ops''] [] []) =
     {\<lparr>g_scope = ''p'', g_role = role_viewer\<rparr>}"
  by (subst merged_grants [where cfg = "[\<lparr>gm_group = ''ops'', gm_role = role_viewer, gm_projects = [''p'']\<rparr>]"
        and db = "[\<lparr>sr_group = ''ops'', sr_role = role_admin, sr_projects = [''*'']\<rparr>]"])
    (auto simp: rule_grants_def db_live_def)

section \<open>The life of the snapshot\<close>

datatype cache_event = SetConfig mapping_config | Refresh rules_answer

fun cache_step :: "mapping_cache \<Rightarrow> cache_event \<Rightarrow> mapping_cache" where
  "cache_step c (SetConfig cfg) = set_config cfg c"
| "cache_step c (Refresh ans) = snd (refresh ans c)"

text \<open>The configuration in force after a run, and the configuration and rows of its last
  refresh that did not fail; the latest event is at the head.\<close>

fun config_after :: "cache_event list \<Rightarrow> mapping_config" where
  "config_after [] = \<lparr>mc_mapping = [], mc_default_role = [], mc_default_projects = []\<rparr>"
| "config_after (SetConfig cfg # evs) = cfg"
| "config_after (Refresh ans # evs) = config_after evs"

fun last_good :: "cache_event list \<Rightarrow> mapping_config \<times> stored_rule list" where
  "last_good [] = (config_after [], [])"
| "last_good (SetConfig cfg # evs) = last_good evs"
| "last_good (Refresh QueryFailed # evs) = last_good evs"
| "last_good (Refresh NoStore # evs) = (config_after evs, [])"
| "last_good (Refresh (Rules rows) # evs) = (config_after evs, rows)"

lemma empty_snapshot:
  "new_mapping_cache = \<lparr>cache_cfg = config_after [], cache_snapshot = take_snapshot (config_after []) []\<rparr>"
  by (simp add: new_mapping_cache_def take_snapshot_def merge_mapping_def merge_rows_def)

lemma cache_after:
  "foldl cache_step new_mapping_cache (rev evs) =
     \<lparr>cache_cfg = config_after evs, cache_snapshot = (case last_good evs of (cfg, rows) \<Rightarrow> take_snapshot cfg rows)\<rparr>"
proof (induction evs)
  case (Cons ev evs)
  then show ?case
  proof (cases ev)
    case (Refresh ans)
    with Cons show ?thesis by (cases ans) (simp_all add: refresh_def)
  qed (simp add: set_config_def)
qed (simp add: empty_snapshot)

text \<open>A request is always resolved by one consistent snapshot: after any run of
  configuration reloads and refreshes, a user's groups map to grants by the rules and the
  defaults of the last refresh whose query did not fail, taken together with the
  configuration in force at that refresh. A failed query or a reload alone changes nothing.\<close>

theorem mapper_serves_last_good:
  "mapper (foldl cache_step new_mapping_cache evs) groups =
     (case last_good (rev evs) of (cfg, rows) \<Rightarrow>
        grants_for (merge_mapping (mc_mapping cfg) rows) groups (mc_default_role cfg) (mc_default_projects cfg))"
  using cache_after [of "rev evs"] by (simp add: mapper_def take_snapshot_def split: prod.splits)

end
