(* ===== verification/GoStd.thy ===== *)
theory GoStd
  imports Prelude GoFloat
begin

text \<open>
  The parts of Go's standard library the hub parses its inputs with:
  \<open>time.ParseDuration\<close>, \<open>net/url\<close>'s \<open>Parse\<close> and the alphabet check of
  \<open>base64.RawURLEncoding\<close>. They model the library, not the repository; the theories of the
  hub's parts call them where the code does.
\<close>

section \<open>Durations\<close>

definition is_digit :: "char \<Rightarrow> bool" where
  "is_digit c \<longleftrightarrow> (let n = (of_char c :: int) in 48 \<le> n \<and> n \<le> 57)"

definition digit_val :: "char \<Rightarrow> int" where
  "digit_val c = of_char c - 48"

fun leading_int :: "int \<Rightarrow> string \<Rightarrow> (int \<times> string) option" where
  "leading_int x [] = Some (x, [])"
| "leading_int x (c # cs) =
     (if \<not> is_digit c then Some (x, c # cs)
      else if 2 ^ 63 div 10 < x then None
      else if 2 ^ 63 < x * 10 + digit_val c then None
      else leading_int (x * 10 + digit_val c) cs)"

text \<open>The digits of a fraction and the power of ten they are scaled by; digits that no longer
  fit are skipped.\<close>

fun leading_fraction :: "int \<Rightarrow> int \<Rightarrow> bool \<Rightarrow> string \<Rightarrow> int \<times> int \<times> string" where
  "leading_fraction x scale full [] = (x, scale, [])"
| "leading_fraction x scale full (c # cs) =
     (if \<not> is_digit c then (x, scale, c # cs)
      else if full \<or> (2 ^ 63 - 1) div 10 < x \<or> 2 ^ 63 < x * 10 + digit_val c
        then leading_fraction x scale True cs
      else leading_fraction (x * 10 + digit_val c) (scale * 10) False cs)"

definition unit_of :: "string \<Rightarrow> int option" where
  "unit_of u = map_of [(''ns'', 1), (''us'', 1000),
     ([CHR 0xC2, CHR 0xB5, CHR ''s''], 1000), ([CHR 0xCE, CHR 0xBC, CHR ''s''], 1000),
     (''ms'', 1000000), (''s'', 1000000000), (''m'', 60000000000), (''h'', 3600000000000)] u"

definition unit_char :: "char \<Rightarrow> bool" where
  "unit_char c \<longleftrightarrow> c \<noteq> CHR ''.'' \<and> \<not> is_digit c"

text \<open>The fraction after the integer part: its digits, their scale, the rest, and whether
  there was a digit.\<close>

definition fraction_part :: "string \<Rightarrow> int \<times> int \<times> string \<times> bool" where
  "fraction_part s =
     (case s of
        [] \<Rightarrow> (0, 1, s, False)
      | c # cs \<Rightarrow>
          (if c = CHR ''.''
           then (case leading_fraction 0 1 False cs of (f, scale, r) \<Rightarrow> (f, scale, r, length r \<noteq> length cs))
           else (0, 1, s, False)))"

text \<open>One number and unit; the fraction is scaled in floating point, as the library does.\<close>

definition parse_component :: "string \<Rightarrow> (int \<times> string) option" where
  "parse_component s =
     (case leading_int 0 s of
        None \<Rightarrow> None
      | Some (v, s1) \<Rightarrow>
          (case fraction_part s1 of (f, scale, s2, post) \<Rightarrow>
             let u = takeWhile unit_char s2
             in if length s1 = length s \<and> \<not> post \<or> u = [] then None
                else case unit_of u of
                  None \<Rightarrow> None
                | Some unit \<Rightarrow>
                    if 2 ^ 63 div unit < v then None
                    else
                      let v' = v * unit + (if 0 < f
                        then \<lfloor>fmul (fl (of_int f)) (fdiv (fl (of_int unit)) (fl (of_int scale)))\<rfloor> else 0)
                      in if 2 ^ 63 < v' then None else Some (v', dropWhile unit_char s2)))"

lemma leading_int_length: "leading_int x s = Some (v, r) \<Longrightarrow> length r \<le> length s"
  by (induction x s rule: leading_int.induct) (auto split: if_splits)

lemma leading_fraction_length: "leading_fraction x sc full s = (f, sc', r) \<Longrightarrow> length r \<le> length s"
proof (induction x sc full s arbitrary: f sc' r rule: leading_fraction.induct)
  case (2 x sc full c cs)
  then show ?case
    by (cases "is_digit c"; cases "full \<or> (2 ^ 63 - 1) div 10 < x \<or> 2 ^ 63 < x * 10 + digit_val c")
      (auto simp del: power_numeral split: if_splits)
qed simp

lemma fraction_part_length: "fraction_part s = (f, sc, r, p) \<Longrightarrow> length r \<le> length s"
  by (auto simp: fraction_part_def split: list.splits if_splits prod.splits dest: leading_fraction_length)

lemma parse_component_shorter:
  assumes "parse_component s = Some (v, r)"
  shows "length r < length s"
proof -
  obtain x s1 where i: "leading_int 0 s = Some (x, s1)"
    using assms by (auto simp: parse_component_def split: option.splits)
  obtain f sc s2 p where t: "fraction_part s1 = (f, sc, s2, p)" by (metis prod_cases4)
  have u: "takeWhile unit_char s2 \<noteq> []" and r: "r = dropWhile unit_char s2"
    using assms i t by (auto simp: parse_component_def Let_def split: option.splits if_splits)
  have "length (takeWhile unit_char s2) + length (dropWhile unit_char s2) = length s2"
    by (metis length_append takeWhile_dropWhile_id)
  moreover have "0 < length (takeWhile unit_char s2)" using u by simp
  ultimately show ?thesis using fraction_part_length [OF t] leading_int_length [OF i] unfolding r by linarith
qed

function parse_components :: "int \<Rightarrow> string \<Rightarrow> int option" where
  "parse_components d [] = Some d"
| "parse_components d (c # cs) =
     (if c \<noteq> CHR ''.'' \<and> \<not> is_digit c then None
      else case parse_component (c # cs) of
        None \<Rightarrow> None
      | Some (v, r) \<Rightarrow> if 2 ^ 63 < d + v then None else parse_components (d + v) r)"
  by pat_completeness auto
termination
  by (relation "measure (\<lambda>(d, s). length s)") (auto dest: parse_component_shorter)

definition parse_duration :: "string \<Rightarrow> duration option" where
  "parse_duration s0 =
     (let neg = has_prefix ''-'' s0; s = (if neg \<or> has_prefix ''+'' s0 then tl s0 else s0)
      in if s = ''0'' then Some 0
         else if s = [] then None
         else case parse_components 0 s of
           None \<Rightarrow> None
         | Some d \<Rightarrow> if neg then Some (- d) else if 2 ^ 63 - 1 < d then None else Some d)"

section \<open>URLs\<close>

record url =
  u_scheme :: string
  u_opaque :: string
  u_user :: "string option"
  u_host :: string
  u_path :: string
  u_query :: string
  u_fragment :: string

definition is_alpha :: "char \<Rightarrow> bool" where
  "is_alpha c \<longleftrightarrow> (let n = (of_char c :: int) in 65 \<le> n \<and> n \<le> 90 \<or> 97 \<le> n \<and> n \<le> 122)"

definition is_ctl :: "char \<Rightarrow> bool" where
  "is_ctl c \<longleftrightarrow> (let n = (of_char c :: int) in n < 32 \<or> n = 127)"

definition hex_val :: "char \<Rightarrow> int option" where
  "hex_val c = (let n = (of_char c :: int)
     in if 48 \<le> n \<and> n \<le> 57 then Some (n - 48)
        else if 97 \<le> n \<and> n \<le> 102 then Some (n - 87)
        else if 65 \<le> n \<and> n \<le> 70 then Some (n - 55) else None)"

text \<open>What a host may hold unescaped, next to letters, digits and non-ASCII bytes.\<close>

definition host_char :: "char \<Rightarrow> bool" where
  "host_char c \<longleftrightarrow> is_alpha c \<or> is_digit c \<or> 128 \<le> (of_char c :: int) \<or>
     c \<in> set ''-_.~!$&()*+,;=:[]<>'' \<or> c = CHR 0x27 \<or> c = CHR 0x22"

datatype escape_mode = EncHost | EncZone | EncOther

text \<open>Percent decoding. In a host only non-ASCII bytes and the percent sign may be escaped.\<close>

fun unescape :: "escape_mode \<Rightarrow> string \<Rightarrow> string option" where
  "unescape m [] = Some []"
| "unescape m (c # cs) =
     (if c = CHR ''%'' then
        (case cs of
           a # b # r \<Rightarrow>
             (case (hex_val a, hex_val b) of
                (Some x, Some y) \<Rightarrow>
                  if m = EncHost \<and> x < 8 \<and> \<not> (a = CHR ''2'' \<and> b = CHR ''5'') then None
                  else if m = EncZone \<and> x * 16 + y \<noteq> 37 \<and> x * 16 + y \<noteq> 32 \<and> x * 16 + y < 128 \<and>
                    \<not> host_char (char_of (x * 16 + y)) then None
                  else map_option ((#) (char_of (x * 16 + y))) (unescape m r)
              | _ \<Rightarrow> None)
         | _ \<Rightarrow> None)
      else if m \<noteq> EncOther \<and> \<not> host_char c then None
      else map_option ((#) c) (unescape m cs))"

definition valid_optional_port :: "string \<Rightarrow> bool" where
  "valid_optional_port p \<longleftrightarrow> (case p of [] \<Rightarrow> True | c # cs \<Rightarrow> c = CHR '':'' \<and> list_all is_digit cs)"

definition valid_userinfo :: "string \<Rightarrow> bool" where
  "valid_userinfo s \<longleftrightarrow>
     list_all (\<lambda>c. is_alpha c \<or> is_digit c \<or> c \<in> set ''-._:~!$&()*+,;=%@'' \<or> c = CHR 0x27) s"

text \<open>The index of the zone separator of an address literal, if it has one.\<close>

fun zone_index :: "string \<Rightarrow> nat option" where
  "zone_index [] = None"
| "zone_index (c # cs) = (if has_prefix [CHR ''%'', CHR ''2'', CHR ''5''] (c # cs) then Some 0 else map_option Suc (zone_index cs))"

definition parse_host :: "string \<Rightarrow> string option" where
  "parse_host h =
     (if has_prefix ''['' h then
        (case last_index (CHR '']'') h of
           None \<Rightarrow> None
         | Some i \<Rightarrow>
             if \<not> valid_optional_port (drop (Suc i) h) then None
             else case zone_index (take i h) of
               Some z \<Rightarrow>
                 (case (unescape EncHost (take z h), unescape EncZone (drop z (take i h)), unescape EncHost (drop i h)) of
                    (Some a, Some b, Some c) \<Rightarrow> Some (a @ b @ c)
                  | _ \<Rightarrow> None)
             | None \<Rightarrow> unescape EncHost h)
      else
        (case last_index (CHR '':'') h of
           Some i \<Rightarrow> if valid_optional_port (drop i h) then unescape EncHost h else None
         | None \<Rightarrow> unescape EncHost h))"

definition parse_authority :: "string \<Rightarrow> (string option \<times> string) option" where
  "parse_authority a =
     (case last_index (CHR ''@'') a of
        None \<Rightarrow> map_option (Pair None) (parse_host a)
      | Some i \<Rightarrow>
          (case parse_host (drop (Suc i) a) of
             None \<Rightarrow> None
           | Some h \<Rightarrow>
               if \<not> valid_userinfo (take i a) then None
               else map_option (\<lambda>u. (Some u, h)) (unescape EncOther (take i a))))"

text \<open>The scheme and the rest, \<open>None\<close> for a leading colon.\<close>

fun get_scheme_from :: "nat \<Rightarrow> string \<Rightarrow> string \<Rightarrow> (string \<times> string) option" where
  "get_scheme_from i raw [] = Some ([], raw)"
| "get_scheme_from i raw (c # cs) =
     (if is_alpha c then get_scheme_from (Suc i) raw cs
      else if is_digit c \<or> c \<in> set ''+-.'' then (if i = 0 then Some ([], raw) else get_scheme_from (Suc i) raw cs)
      else if c = CHR '':'' then (if i = 0 then None else Some (take i raw, drop (Suc i) raw))
      else Some ([], raw))"

definition split_query :: "string \<Rightarrow> string \<times> string" where
  "split_query r =
     (if has_suffix ''?'' r \<and> length (filter (\<lambda>c. c = CHR ''?'') r) = 1 then (butlast r, [])
      else (case cut (CHR ''?'') r of (a, b, _) \<Rightarrow> (a, b)))"

definition parse_before_fragment :: "string \<Rightarrow> url option" where
  "parse_before_fragment raw =
     (if list_ex is_ctl raw then None
      else if raw = ''*'' then
        Some \<lparr>u_scheme = [], u_opaque = [], u_user = None, u_host = [], u_path = ''*'', u_query = [], u_fragment = []\<rparr>
      else case get_scheme_from 0 raw raw of
        None \<Rightarrow> None
      | Some (sch, rest0) \<Rightarrow>
          let scheme = to_lower sch; (rest, query) = split_query rest0
          in if \<not> has_prefix ''/'' rest \<and> scheme \<noteq> [] then
               Some \<lparr>u_scheme = scheme, u_opaque = rest, u_user = None, u_host = [], u_path = [],
                 u_query = query, u_fragment = []\<rparr>
             else if \<not> has_prefix ''/'' rest \<and> CHR '':'' \<in> set (fst (cut (CHR ''/'') rest)) then None
             else
               let has_auth = ((scheme \<noteq> [] \<or> \<not> has_prefix ''///'' rest) \<and> has_prefix ''//'' rest);
                   auth = takeWhile (\<lambda>c. c \<noteq> CHR ''/'') (drop 2 rest);
                   path = (if has_auth then dropWhile (\<lambda>c. c \<noteq> CHR ''/'') (drop 2 rest) else rest)
               in case (if has_auth then parse_authority auth else Some (None, [])) of
                    None \<Rightarrow> None
                  | Some (user, host) \<Rightarrow>
                      map_option (\<lambda>p. \<lparr>u_scheme = scheme, u_opaque = [], u_user = user, u_host = host,
                        u_path = p, u_query = query, u_fragment = []\<rparr>) (unescape EncOther path))"

definition url_parse :: "string \<Rightarrow> url option" where
  "url_parse raw =
     (case cut (CHR ''#'') raw of (front, frag, _) \<Rightarrow>
        (case parse_before_fragment front of
           None \<Rightarrow> None
         | Some u \<Rightarrow>
             if frag = [] then Some u
             else map_option (\<lambda>f. u\<lparr>u_fragment := f\<rparr>) (unescape EncOther frag)))"

section \<open>Base64\<close>

definition b64url_char :: "char \<Rightarrow> bool" where
  "b64url_char c \<longleftrightarrow> is_alpha c \<or> is_digit c \<or> c = CHR ''-'' \<or> c = CHR ''_''"

text \<open>Whether \<open>RawURLEncoding.DecodeString\<close> succeeds: line breaks are skipped, every other
  byte is in the alphabet, and no lone sextet is left over.\<close>

definition b64url_decodes :: "string \<Rightarrow> bool" where
  "b64url_decodes s =
     (let t = filter (\<lambda>c. c \<noteq> CHR 0x0A \<and> c \<noteq> CHR 0x0D) s
      in list_all b64url_char t \<and> length t mod 4 \<noteq> 1)"

end
