(* ===== verification/HealthConfig.thy ===== *)
theory HealthConfig
  imports GoStd
begin

text \<open>
  The service-health configuration (hub/internal/health/config.go): criticality tiers, group
  selectors, scheduled checks, threshold layers. Tiers are strings, as in the code: a stored
  group can carry one that is not known. The JSON decoder is an argument of
  \<open>parse_health_config\<close>. Maps the code ranges over (tier thresholds and overrides) are
  association lists in iteration order.
\<close>

type_synonym tier = string

definition known_tier :: "tier \<Rightarrow> bool" where
  "known_tier t \<longleftrightarrow> t = ''T0'' \<or> t = ''T1'' \<or> t = ''T2'' \<or> t = ''T3''"

record selector =
  sel_namespaces :: "string list"
  sel_services :: "string list"

record expect =
  ex_status :: int
  ex_max_latency :: string

record check =
  ck_id :: string
  ck_url :: string
  ck_interval :: string
  ck_expect :: expect

record hgroup =
  grp_name :: string
  grp_tier :: tier
  grp_selector :: selector
  grp_checks :: "check list"

record thresholds =
  th_warn :: float64
  th_crit :: float64
  th_p95 :: float64
  th_min :: nat

record threshold_config =
  tc_defaults :: thresholds
  tc_tiers :: "(tier \<times> thresholds) list"
  tc_services :: "(string \<times> thresholds) list"

record critical_edge =
  ce_from :: string
  ce_to :: string

record health_config =
  hc_default_tier :: tier
  hc_groups :: "hgroup list"
  hc_thresholds :: threshold_config
  hc_critical_edges :: "critical_edge list"
  hc_tier_overrides :: "(string \<times> tier) list"

definition builtin_defaults :: thresholds where
  "builtin_defaults = \<lparr>th_warn = fl (1 / 100), th_crit = fl (5 / 100), th_p95 = 500, th_min = 5\<rparr>"

definition no_thresholds :: thresholds where
  "no_thresholds = \<lparr>th_warn = 0, th_crit = 0, th_p95 = 0, th_min = 0\<rparr>"

definition default_config :: health_config where
  "default_config = \<lparr>hc_default_tier = ''T2'', hc_groups = [],
     hc_thresholds = \<lparr>tc_defaults = builtin_defaults, tc_tiers = [], tc_services = []\<rparr>,
     hc_critical_edges = [], hc_tier_overrides = []\<rparr>"

section \<open>Validation\<close>

datatype health_error =
    BadJson
  | BadDefaultTier tier
  | EmptyGroupName nat
  | DuplicateGroup string
  | BadGroupTier string tier
  | EmptySelector string
  | EmptyCheckId string nat
  | DuplicateCheckId string
  | BadCheckUrl string string
  | BadInterval string string
  | BadMaxLatency string string
  | BadStatus string int
  | BadThresholdTier tier
  | BadTierOverride string tier

definition default_check_interval :: duration where
  "default_check_interval = 60 * second"

definition default_check_timeout :: duration where
  "default_check_timeout = 10 * second"

definition positive_duration :: "string \<Rightarrow> duration option" where
  "positive_duration s = (case parse_duration s of None \<Rightarrow> None | Some d \<Rightarrow> if d \<le> 0 then None else Some d)"

definition interval_or_default :: "check \<Rightarrow> duration option" where
  "interval_or_default ck =
     (if trim_space (ck_interval ck) = [] then Some default_check_interval
      else positive_duration (ck_interval ck))"

definition max_latency_or_zero :: "check \<Rightarrow> duration option" where
  "max_latency_or_zero ck =
     (if trim_space (ex_max_latency (ck_expect ck)) = [] then Some 0
      else positive_duration (ex_max_latency (ck_expect ck)))"

definition absolute_http_url :: "string \<Rightarrow> bool" where
  "absolute_http_url raw \<longleftrightarrow>
     (case url_parse raw of None \<Rightarrow> False
      | Some u \<Rightarrow> u_host u \<noteq> [] \<and> (u_scheme u = ''http'' \<or> u_scheme u = ''https''))"

text \<open>\<open>Check.validate\<close>; the set of ids seen so far is threaded through.\<close>

definition validate_check :: "string \<Rightarrow> nat \<Rightarrow> string list \<Rightarrow> check \<Rightarrow> health_error + string list" where
  "validate_check grp i ids ck =
     (if trim_space (ck_id ck) = [] then Inl (EmptyCheckId grp i)
      else if ck_id ck \<in> set ids then Inl (DuplicateCheckId (ck_id ck))
      else if \<not> absolute_http_url (ck_url ck) then Inl (BadCheckUrl (ck_id ck) (ck_url ck))
      else if interval_or_default ck = None then Inl (BadInterval (ck_id ck) (ck_interval ck))
      else if max_latency_or_zero ck = None then Inl (BadMaxLatency (ck_id ck) (ex_max_latency (ck_expect ck)))
      else let s = ex_status (ck_expect ck)
        in if s \<noteq> 0 \<and> (s < 100 \<or> 599 < s) then Inl (BadStatus (ck_id ck) s)
           else Inr (ck_id ck # ids))"

fun validate_checks :: "string \<Rightarrow> nat \<Rightarrow> string list \<Rightarrow> check list \<Rightarrow> health_error + string list" where
  "validate_checks grp i ids [] = Inr ids"
| "validate_checks grp i ids (ck # cks) =
     (case validate_check grp i ids ck of Inl e \<Rightarrow> Inl e | Inr ids' \<Rightarrow> validate_checks grp (Suc i) ids' cks)"

fun validate_groups :: "nat \<Rightarrow> string list \<Rightarrow> string list \<Rightarrow> hgroup list \<Rightarrow> health_error option" where
  "validate_groups i seen ids [] = None"
| "validate_groups i seen ids (g # gs) =
     (if trim_space (grp_name g) = [] then Some (EmptyGroupName i)
      else if grp_name g \<in> set seen then Some (DuplicateGroup (grp_name g))
      else if \<not> known_tier (grp_tier g) then Some (BadGroupTier (grp_name g) (grp_tier g))
      else if sel_namespaces (grp_selector g) = [] \<and> sel_services (grp_selector g) = []
        then Some (EmptySelector (grp_name g))
      else case validate_checks (grp_name g) 0 ids (grp_checks g) of
             Inl e \<Rightarrow> Some e
           | Inr ids' \<Rightarrow> validate_groups (Suc i) (grp_name g # seen) ids' gs)"

definition validate_config :: "health_config \<Rightarrow> health_error option" where
  "validate_config c =
     (if \<not> known_tier (hc_default_tier c) then Some (BadDefaultTier (hc_default_tier c))
      else case validate_groups 0 [] [] (hc_groups c) of
        Some e \<Rightarrow> Some e
      | None \<Rightarrow>
          (case find (\<lambda>t. \<not> known_tier t) (map fst (tc_tiers (hc_thresholds c))) of
             Some t \<Rightarrow> Some (BadThresholdTier t)
           | None \<Rightarrow>
               map_option (\<lambda>(svc, t). BadTierOverride svc t)
                 (find (\<lambda>(svc, t). \<not> known_tier t) (hc_tier_overrides c))))"

section \<open>Thresholds\<close>

definition merge_thresholds :: "thresholds \<Rightarrow> thresholds \<Rightarrow> thresholds" where
  "merge_thresholds base upper =
     \<lparr>th_warn = (if th_warn upper \<noteq> 0 then th_warn upper else th_warn base),
      th_crit = (if th_crit upper \<noteq> 0 then th_crit upper else th_crit base),
      th_p95 = (if th_p95 upper \<noteq> 0 then th_p95 upper else th_p95 base),
      th_min = (if th_min upper \<noteq> 0 then th_min upper else th_min base)\<rparr>"

definition normalize :: "health_config \<Rightarrow> health_config" where
  "normalize c = c\<lparr>hc_thresholds := (hc_thresholds c)
     \<lparr>tc_defaults := merge_thresholds builtin_defaults (tc_defaults (hc_thresholds c))\<rparr>\<rparr>"

definition resolve_thresholds :: "health_config \<Rightarrow> string \<Rightarrow> tier \<Rightarrow> thresholds" where
  "resolve_thresholds c svc t =
     (let b = merge_thresholds builtin_defaults (tc_defaults (hc_thresholds c));
          b1 = (case map_of (tc_tiers (hc_thresholds c)) t of None \<Rightarrow> b | Some tv \<Rightarrow> merge_thresholds b tv)
      in case map_of (tc_services (hc_thresholds c)) svc of None \<Rightarrow> b1 | Some sv \<Rightarrow> merge_thresholds b1 sv)"

definition critical_overrides :: "health_config \<Rightarrow> (string \<times> string) list" where
  "critical_overrides c = map (\<lambda>e. (ce_from e, ce_to e)) (hc_critical_edges c)"

definition all_checks :: "health_config \<Rightarrow> (string \<times> tier \<times> check) list" where
  "all_checks c = concat (map (\<lambda>g. map (\<lambda>ck. (grp_name g, grp_tier g, ck)) (grp_checks g)) (hc_groups c))"

definition parse_health_config :: "(string \<Rightarrow> health_config option) \<Rightarrow> string \<Rightarrow> health_error + health_config" where
  "parse_health_config json body =
     (if trim_space body = [] then Inr default_config
      else case json body of
        None \<Rightarrow> Inl BadJson
      | Some c0 \<Rightarrow>
          let c = (if hc_default_tier c0 = [] then c0\<lparr>hc_default_tier := ''T2''\<rparr> else c0)
          in case validate_config c of Some e \<Rightarrow> Inl e | None \<Rightarrow> Inr (normalize c))"

section \<open>What validation promises\<close>

lemma validate_check_ok:
  "validate_check grp i ids ck = Inr ids' \<Longrightarrow>
     ids' = ck_id ck # ids \<and> ck_id ck \<notin> set ids \<and> absolute_http_url (ck_url ck) \<and>
     interval_or_default ck \<noteq> None \<and> max_latency_or_zero ck \<noteq> None"
  by (auto simp: validate_check_def Let_def split: if_splits)

lemma validate_checks_ok:
  "validate_checks grp i ids cks = Inr ids' \<Longrightarrow>
     ids' = rev (map ck_id cks) @ ids \<and> (distinct ids \<longrightarrow> distinct ids') \<and>
     (\<forall>ck\<in>set cks. absolute_http_url (ck_url ck) \<and> interval_or_default ck \<noteq> None \<and> max_latency_or_zero ck \<noteq> None)"
  by (induction grp i ids cks arbitrary: ids' rule: validate_checks.induct)
    (auto split: sum.splits dest!: validate_check_ok)

lemma validate_groups_ok:
  "validate_groups i seen ids gs = None \<Longrightarrow> distinct seen \<Longrightarrow> distinct ids \<Longrightarrow>
     distinct (rev (map grp_name gs) @ seen) \<and>
     distinct (rev (concat (map (\<lambda>g. map ck_id (grp_checks g)) gs)) @ ids) \<and>
     (\<forall>g\<in>set gs. known_tier (grp_tier g) \<and>
        (\<forall>ck\<in>set (grp_checks g). absolute_http_url (ck_url ck) \<and> interval_or_default ck \<noteq> None))"
proof (induction i seen ids gs rule: validate_groups.induct)
  case (2 i seen ids g gs)
  from "2.prems"(1) obtain ids' where ids': "validate_checks (grp_name g) 0 ids (grp_checks g) = Inr ids'"
    and rest: "validate_groups (Suc i) (grp_name g # seen) ids' gs = None"
    and g: "trim_space (grp_name g) \<noteq> []" "grp_name g \<notin> set seen" "known_tier (grp_tier g)"
      "\<not> (sel_namespaces (grp_selector g) = [] \<and> sel_services (grp_selector g) = [])"
    by (auto split: if_splits sum.splits)
  note cks = validate_checks_ok [OF ids']
  have "distinct (grp_name g # seen)" using g "2.prems" by simp
  moreover have "distinct ids'" using "2.prems"(3) cks by blast
  ultimately have dist: "distinct (grp_name g # seen)" "distinct ids'" by blast+
  with "2.IH" [OF g(1,2) _ g(4) ids' rest] g(3) have
    "distinct (rev (map grp_name gs) @ grp_name g # seen)"
    "distinct (rev (concat (map (\<lambda>g. map ck_id (grp_checks g)) gs)) @ ids')"
    "\<forall>g\<in>set gs. known_tier (grp_tier g) \<and>
        (\<forall>ck\<in>set (grp_checks g). absolute_http_url (ck_url ck) \<and> interval_or_default ck \<noteq> None)"
    by auto
  with cks g(3) show ?case by auto
qed simp

lemma merge_thresholds_builtin:
  "th_warn (merge_thresholds b t) = 0 \<longleftrightarrow> th_warn t = 0 \<and> th_warn b = 0"
  "th_min (merge_thresholds b t) = 0 \<longleftrightarrow> th_min t = 0 \<and> th_min b = 0"
  "th_crit (merge_thresholds b t) = 0 \<longleftrightarrow> th_crit t = 0 \<and> th_crit b = 0"
  by (auto simp: merge_thresholds_def)

lemma merge_thresholds_assoc:
  "merge_thresholds (merge_thresholds a b) c = merge_thresholds a (merge_thresholds b c)"
  by (simp add: merge_thresholds_def)

lemma merge_thresholds_idem: "merge_thresholds a (merge_thresholds a b) = merge_thresholds a b"
  by (simp add: merge_thresholds_def)

lemma resolve_normalized: "resolve_thresholds (normalize c) svc t = resolve_thresholds c svc t"
  by (simp add: resolve_thresholds_def normalize_def merge_thresholds_idem)

section \<open>Properties\<close>

text \<open>A configuration the hub starts with is usable by everything that reads it: its
  tiers are known, group names and check ids are globally distinct, every check has an
  absolute HTTP address and a positive interval, and the default thresholds are complete
  (none of the error thresholds or the sample floor is the zero that means inherit).\<close>

theorem parsed_config_sound:
  assumes "parse_health_config json body = Inr c"
  shows "known_tier (hc_default_tier c) \<and>
    distinct (map grp_name (hc_groups c)) \<and>
    distinct (map (\<lambda>(_, _, ck). ck_id ck) (all_checks c)) \<and>
    (\<forall>g\<in>set (hc_groups c). known_tier (grp_tier g)) \<and>
    (\<forall>(_, _, ck)\<in>set (all_checks c). absolute_http_url (ck_url ck) \<and>
       (\<exists>d>0. interval_or_default ck = Some d)) \<and>
    (\<forall>t\<in>set (map fst (tc_tiers (hc_thresholds c))). known_tier t) \<and>
    (\<forall>(_, t)\<in>set (hc_tier_overrides c). known_tier t) \<and>
    th_crit (tc_defaults (hc_thresholds c)) \<noteq> 0 \<and> th_min (tc_defaults (hc_thresholds c)) \<noteq> 0"
proof -
  have fl5: "fl (5 / 100) \<noteq> 0" by code_simp
  show ?thesis
  proof (cases "trim_space body = []")
    case True
    with assms have "c = default_config" by (simp add: parse_health_config_def)
    then show ?thesis
      using fl5 by (simp add: default_config_def known_tier_def all_checks_def builtin_defaults_def)
  next
    case False
    from assms False obtain c1 where v: "validate_config c1 = None" and c: "c = normalize c1"
      by (auto simp: parse_health_config_def Let_def split: option.splits if_splits)
    from v have g: "validate_groups 0 [] [] (hc_groups c1) = None" and d: "known_tier (hc_default_tier c1)"
      and tiers: "\<forall>t\<in>set (map fst (tc_tiers (hc_thresholds c1))). known_tier t"
      and over: "\<forall>(_, t)\<in>set (hc_tier_overrides c1). known_tier t"
      by (auto simp: validate_config_def find_None_iff split: if_splits option.splits)
    have pos: "\<exists>d>0. interval_or_default ck = Some d" if "interval_or_default ck \<noteq> None" for ck
      using that by (auto simp: interval_or_default_def positive_duration_def default_check_interval_def
          duration_defs split: option.splits if_splits)
    have ids: "map (\<lambda>(_, _, ck). ck_id ck) (all_checks c1) = concat (map (\<lambda>g. map ck_id (grp_checks g)) (hc_groups c1))"
      by (simp add: all_checks_def map_concat comp_def)
    have base: "th_crit (tc_defaults (hc_thresholds c)) \<noteq> 0" "th_min (tc_defaults (hc_thresholds c)) \<noteq> 0"
      using fl5 by (simp_all add: c normalize_def merge_thresholds_builtin builtin_defaults_def)
    have same: "hc_groups c = hc_groups c1" "all_checks c = all_checks c1" "hc_default_tier c = hc_default_tier c1"
      "tc_tiers (hc_thresholds c) = tc_tiers (hc_thresholds c1)" "hc_tier_overrides c = hc_tier_overrides c1"
      by (simp_all add: c normalize_def all_checks_def)
    from validate_groups_ok [OF g] have ok: "distinct (map grp_name (hc_groups c1))"
      "distinct (concat (map (\<lambda>g. map ck_id (grp_checks g)) (hc_groups c1)))"
      "\<forall>g\<in>set (hc_groups c1). known_tier (grp_tier g) \<and>
        (\<forall>ck\<in>set (grp_checks g). absolute_http_url (ck_url ck) \<and> interval_or_default ck \<noteq> None)"
      by (simp_all add: distinct_rev)
    have "\<forall>(_, _, ck)\<in>set (all_checks c1). absolute_http_url (ck_url ck) \<and> (\<exists>d>0. interval_or_default ck = Some d)"
      using ok(3) pos by (auto simp: all_checks_def)
    with ok ids d tiers over base show ?thesis unfolding same by simp
  qed
qed

theorem parsed_config_sound_witness:
  "\<exists>c. parse_health_config (\<lambda>_. Some (default_config\<lparr>hc_groups := [\<lparr>grp_name = ''g'', grp_tier = ''T1'',
      grp_selector = \<lparr>sel_namespaces = [''n''], sel_services = []\<rparr>,
      grp_checks = [\<lparr>ck_id = ''c'', ck_url = ''https://h/p'', ck_interval = ''30s'',
        ck_expect = \<lparr>ex_status = 0, ex_max_latency = []\<rparr>\<rparr>]\<rparr>]\<rparr>)) ''{}'' = Inr c \<and>
    distinct (map grp_name (hc_groups c)) \<and> length (all_checks c) = 1"
  (is "\<exists>c. ?p = Inr c \<and> _")
proof -
  have "case ?p of Inr c \<Rightarrow> length (all_checks c) = 1 | Inl e \<Rightarrow> False" by code_simp
  then obtain c where "?p = Inr c" "length (all_checks c) = 1" by (auto split: sum.splits)
  with parsed_config_sound [of _ _ c] show ?thesis by blast
qed

end
