(* ===== verification/HealthRollup.thy ===== *)
theory HealthRollup
  imports HealthConfig Ranking "HOL-Library.Product_Lexorder"
begin

text \<open>
  Health of services and groups (hub/internal/health/status.go, tier.go, resolve.go and
  rollup.go). Counts are \<open>uint64\<close>: sums of them are taken modulo \<open>2 ^ 64\<close>. The map from
  services to assignments is ranged over, so it is an association list in iteration order;
  maps that are only looked up are HOL maps with the zero value for an absent key. Texts
  built with \<open>Sprintf\<close> are constructors of \<open>reason\<close> holding what they print.
\<close>

section \<open>Statuses and tiers\<close>

type_synonym status = string

abbreviation healthy :: status where "healthy \<equiv> ''healthy''"
abbreviation degraded :: status where "degraded \<equiv> ''degraded''"
abbreviation down :: status where "down \<equiv> ''down''"
abbreviation idle :: status where "idle \<equiv> ''idle''"
abbreviation unknown :: status where "unknown \<equiv> ''unknown''"

definition severity :: "status \<Rightarrow> nat" where
  "severity s = (if s = healthy then 1 else if s = degraded then 2 else if s = down then 3 else 0)"

definition worst :: "status \<Rightarrow> status \<Rightarrow> status" where
  "worst a b = (if severity a < severity b then b else a)"

definition tier_rank :: "tier \<Rightarrow> nat" where
  "tier_rank t = (if t = ''T0'' then 0 else if t = ''T1'' then 1 else if t = ''T2'' then 2
     else if t = ''T3'' then 3 else 4)"

definition more_critical :: "tier \<Rightarrow> tier \<Rightarrow> tier" where
  "more_critical a b = (if tier_rank b < tier_rank a then b else a)"

definition parse_tier_soft :: "string \<Rightarrow> tier option" where
  "parse_tier_soft v = (if known_tier v then Some v else None)"

interpretation health: worst_of severity worst
  by unfold_locales (auto simp: worst_def)

text \<open>Criticality counts down: a more critical tier has the smaller rank.\<close>

interpretation criticality: worst_of "\<lambda>t. 4 - tier_rank t" more_critical
  by unfold_locales (auto simp: more_critical_def tier_rank_def)

datatype reason =
    NoReason
  | NoTraffic
  | InsufficientData nat nat
  | ErrorBudget float64 float64
  | LatencyObjective float64 float64
  | WithinObjectives
  | CriticalDependencyDown string
  | DependsOnDown string
  | AlsoDependsOnDown reason string
  | AllWithin nat
  | WorstMember string status
  | CheckFailing string nat "string + int"
  | ChecksPassing

record service_stats =
  st_name :: string
  st_span_count :: nat
  st_error_count :: nat
  st_p95 :: duration

definition error_rate :: "nat \<Rightarrow> nat \<Rightarrow> float64" where
  "error_rate errs spans = fdiv (float_of_nat errs) (float_of_nat spans)"

definition p95_ms :: "duration \<Rightarrow> float64" where
  "p95_ms d = fdiv (fl (of_int d)) (fl (of_int millisecond))"

definition service_status :: "service_stats \<Rightarrow> thresholds \<Rightarrow> status \<times> reason" where
  "service_status s thr =
     (if st_span_count s = 0 then (idle, NoTraffic)
      else if st_span_count s < th_min thr then (idle, InsufficientData (st_span_count s) (th_min thr))
      else
        let rate = error_rate (st_error_count s) (st_span_count s);
            p95 = p95_ms (st_p95 s);
            (err_status, err_reason) =
              (if th_crit thr \<le> rate then (down, ErrorBudget rate (th_crit thr))
               else if th_warn thr \<le> rate then (degraded, ErrorBudget rate (th_warn thr))
               else (healthy, NoReason));
            (lat_status, lat_reason) =
              (if 0 < th_p95 thr \<and> th_p95 thr \<le> p95 then (degraded, LatencyObjective p95 (th_p95 thr))
               else (healthy, NoReason));
            st = worst err_status lat_status
        in (st, if st = down then err_reason
                else if st = degraded then (if err_status = degraded then err_reason else lat_reason)
                else WithinObjectives))"

section \<open>Grouping\<close>

record service_label =
  lb_service :: string
  lb_k8s_namespace :: string
  lb_service_namespace :: string
  lb_environment :: string
  lb_declared_tier :: string

definition no_label :: service_label where
  "no_label = \<lparr>lb_service = [], lb_k8s_namespace = [], lb_service_namespace = [], lb_environment = [],
     lb_declared_tier = []\<rparr>"

record assignment =
  as_service :: string
  as_group :: string
  as_env :: string
  as_tier :: tier
  as_source :: string
  as_tier_source :: string

definition namespace_of :: "service_label \<Rightarrow> string" where
  "namespace_of l = (if lb_k8s_namespace l \<noteq> [] then lb_k8s_namespace l
     else if lb_service_namespace l \<noteq> [] then lb_service_namespace l else ''(unlabeled)'')"

definition match_group :: "hgroup list \<Rightarrow> string \<Rightarrow> string \<Rightarrow> hgroup option" where
  "match_group gs svc ns =
     find (\<lambda>g. svc \<in> set (sel_services (grp_selector g)) \<or> ns \<in> set (sel_namespaces (grp_selector g))) gs"

text \<open>The assignment of one service, and the warning it may raise: the service, the tier it
  declared and the tier used instead.\<close>

definition assign_one :: "health_config \<Rightarrow> (string \<rightharpoonup> service_label) \<Rightarrow> service_stats \<Rightarrow>
    assignment \<times> (string \<times> string \<times> tier) list" where
  "assign_one cfg labels s =
     (let l = (case labels (st_name s) of None \<Rightarrow> no_label | Some l \<Rightarrow> l);
          ns = namespace_of l;
          base = \<lparr>as_service = st_name s, as_group = ns, as_env = lb_environment l,
            as_tier = hc_default_tier cfg, as_source = ''auto'', as_tier_source = ''default''\<rparr>;
          (a, ws) = (case match_group (hc_groups cfg) (st_name s) ns of
              Some g \<Rightarrow> (base\<lparr>as_group := grp_name g, as_source := ''config'',
                  as_tier := grp_tier g, as_tier_source := ''config''\<rparr>, [])
            | None \<Rightarrow>
                (if lb_declared_tier l = [] then (base, [])
                 else case parse_tier_soft (lb_declared_tier l) of
                   Some t \<Rightarrow> (base\<lparr>as_tier := t, as_tier_source := ''declared''\<rparr>, [])
                 | None \<Rightarrow> (base, [(st_name s, lb_declared_tier l, hc_default_tier cfg)])))
      in (case map_of (hc_tier_overrides cfg) (st_name s) of
            None \<Rightarrow> a
          | Some t \<Rightarrow> a\<lparr>as_tier := t, as_tier_source := ''override''\<rparr>, ws))"

definition resolve :: "health_config \<Rightarrow> service_stats list \<Rightarrow> service_label list \<Rightarrow>
    (string \<times> assignment) list \<times> (string \<times> string \<times> tier) list" where
  "resolve cfg stats labels =
     (let lbl = map_from lb_service id labels
      in (fold (\<lambda>s out. AList.update (st_name s) (fst (assign_one cfg lbl s)) out) stats [],
          sort (concat (map (\<lambda>s. snd (assign_one cfg lbl s)) stats))))"

section \<open>Propagation\<close>

record service_edge =
  ed_source :: string
  ed_target :: string

record dependency =
  dep_service :: string
  dep_tier :: tier
  dep_critical :: bool
  dep_status :: status

text \<open>Go's map lookup with the zero value for an absent key.\<close>

definition at_key :: "'v \<Rightarrow> ('k \<rightharpoonup> 'v) \<Rightarrow> 'k \<Rightarrow> 'v" where
  "at_key z m k = (case m k of None \<Rightarrow> z | Some v \<Rightarrow> v)"

record propagation =
  pr_seen :: "(string \<times> string) list"
  pr_deps :: "string \<Rightarrow> dependency list"
  pr_effective :: "string \<rightharpoonup> status"
  pr_reason :: "string \<rightharpoonup> reason"

definition assigned_tier :: "(string \<times> assignment) list \<Rightarrow> string \<Rightarrow> tier" where
  "assigned_tier asg svc = (case map_of asg svc of None \<Rightarrow> [] | Some a \<Rightarrow> as_tier a)"

definition critical_edge_p :: "health_config \<Rightarrow> (string \<times> assignment) list \<Rightarrow> string \<Rightarrow> string \<Rightarrow> bool" where
  "critical_edge_p cfg asg s t \<longleftrightarrow> assigned_tier asg t = ''T0'' \<or> (s, t) \<in> set (critical_overrides cfg)"

text \<open>A critical dependency \<open>t\<close> of \<open>s\<close> is down: the dependent cannot be green.\<close>

definition note_down :: "string \<Rightarrow> string \<Rightarrow> propagation \<Rightarrow> propagation" where
  "note_down s t p =
     (if at_key [] (pr_effective p) s = idle \<or> at_key [] (pr_effective p) s = unknown
      then p\<lparr>pr_reason := (pr_reason p)(s \<mapsto> CriticalDependencyDown t)\<rparr>
      else if at_key [] (pr_effective p) s = healthy
      then p\<lparr>pr_effective := (pr_effective p)(s \<mapsto> degraded), pr_reason := (pr_reason p)(s \<mapsto> DependsOnDown t)\<rparr>
      else p\<lparr>pr_reason := (pr_reason p)(s \<mapsto> AlsoDependsOnDown (at_key NoReason (pr_reason p) s) t)\<rparr>)"

definition add_dependency :: "string \<Rightarrow> dependency \<Rightarrow> propagation \<Rightarrow> propagation" where
  "add_dependency s d p = p\<lparr>pr_deps := (pr_deps p)(s := pr_deps p s @ [d])\<rparr>"

definition mark_seen :: "string \<times> string \<Rightarrow> propagation \<Rightarrow> propagation" where
  "mark_seen k p = p\<lparr>pr_seen := k # pr_seen p\<rparr>"

definition critical_dependency :: "(string \<times> assignment) list \<Rightarrow> (string \<rightharpoonup> status) \<Rightarrow> string \<Rightarrow> dependency" where
  "critical_dependency asg base t =
     \<lparr>dep_service = t, dep_tier = assigned_tier asg t, dep_critical = True, dep_status = at_key unknown base t\<rparr>"

definition propagate_to :: "health_config \<Rightarrow> (string \<times> assignment) list \<Rightarrow> (string \<rightharpoonup> status) \<Rightarrow>
    string \<Rightarrow> string \<Rightarrow> propagation \<Rightarrow> propagation" where
  "propagate_to cfg asg base s t p =
     (if s = [] \<or> t = [] \<or> s = t then p
      else if (s, t) \<in> set (pr_seen p) then p
      else if \<not> critical_edge_p cfg asg s t then mark_seen (s, t) p
      else if at_key unknown base t \<noteq> down
        then add_dependency s (critical_dependency asg base t) (mark_seen (s, t) p)
      else note_down s t (add_dependency s (critical_dependency asg base t) (mark_seen (s, t) p)))"

definition propagate_edge :: "health_config \<Rightarrow> (string \<times> assignment) list \<Rightarrow> (string \<rightharpoonup> status) \<Rightarrow>
    propagation \<Rightarrow> service_edge \<Rightarrow> propagation" where
  "propagate_edge cfg asg base p e = propagate_to cfg asg base (ed_source e) (ed_target e) p"

definition propagate :: "health_config \<Rightarrow> (string \<times> assignment) list \<Rightarrow> (string \<rightharpoonup> status) \<Rightarrow>
    (string \<rightharpoonup> reason) \<Rightarrow> service_edge list \<Rightarrow> propagation" where
  "propagate cfg asg base base_reason edges =
     foldl (propagate_edge cfg asg base)
       \<lparr>pr_seen = [], pr_deps = (\<lambda>_. []), pr_effective = base, pr_reason = base_reason\<rparr> edges"

section \<open>Members and groups\<close>

record member =
  mb_service :: string
  mb_tier :: tier
  mb_base :: status
  mb_effective :: status
  mb_reason :: reason
  mb_span_count :: nat
  mb_rate :: float64
  mb_error_rate :: float64
  mb_p95 :: float64
  mb_deps :: "dependency list"

text \<open>One probe's outcome and a check's standing (checks.go); the rollup leaves a group's
  standings empty.\<close>

record check_result =
  cr_at :: instant
  cr_ok :: bool
  cr_status :: int
  cr_latency :: float64
  cr_error :: string
  cr_trace :: string

record check_state =
  cs_id :: string
  cs_ok :: bool
  cs_failing :: bool
  cs_consecutive :: nat
  cs_latency :: float64
  cs_status :: int
  cs_error :: string
  cs_last_run :: instant
  cs_trace :: string

record group_health =
  gh_name :: string
  gh_env :: string
  gh_tier :: tier
  gh_source :: string
  gh_tier_source :: string
  gh_status :: status
  gh_reason :: reason
  gh_counts :: "status \<Rightarrow> nat"
  gh_span_count :: nat
  gh_rate :: float64
  gh_error_rate :: float64
  gh_p95 :: float64
  gh_members :: "member list"
  gh_checks :: "check_state list"

definition no_stats :: service_stats where
  "no_stats = \<lparr>st_name = [], st_span_count = 0, st_error_count = 0, st_p95 = 0\<rparr>"

text \<open>\<open>window.Seconds()\<close>, replaced by 1 when it is not positive.\<close>

definition window_secs :: "duration \<Rightarrow> float64" where
  "window_secs w =
     (let secs = fadd (fl (of_int (w div second))) (fdiv (fl (of_int (w mod second))) (fl (of_int second)))
      in if w \<le> 0 then 1 else secs)"

definition build_member :: "(string \<rightharpoonup> service_stats) \<Rightarrow> (string \<rightharpoonup> status) \<Rightarrow> propagation \<Rightarrow> duration \<Rightarrow>
    string \<Rightarrow> assignment \<Rightarrow> member" where
  "build_member stat_of base p w svc a =
     (let s = at_key no_stats stat_of svc
      in \<lparr>mb_service = svc, mb_tier = as_tier a, mb_base = at_key [] base svc,
          mb_effective = at_key [] (pr_effective p) svc, mb_reason = at_key NoReason (pr_reason p) svc,
          mb_span_count = st_span_count s,
          mb_rate = fdiv (float_of_nat (st_span_count s)) (window_secs w),
          mb_error_rate = (if 0 < st_span_count s then error_rate (st_error_count s) (st_span_count s) else 0),
          mb_p95 = p95_ms (st_p95 s),
          mb_deps = sort_key dep_service (pr_deps p svc)\<rparr>)"

definition group_key :: "string \<Rightarrow> string \<Rightarrow> string" where
  "group_key grp env = (if env = [] then grp else grp @ [CHR 0x00] @ env)"

record group_acc =
  ga_name :: string
  ga_env :: string
  ga_tier :: tier
  ga_source :: string
  ga_tier_source :: string
  ga_members :: "member list"
  ga_span_count :: nat
  ga_err_count :: nat
  ga_rate :: float64
  ga_p95 :: float64

text \<open>The error count a member contributes: its error rate times its spans, truncated.\<close>

definition member_errors :: "member \<Rightarrow> nat" where
  "member_errors m = nat_of_float (fmul (mb_error_rate m) (float_of_nat (mb_span_count m)))"

definition new_group :: "assignment \<Rightarrow> group_acc" where
  "new_group a = \<lparr>ga_name = as_group a, ga_env = as_env a, ga_tier = as_tier a, ga_source = as_source a,
     ga_tier_source = as_tier_source a, ga_members = [], ga_span_count = 0, ga_err_count = 0,
     ga_rate = 0, ga_p95 = 0\<rparr>"

definition take_tier :: "assignment \<Rightarrow> group_acc \<Rightarrow> group_acc" where
  "take_tier a g =
     (let t = more_critical (ga_tier g) (as_tier a)
      in if t \<noteq> ga_tier g then g\<lparr>ga_tier := t, ga_tier_source := as_tier_source a\<rparr> else g)"

definition add_member :: "member \<Rightarrow> group_acc \<Rightarrow> group_acc" where
  "add_member m g =
     g\<lparr>ga_members := ga_members g @ [m],
       ga_span_count := (ga_span_count g + mb_span_count m) mod 2 ^ 64,
       ga_err_count := (ga_err_count g + member_errors m) mod 2 ^ 64,
       ga_rate := fadd (ga_rate g) (mb_rate m),
       ga_p95 := (if ga_p95 g < mb_p95 m then mb_p95 m else ga_p95 g)\<rparr>"

definition group_step :: "(string \<Rightarrow> member) \<Rightarrow> (string \<times> group_acc) list \<Rightarrow> string \<times> assignment \<Rightarrow>
    (string \<times> group_acc) list" where
  "group_step members gs sa =
     (case sa of (svc, a) \<Rightarrow>
        let k = group_key (as_group a) (as_env a)
        in AList.update k
             (add_member (members svc)
               (case map_of gs k of None \<Rightarrow> new_group a | Some g \<Rightarrow> take_tier a g)) gs)"

definition roll_up_members :: "member list \<Rightarrow> status" where
  "roll_up_members ms =
     (if \<exists>m\<in>set ms. 0 < severity (mb_effective m)
      then foldl worst idle (filter (\<lambda>s. 0 < severity s) (map mb_effective ms)) else idle)"

definition status_counts :: "member list \<Rightarrow> status \<Rightarrow> nat" where
  "status_counts ms s = length (filter (\<lambda>m. mb_effective m = s) ms)"

fun worst_member :: "member option \<Rightarrow> member list \<Rightarrow> member option" where
  "worst_member best [] = best"
| "worst_member best (m # ms) =
     worst_member (case best of None \<Rightarrow> Some m
       | Some b \<Rightarrow> if severity (mb_effective b) < severity (mb_effective m) then Some m else Some b) ms"

definition group_reason :: "status \<Rightarrow> member list \<Rightarrow> reason" where
  "group_reason st ms =
     (if st = idle then NoTraffic
      else case worst_member None ms of
        None \<Rightarrow> NoReason
      | Some m \<Rightarrow> if st = healthy then AllWithin (length ms) else WorstMember (mb_service m) (mb_effective m))"

definition finish_group :: "group_acc \<Rightarrow> group_health" where
  "finish_group g =
     (let ms = sort_key mb_service (ga_members g); st = roll_up_members ms
      in \<lparr>gh_name = ga_name g, gh_env = ga_env g, gh_tier = ga_tier g, gh_source = ga_source g,
          gh_tier_source = ga_tier_source g, gh_status = st, gh_reason = group_reason st ms,
          gh_counts = status_counts ms, gh_span_count = ga_span_count g, gh_rate = ga_rate g,
          gh_error_rate = (if 0 < ga_span_count g then error_rate (ga_err_count g) (ga_span_count g) else 0),
          gh_p95 = ga_p95 g, gh_members = ms, gh_checks = []\<rparr>)"

definition group_and_roll :: "(string \<times> assignment) list \<Rightarrow> (string \<Rightarrow> member) \<Rightarrow> group_health list" where
  "group_and_roll asg members =
     (let gs = foldl (group_step members) [] asg
      in map (\<lambda>k. finish_group (the (map_of gs k))) (sort (map fst gs)))"

definition overall_status :: "group_health list \<Rightarrow> status" where
  "overall_status gs =
     (if \<exists>g\<in>set gs. 0 < severity (gh_status g)
      then foldl worst idle (filter (\<lambda>s. 0 < severity s) (map gh_status gs)) else idle)"

record report =
  rp_overall :: status
  rp_groups :: "group_health list"
  rp_warnings :: "(string \<times> string \<times> tier) list"

text \<open>\<open>reorder\<close> is the order in which the map of assignments is ranged over.\<close>

definition rollup :: "((string \<times> assignment) list \<Rightarrow> (string \<times> assignment) list) \<Rightarrow> health_config \<Rightarrow> duration \<Rightarrow>
    service_stats list \<Rightarrow> service_label list \<Rightarrow> service_edge list \<Rightarrow> report" where
  "rollup reorder cfg w stats labels edges =
     (let (asg, warnings) = resolve cfg stats labels;
          stat_of = map_from st_name id stats;
          status_of = (\<lambda>s. service_status s (resolve_thresholds cfg (st_name s) (assigned_tier asg (st_name s))));
          base = map_from st_name (\<lambda>s. fst (status_of s)) stats;
          base_reason = map_from st_name (\<lambda>s. snd (status_of s)) stats;
          p = propagate cfg asg base base_reason edges;
          members = (\<lambda>svc. build_member stat_of base p w svc (the (map_of asg svc)));
          groups = group_and_roll (reorder asg) members
      in \<lparr>rp_overall = overall_status groups, rp_groups = groups, rp_warnings = warnings\<rparr>)"

end
