(* ===== verification/HealthLaws.thy ===== *)
theory HealthLaws
  imports HealthRollup
begin

text \<open>
  What the health rules guarantee: the verdict on one service and its monotonicity, the
  effect of a critical dependency being down, and the summary of a group as a function of
  its members alone, whatever the order the map of assignments is ranged over in.
\<close>

section \<open>One service\<close>

lemma severity_simps [simp]:
  "severity healthy = 1" "severity degraded = 2" "severity down = 3" "severity idle = 0" "severity unknown = 0"
  by (simp_all add: severity_def)

lemma severity_le3: "severity s \<le> 3"
  by (simp add: severity_def)

lemma severity_pos_inj: "severity a = severity b \<Longrightarrow> 0 < severity a \<Longrightarrow> a = b"
  by (auto simp: severity_def split: if_splits)

definition error_status :: "service_stats \<Rightarrow> thresholds \<Rightarrow> status" where
  "error_status s thr =
     (let rate = error_rate (st_error_count s) (st_span_count s)
      in if th_crit thr \<le> rate then down else if th_warn thr \<le> rate then degraded else healthy)"

definition latency_status :: "service_stats \<Rightarrow> thresholds \<Rightarrow> status" where
  "latency_status s thr = (if 0 < th_p95 thr \<and> th_p95 thr \<le> p95_ms (st_p95 s) then degraded else healthy)"

lemma fst_service_status:
  "fst (service_status s thr) =
     (if st_span_count s = 0 \<or> st_span_count s < th_min thr then idle
      else worst (error_status s thr) (latency_status s thr))"
  by (simp add: service_status_def error_status_def latency_status_def Let_def)

lemma error_rate_mono: "e \<le> e' \<Longrightarrow> error_rate e n \<le> error_rate e' n"
  by (simp add: error_rate_def fdiv_mono float_of_nat_mono)

lemma p95_ms_mono: "d \<le> d' \<Longrightarrow> p95_ms d \<le> p95_ms d'"
  unfolding p95_ms_def by (intro fdiv_mono fl_mono fl_nonneg) (simp_all add: millisecond_def)

lemma severity_worst: "severity (worst a b) = max (severity a) (severity b)"
  by (auto simp: worst_def)

text \<open>A quiet service is idle and never worse: the verdict is idle exactly when the
  window holds no spans or fewer than the sample floor. Above the floor more errors and a
  higher latency never improve the verdict.\<close>

theorem service_status_gate_mono:
  assumes "st_span_count s' = st_span_count s" and "st_error_count s \<le> st_error_count s'" and "st_p95 s \<le> st_p95 s'"
  shows "(fst (service_status s thr) = idle \<longleftrightarrow> st_span_count s = 0 \<or> st_span_count s < th_min thr) \<and>
    severity (fst (service_status s thr)) \<le> severity (fst (service_status s' thr))"
proof -
  have e: "severity (error_status s thr) \<le> severity (error_status s' thr)"
    using error_rate_mono [OF assms(2), of "st_span_count s"] assms(1)
    by (auto simp: error_status_def Let_def)
  have l: "severity (latency_status s thr) \<le> severity (latency_status s' thr)"
    using p95_ms_mono [OF assms(3)] by (auto simp: latency_status_def)
  have "worst (error_status s thr) (latency_status s thr) \<noteq> idle"
    by (auto simp: worst_def error_status_def latency_status_def Let_def)
  moreover have "max (severity (error_status s thr)) (severity (latency_status s thr)) \<le>
      max (severity (error_status s' thr)) (severity (latency_status s' thr))"
    using e l by linarith
  ultimately show ?thesis
    using assms(1) by (simp add: fst_service_status severity_worst)
qed

theorem service_status_gate_mono_witness:
  "let s = \<lparr>st_name = ''s'', st_span_count = 100, st_error_count = 2, st_p95 = 0\<rparr>; s' = s\<lparr>st_error_count := 9\<rparr>
   in fst (service_status s builtin_defaults) \<noteq> idle \<and>
      severity (fst (service_status s builtin_defaults)) \<le> severity (fst (service_status s' builtin_defaults))"
  using service_status_gate_mono [of "\<lparr>st_name = ''s'', st_span_count = 100, st_error_count = 9, st_p95 = 0\<rparr>"
      "\<lparr>st_name = ''s'', st_span_count = 100, st_error_count = 2, st_p95 = 0\<rparr>" builtin_defaults]
  by (simp add: Let_def builtin_defaults_def)

text \<open>A breach of the error budget is never lost to rounding: when the exact error ratio
  reaches the critical rate the configuration states, the service is down, although both the
  threshold and the quotient are floating-point numbers.\<close>

theorem budget_breach_is_down:
  assumes "0 < st_span_count s" and "th_min thr \<le> st_span_count s"
    and "st_span_count s < 2 ^ 53" and "st_error_count s < 2 ^ 53"
    and "th_crit thr = fl q" and "q \<le> of_nat (st_error_count s) / of_nat (st_span_count s)"
  shows "fst (service_status s thr) = down"
proof -
  have "error_rate (st_error_count s) (st_span_count s) = fl (of_nat (st_error_count s) / of_nat (st_span_count s))"
    using assms(3,4) by (simp add: error_rate_def fdiv_def float_of_nat_exact)
  with assms(5,6) have "th_crit thr \<le> error_rate (st_error_count s) (st_span_count s)" by (simp add: fl_mono)
  with assms(1,2) show ?thesis
    by (auto simp: fst_service_status error_status_def latency_status_def worst_def)
qed

theorem budget_breach_is_down_witness:
  "fst (service_status \<lparr>st_name = ''s'', st_span_count = 300, st_error_count = 15, st_p95 = 0\<rparr> builtin_defaults) = down"
  by (rule budget_breach_is_down [where q = "5 / 100"]) (simp_all add: builtin_defaults_def)

section \<open>Critical dependencies\<close>

definition live_edge :: "service_edge \<Rightarrow> bool" where
  "live_edge e \<longleftrightarrow> ed_source e \<noteq> [] \<and> ed_target e \<noteq> [] \<and> ed_source e \<noteq> ed_target e"

definition critical_deps :: "health_config \<Rightarrow> (string \<times> assignment) list \<Rightarrow> service_edge list \<Rightarrow> string \<Rightarrow> string set" where
  "critical_deps cfg asg edges s =
     {ed_target e | e. e \<in> set edges \<and> live_edge e \<and> ed_source e = s \<and> critical_edge_p cfg asg s (ed_target e)}"

definition expected_effective :: "(string \<rightharpoonup> status) \<Rightarrow> string set \<Rightarrow> string \<Rightarrow> status option" where
  "expected_effective base deps s =
     (if base s = Some healthy \<and> (\<exists>t\<in>deps. base t = Some down) then Some degraded else base s)"

definition prop_inv :: "health_config \<Rightarrow> (string \<times> assignment) list \<Rightarrow> (string \<rightharpoonup> status) \<Rightarrow> service_edge list \<Rightarrow>
    propagation \<Rightarrow> bool" where
  "prop_inv cfg asg base edges p \<longleftrightarrow>
     set (pr_seen p) = (\<lambda>e. (ed_source e, ed_target e)) ` {e\<in>set edges. live_edge e} \<and>
     (\<forall>s. pr_effective p s = expected_effective base (critical_deps cfg asg edges s) s) \<and>
     (\<forall>s. distinct (map dep_service (pr_deps p s)) \<and>
       set (pr_deps p s) = critical_dependency asg base ` critical_deps cfg asg edges s)"

lemma pr_deps_add [simp]: "pr_deps (add_dependency s d p) x = (if x = s then pr_deps p x @ [d] else pr_deps p x)"
  by (simp add: add_dependency_def)

lemma pr_effective_note:
  "pr_effective (note_down s t p) x = (if x = s \<and> pr_effective p s = Some healthy then Some degraded else pr_effective p x)"
  by (simp add: note_down_def at_key_def split: option.splits)

lemma propagation_simps:
  "pr_seen (note_down s t p) = pr_seen p" "pr_seen (add_dependency s d p) = pr_seen p"
  "pr_seen (mark_seen k p) = k # pr_seen p"
  "pr_deps (note_down s t p) = pr_deps p" "pr_deps (mark_seen k p) = pr_deps p"
  "pr_effective (add_dependency s d p) = pr_effective p" "pr_effective (mark_seen k p) = pr_effective p"
  by (simp_all add: note_down_def add_dependency_def mark_seen_def)

lemma at_key_iff: "v \<noteq> z \<Longrightarrow> at_key z m k = v \<longleftrightarrow> m k = Some v"
  by (simp add: at_key_def split: option.splits)

lemma dep_service_critical [simp]: "dep_service (critical_dependency asg base t) = t"
  by (simp add: critical_dependency_def)

lemma critical_deps_snoc:
  "critical_deps cfg asg (edges @ [e]) s = critical_deps cfg asg edges s \<union>
     (if live_edge e \<and> ed_source e = s \<and> critical_edge_p cfg asg s (ed_target e) then {ed_target e} else {})"
  by (auto simp: critical_deps_def)

lemma prop_inv_repeat:
  assumes "prop_inv cfg asg base edges p" and "live_edge e \<Longrightarrow> (ed_source e, ed_target e) \<in> set (pr_seen p)"
  shows "prop_inv cfg asg base (edges @ [e]) p"
proof -
  have seen: "(\<lambda>e. (ed_source e, ed_target e)) ` {x \<in> set (edges @ [e]). live_edge x} = set (pr_seen p)"
    using assms by (auto simp: prop_inv_def)
  have "critical_deps cfg asg (edges @ [e]) s = critical_deps cfg asg edges s" for s
  proof (cases "live_edge e")
    case True
    with assms obtain e' where "e' \<in> set edges" "live_edge e'" "ed_source e' = ed_source e" "ed_target e' = ed_target e"
      by (auto simp: prop_inv_def)
    then show ?thesis by (auto simp: critical_deps_def) metis
  qed (simp add: critical_deps_snoc)
  with assms(1) seen show ?thesis by (simp add: prop_inv_def)
qed

lemma expected_effective_insert:
  "expected_effective base (insert t D) s =
     (if expected_effective base D s = Some healthy \<and> base t = Some down then Some degraded
      else expected_effective base D s)"
  by (auto simp: expected_effective_def)

lemma prop_inv_step:
  assumes inv: "prop_inv cfg asg base edges p"
  shows "prop_inv cfg asg base (edges @ [e]) (propagate_edge cfg asg base p e)"
proof (cases "live_edge e \<and> (ed_source e, ed_target e) \<notin> set (pr_seen p)")
  case False
  then consider "ed_source e = []" | "ed_target e = []" | "ed_source e = ed_target e"
    | "(ed_source e, ed_target e) \<in> set (pr_seen p)"
    by (auto simp: live_edge_def)
  then have "propagate_edge cfg asg base p e = p" by cases (simp_all add: propagate_edge_def propagate_to_def)
  with False prop_inv_repeat [OF inv] show ?thesis by auto
next
  case True
  let ?s = "ed_source e" and ?t = "ed_target e"
  let ?q = "propagate_edge cfg asg base p e"
  have "set (pr_seen p) = (\<lambda>e. (ed_source e, ed_target e)) ` {e\<in>set edges. live_edge e}"
    using inv by (simp add: prop_inv_def)
  with True have fresh: "?t \<notin> critical_deps cfg asg edges ?s"
    unfolding critical_deps_def by (auto simp: image_iff)
  have seen: "set (pr_seen ?q) = insert (?s, ?t) (set (pr_seen p))"
    using True by (simp add: propagate_edge_def propagate_to_def live_edge_def propagation_simps)
  have crit: "critical_deps cfg asg (edges @ [e]) s = critical_deps cfg asg edges s \<union>
      (if s = ?s \<and> critical_edge_p cfg asg ?s ?t then {?t} else {})" for s
    using True by (auto simp: critical_deps_snoc)
  have deps: "pr_deps ?q s = pr_deps p s @ (if s = ?s \<and> critical_edge_p cfg asg ?s ?t
      then [critical_dependency asg base ?t] else [])" for s
    using True by (simp add: propagate_edge_def propagate_to_def live_edge_def propagation_simps)
  have eff: "pr_effective ?q s = (if s = ?s \<and> critical_edge_p cfg asg ?s ?t \<and> base ?t = Some down \<and>
      pr_effective p s = Some healthy then Some degraded else pr_effective p s)" for s
    using True
    by (auto simp: propagate_edge_def propagate_to_def live_edge_def propagation_simps pr_effective_note at_key_iff)
  have "pr_effective ?q s = expected_effective base (critical_deps cfg asg (edges @ [e]) s) s" for s
  proof -
    have p: "pr_effective p s = expected_effective base (critical_deps cfg asg edges s) s"
      using inv by (simp add: prop_inv_def)
    show ?thesis
      unfolding eff crit p
      by (cases "s = ?s \<and> critical_edge_p cfg asg ?s ?t") (auto simp: expected_effective_insert)
  qed
  moreover have "distinct (map dep_service (pr_deps ?q s)) \<and>
      set (pr_deps ?q s) = critical_dependency asg base ` critical_deps cfg asg (edges @ [e]) s" for s
    using inv fresh unfolding deps crit prop_inv_def by (auto simp: image_image)
  moreover have "set (pr_seen ?q) = (\<lambda>e. (ed_source e, ed_target e)) ` {x \<in> set (edges @ [e]). live_edge x}"
    using inv True unfolding seen by (auto simp: prop_inv_def)
  ultimately show ?thesis by (simp add: prop_inv_def)
qed

lemma prop_inv_run: "prop_inv cfg asg base edges (propagate cfg asg base base_reason edges)"
proof (induction edges rule: rev_induct)
  case Nil
  show ?case by (auto simp: propagate_def prop_inv_def critical_deps_def expected_effective_def)
next
  case (snoc e edges)
  then show ?case using prop_inv_step by (simp add: propagate_def)
qed

text \<open>One pass decides propagation, cycles included: a service's effective status is
  degraded when it is itself healthy and one of its critical dependencies (a T0 target or an
  edge marked critical) is down, and its own status otherwise; it never improves, and the
  order or repetition of edges does not matter. Its listed dependencies are exactly its
  critical targets, each once, with their own status.\<close>

theorem propagation_decided:
  "pr_effective (propagate cfg asg base base_reason edges) s =
     (if base s = Some healthy \<and> (\<exists>t\<in>critical_deps cfg asg edges s. base t = Some down)
      then Some degraded else base s) \<and>
   distinct (map dep_service (pr_deps (propagate cfg asg base base_reason edges) s)) \<and>
   set (pr_deps (propagate cfg asg base base_reason edges) s) =
     critical_dependency asg base ` critical_deps cfg asg edges s"
  using prop_inv_run [of cfg asg base edges base_reason] by (simp add: prop_inv_def expected_effective_def)

section \<open>Groups\<close>

text \<open>A group as a function of its members: the first opens it, the others join.\<close>

definition join_group :: "(string \<Rightarrow> member) \<Rightarrow> group_acc option \<Rightarrow> string \<times> assignment \<Rightarrow> group_acc option" where
  "join_group members g sa = Some (add_member (members (fst sa))
     (case g of None \<Rightarrow> new_group (snd sa) | Some h \<Rightarrow> take_tier (snd sa) h))"

definition key_of :: "string \<times> assignment \<Rightarrow> string" where
  "key_of sa = group_key (as_group (snd sa)) (as_env (snd sa))"

definition bucket :: "(string \<times> assignment) list \<Rightarrow> string \<Rightarrow> (string \<times> assignment) list" where
  "bucket asg k = filter (\<lambda>sa. key_of sa = k) asg"

definition summarise :: "(string \<Rightarrow> member) \<Rightarrow> (string \<times> assignment) list \<Rightarrow> group_acc" where
  "summarise members b = the (foldl (join_group members) None b)"

lemma group_step_eq:
  "group_step members gs sa = AList.update (key_of sa) (the (join_group members (map_of gs (key_of sa)) sa)) gs"
  by (cases sa) (simp add: group_step_def join_group_def key_of_def Let_def split: option.split)

lemma group_step_map:
  "map_of (group_step members gs sa) k =
     (if key_of sa = k then join_group members (map_of gs k) sa else map_of gs k)"
  by (simp add: group_step_eq update_conv' join_group_def)

lemma group_step_keys:
  "set (map fst (group_step members gs sa)) = insert (key_of sa) (set (map fst gs))"
  "distinct (map fst gs) \<Longrightarrow> distinct (map fst (group_step members gs sa))"
  by (simp_all add: group_step_eq dom_update distinct_update)

lemma group_fold:
  "map_of (foldl (group_step members) gs asg) k = foldl (join_group members) (map_of gs k) (bucket asg k) \<and>
   set (map fst (foldl (group_step members) gs asg)) = set (map fst gs) \<union> key_of ` set asg \<and>
   (distinct (map fst gs) \<longrightarrow> distinct (map fst (foldl (group_step members) gs asg)))"
proof (induction asg arbitrary: gs)
  case (Cons sa asg)
  show ?case
    using Cons.IH [of "group_step members gs sa"] group_step_keys [where gs = gs and sa = sa and members = members]
    by (auto simp: group_step_map bucket_def simp del: set_map)
qed (simp add: bucket_def)

lemma foldl_join_Some: "\<exists>g'. foldl (join_group members) (Some g) b = Some g'"
  by (induction b arbitrary: g) (auto simp: join_group_def)

lemma sort_distinct_set: "distinct xs \<Longrightarrow> sort xs = sorted_list_of_set (set xs)"
  by (simp add: sorted_list_of_set_sort_remdups distinct_remdups_id)

text \<open>The one pass over the map buckets and summarises.\<close>

lemma group_and_roll_buckets:
  "group_and_roll asg members =
     map (\<lambda>k. finish_group (summarise members (bucket asg k))) (sorted_list_of_set (key_of ` set asg))"
proof -
  have "sort (map fst (foldl (group_step members) [] asg)) = sorted_list_of_set (key_of ` set asg)"
    using group_fold [of members "[]" asg] by (subst sort_distinct_set) auto
  then show ?thesis
    using group_fold [of members "[]" asg] by (simp add: group_and_roll_def Let_def summarise_def)
qed

lemma bucket_nonempty: "k \<in> key_of ` set asg \<Longrightarrow> bucket asg k \<noteq> []"
  by (auto simp: bucket_def filter_empty_conv)

text \<open>What a non-empty bucket is summarised to.\<close>

definition tier_fold :: "(string \<times> assignment) list \<Rightarrow> tier" where
  "tier_fold b = foldl more_critical (as_tier (snd (hd b))) (map (\<lambda>sa. as_tier (snd sa)) (tl b))"

lemma add_member_simps [simp]:
  "ga_name (add_member m g) = ga_name g" "ga_env (add_member m g) = ga_env g" "ga_tier (add_member m g) = ga_tier g"
  "ga_members (add_member m g) = ga_members g @ [m]"
  "ga_span_count (add_member m g) = (ga_span_count g + mb_span_count m) mod 2 ^ 64"
  "ga_err_count (add_member m g) = (ga_err_count g + member_errors m) mod 2 ^ 64"
  "ga_p95 (add_member m g) = max (ga_p95 g) (mb_p95 m)"
  by (simp_all add: add_member_def)

lemma take_tier_simps [simp]:
  "ga_name (take_tier a g) = ga_name g" "ga_env (take_tier a g) = ga_env g"
  "ga_tier (take_tier a g) = more_critical (ga_tier g) (as_tier a)"
  "ga_members (take_tier a g) = ga_members g" "ga_span_count (take_tier a g) = ga_span_count g"
  "ga_err_count (take_tier a g) = ga_err_count g" "ga_p95 (take_tier a g) = ga_p95 g"
  by (simp_all add: take_tier_def Let_def)

lemma foldl_join:
  assumes "foldl (join_group members) (Some g) b = Some g'"
  shows "ga_name g' = ga_name g \<and> ga_env g' = ga_env g \<and>
    ga_tier g' = foldl more_critical (ga_tier g) (map (\<lambda>sa. as_tier (snd sa)) b) \<and>
    ga_members g' = ga_members g @ map (\<lambda>sa. members (fst sa)) b \<and>
    (ga_span_count g < 2 ^ 64 \<longrightarrow> ga_span_count g' = (ga_span_count g + sum_list (map (\<lambda>sa. mb_span_count (members (fst sa))) b)) mod 2 ^ 64) \<and>
    (ga_err_count g < 2 ^ 64 \<longrightarrow> ga_err_count g' = (ga_err_count g + sum_list (map (\<lambda>sa. member_errors (members (fst sa))) b)) mod 2 ^ 64) \<and>
    ga_p95 g' = foldl max (ga_p95 g) (map (\<lambda>sa. mb_p95 (members (fst sa))) b)"
  using assms
proof (induction b arbitrary: g)
  case (Cons sa b)
  let ?g = "add_member (members (fst sa)) (take_tier (snd sa) g)"
  have "join_group members (Some g) sa = Some ?g" by (simp add: join_group_def)
  with Cons.prems have "foldl (join_group members) (Some ?g) b = Some g'" by simp
  from Cons.IH [OF this] show ?case
    by (simp add: mod_add_left_eq add.assoc)
qed simp

lemma summarise_spec:
  assumes "b \<noteq> []" and "\<forall>sa\<in>set b. key_of sa = k"
  shows "group_key (ga_name (summarise members b)) (ga_env (summarise members b)) = k"
    and "ga_tier (summarise members b) = tier_fold b"
    and "ga_members (summarise members b) = map (\<lambda>sa. members (fst sa)) b"
    and "ga_span_count (summarise members b) = sum_list (map (\<lambda>sa. mb_span_count (members (fst sa))) b) mod 2 ^ 64"
    and "ga_err_count (summarise members b) = sum_list (map (\<lambda>sa. member_errors (members (fst sa))) b) mod 2 ^ 64"
    and "ga_p95 (summarise members b) = foldl max 0 (map (\<lambda>sa. mb_p95 (members (fst sa))) b)"
proof -
  obtain sa b' where b: "b = sa # b'" using assms(1) by (cases b) auto
  let ?g = "add_member (members (fst sa)) (new_group (snd sa))"
  have "join_group members None sa = Some ?g" by (simp add: join_group_def)
  then obtain g' where g': "foldl (join_group members) (Some ?g) b' = Some g'" "summarise members b = g'"
    using foldl_join_Some [of members ?g b'] by (auto simp: summarise_def b)
  note j = foldl_join [OF g'(1)]
  have k: "group_key (as_group (snd sa)) (as_env (snd sa)) = k" using assms(2) by (simp add: b key_of_def)
  show "group_key (ga_name (summarise members b)) (ga_env (summarise members b)) = k"
    using j k by (simp add: g'(2) new_group_def)
  show "ga_tier (summarise members b) = tier_fold b"
    using j by (simp add: g'(2) [unfolded b] new_group_def tier_fold_def b)
  show "ga_members (summarise members b) = map (\<lambda>sa. members (fst sa)) b"
    using j by (simp add: g'(2) [unfolded b] new_group_def b)
  show "ga_span_count (summarise members b) = sum_list (map (\<lambda>sa. mb_span_count (members (fst sa))) b) mod 2 ^ 64"
    using j by (simp add: g'(2) [unfolded b] new_group_def b mod_add_left_eq)
  show "ga_err_count (summarise members b) = sum_list (map (\<lambda>sa. member_errors (members (fst sa))) b) mod 2 ^ 64"
    using j by (simp add: g'(2) [unfolded b] new_group_def b mod_add_left_eq)
  show "ga_p95 (summarise members b) = foldl max 0 (map (\<lambda>sa. mb_p95 (members (fst sa))) b)"
    using j by (simp add: g'(2) [unfolded b] new_group_def b)
qed

lemma tier_rank_known_inj: "known_tier a \<Longrightarrow> known_tier b \<Longrightarrow> tier_rank a = tier_rank b \<Longrightarrow> a = b"
  by (auto simp: known_tier_def tier_rank_def)

lemma tier_rank_known: "known_tier t \<longleftrightarrow> tier_rank t \<le> 3"
  by (auto simp: known_tier_def tier_rank_def)

lemma tier_fold_foldl: "b \<noteq> [] \<Longrightarrow> tier_fold b = foldl more_critical (as_tier (snd (hd b))) (map (\<lambda>sa. as_tier (snd sa)) b)"
  by (cases b) (simp_all add: tier_fold_def more_critical_def)

text \<open>The tier of a group is carried by a member and no member's is more critical.\<close>

lemma tier_fold_least:
  assumes "b \<noteq> []"
  shows "tier_fold b \<in> (\<lambda>sa. as_tier (snd sa)) ` set b" and "sa \<in> set b \<Longrightarrow> tier_rank (tier_fold b) \<le> tier_rank (as_tier (snd sa))"
proof -
  have hd: "as_tier (snd (hd b)) \<in> (\<lambda>sa. as_tier (snd sa)) ` set b" using assms by simp
  show "tier_fold b \<in> (\<lambda>sa. as_tier (snd sa)) ` set b"
    using criticality.foldl_cases [of "as_tier (snd (hd b))" "map (\<lambda>sa. as_tier (snd sa)) b"]
    unfolding tier_fold_foldl [OF assms] set_map insert_absorb [OF hd] .
  assume "sa \<in> set b"
  then have "4 - tier_rank (as_tier (snd sa)) \<le> 4 - tier_rank (tier_fold b)"
    unfolding tier_fold_foldl [OF assms] by (intro criticality.rank_foldl_ge) simp
  moreover have "tier_rank t \<le> 4" for t by (simp add: tier_rank_def)
  ultimately show "tier_rank (tier_fold b) \<le> tier_rank (as_tier (snd sa))"
    by (metis diff_le_mono2 diff_diff_cancel)
qed

lemma tier_fold_perm:
  assumes "b \<noteq> []" and "mset b = mset b'" and "\<forall>sa\<in>set b. known_tier (as_tier (snd sa))"
  shows "tier_fold b = tier_fold b'"
proof -
  have b': "b' \<noteq> []" "set b' = set b" using assms(1,2) by (auto dest: mset_eq_setD)
  note l = tier_fold_least [OF assms(1)] and l' = tier_fold_least [OF b'(1)]
  have "tier_rank (tier_fold b) = tier_rank (tier_fold b')"
    using l(1) l'(1) l(2) l'(2) b'(2) by (auto intro!: order_antisym)
  moreover have "known_tier (tier_fold b)" "known_tier (tier_fold b')" using l(1) l'(1) b'(2) assms(3) by auto
  ultimately show ?thesis by (rule tier_rank_known_inj [rotated 2])
qed

text \<open>Everything a group reports except the provenance of its membership and tier and the
  floating-point sum of its rates.\<close>

definition stable_view :: "group_health \<Rightarrow> string \<times> tier \<times> status \<times> reason \<times> (status \<Rightarrow> nat) \<times> nat \<times> float64 \<times> float64 \<times> member list" where
  "stable_view g = (group_key (gh_name g) (gh_env g), gh_tier g, gh_status g, gh_reason g, gh_counts g,
     gh_span_count g, gh_error_rate g, gh_p95 g, gh_members g)"

lemma foldl_max_perm: "mset xs = mset ys \<Longrightarrow> foldl max a xs = foldl max (a :: 'a :: linorder) ys"
  unfolding foldl_conv_fold by (rule fold_perm) (simp_all add: max.left_commute fun_eq_iff max.commute)

lemma summarise_perm:
  assumes "b \<noteq> []" and "mset b = mset b'" and "\<forall>sa\<in>set b. key_of sa = k \<and> known_tier (as_tier (snd sa))"
    and "distinct (map fst b)" and "\<And>s. mb_service (members s) = s"
  shows "stable_view (finish_group (summarise members b)) = stable_view (finish_group (summarise members b'))"
proof -
  have b': "b' \<noteq> []" "\<forall>sa\<in>set b'. key_of sa = k" using assms(1-3) by (auto dest: mset_eq_setD)
  have b: "\<forall>sa\<in>set b. key_of sa = k" using assms(3) by simp
  note s = summarise_spec [OF assms(1) b, of members] summarise_spec [OF b', of members]
  have ms: "mset (map (\<lambda>sa. f (members (fst sa))) b) = mset (map (\<lambda>sa. f (members (fst sa))) b')" for f :: "member \<Rightarrow> 'x"
    using assms(2) by simp
  have sorted: "sort_key mb_service (map (\<lambda>sa. members (fst sa)) b) = sort_key mb_service (map (\<lambda>sa. members (fst sa)) b')"
    using assms(4,5) ms [of id] by (intro sort_key_perm) (simp_all add: comp_def)
  have p95: "foldl max 0 (map (\<lambda>sa. mb_p95 (members (fst sa))) b) = foldl max 0 (map (\<lambda>sa. mb_p95 (members (fst sa))) b')"
    by (rule foldl_max_perm) (rule ms)
  have "sum_list (map (\<lambda>sa. mb_span_count (members (fst sa))) b) = sum_list (map (\<lambda>sa. mb_span_count (members (fst sa))) b')"
    "sum_list (map (\<lambda>sa. member_errors (members (fst sa))) b) = sum_list (map (\<lambda>sa. member_errors (members (fst sa))) b')"
    using ms sum_mset_sum_list by metis+
  with s sorted p95 tier_fold_perm [OF assms(1,2)] assms(3) show ?thesis
    by (simp add: stable_view_def finish_group_def Let_def)
qed

section \<open>The whole report\<close>

lemma resolve_fst:
  "distinct (map fst (fst (resolve cfg stats labels)))"
  "fst ` set (fst (resolve cfg stats labels)) = st_name ` set stats"
  "\<forall>sa\<in>set (fst (resolve cfg stats labels)). \<exists>s\<in>set stats. sa = (st_name s, fst (assign_one cfg (map_from lb_service id labels) s))"
  using fold_alist_update [of "[]" st_name "\<lambda>s. fst (assign_one cfg (map_from lb_service id labels) s)" stats]
  by (simp_all add: resolve_def Let_def)

definition tiers_known :: "health_config \<Rightarrow> bool" where
  "tiers_known cfg \<longleftrightarrow> known_tier (hc_default_tier cfg) \<and> (\<forall>g\<in>set (hc_groups cfg). known_tier (grp_tier g)) \<and>
     (\<forall>st\<in>set (hc_tier_overrides cfg). known_tier (snd st))"

lemma match_group_mem: "match_group gs svc ns = Some g \<Longrightarrow> g \<in> set gs"
  by (auto simp: match_group_def find_Some_iff)

lemma assign_one_known: "tiers_known cfg \<Longrightarrow> known_tier (as_tier (fst (assign_one cfg labels s)))"
  by (auto simp: assign_one_def tiers_known_def Let_def parse_tier_soft_def
      split: option.splits prod.splits if_splits dest!: match_group_mem map_of_SomeD)

lemma overall_cong: "map gh_status gs = map gh_status gs' \<Longrightarrow> overall_status gs = overall_status gs'"
proof -
  assume eq: "map gh_status gs = map gh_status gs'"
  have "overall_status xs = (if \<exists>s\<in>set (map gh_status xs). 0 < severity s
      then foldl worst idle (filter (\<lambda>s. 0 < severity s) (map gh_status xs)) else idle)" for xs
    by (simp add: overall_status_def)
  then show ?thesis by (simp only: eq)
qed

lemma mb_build [simp]: "mb_service (build_member st base p w svc a) = svc" "mb_tier (build_member st base p w svc a) = as_tier a"
  by (simp_all add: build_member_def Let_def)

lemma rollup_members:
  "\<exists>members. (\<forall>r. rp_groups (rollup r cfg w stats labels edges) = group_and_roll (r (fst (resolve cfg stats labels))) members) \<and>
    (\<forall>r. rp_overall (rollup r cfg w stats labels edges) = overall_status (rp_groups (rollup r cfg w stats labels edges))) \<and>
    (\<forall>s. mb_service (members s) = s \<and> mb_tier (members s) = as_tier (the (map_of (fst (resolve cfg stats labels)) s)))"
proof -
  define asg where "asg = fst (resolve cfg stats labels)"
  define status_of where "status_of = (\<lambda>s. service_status s (resolve_thresholds cfg (st_name s) (assigned_tier asg (st_name s))))"
  define base where "base = map_from st_name (\<lambda>s. fst (status_of s)) stats"
  define p where "p = propagate cfg asg base (map_from st_name (\<lambda>s. snd (status_of s)) stats) edges"
  show ?thesis
    by (rule exI [of _ "\<lambda>svc. build_member (map_from st_name id stats) base p w svc (the (map_of asg svc))"])
      (simp_all add: rollup_def Let_def asg_def status_of_def base_def p_def split: prod.splits)
qed

text \<open>The report does not depend on the order a Go map happens to be ranged over: for
  any two orders the overall status is the same and so are the groups, with their tier,
  status, reason, counts, span total, error rate, worst latency and members. (The provenance
  of a group's membership and tier is not covered: it is that of the first member met.)\<close>

theorem rollup_order_independent:
  assumes "tiers_known cfg" and "\<And>xs. mset (r1 xs) = mset xs" and "\<And>xs. mset (r2 xs) = mset xs"
  shows "rp_overall (rollup r1 cfg w stats labels edges) = rp_overall (rollup r2 cfg w stats labels edges) \<and>
    map stable_view (rp_groups (rollup r1 cfg w stats labels edges)) =
      map stable_view (rp_groups (rollup r2 cfg w stats labels edges))"
proof -
  let ?asg = "fst (resolve cfg stats labels)"
  obtain members where m: "\<And>r. rp_groups (rollup r cfg w stats labels edges) = group_and_roll (r ?asg) members"
    and overall: "\<And>r. rp_overall (rollup r cfg w stats labels edges) = overall_status (rp_groups (rollup r cfg w stats labels edges))"
    and svc: "\<And>s. mb_service (members s) = s"
    using rollup_members [of cfg w stats labels edges] by blast
  have known: "\<forall>sa\<in>set ?asg. known_tier (as_tier (snd sa))"
    using resolve_fst(3) [of cfg stats labels] assign_one_known [OF assms(1)] by fastforce
  have keys: "key_of ` set (r1 ?asg) = key_of ` set (r2 ?asg)"
    using assms(2,3) by (metis set_mset_mset)
  have "stable_view (finish_group (summarise members (bucket (r1 ?asg) k))) =
      stable_view (finish_group (summarise members (bucket (r2 ?asg) k)))" if "k \<in> key_of ` set (r1 ?asg)" for k
  proof (rule summarise_perm [OF bucket_nonempty [OF that]])
    show "mset (bucket (r1 ?asg) k) = mset (bucket (r2 ?asg) k)"
      using assms(2,3) by (simp add: bucket_def)
    show "\<forall>sa\<in>set (bucket (r1 ?asg) k). key_of sa = k \<and> known_tier (as_tier (snd sa))"
      using known mset_eq_setD [OF assms(2), of ?asg] by (simp add: bucket_def)
    have "distinct (map fst (r1 ?asg))" using resolve_fst(1) wf_alist_perm [OF assms(2)] by blast
    then show "distinct (map fst (bucket (r1 ?asg) k))" by (simp add: bucket_def distinct_map_filter)
  qed (rule svc)
  then have views: "map stable_view (group_and_roll (r1 ?asg) members) = map stable_view (group_and_roll (r2 ?asg) members)"
    by (simp add: group_and_roll_buckets keys)
  have st: "map gh_status (group_and_roll (r1 ?asg) members) = map gh_status (group_and_roll (r2 ?asg) members)"
    using arg_cong [OF views, of "map (\<lambda>(_, _, st, _). st)"] by (simp add: stable_view_def comp_def)
  from overall_cong [OF st] have "overall_status (group_and_roll (r1 ?asg) members) = overall_status (group_and_roll (r2 ?asg) members)" .
  with views show ?thesis by (simp add: overall m)
qed

theorem rollup_order_independent_witness:
  "let cfg = default_config\<lparr>hc_tier_overrides := [(''a'', ''T0'')]\<rparr>;
       s = (\<lambda>n e. \<lparr>st_name = n, st_span_count = 100, st_error_count = e, st_p95 = 0\<rparr>);
       run = (\<lambda>r. rollup r cfg second [s ''a'' 50, s ''b'' 0] [] [\<lparr>ed_source = ''b'', ed_target = ''a''\<rparr>])
   in rp_overall (run id) = rp_overall (run rev) \<and>
      map stable_view (rp_groups (run id)) = map stable_view (rp_groups (run rev))"
  unfolding Let_def
  by (rule rollup_order_independent) (simp_all add: tiers_known_def default_config_def known_tier_def)

lemma worst_filter_pos:
  "severity (foldl worst idle (filter (\<lambda>s. 0 < severity s) xs)) = Max (severity ` insert idle (set xs))"
proof -
  have "severity (foldl worst idle (filter (\<lambda>s. 0 < severity s) xs)) =
      Max (severity ` insert idle (set (filter (\<lambda>s. 0 < severity s) xs)))"
    by (rule health.rank_foldl)
  also have "severity ` insert idle (set (filter (\<lambda>s. 0 < severity s) xs)) = severity ` insert idle (set xs)"
    by (auto simp: image_iff)
  finally show ?thesis .
qed

lemma worst_filter_mem:
  "foldl worst idle (filter (\<lambda>s. 0 < severity s) xs) \<in> insert idle (set xs)"
  using health.foldl_cases [of idle "filter (\<lambda>s. 0 < severity s) xs"] by auto

lemma roll_up_members_foldl: "roll_up_members ms = foldl worst idle (filter (\<lambda>s. 0 < severity s) (map mb_effective ms))"
  by (auto simp: roll_up_members_def filter_empty_conv)

lemma overall_foldl: "overall_status gs = foldl worst idle (filter (\<lambda>s. 0 < severity s) (map gh_status gs))"
  by (auto simp: overall_status_def filter_empty_conv)

lemma worst_fold_facts:
  "x \<in> set xs \<Longrightarrow> severity x \<le> severity (foldl worst idle (filter (\<lambda>s. 0 < severity s) xs))"
  unfolding worst_filter_pos by (rule Max_ge) auto

lemma image_mset_sum: "(\<Sum>k\<in>K. image_mset f (M k)) = image_mset f (\<Sum>k\<in>K. M k)"
  by (induction K rule: infinite_finite_induct) simp_all

lemma buckets_partition:
  "finite K \<Longrightarrow> key_of ` set asg \<subseteq> K \<Longrightarrow> (\<Sum>k\<in>K. mset (bucket asg k)) = mset asg"
proof (induction asg)
  case (Cons sa asg)
  have "(\<Sum>k\<in>K. mset (bucket (sa # asg) k)) = (\<Sum>k\<in>K. (if key_of sa = k then {#sa#} else {#}) + mset (bucket asg k))"
    by (rule sum.cong) (auto simp: bucket_def)
  also have "\<dots> = {#sa#} + mset asg"
    using Cons by (simp add: sum.distrib)
  finally show ?case by simp
qed (simp add: bucket_def)

text \<open>Every measured service is in exactly one group of the report; a group is as bad as
  its worst member and takes the most critical tier among its members, both carried by a
  member (or the group is idle); and the overall status is as bad as the worst group.\<close>

theorem groups_worst_of_members:
  assumes "\<And>xs. mset (r xs) = mset xs" and "rep = rollup r cfg w stats labels edges"
  shows "mset (map mb_service (concat (map gh_members (rp_groups rep)))) = mset_set (st_name ` set stats) \<and>
    (\<forall>g\<in>set (rp_groups rep).
       (\<forall>m\<in>set (gh_members g). severity (mb_effective m) \<le> severity (gh_status g)) \<and>
       (gh_status g = idle \<or> gh_status g \<in> mb_effective ` set (gh_members g)) \<and>
       (\<forall>m\<in>set (gh_members g). tier_rank (gh_tier g) \<le> tier_rank (mb_tier m)) \<and>
       gh_tier g \<in> mb_tier ` set (gh_members g) \<and>
       severity (gh_status g) \<le> severity (rp_overall rep)) \<and>
    (rp_overall rep = idle \<or> rp_overall rep \<in> gh_status ` set (rp_groups rep))"
proof -
  let ?asg = "fst (resolve cfg stats labels)"
  obtain members where m: "rp_groups rep = group_and_roll (r ?asg) members"
    and overall: "rp_overall rep = overall_status (rp_groups rep)" and svc: "\<And>s. mb_service (members s) = s"
    and tier: "\<And>s. mb_tier (members s) = as_tier (the (map_of ?asg s))"
    using rollup_members [of cfg w stats labels edges] assms(2) by blast
  have group: "gh_status g = foldl worst idle (filter (\<lambda>s. 0 < severity s) (map mb_effective (gh_members g)))"
    if "g \<in> set (rp_groups rep)" for g
    using that by (auto simp: m group_and_roll_buckets finish_group_def Let_def roll_up_members_foldl)
  have "mset (map mb_service (gh_members (finish_group (summarise members (bucket (r ?asg) k))))) =
      mset (map fst (bucket (r ?asg) k))" if "k \<in> key_of ` set (r ?asg)" for k
  proof -
    have "ga_members (summarise members (bucket (r ?asg) k)) = map (\<lambda>sa. members (fst sa)) (bucket (r ?asg) k)"
      by (rule summarise_spec(3) [OF bucket_nonempty [OF that], of k]) (simp add: bucket_def)
    then have "mset (map mb_service (gh_members (finish_group (summarise members (bucket (r ?asg) k))))) =
        mset (map mb_service (map (\<lambda>sa. members (fst sa)) (bucket (r ?asg) k)))"
      by (simp add: finish_group_def Let_def multiset.map_comp)
    also have "map mb_service (map (\<lambda>sa. members (fst sa)) (bucket (r ?asg) k)) = map fst (bucket (r ?asg) k)"
      by (simp add: svc)
    finally show ?thesis .
  qed
  then have buckets: "map (\<lambda>k. mset (map mb_service (gh_members (finish_group (summarise members (bucket (r ?asg) k))))))
        (sorted_list_of_set (key_of ` set (r ?asg))) =
      map (\<lambda>k. mset (map fst (bucket (r ?asg) k))) (sorted_list_of_set (key_of ` set (r ?asg)))"
    by (intro map_cong [OF refl]) simp
  have "mset (map mb_service (concat (map gh_members (rp_groups rep)))) =
      (\<Sum>k\<leftarrow>sorted_list_of_set (key_of ` set (r ?asg)). image_mset fst (mset (bucket (r ?asg) k)))"
    using arg_cong [OF buckets, of sum_list] by (simp add: m group_and_roll_buckets map_concat mset_concat comp_def)
  also have "\<dots> = (\<Sum>k\<in>key_of ` set (r ?asg). image_mset fst (mset (bucket (r ?asg) k)))"
    by (subst sum.distinct_set_conv_list [symmetric]) simp_all
  also have "\<dots> = image_mset fst (\<Sum>k\<in>key_of ` set (r ?asg). mset (bucket (r ?asg) k))"
    by (rule image_mset_sum)
  also have "\<dots> = mset (map fst (r ?asg))"
    by (simp add: buckets_partition)
  also have "\<dots> = mset_set (st_name ` set stats)"
  proof -
    have "mset (map fst (r ?asg)) = mset (map fst ?asg)" using assms(1) by simp
    also have "\<dots> = mset_set (fst ` set ?asg)"
      using resolve_fst(1) [of cfg stats labels] by (metis list.set_map mset_set_set)
    finally show ?thesis by (simp add: resolve_fst(2))
  qed
  finally have part: "mset (map mb_service (concat (map gh_members (rp_groups rep)))) = mset_set (st_name ` set stats)" .
  have tiers: "(\<forall>m\<in>set (gh_members g). tier_rank (gh_tier g) \<le> tier_rank (mb_tier m)) \<and> gh_tier g \<in> mb_tier ` set (gh_members g)"
    if gin: "g \<in> set (rp_groups rep)" for g
  proof -
    obtain k where k: "k \<in> key_of ` set (r ?asg)" and g: "g = finish_group (summarise members (bucket (r ?asg) k))"
      using gin by (auto simp: m group_and_roll_buckets)
    let ?b = "bucket (r ?asg) k"
    have kb: "\<forall>sa\<in>set ?b. key_of sa = k" by (simp add: bucket_def)
    note ne = bucket_nonempty [OF k]
    have mt: "mb_tier (members (fst sa)) = as_tier (snd sa)" if "sa \<in> set ?b" for sa
    proof -
      have "sa \<in> set ?asg" using that mset_eq_setD [OF assms(1), of ?asg] by (simp add: bucket_def)
      then have "map_of ?asg (fst sa) = Some (snd sa)" using resolve_fst(1) [of cfg stats labels] by simp
      then show ?thesis by (simp add: tier)
    qed
    have mem: "set (gh_members g) = (\<lambda>sa. members (fst sa)) ` set ?b" and gt: "gh_tier g = tier_fold ?b"
      using summarise_spec(2,3) [OF ne kb, of members] by (simp_all add: g finish_group_def Let_def)
    show ?thesis
      unfolding mem gt using tier_fold_least [OF ne] mt by (force simp: image_image)
  qed
  have "\<forall>m\<in>set (gh_members g). severity (mb_effective m) \<le> severity (gh_status g)" if "g \<in> set (rp_groups rep)" for g
    using worst_fold_facts [of _ "map mb_effective (gh_members g)"] group [OF that] by auto
  moreover have "gh_status g = idle \<or> gh_status g \<in> mb_effective ` set (gh_members g)" if "g \<in> set (rp_groups rep)" for g
    using worst_filter_mem [of "map mb_effective (gh_members g)"] group [OF that] by auto
  moreover have "severity (gh_status g) \<le> severity (rp_overall rep)" if "g \<in> set (rp_groups rep)" for g
    using worst_fold_facts [of _ "map gh_status (rp_groups rep)"] that by (auto simp: overall overall_foldl)
  moreover have "rp_overall rep = idle \<or> rp_overall rep \<in> gh_status ` set (rp_groups rep)"
    using worst_filter_mem [of "map gh_status (rp_groups rep)"] by (auto simp: overall overall_foldl)
  ultimately show ?thesis using part tiers by blast
qed

theorem groups_worst_of_members_witness:
  "let rep = rollup rev default_config second [\<lparr>st_name = ''a'', st_span_count = 100, st_error_count = 50, st_p95 = 0\<rparr>] [] []
   in mset (map mb_service (concat (map gh_members (rp_groups rep)))) = {#''a''#} \<and>
      (\<forall>g\<in>set (rp_groups rep). severity (gh_status g) \<le> severity (rp_overall rep))"
  using groups_worst_of_members [of rev _ default_config second
      "[\<lparr>st_name = ''a'', st_span_count = 100, st_error_count = 50, st_p95 = 0\<rparr>]" "[]" "[]", OF _ refl]
  by (simp add: Let_def)

end
