(* ===== verification/HealthChecks.thy ===== *)
theory HealthChecks
  imports HealthLaws
begin

text \<open>
  How scheduled probes move a group's status (hub/internal/health/checks.go). The results of
  a check arrive newest first. The theorems read the raw results: which groups move, to
  what, and that one failed probe alone moves nothing.
\<close>

definition failures_to_degrade :: nat where
  "failures_to_degrade = 2"

definition check_state_of :: "check \<Rightarrow> check_result list \<Rightarrow> check_state" where
  "check_state_of ck results =
     (let consecutive = length (takeWhile (\<lambda>r. \<not> cr_ok r) results); latest = hd results
      in \<lparr>cs_id = ck_id ck, cs_ok = cr_ok latest, cs_failing = (failures_to_degrade \<le> consecutive),
          cs_consecutive = consecutive, cs_latency = cr_latency latest, cs_status = cr_status latest,
          cs_error = cr_error latest, cs_last_run = cr_at latest, cs_trace = cr_trace latest\<rparr>)"

definition check_states :: "check list \<Rightarrow> (string \<Rightarrow> check_result list) \<Rightarrow> check_state list" where
  "check_states declared states =
     sort_key cs_id (map (\<lambda>ck. check_state_of ck (states (ck_id ck)))
       (filter (\<lambda>ck. states (ck_id ck) \<noteq> []) declared))"

definition first_failing :: "check_state list \<Rightarrow> reason option" where
  "first_failing states =
     (case find cs_failing states of
        None \<Rightarrow> None
      | Some s \<Rightarrow> Some (CheckFailing (cs_id s) (cs_consecutive s)
          (if cs_error s = [] then Inr (cs_status s) else Inl (cs_error s))))"

definition all_latest_ok :: "check_state list \<Rightarrow> bool" where
  "all_latest_ok states \<longleftrightarrow> states \<noteq> [] \<and> list_all cs_ok states"

definition checked_groups :: "health_config \<Rightarrow> (string \<rightharpoonup> check list)" where
  "checked_groups cfg = map_from grp_name grp_checks (filter (\<lambda>g. grp_checks g \<noteq> []) (hc_groups cfg))"

definition apply_group_checks :: "(string \<rightharpoonup> check list) \<Rightarrow> (string \<Rightarrow> check_result list) \<Rightarrow> group_health \<Rightarrow> group_health" where
  "apply_group_checks by_group states g =
     (case by_group (gh_name g) of
        None \<Rightarrow> g
      | Some declared \<Rightarrow>
          let cs = check_states declared states; g1 = g\<lparr>gh_checks := cs\<rparr>; quiet = (gh_span_count g = 0)
          in if cs = [] then g1
             else case first_failing cs of
               Some why \<Rightarrow>
                 (if quiet then g1\<lparr>gh_status := down, gh_reason := why\<rparr>
                  else g1\<lparr>gh_status := worst (gh_status g) degraded, gh_reason := why\<rparr>)
             | None \<Rightarrow>
                 if quiet \<and> all_latest_ok cs then g1\<lparr>gh_status := healthy, gh_reason := ChecksPassing\<rparr> else g1)"

definition apply_checks :: "report \<Rightarrow> health_config \<Rightarrow> (string \<Rightarrow> check_result list) \<Rightarrow> report" where
  "apply_checks rep cfg states =
     (if filter (\<lambda>g. grp_checks g \<noteq> []) (hc_groups cfg) = [] then rep
      else let gs = map (apply_group_checks (checked_groups cfg) states) (rp_groups rep)
        in rep\<lparr>rp_groups := gs, rp_overall := overall_status gs\<rparr>)"

section \<open>Standings and raw results\<close>

fun two_failed :: "check_result list \<Rightarrow> bool" where
  "two_failed (a # b # rs) = (\<not> cr_ok a \<and> \<not> cr_ok b)"
| "two_failed rs = False"

lemma failing_iff: "failures_to_degrade \<le> length (takeWhile (\<lambda>r. \<not> cr_ok r) rs) \<longleftrightarrow> two_failed rs"
  by (cases rs rule: two_failed.cases) (auto simp: failures_to_degrade_def)

definition ran :: "(string \<Rightarrow> check_result list) \<Rightarrow> check list \<Rightarrow> check list" where
  "ran states declared = filter (\<lambda>ck. states (ck_id ck) \<noteq> []) declared"

lemma check_states_set:
  "set (check_states declared states) = (\<lambda>ck. check_state_of ck (states (ck_id ck))) ` set (ran states declared)"
  by (simp add: check_states_def ran_def)

lemma check_states_empty: "check_states declared states = [] \<longleftrightarrow> ran states declared = []"
  using check_states_set [of declared states] by (metis empty_set image_is_empty set_empty)

lemma first_failing_iff:
  "first_failing (check_states declared states) \<noteq> None \<longleftrightarrow> (\<exists>ck\<in>set (ran states declared). two_failed (states (ck_id ck)))"
  by (auto simp: first_failing_def find_None_iff check_states_set check_state_of_def Let_def failing_iff
      split: option.splits dest: find_Some_iff [THEN iffD1] simp flip: not_None_eq)

lemma all_latest_ok_iff:
  "all_latest_ok (check_states declared states) \<longleftrightarrow> ran states declared \<noteq> [] \<and>
     (\<forall>ck\<in>set (ran states declared). cr_ok (hd (states (ck_id ck))))"
  by (auto simp: all_latest_ok_def check_states_empty list_all_iff check_states_set check_state_of_def Let_def)

section \<open>Properties\<close>

text \<open>Probes decide a group's status by the raw results alone. Only a check whose two
  newest results both failed moves a group: to down when the group saw no traffic, to at
  least degraded otherwise. Without one, a group without traffic whose every probe that has
  run last passed becomes healthy, and any other group keeps its status; so a single failed
  probe never moves a group. Nothing but status, reason and standings changes, and a
  configuration without checks returns the report as it was.\<close>

theorem checks_decide_status:
  "rp_groups (apply_checks rep cfg states) = map (apply_group_checks (checked_groups cfg) states) (rp_groups rep) \<and>
   (checked_groups cfg = Map.empty \<longrightarrow> apply_checks rep cfg states = rep) \<and>
   gh_status (apply_group_checks (checked_groups cfg) states g) =
     (case checked_groups cfg (gh_name g) of
        None \<Rightarrow> gh_status g
      | Some declared \<Rightarrow>
          if \<exists>ck\<in>set (ran states declared). two_failed (states (ck_id ck))
          then (if gh_span_count g = 0 then down else worst (gh_status g) degraded)
          else if gh_span_count g = 0 \<and> ran states declared \<noteq> [] \<and>
            (\<forall>ck\<in>set (ran states declared). cr_ok (hd (states (ck_id ck))))
          then healthy else gh_status g) \<and>
   apply_group_checks (checked_groups cfg) states g =
     g\<lparr>gh_status := gh_status (apply_group_checks (checked_groups cfg) states g),
       gh_reason := gh_reason (apply_group_checks (checked_groups cfg) states g),
       gh_checks := gh_checks (apply_group_checks (checked_groups cfg) states g)\<rparr>"
proof -
  have none: "checked_groups cfg = Map.empty \<longleftrightarrow> filter (\<lambda>g. grp_checks g \<noteq> []) (hc_groups cfg) = []"
  proof
    assume "checked_groups cfg = Map.empty"
    then have "dom (checked_groups cfg) = {}" by simp
    then show "filter (\<lambda>g. grp_checks g \<noteq> []) (hc_groups cfg) = []" by (simp add: checked_groups_def)
  qed (simp add: checked_groups_def)
  have id: "apply_group_checks Map.empty states h = h" for h by (simp add: apply_group_checks_def)
  have "rp_groups (apply_checks rep cfg states) = map (apply_group_checks (checked_groups cfg) states) (rp_groups rep)"
  proof (cases "filter (\<lambda>g. grp_checks g \<noteq> []) (hc_groups cfg) = []")
    case True
    then have "checked_groups cfg = Map.empty" using none by simp
    then have "map (apply_group_checks (checked_groups cfg) states) (rp_groups rep) = rp_groups rep"
      by (intro map_idI) (simp add: id)
    with True show ?thesis by (simp add: apply_checks_def)
  qed (simp add: apply_checks_def Let_def)
  moreover have "checked_groups cfg = Map.empty \<longrightarrow> apply_checks rep cfg states = rep"
    using none by (simp add: apply_checks_def)
  moreover have "gh_status (apply_group_checks (checked_groups cfg) states g) =
     (case checked_groups cfg (gh_name g) of
        None \<Rightarrow> gh_status g
      | Some declared \<Rightarrow>
          if \<exists>ck\<in>set (ran states declared). two_failed (states (ck_id ck))
          then (if gh_span_count g = 0 then down else worst (gh_status g) degraded)
          else if gh_span_count g = 0 \<and> ran states declared \<noteq> [] \<and>
            (\<forall>ck\<in>set (ran states declared). cr_ok (hd (states (ck_id ck))))
          then healthy else gh_status g)"
  proof (cases "checked_groups cfg (gh_name g)")
    case (Some declared)
    show ?thesis
    proof (cases "first_failing (check_states declared states)")
      case None
      then have "\<not> (\<exists>ck\<in>set (ran states declared). two_failed (states (ck_id ck)))"
        using first_failing_iff [of declared states] by simp
      with None Some show ?thesis
        by (auto simp: apply_group_checks_def Let_def check_states_empty all_latest_ok_iff)
    next
      case (Some why)
      then have "\<exists>ck\<in>set (ran states declared). two_failed (states (ck_id ck))"
        using first_failing_iff [of declared states] by simp
      moreover from this have "check_states declared states \<noteq> []" by (auto simp: check_states_empty)
      ultimately show ?thesis using Some \<open>checked_groups cfg (gh_name g) = Some declared\<close>
        by (simp add: apply_group_checks_def Let_def)
    qed
  qed (simp add: apply_group_checks_def)
  moreover have "apply_group_checks (checked_groups cfg) states g =
     g\<lparr>gh_status := gh_status (apply_group_checks (checked_groups cfg) states g),
       gh_reason := gh_reason (apply_group_checks (checked_groups cfg) states g),
       gh_checks := gh_checks (apply_group_checks (checked_groups cfg) states g)\<rparr>"
    by (cases g) (auto simp: apply_group_checks_def Let_def split: option.splits)
  ultimately show ?thesis by blast
qed

theorem checks_decide_status_witness:
  "let r = (\<lambda>ok. \<lparr>cr_at = 0, cr_ok = ok, cr_status = 0, cr_latency = 0, cr_error = [], cr_trace = []\<rparr>)
   in two_failed [r False, r False, r True] \<and> \<not> two_failed [r False, r True, r False] \<and>
      apply_checks \<lparr>rp_overall = idle, rp_groups = [], rp_warnings = []\<rparr> default_config (\<lambda>_. []) =
        \<lparr>rp_overall = idle, rp_groups = [], rp_warnings = []\<rparr>"
  using checks_decide_status [of "\<lparr>rp_overall = idle, rp_groups = [], rp_warnings = []\<rparr>" default_config "\<lambda>_. []"]
  by (simp add: checked_groups_def default_config_def)

end
