(* ===== verification/Memo.thy ===== *)
theory Memo
  imports Prelude
begin

text \<open>
  The interface of a memoised store read: a cell that holds the last set read, serves it
  while it is younger than a time to live, can be dropped by a writer, and keeps the last
  value as a fallback for when the store does not answer. The resolvers of service groups
  and of rates provide it on their own state.

  A fill and the query it stores are separate events, as in the code (the query runs outside
  the lock), so a run may interleave them with drops in any order.
\<close>

datatype 'a memo_event = Fill 'a instant | Drop

text \<open>The latest event is at the head.\<close>

fun last_fill :: "'a \<Rightarrow> 'a memo_event list \<Rightarrow> 'a" where
  "last_fill z [] = z"
| "last_fill z (Fill v t # evs) = v"
| "last_fill z (Drop # evs) = last_fill z evs"

definition fresh_fill :: "duration \<Rightarrow> instant \<Rightarrow> 'a memo_event list \<Rightarrow> 'a option" where
  "fresh_fill ttl now evs =
     (case evs of Fill v t # _ \<Rightarrow> if now - t < ttl then Some v else None | _ \<Rightarrow> None)"

locale memo_cell =
  fixes fresh :: "'s \<Rightarrow> instant \<Rightarrow> 'a option"
    and last_known :: "'s \<Rightarrow> 'a"
    and put :: "'a \<Rightarrow> instant \<Rightarrow> 's \<Rightarrow> 's"
    and drop_cell :: "'s \<Rightarrow> 's"
    and ttl :: duration
    and initial :: 's
    and zero :: 'a
  assumes fresh_put: "fresh (put v t s) now = (if now - t < ttl then Some v else None)"
    and last_put: "last_known (put v t s) = v"
    and fresh_drop: "ttl \<le> now \<Longrightarrow> fresh (drop_cell s) now = None"
    and last_drop: "last_known (drop_cell s) = last_known s"
    and fresh_initial: "ttl \<le> now \<Longrightarrow> fresh initial now = None"
    and last_initial: "last_known initial = zero"
begin

definition after :: "'a memo_event list \<Rightarrow> 's" where
  "after evs = foldr (\<lambda>ev s. case ev of Fill v t \<Rightarrow> put v t s | Drop \<Rightarrow> drop_cell s) evs initial"

lemma last_after: "last_known (after evs) = last_fill zero evs"
proof (induction evs)
  case (Cons ev evs)
  then show ?case by (cases ev) (simp_all add: after_def last_put last_drop)
qed (simp add: after_def last_initial)

lemma fresh_after: "ttl \<le> now \<Longrightarrow> fresh (after evs) now = fresh_fill ttl now evs"
proof (cases evs)
  case (Cons ev evs')
  assume "ttl \<le> now"
  with Cons show ?thesis
    by (cases ev) (simp_all add: after_def fresh_fill_def fresh_put fresh_drop)
qed (simp add: after_def fresh_fill_def fresh_initial)

end

end
