(* ===== verification/HealthResolver.thy ===== *)
theory HealthResolver
  imports HealthLaws Memo
begin

text \<open>
  The one place chart-declared groups and stored groups are merged
  (hub/internal/health/resolver.go). The state is the memo of the stored set; the store's
  answer to the query a call makes is an argument: not configured, not connected, failed, or
  the rows. Every method holds the lock only around its own access to the memo.
\<close>

record stored_group =
  sg_name :: string
  sg_tier :: string
  sg_namespaces :: "string list"
  sg_services :: "string list"

definition stored_groups_ttl :: duration where
  "stored_groups_ttl = 5 * second"

record group_resolver =
  gr_cached :: "stored_group list"
  gr_fetched :: instant
  gr_warm :: bool

definition new_resolver :: group_resolver where
  "new_resolver = \<lparr>gr_cached = [], gr_fetched = zero_time, gr_warm = False\<rparr>"

datatype groups_answer = NotConfigured | NotConnected | ListFailed | Groups "stored_group list"

definition fill_groups :: "stored_group list \<Rightarrow> instant \<Rightarrow> group_resolver \<Rightarrow> group_resolver" where
  "fill_groups gs now r = r\<lparr>gr_cached := gs, gr_fetched := now, gr_warm := True\<rparr>"

definition fresh_groups :: "group_resolver \<Rightarrow> instant \<Rightarrow> stored_group list option" where
  "fresh_groups r now =
     (if gr_warm r \<and> time_sub now (gr_fetched r) < stored_groups_ttl then Some (gr_cached r) else None)"

definition last_known_groups :: "group_resolver \<Rightarrow> stored_group list" where
  "last_known_groups r = gr_cached r"

definition invalidate_groups :: "group_resolver \<Rightarrow> group_resolver" where
  "invalidate_groups r = r\<lparr>gr_fetched := zero_time\<rparr>"

definition stored_uncached :: "groups_answer \<Rightarrow> instant \<Rightarrow> group_resolver \<Rightarrow> stored_group list option \<times> group_resolver" where
  "stored_uncached ans now r =
     (case ans of
        NotConfigured \<Rightarrow> (Some [], r)
      | NotConnected \<Rightarrow> (Some [], r)
      | ListFailed \<Rightarrow> (None, r)
      | Groups gs \<Rightarrow> (Some gs, fill_groups gs now r))"

definition stored_cached :: "groups_answer \<Rightarrow> instant \<Rightarrow> group_resolver \<Rightarrow> stored_group list \<times> group_resolver" where
  "stored_cached ans now r =
     (if ans = NotConfigured then ([], r)
      else case fresh_groups r now of
        Some gs \<Rightarrow> (gs, r)
      | None \<Rightarrow>
          (case ans of
             Groups gs \<Rightarrow> (gs, fill_groups gs now r)
           | _ \<Rightarrow> (last_known_groups r, r)))"

definition stored_group_of :: "stored_group \<Rightarrow> hgroup" where
  "stored_group_of s = \<lparr>grp_name = sg_name s, grp_tier = sg_tier s,
     grp_selector = \<lparr>sel_namespaces = sg_namespaces s, sel_services = sg_services s\<rparr>, grp_checks = []\<rparr>"

definition merge_groups :: "health_config \<Rightarrow> stored_group list \<Rightarrow> health_config" where
  "merge_groups cfg stored =
     (if stored = [] then cfg
      else cfg\<lparr>hc_groups := hc_groups cfg @
        map stored_group_of (filter (\<lambda>s. sg_name s \<notin> set (map grp_name (hc_groups cfg))) stored)\<rparr>)"

definition resolver_config :: "health_config \<Rightarrow> groups_answer \<Rightarrow> instant \<Rightarrow> group_resolver \<Rightarrow>
    health_config \<times> group_resolver" where
  "resolver_config declared ans now r =
     (case stored_cached ans now r of (gs, r') \<Rightarrow> (merge_groups declared gs, r'))"

section \<open>The memo\<close>

lemma groups_ttl_less [simp]: "time_sub now t < stored_groups_ttl \<longleftrightarrow> now - t < stored_groups_ttl"
  by (rule time_sub_less) (simp_all add: stored_groups_ttl_def duration_defs)

interpretation group_memo: memo_cell fresh_groups last_known_groups fill_groups invalidate_groups
  stored_groups_ttl new_resolver "[]"
  by unfold_locales
    (auto simp: fresh_groups_def last_known_groups_def fill_groups_def invalidate_groups_def new_resolver_def)

definition groups_event :: "stored_group list memo_event \<Rightarrow> group_resolver \<Rightarrow> group_resolver" where
  "groups_event ev r = (case ev of Fill gs t \<Rightarrow> fill_groups gs t r | Drop \<Rightarrow> invalidate_groups r)"

lemma after_groups: "group_memo.after evs = foldr groups_event evs new_resolver"
  by (simp add: group_memo.after_def groups_event_def [abs_def])

section \<open>Merging\<close>

lemma match_append: "match_group (gs @ hs) svc ns = (case match_group gs svc ns of None \<Rightarrow> match_group hs svc ns | Some g \<Rightarrow> Some g)"
  by (induction gs) (auto simp: match_group_def)

lemma match_merged:
  "match_group (hc_groups (merge_groups cfg stored)) svc ns =
     (case match_group (hc_groups cfg) svc ns of
        Some g \<Rightarrow> Some g
      | None \<Rightarrow> match_group (map stored_group_of (filter (\<lambda>s. sg_name s \<notin> set (map grp_name (hc_groups cfg))) stored)) svc ns)"
  by (simp add: merge_groups_def match_append) (simp add: match_group_def split: option.split)

section \<open>Properties\<close>

text \<open>The chart wins twice: a service claimed by a declared group is assigned to that
  group whatever is stored, and a stored group whose name the chart declares is not in the
  merged configuration at all; what remains of the stored groups is kept in order, and
  nothing else of the configuration changes.\<close>

theorem chart_groups_win:
  assumes "match_group (hc_groups cfg) (st_name s) (namespace_of l) = Some g" and "labels (st_name s) = Some l"
  shows "assign_one (merge_groups cfg stored) labels s = assign_one cfg labels s \<and>
    filter (\<lambda>h. grp_name h \<in> grp_name ` set (hc_groups cfg)) (hc_groups (merge_groups cfg stored)) = hc_groups cfg \<and>
    (\<exists>extra. hc_groups (merge_groups cfg stored) = hc_groups cfg @ extra \<and>
       set extra = stored_group_of ` {x \<in> set stored. sg_name x \<notin> grp_name ` set (hc_groups cfg)})"
proof -
  have "match_group (hc_groups (merge_groups cfg stored)) (st_name s) (namespace_of l) = Some g"
    using assms(1) by (simp add: match_merged)
  with assms have "assign_one (merge_groups cfg stored) labels s = assign_one cfg labels s"
    by (simp add: assign_one_def Let_def merge_groups_def)
  moreover have "filter (\<lambda>h. grp_name h \<in> grp_name ` set (hc_groups cfg)) (hc_groups (merge_groups cfg stored)) = hc_groups cfg"
    by (auto simp: merge_groups_def filter_empty_conv stored_group_of_def intro!: filter_True)
  moreover have "\<exists>extra. hc_groups (merge_groups cfg stored) = hc_groups cfg @ extra \<and>
       set extra = stored_group_of ` {x \<in> set stored. sg_name x \<notin> grp_name ` set (hc_groups cfg)}"
    by (rule exI [of _ "map stored_group_of (filter (\<lambda>s. sg_name s \<notin> set (map grp_name (hc_groups cfg))) stored)"])
      (auto simp: merge_groups_def)
  ultimately show ?thesis by blast
qed

theorem chart_groups_win_witness:
  "let g = \<lparr>grp_name = ''g'', grp_tier = ''T0'', grp_selector = \<lparr>sel_namespaces = [], sel_services = [''a'']\<rparr>, grp_checks = []\<rparr>;
       cfg = default_config\<lparr>hc_groups := [g]\<rparr>;
       st = \<lparr>sg_name = ''g'', sg_tier = ''T3'', sg_namespaces = [], sg_services = [''a'']\<rparr>;
       s = \<lparr>st_name = ''a'', st_span_count = 0, st_error_count = 0, st_p95 = 0\<rparr>
   in as_tier (fst (assign_one (merge_groups cfg [st]) [''a'' \<mapsto> no_label] s)) = ''T0''"
proof -
  define g where "g = \<lparr>grp_name = ''g'', grp_tier = ''T0'', grp_selector = \<lparr>sel_namespaces = [], sel_services = [''a'']\<rparr>, grp_checks = []\<rparr>"
  define cfg where "cfg = default_config\<lparr>hc_groups := [g]\<rparr>"
  define s where "s = \<lparr>st_name = ''a'', st_span_count = 0, st_error_count = 0, st_p95 = 0\<rparr>"
  have m: "match_group (hc_groups cfg) (st_name s) (namespace_of no_label) = Some g"
    by (simp add: match_group_def cfg_def s_def g_def)
  then have "as_tier (fst (assign_one cfg [''a'' \<mapsto> no_label] s)) = ''T0''"
    by (simp add: assign_one_def Let_def s_def) (simp add: cfg_def g_def default_config_def)
  with chart_groups_win [OF m, of "[''a'' \<mapsto> no_label]"] show ?thesis
    by (simp add: Let_def s_def cfg_def g_def)
qed

text \<open>What a health computation is merged with, after any run of fills and drops: the
  set of the latest fill while nothing dropped it and it is younger than the time to live;
  otherwise what the store answers now; and when the store does not answer, the set of the
  latest fill however old, or none if there never was one. A store that fails never fails
  the computation.\<close>

theorem resolver_serves:
  assumes "stored_groups_ttl \<le> now"
  shows "fst (resolver_config declared ans now (foldr groups_event evs new_resolver)) =
    merge_groups declared
      (if ans = NotConfigured then []
       else case fresh_fill stored_groups_ttl now evs of
         Some gs \<Rightarrow> gs
       | None \<Rightarrow> (case ans of Groups gs \<Rightarrow> gs | _ \<Rightarrow> last_fill [] evs))"
  using group_memo.fresh_after [OF assms, of evs] group_memo.last_after [of evs]
  by (auto simp: resolver_config_def stored_cached_def after_groups split: option.splits groups_answer.splits)

theorem resolver_serves_witness:
  "fst (resolver_config default_config ListFailed (10 * second) (foldr groups_event [Drop, Fill [] (9 * second)] new_resolver)) =
     merge_groups default_config []"
  by (subst resolver_serves) (simp_all add: stored_groups_ttl_def duration_defs fresh_fill_def)

text \<open>The memo does not order a fill after the query it stores: a read that queried before
  an administrator's write can fill the memo after the write has dropped it.\<close>

lemma late_fill_hides_write:
  "fst (stored_cached (Groups new) (t + second) (foldr groups_event [Fill old t, Drop] new_resolver)) = old"
  by (simp add: groups_event_def stored_cached_def fresh_groups_def fill_groups_def)
    (simp add: stored_groups_ttl_def duration_defs)

end
