(* ===== verification/Alerting.thy ===== *)
theory Alerting
  imports HealthChecks
begin

text \<open>
  Alerting (hub/internal/alerting/config.go and evaluator.go): the configuration, its
  validation, and the state machine that turns a health report into notifications. State and
  targets are Go maps and are association lists here; the evaluator ranges over a set of
  candidate targets, whose order the theorems show to be immaterial. Delivery (notifier.go)
  is network code and is not modelled.
\<close>

section \<open>Configuration\<close>

record alert_selector =
  asel_groups :: "string list"
  asel_services :: "string list"
  asel_tiers :: "string list"
  asel_environments :: "string list"

record alert_rule =
  ar_name :: string
  ar_selector :: alert_selector
  ar_when :: string
  ar_for :: duration
  ar_channel :: string

record channel =
  ch_name :: string
  ch_type :: string
  ch_url :: string
  ch_secret :: string

record alert_config =
  ac_eval_interval_sec :: int
  ac_window_minutes :: int
  ac_rules :: "alert_rule list"
  ac_channels :: "channel list"

definition default_alert_config :: alert_config where
  "default_alert_config = \<lparr>ac_eval_interval_sec = 30, ac_window_minutes = 5, ac_rules = [], ac_channels = []\<rparr>"

definition known_when :: "string \<Rightarrow> bool" where
  "known_when w \<longleftrightarrow> w = ''down'' \<or> w = ''degraded'' \<or> w = ''not-healthy''"

definition selector_empty :: "alert_selector \<Rightarrow> bool" where
  "selector_empty s \<longleftrightarrow> asel_groups s = [] \<and> asel_services s = [] \<and> asel_tiers s = []"

definition matches_environment :: "alert_selector \<Rightarrow> string \<Rightarrow> bool" where
  "matches_environment s env \<longleftrightarrow> asel_environments s = [] \<or> env \<in> set (asel_environments s)"

datatype alert_error =
    AlertJson
  | NegativeInterval
  | DuplicateChannel string
  | BadChannel nat alert_error
  | EmptyChannelName
  | UnsupportedChannelType string string
  | EmptyUrl
  | InvalidUrl string
  | NotHttp string
  | NoHost string
  | EmptyRuleName nat
  | DuplicateRule string
  | UnknownWhen string string
  | EmptyRuleSelector string
  | NegativeFor string
  | EmptyRuleChannel string

text \<open>The body of \<open>Duration.UnmarshalJSON\<close> on the decoded string.\<close>

definition alert_duration :: "string \<Rightarrow> duration option" where
  "alert_duration s = (if trim_space s = [] then Some 0 else parse_duration s)"

definition validate_webhook_url :: "string \<Rightarrow> alert_error option" where
  "validate_webhook_url raw =
     (if trim_space raw = [] then Some EmptyUrl
      else case url_parse raw of
        None \<Rightarrow> Some (InvalidUrl raw)
      | Some u \<Rightarrow>
          if u_scheme u \<noteq> ''http'' \<and> u_scheme u \<noteq> ''https'' then Some (NotHttp raw)
          else if u_host u = [] then Some (NoHost raw) else None)"

definition validate_channel :: "channel \<Rightarrow> alert_error option" where
  "validate_channel ch =
     (if trim_space (ch_name ch) = [] then Some EmptyChannelName
      else if ch_type ch \<noteq> ''webhook'' then Some (UnsupportedChannelType (ch_name ch) (ch_type ch))
      else validate_webhook_url (ch_url ch))"

fun validate_channels :: "nat \<Rightarrow> string list \<Rightarrow> channel list \<Rightarrow> alert_error option" where
  "validate_channels i seen [] = None"
| "validate_channels i seen (ch # chs) =
     (if ch_name ch \<in> set seen then Some (DuplicateChannel (ch_name ch))
      else case validate_channel ch of
        Some e \<Rightarrow> Some (BadChannel i e)
      | None \<Rightarrow> validate_channels (Suc i) (ch_name ch # seen) chs)"

fun validate_rules :: "nat \<Rightarrow> string list \<Rightarrow> alert_rule list \<Rightarrow> alert_error option" where
  "validate_rules i seen [] = None"
| "validate_rules i seen (r # rs) =
     (if trim_space (ar_name r) = [] then Some (EmptyRuleName i)
      else if ar_name r \<in> set seen then Some (DuplicateRule (ar_name r))
      else if \<not> known_when (ar_when r) then Some (UnknownWhen (ar_name r) (ar_when r))
      else if selector_empty (ar_selector r) then Some (EmptyRuleSelector (ar_name r))
      else if ar_for r < 0 then Some (NegativeFor (ar_name r))
      else if trim_space (ar_channel r) = [] then Some (EmptyRuleChannel (ar_name r))
      else validate_rules (Suc i) (ar_name r # seen) rs)"

definition validate_alerts :: "alert_config \<Rightarrow> alert_error option" where
  "validate_alerts c =
     (if ac_eval_interval_sec c < 0 \<or> ac_window_minutes c < 0 then Some NegativeInterval
      else case validate_channels 0 [] (ac_channels c) of
        Some e \<Rightarrow> Some e
      | None \<Rightarrow> validate_rules 0 [] (ac_rules c))"

definition parse_alert_config :: "(string \<Rightarrow> alert_config option) \<Rightarrow> string \<Rightarrow> alert_error + alert_config" where
  "parse_alert_config json body =
     (if trim_space body = [] then Inr default_alert_config
      else case json body of
        None \<Rightarrow> Inl AlertJson
      | Some c0 \<Rightarrow>
          let c1 = (if ac_eval_interval_sec c0 = 0 then c0\<lparr>ac_eval_interval_sec := 30\<rparr> else c0);
              c = (if ac_window_minutes c1 = 0 then c1\<lparr>ac_window_minutes := 5\<rparr> else c1)
          in case validate_alerts c of Some e \<Rightarrow> Inl e | None \<Rightarrow> Inr c)"

definition alert_interval :: "alert_config \<Rightarrow> duration" where
  "alert_interval c = wrap64 (ac_eval_interval_sec c * second)"

definition alert_window :: "alert_config \<Rightarrow> duration" where
  "alert_window c = wrap64 (ac_window_minutes c * minute)"

definition channel_by_name :: "alert_config \<Rightarrow> string \<Rightarrow> channel option" where
  "channel_by_name c n = find (\<lambda>ch. ch_name ch = n) (ac_channels c)"

section \<open>Targets\<close>

text \<open>The reason text of a target: the health reason, a tier's worst group and its status, or
  the fixed text for a target that has vanished; a budget's reason is its name, scope, unit, used
  share, used and limit, and whether the number is a floor.\<close>

datatype target_reason = FromHealth reason | TierGroup string status | NotReporting
  | BudgetReason string string string float64 float64 float64 bool

record target_info =
  ti_status :: status
  ti_reason :: target_reason

type_synonym targets = "(string \<times> target_info) list"

definition group_target_key :: "string \<Rightarrow> string \<Rightarrow> string" where
  "group_target_key name env =
     (if env = [] then ''group:'' @ name else ''group:'' @ name @ ''['' @ env @ '']'')"

definition split_group_target :: "string \<Rightarrow> string \<times> string" where
  "split_group_target s =
     (case last_index (CHR ''['') s of
        Some i \<Rightarrow> if has_suffix '']'' s then (take i s, drop (Suc i) (butlast s)) else (s, [])
      | None \<Rightarrow> (s, []))"

definition group_label :: "group_health \<Rightarrow> string" where
  "group_label g = (if gh_env g = [] then gh_name g else gh_name g @ '' ['' @ gh_env g @ '']'')"

text \<open>The targets of one group: itself, its members, and its tier's worst so far.\<close>

definition add_group_targets :: "group_health \<Rightarrow> targets \<times> targets \<Rightarrow> targets \<times> targets" where
  "add_group_targets g acc =
     (case acc of (out, tiers) \<Rightarrow>
        let out1 = AList.update (group_target_key (gh_name g) (gh_env g))
              \<lparr>ti_status = gh_status g, ti_reason = FromHealth (gh_reason g)\<rparr> out;
            out2 = fold (\<lambda>m. AList.update (''service:'' @ mb_service m)
              \<lparr>ti_status = mb_effective m, ti_reason = FromHealth (mb_reason m)\<rparr>) (gh_members g) out1;
            worse = (case map_of tiers (gh_tier g) of
                None \<Rightarrow> True | Some cur \<Rightarrow> severity (ti_status cur) < severity (gh_status g))
        in (out2, if gh_tier g \<noteq> [] \<and> worse
            then AList.update (gh_tier g) \<lparr>ti_status = gh_status g, ti_reason = TierGroup (group_label g) (gh_status g)\<rparr> tiers
            else tiers))"

definition build_targets :: "report \<Rightarrow> targets" where
  "build_targets rep =
     (case fold add_group_targets (rp_groups rep) ([], []) of (out, tiers) \<Rightarrow>
        fold (\<lambda>(t, i). AList.update (''tier:'' @ t) i) tiers out)"

definition alert_selector_matches :: "alert_selector \<Rightarrow> string \<Rightarrow> bool" where
  "alert_selector_matches sel target =
     (if has_prefix ''group:'' target then
        (case split_group_target (trim_prefix ''group:'' target) of (name, env) \<Rightarrow>
           name \<in> set (asel_groups sel) \<and> matches_environment sel env)
      else if has_prefix ''service:'' target then trim_prefix ''service:'' target \<in> set (asel_services sel)
      else if has_prefix ''tier:'' target then trim_prefix ''tier:'' target \<in> set (asel_tiers sel)
      else False)"

definition condition_matches :: "string \<Rightarrow> status \<Rightarrow> bool" where
  "condition_matches w st =
     (if w = ''down'' then st = down
      else if w = ''degraded'' then st = degraded
      else if w = ''not-healthy'' then st = down \<or> st = degraded
      else False)"

section \<open>The state machine\<close>

record target_state =
  ts_status :: string
  ts_since :: instant
  ts_last_notified :: instant

type_synonym alert_state = "((string \<times> string) \<times> target_state) list"

record notification =
  nt_rule :: string
  nt_target :: string
  nt_kind :: string
  nt_status :: status
  nt_reason :: target_reason
  nt_at :: instant
  nt_channel :: string

definition fire :: "alert_rule \<Rightarrow> string \<Rightarrow> target_info \<Rightarrow> instant \<Rightarrow> notification" where
  "fire r target info now = \<lparr>nt_rule = ar_name r, nt_target = target, nt_kind = ''fired'',
     nt_status = ti_status info, nt_reason = ti_reason info, nt_at = now, nt_channel = ar_channel r\<rparr>"

definition resolve_note :: "alert_rule \<Rightarrow> string \<Rightarrow> target_info \<Rightarrow> bool \<Rightarrow> instant \<Rightarrow> notification" where
  "resolve_note r target info present now = \<lparr>nt_rule = ar_name r, nt_target = target, nt_kind = ''resolved'',
     nt_status = (if present then ti_status info else unknown),
     nt_reason = (if present then ti_reason info else NotReporting), nt_at = now, nt_channel = ar_channel r\<rparr>"

definition candidate_targets :: "alert_rule \<Rightarrow> targets \<Rightarrow> alert_state \<Rightarrow> string list" where
  "candidate_targets r targets prev =
     dedup (filter (alert_selector_matches (ar_selector r)) (map fst targets) @
       map (\<lambda>(k, _). snd k) (filter (\<lambda>(k, _). fst k = ar_name r) prev))"

definition no_target :: target_info where
  "no_target = \<lparr>ti_status = [], ti_reason = FromHealth NoReason\<rparr>"

text \<open>The switch of \<open>Evaluate\<close>: the state to store for the key, if any, and the notification
  to emit, if any.\<close>

definition eval_target :: "alert_rule \<Rightarrow> targets \<Rightarrow> alert_state \<Rightarrow> instant \<Rightarrow> string \<Rightarrow>
    target_state option \<times> notification option" where
  "eval_target r targets prev now target =
     (let present = (map_of targets target \<noteq> None);
          info = (case map_of targets target of None \<Rightarrow> no_target | Some i \<Rightarrow> i);
          hit = (present \<and> alert_selector_matches (ar_selector r) target \<and> condition_matches (ar_when r) (ti_status info));
          st = (case map_of prev (ar_name r, target) of
              None \<Rightarrow> \<lparr>ts_status = [], ts_since = zero_time, ts_last_notified = zero_time\<rparr> | Some s \<Rightarrow> s)
      in if hit \<and> ts_status st \<noteq> ''pending'' \<and> ts_status st \<noteq> ''firing''
           then (Some \<lparr>ts_status = ''pending'', ts_since = now, ts_last_notified = zero_time\<rparr>, None)
         else if hit \<and> ts_status st = ''pending'' then
           (if ar_for r \<le> time_sub now (ts_since st)
            then (Some \<lparr>ts_status = ''firing'', ts_since = ts_since st, ts_last_notified = now\<rparr>,
              Some (fire r target info now))
            else (Some st, None))
         else if hit \<and> ts_status st = ''firing'' then (Some st, None)
         else if \<not> hit \<and> ts_status st = ''firing'' then (None, Some (resolve_note r target info present now))
         else (None, None))"

definition eval_step :: "alert_rule \<Rightarrow> targets \<Rightarrow> alert_state \<Rightarrow> instant \<Rightarrow> alert_state \<times> notification list \<Rightarrow>
    string \<Rightarrow> alert_state \<times> notification list" where
  "eval_step r targets prev now acc target =
     (case acc of (nxt, notes) \<Rightarrow>
        case eval_target r targets prev now target of (st, n) \<Rightarrow>
          (case st of None \<Rightarrow> nxt | Some s \<Rightarrow> AList.update (ar_name r, target) s nxt,
           case n of None \<Rightarrow> notes | Some x \<Rightarrow> notes @ [x]))"

definition eval_rule :: "targets \<Rightarrow> alert_state \<Rightarrow> instant \<Rightarrow> alert_state \<times> notification list \<Rightarrow> alert_rule \<Rightarrow>
    alert_state \<times> notification list" where
  "eval_rule targets prev now acc r =
     foldl (eval_step r targets prev now) acc (candidate_targets r targets prev)"

definition evaluate :: "alert_config \<Rightarrow> report \<Rightarrow> alert_state \<Rightarrow> instant \<Rightarrow> alert_state \<times> notification list" where
  "evaluate cfg rep prev now = foldl (eval_rule (build_targets rep) prev now) ([], []) (ac_rules cfg)"

end
