(* ===== verification/AlertLaws.thy ===== *)
theory AlertLaws
  imports Alerting
begin

text \<open>
  What the alert state machine guarantees. The one-tick lemmas reduce \<open>Evaluate\<close> to a step
  per rule and target; the run lemmas read a whole history of reports, latest first.
\<close>

section \<open>One tick\<close>

definition hits :: "alert_rule \<Rightarrow> report \<Rightarrow> string \<Rightarrow> bool" where
  "hits r rep target \<longleftrightarrow> alert_selector_matches (ar_selector r) target \<and>
     (case map_of (build_targets rep) target of None \<Rightarrow> False | Some i \<Rightarrow> condition_matches (ar_when r) (ti_status i))"

definition notes_of :: "string \<times> string \<Rightarrow> notification list \<Rightarrow> notification list" where
  "notes_of k ns = filter (\<lambda>n. nt_rule n = fst k \<and> nt_target n = snd k) ns"

definition opt_list :: "'a option \<Rightarrow> 'a list" where
  "opt_list x = (case x of None \<Rightarrow> [] | Some y \<Rightarrow> [y])"

lemma opt_list_simps [simp]: "opt_list None = []" "opt_list (Some x) = [x]"
  by (simp_all add: opt_list_def)

lemma notes_of_append [simp]: "notes_of k (xs @ ys) = notes_of k xs @ notes_of k ys"
  by (simp add: notes_of_def)

lemma notes_of_Nil [simp]: "notes_of k [] = []"
  by (simp add: notes_of_def)

lemma eval_target_note:
  "snd (eval_target r targets prev now t) = Some n \<Longrightarrow> nt_rule n = ar_name r \<and> nt_target n = t"
  by (auto simp: eval_target_def Let_def fire_def resolve_note_def split: if_splits)

lemma eval_target_idle:
  "t \<notin> set (candidate_targets r targets prev) \<Longrightarrow> eval_target r targets prev now t = (None, None)"
proof -
  assume t: "t \<notin> set (candidate_targets r targets prev)"
  then have "map_of prev (ar_name r, t) = None"
    by (force simp: candidate_targets_def map_of_eq_None_iff)
  moreover have "map_of targets t \<noteq> None \<Longrightarrow> \<not> alert_selector_matches (ar_selector r) t"
    using t by (auto simp: candidate_targets_def map_of_eq_None_iff)
  ultimately show ?thesis by (auto simp: eval_target_def Let_def)
qed

lemma eval_step_fst:
  "map_of (fst (eval_step r targets prev now acc t)) k =
     (if k = (ar_name r, t) \<and> fst (eval_target r targets prev now t) \<noteq> None
      then fst (eval_target r targets prev now t) else map_of (fst acc) k)"
  by (auto simp: eval_step_def update_conv' split: prod.splits option.splits)

lemma eval_step_snd:
  "notes_of k (snd (eval_step r targets prev now acc t)) = notes_of k (snd acc) @
     (if k = (ar_name r, t) then opt_list (snd (eval_target r targets prev now t)) else [])"
  using eval_target_note [of r targets prev now t]
  by (auto simp: eval_step_def notes_of_def split: prod.splits option.splits)

lemma eval_fold:
  "distinct ts \<Longrightarrow>
   map_of (fst (foldl (eval_step r targets prev now) acc ts)) k =
     (if fst k = ar_name r \<and> snd k \<in> set ts \<and> fst (eval_target r targets prev now (snd k)) \<noteq> None
      then fst (eval_target r targets prev now (snd k)) else map_of (fst acc) k) \<and>
   notes_of k (snd (foldl (eval_step r targets prev now) acc ts)) = notes_of k (snd acc) @
     (if fst k = ar_name r \<and> snd k \<in> set ts then opt_list (snd (eval_target r targets prev now (snd k))) else [])"
proof (induction ts arbitrary: acc)
  case (Cons t ts)
  then show ?case
    using Cons.IH [of "eval_step r targets prev now acc t"]
    by (cases k) (auto simp: eval_step_fst eval_step_snd)
qed simp

lemma eval_rule_key:
  "map_of (fst (eval_rule targets prev now acc r)) k =
     (if fst k = ar_name r \<and> fst (eval_target r targets prev now (snd k)) \<noteq> None
      then fst (eval_target r targets prev now (snd k)) else map_of (fst acc) k)"
  "notes_of k (snd (eval_rule targets prev now acc r)) = notes_of k (snd acc) @
     (if fst k = ar_name r then opt_list (snd (eval_target r targets prev now (snd k))) else [])"
  using eval_fold [of "candidate_targets r targets prev" r targets prev now acc k]
    eval_target_idle [of "snd k" r targets prev now]
  by (auto simp: eval_rule_def candidate_targets_def [symmetric]) (auto simp: candidate_targets_def)

lemma eval_rules_other:
  "\<forall>r\<in>set rs. ar_name r \<noteq> fst k \<Longrightarrow>
   map_of (fst (foldl (eval_rule targets prev now) acc rs)) k = map_of (fst acc) k \<and>
   notes_of k (snd (foldl (eval_rule targets prev now) acc rs)) = notes_of k (snd acc)"
  by (induction rs arbitrary: acc) (auto simp: eval_rule_key)

text \<open>With distinct rule names a tick is one step per rule and target.\<close>

lemma evaluate_key:
  assumes "distinct (map ar_name (ac_rules cfg))" and "r \<in> set (ac_rules cfg)"
  shows "map_of (fst (evaluate cfg rep prev now)) (ar_name r, t) = fst (eval_target r (build_targets rep) prev now t)"
    and "notes_of (ar_name r, t) (snd (evaluate cfg rep prev now)) = opt_list (snd (eval_target r (build_targets rep) prev now t))"
proof -
  from assms(2) obtain xs ys where rs: "ac_rules cfg = xs @ r # ys" by (auto simp: in_set_conv_decomp)
  with assms(1) have "\<forall>q\<in>set xs. ar_name q \<noteq> fst (ar_name r, t)" "\<forall>q\<in>set ys. ar_name q \<noteq> fst (ar_name r, t)"
    by (auto simp: rs) (metis imageI)+
  note o = this [THEN eval_rules_other]
  show "map_of (fst (evaluate cfg rep prev now)) (ar_name r, t) = fst (eval_target r (build_targets rep) prev now t)"
    using o by (auto simp: evaluate_def rs eval_rule_key)
  show "notes_of (ar_name r, t) (snd (evaluate cfg rep prev now)) = opt_list (snd (eval_target r (build_targets rep) prev now t))"
    using o by (auto simp: evaluate_def rs eval_rule_key)
qed

lemma validate_rules_distinct:
  "validate_rules i seen rs = None \<Longrightarrow> distinct (map ar_name rs) \<and> set (map ar_name rs) \<inter> set seen = {} \<and>
     (\<forall>r\<in>set rs. 0 \<le> ar_for r \<and> known_when (ar_when r))"
  by (induction i seen rs rule: validate_rules.induct) (auto split: if_splits)

lemma valid_distinct: "validate_alerts cfg = None \<Longrightarrow> distinct (map ar_name (ac_rules cfg))"
  using validate_rules_distinct by (auto simp: validate_alerts_def split: if_splits option.splits)

section \<open>Runs\<close>

fun alerts_after :: "alert_config \<Rightarrow> (report \<times> instant) list \<Rightarrow> alert_state \<times> notification list" where
  "alerts_after cfg [] = ([], [])"
| "alerts_after cfg ((rep, now) # h) =
     (case alerts_after cfg h of (st, ns) \<Rightarrow>
        (case evaluate cfg rep st now of (st', ns') \<Rightarrow> (st', ns @ ns')))"

definition streak :: "alert_rule \<Rightarrow> string \<Rightarrow> (report \<times> instant) list \<Rightarrow> instant list" where
  "streak r t h = map snd (takeWhile (\<lambda>x. hits r (fst x) t) h)"

definition ripe :: "alert_rule \<Rightarrow> instant list \<Rightarrow> bool" where
  "ripe r s \<longleftrightarrow> (\<exists>x\<in>set (butlast s). ar_for r \<le> time_sub x (last s))"

definition state_matches :: "alert_rule \<Rightarrow> instant list \<Rightarrow> target_state option \<Rightarrow> bool" where
  "state_matches r s st \<longleftrightarrow>
     (case st of
        None \<Rightarrow> s = []
      | Some x \<Rightarrow> s \<noteq> [] \<and> ts_since x = last s \<and> ts_status x = (if ripe r s then ''firing'' else ''pending''))"

definition kind_of_step :: "bool \<Rightarrow> bool \<Rightarrow> string list" where
  "kind_of_step was is = (if is \<and> \<not> was then [''fired''] else if was \<and> \<not> is then [''resolved''] else [])"

lemma eval_target_step:
  assumes "state_matches r s (map_of prev (ar_name r, t))"
  shows "state_matches r (if hits r rep t then now # s else [])
      (fst (eval_target r (build_targets rep) prev now t)) \<and>
    map nt_kind (opt_list (snd (eval_target r (build_targets rep) prev now t))) =
      kind_of_step (ripe r s) (ripe r (if hits r rep t then now # s else []))"
proof (cases "map_of prev (ar_name r, t)")
  case None
  with assms have s: "s = []" by (simp add: state_matches_def)
  show ?thesis
    using None by (auto simp: s eval_target_def Let_def hits_def state_matches_def kind_of_step_def ripe_def
        split: option.splits)
next
  case (Some x)
  with assms have x: "s \<noteq> []" "ts_since x = last s" "ts_status x = (if ripe r s then ''firing'' else ''pending'')"
    by (simp_all add: state_matches_def)
  have ripe: "ripe r (now # s) \<longleftrightarrow> ripe r s \<or> ar_for r \<le> time_sub now (last s)"
    using x(1) by (auto simp: ripe_def)
  show ?thesis
    using Some x
    by (cases "hits r rep t"; cases "ripe r s")
      (auto simp: eval_target_def Let_def hits_def state_matches_def kind_of_step_def ripe ripe_def [of r "[]"]
        fire_def resolve_note_def split: option.splits)
qed

lemma streak_Cons: "streak r t ((rep, now) # h) = (if hits r rep t then now # streak r t h else [])"
  by (simp add: streak_def)

lemma alerts_after_key:
  assumes "distinct (map ar_name (ac_rules cfg))" and "r \<in> set (ac_rules cfg)"
  shows "state_matches r (streak r t h) (map_of (fst (alerts_after cfg h)) (ar_name r, t)) \<and>
    (case h of [] \<Rightarrow> True | x # h' \<Rightarrow>
      map nt_kind (notes_of (ar_name r, t) (snd (alerts_after cfg h))) =
      map nt_kind (notes_of (ar_name r, t) (snd (alerts_after cfg h'))) @
        kind_of_step (ripe r (streak r t h')) (ripe r (streak r t h)))"
proof (induction h)
  case Nil
  show ?case by (simp add: streak_def state_matches_def)
next
  case (Cons x h)
  obtain rep now where x: "x = (rep, now)" by (cases x)
  obtain st ns where h: "alerts_after cfg h = (st, ns)" by (cases "alerts_after cfg h")
  obtain st' ns' where e: "evaluate cfg rep st now = (st', ns')" by (cases "evaluate cfg rep st now")
  have "state_matches r (streak r t h) (map_of st (ar_name r, t))" using Cons.IH h by simp
  from eval_target_step [OF this, where rep = rep and now = now] evaluate_key [OF assms, where rep = rep and prev = st and now = now and t = t] e
  show ?case by (simp add: x h streak_Cons)
qed

fun alternating :: "string \<Rightarrow> string list \<Rightarrow> bool" where
  "alternating k [] = True"
| "alternating k (x # xs) = (x = k \<and> alternating (if k = ''fired'' then ''resolved'' else ''fired'') xs)"

lemma alternating_snoc:
  "alternating ''fired'' (xs @ [y]) \<longleftrightarrow>
     alternating ''fired'' xs \<and> y = (if even (length xs) then ''fired'' else ''resolved'')"
  "alternating ''resolved'' (xs @ [y]) \<longleftrightarrow>
     alternating ''resolved'' xs \<and> y = (if even (length xs) then ''resolved'' else ''fired'')"
  by (induction xs) auto

section \<open>Properties\<close>

text \<open>The configuration and reports the witnesses run.\<close>

definition page_rule :: alert_rule where
  "page_rule = \<lparr>ar_name = ''page'', ar_selector = \<lparr>asel_groups = [''g''], asel_services = [], asel_tiers = [],
     asel_environments = []\<rparr>, ar_when = ''down'', ar_for = 60, ar_channel = ''ops''\<rparr>"

definition page_config :: alert_config where
  "page_config = default_alert_config\<lparr>ac_rules := [page_rule]\<rparr>"

definition page_report :: "status \<Rightarrow> report" where
  "page_report st = \<lparr>rp_overall = st, rp_groups = [\<lparr>gh_name = ''g'', gh_env = [], gh_tier = ''T0'', gh_source = [],
     gh_tier_source = [], gh_status = st, gh_reason = NoReason, gh_counts = (\<lambda>_. 0), gh_span_count = 0, gh_rate = 0,
     gh_error_rate = 0, gh_p95 = 0, gh_members = [], gh_checks = []\<rparr>], rp_warnings = []\<rparr>"

lemma page_valid: "validate_alerts page_config = None" "page_rule \<in> set (ac_rules page_config)"
  by (code_simp, simp add: page_config_def)

text \<open>An alert fires exactly when its condition has held without interruption for the
  rule's duration: after any history of ticks under a valid configuration the state kept for
  a rule and target is nothing when the latest tick did not match, and otherwise carries the
  start of the uninterrupted matching streak and is firing exactly when some later tick of
  the streak came at least the rule's duration after its start.\<close>

theorem alert_state_tracks_streak:
  assumes "validate_alerts cfg = None" and "r \<in> set (ac_rules cfg)"
  shows "(case map_of (fst (alerts_after cfg h)) (ar_name r, t) of
      None \<Rightarrow> streak r t h = []
    | Some x \<Rightarrow> streak r t h \<noteq> [] \<and> ts_since x = last (streak r t h) \<and>
        ts_status x = (if \<exists>u\<in>set (butlast (streak r t h)). ar_for r \<le> time_sub u (last (streak r t h))
          then ''firing'' else ''pending''))"
  using alerts_after_key [OF valid_distinct [OF assms(1)] assms(2), of t h]
  unfolding state_matches_def ripe_def by (rule conjunct1)

theorem alert_state_tracks_streak_witness:
  "case map_of (fst (alerts_after page_config [(page_report down, 100), (page_report down, 10)])) (''page'', ''group:g'') of
     None \<Rightarrow> False | Some x \<Rightarrow> ts_since x = 10 \<and> ts_status x = ''firing''"
proof -
  have h: "hits page_rule (page_report down) ''group:g''" by code_simp
  then have s: "streak page_rule ''group:g'' [(page_report down, 100), (page_report down, 10)] = [100, 10]"
    by (simp add: streak_def)
  have "time_sub 100 10 = 90" "ar_for page_rule = 60" "ar_name page_rule = ''page''" by code_simp+
  with alert_state_tracks_streak [OF page_valid, of "''group:g''" "[(page_report down, 100), (page_report down, 10)]"] s
  show ?thesis by (auto split: option.splits)
qed

text \<open>Notifications of one rule and target alternate: over any history they are fired,
  resolved, fired and so on, starting with fired, and the last one is fired exactly when the
  alert is firing now; so an alert that keeps matching is not announced twice and none is
  resolved that was not announced.\<close>

theorem alert_notes_alternate:
  assumes "validate_alerts cfg = None" and "r \<in> set (ac_rules cfg)"
  shows "alternating ''fired'' (map nt_kind (notes_of (ar_name r, t) (snd (alerts_after cfg h)))) \<and>
    ((\<exists>x. map_of (fst (alerts_after cfg h)) (ar_name r, t) = Some x \<and> ts_status x = ''firing'') \<longleftrightarrow>
      odd (length (notes_of (ar_name r, t) (snd (alerts_after cfg h)))))"
proof -
  note key = alerts_after_key [OF valid_distinct [OF assms(1)] assms(2), of t]
  have "alternating ''fired'' (map nt_kind (notes_of (ar_name r, t) (snd (alerts_after cfg h)))) \<and>
    (ripe r (streak r t h) \<longleftrightarrow> odd (length (map nt_kind (notes_of (ar_name r, t) (snd (alerts_after cfg h))))))"
  proof (induction h)
    case (Cons x h)
    let ?ks = "map nt_kind (notes_of (ar_name r, t) (snd (alerts_after cfg h)))"
    have "map nt_kind (notes_of (ar_name r, t) (snd (alerts_after cfg (x # h)))) =
        ?ks @ kind_of_step (ripe r (streak r t h)) (ripe r (streak r t (x # h)))"
      using key [of "x # h"] by simp
    then show ?case using Cons by (auto simp: kind_of_step_def alternating_snoc simp del: length_map)
  qed (simp add: notes_of_def streak_def ripe_def)
  moreover have "(\<exists>x. map_of (fst (alerts_after cfg h)) (ar_name r, t) = Some x \<and> ts_status x = ''firing'') \<longleftrightarrow> ripe r (streak r t h)"
    using key [of h] by (auto simp: state_matches_def ripe_def split: option.splits)
  ultimately show ?thesis by simp
qed

theorem alert_notes_alternate_witness:
  "alternating ''fired'' (map nt_kind (notes_of (ar_name page_rule, ''group:g'')
      (snd (alerts_after page_config [(page_report idle, 200), (page_report down, 100), (page_report down, 10)])))) \<and>
   map nt_kind (snd (alerts_after page_config [(page_report idle, 200), (page_report down, 100), (page_report down, 10)])) =
     [''fired'', ''resolved'']"
proof
  show "alternating ''fired'' (map nt_kind (notes_of (ar_name page_rule, ''group:g'')
      (snd (alerts_after page_config [(page_report idle, 200), (page_report down, 100), (page_report down, 10)]))))"
    using alert_notes_alternate [OF page_valid] by blast
qed code_simp

lemma hits_status: "hits r rep t \<Longrightarrow> \<exists>i. map_of (build_targets rep) t = Some i \<and> 2 \<le> severity (ti_status i)"
  by (auto simp: hits_def condition_matches_def split: option.splits if_splits)

text \<open>Silence never alerts: a notification that something fired carries the status the
  report gives the target, and that status is degraded or down; a target that is idle,
  unknown or absent from the report fires nothing.\<close>

theorem fired_only_on_breach:
  assumes "validate_alerts cfg = None" and "r \<in> set (ac_rules cfg)"
    and "n \<in> set (notes_of (ar_name r, t) (snd (evaluate cfg rep prev now)))" and "nt_kind n = ''fired''"
  shows "(nt_status n = degraded \<or> nt_status n = down) \<and> nt_at n = now \<and>
    (\<exists>i. map_of (build_targets rep) t = Some i \<and> ti_status i = nt_status n)"
proof -
  have "snd (eval_target r (build_targets rep) prev now t) = Some n"
    using assms(3) evaluate_key(2) [OF valid_distinct [OF assms(1)] assms(2), where rep = rep and prev = prev and now = now and t = t]
    by (auto simp: opt_list_def split: option.splits)
  with assms(4) show ?thesis
    by (auto simp: eval_target_def Let_def fire_def resolve_note_def condition_matches_def split: if_splits option.splits)
qed

theorem fired_only_on_breach_witness:
  "\<exists>n prev. n \<in> set (notes_of (ar_name page_rule, ''group:g'') (snd (evaluate page_config (page_report down) prev 100))) \<and>
     nt_kind n = ''fired'' \<and> (nt_status n = degraded \<or> nt_status n = down)"
proof -
  let ?prev = "[((''page'', ''group:g''), \<lparr>ts_status = ''pending'', ts_since = 10, ts_last_notified = 0\<rparr>)]"
  let ?n = "fire page_rule ''group:g'' \<lparr>ti_status = down, ti_reason = FromHealth NoReason\<rparr> 100"
  have n: "?n \<in> set (notes_of (ar_name page_rule, ''group:g'') (snd (evaluate page_config (page_report down) ?prev 100)))"
    "nt_kind ?n = ''fired''"
    by code_simp+
  from fired_only_on_breach [OF page_valid n] n show ?thesis by blast
qed

section \<open>Addressing groups\<close>

lemma split_group_target_env:
  assumes "CHR ''['' \<notin> set env"
  shows "split_group_target (name @ ''['' @ env @ '']'') = (name, env)"
proof -
  let ?s = "name @ ''['' @ env @ '']''"
  have "takeWhile (\<lambda>x. x \<noteq> CHR ''['') (rev ?s) = CHR '']'' # rev env"
    using assms takeWhile_append2 [of "rev env" "\<lambda>x. x \<noteq> CHR ''[''" "CHR ''['' # rev name"] by auto
  then have "last_index (CHR ''['') ?s = Some (length name)" by (simp add: last_index_def)
  moreover have "has_suffix '']'' ?s" using has_suffix_append [of "'']''" "name @ ''['' @ env"] by simp
  moreover have "butlast ?s = name @ ''['' @ env" by (simp add: butlast_append)
  ultimately show ?thesis by (simp add: split_group_target_def)
qed

lemma group_target_split:
  "alert_selector_matches sel (''group:'' @ x) \<longleftrightarrow>
     fst (split_group_target x) \<in> set (asel_groups sel) \<and> matches_environment sel (snd (split_group_target x))"
  by (simp only: alert_selector_matches_def has_prefix_append trim_prefix_append if_True case_prod_beta)

text \<open>A rule reaches the groups it names: the target a group is flattened to matches a
  selector exactly when the selector lists the group's name and admits its environment (an
  empty list of environments admits all), for every environment without an opening bracket
  and, when there is no environment, every name that does not end in a closing one.\<close>

theorem group_target_addresses:
  assumes "env = [] \<longrightarrow> \<not> has_suffix '']'' name" and "CHR ''['' \<notin> set env"
  shows "alert_selector_matches sel (group_target_key name env) \<longleftrightarrow>
    name \<in> set (asel_groups sel) \<and> (asel_environments sel = [] \<or> env \<in> set (asel_environments sel))"
proof (cases "env = []")
  case True
  then have "split_group_target name = (name, [])"
    using assms(1) by (simp add: split_group_target_def split: option.splits)
  moreover have "group_target_key name env = ''group:'' @ name" using True by (simp add: group_target_key_def)
  ultimately show ?thesis using True group_target_split [of sel name] by (simp only: matches_environment_def fst_conv snd_conv)
next
  case False
  then have "group_target_key name env = ''group:'' @ name @ ''['' @ env @ '']''" by (simp add: group_target_key_def)
  with split_group_target_env [OF assms(2), of name] group_target_split [of sel "name @ ''['' @ env @ '']''"]
  show ?thesis by (simp only: matches_environment_def fst_conv snd_conv)
qed

theorem group_target_addresses_witness:
  "alert_selector_matches (ar_selector page_rule) (group_target_key ''g'' ''prod'')"
  by (subst group_target_addresses) (simp_all add: page_rule_def)

text \<open>A group whose own name ends in brackets is taken for one with an environment.\<close>

lemma bracketed_group_missed:
  "\<not> alert_selector_matches \<lparr>asel_groups = [''a[b]''], asel_services = [], asel_tiers = [], asel_environments = []\<rparr>
     (group_target_key ''a[b]'' [])"
  by code_simp

end
