(* ===== verification/CheckScheduler.thy ===== *)
theory CheckScheduler
  imports HealthConfig
begin

text \<open>
  The scheduler of endpoint checks (hub/internal/checks/scheduler.go). Its state is the next
  due instant per check id. \<open>due\<close> reads the configuration of the tick and runs under the
  lock, so a tick is one step. The HTTP client, the recorder and the span emitter are I/O:
  a probe takes the client's outcome as an argument.
\<close>

type_synonym due_map = "string \<rightharpoonup> instant"

type_synonym group_check = "string \<times> tier \<times> check"

definition gc_id :: "group_check \<Rightarrow> string" where
  "gc_id gc = ck_id (snd (snd gc))"

definition gc_check :: "group_check \<Rightarrow> check" where
  "gc_check gc = snd (snd gc)"

definition due_one :: "instant \<Rightarrow> due_map \<times> group_check list \<Rightarrow> group_check \<Rightarrow> due_map \<times> group_check list" where
  "due_one now acc gc =
     (case acc of (nxt, due) \<Rightarrow>
        if (case nxt (gc_id gc) of None \<Rightarrow> False | Some t \<Rightarrow> now < t) then (nxt, due)
        else case interval_or_default (gc_check gc) of
          None \<Rightarrow> (nxt, due)
        | Some d \<Rightarrow> (nxt(gc_id gc \<mapsto> now + d), due @ [gc]))"

definition forget_gone :: "group_check list \<Rightarrow> due_map \<Rightarrow> due_map" where
  "forget_gone checks nxt = (\<lambda>i. if i \<in> set (map gc_id checks) then nxt i else None)"

definition due :: "health_config \<Rightarrow> instant \<Rightarrow> due_map \<Rightarrow> group_check list \<times> due_map" where
  "due cfg now nxt =
     (case foldl (due_one now) (nxt, []) (all_checks cfg) of (nxt', ds) \<Rightarrow>
        (ds, forget_gone (all_checks cfg) nxt'))"

section \<open>Probes\<close>

datatype probe_error =
    NoError
  | ClientError string
  | ExpectedStatus int int
  | Expected2xx int
  | OverExpectation duration duration

record probe_result =
  pb_check :: string
  pb_group :: string
  pb_at :: instant
  pb_ok :: bool
  pb_status :: int
  pb_latency :: duration
  pb_error :: probe_error
  pb_trace :: string
  pb_span :: string
  pb_tenant :: string

text \<open>What the client made of the request: it could not be built, it failed, or a response
  with a status came back; the instants around the call are part of it.\<close>

datatype http_outcome = BadRequest string | RequestFailed string | Response int

definition probe :: "string \<Rightarrow> instant \<Rightarrow> instant \<Rightarrow> instant \<Rightarrow> http_outcome \<Rightarrow> group_check \<Rightarrow> probe_result" where
  "probe tenant now start finish outcome gc =
     (let ck = gc_check gc;
          res = \<lparr>pb_check = ck_id ck, pb_group = fst gc, pb_at = now, pb_ok = False, pb_status = 0, pb_latency = 0,
            pb_error = NoError, pb_trace = [], pb_span = [], pb_tenant = tenant\<rparr>;
          lat = time_sub finish start; want = ex_status (ck_expect ck)
      in case outcome of
           BadRequest e \<Rightarrow> res\<lparr>pb_error := ClientError e\<rparr>
         | RequestFailed e \<Rightarrow> res\<lparr>pb_latency := lat, pb_error := ClientError e\<rparr>
         | Response code \<Rightarrow>
             let res2 = res\<lparr>pb_latency := lat, pb_status := code\<rparr>
             in if want \<noteq> 0 \<and> code \<noteq> want then res2\<lparr>pb_error := ExpectedStatus want code\<rparr>
                else if want = 0 \<and> (code < 200 \<or> 299 < code) then res2\<lparr>pb_error := Expected2xx code\<rparr>
                else (case max_latency_or_zero ck of
                    None \<Rightarrow> res2\<lparr>pb_ok := True\<rparr>
                  | Some mx \<Rightarrow> if 0 < mx \<and> mx < lat then res2\<lparr>pb_error := OverExpectation lat mx\<rparr>
                      else res2\<lparr>pb_ok := True\<rparr>))"

text \<open>\<open>runOne\<close>: what is recorded. The emitter, if there is one, names the span.\<close>

definition run_one :: "(probe_result \<Rightarrow> string \<Rightarrow> string \<times> string) option \<Rightarrow> probe_result \<Rightarrow> group_check \<Rightarrow> probe_result" where
  "run_one emitter res gc =
     (case emitter of
        None \<Rightarrow> res
      | Some emit \<Rightarrow> (case emit res (ck_url (gc_check gc)) of (tr, sp) \<Rightarrow> res\<lparr>pb_trace := tr, pb_span := sp\<rparr>))"

datatype redirect_verdict = Follow | OtherHost string | TooManyRedirects

definition check_redirect :: "string \<Rightarrow> string list \<Rightarrow> redirect_verdict" where
  "check_redirect host via =
     (if via \<noteq> [] \<and> host \<noteq> hd via then OtherHost host
      else if 5 \<le> length via then TooManyRedirects else Follow)"

section \<open>One tick\<close>

lemma due_one_id:
  "fst (due_one now acc gc) i =
     (if i = gc_id gc \<and> \<not> (\<exists>t. fst acc i = Some t \<and> now < t) \<and> interval_or_default (gc_check gc) \<noteq> None
      then Some (now + the (interval_or_default (gc_check gc))) else fst acc i)"
  "filter (\<lambda>g. gc_id g = i) (snd (due_one now acc gc)) = filter (\<lambda>g. gc_id g = i) (snd acc) @
     (if i = gc_id gc \<and> \<not> (\<exists>t. fst acc i = Some t \<and> now < t) \<and> interval_or_default (gc_check gc) \<noteq> None
      then [gc] else [])"
  by (auto simp: due_one_def split: prod.splits option.splits)

lemma due_fold_other:
  "\<forall>gc\<in>set gcs. gc_id gc \<noteq> i \<Longrightarrow> fst (foldl (due_one now) acc gcs) i = fst acc i \<and>
     filter (\<lambda>g. gc_id g = i) (snd (foldl (due_one now) acc gcs)) = filter (\<lambda>g. gc_id g = i) (snd acc)"
  by (induction gcs arbitrary: acc) (auto simp: due_one_id)

definition ready :: "instant \<Rightarrow> group_check \<Rightarrow> due_map \<Rightarrow> bool" where
  "ready now gc nxt \<longleftrightarrow> \<not> (\<exists>t. nxt (gc_id gc) = Some t \<and> now < t) \<and> interval_or_default (gc_check gc) \<noteq> None"

lemma due_key:
  assumes "distinct (map gc_id (all_checks cfg))" and "gc \<in> set (all_checks cfg)"
  shows "filter (\<lambda>g. gc_id g = gc_id gc) (fst (due cfg now nxt)) = (if ready now gc nxt then [gc] else [])"
    and "snd (due cfg now nxt) (gc_id gc) =
      (if ready now gc nxt then Some (now + the (interval_or_default (gc_check gc))) else nxt (gc_id gc))"
proof -
  from assms(2) obtain xs ys where rs: "all_checks cfg = xs @ gc # ys" by (auto simp: in_set_conv_decomp)
  with assms(1) have "\<forall>g\<in>set xs. gc_id g \<noteq> gc_id gc" "\<forall>g\<in>set ys. gc_id g \<noteq> gc_id gc"
    by (auto simp: rs) (metis imageI)+
  note o = this [THEN due_fold_other]
  show "filter (\<lambda>g. gc_id g = gc_id gc) (fst (due cfg now nxt)) = (if ready now gc nxt then [gc] else [])"
    using o by (simp add: due_def case_prod_beta rs due_one_id ready_def)
  show "snd (due cfg now nxt) (gc_id gc) =
      (if ready now gc nxt then Some (now + the (interval_or_default (gc_check gc))) else nxt (gc_id gc))"
    using o by (auto simp: due_def case_prod_beta rs due_one_id ready_def forget_gone_def)
qed

lemma due_forgets: "i \<notin> set (map gc_id (all_checks cfg)) \<Longrightarrow> snd (due cfg now nxt) i = None"
  by (simp add: due_def case_prod_beta forget_gone_def)

section \<open>Runs\<close>

text \<open>Ticks with the configuration each one reads, latest first; the log of one check is the
  instants it ran at with the interval it then had.\<close>

fun next_after :: "(health_config \<times> instant) list \<Rightarrow> due_map" where
  "next_after [] = Map.empty"
| "next_after ((cfg, now) # ticks) = snd (due cfg now (next_after ticks))"

fun run_log :: "string \<Rightarrow> (health_config \<times> instant) list \<Rightarrow> (instant \<times> duration) list" where
  "run_log i [] = []"
| "run_log i ((cfg, now) # ticks) =
     map (\<lambda>g. (now, the (interval_or_default (gc_check g))))
       (filter (\<lambda>g. gc_id g = i) (fst (due cfg now (next_after ticks)))) @ run_log i ticks"

fun spaced :: "(instant \<times> duration) list \<Rightarrow> bool" where
  "spaced ((b, e) # (a, d) # rest) = (a + d \<le> b \<and> spaced ((a, d) # rest))"
| "spaced rest = True"

definition keeps :: "string \<Rightarrow> (health_config \<times> instant) list \<Rightarrow> bool" where
  "keeps i ticks \<longleftrightarrow> (\<forall>(cfg, _)\<in>set ticks. distinct (map gc_id (all_checks cfg)) \<and> i \<in> set (map gc_id (all_checks cfg)))"

lemma run_log_inv:
  "keeps i ticks \<Longrightarrow>
     spaced (run_log i ticks) \<and> next_after ticks i = (case run_log i ticks of [] \<Rightarrow> None | (a, d) # _ \<Rightarrow> Some (a + d))"
proof (induction ticks)
  case (Cons x ticks)
  obtain cfg now where x: "x = (cfg, now)" by (cases x)
  from Cons.prems obtain gc where gc: "gc \<in> set (all_checks cfg)" "gc_id gc = i"
    and dist: "distinct (map gc_id (all_checks cfg))" and rest: "keeps i ticks"
    by (auto simp: keeps_def x)
  from Cons.IH [OF rest] due_key [OF dist gc(1), of now "next_after ticks"] gc(2)
  show ?case
    by (cases "run_log i ticks") (auto simp: x ready_def)
qed simp

section \<open>Properties\<close>

text \<open>Checks are paced: over any sequence of ticks whose configurations have distinct
  check ids and all hold the check, two consecutive runs are at least the interval apart that
  the check had at the earlier one, reloads of the configuration included; a tick runs a
  check with a valid interval as soon as that time has passed, and at the first tick when it
  never ran.\<close>

theorem checks_paced:
  assumes "keeps (gc_id gc) ((cfg, now) # ticks)" and "gc \<in> set (all_checks cfg)"
    and "interval_or_default (gc_check gc) = Some d"
  shows "spaced (run_log (gc_id gc) ((cfg, now) # ticks)) \<and>
    (gc \<in> set (fst (due cfg now (next_after ticks))) \<longleftrightarrow>
      (case run_log (gc_id gc) ticks of [] \<Rightarrow> True | (a, d') # _ \<Rightarrow> a + d' \<le> now))"
proof -
  have dist: "distinct (map gc_id (all_checks cfg))" and rest: "keeps (gc_id gc) ticks"
    using assms(1) by (auto simp: keeps_def)
  have "gc \<in> set (fst (due cfg now (next_after ticks))) \<longleftrightarrow>
      gc \<in> set (filter (\<lambda>g. gc_id g = gc_id gc) (fst (due cfg now (next_after ticks))))"
    by simp
  also have "\<dots> \<longleftrightarrow> ready now gc (next_after ticks)" using due_key(1) [OF dist assms(2)] by simp
  also have "\<dots> \<longleftrightarrow> (case run_log (gc_id gc) ticks of [] \<Rightarrow> True | (a, d') # _ \<Rightarrow> a + d' \<le> now)"
    using run_log_inv [OF rest] assms(3) by (auto simp: ready_def split: list.splits)
  finally show ?thesis using run_log_inv [OF assms(1)] by blast
qed

theorem checks_paced_witness:
  "let gc = (''g'', ''T1'', \<lparr>ck_id = ''c'', ck_url = [], ck_interval = [], ck_expect = \<lparr>ex_status = 0, ex_max_latency = []\<rparr>\<rparr>);
       cfg = default_config\<lparr>hc_groups := [\<lparr>grp_name = ''g'', grp_tier = ''T1'',
         grp_selector = \<lparr>sel_namespaces = [], sel_services = []\<rparr>, grp_checks = [snd (snd gc)]\<rparr>]\<rparr>
   in gc \<notin> set (fst (due cfg (59 * second) (next_after [(cfg, 0)]))) \<and> run_log ''c'' [(cfg, 0)] = [(0, 60 * second)]"
  (is "let gc = ?gc; cfg = ?cfg gc in ?P gc cfg")
proof -
  let ?c = "?cfg ?gc"
  have mem: "?gc \<in> set (all_checks ?c)" by code_simp
  have iv: "interval_or_default (gc_check ?gc) = Some (60 * second)" by code_simp
  have keeps: "keeps (gc_id ?gc) [(?c, 59 * second), (?c, 0)]"
    by code_simp
  have log: "run_log ''c'' [(?c, 0)] = [(0, 60 * second)]" by code_simp
  have id: "gc_id ?gc = ''c''" by (simp add: gc_id_def)
  have "?gc \<in> set (fst (due ?c (59 * second) (next_after [(?c, 0)]))) \<longleftrightarrow>
      (case run_log (gc_id ?gc) [(?c, 0)] of [] \<Rightarrow> True | (a, d') # _ \<Rightarrow> a + d' \<le> 59 * second)"
    using checks_paced [OF keeps mem iv] by (rule conjunct2)
  with log id have "?gc \<notin> set (fst (due ?c (59 * second) (next_after [(?c, 0)])))"
    by (simp add: duration_defs)
  with log show ?thesis unfolding Let_def by blast
qed

text \<open>A check that disappears from the configuration is forgotten, and the state never
  holds more ids than the configuration of the latest tick declares.\<close>

theorem schedule_forgets_removed:
  "dom (snd (due cfg now nxt)) \<subseteq> set (map gc_id (all_checks cfg))"
  using due_forgets [of _ cfg now nxt] by (meson domIff subsetI)

text \<open>A probe passes exactly when a response came back with the expected status (any 2xx
  when none is expected) and, where a valid latency expectation is set, within it; a failed
  probe always says why, and a redirect to another host is never followed.\<close>

theorem probe_verdict:
  "(pb_ok (probe tenant t start finish outcome gc) \<longleftrightarrow>
     (\<exists>code. outcome = Response code \<and>
       (if ex_status (ck_expect (gc_check gc)) = 0 then 200 \<le> code \<and> code \<le> 299
        else code = ex_status (ck_expect (gc_check gc))) \<and>
       (case max_latency_or_zero (gc_check gc) of None \<Rightarrow> True | Some mx \<Rightarrow> mx \<le> 0 \<or> time_sub finish start \<le> mx))) \<and>
   (pb_ok (probe tenant t start finish outcome gc) \<longleftrightarrow> pb_error (probe tenant t start finish outcome gc) = NoError) \<and>
   (check_redirect host (h # via) = Follow \<longleftrightarrow> host = h \<and> length via < 4)"
  by (cases outcome) (auto simp: probe_def Let_def check_redirect_def split: option.splits)

end
