(* ===== verification/OAuthProtocol.thy ===== *)
theory OAuthProtocol
  imports GoStd
begin

text \<open>
  The protocol half of the authorization server (hub/internal/oauth): scopes and resource
  identifiers, redirect URIs, PKCE, client registration, the authorize request and the
  discovery documents. A query is a map from names to the list of their values, read by its
  first value. SHA-256 followed by raw URL base64 is the argument \<open>s256\<close> of \<open>verify_pkce\<close>.
  Error descriptions are constructors of \<open>oauth_reason\<close>.
\<close>

section \<open>Errors\<close>

datatype oauth_code =
    InvalidRequest | InvalidClient | InvalidGrant | UnauthorizedClient | UnsupportedGrantType
  | InvalidScope | AccessDenied | ServerError | InvalidClientMetadata | InvalidRedirectUri
  | UnsupportedResponseType

datatype oauth_reason =
    ClientIdRequired | UnknownClientId | RedirectRequired | RedirectMismatch | OnlyCode | MustBeS256
  | BadChallenge | NoIssuedScope | ReadScopeRequired | OtherResource
  | ClientNameRequired | ClientNameTooLong | NoRedirectUris | TooManyRedirectUris | BadRedirectUri
  | OnlyNoneAuth | BadGrantType string | BadResponseType string | Text string

type_synonym oauth_error = "oauth_code \<times> oauth_reason"

definition redirectable :: "oauth_code \<Rightarrow> bool" where
  "redirectable c \<longleftrightarrow> c \<noteq> InvalidClient \<and> c \<noteq> InvalidRedirectUri \<and> c \<noteq> InvalidClientMetadata"

section \<open>Scopes, resources and redirect URIs\<close>

definition scope_mcp_read :: string where "scope_mcp_read = ''mcp:read''"

definition scope_offline :: string where "scope_offline = ''offline_access''"

definition access_token_ttl :: duration where "access_token_ttl = 15 * minute"

definition refresh_token_ttl :: duration where "refresh_token_ttl = 30 * 24 * 60 * minute"

definition auth_code_ttl :: duration where "auth_code_ttl = 60 * second"

definition issuer :: "string \<Rightarrow> string" where
  "issuer public = trim_suffix ''/'' (trim_space public)"

definition resource_uri :: "string \<Rightarrow> string" where
  "resource_uri public = (let base = trim_suffix ''/'' (trim_space public) in if base = [] then [] else base @ ''/mcp'')"

definition valid_redirect_uri :: "string \<Rightarrow> bool" where
  "valid_redirect_uri raw =
     (case url_parse raw of
        None \<Rightarrow> False
      | Some u \<Rightarrow> u_scheme u = ''https'' \<and> u_host u \<noteq> [] \<and> u_fragment u = [] \<and> u_user u = None)"

definition match_redirect_uri :: "string list \<Rightarrow> string \<Rightarrow> bool" where
  "match_redirect_uri registered requested = list_ex (\<lambda>r. r = requested) registered"

definition scope_supported :: "string \<Rightarrow> bool" where
  "scope_supported s \<longleftrightarrow> s = scope_mcp_read \<or> s = scope_offline"

definition normalize_scope :: "string \<Rightarrow> string" where
  "normalize_scope requested = join_with '' '' (dedup (filter scope_supported (str_fields requested)))"

definition has_scope :: "string \<Rightarrow> string \<Rightarrow> bool" where
  "has_scope scope want = list_ex (\<lambda>s. s = want) (str_fields scope)"

section \<open>PKCE\<close>

definition valid_verifier :: "string \<Rightarrow> bool" where
  "valid_verifier v \<longleftrightarrow> 43 \<le> length v \<and> length v \<le> 128"

definition verify_pkce :: "(string \<Rightarrow> string) \<Rightarrow> string \<Rightarrow> string \<Rightarrow> bool" where
  "verify_pkce s256 challenge verifier =
     (if challenge = [] \<or> \<not> valid_verifier verifier then False else s256 verifier = challenge)"

definition valid_challenge :: "string \<Rightarrow> bool" where
  "valid_challenge c = (if length c \<noteq> 43 then False else b64url_decodes c)"

section \<open>Registration\<close>

record registration =
  rg_client_name :: string
  rg_redirect_uris :: "string list"
  rg_grant_types :: "string list"
  rg_response_types :: "string list"
  rg_auth_method :: string
  rg_scope :: string
  rg_software_id :: string
  rg_client_uri :: string
  rg_logo_uri :: string

definition max_redirect_uris :: nat where "max_redirect_uris = 5"

definition max_client_name_len :: nat where "max_client_name_len = 120"

definition max_registration_id :: nat where "max_registration_id = 64"

definition trunc :: "string \<Rightarrow> nat \<Rightarrow> string" where
  "trunc s n = (if n < length s then take n s else s)"

definition validate_registration :: "registration \<Rightarrow> oauth_error + registration" where
  "validate_registration r =
     (let name = trim_space (rg_client_name r)
      in if name = [] then Inl (InvalidClientMetadata, ClientNameRequired)
         else if max_client_name_len < length name then Inl (InvalidClientMetadata, ClientNameTooLong)
         else if rg_redirect_uris r = [] then Inl (InvalidRedirectUri, NoRedirectUris)
         else if max_redirect_uris < length (rg_redirect_uris r) then Inl (InvalidRedirectUri, TooManyRedirectUris)
         else if list_ex (\<lambda>u. \<not> valid_redirect_uri u) (rg_redirect_uris r) then Inl (InvalidRedirectUri, BadRedirectUri)
         else if rg_auth_method r \<noteq> [] \<and> rg_auth_method r \<noteq> ''none'' then Inl (InvalidClientMetadata, OnlyNoneAuth)
         else case find (\<lambda>g. g \<noteq> ''authorization_code'' \<and> g \<noteq> ''refresh_token'') (rg_grant_types r) of
           Some g \<Rightarrow> Inl (InvalidClientMetadata, BadGrantType g)
         | None \<Rightarrow>
             (case find (\<lambda>t. t \<noteq> ''code'') (rg_response_types r) of
                Some t \<Rightarrow> Inl (InvalidClientMetadata, BadResponseType t)
              | None \<Rightarrow>
                  Inr \<lparr>rg_client_name = name, rg_redirect_uris = rg_redirect_uris r,
                    rg_grant_types = [''authorization_code'', ''refresh_token''], rg_response_types = [''code''],
                    rg_auth_method = ''none'',
                    rg_scope = (if normalize_scope (rg_scope r) = [] then scope_mcp_read else normalize_scope (rg_scope r)),
                    rg_software_id = trunc (rg_software_id r) max_registration_id,
                    rg_client_uri = trunc (rg_client_uri r) 512, rg_logo_uri = trunc (rg_logo_uri r) 512\<rparr>))"

section \<open>The authorize request\<close>

type_synonym query = "string \<rightharpoonup> string list"

definition q_get :: "query \<Rightarrow> string \<Rightarrow> string" where
  "q_get q k = (case q k of Some (v # _) \<Rightarrow> v | _ \<Rightarrow> [])"

record authorize_request =
  az_client_id :: string
  az_redirect_uri :: string
  az_state :: string
  az_scope :: string
  az_resource :: string
  az_challenge :: string

definition authorize_values :: "authorize_request \<Rightarrow> query" where
  "authorize_values a =
     (let v = [''client_id'' \<mapsto> [az_client_id a], ''redirect_uri'' \<mapsto> [az_redirect_uri a],
        ''response_type'' \<mapsto> [''code''], ''code_challenge'' \<mapsto> [az_challenge a],
        ''code_challenge_method'' \<mapsto> [''S256''], ''scope'' \<mapsto> [az_scope a], ''resource'' \<mapsto> [az_resource a]]
      in if az_state a \<noteq> [] then v(''state'' \<mapsto> [az_state a]) else v)"

text \<open>\<open>registered\<close> is \<open>None\<close> for an unknown client, the nil slice of the code.\<close>

definition parse_authorize :: "query \<Rightarrow> string list option \<Rightarrow> string \<Rightarrow> oauth_error + authorize_request" where
  "parse_authorize q registered canonical =
     (let client = trim_space (q_get q ''client_id''); redirect = q_get q ''redirect_uri'';
          challenge = q_get q ''code_challenge''; scope0 = normalize_scope (q_get q ''scope'');
          scope = (if scope0 = [] then scope_mcp_read else scope0);
          res0 = trim_space (q_get q ''resource''); res = (if res0 = [] then canonical else res0)
      in if client = [] then Inl (InvalidClient, ClientIdRequired)
         else case registered of
           None \<Rightarrow> Inl (InvalidClient, UnknownClientId)
         | Some uris \<Rightarrow>
             if redirect = [] then Inl (InvalidRedirectUri, RedirectRequired)
             else if \<not> match_redirect_uri uris redirect then Inl (InvalidRedirectUri, RedirectMismatch)
             else if q_get q ''response_type'' \<noteq> ''code'' then Inl (UnsupportedResponseType, OnlyCode)
             else if q_get q ''code_challenge_method'' \<noteq> ''S256'' then Inl (InvalidRequest, MustBeS256)
             else if \<not> valid_challenge challenge then Inl (InvalidRequest, BadChallenge)
             else if str_fields (q_get q ''scope'') \<noteq> [] \<and> scope0 = [] then Inl (InvalidScope, NoIssuedScope)
             else if \<not> has_scope scope scope_mcp_read then Inl (InvalidScope, ReadScopeRequired)
             else if res \<noteq> canonical then Inl (InvalidRequest, OtherResource)
             else Inr \<lparr>az_client_id = client, az_redirect_uri = redirect, az_state = q_get q ''state'',
               az_scope = scope, az_resource = res, az_challenge = challenge\<rparr>)"

section \<open>Discovery\<close>

record protected_resource =
  pr_resource :: string
  pr_authorization_servers :: "string list"
  pr_scopes :: "string list"
  pr_bearer_methods :: "string list"
  pr_name :: string

record authorization_server =
  as_issuer :: string
  as_authorization_endpoint :: string
  as_token_endpoint :: string
  as_registration_endpoint :: string
  as_revocation_endpoint :: string
  as_response_types :: "string list"
  as_grant_types :: "string list"
  as_challenge_methods :: "string list"
  as_auth_methods :: "string list"
  as_scopes :: "string list"

definition path_authorize :: string where "path_authorize = ''/api/v1/auth/oauth/authorize''"

definition path_token :: string where "path_token = ''/api/v1/auth/oauth/token''"

definition path_register :: string where "path_register = ''/api/v1/auth/oauth/register''"

definition path_revoke :: string where "path_revoke = ''/api/v1/auth/oauth/revoke''"

definition new_protected_resource :: "string \<Rightarrow> protected_resource" where
  "new_protected_resource public =
     \<lparr>pr_resource = resource_uri public, pr_authorization_servers = [issuer public],
      pr_scopes = [scope_mcp_read], pr_bearer_methods = [''header''], pr_name = ''Avuru Obs''\<rparr>"

definition new_authorization_server :: "string \<Rightarrow> bool \<Rightarrow> authorization_server" where
  "new_authorization_server public dynamic =
     (let base = issuer public
      in \<lparr>as_issuer = base, as_authorization_endpoint = base @ path_authorize,
          as_token_endpoint = base @ path_token,
          as_registration_endpoint = (if dynamic then base @ path_register else []),
          as_revocation_endpoint = base @ path_revoke, as_response_types = [''code''],
          as_grant_types = [''authorization_code'', ''refresh_token''], as_challenge_methods = [''S256''],
          as_auth_methods = [''none''], as_scopes = [scope_mcp_read, scope_offline]\<rparr>)"

section \<open>Scopes\<close>

text \<open>The scope strings this server stores: each supported scope at most once.\<close>

definition scope_words :: "string list list" where
  "scope_words = [[], [scope_mcp_read], [scope_offline], [scope_mcp_read, scope_offline], [scope_offline, scope_mcp_read]]"

lemma normal_words:
  assumes "distinct ws" and "\<forall>w\<in>set ws. scope_supported w"
  shows "ws \<in> set scope_words"
proof (cases ws)
  case (Cons a r)
  then show ?thesis
  proof (cases r)
    case (Cons b t)
    with assms \<open>ws = a # r\<close> show ?thesis
      by (cases t) (auto simp: scope_words_def scope_supported_def)
  qed (use assms Cons in \<open>auto simp: scope_words_def scope_supported_def\<close>)
qed (simp add: scope_words_def)

lemma fields_scope_words: "\<forall>ws\<in>set scope_words. str_fields (join_with '' '' ws) = ws"
  by code_simp

lemma normalize_words: "\<exists>ws\<in>set scope_words. normalize_scope s = join_with '' '' ws \<and> str_fields (normalize_scope s) = ws"
proof -
  have "dedup (filter scope_supported (str_fields s)) \<in> set scope_words" by (rule normal_words) auto
  with fields_scope_words show ?thesis by (auto simp: normalize_scope_def)
qed

lemma dedup_scope_words: "\<forall>ws\<in>set scope_words. dedup (filter scope_supported ws) = ws"
  by code_simp

lemma normalize_normal: "normalize_scope (normalize_scope s) = normalize_scope s"
proof -
  from normalize_words [of s] obtain ws where "ws \<in> set scope_words" "str_fields (normalize_scope s) = ws"
    "normalize_scope s = join_with '' '' ws" by blast
  with dedup_scope_words show ?thesis by (simp add: normalize_scope_def)
qed

lemma normalize_empty: "normalize_scope s = [] \<longleftrightarrow> str_fields (normalize_scope s) = []"
proof -
  have "\<forall>ws\<in>set scope_words. (join_with '' '' ws = []) = (ws = [])" by code_simp
  with normalize_words [of s] show ?thesis by metis
qed

lemma normalize_read: "normalize_scope scope_mcp_read = scope_mcp_read" by code_simp

lemma resource_uri_trimmed: "trimmed (resource_uri public)"
proof (cases "resource_uri public = []")
  case False
  define b where "b = trim_suffix ''/'' (trim_space public)"
  from False have b: "b \<noteq> []" and r: "resource_uri public = b @ ''/mcp''"
    by (auto simp: resource_uri_def b_def Let_def split: if_splits)
  obtain n where n: "b = take n (trim_space public)"
    by (cases "has_suffix ''/'' (trim_space public)") (auto simp: b_def trim_suffix_def intro: that [of "length (trim_space public)"])
  have "trim_space public \<noteq> []" using b n by auto
  then have "space_at (trim_space public) = 0" using trimmed_trim_space [of public] by (simp add: trimmed_def)
  then have nb: "\<not> has_prefix e b" if "e \<in> set space_encodings" for e
    using that has_prefix_take unfolding n space_at_zero by blast
  have slash: "\<forall>e\<in>set space_encodings. CHR ''/'' \<notin> set e \<and> last e \<noteq> CHR ''p''" by code_simp
  have "\<not> has_prefix e (b @ ''/mcp'')" if e: "e \<in> set space_encodings" for e
  proof
    assume "has_prefix e (b @ ''/mcp'')"
    then obtain r where "b @ ''/mcp'' = e @ r" by (auto simp: has_prefix_iff)
    then obtain us where us: "b = e @ us \<or> e = b @ us \<and> ''/mcp'' = us @ r"
      by (auto simp: append_eq_append_conv2)
    have no: "\<nexists>us. b = e @ us" using nb [OF e] by (auto simp: has_prefix_iff)
    with us have e': "e = b @ us" "''/mcp'' = us @ r" by blast+
    with no have "us \<noteq> []" by (metis append_Nil2)
    with e' have "CHR ''/'' \<in> set e" by (cases us) auto
    with slash e show False by blast
  qed
  moreover have "\<not> has_suffix e (b @ ''/mcp'')" if e: "e \<in> set space_encodings" for e
  proof
    assume "has_suffix e (b @ ''/mcp'')"
    then obtain r where "b @ ''/mcp'' = r @ e" by (auto simp: has_suffix_iff)
    moreover have "e \<noteq> []" using e by (auto simp: space_encodings_def)
    ultimately have "last e = CHR ''p''" by (metis last_appendR last.simps list.distinct(1))
    with slash e show False by blast
  qed
  ultimately show ?thesis using r by (simp add: trimmed_def space_at_zero space_end_zero)
qed (simp add: trimmed_def)

lemma parse_authorize_ok:
  assumes "parse_authorize q registered canonical = Inr a"
  shows "\<exists>uris. registered = Some uris \<and> az_redirect_uri a \<in> set uris \<and> az_redirect_uri a \<noteq> [] \<and>
    trimmed (az_client_id a) \<and> az_client_id a \<noteq> [] \<and> az_resource a = canonical \<and> valid_challenge (az_challenge a) \<and>
    (\<exists>s. az_scope a = normalize_scope s) \<and> az_scope a \<noteq> [] \<and> has_scope (az_scope a) scope_mcp_read"
  using assms normalize_read
  by (auto simp: parse_authorize_def Let_def match_redirect_uri_def list_ex_iff scope_mcp_read_def
      split: option.splits if_splits) (metis normalize_read scope_mcp_read_def)+

section \<open>Properties\<close>

text \<open>The request the witnesses make.\<close>

definition sample_query :: query where
  "sample_query = [''client_id'' \<mapsto> ['' c1 ''], ''redirect_uri'' \<mapsto> [''https://app/cb''], ''response_type'' \<mapsto> [''code''],
     ''code_challenge'' \<mapsto> [replicate 43 CHR ''a''], ''code_challenge_method'' \<mapsto> [''S256''],
     ''scope'' \<mapsto> [''mcp:read admin''], ''state'' \<mapsto> [''s'']]"

definition sample_request :: authorize_request where
  "sample_request = \<lparr>az_client_id = ''c1'', az_redirect_uri = ''https://app/cb'', az_state = ''s'',
     az_scope = ''mcp:read'', az_resource = ''https://h/mcp'', az_challenge = replicate 43 CHR ''a''\<rparr>"

text \<open>A scope this server does not issue is dropped, not reported, as long as another one is
  issued.\<close>

lemma unknown_scope_ignored:
  "parse_authorize sample_query (Some [''https://app/cb'']) (resource_uri ''https://h/'') = Inr sample_request"
  by code_simp

text \<open>No open redirect: an authorize error may be reported by redirecting only when the
  requested redirect URI is, exactly, one that the client registered; an accepted request
  goes to such a URI too, carries a well-formed challenge, this server's own resource, and a
  scope holding the read scope and nothing this server does not issue.\<close>

theorem authorize_redirects_registered:
  "case parse_authorize q registered canonical of
     Inl (code, _) \<Rightarrow> \<not> redirectable code \<or>
       (\<exists>uris. registered = Some uris \<and> q_get q ''redirect_uri'' \<in> set uris)
   | Inr a \<Rightarrow> az_redirect_uri a = q_get q ''redirect_uri'' \<and>
       (\<exists>uris. registered = Some uris \<and> az_redirect_uri a \<in> set uris) \<and>
       valid_challenge (az_challenge a) \<and> az_resource a = canonical \<and>
       scope_mcp_read \<in> set (str_fields (az_scope a)) \<and> (\<forall>s\<in>set (str_fields (az_scope a)). scope_supported s)"
proof (cases "parse_authorize q registered canonical")
  case (Inl e)
  then show ?thesis
    by (auto simp: parse_authorize_def Let_def match_redirect_uri_def list_ex_iff redirectable_def
        split: option.splits if_splits)
next
  case (Inr a)
  have words: "\<forall>ws\<in>set scope_words. \<forall>w\<in>set ws. scope_supported w" by code_simp
  from Inr have "az_redirect_uri a = q_get q ''redirect_uri''"
    by (auto simp: parse_authorize_def Let_def split: option.splits if_splits)
  with Inr parse_authorize_ok [OF Inr] normalize_words words show ?thesis
    by (auto simp: has_scope_def list_ex_iff)
qed

theorem authorize_redirects_registered_witness:
  "''https://app/cb'' \<in> set [''https://app/cb''] \<and> valid_challenge (az_challenge sample_request) \<and>
   \<not> redirectable InvalidRedirectUri \<and>
   parse_authorize sample_query (Some [''https://other/'']) (resource_uri ''https://h/'') = Inl (InvalidRedirectUri, RedirectMismatch)"
  using authorize_redirects_registered [where q = sample_query and registered = "Some [''https://app/cb'']"
      and canonical = "resource_uri ''https://h/''"]
  unfolding unknown_scope_ignored
  by (auto simp: redirectable_def) code_simp

text \<open>What was shown is what is decided: the query a consent page carries forward parses,
  against the same registration and server, back to the very request it was made from.\<close>

theorem authorize_round_trip:
  assumes "parse_authorize q registered (resource_uri public) = Inr a"
  shows "parse_authorize (authorize_values a) registered (resource_uri public) = Inr a"
proof -
  from parse_authorize_ok [OF assms] obtain uris s where ok: "registered = Some uris" "az_redirect_uri a \<in> set uris"
    "az_redirect_uri a \<noteq> []" "trimmed (az_client_id a)" "az_client_id a \<noteq> []" "az_resource a = resource_uri public"
    "valid_challenge (az_challenge a)" "az_scope a = normalize_scope s" "az_scope a \<noteq> []"
    "has_scope (az_scope a) scope_mcp_read" by blast
  have get: "q_get (authorize_values a) ''client_id'' = az_client_id a"
    "q_get (authorize_values a) ''redirect_uri'' = az_redirect_uri a"
    "q_get (authorize_values a) ''response_type'' = ''code''"
    "q_get (authorize_values a) ''code_challenge'' = az_challenge a"
    "q_get (authorize_values a) ''code_challenge_method'' = ''S256''"
    "q_get (authorize_values a) ''scope'' = az_scope a" "q_get (authorize_values a) ''resource'' = az_resource a"
    "q_get (authorize_values a) ''state'' = az_state a"
    by (simp_all add: q_get_def authorize_values_def Let_def)
  have "normalize_scope (az_scope a) = az_scope a" using ok(8) normalize_normal by simp
  with ok show ?thesis
    unfolding parse_authorize_def get Let_def
    by (auto simp: match_redirect_uri_def list_ex_iff resource_uri_trimmed)
qed

theorem authorize_round_trip_witness:
  "parse_authorize (authorize_values sample_request) (Some [''https://app/cb'']) (resource_uri ''https://h/'') = Inr sample_request"
  by (rule authorize_round_trip [OF unknown_scope_ignored])

text \<open>A stored registration is safe to redirect to: whatever a client sends, what passes
  validation has one to five redirect URIs, all absolute HTTPS without fragment or user
  information, a trimmed non-empty name within its bound, only issued scopes, and the public
  client shape; nothing about its grants or authentication is taken from the request.\<close>

theorem registration_sound:
  assumes "validate_registration r = Inr out"
  shows "rg_redirect_uris out = rg_redirect_uris r \<and> (\<forall>u\<in>set (rg_redirect_uris out). valid_redirect_uri u) \<and>
    1 \<le> length (rg_redirect_uris out) \<and> length (rg_redirect_uris out) \<le> 5 \<and>
    rg_client_name out \<noteq> [] \<and> trimmed (rg_client_name out) \<and> length (rg_client_name out) \<le> 120 \<and>
    (\<exists>ws\<in>set scope_words. ws \<noteq> [] \<and> str_fields (rg_scope out) = ws) \<and>
    rg_grant_types out = [''authorization_code'', ''refresh_token''] \<and> rg_auth_method out = ''none'' \<and>
    length (rg_software_id out) \<le> 64 \<and> length (rg_client_uri out) \<le> 512 \<and> length (rg_logo_uri out) \<le> 512"
proof -
  have read: "\<exists>ws\<in>set scope_words. ws \<noteq> [] \<and> str_fields scope_mcp_read = ws" by code_simp
  have scope: "\<exists>ws\<in>set scope_words. ws \<noteq> [] \<and>
      str_fields (if normalize_scope s = [] then scope_mcp_read else normalize_scope s) = ws" for s
    using read normalize_words [of s] normalize_empty [of s] by (cases "normalize_scope s = []") auto
  have cond: "trim_space (rg_client_name r) \<noteq> []" "\<not> max_client_name_len < length (trim_space (rg_client_name r))"
    "rg_redirect_uris r \<noteq> []" "\<not> max_redirect_uris < length (rg_redirect_uris r)"
    "\<not> list_ex (\<lambda>u. \<not> valid_redirect_uri u) (rg_redirect_uris r)"
    and out: "rg_redirect_uris out = rg_redirect_uris r" "rg_client_name out = trim_space (rg_client_name r)"
      "rg_grant_types out = [''authorization_code'', ''refresh_token'']" "rg_auth_method out = ''none''"
      "rg_scope out = (if normalize_scope (rg_scope r) = [] then scope_mcp_read else normalize_scope (rg_scope r))"
      "rg_software_id out = trunc (rg_software_id r) max_registration_id"
      "rg_client_uri out = trunc (rg_client_uri r) 512" "rg_logo_uri out = trunc (rg_logo_uri r) 512"
    using assms by (simp_all add: validate_registration_def Let_def split: if_splits option.splits, auto)
  have "length (trunc x n) \<le> n" for x n by (simp add: trunc_def)
  moreover have "1 \<le> length (rg_redirect_uris r)" using cond(3) by (simp add: Suc_le_eq)
  moreover have "\<forall>u\<in>set (rg_redirect_uris r). valid_redirect_uri u" using cond(5) by (simp add: list_ex_iff)
  ultimately show ?thesis
    using cond scope [of "rg_scope r"] unfolding out
    by (simp add: max_client_name_len_def max_redirect_uris_def max_registration_id_def)
qed

theorem registration_sound_witness:
  "\<exists>out. validate_registration \<lparr>rg_client_name = '' app '', rg_redirect_uris = [''https://app/cb''], rg_grant_types = [],
      rg_response_types = [], rg_auth_method = [], rg_scope = ''admin'', rg_software_id = [], rg_client_uri = [],
      rg_logo_uri = []\<rparr> = Inr out \<and> rg_auth_method out = ''none'' \<and> (\<forall>u\<in>set (rg_redirect_uris out). valid_redirect_uri u)"
  (is "\<exists>out. ?v = Inr out \<and> _")
proof -
  have "case ?v of Inl e \<Rightarrow> False | Inr out \<Rightarrow> True" by code_simp
  then obtain out where "?v = Inr out" by (auto split: sum.splits)
  with registration_sound [OF this] show ?thesis by blast
qed

end
