(* ===== verification/AuthStore.thy ===== *)
theory AuthStore
  imports Roles "HOL-Library.Product_Lexorder"
begin

text \<open>
  The store as the auth code sees it (hub/internal/storage/clickhouse/auth.go, authtoken.go
  and oauth.go), with the rows of the project and ingest-key tables (their operations are in
  ProjectStore). Every table is a ReplacingMergeTree read with FINAL, so a table is modelled
  by the newest row per key, an association list; a tombstone keeps its row with the flag set
  where a query can tell, and drops it where every query filters it out. Each database call
  may fail: \<open>db_faults\<close> says which of the next calls do (none when it is empty), and a call
  that fails leaves the tables as they were; a write that is applied although its answer is lost
  is not modelled. SQL's \<open>now64\<close> is the argument \<open>now\<close>.
\<close>

section \<open>Rows\<close>

record auth_user =
  us_id :: string
  us_email :: string
  us_name :: string
  us_hash :: string
  us_origin :: string
  us_disabled :: bool
  us_groups :: "string list"

record auth_session =
  se_user :: string
  se_created :: instant
  se_expires :: instant
  se_revoked :: bool

record auth_token =
  tk_user :: string
  tk_name :: string
  tk_prefix :: string
  tk_expires :: instant
  tk_last_used :: instant
  tk_revoked :: bool
  tk_created :: instant

record oauth_client =
  oc_id :: string
  oc_name :: string
  oc_redirects :: "string list"
  oc_grant_types :: "string list"
  oc_auth_method :: string
  oc_secret_hash :: string
  oc_scope :: string
  oc_software_id :: string
  oc_client_uri :: string
  oc_logo_uri :: string
  oc_registered_ip :: string
  oc_last_used :: instant
  oc_revoked :: bool
  oc_created :: instant

record oauth_grant =
  gr_id :: string
  gr_client :: string
  gr_user :: string
  gr_scope :: string
  gr_project :: string
  gr_resource :: string
  gr_revoked :: bool
  gr_created :: instant

record oauth_auth_code =
  co_client :: string
  co_user :: string
  co_grant :: string
  co_redirect :: string
  co_resource :: string
  co_scope :: string
  co_project :: string
  co_challenge :: string
  co_expires :: instant
  co_consumed :: bool
  co_created :: instant

record oauth_token =
  ot_kind :: string
  ot_grant :: string
  ot_client :: string
  ot_user :: string
  ot_resource :: string
  ot_scope :: string
  ot_project :: string
  ot_expires :: instant
  ot_last_used :: instant
  ot_revoked :: bool
  ot_created :: instant

record project =
  pj_id :: string
  pj_label :: string
  pj_members :: "string list"
  pj_retention :: int
  pj_created_by :: string
  pj_created :: instant

record ingest_key =
  ik_project :: string
  ik_name :: string
  ik_prefix :: string
  ik_created_by :: string
  ik_revoked :: bool
  ik_created :: instant

record auth_db =
  db_up :: bool
  db_faults :: "bool list"
  db_users :: "(string \<times> auth_user) list"
  db_grants :: "(string \<times> (string \<times> string) list) list"
  db_sessions :: "(string \<times> auth_session) list"
  db_tokens :: "(string \<times> auth_token) list"
  db_clients :: "(string \<times> oauth_client) list"
  db_consents :: "(string \<times> oauth_grant) list"
  db_codes :: "(string \<times> oauth_auth_code) list"
  db_oauth :: "(string \<times> oauth_token) list"
  db_projects :: "(string \<times> project) list"
  db_ingest :: "(string \<times> ingest_key) list"

definition empty_db :: auth_db where
  "empty_db = \<lparr>db_up = True, db_faults = [], db_users = [], db_grants = [], db_sessions = [], db_tokens = [],
     db_clients = [], db_consents = [], db_codes = [], db_oauth = [], db_projects = [], db_ingest = []\<rparr>"

section \<open>Calls\<close>

datatype store_error = NotFound | StoreFailed

type_synonym 'a db_op = "auth_db \<Rightarrow> (store_error + 'a) \<times> auth_db"

definition db_call :: "auth_db \<Rightarrow> bool \<times> auth_db" where
  "db_call db = (case db_faults db of [] \<Rightarrow> (True, db) | f # fs \<Rightarrow> (\<not> f, db\<lparr>db_faults := fs\<rparr>))"

definition db_query :: "(auth_db \<Rightarrow> store_error + 'a) \<Rightarrow> 'a db_op" where
  "db_query f db = (case db_call db of (ok, db1) \<Rightarrow> (if ok then f db1 else Inl StoreFailed, db1))"

definition db_exec :: "(auth_db \<Rightarrow> auth_db) \<Rightarrow> unit db_op" where
  "db_exec f db = (case db_call db of (ok, db1) \<Rightarrow> if ok then (Inr (), f db1) else (Inl StoreFailed, db1))"

definition db_then :: "(auth_db \<Rightarrow> ('e + 'a) \<times> auth_db) \<Rightarrow> ('a \<Rightarrow> auth_db \<Rightarrow> ('e + 'b) \<times> auth_db) \<Rightarrow>
    auth_db \<Rightarrow> ('e + 'b) \<times> auth_db" where
  "db_then m k db = (case m db of (Inl e, db1) \<Rightarrow> (Inl e, db1) | (Inr x, db1) \<Rightarrow> k x db1)"

definition db_fail :: "'e \<Rightarrow> auth_db \<Rightarrow> ('e + 'a) \<times> auth_db" where
  "db_fail e db = (Inl e, db)"

definition db_return :: "'a \<Rightarrow> auth_db \<Rightarrow> ('e + 'a) \<times> auth_db" where
  "db_return x db = (Inr x, db)"

definition found :: "'a option \<Rightarrow> store_error + 'a" where
  "found x = (case x of None \<Rightarrow> Inl NotFound | Some y \<Rightarrow> Inr y)"

text \<open>Stored instants. A batch keeps milliseconds, a bound argument whole seconds; \<open>toCH\<close> also
  keeps the zero time as the Unix epoch.\<close>

definition to_ms :: "instant \<Rightarrow> instant" where
  "to_ms t = t - t mod millisecond"

definition to_sec :: "instant \<Rightarrow> instant" where
  "to_sec t = t - t mod second"

definition ch_epoch :: instant where
  "ch_epoch = 62135596800 * second"

definition to_ch :: "instant \<Rightarrow> instant" where
  "to_ch t = (if t = zero_time then ch_epoch else to_sec t)"

definition from_ch :: "instant \<Rightarrow> instant" where
  "from_ch t = (if t = zero_time \<or> t = ch_epoch \<or> (t - ch_epoch) div second \<le> 0 then zero_time else t)"

section \<open>Users and grants\<close>

definition get_auth_user :: "string \<Rightarrow> auth_user db_op" where
  "get_auth_user i = db_query (\<lambda>db. found (map_of (db_users db) i))"

text \<open>Local rows first, then the lowest id.\<close>

definition get_auth_user_by_email :: "string \<Rightarrow> auth_user db_op" where
  "get_auth_user_by_email email = db_query (\<lambda>db.
     (case sort_key (\<lambda>u. (us_origin u \<noteq> ''local'', us_id u)) (filter (\<lambda>u. us_email u = email) (map snd (db_users db))) of
        [] \<Rightarrow> Inl NotFound | u # _ \<Rightarrow> Inr u))"

definition list_auth_users :: "auth_user list db_op" where
  "list_auth_users = db_query (\<lambda>db. Inr (sort_key us_email (map snd (db_users db))))"

definition save_auth_user :: "auth_user \<Rightarrow> unit db_op" where
  "save_auth_user u = db_exec (\<lambda>db. db\<lparr>db_users := AList.update (us_id u) u (db_users db)\<rparr>)"

definition delete_auth_user :: "string \<Rightarrow> unit db_op" where
  "delete_auth_user i =
     db_then (db_query (\<lambda>db. Inr (map_of (db_users db) i \<noteq> None)))
       (\<lambda>n. if \<not> n then db_fail NotFound else db_exec (\<lambda>db. db\<lparr>db_users := AList.delete i (db_users db)\<rparr>))"

definition grants_of :: "auth_db \<Rightarrow> string \<Rightarrow> (string \<times> string) list" where
  "grants_of db i = (case map_of (db_grants db) i of None \<Rightarrow> [] | Some gs \<Rightarrow> gs)"

definition list_auth_grants :: "string \<Rightarrow> (string \<times> string) list db_op" where
  "list_auth_grants i = db_query (\<lambda>db. Inr (sort_key fst (grants_of db i)))"

text \<open>One row per scope: a scope listed twice keeps its last role.\<close>

definition replace_auth_grants :: "string \<Rightarrow> (string \<times> string) list \<Rightarrow> unit db_op" where
  "replace_auth_grants i gs =
     db_then (list_auth_grants i)
       (\<lambda>old. if old = [] \<and> gs = [] then db_return ()
         else db_exec (\<lambda>db. db\<lparr>db_grants :=
           AList.update i (fold (\<lambda>(sc, r). AList.update sc r) gs []) (db_grants db)\<rparr>))"

section \<open>Sessions\<close>

definition create_auth_session :: "string \<Rightarrow> auth_session \<Rightarrow> unit db_op" where
  "create_auth_session h s = db_exec (\<lambda>db. db\<lparr>db_sessions := AList.update h
     (s\<lparr>se_created := to_ms (se_created s), se_expires := to_ms (se_expires s), se_revoked := False\<rparr>) (db_sessions db)\<rparr>)"

definition live_session :: "instant \<Rightarrow> auth_session \<Rightarrow> bool" where
  "live_session now s \<longleftrightarrow> \<not> se_revoked s \<and> to_ms now < se_expires s"

definition get_auth_session :: "instant \<Rightarrow> string \<Rightarrow> auth_session db_op" where
  "get_auth_session now h = db_query (\<lambda>db.
     (case map_of (db_sessions db) h of
        None \<Rightarrow> Inl NotFound | Some s \<Rightarrow> if live_session now s then Inr s else Inl NotFound))"

definition revoke_auth_session :: "instant \<Rightarrow> string \<Rightarrow> unit db_op" where
  "revoke_auth_session now h =
     db_then (get_auth_session now h)
       (\<lambda>s. db_exec (\<lambda>db. db\<lparr>db_sessions := AList.update h (s\<lparr>se_revoked := True\<rparr>) (db_sessions db)\<rparr>))"

definition revoke_auth_sessions_for_user :: "instant \<Rightarrow> string \<Rightarrow> unit db_op" where
  "revoke_auth_sessions_for_user now i =
     db_then (db_query (\<lambda>db. Inr (filter (\<lambda>(h, s). se_user s = i \<and> live_session now s) (db_sessions db))))
       (\<lambda>live. if live = [] then db_return ()
         else db_exec (\<lambda>db. db\<lparr>db_sessions :=
           fold (\<lambda>(h, s). AList.update h (s\<lparr>se_revoked := True\<rparr>)) live (db_sessions db)\<rparr>))"

section \<open>Personal API tokens\<close>

definition create_auth_token :: "string \<Rightarrow> auth_token \<Rightarrow> unit db_op" where
  "create_auth_token h t = db_exec (\<lambda>db. db\<lparr>db_tokens := AList.update h
     (t\<lparr>tk_expires := to_ch (tk_expires t), tk_last_used := to_ch (tk_last_used t), tk_revoked := False,
        tk_created := to_sec (tk_created t)\<rparr>) (db_tokens db)\<rparr>)"

definition read_auth_token :: "auth_token \<Rightarrow> auth_token" where
  "read_auth_token t = t\<lparr>tk_expires := from_ch (tk_expires t), tk_last_used := from_ch (tk_last_used t)\<rparr>"

definition get_auth_token_by_hash :: "string \<Rightarrow> auth_token db_op" where
  "get_auth_token_by_hash h = db_query (\<lambda>db.
     (case map_of (db_tokens db) h of
        None \<Rightarrow> Inl NotFound | Some t \<Rightarrow> if tk_revoked t then Inl NotFound else Inr (read_auth_token t)))"

definition list_auth_tokens :: "string \<Rightarrow> (string \<times> auth_token) list db_op" where
  "list_auth_tokens i = db_query (\<lambda>db. Inr (sort_key (\<lambda>(h, t). - tk_created t) (sort_key fst
     (map (\<lambda>(h, t). (h, read_auth_token t)) (filter (\<lambda>(h, t). tk_user t = i \<and> \<not> tk_revoked t) (db_tokens db))))))"

definition revoke_auth_token :: "instant \<Rightarrow> string \<Rightarrow> string \<Rightarrow> unit db_op" where
  "revoke_auth_token now i h =
     db_then (db_query (\<lambda>db. Inr (case map_of (db_tokens db) h of
          None \<Rightarrow> None | Some t \<Rightarrow> if tk_user t = i \<and> \<not> tk_revoked t then Some (tk_name t) else None)))
       (\<lambda>n. case n of
          None \<Rightarrow> db_fail NotFound
        | Some name \<Rightarrow> db_exec (\<lambda>db. db\<lparr>db_tokens := AList.update h
            \<lparr>tk_user = i, tk_name = name, tk_prefix = [], tk_expires = ch_epoch, tk_last_used = ch_epoch,
             tk_revoked = True, tk_created = to_ms now\<rparr> (db_tokens db)\<rparr>))"

text \<open>A touch is a read and then a write of the whole row, two calls another request can come
  between.\<close>

definition touch_auth_token :: "string \<Rightarrow> instant \<Rightarrow> unit db_op" where
  "touch_auth_token h t =
     db_then (get_auth_token_by_hash h)
       (\<lambda>cur. db_exec (\<lambda>db. db\<lparr>db_tokens := AList.update h
         (cur\<lparr>tk_expires := to_ch (tk_expires cur), tk_last_used := to_ch t, tk_revoked := False,
            tk_created := to_sec (tk_created cur)\<rparr>) (db_tokens db)\<rparr>))"

section \<open>OAuth clients\<close>

text \<open>\<open>put_client\<close> is the row an insert leaves, with the given tombstone flag.\<close>

definition put_client :: "bool \<Rightarrow> oauth_client \<Rightarrow> auth_db \<Rightarrow> auth_db" where
  "put_client dead c db = db\<lparr>db_clients := AList.update (oc_id c)
     (c\<lparr>oc_last_used := to_ch (oc_last_used c), oc_revoked := dead, oc_created := to_sec (oc_created c)\<rparr>) (db_clients db)\<rparr>"

definition scan_client :: "oauth_client \<Rightarrow> oauth_client" where
  "scan_client c = c\<lparr>oc_last_used := from_ch (oc_last_used c)\<rparr>"

definition create_oauth_client :: "oauth_client \<Rightarrow> unit db_op" where
  "create_oauth_client c = db_exec (put_client False c)"

definition get_oauth_client :: "string \<Rightarrow> oauth_client db_op" where
  "get_oauth_client i = db_query (\<lambda>db.
     (case map_of (db_clients db) i of
        None \<Rightarrow> Inl NotFound | Some c \<Rightarrow> if oc_revoked c then Inl NotFound else Inr (scan_client c)))"

definition list_oauth_clients :: "oauth_client list db_op" where
  "list_oauth_clients = db_query (\<lambda>db. Inr (sort_key (\<lambda>c. - oc_created c) (sort_key oc_id
     (map scan_client (filter (\<lambda>c. \<not> oc_revoked c) (map snd (db_clients db)))))))"

definition revoke_oauth_client :: "string \<Rightarrow> unit db_op" where
  "revoke_oauth_client i = db_then (get_oauth_client i) (\<lambda>c. db_exec (put_client True c))"

section \<open>OAuth grants\<close>

definition put_grant :: "bool \<Rightarrow> oauth_grant \<Rightarrow> auth_db \<Rightarrow> auth_db" where
  "put_grant dead g db = db\<lparr>db_consents := AList.update (gr_id g)
     (g\<lparr>gr_revoked := dead, gr_created := to_sec (gr_created g)\<rparr>) (db_consents db)\<rparr>"

definition create_oauth_grant :: "oauth_grant \<Rightarrow> unit db_op" where
  "create_oauth_grant g = db_exec (put_grant False g)"

definition live_grant :: "auth_db \<Rightarrow> string \<Rightarrow> oauth_grant option" where
  "live_grant db i = (case map_of (db_consents db) i of
     None \<Rightarrow> None | Some g \<Rightarrow> if gr_revoked g then None else Some g)"

definition get_oauth_grant :: "string \<Rightarrow> oauth_grant db_op" where
  "get_oauth_grant i = db_query (\<lambda>db. found (live_grant db i))"

definition list_oauth_grants :: "string \<Rightarrow> oauth_grant list db_op" where
  "list_oauth_grants i = db_query (\<lambda>db. Inr (sort_key (\<lambda>g. - gr_created g) (sort_key gr_id
     (filter (\<lambda>g. gr_user g = i \<and> \<not> gr_revoked g) (map snd (db_consents db))))))"

definition revoke_oauth_grant :: "string \<Rightarrow> string \<Rightarrow> unit db_op" where
  "revoke_oauth_grant user i =
     db_then (get_oauth_grant i)
       (\<lambda>g. if gr_user g \<noteq> user then db_fail NotFound else db_exec (put_grant True g))"

section \<open>Authorization codes\<close>

definition put_code :: "bool \<Rightarrow> string \<Rightarrow> oauth_auth_code \<Rightarrow> auth_db \<Rightarrow> auth_db" where
  "put_code used h c db = db\<lparr>db_codes := AList.update h
     (c\<lparr>co_expires := to_ch (co_expires c), co_consumed := used, co_created := to_sec (co_created c)\<rparr>) (db_codes db)\<rparr>"

definition create_oauth_auth_code :: "string \<Rightarrow> oauth_auth_code \<Rightarrow> unit db_op" where
  "create_oauth_auth_code h c = db_exec (put_code False h c)"

definition stored_code :: "auth_db \<Rightarrow> string \<Rightarrow> oauth_auth_code option" where
  "stored_code db h = map_option (\<lambda>c. c\<lparr>co_expires := from_ch (co_expires c)\<rparr>) (map_of (db_codes db) h)"

definition get_oauth_auth_code :: "string \<Rightarrow> oauth_auth_code db_op" where
  "get_oauth_auth_code h = db_query (\<lambda>db. found (stored_code db h))"

definition consume_oauth_auth_code :: "string \<Rightarrow> unit db_op" where
  "consume_oauth_auth_code h =
     db_then (get_oauth_auth_code h)
       (\<lambda>c. if co_consumed c then db_fail NotFound else db_exec (put_code True h c))"

section \<open>OAuth tokens\<close>

definition put_oauth_token :: "bool \<Rightarrow> string \<Rightarrow> oauth_token \<Rightarrow> auth_db \<Rightarrow> auth_db" where
  "put_oauth_token dead h t db = db\<lparr>db_oauth := AList.update h
     (t\<lparr>ot_expires := to_ch (ot_expires t), ot_last_used := to_ch (ot_last_used t), ot_revoked := dead,
        ot_created := to_sec (ot_created t)\<rparr>) (db_oauth db)\<rparr>"

definition scan_oauth_token :: "oauth_token \<Rightarrow> oauth_token" where
  "scan_oauth_token t = t\<lparr>ot_expires := from_ch (ot_expires t), ot_last_used := from_ch (ot_last_used t)\<rparr>"

definition create_oauth_token :: "string \<Rightarrow> oauth_token \<Rightarrow> unit db_op" where
  "create_oauth_token h t = db_exec (put_oauth_token False h t)"

definition live_oauth_token :: "auth_db \<Rightarrow> string \<Rightarrow> oauth_token option" where
  "live_oauth_token db h = (case map_of (db_oauth db) h of
     None \<Rightarrow> None | Some t \<Rightarrow> if ot_revoked t then None else Some (scan_oauth_token t))"

definition get_oauth_token_by_hash :: "string \<Rightarrow> oauth_token db_op" where
  "get_oauth_token_by_hash h = db_query (\<lambda>db. found (live_oauth_token db h))"

definition tombstone_token :: "string \<Rightarrow> oauth_token \<Rightarrow> unit db_op" where
  "tombstone_token h t = db_exec (put_oauth_token True h t)"

definition revoke_oauth_token :: "string \<Rightarrow> unit db_op" where
  "revoke_oauth_token h = db_then (get_oauth_token_by_hash h) (tombstone_token h)"

text \<open>The loop of \<open>RevokeOAuthTokensForGrant\<close> stops at the first write that fails.\<close>

fun tombstone_all :: "(string \<times> oauth_token) list \<Rightarrow> unit db_op" where
  "tombstone_all [] db = (Inr (), db)"
| "tombstone_all (ht # rest) db =
     db_then (tombstone_token (fst ht) (snd ht)) (\<lambda>_. tombstone_all rest) db"

definition revoke_oauth_tokens_for_grant :: "string \<Rightarrow> unit db_op" where
  "revoke_oauth_tokens_for_grant g =
     db_then (db_query (\<lambda>db. Inr (map (\<lambda>(h, t). (h, scan_oauth_token t))
         (filter (\<lambda>(h, t). ot_grant t = g \<and> \<not> ot_revoked t) (db_oauth db)))))
       tombstone_all"

definition touch_oauth_token :: "string \<Rightarrow> instant \<Rightarrow> unit db_op" where
  "touch_oauth_token h t =
     db_then (get_oauth_token_by_hash h)
       (\<lambda>cur. db_exec (put_oauth_token False h (cur\<lparr>ot_last_used := t\<rparr>)))"

section \<open>What a call can do\<close>

lemma db_callE:
  assumes "db_call db = (ok, db1)"
  obtains fs where "db1 = db\<lparr>db_faults := fs\<rparr>"
proof (cases "db_faults db")
  case Nil
  then have "db1 = db\<lparr>db_faults := db_faults db\<rparr>" using assms by (simp add: db_call_def)
  then show ?thesis by (rule that)
next
  case (Cons f fs)
  then have "db1 = db\<lparr>db_faults := fs\<rparr>" using assms by (auto simp: db_call_def)
  then show ?thesis by (rule that)
qed

lemma db_queryE:
  assumes "db_query f db = (r, db')"
  obtains fs where "db' = db\<lparr>db_faults := fs\<rparr>" "r = f db'" | fs where "db' = db\<lparr>db_faults := fs\<rparr>" "r = Inl StoreFailed"
  using assms by (auto simp: db_query_def elim!: db_callE split: prod.splits if_splits)

lemma db_execE:
  assumes "db_exec f db = (r, db')"
  obtains fs where "db' = f (db\<lparr>db_faults := fs\<rparr>)" "r = Inr ()" | fs where "db' = db\<lparr>db_faults := fs\<rparr>" "r = Inl StoreFailed"
  using assms by (auto simp: db_exec_def elim!: db_callE split: prod.splits if_splits)

lemma db_thenE:
  assumes "db_then m k db = (r, db')"
  obtains x db1 where "m db = (Inr x, db1)" "k x db1 = (r, db')" | e where "m db = (Inl e, db')" "r = Inl e"
  using assms by (auto simp: db_then_def split: prod.splits sum.splits)

lemma db_query_quiet [simp]: "db_faults db = [] \<Longrightarrow> db_query f db = (f db, db)"
  by (simp add: db_query_def db_call_def)

lemma db_exec_quiet [simp]: "db_faults db = [] \<Longrightarrow> db_exec f db = (Inr (), f db)"
  by (simp add: db_exec_def db_call_def)

lemma db_then_Inr [simp]: "m db = (Inr x, db1) \<Longrightarrow> db_then m k db = k x db1"
  by (simp add: db_then_def)

lemma db_then_Inl [simp]: "m db = (Inl e, db1) \<Longrightarrow> db_then m k db = (Inl e, db1)"
  by (simp add: db_then_def)

end
