(* ===== verification/AuthService.thy ===== *)
theory AuthService
  imports AuthStore RateLimit
begin

text \<open>
  The auth core (hub/internal/auth/service.go, password.go, apitoken.go, oauthtoken.go):
  password login, rotation, SSO completion, bootstrap, and the resolution of sessions, API
  tokens and OAuth access tokens to identities. The cryptography is a parameter (\<open>crypto\<close>):
  SHA-256, bcrypt hashing with its salt, and bcrypt comparison. A random token is an argument,
  \<open>None\<close> when the random source fails. One instant stands for the clock readings of a request,
  except around a password check, which takes long: there the limiter has an instant for each
  of its two calls, and \<open>meanwhile\<close> is what other requests do to the tables while bcrypt runs.
\<close>

datatype auth_error =
    InvalidCredentials | TooManyAttempts | StoreUnavailable | ExternalPassword | DemoUser
  | PasswordUnusable | RotatedSessionsLive | RotatedButSignedOut | NoRandomness
  | HashFailed | StoreError store_error

type_synonym 'a auth_op = "auth_db \<Rightarrow> (auth_error + 'a) \<times> auth_db"

record crypto =
  cr_hash_token :: "string \<Rightarrow> string"
  cr_bcrypt :: "string \<Rightarrow> string \<Rightarrow> string option"
  cr_matches :: "string \<Rightarrow> string \<Rightarrow> bool"

record auth_service =
  sv_ttl :: duration
  sv_limiter :: rate_limiter
  sv_mapper :: "(string list \<Rightarrow> grant list) option"

definition new_service :: "duration \<Rightarrow> auth_service" where
  "new_service ttl = \<lparr>sv_ttl = ttl, sv_limiter = new_rate_limiter, sv_mapper = None\<rparr>"

definition set_group_mapper :: "(string list \<Rightarrow> grant list) \<Rightarrow> auth_service \<Rightarrow> auth_service" where
  "set_group_mapper m s = s\<lparr>sv_mapper := Some m\<rparr>"

definition lift_store :: "'a db_op \<Rightarrow> 'a auth_op" where
  "lift_store m db = (case m db of (Inl e, db1) \<Rightarrow> (Inl (StoreError e), db1) | (Inr x, db1) \<Rightarrow> (Inr x, db1))"

definition with_store :: "'a auth_op \<Rightarrow> 'a auth_op" where
  "with_store m db = (if db_up db then m db else (Inl StoreUnavailable, db))"

section \<open>Passwords\<close>

definition hash_password :: "crypto \<Rightarrow> string \<Rightarrow> string \<Rightarrow> string option" where
  "hash_password cr salt pw = cr_bcrypt cr salt pw"

definition check_password :: "crypto \<Rightarrow> string \<Rightarrow> string \<Rightarrow> bool" where
  "check_password cr hash pw = (if hash = [] then False else cr_matches cr hash pw)"

section \<open>Identities and sessions\<close>

definition known_grants :: "(string \<times> string) list \<Rightarrow> grant list" where
  "known_grants rows = map (\<lambda>(sc, r). \<lparr>g_scope = sc, g_role = r\<rparr>) (filter (\<lambda>(sc, r). parse_role r \<noteq> None) rows)"

definition mapped_grants :: "auth_service \<Rightarrow> auth_user \<Rightarrow> grant list" where
  "mapped_grants sv u = (case sv_mapper sv of
     None \<Rightarrow> [] | Some m \<Rightarrow> if us_groups u = [] then [] else m (us_groups u))"

definition identity_for :: "auth_service \<Rightarrow> auth_user \<Rightarrow> identity auth_op" where
  "identity_for sv u =
     db_then (lift_store (list_auth_grants (us_id u)))
       (\<lambda>rows. db_return \<lparr>id_user = us_id u, id_email = us_email u, id_name = us_name u, id_origin = us_origin u,
          id_anonymous = False, id_grants = known_grants rows @ mapped_grants sv u\<rparr>)"

definition mint_session :: "crypto \<Rightarrow> auth_service \<Rightarrow> instant \<Rightarrow> string option \<Rightarrow> string \<Rightarrow> string auth_op" where
  "mint_session cr sv now rnd user =
     (case rnd of
        None \<Rightarrow> db_fail NoRandomness
      | Some tok \<Rightarrow>
          db_then (lift_store (create_auth_session (cr_hash_token cr tok)
              \<lparr>se_user = user, se_created = now, se_expires = now + sv_ttl sv, se_revoked = False\<rparr>))
            (\<lambda>_. db_return tok))"

definition sign_in :: "crypto \<Rightarrow> auth_service \<Rightarrow> instant \<Rightarrow> string option \<Rightarrow> auth_user \<Rightarrow> (string \<times> identity) auth_op" where
  "sign_in cr sv now rnd u =
     db_then (identity_for sv u)
       (\<lambda>i. db_then (mint_session cr sv now rnd (us_id u)) (\<lambda>tok. db_return (tok, i)))"

section \<open>Login\<close>

definition login :: "crypto \<Rightarrow> auth_service \<Rightarrow> instant \<Rightarrow> instant \<Rightarrow> string option \<Rightarrow> string \<Rightarrow> string \<Rightarrow> string \<Rightarrow>
    auth_db \<Rightarrow> (auth_error + string \<times> identity) \<times> auth_service \<times> auth_db" where
  "login cr sv check now rnd email pw ip db =
     (let key = email @ ''|'' @ ip; acct = ''login|'' @ email in
      case blocked (sv_limiter sv) key ip acct check of (stop, lim) \<Rightarrow>
        let sv1 = sv\<lparr>sv_limiter := lim\<rparr>; failed = sv\<lparr>sv_limiter := fail_attempt lim key ip acct now\<rparr> in
        if stop then (Inl TooManyAttempts, sv1, db)
        else if \<not> db_up db then (Inl StoreUnavailable, sv1, db)
        else case get_auth_user_by_email email db of
          (Inl NotFound, db1) \<Rightarrow> (Inl InvalidCredentials, failed, db1)
        | (Inl e, db1) \<Rightarrow> (Inl (StoreError e), sv1, db1)
        | (Inr u, db1) \<Rightarrow>
            if \<not> check_password cr (us_hash u) pw \<or> us_disabled u \<or> us_origin u \<noteq> ''local''
            then (Inl InvalidCredentials, failed, db1)
            else case sign_in cr sv now rnd u db1 of (r, db2) \<Rightarrow> (r, sv1, db2))"

section \<open>Password rotation\<close>

definition demo_viewer_id :: string where "demo_viewer_id = ''demo-viewer''"

text \<open>The write set: the new hash, then the sweep, then a session.\<close>

definition rotate :: "crypto \<Rightarrow> auth_service \<Rightarrow> instant \<Rightarrow> string option \<Rightarrow> auth_user \<Rightarrow> string auth_op" where
  "rotate cr sv now rnd u db =
     (case save_auth_user u db of
        (Inl e, db1) \<Rightarrow> (Inl (StoreError e), db1)
      | (Inr _, db1) \<Rightarrow>
         (case revoke_auth_sessions_for_user now (us_id u) db1 of
            (Inl e, db2) \<Rightarrow> (Inl RotatedSessionsLive, db2)
          | (Inr _, db2) \<Rightarrow>
             (case mint_session cr sv now rnd (us_id u) db2 of
                (Inl e, db3) \<Rightarrow> (Inl RotatedButSignedOut, db3)
              | (Inr tok, db3) \<Rightarrow> (Inr tok, db3))))"

definition rekey :: "crypto \<Rightarrow> auth_service \<Rightarrow> instant \<Rightarrow> string option \<Rightarrow> auth_user \<Rightarrow> string \<Rightarrow> string auth_op" where
  "rekey cr sv now rnd u hash db =
     (case get_auth_user (us_id u) db of
        (Inl e, db1) \<Rightarrow> (Inl InvalidCredentials, db1)
      | (Inr fresh, db1) \<Rightarrow>
          if us_disabled fresh \<or> us_hash fresh \<noteq> us_hash u then (Inl InvalidCredentials, db1)
          else rotate cr sv now rnd (fresh\<lparr>us_hash := hash\<rparr>) db1)"

definition change_password :: "crypto \<Rightarrow> auth_service \<Rightarrow> instant \<Rightarrow> instant \<Rightarrow> string option \<Rightarrow> string \<Rightarrow>
    (auth_db \<Rightarrow> auth_db) \<Rightarrow> string \<Rightarrow> string \<Rightarrow> string \<Rightarrow> string \<Rightarrow>
    auth_db \<Rightarrow> (auth_error + string) \<times> auth_service \<times> auth_db" where
  "change_password cr sv check now rnd salt meanwhile user current new ip db =
     (let key = ''pw|'' @ user @ ''|'' @ ip; ipk = ''pw|'' @ ip; acct = ''pw-acct|'' @ user in
      case blocked (sv_limiter sv) key ipk acct check of (stop, lim) \<Rightarrow>
        let sv1 = sv\<lparr>sv_limiter := lim\<rparr>; failed = sv\<lparr>sv_limiter := fail_attempt lim key ipk acct now\<rparr> in
        if stop then (Inl TooManyAttempts, sv1, db)
        else if \<not> db_up db then (Inl StoreUnavailable, sv1, db)
        else case get_auth_user user db of
          (Inl e, db1) \<Rightarrow> (Inl (StoreError e), sv1, db1)
        | (Inr u, db1) \<Rightarrow>
            if us_origin u \<noteq> ''local'' then (Inl ExternalPassword, sv1, db1)
            else if us_id u = demo_viewer_id then (Inl DemoUser, sv1, db1)
            else if us_disabled u then (Inl InvalidCredentials, sv1, db1)
            else if \<not> check_password cr (us_hash u) current then (Inl InvalidCredentials, failed, db1)
            else if new = [] then (Inl PasswordUnusable, sv1, db1)
            else case hash_password cr salt new of
              None \<Rightarrow> (Inl PasswordUnusable, sv1, db1)
            | Some hash \<Rightarrow>
                (case rekey cr sv now rnd u hash (meanwhile db1) of (r, db2) \<Rightarrow> (r, sv1, db2)))"

section \<open>Single sign-on\<close>

record external_identity =
  ex_subject :: string
  ex_email :: string
  ex_name :: string
  ex_groups :: "string list"

definition sso_id :: "external_identity \<Rightarrow> string" where
  "sso_id ext = ''oidc|'' @ ex_subject ext"

definition sso_user :: "external_identity \<Rightarrow> auth_user" where
  "sso_user ext = \<lparr>us_id = sso_id ext, us_email = ex_email ext, us_name = ex_name ext, us_hash = [],
     us_origin = ''oidc'', us_disabled = False, us_groups = ex_groups ext\<rparr>"

definition finish_sso :: "crypto \<Rightarrow> auth_service \<Rightarrow> instant \<Rightarrow> string option \<Rightarrow> external_identity \<Rightarrow>
    (string \<times> identity) auth_op" where
  "finish_sso cr sv now rnd ext =
     db_then (lift_store (save_auth_user (sso_user ext))) (\<lambda>_. sign_in cr sv now rnd (sso_user ext))"

definition complete_sso :: "crypto \<Rightarrow> auth_service \<Rightarrow> instant \<Rightarrow> string option \<Rightarrow> external_identity \<Rightarrow>
    (string \<times> identity) auth_op" where
  "complete_sso cr sv now rnd ext =
     with_store (\<lambda>db.
       (case get_auth_user (sso_id ext) db of
          (Inl StoreFailed, db1) \<Rightarrow> (Inl (StoreError StoreFailed), db1)
        | (Inl NotFound, db1) \<Rightarrow> finish_sso cr sv now rnd ext db1
        | (Inr old, db1) \<Rightarrow>
            if us_disabled old then (Inl InvalidCredentials, db1) else finish_sso cr sv now rnd ext db1))"

section \<open>Credentials\<close>

text \<open>The tail every credential shares: the owner is read, refused when disabled, and its
  grants are read.\<close>

definition owner_identity :: "auth_service \<Rightarrow> string \<Rightarrow> identity auth_op" where
  "owner_identity sv user =
     db_then (lift_store (get_auth_user user))
       (\<lambda>u. if us_disabled u then db_fail (StoreError NotFound) else identity_for sv u)"

definition identity_from_token :: "crypto \<Rightarrow> auth_service \<Rightarrow> instant \<Rightarrow> string \<Rightarrow> identity auth_op" where
  "identity_from_token cr sv now tok =
     with_store (db_then (lift_store (get_auth_session now (cr_hash_token cr tok)))
       (\<lambda>s. owner_identity sv (se_user s)))"

definition logout :: "crypto \<Rightarrow> instant \<Rightarrow> string \<Rightarrow> unit auth_op" where
  "logout cr now tok =
     with_store (\<lambda>db. case revoke_auth_session now (cr_hash_token cr tok) db of
         (Inl NotFound, db1) \<Rightarrow> (Inr (), db1)
       | (Inl e, db1) \<Rightarrow> (Inl (StoreError e), db1)
       | (Inr _, db1) \<Rightarrow> (Inr (), db1))"

definition expired :: "instant \<Rightarrow> instant \<Rightarrow> bool" where
  "expired now t \<longleftrightarrow> t \<noteq> zero_time \<and> t < now"

definition api_token_prefix :: string where "api_token_prefix = ''avurut_''"

definition new_api_token :: "crypto \<Rightarrow> string \<Rightarrow> string \<times> string \<times> string" where
  "new_api_token cr rnd = (let raw = api_token_prefix @ rnd in (raw, take 12 raw, cr_hash_token cr raw))"

definition identity_from_api_token :: "crypto \<Rightarrow> auth_service \<Rightarrow> instant \<Rightarrow> string \<Rightarrow> identity auth_op" where
  "identity_from_api_token cr sv now raw =
     with_store (db_then (lift_store (get_auth_token_by_hash (cr_hash_token cr raw)))
       (\<lambda>t. if expired now (tk_expires t) then db_fail (StoreError NotFound) else owner_identity sv (tk_user t)))"

definition oauth_access_prefix :: string where "oauth_access_prefix = ''avuruo_''"

definition oauth_refresh_prefix :: string where "oauth_refresh_prefix = ''avurur_''"

definition new_oauth_token :: "crypto \<Rightarrow> string \<Rightarrow> string \<Rightarrow> string \<times> string" where
  "new_oauth_token cr prefix rnd = (let raw = prefix @ rnd in (raw, cr_hash_token cr raw))"

record oauth_binding =
  bd_resource :: string
  bd_scope :: string
  bd_project :: string
  bd_client :: string
  bd_grant :: string

definition binding_of :: "oauth_token \<Rightarrow> oauth_binding" where
  "binding_of t = \<lparr>bd_resource = ot_resource t, bd_scope = ot_scope t, bd_project = ot_project t,
     bd_client = ot_client t, bd_grant = ot_grant t\<rparr>"

definition identity_from_oauth_token :: "crypto \<Rightarrow> auth_service \<Rightarrow> instant \<Rightarrow> string \<Rightarrow>
    (identity \<times> oauth_binding) auth_op" where
  "identity_from_oauth_token cr sv now raw =
     with_store (db_then (lift_store (get_oauth_token_by_hash (cr_hash_token cr raw)))
       (\<lambda>t. if ot_kind t \<noteq> ''access'' then db_fail (StoreError NotFound)
         else if expired now (ot_expires t) then db_fail (StoreError NotFound)
         else db_then (lift_store (get_oauth_grant (ot_grant t)))
           (\<lambda>g. if gr_revoked g then db_fail (StoreError NotFound)
             else db_then (owner_identity sv (ot_user t)) (\<lambda>i. db_return (i, binding_of t)))))"

section \<open>Startup\<close>

definition bootstrap_admin_id :: string where "bootstrap_admin_id = ''bootstrap-admin''"

text \<open>The result tells whether this call created the admin.\<close>

definition bootstrap :: "crypto \<Rightarrow> string \<Rightarrow> string \<Rightarrow> bool auth_op" where
  "bootstrap cr salt pw =
     with_store (db_then (lift_store list_auth_users)
       (\<lambda>users. if list_ex (\<lambda>u. us_id u \<noteq> demo_viewer_id) users then db_return False
         else case hash_password cr salt pw of
           None \<Rightarrow> db_fail HashFailed
         | Some hash \<Rightarrow>
             db_then (lift_store (replace_auth_grants bootstrap_admin_id [(''*'', role_admin)]))
               (\<lambda>_. db_then (lift_store (save_auth_user
                   \<lparr>us_id = bootstrap_admin_id, us_email = ''admin'', us_name = ''Administrator'', us_hash = hash,
                    us_origin = ''local'', us_disabled = False, us_groups = []\<rparr>))
                 (\<lambda>_. db_return True))))"

definition ensure_demo_user :: "crypto \<Rightarrow> string \<Rightarrow> string \<Rightarrow> string \<Rightarrow> unit auth_op" where
  "ensure_demo_user cr salt email pw =
     with_store (case hash_password cr salt pw of
         None \<Rightarrow> db_fail HashFailed
       | Some hash \<Rightarrow>
           db_then (lift_store (replace_auth_grants demo_viewer_id [(''demo'', role_viewer)]))
             (\<lambda>_. lift_store (save_auth_user
               \<lparr>us_id = demo_viewer_id, us_email = email, us_name = ''Demo (read-only)'', us_hash = hash,
                us_origin = ''local'', us_disabled = False, us_groups = []\<rparr>)))"

end
