(* ===== verification/StoreLaws.thy ===== *)
theory StoreLaws
  imports AuthService
begin

text \<open>
  What composed database operations guarantee when any call of theirs may fail. An operation
  \<open>reads\<close> a value when it leaves the tables alone, answers that value or an error, and answers
  it when no call fails. The notion is closed under sequencing, so an operation reads what the
  queries it is made of read.
\<close>

section \<open>Reading\<close>

definition reads :: "(auth_db \<Rightarrow> ('e + 'a) \<times> auth_db) \<Rightarrow> (auth_db \<Rightarrow> 'e + 'a) \<Rightarrow> bool" where
  "reads m v \<longleftrightarrow>
     (\<forall>db. (\<exists>fs. snd (m db) = db\<lparr>db_faults := fs\<rparr>) \<and> (isl (fst (m db)) \<or> fst (m db) = v db) \<and>
       (db_faults db = [] \<longrightarrow> m db = (v db, db))) \<and>
     (\<forall>db fs. v (db\<lparr>db_faults := fs\<rparr>) = v db)"

definition bind_value :: "(auth_db \<Rightarrow> 'e + 'a) \<Rightarrow> ('a \<Rightarrow> auth_db \<Rightarrow> 'e + 'b) \<Rightarrow> auth_db \<Rightarrow> 'e + 'b" where
  "bind_value v w db = (case v db of Inl e \<Rightarrow> Inl e | Inr x \<Rightarrow> w x db)"

definition store_value :: "(auth_db \<Rightarrow> store_error + 'a) \<Rightarrow> auth_db \<Rightarrow> auth_error + 'a" where
  "store_value v db = (case v db of Inl e \<Rightarrow> Inl (StoreError e) | Inr x \<Rightarrow> Inr x)"

lemma same_faults [simp]: "\<exists>fs. (db :: auth_db) = db\<lparr>db_faults := fs\<rparr>"
  by (rule exI [of _ "db_faults db"]) simp

lemma readsE:
  assumes "reads m v" and "m db = (r, db')"
  obtains fs where "db' = db\<lparr>db_faults := fs\<rparr>" "isl r \<or> r = v db"
  using assms unfolding reads_def by (metis fst_conv snd_conv)

lemma reads_Inr: "reads m v \<Longrightarrow> m db = (Inr x, db') \<Longrightarrow> v db = Inr x"
  unfolding reads_def by (metis fst_conv isl_def sum.distinct(1))

lemma reads_quiet: "reads m v \<Longrightarrow> db_faults db = [] \<Longrightarrow> m db = (v db, db)"
  by (simp add: reads_def)

lemma reads_cong: "reads m v \<Longrightarrow> (\<And>db. v db = w db) \<Longrightarrow> reads m w"
  by (metis ext)

lemma reads_query: "(\<And>db fs. f (db\<lparr>db_faults := fs\<rparr>) = f db) \<Longrightarrow> reads (db_query f) f"
  unfolding reads_def
proof (intro conjI allI)
  fix db assume f: "\<And>db fs. f (db\<lparr>db_faults := fs\<rparr>) = f db"
  obtain r db' where q: "db_query f db = (r, db')" by fastforce
  then show "\<exists>fs. snd (db_query f db) = db\<lparr>db_faults := fs\<rparr>" by (auto elim: db_queryE)
  from q show "isl (fst (db_query f db)) \<or> fst (db_query f db) = f db"
    by (auto elim!: db_queryE simp: f)
qed simp_all

lemma reads_return: "reads (db_return x) (\<lambda>_. Inr x)"
  by (simp add: reads_def db_return_def)

lemma reads_fail: "reads (db_fail e) (\<lambda>_. Inl e)"
  by (simp add: reads_def db_fail_def)

lemma reads_then:
  assumes m: "reads m v" and k: "\<And>x. reads (k x) (w x)"
  shows "reads (db_then m k) (bind_value v w)"
  unfolding reads_def
proof (intro conjI allI impI)
  fix db
  obtain r db1 where r: "m db = (r, db1)" by fastforce
  from m r obtain fs where db1: "db1 = db\<lparr>db_faults := fs\<rparr>" and v: "isl r \<or> r = v db" by (rule readsE)
  show "\<exists>fs. snd (db_then m k db) = db\<lparr>db_faults := fs\<rparr>"
    and "isl (fst (db_then m k db)) \<or> fst (db_then m k db) = bind_value v w db"
  proof -
    have "(\<exists>fs. snd (db_then m k db) = db\<lparr>db_faults := fs\<rparr>) \<and>
        (isl (fst (db_then m k db)) \<or> fst (db_then m k db) = bind_value v w db)"
    proof (cases r)
      case (Inl e)
      then show ?thesis using r db1 by auto
    next
      case (Inr x)
      obtain r2 db2 where r2: "k x db1 = (r2, db2)" by fastforce
      with k [of x] obtain fs2 where "db2 = db1\<lparr>db_faults := fs2\<rparr>" "isl r2 \<or> r2 = w x db1" by (rule readsE)
      moreover have "w x db1 = w x db" using k [of x] db1 by (simp add: reads_def)
      moreover have "db_then m k db = (r2, db2)" using r r2 Inr by simp
      moreover have "v db = Inr x" using v Inr by simp
      ultimately show ?thesis using db1 by (auto simp: bind_value_def)
    qed
    then show "\<exists>fs. snd (db_then m k db) = db\<lparr>db_faults := fs\<rparr>"
      and "isl (fst (db_then m k db)) \<or> fst (db_then m k db) = bind_value v w db" by blast+
  qed
next
  fix db :: auth_db assume "db_faults db = []"
  with m k show "db_then m k db = (bind_value v w db, db)"
    by (auto simp: db_then_def reads_quiet bind_value_def split: sum.splits)
next
  fix db fs show "bind_value v w (db\<lparr>db_faults := fs\<rparr>) = bind_value v w db"
    using m k by (simp add: reads_def bind_value_def split: sum.splits)
qed

lemma lift_store_eq:
  "lift_store m db = ((case fst (m db) of Inl e \<Rightarrow> Inl (StoreError e) | Inr x \<Rightarrow> Inr x), snd (m db))"
  by (simp add: lift_store_def split: prod.split sum.split)

lemma reads_lift:
  assumes m: "reads m v"
  shows "reads (lift_store m) (store_value v)"
  unfolding reads_def
proof (intro conjI allI impI)
  fix db
  obtain r db1 where r: "m db = (r, db1)" by fastforce
  from m r obtain fs where "db1 = db\<lparr>db_faults := fs\<rparr>" "isl r \<or> r = v db" by (rule readsE)
  with r show "\<exists>fs. snd (lift_store m db) = db\<lparr>db_faults := fs\<rparr>"
    and "isl (fst (lift_store m db)) \<or> fst (lift_store m db) = store_value v db"
    by (auto simp: lift_store_eq store_value_def isl_def split: sum.splits)
next
  fix db :: auth_db assume "db_faults db = []"
  with m show "lift_store m db = (store_value v db, db)"
    by (simp add: reads_quiet lift_store_eq store_value_def)
next
  fix db fs show "store_value v (db\<lparr>db_faults := fs\<rparr>) = store_value v db"
    using m by (simp add: reads_def store_value_def)
qed

lemma reads_with_store: "reads m v \<Longrightarrow> reads (with_store m) (\<lambda>db. if db_up db then v db else Inl StoreUnavailable)"
  by (simp add: reads_def with_store_def)

lemmas reads_intros = reads_query reads_return reads_fail reads_then reads_lift reads_with_store

text \<open>The queries of the store.\<close>

lemma reads_get_auth_user: "reads (get_auth_user i) (\<lambda>db. found (map_of (db_users db) i))"
  unfolding get_auth_user_def by (rule reads_query) simp

lemma reads_list_auth_users: "reads list_auth_users (\<lambda>db. Inr (sort_key us_email (map snd (db_users db))))"
  unfolding list_auth_users_def by (rule reads_query) simp

lemma reads_list_auth_grants: "reads (list_auth_grants i) (\<lambda>db. Inr (sort_key fst (grants_of db i)))"
  unfolding list_auth_grants_def by (rule reads_query) (simp add: grants_of_def)

definition live_session_of :: "instant \<Rightarrow> auth_db \<Rightarrow> string \<Rightarrow> auth_session option" where
  "live_session_of now db h = (case map_of (db_sessions db) h of
     None \<Rightarrow> None | Some s \<Rightarrow> if live_session now s then Some s else None)"

lemma reads_get_auth_session: "reads (get_auth_session now h) (\<lambda>db. found (live_session_of now db h))"
  unfolding get_auth_session_def
  by (rule reads_cong [OF reads_query]) (auto simp: live_session_of_def found_def split: option.splits)

definition live_auth_token :: "auth_db \<Rightarrow> string \<Rightarrow> auth_token option" where
  "live_auth_token db h = (case map_of (db_tokens db) h of
     None \<Rightarrow> None | Some t \<Rightarrow> if tk_revoked t then None else Some (read_auth_token t))"

lemma reads_get_auth_token: "reads (get_auth_token_by_hash h) (\<lambda>db. found (live_auth_token db h))"
  unfolding get_auth_token_by_hash_def
  by (rule reads_cong [OF reads_query]) (auto simp: live_auth_token_def found_def split: option.splits)

lemma reads_get_oauth_token: "reads (get_oauth_token_by_hash h) (\<lambda>db. found (live_oauth_token db h))"
  unfolding get_oauth_token_by_hash_def by (rule reads_query) (simp add: live_oauth_token_def)

lemma reads_get_oauth_grant: "reads (get_oauth_grant i) (\<lambda>db. found (live_grant db i))"
  unfolding get_oauth_grant_def by (rule reads_query) (simp add: live_grant_def)

lemma reads_get_oauth_code: "reads (get_oauth_auth_code h) (\<lambda>db. found (stored_code db h))"
  unfolding get_oauth_auth_code_def by (rule reads_query) (simp add: stored_code_def)

lemmas reads_queries = reads_get_auth_user reads_list_auth_users reads_list_auth_grants
  reads_get_auth_session reads_get_auth_token reads_get_oauth_token reads_get_oauth_grant reads_get_oauth_code

section \<open>Identities\<close>

definition identity_of :: "auth_service \<Rightarrow> auth_db \<Rightarrow> auth_user \<Rightarrow> identity" where
  "identity_of sv db u = \<lparr>id_user = us_id u, id_email = us_email u, id_name = us_name u, id_origin = us_origin u,
     id_anonymous = False, id_grants = known_grants (sort_key fst (grants_of db (us_id u))) @ mapped_grants sv u\<rparr>"

lemma reads_identity_for: "reads (identity_for sv u) (\<lambda>db. Inr (identity_of sv db u))"
  unfolding identity_for_def
  by (rule reads_cong [OF reads_then [OF reads_lift [OF reads_list_auth_grants] reads_return]])
    (simp add: bind_value_def store_value_def identity_of_def)

definition owner_value :: "auth_service \<Rightarrow> string \<Rightarrow> auth_db \<Rightarrow> auth_error + identity" where
  "owner_value sv user db = (case map_of (db_users db) user of
     None \<Rightarrow> Inl (StoreError NotFound)
   | Some u \<Rightarrow> if us_disabled u then Inl (StoreError NotFound) else Inr (identity_of sv db u))"

lemma reads_owner_identity: "reads (owner_identity sv user) (owner_value sv user)"
proof -
  have k: "reads (if us_disabled u then db_fail (StoreError NotFound) else identity_for sv u)
      (\<lambda>db. if us_disabled u then Inl (StoreError NotFound) else Inr (identity_of sv db u))" for u
    by (simp add: reads_identity_for reads_fail)
  show ?thesis unfolding owner_identity_def
    by (rule reads_cong [OF reads_then [OF reads_lift [OF reads_get_auth_user] k]])
      (simp add: bind_value_def store_value_def found_def owner_value_def split: option.split)
qed

section \<open>Credentials\<close>

text \<open>The interface of a kind of credential: looking up the row a secret names (its value is a
  row of the tables, or a refusal no caller can tell from an unknown secret) and the user the
  row is for.\<close>

locale credential =
  fixes lookup :: "string \<Rightarrow> instant \<Rightarrow> 'c auth_op"
    and row :: "auth_db \<Rightarrow> string \<Rightarrow> instant \<Rightarrow> 'c option"
    and owner :: "'c \<Rightarrow> string"
  assumes reads_lookup: "reads (lookup raw now) (\<lambda>db. case row db raw now of None \<Rightarrow> Inl (StoreError NotFound) | Some c \<Rightarrow> Inr c)"
begin

definition resolve_credential :: "auth_service \<Rightarrow> ('c \<Rightarrow> identity \<Rightarrow> 'i) \<Rightarrow> string \<Rightarrow> instant \<Rightarrow> 'i auth_op" where
  "resolve_credential sv mk raw now =
     with_store (db_then (lookup raw now) (\<lambda>c. db_then (owner_identity sv (owner c)) (\<lambda>i. db_return (mk c i))))"

definition resolves :: "auth_service \<Rightarrow> ('c \<Rightarrow> identity \<Rightarrow> 'i) \<Rightarrow> string \<Rightarrow> instant \<Rightarrow> auth_db \<Rightarrow> 'i \<Rightarrow> bool" where
  "resolves sv mk raw now db x \<longleftrightarrow>
     (\<exists>c u. row db raw now = Some c \<and> map_of (db_users db) (owner c) = Some u \<and> \<not> us_disabled u \<and>
       x = mk c (identity_of sv db u))"

definition credential_value :: "auth_service \<Rightarrow> ('c \<Rightarrow> identity \<Rightarrow> 'i) \<Rightarrow> string \<Rightarrow> instant \<Rightarrow> auth_db \<Rightarrow> auth_error + 'i" where
  "credential_value sv mk raw now db =
     (if db_up db then bind_value (\<lambda>db. case row db raw now of None \<Rightarrow> Inl (StoreError NotFound) | Some c \<Rightarrow> Inr c)
        (\<lambda>c. bind_value (owner_value sv (owner c)) (\<lambda>i _. Inr (mk c i))) db else Inl StoreUnavailable)"

lemma reads_resolve: "reads (resolve_credential sv mk raw now) (credential_value sv mk raw now)"
proof -
  have "reads (resolve_credential sv mk raw now)
     (\<lambda>db. if db_up db then bind_value (\<lambda>db. case row db raw now of None \<Rightarrow> Inl (StoreError NotFound) | Some c \<Rightarrow> Inr c)
        (\<lambda>c. bind_value (owner_value sv (owner c)) (\<lambda>i _. Inr (mk c i))) db else Inl StoreUnavailable)"
    unfolding resolve_credential_def
    by (intro reads_with_store reads_then reads_lookup reads_owner_identity reads_return)
  then show ?thesis by (rule reads_cong) (simp add: credential_value_def)
qed

lemma value_resolves: "credential_value sv mk raw now db = Inr x \<longleftrightarrow> db_up db \<and> resolves sv mk raw now db x"
  by (auto simp: credential_value_def bind_value_def owner_value_def resolves_def split: option.splits)

lemma value_refuses:
  "db_up db \<Longrightarrow> credential_value sv mk raw now db = Inl (StoreError NotFound) \<longleftrightarrow> (\<nexists>x. resolves sv mk raw now db x)"
  by (auto simp: credential_value_def bind_value_def owner_value_def resolves_def split: option.splits)

lemma resolve_sound:
  assumes "resolve_credential sv mk raw now db = (r, db')"
  shows "\<exists>fs. db' = db\<lparr>db_faults := fs\<rparr>" and "r = Inr x \<Longrightarrow> resolves sv mk raw now db x"
proof -
  show "\<exists>fs. db' = db\<lparr>db_faults := fs\<rparr>" using readsE [OF reads_resolve assms] by blast
  assume "r = Inr x"
  with assms have "resolve_credential sv mk raw now db = (Inr x, db')" by simp
  then have "credential_value sv mk raw now db = Inr x" by (rule reads_Inr [OF reads_resolve])
  then show "resolves sv mk raw now db x" by (simp add: value_resolves)
qed

lemma resolve_complete:
  assumes "db_up db" and "db_faults db = []"
  shows "fst (resolve_credential sv mk raw now db) = Inr x \<longleftrightarrow> resolves sv mk raw now db x"
  using reads_quiet [OF reads_resolve assms(2), of sv mk raw now] value_resolves [of sv mk raw now db x] assms(1) by simp

lemma resolve_total:
  assumes "db_up db" and "db_faults db = []"
  shows "fst (resolve_credential sv mk raw now db) = Inl (StoreError NotFound) \<longleftrightarrow> (\<nexists>x. resolves sv mk raw now db x)"
  using reads_quiet [OF reads_resolve assms(2), of sv mk raw now] value_refuses [OF assms(1), of sv mk raw now] by simp

end

end
