(* ===== verification/Credentials.thy ===== *)
theory Credentials
  imports StoreLaws
begin

text \<open>
  The three credentials of the hub (sessions, API tokens, OAuth access tokens) as instances of
  one interface. What a secret resolves to is read from the tables on every call: the identity
  is that of a row that is live now and of an owner that is not disabled now, with the grants
  it holds now; a refusal never says which of these failed.
\<close>

lemma db_then_return_id [simp]: "db_then m db_return = m"
  by (rule ext) (simp add: db_then_def db_return_def split: prod.split sum.split)

lemma db_then_assoc: "db_then (db_then m f) g = db_then m (\<lambda>x. db_then (f x) g)"
  by (rule ext) (simp add: db_then_def split: prod.split sum.split)

lemma db_then_simps [simp]: "db_then (db_return x) k = k x" "db_then (db_fail e) k = db_fail e"
  by (rule ext, simp add: db_then_def db_return_def db_fail_def)+

lemma db_then_if: "db_then (if b then m else n) k = (if b then db_then m k else db_then n k)"
  by simp

section \<open>Rows\<close>

definition session_row :: "crypto \<Rightarrow> auth_db \<Rightarrow> string \<Rightarrow> instant \<Rightarrow> auth_session option" where
  "session_row cr db tok now = live_session_of now db (cr_hash_token cr tok)"

definition api_row :: "crypto \<Rightarrow> auth_db \<Rightarrow> string \<Rightarrow> instant \<Rightarrow> auth_token option" where
  "api_row cr db raw now = (case live_auth_token db (cr_hash_token cr raw) of
     None \<Rightarrow> None | Some t \<Rightarrow> if expired now (tk_expires t) then None else Some t)"

definition oauth_row :: "crypto \<Rightarrow> auth_db \<Rightarrow> string \<Rightarrow> instant \<Rightarrow> oauth_token option" where
  "oauth_row cr db raw now = (case live_oauth_token db (cr_hash_token cr raw) of
     None \<Rightarrow> None
   | Some t \<Rightarrow> if ot_kind t = ''access'' \<and> \<not> expired now (ot_expires t) \<and> live_grant db (ot_grant t) \<noteq> None
       then Some t else None)"

lemma live_grant_not_revoked: "live_grant db i = Some g \<Longrightarrow> \<not> gr_revoked g"
  by (auto simp: live_grant_def split: option.splits if_splits)

section \<open>Lookups\<close>

definition session_lookup :: "crypto \<Rightarrow> string \<Rightarrow> instant \<Rightarrow> auth_session auth_op" where
  "session_lookup cr tok now = lift_store (get_auth_session now (cr_hash_token cr tok))"

definition api_lookup :: "crypto \<Rightarrow> string \<Rightarrow> instant \<Rightarrow> auth_token auth_op" where
  "api_lookup cr raw now = db_then (lift_store (get_auth_token_by_hash (cr_hash_token cr raw)))
     (\<lambda>t. if expired now (tk_expires t) then db_fail (StoreError NotFound) else db_return t)"

definition oauth_lookup :: "crypto \<Rightarrow> string \<Rightarrow> instant \<Rightarrow> oauth_token auth_op" where
  "oauth_lookup cr raw now = db_then (lift_store (get_oauth_token_by_hash (cr_hash_token cr raw)))
     (\<lambda>t. if ot_kind t \<noteq> ''access'' then db_fail (StoreError NotFound)
       else if expired now (ot_expires t) then db_fail (StoreError NotFound)
       else db_then (lift_store (get_oauth_grant (ot_grant t)))
         (\<lambda>g. if gr_revoked g then db_fail (StoreError NotFound) else db_return t))"

lemma reads_if: "reads m v \<Longrightarrow> reads n w \<Longrightarrow> reads (if b then m else n) (\<lambda>db. if b then v db else w db)"
  by simp

lemma reads_session_lookup:
  "reads (session_lookup cr tok now)
     (\<lambda>db. case session_row cr db tok now of None \<Rightarrow> Inl (StoreError NotFound) | Some c \<Rightarrow> Inr c)"
  unfolding session_lookup_def
  by (rule reads_cong [OF reads_lift [OF reads_get_auth_session]])
    (simp add: store_value_def found_def session_row_def split: option.split)

lemma reads_api_lookup:
  "reads (api_lookup cr raw now)
     (\<lambda>db. case api_row cr db raw now of None \<Rightarrow> Inl (StoreError NotFound) | Some c \<Rightarrow> Inr c)"
  unfolding api_lookup_def
  by (rule reads_cong [OF reads_then [OF reads_lift [OF reads_get_auth_token] reads_if [OF reads_fail reads_return]]])
    (simp add: bind_value_def store_value_def found_def api_row_def split: option.split)

lemma reads_oauth_lookup:
  "reads (oauth_lookup cr raw now)
     (\<lambda>db. case oauth_row cr db raw now of None \<Rightarrow> Inl (StoreError NotFound) | Some c \<Rightarrow> Inr c)"
  unfolding oauth_lookup_def
  by (rule reads_cong [OF reads_then [OF reads_lift [OF reads_get_oauth_token] reads_if [OF reads_fail reads_if [OF reads_fail
        reads_then [OF reads_lift [OF reads_get_oauth_grant] reads_if [OF reads_fail reads_return]]]]]])
    (auto simp: bind_value_def store_value_def found_def oauth_row_def dest: live_grant_not_revoked split: option.split)

interpretation session: credential "session_lookup cr" "session_row cr" se_user for cr
  by unfold_locales (rule reads_session_lookup)

interpretation api_token: credential "api_lookup cr" "api_row cr" tk_user for cr
  by unfold_locales (rule reads_api_lookup)

interpretation oauth_access: credential "oauth_lookup cr" "oauth_row cr" ot_user for cr
  by unfold_locales (rule reads_oauth_lookup)

lemma identity_from_token_eq:
  "identity_from_token cr sv now tok = session.resolve_credential cr sv (\<lambda>_ i. i) tok now"
  by (simp add: identity_from_token_def session.resolve_credential_def session_lookup_def)

lemma identity_from_api_token_eq:
  "identity_from_api_token cr sv now raw = api_token.resolve_credential cr sv (\<lambda>_ i. i) raw now"
  by (simp add: identity_from_api_token_def api_token.resolve_credential_def api_lookup_def db_then_assoc db_then_if cong: if_cong)

lemma identity_from_oauth_token_eq:
  "identity_from_oauth_token cr sv now raw = oauth_access.resolve_credential cr sv (\<lambda>t i. (i, binding_of t)) raw now"
  by (simp add: identity_from_oauth_token_def oauth_access.resolve_credential_def oauth_lookup_def db_then_assoc db_then_if cong: if_cong)

section \<open>What a credential is good for\<close>

text \<open>The specifications: a live row, and the identity of its owner as the tables have it now.\<close>

definition session_ok :: "crypto \<Rightarrow> auth_service \<Rightarrow> instant \<Rightarrow> string \<Rightarrow> auth_db \<Rightarrow> identity \<Rightarrow> bool" where
  "session_ok cr sv now tok db i \<longleftrightarrow>
     (\<exists>s u. map_of (db_sessions db) (cr_hash_token cr tok) = Some s \<and> \<not> se_revoked s \<and> to_ms now < se_expires s \<and>
       map_of (db_users db) (se_user s) = Some u \<and> \<not> us_disabled u \<and> i = identity_of sv db u)"

definition api_token_ok :: "crypto \<Rightarrow> auth_service \<Rightarrow> instant \<Rightarrow> string \<Rightarrow> auth_db \<Rightarrow> identity \<Rightarrow> bool" where
  "api_token_ok cr sv now raw db i \<longleftrightarrow>
     (\<exists>t u. map_of (db_tokens db) (cr_hash_token cr raw) = Some t \<and> \<not> tk_revoked t \<and>
       (from_ch (tk_expires t) = zero_time \<or> now \<le> tk_expires t) \<and>
       map_of (db_users db) (tk_user t) = Some u \<and> \<not> us_disabled u \<and> i = identity_of sv db u)"

definition oauth_token_ok :: "crypto \<Rightarrow> auth_service \<Rightarrow> instant \<Rightarrow> string \<Rightarrow> auth_db \<Rightarrow> identity \<times> oauth_binding \<Rightarrow> bool" where
  "oauth_token_ok cr sv now raw db ib \<longleftrightarrow>
     (\<exists>t g u. map_of (db_oauth db) (cr_hash_token cr raw) = Some t \<and> \<not> ot_revoked t \<and> ot_kind t = ''access'' \<and>
       (from_ch (ot_expires t) = zero_time \<or> now \<le> ot_expires t) \<and>
       map_of (db_consents db) (ot_grant t) = Some g \<and> \<not> gr_revoked g \<and>
       map_of (db_users db) (ot_user t) = Some u \<and> \<not> us_disabled u \<and>
       ib = (identity_of sv db u, \<lparr>bd_resource = ot_resource t, bd_scope = ot_scope t, bd_project = ot_project t,
         bd_client = ot_client t, bd_grant = ot_grant t\<rparr>))"

lemma from_ch_cases: "from_ch t = zero_time \<or> from_ch t = t"
  by (simp add: from_ch_def)

lemma expired_from_ch: "expired now (from_ch t) \<longleftrightarrow> from_ch t \<noteq> zero_time \<and> t < now"
  using from_ch_cases [of t] by (auto simp: expired_def)

lemma expired_zero [simp]: "\<not> expired now 0"
  by (simp add: expired_def)

lemma session_resolves_ok: "session.resolves cr sv (\<lambda>_ i. i) tok now db i \<longleftrightarrow> session_ok cr sv now tok db i"
  by (auto simp: session.resolves_def session_ok_def session_row_def live_session_of_def live_session_def
      split: option.splits if_splits)

lemma api_resolves_ok: "api_token.resolves cr sv (\<lambda>_ i. i) raw now db i \<longleftrightarrow> api_token_ok cr sv now raw db i"
  by (auto simp: api_token.resolves_def api_token_ok_def api_row_def live_auth_token_def read_auth_token_def
      expired_from_ch split: option.splits if_splits)

lemma oauth_resolves_ok:
  "oauth_access.resolves cr sv (\<lambda>t i. (i, binding_of t)) raw now db ib \<longleftrightarrow> oauth_token_ok cr sv now raw db ib"
  by (auto simp: oauth_access.resolves_def oauth_token_ok_def oauth_row_def live_oauth_token_def scan_oauth_token_def
      expired_from_ch binding_of_def live_grant_def split: option.splits if_splits)

text \<open>C1. A session cookie is worth exactly what the tables say now: whatever calls fail,
  resolving it changes no table, and a resolved cookie names a session that is neither revoked
  nor expired of a user that exists and is not disabled, with the grants that user holds now;
  when no call fails, every such cookie resolves and any other is refused as unknown.\<close>

theorem session_resolves:
  assumes "identity_from_token cr sv now tok db = (r, db')"
  shows "(\<exists>fs. db' = db\<lparr>db_faults := fs\<rparr>) \<and> (r = Inr i \<longrightarrow> session_ok cr sv now tok db i) \<and>
    (db_up db \<and> db_faults db = [] \<longrightarrow>
      (r = Inr i \<longleftrightarrow> session_ok cr sv now tok db i) \<and>
      (r = Inl (StoreError NotFound) \<longleftrightarrow> (\<nexists>j. session_ok cr sv now tok db j)))"
  using assms session.resolve_sound [of cr sv "\<lambda>_ i. i" tok now db r db'] session.resolve_complete [of db cr sv "\<lambda>_ i. i" tok now]
    session.resolve_total [of db cr sv "\<lambda>_ i. i" tok now]
  by (auto simp: identity_from_token_eq session_resolves_ok)

definition toy_crypto :: crypto where
  "toy_crypto = \<lparr>cr_hash_token = (\<lambda>s. ''#'' @ s), cr_bcrypt = (\<lambda>salt pw. if 72 < length pw then None else Some (''$'' @ pw)),
     cr_matches = (\<lambda>h pw. h = ''$'' @ pw)\<rparr>"

definition sample_user :: auth_user where
  "sample_user = \<lparr>us_id = ''u1'', us_email = ''ann'', us_name = ''Ann'', us_hash = ''$pw'', us_origin = ''local'',
     us_disabled = False, us_groups = []\<rparr>"

definition sample_token :: oauth_token where
  "sample_token = \<lparr>ot_kind = ''access'', ot_grant = ''g1'', ot_client = ''c1'', ot_user = ''u1'', ot_resource = ''r'',
     ot_scope = ''mcp:read'', ot_project = ''shop'', ot_expires = 7 * ch_epoch, ot_last_used = ch_epoch,
     ot_revoked = False, ot_created = 2 * ch_epoch\<rparr>"

definition sample_db :: auth_db where
  "sample_db = empty_db\<lparr>db_users := [(''u1'', sample_user)], db_grants := [(''u1'', [(''shop'', role_viewer)])],
     db_sessions := [(''#s'', \<lparr>se_user = ''u1'', se_created = 0, se_expires = 5 * millisecond, se_revoked = False\<rparr>)],
     db_tokens := [(''#t'', \<lparr>tk_user = ''u1'', tk_name = ''ci'', tk_prefix = ''avurut_'', tk_expires = ch_epoch,
       tk_last_used = ch_epoch, tk_revoked = False, tk_created = 2 * ch_epoch\<rparr>)],
     db_consents := [(''g1'', \<lparr>gr_id = ''g1'', gr_client = ''c1'', gr_user = ''u1'', gr_scope = ''mcp:read'',
       gr_project = ''shop'', gr_resource = ''r'', gr_revoked = False, gr_created = 2 * ch_epoch\<rparr>)],
     db_oauth := [(''#o'', sample_token)]\<rparr>"

definition sample_identity :: identity where
  "sample_identity = \<lparr>id_user = ''u1'', id_email = ''ann'', id_name = ''Ann'', id_origin = ''local'', id_anonymous = False,
     id_grants = [\<lparr>g_scope = ''shop'', g_role = role_viewer\<rparr>]\<rparr>"

lemma sample_runs:
  "identity_from_token toy_crypto (new_service minute) 0 ''s'' sample_db = (Inr sample_identity, sample_db)"
  "identity_from_api_token toy_crypto (new_service minute) 0 ''t'' sample_db = (Inr sample_identity, sample_db)"
  "identity_from_oauth_token toy_crypto (new_service minute) 0 ''o'' sample_db =
     (Inr (sample_identity, binding_of sample_token), sample_db)"
  by code_simp+

theorem session_resolves_witness:
  "session_ok toy_crypto (new_service minute) 0 ''s'' sample_db sample_identity"
  using session_resolves [OF sample_runs(1), of sample_identity] by simp

text \<open>The same for a personal API token: it is worth its owner's identity as the tables
  have it now, and only while its row is not revoked and has either no expiry (stored as the
  epoch) or one that has not passed.\<close>

theorem api_token_resolves:
  assumes "identity_from_api_token cr sv now raw db = (r, db')"
  shows "(\<exists>fs. db' = db\<lparr>db_faults := fs\<rparr>) \<and> (r = Inr i \<longrightarrow> api_token_ok cr sv now raw db i) \<and>
    (db_up db \<and> db_faults db = [] \<longrightarrow>
      (r = Inr i \<longleftrightarrow> api_token_ok cr sv now raw db i) \<and>
      (r = Inl (StoreError NotFound) \<longleftrightarrow> (\<nexists>j. api_token_ok cr sv now raw db j)))"
  using assms api_token.resolve_sound [of cr sv "\<lambda>_ i. i" raw now db r db'] api_token.resolve_complete [of db cr sv "\<lambda>_ i. i" raw now]
    api_token.resolve_total [of db cr sv "\<lambda>_ i. i" raw now]
  by (auto simp: identity_from_api_token_eq api_resolves_ok)

theorem api_token_resolves_witness:
  "api_token_ok toy_crypto (new_service minute) 0 ''t'' sample_db sample_identity"
  using api_token_resolves [OF sample_runs(2), of sample_identity] by simp

text \<open>The same for an OAuth access token, which also needs its grant: a refresh token, an
  expired or revoked token, a token of a revoked grant and one of a disabled owner are all
  refused alike, and what the token may reach is read from its row.\<close>

theorem oauth_token_resolves:
  assumes "identity_from_oauth_token cr sv now raw db = (r, db')"
  shows "(\<exists>fs. db' = db\<lparr>db_faults := fs\<rparr>) \<and> (r = Inr ib \<longrightarrow> oauth_token_ok cr sv now raw db ib) \<and>
    (db_up db \<and> db_faults db = [] \<longrightarrow>
      (r = Inr ib \<longleftrightarrow> oauth_token_ok cr sv now raw db ib) \<and>
      (r = Inl (StoreError NotFound) \<longleftrightarrow> (\<nexists>j. oauth_token_ok cr sv now raw db j)))"
  using assms oauth_access.resolve_sound [of cr sv "\<lambda>t i. (i, binding_of t)" raw now db r db']
    oauth_access.resolve_complete [of db cr sv "\<lambda>t i. (i, binding_of t)" raw now]
    oauth_access.resolve_total [of db cr sv "\<lambda>t i. (i, binding_of t)" raw now]
  by (auto simp: identity_from_oauth_token_eq oauth_resolves_ok)

theorem oauth_token_resolves_witness:
  "oauth_token_ok toy_crypto (new_service minute) 0 ''o'' sample_db (sample_identity, binding_of sample_token)"
  using oauth_token_resolves [OF sample_runs(3), of "(sample_identity, binding_of sample_token)"] by simp

end
