(* ===== verification/AuthLaws.thy ===== *)
theory AuthLaws
  imports Credentials
begin

text \<open>
  The auth core's promises: what a login proves and leaves behind, what a password rotation
  does to the sessions there were, what single sign-on may change, and how the startup
  accounts come to exist. Each holds whatever database calls fail.
\<close>

section \<open>Well-formed tables\<close>

text \<open>One row per key, under the key it carries.\<close>

definition db_ok :: "auth_db \<Rightarrow> bool" where
  "db_ok db \<longleftrightarrow> wf_alist (db_users db) \<and> (\<forall>(i, u)\<in>set (db_users db). us_id u = i) \<and> wf_alist (db_sessions db)"

lemma db_ok_faults [simp]: "db_ok (db\<lparr>db_faults := fs\<rparr>) = db_ok db"
  by (simp add: db_ok_def)

lemma user_id: "db_ok db \<Longrightarrow> map_of (db_users db) i = Some u \<Longrightarrow> us_id u = i"
  by (auto simp: db_ok_def dest!: map_of_SomeD)

lemma user_row: "db_ok db \<Longrightarrow> u \<in> snd ` set (db_users db) \<Longrightarrow> map_of (db_users db) (us_id u) = Some u"
  by (auto simp: db_ok_def)

lemma map_of_alist_update [simp]: "map_of (AList.update k v m) = (map_of m)(k \<mapsto> v)"
  by (rule update_conv')

lemma identity_of_cong [simp]:
  "identity_of sv (db\<lparr>db_sessions := x\<rparr>) u = identity_of sv db u"
  "identity_of sv (db\<lparr>db_faults := fs\<rparr>) u = identity_of sv db u"
  "identity_of sv (db\<lparr>db_users := y\<rparr>) u = identity_of sv db u"
  by (simp_all add: identity_of_def grants_of_def)

section \<open>Signing in\<close>

definition new_session :: "auth_service \<Rightarrow> instant \<Rightarrow> string \<Rightarrow> auth_session" where
  "new_session sv now user = \<lparr>se_user = user, se_created = to_ms now, se_expires = to_ms (now + sv_ttl sv), se_revoked = False\<rparr>"

definition with_session :: "crypto \<Rightarrow> string \<Rightarrow> auth_session \<Rightarrow> auth_db \<Rightarrow> auth_db" where
  "with_session cr tok s db = db\<lparr>db_sessions := AList.update (cr_hash_token cr tok) s (db_sessions db)\<rparr>"

lemma lift_execE:
  assumes "lift_store (db_exec f) db = (r, db')"
  obtains fs where "db' = f (db\<lparr>db_faults := fs\<rparr>)" "r = Inr ()"
  | fs where "db' = db\<lparr>db_faults := fs\<rparr>" "r = Inl (StoreError StoreFailed)"
  using assms by (auto simp: lift_store_def elim!: db_execE split: prod.splits sum.splits)

lemma mint_sessionE:
  assumes "mint_session cr sv now rnd user db = (r, db')"
  obtains fs tok where "rnd = Some tok" "r = Inr tok" "db' = with_session cr tok (new_session sv now user) (db\<lparr>db_faults := fs\<rparr>)"
  | fs where "isl r" "db' = db\<lparr>db_faults := fs\<rparr>"
proof (cases rnd)
  case None
  then have "isl r" "db' = db\<lparr>db_faults := db_faults db\<rparr>" using assms by (auto simp: mint_session_def db_fail_def)
  then show ?thesis by (rule that(2))
next
  case (Some tok)
  with assms show ?thesis
    by (auto simp: mint_session_def create_auth_session_def db_return_def with_session_def new_session_def
        elim!: db_thenE lift_execE intro: that)
qed

lemma sign_inE:
  assumes "sign_in cr sv now rnd u db = (r, db')"
  obtains fs tok where "rnd = Some tok" "r = Inr (tok, identity_of sv db u)"
    "db' = with_session cr tok (new_session sv now (us_id u)) (db\<lparr>db_faults := fs\<rparr>)"
  | fs where "isl r" "db' = db\<lparr>db_faults := fs\<rparr>"
proof -
  obtain ri db1 where ri: "identity_for sv u db = (ri, db1)" by fastforce
  with reads_identity_for obtain fs1 where db1: "db1 = db\<lparr>db_faults := fs1\<rparr>" "isl ri \<or> ri = Inr (identity_of sv db u)"
    by (rule readsE)
  show ?thesis
  proof (cases ri)
    case (Inl e)
    with assms ri have "r = Inl e" "db' = db1" by (auto simp: sign_in_def)
    then show ?thesis using that(2) [of fs1] db1 by simp
  next
    case (Inr i)
    obtain rm db2 where rm: "mint_session cr sv now rnd (us_id u) db1 = (rm, db2)" by fastforce
    have r: "r = (case rm of Inl e \<Rightarrow> Inl e | Inr tok \<Rightarrow> Inr (tok, i))" "db' = db2"
      using assms ri Inr rm by (auto simp: sign_in_def db_then_def db_return_def split: sum.splits)
    from rm show ?thesis
    proof (cases rule: mint_sessionE)
      case (1 fs tok)
      then show ?thesis using that(1) [of tok fs] r db1 Inr by simp
    next
      case (2 fs)
      then show ?thesis using that(2) [of fs] r db1 by (auto split: sum.splits)
    qed
  qed
qed

lemma sign_in_error:
  "sign_in cr sv now rnd u db = (Inl e, db') \<Longrightarrow> e = NoRandomness \<or> (\<exists>x. e = StoreError x)"
  by (auto simp: sign_in_def identity_for_def mint_session_def db_return_def db_fail_def lift_store_def
      elim!: db_thenE split: option.splits prod.splits sum.splits)

lemma new_session_ok:
  assumes "map_of (db_users db) (us_id u) = Some u" and "\<not> us_disabled u" and "to_ms t < to_ms (now + sv_ttl sv)"
  shows "session_ok cr sv t tok (with_session cr tok (new_session sv now (us_id u)) db) (identity_of sv db u)"
  using assms by (auto simp: session_ok_def with_session_def new_session_def)

section \<open>Login\<close>

lemma emailE:
  assumes "get_auth_user_by_email email db = (r, db')"
  obtains fs where "db' = db\<lparr>db_faults := fs\<rparr>"
    "\<And>u. r = Inr u \<Longrightarrow> u \<in> snd ` set (db_users db) \<and> us_email u = email \<and>
       (\<forall>v\<in>snd ` set (db_users db). us_email v = email \<longrightarrow>
          (us_origin u \<noteq> ''local'', us_id u) \<le> (us_origin v \<noteq> ''local'', us_id v))"
proof -
  let ?k = "\<lambda>u. (us_origin u \<noteq> ''local'', us_id u)"
  let ?us = "sort_key ?k (filter (\<lambda>u. us_email u = email) (map snd (db_users db)))"
  from assms obtain fs where fs: "db' = db\<lparr>db_faults := fs\<rparr>"
    "r = (case ?us of [] \<Rightarrow> Inl NotFound | u # _ \<Rightarrow> Inr u) \<or> r = Inl StoreFailed"
    unfolding get_auth_user_by_email_def by (elim db_queryE) auto
  show ?thesis
  proof (rule that [OF fs(1)])
    fix u assume "r = Inr u"
    with fs(2) obtain us where us: "?us = u # us" by (auto split: list.splits)
    have "set ?us = {v \<in> snd ` set (db_users db). us_email v = email}" by auto
    then have "set (u # us) = {v \<in> snd ` set (db_users db). us_email v = email}" by (simp only: us)
    moreover have "sorted (map ?k (u # us))" unfolding us [symmetric] by (rule sorted_sort_key)
    ultimately show "u \<in> snd ` set (db_users db) \<and> us_email u = email \<and>
        (\<forall>v\<in>snd ` set (db_users db). us_email v = email \<longrightarrow> ?k u \<le> ?k v)" by auto
  qed
qed

definition login_user :: "auth_db \<Rightarrow> string \<Rightarrow> auth_user \<Rightarrow> bool" where
  "login_user db email u \<longleftrightarrow> map_of (db_users db) (us_id u) = Some u \<and> us_email u = email \<and> us_origin u = ''local'' \<and>
     \<not> us_disabled u \<and>
     (\<forall>v\<in>snd ` set (db_users db). us_email v = email \<and> us_origin v = ''local'' \<longrightarrow> us_id u \<le> us_id v)"

lemma loginE:
  assumes "login cr sv check now rnd email pw ip db = (r, sv', db')"
    and "blocked (sv_limiter sv) (email @ ''|'' @ ip) ip (''login|'' @ email) check = (stop, lim)"
  obtains (refused) fs e where "r = Inl e" "db' = db\<lparr>db_faults := fs\<rparr>"
    "e = TooManyAttempts \<longleftrightarrow> stop"
    "sv' = sv\<lparr>sv_limiter := if e = InvalidCredentials then fail_attempt lim (email @ ''|'' @ ip) ip (''login|'' @ email) now else lim\<rparr>"
  | (signed_in) fs u where "\<not> stop" "u \<in> snd ` set (db_users db)" "us_email u = email"
    "\<forall>v\<in>snd ` set (db_users db). us_email v = email \<longrightarrow>
       (us_origin u \<noteq> ''local'', us_id u) \<le> (us_origin v \<noteq> ''local'', us_id v)"
    "check_password cr (us_hash u) pw" "\<not> us_disabled u" "us_origin u = ''local''"
    "sign_in cr sv now rnd u (db\<lparr>db_faults := fs\<rparr>) = (r, db')" "sv' = sv\<lparr>sv_limiter := lim\<rparr>"
proof (cases "stop \<or> \<not> db_up db")
  case True
  then show ?thesis using assms refused [of "if stop then TooManyAttempts else StoreUnavailable" "db_faults db"]
    by (auto simp: login_def Let_def split: if_splits)
next
  case False
  obtain ru db1 where ru: "get_auth_user_by_email email db = (ru, db1)" by fastforce
  then obtain fs where fs: "db1 = db\<lparr>db_faults := fs\<rparr>"
    "\<And>u. ru = Inr u \<Longrightarrow> u \<in> snd ` set (db_users db) \<and> us_email u = email \<and>
       (\<forall>v\<in>snd ` set (db_users db). us_email v = email \<longrightarrow>
          (us_origin u \<noteq> ''local'', us_id u) \<le> (us_origin v \<noteq> ''local'', us_id v))"
    by (rule emailE) blast
  show ?thesis
  proof (cases ru)
    case (Inl e)
    with False assms ru fs(1) show ?thesis
      by (cases e) (auto simp: login_def Let_def intro: refused [of InvalidCredentials fs] refused [of "StoreError StoreFailed" fs])
  next
    case (Inr u)
    show ?thesis
    proof (cases "check_password cr (us_hash u) pw \<and> \<not> us_disabled u \<and> us_origin u = ''local''")
      case True
      with False assms ru fs(1) Inr have "sign_in cr sv now rnd u (db\<lparr>db_faults := fs\<rparr>) = (r, db')" "sv' = sv\<lparr>sv_limiter := lim\<rparr>"
        by (auto simp: login_def Let_def split: prod.splits)
      then show ?thesis using signed_in [of u fs] True False fs(2) [OF Inr] by blast
    next
      case bad: False
      with False assms ru fs(1) Inr show ?thesis
        by (auto simp: login_def Let_def intro: refused [of InvalidCredentials fs])
    qed
  qed
qed

text \<open>C3. A login proves the password of the account it signs in: it succeeds only, and not
  when the limiter blocks, with the password of the enabled local account of that address
  with the lowest id, and what it returns is a cookie that resolves to that account's
  identity until the session's lifetime is over; every other session is as before. A login
  that does not succeed changes no table, and exactly the refusals for bad credentials are
  counted by the limiter.\<close>

theorem login_sound:
  assumes "db_ok db" and "login cr sv check now rnd email pw ip db = (r, sv', db')"
    and "blocked (sv_limiter sv) (email @ ''|'' @ ip) ip (''login|'' @ email) check = (stop, lim)"
  shows "(case r of
      Inr (tok, i) \<Rightarrow> \<not> stop \<and> (\<exists>u. login_user db email u \<and> check_password cr (us_hash u) pw \<and> i = identity_of sv db u) \<and>
        (\<forall>t. to_ms t < to_ms (now + sv_ttl sv) \<longrightarrow> session_ok cr sv t tok db' i) \<and>
        (\<forall>h. h \<noteq> cr_hash_token cr tok \<longrightarrow> map_of (db_sessions db') h = map_of (db_sessions db) h) \<and>
        db_users db' = db_users db
    | Inl e \<Rightarrow> (\<exists>fs. db' = db\<lparr>db_faults := fs\<rparr>) \<and> (e = TooManyAttempts \<longleftrightarrow> stop)) \<and>
    sv' = sv\<lparr>sv_limiter := if r = Inl InvalidCredentials
      then fail_attempt lim (email @ ''|'' @ ip) ip (''login|'' @ email) now else lim\<rparr>"
  using assms(2,3)
proof (cases rule: loginE)
  case (refused fs e)
  then show ?thesis by auto
next
  case (signed_in fs u)
  have row: "map_of (db_users db) (us_id u) = Some u" by (rule user_row [OF assms(1) signed_in(2)])
  with signed_in(3-7) have u: "login_user db email u" by (auto simp: login_user_def)
  from signed_in(8) show ?thesis
  proof (cases rule: sign_inE)
    case (1 fs2 tok)
    have "session_ok cr sv t tok db' (identity_of sv db u)" if "to_ms t < to_ms (now + sv_ttl sv)" for t
      using new_session_ok [of "db\<lparr>db_faults := fs2\<rparr>" u t now sv cr tok] row signed_in(6) that 1 by simp
    with u 1 signed_in show ?thesis by (auto simp: with_session_def)
  next
    case (2 fs2)
    have "r \<noteq> Inl InvalidCredentials \<and> r \<noteq> Inl TooManyAttempts"
      using signed_in(8) by (auto dest: sign_in_error)
    with 2 signed_in show ?thesis by (auto simp: isl_def)
  qed
qed

definition sample_login :: "(auth_error + string \<times> identity) \<times> auth_service \<times> auth_db" where
  "sample_login = login toy_crypto (new_service minute) 0 0 (Some ''k'') ''ann'' ''pw'' ''10.0.0.1'' sample_db"

lemma sample_login_result: "fst sample_login = Inr (''k'', sample_identity)"
  by code_simp

lemma sample_db_ok: "db_ok sample_db"
  by code_simp

theorem login_sound_witness:
  "session_ok toy_crypto (new_service minute) 0 ''k'' (snd (snd sample_login)) sample_identity"
proof -
  obtain sv' db' where run: "sample_login = (Inr (''k'', sample_identity), sv', db')"
    using sample_login_result by (metis prod.collapse)
  obtain stop lim where "blocked (sv_limiter (new_service minute)) (''ann'' @ ''|'' @ ''10.0.0.1'') ''10.0.0.1''
      (''login|'' @ ''ann'') 0 = (stop, lim)" by fastforce
  from login_sound [OF sample_db_ok run [unfolded sample_login_def] this]
  have "\<forall>t. to_ms t < to_ms (0 + sv_ttl (new_service minute)) \<longrightarrow>
      session_ok toy_crypto (new_service minute) t ''k'' db' sample_identity" by simp
  moreover have "to_ms 0 < to_ms (0 + sv_ttl (new_service minute))" by code_simp
  ultimately have "session_ok toy_crypto (new_service minute) 0 ''k'' db' sample_identity" by blast
  then show ?thesis by (simp add: run)
qed

section \<open>Password rotation\<close>

lemma map_of_fold_update:
  "wf_alist xs \<Longrightarrow> map_of (fold (\<lambda>(h, s). AList.update h (f s)) xs m) k =
     (case map_of xs k of None \<Rightarrow> map_of m k | Some s \<Rightarrow> Some (f s))"
proof (induction xs arbitrary: m)
  case (Cons x xs)
  obtain h s where x: "x = (h, s)" by fastforce
  then have "h \<notin> fst ` set xs" using Cons.prems by simp
  then have "map_of xs h = None" by (simp add: map_of_eq_None_iff)
  with x Cons show ?case by (auto split: option.splits)
qed simp

lemma map_of_filter_alist:
  "wf_alist m \<Longrightarrow> map_of (filter (\<lambda>(h, s). P s) m) k = (case map_of m k of None \<Rightarrow> None | Some s \<Rightarrow> if P s then Some s else None)"
proof (induction m)
  case (Cons x m)
  obtain h s where x: "x = (h, s)" by fastforce
  then have "h \<notin> fst ` set m" using Cons.prems by simp
  then have "map_of m h = None" by (simp add: map_of_eq_None_iff)
  with x Cons show ?case by (auto split: option.splits)
qed simp

definition swept :: "instant \<Rightarrow> string \<Rightarrow> auth_session \<Rightarrow> auth_session" where
  "swept now user s = (if se_user s = user \<and> live_session now s then s\<lparr>se_revoked := True\<rparr> else s)"

lemma sweepE:
  assumes "revoke_auth_sessions_for_user now user db = (r, db')" and "wf_alist (db_sessions db)"
  obtains fs ss where "r = Inr ()" "db' = db\<lparr>db_faults := fs, db_sessions := ss\<rparr>"
    "\<And>h. map_of ss h = map_option (swept now user) (map_of (db_sessions db) h)"
  | fs where "isl r" "db' = db\<lparr>db_faults := fs\<rparr>"
proof -
  let ?P = "\<lambda>s. se_user s = user \<and> live_session now s"
  let ?live = "filter (\<lambda>(h, s). ?P s) (db_sessions db)"
  let ?ss = "fold (\<lambda>(h, s). AList.update h (s\<lparr>se_revoked := True\<rparr>)) ?live (db_sessions db)"
  have wf: "wf_alist ?live" using assms(2) by (rule distinct_map_filter)
  have ss: "map_of ?ss h = map_option (swept now user) (map_of (db_sessions db) h)" for h
    by (simp add: map_of_fold_update [OF wf] map_of_filter_alist [OF assms(2)] swept_def split: option.split)
  have none: "map_of (db_sessions db) h = map_option (swept now user) (map_of (db_sessions db) h)" if "?live = []" for h
    using ss [of h] that by simp
  from assms(1) show ?thesis
    unfolding revoke_auth_sessions_for_user_def
  proof (elim db_thenE)
    fix x db1
    assume q: "db_query (\<lambda>db. Inr (filter (\<lambda>(h, s). ?P s) (db_sessions db))) db = (Inr x, db1)"
      and k: "(if x = [] then db_return () else db_exec (\<lambda>db. db\<lparr>db_sessions :=
           fold (\<lambda>(h, s). AList.update h (s\<lparr>se_revoked := True\<rparr>)) x (db_sessions db)\<rparr>)) db1 = (r, db')"
    from q obtain fs where fs: "db1 = db\<lparr>db_faults := fs\<rparr>" "x = ?live" by (elim db_queryE) auto
    show ?thesis
    proof (cases "x = []")
      case True
      then have k': "r = Inr ()" "db' = db1" using k by (auto simp: db_return_def)
      have live: "?live = []" using True fs(2) by simp
      show ?thesis
      proof (rule that(1))
        show "r = Inr ()" by (rule k')
        show "db' = db\<lparr>db_faults := fs, db_sessions := db_sessions db\<rparr>" using fs(1) k'(2) by (cases db) simp
        show "map_of (db_sessions db) h = map_option (swept now user) (map_of (db_sessions db) h)" for h
          by (rule none [OF live])
      qed
    next
      case False
      then show ?thesis using k fs ss by (auto elim!: db_execE intro: that)
    qed
  next
    fix e assume "db_query (\<lambda>db. Inr (filter (\<lambda>(h, s). ?P s) (db_sessions db))) db = (Inl e, db')" "r = Inl e"
    then show ?thesis by (auto elim!: db_queryE intro: that(2))
  qed
qed

lemma swept_dead: "swept now user s = t \<Longrightarrow> se_user t = user \<Longrightarrow> \<not> live_session now t"
  by (auto simp: swept_def live_session_def split: if_splits)

text \<open>What a rotation of the row \<open>u\<close> to the hash \<open>h\<close> leaves: it is what the three outcomes past
  the first write have in common.\<close>

definition rekeyed :: "auth_db \<Rightarrow> auth_user \<Rightarrow> string \<Rightarrow> auth_db \<Rightarrow> bool" where
  "rekeyed mid u h db' \<longleftrightarrow> map_of (db_users db') = (map_of (db_users mid))(us_id u \<mapsto> u\<lparr>us_hash := h\<rparr>)"

definition sessions_swept :: "instant \<Rightarrow> auth_db \<Rightarrow> string \<Rightarrow> string set \<Rightarrow> auth_db \<Rightarrow> bool" where
  "sessions_swept now mid user new db' \<longleftrightarrow>
     (\<forall>h. h \<notin> new \<longrightarrow> map_of (db_sessions db') h = map_option (swept now user) (map_of (db_sessions mid) h))"

lemma rotateE:
  assumes "rotate cr sv now rnd v db = (r, db')" and "wf_alist (db_sessions db)"
  obtains (saved) "db_users db' = AList.update (us_id v) v (db_users db)"
    "r = Inl RotatedSessionsLive" "db_sessions db' = db_sessions db"
  | (signed_out) "db_users db' = AList.update (us_id v) v (db_users db)" "r = Inl RotatedButSignedOut"
    "sessions_swept now db (us_id v) {} db'"
  | (done_all) tok mid where "db_users db' = AList.update (us_id v) v (db_users db)" "r = Inr tok"
    "db' = with_session cr tok (new_session sv now (us_id v)) mid" "sessions_swept now db (us_id v) {} mid"
    "map_of (db_users mid) (us_id v) = Some v" "db_grants mid = db_grants db"
  | (unsaved) fs where "r = Inl (StoreError StoreFailed)" "db' = db\<lparr>db_faults := fs\<rparr>"
proof -
  obtain r1 db1 where s1: "save_auth_user v db = (r1, db1)" by fastforce
  from s1 [unfolded save_auth_user_def] show ?thesis
  proof (cases rule: db_execE)
    case (2 fs)
    then show ?thesis using assms(1) s1 unsaved [of fs] by (simp add: rotate_def)
  next
    case (1 fs)
    then have db1: "db1 = db\<lparr>db_faults := fs, db_users := AList.update (us_id v) v (db_users db)\<rparr>" by simp
    obtain r2 db2 where s2: "revoke_auth_sessions_for_user now (us_id v) db1 = (r2, db2)" by fastforce
    have wf: "wf_alist (db_sessions db1)" using db1 assms(2) by simp
    from s2 wf show ?thesis
    proof (cases rule: sweepE)
      case (2 fs2)
      then show ?thesis using assms(1) s1 1 s2 db1 saved by (auto simp: rotate_def isl_def)
    next
      case (1 fs2 ss)
      obtain r3 db3 where s3: "mint_session cr sv now rnd (us_id v) db2 = (r3, db3)" by fastforce
      have sw: "sessions_swept now db (us_id v) {} (db2\<lparr>db_faults := f\<rparr>)" for f
        using 1 db1 by (simp add: sessions_swept_def)
      from s3 show ?thesis
      proof (cases rule: mint_sessionE)
        case m: (1 fs3 tok)
        have "r = Inr tok" "db' = db3" using assms(1) s1 \<open>r1 = Inr ()\<close> s2 1(1) s3 m(2) by (simp_all add: rotate_def)
        then show ?thesis using done_all [of tok "db2\<lparr>db_faults := fs3\<rparr>"] m(3) 1 db1 sw by (simp add: with_session_def)
      next
        case m: (2 fs3)
        then have "r = Inl RotatedButSignedOut" "db' = db3"
          using assms(1) s1 \<open>r1 = Inr ()\<close> s2 1(1) s3 by (auto simp: rotate_def isl_def)
        then show ?thesis using signed_out m(2) 1 db1 sw by simp
      qed
    qed
  qed
qed

definition half_applied :: "auth_error \<Rightarrow> bool" where
  "half_applied e \<longleftrightarrow> e = RotatedSessionsLive \<or> e = RotatedButSignedOut"

lemma changeE:
  assumes "change_password cr sv check now rnd salt meanwhile user current new ip db = (r, sv', db')"
  obtains (rejected) fs e where "r = Inl e" "\<not> half_applied e" "db' = db\<lparr>db_faults := fs\<rparr>"
  | (reached) fs u h where "map_of (db_users db) user = Some u" "us_origin u = ''local''" "us_id u \<noteq> demo_viewer_id"
    "\<not> us_disabled u" "check_password cr (us_hash u) current" "new \<noteq> []" "hash_password cr salt new = Some h"
    "rekey cr sv now rnd u h (meanwhile (db\<lparr>db_faults := fs\<rparr>)) = (r, db')"
proof -
  obtain stop lim where b: "blocked (sv_limiter sv) (''pw|'' @ user @ ''|'' @ ip) (''pw|'' @ ip) (''pw-acct|'' @ user) check
      = (stop, lim)" by fastforce
  show ?thesis
  proof (cases "stop \<or> \<not> db_up db")
    case True
    then show ?thesis using assms b rejected [of "if stop then TooManyAttempts else StoreUnavailable" "db_faults db"]
      by (auto simp: change_password_def Let_def half_applied_def split: if_splits)
  next
    case False
    obtain ru db1 where ru: "get_auth_user user db = (ru, db1)" by fastforce
    with reads_get_auth_user obtain fs where fs: "db1 = db\<lparr>db_faults := fs\<rparr>" "isl ru \<or> ru = found (map_of (db_users db) user)"
      by (rule readsE)
    show ?thesis
    proof (cases ru)
      case (Inl e)
      then show ?thesis using assms b ru fs(1) False rejected [of "StoreError e" fs]
        by (auto simp: change_password_def Let_def half_applied_def)
    next
      case (Inr u)
      then have u: "map_of (db_users db) user = Some u" using fs(2) by (auto simp: found_def split: option.splits)
      show ?thesis
      proof (cases "us_origin u = ''local'' \<and> us_id u \<noteq> demo_viewer_id \<and> \<not> us_disabled u \<and>
          check_password cr (us_hash u) current \<and> new \<noteq> [] \<and> hash_password cr salt new \<noteq> None")
        case True
        then obtain h where h: "hash_password cr salt new = Some h" by blast
        with True False assms b ru fs(1) Inr have "rekey cr sv now rnd u h (meanwhile (db\<lparr>db_faults := fs\<rparr>)) = (r, db')"
          by (auto simp: change_password_def Let_def split: prod.splits)
        then show ?thesis using reached [OF u, of h fs] True h by blast
      next
        case bad: False
        with False assms b ru fs(1) Inr show ?thesis
          by (auto simp: change_password_def Let_def half_applied_def split: if_splits
              intro: rejected [of ExternalPassword fs] rejected [of DemoUser fs] rejected [of InvalidCredentials fs] rejected [of PasswordUnusable fs])
      qed
    qed
  qed
qed

lemma rekeyE:
  assumes "rekey cr sv now rnd u h mid = (r, db')"
  obtains (moved) fs where "r = Inl InvalidCredentials" "db' = mid\<lparr>db_faults := fs\<rparr>"
  | (same) fs v where "map_of (db_users mid) (us_id u) = Some v" "\<not> us_disabled v" "us_hash v = us_hash u"
    "rotate cr sv now rnd (v\<lparr>us_hash := h\<rparr>) (mid\<lparr>db_faults := fs\<rparr>) = (r, db')"
proof -
  obtain ru db1 where ru: "get_auth_user (us_id u) mid = (ru, db1)" by fastforce
  with reads_get_auth_user obtain fs where fs: "db1 = mid\<lparr>db_faults := fs\<rparr>" "isl ru \<or> ru = found (map_of (db_users mid) (us_id u))"
    by (rule readsE)
  show ?thesis
  proof (cases ru)
    case (Inl e)
    then show ?thesis using assms ru fs(1) moved [of fs] by (auto simp: rekey_def)
  next
    case (Inr v)
    then have "map_of (db_users mid) (us_id u) = Some v" using fs(2) by (auto simp: found_def split: option.splits)
    then show ?thesis using assms ru fs(1) Inr moved [of fs] same [of v fs] by (auto simp: rekey_def split: if_splits)
  qed
qed

text \<open>The row that was rotated: as the tables had it when bcrypt was done, enabled and still
  under the password that was proved.\<close>

definition proved_row :: "crypto \<Rightarrow> string \<Rightarrow> string \<Rightarrow> auth_db \<Rightarrow> auth_user \<Rightarrow> bool" where
  "proved_row cr user current mid v \<longleftrightarrow> map_of (db_users mid) user = Some v \<and> us_id v = user \<and> user \<noteq> demo_viewer_id \<and>
     \<not> us_disabled v \<and> check_password cr (us_hash v) current"

lemma identity_of_hash [simp]: "identity_of sv db (u\<lparr>us_hash := h\<rparr>) = identity_of sv db u"
  by (simp add: identity_of_def mapped_grants_def split: option.split)

lemma identity_of_grants: "db_grants db' = db_grants db \<Longrightarrow> identity_of sv db' u = identity_of sv db u"
  by (simp add: identity_of_def grants_of_def)

text \<open>C38. Rotating a password is all or told: when it succeeds, the row that is rewritten is
  the one in the tables after the slow hashing (still enabled, still under the password that
  was proved, so a concurrent disable, deletion or reset is never undone), every session that
  user had is dead, all others are as before, and the returned cookie resolves to the user.
  The only errors after the new hash is in are the two that say so, and one of them with the
  sessions swept; any other error leaves the users and sessions as they were.\<close>

theorem change_password_outcome:
  assumes "db_ok db" and mw: "\<And>d. db_ok d \<Longrightarrow> db_ok (meanwhile d)"
    and "change_password cr sv check now rnd salt meanwhile user current new ip db = (r, sv', db')"
  shows "(case r of
      Inr tok \<Rightarrow> \<exists>fs v h. let mid = meanwhile (db\<lparr>db_faults := fs\<rparr>) in
        proved_row cr user current mid v \<and> hash_password cr salt new = Some h \<and> rekeyed mid v h db' \<and>
        sessions_swept now mid user {cr_hash_token cr tok} db' \<and>
        (\<forall>t. to_ms t < to_ms (now + sv_ttl sv) \<longrightarrow> session_ok cr sv t tok db' (identity_of sv mid v))
    | Inl e \<Rightarrow>
        if half_applied e then \<exists>fs v h. let mid = meanwhile (db\<lparr>db_faults := fs\<rparr>) in
          proved_row cr user current mid v \<and> hash_password cr salt new = Some h \<and> rekeyed mid v h db' \<and>
          (e = RotatedButSignedOut \<longrightarrow> sessions_swept now mid user {} db')
        else \<exists>fs fs2. db' = db\<lparr>db_faults := fs\<rparr> \<or> db' = (meanwhile (db\<lparr>db_faults := fs\<rparr>))\<lparr>db_faults := fs2\<rparr>)"
  using assms(3)
proof (cases rule: changeE)
  case (rejected fs e)
  then show ?thesis by auto
next
  case (reached fs u h)
  let ?mid = "meanwhile (db\<lparr>db_faults := fs\<rparr>)"
  have id: "us_id u = user" by (rule user_id [OF assms(1) reached(1)])
  have ok: "db_ok ?mid" by (rule mw) (simp add: assms(1))
  from reached(8) show ?thesis
  proof (cases rule: rekeyE)
    case (moved fs2)
    then show ?thesis by (auto simp: half_applied_def)
  next
    case (same fs2 v)
    have v: "us_id v = user" using user_id [OF ok] same(1) id by simp
    with same id reached have row: "proved_row cr user current ?mid v" by (simp add: proved_row_def)
    have wf: "wf_alist (db_sessions (?mid\<lparr>db_faults := fs2\<rparr>))" using ok by (simp add: db_ok_def)
    from same(4) wf show ?thesis
    proof (cases rule: rotateE)
      case saved
      then have "rekeyed ?mid v h db'" by (simp add: rekeyed_def)
      with saved row reached(7) show ?thesis by (auto simp: half_applied_def Let_def)
    next
      case signed_out
      then have "rekeyed ?mid v h db'" "sessions_swept now ?mid user {} db'" by (simp_all add: rekeyed_def sessions_swept_def v)
      with signed_out row reached(7) show ?thesis by (auto simp: half_applied_def Let_def)
    next
      case (done_all tok mid)
      then have "rekeyed ?mid v h db'" "sessions_swept now ?mid user {cr_hash_token cr tok} db'"
        by (simp_all add: rekeyed_def sessions_swept_def v with_session_def)
      moreover have "session_ok cr sv t tok db' (identity_of sv ?mid v)" if "to_ms t < to_ms (now + sv_ttl sv)" for t
        using new_session_ok [of mid "v\<lparr>us_hash := h\<rparr>" t now sv cr tok] that same(2) done_all identity_of_grants [of mid ?mid sv v]
        by simp
      ultimately show ?thesis using done_all(2) row reached(7) by (auto simp: Let_def)
    next
      case (unsaved fs3)
      then show ?thesis by (auto simp: half_applied_def)
    qed
  qed
qed

definition sample_change :: "(auth_error + string) \<times> auth_service \<times> auth_db" where
  "sample_change = change_password toy_crypto (new_service minute) 0 0 (Some ''k'') [] id ''u1'' ''pw'' ''pw2'' ''10.0.0.1'' sample_db"

lemma sample_change_result: "fst sample_change = Inr ''k''"
  by code_simp

theorem change_password_outcome_witness:
  "\<exists>fs v h. let mid = id (sample_db\<lparr>db_faults := fs\<rparr>) in
     proved_row toy_crypto ''u1'' ''pw'' mid v \<and> hash_password toy_crypto [] ''pw2'' = Some h \<and>
     rekeyed mid v h (snd (snd sample_change)) \<and>
     sessions_swept 0 mid ''u1'' {cr_hash_token toy_crypto ''k''} (snd (snd sample_change))"
proof -
  obtain sv' db' where run: "sample_change = (Inr ''k'', sv', db')"
    using sample_change_result by (metis prod.collapse)
  from change_password_outcome [OF sample_db_ok _ run [unfolded sample_change_def]]
  show ?thesis by (auto simp: run Let_def)
qed

section \<open>Single sign-on\<close>

lemma lift_saveE:
  assumes "lift_store (save_auth_user u) db = (r, db')"
  obtains fs where "r = Inr ()" "db' = db\<lparr>db_faults := fs, db_users := AList.update (us_id u) u (db_users db)\<rparr>"
  | fs where "r = Inl (StoreError StoreFailed)" "db' = db\<lparr>db_faults := fs\<rparr>"
  using assms unfolding save_auth_user_def by (elim lift_execE) (auto intro: that)

text \<open>C30. Single sign-on never lifts a lockout and never touches a grant or another account:
  a completed sign-on is of an account that was not disabled when it was read, writes one
  user row (an \<open>oidc\<close> one, without a password, with the groups the provider sent) under the
  provider's own key space, and returns a cookie for an identity with the stored grants and
  the mapped groups; one that is refused as disabled writes nothing.\<close>

theorem complete_sso_scoped:
  assumes "complete_sso cr sv now rnd ext db = (r, db')"
  shows "db_grants db' = db_grants db \<and>
    (\<forall>i. i \<noteq> sso_id ext \<longrightarrow> map_of (db_users db') i = map_of (db_users db) i) \<and>
    (case r of
      Inr (tok, i) \<Rightarrow>
        map_of (db_users db') (sso_id ext) = Some (sso_user ext) \<and> i = identity_of sv db (sso_user ext) \<and>
        (\<forall>old. map_of (db_users db) (sso_id ext) = Some old \<longrightarrow> \<not> us_disabled old) \<and>
        (\<forall>t. to_ms t < to_ms (now + sv_ttl sv) \<longrightarrow> session_ok cr sv t tok db' i)
    | Inl e \<Rightarrow> db_sessions db' = db_sessions db \<and>
        (e = InvalidCredentials \<longrightarrow> (\<exists>fs. db' = db\<lparr>db_faults := fs\<rparr>)))"
proof -
  obtain ru db1 where ru: "get_auth_user (sso_id ext) db = (ru, db1)" by fastforce
  with reads_get_auth_user obtain fs
    where fs: "db1 = db\<lparr>db_faults := fs\<rparr>" "isl ru \<or> ru = found (map_of (db_users db) (sso_id ext))"
    by (rule readsE)
  have nf: "ru = Inl NotFound \<Longrightarrow> map_of (db_users db) (sso_id ext) = None"
    using ru unfolding get_auth_user_def by (elim db_queryE) (auto simp: found_def split: option.splits)
  consider (refused) e where "r = Inl e" "db' = db\<lparr>db_faults := db_faults db\<rparr> \<or> db' = db1"
    | (go) "finish_sso cr sv now rnd ext db1 = (r, db')" "\<forall>old. map_of (db_users db) (sso_id ext) = Some old \<longrightarrow> \<not> us_disabled old"
    using assms ru nf fs(2)
    by (cases ru) (auto simp: complete_sso_def with_store_def found_def split: if_splits store_error.splits option.splits)
  then show ?thesis
  proof cases
    case refused
    then show ?thesis using fs(1) by auto
  next
    case go
    obtain rs db2 where rs: "lift_store (save_auth_user (sso_user ext)) db1 = (rs, db2)" by fastforce
    then show ?thesis
    proof (cases rule: lift_saveE)
      case (2 fs2)
      then have "r = Inl (StoreError StoreFailed)" "db' = db2" using go(1) rs by (auto simp: finish_sso_def)
      then show ?thesis using 2 fs(1) by simp
    next
      case (1 fs2)
      have id: "us_id (sso_user ext) = sso_id ext" by (simp add: sso_user_def)
      have si: "sign_in cr sv now rnd (sso_user ext) db2 = (r, db')" using go(1) rs 1(1) by (simp add: finish_sso_def)
      then show ?thesis
      proof (cases rule: sign_inE)
        case s: (1 fs3 tok)
        have "session_ok cr sv t tok db' (identity_of sv db2 (sso_user ext))" if "to_ms t < to_ms (now + sv_ttl sv)" for t
          using new_session_ok [of "db2\<lparr>db_faults := fs3\<rparr>" "sso_user ext" t now sv cr tok] that 1 s
          by (simp add: id) (simp add: sso_user_def)
        with 1 s fs(1) go(2) id show ?thesis by (auto simp: with_session_def)
      next
        case s: (2 fs3)
        with 1 fs(1) id si show ?thesis by (auto simp: isl_def dest: sign_in_error)
      qed
    qed
  qed
qed

definition sample_sso :: external_identity where
  "sample_sso = \<lparr>ex_subject = ''42'', ex_email = ''bob'', ex_name = ''Bob'', ex_groups = [''dev'']\<rparr>"

lemma sample_sso_result:
  "fst (complete_sso toy_crypto (new_service minute) 0 (Some ''k'') sample_sso sample_db) =
     Inr (''k'', identity_of (new_service minute) sample_db (sso_user sample_sso))"
  by code_simp

theorem complete_sso_scoped_witness:
  "map_of (db_users (snd (complete_sso toy_crypto (new_service minute) 0 (Some ''k'') sample_sso sample_db))) ''oidc|42'' =
     Some (sso_user sample_sso)"
proof -
  obtain db' where run: "complete_sso toy_crypto (new_service minute) 0 (Some ''k'') sample_sso sample_db =
      (Inr (''k'', identity_of (new_service minute) sample_db (sso_user sample_sso)), db')"
    using sample_sso_result by (metis prod.collapse)
  have "sso_id sample_sso = ''oidc|42''" by code_simp
  with complete_sso_scoped [OF run] run show ?thesis by simp
qed

section \<open>Startup\<close>

definition only_demo :: "auth_db \<Rightarrow> bool" where
  "only_demo db \<longleftrightarrow> (\<forall>u\<in>snd ` set (db_users db). us_id u = demo_viewer_id)"

definition admin_user :: "string \<Rightarrow> auth_user" where
  "admin_user h = \<lparr>us_id = bootstrap_admin_id, us_email = ''admin'', us_name = ''Administrator'', us_hash = h,
     us_origin = ''local'', us_disabled = False, us_groups = []\<rparr>"

definition demo_user :: "string \<Rightarrow> string \<Rightarrow> auth_user" where
  "demo_user email h = \<lparr>us_id = demo_viewer_id, us_email = email, us_name = ''Demo (read-only)'', us_hash = h,
     us_origin = ''local'', us_disabled = False, us_groups = []\<rparr>"

definition with_account :: "auth_user \<Rightarrow> string \<times> string \<Rightarrow> auth_db \<Rightarrow> auth_db" where
  "with_account u g db = db\<lparr>db_grants := AList.update (us_id u) [g] (db_grants db),
     db_users := AList.update (us_id u) u (db_users db)\<rparr>"

text \<open>The two writes both startup accounts are made with, the grant first.\<close>

definition write_account :: "auth_user \<Rightarrow> string \<times> string \<Rightarrow> unit auth_op" where
  "write_account u g = db_then (lift_store (replace_auth_grants (us_id u) [g])) (\<lambda>_. lift_store (save_auth_user u))"

lemma replace_one_grantE:
  assumes "lift_store (replace_auth_grants i [g]) db = (r, db')"
  obtains fs where "r = Inr ()" "db' = db\<lparr>db_faults := fs, db_grants := AList.update i [g] (db_grants db)\<rparr>"
  | fs where "isl r" "db' = db\<lparr>db_faults := fs\<rparr>"
proof -
  obtain r2 where "replace_auth_grants i [g] db = (r2, db')" "isl r = isl r2" "r2 = Inr () \<Longrightarrow> r = Inr ()"
    using assms by (auto simp: lift_store_def split: prod.splits sum.splits)
  then show ?thesis
    unfolding replace_auth_grants_def
    by (cases g) (auto elim!: db_thenE db_execE readsE [OF reads_list_auth_grants] intro: that)
qed

lemma write_accountE:
  assumes "write_account u g db = (r, db')"
  obtains fs where "r = Inr ()" "db' = with_account u g (db\<lparr>db_faults := fs\<rparr>)"
  | "isl r" "db_users db' = db_users db"
proof -
  obtain r1 db1 where r1: "lift_store (replace_auth_grants (us_id u) [g]) db = (r1, db1)" by fastforce
  then show ?thesis
  proof (cases rule: replace_one_grantE)
    case (1 fs)
    then have "lift_store (save_auth_user u) db1 = (r, db')" using assms r1 by (simp add: write_account_def)
    then show ?thesis
    proof (cases rule: lift_saveE)
      case s: (1 fs2)
      with 1 show ?thesis using that(1) [of fs2] by (simp add: with_account_def)
    next
      case (2 fs2)
      with 1 show ?thesis using that(2) by simp
    qed
  next
    case (2 fs)
    with assms r1 have "isl r" "db' = db1" by (auto simp: write_account_def isl_def)
    with 2 that(2) show ?thesis by simp
  qed
qed

lemma write_account_quiet:
  "db_faults db = [] \<Longrightarrow> write_account u g db = (Inr (), with_account u g db)"
  by (cases g) (simp add: write_account_def replace_auth_grants_def save_auth_user_def list_auth_grants_def
      lift_store_def db_then_def with_account_def)

lemma bootstrap_eq:
  "bootstrap cr salt pw = with_store (db_then (lift_store list_auth_users)
     (\<lambda>users. if list_ex (\<lambda>u. us_id u \<noteq> demo_viewer_id) users then db_return False
       else case hash_password cr salt pw of
         None \<Rightarrow> db_fail HashFailed
       | Some h \<Rightarrow> db_then (write_account (admin_user h) (''*'', role_admin)) (\<lambda>_. db_return True)))"
proof -
  have id: "us_id (admin_user h) = bootstrap_admin_id" for h by (simp add: admin_user_def)
  show ?thesis unfolding bootstrap_def write_account_def id db_then_assoc unfolding admin_user_def ..
qed

lemma ensure_demo_user_eq:
  "ensure_demo_user cr salt email pw = with_store (case hash_password cr salt pw of
     None \<Rightarrow> db_fail HashFailed | Some h \<Rightarrow> write_account (demo_user email h) (''demo'', role_viewer))"
proof -
  have id: "us_id (demo_user email h) = demo_viewer_id" for h by (simp add: demo_user_def)
  show ?thesis unfolding ensure_demo_user_def write_account_def id unfolding demo_user_def ..
qed

lemma only_demo_list: "list_ex (\<lambda>u. us_id u \<noteq> demo_viewer_id) (sort_key us_email (map snd (db_users db))) \<longleftrightarrow> \<not> only_demo db"
  by (auto simp: only_demo_def list_ex_iff)

text \<open>No start locks an install out of its admin: the bootstrap reports a created admin
  only with both its rows written (the global grant and an enabled local account under the
  password given); as long as it fails, whichever call fails, no user but the demo account
  exists and the next start tries again; and once any other user exists it changes nothing.\<close>

theorem bootstrap_decides:
  assumes "bootstrap cr salt pw db = (r, db')"
  shows "(r = Inr True \<longrightarrow> only_demo db \<and> (\<exists>h. hash_password cr salt pw = Some h \<and>
      map_of (db_users db') bootstrap_admin_id = Some (admin_user h) \<and> is_admin (identity_of sv db' (admin_user h)))) \<and>
    (r = Inr False \<longrightarrow> \<not> only_demo db) \<and>
    (isl r \<and> only_demo db \<longrightarrow> only_demo db') \<and>
    (\<not> only_demo db \<longrightarrow> (\<exists>fs. db' = db\<lparr>db_faults := fs\<rparr>))"
proof (cases "db_up db")
  case False
  then have "r = Inl StoreUnavailable" "db' = db" using assms by (simp_all add: bootstrap_eq with_store_def)
  then show ?thesis by simp
next
  case True
  obtain ru db1 where ru: "lift_store list_auth_users db = (ru, db1)" by fastforce
  with reads_lift [OF reads_list_auth_users] obtain fs where db1: "db1 = db\<lparr>db_faults := fs\<rparr>"
    and users: "isl ru \<or> ru = store_value (\<lambda>db. Inr (sort_key us_email (map snd (db_users db)))) db" by (rule readsE)
  show ?thesis
  proof (cases ru)
    case (Inl e)
    then have "r = Inl e" "db' = db1" using assms True ru by (simp_all add: bootstrap_eq with_store_def)
    then show ?thesis using db1 by (auto simp: only_demo_def)
  next
    case (Inr us)
    then have us: "us = sort_key us_email (map snd (db_users db))" using users by (simp add: store_value_def)
    have run: "(if \<not> only_demo db then db_return False else case hash_password cr salt pw of
         None \<Rightarrow> db_fail HashFailed
       | Some h \<Rightarrow> db_then (write_account (admin_user h) (''*'', role_admin)) (\<lambda>_. db_return True)) db1 = (r, db')"
      using assms True ru Inr unfolding us by (simp add: bootstrap_eq with_store_def only_demo_list)
    show ?thesis
    proof (cases "only_demo db \<and> hash_password cr salt pw \<noteq> None")
      case False
      then show ?thesis using run db1 by (auto simp: db_return_def db_fail_def only_demo_def split: if_splits)
    next
      case t: True
      then obtain h where h: "hash_password cr salt pw = Some h" by blast
      obtain rw db2 where rw: "write_account (admin_user h) (''*'', role_admin) db1 = (rw, db2)" by fastforce
      then show ?thesis
      proof (cases rule: write_accountE)
        case (1 fs2)
        have "is_admin (identity_of sv db2 (admin_user h))"
          by (simp add: 1 is_admin_def identity_of_def with_account_def grants_of_def known_grants_def parse_role_def role_defs)
        moreover have "r = Inr True" "db' = db2" using run t h rw 1(1) by (simp_all add: db_return_def)
        ultimately show ?thesis using t h 1 by (simp add: with_account_def admin_user_def)
      next
        case 2
        then have "r \<noteq> Inr True" "r \<noteq> Inr False" "db' = db2" using run t h rw by (auto simp: isl_def)
        then show ?thesis using t 2 db1 by (simp add: only_demo_def)
      qed
    qed
  qed
qed

lemma sample_bootstrap: "fst (bootstrap toy_crypto [] ''pw'' (empty_db\<lparr>db_faults := [False, False]\<rparr>)) = Inr True"
  by code_simp

theorem bootstrap_decides_witness:
  "\<exists>h. hash_password toy_crypto [] ''pw'' = Some h \<and>
     map_of (db_users (snd (bootstrap toy_crypto [] ''pw'' (empty_db\<lparr>db_faults := [False, False]\<rparr>)))) bootstrap_admin_id =
       Some (admin_user h)"
proof -
  obtain db' where run: "bootstrap toy_crypto [] ''pw'' (empty_db\<lparr>db_faults := [False, False]\<rparr>) = (Inr True, db')"
    using sample_bootstrap by (metis prod.collapse)
  from bootstrap_decides [OF run, of "new_service minute"] show ?thesis unfolding run by auto
qed

lemma only_demo_with_demo: "only_demo db \<Longrightarrow> only_demo (with_account (demo_user email h) g db)"
  using set_alist_update [of demo_viewer_id "demo_user email h" "db_users db"]
  by (auto simp: only_demo_def with_account_def demo_user_def)

text \<open>The startup accounts do not depend on which of the two startup goroutines is first:
  on a fresh install, or one that holds the demo account only, both orders of the bootstrap
  and the demo refresh create the admin and leave the same users and the same grants.\<close>

theorem startup_order_independent:
  assumes "only_demo db" and "db_up db" and "db_faults db = []"
    and "hash_password cr s1 pw1 = Some h1" and "hash_password cr s2 pw2 = Some h2"
  shows "let (ra, da) = bootstrap cr s1 pw1 db; (rb, dab) = ensure_demo_user cr s2 email pw2 da;
             (rc, dc) = ensure_demo_user cr s2 email pw2 db; (rd, dcd) = bootstrap cr s1 pw1 dc
         in ra = Inr True \<and> rd = Inr True \<and> rb = Inr () \<and> rc = Inr () \<and>
            map_of (db_users dab) = map_of (db_users dcd) \<and> map_of (db_grants dab) = map_of (db_grants dcd) \<and>
            map_of (db_users dab) bootstrap_admin_id = Some (admin_user h1)"
proof -
  let ?A = "with_account (admin_user h1) (''*'', role_admin)"
  let ?D = "with_account (demo_user email h2) (''demo'', role_viewer)"
  have boot: "bootstrap cr s1 pw1 d = (Inr True, ?A d)" if "only_demo d" "db_up d" "db_faults d = []" for d
    using that assms(4) reads_quiet [OF reads_lift [OF reads_list_auth_users], of d]
    by (simp add: bootstrap_eq with_store_def store_value_def only_demo_list write_account_quiet db_return_def)
  have demo: "ensure_demo_user cr s2 email pw2 d = (Inr (), ?D d)" if "db_up d" "db_faults d = []" for d
    using that assms(5) by (simp add: ensure_demo_user_eq with_store_def write_account_quiet)
  have keep: "db_up (with_account u g d) = db_up d" "db_faults (with_account u g d) = db_faults d" for u g d
    by (simp_all add: with_account_def)
  have ids: "us_id (admin_user h1) \<noteq> us_id (demo_user email h2)"
    by (simp add: admin_user_def demo_user_def bootstrap_admin_id_def demo_viewer_id_def)
  have "map_of (db_users (?D (?A db))) = map_of (db_users (?A (?D db)))"
    "map_of (db_grants (?D (?A db))) = map_of (db_grants (?A (?D db)))"
    using ids by (simp_all add: with_account_def fun_upd_twist)
  moreover have "map_of (db_users (?D (?A db))) bootstrap_admin_id = Some (admin_user h1)"
    by (simp add: with_account_def admin_user_def demo_user_def bootstrap_admin_id_def demo_viewer_id_def)
  ultimately show ?thesis
    by (simp add: boot demo assms keep only_demo_with_demo)
qed

theorem startup_order_independent_witness:
  "map_of (db_users (snd (ensure_demo_user toy_crypto [] ''demo'' ''d'' (snd (bootstrap toy_crypto [] ''pw'' empty_db))))) bootstrap_admin_id =
     Some (admin_user ''$pw'')"
proof -
  have "only_demo empty_db" "db_up empty_db" "db_faults empty_db = []"
    "hash_password toy_crypto [] ''pw'' = Some ''$pw''" "hash_password toy_crypto [] ''d'' = Some ''$d''"
    by code_simp+
  from startup_order_independent [OF this, of "''demo''"] show ?thesis unfolding case_prod_beta Let_def by (elim conjE)
qed

end
