(* ===== verification/OAuthServer.thy ===== *)
theory OAuthServer
  imports Credentials OAuthProtocol Registrar
begin

text \<open>
  The authorization server's handlers (hub/internal/api/oauth_flow.go, oauth_token.go,
  oauth_register.go, oauth_grants.go) over the store of AuthStore: registration, the authorize
  page, consent, the exchange of a code, the rotation of a refresh token and both ways to
  revoke. A handler takes the parsed request (a query or a posted form), the instant of the
  request and the random text of the secrets it mints; it returns what it answers and the
  tables. The process-wide claim map is passed along. What is written to the HTTP response
  is a value: a page to show, a redirect to make, a document or an error.
\<close>

section \<open>Answers\<close>

datatype refusal =
    CodeRequired | UnknownCode | CodeReplayed | CodeExpired | WrongClient | WrongRedirect | WrongResource
  | WrongVerifier | CodeUsed | RefreshRequired | UnknownRefresh | NotARefreshToken | RefreshExpired
  | RefreshWrongClient | UnknownGrantType | NothingToShare | RegistryUnreadable | StoreDown | UnknownClient
  | Invalid oauth_reason

datatype api_error =
    Refused oauth_code refusal
  | Forbidden string
  | Disabled
  | RateLimited
  | BadBody
  | ApiFailed auth_error

type_synonym 'a api_op = "auth_db \<Rightarrow> (api_error + 'a) \<times> auth_db"

definition lift_api :: "'a db_op \<Rightarrow> 'a api_op" where
  "lift_api m db = (case m db of (Inl e, db1) \<Rightarrow> (Inl (ApiFailed (StoreError e)), db1) | (Inr x, db1) \<Rightarrow> (Inr x, db1))"

definition api_store :: "'a api_op \<Rightarrow> 'a api_op" where
  "api_store m db = (if db_up db then m db else (Inl (ApiFailed StoreUnavailable), db))"

definition refuse :: "refusal \<Rightarrow> 'a api_op" where
  "refuse why db = (Inl (Refused InvalidGrant why), db)"

record token_response =
  tr_access :: string
  tr_token_type :: string
  tr_expires_in :: int
  tr_refresh :: string
  tr_scope :: string

section \<open>Registration\<close>

definition register_client :: "bool \<Rightarrow> registrar \<Rightarrow> instant \<Rightarrow> string \<Rightarrow> string \<Rightarrow> registration option \<Rightarrow> auth_db \<Rightarrow>
    (api_error + oauth_client) \<times> registrar \<times> auth_db" where
  "register_client enabled reg now ip new_id body db =
     (if \<not> enabled then (Inl Disabled, reg, db)
      else case registrar_allow reg ip now of (ok, reg1) \<Rightarrow>
        if \<not> ok then (Inl RateLimited, reg1, db)
        else case body of
          None \<Rightarrow> (Inl BadBody, reg1, db)
        | Some r \<Rightarrow>
            (case validate_registration r of
               Inl (code, why) \<Rightarrow> (Inl (Refused code (Invalid why)), reg1, db)
             | Inr v \<Rightarrow>
                 let c = \<lparr>oc_id = new_id, oc_name = rg_client_name v, oc_redirects = rg_redirect_uris v,
                   oc_grant_types = rg_grant_types v, oc_auth_method = rg_auth_method v, oc_secret_hash = [],
                   oc_scope = rg_scope v, oc_software_id = rg_software_id v, oc_client_uri = rg_client_uri v,
                   oc_logo_uri = rg_logo_uri v, oc_registered_ip = ip, oc_last_used = zero_time, oc_revoked = False,
                   oc_created = now\<rparr>
                 in case api_store (db_then (lift_api (create_oauth_client c)) (\<lambda>_. db_return c)) db of
                   (res, db1) \<Rightarrow> (res, reg1, db1)))"

section \<open>The authorize page\<close>

definition registered_redirects :: "string \<Rightarrow> string list option api_op" where
  "registered_redirects cid =
     (if trim_space cid = [] then db_return None
      else api_store (\<lambda>db. case get_oauth_client cid db of
          (Inl NotFound, db1) \<Rightarrow> (Inr None, db1)
        | (Inl e, db1) \<Rightarrow> (Inl (ApiFailed (StoreError e)), db1)
        | (Inr c, db1) \<Rightarrow> (Inr (Some (oc_redirects c)), db1)))"

definition session_identity :: "crypto \<Rightarrow> auth_service \<Rightarrow> instant \<Rightarrow> string option \<Rightarrow> auth_db \<Rightarrow> identity option \<times> auth_db" where
  "session_identity cr sv now cookie db =
     (case cookie of
        None \<Rightarrow> (None, db)
      | Some v \<Rightarrow> if v = [] then (None, db)
          else case identity_from_token cr sv now v db of
            (Inl _, db1) \<Rightarrow> (None, db1) | (Inr i, db1) \<Rightarrow> (Some i, db1))"

definition holds_anywhere :: "identity \<Rightarrow> role \<Rightarrow> bool" where
  "holds_anywhere i need = list_ex (\<lambda>g. role_allows (g_role g) need) (id_grants i)"

text \<open>Where the browser is sent: back to the client with an error, to sign in with the request
  to come back with, or to the consent page with it.\<close>

datatype authorize_page =
  ErrorRedirect string string oauth_error | SignIn query | Consent query

definition handle_authorize :: "crypto \<Rightarrow> auth_service \<Rightarrow> string \<Rightarrow> instant \<Rightarrow> string option \<Rightarrow> query \<Rightarrow>
    authorize_page api_op" where
  "handle_authorize cr sv public now cookie q =
     db_then (registered_redirects (q_get q ''client_id''))
       (\<lambda>registered db. case parse_authorize q registered (resource_uri public) of
          Inl (code, why) \<Rightarrow>
            (if redirectable code then Inr (ErrorRedirect (q_get q ''redirect_uri'') (q_get q ''state'') (code, why))
             else Inl (Refused code (Invalid why)), db)
        | Inr req \<Rightarrow>
            (case session_identity cr sv now cookie db of
               (None, db1) \<Rightarrow> (Inr (SignIn (authorize_values req)), db1)
             | (Some i, db1) \<Rightarrow>
                 if \<not> holds_anywhere i role_viewer then (Inl (Refused AccessDenied NothingToShare), db1)
                 else (Inr (Consent (authorize_values req)), db1)))"

section \<open>Consent\<close>

definition default_tenant :: string where "default_tenant = ''default''"

definition granted_projects :: "string list \<Rightarrow> identity option \<Rightarrow> string list" where
  "granted_projects declared i =
     (case i of
        None \<Rightarrow> []
      | Some x \<Rightarrow>
          if project_scopes x \<noteq> [] then project_scopes x
          else dedup (default_tenant # filter (\<lambda>p. p \<noteq> []) declared))"

definition default_project :: "string list \<Rightarrow> string" where
  "default_project projects =
     (if default_tenant \<in> set projects then default_tenant
      else case projects of p # _ \<Rightarrow> p | [] \<Rightarrow> default_tenant)"

definition parse_consent :: "string \<Rightarrow> query \<Rightarrow> (authorize_request \<times> oauth_client) api_op" where
  "parse_consent public q db =
     (case registered_redirects (q_get q ''client_id'') db of
        (Inl _, db1) \<Rightarrow> (Inl (Refused ServerError RegistryUnreadable), db1)
      | (Inr registered, db1) \<Rightarrow>
          (case parse_authorize q registered (resource_uri public) of
             Inl (code, why) \<Rightarrow> (Inl (Refused code (Invalid why)), db1)
           | Inr req \<Rightarrow>
               if \<not> db_up db1 then (Inl (Refused ServerError StoreDown), db1)
               else case get_oauth_client (az_client_id req) db1 of
                 (Inl _, db2) \<Rightarrow> (Inl (Refused InvalidClient UnknownClient), db2)
               | (Inr c, db2) \<Rightarrow> (Inr (req, c), db2)))"

record consent_view =
  cv_client :: string
  cv_name :: string
  cv_verified :: bool
  cv_host :: string
  cv_first_use :: bool
  cv_scopes :: "string list"
  cv_projects :: "string list"
  cv_default :: string
  cv_resource :: string

definition handle_consent_view :: "string \<Rightarrow> string list \<Rightarrow> identity \<Rightarrow> query \<Rightarrow> consent_view api_op" where
  "handle_consent_view public declared i q =
     db_then (parse_consent public q)
       (\<lambda>(req, c) db.
          case (if db_up db then list_oauth_grants (id_user i) db else (Inl StoreFailed, db)) of (gs, db1) \<Rightarrow>
            (Inr \<lparr>cv_client = oc_id c, cv_name = oc_name c, cv_verified = False,
               cv_host = (case url_parse (az_redirect_uri req) of None \<Rightarrow> [] | Some u \<Rightarrow> u_host u),
               cv_first_use = (case gs of Inl _ \<Rightarrow> True | Inr l \<Rightarrow> \<not> list_ex (\<lambda>g. gr_client g = oc_id c) l),
               cv_scopes = str_fields (az_scope req), cv_projects = granted_projects declared (Some i),
               cv_default = default_project (granted_projects declared (Some i)), cv_resource = az_resource req\<rparr>, db1))"

record decision =
  dc_approve :: bool
  dc_project :: string

datatype consent_outcome = Declined string string | Approved string string string

text \<open>The code's hash and the grant's id are of fresh random text.\<close>

definition record_consent :: "crypto \<Rightarrow> instant \<Rightarrow> string \<Rightarrow> string \<Rightarrow> string \<Rightarrow> authorize_request \<Rightarrow> oauth_client \<Rightarrow> string \<Rightarrow>
    consent_outcome api_op" where
  "record_consent cr now new_id rnd user req c project =
     (let raw = ''avuruc_'' @ rnd in
      api_store (db_then
        (lift_api (create_oauth_grant \<lparr>gr_id = new_id, gr_client = oc_id c, gr_user = user, gr_scope = az_scope req,
           gr_project = project, gr_resource = az_resource req, gr_revoked = False, gr_created = now\<rparr>))
        (\<lambda>_. db_then
           (lift_api (create_oauth_auth_code (cr_hash_token cr raw) \<lparr>co_client = oc_id c, co_user = user,
              co_grant = new_id, co_redirect = az_redirect_uri req, co_resource = az_resource req,
              co_scope = az_scope req, co_project = project, co_challenge = az_challenge req,
              co_expires = now + auth_code_ttl, co_consumed = False, co_created = now\<rparr>))
           (\<lambda>_. db_return (Approved (az_redirect_uri req) raw (az_state req))))))"

definition handle_consent_decide :: "crypto \<Rightarrow> string \<Rightarrow> string list \<Rightarrow> instant \<Rightarrow> string \<Rightarrow> string \<Rightarrow> identity \<Rightarrow> query \<Rightarrow>
    decision option \<Rightarrow> consent_outcome api_op" where
  "handle_consent_decide cr public declared now new_id rnd i q body =
     db_then (parse_consent public q)
       (\<lambda>(req, c). case body of
          None \<Rightarrow> db_fail BadBody
        | Some dec \<Rightarrow>
            if \<not> dc_approve dec then db_return (Declined (az_redirect_uri req) (az_state req))
            else
              let project = (if trim_space (dc_project dec) = [] then default_project (granted_projects declared (Some i))
                             else trim_space (dc_project dec))
              in if \<not> can_access i project role_viewer then db_fail (Forbidden project)
                 else record_consent cr now new_id rnd (id_user i) req c project)"

end
