(* ===== verification/OAuthTokens.thy ===== *)
theory OAuthTokens
  imports OAuthServer
begin

text \<open>
  The token endpoint and revocation (hub/internal/api/oauth_token.go, oauth_grants.go, and the
  claim map of oauth_flow.go): exchanging a code, rotating a refresh token, issuing a pair,
  revoking a token or a grant, listing the connected applications.
\<close>

section \<open>Single use in one process\<close>

type_synonym claims = "string \<rightharpoonup> instant"

definition kept_claims :: "instant \<Rightarrow> claims \<Rightarrow> claims" where
  "kept_claims now seen = (\<lambda>k. case seen k of None \<Rightarrow> None
     | Some t \<Rightarrow> if 2 * auth_code_ttl < time_sub now t then None else Some t)"

definition claim_code :: "string \<Rightarrow> instant \<Rightarrow> claims \<Rightarrow> bool \<times> claims" where
  "claim_code h now seen =
     (let kept = kept_claims now seen
      in if kept h \<noteq> None then (False, kept) else (True, kept(h \<mapsto> now)))"

section \<open>Issuing\<close>

definition issue_pair :: "crypto \<Rightarrow> instant \<Rightarrow> string \<Rightarrow> string \<Rightarrow> string \<Rightarrow> string \<Rightarrow> string \<Rightarrow> string \<Rightarrow> string \<Rightarrow> string \<Rightarrow>
    token_response api_op" where
  "issue_pair cr now rnd1 rnd2 grant client user resource scope project =
     api_store (
       (let access = new_oauth_token cr oauth_access_prefix rnd1;
            refresh = new_oauth_token cr oauth_refresh_prefix rnd2;
            row = \<lparr>ot_kind = ''access'', ot_grant = grant, ot_client = client, ot_user = user, ot_resource = resource,
              ot_scope = scope, ot_project = project, ot_expires = now + access_token_ttl, ot_last_used = zero_time,
              ot_revoked = False, ot_created = now\<rparr>;
            answer = \<lparr>tr_access = fst access, tr_token_type = ''Bearer'', tr_expires_in = access_token_ttl div second,
              tr_refresh = [], tr_scope = scope\<rparr>
        in db_then (lift_api (create_oauth_token (snd access) row))
             (\<lambda>_. if has_scope scope scope_offline
                then db_then (lift_api (create_oauth_token (snd refresh)
                       (row\<lparr>ot_kind := ''refresh'', ot_expires := now + refresh_token_ttl\<rparr>)))
                     (\<lambda>_. db_return (answer\<lparr>tr_refresh := fst refresh\<rparr>))
                else db_return answer)))"

section \<open>Exchanging a code\<close>

definition check_code :: "(string \<Rightarrow> string) \<Rightarrow> instant \<Rightarrow> query \<Rightarrow> oauth_auth_code \<Rightarrow> refusal option" where
  "check_code s256 now f c =
     (if expired now (co_expires c) then Some CodeExpired
      else if q_get f ''client_id'' \<noteq> co_client c then Some WrongClient
      else if q_get f ''redirect_uri'' \<noteq> co_redirect c then Some WrongRedirect
      else if q_get f ''resource'' \<noteq> [] \<and> q_get f ''resource'' \<noteq> co_resource c then Some WrongResource
      else if \<not> verify_pkce s256 (co_challenge c) (q_get f ''code_verifier'') then Some WrongVerifier
      else None)"

text \<open>The answer to a replay: both errors are ignored.\<close>

definition kill_family :: "oauth_auth_code \<Rightarrow> auth_db \<Rightarrow> auth_db" where
  "kill_family c db = snd (revoke_oauth_grant (co_user c) (co_grant c) (snd (revoke_oauth_tokens_for_grant (co_grant c) db)))"

definition redeem :: "crypto \<Rightarrow> (string \<Rightarrow> string) \<Rightarrow> instant \<Rightarrow> string \<Rightarrow> string \<Rightarrow> query \<Rightarrow> string \<Rightarrow> oauth_auth_code \<Rightarrow>
    token_response api_op" where
  "redeem cr s256 now rnd1 rnd2 f h c db =
     (case check_code s256 now f c of
        Some why \<Rightarrow> refuse why db
      | None \<Rightarrow>
          (case consume_oauth_auth_code h db of
             (Inl _, db1) \<Rightarrow> refuse CodeUsed db1
           | (Inr _, db1) \<Rightarrow>
               issue_pair cr now rnd1 rnd2 (co_grant c) (co_client c) (co_user c) (co_resource c) (co_scope c) (co_project c) db1))"

definition exchange_code :: "crypto \<Rightarrow> (string \<Rightarrow> string) \<Rightarrow> instant \<Rightarrow> string \<Rightarrow> string \<Rightarrow> query \<Rightarrow> claims \<Rightarrow> auth_db \<Rightarrow>
    (api_error + token_response) \<times> claims \<times> auth_db" where
  "exchange_code cr s256 now rnd1 rnd2 f seen db =
     (let raw = q_get f ''code''; h = cr_hash_token cr raw in
      if raw = [] then (Inl (Refused InvalidRequest CodeRequired), seen, db)
      else if \<not> db_up db then (Inl (ApiFailed StoreUnavailable), seen, db)
      else case get_oauth_auth_code h db of
        (Inl NotFound, db1) \<Rightarrow> (Inl (Refused InvalidGrant UnknownCode), seen, db1)
      | (Inl e, db1) \<Rightarrow> (Inl (ApiFailed (StoreError e)), seen, db1)
      | (Inr c, db1) \<Rightarrow>
          (case (if co_consumed c then (False, seen) else claim_code h now seen) of (fresh, seen1) \<Rightarrow>
             if \<not> fresh then (Inl (Refused InvalidGrant CodeReplayed), seen1, kill_family c db1)
             else case redeem cr s256 now rnd1 rnd2 f h c db1 of (r, db2) \<Rightarrow> (r, seen1, db2)))"

section \<open>Rotating a refresh token\<close>

definition rotate_refresh :: "crypto \<Rightarrow> instant \<Rightarrow> string \<Rightarrow> string \<Rightarrow> query \<Rightarrow> token_response api_op" where
  "rotate_refresh cr now rnd1 rnd2 f db =
     (let raw = q_get f ''refresh_token''; h = cr_hash_token cr raw in
      if raw = [] then (Inl (Refused InvalidRequest RefreshRequired), db)
      else if \<not> db_up db then (Inl (ApiFailed StoreUnavailable), db)
      else case get_oauth_token_by_hash h db of
        (Inl NotFound, db1) \<Rightarrow> refuse UnknownRefresh db1
      | (Inl e, db1) \<Rightarrow> (Inl (ApiFailed (StoreError e)), db1)
      | (Inr t, db1) \<Rightarrow>
          if ot_kind t \<noteq> ''refresh'' then refuse NotARefreshToken db1
          else if expired now (ot_expires t) then refuse RefreshExpired db1
          else if q_get f ''client_id'' \<noteq> ot_client t then refuse RefreshWrongClient db1
          else db_then (lift_api (revoke_oauth_tokens_for_grant (ot_grant t)))
            (\<lambda>_. issue_pair cr now rnd1 rnd2 (ot_grant t) (ot_client t) (ot_user t) (ot_resource t) (ot_scope t) (ot_project t)) db1)"

definition handle_token :: "crypto \<Rightarrow> (string \<Rightarrow> string) \<Rightarrow> instant \<Rightarrow> string \<Rightarrow> string \<Rightarrow> query \<Rightarrow> claims \<Rightarrow> auth_db \<Rightarrow>
    (api_error + token_response) \<times> claims \<times> auth_db" where
  "handle_token cr s256 now rnd1 rnd2 f seen db =
     (if q_get f ''grant_type'' = ''authorization_code'' then exchange_code cr s256 now rnd1 rnd2 f seen db
      else if q_get f ''grant_type'' = ''refresh_token''
        then (case rotate_refresh cr now rnd1 rnd2 f db of (r, db1) \<Rightarrow> (r, seen, db1))
      else (Inl (Refused UnsupportedGrantType UnknownGrantType), seen, db))"

section \<open>Revoking\<close>

text \<open>The answer is the same whatever happens.\<close>

definition handle_revoke :: "crypto \<Rightarrow> query \<Rightarrow> auth_db \<Rightarrow> auth_db" where
  "handle_revoke cr f db =
     (let raw = q_get f ''token'' in
      if raw = [] \<or> \<not> db_up db then db
      else case get_oauth_token_by_hash (cr_hash_token cr raw) db of
        (Inl _, db1) \<Rightarrow> db1
      | (Inr t, db1) \<Rightarrow> snd (revoke_oauth_tokens_for_grant (ot_grant t) db1))"

definition handle_revoke_grant :: "identity \<Rightarrow> string \<Rightarrow> unit api_op" where
  "handle_revoke_grant i grant =
     api_store (\<lambda>db. case revoke_oauth_tokens_for_grant grant db of
         (Inl StoreFailed, db1) \<Rightarrow> (Inl (ApiFailed (StoreError StoreFailed)), db1)
       | (_, db1) \<Rightarrow> lift_api (revoke_oauth_grant (id_user i) grant) db1)"

record grant_dto =
  gd_id :: string
  gd_client :: string
  gd_name :: string
  gd_project :: string
  gd_scopes :: string
  gd_created :: instant

fun name_grants :: "oauth_grant list \<Rightarrow> auth_db \<Rightarrow> grant_dto list \<times> auth_db" where
  "name_grants [] db = ([], db)"
| "name_grants (g # gs) db =
     (case get_oauth_client (gr_client g) db of (rc, db1) \<Rightarrow>
      case name_grants gs db1 of (out, db2) \<Rightarrow>
        (\<lparr>gd_id = gr_id g, gd_client = gr_client g,
          gd_name = (case rc of Inl _ \<Rightarrow> gr_client g | Inr c \<Rightarrow> oc_name c),
          gd_project = gr_project g, gd_scopes = gr_scope g, gd_created = gr_created g\<rparr> # out, db2))"

definition handle_list_grants :: "identity \<Rightarrow> grant_dto list api_op" where
  "handle_list_grants i =
     api_store (db_then (lift_api (list_oauth_grants (id_user i))) (\<lambda>gs db. case name_grants gs db of (out, db1) \<Rightarrow> (Inr out, db1)))"

section \<open>The family of a grant\<close>

text \<open>\<open>family_dead\<close>: no token of the grant is live.\<close>

definition family_dead :: "string \<Rightarrow> auth_db \<Rightarrow> bool" where
  "family_dead g db \<longleftrightarrow> (\<forall>h t. map_of (db_oauth db) h = Some t \<and> ot_grant t = g \<longrightarrow> ot_revoked t)"

end
