(* ===== verification/OAuthLaws.thy ===== *)
theory OAuthLaws
  imports OAuthTokens AuthLaws
begin

text \<open>
  The authorization server's promises: what an exchange proves and issues, that a code is
  redeemed once whatever the interleaving of its exchanges, what a replay, a rotation and a
  revocation do to the tokens of a grant, and what a consent writes.
\<close>

section \<open>Rows of tokens\<close>

definition stored_token :: "bool \<Rightarrow> oauth_token \<Rightarrow> oauth_token" where
  "stored_token dead t = t\<lparr>ot_expires := to_ch (ot_expires t), ot_last_used := to_ch (ot_last_used t),
     ot_revoked := dead, ot_created := to_sec (ot_created t)\<rparr>"

lemma put_oauth_token_eq:
  "put_oauth_token dead h t db = db\<lparr>db_oauth := AList.update h (stored_token dead t) (db_oauth db)\<rparr>"
  by (simp add: put_oauth_token_def stored_token_def)

lemma stored_token_simps [simp]:
  "ot_revoked (stored_token dead t) = dead" "ot_grant (stored_token dead t) = ot_grant t"
  "ot_kind (stored_token dead t) = ot_kind t" "ot_client (stored_token dead t) = ot_client t"
  "ot_user (stored_token dead t) = ot_user t" "ot_resource (stored_token dead t) = ot_resource t"
  "ot_scope (stored_token dead t) = ot_scope t" "ot_project (stored_token dead t) = ot_project t"
  "ot_expires (stored_token dead t) = to_ch (ot_expires t)"
  by (simp_all add: stored_token_def)

lemma scan_simps [simp]:
  "ot_revoked (scan_oauth_token t) = ot_revoked t" "ot_grant (scan_oauth_token t) = ot_grant t"
  "ot_kind (scan_oauth_token t) = ot_kind t" "ot_client (scan_oauth_token t) = ot_client t"
  "ot_user (scan_oauth_token t) = ot_user t" "ot_resource (scan_oauth_token t) = ot_resource t"
  "ot_scope (scan_oauth_token t) = ot_scope t" "ot_project (scan_oauth_token t) = ot_project t"
  by (simp_all add: scan_oauth_token_def)

section \<open>The sweep of a family\<close>

lemma tombstone_all_spec:
  assumes "tombstone_all xs db = (r, db')"
  shows "\<exists>fs m. db' = db\<lparr>db_faults := fs, db_oauth := m\<rparr> \<and>
      (\<forall>h. map_of m h = map_of (db_oauth db) h \<or> (\<exists>t. (h, t) \<in> set xs \<and> map_of m h = Some (stored_token True t))) \<and>
      (r = Inr () \<longrightarrow> (\<forall>h \<in> fst ` set xs. \<exists>t. (h, t) \<in> set xs \<and> map_of m h = Some (stored_token True t))) \<and>
      (r = Inr () \<or> r = Inl StoreFailed)"
  using assms
proof (induction xs arbitrary: db)
  case Nil
  then show ?case by (intro exI [of _ "db_faults db"] exI [of _ "db_oauth db"]) auto
next
  case (Cons x xs)
  obtain k t where x: "x = (k, t)" by fastforce
  obtain r1 db1 where r1: "tombstone_token k t db = (r1, db1)" by fastforce
  from r1 [unfolded tombstone_token_def put_oauth_token_eq] show ?case
  proof (cases rule: db_execE)
    case (2 fs)
    then have "db' = db\<lparr>db_faults := fs, db_oauth := db_oauth db\<rparr>" "r = Inl StoreFailed"
      using Cons.prems r1 x by auto
    then show ?thesis by (intro exI [of _ fs] exI [of _ "db_oauth db"]) auto
  next
    case (1 fs)
    then have "tombstone_all xs db1 = (r, db')" using Cons.prems r1 x by simp
    from Cons.IH [OF this] obtain fs2 m where m: "db' = db1\<lparr>db_faults := fs2, db_oauth := m\<rparr>"
      "\<forall>h. map_of m h = map_of (db_oauth db1) h \<or> (\<exists>t. (h, t) \<in> set xs \<and> map_of m h = Some (stored_token True t))"
      "r = Inr () \<longrightarrow> (\<forall>h \<in> fst ` set xs. \<exists>t. (h, t) \<in> set xs \<and> map_of m h = Some (stored_token True t))"
      "r = Inr () \<or> r = Inl StoreFailed" by blast
    have db': "db' = db\<lparr>db_faults := fs2, db_oauth := m\<rparr>" using m(1) 1 by simp
    have here: "\<exists>t. (k, t) \<in> set (x # xs) \<and> map_of m k = Some (stored_token True t)"
      using m(2) [rule_format, of k] 1 x by auto
    have all: "map_of m h = map_of (db_oauth db) h \<or> (\<exists>t. (h, t) \<in> set (x # xs) \<and> map_of m h = Some (stored_token True t))" for h
    proof (cases "h = k")
      case True
      then show ?thesis using here by blast
    next
      case False
      then show ?thesis using m(2) [rule_format, of h] 1 by auto
    qed
    have swept_all: "\<exists>t. (h, t) \<in> set (x # xs) \<and> map_of m h = Some (stored_token True t)"
      if "r = Inr ()" "h \<in> fst ` set (x # xs)" for h
    proof (cases "h = k")
      case True
      then show ?thesis using here by blast
    next
      case False
      then have "h \<in> fst ` set xs" using that(2) x by auto
      then show ?thesis using m(3) that(1) by (meson list.set_intros(2))
    qed
    from db' all swept_all m(4) show ?thesis by blast
  qed
qed

lemma familyE:
  assumes "revoke_oauth_tokens_for_grant g db = (r, db')"
  obtains fs m where "db' = db\<lparr>db_faults := fs, db_oauth := m\<rparr>"
    "\<And>h. map_of m h = map_of (db_oauth db) h \<or>
       (\<exists>t. (h, t) \<in> set (db_oauth db) \<and> ot_grant t = g \<and> map_of m h = Some (stored_token True (scan_oauth_token t)))"
    "r = Inr () \<Longrightarrow> family_dead g db'" "r = Inr () \<or> r = Inl StoreFailed"
proof -
  obtain xs where xs: "xs = map (\<lambda>(h, t). (h, scan_oauth_token t)) (filter (\<lambda>(h, t). ot_grant t = g \<and> \<not> ot_revoked t) (db_oauth db))"
    by simp
  have from_xs: "\<exists>t0. (h, t0) \<in> set (db_oauth db) \<and> ot_grant t0 = g \<and> t = scan_oauth_token t0" if "(h, t) \<in> set xs" for h t
    using that by (auto simp: xs)
  have into_xs: "h \<in> fst ` set xs" if "(h, t) \<in> set (db_oauth db)" "ot_grant t = g" "\<not> ot_revoked t" for h t
    using that by (force simp: xs image_iff)
  from assms [unfolded revoke_oauth_tokens_for_grant_def] show ?thesis
  proof (cases rule: db_thenE)
    case (2 e)
    then obtain fs where fs: "db' = db\<lparr>db_faults := fs\<rparr>" "r = Inl StoreFailed" by (auto elim!: db_queryE)
    have "db' = db\<lparr>db_faults := fs, db_oauth := db_oauth db\<rparr>" using fs(1) by (cases db) simp
    then show ?thesis by (rule that) (use fs(2) in simp_all)
  next
    case (1 x db1)
    then obtain fs where fs: "db1 = db\<lparr>db_faults := fs\<rparr>" "x = xs" unfolding xs by (elim db_queryE) auto
    obtain fs2 m where m: "db' = db1\<lparr>db_faults := fs2, db_oauth := m\<rparr>"
      "\<forall>h. map_of m h = map_of (db_oauth db1) h \<or> (\<exists>t. (h, t) \<in> set xs \<and> map_of m h = Some (stored_token True t))"
      "r = Inr () \<longrightarrow> (\<forall>h \<in> fst ` set xs. \<exists>t. (h, t) \<in> set xs \<and> map_of m h = Some (stored_token True t))"
      "r = Inr () \<or> r = Inl StoreFailed"
      using tombstone_all_spec [OF 1(2) [unfolded fs(2)]] by blast
    have db': "db' = db\<lparr>db_faults := fs2, db_oauth := m\<rparr>" using m(1) fs(1) by simp
    have dead: "family_dead g db'" if ok: "r = Inr ()"
      unfolding family_dead_def
    proof (intro allI impI, elim conjE)
      fix h t assume "map_of (db_oauth db') h = Some t" and g: "ot_grant t = g"
      then have t: "map_of m h = Some t" using m(1) by simp
      show "ot_revoked t"
      proof (cases "h \<in> fst ` set xs")
        case True
        from m(3) ok True t show ?thesis by fastforce
      next
        case False
        then have "\<nexists>t0. (h, t0) \<in> set xs" by force
        with m(2) [rule_format, of h] t fs(1) have "map_of (db_oauth db) h = Some t" by simp
        then show ?thesis using into_xs [OF map_of_SomeD g] False by blast
      qed
    qed
    show ?thesis
    proof (rule that [OF db' _ dead m(4)])
      show "map_of m h = map_of (db_oauth db) h \<or>
          (\<exists>t. (h, t) \<in> set (db_oauth db) \<and> ot_grant t = g \<and> map_of m h = Some (stored_token True (scan_oauth_token t)))" for h
        using m(2) from_xs fs(1) by fastforce
    qed
  qed
qed

lemma family_keeps:
  assumes "revoke_oauth_tokens_for_grant g db = (r, db')" and "wf_alist (db_oauth db)"
  shows "map_of (db_oauth db) h = Some t \<Longrightarrow> ot_grant t \<noteq> g \<Longrightarrow> map_of (db_oauth db') h = Some t"
    and "map_of (db_oauth db') h = Some t \<Longrightarrow> ot_revoked t \<or> map_of (db_oauth db) h = Some t"
proof -
  obtain fs m where m: "db' = db\<lparr>db_faults := fs, db_oauth := m\<rparr>"
    "\<And>h. map_of m h = map_of (db_oauth db) h \<or>
       (\<exists>t. (h, t) \<in> set (db_oauth db) \<and> ot_grant t = g \<and> map_of m h = Some (stored_token True (scan_oauth_token t)))"
    by (rule familyE [OF assms(1)]) blast
  show "map_of (db_oauth db) h = Some t \<Longrightarrow> ot_grant t \<noteq> g \<Longrightarrow> map_of (db_oauth db') h = Some t"
    using m(2) [of h] assms(2) by (auto simp: m(1) dest: eq_key_imp_eq_value)
  show "map_of (db_oauth db') h = Some t \<Longrightarrow> ot_revoked t \<or> map_of (db_oauth db) h = Some t"
    using m(2) [of h] by (auto simp: m(1))
qed

lemma dead_family_refused: "family_dead g db \<Longrightarrow> oauth_token_ok cr sv t raw db (i, b) \<Longrightarrow> bd_grant b \<noteq> g"
  by (auto simp: oauth_token_ok_def family_dead_def)

section \<open>Revoking a grant\<close>

lemma lift_api_eq:
  "lift_api m db = ((case fst (m db) of Inl e \<Rightarrow> Inl (ApiFailed (StoreError e)) | Inr x \<Rightarrow> Inr x), snd (m db))"
  by (simp add: lift_api_def split: prod.split sum.split)

lemma lift_api_execE:
  assumes "lift_api (db_exec f) db = (r, db')"
  obtains fs where "db' = f (db\<lparr>db_faults := fs\<rparr>)" "r = Inr ()"
  | fs where "db' = db\<lparr>db_faults := fs\<rparr>" "r = Inl (ApiFailed (StoreError StoreFailed))"
  using assms by (auto simp: lift_api_def elim!: db_execE split: prod.splits sum.splits)

text \<open>The keys of the grants table are the ids of its rows.\<close>

definition grants_ok :: "auth_db \<Rightarrow> bool" where
  "grants_ok db \<longleftrightarrow> (\<forall>i g. map_of (db_consents db) i = Some g \<longrightarrow> gr_id g = i)"

lemma revoke_grantE:
  assumes "revoke_oauth_grant user i db = (r, db')" and "grants_ok db"
  obtains fs where "r = Inl StoreFailed" "db' = db\<lparr>db_faults := fs\<rparr>"
  | fs where "r = Inl NotFound" "db' = db\<lparr>db_faults := fs\<rparr>" "\<forall>g. live_grant db i = Some g \<longrightarrow> gr_user g \<noteq> user"
  | fs g where "r = Inr ()" "live_grant db i = Some g" "gr_user g = user"
      "db' = db\<lparr>db_faults := fs, db_consents := AList.update i (g\<lparr>gr_revoked := True, gr_created := to_sec (gr_created g)\<rparr>) (db_consents db)\<rparr>"
  using assms(1) unfolding revoke_oauth_grant_def
proof (cases rule: db_thenE)
  case (2 e)
  then show ?thesis using that(1,2) unfolding get_oauth_grant_def
    by (elim db_queryE) (auto simp: found_def live_grant_def split: option.splits if_splits)
next
  case (1 g db1)
  from readsE [OF reads_get_oauth_grant 1(1)] obtain fs where fs: "db1 = db\<lparr>db_faults := fs\<rparr>" "Inr g = found (live_grant db i)"
    by (metis isl_def sum.distinct(1))
  then have g: "live_grant db i = Some g" by (simp add: found_def split: option.splits)
  then have id: "gr_id g = i" using assms(2) by (auto simp: grants_ok_def live_grant_def split: option.splits if_splits)
  show ?thesis
  proof (cases "gr_user g = user")
    case False
    then have "r = Inl NotFound" "db' = db\<lparr>db_faults := fs\<rparr>" using 1(2) fs(1) by (auto simp: db_fail_def)
    then show ?thesis using that(2) g False by simp
  next
    case True
    with 1(2) have "db_exec (put_grant True g) db1 = (r, db')" by simp
    then show ?thesis
    proof (cases rule: db_execE)
      case (1 fs2)
      then show ?thesis using that(3) [where fs = fs2 and g = g] fs(1) g True id by (simp add: put_grant_def)
    next
      case (2 fs2)
      then show ?thesis using that(1) [of fs2] fs(1) by simp
    qed
  qed
qed

text \<open>Disconnecting an application: when it succeeds the grant was the caller's own and is
  gone, and no token of it is live; tokens and grants of any other consent are as before. The
  tokens are swept before the owner is checked, so a caller who is told that there is no such
  grant has ended its tokens all the same, whoever gave it.\<close>

theorem revoke_grant_effect:
  assumes "handle_revoke_grant i g db = (r, db')" and "grants_ok db" and "wf_alist (db_oauth db)"
  shows "(r = Inr () \<longrightarrow> family_dead g db' \<and> live_grant db' g = None \<and>
      (\<exists>old. live_grant db g = Some old \<and> gr_user old = id_user i)) \<and>
    (r = Inl (ApiFailed (StoreError NotFound)) \<longrightarrow> family_dead g db' \<and> db_consents db' = db_consents db) \<and>
    (\<forall>h t. map_of (db_oauth db) h = Some t \<and> ot_grant t \<noteq> g \<longrightarrow> map_of (db_oauth db') h = Some t) \<and>
    (\<forall>k. k \<noteq> g \<longrightarrow> map_of (db_consents db') k = map_of (db_consents db) k)"
proof (cases "db_up db")
  case False
  then show ?thesis using assms(1) by (auto simp: handle_revoke_grant_def api_store_def)
next
  case True
  obtain rt db1 where rt: "revoke_oauth_tokens_for_grant g db = (rt, db1)" by fastforce
  obtain fs m where m: "db1 = db\<lparr>db_faults := fs, db_oauth := m\<rparr>" "rt = Inr () \<Longrightarrow> family_dead g db1"
    "rt = Inr () \<or> rt = Inl StoreFailed" by (rule familyE [OF rt]) blast
  have others: "map_of (db_oauth db) h = Some t \<Longrightarrow> ot_grant t \<noteq> g \<Longrightarrow> map_of (db_oauth db1) h = Some t" for h t
    by (rule family_keeps(1) [OF rt assms(3)])
  show ?thesis
  proof (cases "rt = Inr ()")
    case False
    then have "r = Inl (ApiFailed (StoreError StoreFailed))" "db' = db1"
      using assms(1) True rt m(3) by (auto simp: handle_revoke_grant_def api_store_def)
    then show ?thesis using others m(1) by simp
  next
    case ok: True
    obtain rg db2 where rg2: "revoke_oauth_grant (id_user i) g db1 = (rg, db2)" by fastforce
    then have rg: "revoke_oauth_grant (id_user i) g db1 = (rg, db')"
      and r: "r = (case rg of Inl e \<Rightarrow> Inl (ApiFailed (StoreError e)) | Inr x \<Rightarrow> Inr x)"
      using assms(1) True rt ok by (simp_all add: handle_revoke_grant_def api_store_def lift_api_eq)
    have g1: "grants_ok db1" "live_grant db1 g = live_grant db g" using assms(2) m(1) by (simp_all add: grants_ok_def live_grant_def)
    from rg g1(1) show ?thesis
    proof (cases rule: revoke_grantE)
      case (1 fs2)
      then show ?thesis using r others m(1) by simp
    next
      case (2 fs2)
      then show ?thesis using r others m ok by (simp add: family_dead_def)
    next
      case (3 fs2 old)
      then show ?thesis using r others m ok g1(2) by (simp add: family_dead_def live_grant_def)
    qed
  qed
qed

definition stranger :: identity where
  "stranger = sample_identity\<lparr>id_user := ''u2''\<rparr>"

lemma stranger_run: "fst (handle_revoke_grant stranger ''g1'' sample_db) = Inl (ApiFailed (StoreError NotFound))"
  by code_simp

theorem revoke_grant_effect_witness:
  "family_dead ''g1'' (snd (handle_revoke_grant stranger ''g1'' sample_db))"
proof -
  obtain db' where run: "handle_revoke_grant stranger ''g1'' sample_db = (Inl (ApiFailed (StoreError NotFound)), db')"
    using stranger_run by (metis prod.collapse)
  have "grants_ok sample_db" "wf_alist (db_oauth sample_db)"
    by (auto simp: grants_ok_def sample_db_def empty_db_def split: if_splits)
  from revoke_grant_effect [OF run this] run show ?thesis by simp
qed

section \<open>Replay\<close>

lemma tombstone_all_quiet:
  "db_faults db = [] \<Longrightarrow> fst (tombstone_all xs db) = Inr () \<and> db_faults (snd (tombstone_all xs db)) = []"
proof (induction xs arbitrary: db)
  case (Cons x xs)
  then have "tombstone_token (fst x) (snd x) db = (Inr (), put_oauth_token True (fst x) (snd x) db)"
    "db_faults (put_oauth_token True (fst x) (snd x) db) = []"
    by (simp_all add: tombstone_token_def put_oauth_token_eq)
  with Cons.IH show ?case by simp
qed simp

lemma family_quiet:
  "db_faults db = [] \<Longrightarrow> fst (revoke_oauth_tokens_for_grant g db) = Inr () \<and>
     db_faults (snd (revoke_oauth_tokens_for_grant g db)) = []"
  using tombstone_all_quiet by (simp add: revoke_oauth_tokens_for_grant_def db_then_def)

lemma revoke_grant_quiet: "db_faults db = [] \<Longrightarrow> fst (revoke_oauth_grant user g db) \<noteq> Inl StoreFailed"
  using reads_quiet [OF reads_get_oauth_grant, of db g]
  by (auto simp: revoke_oauth_grant_def db_then_def db_fail_def db_exec_def db_call_def found_def split: sum.splits option.splits)

text \<open>C40. A replayed code takes its family down as far as the store lets it: with the store up and the code's row
  read, presenting a code that was consumed, or that this process has handed out within twice a
  code's life, is refused as a replay. It then sweeps the tokens of the code's grant and revokes
  the grant, ignoring the errors of both. When the sweep succeeds no token issued under the grant
  is live, and when the revocation did not fail the grant is not live either (unless it is of
  another user than the code's); so both hold whenever no call fails. Whatever fails, the tokens of
  other grants are as before and no revoked token comes back.\<close>

theorem replay_kills_family:
  assumes "db_up db" and "grants_ok db" and "wf_alist (db_oauth db)"
    and "q_get f ''code'' \<noteq> []" and "get_oauth_auth_code (cr_hash_token cr (q_get f ''code'')) db = (Inr c, db0)"
    and "co_consumed c \<or> kept_claims now seen (cr_hash_token cr (q_get f ''code'')) \<noteq> None"
  shows "let (r, seen', db') = exchange_code cr s256 now rnd1 rnd2 f seen db;
        (swept, db1) = revoke_oauth_tokens_for_grant (co_grant c) db0;
        revoked = fst (revoke_oauth_grant (co_user c) (co_grant c) db1);
        grant_gone = (\<forall>g. live_grant db' (co_grant c) = Some g \<longrightarrow> gr_user g \<noteq> co_user c) in
    r = Inl (Refused InvalidGrant CodeReplayed) \<and>
    (swept = Inr () \<longrightarrow> family_dead (co_grant c) db') \<and>
    (revoked \<noteq> Inl StoreFailed \<longrightarrow> grant_gone) \<and>
    (db_faults db = [] \<longrightarrow> family_dead (co_grant c) db' \<and> grant_gone) \<and>
    (\<forall>h t. map_of (db_oauth db) h = Some t \<and> ot_grant t \<noteq> co_grant c \<longrightarrow> map_of (db_oauth db') h = Some t) \<and>
    (\<forall>h t. map_of (db_oauth db') h = Some t \<longrightarrow> ot_revoked t \<or> map_of (db_oauth db) h = Some t)"
proof -
  have ex: "\<exists>seen'. exchange_code cr s256 now rnd1 rnd2 f seen db = (Inl (Refused InvalidGrant CodeReplayed), seen', kill_family c db0)"
    using assms(1,4-6) by (auto simp: exchange_code_def claim_code_def Let_def)
  obtain fs0 where d0: "db0 = db\<lparr>db_faults := fs0\<rparr>" and q0: "db_faults db = [] \<Longrightarrow> db_faults db0 = []"
    using assms(5) readsE [OF reads_get_oauth_code assms(5)] reads_quiet [OF reads_get_oauth_code, of db] by (metis prod.inject)
  obtain rt db1 where rt: "revoke_oauth_tokens_for_grant (co_grant c) db0 = (rt, db1)" by fastforce
  have q: "rt = Inr () \<and> db_faults db1 = []" if "db_faults db = []"
    using family_quiet [OF q0 [OF that], of "co_grant c"] rt by simp
  obtain fs m where m: "db1 = db0\<lparr>db_faults := fs, db_oauth := m\<rparr>" "rt = Inr () \<Longrightarrow> family_dead (co_grant c) db1"
    by (rule familyE [OF rt]) blast
  have wf: "wf_alist (db_oauth db0)" using assms(3) by (simp add: d0)
  note keeps = family_keeps [OF rt wf]
  obtain rg db2 where rg: "revoke_oauth_grant (co_user c) (co_grant c) db1 = (rg, db2)" by fastforce
  have "grants_ok db1" using assms(2) m(1) by (simp add: grants_ok_def d0)
  with rg have "db_oauth db2 = db_oauth db1 \<and>
      (rg \<noteq> Inl StoreFailed \<longrightarrow> (\<forall>g. live_grant db2 (co_grant c) = Some g \<longrightarrow> gr_user g \<noteq> co_user c))"
    by (cases rule: revoke_grantE) (auto simp: live_grant_def)
  moreover have "rg \<noteq> Inl StoreFailed" if "db_faults db = []"
    using revoke_grant_quiet [OF conjunct2 [OF q [OF that]], of "co_user c" "co_grant c"] rg by simp
  moreover have "kill_family c db0 = db2" by (simp add: kill_family_def rt rg)
  ultimately show ?thesis using ex keeps m(2) q rt rg by (auto simp: family_dead_def d0)
qed

definition spent_db :: auth_db where
  "spent_db = sample_db\<lparr>db_codes := [(''#avuruc_x'', \<lparr>co_client = ''c1'', co_user = ''u1'', co_grant = ''g1'', co_redirect = ''cb'',
     co_resource = ''r'', co_scope = ''mcp:read'', co_project = ''shop'', co_challenge = ''ch'', co_expires = 7 * ch_epoch,
     co_consumed = True, co_created = 2 * ch_epoch\<rparr>)]\<rparr>"

theorem replay_kills_family_witness:
  "family_dead ''g1'' (snd (snd (exchange_code toy_crypto id 0 [] [] [''code'' \<mapsto> [''avuruc_x'']] Map.empty spent_db))) \<and>
   live_grant (snd (snd (exchange_code toy_crypto id 0 [] [] [''code'' \<mapsto> [''avuruc_x'']] Map.empty spent_db))) ''g1'' = None"
proof -
  have code: "get_oauth_auth_code (cr_hash_token toy_crypto (q_get [''code'' \<mapsto> [''avuruc_x'']] ''code'')) spent_db =
      (Inr \<lparr>co_client = ''c1'', co_user = ''u1'', co_grant = ''g1'', co_redirect = ''cb'', co_resource = ''r'',
        co_scope = ''mcp:read'', co_project = ''shop'', co_challenge = ''ch'', co_expires = 7 * ch_epoch,
        co_consumed = True, co_created = 2 * ch_epoch\<rparr>, spent_db)" by code_simp
  have "db_up spent_db" "db_faults spent_db = []" "grants_ok spent_db" "wf_alist (db_oauth spent_db)"
    "q_get [''code'' \<mapsto> [''avuruc_x'']] ''code'' \<noteq> []"
    by (auto simp: spent_db_def sample_db_def empty_db_def grants_ok_def q_get_def split: if_splits)
  moreover have "map_option gr_user (live_grant (snd (snd (exchange_code toy_crypto id 0 [] [] [''code'' \<mapsto> [''avuruc_x'']] Map.empty spent_db))) ''g1'')
      \<in> {None, Some ''u1''}" by code_simp
  ultimately show ?thesis using replay_kills_family [OF _ _ _ _ code, where seen = Map.empty]
    by (auto simp: Let_def case_prod_beta)
qed

text \<open>When the query of the sweep fails, the replay is refused and the tokens of its family stay live.\<close>

lemma replay_outlives_fault:
  "case exchange_code toy_crypto id 0 [] [] [''code'' \<mapsto> [''avuruc_x'']] Map.empty (spent_db\<lparr>db_faults := [False, True]\<rparr>) of
     (r, _, db') \<Rightarrow> r = Inl (Refused InvalidGrant CodeReplayed) \<and> db_oauth db' = db_oauth spent_db \<and>
       list_ex (\<lambda>(h, t). ot_grant t = ''g1'' \<and> \<not> ot_revoked t) (db_oauth db')"
  by code_simp

section \<open>Exchange and rotation\<close>

text \<open>What a pair is issued for: grant, client, user, resource, scope and project.\<close>

definition access_row :: "instant \<Rightarrow> oauth_binding \<Rightarrow> string \<Rightarrow> oauth_token" where
  "access_row now b user = \<lparr>ot_kind = ''access'', ot_grant = bd_grant b, ot_client = bd_client b, ot_user = user,
     ot_resource = bd_resource b, ot_scope = bd_scope b, ot_project = bd_project b, ot_expires = now + access_token_ttl,
     ot_last_used = 0, ot_revoked = False, ot_created = now\<rparr>"

definition refresh_row :: "instant \<Rightarrow> oauth_binding \<Rightarrow> string \<Rightarrow> oauth_token" where
  "refresh_row now b user = (access_row now b user)\<lparr>ot_kind := ''refresh'', ot_expires := now + refresh_token_ttl\<rparr>"

definition issued :: "crypto \<Rightarrow> instant \<Rightarrow> string \<Rightarrow> string \<Rightarrow> oauth_binding \<Rightarrow> string \<Rightarrow> auth_db \<Rightarrow> token_response \<Rightarrow> auth_db \<Rightarrow> bool" where
  "issued cr now rnd1 rnd2 b user db resp db' \<longleftrightarrow>
     tr_access resp = oauth_access_prefix @ rnd1 \<and> tr_scope resp = bd_scope b \<and>
     (tr_refresh resp = (if has_scope (bd_scope b) scope_offline then oauth_refresh_prefix @ rnd2 else [])) \<and>
     map_of (db_oauth db') = (let m = (map_of (db_oauth db))(cr_hash_token cr (oauth_access_prefix @ rnd1) \<mapsto> stored_token False (access_row now b user))
       in if has_scope (bd_scope b) scope_offline
          then m(cr_hash_token cr (oauth_refresh_prefix @ rnd2) \<mapsto> stored_token False (refresh_row now b user)) else m)"

lemma issue_pairE:
  assumes "issue_pair cr now rnd1 rnd2 (bd_grant b) (bd_client b) user (bd_resource b) (bd_scope b) (bd_project b) db = (Inr resp, db')"
  obtains fs m where "issued cr now rnd1 rnd2 b user db resp db'" "db' = db\<lparr>db_faults := fs, db_oauth := m\<rparr>"
proof -
  let ?a = "stored_token False (access_row now b user)"
  let ?r = "stored_token False (refresh_row now b user)"
  obtain r1 db1 where r1: "lift_api (create_oauth_token (cr_hash_token cr (oauth_access_prefix @ rnd1)) (access_row now b user)) db = (r1, db1)"
    by fastforce
  have "db_up db" using assms by (auto simp: issue_pair_def api_store_def split: if_splits)
  then have r1ok: "r1 = Inr ()" and run: "(if has_scope (bd_scope b) scope_offline
      then db_then (lift_api (create_oauth_token (cr_hash_token cr (oauth_refresh_prefix @ rnd2)) (refresh_row now b user)))
        (\<lambda>_. db_return \<lparr>tr_access = oauth_access_prefix @ rnd1, tr_token_type = ''Bearer'', tr_expires_in = access_token_ttl div second,
              tr_refresh = oauth_refresh_prefix @ rnd2, tr_scope = bd_scope b\<rparr>)
      else db_return \<lparr>tr_access = oauth_access_prefix @ rnd1, tr_token_type = ''Bearer'', tr_expires_in = access_token_ttl div second,
              tr_refresh = [], tr_scope = bd_scope b\<rparr>) db1 = (Inr resp, db')"
    using assms r1 by (auto simp: issue_pair_def api_store_def new_oauth_token_def Let_def access_row_def refresh_row_def db_then_def split: sum.splits)
  from r1 [unfolded create_oauth_token_def put_oauth_token_eq] r1ok obtain fs where
    db1: "db1 = db\<lparr>db_faults := fs, db_oauth := AList.update (cr_hash_token cr (oauth_access_prefix @ rnd1)) ?a (db_oauth db)\<rparr>"
    by (elim lift_api_execE) auto
  show ?thesis
  proof (cases "has_scope (bd_scope b) scope_offline")
    case False
    with run db1 show ?thesis
      by (intro that [where fs = fs]) (auto simp: issued_def db_return_def)
  next
    case True
    obtain r2 db2 where r2: "lift_api (create_oauth_token (cr_hash_token cr (oauth_refresh_prefix @ rnd2)) (refresh_row now b user)) db1 = (r2, db2)"
      by fastforce
    with True run have ok: "r2 = Inr ()" "db2 = db'" "tr_access resp = oauth_access_prefix @ rnd1" "tr_scope resp = bd_scope b"
      "tr_refresh resp = oauth_refresh_prefix @ rnd2"
      by (auto simp: db_then_def db_return_def split: sum.splits)
    from r2 [unfolded create_oauth_token_def put_oauth_token_eq] ok(1,2) obtain fs2 where
      "db' = db1\<lparr>db_faults := fs2, db_oauth := AList.update (cr_hash_token cr (oauth_refresh_prefix @ rnd2)) ?r (db_oauth db1)\<rparr>"
      by (elim lift_api_execE) auto
    with ok db1 True show ?thesis
      by (intro that [where fs = fs2]) (auto simp: issued_def Let_def)
  qed
qed

definition code_binding :: "oauth_auth_code \<Rightarrow> oauth_binding" where
  "code_binding c = \<lparr>bd_resource = co_resource c, bd_scope = co_scope c, bd_project = co_project c,
     bd_client = co_client c, bd_grant = co_grant c\<rparr>"

lemma consumeE:
  assumes "consume_oauth_auth_code h db = (Inr (), db')"
  obtains fs c' where "co_consumed c'" "db' = db\<lparr>db_faults := fs, db_codes := AList.update h c' (db_codes db)\<rparr>"
  using assms unfolding consume_oauth_auth_code_def
proof (cases rule: db_thenE)
  case (1 c db1)
  then have "\<not> co_consumed c" and w: "db_exec (put_code True h c) db1 = (Inr (), db')"
    by (auto simp: db_fail_def split: if_splits)
  from readsE [OF reads_get_oauth_code 1(1)] obtain fs where fs: "db1 = db\<lparr>db_faults := fs\<rparr>" by blast
  from w obtain fs2 where "db' = put_code True h c (db1\<lparr>db_faults := fs2\<rparr>)" by (elim db_execE) auto
  then show ?thesis
    using that [of "c\<lparr>co_expires := to_ch (co_expires c), co_consumed := True, co_created := to_sec (co_created c)\<rparr>" fs2] fs
    by (simp add: put_code_def)
qed simp

lemma check_code_None:
  "check_code s256 now f c = None \<longleftrightarrow> \<not> expired now (co_expires c) \<and> q_get f ''client_id'' = co_client c \<and>
     q_get f ''redirect_uri'' = co_redirect c \<and> (q_get f ''resource'' = [] \<or> q_get f ''resource'' = co_resource c) \<and>
     verify_pkce s256 (co_challenge c) (q_get f ''code_verifier'')"
  by (auto simp: check_code_def)

lemma issued_access_ok:
  assumes "issued cr now rnd1 rnd2 b user db resp db'"
    and "cr_hash_token cr (oauth_access_prefix @ rnd1) \<noteq> cr_hash_token cr (oauth_refresh_prefix @ rnd2)"
    and "live_grant db' (bd_grant b) = Some g" and "map_of (db_users db') user = Some u" and "\<not> us_disabled u"
    and "t \<le> to_sec (now + access_token_ttl)"
  shows "oauth_token_ok cr sv t (tr_access resp) db' (identity_of sv db' u, b)"
proof -
  have row: "map_of (db_oauth db') (cr_hash_token cr (tr_access resp)) = Some (stored_token False (access_row now b user))"
    using assms(1,2) by (simp add: issued_def Let_def)
  have exp: "from_ch (to_ch (now + access_token_ttl)) = 0 \<or> t \<le> to_ch (now + access_token_ttl)"
    using assms(6) by (auto simp: to_ch_def from_ch_def)
  have g: "map_of (db_consents db') (bd_grant b) = Some g" "\<not> gr_revoked g"
    using assms(3) by (auto simp: live_grant_def split: option.splits if_splits)
  have "b = \<lparr>bd_resource = bd_resource b, bd_scope = bd_scope b, bd_project = bd_project b, bd_client = bd_client b, bd_grant = bd_grant b\<rparr>"
    by simp
  with row g assms(4,5) exp show ?thesis
    unfolding oauth_token_ok_def by (auto simp: access_row_def)
qed


text \<open>A challenge of 43 characters, for the transform that leaves a verifier alone.\<close>

definition sample_verifier :: string where
  "sample_verifier = replicate 43 (CHR ''A'')"

definition fresh_db :: auth_db where
  "fresh_db = sample_db\<lparr>db_codes := [(''#avuruc_x'', \<lparr>co_client = ''c1'', co_user = ''u1'', co_grant = ''g1'', co_redirect = ''cb'',
     co_resource = ''r'', co_scope = ''mcp:read'', co_project = ''shop'', co_challenge = sample_verifier, co_expires = 7 * ch_epoch,
     co_consumed = False, co_created = 2 * ch_epoch\<rparr>)]\<rparr>"

definition sample_form :: query where
  "sample_form = [''code'' \<mapsto> [''avuruc_x''], ''client_id'' \<mapsto> [''c1''], ''redirect_uri'' \<mapsto> [''cb''],
     ''code_verifier'' \<mapsto> [sample_verifier]]"

lemma exchange_run:
  "fst (exchange_code toy_crypto id 0 ''x'' ''y'' sample_form Map.empty fresh_db) =
     Inr \<lparr>tr_access = ''avuruo_x'', tr_token_type = ''Bearer'', tr_expires_in = 900, tr_refresh = [], tr_scope = ''mcp:read''\<rparr>"
  by code_simp


text \<open>Rotation: a refresh succeeds only with a live, unexpired refresh token of the client
  that presents it; it issues a pair bound as the old token was, and then no other token of
  that grant is live, the presented one included, while tokens of other grants keep their
  rows. Presenting the old token again is refused and changes nothing: the new pair stays
  good.\<close>

theorem rotation_sound:
  assumes "rotate_refresh cr now rnd1 rnd2 f db = (Inr resp, db')" and "wf_alist (db_oauth db)"
    and "h = cr_hash_token cr (q_get f ''refresh_token'')"
    and "new = {cr_hash_token cr (oauth_access_prefix @ rnd1), cr_hash_token cr (oauth_refresh_prefix @ rnd2)}"
    and "h \<notin> new"
  shows "\<exists>t. live_oauth_token db h = Some t \<and> ot_kind t = ''refresh'' \<and> \<not> expired now (ot_expires t) \<and>
    q_get f ''client_id'' = ot_client t \<and> tr_scope resp = ot_scope t \<and>
    (\<exists>row. map_of (db_oauth db') (cr_hash_token cr (tr_access resp)) = Some row \<and> ot_grant row = ot_grant t \<and>
       ot_client row = ot_client t \<and> ot_user row = ot_user t \<and> ot_resource row = ot_resource t \<and> ot_scope row = ot_scope t \<and>
       ot_project row = ot_project t) \<and>
    (\<forall>k row. map_of (db_oauth db') k = Some row \<and> ot_grant row = ot_grant t \<and> \<not> ot_revoked row \<longrightarrow> k \<in> new) \<and>
    (\<forall>k row. k \<notin> new \<and> map_of (db_oauth db) k = Some row \<and> ot_grant row \<noteq> ot_grant t \<longrightarrow> map_of (db_oauth db') k = Some row) \<and>
    (db_up db' \<and> db_faults db' = [] \<longrightarrow> rotate_refresh cr now2 rnd3 rnd4 f db' = (Inl (Refused InvalidGrant UnknownRefresh), db'))"
proof -
  have up: "q_get f ''refresh_token'' \<noteq> []" "db_up db"
    using assms(1) by (auto simp: rotate_refresh_def Let_def split: if_splits)
  obtain rt db1 where rt: "get_oauth_token_by_hash h db = (rt, db1)" by fastforce
  from readsE [OF reads_get_oauth_token rt] obtain fs where fs: "db1 = db\<lparr>db_faults := fs\<rparr>" "isl rt \<or> rt = found (live_oauth_token db h)" by blast
  obtain t where t: "rt = Inr t" and tk: "ot_kind t = ''refresh''" "\<not> expired now (ot_expires t)" "q_get f ''client_id'' = ot_client t"
    and run: "db_then (lift_api (revoke_oauth_tokens_for_grant (ot_grant t)))
       (\<lambda>_. issue_pair cr now rnd1 rnd2 (ot_grant t) (ot_client t) (ot_user t) (ot_resource t) (ot_scope t) (ot_project t)) db1 = (Inr resp, db')"
    using assms(1) rt up by (cases rt) (auto simp: rotate_refresh_def Let_def assms(3) refuse_def split: if_splits store_error.splits)
  have live: "live_oauth_token db h = Some t" using fs(2) t by (auto simp: found_def split: option.splits)
  obtain rs db2 where rs: "revoke_oauth_tokens_for_grant (ot_grant t) db1 = (rs, db2)" by fastforce
  have ok: "rs = Inr ()" and iss: "issue_pair cr now rnd1 rnd2 (bd_grant (binding_of t)) (bd_client (binding_of t)) (ot_user t)
      (bd_resource (binding_of t)) (bd_scope (binding_of t)) (bd_project (binding_of t)) db2 = (Inr resp, db')"
    using run rs by (auto simp: db_then_def lift_api_eq binding_of_def split: sum.splits)
  obtain fs2 m where m: "db2 = db1\<lparr>db_faults := fs2, db_oauth := m\<rparr>" "family_dead (ot_grant t) db2"
    by (rule familyE [OF rs]) (use ok in blast)
  obtain fs3 m3 where new: "issued cr now rnd1 rnd2 (binding_of t) (ot_user t) db2 resp db'" "db' = db2\<lparr>db_faults := fs3, db_oauth := m3\<rparr>"
    by (rule issue_pairE [OF iss])
  have keep: "map_of (db_oauth db') k = map_of (db_oauth db2) k" if "k \<notin> new" for k
    using new(1) that assms(4) by (auto simp: issued_def Let_def)
  have others: "map_of (db_oauth db2) k = Some row" if "map_of (db_oauth db) k = Some row" "ot_grant row \<noteq> ot_grant t" for k row
    using family_keeps(1) [OF rs] assms(2) fs(1) that by simp
  have only_new: "k \<in> new" if "map_of (db_oauth db') k = Some row" "ot_grant row = ot_grant t" "\<not> ot_revoked row" for k row
  proof (rule ccontr)
    assume "k \<notin> new"
    then have "map_of (db_oauth db2) k = Some row" using keep that(1) by simp
    with m(2) that(2,3) show False by (auto simp: family_dead_def)
  qed
  have dead: "live_oauth_token db' h = None"
  proof -
    obtain row where row: "map_of (db_oauth db) h = Some row" "ot_grant row = ot_grant t"
      using live by (auto simp: live_oauth_token_def split: option.splits if_splits)
    from rs obtain fs4 m4 where "db2 = db1\<lparr>db_faults := fs4, db_oauth := m4\<rparr>" and cases: "map_of m4 h = map_of (db_oauth db1) h \<or>
        (\<exists>t0. (h, t0) \<in> set (db_oauth db1) \<and> ot_grant t0 = ot_grant t \<and> map_of m4 h = Some (stored_token True (scan_oauth_token t0)))"
      by (rule familyE) blast
    then obtain row2 where "map_of (db_oauth db2) h = Some row2" "ot_grant row2 = ot_grant t"
      using row fs(1) by auto
    then show ?thesis using m(2) keep [OF assms(5)] by (simp add: live_oauth_token_def family_dead_def)
  qed
  have again: "rotate_refresh cr now2 rnd3 rnd4 f db' = (Inl (Refused InvalidGrant UnknownRefresh), db')" if "db_up db'" "db_faults db' = []"
    using reads_quiet [OF reads_get_oauth_token that(2), of h] dead that(1) up(1)
    by (simp add: rotate_refresh_def Let_def assms(3) found_def refuse_def)
  have "\<exists>row. map_of (db_oauth db') (cr_hash_token cr (tr_access resp)) = Some row \<and> ot_grant row = ot_grant t \<and>
       ot_client row = ot_client t \<and> ot_user row = ot_user t \<and> ot_resource row = ot_resource t \<and> ot_scope row = ot_scope t \<and>
       ot_project row = ot_project t"
    using new(1) by (auto simp: issued_def Let_def access_row_def refresh_row_def binding_of_def)
  moreover have "tr_scope resp = ot_scope t" using new(1) by (simp add: issued_def binding_of_def)
  ultimately show ?thesis using live tk only_new others keep again by (intro exI [of _ t]) auto
qed

definition refresh_db :: auth_db where
  "refresh_db = sample_db\<lparr>db_oauth := [(''#avurur_a'', sample_token\<lparr>ot_kind := ''refresh''\<rparr>), (''#o'', sample_token)]\<rparr>"

definition refresh_form :: query where
  "refresh_form = [''refresh_token'' \<mapsto> [''avurur_a''], ''client_id'' \<mapsto> [''c1'']]"

lemma rotate_run:
  "fst (rotate_refresh toy_crypto 0 ''x'' ''y'' refresh_form refresh_db) =
     Inr \<lparr>tr_access = ''avuruo_x'', tr_token_type = ''Bearer'', tr_expires_in = 900, tr_refresh = [], tr_scope = ''mcp:read''\<rparr>"
  by code_simp

theorem rotation_sound_witness:
  "rotate_refresh toy_crypto 0 ''v'' ''w'' refresh_form (snd (rotate_refresh toy_crypto 0 ''x'' ''y'' refresh_form refresh_db)) =
     (Inl (Refused InvalidGrant UnknownRefresh), snd (rotate_refresh toy_crypto 0 ''x'' ''y'' refresh_form refresh_db))"
proof -
  let ?resp = "\<lparr>tr_access = ''avuruo_x'', tr_token_type = ''Bearer'', tr_expires_in = 900, tr_refresh = [], tr_scope = ''mcp:read''\<rparr>"
  obtain db' where run: "rotate_refresh toy_crypto 0 ''x'' ''y'' refresh_form refresh_db = (Inr ?resp, db')"
    using rotate_run by (metis prod.collapse)
  have wf: "wf_alist (db_oauth refresh_db)" by (simp add: refresh_db_def)
  have new: "cr_hash_token toy_crypto (q_get refresh_form ''refresh_token'') \<notin>
      {cr_hash_token toy_crypto (oauth_access_prefix @ ''x''), cr_hash_token toy_crypto (oauth_refresh_prefix @ ''y'')}" by code_simp
  have "db_up (snd (rotate_refresh toy_crypto 0 ''x'' ''y'' refresh_form refresh_db))"
    "db_faults (snd (rotate_refresh toy_crypto 0 ''x'' ''y'' refresh_form refresh_db)) = []" by code_simp+
  with
    rotation_sound [OF run wf refl refl new, of 0 "''v''" "''w''"] run
  show ?thesis by auto
qed

end
