(* ===== verification/OAuthConsent.thy ===== *)
theory OAuthConsent
  imports OAuthLaws
begin

text \<open>
  What a consent page's answer writes (handleConsentDecide of hub/internal/api/oauth_flow.go),
  end to end with the redirect rules of the protocol: the request is proved again against the
  client's registration, and nothing is stored for a person who may not read the project.
\<close>

text \<open>Clients are stored under their own ids, which the server makes and which have no blanks.\<close>

definition clients_ok :: "auth_db \<Rightarrow> bool" where
  "clients_ok db \<longleftrightarrow> (\<forall>i c. map_of (db_clients db) i = Some c \<longrightarrow> oc_id c = i \<and> trim_space i = i)"

definition live_client :: "auth_db \<Rightarrow> string \<Rightarrow> oauth_client option" where
  "live_client db i = (case map_of (db_clients db) i of
     None \<Rightarrow> None | Some c \<Rightarrow> if oc_revoked c then None else Some (scan_client c))"

lemma reads_get_oauth_client: "reads (get_oauth_client i) (\<lambda>db. found (live_client db i))"
  unfolding get_oauth_client_def
  by (rule reads_cong [OF reads_query]) (auto simp: live_client_def found_def split: option.splits)

lemma scan_client_simps [simp]: "oc_id (scan_client c) = oc_id c" "oc_redirects (scan_client c) = oc_redirects c"
  by (simp_all add: scan_client_def)

lemma registered_redirectsE:
  assumes "registered_redirects cid db = (r, db')"
  obtains fs where "db' = db\<lparr>db_faults := fs\<rparr>" "\<And>uris. r = Inr (Some uris) \<Longrightarrow> \<exists>c. live_client db cid = Some c \<and> oc_redirects c = uris"
proof (cases "trim_space cid = [] \<or> \<not> db_up db")
  case True
  then have "db' = db\<lparr>db_faults := db_faults db\<rparr>" "\<And>uris. r \<noteq> Inr (Some uris)"
    using assms by (auto simp: registered_redirects_def api_store_def db_return_def split: if_splits)
  then show ?thesis using that by blast
next
  case False
  obtain rc db1 where rc: "get_oauth_client cid db = (rc, db1)" by fastforce
  from readsE [OF reads_get_oauth_client rc] obtain fs where
    fs: "db1 = db\<lparr>db_faults := fs\<rparr>" "isl rc \<or> rc = found (live_client db cid)" by blast
  have r: "db' = db1" "\<And>uris. r = Inr (Some uris) \<Longrightarrow> \<exists>c. rc = Inr c \<and> oc_redirects c = uris"
    using assms False rc by (auto simp: registered_redirects_def api_store_def split: sum.splits store_error.splits)
  show ?thesis
  proof (rule that [of fs])
    show "db' = db\<lparr>db_faults := fs\<rparr>" using r(1) fs(1) by simp
    show "\<exists>c. live_client db cid = Some c \<and> oc_redirects c = uris" if "r = Inr (Some uris)" for uris
      using r(2) [OF that] fs(2) by (auto simp: found_def split: option.splits)
  qed
qed

lemma parse_consentE:
  assumes "parse_consent public q db = (r, db')"
  obtains fs where "db' = db\<lparr>db_faults := fs\<rparr>"
    "\<And>req c. r = Inr (req, c) \<Longrightarrow> live_client db (az_client_id req) = Some c \<and>
       (\<exists>c0. live_client db (q_get q ''client_id'') = Some c0 \<and>
          parse_authorize q (Some (oc_redirects c0)) (resource_uri public) = Inr req)"
proof -
  obtain rr db1 where rr: "registered_redirects (q_get q ''client_id'') db = (rr, db1)" by fastforce
  obtain fs where fs: "db1 = db\<lparr>db_faults := fs\<rparr>"
    "\<And>uris. rr = Inr (Some uris) \<Longrightarrow> \<exists>c. live_client db (q_get q ''client_id'') = Some c \<and> oc_redirects c = uris"
    by (rule registered_redirectsE [OF rr]) blast
  have unknown: "\<not> (\<exists>req. parse_authorize q None (resource_uri public) = Inr req)"
    by (simp add: parse_authorize_def Let_def)
  show ?thesis
  proof (cases "\<exists>reg req. rr = Inr reg \<and> parse_authorize q reg (resource_uri public) = Inr req \<and> db_up db1")
    case False
    then have "db' = db1" "\<not> (\<exists>x. r = Inr x)"
      using assms rr by (auto simp: parse_consent_def split: sum.splits if_splits prod.splits)
    then show ?thesis using that [of fs] fs(1) by auto
  next
    case True
    then obtain reg req where t: "rr = Inr reg" "parse_authorize q reg (resource_uri public) = Inr req" "db_up db1" by blast
    then obtain uris where reg: "reg = Some uris" using unknown by (cases reg) auto
    obtain rc db2 where rc: "get_oauth_client (az_client_id req) db1 = (rc, db2)" by fastforce
    from readsE [OF reads_get_oauth_client rc] obtain fs2 where
      fs2: "db2 = db1\<lparr>db_faults := fs2\<rparr>" "isl rc \<or> rc = found (live_client db1 (az_client_id req))" by blast
    have r: "db' = db2" "\<And>x. r = Inr x \<Longrightarrow> \<exists>c. rc = Inr c \<and> x = (req, c)"
      using assms rr t rc by (auto simp: parse_consent_def split: sum.splits)
    have same: "live_client db1 i = live_client db i" for i by (simp add: fs(1) live_client_def)
    obtain c0 where c0: "live_client db (q_get q ''client_id'') = Some c0" "oc_redirects c0 = uris"
      using fs(2) [of uris] t(1) reg by blast
    show ?thesis
    proof (rule that [of fs2])
      show "db' = db\<lparr>db_faults := fs2\<rparr>" using r(1) fs2(1) fs(1) by simp
      show "live_client db (az_client_id req2) = Some c \<and> (\<exists>c0. live_client db (q_get q ''client_id'') = Some c0 \<and>
          parse_authorize q (Some (oc_redirects c0)) (resource_uri public) = Inr req2)" if "r = Inr (req2, c)" for req2 c
        using r(2) [OF that] fs2(2) t(2) reg c0 by (auto simp: same found_def split: option.splits)
    qed
  qed
qed

lemma live_client_id: "clients_ok db \<Longrightarrow> live_client db i = Some c \<Longrightarrow> oc_id c = i \<and> trim_space i = i"
  by (auto simp: clients_ok_def live_client_def split: option.splits if_splits)

lemma record_consentE:
  assumes "record_consent cr now nid rnd user req c project db = (r, db')"
  obtains (stored) "r = Inr (Approved (az_redirect_uri req) (''avuruc_'' @ rnd) (az_state req))"
    "db_codes db' = AList.update (cr_hash_token cr (''avuruc_'' @ rnd)) \<lparr>co_client = oc_id c, co_user = user, co_grant = nid,
        co_redirect = az_redirect_uri req, co_resource = az_resource req, co_scope = az_scope req, co_project = project,
        co_challenge = az_challenge req, co_expires = to_ch (now + auth_code_ttl), co_consumed = False, co_created = to_sec now\<rparr>
      (db_codes db)"
    "db_consents db' = AList.update nid \<lparr>gr_id = nid, gr_client = oc_id c, gr_user = user, gr_scope = az_scope req,
        gr_project = project, gr_resource = az_resource req, gr_revoked = False, gr_created = to_sec now\<rparr> (db_consents db)"
  | (failed) e where "r = Inl (ApiFailed e)" "db_codes db' = db_codes db"
proof (cases "db_up db")
  case False
  then show ?thesis using assms failed [of StoreUnavailable] by (auto simp: record_consent_def api_store_def Let_def)
next
  case True
  let ?g = "\<lparr>gr_id = nid, gr_client = oc_id c, gr_user = user, gr_scope = az_scope req, gr_project = project,
        gr_resource = az_resource req, gr_revoked = False, gr_created = now\<rparr>"
  let ?k = "\<lparr>co_client = oc_id c, co_user = user, co_grant = nid,
        co_redirect = az_redirect_uri req, co_resource = az_resource req, co_scope = az_scope req, co_project = project,
        co_challenge = az_challenge req, co_expires = now + auth_code_ttl, co_consumed = False, co_created = now\<rparr>"
  obtain r1 db1 where r1: "lift_api (db_exec (put_grant False ?g)) db = (r1, db1)" by fastforce
  from r1 show ?thesis
  proof (cases rule: lift_api_execE)
    case (2 fs)
    then have "r = Inl (ApiFailed (StoreError StoreFailed))" "db' = db\<lparr>db_faults := fs\<rparr>" using assms True r1
      by (simp_all add: record_consent_def api_store_def Let_def create_oauth_grant_def)
    then show ?thesis using failed by simp
  next
    case (1 fs)
    obtain r2 db2 where r2: "lift_api (db_exec (put_code False (cr_hash_token cr (''avuruc_'' @ rnd)) ?k)) db1 = (r2, db2)" by fastforce
    have run: "db_then (lift_api (db_exec (put_code False (cr_hash_token cr (''avuruc_'' @ rnd)) ?k)))
        (\<lambda>_. db_return (Approved (az_redirect_uri req) (''avuruc_'' @ rnd) (az_state req))) db1 = (r, db')"
      using assms True r1 1(2) by (simp add: record_consent_def api_store_def Let_def create_oauth_grant_def create_oauth_auth_code_def)
    from r2 show ?thesis
    proof (cases rule: lift_api_execE)
      case k: (2 fs2)
      then have "r = Inl (ApiFailed (StoreError StoreFailed))" "db' = db2" using run r2 by simp_all
      then show ?thesis using failed [of "StoreError StoreFailed"] k 1 by (simp add: put_grant_def)
    next
      case k: (1 fs2)
      then have "r = Inr (Approved (az_redirect_uri req) (''avuruc_'' @ rnd) (az_state req))" "db' = db2"
        using run r2 by (simp_all add: db_return_def)
      then show ?thesis using stored k 1 by (simp add: put_grant_def put_code_def)
    qed
  qed
qed

lemma normalize_scope_supported: "\<forall>s\<in>set (str_fields (normalize_scope s0)). scope_supported s"
proof -
  have "\<forall>ws\<in>set scope_words. \<forall>w\<in>set ws. scope_supported w" by code_simp
  with normalize_words [of s0] show ?thesis by blast
qed

text \<open>Consent is scoped to who gives it and to whom: when it is approved, the code that is
  handed out is of a registered client and of a redirect URI that client registered, is bound
  to the signed-in user, to a project that user may view, to this server's resource and to
  supported scopes, dies within the code's lifetime, and stands on a live grant of that user
  for the same project; a refusal, a malformed decision or a project the user may not view
  stores no code.\<close>

theorem consent_scoped:
  assumes "handle_consent_decide cr public declared now nid rnd i q body db = (r, db')" and "clients_ok db"
  shows "case r of
      Inr (Approved uri raw st) \<Rightarrow> raw = ''avuruc_'' @ rnd \<and>
        (\<exists>c code g. live_client db (oc_id c) = Some c \<and> uri \<in> set (oc_redirects c) \<and>
          stored_code db' (cr_hash_token cr raw) = Some code \<and> co_client code = oc_id c \<and> co_redirect code = uri \<and>
          co_user code = id_user i \<and> can_access i (co_project code) role_viewer \<and> co_resource code = resource_uri public \<and>
          (\<forall>s\<in>set (str_fields (co_scope code)). scope_supported s) \<and> \<not> co_consumed code \<and>
          (co_expires code = 0 \<or> co_expires code \<le> now + auth_code_ttl) \<and> co_grant code = nid \<and>
          live_grant db' nid = Some g \<and> gr_user g = id_user i \<and> gr_client g = oc_id c \<and> gr_project g = co_project code)
    | Inr (Declined uri st) \<Rightarrow> (\<exists>fs. db' = db\<lparr>db_faults := fs\<rparr>)
    | Inl e \<Rightarrow> db_codes db' = db_codes db \<and>
        ((\<exists>why. e = Forbidden why) \<or> e = BadBody \<longrightarrow> (\<exists>fs. db' = db\<lparr>db_faults := fs\<rparr>))"
proof -
  obtain rp db1 where rp: "parse_consent public q db = (rp, db1)" by fastforce
  obtain fs where fs: "db1 = db\<lparr>db_faults := fs\<rparr>" and ok: "\<And>req c. rp = Inr (req, c) \<Longrightarrow> live_client db (az_client_id req) = Some c \<and>
       (\<exists>c0. live_client db (q_get q ''client_id'') = Some c0 \<and>
          parse_authorize q (Some (oc_redirects c0)) (resource_uri public) = Inr req)"
    by (rule parse_consentE [OF rp]) blast
  show ?thesis
  proof (cases rp)
    case (Inl e)
    then have "r = Inl e" "db' = db1" using assms(1) rp by (simp_all add: handle_consent_decide_def)
    then show ?thesis using fs by auto
  next
    case (Inr x)
    obtain req c where x: "x = (req, c)" by fastforce
    obtain c0 where c: "live_client db (az_client_id req) = Some c" "live_client db (q_get q ''client_id'') = Some c0"
      and pa: "parse_authorize q (Some (oc_redirects c0)) (resource_uri public) = Inr req"
      using ok [of req c] Inr x by blast
    have "az_client_id req = trim_space (q_get q ''client_id'')"
      using pa by (auto simp: parse_authorize_def Let_def split: if_splits)
    then have cc: "c = c0" using live_client_id [OF assms(2)] c by simp
    from parse_authorize_ok [OF pa] obtain s0 where req: "az_redirect_uri req \<in> set (oc_redirects c)"
      "az_resource req = resource_uri public" "az_scope req = normalize_scope s0" by (auto simp: cc)
    have scopes: "\<forall>s\<in>set (str_fields (az_scope req)). scope_supported s" unfolding req(3) by (rule normalize_scope_supported)
    have id: "oc_id c = az_client_id req" using live_client_id [OF assms(2) c(1)] by simp
    have run: "(case body of None \<Rightarrow> db_fail BadBody
        | Some dec \<Rightarrow> if \<not> dc_approve dec then db_return (Declined (az_redirect_uri req) (az_state req))
            else let project = (if trim_space (dc_project dec) = [] then default_project (granted_projects declared (Some i))
                             else trim_space (dc_project dec))
              in if \<not> can_access i project role_viewer then db_fail (Forbidden project)
                 else record_consent cr now nid rnd (id_user i) req c project) db1 = (r, db')"
      using assms(1) rp Inr x by (simp add: handle_consent_decide_def)
    then consider (bad) e where "r = Inl e" "db' = db1" | (declined) "r = Inr (Declined (az_redirect_uri req) (az_state req))" "db' = db1"
      | (go) project where "can_access i project role_viewer" "record_consent cr now nid rnd (id_user i) req c project db1 = (r, db')"
      by (auto simp: Let_def db_fail_def db_return_def split: option.splits if_splits)
    then show ?thesis
    proof cases
      case bad
      then show ?thesis using fs by auto
    next
      case declined
      then show ?thesis using fs by auto
    next
      case go
      from go(2) show ?thesis
      proof (cases rule: record_consentE)
        case (failed e)
        then show ?thesis using fs by auto
      next
        case stored
        let ?h = "cr_hash_token cr (''avuruc_'' @ rnd)"
        have exp: "from_ch (to_ch (now + auth_code_ttl)) = 0 \<or> from_ch (to_ch (now + auth_code_ttl)) \<le> now + auth_code_ttl"
          by (auto simp: from_ch_def to_ch_def to_sec_def second_def)
        obtain code where code: "stored_code db' ?h = Some code" "co_client code = oc_id c" "co_redirect code = az_redirect_uri req"
          "co_user code = id_user i" "co_project code = project" "co_resource code = az_resource req" "co_scope code = az_scope req"
          "\<not> co_consumed code" "co_expires code = from_ch (to_ch (now + auth_code_ttl))" "co_grant code = nid"
          by (simp add: stored(2) stored_code_def)
        obtain g where g: "live_grant db' nid = Some g" "gr_user g = id_user i" "gr_client g = oc_id c" "gr_project g = project"
          by (simp add: stored(3) live_grant_def)
        have "live_client db (oc_id c) = Some c" using c(1) id by simp
        then show ?thesis unfolding stored(1) using code g go(1) req(1,2) scopes exp
          by (simp only: sum.case consent_outcome.case) (intro conjI refl exI [of _ c] exI [of _ code] exI [of _ g]; simp)
      qed
    qed
  qed
qed

definition consent_db :: auth_db where
  "consent_db = sample_db\<lparr>db_clients := [(''c1'', \<lparr>oc_id = ''c1'', oc_name = ''App'', oc_redirects = [''https://app/cb''],
     oc_grant_types = [], oc_auth_method = ''none'', oc_secret_hash = [], oc_scope = ''mcp:read'', oc_software_id = [],
     oc_client_uri = [], oc_logo_uri = [], oc_registered_ip = [], oc_last_used = ch_epoch, oc_revoked = False,
     oc_created = 2 * ch_epoch\<rparr>)]\<rparr>"

definition sample_consent :: "(api_error + consent_outcome) \<times> auth_db" where
  "sample_consent = handle_consent_decide toy_crypto ''https://h/'' [] (3 * ch_epoch) ''g9'' ''zz'' sample_identity
     (authorize_values sample_request) (Some \<lparr>dc_approve = True, dc_project = ''shop''\<rparr>) consent_db"

lemma consent_run: "fst sample_consent = Inr (Approved ''https://app/cb'' ''avuruc_zz'' (az_state sample_request))"
  by code_simp

theorem consent_scoped_witness:
  "\<exists>g. live_grant (snd sample_consent) ''g9'' = Some g \<and> gr_user g = ''u1''"
proof -
  obtain db' where run: "sample_consent = (Inr (Approved ''https://app/cb'' ''avuruc_zz'' (az_state sample_request)), db')"
    using consent_run by (metis prod.collapse)
  have ok: "clients_ok consent_db"
  proof -
    have "trim_space ''c1'' = ''c1''" by code_simp
    then show ?thesis by (auto simp: clients_ok_def consent_db_def split: if_splits)
  qed
  have "id_user sample_identity = ''u1''" by code_simp
  with consent_scoped [OF run [unfolded sample_consent_def] ok] show ?thesis unfolding run by auto
qed

end
