(* ===== verification/OAuthRace.thy ===== *)
theory OAuthRace
  imports OAuthConsent
begin

text \<open>
  Single use of a code under concurrency (the note on \<open>codeClaims\<close> in
  hub/internal/api/oauth_flow.go). Any number of exchanges run at once; a step is one database
  call or one atomic section of one of them, time passing, or some other request. The database
  has no compare-and-swap, so two exchanges may both read an unconsumed code and both write
  it consumed; what makes the code single-use in one process is the claim map together with
  the code's short life, and that is what the invariant says: claims of one code are more than
  twice its life apart, so of two claimants only the first can still find it unexpired.
\<close>

section \<open>Exchanges as step machines\<close>

text \<open>Where an exchange stands: before its read; having read the code; having claimed it (at an
  instant); past the checks; having found it unconsumed again; having written it consumed;
  done with a pair; stopped. The code is the row it read.\<close>

datatype phase =
    Idle
  | HasRead string oauth_auth_code
  | Claimed string oauth_auth_code instant
  | Checked string oauth_auth_code instant
  | Consuming string oauth_auth_code instant
  | Consumed string oauth_auth_code instant
  | Issued string oauth_auth_code instant
  | Stopped

record race =
  ra_clock :: instant
  ra_claims :: claims
  ra_db :: auth_db
  ra_phase :: "nat \<Rightarrow> phase"

text \<open>What every code row satisfies: a whole second of expiry, at most one lifetime ahead.\<close>

definition codes_ok :: "instant \<Rightarrow> auth_db \<Rightarrow> bool" where
  "codes_ok now db \<longleftrightarrow> (\<forall>h c. stored_code db h = Some c \<longrightarrow>
     co_expires c \<noteq> zero_time \<and> co_expires c mod second = 0 \<and> co_expires c \<le> now + auth_code_ttl)"

definition keeps_codes :: "auth_db \<Rightarrow> auth_db \<Rightarrow> bool" where
  "keeps_codes db db' \<longleftrightarrow> (\<forall>h c. stored_code db h = Some c \<longrightarrow> (\<exists>c'. stored_code db' h = Some c' \<and> co_expires c' = co_expires c))"

definition go :: "nat \<Rightarrow> phase \<Rightarrow> race \<Rightarrow> race" where
  "go i p s = s\<lparr>ra_phase := (ra_phase s)(i := p)\<rparr>"

inductive race_step :: "crypto \<Rightarrow> (string \<Rightarrow> string) \<Rightarrow> race \<Rightarrow> race \<Rightarrow> bool" for cr s256 where
  read_code: "ra_phase s i = Idle \<Longrightarrow> get_oauth_auth_code h (ra_db s) = (Inr c, db') \<Longrightarrow>
    race_step cr s256 s (go i (HasRead h c) (s\<lparr>ra_db := db'\<rparr>))"
| claim: "ra_phase s i = HasRead h c \<Longrightarrow> \<not> co_consumed c \<Longrightarrow> claim_code h (ra_clock s) (ra_claims s) = (True, seen') \<Longrightarrow>
    race_step cr s256 s (go i (Claimed h c (ra_clock s)) (s\<lparr>ra_claims := seen'\<rparr>))"
| claim_fails: "ra_phase s i = HasRead h c \<Longrightarrow> claim_code h (ra_clock s) (ra_claims s) = (False, seen') \<Longrightarrow>
    race_step cr s256 s (go i Stopped (s\<lparr>ra_claims := seen'\<rparr>))"
| check: "ra_phase s i = Claimed h c t \<Longrightarrow> check_code s256 (ra_clock s) f c = None \<Longrightarrow>
    race_step cr s256 s (go i (Checked h c t) s)"
| consume_read: "ra_phase s i = Checked h c t \<Longrightarrow> get_oauth_auth_code h (ra_db s) = (Inr c', db') \<Longrightarrow> \<not> co_consumed c' \<Longrightarrow>
    race_step cr s256 s (go i (Consuming h c' t) (s\<lparr>ra_db := db'\<rparr>))"
| consume_write: "ra_phase s i = Consuming h c t \<Longrightarrow> db_exec (put_code True h c) (ra_db s) = (Inr (), db') \<Longrightarrow>
    race_step cr s256 s (go i (Consumed h c t) (s\<lparr>ra_db := db'\<rparr>))"
| issue: "ra_phase s i = Consumed h c t \<Longrightarrow>
    issue_pair cr (ra_clock s) rnd1 rnd2 (co_grant c) (co_client c) (co_user c) (co_resource c) (co_scope c) (co_project c) (ra_db s) =
      (Inr resp, db') \<Longrightarrow>
    race_step cr s256 s (go i (Issued h c t) (s\<lparr>ra_db := db'\<rparr>))"
| stop: "race_step cr s256 s (go i Stopped s)"
| tick: "ra_clock s \<le> now \<Longrightarrow> race_step cr s256 s (s\<lparr>ra_clock := now\<rparr>)"
| other: "keeps_codes (ra_db s) db' \<Longrightarrow> codes_ok (ra_clock s) db' \<Longrightarrow> race_step cr s256 s (s\<lparr>ra_db := db'\<rparr>)"

inductive race_reachable :: "crypto \<Rightarrow> (string \<Rightarrow> string) \<Rightarrow> race \<Rightarrow> bool" for cr s256 where
  start: "codes_ok now db \<Longrightarrow> race_reachable cr s256 \<lparr>ra_clock = now, ra_claims = Map.empty, ra_db = db, ra_phase = (\<lambda>_. Idle)\<rparr>"
| more: "race_reachable cr s256 s \<Longrightarrow> race_step cr s256 s s' \<Longrightarrow> race_reachable cr s256 s'"

section \<open>The invariant\<close>

text \<open>What a phase holds: the row read, and the claim of an exchange past its claim.\<close>

fun holds_code :: "phase \<Rightarrow> (string \<times> oauth_auth_code) option" where
  "holds_code Idle = None" | "holds_code Stopped = None"
| "holds_code (HasRead h c) = Some (h, c)" | "holds_code (Claimed h c t) = Some (h, c)"
| "holds_code (Checked h c t) = Some (h, c)" | "holds_code (Consuming h c t) = Some (h, c)"
| "holds_code (Consumed h c t) = Some (h, c)" | "holds_code (Issued h c t) = Some (h, c)"

fun claim_of :: "phase \<Rightarrow> (string \<times> instant) option" where
  "claim_of Idle = None" | "claim_of Stopped = None" | "claim_of (HasRead h c) = None"
| "claim_of (Claimed h c t) = Some (h, t)" | "claim_of (Checked h c t) = Some (h, t)" | "claim_of (Consuming h c t) = Some (h, t)"
| "claim_of (Consumed h c t) = Some (h, t)" | "claim_of (Issued h c t) = Some (h, t)"

fun past_checks :: "phase \<Rightarrow> bool" where
  "past_checks Idle = False" | "past_checks Stopped = False" | "past_checks (HasRead h c) = False"
| "past_checks (Claimed h c t) = False" | "past_checks (Checked h c t) = True" | "past_checks (Consuming h c t) = True"
| "past_checks (Consumed h c t) = True" | "past_checks (Issued h c t) = True"

text \<open>Everything one exchange is bound by: its code row agrees with the tables on the expiry, its
  claim is recorded or old, and past the checks the code had not expired at the claim.\<close>

definition phase_ok :: "race \<Rightarrow> phase \<Rightarrow> bool" where
  "phase_ok s p \<longleftrightarrow>
     (\<forall>h c. holds_code p = Some (h, c) \<longrightarrow> (\<exists>c'. stored_code (ra_db s) h = Some c' \<and> co_expires c' = co_expires c)) \<and>
     (\<forall>h t. claim_of p = Some (h, t) \<longrightarrow> t \<le> ra_clock s \<and>
        ((\<exists>t'. ra_claims s h = Some t' \<and> t \<le> t') \<or> t + 2 * auth_code_ttl < ra_clock s) \<and>
        (\<exists>c'. stored_code (ra_db s) h = Some c' \<and> co_expires c' \<le> t + auth_code_ttl \<and> (past_checks p \<longrightarrow> t \<le> co_expires c')))"

definition claims_apart :: "race \<Rightarrow> bool" where
  "claims_apart s \<longleftrightarrow> (\<forall>i j h t u. i \<noteq> j \<and> claim_of (ra_phase s i) = Some (h, t) \<and> claim_of (ra_phase s j) = Some (h, u) \<longrightarrow>
     t + 2 * auth_code_ttl < u \<or> u + 2 * auth_code_ttl < t)"

definition claims_past :: "race \<Rightarrow> bool" where
  "claims_past s \<longleftrightarrow> (\<forall>h t. ra_claims s h = Some t \<longrightarrow> t \<le> ra_clock s)"

definition race_ok :: "race \<Rightarrow> bool" where
  "race_ok s \<longleftrightarrow> codes_ok (ra_clock s) (ra_db s) \<and> (\<forall>i. phase_ok s (ra_phase s i)) \<and> claims_apart s \<and> claims_past s"

lemma ttl_pos: "0 < auth_code_ttl" "2 * auth_code_ttl < max_duration" "min_duration \<le> 2 * auth_code_ttl"
  by (simp_all add: auth_code_ttl_def duration_defs)

lemma kept_claims_None:
  "kept_claims now seen h = None \<longleftrightarrow> (case seen h of None \<Rightarrow> True | Some t \<Rightarrow> 2 * auth_code_ttl < now - t)"
  using time_sub_gt [OF ttl_pos(3,2)] by (auto simp: kept_claims_def split: option.splits)

lemma kept_claims_Some: "kept_claims now seen h = Some t \<longleftrightarrow> seen h = Some t \<and> now - t \<le> 2 * auth_code_ttl"
  using time_sub_gt [OF ttl_pos(3,2), of now t] by (auto simp: kept_claims_def split: option.splits if_splits)

lemma keeps_codes_refl [simp]: "keeps_codes db db"
  by (simp add: keeps_codes_def)

lemma keeps_codes_same: "db_codes db' = db_codes db \<Longrightarrow> keeps_codes db db' \<and> codes_ok now db' = codes_ok now db"
  by (auto simp: keeps_codes_def codes_ok_def stored_code_def)

text \<open>Writing a code row back with its flag set keeps every expiry.\<close>

lemma put_code_keeps:
  assumes "stored_code db h = Some c'" and "co_expires c' = co_expires c" and "codes_ok now db"
  shows "keeps_codes db (put_code b h c db) \<and> codes_ok now (put_code b h c db)"
proof -
  obtain c0 where c0: "map_of (db_codes db) h = Some c0" "co_expires c = from_ch (co_expires c0)"
    using assms(1,2) by (auto simp: stored_code_def)
  have e: "co_expires c mod second = 0" "co_expires c \<noteq> 0" "co_expires c \<le> now + auth_code_ttl"
    using assms unfolding codes_ok_def by metis+
  have exp: "from_ch (to_ch (co_expires c)) = co_expires c"
  proof -
    have "co_expires c = co_expires c0" using from_ch_cases [of "co_expires c0"] c0(2) e(2) by simp
    moreover have "to_ch (co_expires c) = co_expires c" using e by (simp add: to_ch_def to_sec_def)
    ultimately show ?thesis using c0(2) by simp
  qed
  have new: "stored_code (put_code b h c db) k = (if k = h
      then Some (c\<lparr>co_consumed := b, co_created := to_sec (co_created c)\<rparr>) else stored_code db k)" for k
    by (simp add: stored_code_def put_code_def exp)
  have "keeps_codes db (put_code b h c db)" using assms(1,2) by (auto simp: keeps_codes_def new)
  moreover have "codes_ok now (put_code b h c db)" using assms(3) e by (auto simp: codes_ok_def new)
  ultimately show ?thesis ..
qed

text \<open>How a state may change under the other exchanges' feet.\<close>

definition progress :: "race \<Rightarrow> race \<Rightarrow> bool" where
  "progress s s' \<longleftrightarrow> ra_clock s \<le> ra_clock s' \<and> keeps_codes (ra_db s) (ra_db s') \<and> codes_ok (ra_clock s') (ra_db s') \<and>
     ra_phase s' = ra_phase s \<and> claims_past s' \<and>
     (\<forall>h t. ra_claims s h = Some t \<longrightarrow> (\<exists>t'. ra_claims s' h = Some t' \<and> t \<le> t') \<or> t + 2 * auth_code_ttl < ra_clock s')"

lemma phase_ok_progress:
  assumes "progress s s'" and "phase_ok s p"
  shows "phase_ok s' p"
proof -
  have keep: "\<exists>c''. stored_code (ra_db s') h = Some c'' \<and> co_expires c'' = co_expires c" if "stored_code (ra_db s) h = Some c" for h c
    using assms(1) that by (auto simp: progress_def keeps_codes_def)
  have "(\<exists>t'. ra_claims s' h = Some t' \<and> t \<le> t') \<or> t + 2 * auth_code_ttl < ra_clock s'" if "claim_of p = Some (h, t)" for h t
  proof -
    have "(\<exists>t'. ra_claims s h = Some t' \<and> t \<le> t') \<or> t + 2 * auth_code_ttl < ra_clock s"
      using assms(2) that by (auto simp: phase_ok_def)
    then show ?thesis using assms(1) by (fastforce simp: progress_def)
  qed
  moreover have "\<exists>c'. stored_code (ra_db s') h = Some c' \<and> co_expires c' \<le> t + auth_code_ttl \<and> (past_checks p \<longrightarrow> t \<le> co_expires c')"
    if "claim_of p = Some (h, t)" for h t
  proof -
    obtain c' where "stored_code (ra_db s) h = Some c'" "co_expires c' \<le> t + auth_code_ttl" "past_checks p \<longrightarrow> t \<le> co_expires c'"
      using assms(2) \<open>claim_of p = Some (h, t)\<close> by (auto simp: phase_ok_def)
    then show ?thesis using keep [of h c'] by auto
  qed
  moreover have "t \<le> ra_clock s'" if "claim_of p = Some (h, t)" for h t
    using assms that by (force simp: phase_ok_def progress_def)
  moreover have "\<exists>c'. stored_code (ra_db s') h = Some c' \<and> co_expires c' = co_expires c" if "holds_code p = Some (h, c)" for h c
  proof -
    obtain c' where "stored_code (ra_db s) h = Some c'" "co_expires c' = co_expires c"
      using assms(2) \<open>holds_code p = Some (h, c)\<close> by (auto simp: phase_ok_def)
    then show ?thesis using keep [of h c'] by auto
  qed
  ultimately show ?thesis by (simp add: phase_ok_def)
qed

lemma race_ok_progress: "progress s s' \<Longrightarrow> race_ok s \<Longrightarrow> race_ok s'"
  using phase_ok_progress by (auto simp: race_ok_def progress_def claims_apart_def)

lemma race_ok_go:
  assumes "race_ok s" and "phase_ok s p"
    and "claim_of p = None \<or> claim_of p = claim_of (ra_phase s i) \<or>
      (\<forall>j h t u. j \<noteq> i \<and> claim_of p = Some (h, t) \<and> claim_of (ra_phase s j) = Some (h, u) \<longrightarrow> u + 2 * auth_code_ttl < t)"
  shows "race_ok (go i p s)"
proof -
  have "phase_ok (go i p s) q = phase_ok s q" for q by (simp add: phase_ok_def go_def)
  then have "\<forall>j. phase_ok (go i p s) (ra_phase (go i p s) j)" using assms(1,2) by (simp add: race_ok_def go_def)
  moreover have "claims_apart (go i p s)"
    using assms(1,3) by (fastforce simp: claims_apart_def race_ok_def go_def)
  moreover have "claims_past (go i p s) = claims_past s" by (simp add: claims_past_def go_def)
  ultimately show ?thesis using assms(1) by (simp add: race_ok_def go_def)
qed

lemma progress_db:
  "race_ok s \<Longrightarrow> keeps_codes (ra_db s) db' \<Longrightarrow> codes_ok (ra_clock s) db' \<Longrightarrow> progress s (s\<lparr>ra_db := db'\<rparr>)"
  by (auto simp: progress_def race_ok_def claims_past_def)

lemma progress_same_codes: "race_ok s \<Longrightarrow> db_codes db' = db_codes (ra_db s) \<Longrightarrow> progress s (s\<lparr>ra_db := db'\<rparr>)"
  using keeps_codes_same [of db' "ra_db s" "ra_clock s"] by (simp add: progress_db race_ok_def)

lemma codes_ok_later: "codes_ok now db \<Longrightarrow> now \<le> now' \<Longrightarrow> codes_ok now' db"
  by (force simp: codes_ok_def)

lemma progress_tick: "race_ok s \<Longrightarrow> ra_clock s \<le> now \<Longrightarrow> progress s (s\<lparr>ra_clock := now\<rparr>)"
  by (force simp: progress_def race_ok_def claims_past_def intro: codes_ok_later)

lemma progress_claims:
  assumes "race_ok s" and "claim_code h (ra_clock s) (ra_claims s) = (b, seen')"
  shows "progress s (s\<lparr>ra_claims := seen'\<rparr>)"
proof -
  have "(\<exists>t'. seen' k = Some t' \<and> t \<le> t') \<or> t + 2 * auth_code_ttl < ra_clock s" if "ra_claims s k = Some t" for k t
  proof (cases "kept_claims (ra_clock s) (ra_claims s) k")
    case None
    then show ?thesis using that by (simp add: kept_claims_None)
  next
    case (Some t')
    then have "t' = t" using that by (simp add: kept_claims_Some)
    with Some assms(1,2) that show ?thesis
      by (auto simp: claim_code_def Let_def race_ok_def claims_past_def split: if_splits)
  qed
  moreover have "t \<le> ra_clock s" if "seen' k = Some t" for k t
    using assms that by (auto simp: claim_code_def Let_def race_ok_def claims_past_def kept_claims_Some split: if_splits)
  ultimately show ?thesis using assms(1) by (simp add: progress_def race_ok_def claims_past_def)
qed

section \<open>Every step keeps it\<close>

lemma stored_of_read:
  assumes "get_oauth_auth_code h db = (Inr c, db')"
  shows "stored_code db h = Some c \<and> db_codes db' = db_codes db"
proof -
  from readsE [OF reads_get_oauth_code assms] obtain fs where "db' = db\<lparr>db_faults := fs\<rparr>" "Inr c = found (stored_code db h)"
    by (metis isl_def sum.distinct(1))
  then show ?thesis by (simp add: found_def split: option.splits)
qed

lemma race_ok_step:
  assumes "race_step cr s256 s s'" and ok: "race_ok s"
  shows "race_ok s'"
  using assms(1)
proof cases
  case (read_code i h c db')
  from stored_of_read [OF read_code(3)] have c: "stored_code (ra_db s) h = Some c" and same: "db_codes db' = db_codes (ra_db s)" by simp_all
  let ?s = "s\<lparr>ra_db := db'\<rparr>"
  have "stored_code db' h = Some c" using c same by (simp add: stored_code_def)
  then show ?thesis unfolding read_code(1)
    by (intro race_ok_go race_ok_progress [OF progress_same_codes [OF ok same] ok]) (simp_all add: phase_ok_def)
next
  case (claim i h c seen')
  let ?s = "s\<lparr>ra_claims := seen'\<rparr>"
  have pr: "progress s ?s" by (rule progress_claims [OF ok claim(4)])
  then have p: "phase_ok ?s (HasRead h c)" using phase_ok_progress ok claim(2) by (metis race_ok_def)
  have none: "kept_claims (ra_clock s) (ra_claims s) h = None" and seen: "seen' h = Some (ra_clock s)"
    using claim(4) by (auto simp: claim_code_def Let_def split: if_splits)
  obtain c' where c': "stored_code (ra_db s) h = Some c'" "co_expires c' = co_expires c" using p by (auto simp: phase_ok_def)
  have "co_expires c' \<le> ra_clock s + auth_code_ttl" using ok c'(1) by (auto simp: race_ok_def codes_ok_def)
  then have new: "phase_ok ?s (Claimed h c (ra_clock s))" using c' seen by (auto simp: phase_ok_def)
  have "u + 2 * auth_code_ttl < ra_clock s" if "claim_of (ra_phase s j) = Some (h, u)" for j u
  proof -
    have "phase_ok s (ra_phase s j)" using ok by (simp add: race_ok_def)
    then have "(\<exists>t'. ra_claims s h = Some t' \<and> u \<le> t') \<or> u + 2 * auth_code_ttl < ra_clock s" using that by (auto simp: phase_ok_def)
    with none show ?thesis by (auto simp: kept_claims_None)
  qed
  then show ?thesis unfolding claim(1) by (intro race_ok_go race_ok_progress [OF pr ok] new) auto
next
  case (claim_fails i h c seen')
  have "progress s (s\<lparr>ra_claims := seen'\<rparr>)" by (rule progress_claims [OF ok claim_fails(3)])
  then show ?thesis unfolding claim_fails(1) by (intro race_ok_go race_ok_progress [OF _ ok]) (simp_all add: phase_ok_def)
next
  case (check i h c t f)
  have p: "phase_ok s (Claimed h c t)" using ok check(2) by (metis race_ok_def)
  have exp: "\<not> expired (ra_clock s) (co_expires c)" using check(3) by (simp add: check_code_None)
  obtain c1 where c1: "stored_code (ra_db s) h = Some c1" "co_expires c1 = co_expires c" using p by (auto simp: phase_ok_def)
  have "co_expires c1 \<noteq> 0" using ok c1(1) by (auto simp: race_ok_def codes_ok_def)
  with exp c1(2) have "ra_clock s \<le> co_expires c1" by (simp add: expired_def)
  with p c1 have "phase_ok s (Checked h c t)" by (auto simp: phase_ok_def)
  then show ?thesis unfolding check(1) using check(2) by (intro race_ok_go [OF ok]) auto
next
  case (consume_read i h c t c' db')
  have p: "phase_ok s (Checked h c t)" using ok consume_read(2) by (metis race_ok_def)
  from stored_of_read [OF consume_read(3)] have st: "stored_code (ra_db s) h = Some c'" and same: "db_codes db' = db_codes (ra_db s)" by simp_all
  have pr: "progress s (s\<lparr>ra_db := db'\<rparr>)" by (rule progress_same_codes [OF ok same])
  have "phase_ok s (Consuming h c' t)" using p st by (auto simp: phase_ok_def)
  then have "phase_ok (s\<lparr>ra_db := db'\<rparr>) (Consuming h c' t)" by (rule phase_ok_progress [OF pr])
  then show ?thesis unfolding consume_read(1) using consume_read(2) by (intro race_ok_go race_ok_progress [OF pr ok]) auto
next
  case (consume_write i h c t db')
  have p: "phase_ok s (Consuming h c t)" using ok consume_write(2) by (metis race_ok_def)
  obtain c1 where c1: "stored_code (ra_db s) h = Some c1" "co_expires c1 = co_expires c" using p by (auto simp: phase_ok_def)
  from consume_write(3) obtain fs where db': "db' = put_code True h c (ra_db s\<lparr>db_faults := fs\<rparr>)" by (elim db_execE) auto
  have "stored_code (ra_db s\<lparr>db_faults := fs\<rparr>) h = Some c1" "codes_ok (ra_clock s) (ra_db s\<lparr>db_faults := fs\<rparr>)"
    using c1(1) ok by (simp_all add: stored_code_def race_ok_def codes_ok_def)
  from put_code_keeps [OF this(1) c1(2) this(2), of True] have "keeps_codes (ra_db s) db'" "codes_ok (ra_clock s) db'"
    by (simp_all add: db' keeps_codes_def stored_code_def)
  then have pr: "progress s (s\<lparr>ra_db := db'\<rparr>)" by (rule progress_db [OF ok])
  have "phase_ok s (Consumed h c t)" using p by (simp add: phase_ok_def)
  then have "phase_ok (s\<lparr>ra_db := db'\<rparr>) (Consumed h c t)" by (rule phase_ok_progress [OF pr])
  then show ?thesis unfolding consume_write(1) using consume_write(2) by (intro race_ok_go race_ok_progress [OF pr ok]) auto
next
  case (issue i h c t rnd1 rnd2 resp db')
  have p: "phase_ok s (Consumed h c t)" using ok issue(2) by (metis race_ok_def)
  have "issue_pair cr (ra_clock s) rnd1 rnd2 (bd_grant (code_binding c)) (bd_client (code_binding c)) (co_user c)
      (bd_resource (code_binding c)) (bd_scope (code_binding c)) (bd_project (code_binding c)) (ra_db s) = (Inr resp, db')"
    using issue(3) by (simp add: code_binding_def)
  then have "db_codes db' = db_codes (ra_db s)" by (rule issue_pairE) simp
  then have pr: "progress s (s\<lparr>ra_db := db'\<rparr>)" by (rule progress_same_codes [OF ok])
  have "phase_ok s (Issued h c t)" using p by (simp add: phase_ok_def)
  then have "phase_ok (s\<lparr>ra_db := db'\<rparr>) (Issued h c t)" by (rule phase_ok_progress [OF pr])
  then show ?thesis unfolding issue(1) using issue(2) by (intro race_ok_go race_ok_progress [OF pr ok]) auto
next
  case (stop i)
  then show ?thesis by (auto intro: race_ok_go [OF ok] simp: phase_ok_def)
next
  case (tick now)
  then show ?thesis using race_ok_progress [OF progress_tick [OF ok] ok] by simp
next
  case (other db')
  then show ?thesis using race_ok_progress [OF progress_db [OF ok] ok] by simp
qed

lemma reachable_ok: "race_reachable cr s256 s \<Longrightarrow> race_ok s"
proof (induction rule: race_reachable.induct)
  case (start now db)
  then show ?case by (auto simp: race_ok_def phase_ok_def claims_apart_def claims_past_def)
next
  case (more s s')
  then show ?case by (blast intro: race_ok_step)
qed

text \<open>C4. A code is redeemed once in a process: whatever the interleaving of exchanges, of their
  database calls, of the passage of time and of other requests, at most one exchange of a
  code ever gets past the checks, so at most one pair of tokens is issued from it, although
  the store has no compare-and-swap and two exchanges may read the same unconsumed row.\<close>

theorem code_single_use:
  assumes "race_reachable cr s256 s"
    and "past_checks (ra_phase s i)" and "holds_code (ra_phase s i) = Some (h, c)"
    and "past_checks (ra_phase s j)" and "holds_code (ra_phase s j) = Some (h, d)"
  shows "i = j"
proof (rule ccontr)
  assume ij: "i \<noteq> j"
  have ok: "race_ok s" by (rule reachable_ok [OF assms(1)])
  obtain t where t: "claim_of (ra_phase s i) = Some (h, t)" using assms(2,3) by (cases "ra_phase s i") auto
  obtain u where u: "claim_of (ra_phase s j) = Some (h, u)" using assms(4,5) by (cases "ra_phase s j") auto
  have p: "phase_ok s (ra_phase s i)" "phase_ok s (ra_phase s j)" using ok by (simp_all add: race_ok_def)
  then obtain a b where "stored_code (ra_db s) h = Some a" "co_expires a \<le> t + auth_code_ttl" "t \<le> co_expires a"
    "stored_code (ra_db s) h = Some b" "co_expires b \<le> u + auth_code_ttl" "u \<le> co_expires b"
    using t u assms(2,4) by (fastforce simp: phase_ok_def)
  moreover have "t + 2 * auth_code_ttl < u \<or> u + 2 * auth_code_ttl < t"
    using ok t u ij by (auto simp: race_ok_def claims_apart_def)
  ultimately show False using ttl_pos(1) by auto
qed

text \<open>Two exchanges have read the same unconsumed row and the first is past its checks; so the
  second is not.\<close>

definition fresh_row :: oauth_auth_code where
  "fresh_row = \<lparr>co_client = ''c1'', co_user = ''u1'', co_grant = ''g1'', co_redirect = ''cb'',
     co_resource = ''r'', co_scope = ''mcp:read'', co_project = ''shop'', co_challenge = sample_verifier, co_expires = 7 * ch_epoch,
     co_consumed = False, co_created = 2 * ch_epoch\<rparr>"

lemma fresh_read:
  "get_oauth_auth_code ''#avuruc_x'' fresh_db = (Inr fresh_row, fresh_db)"
  "claim_code ''#avuruc_x'' (7 * ch_epoch) Map.empty = (True, [''#avuruc_x'' \<mapsto> 7 * ch_epoch])"
  "check_code id (7 * ch_epoch) sample_form fresh_row = None"
  by code_simp (simp add: claim_code_def kept_claims_def fun_eq_iff, code_simp)

lemma fresh_codes: "codes_ok (7 * ch_epoch) fresh_db"
  by (auto simp: codes_ok_def stored_code_def fresh_db_def from_ch_def ch_epoch_def auth_code_ttl_def duration_defs split: if_splits)

theorem code_single_use_witness:
  "\<exists>s. race_reachable toy_crypto id s \<and> past_checks (ra_phase s 0) \<and>
     holds_code (ra_phase s 0) = Some (''#avuruc_x'', fresh_row) \<and> holds_code (ra_phase s 1) = Some (''#avuruc_x'', fresh_row) \<and>
     \<not> past_checks (ra_phase s 1)"
proof -
  let ?s0 = "\<lparr>ra_clock = 7 * ch_epoch, ra_claims = Map.empty, ra_db = fresh_db, ra_phase = (\<lambda>_. Idle)\<rparr>"
  let ?s1 = "go 0 (HasRead ''#avuruc_x'' fresh_row) (?s0\<lparr>ra_db := fresh_db\<rparr>)"
  let ?s2 = "go 1 (HasRead ''#avuruc_x'' fresh_row) (?s1\<lparr>ra_db := fresh_db\<rparr>)"
  let ?s3 = "go 0 (Claimed ''#avuruc_x'' fresh_row (ra_clock ?s2)) (?s2\<lparr>ra_claims := [''#avuruc_x'' \<mapsto> 7 * ch_epoch]\<rparr>)"
  let ?s4 = "go 0 (Checked ''#avuruc_x'' fresh_row (7 * ch_epoch)) ?s3"
  have r0: "race_reachable toy_crypto id ?s0" by (rule start [OF fresh_codes])
  have r1: "race_reachable toy_crypto id ?s1"
    by (rule more [OF r0 read_code]) (simp_all add: fresh_read)
  have r2: "race_reachable toy_crypto id ?s2"
    by (rule more [OF r1 read_code]) (simp_all add: fresh_read go_def)
  have r3: "race_reachable toy_crypto id ?s3"
    by (rule more [OF r2 claim]) (simp_all add: fresh_read go_def fresh_row_def)
  have r4: "race_reachable toy_crypto id ?s4"
    by (rule more [OF r3 check [where f = sample_form]]) (simp_all add: fresh_read go_def)
  have a: "past_checks (ra_phase ?s4 0)" "holds_code (ra_phase ?s4 0) = Some (''#avuruc_x'', fresh_row)"
    "holds_code (ra_phase ?s4 1) = Some (''#avuruc_x'', fresh_row)" by (simp_all add: go_def)
  have "\<not> past_checks (ra_phase ?s4 1)"
    using code_single_use [OF r4 a(1,2) _ a(3)] by auto
  with r4 a show ?thesis by blast
qed

end
