(* ===== verification/ProjectStore.thy ===== *)
theory ProjectStore
  imports AuthStore
begin

text \<open>
  The project and ingest-key tables (hub/internal/storage/clickhouse/project.go and
  ingestkeys.go) over the store of AuthStore: every query of projects filters the tombstones
  out, so a deleted project has no row; a revoked key keeps its row with the flag set, the name
  and the rest blank.
\<close>

section \<open>Projects\<close>

text \<open>The column is an unsigned 16-bit number.\<close>

definition retention_days :: "project \<Rightarrow> int" where
  "retention_days p = (if pj_retention p < 0 then 0 else if 65535 < pj_retention p then 65535 else pj_retention p)"

definition list_projects :: "project list db_op" where
  "list_projects = db_query (\<lambda>db. Inr (sort_key pj_id (map snd (db_projects db))))"

definition get_project :: "string \<Rightarrow> project db_op" where
  "get_project i = db_query (\<lambda>db. found (map_of (db_projects db) i))"

definition save_project :: "project \<Rightarrow> unit db_op" where
  "save_project p = db_exec (\<lambda>db. db\<lparr>db_projects := AList.update (pj_id p)
     (p\<lparr>pj_retention := retention_days p, pj_created := to_sec (pj_created p)\<rparr>) (db_projects db)\<rparr>)"

definition delete_project :: "string \<Rightarrow> unit db_op" where
  "delete_project i =
     db_then (db_query (\<lambda>db. Inr (map_of (db_projects db) i \<noteq> None)))
       (\<lambda>n. if \<not> n then db_fail NotFound else db_exec (\<lambda>db. db\<lparr>db_projects := AList.delete i (db_projects db)\<rparr>))"

section \<open>Ingest keys\<close>

definition create_ingest_key :: "string \<Rightarrow> ingest_key \<Rightarrow> unit db_op" where
  "create_ingest_key h k = db_exec (\<lambda>db. db\<lparr>db_ingest := AList.update h
     (k\<lparr>ik_revoked := False, ik_created := to_sec (ik_created k)\<rparr>) (db_ingest db)\<rparr>)"

definition live_ingest_key :: "auth_db \<Rightarrow> string \<Rightarrow> ingest_key option" where
  "live_ingest_key db h = (case map_of (db_ingest db) h of
     None \<Rightarrow> None | Some k \<Rightarrow> if ik_revoked k then None else Some k)"

definition get_ingest_key_by_hash :: "string \<Rightarrow> ingest_key db_op" where
  "get_ingest_key_by_hash h = db_query (\<lambda>db. found (live_ingest_key db h))"

definition list_ingest_keys :: "string \<Rightarrow> (string \<times> ingest_key) list db_op" where
  "list_ingest_keys project = db_query (\<lambda>db. Inr (sort_key (\<lambda>(h, k). - ik_created k) (sort_key fst
     (filter (\<lambda>(h, k). ik_project k = project \<and> \<not> ik_revoked k) (db_ingest db)))))"

definition revoke_ingest_key :: "instant \<Rightarrow> string \<Rightarrow> string \<Rightarrow> unit db_op" where
  "revoke_ingest_key now project h =
     db_then (db_query (\<lambda>db. Inr (case live_ingest_key db h of
          None \<Rightarrow> None | Some k \<Rightarrow> if ik_project k = project then Some (ik_name k) else None)))
       (\<lambda>n. case n of
          None \<Rightarrow> db_fail NotFound
        | Some name \<Rightarrow> db_exec (\<lambda>db. db\<lparr>db_ingest := AList.update h
            \<lparr>ik_project = project, ik_name = name, ik_prefix = [], ik_created_by = [], ik_revoked = True,
             ik_created = to_ms now\<rparr> (db_ingest db)\<rparr>))"

section \<open>Well-formed tables\<close>

definition projects_ok :: "auth_db \<Rightarrow> bool" where
  "projects_ok db \<longleftrightarrow> wf_alist (db_projects db) \<and> (\<forall>(i, p)\<in>set (db_projects db). pj_id p = i)"

lemma project_id: "projects_ok db \<Longrightarrow> map_of (db_projects db) i = Some p \<Longrightarrow> pj_id p = i"
  by (auto simp: projects_ok_def dest: map_of_SomeD)

lemma project_row: "projects_ok db \<Longrightarrow> p \<in> snd ` set (db_projects db) \<Longrightarrow> map_of (db_projects db) (pj_id p) = Some p"
  by (auto simp: projects_ok_def)

lemma set_projects: "projects_ok db \<Longrightarrow> snd ` set (db_projects db) = {p. map_of (db_projects db) (pj_id p) = Some p}"
  using project_row [of db] by (blast dest: map_of_SomeD intro: image_eqI [where f = snd] snd_conv [symmetric])

lemma retention_days_same [simp]: "0 \<le> pj_retention p \<Longrightarrow> pj_retention p \<le> 65535 \<Longrightarrow> retention_days p = pj_retention p"
  by (simp add: retention_days_def)

lemma retention_days_zero [simp]: "pj_retention p = 0 \<Longrightarrow> retention_days p = 0"
  by (simp add: retention_days_def)

end
