(* ===== verification/Access.thy ===== *)
theory Access
  imports OAuthServer LastUsed ProjectStore
begin

text \<open>
  Who a request is and what it may reach (hub/internal/api/auth_middleware.go, errors.go): the
  bearer credential and the session cookie, the cross-origin check, the wrappers every route is
  registered with, and the project a request reads. A wrapper is a function of the handler it
  wraps, so a handler is anything that takes the context the wrapper made and the state. The
  state holds the tables, the debounce of last-used writes, and whether the response clears
  the session cookie and carries a challenge.
\<close>

section \<open>Errors\<close>

text \<open>The errors a handler returns; the description of each is the reason the code formats.\<close>

datatype denial =
    NeedsRole role | NeedsAdmin | CrossOrigin | OtherProject string | NoProjectAccess role string
  | LacksScope string | NoMemberAccess string | DemoPassword

datatype http_error =
    Bad_Request string
  | Unauthorized
  | Denied denial
  | Missing string
  | Conflict string
  | Too_Large
  | Throttled
  | Unavailable
  | Failed_With string
  | From_Store store_error
  | From_Auth auth_error

text \<open>The mapping of \<open>handle\<close>: what is not an API error is 404 for a missing row and 500 for
  everything else.\<close>

definition http_status :: "http_error \<Rightarrow> nat" where
  "http_status e = (case e of
     Bad_Request _ \<Rightarrow> 400 | Unauthorized \<Rightarrow> 401 | Denied _ \<Rightarrow> 403 | Missing _ \<Rightarrow> 404 | Conflict _ \<Rightarrow> 409 | Too_Large \<Rightarrow> 413 | Throttled \<Rightarrow> 429
   | Unavailable \<Rightarrow> 503 | Failed_With _ \<Rightarrow> 500
   | From_Store s \<Rightarrow> if s = NotFound then 404 else 500
   | From_Auth a \<Rightarrow> if a = StoreError NotFound then 404 else 500)"

text \<open>A request body: decoded, not the JSON expected, or over the limit.\<close>

datatype 'a body = Body 'a | Garbled | Oversized

definition decode :: "'a body \<Rightarrow> http_error + 'a" where
  "decode b = (case b of Body x \<Rightarrow> Inr x | Garbled \<Rightarrow> Inl (Bad_Request ''invalid body'') | Oversized \<Rightarrow> Inl Too_Large)"

section \<open>Requests and configuration\<close>

record request =
  rq_method :: string
  rq_host :: string
  rq_authorization :: string
  rq_origin :: string
  rq_cookie :: "string option"
  rq_tenant :: string

record access_config =
  ac_auth :: "auth_service option"
  ac_anonymous :: "identity option"
  ac_trusted :: "string list"
  ac_origin_check :: string
  ac_public :: string

record req_context =
  cx_identity :: "identity option"
  cx_binding :: "oauth_binding option"

definition no_context :: req_context where
  "no_context = \<lparr>cx_identity = None, cx_binding = None\<rparr>"

record gate =
  gt_db :: auth_db
  gt_touched :: last_used
  gt_cleared :: bool
  gt_challenge :: "string option"

type_synonym 'a handler = "req_context \<Rightarrow> gate \<Rightarrow> (http_error + 'a) \<times> gate"

section \<open>Credentials of a request\<close>

definition bearer_scheme :: string where "bearer_scheme = ''bearer ''"

definition bearer_token :: "request \<Rightarrow> string option" where
  "bearer_token rq =
     (let h = rq_authorization rq; n = length bearer_scheme
      in if length h < n \<or> \<not> equal_fold (take n h) bearer_scheme then None
         else let tok = trim_space (drop n h) in if tok = [] then None else Some tok)"

text \<open>Only a row that is not there means the credential is bad; anything else is an outage.\<close>

definition credential_error :: "auth_error \<Rightarrow> http_error" where
  "credential_error e = (if e = StoreError NotFound then Unauthorized else Unavailable)"

definition touch_api_token :: "crypto \<Rightarrow> instant \<Rightarrow> string \<Rightarrow> gate \<Rightarrow> gate" where
  "touch_api_token cr now raw st =
     (case should_touch (gt_touched st) (cr_hash_token cr raw) now of (due, seen) \<Rightarrow>
        let st1 = st\<lparr>gt_touched := seen\<rparr>
        in if \<not> due \<or> \<not> db_up (gt_db st) then st1
           else st1\<lparr>gt_db := snd (touch_auth_token (cr_hash_token cr raw) now (gt_db st))\<rparr>)"

definition touch_bearer :: "crypto \<Rightarrow> instant \<Rightarrow> string \<Rightarrow> gate \<Rightarrow> gate" where
  "touch_bearer cr now raw st =
     (case should_touch (gt_touched st) (cr_hash_token cr raw) now of (due, seen) \<Rightarrow>
        let st1 = st\<lparr>gt_touched := seen\<rparr>
        in if \<not> due \<or> \<not> db_up (gt_db st) then st1
           else st1\<lparr>gt_db := snd (touch_oauth_token (cr_hash_token cr raw) now (gt_db st))\<rparr>)"

definition fall_back :: "access_config \<Rightarrow> gate \<Rightarrow> (http_error + identity) \<times> gate" where
  "fall_back cfg st = (case ac_anonymous cfg of Some i \<Rightarrow> (Inr i, st) | None \<Rightarrow> (Inl Unauthorized, st))"

definition request_identity :: "crypto \<Rightarrow> access_config \<Rightarrow> auth_service \<Rightarrow> instant \<Rightarrow> request \<Rightarrow> gate \<Rightarrow>
    (http_error + identity) \<times> gate" where
  "request_identity cr cfg sv now rq st =
     (case bearer_token rq of
        Some raw \<Rightarrow>
          if has_prefix oauth_access_prefix raw then (Inl Unauthorized, st)
          else (case identity_from_api_token cr sv now raw (gt_db st) of
              (Inr i, db) \<Rightarrow> (Inr i, touch_api_token cr now raw (st\<lparr>gt_db := db\<rparr>))
            | (Inl e, db) \<Rightarrow> (Inl (credential_error e), st\<lparr>gt_db := db\<rparr>))
      | None \<Rightarrow>
          (case rq_cookie rq of
             None \<Rightarrow> fall_back cfg st
           | Some c \<Rightarrow>
               if c = [] then fall_back cfg st
               else (case identity_from_token cr sv now c (gt_db st) of
                   (Inr i, db) \<Rightarrow> (Inr i, st\<lparr>gt_db := db\<rparr>)
                 | (Inl e, db) \<Rightarrow>
                     if credential_error e = Unavailable then (Inl Unavailable, st\<lparr>gt_db := db\<rparr>)
                     else fall_back cfg (st\<lparr>gt_db := db, gt_cleared := True\<rparr>))))"

definition scope_allows :: "string \<Rightarrow> string \<Rightarrow> bool" where
  "scope_allows scope want = list_ex (\<lambda>s. s = want) (str_fields scope)"

definition request_identity_for_resource :: "crypto \<Rightarrow> access_config \<Rightarrow> auth_service \<Rightarrow> instant \<Rightarrow> request \<Rightarrow> string \<Rightarrow> gate \<Rightarrow>
    (http_error + identity \<times> oauth_binding option) \<times> gate" where
  "request_identity_for_resource cr cfg sv now rq resource st =
     (case bearer_token rq of
        Some raw \<Rightarrow>
          if has_prefix oauth_access_prefix raw then
            (case identity_from_oauth_token cr sv now raw (gt_db st) of
               (Inl e, db) \<Rightarrow> (Inl (credential_error e), st\<lparr>gt_db := db\<rparr>)
             | (Inr (i, b), db) \<Rightarrow>
                 if bd_resource b \<noteq> resource then (Inl Unauthorized, st\<lparr>gt_db := db\<rparr>)
                 else if \<not> scope_allows (bd_scope b) scope_mcp_read
                   then (Inl (Denied (LacksScope scope_mcp_read)), st\<lparr>gt_db := db\<rparr>)
                 else (Inr (i, Some b), touch_bearer cr now raw (st\<lparr>gt_db := db\<rparr>)))
          else (case request_identity cr cfg sv now rq st of
                  (Inl e, st1) \<Rightarrow> (Inl e, st1) | (Inr i, st1) \<Rightarrow> (Inr (i, None), st1))
      | None \<Rightarrow>
          (case request_identity cr cfg sv now rq st of
             (Inl e, st1) \<Rightarrow> (Inl e, st1) | (Inr i, st1) \<Rightarrow> (Inr (i, None), st1)))"

section \<open>The cross-origin check\<close>

definition normalize_origin :: "string \<Rightarrow> string" where
  "normalize_origin s = (case url_parse (trim_space s) of
     None \<Rightarrow> []
   | Some u \<Rightarrow> if u_scheme u = [] \<or> u_host u = [] then [] else to_lower (u_scheme u @ ''://'' @ u_host u))"

definition origin_trusted :: "access_config \<Rightarrow> string \<Rightarrow> bool" where
  "origin_trusted cfg origin =
     (let want = normalize_origin origin
      in if want = [] then False else list_ex (\<lambda>t. normalize_origin t = want) (ac_trusted cfg))"

definition check_origin :: "access_config \<Rightarrow> request \<Rightarrow> http_error option" where
  "check_origin cfg rq =
     (if rq_method rq = ''GET'' \<or> rq_method rq = ''HEAD'' then None
      else if rq_origin rq = [] then None
      else if ac_origin_check cfg = ''off'' then None
      else if (case url_parse (rq_origin rq) of Some u \<Rightarrow> equal_fold (u_host u) (rq_host rq) | None \<Rightarrow> False) then None
      else if origin_trusted cfg (rq_origin rq) then None
      else if ac_origin_check cfg = ''log'' then None
      else Some (Denied CrossOrigin))"

section \<open>The wrappers of a route\<close>

text \<open>What the wrappers share; \<open>admits\<close> is the floor of each.\<close>

definition with_identity :: "(identity \<Rightarrow> denial option) \<Rightarrow> crypto \<Rightarrow> access_config \<Rightarrow> instant \<Rightarrow> request \<Rightarrow> 'a handler \<Rightarrow>
    gate \<Rightarrow> (http_error + 'a) \<times> gate" where
  "with_identity admits cr cfg now rq fn st =
     (case ac_auth cfg of
        None \<Rightarrow> fn no_context st
      | Some sv \<Rightarrow>
          (case check_origin cfg rq of
             Some e \<Rightarrow> (Inl e, st)
           | None \<Rightarrow>
               (case request_identity cr cfg sv now rq st of
                  (Inl e, st1) \<Rightarrow> (Inl e, st1)
                | (Inr i, st1) \<Rightarrow>
                    (case admits i of
                       Some why \<Rightarrow> (Inl (Denied why), st1)
                     | None \<Rightarrow> fn (no_context\<lparr>cx_identity := Some i\<rparr>) st1))))"

definition secured :: "role \<Rightarrow> crypto \<Rightarrow> access_config \<Rightarrow> instant \<Rightarrow> request \<Rightarrow> 'a handler \<Rightarrow> gate \<Rightarrow> (http_error + 'a) \<times> gate" where
  "secured need = with_identity (\<lambda>i. if holds_anywhere i need then None else Some (NeedsRole need))"

definition authenticated :: "crypto \<Rightarrow> access_config \<Rightarrow> instant \<Rightarrow> request \<Rightarrow> 'a handler \<Rightarrow> gate \<Rightarrow> (http_error + 'a) \<times> gate" where
  "authenticated = with_identity (\<lambda>i. None)"

definition secured_admin :: "crypto \<Rightarrow> access_config \<Rightarrow> instant \<Rightarrow> request \<Rightarrow> 'a handler \<Rightarrow> gate \<Rightarrow> (http_error + 'a) \<times> gate" where
  "secured_admin = with_identity (\<lambda>i. if is_admin i then None else Some NeedsAdmin)"

definition path_well_known :: string where "path_well_known = ''/.well-known/oauth-protected-resource/mcp''"

definition protected_resource_metadata_url :: "access_config \<Rightarrow> string \<Rightarrow> string" where
  "protected_resource_metadata_url cfg resource =
     (if ac_public cfg = [] \<or> resource = [] then [] else issuer (ac_public cfg) @ path_well_known)"

definition mcp_resource :: "access_config \<Rightarrow> string" where
  "mcp_resource cfg = resource_uri (ac_public cfg)"

text \<open>The challenge is the metadata URL it names, empty when there is none to name.\<close>

definition secured_resource :: "role \<Rightarrow> string \<Rightarrow> crypto \<Rightarrow> access_config \<Rightarrow> instant \<Rightarrow> request \<Rightarrow> 'a handler \<Rightarrow> gate \<Rightarrow>
    (http_error + 'a) \<times> gate" where
  "secured_resource need resource cr cfg now rq fn st =
     (case ac_auth cfg of
        None \<Rightarrow> fn no_context st
      | Some sv \<Rightarrow>
          (case check_origin cfg rq of
             Some e \<Rightarrow> (Inl e, st)
           | None \<Rightarrow>
               (case request_identity_for_resource cr cfg sv now rq resource st of
                  (Inl e, st1) \<Rightarrow>
                    (Inl e, if http_status e = 401
                      then st1\<lparr>gt_challenge := Some (protected_resource_metadata_url cfg resource)\<rparr> else st1)
                | (Inr (i, b), st1) \<Rightarrow>
                    if holds_anywhere i need then fn \<lparr>cx_identity = Some i, cx_binding = b\<rparr> st1
                    else (Inl (Denied (NeedsRole need)), st1))))"

section \<open>The project of a request\<close>

definition request_project :: "request \<Rightarrow> req_context \<Rightarrow> role \<Rightarrow> http_error + string" where
  "request_project rq cx need =
     (let t0 = (if rq_tenant rq = [] then default_tenant else rq_tenant rq);
          bound = (case cx_binding cx of None \<Rightarrow> [] | Some b \<Rightarrow> bd_project b);
          t = (if bound = [] then t0 else bound)
      in if bound \<noteq> [] \<and> rq_tenant rq \<noteq> [] \<and> rq_tenant rq \<noteq> bound then Inl (Denied (OtherProject bound))
         else case cx_identity cx of
           None \<Rightarrow> Inr t
         | Some i \<Rightarrow> if can_access i t need then Inr t else Inl (Denied (NoProjectAccess need t)))"

end
