(* ===== verification/Outages.thy ===== *)
theory Outages
  imports Credentials
begin

text \<open>
  What the errors of a credential mean. An operation is honest when it reads a value and its
  only other answer is a failed call: so "not found" is never the answer of a store that could
  not be read. Every credential is honest, so a caller that treats "not found" as a bad
  credential and everything else as an outage is right to.
\<close>

definition honest :: "'a auth_op \<Rightarrow> (auth_db \<Rightarrow> auth_error + 'a) \<Rightarrow> bool" where
  "honest m v \<longleftrightarrow> reads m v \<and> (\<forall>db. fst (m db) = v db \<or> fst (m db) = Inl (StoreError StoreFailed))"

lemma honestE:
  assumes "honest m v" and "m db = (r, db')"
  obtains fs where "db' = db\<lparr>db_faults := fs\<rparr>" "r = v db \<or> r = Inl (StoreError StoreFailed)"
  using assms readsE [of m v db r db'] unfolding honest_def by (metis fst_conv)

lemma honest_return: "honest (db_return x) (\<lambda>_. Inr x)"
  by (simp add: honest_def reads_return) (simp add: db_return_def)

lemma honest_fail: "honest (db_fail e) (\<lambda>_. Inl e)"
  by (simp add: honest_def reads_fail) (simp add: db_fail_def)

lemma honest_query:
  assumes "\<And>db fs. f (db\<lparr>db_faults := fs\<rparr>) = f db"
  shows "honest (lift_store (db_query f)) (store_value f)"
  unfolding honest_def
proof (intro conjI allI)
  show "reads (lift_store (db_query f)) (store_value f)" by (rule reads_lift [OF reads_query [OF assms]])
  fix db
  obtain r db' where q: "db_query f db = (r, db')" by fastforce
  then have "r = f db \<or> r = Inl StoreFailed" by (auto elim!: db_queryE simp: assms)
  with q show "fst (lift_store (db_query f) db) = store_value f db \<or> fst (lift_store (db_query f) db) = Inl (StoreError StoreFailed)"
    by (auto simp: lift_store_eq store_value_def)
qed

lemma honest_then:
  assumes m: "honest m v" and k: "\<And>x. honest (k x) (w x)"
  shows "honest (db_then m k) (bind_value v w)"
  unfolding honest_def
proof (intro conjI allI)
  show "reads (db_then m k) (bind_value v w)" using m k by (intro reads_then) (simp_all add: honest_def)
  fix db
  obtain r db1 where r: "m db = (r, db1)" by fastforce
  obtain fs where db1: "db1 = db\<lparr>db_faults := fs\<rparr>" and v: "r = v db \<or> r = Inl (StoreError StoreFailed)"
    by (rule honestE [OF m r])
  show "fst (db_then m k db) = bind_value v w db \<or> fst (db_then m k db) = Inl (StoreError StoreFailed)"
  proof (cases r)
    case (Inl e)
    with r v show ?thesis by (auto simp: bind_value_def split: sum.splits)
  next
    case (Inr x)
    have "w x db1 = w x db" using k [of x] db1 by (simp add: honest_def reads_def)
    moreover have "fst (k x db1) = w x db1 \<or> fst (k x db1) = Inl (StoreError StoreFailed)" using k [of x] by (simp add: honest_def)
    moreover have "v db = Inr x" using v Inr by simp
    ultimately show ?thesis using r Inr by (simp add: bind_value_def)
  qed
qed

lemma honest_if: "honest m v \<Longrightarrow> honest n w \<Longrightarrow> honest (if b then m else n) (\<lambda>db. if b then v db else w db)"
  by simp

lemma honest_cong: "honest m v \<Longrightarrow> (\<And>db. v db = w db) \<Longrightarrow> honest m w"
  by (metis ext)

lemma honest_with_store: "honest m v \<Longrightarrow> honest (with_store m) (\<lambda>db. if db_up db then v db else Inl StoreUnavailable)"
  using reads_with_store [of m v] by (simp add: honest_def with_store_def)

lemma honest_identity_for: "honest (identity_for sv u) (\<lambda>db. Inr (identity_of sv db u))"
  unfolding identity_for_def list_auth_grants_def
  by (rule honest_cong [OF honest_then [OF honest_query honest_return]])
    (simp_all add: grants_of_def bind_value_def store_value_def identity_of_def)

lemma honest_owner_identity: "honest (owner_identity sv user) (owner_value sv user)"
  unfolding owner_identity_def get_auth_user_def
  by (rule honest_cong [OF honest_then [OF honest_query honest_if [OF honest_fail honest_identity_for]]])
    (simp_all add: bind_value_def store_value_def found_def owner_value_def split: option.split)

section \<open>Honest credentials\<close>

locale honest_credential = credential +
  assumes honest_lookup: "honest (lookup raw now) (\<lambda>db. case row db raw now of None \<Rightarrow> Inl (StoreError NotFound) | Some c \<Rightarrow> Inr c)"
begin

lemma honest_resolve: "honest (resolve_credential sv mk raw now) (credential_value sv mk raw now)"
proof -
  have "honest (resolve_credential sv mk raw now)
     (\<lambda>db. if db_up db then bind_value (\<lambda>db. case row db raw now of None \<Rightarrow> Inl (StoreError NotFound) | Some c \<Rightarrow> Inr c)
        (\<lambda>c. bind_value (owner_value sv (owner c)) (\<lambda>i _. Inr (mk c i))) db else Inl StoreUnavailable)"
    unfolding resolve_credential_def
    by (intro honest_with_store honest_then honest_lookup honest_owner_identity honest_return)
  then show ?thesis by (rule honest_cong) (simp add: credential_value_def)
qed

text \<open>The three answers: the identity, a refusal that is true of the tables, or an outage.\<close>

lemma resolve_cases:
  assumes "resolve_credential sv mk raw now db = (r, db')"
  obtains (resolved) fs x where "r = Inr x" "resolves sv mk raw now db x" "db' = db\<lparr>db_faults := fs\<rparr>"
  | (bad) fs where "r = Inl (StoreError NotFound)" "\<nexists>x. resolves sv mk raw now db x" "db' = db\<lparr>db_faults := fs\<rparr>" "db_up db"
  | (outage) fs e where "r = Inl e" "e = StoreError StoreFailed \<or> e = StoreUnavailable"
      "\<not> (db_up db \<and> db_faults db = [])" "db' = db\<lparr>db_faults := fs\<rparr>"
proof -
  obtain fs where fs: "db' = db\<lparr>db_faults := fs\<rparr>" and r: "r = credential_value sv mk raw now db \<or> r = Inl (StoreError StoreFailed)"
    by (rule honestE [OF honest_resolve assms])
  have quiet: "db_up db \<and> db_faults db = [] \<Longrightarrow> r = credential_value sv mk raw now db"
    using assms reads_quiet [OF reads_resolve, of db sv mk raw now] by (metis Pair_inject)
  have vals: "credential_value sv mk raw now db \<in> range Inr \<or> credential_value sv mk raw now db = Inl (StoreError NotFound) \<or>
      (\<not> db_up db \<and> credential_value sv mk raw now db = Inl StoreUnavailable)"
    by (auto simp: credential_value_def bind_value_def owner_value_def split: option.splits)
  show ?thesis
  proof (cases r)
    case (Inr x)
    with r have "credential_value sv mk raw now db = Inr x" by simp
    then show ?thesis using Inr fs by (intro resolved [of x fs]) (simp_all add: value_resolves)
  next
    case (Inl e)
    show ?thesis
    proof (cases "r = Inl (StoreError NotFound)")
      case True
      with r have v: "credential_value sv mk raw now db = Inl (StoreError NotFound)" by simp
      then have "db_up db" by (auto simp: credential_value_def split: if_splits)
      with v True fs show ?thesis using value_refuses [of db sv mk raw now] by (intro bad [of fs]) simp_all
    next
      case False
      have "e = StoreError StoreFailed \<or> e = StoreUnavailable" using r vals Inl False by auto
      moreover have "\<not> (db_up db \<and> db_faults db = [])" using quiet vals Inl False by auto
      ultimately show ?thesis using Inl fs by (intro outage [of e fs]) simp_all
    qed
  qed
qed

end

interpretation honest_session: honest_credential "session_lookup cr" "session_row cr" se_user for cr
proof
  show "honest (session_lookup cr raw now) (\<lambda>db. case session_row cr db raw now of None \<Rightarrow> Inl (StoreError NotFound) | Some c \<Rightarrow> Inr c)"
    for raw now unfolding session_lookup_def get_auth_session_def
    by (rule honest_cong [OF honest_query])
      (auto simp: store_value_def session_row_def live_session_of_def split: option.split)
qed

interpretation honest_api_token: honest_credential "api_lookup cr" "api_row cr" tk_user for cr
proof
  show "honest (api_lookup cr raw now) (\<lambda>db. case api_row cr db raw now of None \<Rightarrow> Inl (StoreError NotFound) | Some c \<Rightarrow> Inr c)"
    for raw now unfolding api_lookup_def get_auth_token_by_hash_def
    by (rule honest_cong [OF honest_then [OF honest_query honest_if [OF honest_fail honest_return]]])
      (auto simp: bind_value_def store_value_def api_row_def live_auth_token_def split: option.split)
qed

interpretation honest_oauth: honest_credential "oauth_lookup cr" "oauth_row cr" ot_user for cr
proof
  show "honest (oauth_lookup cr raw now) (\<lambda>db. case oauth_row cr db raw now of None \<Rightarrow> Inl (StoreError NotFound) | Some c \<Rightarrow> Inr c)"
    for raw now unfolding oauth_lookup_def get_oauth_token_by_hash_def get_oauth_grant_def
    by (rule honest_cong [OF honest_then [OF honest_query honest_if [OF honest_fail honest_if [OF honest_fail
          honest_then [OF honest_query honest_if [OF honest_fail honest_return]]]]]])
      (auto simp: bind_value_def store_value_def found_def oauth_row_def live_oauth_token_def live_grant_def dest: live_grant_not_revoked split: option.split)
qed

end
