(* ===== verification/AccessLaws.thy ===== *)
theory AccessLaws
  imports Access Outages
begin

text \<open>
  What reaches a handler. The identity of a request is a function of the tables: the one its
  bearer credential stands for, else that of its session, else the anonymous one; an outage is
  told apart from a bad credential. An OAuth access token opens only the resource it was minted
  for, and there only the project its owner consented to.
\<close>

section \<open>Touching\<close>

text \<open>The tables an authorization decision reads besides the API token rows.\<close>

definition same_but_tokens :: "auth_db \<Rightarrow> auth_db \<Rightarrow> bool" where
  "same_but_tokens db db' \<longleftrightarrow> (\<exists>fs ts. db' = db\<lparr>db_faults := fs, db_tokens := ts\<rparr>)"

lemma same_but_tokens_refl [simp]: "same_but_tokens db db"
  unfolding same_but_tokens_def by (rule exI [of _ "db_faults db"], rule exI [of _ "db_tokens db"]) simp

lemma same_but_tokens_faults [simp]: "same_but_tokens db (db\<lparr>db_faults := fs\<rparr>)"
  unfolding same_but_tokens_def by (rule exI [of _ fs], rule exI [of _ "db_tokens db"]) simp

lemma same_but_tokens_rows [simp]: "same_but_tokens db (db\<lparr>db_faults := fs, db_tokens := ts\<rparr>)"
  unfolding same_but_tokens_def by blast

lemma same_but_tokens_after: "same_but_tokens (db\<lparr>db_faults := fs\<rparr>) db' \<Longrightarrow> same_but_tokens db db'"
  by (auto simp: same_but_tokens_def)

lemma touch_auth_token_keeps: "touch_auth_token h t db = (r, db') \<Longrightarrow> same_but_tokens db db'"
  unfolding touch_auth_token_def get_auth_token_by_hash_def
  by (erule db_thenE; elim db_queryE db_execE) auto

lemma touch_api_token_keeps [simp]: "same_but_tokens (gt_db st) (gt_db (touch_api_token cr now raw st))"
  by (auto simp: touch_api_token_def Let_def split: prod.split)
    (metis touch_auth_token_keeps prod.collapse)

lemma touch_api_token_cleared [simp]: "gt_cleared (touch_api_token cr now raw st) = gt_cleared st"
  by (auto simp: touch_api_token_def Let_def split: prod.split)

section \<open>The identity of a request\<close>

text \<open>The identity a request presents, as the tables have it now.\<close>

definition presents :: "crypto \<Rightarrow> access_config \<Rightarrow> auth_service \<Rightarrow> instant \<Rightarrow> request \<Rightarrow> auth_db \<Rightarrow> identity \<Rightarrow> bool" where
  "presents cr cfg sv now rq db i \<longleftrightarrow>
     (case bearer_token rq of
        Some raw \<Rightarrow> \<not> has_prefix oauth_access_prefix raw \<and> api_token_ok cr sv now raw db i
      | None \<Rightarrow>
          (case rq_cookie rq of
             Some c \<Rightarrow> if c \<noteq> [] \<and> (\<exists>j. session_ok cr sv now c db j) then session_ok cr sv now c db i else ac_anonymous cfg = Some i
           | None \<Rightarrow> ac_anonymous cfg = Some i))"

definition quiet :: "auth_db \<Rightarrow> bool" where
  "quiet db \<longleftrightarrow> db_up db \<and> db_faults db = []"

lemma credential_error_simps [simp]:
  "credential_error (StoreError NotFound) = Unauthorized" "credential_error (StoreError StoreFailed) = Unavailable"
  "credential_error StoreUnavailable = Unavailable"
  by (simp_all add: credential_error_def)

lemma api_token_cases:
  assumes "identity_from_api_token cr sv now raw db = (r, db')"
  obtains (resolved) fs i where "r = Inr i" "api_token_ok cr sv now raw db i" "db' = db\<lparr>db_faults := fs\<rparr>"
  | (bad) fs where "r = Inl (StoreError NotFound)" "\<nexists>i. api_token_ok cr sv now raw db i" "db' = db\<lparr>db_faults := fs\<rparr>"
  | (outage) fs e where "r = Inl e" "credential_error e = Unavailable" "\<not> quiet db" "db' = db\<lparr>db_faults := fs\<rparr>"
proof (rule honest_api_token.resolve_cases [OF assms [unfolded identity_from_api_token_eq]])
  show thesis if "r = Inr x" "api_token.resolves cr sv (\<lambda>_ i. i) raw now db x" "db' = db\<lparr>db_faults := fs\<rparr>" for fs x
    using that by (intro resolved [of x fs]) (simp_all add: api_resolves_ok)
  show thesis if "r = Inl (StoreError NotFound)" "\<nexists>x. api_token.resolves cr sv (\<lambda>_ i. i) raw now db x" "db' = db\<lparr>db_faults := fs\<rparr>" "db_up db" for fs
    using that by (intro bad [of fs]) (simp_all add: api_resolves_ok)
  show thesis if "r = Inl e" "e = StoreError StoreFailed \<or> e = StoreUnavailable" "\<not> (db_up db \<and> db_faults db = [])"
      "db' = db\<lparr>db_faults := fs\<rparr>" for fs e
    using that by (intro outage [of e fs]) (auto simp: quiet_def)
qed

lemma session_cases:
  assumes "identity_from_token cr sv now tok db = (r, db')"
  obtains (resolved) fs i where "r = Inr i" "session_ok cr sv now tok db i" "db' = db\<lparr>db_faults := fs\<rparr>"
  | (bad) fs where "r = Inl (StoreError NotFound)" "\<nexists>i. session_ok cr sv now tok db i" "db' = db\<lparr>db_faults := fs\<rparr>"
  | (outage) fs e where "r = Inl e" "credential_error e = Unavailable" "\<not> quiet db" "db' = db\<lparr>db_faults := fs\<rparr>"
proof (rule honest_session.resolve_cases [OF assms [unfolded identity_from_token_eq]])
  show thesis if "r = Inr x" "session.resolves cr sv (\<lambda>_ i. i) tok now db x" "db' = db\<lparr>db_faults := fs\<rparr>" for fs x
    using that by (intro resolved [of x fs]) (simp_all add: session_resolves_ok)
  show thesis if "r = Inl (StoreError NotFound)" "\<nexists>x. session.resolves cr sv (\<lambda>_ i. i) tok now db x" "db' = db\<lparr>db_faults := fs\<rparr>" "db_up db" for fs
    using that by (intro bad [of fs]) (simp_all add: session_resolves_ok)
  show thesis if "r = Inl e" "e = StoreError StoreFailed \<or> e = StoreUnavailable" "\<not> (db_up db \<and> db_faults db = [])"
      "db' = db\<lparr>db_faults := fs\<rparr>" for fs e
    using that by (intro outage [of e fs]) (auto simp: quiet_def)
qed

lemma oauth_cases:
  assumes "identity_from_oauth_token cr sv now raw db = (r, db')"
  obtains (resolved) fs ib where "r = Inr ib" "oauth_token_ok cr sv now raw db ib" "db' = db\<lparr>db_faults := fs\<rparr>"
  | (bad) fs where "r = Inl (StoreError NotFound)" "\<nexists>ib. oauth_token_ok cr sv now raw db ib" "db' = db\<lparr>db_faults := fs\<rparr>"
  | (outage) fs e where "r = Inl e" "credential_error e = Unavailable" "\<not> quiet db" "db' = db\<lparr>db_faults := fs\<rparr>"
proof (rule honest_oauth.resolve_cases [OF assms [unfolded identity_from_oauth_token_eq]])
  show thesis if "r = Inr x" "oauth_access.resolves cr sv (\<lambda>t i. (i, binding_of t)) raw now db x" "db' = db\<lparr>db_faults := fs\<rparr>" for fs x
    using that by (intro resolved [of x fs]) (simp_all add: oauth_resolves_ok)
  show thesis if "r = Inl (StoreError NotFound)" "\<nexists>x. oauth_access.resolves cr sv (\<lambda>t i. (i, binding_of t)) raw now db x" "db' = db\<lparr>db_faults := fs\<rparr>" "db_up db" for fs
    using that by (intro bad [of fs]) (simp_all add: oauth_resolves_ok)
  show thesis if "r = Inl e" "e = StoreError StoreFailed \<or> e = StoreUnavailable" "\<not> (db_up db \<and> db_faults db = [])"
      "db' = db\<lparr>db_faults := fs\<rparr>" for fs e
    using that by (intro outage [of e fs]) (auto simp: quiet_def)
qed

text \<open>What an answer to "who is this" must satisfy.\<close>

definition answer_ok :: "crypto \<Rightarrow> access_config \<Rightarrow> auth_service \<Rightarrow> instant \<Rightarrow> request \<Rightarrow> auth_db \<Rightarrow> http_error + identity \<Rightarrow> bool" where
  "answer_ok cr cfg sv now rq db r \<longleftrightarrow>
     (case r of
        Inr i \<Rightarrow> presents cr cfg sv now rq db i
      | Inl e \<Rightarrow> e = Unauthorized \<and> (\<nexists>i. presents cr cfg sv now rq db i) \<or> e = Unavailable \<and> \<not> quiet db)"

lemma fall_back_ok:
  "(\<And>i. presents cr cfg sv now rq db i \<longleftrightarrow> ac_anonymous cfg = Some i) \<Longrightarrow> answer_ok cr cfg sv now rq db (fst (fall_back cfg st))"
  by (simp add: answer_ok_def fall_back_def split: option.split)

lemma fall_back_state [simp]: "snd (fall_back cfg st) = st"
  by (simp add: fall_back_def split: option.split)

lemma bearer_answer:
  assumes "bearer_token rq = Some raw" and "request_identity cr cfg sv now rq st = (r, st')"
  shows "answer_ok cr cfg sv now rq (gt_db st) r \<and> same_but_tokens (gt_db st) (gt_db st') \<and> gt_cleared st' = gt_cleared st"
proof (cases "has_prefix oauth_access_prefix raw")
  case True
  with assms show ?thesis by (auto simp: request_identity_def answer_ok_def presents_def)
next
  case False
  obtain ra db1 where ra: "identity_from_api_token cr sv now raw (gt_db st) = (ra, db1)" by fastforce
  show ?thesis using ra
  proof (cases rule: api_token_cases)
    case (resolved fs i)
    have "same_but_tokens (gt_db (st\<lparr>gt_db := db1\<rparr>)) (gt_db (touch_api_token cr now raw (st\<lparr>gt_db := db1\<rparr>)))"
      by (rule touch_api_token_keeps)
    then have "same_but_tokens (gt_db st) (gt_db (touch_api_token cr now raw (st\<lparr>gt_db := db1\<rparr>)))"
      unfolding resolved(3) by (simp add: same_but_tokens_after)
    with assms False ra resolved(1,2) show ?thesis by (auto simp: request_identity_def answer_ok_def presents_def)
  next
    case (bad fs)
    with assms False ra show ?thesis by (auto simp: request_identity_def answer_ok_def presents_def)
  next
    case (outage fs e)
    with assms False ra show ?thesis by (auto simp: request_identity_def answer_ok_def presents_def)
  qed
qed

lemma cookie_answer:
  assumes "bearer_token rq = None" and "rq_cookie rq = Some c" and "c \<noteq> []" and "request_identity cr cfg sv now rq st = (r, st')"
  shows "answer_ok cr cfg sv now rq (gt_db st) r \<and> same_but_tokens (gt_db st) (gt_db st')"
    and "gt_cleared st' \<Longrightarrow> \<not> gt_cleared st \<Longrightarrow> \<nexists>j. session_ok cr sv now c (gt_db st) j"
proof -
  obtain ra db1 where ra: "identity_from_token cr sv now c (gt_db st) = (ra, db1)" by fastforce
  have "(answer_ok cr cfg sv now rq (gt_db st) r \<and> same_but_tokens (gt_db st) (gt_db st')) \<and>
    (gt_cleared st' \<longrightarrow> \<not> gt_cleared st \<longrightarrow> (\<nexists>j. session_ok cr sv now c (gt_db st) j))"
    using ra
  proof (cases rule: session_cases)
    case (resolved fs i)
    with assms ra show ?thesis by (auto simp: request_identity_def answer_ok_def presents_def)
  next
    case (bad fs)
    have run: "fall_back cfg (st\<lparr>gt_db := db1, gt_cleared := True\<rparr>) = (r, st')"
      using assms ra bad by (simp add: request_identity_def)
    then have "r = fst (fall_back cfg (st\<lparr>gt_db := db1, gt_cleared := True\<rparr>))" and st': "st' = st\<lparr>gt_db := db1, gt_cleared := True\<rparr>"
      by (metis fst_conv, metis fall_back_state snd_conv)
    then have "answer_ok cr cfg sv now rq (gt_db st) r"
      using bad(2) assms(1-3) by (simp only:) (rule fall_back_ok, auto simp: presents_def)
    with bad st' show ?thesis by simp
  next
    case (outage fs e)
    with assms ra show ?thesis by (auto simp: request_identity_def answer_ok_def)
  qed
  then show "answer_ok cr cfg sv now rq (gt_db st) r \<and> same_but_tokens (gt_db st) (gt_db st')"
    and "gt_cleared st' \<Longrightarrow> \<not> gt_cleared st \<Longrightarrow> \<nexists>j. session_ok cr sv now c (gt_db st) j" by blast+
qed

lemma bare_answer:
  assumes "bearer_token rq = None" and "rq_cookie rq = None \<or> rq_cookie rq = Some []" and "request_identity cr cfg sv now rq st = (r, st')"
  shows "answer_ok cr cfg sv now rq (gt_db st) r \<and> st' = st"
proof -
  have "fall_back cfg st = (r, st')" using assms by (auto simp: request_identity_def)
  then have "r = fst (fall_back cfg st)" "st' = st" by (metis fst_conv, metis fall_back_state snd_conv)
  then show ?thesis using assms by (auto intro!: fall_back_ok simp: presents_def)
qed

lemma identity_answer:
  assumes "request_identity cr cfg sv now rq st = (r, st')"
  shows "answer_ok cr cfg sv now rq (gt_db st) r \<and> same_but_tokens (gt_db st) (gt_db st')"
proof (cases "bearer_token rq")
  case None
  consider "rq_cookie rq = None \<or> rq_cookie rq = Some []" | c where "rq_cookie rq = Some c" "c \<noteq> []" by (cases "rq_cookie rq") auto
  then show ?thesis
  proof cases
    case 1
    from bare_answer [OF None this assms] show ?thesis by simp
  next
    case 2
    from cookie_answer(1) [OF None this assms] show ?thesis .
  qed
next
  case (Some raw)
  from bearer_answer [OF this assms] show ?thesis by simp
qed

lemma session_ok_unique: "session_ok cr sv now c db i \<Longrightarrow> session_ok cr sv now c db j \<Longrightarrow> i = j"
  by (auto simp: session_ok_def)

lemma api_token_ok_unique: "api_token_ok cr sv now c db i \<Longrightarrow> api_token_ok cr sv now c db j \<Longrightarrow> i = j"
  by (auto simp: api_token_ok_def)

lemma presents_unique: "presents cr cfg sv now rq db i \<Longrightarrow> presents cr cfg sv now rq db j \<Longrightarrow> i = j"
  by (auto simp: presents_def dest: session_ok_unique api_token_ok_unique split: option.splits if_splits)

text \<open>C35. Whose request it is: a bearer credential decides alone (a bad one is refused even with
  a good cookie or an anonymous identity to fall back on, an OAuth token always), then a live
  session, and only without either the anonymous identity. The identity is never anything but
  what the tables say at that moment; a refusal is true of the tables, so an outage is never
  answered as a bad credential nor by the anonymous identity; and resolving writes nothing but
  last-used times.\<close>

theorem request_identified:
  assumes "request_identity cr cfg sv now rq st = (r, st')"
  shows "answer_ok cr cfg sv now rq (gt_db st) r \<and> same_but_tokens (gt_db st) (gt_db st') \<and>
    (quiet (gt_db st) \<longrightarrow> (r = Inr i \<longleftrightarrow> presents cr cfg sv now rq (gt_db st) i))"
proof -
  have ok: "answer_ok cr cfg sv now rq (gt_db st) r" using identity_answer [OF assms] by simp
  have "r = Inr i \<longleftrightarrow> presents cr cfg sv now rq (gt_db st) i" if "quiet (gt_db st)"
    using ok that by (auto simp: answer_ok_def dest: presents_unique split: sum.splits)
  then show ?thesis using identity_answer [OF assms] by simp
qed

definition sample_config :: access_config where
  "sample_config = \<lparr>ac_auth = Some (new_service minute), ac_anonymous = Some sample_identity, ac_trusted = [],
     ac_origin_check = ''enforce'', ac_public = ''https://obs''\<rparr>"

definition sample_gate :: gate where
  "sample_gate = \<lparr>gt_db = sample_db, gt_touched = [], gt_cleared = False, gt_challenge = None\<rparr>"

text \<open>A bad bearer beside a good cookie and an anonymous identity.\<close>

definition bad_bearer :: request where
  "bad_bearer = \<lparr>rq_method = ''GET'', rq_host = ''obs'', rq_authorization = ''Bearer nope'', rq_origin = [],
     rq_cookie = Some ''s'', rq_tenant = []\<rparr>"

lemma bad_bearer_run:
  "request_identity toy_crypto sample_config (new_service minute) 0 bad_bearer sample_gate = (Inl Unauthorized, sample_gate)"
  by code_simp

theorem request_identified_witness:
  "\<not> presents toy_crypto sample_config (new_service minute) 0 bad_bearer sample_db sample_identity"
  using request_identified [OF bad_bearer_run, of sample_identity]
  by (simp add: quiet_def sample_gate_def sample_db_def empty_db_def)

section \<open>Routes\<close>

text \<open>The handler that returns the context it is given, and running a handler on what a wrapper
  lets through.\<close>

definition reveal :: "req_context handler" where
  "reveal cx st = (Inr cx, st)"

definition through :: "(http_error + req_context) \<times> gate \<Rightarrow> 'a handler \<Rightarrow> (http_error + 'a) \<times> gate" where
  "through p fn = (case p of (Inl e, st) \<Rightarrow> (Inl e, st) | (Inr cx, st) \<Rightarrow> fn cx st)"

lemma with_identity_through:
  "with_identity admits cr cfg now rq fn st = through (with_identity admits cr cfg now rq reveal st) fn"
  by (simp add: with_identity_def through_def reveal_def split: option.split prod.split sum.split)

lemma with_identity_admits:
  assumes "ac_auth cfg = Some sv" and "with_identity admits cr cfg now rq reveal st = (Inr cx, st')"
  shows "\<exists>i. cx = no_context\<lparr>cx_identity := Some i\<rparr> \<and> admits i = None \<and> presents cr cfg sv now rq (gt_db st) i \<and>
    check_origin cfg rq = None \<and> same_but_tokens (gt_db st) (gt_db st')"
proof -
  obtain r st1 where r: "request_identity cr cfg sv now rq st = (r, st1)" by fastforce
  from assms r obtain i where i: "r = Inr i" "cx = no_context\<lparr>cx_identity := Some i\<rparr>" "admits i = None" "st' = st1" "check_origin cfg rq = None"
    by (auto simp: with_identity_def reveal_def split: option.splits sum.splits)
  with identity_answer [OF r] show ?thesis by (auto simp: answer_ok_def)
qed

lemma holds_anywhere_iff: "holds_anywhere i need \<longleftrightarrow> (\<exists>g\<in>set (id_grants i). role_allows (g_role g) need)"
  by (simp add: holds_anywhere_def list_ex_iff)

text \<open>C13. What reaches a handler: each wrapper runs its handler exactly on what it lets through,
  and what it lets through is the identity the request presents, one that holds the role
  somewhere (\<open>secured\<close>) or the admin role on every project (\<open>secured_admin\<close>), never an OAuth
  binding, and never a write the cross-origin check refuses.\<close>

theorem routes_guarded:
  assumes "ac_auth cfg = Some sv"
  shows "secured need cr cfg now rq fn st = through (secured need cr cfg now rq reveal st) fn \<and>
    secured_admin cr cfg now rq fn st = through (secured_admin cr cfg now rq reveal st) fn \<and>
    authenticated cr cfg now rq fn st = through (authenticated cr cfg now rq reveal st) fn \<and>
    (\<forall>cx st'. (secured need cr cfg now rq reveal st = (Inr cx, st') \<or> secured_admin cr cfg now rq reveal st = (Inr cx, st') \<or>
        authenticated cr cfg now rq reveal st = (Inr cx, st')) \<longrightarrow>
      (\<exists>i. cx_identity cx = Some i \<and> cx_binding cx = None \<and> presents cr cfg sv now rq (gt_db st) i \<and> check_origin cfg rq = None \<and>
        (secured need cr cfg now rq reveal st = (Inr cx, st') \<longrightarrow> (\<exists>g\<in>set (id_grants i). role_allows (g_role g) need)) \<and>
        (secured_admin cr cfg now rq reveal st = (Inr cx, st') \<longrightarrow>
          (\<exists>g\<in>set (id_grants i). g_scope g = ''*'' \<and> g_role g = role_admin))))"
proof (intro conjI allI impI)
  show "secured need cr cfg now rq fn st = through (secured need cr cfg now rq reveal st) fn"
    "secured_admin cr cfg now rq fn st = through (secured_admin cr cfg now rq reveal st) fn"
    "authenticated cr cfg now rq fn st = through (authenticated cr cfg now rq reveal st) fn"
    unfolding secured_def secured_admin_def authenticated_def by (rule with_identity_through)+
next
  fix cx st'
  assume "secured need cr cfg now rq reveal st = (Inr cx, st') \<or> secured_admin cr cfg now rq reveal st = (Inr cx, st') \<or>
    authenticated cr cfg now rq reveal st = (Inr cx, st')"
  then obtain i where i: "cx = no_context\<lparr>cx_identity := Some i\<rparr>" "presents cr cfg sv now rq (gt_db st) i" "check_origin cfg rq = None"
    unfolding secured_def secured_admin_def authenticated_def using with_identity_admits [OF assms] by blast
  have "holds_anywhere i need" if "secured need cr cfg now rq reveal st = (Inr cx, st')"
    using with_identity_admits [OF assms that [unfolded secured_def]] i(1) by (auto simp: no_context_def split: if_splits)
  moreover have "is_admin i" if "secured_admin cr cfg now rq reveal st = (Inr cx, st')"
    using with_identity_admits [OF assms that [unfolded secured_admin_def]] i(1) by (auto simp: no_context_def split: if_splits)
  ultimately show "\<exists>i. cx_identity cx = Some i \<and> cx_binding cx = None \<and> presents cr cfg sv now rq (gt_db st) i \<and> check_origin cfg rq = None \<and>
      (secured need cr cfg now rq reveal st = (Inr cx, st') \<longrightarrow> (\<exists>g\<in>set (id_grants i). role_allows (g_role g) need)) \<and>
      (secured_admin cr cfg now rq reveal st = (Inr cx, st') \<longrightarrow> (\<exists>g\<in>set (id_grants i). g_scope g = ''*'' \<and> g_role g = role_admin))"
    using i by (intro exI [of _ i]) (simp add: no_context_def holds_anywhere_iff is_admin_iff)
qed

definition cookie_request :: request where
  "cookie_request = \<lparr>rq_method = ''GET'', rq_host = ''obs'', rq_authorization = [], rq_origin = [],
     rq_cookie = Some ''s'', rq_tenant = []\<rparr>"

lemma cookie_run:
  "secured role_viewer toy_crypto sample_config 0 cookie_request reveal sample_gate = (Inr (no_context\<lparr>cx_identity := Some sample_identity\<rparr>), sample_gate)"
  by code_simp

theorem routes_guarded_witness:
  "\<exists>i. presents toy_crypto sample_config (new_service minute) 0 cookie_request sample_db i"
proof -
  have a: "ac_auth sample_config = Some (new_service minute)" by (simp add: sample_config_def)
  show ?thesis using routes_guarded [OF a, of role_viewer toy_crypto 0 cookie_request reveal sample_gate] cookie_run
    by (auto simp: sample_gate_def)
qed

section \<open>OAuth tokens\<close>

lemma check_origin_error: "check_origin cfg rq = Some e \<Longrightarrow> e = Denied CrossOrigin"
  by (auto simp: check_origin_def split: if_splits)

lemma oauth_refused:
  assumes "ac_auth cfg = Some sv" and "bearer_token rq = Some raw" and "has_prefix oauth_access_prefix raw"
  shows "with_identity admits cr cfg now rq fn st = (Inl (case check_origin cfg rq of None \<Rightarrow> Unauthorized | Some e \<Rightarrow> e), st)"
  using assms by (simp add: with_identity_def request_identity_def split: option.split)

text \<open>C37. An OAuth access token opens its own resource and nothing else: every other wrapper
  refuses it and leaves the state alone. Where it does open the resource, its row is live, was
  minted for that resource with the read scope, its owner holds the role, and a project the
  handler then resolves is the one its owner consented to and one the owner can access now.\<close>

theorem oauth_token_confined:
  assumes "ac_auth cfg = Some sv" and "bearer_token rq = Some raw" and "has_prefix oauth_access_prefix raw"
  shows "(\<exists>e. secured need cr cfg now rq fn st = (Inl e, st) \<and> authenticated cr cfg now rq fn st = (Inl e, st) \<and>
        secured_admin cr cfg now rq fn st = (Inl e, st) \<and> (e = Unauthorized \<or> e = Denied CrossOrigin)) \<and>
    (secured_resource need resource cr cfg now rq fn st = (Inr x, st') \<longrightarrow>
      (\<exists>i b st1. oauth_token_ok cr sv now raw (gt_db st) (i, b) \<and> bd_resource b = resource \<and>
        scope_mcp_read \<in> set (str_fields (bd_scope b)) \<and> (\<exists>g\<in>set (id_grants i). role_allows (g_role g) need) \<and>
        fn \<lparr>cx_identity = Some i, cx_binding = Some b\<rparr> st1 = (Inr x, st') \<and>
        (bd_project b \<noteq> [] \<longrightarrow> (\<forall>role t. request_project rq \<lparr>cx_identity = Some i, cx_binding = Some b\<rparr> role = Inr t \<longrightarrow>
          t = bd_project b \<and> can_access i t role))))"
  (is "?refused \<and> (?run \<longrightarrow> ?opened)")
proof (intro conjI impI)
  show ?refused
    unfolding secured_def authenticated_def secured_admin_def oauth_refused [OF assms]
    using check_origin_error [of cfg rq] by (intro exI [of _ "case check_origin cfg rq of None \<Rightarrow> Unauthorized | Some e \<Rightarrow> e"])
      (auto split: option.split)
next
  assume run: ?run
  obtain ra db1 where ra: "identity_from_oauth_token cr sv now raw (gt_db st) = (ra, db1)" by fastforce
  from run assms ra obtain i b where ib: "ra = Inr (i, b)" "bd_resource b = resource" "scope_allows (bd_scope b) scope_mcp_read"
    "holds_anywhere i need"
    and fn: "fn \<lparr>cx_identity = Some i, cx_binding = Some b\<rparr> (touch_bearer cr now raw (st\<lparr>gt_db := db1\<rparr>)) = (Inr x, st')"
    by (auto simp: secured_resource_def request_identity_for_resource_def split: option.splits sum.splits prod.splits if_splits)
  from ra ib(1) have "oauth_token_ok cr sv now raw (gt_db st) (i, b)" by (cases rule: oauth_cases) auto
  moreover have "t = bd_project b \<and> can_access i t role"
    if "bd_project b \<noteq> []" "request_project rq \<lparr>cx_identity = Some i, cx_binding = Some b\<rparr> role = Inr t" for role t
    using that by (auto simp: request_project_def Let_def split: if_splits)
  ultimately show ?opened using ib fn
    by (intro exI [of _ i] exI [of _ b] exI [of _ "touch_bearer cr now raw (st\<lparr>gt_db := db1\<rparr>)"])
      (auto simp: scope_allows_def list_ex_iff holds_anywhere_iff)
qed

text \<open>The sample token, minted for the resource of the sample install.\<close>

definition mcp_token :: oauth_token where
  "mcp_token = sample_token\<lparr>ot_resource := ''https://obs/mcp''\<rparr>"

definition mcp_gate :: gate where
  "mcp_gate = sample_gate\<lparr>gt_db := sample_db\<lparr>db_oauth := [(''#avuruo_m'', mcp_token)]\<rparr>\<rparr>"

definition mcp_request :: request where
  "mcp_request = \<lparr>rq_method = ''POST'', rq_host = ''obs'', rq_authorization = ''bearer avuruo_m'', rq_origin = [],
     rq_cookie = Some ''s'', rq_tenant = []\<rparr>"

lemma mcp_run:
  "fst (secured_resource role_viewer (mcp_resource sample_config) toy_crypto sample_config 0 mcp_request reveal mcp_gate) =
     Inr \<lparr>cx_identity = Some sample_identity, cx_binding = Some (binding_of mcp_token)\<rparr>"
  by code_simp

theorem oauth_token_confined_witness:
  "(\<exists>e. secured_admin toy_crypto sample_config 0 mcp_request reveal mcp_gate = (Inl e, mcp_gate)) \<and>
   (\<exists>i b. oauth_token_ok toy_crypto (new_service minute) 0 ''avuruo_m'' (gt_db mcp_gate) (i, b) \<and> bd_resource b = mcp_resource sample_config)"
proof -
  have a: "ac_auth sample_config = Some (new_service minute)" by (simp add: sample_config_def)
  have b: "bearer_token mcp_request = Some ''avuruo_m''" "has_prefix oauth_access_prefix ''avuruo_m''" by code_simp+
  obtain st' where run: "secured_resource role_viewer (mcp_resource sample_config) toy_crypto sample_config 0 mcp_request reveal mcp_gate =
      (Inr \<lparr>cx_identity = Some sample_identity, cx_binding = Some (binding_of mcp_token)\<rparr>, st')"
    using mcp_run by (metis prod.collapse)
  show ?thesis
    using oauth_token_confined [OF a b, of role_viewer toy_crypto 0 reveal mcp_gate "mcp_resource sample_config"] run by blast
qed

end
