(* ===== verification/Projects.thy ===== *)
theory Projects
  imports Access Memo
begin

text \<open>
  Projects and the tenants a request reads (hub/internal/api/projects.go, resolve_tenants.go).
  A project is a leaf, which stores telemetry under its own id, or an aggregate, which is read
  as the union of its members; membership is one level deep. The state is the tables and the
  memo of the project list that authorization reads through.
\<close>

section \<open>The memo\<close>

record project_cache =
  pc_projects :: "project list"
  pc_fetched :: instant

definition new_project_cache :: project_cache where
  "new_project_cache = \<lparr>pc_projects = [], pc_fetched = zero_time\<rparr>"

definition tenant_cache_ttl :: duration where "tenant_cache_ttl = 30 * second"

definition cached_projects :: "project_cache \<Rightarrow> instant \<Rightarrow> project list option" where
  "cached_projects c now = (if time_sub now (pc_fetched c) < tenant_cache_ttl then Some (pc_projects c) else None)"

definition keep_projects :: "project list \<Rightarrow> instant \<Rightarrow> project_cache \<Rightarrow> project_cache" where
  "keep_projects ps now c = c\<lparr>pc_projects := ps, pc_fetched := now\<rparr>"

definition invalidate_projects :: "project_cache \<Rightarrow> project_cache" where
  "invalidate_projects c = c\<lparr>pc_fetched := zero_time\<rparr>"

record projects_state =
  ps_db :: auth_db
  ps_cache :: project_cache

text \<open>The list authorization reads: an error of the store is an error, never an empty list.\<close>

definition db_projects_cached :: "instant \<Rightarrow> projects_state \<Rightarrow> (http_error + project list) \<times> projects_state" where
  "db_projects_cached now st =
     (case cached_projects (ps_cache st) now of
        Some ps \<Rightarrow> (Inr ps, st)
      | None \<Rightarrow>
          if \<not> db_up (ps_db st) then (Inl Unavailable, st)
          else (case list_projects (ps_db st) of
              (Inl e, db) \<Rightarrow> (Inl (From_Store e), st\<lparr>ps_db := db\<rparr>)
            | (Inr ps, db) \<Rightarrow> (Inr ps, st\<lparr>ps_db := db, ps_cache := keep_projects ps now (ps_cache st)\<rparr>)))"

section \<open>Tenants\<close>

definition members_in :: "project list \<Rightarrow> string \<Rightarrow> string list" where
  "members_in ps project = (case find (\<lambda>p. pj_id p = project) ps of None \<Rightarrow> [] | Some p \<Rightarrow> pj_members p)"

definition resolve_tenants :: "instant \<Rightarrow> string \<Rightarrow> identity option \<Rightarrow> projects_state \<Rightarrow>
    (http_error + string list) \<times> projects_state" where
  "resolve_tenants now project i st =
     (case db_projects_cached now st of
        (Inl e, st1) \<Rightarrow> (Inl e, st1)
      | (Inr ps, st1) \<Rightarrow>
          let members = members_in ps project
          in (if members = [] then Inr [project]
              else case i of
                None \<Rightarrow> Inr members
              | Some who \<Rightarrow>
                  let out = filter (\<lambda>m. role_for who m \<noteq> None) members
                  in if out = [] then Inl (Denied (NoMemberAccess project)) else Inr out, st1))"

definition is_aggregate :: "instant \<Rightarrow> string \<Rightarrow> projects_state \<Rightarrow> (http_error + bool) \<times> projects_state" where
  "is_aggregate now project st =
     (case db_projects_cached now st of
        (Inl e, st1) \<Rightarrow> (Inl e, st1) | (Inr ps, st1) \<Rightarrow> (Inr (members_in ps project \<noteq> []), st1))"

definition aggregate_write_conflict :: "string \<Rightarrow> http_error" where
  "aggregate_write_conflict project = Conflict ''project is an aggregate of other projects''"

definition project_tenants :: "request \<Rightarrow> req_context \<Rightarrow> role \<Rightarrow> instant \<Rightarrow> projects_state \<Rightarrow>
    (http_error + string \<times> string list) \<times> projects_state" where
  "project_tenants rq cx need now st =
     (case request_project rq cx need of
        Inl e \<Rightarrow> (Inl e, st)
      | Inr project \<Rightarrow>
          (case resolve_tenants now project (cx_identity cx) st of
             (Inl e, st1) \<Rightarrow> (Inl e, st1) | (Inr ts, st1) \<Rightarrow> (Inr (project, ts), st1)))"

section \<open>Validation\<close>

record project_config =
  pf_projects :: "string list"
  pf_traces_days :: int
  pf_logs_days :: int
  pf_metrics_days :: int
  pf_profiles_days :: int

definition slug_char :: "char \<Rightarrow> bool" where
  "slug_char c \<longleftrightarrow> (let n = (of_char c :: int) in 97 \<le> n \<and> n \<le> 122 \<or> 48 \<le> n \<and> n \<le> 57 \<or> n = 45)"

definition valid_project_id :: "string \<Rightarrow> bool" where
  "valid_project_id s \<longleftrightarrow>
     (case s of [] \<Rightarrow> False
      | c # cs \<Rightarrow> 97 \<le> (of_char c :: int) \<and> (of_char c :: int) \<le> 122 \<and> list_all slug_char cs \<and> length cs \<le> 62)"

definition max_project_label_len :: nat where "max_project_label_len = 200"

definition max_project_members :: nat where "max_project_members = 32"

definition is_config_project :: "project_config \<Rightarrow> string \<Rightarrow> bool" where
  "is_config_project cfg i = list_ex (\<lambda>p. p = i) (pf_projects cfg)"

definition global_retention_days :: "project_config \<Rightarrow> int" where
  "global_retention_days cfg =
     fold (\<lambda>d m. if m < d then d else m) [pf_traces_days cfg, pf_logs_days cfg, pf_metrics_days cfg, pf_profiles_days cfg] 0"

definition validate_retention_days :: "project_config \<Rightarrow> int \<Rightarrow> http_error option" where
  "validate_retention_days cfg days =
     (if days = 0 then None
      else if days < 0 then Some (Bad_Request ''retentionDays must be 0 or a positive number of days'')
      else if 0 < global_retention_days cfg \<and> global_retention_days cfg < days
        then Some (Bad_Request ''retentionDays must be at most the longest global retention'')
      else None)"

text \<open>The loop over the requested members: trimmed, blanks skipped, duplicates dropped. \<open>out\<close> is
  what has been kept.\<close>

fun keep_members :: "string \<Rightarrow> string list \<Rightarrow> string list \<Rightarrow> http_error + string list" where
  "keep_members i out [] = Inr out"
| "keep_members i out (m0 # ms) =
     (let m = trim_space m0
      in if m = [] then keep_members i out ms
         else if \<not> valid_project_id m then Inl (Bad_Request ''member must match ^[a-z][a-z0-9-]{0,62}$'')
         else if m = i then Inl (Bad_Request ''a project cannot be a member of itself'')
         else if m \<in> set out then keep_members i out ms
         else keep_members i (out @ [m]) ms)"

fun nesting_conflict :: "string \<Rightarrow> string list \<Rightarrow> project list \<Rightarrow> http_error option" where
  "nesting_conflict i seen [] = None"
| "nesting_conflict i seen (p # ps) =
     (if pj_id p \<noteq> i \<and> pj_members p \<noteq> [] then
        (if pj_id p \<in> set seen then Some (Conflict ''project is itself an aggregate; membership is one level deep'')
         else if i \<in> set (pj_members p) then Some (Conflict ''project is already a member; membership is one level deep'')
         else nesting_conflict i seen ps)
      else nesting_conflict i seen ps)"

definition validate_members :: "string \<Rightarrow> string list \<Rightarrow> auth_db \<Rightarrow> (http_error + string list) \<times> auth_db" where
  "validate_members i ms db =
     (case keep_members i [] ms of
        Inl e \<Rightarrow> (Inl e, db)
      | Inr kept \<Rightarrow>
          let out = sort kept
          in if max_project_members < length out then (Inl (Bad_Request ''at most 32 members per project''), db)
             else if out = [] then (Inr [], db)
             else (case list_projects db of
                 (Inl e, db1) \<Rightarrow> (Inl (From_Store e), db1)
               | (Inr all, db1) \<Rightarrow>
                   (case nesting_conflict i kept all of Some e \<Rightarrow> (Inl e, db1) | None \<Rightarrow> (Inr out, db1))))"

section \<open>Writing projects\<close>

record create_project_request =
  cp_id :: string
  cp_label :: string
  cp_retention :: int

record update_project_request =
  up_label :: "string option"
  up_members :: "string list option"
  up_retention :: "int option"

definition lift_http :: "'a db_op \<Rightarrow> auth_db \<Rightarrow> (http_error + 'a) \<times> auth_db" where
  "lift_http m db = (case m db of (Inl e, db1) \<Rightarrow> (Inl (From_Store e), db1) | (Inr x, db1) \<Rightarrow> (Inr x, db1))"

text \<open>Saving and dropping the memo: the tail of every write.\<close>

definition commit_project :: "unit db_op \<Rightarrow> 'a \<Rightarrow> projects_state \<Rightarrow> (http_error + 'a) \<times> projects_state" where
  "commit_project write x st =
     (case lift_http write (ps_db st) of
        (Inl e, db) \<Rightarrow> (Inl e, st\<lparr>ps_db := db\<rparr>)
      | (Inr _, db) \<Rightarrow> (Inr x, st\<lparr>ps_db := db, ps_cache := invalidate_projects (ps_cache st)\<rparr>))"

text \<open>The checks of a creation before it reads the table, and the row they lead to.\<close>

definition new_project :: "project_config \<Rightarrow> instant \<Rightarrow> string \<Rightarrow> create_project_request \<Rightarrow> http_error + project" where
  "new_project cfg now user r =
     (let i = trim_space (cp_id r); label = trim_space (cp_label r)
      in if \<not> valid_project_id i then Inl (Bad_Request ''id must match ^[a-z][a-z0-9-]{0,62}$'')
         else if max_project_label_len < length label then Inl (Bad_Request ''label must be 200 characters or fewer'')
         else if i = default_tenant \<or> is_config_project cfg i then Inl (Conflict ''reserved project'')
         else case validate_retention_days cfg (cp_retention r) of
           Some e \<Rightarrow> Inl e
         | None \<Rightarrow> Inr \<lparr>pj_id = i, pj_label = label, pj_members = [], pj_retention = cp_retention r,
             pj_created_by = user, pj_created = now\<rparr>)"

definition handle_create_project :: "project_config \<Rightarrow> instant \<Rightarrow> string \<Rightarrow> create_project_request body \<Rightarrow> projects_state \<Rightarrow>
    (http_error + project) \<times> projects_state" where
  "handle_create_project cfg now user body st =
     (if \<not> db_up (ps_db st) then (Inl Unavailable, st)
      else case decode body of
        Inl e \<Rightarrow> (Inl e, st)
      | Inr r \<Rightarrow>
          (case new_project cfg now user r of
             Inl e \<Rightarrow> (Inl e, st)
           | Inr p \<Rightarrow>
               (case get_project (pj_id p) (ps_db st) of
                  (Inr _, db) \<Rightarrow> (Inl (Conflict ''project already exists''), st\<lparr>ps_db := db\<rparr>)
                | (Inl StoreFailed, db) \<Rightarrow> (Inl (From_Store StoreFailed), st\<lparr>ps_db := db\<rparr>)
                | (Inl NotFound, db) \<Rightarrow> commit_project (save_project p) p (st\<lparr>ps_db := db\<rparr>))))"

definition editable_project :: "project_config \<Rightarrow> string \<Rightarrow> auth_db \<Rightarrow> (http_error + project) \<times> auth_db" where
  "editable_project cfg i db =
     (if i = default_tenant \<or> is_config_project cfg i then (Inl (Conflict ''deployment-managed project''), db)
      else case get_project i db of
        (Inl NotFound, db1) \<Rightarrow> (Inl (Conflict ''project is not editable''), db1)
      | (Inl e, db1) \<Rightarrow> (Inl (From_Store e), db1)
      | (Inr p, db1) \<Rightarrow> (Inr p, db1))"

text \<open>The fields of an update, one after the other; the first that is refused ends it.\<close>

definition set_label :: "string option \<Rightarrow> project \<Rightarrow> http_error + project" where
  "set_label l p = (case l of
     None \<Rightarrow> Inr p
   | Some s \<Rightarrow> if max_project_label_len < length (trim_space s) then Inl (Bad_Request ''label must be 200 characters or fewer'')
       else Inr (p\<lparr>pj_label := trim_space s\<rparr>))"

definition set_members :: "string list option \<Rightarrow> project \<Rightarrow> auth_db \<Rightarrow> (http_error + project) \<times> auth_db" where
  "set_members ms p db = (case ms of
     None \<Rightarrow> (Inr p, db)
   | Some l \<Rightarrow> (case validate_members (pj_id p) l db of
       (Inl e, db1) \<Rightarrow> (Inl e, db1) | (Inr out, db1) \<Rightarrow> (Inr (p\<lparr>pj_members := out\<rparr>), db1)))"

definition set_retention :: "project_config \<Rightarrow> int option \<Rightarrow> project \<Rightarrow> http_error + project" where
  "set_retention cfg d p = (case d of
     None \<Rightarrow> Inr p
   | Some n \<Rightarrow> (case validate_retention_days cfg n of Some e \<Rightarrow> Inl e | None \<Rightarrow> Inr (p\<lparr>pj_retention := n\<rparr>)))"

definition handle_update_project :: "project_config \<Rightarrow> string \<Rightarrow> update_project_request body \<Rightarrow> projects_state \<Rightarrow>
    (http_error + project) \<times> projects_state" where
  "handle_update_project cfg i body st =
     (if \<not> db_up (ps_db st) then (Inl Unavailable, st)
      else case decode body of
        Inl e \<Rightarrow> (Inl e, st)
      | Inr r \<Rightarrow>
          (case editable_project cfg i (ps_db st) of
             (Inl e, db1) \<Rightarrow> (Inl e, st\<lparr>ps_db := db1\<rparr>)
           | (Inr p, db1) \<Rightarrow>
               (case set_label (up_label r) p of
                  Inl e \<Rightarrow> (Inl e, st\<lparr>ps_db := db1\<rparr>)
                | Inr p1 \<Rightarrow>
                    (case set_members (up_members r) p1 db1 of
                       (Inl e, db2) \<Rightarrow> (Inl e, st\<lparr>ps_db := db2\<rparr>)
                     | (Inr p2, db2) \<Rightarrow>
                         (case set_retention cfg (up_retention r) p2 of
                            Inl e \<Rightarrow> (Inl e, st\<lparr>ps_db := db2\<rparr>)
                          | Inr p3 \<Rightarrow>
                              if pj_members p3 \<noteq> [] \<and> 0 < pj_retention p3
                              then (Inl (aggregate_write_conflict (pj_id p3)), st\<lparr>ps_db := db2\<rparr>)
                              else commit_project (save_project p3) p3 (st\<lparr>ps_db := db2\<rparr>))))))"

definition handle_delete_project :: "project_config \<Rightarrow> string \<Rightarrow> projects_state \<Rightarrow> (http_error + unit) \<times> projects_state" where
  "handle_delete_project cfg i st =
     (if \<not> db_up (ps_db st) then (Inl Unavailable, st)
      else case editable_project cfg i (ps_db st) of
        (Inl e, db1) \<Rightarrow> (Inl e, st\<lparr>ps_db := db1\<rparr>)
      | (Inr _, db1) \<Rightarrow> commit_project (delete_project i) () (st\<lparr>ps_db := db1\<rparr>))"

end
