(* ===== verification/ProjectLaws.thy ===== *)
theory ProjectLaws
  imports Projects AccessLaws
begin

text \<open>
  What the project table and the tenants read from it keep. Every write leaves the table
  well-formed, membership one level deep and aggregates without a retention of their own; the
  tenants of a request are the project itself or the members its identity is granted, never
  an aggregate's own id next to them and never nothing. The memo of the list is an instance of
  the memo interface.
\<close>

section \<open>The memo\<close>

lemma tenant_ttl_less [simp]: "time_sub now t < tenant_cache_ttl \<longleftrightarrow> now - t < tenant_cache_ttl"
  by (rule time_sub_less) (simp_all add: tenant_cache_ttl_def duration_defs)


interpretation project_memo: memo_cell cached_projects pc_projects keep_projects invalidate_projects tenant_cache_ttl
    new_project_cache "[]"
  by unfold_locales (auto simp: cached_projects_def keep_projects_def invalidate_projects_def new_project_cache_def)

section \<open>A well-formed table\<close>

definition project_ok :: "project \<Rightarrow> bool" where
  "project_ok p \<longleftrightarrow> valid_project_id (pj_id p) \<and> length (pj_label p) \<le> max_project_label_len \<and>
     sorted (pj_members p) \<and> distinct (pj_members p) \<and> length (pj_members p) \<le> max_project_members \<and>
     (\<forall>m\<in>set (pj_members p). valid_project_id m \<and> m \<noteq> pj_id p) \<and>
     0 \<le> pj_retention p \<and> pj_retention p \<le> 65535 \<and> (pj_members p \<noteq> [] \<longrightarrow> pj_retention p = 0)"

text \<open>No member of an aggregate is an aggregate.\<close>

definition one_level :: "auth_db \<Rightarrow> bool" where
  "one_level db \<longleftrightarrow> (\<forall>i j p q. map_of (db_projects db) i = Some p \<and> map_of (db_projects db) j = Some q \<and>
     j \<in> set (pj_members p) \<longrightarrow> pj_members q = [])"

definition projects_inv :: "auth_db \<Rightarrow> bool" where
  "projects_inv db \<longleftrightarrow> projects_ok db \<and> (\<forall>i p. map_of (db_projects db) i = Some p \<longrightarrow> project_ok p) \<and> one_level db"

lemma projects_inv_same [simp]: "projects_inv (db\<lparr>db_faults := fs\<rparr>) = projects_inv db" "projects_inv (db\<lparr>db_up := b\<rparr>) = projects_inv db"
  by (simp_all add: projects_inv_def projects_ok_def one_level_def)

lemma keep_members_ok:
  "keep_members i out ms = Inr out' \<Longrightarrow> distinct out \<Longrightarrow> \<forall>m\<in>set out. valid_project_id m \<and> m \<noteq> i \<Longrightarrow>
    distinct out' \<and> (\<forall>m\<in>set out'. valid_project_id m \<and> m \<noteq> i)"
proof (induction i out ms rule: keep_members.induct)
  case (2 i out m0 ms)
  obtain m where m: "trim_space m0 = m" by simp
  have step: "keep_members i out (m0 # ms) =
      (if m = [] then keep_members i out ms
       else if \<not> valid_project_id m then Inl (Bad_Request ''member must match ^[a-z][a-z0-9-]{0,62}$'')
       else if m = i then Inl (Bad_Request ''a project cannot be a member of itself'')
       else if m \<in> set out then keep_members i out ms
       else keep_members i (out @ [m]) ms)"
    unfolding keep_members.simps m Let_def ..
  consider "m = []" | "m \<noteq> []" "m \<in> set out" "valid_project_id m" "m \<noteq> i" | "m \<noteq> []" "m \<notin> set out" "valid_project_id m" "m \<noteq> i"
    using "2.prems"(1) unfolding step by (meson Inl_Inr_False)
  then show ?case
  proof cases
    case 1
    with "2.IH"(1) [OF m [symmetric]] "2.prems" show ?thesis unfolding step by simp
  next
    case 2
    with "2.IH"(2) [OF m [symmetric]] "2.prems" show ?thesis unfolding step by simp
  next
    case 3
    with "2.IH"(3) [OF m [symmetric]] "2.prems" show ?thesis unfolding step by simp
  qed
qed simp

lemma nesting_conflict_None:
  "nesting_conflict i seen ps = None \<longleftrightarrow>
     (\<forall>p\<in>set ps. pj_id p \<noteq> i \<and> pj_members p \<noteq> [] \<longrightarrow> pj_id p \<notin> set seen \<and> i \<notin> set (pj_members p))"
  by (induction i seen ps rule: nesting_conflict.induct) auto

text \<open>What \<open>validateMembers\<close> accepts for a project.\<close>

definition members_ok :: "auth_db \<Rightarrow> string \<Rightarrow> string list \<Rightarrow> bool" where
  "members_ok db i out \<longleftrightarrow> sorted out \<and> distinct out \<and> length out \<le> max_project_members \<and>
     (\<forall>m\<in>set out. valid_project_id m \<and> m \<noteq> i) \<and>
     (\<forall>j q. map_of (db_projects db) j = Some q \<and> j \<noteq> i \<and> pj_members q \<noteq> [] \<and> out \<noteq> [] \<longrightarrow>
       j \<notin> set out \<and> i \<notin> set (pj_members q))"

lemma validate_members_ok:
  assumes "validate_members i ms db = (r, db')" and "projects_ok db"
  shows "(\<exists>fs. db' = db\<lparr>db_faults := fs\<rparr>) \<and> (\<forall>out. r = Inr out \<longrightarrow> members_ok db i out)"
proof (cases "keep_members i [] ms")
  case (Inl e)
  with assms(1) have "db' = db" "r = Inl e" by (auto simp: validate_members_def)
  then show ?thesis by simp
next
  case (Inr kept)
  have kept: "distinct kept" "\<forall>m\<in>set kept. valid_project_id m \<and> m \<noteq> i" using keep_members_ok [OF Inr] by simp_all
  obtain rl db1 where rl: "list_projects db = (rl, db1)" by fastforce
  then obtain fs where fs: "db1 = db\<lparr>db_faults := fs\<rparr>" and rows: "\<And>ps. rl = Inr ps \<Longrightarrow> set ps = snd ` set (db_projects db)"
    unfolding list_projects_def by (elim db_queryE) auto
  obtain srt where srt: "sort kept = srt" by simp
  have srt_ok: "sorted srt" "distinct srt" "set srt = set kept" using kept(1) by (simp_all add: srt [symmetric])
  have run: "(if max_project_members < length srt then (Inl (Bad_Request ''at most 32 members per project''), db)
      else if srt = [] then (Inr [], db)
      else case rl of Inl e \<Rightarrow> (Inl (From_Store e), db1)
        | Inr all \<Rightarrow> (case nesting_conflict i kept all of Some e \<Rightarrow> (Inl e, db1) | None \<Rightarrow> (Inr srt, db1))) = (r, db')"
    using assms(1) by (simp add: validate_members_def Inr rl srt cong: if_cong)
  show ?thesis
  proof (cases "max_project_members < length srt \<or> srt = []")
    case True
    have "(r, db') = (Inl (Bad_Request ''at most 32 members per project''), db) \<or> (r, db') = (Inr [], db)"
    proof (cases "max_project_members < length srt")
      case True
      with run show ?thesis by simp
    next
      case False
      with run \<open>max_project_members < length srt \<or> srt = []\<close> show ?thesis by simp
    qed
    then have same: "db' = db" and r: "r = Inl (Bad_Request ''at most 32 members per project'') \<or> r = Inr []" by blast+
    have "members_ok db i []" by (simp add: members_ok_def)
    with same r show ?thesis by auto
  next
    case False
    with run have run1: "(case rl of Inl e \<Rightarrow> (Inl (From_Store e), db1)
        | Inr all \<Rightarrow> (case nesting_conflict i kept all of Some e \<Rightarrow> (Inl e, db1) | None \<Rightarrow> (Inr srt, db1))) = (r, db')"
      by simp
    then have "db' = db1" by (auto split: sum.splits option.splits)
    moreover have "members_ok db i out" if res: "r = Inr out" for out
    proof -
      obtain ps where ps: "rl = Inr ps" and none: "nesting_conflict i kept ps = None" and out: "out = srt"
        using run1 res by (auto split: sum.splits option.splits)
      have "q \<in> set ps \<and> pj_id q = j" if "map_of (db_projects db) j = Some q" for j q
        using rows [OF ps] project_id [OF assms(2) that] that by (auto dest!: map_of_SomeD intro: rev_image_eqI)
      then show ?thesis using none kept(2) out False srt_ok by (auto simp: members_ok_def nesting_conflict_None)
    qed
    ultimately show ?thesis using fs by blast
  qed
qed

section \<open>Every write keeps it\<close>

lemma commit_projectE:
  assumes "commit_project write x st = (r, st')" and "write (ps_db st) = (rw, db1)"
  obtains e where "rw = Inl e" "r = Inl (From_Store e)" "st' = st\<lparr>ps_db := db1\<rparr>"
  | "rw = Inr ()" "r = Inr x" "st' = st\<lparr>ps_db := db1, ps_cache := invalidate_projects (ps_cache st)\<rparr>"
  using assms by (cases rw) (auto simp: commit_project_def lift_http_def)

definition stored_project :: "project \<Rightarrow> project" where
  "stored_project p = p\<lparr>pj_retention := retention_days p, pj_created := to_sec (pj_created p)\<rparr>"

lemma save_keeps:
  assumes inv: "projects_inv db" and p: "project_ok (stored_project p)" "members_ok db (pj_id p) (pj_members p)"
    and run: "save_project p db = (r, db')"
  shows "projects_inv db'"
  using run unfolding save_project_def
proof (cases rule: db_execE)
  case (1 fs)
  let ?p = "stored_project p"
  have rows: "map_of (db_projects db') = (map_of (db_projects db))(pj_id p \<mapsto> ?p)" using 1 by (simp add: update_conv' stored_project_def)
  have same: "pj_id ?p = pj_id p" "pj_members ?p = pj_members p" by (simp_all add: stored_project_def)
  have ok: "project_ok ?p" by (rule p(1))
  have mem: "members_ok db (pj_id p) (pj_members p)" by (rule p(2))
  have nest: "j \<notin> set (pj_members p) \<and> pj_id p \<notin> set (pj_members q)"
    if "map_of (db_projects db) j = Some q" "j \<noteq> pj_id p" "pj_members q \<noteq> []" "pj_members p \<noteq> []" for j q
    using mem that by (auto simp: members_ok_def)
  have old: "\<And>i q. map_of (db_projects db) i = Some q \<Longrightarrow> project_ok q" "one_level db" "projects_ok db"
    using inv by (simp_all add: projects_inv_def)
  have "projects_ok db'"
  proof -
    have "set (AList.update (pj_id p) ?p (db_projects db)) \<subseteq> insert (pj_id p, ?p) (set (db_projects db))"
      by (rule set_alist_update)
    moreover have "wf_alist (AList.update (pj_id p) ?p (db_projects db))" using old(3) by (simp add: projects_ok_def)
    ultimately show ?thesis using old(3) 1 same(1) by (auto simp: projects_ok_def stored_project_def)
  qed
  moreover have "project_ok q" if "map_of (db_projects db') i = Some q" for i q
    using that ok old(1) by (auto simp: rows split: if_splits)
  moreover have "one_level db'"
  proof -
    have "pj_members q = []"
      if "map_of (db_projects db') i = Some a" "map_of (db_projects db') j = Some q" "j \<in> set (pj_members a)" for i j a q
    proof (cases "i = pj_id p"; cases "j = pj_id p")
      assume "i = pj_id p" "j = pj_id p"
      with that mem show ?thesis by (auto simp: rows same members_ok_def)
    next
      assume "i = pj_id p" "j \<noteq> pj_id p"
      with that nest [of j q] show ?thesis by (cases "pj_members p = []"; cases "pj_members q = []") (auto simp: rows same)
    next
      assume "i \<noteq> pj_id p" "j = pj_id p"
      with that nest [of i a] show ?thesis by (cases "pj_members p = []"; cases "pj_members a = []") (auto simp: rows same)
    next
      assume "i \<noteq> pj_id p" "j \<noteq> pj_id p"
      with that old(2) show ?thesis by (auto simp: rows one_level_def)
    qed
    then show ?thesis unfolding one_level_def by blast
  qed
  ultimately show ?thesis by (simp add: projects_inv_def)
next
  case (2 fs)
  with inv show ?thesis by simp
qed

lemma delete_keeps:
  assumes inv: "projects_inv db" and run: "delete_project i db = (r, db')"
  shows "projects_inv db'"
proof -
  have "map_of (AList.delete i (db_projects db)) = (map_of (db_projects db))(i := None)" by (simp add: delete_conv')
  with inv have del: "projects_inv (db\<lparr>db_faults := fs, db_projects := AList.delete i (db_projects db)\<rparr>)" for fs
    by (auto simp: projects_inv_def projects_ok_def one_level_def AList.delete_eq distinct_map_filter split: if_splits)
  from run inv show ?thesis unfolding delete_project_def
    by (elim db_thenE db_queryE db_execE) (auto simp: db_fail_def del split: if_splits elim!: db_execE)
qed

text \<open>A row that is already in the table satisfies what is asked of new members.\<close>

lemma row_members_ok:
  assumes "projects_inv db" and "map_of (db_projects db) i = Some p"
  shows "members_ok db (pj_id p) (pj_members p)"
proof -
  have ok: "project_ok p" and id: "pj_id p = i" using assms project_id by (auto simp: projects_inv_def)
  have "j \<notin> set (pj_members p) \<and> i \<notin> set (pj_members q)"
    if "map_of (db_projects db) j = Some q" "pj_members q \<noteq> []" "pj_members p \<noteq> []" for j q
    using that assms by (auto simp: projects_inv_def one_level_def)
  with ok id show ?thesis by (auto simp: members_ok_def project_ok_def)
qed

lemma editable_projectE:
  assumes "editable_project cfg i db = (r, db')"
  obtains fs where "db' = db\<lparr>db_faults := fs\<rparr>" "\<And>p. r = Inr p \<Longrightarrow> map_of (db_projects db) i = Some p"
proof -
  obtain rg db1 where rg: "get_project i db = (rg, db1)" by fastforce
  then obtain fs where fs: "db1 = db\<lparr>db_faults := fs\<rparr>" "\<And>p. rg = Inr p \<Longrightarrow> map_of (db_projects db) i = Some p"
    unfolding get_project_def by (elim db_queryE) (auto simp: found_def split: option.splits)
  show thesis
  proof (cases "i = default_tenant \<or> is_config_project cfg i")
    case True
    with assms have "db' = db" "\<And>p. r \<noteq> Inr p" by (auto simp: editable_project_def)
    then show thesis by (intro that [of "db_faults db"]) auto
  next
    case False
    with assms rg have "db' = db1" "\<And>p. r = Inr p \<Longrightarrow> rg = Inr p"
      by (auto simp: editable_project_def split: sum.splits store_error.splits)
    with fs show thesis by (intro that [of fs]) auto
  qed
qed

lemma retention_days_range: "0 \<le> retention_days p" "retention_days p \<le> 65535"
  by (simp_all add: retention_days_def)

lemma new_project_ok:
  assumes "new_project cfg now user r = Inr p"
  shows "project_ok (stored_project p) \<and> members_ok db (pj_id p) (pj_members p)"
proof -
  obtain i label where i: "trim_space (cp_id r) = i" "trim_space (cp_label r) = label" by simp
  from assms have "p = \<lparr>pj_id = i, pj_label = label, pj_members = [], pj_retention = cp_retention r,
      pj_created_by = user, pj_created = now\<rparr> \<and> valid_project_id i \<and> length label \<le> max_project_label_len"
    by (auto simp: new_project_def Let_def i split: if_splits option.splits)
  then show ?thesis using retention_days_range by (auto simp: project_ok_def stored_project_def members_ok_def)
qed

text \<open>Committing a row that may be saved keeps the table.\<close>

lemma commit_save_keeps:
  assumes "commit_project (save_project p) p st = (r, st')" and "projects_inv (ps_db st)"
    and "project_ok (stored_project p)" and "members_ok (ps_db st) (pj_id p) (pj_members p)"
  shows "projects_inv (ps_db st')"
proof -
  obtain rw db1 where rw: "save_project p (ps_db st) = (rw, db1)" by fastforce
  have "projects_inv db1" by (rule save_keeps [OF assms(2-4) rw])
  with assms(1) rw show ?thesis by (auto elim!: commit_projectE)
qed

lemma members_ok_same [simp]: "members_ok (db\<lparr>db_faults := fs\<rparr>) i ms = members_ok db i ms"
  by (simp add: members_ok_def)

lemma create_keeps:
  assumes inv: "projects_inv (ps_db st)" and run: "handle_create_project cfg now user body st = (r, st')"
  shows "projects_inv (ps_db st')"
proof (cases "\<exists>req p. db_up (ps_db st) \<and> decode body = Inr req \<and> new_project cfg now user req = Inr p")
  case False
  with run have "st' = st" by (auto simp: handle_create_project_def split: if_splits sum.splits)
  with inv show ?thesis by simp
next
  case True
  then obtain req p where p: "db_up (ps_db st)" "decode body = Inr req" "new_project cfg now user req = Inr p" by blast
  obtain rg db1 where rg: "get_project (pj_id p) (ps_db st) = (rg, db1)" by fastforce
  then obtain fs where fs: "db1 = ps_db st\<lparr>db_faults := fs\<rparr>" unfolding get_project_def by (elim db_queryE) auto
  from run p rg have "ps_db st' = db1 \<or> commit_project (save_project p) p (st\<lparr>ps_db := db1\<rparr>) = (r, st')"
    by (auto simp: handle_create_project_def split: sum.splits store_error.splits)
  then show ?thesis
  proof
    assume "commit_project (save_project p) p (st\<lparr>ps_db := db1\<rparr>) = (r, st')"
    then show ?thesis by (rule commit_save_keeps) (use inv fs new_project_ok [OF p(3)] in simp_all)
  qed (use inv fs in simp)
qed

lemma delete_handler_keeps:
  assumes inv: "projects_inv (ps_db st)" and run: "handle_delete_project cfg i st = (r, st')"
  shows "projects_inv (ps_db st')"
proof -
  obtain re db1 where re: "editable_project cfg i (ps_db st) = (re, db1)" by fastforce
  then obtain fs where fs: "db1 = ps_db st\<lparr>db_faults := fs\<rparr>" by (rule editable_projectE)
  obtain rw db2 where rw: "delete_project i db1 = (rw, db2)" by fastforce
  have "projects_inv db2" by (rule delete_keeps [OF _ rw]) (use inv fs in simp)
  moreover from run re have "st' = st \<or> ps_db st' = db1 \<or> commit_project (delete_project i) () (st\<lparr>ps_db := db1\<rparr>) = (r, st')"
    by (auto simp: handle_delete_project_def split: if_splits sum.splits)
  ultimately show ?thesis using inv fs rw by (auto elim!: commit_projectE)
qed

lemma update_keeps:
  assumes inv: "projects_inv (ps_db st)" and run: "handle_update_project cfg i body st = (r, st')"
  shows "projects_inv (ps_db st')"
proof (cases "\<exists>req p p1 db1. db_up (ps_db st) \<and> decode body = Inr req \<and> editable_project cfg i (ps_db st) = (Inr p, db1) \<and>
    set_label (up_label req) p = Inr p1")
  case False
  obtain re db1 where re: "editable_project cfg i (ps_db st) = (re, db1)" by fastforce
  then obtain fs where "db1 = ps_db st\<lparr>db_faults := fs\<rparr>" by (rule editable_projectE)
  moreover have "st' = st \<or> ps_db st' = db1"
    using run False re by (auto simp: handle_update_project_def split: if_splits sum.splits)
  ultimately show ?thesis using inv by auto
next
  case True
  then obtain req p p1 db1 where up: "db_up (ps_db st)" and req: "decode body = Inr req"
    and ed: "editable_project cfg i (ps_db st) = (Inr p, db1)" and lab: "set_label (up_label req) p = Inr p1" by blast
  from ed obtain fs where fs: "db1 = ps_db st\<lparr>db_faults := fs\<rparr>" and row: "map_of (db_projects (ps_db st)) i = Some p"
    by (rule editable_projectE) simp
  have inv1: "projects_inv db1" using inv fs by simp
  have pok: "project_ok p" "members_ok db1 (pj_id p) (pj_members p)"
    using inv row row_members_ok [OF inv row] fs by (simp_all add: projects_inv_def)
  have p1: "pj_id p1 = pj_id p" "pj_members p1 = pj_members p" "pj_retention p1 = pj_retention p" "length (pj_label p1) \<le> max_project_label_len"
    using lab pok(1) by (auto simp: set_label_def project_ok_def split: option.splits if_splits)
  obtain rm db2 where rm: "set_members (up_members req) p1 db1 = (rm, db2)" by fastforce
  have mem: "(\<exists>fs. db2 = db1\<lparr>db_faults := fs\<rparr>) \<and> (\<forall>p2. rm = Inr p2 \<longrightarrow> pj_id p2 = pj_id p \<and> pj_label p2 = pj_label p1 \<and>
      pj_retention p2 = pj_retention p \<and> members_ok db1 (pj_id p) (pj_members p2))"
  proof (cases "up_members req")
    case None
    with rm p1 pok(2) show ?thesis by (auto simp: set_members_def)
  next
    case (Some l)
    obtain rv db3 where rv: "validate_members (pj_id p1) l db1 = (rv, db3)" by fastforce
    from validate_members_ok [OF this] inv1 rm Some rv p1 show ?thesis
      by (auto simp: set_members_def projects_inv_def split: sum.splits)
  qed
  then obtain fs2 where fs2: "db2 = db1\<lparr>db_faults := fs2\<rparr>" by blast
  have inv2: "projects_inv db2" using inv1 fs2 by simp
  show ?thesis
  proof (cases "\<exists>p2 p3. rm = Inr p2 \<and> set_retention cfg (up_retention req) p2 = Inr p3 \<and> \<not> (pj_members p3 \<noteq> [] \<and> 0 < pj_retention p3)")
    case False
    with run up req ed lab rm have "ps_db st' = db2"
      by (auto simp: handle_update_project_def split: sum.splits if_splits)
    with inv2 show ?thesis by simp
  next
    case True
    then obtain p2 p3 where p23: "rm = Inr p2" "set_retention cfg (up_retention req) p2 = Inr p3" "\<not> (pj_members p3 \<noteq> [] \<and> 0 < pj_retention p3)" by blast
    with run up req ed lab rm have c: "commit_project (save_project p3) p3 (st\<lparr>ps_db := db2\<rparr>) = (r, st')"
      by (auto simp: handle_update_project_def)
    have p3: "pj_id p3 = pj_id p2" "pj_members p3 = pj_members p2" "pj_label p3 = pj_label p2" "pj_retention p3 = pj_retention p2 \<or> 0 \<le> pj_retention p3"
      using p23(2) by (auto simp: set_retention_def validate_retention_days_def split: option.splits if_splits)
    from mem p23(1) have p2: "pj_id p2 = pj_id p" "pj_label p2 = pj_label p1" "pj_retention p2 = pj_retention p"
      "members_ok db1 (pj_id p) (pj_members p2)" by auto
    have "0 \<le> pj_retention p3" using p3(4) p2(3) pok(1) by (auto simp: project_ok_def)
    then have "pj_members p3 \<noteq> [] \<longrightarrow> pj_retention p3 = 0" using p23(3) by auto
    then have "project_ok (stored_project p3)"
      using p2 p3 p1(4) pok(1) retention_days_range [of p3] by (auto simp: project_ok_def stored_project_def members_ok_def)
    moreover have "members_ok db2 (pj_id p3) (pj_members p3)" using p2 p3 fs2 by simp
    ultimately show ?thesis by (intro commit_save_keeps [OF c]) (use inv2 in simp_all)
  qed
qed

section \<open>Any history of the table\<close>

datatype project_call =
    CreateProject instant string "create_project_request body"
  | UpdateProject string "update_project_request body"
  | DeleteProject string

text \<open>A call runs under the configuration of its time and with the calls to the store that fail.\<close>

definition project_step :: "project_config \<times> bool \<times> bool list \<times> project_call \<Rightarrow> projects_state \<Rightarrow> projects_state" where
  "project_step x st = (case x of (cfg, up, fs, c) \<Rightarrow>
     let st1 = st\<lparr>ps_db := ps_db st\<lparr>db_up := up, db_faults := fs\<rparr>\<rparr>
     in case c of
          CreateProject now user body \<Rightarrow> snd (handle_create_project cfg now user body st1)
        | UpdateProject i body \<Rightarrow> snd (handle_update_project cfg i body st1)
        | DeleteProject i \<Rightarrow> snd (handle_delete_project cfg i st1))"

lemma project_step_keeps: "projects_inv (ps_db st) \<Longrightarrow> projects_inv (ps_db (project_step x st))"
proof -
  assume inv: "projects_inv (ps_db st)"
  obtain cfg up fs c where x: "x = (cfg, up, fs, c)" by (cases x) auto
  let ?st = "st\<lparr>ps_db := ps_db st\<lparr>db_up := up, db_faults := fs\<rparr>\<rparr>"
  have inv1: "projects_inv (ps_db ?st)" using inv by simp
  show ?thesis
  proof (cases c)
    case (CreateProject now user body)
    then show ?thesis using create_keeps [OF inv1, of cfg now user body] by (simp add: project_step_def x prod_eq_iff)
  next
    case (UpdateProject i body)
    then show ?thesis using update_keeps [OF inv1, of cfg i body] by (simp add: project_step_def x prod_eq_iff)
  next
    case (DeleteProject i)
    then show ?thesis using delete_handler_keeps [OF inv1, of cfg i] by (simp add: project_step_def x prod_eq_iff)
  qed
qed

text \<open>C12. The project table stays well-formed: over any history of creations, updates and
  deletions, under any configurations and whatever calls to the store fail, every row has a
  valid id, a bounded label and retention, sorted distinct valid members other than itself, no
  retention of its own when it has members, and no member of an aggregate is an aggregate.\<close>

theorem project_table_sound:
  assumes "projects_inv (ps_db st)"
  shows "projects_inv (ps_db (fold project_step xs st))"
  using assms by (induction xs arbitrary: st) (simp_all add: project_step_keeps)

definition plain_config :: project_config where
  "plain_config = \<lparr>pf_projects = [], pf_traces_days = 0, pf_logs_days = 0, pf_metrics_days = 0, pf_profiles_days = 0\<rparr>"

definition empty_projects :: projects_state where
  "empty_projects = \<lparr>ps_db = empty_db, ps_cache = new_project_cache\<rparr>"

definition make_project :: "string \<Rightarrow> project_config \<times> bool \<times> bool list \<times> project_call" where
  "make_project i = (plain_config, True, [], CreateProject 0 ''u1'' (Body \<lparr>cp_id = i, cp_label = [], cp_retention = 0\<rparr>))"

definition give_members :: "string \<Rightarrow> string list \<Rightarrow> project_config \<times> bool \<times> bool list \<times> project_call" where
  "give_members i ms = (plain_config, True, [], UpdateProject i (Body \<lparr>up_label = None, up_members = Some ms, up_retention = None\<rparr>))"

text \<open>Wiring \<open>b\<close> under \<open>all\<close> and then \<open>all\<close> under \<open>top\<close>: the second is refused.\<close>

definition nested_history :: "(project_config \<times> bool \<times> bool list \<times> project_call) list" where
  "nested_history = [make_project ''all'', make_project ''top'', give_members ''all'' [''b''], give_members ''top'' [''all'']]"

lemma nested_run:
  "map (\<lambda>(i, p). (i, pj_members p)) (db_projects (ps_db (fold project_step nested_history empty_projects))) =
     [(''all'', [''b'']), (''top'', [])]"
  by code_simp

theorem project_table_sound_witness:
  "projects_inv (ps_db (fold project_step nested_history empty_projects)) \<and>
   map (\<lambda>(i, p). (i, pj_members p)) (db_projects (ps_db (fold project_step nested_history empty_projects))) =
     [(''all'', [''b'']), (''top'', [])]"
proof
  show "projects_inv (ps_db (fold project_step nested_history empty_projects))"
    by (rule project_table_sound) (simp add: empty_projects_def empty_db_def projects_inv_def projects_ok_def one_level_def)
qed (rule nested_run)

section \<open>The tenants of a request\<close>

text \<open>The list a resolution uses: the memo while it is fresh, else the rows.\<close>

lemma db_projects_cachedE:
  assumes "db_projects_cached now st = (Inr ps, st')"
  obtains "cached_projects (ps_cache st) now = Some ps" "st' = st"
  | fs where "cached_projects (ps_cache st) now = None" "db_up (ps_db st)" "ps = sort_key pj_id (map snd (db_projects (ps_db st)))"
      "ps_db st' = ps_db st\<lparr>db_faults := fs\<rparr>"
proof (cases "cached_projects (ps_cache st) now")
  case None
  obtain rl db1 where rl: "list_projects (ps_db st) = (rl, db1)" by fastforce
  with assms None have "rl = Inr ps" "ps_db st' = db1" "db_up (ps_db st)"
    by (auto simp: db_projects_cached_def split: if_splits sum.splits)
  moreover obtain fs where "db1 = ps_db st\<lparr>db_faults := fs\<rparr>" "rl = Inr ps \<Longrightarrow> ps = sort_key pj_id (map snd (db_projects (ps_db st)))"
    using rl unfolding list_projects_def by (elim db_queryE) auto
  ultimately show ?thesis using that(2) [OF None] by blast
next
  case (Some qs)
  with assms have "qs = ps" "st' = st" by (simp_all add: db_projects_cached_def)
  with Some show ?thesis by (intro that(1)) simp_all
qed

lemma find_row:
  assumes "projects_ok db"
  shows "find (\<lambda>p. pj_id p = i) (sort_key pj_id (map snd (db_projects db))) = map_of (db_projects db) i"
proof (cases "map_of (db_projects db) i")
  case None
  have "pj_id p \<noteq> i" if "p \<in> snd ` set (db_projects db)" for p
    using project_row [OF assms that] None by auto
  then show ?thesis using None by (auto simp: find_None_iff)
next
  case (Some p)
  have "\<exists>q. find (\<lambda>p. pj_id p = i) (sort_key pj_id (map snd (db_projects db))) = Some q"
  proof (rule ccontr)
    assume "\<nexists>q. find (\<lambda>p. pj_id p = i) (sort_key pj_id (map snd (db_projects db))) = Some q"
    then have "find (\<lambda>p. pj_id p = i) (sort_key pj_id (map snd (db_projects db))) = None" by (cases "find (\<lambda>p. pj_id p = i) (sort_key pj_id (map snd (db_projects db)))") auto
    with Some project_id [OF assms Some] show False by (auto simp: find_None_iff dest!: map_of_SomeD)
  qed
  then obtain q where q: "find (\<lambda>p. pj_id p = i) (sort_key pj_id (map snd (db_projects db))) = Some q" ..
  then have "q \<in> set (sort_key pj_id (map snd (db_projects db)))" "pj_id q = i"
    by (auto simp: find_Some_iff intro: nth_mem simp del: set_sort)
  then have "map_of (db_projects db) i = Some q" using project_row [OF assms, of q] by auto
  with q show ?thesis by simp
qed

lemma members_in_rows:
  "projects_ok db \<Longrightarrow> members_in (sort_key pj_id (map snd (db_projects db))) i =
     (case map_of (db_projects db) i of None \<Rightarrow> [] | Some p \<Rightarrow> pj_members p)"
  by (simp add: members_in_def find_row)

text \<open>The set a resolution must answer with, from the list it used.\<close>

definition tenants_for :: "project list \<Rightarrow> string \<Rightarrow> identity option \<Rightarrow> string list" where
  "tenants_for ps p i =
     (if members_in ps p = [] then [p]
      else case i of None \<Rightarrow> members_in ps p
      | Some who \<Rightarrow> filter (\<lambda>m. \<exists>g\<in>set (id_grants who). counts_for g m) (members_in ps p))"

lemma resolve_tenantsE:
  assumes "resolve_tenants now p i st = (Inr ts, st')"
  obtains ps where "db_projects_cached now st = (Inr ps, st')" "ts = tenants_for ps p i" "ts \<noteq> []"
proof -
  obtain rp st1 where rp: "db_projects_cached now st = (rp, st1)" by fastforce
  with assms obtain ps where ps: "rp = Inr ps" by (auto simp: resolve_tenants_def split: sum.splits)
  with assms rp have "st1 = st'" "ts = tenants_for ps p i" "ts \<noteq> []"
    by (auto simp: resolve_tenants_def tenants_for_def Let_def role_for_None split: option.splits if_splits)
  with rp ps that show ?thesis by simp
qed

text \<open>C14. A read stays within its caller's grants: when a request resolves to tenants, the
  caller can access the project at the asked role, the set is never empty, and it is the
  project itself or those members of it the caller holds a known role on (all of them with
  authentication off), read from the rows or a copy of them at most thirty seconds old. An
  aggregate is read as the whole of its tree: no tenant of a set read from the rows is an
  aggregate. A store that cannot be read is an error, never a smaller set.\<close>

theorem tenants_authorized:
  assumes "project_tenants rq cx need now st = (r, st')" and "projects_inv (ps_db st)"
  shows "(r = Inr (p, ts) \<longrightarrow>
      request_project rq cx need = Inr p \<and> ts \<noteq> [] \<and>
      (\<forall>i. cx_identity cx = Some i \<longrightarrow> can_access i p need \<and> (\<forall>t\<in>set ts. t = p \<or> role_for i t \<noteq> None)) \<and>
      (\<exists>ps. ts = tenants_for ps p (cx_identity cx) \<and>
        (cached_projects (ps_cache st) now = Some ps \<or>
         ps = sort_key pj_id (map snd (db_projects (ps_db st))) \<and> (\<forall>t\<in>set ts. members_in ps t = [])))) \<and>
    (cached_projects (ps_cache st) now = None \<and> \<not> db_up (ps_db st) \<longrightarrow> isl r)"
proof (intro conjI impI)
  assume r: "r = Inr (p, ts)"
  with assms(1) obtain q where q: "request_project rq cx need = Inr q"
    by (auto simp: project_tenants_def split: sum.splits)
  with assms(1) r have p: "q = p" and rt: "resolve_tenants now p (cx_identity cx) st = (Inr ts, st')"
    by (auto simp: project_tenants_def split: sum.splits prod.splits)
  show "request_project rq cx need = Inr p" using q p by simp
  from rt obtain ps where ps: "db_projects_cached now st = (Inr ps, st')" "ts = tenants_for ps p (cx_identity cx)" "ts \<noteq> []"
    by (rule resolve_tenantsE)
  show "ts \<noteq> []" by (rule ps(3))
  show "\<forall>i. cx_identity cx = Some i \<longrightarrow> can_access i p need \<and> (\<forall>t\<in>set ts. t = p \<or> role_for i t \<noteq> None)"
    using q p ps(2) by (auto simp: request_project_def Let_def tenants_for_def role_for_None split: if_splits)
  have sub: "set ts \<subseteq> insert p (set (members_in ps p)) \<and> (p \<in> set ts \<longrightarrow> p \<notin> set (members_in ps p) \<longrightarrow> members_in ps p = [])"
    using ps(2) by (auto simp: tenants_for_def split: if_splits option.splits)
  show "\<exists>ps. ts = tenants_for ps p (cx_identity cx) \<and>
        (cached_projects (ps_cache st) now = Some ps \<or>
         ps = sort_key pj_id (map snd (db_projects (ps_db st))) \<and> (\<forall>t\<in>set ts. members_in ps t = []))"
    using ps(1)
  proof (cases rule: db_projects_cachedE)
    case 1
    with ps(2) show ?thesis by blast
  next
    case (2 fs)
    have ok: "projects_ok (ps_db st)" "one_level (ps_db st)" using assms(2) by (simp_all add: projects_inv_def)
    have "members_in ps m = []" if "m \<in> set (members_in ps p)" for m
      using that ok(2) unfolding 2(3) members_in_rows [OF ok(1)] one_level_def by (auto split: option.splits) metis
    with sub have "\<forall>t\<in>set ts. members_in ps t = []" by blast
    with 2(3) ps(2) show ?thesis by blast
  qed
next
  assume "cached_projects (ps_cache st) now = None \<and> \<not> db_up (ps_db st)"
  then have "\<exists>e. db_projects_cached now st = (Inl e, st)" by (simp add: db_projects_cached_def)
  with assms(1) show "isl r" by (auto simp: project_tenants_def resolve_tenants_def split: sum.splits)
qed

definition aggregate_db :: auth_db where
  "aggregate_db = empty_db\<lparr>db_projects := [(''all'', \<lparr>pj_id = ''all'', pj_label = [], pj_members = [''shop'', ''web''],
     pj_retention = 0, pj_created_by = [], pj_created = 0\<rparr>)]\<rparr>"

definition aggregate_identity :: identity where
  "aggregate_identity = sample_identity\<lparr>id_grants := [\<lparr>g_scope = ''all'', g_role = role_viewer\<rparr>, \<lparr>g_scope = ''shop'', g_role = role_viewer\<rparr>]\<rparr>"

definition aggregate_context :: req_context where
  "aggregate_context = \<lparr>cx_identity = Some aggregate_identity, cx_binding = None\<rparr>"

definition aggregate_state :: projects_state where
  "aggregate_state = \<lparr>ps_db = aggregate_db, ps_cache = new_project_cache\<rparr>"

lemma aggregate_run:
  "fst (project_tenants (cookie_request\<lparr>rq_tenant := ''all''\<rparr>) aggregate_context role_viewer ch_epoch aggregate_state) = Inr (''all'', [''shop''])"
  by code_simp

lemma aggregate_inv: "projects_inv aggregate_db"
proof -
  have "valid_project_id ''all''" "valid_project_id ''shop''" "valid_project_id ''web''" "sorted [''shop'', ''web'']"
    by code_simp+
  then show ?thesis
    by (auto simp: projects_inv_def projects_ok_def one_level_def project_ok_def aggregate_db_def empty_db_def
        max_project_label_len_def max_project_members_def split: if_splits)
qed

theorem tenants_authorized_witness:
  "can_access aggregate_identity ''all'' role_viewer \<and> role_for aggregate_identity ''shop'' \<noteq> None"
proof -
  obtain st' where run: "project_tenants (cookie_request\<lparr>rq_tenant := ''all''\<rparr>) aggregate_context role_viewer ch_epoch aggregate_state =
      (Inr (''all'', [''shop'']), st')"
    using aggregate_run by (metis prod.collapse)
  from tenants_authorized [OF run, of "''all''" "[''shop'']"] aggregate_inv show ?thesis
    by (simp add: aggregate_state_def aggregate_context_def)
qed

end
