(* ===== verification/ProjectList.thy ===== *)
theory ProjectList
  imports ProjectLaws
begin

text \<open>
  The project switcher (hub/internal/api/projects.go, handleProjects and its helpers): the default
  project, those of the configuration, the rows of the table and the tenants seen in telemetry,
  merged with the first source winning, filtered to what the caller may see. What the telemetry
  query answers is an argument, \<open>None\<close> when it failed.
\<close>

record project_dto =
  pd_id :: string
  pd_label :: string
  pd_source :: string
  pd_editable :: bool
  pd_members :: "string list"
  pd_retention :: int

definition new_dto :: "string \<Rightarrow> string \<Rightarrow> project_dto" where
  "new_dto i source = \<lparr>pd_id = i, pd_label = [], pd_source = source, pd_editable = False, pd_members = [], pd_retention = 0\<rparr>"

record tenant_cache =
  tc_tenants :: "string list"
  tc_fetched :: instant

text \<open>The query skips the rows of no tenant.\<close>

definition list_tenants :: "string list option \<Rightarrow> string list option" where
  "list_tenants rows = (case rows of None \<Rightarrow> None | Some ts \<Rightarrow> Some (filter (\<lambda>t. t \<noteq> []) ts))"

definition observed_tenants :: "instant \<Rightarrow> string list option \<Rightarrow> bool \<Rightarrow> tenant_cache \<Rightarrow> string list \<times> tenant_cache" where
  "observed_tenants now rows up c =
     (if \<not> up then ([], c)
      else if time_sub now (tc_fetched c) < tenant_cache_ttl then (tc_tenants c, c)
      else case list_tenants rows of
        None \<Rightarrow> (tc_tenants c, c)
      | Some ts \<Rightarrow> (ts, \<lparr>tc_tenants = ts, tc_fetched = now\<rparr>))"

definition db_projects_or_none :: "auth_db \<Rightarrow> project list \<times> auth_db" where
  "db_projects_or_none db =
     (if \<not> db_up db then ([], db)
      else case list_projects db of (Inl e, db1) \<Rightarrow> ([], db1) | (Inr ps, db1) \<Rightarrow> (ps, db1))"

definition add_source :: "string \<Rightarrow> string \<Rightarrow> project_dto list \<Rightarrow> project_dto list" where
  "add_source source i acc = (if list_ex (\<lambda>d. pd_id d = i) acc then acc else acc @ [new_dto i source])"

definition add_row :: "project \<Rightarrow> project_dto list \<Rightarrow> project_dto list" where
  "add_row p acc =
     map (\<lambda>d. if pd_id d \<noteq> pj_id p then d
        else d\<lparr>pd_label := pj_label p, pd_members := pj_members p, pd_retention := pj_retention p,
          pd_editable := (if pd_source d = ''db'' then True else pd_editable d)\<rparr>)
       (add_source ''db'' (pj_id p) acc)"

definition merge_projects :: "project_config \<Rightarrow> project list \<Rightarrow> string list \<Rightarrow> project_dto list" where
  "merge_projects cfg rows tenants =
     fold (add_source ''data'') tenants
       (fold add_row rows
         (fold (add_source ''config'') (filter (\<lambda>p. p \<noteq> [] \<and> p \<noteq> default_tenant) (pf_projects cfg))
           (add_source ''default'' default_tenant [])))"

definition filter_projects_for_identity :: "project_dto list \<Rightarrow> identity option \<Rightarrow> project_dto list" where
  "filter_projects_for_identity ps who = (case who of
     None \<Rightarrow> ps
   | Some i \<Rightarrow>
       if has_wildcard i then ps
       else let scopes = project_scopes i;
                out = filter (\<lambda>p. pd_id p \<in> set scopes) ps;
                missing = filter (\<lambda>s. \<not> list_ex (\<lambda>p. pd_id p = s) out) scopes
            in sort_key pd_id (out @ map (\<lambda>s. new_dto s ''granted'') missing))"

definition handle_projects :: "project_config \<Rightarrow> instant \<Rightarrow> identity option \<Rightarrow> string list option \<Rightarrow> auth_db \<Rightarrow> tenant_cache \<Rightarrow>
    project_dto list \<times> auth_db \<times> tenant_cache" where
  "handle_projects cfg now who seen db c =
     (case db_projects_or_none db of (rows, db1) \<Rightarrow>
        (case observed_tenants now seen (db_up db1) c of (tenants, c1) \<Rightarrow>
           (filter_projects_for_identity (sort_key pd_id (merge_projects cfg rows tenants)) who, db1, c1)))"

section \<open>Merging\<close>

text \<open>Where an entry comes from: the first of its sources.\<close>

definition first_source :: "project_config \<Rightarrow> string set \<Rightarrow> string \<Rightarrow> string" where
  "first_source cfg rows i =
     (if i = default_tenant then ''default''
      else if i \<noteq> [] \<and> i \<in> set (pf_projects cfg) then ''config''
      else if i \<in> rows then ''db'' else ''data'')"

definition merged_ok :: "project_config \<Rightarrow> string set \<Rightarrow> project_dto list \<Rightarrow> bool" where
  "merged_ok cfg rows acc \<longleftrightarrow> distinct (map pd_id acc) \<and>
     (\<forall>d\<in>set acc. pd_source d = first_source cfg rows (pd_id d) \<and> (pd_editable d \<longleftrightarrow> pd_source d = ''db''))"

lemma ids_add_source: "pd_id ` set (add_source s i acc) = insert i (pd_id ` set acc)"
  by (auto simp: add_source_def list_ex_iff new_dto_def)

lemma ids_add_row: "pd_id ` set (add_row p acc) = insert (pj_id p) (pd_id ` set acc)"
proof -
  have "map pd_id (add_row p acc) = map pd_id (add_source ''db'' (pj_id p) acc)" by (simp add: add_row_def)
  then have "pd_id ` set (add_row p acc) = pd_id ` set (add_source ''db'' (pj_id p) acc)" by (metis list.set_map)
  then show ?thesis by (simp add: ids_add_source)
qed

lemma ids_fold_source: "pd_id ` set (fold (add_source s) is acc) = set is \<union> pd_id ` set acc"
  by (induction "is" arbitrary: acc) (auto simp: ids_add_source)

lemma ids_fold_row: "pd_id ` set (fold add_row ps acc) = pj_id ` set ps \<union> pd_id ` set acc"
  by (induction ps arbitrary: acc) (auto simp: ids_add_row)

lemma add_source_ok:
  assumes "merged_ok cfg rows acc" and "i \<in> pd_id ` set acc \<or> first_source cfg rows i = s" and "s \<noteq> ''db''"
  shows "merged_ok cfg rows (add_source s i acc)"
  using assms by (auto simp: merged_ok_def add_source_def list_ex_iff new_dto_def)

lemma add_row_ok:
  assumes ok: "merged_ok cfg rows acc" and source: "pj_id p \<in> pd_id ` set acc \<or> first_source cfg rows (pj_id p) = ''db''"
  shows "merged_ok cfg rows (add_row p acc)"
proof -
  define acc1 where "acc1 = add_source ''db'' (pj_id p) acc"
  have d: "distinct (map pd_id acc1)" "\<forall>d\<in>set acc1. pd_source d = first_source cfg rows (pd_id d) \<and>
      (pd_id d \<noteq> pj_id p \<longrightarrow> (pd_editable d \<longleftrightarrow> pd_source d = ''db'')) \<and> (pd_editable d \<longrightarrow> pd_source d = ''db'')"
    using ok source by (auto simp: merged_ok_def acc1_def add_source_def list_ex_iff new_dto_def)
  have "map pd_id (add_row p acc) = map pd_id acc1" by (simp add: add_row_def acc1_def)
  then have "distinct (map pd_id (add_row p acc))" using d(1) by (simp only:)
  moreover have "pd_source e = first_source cfg rows (pd_id e) \<and> (pd_editable e \<longleftrightarrow> pd_source e = ''db'')"
    if "e \<in> set (add_row p acc)" for e
  proof -
    from that obtain x where "x \<in> set acc1" "e = (if pd_id x \<noteq> pj_id p then x
        else x\<lparr>pd_label := pj_label p, pd_members := pj_members p, pd_retention := pj_retention p,
          pd_editable := (if pd_source x = ''db'' then True else pd_editable x)\<rparr>)"
      unfolding add_row_def acc1_def [symmetric] by auto
    with d(2) show ?thesis by auto
  qed
  ultimately show ?thesis by (simp add: merged_ok_def)
qed

lemma fold_source_ok:
  assumes "merged_ok cfg rows acc" and "\<forall>i\<in>set is. i \<in> pd_id ` set acc \<or> first_source cfg rows i = s" and "s \<noteq> ''db''"
  shows "merged_ok cfg rows (fold (add_source s) is acc)"
  using assms(1,2)
proof (induction "is" arbitrary: acc)
  case (Cons i "is")
  have "merged_ok cfg rows (add_source s i acc)" using Cons.prems assms(3) by (intro add_source_ok) auto
  with Cons show ?case by (simp add: ids_add_source)
qed simp

lemma fold_row_ok:
  assumes "merged_ok cfg rows acc" and "\<forall>p\<in>set ps. pj_id p \<in> pd_id ` set acc \<or> first_source cfg rows (pj_id p) = ''db''"
  shows "merged_ok cfg rows (fold add_row ps acc)"
  using assms
proof (induction ps arbitrary: acc)
  case (Cons p ps)
  have "merged_ok cfg rows (add_row p acc)" using Cons.prems by (intro add_row_ok) auto
  with Cons show ?case by (simp add: ids_add_row)
qed simp

lemma merge_ids: "pd_id ` set (merge_projects cfg rows tenants) =
    insert default_tenant (set (pf_projects cfg) - {[]} \<union> pj_id ` set rows \<union> set tenants)"
  by (auto simp: merge_projects_def ids_fold_source ids_fold_row ids_add_source)

lemma merge_ok: "merged_ok cfg (pj_id ` set rows) (merge_projects cfg rows tenants)"
  unfolding merge_projects_def
proof (intro fold_source_ok fold_row_ok)
  show "merged_ok cfg (pj_id ` set rows) (add_source ''default'' default_tenant [])"
    by (simp add: merged_ok_def add_source_def new_dto_def first_source_def)
qed (auto simp: ids_fold_source ids_fold_row ids_add_source first_source_def)

section \<open>What the switcher shows\<close>

lemma new_dto_id [simp]: "pd_id (new_dto i source) = i"
  by (simp add: new_dto_def)

text \<open>The list of an identity without a wildcard: its entries, and an entry for each scope it has
  none of.\<close>

definition restricted :: "project_dto list \<Rightarrow> string list \<Rightarrow> project_dto list" where
  "restricted ps scopes = filter (\<lambda>p. pd_id p \<in> set scopes) ps @
     map (\<lambda>s. new_dto s ''granted'') (filter (\<lambda>s. s \<notin> pd_id ` set ps) scopes)"

lemma filter_eq:
  "filter_projects_for_identity ps who = (case who of None \<Rightarrow> ps
     | Some i \<Rightarrow> if has_wildcard i then ps else sort_key pd_id (restricted ps (project_scopes i)))"
proof -
  have "filter (\<lambda>s. \<not> list_ex (\<lambda>p. pd_id p = s) (filter (\<lambda>p. pd_id p \<in> set scopes) ps)) scopes =
      filter (\<lambda>s. s \<notin> pd_id ` set ps) scopes" for scopes
    by (rule filter_cong) (auto simp: list_ex_iff)
  then show ?thesis by (simp add: filter_projects_for_identity_def restricted_def Let_def split: option.split)
qed

lemma restricted_ids: "pd_id ` set (restricted ps scopes) = set scopes"
proof
  show "set scopes \<subseteq> pd_id ` set (restricted ps scopes)"
  proof
    fix s assume s: "s \<in> set scopes"
    show "s \<in> pd_id ` set (restricted ps scopes)"
    proof (cases "s \<in> pd_id ` set ps")
      case False
      with s have "new_dto s ''granted'' \<in> set (restricted ps scopes)" by (simp add: restricted_def)
      then show ?thesis by (metis image_eqI new_dto_id)
    qed (use s in \<open>auto simp: restricted_def\<close>)
  qed
qed (auto simp: restricted_def)

lemma restricted_distinct: "distinct (map pd_id ps) \<Longrightarrow> distinct scopes \<Longrightarrow> distinct (map pd_id (restricted ps scopes))"
  by (auto simp: restricted_def comp_def distinct_map_filter)

lemma filter_ids:
  "pd_id ` set (filter_projects_for_identity ps who) =
     (case who of None \<Rightarrow> pd_id ` set ps | Some i \<Rightarrow> if has_wildcard i then pd_id ` set ps else set (project_scopes i))"
  by (simp add: filter_eq restricted_ids split: option.split)

lemma filter_entry:
  assumes "d \<in> set (filter_projects_for_identity ps who)"
  shows "d \<in> set ps \<or> d = new_dto (pd_id d) ''granted'' \<and> pd_id d \<notin> pd_id ` set ps"
  using assms by (auto simp: filter_eq restricted_def split: option.splits if_splits)

lemma filter_sorted:
  assumes "sorted (map pd_id ps)" and "distinct (map pd_id ps)"
  shows "sorted (map pd_id (filter_projects_for_identity ps who)) \<and> distinct (map pd_id (filter_projects_for_identity ps who))"
proof -
  have "distinct (map pd_id (sort_key pd_id (restricted ps (project_scopes i))))" for i
    using restricted_distinct [OF assms(2), of "project_scopes i"]
    by (metis project_scopes_def distinct_dedup_from mset_eq_imp_distinct_iff mset_map mset_sort)
  with assms show ?thesis by (simp add: filter_eq split: option.split)
qed

lemma quiet_list: "quiet db \<Longrightarrow> list_projects db = (Inr (sort_key pj_id (map snd (db_projects db))), db)"
  by (simp add: list_projects_def db_query_def db_call_def quiet_def)

lemma quiet_editable:
  assumes "quiet db"
  shows "(\<exists>p db'. editable_project cfg i db = (Inr p, db')) \<longleftrightarrow>
    i \<noteq> default_tenant \<and> i \<notin> set (pf_projects cfg) \<and> map_of (db_projects db) i \<noteq> None"
  using assms by (auto simp: editable_project_def is_config_project_def list_ex_iff get_project_def db_query_def db_call_def quiet_def found_def
      split: option.split)

text \<open>What the project switcher shows and lets edit: over a store that answers, the list is
  sorted by distinct ids. Without an identity or with a wildcard grant it holds exactly the
  default project, the configured ones, the rows and the observed tenants; otherwise exactly the
  scopes the caller is granted, whether or not anything is known of them. An entry is shown as
  editable exactly when an update or a deletion of it gets past the editability check, and its
  source is the first of default, configuration, table and telemetry that has it, or the grant.\<close>

theorem project_list_decided:
  assumes "quiet db" and "projects_inv db" and "handle_projects cfg now who seen db c = (ps, db', c')"
  shows "db' = db \<and> sorted (map pd_id ps) \<and> distinct (map pd_id ps) \<and>
    pd_id ` set ps =
      (if who = None \<or> has_wildcard (the who) then
         insert default_tenant (set (pf_projects cfg) - {[]} \<union> dom (map_of (db_projects db)) \<union> set (fst (observed_tenants now seen True c)))
       else set (project_scopes (the who))) \<and>
    (\<forall>d\<in>set ps. (pd_editable d \<longleftrightarrow> (\<exists>p db1. editable_project cfg (pd_id d) db = (Inr p, db1))) \<and>
      (pd_source d = first_source cfg (dom (map_of (db_projects db))) (pd_id d) \<or> pd_source d = ''granted''))"
proof -
  define rows where "rows = sort_key pj_id (map snd (db_projects db))"
  define tenants where "tenants = fst (observed_tenants now seen True c)"
  define merged where "merged = sort_key pd_id (merge_projects cfg rows tenants)"
  have run: "ps = filter_projects_for_identity merged who" "db' = db"
    using assms(1,3) by (auto simp: handle_projects_def db_projects_or_none_def quiet_list rows_def tenants_def merged_def quiet_def
        split: prod.splits)
  have ok: "projects_ok db" using assms(2) by (simp add: projects_inv_def)
  then have "pj_id ` set rows = fst ` set (db_projects db)"
    by (force simp: rows_def projects_ok_def image_iff)
  then have keys: "pj_id ` set rows = dom (map_of (db_projects db))" by (simp add: dom_map_of_conv_image_fst)
  have m: "merged_ok cfg (dom (map_of (db_projects db))) (merge_projects cfg rows tenants)"
    using merge_ok [of cfg rows tenants] by (simp add: keys)
  have ids: "pd_id ` set merged = insert default_tenant (set (pf_projects cfg) - {[]} \<union> dom (map_of (db_projects db)) \<union> set tenants)"
    using merge_ids [of cfg rows tenants] by (simp add: merged_def keys)
  have named: "[] \<notin> dom (map_of (db_projects db))"
  proof
    assume "[] \<in> dom (map_of (db_projects db))"
    then obtain p where p: "map_of (db_projects db) [] = Some p" by auto
    with assms(2) have "valid_project_id (pj_id p)" by (auto simp: projects_inv_def project_ok_def)
    with project_id [OF ok p] show False by (simp add: valid_project_id_def)
  qed
  have sorted: "sorted (map pd_id merged)" by (simp add: merged_def)
  moreover have "distinct (map pd_id merged)"
    using m unfolding merged_ok_def merged_def by (metis mset_eq_imp_distinct_iff mset_map mset_sort)
  ultimately have "sorted (map pd_id ps) \<and> distinct (map pd_id ps)"
    unfolding run by (rule filter_sorted)
  moreover have "(pd_editable d \<longleftrightarrow> (\<exists>p db1. editable_project cfg (pd_id d) db = (Inr p, db1))) \<and>
      (pd_source d = first_source cfg (dom (map_of (db_projects db))) (pd_id d) \<or> pd_source d = ''granted'')" if "d \<in> set ps" for d
  proof -
    from filter_entry [OF that [unfolded run(1)]] consider "d \<in> set (merge_projects cfg rows tenants)"
      | "d = new_dto (pd_id d) ''granted''" "pd_id d \<notin> dom (map_of (db_projects db))"
      unfolding ids by (auto simp: merged_def)
    then show ?thesis
    proof cases
      case 1
      with m have "pd_source d = first_source cfg (dom (map_of (db_projects db))) (pd_id d)" "pd_editable d \<longleftrightarrow> pd_source d = ''db''"
        by (auto simp: merged_ok_def)
      with named show ?thesis unfolding quiet_editable [OF assms(1)] by (auto simp: first_source_def)
    next
      case 2
      from 2(1) have "\<not> pd_editable d" "pd_source d = ''granted''" by (metis new_dto_def project_dto.select_convs(3,4))+
      with 2(2) show ?thesis unfolding quiet_editable [OF assms(1)] by auto
    qed
  qed
  moreover have "pd_id ` set ps = (if who = None \<or> has_wildcard (the who) then pd_id ` set merged else set (project_scopes (the who)))"
    unfolding run filter_ids by (auto split: option.split)
  ultimately show ?thesis unfolding run(2) tenants_def [symmetric] ids by blast
qed

text \<open>A table with a leaf and a row shadowing a configured project.\<close>

definition shadow_projects :: auth_db where
  "shadow_projects = empty_db\<lparr>db_projects :=
     map (\<lambda>i. (i, \<lparr>pj_id = i, pj_label = ''L'', pj_members = [], pj_retention = 0, pj_created_by = [], pj_created = 0\<rparr>)) [''shop'', ''stage'']\<rparr>"

lemma shadow_run:
  "handle_projects (plain_config\<lparr>pf_projects := [''stage'']\<rparr>) (10 * minute) None (Some [''seen'', [], ''shop'']) shadow_projects \<lparr>tc_tenants = [], tc_fetched = 0\<rparr> =
     ([new_dto ''default'' ''default'', new_dto ''seen'' ''data'', (new_dto ''shop'' ''db'')\<lparr>pd_label := ''L'', pd_editable := True\<rparr>,
       (new_dto ''stage'' ''config'')\<lparr>pd_label := ''L''\<rparr>], shadow_projects, \<lparr>tc_tenants = [''seen'', ''shop''], tc_fetched = 10 * minute\<rparr>)"
  by code_simp

theorem project_list_decided_witness:
  "\<exists>p db1. editable_project (plain_config\<lparr>pf_projects := [''stage'']\<rparr>) ''shop'' shadow_projects = (Inr p, db1)"
proof -
  have "quiet shadow_projects" by (simp add: quiet_def shadow_projects_def empty_db_def)
  moreover have "projects_inv shadow_projects"
  proof -
    have "valid_project_id ''shop''" "valid_project_id ''stage''" by code_simp+
    then show ?thesis
      by (auto simp: projects_inv_def projects_ok_def one_level_def project_ok_def shadow_projects_def empty_db_def
          max_project_label_len_def split: if_splits)
  qed
  ultimately show ?thesis
    using project_list_decided [OF _ _ shadow_run] by (auto simp: new_dto_def)
qed

end
