(* ===== verification/IngestAuth.thy ===== *)
theory IngestAuth
  imports Projects
begin

text \<open>
  Ingest keys from end to end: the admin's handlers (hub/internal/api/ingest_keys.go), the
  hub's validation endpoint (ingest_validate.go, auth/ingestkey.go), the gateway's
  authenticator with its cache of verdicts (gateway/avuruingestauth/extension.go, config.go)
  and the processor that stamps the tenant (gateway/tenantfromauth/processor.go). What the hub
  answers a validation call is an argument of the gateway's definitions, \<open>None\<close> for a call that
  failed in any way; the request's headers are an association list, in the order the code's
  map iteration visits them.
\<close>

section \<open>The keys of a project\<close>

definition ingest_key_prefix :: string where "ingest_key_prefix = ''avuruk_''"

definition new_ingest_key :: "crypto \<Rightarrow> string \<Rightarrow> string \<times> string \<times> string" where
  "new_ingest_key cr rnd = (let raw = ingest_key_prefix @ rnd in (raw, take 12 raw, cr_hash_token cr raw))"

definition max_ingest_key_name_len :: nat where "max_ingest_key_name_len = 200"

definition with_projects_db :: "'a db_op \<Rightarrow> projects_state \<Rightarrow> (http_error + 'a) \<times> projects_state" where
  "with_projects_db m st = (case lift_http m (ps_db st) of (r, db) \<Rightarrow> (r, st\<lparr>ps_db := db\<rparr>))"

text \<open>The rows listed are the handles and the metadata, which the row holds as they are.\<close>

definition handle_list_ingest_keys :: "string \<Rightarrow> projects_state \<Rightarrow> (http_error + (string \<times> ingest_key) list) \<times> projects_state" where
  "handle_list_ingest_keys project st =
     (if \<not> db_up (ps_db st) then (Inl Unavailable, st)
      else if \<not> valid_project_id project then (Inl (Bad_Request ''invalid project id''), st)
      else with_projects_db (list_ingest_keys project) st)"

text \<open>The answer is the raw key, its hash and the row.\<close>

definition handle_create_ingest_key :: "crypto \<Rightarrow> instant \<Rightarrow> string \<Rightarrow> string \<Rightarrow> string \<Rightarrow> string body \<Rightarrow> projects_state \<Rightarrow>
    (http_error + string \<times> string \<times> ingest_key) \<times> projects_state" where
  "handle_create_ingest_key cr now rnd user project body st =
     (if \<not> db_up (ps_db st) then (Inl Unavailable, st)
      else if \<not> valid_project_id project then (Inl (Bad_Request ''invalid project id''), st)
      else case decode body of
        Inl e \<Rightarrow> (Inl e, st)
      | Inr name0 \<Rightarrow>
          let name = trim_space name0
          in if name = [] then (Inl (Bad_Request ''name is required''), st)
             else if max_ingest_key_name_len < length name then (Inl (Bad_Request ''name must be 200 characters or fewer''), st)
             else (case is_aggregate now project st of
                 (Inl e, st1) \<Rightarrow> (Inl e, st1)
               | (Inr agg, st1) \<Rightarrow>
                   if agg then (Inl (aggregate_write_conflict project), st1)
                   else (case new_ingest_key cr rnd of (raw, prefix, h) \<Rightarrow>
                     let k = \<lparr>ik_project = project, ik_name = name, ik_prefix = prefix, ik_created_by = user,
                       ik_revoked = False, ik_created = now\<rparr>
                     in (case with_projects_db (create_ingest_key h k) st1 of
                           (Inl e, st2) \<Rightarrow> (Inl e, st2) | (Inr _, st2) \<Rightarrow> (Inr (raw, h, k), st2)))))"

definition handle_revoke_ingest_key :: "instant \<Rightarrow> string \<Rightarrow> string \<Rightarrow> projects_state \<Rightarrow> (http_error + unit) \<times> projects_state" where
  "handle_revoke_ingest_key now project h st =
     (if \<not> db_up (ps_db st) then (Inl Unavailable, st) else with_projects_db (revoke_ingest_key now project h) st)"

section \<open>Validation by the hub\<close>

definition valid_internal_token :: "string \<Rightarrow> string \<Rightarrow> bool" where
  "valid_internal_token configured header =
     (if configured = [] then False else trim_prefix ''Bearer '' header = configured)"

text \<open>The verdict: the project of the key, \<open>None\<close> for a key that is not valid.\<close>

definition handle_validate_ingest_key :: "crypto \<Rightarrow> string \<Rightarrow> string \<Rightarrow> string body \<Rightarrow> auth_db \<Rightarrow>
    (http_error + string option) \<times> auth_db" where
  "handle_validate_ingest_key cr configured header body db =
     (if \<not> valid_internal_token configured header then (Inl Unauthorized, db)
      else if \<not> db_up db then (Inl Unavailable, db)
      else case decode body of
        Inl e \<Rightarrow> (Inl e, db)
      | Inr key \<Rightarrow>
          if key = [] then (Inr None, db)
          else (case get_ingest_key_by_hash (cr_hash_token cr key) db of
              (Inl NotFound, db1) \<Rightarrow> (Inr None, db1)
            | (Inl e, db1) \<Rightarrow> (Inl (From_Store e), db1)
            | (Inr k, db1) \<Rightarrow> (Inr (Some (ik_project k)), db1)))"

section \<open>The gateway\<close>

record gateway_config =
  gc_hub_url :: string
  gc_mode :: string
  gc_cache_ttl :: duration
  gc_stale_grace :: duration

definition mode_off :: string where "mode_off = ''off''"

definition mode_log :: string where "mode_log = ''log''"

definition mode_enforce :: string where "mode_enforce = ''enforce''"

definition validate_gateway :: "gateway_config \<Rightarrow> bool" where
  "validate_gateway c =
     (if gc_mode c \<noteq> mode_off \<and> gc_mode c \<noteq> mode_log \<and> gc_mode c \<noteq> mode_enforce then False
      else if gc_mode c \<noteq> mode_off \<and> gc_hub_url c = [] then False else True)"

record cached_verdict =
  cv_valid :: bool
  cv_project :: string
  cv_fetched :: instant

type_synonym verdict_cache = "string \<rightharpoonup> cached_verdict"

definition first_header :: "(string \<times> string list) list \<Rightarrow> string \<Rightarrow> string" where
  "first_header sources name =
     (case find (\<lambda>(k, vs). equal_fold k name \<and> vs \<noteq> []) sources of None \<Rightarrow> [] | Some (k, vs) \<Rightarrow> hd vs)"

definition extract_key :: "(string \<times> string list) list \<Rightarrow> string" where
  "extract_key sources =
     (let v = first_header sources ''authorization''
      in if v \<noteq> [] then
           (if 7 \<le> length v \<and> equal_fold (take 7 v) ''bearer '' then trim_space (drop 7 v) else trim_space v)
         else trim_space (first_header sources ''x-avuru-api-key''))"

text \<open>The two reads of the cache: a verdict that is fresh, and one that may outlive a hub that
  does not answer.\<close>

definition fresh_verdict :: "gateway_config \<Rightarrow> instant \<Rightarrow> cached_verdict option \<Rightarrow> cached_verdict option" where
  "fresh_verdict c now cached = (case cached of
     None \<Rightarrow> None | Some v \<Rightarrow> if time_sub now (cv_fetched v) < gc_cache_ttl c then Some v else None)"

definition stale_verdict :: "gateway_config \<Rightarrow> instant \<Rightarrow> cached_verdict option \<Rightarrow> cached_verdict option" where
  "stale_verdict c now cached = (case cached of
     None \<Rightarrow> None | Some v \<Rightarrow> if time_sub now (cv_fetched v) < gc_stale_grace c then Some v else None)"

definition answer_verdict :: "instant \<Rightarrow> string option \<Rightarrow> cached_verdict" where
  "answer_verdict now a = (case a of
     None \<Rightarrow> \<lparr>cv_valid = False, cv_project = [], cv_fetched = now\<rparr>
   | Some p \<Rightarrow> \<lparr>cv_valid = True, cv_project = p, cv_fetched = now\<rparr>)"

text \<open>\<open>hub\<close> is the answer to the validation call: \<open>None\<close> when it failed.\<close>

definition verdict :: "gateway_config \<Rightarrow> instant \<Rightarrow> (string \<Rightarrow> string option option) \<Rightarrow> string \<Rightarrow> verdict_cache \<Rightarrow>
    cached_verdict option \<times> verdict_cache" where
  "verdict c now hub key cache =
     (case fresh_verdict c now (cache key) of
        Some v \<Rightarrow> (Some v, cache)
      | None \<Rightarrow>
          (case hub key of
             None \<Rightarrow> (stale_verdict c now (cache key), cache)
           | Some a \<Rightarrow> (Some (answer_verdict now a), cache(key \<mapsto> answer_verdict now a))))"

datatype deny_reason = MissingKey | InvalidKey | ValidationDown

text \<open>An accepted request carries the project it is authenticated for, if any; the count is that
  of denials.\<close>

datatype ingest_result = Accept "string option" | Reject deny_reason

definition deny :: "gateway_config \<Rightarrow> deny_reason \<Rightarrow> nat \<Rightarrow> ingest_result \<times> nat" where
  "deny c why denied = (if gc_mode c = mode_enforce then Reject why else Accept None, Suc denied)"

text \<open>What is decided from a verdict.\<close>

definition decide :: "gateway_config \<Rightarrow> cached_verdict option \<Rightarrow> nat \<Rightarrow> ingest_result \<times> nat" where
  "decide c v denied =
     (case v of
        None \<Rightarrow> if gc_mode c = mode_enforce then deny c ValidationDown denied else (Accept None, denied)
      | Some w \<Rightarrow>
          if \<not> cv_valid w then deny c InvalidKey denied
          else if gc_mode c = mode_enforce then (Accept (Some (cv_project w)), denied)
          else (Accept None, denied))"

definition authenticate :: "gateway_config \<Rightarrow> instant \<Rightarrow> (string \<Rightarrow> string option option) \<Rightarrow> (string \<times> string list) list \<Rightarrow>
    verdict_cache \<Rightarrow> nat \<Rightarrow> ingest_result \<times> verdict_cache \<times> nat" where
  "authenticate c now hub sources cache denied =
     (if gc_mode c = mode_off then (Accept None, cache, denied)
      else let key = extract_key sources
        in if key = [] then (case deny c MissingKey denied of (r, n) \<Rightarrow> (r, cache, n))
           else (case verdict c now hub key cache of
               (v, cache1) \<Rightarrow> (case decide c v denied of (r, n) \<Rightarrow> (r, cache1, n))))"

section \<open>The tenant of a payload\<close>

definition tenant_attribute :: string where "tenant_attribute = ''avuru.tenant''"

text \<open>The resources of a payload are the maps of their string attributes; \<open>auth\<close> is what the
  authenticator attached.\<close>

definition stamp_tenant :: "string option \<Rightarrow> (string \<rightharpoonup> string) list \<Rightarrow> (string \<rightharpoonup> string) list" where
  "stamp_tenant auth resources =
     (case auth of
        None \<Rightarrow> resources
      | Some p \<Rightarrow> if p = [] then resources else map (\<lambda>r. r(tenant_attribute \<mapsto> p)) resources)"

end
