(* ===== verification/IngestLaws.thy ===== *)
theory IngestLaws
  imports IngestAuth ProjectLaws
begin

text \<open>
  What an ingest key is worth at the gateway. Requests run concurrently, the validation call
  between the read and the write of the cache; a verdict is dated by the start of its request.
  So whatever the interleaving, a key authenticates a request only if the hub had a live row
  for it not long before the request started, and a revoked key stops within a bounded time;
  an accepted payload is stamped with that row's project, whatever tenant it claimed.
\<close>

section \<open>The gateway as a step machine\<close>

text \<open>Where a request stands: not started; waiting for the hub, with the cached verdict it read
  at its start; told the hub's answer; done with a verdict, \<open>None\<close> when there was none to give.\<close>

datatype lookup =
    NotStarted
  | Waiting string instant "cached_verdict option"
  | Told string instant "string option"
  | Done string instant "cached_verdict option"

record gateway =
  gw_clock :: instant
  gw_cache :: verdict_cache
  gw_request :: "nat \<Rightarrow> lookup"

definition set_request :: "nat \<Rightarrow> lookup \<Rightarrow> gateway \<Rightarrow> gateway" where
  "set_request i l s = s\<lparr>gw_request := (gw_request s)(i := l)\<rparr>"

text \<open>The hub's answer to a validation call of the gateway, from its tables at that moment.\<close>

definition hub_answer :: "crypto \<Rightarrow> string \<Rightarrow> auth_db \<Rightarrow> string \<Rightarrow> string option option" where
  "hub_answer cr token db key =
     (case fst (handle_validate_ingest_key cr token (''Bearer '' @ token) (Body key) db) of Inl _ \<Rightarrow> None | Inr a \<Rightarrow> Some a)"

inductive gateway_step :: "crypto \<Rightarrow> string \<Rightarrow> gateway_config \<Rightarrow> (instant \<Rightarrow> auth_db) \<Rightarrow> gateway \<Rightarrow> gateway \<Rightarrow> bool"
  for cr token c tables where
  serve: "gw_request s i = NotStarted \<Longrightarrow> fresh_verdict c (gw_clock s) (gw_cache s key) = Some v \<Longrightarrow>
    gateway_step cr token c tables s (set_request i (Done key (gw_clock s) (Some v)) s)"
| ask: "gw_request s i = NotStarted \<Longrightarrow> fresh_verdict c (gw_clock s) (gw_cache s key) = None \<Longrightarrow>
    gateway_step cr token c tables s (set_request i (Waiting key (gw_clock s) (gw_cache s key)) s)"
| hear: "gw_request s i = Waiting key t cached \<Longrightarrow> hub_answer cr token (tables (gw_clock s)) key = Some a \<Longrightarrow>
    gateway_step cr token c tables s (set_request i (Told key t a) s)"
| lose: "gw_request s i = Waiting key t cached \<Longrightarrow>
    gateway_step cr token c tables s (set_request i (Done key t (stale_verdict c t cached)) s)"
| remember: "gw_request s i = Told key t a \<Longrightarrow>
    gateway_step cr token c tables s
      (set_request i (Done key t (Some (answer_verdict t a))) (s\<lparr>gw_cache := (gw_cache s)(key \<mapsto> answer_verdict t a)\<rparr>))"
| tick: "gw_clock s \<le> now \<Longrightarrow> gateway_step cr token c tables s (s\<lparr>gw_clock := now\<rparr>)"

inductive gateway_reachable :: "crypto \<Rightarrow> string \<Rightarrow> gateway_config \<Rightarrow> (instant \<Rightarrow> auth_db) \<Rightarrow> gateway \<Rightarrow> bool"
  for cr token c tables where
  boot: "gateway_reachable cr token c tables \<lparr>gw_clock = now, gw_cache = Map.empty, gw_request = (\<lambda>_. NotStarted)\<rparr>"
| more: "gateway_reachable cr token c tables s \<Longrightarrow> gateway_step cr token c tables s s' \<Longrightarrow> gateway_reachable cr token c tables s'"

section \<open>The invariant\<close>

text \<open>At some instant from \<open>t\<close> on, and not later than the clock, the tables had a live row for the
  key, of that project.\<close>

definition live_since :: "crypto \<Rightarrow> (instant \<Rightarrow> auth_db) \<Rightarrow> instant \<Rightarrow> instant \<Rightarrow> string \<Rightarrow> string \<Rightarrow> bool" where
  "live_since cr tables now t key project \<longleftrightarrow>
     (\<exists>u k. t \<le> u \<and> u \<le> now \<and> live_ingest_key (tables u) (cr_hash_token cr key) = Some k \<and> ik_project k = project)"

lemma live_since_later: "live_since cr tables now t key p \<Longrightarrow> now \<le> now' \<Longrightarrow> live_since cr tables now' t key p"
  unfolding live_since_def by (metis order.trans)

lemma hub_answer_live:
  assumes "hub_answer cr token db key = Some (Some p)"
  shows "\<exists>k. live_ingest_key db (cr_hash_token cr key) = Some k \<and> ik_project k = p"
proof -
  obtain r db' where r: "get_ingest_key_by_hash (cr_hash_token cr key) db = (r, db')" by fastforce
  with assms obtain k where "r = Inr k" "ik_project k = p"
    by (auto simp: hub_answer_def handle_validate_ingest_key_def decode_def split: sum.splits if_splits store_error.splits)
  moreover have "r = Inr k \<Longrightarrow> live_ingest_key db (cr_hash_token cr key) = Some k"
    using r unfolding get_ingest_key_by_hash_def
    by (elim db_queryE) (auto simp: found_def live_ingest_key_def split: option.splits)
  ultimately show ?thesis by blast
qed

text \<open>A verdict is backed: if it says valid, the key was live at or after its date.\<close>

definition backed :: "crypto \<Rightarrow> (instant \<Rightarrow> auth_db) \<Rightarrow> instant \<Rightarrow> string \<Rightarrow> cached_verdict \<Rightarrow> bool" where
  "backed cr tables now key v \<longleftrightarrow> (cv_valid v \<longrightarrow> live_since cr tables now (cv_fetched v) key (cv_project v))"

lemma backed_later: "backed cr tables now key v \<Longrightarrow> now \<le> now' \<Longrightarrow> backed cr tables now' key v"
  unfolding backed_def using live_since_later by blast

definition recent :: "gateway_config \<Rightarrow> instant \<Rightarrow> cached_verdict \<Rightarrow> bool" where
  "recent c t v \<longleftrightarrow> cv_fetched v = t \<or> time_sub t (cv_fetched v) < gc_cache_ttl c \<or> time_sub t (cv_fetched v) < gc_stale_grace c"

definition request_ok :: "crypto \<Rightarrow> gateway_config \<Rightarrow> (instant \<Rightarrow> auth_db) \<Rightarrow> instant \<Rightarrow> lookup \<Rightarrow> bool" where
  "request_ok cr c tables now l \<longleftrightarrow>
     (case l of
        NotStarted \<Rightarrow> True
      | Waiting key t cached \<Rightarrow> t \<le> now \<and> (\<forall>v. cached = Some v \<longrightarrow> backed cr tables now key v)
      | Told key t a \<Rightarrow> (\<forall>p. a = Some p \<longrightarrow> live_since cr tables now t key p)
      | Done key t v \<Rightarrow> (\<forall>w. v = Some w \<longrightarrow> backed cr tables now key w \<and> recent c t w))"

definition gateway_ok :: "crypto \<Rightarrow> gateway_config \<Rightarrow> (instant \<Rightarrow> auth_db) \<Rightarrow> gateway \<Rightarrow> bool" where
  "gateway_ok cr c tables s \<longleftrightarrow>
     (\<forall>key v. gw_cache s key = Some v \<longrightarrow> backed cr tables (gw_clock s) key v) \<and>
     (\<forall>i. request_ok cr c tables (gw_clock s) (gw_request s i))"

lemma request_ok_later: "request_ok cr c tables now l \<Longrightarrow> now \<le> now' \<Longrightarrow> request_ok cr c tables now' l"
  using backed_later live_since_later unfolding request_ok_def by (auto split: lookup.splits)

lemma answer_backed: "\<forall>p. a = Some p \<longrightarrow> live_since cr tables now t key p \<Longrightarrow>
    backed cr tables now key (answer_verdict t a) \<and> recent c t (answer_verdict t a)"
  by (auto simp: backed_def recent_def answer_verdict_def split: option.split)

lemma gateway_ok_set:
  "gateway_ok cr c tables s \<Longrightarrow> request_ok cr c tables (gw_clock s) l \<Longrightarrow> gateway_ok cr c tables (set_request i l s)"
  by (simp add: gateway_ok_def set_request_def)

lemma gateway_ok_step:
  assumes "gateway_step cr token c tables s s'" and ok: "gateway_ok cr c tables s"
  shows "gateway_ok cr c tables s'"
  using assms(1)
proof cases
  case (serve i key v)
  have "recent c (gw_clock s) v" "backed cr tables (gw_clock s) key v"
    using serve(3) ok by (auto simp: fresh_verdict_def recent_def gateway_ok_def split: option.splits if_splits)
  then show ?thesis unfolding serve(1) by (intro gateway_ok_set [OF ok]) (simp add: request_ok_def)
next
  case (ask i key)
  have "request_ok cr c tables (gw_clock s) (Waiting key (gw_clock s) (gw_cache s key))"
    using ok by (simp add: request_ok_def gateway_ok_def)
  then show ?thesis unfolding ask(1) by (rule gateway_ok_set [OF ok])
next
  case (hear i key t cached a)
  have "request_ok cr c tables (gw_clock s) (Waiting key t cached)" using ok hear(2) unfolding gateway_ok_def by metis
  then have "t \<le> gw_clock s" by (simp add: request_ok_def)
  with hear(3) hub_answer_live have "\<forall>p. a = Some p \<longrightarrow> live_since cr tables (gw_clock s) t key p"
    unfolding live_since_def by blast
  then show ?thesis unfolding hear(1) by (intro gateway_ok_set [OF ok]) (simp add: request_ok_def)
next
  case (lose i key t cached)
  have "request_ok cr c tables (gw_clock s) (Waiting key t cached)" using ok lose(2) unfolding gateway_ok_def by metis
  then show ?thesis unfolding lose(1)
    by (intro gateway_ok_set [OF ok]) (auto simp: request_ok_def stale_verdict_def recent_def split: option.splits)
next
  case (remember i key t a)
  have "request_ok cr c tables (gw_clock s) (Told key t a)" using ok remember(2) unfolding gateway_ok_def by metis
  then have a: "\<forall>p. a = Some p \<longrightarrow> live_since cr tables (gw_clock s) t key p" by (simp add: request_ok_def)
  have "gateway_ok cr c tables (s\<lparr>gw_cache := (gw_cache s)(key \<mapsto> answer_verdict t a)\<rparr>)"
    using ok answer_backed [OF a] by (simp add: gateway_ok_def)
  then show ?thesis unfolding remember(1)
    by (rule gateway_ok_set) (use answer_backed [OF a, of c] in \<open>simp add: request_ok_def\<close>)
next
  case (tick now)
  then have "gw_clock s \<le> gw_clock s'" "gw_cache s' = gw_cache s" "gw_request s' = gw_request s" by simp_all
  with ok show ?thesis unfolding gateway_ok_def by (metis request_ok_later backed_later)
qed

lemma gateway_reachable_ok: "gateway_reachable cr token c tables s \<Longrightarrow> gateway_ok cr c tables s"
proof (induction rule: gateway_reachable.induct)
  case (boot now)
  then show ?case by (simp add: gateway_ok_def request_ok_def)
next
  case (more s s')
  then show ?case by (blast intro: gateway_ok_step)
qed

section \<open>Revocation\<close>

lemma time_sub_under: "time_sub t u < d \<Longrightarrow> d \<le> max_duration \<Longrightarrow> t - u < d"
  by (auto simp: time_sub_def max_def min_def split: if_splits)

text \<open>C26. A revoked key stops within a bounded time: however requests, hub answers, lost calls and
  the clock interleave, a request that started at \<open>t\<close> is authenticated for a project only if
  the hub's tables had a live row for its key, of that project, at a moment no more than the
  longer of \<open>cache_ttl\<close> and \<open>stale_grace\<close> before \<open>t\<close>; so once a key is revoked, no request that
  starts that much later is authenticated by it.\<close>

theorem revocation_bounded:
  assumes "gateway_reachable cr token c tables s" and "gw_request s i = Done key t (Some v)" and "cv_valid v"
    and "gc_cache_ttl c \<le> max_duration" and "gc_stale_grace c \<le> max_duration"
  shows "(\<exists>u k. u \<le> gw_clock s \<and> (t \<le> u \<or> t - u < max (gc_cache_ttl c) (gc_stale_grace c)) \<and>
      live_ingest_key (tables u) (cr_hash_token cr key) = Some k \<and> ik_project k = cv_project v) \<and>
    (\<forall>gone. (\<forall>u\<ge>gone. live_ingest_key (tables u) (cr_hash_token cr key) = None) \<longrightarrow>
      t < gone + max 0 (max (gc_cache_ttl c) (gc_stale_grace c)))"
proof -
  have "request_ok cr c tables (gw_clock s) (gw_request s i)" using gateway_reachable_ok [OF assms(1)] by (simp add: gateway_ok_def)
  then have "backed cr tables (gw_clock s) key v" "recent c t v" using assms(2) by (simp_all add: request_ok_def)
  then obtain u k where u: "cv_fetched v \<le> u" "u \<le> gw_clock s" "live_ingest_key (tables u) (cr_hash_token cr key) = Some k"
      "ik_project k = cv_project v" and r: "recent c t v"
    using assms(3) by (auto simp: backed_def live_since_def)
  have bound: "t \<le> u \<or> t - u < max (gc_cache_ttl c) (gc_stale_grace c)"
    using r u(1) time_sub_under [OF _ assms(4), of t "cv_fetched v"] time_sub_under [OF _ assms(5), of t "cv_fetched v"]
    by (auto simp: recent_def)
  moreover have "t < gone + max 0 (max (gc_cache_ttl c) (gc_stale_grace c))"
    if "\<forall>w\<ge>gone. live_ingest_key (tables w) (cr_hash_token cr key) = None" for gone
  proof -
    have "u < gone" using that u(3) by (metis not_less option.distinct(1))
    with bound show ?thesis by auto
  qed
  ultimately show ?thesis using u by blast
qed

definition key_row :: ingest_key where
  "key_row = \<lparr>ik_project = ''shop'', ik_name = ''ci'', ik_prefix = ''avuruk_'', ik_created_by = ''u1'', ik_revoked = False, ik_created = 0\<rparr>"

text \<open>A key that is revoked at instant 10, and a request that starts at 5.\<close>

definition revoked_at_10 :: "instant \<Rightarrow> auth_db" where
  "revoked_at_10 u = empty_db\<lparr>db_ingest := [(''#avuruk_a'', key_row\<lparr>ik_revoked := 10 \<le> u\<rparr>)]\<rparr>"

definition sample_gateway :: gateway_config where
  "sample_gateway = \<lparr>gc_hub_url = ''http://hub'', gc_mode = ''enforce'', gc_cache_ttl = 30, gc_stale_grace = 300\<rparr>"

lemma revoked_answer: "hub_answer toy_crypto ''tok'' (revoked_at_10 5) ''avuruk_a'' = Some (Some ''shop'')"
  by code_simp

theorem revocation_bounded_witness:
  "\<exists>s v. gateway_reachable toy_crypto ''tok'' sample_gateway revoked_at_10 s \<and>
     gw_request s 0 = Done ''avuruk_a'' 5 (Some v) \<and> cv_valid v \<and> (5::int) < 10 + 300"
proof -
  let ?s0 = "\<lparr>gw_clock = 5, gw_cache = Map.empty, gw_request = (\<lambda>_. NotStarted)\<rparr>"
  let ?s1 = "set_request 0 (Waiting ''avuruk_a'' (gw_clock ?s0) (gw_cache ?s0 ''avuruk_a'')) ?s0"
  let ?s2 = "set_request 0 (Told ''avuruk_a'' 5 (Some ''shop'')) ?s1"
  let ?v = "answer_verdict 5 (Some ''shop'')"
  let ?s3 = "set_request 0 (Done ''avuruk_a'' 5 (Some ?v)) (?s2\<lparr>gw_cache := (gw_cache ?s2)(''avuruk_a'' \<mapsto> ?v)\<rparr>)"
  let ?reach = "gateway_reachable toy_crypto ''tok'' sample_gateway revoked_at_10"
  have r0: "?reach ?s0" by (rule boot)
  have r1: "?reach ?s1" by (rule more [OF r0 ask]) (simp_all add: fresh_verdict_def)
  have r2: "?reach ?s2" by (rule more [OF r1 hear]) (simp_all add: set_request_def revoked_answer)
  have r3: "?reach ?s3" by (rule more [OF r2 remember]) (simp add: set_request_def)
  have d: "gw_request ?s3 0 = Done ''avuruk_a'' 5 (Some ?v)" "cv_valid ?v" by (simp_all add: set_request_def answer_verdict_def)
  have b: "gc_cache_ttl sample_gateway \<le> max_duration" "gc_stale_grace sample_gateway \<le> max_duration"
    by (simp_all add: sample_gateway_def max_duration_def)
  have "\<forall>u\<ge>10. live_ingest_key (revoked_at_10 u) (cr_hash_token toy_crypto ''avuruk_a'') = None"
    by (simp add: revoked_at_10_def live_ingest_key_def toy_crypto_def)
  with revocation_bounded [OF r3 d b] have "(5::int) < 10 + 300" by (auto simp: sample_gateway_def)
  with r3 d show ?thesis by blast
qed

section \<open>Modes and stamping\<close>

text \<open>What the modes do to a payload: off and log accept every request and attach nothing, so
  the payload keeps the tenant it claims; enforce accepts a request only with a verdict that is
  valid, fresh, just given or within the grace, and then every resource of the payload carries
  the project of that verdict as its tenant, whatever it claimed. A hub that does not answer
  changes no cached verdict.\<close>

theorem gateway_modes:
  assumes "authenticate c now hub sources cache denied = (r, cache', denied')" and "validate_gateway c"
  shows "(gc_mode c \<noteq> mode_enforce \<longrightarrow> r = Accept None \<and> stamp_tenant None rs = rs) \<and>
    (gc_mode c = mode_enforce \<longrightarrow> r \<noteq> Accept None \<and>
      (\<forall>p. r = Accept (Some p) \<longrightarrow>
        (\<exists>v. (fresh_verdict c now (cache (extract_key sources)) = Some v \<or>
              hub (extract_key sources) = Some (Some p) \<and> v = answer_verdict now (Some p) \<and> cache' (extract_key sources) = Some v \<or>
              hub (extract_key sources) = None \<and> stale_verdict c now (cache (extract_key sources)) = Some v) \<and>
            cv_valid v \<and> cv_project v = p \<and> extract_key sources \<noteq> []) \<and>
        (p \<noteq> [] \<longrightarrow> (\<forall>x\<in>set (stamp_tenant (Some p) rs). x tenant_attribute = Some p)))) \<and>
    (hub (extract_key sources) = None \<longrightarrow> cache' = cache)"
proof -
  have modes: "mode_off \<noteq> mode_enforce" "mode_log \<noteq> mode_enforce" "mode_off \<noteq> mode_log"
    by (simp_all add: mode_off_def mode_log_def mode_enforce_def)
  let ?key = "extract_key sources"
  show ?thesis
  proof (cases "gc_mode c = mode_off \<or> ?key = []")
    case True
    with assms modes show ?thesis
      by (auto simp: authenticate_def deny_def Let_def stamp_tenant_def split: if_splits)
  next
    case False
    obtain v cache1 where v: "verdict c now hub ?key cache = (v, cache1)" by fastforce
    with assms(1) False have d: "decide c v denied = (r, denied')" and cache: "cache' = cache1"
      by (auto simp: authenticate_def Let_def split: prod.splits)
    have src: "\<And>w. v = Some w \<Longrightarrow> fresh_verdict c now (cache ?key) = Some w \<or>
        (\<exists>a. hub ?key = Some a \<and> w = answer_verdict now a \<and> cache1 ?key = Some w) \<or>
        hub ?key = None \<and> stale_verdict c now (cache ?key) = Some w"
      using v by (auto simp: verdict_def split: option.splits)
    have same: "hub ?key = None \<Longrightarrow> cache1 = cache" using v by (auto simp: verdict_def split: option.splits)
    have ans: "\<And>a w. w = answer_verdict now a \<Longrightarrow> cv_valid w \<Longrightarrow> a = Some (cv_project w)"
      by (auto simp: answer_verdict_def split: option.splits)
    have off: "gc_mode c \<noteq> mode_enforce \<Longrightarrow> r = Accept None"
      using d by (auto simp: decide_def deny_def split: option.splits if_splits)
    have on: "r \<noteq> Accept None \<and> (\<forall>p. r = Accept (Some p) \<longrightarrow> (\<exists>w. v = Some w \<and> cv_valid w \<and> cv_project w = p))"
      if "gc_mode c = mode_enforce"
      using d that by (auto simp: decide_def deny_def split: option.splits if_splits)
    have stamp: "p \<noteq> [] \<Longrightarrow> \<forall>x\<in>set (stamp_tenant (Some p) rs). x tenant_attribute = Some p" for p
      by (auto simp: stamp_tenant_def)
    have acc: "\<exists>w. (fresh_verdict c now (cache ?key) = Some w \<or>
              hub ?key = Some (Some p) \<and> w = answer_verdict now (Some p) \<and> cache' ?key = Some w \<or>
              hub ?key = None \<and> stale_verdict c now (cache ?key) = Some w) \<and>
            cv_valid w \<and> cv_project w = p \<and> ?key \<noteq> []" if "gc_mode c = mode_enforce" "r = Accept (Some p)" for p
    proof -
      from on [OF that(1)] that(2) obtain w where w: "v = Some w" "cv_valid w" "cv_project w = p" by blast
      have "a = Some p" if "w = answer_verdict now a" for a using ans [OF that] w(2,3) by simp
      with src [OF w(1)] have "fresh_verdict c now (cache ?key) = Some w \<or>
          hub ?key = Some (Some p) \<and> w = answer_verdict now (Some p) \<and> cache' ?key = Some w \<or>
          hub ?key = None \<and> stale_verdict c now (cache ?key) = Some w" unfolding cache by metis
      with w(2,3) False show ?thesis by (intro exI [of _ w]) simp
    qed
    show ?thesis
    proof (intro conjI impI)
      show "r = Accept None" if "gc_mode c \<noteq> mode_enforce" by (rule off [OF that])
      show "stamp_tenant None rs = rs" by (simp add: stamp_tenant_def)
      show "r \<noteq> Accept None" if "gc_mode c = mode_enforce" using on [OF that] by blast
      show "cache' = cache" if "hub ?key = None" using same [OF that] cache by simp
    qed (use acc stamp in blast)
  qed
qed

text \<open>A bearer key in enforce mode, the hub answering with its project.\<close>

theorem gateway_modes_witness:
  "map (\<lambda>x. x tenant_attribute) (stamp_tenant (Some ''shop'') [Map.empty, [tenant_attribute \<mapsto> ''other'']]) = [Some ''shop'', Some ''shop'']"
proof -
  let ?hub = "\<lambda>_. Some (Some ''shop'')"
  let ?src = "[(''Authorization'', [''Bearer avuruk_a''])]"
  have key: "extract_key ?src = ''avuruk_a''" by code_simp
  have run: "authenticate sample_gateway 5 ?hub ?src Map.empty 0 =
      (Accept (Some ''shop''), [''avuruk_a'' \<mapsto> answer_verdict 5 (Some ''shop'')], 0)"
    by (simp add: authenticate_def key verdict_def fresh_verdict_def decide_def sample_gateway_def mode_off_def mode_enforce_def
        answer_verdict_def)
  have val: "validate_gateway sample_gateway" by code_simp
  have "\<forall>x\<in>set (stamp_tenant (Some ''shop'') [Map.empty, [tenant_attribute \<mapsto> ''other'']]). x tenant_attribute = Some ''shop''"
    using gateway_modes [OF run val, of "[Map.empty, [tenant_attribute \<mapsto> ''other'']]"] by (simp add: sample_gateway_def mode_enforce_def)
  then show ?thesis by (simp add: stamp_tenant_def)
qed

end
