(* ===== verification/UserAdmin.thy ===== *)
theory UserAdmin
  imports Access
begin

text \<open>
  Users, personal tokens and signing in over HTTP (hub/internal/api/users.go, tokens.go,
  auth_handlers.go). A handler takes the identity its wrapper resolved, the decoded body and
  the random text it mints; the order of its checks and of its calls to the store is the
  code's. A cookie that is set or cleared is part of the answer.
\<close>

section \<open>Users\<close>

record user_dto =
  ud_id :: string
  ud_email :: string
  ud_name :: string
  ud_origin :: string
  ud_disabled :: bool
  ud_grants :: "grant list"

record create_user_request =
  cu_email :: string
  cu_name :: string
  cu_password :: string
  cu_grants :: "grant list"

record update_user_request =
  uu_name :: "string option"
  uu_password :: "string option"
  uu_disabled :: "bool option"
  uu_grants :: "grant list option"

fun valid_grants_from :: "string list \<Rightarrow> grant list \<Rightarrow> http_error option" where
  "valid_grants_from seen [] = None"
| "valid_grants_from seen (g # gs) =
     (if parse_role (g_role g) = None then Some (Bad_Request ''invalid role'')
      else if g_scope g = [] then Some (Bad_Request ''grant scope required'')
      else if g_scope g \<in> set seen then Some (Bad_Request ''duplicate grant scope'')
      else valid_grants_from (g_scope g # seen) gs)"

definition valid_grants :: "grant list \<Rightarrow> http_error option" where
  "valid_grants = valid_grants_from []"

definition to_user_dto :: "auth_user \<Rightarrow> (string \<times> string) list \<Rightarrow> user_dto" where
  "to_user_dto u rows = \<lparr>ud_id = us_id u, ud_email = us_email u, ud_name = us_name u, ud_origin = us_origin u,
     ud_disabled = us_disabled u, ud_grants = known_grants rows\<rparr>"

definition to_storage_grants :: "grant list \<Rightarrow> (string \<times> string) list" where
  "to_storage_grants gs = map (\<lambda>g. (g_scope g, g_role g)) gs"

definition lift_http_store :: "'a db_op \<Rightarrow> auth_db \<Rightarrow> (http_error + 'a) \<times> auth_db" where
  "lift_http_store m db = (case m db of (Inl e, db1) \<Rightarrow> (Inl (From_Store e), db1) | (Inr x, db1) \<Rightarrow> (Inr x, db1))"

fun user_dtos :: "auth_user list \<Rightarrow> auth_db \<Rightarrow> (http_error + user_dto list) \<times> auth_db" where
  "user_dtos [] db = (Inr [], db)"
| "user_dtos (u # us) db =
     db_then (lift_http_store (list_auth_grants (us_id u)))
       (\<lambda>rows. db_then (user_dtos us) (\<lambda>ds. db_return (to_user_dto u rows # ds))) db"

definition with_http_store :: "(auth_db \<Rightarrow> (http_error + 'a) \<times> auth_db) \<Rightarrow> auth_db \<Rightarrow> (http_error + 'a) \<times> auth_db" where
  "with_http_store m db = (if db_up db then m db else (Inl Unavailable, db))"

definition handle_list_users :: "auth_db \<Rightarrow> (http_error + user_dto list) \<times> auth_db" where
  "handle_list_users = with_http_store (db_then (lift_http_store list_auth_users) user_dtos)"

definition handle_create_user :: "crypto \<Rightarrow> string \<Rightarrow> string \<Rightarrow> create_user_request body \<Rightarrow> auth_db \<Rightarrow>
    (http_error + user_dto) \<times> auth_db" where
  "handle_create_user cr salt new_id body =
     with_http_store (\<lambda>db. case decode body of
         Inl e \<Rightarrow> (Inl e, db)
       | Inr r \<Rightarrow>
           if cu_email r = [] \<or> cu_password r = [] then (Inl (Bad_Request ''email and password required''), db)
           else case valid_grants (cu_grants r) of
             Some e \<Rightarrow> (Inl e, db)
           | None \<Rightarrow>
               (case get_auth_user_by_email (cu_email r) db of
                  (Inr _, db1) \<Rightarrow> (Inl (Conflict ''a user with this email already exists''), db1)
                | (Inl StoreFailed, db1) \<Rightarrow> (Inl (From_Store StoreFailed), db1)
                | (Inl NotFound, db1) \<Rightarrow>
                    (case hash_password cr salt (cu_password r) of
                       None \<Rightarrow> (Inl (Bad_Request ''invalid password''), db1)
                     | Some h \<Rightarrow>
                         let u = \<lparr>us_id = new_id, us_email = cu_email r, us_name = cu_name r, us_hash = h, us_origin = ''local'',
                               us_disabled = False, us_groups = []\<rparr>;
                             rows = to_storage_grants (cu_grants r)
                         in db_then (lift_http_store (save_auth_user u))
                              (\<lambda>_. db_then (lift_http_store (replace_auth_grants new_id rows))
                                (\<lambda>_. db_return (to_user_dto u rows))) db1)))"

definition has_global_admin :: "grant list \<Rightarrow> bool" where
  "has_global_admin gs = list_ex (\<lambda>g. g_scope g = ''*'' \<and> g_role g = role_admin) gs"

definition check_self_lockout :: "identity option \<Rightarrow> auth_user \<Rightarrow> update_user_request \<Rightarrow> http_error option" where
  "check_self_lockout actor u r =
     (case actor of
        None \<Rightarrow> None
      | Some i \<Rightarrow>
          if id_user i \<noteq> us_id u then None
          else if uu_disabled r = Some True then Some (Bad_Request ''cannot disable or de-admin your own account'')
          else if (case uu_grants r of None \<Rightarrow> False | Some gs \<Rightarrow> \<not> has_global_admin gs)
            then Some (Bad_Request ''cannot disable or de-admin your own account'')
          else None)"

text \<open>The password an update asks for; absent and empty both mean unchanged.\<close>

definition new_password :: "update_user_request \<Rightarrow> string option" where
  "new_password r = (case uu_password r of None \<Rightarrow> None | Some p \<Rightarrow> if p = [] then None else Some p)"

text \<open>Everything an update may be refused for before it writes.\<close>

definition refuse_update :: "identity option \<Rightarrow> auth_user \<Rightarrow> update_user_request \<Rightarrow> http_error option" where
  "refuse_update actor u r =
     (case (case uu_grants r of None \<Rightarrow> None | Some gs \<Rightarrow> valid_grants gs) of
        Some e \<Rightarrow> Some e
      | None \<Rightarrow>
          (case check_self_lockout actor u r of
             Some e \<Rightarrow> Some e
           | None \<Rightarrow>
               if new_password r = None then None
               else if us_origin u \<noteq> ''local'' then Some (Bad_Request ''cannot set a password for an SSO user'')
               else if us_id u = demo_viewer_id then Some (Conflict ''the demo account's password is managed by the server'')
               else None))"

definition edit_user :: "auth_user \<Rightarrow> update_user_request \<Rightarrow> string option \<Rightarrow> auth_user" where
  "edit_user u r hash =
     u\<lparr>us_name := (case uu_name r of None \<Rightarrow> us_name u | Some n \<Rightarrow> n),
       us_hash := (case hash of None \<Rightarrow> us_hash u | Some h \<Rightarrow> h),
       us_disabled := (case uu_disabled r of None \<Rightarrow> us_disabled u | Some d \<Rightarrow> d)\<rparr>"

text \<open>The end of an update, once the user row is saved: sessions when the password changed, then
  the grants.\<close>

definition finish_update :: "instant \<Rightarrow> auth_user \<Rightarrow> update_user_request \<Rightarrow> auth_db \<Rightarrow> (http_error + user_dto) \<times> auth_db" where
  "finish_update now u r db =
     (case (if new_password r = None then (Inr (), db) else revoke_auth_sessions_for_user now (us_id u) db) of
        (Inl _, db1) \<Rightarrow> (Inl (Failed_With ''the password was changed, but this user's existing sessions could not be signed out''), db1)
      | (Inr _, db1) \<Rightarrow>
          db_then (lift_http_store (list_auth_grants (us_id u)))
            (\<lambda>rows. case uu_grants r of
               None \<Rightarrow> db_return (to_user_dto u rows)
             | Some gs \<Rightarrow> db_then (lift_http_store (replace_auth_grants (us_id u) (to_storage_grants gs)))
                 (\<lambda>_. db_return (to_user_dto u (to_storage_grants gs)))) db1)"

definition handle_update_user :: "crypto \<Rightarrow> instant \<Rightarrow> string \<Rightarrow> identity option \<Rightarrow> string \<Rightarrow> update_user_request body \<Rightarrow> auth_db \<Rightarrow>
    (http_error + user_dto) \<times> auth_db" where
  "handle_update_user cr now salt actor i body =
     with_http_store (db_then (lift_http_store (get_auth_user i))
       (\<lambda>u db. case decode body of
          Inl e \<Rightarrow> (Inl e, db)
        | Inr r \<Rightarrow>
            (case refuse_update actor u r of
               Some e \<Rightarrow> (Inl e, db)
             | None \<Rightarrow>
                 (case new_password r of
                    None \<Rightarrow> db_then (lift_http_store (save_auth_user (edit_user u r None)))
                      (\<lambda>_. finish_update now (edit_user u r None) r) db
                  | Some p \<Rightarrow>
                      (case hash_password cr salt p of
                         None \<Rightarrow> (Inl (Bad_Request ''invalid password''), db)
                       | Some h \<Rightarrow> db_then (lift_http_store (save_auth_user (edit_user u r (Some h))))
                           (\<lambda>_. finish_update now (edit_user u r (Some h)) r) db)))))"

definition handle_delete_user :: "instant \<Rightarrow> string \<Rightarrow> auth_db \<Rightarrow> (http_error + unit) \<times> auth_db" where
  "handle_delete_user now i =
     with_http_store (db_then (lift_http_store (get_auth_user i))
       (\<lambda>u. if \<not> us_disabled u then db_fail (Conflict ''disable the user before deleting'')
         else if us_id u = demo_viewer_id then db_fail (Conflict ''the demo account is managed by the server'')
         else db_then (lift_http_store (revoke_auth_sessions_for_user now (us_id u)))
           (\<lambda>_. db_then (lift_http_store (replace_auth_grants (us_id u) []))
             (\<lambda>_. lift_http_store (delete_auth_user (us_id u))))))"

section \<open>Personal tokens\<close>

record api_token_dto =
  td_hash :: string
  td_prefix :: string
  td_name :: string
  td_created :: instant
  td_last_used :: "instant option"
  td_expires :: "instant option"

definition when_set :: "instant \<Rightarrow> instant option" where
  "when_set t = (if t = zero_time then None else Some t)"

definition to_api_token_dto :: "string \<times> auth_token \<Rightarrow> api_token_dto" where
  "to_api_token_dto x = (case x of (h, t) \<Rightarrow> \<lparr>td_hash = h, td_prefix = tk_prefix t, td_name = tk_name t,
     td_created = tk_created t, td_last_used = when_set (tk_last_used t), td_expires = when_set (tk_expires t)\<rparr>)"

text \<open>\<open>asked\<close> is the user of the query, empty when the caller asks for its own.\<close>

definition handle_list_api_tokens :: "identity option \<Rightarrow> string \<Rightarrow> auth_db \<Rightarrow> (http_error + api_token_dto list) \<times> auth_db" where
  "handle_list_api_tokens actor asked =
     with_http_store (case actor of
         None \<Rightarrow> db_fail Unauthorized
       | Some i \<Rightarrow>
           if asked \<noteq> [] \<and> \<not> is_admin i then db_fail (Denied NeedsAdmin)
           else db_then (lift_http_store (list_auth_tokens (if asked = [] then id_user i else asked)))
             (\<lambda>ts. db_return (map to_api_token_dto ts)))"

record create_token_request =
  ct_name :: string
  ct_days :: int

definition max_token_name_len :: nat where "max_token_name_len = 200"

definition day :: duration where "day = 24 * 60 * minute"

text \<open>The answer is the raw token and its row.\<close>

definition handle_create_api_token :: "crypto \<Rightarrow> instant \<Rightarrow> string \<Rightarrow> identity option \<Rightarrow> create_token_request body \<Rightarrow> auth_db \<Rightarrow>
    (http_error + string \<times> string \<times> auth_token) \<times> auth_db" where
  "handle_create_api_token cr now rnd actor body =
     with_http_store (case actor of
         None \<Rightarrow> db_fail Unauthorized
       | Some i \<Rightarrow>
           (case decode body of
              Inl e \<Rightarrow> db_fail e
            | Inr r \<Rightarrow>
                let name = trim_space (ct_name r)
                in if name = [] then db_fail (Bad_Request ''name is required'')
                   else if max_token_name_len < length name then db_fail (Bad_Request ''name must be 200 characters or fewer'')
                   else if ct_days r < 0 then db_fail (Bad_Request ''expiresInDays must be zero or positive'')
                   else (case new_api_token cr rnd of (raw, prefix, h) \<Rightarrow>
                     let t = \<lparr>tk_user = id_user i, tk_name = name, tk_prefix = prefix,
                           tk_expires = (if 0 < ct_days r then now + ct_days r * day else zero_time),
                           tk_last_used = zero_time, tk_revoked = False, tk_created = now\<rparr>
                     in db_then (lift_http_store (create_auth_token h t)) (\<lambda>_. db_return (raw, h, t)))))"

definition handle_revoke_api_token :: "instant \<Rightarrow> identity option \<Rightarrow> string \<Rightarrow> auth_db \<Rightarrow> (http_error + unit) \<times> auth_db" where
  "handle_revoke_api_token now actor h =
     with_http_store (case actor of
         None \<Rightarrow> db_fail Unauthorized
       | Some i \<Rightarrow>
           if is_admin i
           then db_then (lift_http_store (get_auth_token_by_hash h))
             (\<lambda>t. lift_http_store (revoke_auth_token now (tk_user t) h))
           else lift_http_store (revoke_auth_token now (id_user i) h))"

section \<open>Signing in over HTTP\<close>

datatype password_change = NoAccount | AtProvider | SharedAccount | SelfService

definition password_change_for :: "identity \<Rightarrow> password_change" where
  "password_change_for i =
     (if id_anonymous i then NoAccount
      else if id_origin i \<noteq> ''local'' then AtProvider
      else if id_user i = demo_viewer_id then SharedAccount
      else SelfService)"

text \<open>What a sign-in answers: the cookie, its age in seconds and the identity.\<close>

record signed_in =
  si_cookie :: string
  si_max_age :: int
  si_identity :: identity

definition whole_seconds :: "duration \<Rightarrow> int" where
  "whole_seconds d = (if 0 \<le> d then d div second else - ((- d) div second))"

definition signed_in_as :: "auth_service \<Rightarrow> string \<Rightarrow> identity \<Rightarrow> signed_in" where
  "signed_in_as sv tok i = \<lparr>si_cookie = tok, si_max_age = whole_seconds (sv_ttl sv), si_identity = i\<rparr>"

text \<open>The error of a login as HTTP tells it; the demo login does not map a refusal, its password
  being the server's.\<close>

definition login_error :: "bool \<Rightarrow> auth_error \<Rightarrow> http_error" where
  "login_error demo e =
     (if e = StoreUnavailable then Unavailable
      else if e = TooManyAttempts then Throttled
      else if e = InvalidCredentials \<and> \<not> demo then Unauthorized
      else From_Auth e)"

definition login_with :: "bool \<Rightarrow> crypto \<Rightarrow> auth_service \<Rightarrow> instant \<Rightarrow> instant \<Rightarrow> string option \<Rightarrow> string \<Rightarrow> string \<Rightarrow> string \<Rightarrow>
    auth_db \<Rightarrow> (http_error + signed_in) \<times> auth_service \<times> auth_db" where
  "login_with demo cr sv check now rnd email pw ip db =
     (case login cr sv check now rnd email pw ip db of
        (Inl e, sv1, db1) \<Rightarrow> (Inl (login_error demo e), sv1, db1)
      | (Inr (tok, i), sv1, db1) \<Rightarrow> (Inr (signed_in_as sv1 tok i), sv1, db1))"

record login_request =
  lr_email :: string
  lr_password :: string

definition handle_login :: "crypto \<Rightarrow> access_config \<Rightarrow> auth_service \<Rightarrow> instant \<Rightarrow> instant \<Rightarrow> string option \<Rightarrow> string \<Rightarrow> request \<Rightarrow>
    login_request body \<Rightarrow> auth_db \<Rightarrow> (http_error + signed_in) \<times> auth_service \<times> auth_db" where
  "handle_login cr cfg sv check now rnd ip rq body db =
     (case check_origin cfg rq of
        Some e \<Rightarrow> (Inl e, sv, db)
      | None \<Rightarrow>
          (case decode body of
             Inl e \<Rightarrow> (Inl e, sv, db)
           | Inr r \<Rightarrow>
               if lr_email r = [] \<or> lr_password r = [] then (Inl (Bad_Request ''email and password required''), sv, db)
               else login_with False cr sv check now rnd (lr_email r) (lr_password r) ip db))"

definition handle_demo_login :: "crypto \<Rightarrow> access_config \<Rightarrow> string \<Rightarrow> string \<Rightarrow> auth_service \<Rightarrow> instant \<Rightarrow> instant \<Rightarrow> string option \<Rightarrow>
    string \<Rightarrow> request \<Rightarrow> auth_db \<Rightarrow> (http_error + signed_in) \<times> auth_service \<times> auth_db" where
  "handle_demo_login cr cfg demo_email demo_pw sv check now rnd ip rq db =
     (case check_origin cfg rq of
        Some e \<Rightarrow> (Inl e, sv, db)
      | None \<Rightarrow> login_with True cr sv check now rnd demo_email demo_pw ip db)"

definition handle_logout :: "crypto \<Rightarrow> instant \<Rightarrow> string option \<Rightarrow> auth_db \<Rightarrow> (http_error + unit) \<times> auth_db" where
  "handle_logout cr now cookie db =
     (case cookie of
        None \<Rightarrow> (Inr (), db)
      | Some c \<Rightarrow>
          if c = [] then (Inr (), db)
          else (case logout cr now c db of
              (Inl e, db1) \<Rightarrow> (Inl (if e = StoreUnavailable then Unavailable else From_Auth e), db1)
            | (Inr _, db1) \<Rightarrow> (Inr (), db1)))"

definition handle_me :: "identity option \<Rightarrow> http_error + identity \<times> password_change" where
  "handle_me i = (case i of None \<Rightarrow> Inl Unauthorized | Some who \<Rightarrow> Inr (who, password_change_for who))"

record change_password_request =
  cq_current :: string
  cq_new :: string

definition change_error :: "auth_error \<Rightarrow> http_error" where
  "change_error e = (case e of
     StoreUnavailable \<Rightarrow> Unavailable
   | TooManyAttempts \<Rightarrow> Throttled
   | ExternalPassword \<Rightarrow> Bad_Request ''your password is managed by the identity provider''
   | DemoUser \<Rightarrow> Denied DemoPassword
   | PasswordUnusable \<Rightarrow> Bad_Request ''that new password cannot be used (passwords are limited to 72 bytes)''
   | InvalidCredentials \<Rightarrow> Bad_Request ''current password is incorrect''
   | RotatedSessionsLive \<Rightarrow> Failed_With ''your password was changed, but other sessions could not be signed out''
   | RotatedButSignedOut \<Rightarrow> Failed_With ''your password was changed, but this session could not be renewed''
   | _ \<Rightarrow> From_Auth e)"

text \<open>The answer also tells whether the cookie the caller holds is cleared.\<close>

definition handle_change_password :: "crypto \<Rightarrow> auth_service \<Rightarrow> instant \<Rightarrow> instant \<Rightarrow> string option \<Rightarrow> string \<Rightarrow>
    (auth_db \<Rightarrow> auth_db) \<Rightarrow> string \<Rightarrow> identity option \<Rightarrow> change_password_request body \<Rightarrow> auth_db \<Rightarrow>
    (http_error + signed_in) \<times> bool \<times> auth_service \<times> auth_db" where
  "handle_change_password cr sv check now rnd salt meanwhile ip actor body db =
     (case actor of
        None \<Rightarrow> (Inl Unauthorized, False, sv, db)
      | Some i \<Rightarrow>
          if id_anonymous i then (Inl Unauthorized, False, sv, db)
          else (case decode body of
              Inl e \<Rightarrow> (Inl e, False, sv, db)
            | Inr r \<Rightarrow>
                if cq_current r = [] \<or> cq_new r = [] then (Inl (Bad_Request ''current and new password required''), False, sv, db)
                else (case change_password cr sv check now rnd salt meanwhile (id_user i) (cq_current r) (cq_new r) ip db of
                    (Inl e, sv1, db1) \<Rightarrow> (Inl (change_error e), e = RotatedButSignedOut, sv1, db1)
                  | (Inr tok, sv1, db1) \<Rightarrow> (Inr (signed_in_as sv1 tok i), False, sv1, db1))))"

record auth_config_response =
  cf_enabled :: bool
  cf_methods :: "string list"
  cf_force_sso :: bool
  cf_demo :: bool

text \<open>\<open>oidc\<close> is the forceSSO setting of the provider that is wired, if one is.\<close>

definition handle_auth_config :: "access_config \<Rightarrow> bool \<Rightarrow> bool option \<Rightarrow> auth_config_response" where
  "handle_auth_config cfg demo oidc =
     (if ac_auth cfg = None then \<lparr>cf_enabled = False, cf_methods = [], cf_force_sso = False, cf_demo = demo\<rparr>
      else case oidc of
        None \<Rightarrow> \<lparr>cf_enabled = True, cf_methods = [''local''], cf_force_sso = False, cf_demo = demo\<rparr>
      | Some force \<Rightarrow> \<lparr>cf_enabled = True, cf_methods = [''local'', ''oidc''], cf_force_sso = force, cf_demo = demo\<rparr>)"

end
