(* ===== verification/UserLaws.thy ===== *)
theory UserLaws
  imports UserAdmin AuthLaws AccessLaws
begin

text \<open>
  User administration keeps an install administrable: every call made by an administrator,
  whichever of its calls to the store fail, leaves that administrator enabled and a global
  administrator; and what a screen is told about a password is what a change would answer.
\<close>

section \<open>Accounts\<close>

text \<open>An enabled account whose identity is a global administrator, stored or by its groups.\<close>

definition admin_of :: "auth_service \<Rightarrow> auth_db \<Rightarrow> identity \<Rightarrow> bool" where
  "admin_of sv db i \<longleftrightarrow> (\<exists>u. map_of (db_users db) (id_user i) = Some u \<and> \<not> us_disabled u \<and> i = identity_of sv db u \<and> is_admin i)"

definition admin_rights :: "auth_service \<Rightarrow> (string \<times> string) list \<Rightarrow> auth_user \<Rightarrow> bool" where
  "admin_rights sv rows u \<longleftrightarrow>
     (''*'', role_admin) \<in> set rows \<or> (\<exists>g\<in>set (mapped_grants sv u). g_scope g = ''*'' \<and> g_role g = role_admin)"

lemma is_admin_identity: "is_admin (identity_of sv db u) \<longleftrightarrow> admin_rights sv (grants_of db (us_id u)) u"
  by (force simp: is_admin_iff identity_of_def admin_rights_def known_grants_def)

lemma admin_rights_edit [simp]: "admin_rights sv rows (edit_user u r h) = admin_rights sv rows u"
  by (simp add: admin_rights_def mapped_grants_def edit_user_def)

text \<open>What a call may do to the accounts of others.\<close>

definition account_of :: "auth_db \<Rightarrow> string \<Rightarrow> auth_user option \<times> (string \<times> string) list" where
  "account_of db i = (map_of (db_users db) i, grants_of db i)"

lemma account_faults [simp]: "account_of (db\<lparr>db_faults := fs\<rparr>) = account_of db" "account_of (db\<lparr>db_up := b\<rparr>) = account_of db"
  by (simp_all add: account_of_def grants_of_def fun_eq_iff)

lemma admin_of_account:
  "admin_of sv db i \<Longrightarrow> \<exists>u. account_of db (id_user i) = (Some u, grants_of db (id_user i)) \<and> us_id u = id_user i \<and> \<not> us_disabled u \<and>
     admin_rights sv (grants_of db (id_user i)) u"
  by (auto simp: admin_of_def account_of_def is_admin_identity) (auto simp: identity_of_def)

lemma account_admin_of:
  assumes "account_of db j = (Some u, rows)" and "us_id u = j" and "\<not> us_disabled u" and "admin_rights sv rows u"
  shows "\<exists>i. id_user i = j \<and> admin_of sv db i"
proof (intro exI conjI)
  show "id_user (identity_of sv db u) = j" using assms(2) by (simp add: identity_of_def)
  then show "admin_of sv db (identity_of sv db u)"
    using assms by (auto simp: admin_of_def account_of_def is_admin_identity)
qed

section \<open>The effect of each call to the store\<close>

lemma lift_http_storeE:
  assumes "lift_http_store m db = (r, db')"
  obtains x where "m db = (Inr x, db')" "r = Inr x" | e where "m db = (Inl e, db')" "r = Inl (From_Store e)"
  using assms by (auto simp: lift_http_store_def split: prod.splits sum.splits)

lemma save_user_account:
  assumes "save_auth_user u db = (r, db')"
  shows "j \<noteq> us_id u \<Longrightarrow> account_of db' j = account_of db j"
    and "account_of db' (us_id u) = account_of db (us_id u) \<or> account_of db' (us_id u) = (Some u, grants_of db (us_id u))"
  using assms unfolding save_auth_user_def by (auto elim!: db_execE simp: account_of_def grants_of_def)

lemma list_grants_account: "list_auth_grants i db = (r, db') \<Longrightarrow> account_of db' = account_of db"
  unfolding list_auth_grants_def by (auto elim: db_queryE)

lemma replace_grants_account:
  assumes "replace_auth_grants i rows db = (r, db')"
  shows "j \<noteq> i \<Longrightarrow> account_of db' j = account_of db j"
    and "account_of db' i = account_of db i \<or>
      account_of db' i = (map_of (db_users db) i, fold (\<lambda>(sc, r). AList.update sc r) rows [])"
proof -
  have "(\<forall>j. j \<noteq> i \<longrightarrow> account_of db' j = account_of db j) \<and> (account_of db' i = account_of db i \<or>
      account_of db' i = (map_of (db_users db) i, fold (\<lambda>(sc, r). AList.update sc r) rows []))"
    using assms unfolding replace_auth_grants_def list_auth_grants_def
    by (elim db_thenE db_queryE) (auto simp: db_return_def account_of_def grants_of_def elim!: db_execE split: if_splits)
  then show "j \<noteq> i \<Longrightarrow> account_of db' j = account_of db j"
    and "account_of db' i = account_of db i \<or>
      account_of db' i = (map_of (db_users db) i, fold (\<lambda>(sc, r). AList.update sc r) rows [])" by blast+
qed

lemma revoke_sessions_account: "revoke_auth_sessions_for_user now i db = (r, db') \<Longrightarrow> account_of db' = account_of db"
  unfolding revoke_auth_sessions_for_user_def
  by (elim db_thenE db_queryE) (auto simp: db_return_def account_of_def grants_of_def fun_eq_iff elim!: db_execE split: if_splits)

lemma delete_user_account: "delete_auth_user i db = (r, db') \<Longrightarrow> j \<noteq> i \<Longrightarrow> account_of db' j = account_of db j"
  unfolding delete_auth_user_def
  by (elim db_thenE db_queryE) (auto simp: db_fail_def account_of_def grants_of_def elim!: db_execE split: if_splits)

lemma get_user_account:
  assumes "get_auth_user i db = (r, db')"
  shows "account_of db' = account_of db" and "r = Inr u \<Longrightarrow> map_of (db_users db) i = Some u"
  using assms unfolding get_auth_user_def by (auto elim!: db_queryE simp: found_def split: option.splits)

text \<open>A valid grant set that names the global admin still does once it is stored.\<close>

lemma map_of_fold_rows: "map_of (fold (\<lambda>(sc, r). AList.update sc r) rows m) = map_of m ++ map_of (rev rows)"
proof (induction rows arbitrary: m)
  case (Cons x rows)
  then show ?case by (cases x) (simp add: update_conv' map_add_def fun_eq_iff split: option.split)
qed simp

lemma valid_grants_distinct: "valid_grants_from seen gs = None \<Longrightarrow> distinct (map g_scope gs) \<and> set (map g_scope gs) \<inter> set seen = {}"
  by (induction seen gs rule: valid_grants_from.induct) (auto split: if_splits)

lemma stored_admin:
  assumes "valid_grants gs = None" and "has_global_admin gs"
  shows "(''*'', role_admin) \<in> set (fold (\<lambda>(sc, r). AList.update sc r) (to_storage_grants gs) [])"
proof -
  have "distinct (map fst (to_storage_grants gs))"
    using valid_grants_distinct [of "[]" gs] assms(1) by (simp add: valid_grants_def to_storage_grants_def comp_def)
  moreover have "(''*'', role_admin) \<in> set (to_storage_grants gs)"
    using assms(2) by (force simp: has_global_admin_def list_ex_iff to_storage_grants_def)
  ultimately have "map_of (rev (to_storage_grants gs)) ''*'' = Some role_admin" by (simp add: rev_map [symmetric])
  then show ?thesis by (intro map_of_SomeD) (simp add: map_of_fold_rows)
qed

section \<open>The effect of each handler\<close>

definition ids_ok :: "auth_db \<Rightarrow> bool" where
  "ids_ok db \<longleftrightarrow> (\<forall>i u. fst (account_of db i) = Some u \<longrightarrow> us_id u = i)"

text \<open>A change that leaves every account but one alone.\<close>

definition only_touches :: "string \<Rightarrow> auth_db \<Rightarrow> auth_db \<Rightarrow> bool" where
  "only_touches i db db' \<longleftrightarrow> (\<forall>j. j \<noteq> i \<longrightarrow> account_of db' j = account_of db j) \<and>
     (\<forall>u. fst (account_of db' i) = Some u \<longrightarrow> us_id u = i \<or> fst (account_of db i) = Some u)"

lemma only_touches_same: "account_of db' = account_of db \<Longrightarrow> only_touches i db db'"
  by (simp add: only_touches_def)

lemma only_touches_trans: "only_touches i db db1 \<Longrightarrow> only_touches i db1 db2 \<Longrightarrow> only_touches i db db2"
  by (auto simp: only_touches_def)

lemma only_touches_ids: "only_touches i db db' \<Longrightarrow> ids_ok db \<Longrightarrow> ids_ok db'"
  unfolding only_touches_def ids_ok_def by metis

lemma only_touches_start: "only_touches i (db\<lparr>db_up := b, db_faults := fs\<rparr>) db' = only_touches i db db'"
  by (simp add: only_touches_def)

lemma save_user_touches: "save_auth_user u db = (r, db') \<Longrightarrow> only_touches (us_id u) db db'"
  using save_user_account [of u db r db'] unfolding only_touches_def by (metis fst_conv option.inject)

lemma replace_grants_touches: "replace_auth_grants i rows db = (r, db') \<Longrightarrow> only_touches i db db'"
  using replace_grants_account [of i rows db r db'] unfolding only_touches_def by (metis account_of_def fst_conv)

lemma delete_user_touches: "delete_auth_user i db = (r, db') \<Longrightarrow> only_touches i db db'"
proof -
  assume run: "delete_auth_user i db = (r, db')"
  have "fst (account_of db' i) = fst (account_of db i) \<or> fst (account_of db' i) = None"
    using run unfolding delete_auth_user_def
    by (elim db_thenE db_queryE) (auto simp: db_fail_def account_of_def delete_conv' elim!: db_execE split: if_splits)
  then show ?thesis using delete_user_account [OF run] by (auto simp: only_touches_def)
qed

lemma email_account: "get_auth_user_by_email e db = (r, db') \<Longrightarrow> account_of db' = account_of db"
  unfolding get_auth_user_by_email_def by (auto elim: db_queryE)

lemma create_touches:
  assumes "handle_create_user cr salt new_id body db = (r, db')"
  shows "only_touches new_id db db'"
proof (cases "account_of db' = account_of db")
  case False
  have up: "db_up db" using assms False by (auto simp: handle_create_user_def with_http_store_def split: if_splits)
  with assms False obtain q where q: "decode body = Inr q" "\<not> (cu_email q = [] \<or> cu_password q = [])" "valid_grants (cu_grants q) = None"
    by (auto simp: handle_create_user_def with_http_store_def split: sum.splits if_splits option.splits)
  obtain re db1 where re: "get_auth_user_by_email (cu_email q) db = (re, db1)" by fastforce
  have same: "account_of db1 = account_of db" by (rule email_account [OF re])
  from assms up q re False same obtain h where h: "hash_password cr salt (cu_password q) = Some h"
    and run: "db_then (lift_http_store (save_auth_user \<lparr>us_id = new_id, us_email = cu_email q, us_name = cu_name q, us_hash = h,
        us_origin = ''local'', us_disabled = False, us_groups = []\<rparr>))
      (\<lambda>_. db_then (lift_http_store (replace_auth_grants new_id (to_storage_grants (cu_grants q))))
        (\<lambda>_. db_return (to_user_dto \<lparr>us_id = new_id, us_email = cu_email q, us_name = cu_name q, us_hash = h,
          us_origin = ''local'', us_disabled = False, us_groups = []\<rparr> (to_storage_grants (cu_grants q))))) db1 = (r, db')"
    by (auto simp: handle_create_user_def with_http_store_def Let_def split: sum.splits if_splits option.splits store_error.splits)
  have "only_touches new_id db1 db'" using run
    by (elim db_thenE lift_http_storeE)
      (auto simp: db_return_def dest!: save_user_touches replace_grants_touches intro: only_touches_trans)
  then show ?thesis using same by (simp add: only_touches_def)
qed (rule only_touches_same)

lemma delete_touches:
  assumes "handle_delete_user now i db = (r, db')" and "ids_ok db"
  shows "only_touches i db db' \<and> ((\<exists>u. fst (account_of db i) = Some u \<and> \<not> us_disabled u) \<longrightarrow> account_of db' = account_of db)"
proof (cases "db_up db")
  case False
  with assms(1) show ?thesis by (simp add: handle_delete_user_def with_http_store_def only_touches_same)
next
  case True
  obtain ru db1 where ru: "get_auth_user i db = (ru, db1)" by fastforce
  have same: "account_of db1 = account_of db" by (rule get_user_account(1) [OF ru])
  show ?thesis
  proof (cases ru)
    case (Inl e)
    with assms(1) ru True have "db' = db1" by (simp add: handle_delete_user_def with_http_store_def db_then_def lift_http_store_def)
    with same show ?thesis by (simp add: only_touches_same)
  next
    case (Inr u)
    have row: "map_of (db_users db) i = Some u" using get_user_account(2) [OF ru Inr] .
    then have id: "us_id u = i" using assms(2) by (simp add: ids_ok_def account_of_def)
    have run: "(if \<not> us_disabled u then db_fail (Conflict ''disable the user before deleting'')
         else if us_id u = demo_viewer_id then db_fail (Conflict ''the demo account is managed by the server'')
         else db_then (lift_http_store (revoke_auth_sessions_for_user now (us_id u)))
           (\<lambda>_. db_then (lift_http_store (replace_auth_grants (us_id u) []))
             (\<lambda>_. lift_http_store (delete_auth_user (us_id u))))) db1 = (r, db')"
      using assms(1) ru True Inr by (simp add: handle_delete_user_def with_http_store_def db_then_def lift_http_store_def)
    show ?thesis
    proof (cases "us_disabled u \<and> us_id u \<noteq> demo_viewer_id")
      case False
      with run have "db' = db1" by (auto simp: db_fail_def split: if_splits)
      with same show ?thesis by (simp add: only_touches_same)
    next
      case dis: True
      with run have del: "db_then (lift_http_store (revoke_auth_sessions_for_user now i))
           (\<lambda>_. db_then (lift_http_store (replace_auth_grants i [])) (\<lambda>_. lift_http_store (delete_auth_user i))) db1 = (r, db')"
        by (simp add: id)
      have "only_touches i db1 db'" using del
        by (elim db_thenE lift_http_storeE)
          (auto dest!: revoke_sessions_account replace_grants_touches delete_user_touches
            intro: only_touches_trans only_touches_same simp: only_touches_def)
      then have "only_touches i db db'" using same by (simp add: only_touches_def)
      moreover have "\<not> (\<exists>u. fst (account_of db i) = Some u \<and> \<not> us_disabled u)" using row dis by (simp add: account_of_def)
      ultimately show ?thesis by blast
    qed
  qed
qed

text \<open>An update touches the account it names, and leaves it the row it saved (or the one there
  was) with the grants there were or those asked for.\<close>

lemma finish_update_account:
  assumes "finish_update now u r db = (res, db')"
  shows "only_touches (us_id u) db db' \<and> fst (account_of db' (us_id u)) = fst (account_of db (us_id u)) \<and>
    (snd (account_of db' (us_id u)) = snd (account_of db (us_id u)) \<or>
     (\<exists>gs. uu_grants r = Some gs \<and>
       snd (account_of db' (us_id u)) = fold (\<lambda>(sc, r). AList.update sc r) (to_storage_grants gs) []))"
proof -
  obtain rs db1 where rs: "(if new_password r = None then (Inr (), db) else revoke_auth_sessions_for_user now (us_id u) db) = (rs, db1)"
    by fastforce
  then have same: "account_of db1 = account_of db" by (auto dest: revoke_sessions_account split: if_splits)
  show ?thesis
  proof (cases rs)
    case (Inl e)
    with assms rs have "db' = db1" by (simp add: finish_update_def)
    with same show ?thesis by (simp add: only_touches_same)
  next
    case (Inr x)
    obtain rl db2 where rl: "list_auth_grants (us_id u) db1 = (rl, db2)" by fastforce
    have same2: "account_of db2 = account_of db" using list_grants_account [OF rl] same by simp
    from assms rs Inr rl have "db' = db2 \<or> (\<exists>gs. uu_grants r = Some gs \<and>
        (\<exists>rr. replace_auth_grants (us_id u) (to_storage_grants gs) db2 = (rr, db')))"
      by (cases rl; cases "uu_grants r")
        (auto simp: finish_update_def db_then_def lift_http_store_def db_return_def split: prod.splits sum.splits)
    then show ?thesis
    proof (elim disjE exE conjE)
      fix gs rr
      assume gs: "uu_grants r = Some gs" and run: "replace_auth_grants (us_id u) (to_storage_grants gs) db2 = (rr, db')"
      have "only_touches (us_id u) db2 db'" by (rule replace_grants_touches [OF run])
      then have "only_touches (us_id u) db db'" using same2 by (simp add: only_touches_def)
      with replace_grants_account(2) [OF run] gs same2 show ?thesis by (auto simp: account_of_def fun_eq_iff)
    qed (use same2 in \<open>simp add: only_touches_same\<close>)
  qed
qed

lemma update_account:
  assumes "handle_update_user cr now salt actor i body db = (res, db')" and "ids_ok db"
  shows "account_of db' = account_of db \<or>
    (\<exists>u r h. fst (account_of db i) = Some u \<and> us_id u = i \<and> refuse_update actor u r = None \<and> only_touches i db db' \<and>
      (fst (account_of db' i) = Some u \<or> fst (account_of db' i) = Some (edit_user u r h)) \<and>
      (snd (account_of db' i) = snd (account_of db i) \<or>
       (\<exists>gs. uu_grants r = Some gs \<and> snd (account_of db' i) = fold (\<lambda>(sc, r). AList.update sc r) (to_storage_grants gs) [])))"
proof (cases "account_of db' = account_of db")
  case False
  have up: "db_up db" using assms False by (auto simp: handle_update_user_def with_http_store_def split: if_splits)
  obtain ru db1 where ru: "get_auth_user i db = (ru, db1)" by fastforce
  have same: "account_of db1 = account_of db" by (rule get_user_account(1) [OF ru])
  from assms(1) up ru False same obtain u where u: "ru = Inr u"
    by (cases ru) (auto simp: handle_update_user_def with_http_store_def db_then_def lift_http_store_def)
  have row: "fst (account_of db i) = Some u" using get_user_account(2) [OF ru u] by (simp add: account_of_def)
  then have id: "us_id u = i" using assms(2) by (simp add: ids_ok_def)
  from assms(1) up ru u False same obtain r h where r: "refuse_update actor u r = None"
    and run: "db_then (lift_http_store (save_auth_user (edit_user u r h))) (\<lambda>_. finish_update now (edit_user u r h) r) db1 = (res, db')"
    by (auto simp: handle_update_user_def with_http_store_def db_then_def lift_http_store_def
        split: sum.splits option.splits)
  let ?v = "edit_user u r h"
  have idv: "us_id ?v = i" using id by (simp add: edit_user_def)
  obtain rs db2 where rs: "save_auth_user ?v db1 = (rs, db2)" by fastforce
  have t1: "only_touches i db db2" using save_user_touches [OF rs] same idv by (simp add: only_touches_def)
  have a1: "fst (account_of db2 i) = Some u \<or> fst (account_of db2 i) = Some ?v" "snd (account_of db2 i) = snd (account_of db i)"
    using save_user_account(2) [OF rs] idv same row by (auto simp: account_of_def fun_eq_iff)
  show ?thesis
  proof (cases rs)
    case (Inl e)
    with run rs have "db' = db2" by (simp add: db_then_def lift_http_store_def)
    with t1 a1 row id r show ?thesis by blast
  next
    case (Inr x)
    with run rs have fin: "finish_update now ?v r db2 = (res, db')" by (simp add: db_then_def lift_http_store_def)
    from finish_update_account [OF fin] idv have f: "only_touches i db2 db'" "fst (account_of db' i) = fst (account_of db2 i)"
      "snd (account_of db' i) = snd (account_of db2 i) \<or>
       (\<exists>gs. uu_grants r = Some gs \<and> snd (account_of db' i) = fold (\<lambda>(sc, r). AList.update sc r) (to_storage_grants gs) [])" by simp_all
    have "only_touches i db db'" by (rule only_touches_trans [OF t1 f(1)])
    with f(2,3) a1 row id r show ?thesis by (intro disjI2 exI [of _ u] exI [of _ r] exI [of _ h]) auto
  qed
qed simp

section \<open>No lockout\<close>

inductive admin_step :: "crypto \<Rightarrow> auth_service \<Rightarrow> auth_db \<Rightarrow> auth_db \<Rightarrow> bool" for cr sv where
  creates: "admin_of sv db i \<Longrightarrow> map_of (db_users db) new_id = None \<Longrightarrow>
    handle_create_user cr salt new_id cbody (db\<lparr>db_up := up, db_faults := fs\<rparr>) = (r, db') \<Longrightarrow> admin_step cr sv db db'"
| updates: "admin_of sv db i \<Longrightarrow>
    handle_update_user cr now salt (Some i) target ubody (db\<lparr>db_up := up, db_faults := fs\<rparr>) = (r, db') \<Longrightarrow> admin_step cr sv db db'"
| deletes: "admin_of sv db i \<Longrightarrow>
    handle_delete_user now target (db\<lparr>db_up := up, db_faults := fs\<rparr>) = (r', db') \<Longrightarrow> admin_step cr sv db db'"

definition administrable :: "auth_service \<Rightarrow> auth_db \<Rightarrow> bool" where
  "administrable sv db \<longleftrightarrow> ids_ok db \<and> (\<exists>i. admin_of sv db i)"

lemma kept_admin:
  assumes "admin_of sv db i" and "account_of db' (id_user i) = account_of db (id_user i)"
  shows "\<exists>j. admin_of sv db' j"
proof -
  obtain u where u: "account_of db (id_user i) = (Some u, grants_of db (id_user i))" "us_id u = id_user i" "\<not> us_disabled u"
    "admin_rights sv (grants_of db (id_user i)) u" using admin_of_account [OF assms(1)] by blast
  show ?thesis using account_admin_of [OF trans [OF assms(2) u(1)] u(2-4)] by blast
qed

lemma ids_ok_start [simp]: "ids_ok (db\<lparr>db_up := b, db_faults := fs\<rparr>) = ids_ok db"
  by (simp add: ids_ok_def)

lemma admin_step_keeps:
  assumes "admin_step cr sv db db'" and "ids_ok db"
  shows "administrable sv db'"
  using assms(1)
proof cases
  case (creates i new_id salt cbody up fs r)
  have t: "only_touches new_id db db'" using create_touches [OF creates(3)] by (simp add: only_touches_start)
  have "id_user i \<noteq> new_id" using creates(1,2) by (auto simp: admin_of_def)
  then have "account_of db' (id_user i) = account_of db (id_user i)" using t by (simp add: only_touches_def)
  then show ?thesis using kept_admin [OF creates(1)] only_touches_ids [OF t assms(2)] by (simp add: administrable_def)
next
  case (updates i now salt target ubody up fs r)
  obtain w where w: "account_of db (id_user i) = (Some w, grants_of db (id_user i))" "us_id w = id_user i" "\<not> us_disabled w"
    "admin_rights sv (grants_of db (id_user i)) w" using admin_of_account [OF updates(1)] by blast
  from update_account [OF updates(2)] assms(2)
  consider "account_of db' = account_of db"
    | u q h where "fst (account_of db target) = Some u" "us_id u = target" "refuse_update (Some i) u q = None" "only_touches target db db'"
      "fst (account_of db' target) = Some u \<or> fst (account_of db' target) = Some (edit_user u q h)"
      "snd (account_of db' target) = snd (account_of db target) \<or>
       (\<exists>gs. uu_grants q = Some gs \<and> snd (account_of db' target) = fold (\<lambda>(sc, r). AList.update sc r) (to_storage_grants gs) [])"
    by (auto simp: only_touches_start)
  then show ?thesis
  proof cases
    case 1
    then have "account_of db' (id_user i) = account_of db (id_user i)" by simp
    with kept_admin [OF updates(1)] only_touches_ids [OF only_touches_same [OF 1] assms(2)] show ?thesis by (simp add: administrable_def)
  next
    case 2
    have ids: "ids_ok db'" by (rule only_touches_ids [OF 2(4) assms(2)])
    show ?thesis
    proof (cases "target = id_user i")
      case False
      then have "account_of db' (id_user i) = account_of db (id_user i)" using 2(4) by (simp add: only_touches_def)
      with kept_admin [OF updates(1)] ids show ?thesis by (simp add: administrable_def)
    next
      case self: True
      have u: "u = w" using 2(1) w(1) self by simp
      have safe: "uu_disabled q \<noteq> Some True" "\<And>gs. uu_grants q = Some gs \<Longrightarrow> valid_grants gs = None \<and> has_global_admin gs"
        using 2(3) self 2(2) by (auto simp: refuse_update_def check_self_lockout_def split: option.splits if_splits)
      obtain v where v: "fst (account_of db' target) = Some v" "v = u \<or> v = edit_user u q h" using 2(5) by auto
      have v_ok: "us_id v = id_user i" "\<not> us_disabled v"
        using v(2) u w(2,3) safe(1) by (auto simp: edit_user_def split: option.splits)
      have rights: "admin_rights sv rows v = admin_rights sv rows w" for rows
        using v(2) u by auto
      have "admin_rights sv (snd (account_of db' target)) w"
        using 2(6)
      proof
        assume "snd (account_of db' target) = snd (account_of db target)"
        with w(1,4) self show ?thesis by simp
      next
        assume "\<exists>gs. uu_grants q = Some gs \<and> snd (account_of db' target) = fold (\<lambda>(sc, r). AList.update sc r) (to_storage_grants gs) []"
        then show ?thesis using safe(2) stored_admin by (auto simp: admin_rights_def)
      qed
      with v(1) v_ok rights self have "\<exists>j. id_user j = id_user i \<and> admin_of sv db' j"
        by (intro account_admin_of [of db' "id_user i" v "snd (account_of db' target)"]) (simp_all add: prod_eq_iff)
      with ids show ?thesis by (auto simp: administrable_def)
    qed
  qed
next
  case (deletes i now target up fs r')
  from delete_touches [OF deletes(2)] assms(2) have t: "only_touches target db db'"
    "(\<exists>u. fst (account_of db target) = Some u \<and> \<not> us_disabled u) \<longrightarrow> account_of db' = account_of db" by (simp_all add: only_touches_start)
  obtain w where w: "account_of db (id_user i) = (Some w, grants_of db (id_user i))" "\<not> us_disabled w"
    using admin_of_account [OF deletes(1)] by blast
  have "account_of db' (id_user i) = account_of db (id_user i)"
  proof (cases "target = id_user i")
    case True
    with t(2) w show ?thesis by simp
  next
    case False
    with t(1) show ?thesis by (simp add: only_touches_def)
  qed
  then show ?thesis using kept_admin [OF deletes(1)] only_touches_ids [OF t(1) assms(2)] by (simp add: administrable_def)
qed

text \<open>C7. An install is never locked out of its own administration: over any sequence of creations,
  updates and deletions of users, each made by an account that is an enabled global
  administrator at that moment, under any calls to the store that fail and so after any
  half-done update, some enabled account is still a global administrator. New ids are fresh.\<close>

theorem never_locked_out:
  assumes "(admin_step cr sv)\<^sup>*\<^sup>* db db'" and "administrable sv db"
  shows "administrable sv db'"
  using assms by (induction rule: rtranclp_induct) (auto simp: administrable_def dest: admin_step_keeps)

text \<open>The sample user as administrator, who creates another account.\<close>

definition admin_db :: auth_db where
  "admin_db = sample_db\<lparr>db_grants := [(''u1'', [(''*'', role_admin)])]\<rparr>"

definition new_user_body :: "create_user_request body" where
  "new_user_body = Body \<lparr>cu_email = ''bob'', cu_name = ''Bob'', cu_password = ''pw'', cu_grants = []\<rparr>"

lemma admin_db_admin: "administrable (new_service minute) admin_db" "admin_of (new_service minute) admin_db (identity_of (new_service minute) admin_db sample_user)"
proof -
  have row: "map_of (db_users admin_db) ''u1'' = Some sample_user" "us_id sample_user = ''u1''" "\<not> us_disabled sample_user"
    by (simp_all add: admin_db_def sample_db_def sample_user_def)
  have adm: "is_admin (identity_of (new_service minute) admin_db sample_user)"
    unfolding is_admin_identity row(2) by (simp add: admin_rights_def grants_of_def admin_db_def)
  show adm_of: "admin_of (new_service minute) admin_db (identity_of (new_service minute) admin_db sample_user)"
    using row adm by (simp add: admin_of_def identity_of_def)
  have "ids_ok admin_db" by (simp add: ids_ok_def account_of_def admin_db_def sample_db_def sample_user_def)
  with adm_of show "administrable (new_service minute) admin_db" by (auto simp: administrable_def)
qed

theorem never_locked_out_witness:
  "administrable (new_service minute) (snd (handle_create_user toy_crypto [] ''u2'' new_user_body (admin_db\<lparr>db_up := True, db_faults := [False, False, True]\<rparr>)))"
proof -
  have fresh: "map_of (db_users admin_db) ''u2'' = None" by (simp add: admin_db_def sample_db_def)
  obtain r db' where run: "handle_create_user toy_crypto [] ''u2'' new_user_body (admin_db\<lparr>db_up := True, db_faults := [False, False, True]\<rparr>) = (r, db')"
    by fastforce
  have "admin_step toy_crypto (new_service minute) admin_db db'"
    by (rule admin_step.creates [OF admin_db_admin(2) fresh run])
  then have "(admin_step toy_crypto (new_service minute))\<^sup>*\<^sup>* admin_db db'" by (rule r_into_rtranclp)
  from never_locked_out [OF this admin_db_admin(1)] run show ?thesis by simp
qed

end
