(* ===== verification/InstallModules.thy ===== *)
theory InstallModules
  imports Prelude
begin

text \<open>
  The module registry (hub/internal/modules/modules.go): the names, a set of active modules and
  the parser of the comma-separated list an install is configured with. A parsed set is closed
  under the dependencies and prints back to a list that parses to itself.
\<close>

type_synonym module_set = "string set"

definition core :: string where "core = ''core''"

definition infra_metrics :: string where "infra_metrics = ''infra-metrics''"

definition mesh :: string where "mesh = ''mesh''"

definition mesh_config :: string where "mesh_config = ''mesh-config''"

definition green_module :: string where "green_module = ''green''"

definition cost_module :: string where "cost_module = ''cost''"

text \<open>Registry order.\<close>

definition all_modules :: "string list" where
  "all_modules = [core, ''logs'', infra_metrics, ''profiling'', ''error-tracking'', ''service-health'', ''alerting'',
     mesh, mesh_config, green_module, cost_module, ''ai'', ''mcp'']"

lemmas module_defs = core_def infra_metrics_def mesh_def mesh_config_def green_module_def cost_module_def

definition module_names :: "module_set \<Rightarrow> string list" where
  "module_names s = filter (\<lambda>m. m \<in> s) all_modules"

definition all_set :: module_set where "all_set = set all_modules"

datatype module_error = UnknownModule string | Requires string string

fun add_modules :: "module_set \<Rightarrow> string list \<Rightarrow> module_error + module_set" where
  "add_modules s [] = Inr s"
| "add_modules s (part # parts) =
     (let m = trim_space part
      in if m = [] then add_modules s parts
         else if m \<notin> set all_modules then Inl (UnknownModule m)
         else add_modules (insert m s) parts)"

definition parse_modules :: "string \<Rightarrow> module_error + module_set" where
  "parse_modules v =
     (if trim_space v = [] then Inr all_set
      else case add_modules {core} (split_on (CHR '','') v) of
        Inl e \<Rightarrow> Inl e
      | Inr s \<Rightarrow>
          (case find (\<lambda>m. m \<in> s \<and> infra_metrics \<notin> s) [green_module, cost_module] of
             Some m \<Rightarrow> Inl (Requires m infra_metrics)
           | None \<Rightarrow>
               if mesh_config \<in> s \<and> mesh \<notin> s then Inl (Requires mesh_config mesh) else Inr s))"

text \<open>A set an install can run.\<close>

definition module_set_ok :: "module_set \<Rightarrow> bool" where
  "module_set_ok s \<longleftrightarrow> core \<in> s \<and> s \<subseteq> set all_modules \<and>
     (green_module \<in> s \<or> cost_module \<in> s \<longrightarrow> infra_metrics \<in> s) \<and> (mesh_config \<in> s \<longrightarrow> mesh \<in> s)"

lemma module_words: "\<forall>m\<in>set all_modules. trim_space m = m \<and> m \<noteq> [] \<and> CHR '','' \<notin> set m"
  by code_simp

lemma all_set_ok: "module_set_ok all_set"
  by (simp add: module_set_ok_def all_set_def all_modules_def)

lemma add_modules_ok: "add_modules s ps = Inr t \<Longrightarrow> s \<subseteq> set all_modules \<Longrightarrow> s \<subseteq> t \<and> t \<subseteq> set all_modules"
proof (induction s ps arbitrary: t rule: add_modules.induct)
  case (2 s part parts)
  obtain m where m: "trim_space part = m" by simp
  have step: "add_modules s (part # parts) = (if m = [] then add_modules s parts
      else if m \<notin> set all_modules then Inl (UnknownModule m) else add_modules (insert m s) parts)"
    unfolding add_modules.simps m Let_def ..
  show ?case
  proof (cases "m = []")
    case True
    have "add_modules s parts = Inr t" using "2.prems"(1) True unfolding step by simp
    from "2.IH"(1) [OF m [symmetric] True this] "2.prems"(2) show ?thesis .
  next
    case False
    with "2.prems"(1) have known: "m \<in> set all_modules" unfolding step by (auto split: if_splits)
    have "add_modules (insert m s) parts = Inr t" using "2.prems"(1) False known unfolding step by simp
    with "2.IH"(2) [OF m [symmetric] False] known "2.prems"(2) show ?thesis by simp
  qed
qed simp

lemma add_modules_known: "set ms \<subseteq> set all_modules \<Longrightarrow> add_modules s ms = Inr (s \<union> set ms)"
proof (induction ms arbitrary: s)
  case (Cons m ms)
  then have "m \<in> set all_modules" by simp
  with module_words have "trim_space m = m" "m \<noteq> []" by blast+
  with Cons show ?case by simp
qed simp

lemma module_names_set: "s \<subseteq> set all_modules \<Longrightarrow> set (module_names s) = s"
  by (auto simp: module_names_def)

text \<open>Trimming removes nothing but bytes of white space, so a string with any other byte is not
  blank.\<close>

lemma space_at_bytes: "c \<in> set s \<Longrightarrow> c \<notin> set (concat space_encodings) \<Longrightarrow> c \<in> set (drop (space_at s) s)"
proof -
  assume c: "c \<in> set s" "c \<notin> set (concat space_encodings)"
  show ?thesis
  proof (cases "find (\<lambda>e. has_prefix e s) space_encodings")
    case (Some e)
    then have "e \<in> set space_encodings" "has_prefix e s" by (auto simp: find_Some_iff)
    moreover then obtain r where "s = e @ r" by (auto simp: has_prefix_iff)
    ultimately show ?thesis using c Some by (auto simp: space_at_def)
  qed (simp add: space_at_def c)
qed

lemma space_end_bytes: "c \<in> set s \<Longrightarrow> c \<notin> set (concat space_encodings) \<Longrightarrow> c \<in> set (take (length s - space_end s) s)"
proof -
  assume c: "c \<in> set s" "c \<notin> set (concat space_encodings)"
  show ?thesis
  proof (cases "find (\<lambda>e. has_suffix e s) space_encodings")
    case (Some e)
    then have "e \<in> set space_encodings" "has_suffix e s" by (auto simp: find_Some_iff)
    moreover then obtain r where "s = r @ e" by (auto simp: has_suffix_iff)
    ultimately show ?thesis using c Some by (auto simp: space_end_def)
  qed (simp add: space_end_def c)
qed

lemma trim_left_bytes: "c \<notin> set (concat space_encodings) \<Longrightarrow> c \<in> set s \<Longrightarrow> c \<in> set (trim_left s)"
  by (induction s rule: trim_left.induct) (metis space_at_bytes trim_left.simps)

lemma trim_right_bytes: "c \<notin> set (concat space_encodings) \<Longrightarrow> c \<in> set s \<Longrightarrow> c \<in> set (trim_right s)"
  by (induction s rule: trim_right.induct) (metis space_end_bytes trim_right.simps)

lemma trim_space_bytes: "c \<notin> set (concat space_encodings) \<Longrightarrow> c \<in> set s \<Longrightarrow> trim_space s \<noteq> []"
  using trim_right_bytes [OF _ trim_left_bytes] by (fastforce simp: trim_space_def)

lemma parse_modules_ok:
  assumes "parse_modules v = Inr s"
  shows "module_set_ok s"
proof (cases "trim_space v = []")
  case True
  with assms show ?thesis by (simp add: parse_modules_def all_set_ok)
next
  case False
  obtain t where t: "add_modules {core} (split_on (CHR '','') v) = Inr t"
    using assms False by (auto simp: parse_modules_def split: sum.splits)
  have "core \<in> t" "t \<subseteq> set all_modules"
    using add_modules_ok [OF t] by (simp_all add: all_modules_def)
  with assms False t show ?thesis
    by (auto simp: parse_modules_def module_set_ok_def split: if_splits)
qed

lemma parse_module_names:
  assumes ok: "module_set_ok s"
  shows "parse_modules (join_with '','' (module_names s)) = Inr s"
proof -
  have names: "set (module_names s) = s" and core: "core \<in> s" and known: "s \<subseteq> set all_modules"
    using ok by (auto simp: module_set_ok_def module_names_def)
  define v where "v = join_with '','' (module_names s)"
  have "\<exists>ws. module_names s = core # ws"
    using core by (simp add: module_names_def all_modules_def)
  then obtain ws where first: "module_names s = core # ws" by blast
  have "CHR ''c'' \<in> set v"
    using first by (cases ws) (auto simp: v_def core_def)
  moreover have "CHR ''c'' \<notin> set (concat space_encodings)" by code_simp
  ultimately have shown: "trim_space v \<noteq> []" using trim_space_bytes by blast
  have "\<forall>m\<in>set (module_names s). CHR '','' \<notin> set m"
    using module_words names known by blast
  then have words: "split_on (CHR '','') v = module_names s"
    unfolding v_def using first by (intro split_on_join) auto
  have "add_modules {core} (module_names s) = Inr s"
    using add_modules_known [of "module_names s" "{core}"] names known core by (simp add: insert_absorb)
  with ok shown words show ?thesis
    unfolding v_def by (auto simp: parse_modules_def module_set_ok_def)
qed

text \<open>C39. The module list an install runs is well formed and prints back to itself: whenever \<open>Parse\<close>
  accepts a configured list, the resolved set contains the core module and only registered ones,
  holds infra-metrics with green or cost and mesh with mesh-config, and the comma-separated list of
  its names in registry order (what the capabilities and the migrations read) is accepted and
  resolves to the same set.\<close>

theorem modules_round_trip:
  assumes "parse_modules v = Inr s"
  shows "module_set_ok s \<and> parse_modules (join_with '','' (module_names s)) = Inr s"
  using parse_modules_ok [OF assms] parse_module_names by blast

theorem modules_round_trip_witness:
  "parse_modules '' mesh,,mesh-config , logs'' = Inr {core, mesh, mesh_config, ''logs''} \<and>
   parse_modules ''core,logs,mesh,mesh-config'' = Inr {core, mesh, mesh_config, ''logs''}"
proof -
  have run: "parse_modules '' mesh,,mesh-config , logs'' = Inr {core, mesh, mesh_config, ''logs''}"
    by code_simp
  have "join_with '','' (module_names {core, mesh, mesh_config, ''logs''}) = ''core,logs,mesh,mesh-config''"
    by code_simp
  with modules_round_trip [OF run] run show ?thesis by simp
qed

end
