(* ===== verification/Routes.thy ===== *)
theory Routes
  imports AccessLaws InstallModules
begin

text \<open>
  The routing table (hub/internal/api/router.go) and the permissions matrix read off it
  (permissions.go). A block of routes is a list of patterns with the wrapper each is registered
  with, in the order of the code; an install registers the blocks its configuration enables.
  \<open>serve\<close> runs a handler under the wrapper of its route. The laws say that the matrix reports what
  the wrappers enforce, and what a viewer can reach beyond reading.
\<close>

section \<open>Guards\<close>

datatype guard = Open | AnyIdentity | RoleRoute role | AdminRoute | ResourceRoute role

definition serve :: "guard \<Rightarrow> crypto \<Rightarrow> access_config \<Rightarrow> instant \<Rightarrow> request \<Rightarrow> 'a handler \<Rightarrow> gate \<Rightarrow> (http_error + 'a) \<times> gate" where
  "serve g cr cfg now rq fn = (case g of
     Open \<Rightarrow> fn no_context
   | AnyIdentity \<Rightarrow> authenticated cr cfg now rq fn
   | RoleRoute need \<Rightarrow> secured need cr cfg now rq fn
   | AdminRoute \<Rightarrow> secured_admin cr cfg now rq fn
   | ResourceRoute need \<Rightarrow> secured_resource need (mcp_resource cfg) cr cfg now rq fn)"

section \<open>The routes\<close>

definition core_routes :: "(string \<times> guard) list" where
  "core_routes =
    [(''GET /healthz'', Open),
     (''GET /api/v1/status'', RoleRoute role_viewer),
     (''GET /api/v1/capabilities'', RoleRoute role_viewer),
     (''GET /api/v1/projects'', RoleRoute role_viewer),
     (''POST /api/v1/projects'', AdminRoute),
     (''PUT /api/v1/projects/{id}'', AdminRoute),
     (''DELETE /api/v1/projects/{id}'', AdminRoute),
     (''GET /api/v1/projects/{id}/keys'', AdminRoute),
     (''POST /api/v1/projects/{id}/keys'', AdminRoute),
     (''DELETE /api/v1/projects/{id}/keys/{hash}'', AdminRoute)]"

definition validate_routes :: "(string \<times> guard) list" where
  "validate_routes =
    [(''POST /internal/v1/ingest-keys/validate'', Open)]"

definition overlay_routes :: "(string \<times> guard) list" where
  "overlay_routes =
    [(''GET /api/v1/collection/overlay'', AdminRoute),
     (''PUT /api/v1/collection/overlay'', AdminRoute),
     (''DELETE /api/v1/collection/overlay'', AdminRoute)]"

definition signal_routes :: "(string \<times> guard) list" where
  "signal_routes =
    [(''GET /api/v1/rates'', AdminRoute),
     (''PUT /api/v1/rates'', AdminRoute),
     (''DELETE /api/v1/rates'', AdminRoute),
     (''GET /api/v1/system/status'', AdminRoute),
     (''GET /api/v1/services'', RoleRoute role_viewer),
     (''GET /api/v1/tags'', RoleRoute role_viewer),
     (''GET /api/v1/service-map'', RoleRoute role_viewer),
     (''GET /api/v1/traces'', RoleRoute role_viewer),
     (''GET /api/v1/traces/overview'', RoleRoute role_viewer),
     (''GET /api/v1/traces/breakdown'', RoleRoute role_viewer),
     (''GET /api/v1/traces/heatmap'', RoleRoute role_viewer),
     (''GET /api/v1/traces/{traceId}'', RoleRoute role_viewer),
     (''GET /api/v1/spans/{spanId}'', RoleRoute role_viewer),
     (''GET /api/v1/metrics/red'', RoleRoute role_viewer),
     (''GET /api/v1/auth/config'', Open),
     (''GET /api/v1/auth/permissions'', AnyIdentity)]"

definition account_routes :: "(string \<times> guard) list" where
  "account_routes =
    [(''POST /api/v1/auth/login'', Open),
     (''POST /api/v1/auth/logout'', AnyIdentity),
     (''GET /api/v1/auth/me'', AnyIdentity),
     (''POST /api/v1/auth/password'', AnyIdentity),
     (''GET /api/v1/tokens'', AnyIdentity),
     (''POST /api/v1/tokens'', AnyIdentity),
     (''DELETE /api/v1/tokens/{hash}'', AnyIdentity)]"

definition demo_routes :: "(string \<times> guard) list" where
  "demo_routes =
    [(''POST /api/v1/auth/demo'', Open)]"

definition oidc_routes :: "(string \<times> guard) list" where
  "oidc_routes =
    [(''GET /api/v1/auth/oidc/start'', Open),
     (''GET /api/v1/auth/oidc/callback'', Open)]"

definition oidc_mapping_routes :: "(string \<times> guard) list" where
  "oidc_mapping_routes =
    [(''GET /api/v1/auth/oidc/mapping'', AdminRoute),
     (''PUT /api/v1/auth/oidc/mapping/{group}'', AdminRoute),
     (''DELETE /api/v1/auth/oidc/mapping/{group}'', AdminRoute),
     (''POST /api/v1/auth/oidc/mapping/reset'', AdminRoute)]"

definition user_routes :: "(string \<times> guard) list" where
  "user_routes =
    [(''GET /api/v1/users'', AdminRoute),
     (''POST /api/v1/users'', AdminRoute),
     (''PUT /api/v1/users/{id}'', AdminRoute),
     (''DELETE /api/v1/users/{id}'', AdminRoute)]"

definition logs_routes :: "(string \<times> guard) list" where
  "logs_routes =
    [(''GET /api/v1/logs'', RoleRoute role_viewer),
     (''GET /api/v1/logs/services'', RoleRoute role_viewer),
     (''GET /api/v1/services/{service}/logs'', RoleRoute role_viewer),
     (''GET /api/v1/traces/{traceId}/logs'', RoleRoute role_viewer)]"

definition profiling_routes :: "(string \<times> guard) list" where
  "profiling_routes =
    [(''GET /api/v1/profiles/services'', RoleRoute role_viewer),
     (''GET /api/v1/profiles/flamegraph'', RoleRoute role_viewer),
     (''POST /v1development/profiles'', Open)]"

definition infra_routes :: "(string \<times> guard) list" where
  "infra_routes =
    [(''GET /api/v1/infra/nodes'', RoleRoute role_viewer),
     (''GET /api/v1/infra/pods'', RoleRoute role_viewer),
     (''GET /api/v1/infra/pod-connections'', RoleRoute role_viewer),
     (''GET /api/v1/agents'', RoleRoute role_viewer),
     (''GET /api/v1/network/zones'', RoleRoute role_viewer)]"

definition error_routes :: "(string \<times> guard) list" where
  "error_routes =
    [(''GET /api/v1/errors/issues'', RoleRoute role_viewer),
     (''GET /api/v1/errors/stats'', RoleRoute role_viewer),
     (''GET /api/v1/errors/issues/{fingerprint}'', RoleRoute role_viewer),
     (''GET /api/v1/errors/issues/{fingerprint}/events'', RoleRoute role_viewer),
     (''GET /api/v1/errors/issues/{fingerprint}/histogram'', RoleRoute role_viewer),
     (''POST /api/v1/errors/issues/{fingerprint}/status'', RoleRoute role_editor)]"

definition health_routes :: "(string \<times> guard) list" where
  "health_routes =
    [(''GET /api/v1/health/groups'', RoleRoute role_viewer),
     (''GET /api/v1/health/groups/{name}'', RoleRoute role_viewer),
     (''GET /api/v1/service-groups'', RoleRoute role_viewer),
     (''POST /api/v1/service-groups'', AdminRoute),
     (''PUT /api/v1/service-groups/{name}'', AdminRoute),
     (''DELETE /api/v1/service-groups/{name}'', AdminRoute),
     (''GET /api/v1/checks'', RoleRoute role_viewer),
     (''GET /api/v1/checks/{id}/results'', RoleRoute role_viewer)]"

definition alert_routes :: "(string \<times> guard) list" where
  "alert_routes =
    [(''GET /api/v1/alerts'', RoleRoute role_viewer),
     (''GET /api/v1/alerts/rules'', RoleRoute role_viewer),
     (''GET /api/v1/alerts/channels'', RoleRoute role_viewer),
     (''POST /api/v1/alerts/channels'', AdminRoute),
     (''PUT /api/v1/alerts/channels/{name}'', AdminRoute),
     (''DELETE /api/v1/alerts/channels/{name}'', AdminRoute),
     (''POST /api/v1/alerts/channels/{name}/test'', AdminRoute)]"

definition mesh_routes :: "(string \<times> guard) list" where
  "mesh_routes =
    [(''GET /api/v1/mesh/proxies'', RoleRoute role_viewer),
     (''GET /api/v1/mesh/control-plane'', RoleRoute role_viewer),
     (''GET /api/v1/mesh/security'', RoleRoute role_viewer),
     (''GET /api/v1/mesh/workloads/{namespace}/{name}/requests'', RoleRoute role_viewer)]"

definition mesh_logs_routes :: "(string \<times> guard) list" where
  "mesh_logs_routes =
    [(''GET /api/v1/mesh/workloads/{namespace}/{name}/logs'', RoleRoute role_viewer)]"

definition mesh_config_routes :: "(string \<times> guard) list" where
  "mesh_config_routes =
    [(''GET /api/v1/mesh/namespaces'', RoleRoute role_viewer),
     (''GET /api/v1/mesh/config'', RoleRoute role_viewer),
     (''GET /api/v1/mesh/workloads'', RoleRoute role_viewer),
     (''GET /api/v1/mesh/workloads/{namespace}/{name}'', RoleRoute role_viewer),
     (''GET /api/v1/mesh/waypoints/{namespace}/{name}'', RoleRoute role_viewer)]"

definition green_routes :: "(string \<times> guard) list" where
  "green_routes =
    [(''GET /api/v1/green/summary'', RoleRoute role_viewer),
     (''GET /api/v1/green/budgets'', RoleRoute role_viewer),
     (''GET /api/v1/green/report'', RoleRoute role_viewer)]"

definition cost_routes :: "(string \<times> guard) list" where
  "cost_routes =
    [(''GET /api/v1/cost/workloads'', RoleRoute role_viewer),
     (''GET /api/v1/cost/nodes'', RoleRoute role_viewer)]"

definition ai_routes :: "(string \<times> guard) list" where
  "ai_routes =
    [(''GET /api/v1/ai/summary'', RoleRoute role_viewer),
     (''GET /api/v1/ai/models'', RoleRoute role_viewer),
     (''GET /api/v1/ai/callers'', RoleRoute role_viewer),
     (''GET /api/v1/ai/tools'', RoleRoute role_viewer)]"

definition mcp_routes :: "(string \<times> guard) list" where
  "mcp_routes =
    [(''POST /mcp'', ResourceRoute role_viewer)]"

definition oauth_routes :: "(string \<times> guard) list" where
  "oauth_routes =
    [(''GET /.well-known/oauth-protected-resource'', Open),
     (''GET /.well-known/oauth-protected-resource/mcp'', Open),
     (''GET /.well-known/oauth-authorization-server'', Open),
     (''POST /api/v1/auth/oauth/register'', Open),
     (''GET /api/v1/auth/oauth/authorize'', Open),
     (''GET /api/v1/auth/oauth/consent'', AnyIdentity),
     (''POST /api/v1/auth/oauth/consent'', AnyIdentity),
     (''POST /api/v1/auth/oauth/token'', Open),
     (''POST /api/v1/auth/oauth/revoke'', Open),
     (''GET /api/v1/auth/oauth/grants'', AnyIdentity),
     (''DELETE /api/v1/auth/oauth/grants/{id}'', AnyIdentity)]"

record routes_config =
  rc_modules :: module_set
  rc_auth :: bool
  rc_ingest_token :: string
  rc_overlay :: bool
  rc_demo :: bool
  rc_mapping :: bool
  rc_oauth :: bool

definition auth_routes :: "routes_config \<Rightarrow> (string \<times> guard) list" where
  "auth_routes cfg =
     (if \<not> rc_auth cfg then []
      else account_routes @ (if rc_demo cfg then demo_routes else []) @ oidc_routes @
        (if rc_mapping cfg then oidc_mapping_routes else []) @ user_routes)"

definition module_routes :: "routes_config \<Rightarrow> (string \<times> guard) list" where
  "module_routes cfg = (let on = (\<lambda>m. m \<in> rc_modules cfg) in
     (if on ''logs'' then logs_routes else []) @
     (if on ''profiling'' then profiling_routes else []) @
     (if on infra_metrics then infra_routes else []) @
     (if on ''error-tracking'' then error_routes else []) @
     (if on ''service-health'' then health_routes else []) @
     (if on ''alerting'' then alert_routes else []) @
     (if on mesh then mesh_routes @ (if on ''logs'' then mesh_logs_routes else []) else []) @
     (if on mesh_config then mesh_config_routes else []) @
     (if on green_module then green_routes else []) @
     (if on cost_module then cost_routes else []) @
     (if on ''ai'' then ai_routes else []) @
     (if on ''mcp'' then mcp_routes @ (if rc_oauth cfg then oauth_routes else []) else []))"

definition register :: "routes_config \<Rightarrow> (string \<times> guard) list" where
  "register cfg =
     core_routes @ (if rc_ingest_token cfg \<noteq> [] then validate_routes else []) @
     (if rc_overlay cfg then overlay_routes else []) @ signal_routes @ auth_routes cfg @ module_routes cfg"

section \<open>The matrix\<close>

record route_guard =
  rg_method :: string
  rg_path :: string
  rg_min_role :: role
  rg_admin_only :: bool
  rg_public :: bool

definition split_pattern :: "string \<Rightarrow> string \<times> string" where
  "split_pattern pattern = (case cut (CHR '' '') pattern of (m, p, hit) \<Rightarrow> if hit then (m, p) else (''GET'', pattern))"

definition record_route :: "string \<times> guard \<Rightarrow> route_guard" where
  "record_route r = (case r of (pattern, g) \<Rightarrow>
     (case split_pattern pattern of (method, path) \<Rightarrow>
        \<lparr>rg_method = method, rg_path = path,
         rg_min_role = (case g of RoleRoute need \<Rightarrow> need | ResourceRoute need \<Rightarrow> need | AdminRoute \<Rightarrow> role_admin | _ \<Rightarrow> []),
         rg_admin_only = (g = AdminRoute), rg_public = (g = Open)\<rparr>))"

definition group_order :: "string list" where
  "group_order = [''Topology'', ''Signals'', ''Operations'', ''Infrastructure'', ''Administration'', ''Other'']"

definition area_labels :: "(string \<times> string \<times> string) list" where
  "area_labels =
    [(''services'', ''Services'', ''Topology''),
     (''service-map'', ''Service map'', ''Topology''),
     (''service-groups'', ''Service groups'', ''Topology''),
     (''health'', ''Service health'', ''Topology''),
     (''traces'', ''Traces'', ''Signals''),
     (''logs'', ''Logs'', ''Signals''),
     (''metrics'', ''Metrics'', ''Signals''),
     (''profiles'', ''Profiling'', ''Signals''),
     (''ai'', ''AI & LLM calls'', ''Signals''),
     (''tags'', ''Tags & labels'', ''Signals''),
     (''errors'', ''Error tracking'', ''Operations''),
     (''alerts'', ''Alerting'', ''Operations''),
     (''checks'', ''Endpoint checks'', ''Operations''),
     (''infra'', ''Nodes & pods'', ''Infrastructure''),
     (''mesh'', ''Service mesh'', ''Infrastructure''),
     (''network'', ''Network health'', ''Infrastructure''),
     (''green'', ''Energy & carbon'', ''Infrastructure''),
     (''cost'', ''Cost & waste'', ''Infrastructure''),
     (''agents'', ''Agents'', ''Infrastructure''),
     (''projects'', ''Projects'', ''Administration''),
     (''users'', ''Users'', ''Administration''),
     (''collection'', ''Collection'', ''Administration''),
     (''capabilities'', ''Modules'', ''Administration''),
     (''rates'', ''AI model rates'', ''Administration''),
     (''status'', ''Hub status'', ''Administration''),
     (''system'', ''System status'', ''Administration'')]"

definition area_aliases :: "(string \<times> string) list" where
  "area_aliases = [(''spans'', ''traces'')]"

definition api_prefix :: string where "api_prefix = ''/api/v1/''"

definition area_of :: "string \<Rightarrow> string option" where
  "area_of path =
     (if \<not> has_prefix api_prefix path then None
      else let seg = fst (cut (CHR ''/'') (drop (length api_prefix) path))
           in if seg = [] then None
              else Some (case map_of area_aliases seg of Some alias \<Rightarrow> alias | None \<Rightarrow> seg))"

definition matrix_rank :: "role \<Rightarrow> nat" where
  "matrix_rank r = (case map_of [(role_viewer, 1), (role_editor, 2), (role_admin, 3)] r of Some n \<Rightarrow> n | None \<Rightarrow> 0)"

definition lowest :: "role \<Rightarrow> role \<Rightarrow> role" where
  "lowest cur new = (if cur = [] \<or> matrix_rank new < matrix_rank cur then new else cur)"

text \<open>The floors of an area found so far, for reading and for writing; the association list keeps
  the order the areas were first seen in.\<close>

definition fold_route :: "route_guard \<Rightarrow> (string \<times> role \<times> role) list \<Rightarrow> (string \<times> role \<times> role) list" where
  "fold_route g acc = (case area_of (rg_path g) of
     None \<Rightarrow> acc
   | Some area \<Rightarrow>
       if rg_public g \<or> rg_min_role g = [] then acc
       else (case (case map_of acc area of Some e \<Rightarrow> e | None \<Rightarrow> ([], [])) of (r, w) \<Rightarrow>
         AList.update area (if rg_method g = ''GET'' then (lowest r (rg_min_role g), w) else (r, lowest w (rg_min_role g))) acc))"

definition floors :: "route_guard list \<Rightarrow> (string \<times> role \<times> role) list" where
  "floors rs = fold fold_route rs []"

record permission_area =
  pa_area :: string
  pa_label :: string
  pa_group :: string
  pa_read :: role
  pa_write :: role

fun group_rank_from :: "nat \<Rightarrow> string list \<Rightarrow> string \<Rightarrow> nat" where
  "group_rank_from n [] g = n"
| "group_rank_from n (x # xs) g = (if x = g then n else group_rank_from (Suc n) xs g)"

definition group_rank :: "string \<Rightarrow> nat" where
  "group_rank g = group_rank_from 0 group_order g"

definition permission_row :: "string \<times> role \<times> role \<Rightarrow> permission_area" where
  "permission_row e = (case e of (area, r, w) \<Rightarrow>
     (case map_of area_labels area of
        Some (label, grp) \<Rightarrow> \<lparr>pa_area = area, pa_label = label, pa_group = grp, pa_read = r, pa_write = w\<rparr>
      | None \<Rightarrow> \<lparr>pa_area = area, pa_label = area, pa_group = ''Other'', pa_read = r, pa_write = w\<rparr>))"

text \<open>The areas of \<open>handlePermissions\<close>.\<close>

definition permission_areas :: "route_guard list \<Rightarrow> permission_area list" where
  "permission_areas rs = sort_key (\<lambda>a. (group_rank (pa_group a), pa_label a)) (map permission_row (floors rs))"


section \<open>The table the code registers\<close>

definition guard_floor :: "guard \<Rightarrow> role option" where
  "guard_floor g = (case g of RoleRoute need \<Rightarrow> Some need | ResourceRoute need \<Rightarrow> Some need | AdminRoute \<Rightarrow> Some role_admin | _ \<Rightarrow> None)"

text \<open>What anyone may post to, and what anyone signed in may: the calls that establish or prove a
  credential themselves, and a person's own session, password, tokens and consents.\<close>

definition credential_calls :: "string list" where
  "credential_calls =
    [''POST /internal/v1/ingest-keys/validate'', ''POST /api/v1/auth/login'', ''POST /api/v1/auth/demo'',
     ''POST /v1development/profiles'', ''POST /api/v1/auth/oauth/register'', ''POST /api/v1/auth/oauth/token'',
     ''POST /api/v1/auth/oauth/revoke'']"

definition own_account_calls :: "string list" where
  "own_account_calls =
    [''POST /api/v1/auth/logout'', ''POST /api/v1/auth/password'', ''POST /api/v1/tokens'', ''DELETE /api/v1/tokens/{hash}'',
     ''POST /api/v1/auth/oauth/consent'', ''DELETE /api/v1/auth/oauth/grants/{id}'']"

text \<open>The shape of every registered route.\<close>

definition route_ok :: "string \<times> guard \<Rightarrow> bool" where
  "route_ok r = (case r of (p, g) \<Rightarrow>
     (case guard_floor g of Some need \<Rightarrow> need \<in> {role_viewer, role_editor, role_admin} | None \<Rightarrow> True) \<and>
     (fst (split_pattern p) \<noteq> ''GET'' \<longrightarrow>
       (case g of Open \<Rightarrow> p \<in> set credential_calls | AnyIdentity \<Rightarrow> p \<in> set own_account_calls
        | RoleRoute need \<Rightarrow> need = role_editor | AdminRoute \<Rightarrow> True | ResourceRoute need \<Rightarrow> p = ''POST /mcp'')))"

lemma core_routes_ok: "list_all route_ok (core_routes @ validate_routes @ overlay_routes @ signal_routes)"
  by code_simp

lemma auth_routes_ok: "list_all route_ok (account_routes @ demo_routes @ oidc_routes @ oidc_mapping_routes @ user_routes)"
  by code_simp

lemma module_routes_ok:
  "list_all route_ok (logs_routes @ profiling_routes @ infra_routes @ error_routes @ health_routes @ alert_routes @ mesh_routes)"
  "list_all route_ok (mesh_logs_routes @ mesh_config_routes @ green_routes @ cost_routes @ ai_routes @ mcp_routes @ oauth_routes)"
  by code_simp+

lemma list_all_if: "list_all P xs \<Longrightarrow> list_all P (if c then xs else [])"
  by simp

lemma register_ok: "list_all route_ok (register cfg)"
  using core_routes_ok auth_routes_ok module_routes_ok
  by (simp add: register_def auth_routes_def module_routes_def Let_def)

lemma registered: "(p, g) \<in> set (register cfg) \<Longrightarrow> route_ok (p, g)"
  using register_ok by (simp add: list_all_iff)

section \<open>What a wrapper lets through\<close>

lemma serve_floor:
  assumes auth: "ac_auth acfg = Some sv" and run: "serve g cr acfg now rq reveal st = (Inr cx, st')" and need: "guard_floor g = Some need"
  shows "\<exists>i. cx_identity cx = Some i \<and> (\<exists>gr\<in>set (id_grants i). role_allows (g_role gr) need)"
proof (cases g)
  case (RoleRoute r)
  with run need have "with_identity (\<lambda>i. if holds_anywhere i need then None else Some (NeedsRole need)) cr acfg now rq reveal st = (Inr cx, st')"
    by (auto simp: serve_def secured_def guard_floor_def)
  from with_identity_admits [OF auth this] show ?thesis
    by (auto simp: no_context_def holds_anywhere_iff split: if_splits)
next
  case AdminRoute
  with run have "with_identity (\<lambda>i. if is_admin i then None else Some NeedsAdmin) cr acfg now rq reveal st = (Inr cx, st')"
    by (simp add: serve_def secured_admin_def)
  from with_identity_admits [OF auth this] need AdminRoute show ?thesis
    by (auto simp: no_context_def is_admin_iff guard_floor_def split: if_splits)
      (metis role_allows_iff role_rank_simps(1) order_refl zero_less_numeral)
next
  case (ResourceRoute r)
  with run auth need show ?thesis
    by (auto simp: serve_def secured_resource_def reveal_def guard_floor_def holds_anywhere_iff split: option.splits sum.splits prod.splits if_splits)
qed (use need in \<open>simp_all add: guard_floor_def\<close>)

section \<open>What the matrix reports\<close>

lemma matrix_rank_eq: "matrix_rank r = role_rank r"
  by (simp add: matrix_rank_def role_rank_def role_defs)

text \<open>The floors of the guarded routes of an area that read (or write).\<close>

definition area_roles :: "route_guard list \<Rightarrow> string \<Rightarrow> bool \<Rightarrow> role list" where
  "area_roles rs area rd = map rg_min_role (filter (\<lambda>g. area_of (rg_path g) = Some area \<and> \<not> rg_public g \<and>
     rg_min_role g \<noteq> [] \<and> (rg_method g = ''GET'') = rd) rs)"

definition area_entry :: "(string \<times> role \<times> role) list \<Rightarrow> string \<Rightarrow> role \<times> role" where
  "area_entry acc area = (case map_of acc area of Some e \<Rightarrow> e | None \<Rightarrow> ([], []))"

definition weakest :: "role list \<Rightarrow> role \<Rightarrow> role" where
  "weakest rs cur = fold (\<lambda>r c. lowest c r) rs cur"

lemma weakest_simps [simp]: "weakest [] cur = cur" "weakest (r # rs) cur = weakest rs (lowest cur r)"
  by (simp_all add: weakest_def)

lemma area_entry_update:
  "area_entry (AList.update k e acc) area = (if k = area then e else area_entry acc area)"
  by (simp add: area_entry_def update_conv')

lemma fold_route_entry:
  "area_entry (fold_route g acc) area =
     (if area_of (rg_path g) = Some area \<and> \<not> rg_public g \<and> rg_min_role g \<noteq> [] then
        if rg_method g = ''GET'' then (lowest (fst (area_entry acc area)) (rg_min_role g), snd (area_entry acc area))
        else (fst (area_entry acc area), lowest (snd (area_entry acc area)) (rg_min_role g))
      else area_entry acc area)"
proof (cases "area_of (rg_path g)")
  case (Some k)
  obtain r w where e: "area_entry acc k = (r, w)" by fastforce
  have "fold_route g acc = (if rg_public g \<or> rg_min_role g = [] then acc
      else AList.update k (if rg_method g = ''GET'' then (lowest r (rg_min_role g), w) else (r, lowest w (rg_min_role g))) acc)"
    unfolding fold_route_def Some option.case area_entry_def [symmetric] e by simp
  then show ?thesis using e Some by (auto simp: area_entry_update)
qed (simp add: fold_route_def)

lemma floors_entry:
  "area_entry (fold fold_route rs acc) area =
     (weakest (area_roles rs area True) (fst (area_entry acc area)), weakest (area_roles rs area False) (snd (area_entry acc area)))"
proof (induction rs arbitrary: acc)
  case (Cons g rs)
  have "area_entry (fold_route g acc) area =
      (if area_of (rg_path g) = Some area \<and> \<not> rg_public g \<and> rg_min_role g \<noteq> [] then
         if rg_method g = ''GET'' then (lowest (fst (area_entry acc area)) (rg_min_role g), snd (area_entry acc area))
         else (fst (area_entry acc area), lowest (snd (area_entry acc area)) (rg_min_role g))
       else area_entry acc area)"
    by (rule fold_route_entry)
  then show ?case using Cons [of "fold_route g acc"] by (simp add: area_roles_def)
qed (simp add: area_roles_def)

lemma fold_route_keys: "set (map fst (fold_route g acc)) = set (map fst acc) \<union>
    {area. area_of (rg_path g) = Some area \<and> \<not> rg_public g \<and> rg_min_role g \<noteq> []}"
proof (cases "area_of (rg_path g)")
  case (Some area)
  show ?thesis
  proof (cases "rg_public g \<or> rg_min_role g = []")
    case False
    obtain e where "fold_route g acc = AList.update area e acc"
      using Some False by (cases "case map_of acc area of Some e \<Rightarrow> e | None \<Rightarrow> ([], [])") (auto simp: fold_route_def)
    with Some False show ?thesis by (simp only: update_keys) auto
  qed (auto simp: fold_route_def Some)
qed (simp add: fold_route_def)

lemma floors_keys: "set (map fst (fold fold_route rs acc)) = set (map fst acc) \<union>
    {area. \<exists>g\<in>set rs. area_of (rg_path g) = Some area \<and> \<not> rg_public g \<and> rg_min_role g \<noteq> []}"
proof (induction rs arbitrary: acc)
  case (Cons g rs)
  show ?case unfolding fold_simps Cons [of "fold_route g acc"] fold_route_keys by auto
qed simp

lemma fold_route_distinct: "distinct (map fst acc) \<Longrightarrow> distinct (map fst (fold_route g acc))"
  by (simp add: fold_route_def distinct_update split: option.split prod.split)

lemma floors_distinct: "distinct (map fst acc) \<Longrightarrow> distinct (map fst (fold fold_route rs acc))"
  by (induction rs arbitrary: acc) (simp_all add: fold_route_distinct)

lemma weakest_least:
  assumes "\<forall>r\<in>set rs. 0 < role_rank r" and "cur = [] \<or> 0 < role_rank cur"
  shows "weakest rs cur \<in> set rs \<union> {cur} \<and> (\<forall>r\<in>set rs \<union> ({cur} - {[]}). role_rank (weakest rs cur) \<le> role_rank r) \<and>
    (weakest rs cur = [] \<longrightarrow> rs = [] \<and> cur = [])"
  using assms
proof (induction rs arbitrary: cur)
  case (Cons r rs)
  have nonempty: "r \<noteq> []" using Cons.prems(1) by (auto simp: role_rank_def role_defs)
  define c where "c = lowest cur r"
  have c: "c \<in> {cur, r}" "c \<noteq> []" "0 < role_rank c" "role_rank c \<le> role_rank r" "cur \<noteq> [] \<Longrightarrow> role_rank c \<le> role_rank cur"
    using Cons.prems nonempty by (auto simp: c_def lowest_def matrix_rank_eq)
  with Cons.IH [of c] Cons.prems(1) have "weakest rs c \<in> set rs \<union> {c}" "\<forall>s\<in>set rs. role_rank (weakest rs c) \<le> role_rank s"
    "role_rank (weakest rs c) \<le> role_rank c" "weakest rs c \<noteq> []" by auto
  moreover have "weakest (r # rs) cur = weakest rs c" by (simp add: c_def)
  moreover have "role_rank (weakest rs c) \<le> role_rank s" if "s \<in> set (r # rs) \<union> ({cur} - {[]})" for s
    using that calculation c by (auto intro: order_trans)
  ultimately show ?case using c(1) by auto
qed simp

lemma record_floor [simp]:
  "rg_public (record_route (p, g)) \<longleftrightarrow> g = Open"
  "rg_method (record_route (p, g)) = fst (split_pattern p)" "rg_path (record_route (p, g)) = snd (split_pattern p)"
  "rg_min_role (record_route (p, g)) = (case guard_floor g of Some need \<Rightarrow> need | None \<Rightarrow> [])"
  by (simp_all add: record_route_def guard_floor_def split: prod.split guard.split)

lemma area_roles_iff:
  "need \<in> set (area_roles rs area rd) \<longleftrightarrow>
     (\<exists>g\<in>set rs. rg_min_role g = need \<and> area_of (rg_path g) = Some area \<and> \<not> rg_public g \<and> need \<noteq> [] \<and> (rg_method g = ''GET'') = rd)"
  unfolding area_roles_def by auto

lemma registered_need: "(p, g) \<in> set (register cfg) \<Longrightarrow> guard_floor g = Some need \<Longrightarrow> need \<noteq> [] \<and> 0 < role_rank need"
  by (drule registered) (auto simp: route_ok_def role_defs role_rank_def)

lemma registered_roles:
  "need \<in> set (area_roles (map record_route (register cfg)) area rd) \<longleftrightarrow>
     (\<exists>p g. (p, g) \<in> set (register cfg) \<and> area_of (snd (split_pattern p)) = Some area \<and> (fst (split_pattern p) = ''GET'') = rd \<and>
       guard_floor g = Some need)" (is "?lhs \<longleftrightarrow> ?rhs")
proof
  assume ?lhs
  then obtain r where "r \<in> set (register cfg)" "rg_min_role (record_route r) = need" "area_of (rg_path (record_route r)) = Some area"
    "need \<noteq> []" "(rg_method (record_route r) = ''GET'') = rd"
    unfolding area_roles_iff set_map by blast
  then show ?rhs by (intro exI [of _ "fst r"] exI [of _ "snd r"]) (cases r; cases "guard_floor (snd r)"; simp)
next
  assume ?rhs
  then obtain p g where pg: "(p, g) \<in> set (register cfg)" "area_of (snd (split_pattern p)) = Some area"
    "(fst (split_pattern p) = ''GET'') = rd" "guard_floor g = Some need" by blast
  moreover have "g \<noteq> Open" using pg(4) by (auto simp: guard_floor_def)
  ultimately show ?lhs using registered_need [OF pg(1,4)]
    unfolding area_roles_iff set_map by (intro bexI [of _ "record_route (p, g)"]) simp_all
qed

lemma registered_roles_valid: "\<forall>r\<in>set (area_roles (map record_route (register cfg)) area rd). 0 < role_rank r"
  using registered_roles registered_need by blast

lemma permission_row_fields [simp]:
  "pa_area (permission_row (area, r, w)) = area" "pa_read (permission_row (area, r, w)) = r" "pa_write (permission_row (area, r, w)) = w"
  by (simp_all add: permission_row_def split: option.split)

lemma permission_areas_distinct: "distinct (map pa_area (permission_areas rs))"
proof -
  have "map pa_area (map permission_row es) = map fst es" for es by (induction es) auto
  then have "distinct (map pa_area (map permission_row (floors rs)))"
    using floors_distinct [of "[]" rs] unfolding floors_def by (metis distinct.simps(1) list.simps(8))
  moreover have "mset (map pa_area (sort_key k xs)) = mset (map pa_area xs)" for k :: "permission_area \<Rightarrow> nat \<times> string" and xs
    by simp
  ultimately show ?thesis unfolding permission_areas_def using mset_eq_imp_distinct_iff by blast
qed

lemma matrix_row:
  assumes "(p, g) \<in> set (register cfg)" and "area_of (snd (split_pattern p)) = Some area" and "guard_floor g = Some need"
  shows "\<exists>row\<in>set (permission_areas (map record_route (register cfg))). pa_area row = area \<and>
    pa_read row = weakest (area_roles (map record_route (register cfg)) area True) [] \<and>
    pa_write row = weakest (area_roles (map record_route (register cfg)) area False) []"
proof -
  define rs where "rs = map record_route (register cfg)"
  have "need \<in> set (area_roles rs area (fst (split_pattern p) = ''GET''))"
    using assms registered_roles [of need cfg area] unfolding rs_def by blast
  then have "area \<in> set (map fst (floors rs))"
    unfolding floors_def floors_keys area_roles_iff by auto
  then obtain r w where e: "(area, r, w) \<in> set (floors rs)" by auto
  then have "map_of (floors rs) area = Some (r, w)"
    using floors_distinct [of "[]" rs] by (simp add: floors_def)
  then have "area_entry (floors rs) area = (r, w)" by (simp add: area_entry_def)
  then have "r = weakest (area_roles rs area True) []" "w = weakest (area_roles rs area False) []"
    unfolding floors_def floors_entry by (simp_all add: area_entry_def)
  moreover have "permission_row (area, r, w) \<in> set (permission_areas rs)"
    using e by (simp add: permission_areas_def)
  ultimately show ?thesis unfolding rs_def [symmetric] by (intro bexI [of _ "permission_row (area, r, w)"]) simp_all
qed

lemma area_floor:
  assumes "(p, g) \<in> set (register cfg)" and "area_of (snd (split_pattern p)) = Some area" and "guard_floor g = Some need"
  shows "role_allows need (weakest (area_roles (map record_route (register cfg)) area (fst (split_pattern p) = ''GET'')) [])"
    and "weakest (area_roles (map record_route (register cfg)) area (fst (split_pattern p) = ''GET'')) [] \<in>
      set (area_roles (map record_route (register cfg)) area (fst (split_pattern p) = ''GET''))"
proof -
  define rs where "rs = area_roles (map record_route (register cfg)) area (fst (split_pattern p) = ''GET'')"
  have here: "need \<in> set rs" using assms registered_roles [of need cfg area] unfolding rs_def by blast
  have pos: "\<forall>r\<in>set rs. 0 < role_rank r" unfolding rs_def by (rule registered_roles_valid)
  have w: "weakest rs [] \<in> set rs \<union> {[]}" "\<forall>r\<in>set rs. role_rank (weakest rs []) \<le> role_rank r"
    "weakest rs [] = [] \<longrightarrow> rs = []"
    using weakest_least [OF pos, of "[]"] by simp_all
  with here have mem: "weakest rs [] \<in> set rs" by auto
  then show "weakest (area_roles (map record_route (register cfg)) area (fst (split_pattern p) = ''GET'')) [] \<in>
      set (area_roles (map record_route (register cfg)) area (fst (split_pattern p) = ''GET''))" unfolding rs_def .
  show "role_allows need (weakest (area_roles (map record_route (register cfg)) area (fst (split_pattern p) = ''GET'')) [])"
    using w(2) here mem pos unfolding rs_def [symmetric] role_allows_iff by blast
qed

text \<open>C31. The permissions matrix is the routing table: for every route registered with a role, on every
  install, the matrix has exactly one row of its area. Whoever the route's wrapper lets through
  holds, somewhere, the role that row names for reading (a GET) or writing (any other method);
  and the row does not overstate it: some registered route of the area and kind has that very
  floor.\<close>

theorem matrix_honest:
  assumes "(p, g) \<in> set (register cfg)" and "area_of (snd (split_pattern p)) = Some area" and "guard_floor g = Some need"
    and "ac_auth acfg = Some sv"
  shows "\<exists>row\<in>set (permission_areas (map record_route (register cfg))). pa_area row = area \<and>
    (\<forall>row'\<in>set (permission_areas (map record_route (register cfg))). pa_area row' = area \<longrightarrow> row' = row) \<and>
    (let named = (if fst (split_pattern p) = ''GET'' then pa_read row else pa_write row) in
      (\<forall>cr now rq st cx st'. serve g cr acfg now rq reveal st = (Inr cx, st') \<longrightarrow>
        (\<exists>i. cx_identity cx = Some i \<and> (\<exists>gr\<in>set (id_grants i). role_allows (g_role gr) named))) \<and>
      (\<exists>q h. (q, h) \<in> set (register cfg) \<and> area_of (snd (split_pattern q)) = Some area \<and>
        (fst (split_pattern q) = ''GET'' \<longleftrightarrow> fst (split_pattern p) = ''GET'') \<and> guard_floor h = Some named))"
proof -
  obtain row where row: "row \<in> set (permission_areas (map record_route (register cfg)))" "pa_area row = area"
    "pa_read row = weakest (area_roles (map record_route (register cfg)) area True) []"
    "pa_write row = weakest (area_roles (map record_route (register cfg)) area False) []"
    using matrix_row [OF assms(1-3)] by blast
  define named where "named = (if fst (split_pattern p) = ''GET'' then pa_read row else pa_write row)"
  have named: "named = weakest (area_roles (map record_route (register cfg)) area (fst (split_pattern p) = ''GET'')) []"
    by (simp add: named_def row)
  have unique: "row' = row" if "row' \<in> set (permission_areas (map record_route (register cfg)))" "pa_area row' = area" for row'
    using permission_areas_distinct that row(1,2) by (metis distinct_map inj_on_def)
  have "\<exists>i. cx_identity cx = Some i \<and> (\<exists>gr\<in>set (id_grants i). role_allows (g_role gr) named)"
    if "serve g cr acfg now rq reveal st = (Inr cx, st')" for cr now rq st cx st'
    using serve_floor [OF assms(4) that assms(3)] role_allows_trans area_floor(1) [OF assms(1-3)] unfolding named by blast
  moreover have "\<exists>q h. (q, h) \<in> set (register cfg) \<and> area_of (snd (split_pattern q)) = Some area \<and>
      (fst (split_pattern q) = ''GET'' \<longleftrightarrow> fst (split_pattern p) = ''GET'') \<and> guard_floor h = Some named"
    using area_floor(2) [OF assms(1-3)] unfolding named [symmetric] registered_roles by blast
  ultimately show ?thesis using row(1,2) unique unfolding named_def Let_def by (intro bexI [of _ row]) blast+
qed

text \<open>A viewer reads: on every install, whatever a request that is not a GET reaches for an
  identity whose grants are all viewer grants is one of the calls that establish a credential, a
  call on the person's own session, password, tokens or consents, or the MCP endpoint.\<close>

theorem viewer_cannot_write:
  assumes "(p, g) \<in> set (register cfg)" and "fst (split_pattern p) \<noteq> ''GET''" and "ac_auth acfg = Some sv"
    and "serve g cr acfg now rq reveal st = (Inr cx, st')"
    and "\<And>i gr. cx_identity cx = Some i \<Longrightarrow> gr \<in> set (id_grants i) \<Longrightarrow> g_role gr = role_viewer"
  shows "p \<in> set credential_calls \<or> p \<in> set own_account_calls \<or> p = ''POST /mcp''"
proof (cases "guard_floor g")
  case None
  with registered [OF assms(1)] assms(2) show ?thesis by (auto simp: route_ok_def guard_floor_def split: guard.splits)
next
  case (Some need)
  with serve_floor [OF assms(3,4)] assms(5) have "role_allows role_viewer need" by metis
  then have "role_rank need \<le> 1" by (simp add: role_allows_iff)
  with registered [OF assms(1)] assms(2) Some show ?thesis
    by (auto simp: route_ok_def guard_floor_def split: guard.splits)
qed

definition full_install :: routes_config where
  "full_install = \<lparr>rc_modules = all_set, rc_auth = True, rc_ingest_token = ''t'', rc_overlay = True, rc_demo = True,
     rc_mapping = True, rc_oauth = True\<rparr>"

lemma full_install_routes:
  "(''POST /api/v1/errors/issues/{fingerprint}/status'', RoleRoute role_editor) \<in> set (register full_install)"
  by code_simp

theorem matrix_honest_witness:
  "\<exists>row\<in>set (permission_areas (map record_route (register full_install))). pa_area row = ''errors''"
proof -
  have area: "area_of (snd (split_pattern ''POST /api/v1/errors/issues/{fingerprint}/status'')) = Some ''errors''"
    by code_simp
  have need: "guard_floor (RoleRoute role_editor) = Some role_editor" by (simp add: guard_floor_def)
  have auth: "ac_auth sample_config = Some (new_service minute)" by (simp add: sample_config_def)
  from matrix_honest [OF full_install_routes area need auth] show ?thesis by blast
qed

lemma token_call:
  "(''POST /api/v1/tokens'', AnyIdentity) \<in> set (register full_install)"
  "serve AnyIdentity toy_crypto sample_config 0 (cookie_request\<lparr>rq_method := ''POST''\<rparr>) reveal sample_gate =
     (Inr (no_context\<lparr>cx_identity := Some sample_identity\<rparr>), sample_gate)"
  by code_simp+

theorem viewer_cannot_write_witness:
  "''POST /api/v1/tokens'' \<in> set own_account_calls"
proof -
  have auth: "ac_auth sample_config = Some (new_service minute)" by (simp add: sample_config_def)
  have "''POST /api/v1/tokens'' \<in> set credential_calls \<or> ''POST /api/v1/tokens'' \<in> set own_account_calls \<or>
      ''POST /api/v1/tokens'' = ''POST /mcp''"
  proof (rule viewer_cannot_write [OF token_call(1) _ auth token_call(2)])
    show "fst (split_pattern ''POST /api/v1/tokens'') \<noteq> ''GET''" by code_simp
    show "g_role gr = role_viewer" if "cx_identity (no_context\<lparr>cx_identity := Some sample_identity\<rparr>) = Some i"
      "gr \<in> set (id_grants i)" for i gr
      using that by (auto simp: sample_identity_def)
  qed
  moreover have "''POST /api/v1/tokens'' \<notin> set credential_calls" by code_simp
  ultimately show ?thesis by simp
qed

end
