(* ===== verification/TraceStats.thy ===== *)
theory TraceStats
  imports GoStd "HOL-Library.Product_Lexorder"
begin

text \<open>
  The per-service figures of one trace (hub/internal/tracestats/selftime.go): the effective status
  of a span and the self time of each service. Durations are \<open>int64\<close> and their sums wrap; the laws
  say what the figures account for when no sum leaves the range.
\<close>

record span_event =
  ev_time :: instant
  ev_name :: string
  ev_attributes :: "string \<rightharpoonup> string"

record span =
  sp_trace :: string
  sp_id :: string
  sp_parent :: string
  sp_service :: string
  sp_operation :: string
  sp_kind :: string
  sp_scope_name :: string
  sp_scope_version :: string
  sp_start :: instant
  sp_duration :: duration
  sp_status :: string
  sp_message :: string
  sp_attributes :: "string \<rightharpoonup> string"
  sp_resource :: "string \<rightharpoonup> string"
  sp_events :: "span_event list"

section \<open>Effective status\<close>

text \<open>\<open>strconv.Atoi\<close>: an optional sign and at least one digit, in the range of an \<open>int64\<close>.\<close>

fun digits_value :: "int \<Rightarrow> string \<Rightarrow> int option" where
  "digits_value acc [] = Some acc"
| "digits_value acc (c # cs) = (if is_digit c then digits_value (acc * 10 + digit_val c) cs else None)"

definition atoi :: "string \<Rightarrow> int option" where
  "atoi s =
     (let neg = (s \<noteq> [] \<and> hd s = CHR ''-'');
          ds = (if s \<noteq> [] \<and> (hd s = CHR ''-'' \<or> hd s = CHR ''+'') then tl s else s)
      in if ds = [] then None
         else case digits_value 0 ds of
           None \<Rightarrow> None
         | Some n \<Rightarrow> let v = (if neg then - n else n) in if - (2 ^ 63) \<le> v \<and> v < 2 ^ 63 then Some v else None)"

datatype span_status = StatusOK | StatusRefused | StatusError

definition status_attribute :: "(string \<rightharpoonup> string) \<Rightarrow> string \<Rightarrow> int" where
  "status_attribute attrs k =
     (case atoi (case attrs k of None \<Rightarrow> [] | Some v \<Rightarrow> v) of None \<Rightarrow> 0 | Some n \<Rightarrow> if n < 0 then 0 else n)"

definition http_status_code :: "(string \<rightharpoonup> string) \<Rightarrow> int" where
  "http_status_code attrs =
     (let new_key = status_attribute attrs ''http.response.status_code''; old_key = status_attribute attrs ''http.status_code''
      in if old_key < new_key then new_key else old_key)"

definition effective_status :: "span \<Rightarrow> span_status" where
  "effective_status sp =
     (if equal_fold (sp_status sp) ''error'' then StatusError
      else if equal_fold (sp_status sp) ''ok'' then StatusOK
      else let h = http_status_code (sp_attributes sp)
        in if 500 \<le> h \<or> (sp_kind sp = ''Client'' \<and> 400 \<le> h) then StatusError
           else if 400 \<le> h \<and> h \<le> 499 then StatusRefused
           else StatusOK)"

section \<open>Self time\<close>

record service_self_time =
  ss_service :: string
  ss_self :: duration
  ss_spans :: int
  ss_errors :: int
  ss_refused :: int

definition add_child :: "span \<Rightarrow> (string \<Rightarrow> duration) \<Rightarrow> (string \<Rightarrow> duration)" where
  "add_child sp m = (if sp_parent sp \<noteq> [] then m(sp_parent sp := wrap64 (m (sp_parent sp) + sp_duration sp)) else m)"

text \<open>The time of each span's direct children; \<open>0\<close> where the map has no entry.\<close>

definition child_time :: "span list \<Rightarrow> string \<Rightarrow> duration" where
  "child_time spans = fold add_child spans (\<lambda>_. 0)"

definition self_time :: "(string \<Rightarrow> duration) \<Rightarrow> span \<Rightarrow> duration" where
  "self_time children sp = (let self = wrap64 (sp_duration sp - children (sp_id sp)) in if self < 0 then 0 else self)"

definition new_row :: "string \<Rightarrow> service_self_time" where
  "new_row s = \<lparr>ss_service = s, ss_self = 0, ss_spans = 0, ss_errors = 0, ss_refused = 0\<rparr>"

definition count_span :: "(string \<Rightarrow> duration) \<Rightarrow> span \<Rightarrow> service_self_time \<Rightarrow> service_self_time" where
  "count_span children sp r =
     r\<lparr>ss_self := wrap64 (ss_self r + self_time children sp), ss_spans := ss_spans r + 1,
       ss_errors := ss_errors r + (if effective_status sp = StatusError then 1 else 0),
       ss_refused := ss_refused r + (if effective_status sp = StatusRefused then 1 else 0)\<rparr>"

definition add_span :: "(string \<Rightarrow> duration) \<Rightarrow> span \<Rightarrow> (string \<times> service_self_time) list \<Rightarrow> (string \<times> service_self_time) list" where
  "add_span children sp agg =
     AList.update (sp_service sp)
       (count_span children sp (case map_of agg (sp_service sp) of None \<Rightarrow> new_row (sp_service sp) | Some r \<Rightarrow> r)) agg"

definition self_time_by_service :: "span list \<Rightarrow> service_self_time list" where
  "self_time_by_service spans =
     sort_key (\<lambda>r. (- ss_self r, ss_service r)) (map snd (fold (add_span (child_time spans)) spans []))"

section \<open>What the rows account for\<close>

definition span_time :: "span list \<Rightarrow> duration" where
  "span_time spans = sum_list (map sp_duration spans)"

text \<open>Durations no clock makes negative, and a trace whose total fits.\<close>

definition times_ok :: "span list \<Rightarrow> bool" where
  "times_ok spans \<longleftrightarrow> (\<forall>sp\<in>set spans. 0 \<le> sp_duration sp) \<and> span_time spans < 2 ^ 63"

definition children_of :: "string \<Rightarrow> span list \<Rightarrow> span list" where
  "children_of i spans = filter (\<lambda>sp. sp_parent sp = i \<and> i \<noteq> []) spans"

text \<open>The spans no span of the trace waits for.\<close>

definition roots :: "span list \<Rightarrow> span list" where
  "roots spans = filter (\<lambda>sp. sp_parent sp = [] \<or> sp_parent sp \<notin> sp_id ` set spans) spans"

lemma span_time_simps [simp]:
  "span_time [] = 0" "span_time (sp # spans) = sp_duration sp + span_time spans"
  "span_time (xs @ ys) = span_time xs + span_time ys"
  by (simp_all add: span_time_def)

lemma span_time_nonneg: "\<forall>sp\<in>set spans. 0 \<le> sp_duration sp \<Longrightarrow> 0 \<le> span_time spans"
  by (induction spans) auto

lemma span_time_member: "\<forall>sp\<in>set spans. 0 \<le> sp_duration sp \<Longrightarrow> x \<in> set spans \<Longrightarrow> sp_duration x \<le> span_time spans"
proof (induction spans)
  case (Cons sp spans)
  then have "0 \<le> span_time spans" by (intro span_time_nonneg) simp
  with Cons show ?case by auto
qed simp

lemma span_time_filter: "\<forall>sp\<in>set spans. 0 \<le> sp_duration sp \<Longrightarrow> span_time (filter P spans) \<le> span_time spans"
  by (induction spans) auto

lemma child_time_fold:
  assumes "\<forall>sp\<in>set spans. 0 \<le> sp_duration sp" and "\<And>i. 0 \<le> m i \<and> m i + span_time spans < 2 ^ 63"
  shows "fold add_child spans m i = m i + span_time (children_of i spans)"
  using assms
proof (induction spans arbitrary: m)
  case (Cons sp spans)
  have rest: "0 \<le> span_time spans" using Cons.prems(1) by (simp add: span_time_nonneg)
  have step: "add_child sp m = (\<lambda>j. m j + (if sp_parent sp = j \<and> j \<noteq> [] then sp_duration sp else 0))"
  proof
    fix j
    from Cons.prems(2) [of j] have "0 \<le> m j" "m j + (sp_duration sp + span_time spans) < 2 ^ 63" by simp_all
    moreover have "0 \<le> sp_duration sp" using Cons.prems(1) by simp
    ultimately have "wrap64 (m j + sp_duration sp) = m j + sp_duration sp" using rest by (intro wrap64_id) linarith+
    then show "add_child sp m j = m j + (if sp_parent sp = j \<and> j \<noteq> [] then sp_duration sp else 0)"
      by (auto simp: add_child_def)
  qed
  have bounds: "0 \<le> add_child sp m j \<and> add_child sp m j + span_time spans < 2 ^ 63" for j
    unfolding step using Cons.prems(1) Cons.prems(2) [of j] by auto
  have "fold add_child spans (add_child sp m) i = add_child sp m i + span_time (children_of i spans)"
    by (rule Cons.IH) (use Cons.prems(1) bounds in auto)
  then show ?case by (simp add: step children_of_def)
qed (simp add: children_of_def)

lemma child_time_eq: "times_ok spans \<Longrightarrow> child_time spans i = span_time (children_of i spans)"
  using child_time_fold [of spans "\<lambda>_. 0" i] by (simp add: times_ok_def child_time_def)

lemma self_time_eq:
  assumes "times_ok spans" and "sp \<in> set spans"
  shows "self_time (child_time spans) sp = max 0 (sp_duration sp - span_time (children_of (sp_id sp) spans))"
proof -
  let ?c = "span_time (children_of (sp_id sp) spans)"
  have "0 \<le> ?c" "?c \<le> span_time spans"
    using assms(1) by (auto simp: times_ok_def children_of_def intro: span_time_nonneg span_time_filter)
  moreover have "sp_duration sp \<le> span_time spans"
    using assms by (auto simp: times_ok_def intro: span_time_member)
  moreover have "0 \<le> sp_duration sp" "span_time spans < 2 ^ 63" using assms by (auto simp: times_ok_def)
  ultimately have "wrap64 (sp_duration sp - ?c) = sp_duration sp - ?c" by (intro wrap64_id) linarith+
  then show ?thesis using assms(1) by (simp add: self_time_def child_time_eq max_def)
qed

section \<open>The rows\<close>

lemma sum_alist_update:
  fixes g :: "'v \<Rightarrow> 'n :: ab_group_add"
  assumes "wf_alist m"
  shows "sum_list (map (g \<circ> snd) (AList.update k v m)) =
    sum_list (map (g \<circ> snd) m) + g v - (case map_of m k of None \<Rightarrow> 0 | Some u \<Rightarrow> g u)"
  using assms
proof (induction m)
  case (Cons x m)
  obtain j u where x: "x = (j, u)" by fastforce
  show ?case
  proof (cases "j = k")
    case True
    with Cons.prems x have "map_of m k = None" by (simp add: map_of_eq_None_iff)
    with True x show ?thesis by simp
  qed (use Cons x in \<open>simp add: algebra_simps\<close>)
qed simp

definition sum_rows :: "(service_self_time \<Rightarrow> int) \<Rightarrow> (string \<times> service_self_time) list \<Rightarrow> int" where
  "sum_rows g agg = sum_list (map (g \<circ> snd) agg)"

lemma sum_rows_add:
  assumes "wf_alist agg" and "\<And>s. g (new_row s) = 0"
  shows "sum_rows g (add_span ch sp agg) = sum_rows g agg +
    (let r = (case map_of agg (sp_service sp) of None \<Rightarrow> new_row (sp_service sp) | Some r \<Rightarrow> r) in g (count_span ch sp r) - g r)"
  unfolding sum_rows_def add_span_def sum_alist_update [OF assms(1)]
  by (simp add: assms(2) Let_def split: option.split)

text \<open>What a run over the spans keeps: a row per service, counts that add up, and self times that
  never reach the limit of the type.\<close>

definition rows_ok :: "(string \<Rightarrow> duration) \<Rightarrow> span list \<Rightarrow> (string \<times> service_self_time) list \<Rightarrow> bool" where
  "rows_ok ch done agg \<longleftrightarrow> wf_alist agg \<and> (\<forall>(s, r)\<in>set agg. ss_service r = s \<and> 0 \<le> ss_self r) \<and>
     fst ` set agg = sp_service ` set done \<and>
     sum_rows ss_spans agg = int (length done) \<and>
     sum_rows ss_errors agg = int (length (filter (\<lambda>sp. effective_status sp = StatusError) done)) \<and>
     sum_rows ss_refused agg = int (length (filter (\<lambda>sp. effective_status sp = StatusRefused) done)) \<and>
     sum_rows ss_self agg = sum_list (map (self_time ch) done)"

lemma sum_map_nonneg: "\<forall>x\<in>set xs. 0 \<le> f x \<Longrightarrow> 0 \<le> sum_list (map f xs)" for f :: "'a \<Rightarrow> int"
  by (induction xs) auto

lemma sum_map_member: "\<forall>x\<in>set xs. 0 \<le> f x \<Longrightarrow> y \<in> set xs \<Longrightarrow> f y \<le> sum_list (map f xs)" for f :: "'a \<Rightarrow> int"
proof (induction xs)
  case (Cons x xs)
  have "0 \<le> sum_list (map f xs)" using Cons.prems(1) by (intro sum_map_nonneg) simp
  with Cons show ?case by auto
qed simp

lemma self_time_nonneg: "0 \<le> self_time ch sp"
  by (simp add: self_time_def Let_def)

lemma row_le_sum:
  assumes "rows_ok ch done agg" and "(s, r) \<in> set agg"
  shows "ss_self r \<le> sum_list (map (self_time ch) done)"
proof -
  have "(ss_self \<circ> snd) (s, r) \<le> sum_list (map (ss_self \<circ> snd) agg)"
    by (rule sum_map_member [OF _ assms(2)]) (use assms(1) in \<open>auto simp: rows_ok_def\<close>)
  with assms(1) show ?thesis by (simp add: rows_ok_def sum_rows_def)
qed

lemma add_span_ok:
  assumes ok: "rows_ok ch done agg" and small: "sum_list (map (self_time ch) done) + self_time ch sp < 2 ^ 63"
  shows "rows_ok ch (done @ [sp]) (add_span ch sp agg)"
proof -
  define r where "r = (case map_of agg (sp_service sp) of None \<Rightarrow> new_row (sp_service sp) | Some r \<Rightarrow> r)"
  have wf: "wf_alist agg" using ok by (simp add: rows_ok_def)
  have r: "ss_service r = sp_service sp \<and> 0 \<le> ss_self r \<and> ss_self r \<le> sum_list (map (self_time ch) done)"
  proof (cases "map_of agg (sp_service sp)")
    case None
    then show ?thesis by (simp add: r_def new_row_def sum_map_nonneg self_time_nonneg)
  next
    case (Some q)
    then have "(sp_service sp, q) \<in> set agg" by (rule map_of_SomeD)
    with ok row_le_sum [OF ok this] Some show ?thesis by (auto simp: rows_ok_def r_def)
  qed
  have w: "wrap64 (ss_self r + self_time ch sp) = ss_self r + self_time ch sp"
    using r small self_time_nonneg [of ch sp] by (intro wrap64_id) auto
  have sums: "sum_rows g (add_span ch sp agg) = sum_rows g agg + (g (count_span ch sp r) - g r)" if "\<And>s. g (new_row s) = 0" for g
    using sum_rows_add [of agg g ch sp, OF wf that] by (simp add: r_def [symmetric] Let_def)
  have agg': "add_span ch sp agg = AList.update (sp_service sp) (count_span ch sp r) agg"
    by (simp add: add_span_def r_def)
  have "\<forall>(s, q)\<in>set (add_span ch sp agg). ss_service q = s \<and> 0 \<le> ss_self q"
    using ok r w self_time_nonneg [of ch sp] set_alist_update [of "sp_service sp" "count_span ch sp r" agg]
    unfolding agg' rows_ok_def by (fastforce simp: count_span_def)
  moreover have "fst ` set (add_span ch sp agg) = insert (sp_service sp) (fst ` set agg)"
    by (simp add: agg' dom_update)
  moreover have "wf_alist (add_span ch sp agg)" using wf by (simp add: agg')
  ultimately show ?thesis
    using ok w by (simp add: rows_ok_def sums new_row_def count_span_def)
qed

lemma rows_ok_fold:
  assumes "rows_ok ch done agg" and "sum_list (map (self_time ch) (done @ spans)) < 2 ^ 63"
  shows "rows_ok ch (done @ spans) (fold (add_span ch) spans agg)"
  using assms
proof (induction spans arbitrary: "done" agg)
  case (Cons sp spans)
  have "0 \<le> sum_list (map (self_time ch) spans)" by (simp add: sum_map_nonneg self_time_nonneg)
  then have "rows_ok ch (done @ [sp]) (add_span ch sp agg)" using Cons.prems by (intro add_span_ok) simp_all
  from Cons.IH [OF this] Cons.prems(2) show ?case by simp
qed simp

lemma sum_children:
  assumes "distinct is"
  shows "sum_list (map (\<lambda>i. span_time (children_of i spans)) is) = span_time (filter (\<lambda>sp. sp_parent sp \<noteq> [] \<and> sp_parent sp \<in> set is) spans)"
proof (induction spans)
  case (Cons sp spans)
  have "span_time (children_of i (sp # spans)) = (if i = sp_parent sp \<and> i \<noteq> [] then sp_duration sp else 0) + span_time (children_of i spans)" for i
    by (simp add: children_of_def)
  moreover have "sum_list (map (\<lambda>i. if i = sp_parent sp \<and> i \<noteq> [] then sp_duration sp else 0) is) =
      (if sp_parent sp \<noteq> [] \<and> sp_parent sp \<in> set is then sp_duration sp else 0)"
    using assms by (induction "is") auto
  ultimately show ?case using Cons by (simp add: sum_list_addf)
qed (simp add: children_of_def sum_list_triv)

lemma span_time_split: "span_time spans = span_time (filter P spans) + span_time (filter (\<lambda>sp. \<not> P sp) spans)"
  by (induction spans) auto

lemma own_times_roots:
  assumes "distinct (map sp_id spans)"
  shows "sum_list (map (\<lambda>sp. sp_duration sp - span_time (children_of (sp_id sp) spans)) spans) = span_time (roots spans)"
proof -
  have "span_time spans = span_time (roots spans) + span_time (filter (\<lambda>sp. sp_parent sp \<noteq> [] \<and> sp_parent sp \<in> set (map sp_id spans)) spans)"
    using span_time_split [of spans "\<lambda>sp. sp_parent sp \<noteq> [] \<and> sp_parent sp \<in> set (map sp_id spans)"] by (simp add: roots_def)
  then show ?thesis
    using sum_children [OF assms, of spans] by (simp add: sum_list_subtractf span_time_def comp_def)
qed

lemma sum_max_ge: "sum_list (map f xs) \<le> sum_list (map (\<lambda>x. max 0 (f x)) xs)" for f :: "'a \<Rightarrow> int"
  by (induction xs) auto

lemma sum_max_eq: "sum_list (map f xs) = sum_list (map (\<lambda>x. max 0 (f x)) xs) \<longleftrightarrow> (\<forall>x\<in>set xs. 0 \<le> f x)" for f :: "'a \<Rightarrow> int"
proof (induction xs)
  case (Cons x xs)
  with sum_max_ge [of f xs] show ?case by (cases "0 \<le> f x") auto
qed simp

lemma self_times_bounded:
  assumes "times_ok spans"
  shows "sum_list (map (self_time (child_time spans)) spans) < 2 ^ 63"
proof -
  have "self_time (child_time spans) sp \<le> sp_duration sp" if "sp \<in> set spans" for sp
  proof -
    have "0 \<le> span_time (children_of (sp_id sp) spans)"
      using assms by (auto simp: times_ok_def children_of_def intro: span_time_nonneg)
    with self_time_eq [OF assms that] show ?thesis using assms that by (simp add: times_ok_def)
  qed
  then have "sum_list (map (self_time (child_time spans)) spans) \<le> span_time spans"
    unfolding span_time_def by (rule sum_list_mono)
  with assms show ?thesis by (simp add: times_ok_def)
qed

lemma sum_sort: "sum_list (map g (sort_key k xs)) = sum_list (map g xs)" for g :: "'a \<Rightarrow> int"
proof -
  have "sum_mset (mset (map g (sort_key k xs))) = sum_mset (mset (map g xs))" by simp
  then show ?thesis by (simp only: sum_mset_sum_list)
qed

lemma ranked:
  "sorted_wrt (\<lambda>r q. ss_self q < ss_self r \<or> ss_self q = ss_self r \<and> ss_service r \<le> ss_service q)
     (sort_key (\<lambda>r. (- ss_self r, ss_service r)) rows)" (is "sorted_wrt ?better (sort_key ?key rows)")
proof -
  have better: "?better r q" if "?key r \<le> ?key q" for r q
    using that by auto
  have "sorted (map ?key (sort_key ?key rows))" by (rule sorted_sort_key)
  then have "sorted_wrt (\<lambda>r q. ?key r \<le> ?key q) (sort_key ?key rows)" by (simp only: sorted_map)
  then show ?thesis by (rule sorted_wrt_mono_rel [rotated]) (rule better)
qed

section \<open>The row of a service\<close>

text \<open>What the spans of a service add up to; the time of a span's own is what its direct children leave of it, and nothing
  when they outlast it.\<close>

definition own_time :: "span list \<Rightarrow> span \<Rightarrow> duration" where
  "own_time spans sp = max 0 (sp_duration sp - span_time (children_of (sp_id sp) spans))"

definition of_service :: "string \<Rightarrow> span list \<Rightarrow> span list" where
  "of_service s spans = filter (\<lambda>sp. sp_service sp = s) spans"

definition status_count :: "span_status \<Rightarrow> span list \<Rightarrow> int" where
  "status_count st spans = int (length (filter (\<lambda>sp. effective_status sp = st) spans))"

definition row_of :: "(span \<Rightarrow> duration) \<Rightarrow> string \<Rightarrow> span list \<Rightarrow> service_self_time" where
  "row_of own s spans =
     \<lparr>ss_service = s, ss_self = sum_list (map own (of_service s spans)), ss_spans = int (length (of_service s spans)),
      ss_errors = status_count StatusError (of_service s spans), ss_refused = status_count StatusRefused (of_service s spans)\<rparr>"

lemma of_service_part: "sum_list (map (self_time ch) (of_service s spans)) \<le> sum_list (map (self_time ch) spans)"
  by (induction spans) (auto simp: of_service_def intro: add_increasing self_time_nonneg)

lemma rows_fold:
  assumes "sum_list (map (self_time ch) spans) < 2 ^ 63"
  shows "map_of (fold (add_span ch) spans []) s = (if s \<in> sp_service ` set spans then Some (row_of (self_time ch) s spans) else None)"
  using assms
proof (induction spans arbitrary: s rule: rev_induct)
  case (snoc sp spans)
  let ?agg = "fold (add_span ch) spans []" and ?s = "sp_service sp"
  have "sum_list (map (self_time ch) spans) < 2 ^ 63" using snoc.prems self_time_nonneg [of ch sp] by simp
  note ih = snoc.IH [OF this]
  have "of_service ?s spans = []" if "?s \<notin> sp_service ` set spans"
    using that unfolding of_service_def filter_empty_conv by (metis image_eqI)
  then have r: "(case map_of ?agg ?s of None \<Rightarrow> new_row ?s | Some r \<Rightarrow> r) = row_of (self_time ch) ?s spans"
    by (auto simp: ih new_row_def row_of_def status_count_def)
  have "0 \<le> sum_list (map (self_time ch) (of_service ?s spans))" by (simp add: sum_map_nonneg self_time_nonneg)
  then have w: "wrap64 (sum_list (map (self_time ch) (of_service ?s spans)) + self_time ch sp) =
      sum_list (map (self_time ch) (of_service ?s spans)) + self_time ch sp"
    using of_service_part [of ch ?s spans] snoc.prems self_time_nonneg [of ch sp] by (intro wrap64_id) simp_all
  have here: "count_span ch sp (row_of (self_time ch) ?s spans) = row_of (self_time ch) ?s (spans @ [sp])"
    using w by (simp add: count_span_def row_of_def of_service_def status_count_def)
  have "of_service s (spans @ [sp]) = of_service s spans" if "s \<noteq> ?s"
    using that by (simp add: of_service_def)
  then have "row_of (self_time ch) s (spans @ [sp]) = row_of (self_time ch) s spans" if "s \<noteq> ?s"
    using that by (simp add: row_of_def)
  moreover have "fold (add_span ch) (spans @ [sp]) [] = AList.update ?s (row_of (self_time ch) ?s (spans @ [sp])) ?agg"
    using here by (simp add: add_span_def [of ch sp] r)
  ultimately show ?case using ih [of s] by (cases "s = ?s") (simp_all add: update_conv' del: fold_append)
qed simp

text \<open>C34. Where the time of a trace went: in a trace of distinct spans whose durations are not
  negative and add up without overflow, every service has exactly one row, biggest self time
  first and ties by name. Its row counts its spans, its errors and its refusals, and its self time is
  the sum over its spans of what their direct children leave of their duration, nothing where the
  children outlast it. All self times together never account for less than the spans no other span
  waits for, and for exactly that when no span's direct children outlast it.\<close>

theorem self_time_accounts:
  assumes "times_ok spans" and "distinct (map sp_id spans)"
  shows "distinct (map ss_service (self_time_by_service spans)) \<and>
    set (self_time_by_service spans) = (\<lambda>s. row_of (own_time spans) s spans) ` sp_service ` set spans \<and>
    sorted_wrt (\<lambda>r q. ss_self q < ss_self r \<or> ss_self q = ss_self r \<and> ss_service r \<le> ss_service q) (self_time_by_service spans) \<and>
    span_time (roots spans) \<le> sum_list (map ss_self (self_time_by_service spans)) \<and>
    (sum_list (map ss_self (self_time_by_service spans)) = span_time (roots spans) \<longleftrightarrow>
      (\<forall>sp\<in>set spans. span_time (children_of (sp_id sp) spans) \<le> sp_duration sp))"
proof -
  define ch where "ch = child_time spans"
  define agg where "agg = fold (add_span ch) spans []"
  define rest where "rest sp = sp_duration sp - span_time (children_of (sp_id sp) spans)" for sp :: span
  have rows: "self_time_by_service spans = sort_key (\<lambda>r. (- ss_self r, ss_service r)) (map snd agg)"
    by (simp add: self_time_by_service_def agg_def ch_def)
  note small = self_times_bounded [OF assms(1), folded ch_def]
  have ok: "rows_ok ch spans agg"
    using rows_ok_fold [of ch "[]" "[]" spans] small by (simp add: agg_def rows_ok_def sum_rows_def)
  have keys: "wf_alist agg" "\<forall>(s, r)\<in>set agg. ss_service r = s" using ok unfolding rows_ok_def by blast+
  have own: "self_time ch sp = own_time spans sp" if "sp \<in> set spans" for sp
    using self_time_eq [OF assms(1) that] by (simp add: ch_def own_time_def)
  have row: "row_of (self_time ch) s spans = row_of (own_time spans) s spans" for s
    using own by (auto simp: row_of_def of_service_def intro!: arg_cong [of _ _ sum_list])
  have names: "map ss_service (map snd agg) = map fst agg"
    using keys(2) by (induction agg) auto
  have "distinct (map ss_service (self_time_by_service spans))"
    unfolding rows distinct_map_sort_key names by (rule keys(1))
  moreover have "set (self_time_by_service spans) = (\<lambda>s. row_of (own_time spans) s spans) ` sp_service ` set spans"
  proof -
    have "snd ` set agg = {r. \<exists>s. map_of agg s = Some r}" using keys(1) by force
    also have "\<dots> = (\<lambda>s. row_of (own_time spans) s spans) ` sp_service ` set spans"
      unfolding agg_def rows_fold [OF small] row by auto
    finally show ?thesis by (simp add: rows)
  qed
  moreover have "sorted_wrt (\<lambda>r q. ss_self q < ss_self r \<or> ss_self q = ss_self r \<and> ss_service r \<le> ss_service q) (self_time_by_service spans)"
    unfolding rows by (rule ranked)
  moreover have "sum_list (map ss_self (self_time_by_service spans)) = sum_list (map (\<lambda>sp. max 0 (rest sp)) spans)"
  proof -
    have "sum_list (map ss_self (self_time_by_service spans)) = sum_rows ss_self agg"
      unfolding rows sum_rows_def map_map [symmetric] by (rule sum_sort)
    also have "\<dots> = sum_list (map (self_time ch) spans)" using ok unfolding rows_ok_def by blast
    finally show ?thesis using own by (simp add: rest_def own_time_def cong: map_cong)
  qed
  moreover have "span_time (roots spans) = sum_list (map rest spans)"
    unfolding rest_def by (rule own_times_roots [OF assms(2), symmetric])
  moreover have "(\<forall>sp\<in>set spans. 0 \<le> rest sp) \<longleftrightarrow> (\<forall>sp\<in>set spans. span_time (children_of (sp_id sp) spans) \<le> sp_duration sp)"
    by (simp add: rest_def)
  ultimately show ?thesis
    using sum_max_ge [of rest spans] sum_max_eq [of rest spans] by metis
qed

definition sample_span :: "string \<Rightarrow> string \<Rightarrow> string \<Rightarrow> duration \<Rightarrow> span" where
  "sample_span i parent service d = \<lparr>sp_trace = ''t'', sp_id = i, sp_parent = parent, sp_service = service, sp_operation = [], sp_kind = ''Server'',
     sp_scope_name = [], sp_scope_version = [], sp_start = 0, sp_duration = d, sp_status = ''Unset'', sp_message = [],
     sp_attributes = [''http.status_code'' \<mapsto> ''404''], sp_resource = Map.empty, sp_events = []\<rparr>"

text \<open>Two children that overlap in the time of their parent.\<close>

definition overlapping :: "span list" where
  "overlapping = [sample_span ''r'' [] ''web'' 50, sample_span ''a'' ''r'' ''pay'' 40, sample_span ''b'' ''r'' ''pay'' 40]"

text \<open>The parent waits for children that outlast it and has no time of its own; they have all of theirs.\<close>

theorem self_time_accounts_witness:
  "self_time_by_service overlapping =
     [\<lparr>ss_service = ''pay'', ss_self = 80, ss_spans = 2, ss_errors = 0, ss_refused = 2\<rparr>,
      \<lparr>ss_service = ''web'', ss_self = 0, ss_spans = 1, ss_errors = 0, ss_refused = 1\<rparr>] \<and>
   row_of (own_time overlapping) ''web'' overlapping \<in> set (self_time_by_service overlapping) \<and>
   sum_list (map ss_self (self_time_by_service overlapping)) \<noteq> span_time (roots overlapping)"
proof -
  have ok: "times_ok overlapping" by (simp add: times_ok_def overlapping_def sample_span_def)
  have ids: "distinct (map sp_id overlapping)" by (simp add: overlapping_def sample_span_def)
  have "\<not> (\<forall>sp\<in>set overlapping. span_time (children_of (sp_id sp) overlapping) \<le> sp_duration sp)"
    by (simp add: overlapping_def sample_span_def children_of_def)
  moreover have "''web'' \<in> sp_service ` set overlapping" by (simp add: overlapping_def sample_span_def)
  moreover have "self_time_by_service overlapping =
     [\<lparr>ss_service = ''pay'', ss_self = 80, ss_spans = 2, ss_errors = 0, ss_refused = 2\<rparr>,
      \<lparr>ss_service = ''web'', ss_self = 0, ss_spans = 1, ss_errors = 0, ss_refused = 1\<rparr>]" by code_simp
  ultimately show ?thesis using self_time_accounts [OF ok ids] by blast
qed

end
