(* ===== verification/Topology.thy ===== *)
theory Topology
  imports HealthRollup
begin

text \<open>
  Which workloads are transport (hub/internal/topology/config.go, classify.go, meshrole.go): the
  glob patterns of the configuration and of the code, the evidence of mesh labels, and the finer
  role of a proxy. \<open>path.Match\<close> is modelled by its documented grammar: a pattern is parsed into
  tokens, or is malformed; \<open>*\<close> and \<open>?\<close> do not match a slash.
\<close>

section \<open>Glob patterns\<close>

text \<open>\<open>utf8.DecodeRuneInString\<close>: the rune a string starts with and its width; an invalid encoding
  is the replacement character, of width 1.\<close>

definition continuation :: "int \<Rightarrow> bool" where
  "continuation b \<longleftrightarrow> 128 \<le> b \<and> b < 192"

definition decode_rune :: "string \<Rightarrow> int \<times> nat" where
  "decode_rune s =
     (case map of_char s of
        [] \<Rightarrow> (65533, 0)
      | b0 # bs \<Rightarrow>
          if b0 < 128 then (b0, 1)
          else (case bs of
              b1 # b2 # b3 # _ \<Rightarrow>
                if 194 \<le> b0 \<and> b0 < 224 \<and> continuation b1 then ((b0 - 192) * 64 + (b1 - 128), 2)
                else if 224 \<le> b0 \<and> b0 < 240 \<and> continuation b1 \<and> continuation b2 \<and>
                  (b0 = 224 \<longrightarrow> 160 \<le> b1) \<and> (b0 = 237 \<longrightarrow> b1 < 160)
                  then ((b0 - 224) * 4096 + (b1 - 128) * 64 + (b2 - 128), 3)
                else if 240 \<le> b0 \<and> b0 < 245 \<and> continuation b1 \<and> continuation b2 \<and> continuation b3 \<and>
                  (b0 = 240 \<longrightarrow> 144 \<le> b1) \<and> (b0 = 244 \<longrightarrow> b1 < 144)
                  then ((b0 - 240) * 262144 + (b1 - 128) * 4096 + (b2 - 128) * 64 + (b3 - 128), 4)
                else (65533, 1)
            | [b1, b2] \<Rightarrow>
                if 194 \<le> b0 \<and> b0 < 224 \<and> continuation b1 then ((b0 - 192) * 64 + (b1 - 128), 2)
                else if 224 \<le> b0 \<and> b0 < 240 \<and> continuation b1 \<and> continuation b2 \<and>
                  (b0 = 224 \<longrightarrow> 160 \<le> b1) \<and> (b0 = 237 \<longrightarrow> b1 < 160)
                  then ((b0 - 224) * 4096 + (b1 - 128) * 64 + (b2 - 128), 3)
                else (65533, 1)
            | [b1] \<Rightarrow>
                if 194 \<le> b0 \<and> b0 < 224 \<and> continuation b1 then ((b0 - 192) * 64 + (b1 - 128), 2)
                else (65533, 1)
            | [] \<Rightarrow> (65533, 1)))"

datatype glob_token = Star | AnyRune | Runes bool "(int \<times> int) list" | Byte char

text \<open>A possibly escaped rune of a character class.\<close>

definition glob_rune :: "string \<Rightarrow> (int \<times> string) option" where
  "glob_rune s =
     (if s = [] \<or> hd s = CHR ''-'' \<or> hd s = CHR '']'' then None
      else let t = (if hd s = char_of (92 :: int) then tl s else s)
        in if t = [] then None
           else (case decode_rune t of (r, n) \<Rightarrow>
             if r = 65533 \<and> n = 1 then None
             else if drop n t = [] then None else Some (r, drop n t)))"

text \<open>The ranges of a class, up to its closing bracket; \<open>fuel\<close> bounds the number of ranges, each of
  which reads a byte at least.\<close>

fun glob_ranges :: "nat \<Rightarrow> (int \<times> int) list \<Rightarrow> string \<Rightarrow> ((int \<times> int) list \<times> string) option" where
  "glob_ranges 0 rs s = None"
| "glob_ranges (Suc n) rs s =
     (if s \<noteq> [] \<and> hd s = CHR '']'' \<and> rs \<noteq> [] then Some (rs, tl s)
      else case glob_rune s of
        None \<Rightarrow> None
      | Some (lo, t) \<Rightarrow>
          if hd t = CHR ''-'' then
            (case glob_rune (tl t) of None \<Rightarrow> None | Some (hi, u) \<Rightarrow> glob_ranges n (rs @ [(lo, hi)]) u)
          else glob_ranges n (rs @ [(lo, lo)]) t)"

fun glob_tokens :: "nat \<Rightarrow> string \<Rightarrow> glob_token list option" where
  "glob_tokens 0 s = (if s = [] then Some [] else None)"
| "glob_tokens (Suc n) [] = Some []"
| "glob_tokens (Suc n) (c # s) =
     (if c = CHR ''*'' then map_option ((#) Star) (glob_tokens n s)
      else if c = CHR ''?'' then map_option ((#) AnyRune) (glob_tokens n s)
      else if c = char_of (92 :: int) then
        (case s of [] \<Rightarrow> None | d # t \<Rightarrow> map_option ((#) (Byte d)) (glob_tokens n t))
      else if c = CHR ''['' then
        (let neg = (s \<noteq> [] \<and> hd s = CHR ''^''); body = (if neg then tl s else s)
         in case glob_ranges (length body) [] body of
              None \<Rightarrow> None
            | Some (rs, t) \<Rightarrow> map_option ((#) (Runes neg rs)) (glob_tokens n t))
      else map_option ((#) (Byte c)) (glob_tokens n s))"

text \<open>Every token reads at least a byte, so the length of the pattern is fuel enough.\<close>

definition parse_glob :: "string \<Rightarrow> glob_token list option" where
  "parse_glob p = glob_tokens (length p) p"

function glob_matches :: "glob_token list \<Rightarrow> string \<Rightarrow> bool" where
  "glob_matches [] s = (s = [])"
| "glob_matches (Star # ts) s =
     (glob_matches ts s \<or> (case s of [] \<Rightarrow> False | c # cs \<Rightarrow> c \<noteq> CHR ''/'' \<and> glob_matches (Star # ts) cs))"
| "glob_matches (AnyRune # ts) s = (s \<noteq> [] \<and> hd s \<noteq> CHR ''/'' \<and> glob_matches ts (drop (snd (decode_rune s)) s))"
| "glob_matches (Runes neg rs # ts) s =
     (s \<noteq> [] \<and> list_ex (\<lambda>(lo, hi). lo \<le> fst (decode_rune s) \<and> fst (decode_rune s) \<le> hi) rs \<noteq> neg \<and>
      glob_matches ts (drop (snd (decode_rune s)) s))"
| "glob_matches (Byte c # ts) s = (s \<noteq> [] \<and> hd s = c \<and> glob_matches ts (tl s))"
  by pat_completeness auto
termination
  by (relation "measure (\<lambda>(ts, s). length ts + length s)") auto

text \<open>\<open>None\<close> is the error of a malformed pattern.\<close>

definition path_match :: "string \<Rightarrow> string \<Rightarrow> bool option" where
  "path_match p s = map_option (\<lambda>ts. glob_matches ts s) (parse_glob p)"

section \<open>Configuration\<close>

record topology_config =
  tp_transport :: "string list"
  tp_applications :: "string list"
  tp_disable_defaults :: bool

definition default_topology :: topology_config where
  "default_topology = \<lparr>tp_transport = [], tp_applications = [], tp_disable_defaults = False\<rparr>"

definition builtin_transport :: "string list" where
  "builtin_transport =
     [''istio-proxy'', ''istio-ingressgateway*'', ''istio-egressgateway*'', ''istiod'', ''istio-system'',
      ''ztunnel'', ''ztunnel-*'', ''waypoint'', ''*-waypoint'', ''waypoint-*'',
      ''linkerd'', ''linkerd-*'',
      ''consul-dataplane*'', ''consul-connect-envoy*'',
      ''kuma-dp'', ''kuma-sidecar'', ''kuma-system'', ''kuma-control-plane'',
      ''envoy-gateway'', ''envoy-gateway-system'']"

definition pattern_ok :: "string \<Rightarrow> bool" where
  "pattern_ok p \<longleftrightarrow> trim_space p \<noteq> [] \<and> path_match p ''probe'' \<noteq> None"

definition validate_topology :: "topology_config \<Rightarrow> bool" where
  "validate_topology c \<longleftrightarrow> list_all pattern_ok (tp_transport c) \<and> list_all pattern_ok (tp_applications c) \<and>
     \<not> (tp_disable_defaults c \<and> tp_transport c = [])"

text \<open>The decoder of the document is a parameter, \<open>None\<close> for a document it refuses.\<close>

definition parse_topology :: "(string \<Rightarrow> topology_config option) \<Rightarrow> string \<Rightarrow> topology_config option" where
  "parse_topology decode data =
     (if trim_space data = [] then Some default_topology
      else case decode data of None \<Rightarrow> None | Some c \<Rightarrow> if validate_topology c then Some c else None)"

definition transport_patterns :: "topology_config \<Rightarrow> string list" where
  "transport_patterns c = (if tp_disable_defaults c then tp_transport c else builtin_transport @ tp_transport c)"

section \<open>Classification\<close>

record classifier =
  cl_transport :: "string list"
  cl_apps :: "string list"
  cl_evidenced :: "string set"

definition lower_patterns :: "string list \<Rightarrow> string list" where
  "lower_patterns ps = map (\<lambda>p. to_lower (trim_space p)) ps"

definition new_classifier :: "topology_config \<Rightarrow> classifier" where
  "new_classifier c = \<lparr>cl_transport = lower_patterns (transport_patterns c), cl_apps = lower_patterns (tp_applications c), cl_evidenced = {}\<rparr>"

definition with_evidence :: "string list \<Rightarrow> classifier \<Rightarrow> classifier" where
  "with_evidence names c =
     (if names = [] then c else c\<lparr>cl_evidenced := set (map to_lower (filter (\<lambda>n. n \<noteq> []) names))\<rparr>)"

definition match_one :: "string list \<Rightarrow> string \<Rightarrow> bool" where
  "match_one ps s = list_ex (\<lambda>p. path_match p s = Some True) ps"

definition match_any :: "string list \<Rightarrow> string \<Rightarrow> bool" where
  "match_any ps name =
     (if ps = [] then False
      else let lowered = to_lower name
        in if match_one ps lowered then True
           else if CHR ''.'' \<notin> set lowered then False
           else list_ex (match_one ps) (split_on (CHR ''.'') lowered))"

definition is_transport :: "classifier \<Rightarrow> string \<Rightarrow> bool" where
  "is_transport c name =
     (if name = [] then False
      else if match_any (cl_apps c) name then False
      else if to_lower name \<in> cl_evidenced c then True
      else match_any (cl_transport c) name)"

datatype topology_role = ServiceRole | TransportRole

definition classifier_role :: "classifier \<Rightarrow> string \<Rightarrow> topology_role" where
  "classifier_role c name = (if is_transport c name then TransportRole else ServiceRole)"

section \<open>The kind of transport\<close>

datatype mesh_role = MeshUnknown | ControlPlane | IngressGateway | EgressGateway | MeshGateway | Waypoint | Ztunnel | Sidecar

definition mesh_role_patterns :: "(mesh_role \<times> string list) list" where
  "mesh_role_patterns =
     [(Ztunnel, [''ztunnel'', ''ztunnel-*'']),
      (Waypoint, [''waypoint'', ''*-waypoint'', ''waypoint-*'']),
      (IngressGateway, [''istio-ingressgateway*'']),
      (EgressGateway, [''istio-egressgateway*'']),
      (ControlPlane, [''istiod'', ''linkerd-destination'', ''linkerd-identity'', ''linkerd-proxy-injector'', ''kuma-control-plane'']),
      (Sidecar, [''istio-proxy'', ''linkerd-proxy'', ''consul-dataplane*'', ''consul-connect-envoy*'', ''kuma-dp'', ''kuma-sidecar''])]"

definition label_value :: "(string \<rightharpoonup> string) \<Rightarrow> string \<Rightarrow> string" where
  "label_value labels k = (case labels k of None \<Rightarrow> [] | Some v \<Rightarrow> v)"

definition mesh_role_from_labels :: "(string \<rightharpoonup> string) \<Rightarrow> mesh_role" where
  "mesh_role_from_labels labels =
     (let comp = to_lower (trim_space (label_value labels ''avuru.transport.istio_component''))
      in if comp = ''pilot'' \<or> comp = ''istiod'' then ControlPlane
         else if comp = ''ingressgateways'' \<or> comp = ''ingressgateway'' then IngressGateway
         else if comp = ''egressgateways'' \<or> comp = ''egressgateway'' then EgressGateway
         else if trim_space (label_value labels ''avuru.transport.linkerd_component'') \<noteq> [] then ControlPlane
         else if trim_space (label_value labels ''avuru.transport.gateway'') \<noteq> [] \<or>
           trim_space (label_value labels ''avuru.transport.istio_gateway'') \<noteq> [] then MeshGateway
         else MeshUnknown)"

definition mesh_role_of :: "classifier \<Rightarrow> string \<Rightarrow> (string \<rightharpoonup> string) \<Rightarrow> mesh_role" where
  "mesh_role_of c name labels =
     (if \<not> is_transport c name then MeshUnknown
      else case find (\<lambda>(r, ps). match_any ps name) mesh_role_patterns of
        Some (r, ps) \<Rightarrow> r
      | None \<Rightarrow> mesh_role_from_labels labels)"

section \<open>Laws\<close>

text \<open>What a star may stand for.\<close>

lemma glob_star: "glob_matches (Star # ts) s \<longleftrightarrow> (\<exists>n\<le>length s. CHR ''/'' \<notin> set (take n s) \<and> glob_matches ts (drop n s))"
proof (induction s)
  case (Cons c s)
  have "(\<exists>n\<le>length (c # s). CHR ''/'' \<notin> set (take n (c # s)) \<and> glob_matches ts (drop n (c # s))) \<longleftrightarrow>
      glob_matches ts (c # s) \<or> (\<exists>n\<le>length s. CHR ''/'' \<notin> set (take (Suc n) (c # s)) \<and> glob_matches ts (drop (Suc n) (c # s)))"
    (is "?lhs \<longleftrightarrow> ?rhs")
  proof
    assume ?lhs
    then obtain n where n: "n \<le> length (c # s)" "CHR ''/'' \<notin> set (take n (c # s))" "glob_matches ts (drop n (c # s))" by blast
    then show ?rhs by (cases n) auto
  next
    assume ?rhs
    then consider "glob_matches ts (c # s)" | n where "n \<le> length s" "CHR ''/'' \<notin> set (take (Suc n) (c # s))" "glob_matches ts (drop (Suc n) (c # s))"
      by blast
    then show ?lhs by cases (force intro: exI [of _ 0], metis Suc_le_mono length_Cons)
  qed
  then show ?case using Cons by auto
qed simp

text \<open>A pattern of plain bytes matches itself, with a star after or before it what extends it by
  bytes other than a slash.\<close>

definition plain :: "string \<Rightarrow> bool" where
  "plain p \<longleftrightarrow> list_all (\<lambda>c. c \<noteq> CHR ''*'' \<and> c \<noteq> CHR ''?'' \<and> c \<noteq> CHR ''['' \<and> c \<noteq> char_of (92 :: int)) p"

lemma glob_tokens_plain:
  "plain p \<Longrightarrow> length p \<le> n \<Longrightarrow> glob_tokens n (p @ q) = map_option ((@) (map Byte p)) (glob_tokens (n - length p) q)"
proof (induction p arbitrary: n)
  case Nil
  then show ?case by (simp add: option.map_ident)
next
  case (Cons c p)
  then obtain m where "n = Suc m" by (cases n) auto
  with Cons show ?case by (simp add: plain_def option.map_comp comp_def)
qed

lemma glob_matches_bytes: "glob_matches (map Byte p @ ts) s \<longleftrightarrow> (\<exists>r. s = p @ r \<and> glob_matches ts r)"
proof (induction p arbitrary: s)
  case (Cons c p)
  then show ?case by (cases s) auto
qed simp

lemma path_match_plain: "plain p \<Longrightarrow> path_match p s = Some (s = p)"
  using glob_tokens_plain [of p "length p" "[]"] glob_matches_bytes [of p "[]" s]
  by (auto simp: path_match_def parse_glob_def)

lemma glob_star_end: "glob_matches [Star] s \<longleftrightarrow> CHR ''/'' \<notin> set s"
proof
  assume "glob_matches [Star] s"
  then obtain n where n: "n \<le> length s" "CHR ''/'' \<notin> set (take n s)" "drop n s = []"
    unfolding glob_star glob_matches.simps by blast
  then have "take n s = s" by simp
  with n(2) show "CHR ''/'' \<notin> set s" by simp
next
  assume "CHR ''/'' \<notin> set s"
  then show "glob_matches [Star] s" unfolding glob_star by (intro exI [of _ "length s"]) simp
qed

lemma path_match_prefix:
  assumes "plain p"
  shows "path_match (p @ ''*'') s = Some (\<exists>r. s = p @ r \<and> CHR ''/'' \<notin> set r)"
proof -
  have "parse_glob (p @ ''*'') = Some (map Byte p @ [Star])"
    using glob_tokens_plain [OF assms, of "Suc (length p)" "''*''"] by (simp add: parse_glob_def)
  then show ?thesis by (simp only: path_match_def option.map glob_matches_bytes glob_star_end)
qed

lemma path_match_suffix:
  assumes "plain p"
  shows "path_match (CHR ''*'' # p) s = Some (\<exists>r. s = r @ p \<and> CHR ''/'' \<notin> set r)"
proof -
  have "glob_tokens (length p) (p @ []) = Some (map Byte p)" using glob_tokens_plain [OF assms, of "length p" "[]"] by simp
  then have parse: "parse_glob (CHR ''*'' # p) = Some (Star # map Byte p)" by (simp add: parse_glob_def)
  have bytes: "glob_matches (map Byte p) t \<longleftrightarrow> t = p" for t using glob_matches_bytes [of p "[]" t] by auto
  have "glob_matches (Star # map Byte p) s \<longleftrightarrow> (\<exists>r. s = r @ p \<and> CHR ''/'' \<notin> set r)"
    unfolding glob_star bytes
  proof
    assume "\<exists>n\<le>length s. CHR ''/'' \<notin> set (take n s) \<and> drop n s = p"
    then show "\<exists>r. s = r @ p \<and> CHR ''/'' \<notin> set r" by (metis append_take_drop_id)
  next
    assume "\<exists>r. s = r @ p \<and> CHR ''/'' \<notin> set r"
    then obtain r where "s = r @ p" "CHR ''/'' \<notin> set r" by blast
    then show "\<exists>n\<le>length s. CHR ''/'' \<notin> set (take n s) \<and> drop n s = p" by (intro exI [of _ "length r"]) simp
  qed
  then show ?thesis by (simp only: path_match_def parse option.map)
qed

end
