(* ===== verification/MapEdges.thy ===== *)
theory MapEdges
  imports Topology TraceStats "HOL-Library.Word"
begin

text \<open>
  The edges of the service map: the two queries that derive them from spans
  (hub/internal/storage/clickhouse/services.go, collapse.go, with the predicates of status.go and
  aux.go), the rules of hub/internal/topology/edges.go, the merge with flow edges (api/traces.go)
  and the pipeline of the MCP service context (mcp/context.go). The rows a query joins are the
  spans of its tenants and window. \<open>quantiles\<close> is the database's estimate, \<open>to_uint16\<close> its
  conversion of a string, \<open>0\<close> for one it cannot convert. Counts are \<open>uint64\<close>.
\<close>

record map_service = service_stats +
  ms_evidence :: bool
  ms_labels :: "string \<rightharpoonup> string"

record map_edge = service_edge +
  me_count :: "64 word"
  me_errors :: "64 word"
  me_bytes :: "64 word"
  me_provenance :: string
  me_p50 :: duration
  me_p95 :: duration
  me_via :: "string list"
  me_collapsed :: "64 word"
  me_collapsed_errors :: "64 word"

section \<open>Predicates of the queries\<close>

definition attribute :: "(string \<rightharpoonup> string) \<Rightarrow> string \<Rightarrow> string" where
  "attribute m k = (case m k of None \<Rightarrow> [] | Some v \<Rightarrow> v)"

definition sql_http_status :: "(string \<Rightarrow> int) \<Rightarrow> span \<Rightarrow> int" where
  "sql_http_status to_uint16 sp =
     max (to_uint16 (attribute (sp_attributes sp) ''http.response.status_code''))
       (to_uint16 (attribute (sp_attributes sp) ''http.status_code''))"

definition error_span :: "(string \<Rightarrow> int) \<Rightarrow> span \<Rightarrow> bool" where
  "error_span to_uint16 sp \<longleftrightarrow> sp_status sp = ''Error'' \<or>
     (sp_status sp \<noteq> ''Ok'' \<and>
       (500 \<le> sql_http_status to_uint16 sp \<or> (sp_kind sp = ''Client'' \<and> 400 \<le> sql_http_status to_uint16 sp)))"

definition refused_span :: "(string \<Rightarrow> int) \<Rightarrow> span \<Rightarrow> bool" where
  "refused_span to_uint16 sp \<longleftrightarrow> sp_status sp \<noteq> ''Error'' \<and> sp_status sp \<noteq> ''Ok'' \<and> sp_kind sp \<noteq> ''Client'' \<and>
     400 \<le> sql_http_status to_uint16 sp \<and> sql_http_status to_uint16 sp \<le> 499"

fun contains :: "string \<Rightarrow> string \<Rightarrow> bool" where
  "contains p [] = (p = [])"
| "contains p (c # cs) = (has_prefix p (c # cs) \<or> contains p cs)"

definition contains_fold :: "string \<Rightarrow> string \<Rightarrow> bool" where
  "contains_fold p s = contains (to_lower p) (to_lower s)"

definition aux_names :: "string list" where
  "aux_names = [''/actuator'', ''/health'', ''/healthz'', ''/livez'', ''/readyz'', ''/metrics'', ''/ping'']"

text \<open>Auxiliary traffic; the comparison with upper-cased names is one without case.\<close>

definition aux_span :: "span \<Rightarrow> bool" where
  "aux_span sp \<longleftrightarrow>
     list_ex (\<lambda>n. contains_fold n (sp_operation sp)) aux_names \<or>
     contains_fold ''/actuator'' (attribute (sp_attributes sp) ''http.route'') \<or>
     attribute (sp_attributes sp) ''avuru.check.id'' \<noteq> [] \<or>
     (sp_kind sp = ''Client'' \<and> attribute (sp_attributes sp) ''db.system'' \<noteq> [] \<and>
       (list_ex (equal_fold (sp_operation sp)) [''PING'', ''INFO'', ''HELLO'', ''ISMASTER'', ''SELECT 1''] \<or>
        list_ex (equal_fold (attribute (sp_attributes sp) ''db.operation'')) [''PING'', ''INFO'', ''HELLO'', ''ISMASTER'']))"

section \<open>Joined rows\<close>

record call_row =
  cr_src :: string
  cr_dst :: string
  cr_error :: bool
  cr_via :: "string list"
  cr_dur :: duration

text \<open>The spans of the same trace a span names as its parent.\<close>

definition parents :: "span list \<Rightarrow> span \<Rightarrow> span list" where
  "parents spans s = filter (\<lambda>p. sp_trace p = sp_trace s \<and> sp_id p = sp_parent s) spans"

definition call_row_of :: "(string \<Rightarrow> int) \<Rightarrow> span \<Rightarrow> string list \<Rightarrow> span \<Rightarrow> call_row" where
  "call_row_of to_uint16 server via client =
     \<lparr>cr_src = sp_service client, cr_dst = sp_service server, cr_error = error_span to_uint16 server, cr_via = via,
      cr_dur = sp_duration client\<rparr>"

definition served :: "bool \<Rightarrow> span list \<Rightarrow> span list" where
  "served exclude_aux spans = filter (\<lambda>s. sp_kind s = ''Server'' \<and> \<not> (exclude_aux \<and> aux_span s)) spans"

definition direct_rows :: "(string \<Rightarrow> int) \<Rightarrow> bool \<Rightarrow> span list \<Rightarrow> call_row list" where
  "direct_rows to_uint16 exclude_aux spans =
     concat (map (\<lambda>s. map (call_row_of to_uint16 s [])
       (filter (\<lambda>c. sp_kind c = ''Client'' \<and> sp_service s \<noteq> sp_service c) (parents spans s))) (served exclude_aux spans))"

text \<open>The chains of a given number of transport spans above a span, with the span at the top.\<close>

fun climb :: "span list \<Rightarrow> string list \<Rightarrow> nat \<Rightarrow> span \<Rightarrow> (string list \<times> span) list" where
  "climb spans transport 0 s = [([], s)]"
| "climb spans transport (Suc d) s =
     concat (map (\<lambda>h. map (\<lambda>(via, t). (sp_service h # via, t)) (climb spans transport d h))
       (filter (\<lambda>h. sp_service h \<in> set transport) (parents spans s)))"

definition collapse_branch :: "(string \<Rightarrow> int) \<Rightarrow> bool \<Rightarrow> span list \<Rightarrow> string list \<Rightarrow> nat \<Rightarrow> call_row list" where
  "collapse_branch to_uint16 exclude_aux spans transport depth =
     concat (map (\<lambda>s. concat (map (\<lambda>(via, t). map (call_row_of to_uint16 s via)
         (filter (\<lambda>c. sp_kind c = ''Client'' \<and> sp_service c \<notin> set transport \<and> sp_service s \<noteq> sp_service c) (parents spans t)))
       (climb spans transport depth s)))
     (filter (\<lambda>s. sp_service s \<notin> set transport) (served exclude_aux spans)))"

definition max_collapse_depth :: nat where "max_collapse_depth = 3"

definition collapse_rows :: "(string \<Rightarrow> int) \<Rightarrow> bool \<Rightarrow> span list \<Rightarrow> string list \<Rightarrow> call_row list" where
  "collapse_rows to_uint16 exclude_aux spans transport =
     concat (map (collapse_branch to_uint16 exclude_aux spans transport) [1..<Suc max_collapse_depth])"

section \<open>Aggregation\<close>

definition row_pair :: "call_row \<Rightarrow> string \<times> string" where
  "row_pair r = (cr_src r, cr_dst r)"

definition edge_of_rows :: "(duration list \<Rightarrow> duration \<times> duration) \<Rightarrow> string \<times> string \<Rightarrow> call_row list \<Rightarrow> map_edge" where
  "edge_of_rows quantiles k rs =
     \<lparr>ed_source = fst k, ed_target = snd k, me_count = of_nat (length rs), me_errors = of_nat (length (filter cr_error rs)),
      me_bytes = 0, me_provenance = [], me_p50 = fst (quantiles (map cr_dur rs)), me_p95 = snd (quantiles (map cr_dur rs)),
      me_via = sort (dedup (concat (map cr_via rs))), me_collapsed = 0, me_collapsed_errors = 0\<rparr>"

definition group_rows :: "(duration list \<Rightarrow> duration \<times> duration) \<Rightarrow> call_row list \<Rightarrow> map_edge list" where
  "group_rows quantiles rs =
     sort_key (\<lambda>e. - uint (me_count e))
       (map (\<lambda>k. edge_of_rows quantiles k (filter (\<lambda>r. row_pair r = k) rs)) (dedup (map row_pair rs)))"

definition service_edges :: "(string \<Rightarrow> int) \<Rightarrow> (duration list \<Rightarrow> duration \<times> duration) \<Rightarrow> bool \<Rightarrow> span list \<Rightarrow> map_edge list" where
  "service_edges to_uint16 quantiles exclude_aux spans = group_rows quantiles (direct_rows to_uint16 exclude_aux spans)"

definition collapsed_edges :: "(string \<Rightarrow> int) \<Rightarrow> (duration list \<Rightarrow> duration \<times> duration) \<Rightarrow> bool \<Rightarrow> span list \<Rightarrow> string list \<Rightarrow> map_edge list" where
  "collapsed_edges to_uint16 quantiles exclude_aux spans transport =
     (if transport = [] then []
      else map (\<lambda>e. e\<lparr>me_provenance := ''collapsed'', me_collapsed := me_count e, me_collapsed_errors := me_errors e\<rparr>)
        (group_rows quantiles (collapse_rows to_uint16 exclude_aux spans transport)))"

section \<open>Edge rules\<close>

definition labelled_transport :: "map_service list \<Rightarrow> string list" where
  "labelled_transport services = map st_name (filter ms_evidence services)"

definition transport_names :: "classifier \<Rightarrow> map_service list \<Rightarrow> string list" where
  "transport_names cls services = sort (filter (is_transport cls) (map st_name services))"

definition edge_pair :: "map_edge \<Rightarrow> string \<times> string" where
  "edge_pair e = (ed_source e, ed_target e)"

text \<open>A map filled with the positions of the edges: the last of a pair wins.\<close>

definition index_edges :: "map_edge list \<Rightarrow> (string \<times> string) \<rightharpoonup> nat" where
  "index_edges es = map_of (rev (zip (map edge_pair es) [0..<length es]))"

definition combine_edge :: "map_edge \<Rightarrow> map_edge \<Rightarrow> map_edge" where
  "combine_edge c e =
     (let e1 = (if me_count e < me_count c then e\<lparr>me_p50 := me_p50 c, me_p95 := me_p95 c\<rparr> else e)
      in e1\<lparr>me_count := me_count e + me_count c, me_errors := me_errors e + me_errors c,
           me_collapsed := me_collapsed e + me_collapsed c,
           me_collapsed_errors := me_collapsed_errors e + me_collapsed_errors c, me_via := me_via c\<rparr>)"

definition merge_edge :: "map_edge \<Rightarrow> map_edge list \<times> ((string \<times> string) \<rightharpoonup> nat) \<Rightarrow> map_edge list \<times> ((string \<times> string) \<rightharpoonup> nat)" where
  "merge_edge c st = (case st of (es, index) \<Rightarrow>
     (case index (edge_pair c) of
        None \<Rightarrow> (es @ [c], index(edge_pair c \<mapsto> length es))
      | Some i \<Rightarrow> (es[i := combine_edge c (es ! i)], index)))"

definition merge_collapsed :: "map_edge list \<Rightarrow> map_edge list \<Rightarrow> map_edge list" where
  "merge_collapsed es cs = (if cs = [] then es else fst (fold merge_edge cs (es, index_edges es)))"

definition hide_transport :: "map_service list \<Rightarrow> map_edge list \<Rightarrow> classifier \<Rightarrow> string \<Rightarrow> map_edge list" where
  "hide_transport services es cls keep =
     (let removed = {st_name s | s. s \<in> set (filter (\<lambda>s. st_name s \<noteq> keep \<and> is_transport cls (st_name s)) services)}
      in if removed = {} then es else filter (\<lambda>e. ed_source e \<notin> removed \<and> ed_target e \<notin> removed) es)"

text \<open>The four steps of the service context: classify with the evidence of the labels, recover,
  merge, hide.\<close>

definition context_edges :: "(string \<Rightarrow> int) \<Rightarrow> (duration list \<Rightarrow> duration \<times> duration) \<Rightarrow> bool \<Rightarrow> topology_config \<Rightarrow> map_service list \<Rightarrow>
    span list \<Rightarrow> string \<Rightarrow> map_edge list" where
  "context_edges to_uint16 quantiles exclude_aux cfg services spans name =
     (let cls = with_evidence (labelled_transport services) (new_classifier cfg);
          transport = transport_names cls services;
          collapsed = collapsed_edges to_uint16 quantiles exclude_aux spans transport
      in hide_transport services (merge_collapsed (service_edges to_uint16 quantiles exclude_aux spans) collapsed) cls name)"

section \<open>Flow edges\<close>

definition flow_edge :: "map_edge \<Rightarrow> map_edge list \<times> ((string \<times> string) \<rightharpoonup> nat) \<Rightarrow> map_edge list \<times> ((string \<times> string) \<rightharpoonup> nat)" where
  "flow_edge f st = (case st of (es, index) \<Rightarrow>
     (case index (edge_pair f) of
        Some i \<Rightarrow> (es[i := (es ! i)\<lparr>me_provenance := ''both'', me_bytes := me_bytes f\<rparr>], index)
      | None \<Rightarrow> (es @ [f\<lparr>me_provenance := ''flow''\<rparr>], index)))"

definition merge_edges :: "map_edge list \<Rightarrow> map_edge list \<Rightarrow> map_edge list" where
  "merge_edges trace_edges flow_edges =
     (let merged = map (\<lambda>e. e\<lparr>me_provenance := ''trace''\<rparr>) trace_edges
      in fst (fold flow_edge flow_edges (merged, index_edges merged)))"

end
