(* ===== verification/EdgeLaws.thy ===== *)
theory EdgeLaws
  imports MapEdges
begin

text \<open>
  The edges of a service context refine a call graph over the spans alone: who called a span is its
  nearest ancestor outside the transport services, at most three transport spans up.
\<close>

section \<open>The call graph\<close>

definition parent_span :: "span list \<Rightarrow> span \<Rightarrow> span option" where
  "parent_span spans s = find (\<lambda>p. sp_trace p = sp_trace s \<and> sp_id p = sp_parent s) spans"

text \<open>The service that called a span through at most \<open>d\<close> spans of the transport \<open>T\<close>.\<close>

fun caller :: "span list \<Rightarrow> string set \<Rightarrow> nat \<Rightarrow> span \<Rightarrow> string option" where
  "caller spans T d s =
     (case parent_span spans s of
        None \<Rightarrow> None
      | Some p \<Rightarrow>
          if sp_service p \<in> T then (case d of 0 \<Rightarrow> None | Suc e \<Rightarrow> caller spans T e p)
          else if sp_kind p = ''Client'' then Some (sp_service p)
          else None)"

declare caller.simps [simp del]

definition calls_between :: "bool \<Rightarrow> span list \<Rightarrow> string set \<Rightarrow> string \<Rightarrow> string \<Rightarrow> span list" where
  "calls_between exclude_aux spans T a b =
     filter (\<lambda>s. sp_service s = b \<and> a \<noteq> b \<and> caller spans T 3 s = Some a) (served exclude_aux spans)"

definition call_graph :: "(string \<Rightarrow> int) \<Rightarrow> span list \<Rightarrow> (64 word \<times> 64 word) option" where
  "call_graph to_uint16 cs =
     (if cs = [] then None else Some (of_nat (length cs), of_nat (length (filter (error_span to_uint16) cs))))"

text \<open>What a list of edges says: the calls and the errors of each pair.\<close>

definition edge_graph :: "map_edge list \<Rightarrow> (string \<times> string) \<rightharpoonup> 64 word \<times> 64 word" where
  "edge_graph es = map_of (map (\<lambda>e. (edge_pair e, (me_count e, me_errors e))) es)"

section \<open>Edges out of rows\<close>

definition row_graph :: "call_row list \<Rightarrow> (string \<times> string) \<rightharpoonup> 64 word \<times> 64 word" where
  "row_graph rs k =
     (let q = filter (\<lambda>r. row_pair r = k) rs
      in if q = [] then None else Some (of_nat (length q), of_nat (length (filter cr_error q))))"

definition add_calls :: "(64 word \<times> 64 word) option \<Rightarrow> (64 word \<times> 64 word) option \<Rightarrow> (64 word \<times> 64 word) option" where
  "add_calls x y =
     (case x of None \<Rightarrow> y | Some (n, m) \<Rightarrow> (case y of None \<Rightarrow> x | Some (p, q) \<Rightarrow> Some (n + p, m + q)))"

lemma add_calls_None [simp]: "add_calls x None = x" "add_calls None x = x"
  by (auto simp: add_calls_def split: option.splits)

lemma row_graph_append: "row_graph (xs @ ys) k = add_calls (row_graph xs k) (row_graph ys k)"
  by (simp add: row_graph_def add_calls_def Let_def del: filter_filter)

lemma edge_graph_Some:
  "distinct (map edge_pair es) \<Longrightarrow> e \<in> set es \<Longrightarrow> edge_graph es (edge_pair e) = Some (me_count e, me_errors e)"
  unfolding edge_graph_def by (rule map_of_is_SomeI) (auto simp: comp_def)

lemma edge_graph_None: "edge_graph es k = None \<longleftrightarrow> k \<notin> set (map edge_pair es)"
  unfolding edge_graph_def by (auto simp: map_of_eq_None_iff image_iff)

lemma group_rows_set:
  "set (group_rows quantiles rs) =
     (\<lambda>k. edge_of_rows quantiles k (filter (\<lambda>r. row_pair r = k) rs)) ` set (map row_pair rs)"
  by (simp add: group_rows_def)

lemma edge_of_rows_pair [simp]: "edge_pair (edge_of_rows quantiles k rs) = k"
  by (simp add: edge_pair_def edge_of_rows_def)

lemma group_rows_distinct: "distinct (map edge_pair (group_rows quantiles rs))"
  by (simp add: group_rows_def distinct_map_sort_key comp_def)

lemma group_rows_graph: "edge_graph (group_rows quantiles rs) k = row_graph rs k"
proof (cases "k \<in> set (map row_pair rs)")
  case True
  let ?q = "filter (\<lambda>r. row_pair r = k) rs"
  have "edge_of_rows quantiles k ?q \<in> set (group_rows quantiles rs)"
    unfolding group_rows_set using True by blast
  from edge_graph_Some [OF group_rows_distinct this] True show ?thesis
    by (auto simp: row_graph_def edge_of_rows_def filter_empty_conv edge_pair_def Let_def conj_commute)
next
  case False
  then have "k \<notin> set (map edge_pair (group_rows quantiles rs))"
    by (auto simp: group_rows_set)
  then have "edge_graph (group_rows quantiles rs) k = None"
    by (simp only: edge_graph_None not_False_eq_True)
  with False show ?thesis by (auto simp: row_graph_def filter_empty_conv Let_def)
qed

section \<open>The merge\<close>

definition indexed :: "map_edge list \<times> ((string \<times> string) \<rightharpoonup> nat) \<Rightarrow> bool" where
  "indexed st \<longleftrightarrow> distinct (map edge_pair (fst st)) \<and>
     (\<forall>k i. snd st k = Some i \<longleftrightarrow> i < length (fst st) \<and> edge_pair (fst st ! i) = k)"

lemma index_edges_indexed:
  assumes "distinct (map edge_pair es)"
  shows "indexed (es, index_edges es)"
proof -
  have "distinct (map fst (rev (zip (map edge_pair es) [0..<length es])))"
    using assms by (simp add: rev_map [symmetric])
  then have "index_edges es k = Some i \<longleftrightarrow> (k, i) \<in> set (zip (map edge_pair es) [0..<length es])" for k i
    unfolding index_edges_def by (simp add: map_of_eq_Some_iff)
  then have "index_edges es k = Some i \<longleftrightarrow> i < length es \<and> edge_pair (es ! i) = k" for k i
    unfolding in_set_zip by (auto intro!: exI [of _ i])
  with assms show ?thesis by (simp add: indexed_def)
qed

lemma combine_edge_fields [simp]:
  "edge_pair (combine_edge c e) = edge_pair e"
  "me_count (combine_edge c e) = me_count e + me_count c"
  "me_errors (combine_edge c e) = me_errors e + me_errors c"
  by (auto simp: combine_edge_def edge_pair_def Let_def)

lemma merge_edge_step:
  assumes "indexed st"
  shows "indexed (merge_edge c st)"
    and "edge_graph (fst (merge_edge c st)) k =
      (if k = edge_pair c then add_calls (edge_graph (fst st) k) (Some (me_count c, me_errors c)) else edge_graph (fst st) k)"
proof -
  obtain es index where st: "st = (es, index)" by (cases st)
  have d: "distinct (map edge_pair es)"
    and ix: "\<And>k i. index k = Some i \<longleftrightarrow> i < length es \<and> edge_pair (es ! i) = k"
    using assms unfolding st indexed_def fst_conv snd_conv by blast+
  show "indexed (merge_edge c st)"
  proof (cases "index (edge_pair c)")
    case None
    then have "edge_pair c \<notin> set (map edge_pair es)"
      by (auto simp: in_set_conv_nth) (metis ix option.distinct(1))
    moreover from this have "edge_pair (es ! i) \<noteq> edge_pair c" if "i < length es" for i
      using that nth_mem [OF that] by (metis image_eqI set_map)
    ultimately show ?thesis
      using None d by (auto simp: st merge_edge_def indexed_def ix nth_append less_Suc_eq split: if_splits)
  next
    case (Some i)
    then have "map edge_pair (es[i := combine_edge c (es ! i)]) = map edge_pair es"
      by (simp add: map_update ix) (metis ix list_update_id nth_map)
    then have pairs: "edge_pair (es[i := combine_edge c (es ! i)] ! j) = edge_pair (es ! j)" if "j < length es" for j
      using that by (metis length_list_update nth_map)
    have "merge_edge c st = (es[i := combine_edge c (es ! i)], index)"
      using Some by (simp add: st merge_edge_def)
    with d \<open>map edge_pair (es[i := _]) = _\<close> show ?thesis
      by (simp add: indexed_def ix pairs cong: conj_cong)
  qed
  show "edge_graph (fst (merge_edge c st)) k =
      (if k = edge_pair c then add_calls (edge_graph (fst st) k) (Some (me_count c, me_errors c)) else edge_graph (fst st) k)"
  proof (cases "index (edge_pair c)")
    case None
    then have "edge_pair c \<notin> set (map edge_pair es)"
      by (auto simp: in_set_conv_nth) (metis ix option.distinct(1))
    then have "edge_graph es (edge_pair c) = None" by (simp only: edge_graph_None not_False_eq_True)
    with None show ?thesis
      by (auto simp: st merge_edge_def edge_graph_def map_add_def split: option.splits)
  next
    case (Some i)
    then have i: "i < length es" "edge_pair (es ! i) = edge_pair c" by (simp_all add: ix)
    let ?es = "es[i := combine_edge c (es ! i)]"
    have same: "map edge_pair ?es = map edge_pair es"
      using i by (simp add: map_update) (metis list_update_id nth_map)
    then have d': "distinct (map edge_pair ?es)" using d by simp
    show ?thesis
    proof (cases "k = edge_pair c")
      case True
      have "edge_graph es (edge_pair (es ! i)) = Some (me_count (es ! i), me_errors (es ! i))"
        using d i by (intro edge_graph_Some) auto
      moreover have "edge_graph ?es (edge_pair (?es ! i)) = Some (me_count (?es ! i), me_errors (?es ! i))"
        using d' i by (intro edge_graph_Some) (auto simp: set_update_memI)
      ultimately show ?thesis using True Some i by (simp add: st merge_edge_def add_calls_def)
    next
      case False
      have "(map (\<lambda>e. (edge_pair e, (me_count e, me_errors e))) ?es) =
          (map (\<lambda>e. (edge_pair e, (me_count e, me_errors e))) es)[i := (edge_pair c, (me_count (combine_edge c (es ! i)), me_errors (combine_edge c (es ! i))))]"
        using i by (simp add: map_update)
      moreover have "map_of (xs[i := (h, y)]) k = map_of xs k" if "i < length xs" "fst (xs ! i) = h" "h \<noteq> k" for xs :: "((string \<times> string) \<times> 64 word \<times> 64 word) list" and h y
        using that by (induction xs arbitrary: i) (auto simp: nth_Cons' split: nat.splits)
      ultimately show ?thesis using False Some i by (simp add: st merge_edge_def edge_graph_def)
    qed
  qed
qed

lemma merge_edges_fold:
  assumes "indexed st" "distinct (map edge_pair cs)"
  shows "indexed (fold merge_edge cs st)"
    and "edge_graph (fst (fold merge_edge cs st)) k = add_calls (edge_graph (fst st) k) (edge_graph cs k)"
proof -
  have "indexed (fold merge_edge cs st) \<and>
    edge_graph (fst (fold merge_edge cs st)) k = add_calls (edge_graph (fst st) k) (edge_graph cs k)"
    using assms
  proof (induction cs arbitrary: st)
    case Nil
    then show ?case by (simp add: edge_graph_def)
  next
    case (Cons c cs)
    then have c: "edge_graph cs (edge_pair c) = None" by (simp add: edge_graph_None)
    have cons: "edge_graph (c # cs) k = (if k = edge_pair c then Some (me_count c, me_errors c) else edge_graph cs k)"
      by (simp add: edge_graph_def)
    from Cons.IH [OF merge_edge_step(1) [OF Cons.prems(1), of c]] Cons.prems c show ?case
      by (simp add: merge_edge_step(2) cons)
  qed
  then show "indexed (fold merge_edge cs st)"
    and "edge_graph (fst (fold merge_edge cs st)) k = add_calls (edge_graph (fst st) k) (edge_graph cs k)" by auto
qed

lemma merge_collapsed_graph:
  assumes "distinct (map edge_pair es)" "distinct (map edge_pair cs)"
  shows "distinct (map edge_pair (merge_collapsed es cs))"
    and "edge_graph (merge_collapsed es cs) k = add_calls (edge_graph es k) (edge_graph cs k)"
proof -
  note f = merge_edges_fold [OF index_edges_indexed [OF assms(1)] assms(2)]
  show "distinct (map edge_pair (merge_collapsed es cs))"
    using f(1) assms by (simp add: merge_collapsed_def indexed_def)
  show "edge_graph (merge_collapsed es cs) k = add_calls (edge_graph es k) (edge_graph cs k)"
    using f(2) by (simp add: merge_collapsed_def edge_graph_def)
qed

lemma edge_graph_filter:
  "edge_graph (filter (\<lambda>e. P (edge_pair e)) es) k = (if P k then edge_graph es k else None)"
  by (induction es) (auto simp: edge_graph_def)


section \<open>The rows of one span\<close>

definition span_ids :: "span list \<Rightarrow> (string \<times> string) list" where
  "span_ids spans = map (\<lambda>s. (sp_trace s, sp_id s)) spans"

lemma parents_unique:
  assumes "distinct (span_ids spans)"
  shows "parents spans s = (case parent_span spans s of None \<Rightarrow> [] | Some p \<Rightarrow> [p])"
  using assms unfolding span_ids_def
proof (induction spans)
  case Nil
  then show ?case by (simp add: parents_def parent_span_def)
next
  case (Cons x xs)
  have "filter (\<lambda>p. sp_trace p = sp_trace s \<and> sp_id p = sp_parent s) xs = []"
    if "sp_trace x = sp_trace s" "sp_id x = sp_parent s"
    using that Cons.prems by (auto simp: filter_empty_conv image_iff)
  with Cons show ?case by (auto simp: parents_def parent_span_def)
qed

text \<open>The rows a span gives through exactly \<open>d\<close> transport spans.\<close>

definition span_rows :: "(string \<Rightarrow> int) \<Rightarrow> span list \<Rightarrow> string set \<Rightarrow> string list \<Rightarrow> nat \<Rightarrow> span \<Rightarrow> call_row list" where
  "span_rows to_uint16 spans X transport d s =
     concat (map (\<lambda>(via, t). map (call_row_of to_uint16 s via)
         (filter (\<lambda>c. sp_kind c = ''Client'' \<and> sp_service c \<notin> X \<and> sp_service s \<noteq> sp_service c) (parents spans t)))
       (climb spans transport d s))"

lemma direct_rows_span_rows:
  "direct_rows to_uint16 aux spans = concat (map (span_rows to_uint16 spans {} transport 0) (served aux spans))"
  by (simp add: direct_rows_def span_rows_def cong: map_cong)

lemma collapse_branch_span_rows:
  "collapse_branch to_uint16 aux spans transport d =
     concat (map (span_rows to_uint16 spans (set transport) transport d)
       (filter (\<lambda>s. sp_service s \<notin> set transport) (served aux spans)))"
  by (simp add: collapse_branch_def span_rows_def [abs_def])

definition callers_at :: "span list \<Rightarrow> string list \<Rightarrow> string \<Rightarrow> nat \<Rightarrow> span \<Rightarrow> nat" where
  "callers_at spans transport a d s =
     (\<Sum>(via, t) \<leftarrow> climb spans transport d s. length (filter (\<lambda>c. sp_kind c = ''Client'' \<and> sp_service c = a) (parents spans t)))"

lemma callers_at_Suc:
  assumes "distinct (span_ids spans)"
  shows "callers_at spans transport a (Suc d) s =
    (case parent_span spans s of None \<Rightarrow> 0
     | Some p \<Rightarrow> if sp_service p \<in> set transport then callers_at spans transport a d p else 0)"
  by (simp add: callers_at_def parents_unique [OF assms] comp_def case_prod_unfold split: option.split)

lemma callers_at_0:
  assumes "distinct (span_ids spans)"
  shows "callers_at spans transport a 0 s =
    (case parent_span spans s of None \<Rightarrow> 0 | Some p \<Rightarrow> if sp_kind p = ''Client'' \<and> sp_service p = a then 1 else 0)"
  by (simp add: callers_at_def parents_unique [OF assms] split: option.split)

lemma callers_at_caller:
  assumes "distinct (span_ids spans)" "a \<notin> set transport"
  shows "(\<Sum>k \<leftarrow> [0..<Suc d]. callers_at spans transport a k s) =
    (if caller spans (set transport) d s = Some a then 1 else 0)"
proof (induction d arbitrary: s)
  case 0
  show ?case using assms(2)
    by (simp add: callers_at_0 [OF assms(1)] caller.simps [of _ _ _ s] split: option.split)
next
  case (Suc d)
  have "[0..<Suc (Suc d)] = 0 # map Suc [0..<Suc d]"
    by (simp add: upt_conv_Cons map_Suc_upt del: upt_Suc)
  then have "(\<Sum>k \<leftarrow> [0..<Suc (Suc d)]. callers_at spans transport a k s) =
      callers_at spans transport a 0 s + (\<Sum>k \<leftarrow> [0..<Suc d]. callers_at spans transport a (Suc k) s)"
    by (simp only: list.map sum_list.Cons map_map comp_def)
  also have "\<dots> = (if caller spans (set transport) (Suc d) s = Some a then 1 else 0)"
  proof (cases "parent_span spans s")
    case None
    then show ?thesis
      by (simp add: callers_at_Suc [OF assms(1)] callers_at_0 [OF assms(1)] caller.simps [of _ _ _ s])
  next
    case (Some p)
    with Suc.IH [of p] assms(2) show ?thesis
      by (auto simp: callers_at_Suc [OF assms(1)] callers_at_0 [OF assms(1)] caller.simps [of _ _ _ s]
          simp del: upt_Suc)
  qed
  finally show ?case .
qed

lemma length_filter_concat_map:
  "length (filter P (concat (map f xs))) = (\<Sum>x \<leftarrow> xs. length (filter P (f x)))"
  by (simp add: filter_concat length_concat comp_def)

lemma span_rows_count:
  assumes "a \<notin> X"
  shows "length (filter (\<lambda>r. row_pair r = (a, b) \<and> (q \<longrightarrow> cr_error r)) (span_rows to_uint16 spans X transport d s)) =
    (if sp_service s = b \<and> a \<noteq> b \<and> (q \<longrightarrow> error_span to_uint16 s) then callers_at spans transport a d s else 0)"
proof -
  have pair: "row_pair (call_row_of to_uint16 s via c) = (sp_service c, sp_service s)"
    and err: "cr_error (call_row_of to_uint16 s via c) = error_span to_uint16 s" for via c
    by (simp_all add: row_pair_def call_row_of_def)
  have each: "length (filter (\<lambda>r. row_pair r = (a, b) \<and> (q \<longrightarrow> cr_error r))
        (map (call_row_of to_uint16 s via) (filter (\<lambda>c. sp_kind c = ''Client'' \<and> sp_service c \<notin> X \<and> sp_service s \<noteq> sp_service c) ps))) =
      (if sp_service s = b \<and> a \<noteq> b \<and> (q \<longrightarrow> error_span to_uint16 s)
       then length (filter (\<lambda>c. sp_kind c = ''Client'' \<and> sp_service c = a) ps) else 0)" for via ps
    using assms by (induction ps) (auto simp: pair err)
  show ?thesis
  proof (cases "sp_service s = b \<and> a \<noteq> b \<and> (q \<longrightarrow> error_span to_uint16 s)")
    case True
    show ?thesis
      unfolding span_rows_def callers_at_def length_filter_concat_map map_map comp_def case_prod_unfold each if_P [OF True] ..
  next
    case False
    show ?thesis
      unfolding span_rows_def callers_at_def length_filter_concat_map map_map comp_def case_prod_unfold each if_not_P [OF False]
      by (simp only: sum_list_0)
  qed
qed

section \<open>All rows\<close>

definition all_rows :: "(string \<Rightarrow> int) \<Rightarrow> bool \<Rightarrow> span list \<Rightarrow> string list \<Rightarrow> call_row list" where
  "all_rows to_uint16 aux spans transport =
     direct_rows to_uint16 aux spans @ collapse_rows to_uint16 aux spans transport"

lemma sum_list_filter_zero:
  "(\<And>x. x \<in> set xs \<Longrightarrow> \<not> P x \<Longrightarrow> f x = 0) \<Longrightarrow> (\<Sum>x \<leftarrow> filter P xs. f x) = (\<Sum>x \<leftarrow> xs. f x :: nat)"
  by (induction xs) auto

lemma all_rows_count:
  assumes "distinct (span_ids spans)" "a \<notin> set transport" "b \<notin> set transport"
  shows "length (filter (\<lambda>r. row_pair r = (a, b) \<and> (q \<longrightarrow> cr_error r)) (all_rows to_uint16 aux spans transport)) =
    length (filter (\<lambda>s. q \<longrightarrow> error_span to_uint16 s) (calls_between aux spans (set transport) a b))"
proof -
  let ?P = "\<lambda>r. row_pair r = (a, b) \<and> (q \<longrightarrow> cr_error r)"
  let ?on = "\<lambda>s. sp_service s = b \<and> a \<noteq> b \<and> (q \<longrightarrow> error_span to_uint16 s)"
  let ?c = "\<lambda>d s. if ?on s then callers_at spans transport a d s else 0"
  have direct: "length (filter ?P (direct_rows to_uint16 aux spans)) = (\<Sum>s \<leftarrow> served aux spans. ?c 0 s)"
    unfolding direct_rows_span_rows [where transport = transport] length_filter_concat_map
    by (simp only: span_rows_count [of a "{}", simplified])
  have branch: "length (filter ?P (collapse_branch to_uint16 aux spans transport d)) = (\<Sum>s \<leftarrow> served aux spans. ?c d s)" for d
    unfolding collapse_branch_span_rows length_filter_concat_map span_rows_count [OF assms(2)]
    by (rule sum_list_filter_zero) (use assms(3) in auto)
  have depths: "[1..<Suc max_collapse_depth] = [1, 2, 3]" "[0..<Suc 3] = [0, 1, 2, 3 :: nat]"
    by (simp_all add: max_collapse_depth_def upt_rec)
  have total: "length (filter ?P (all_rows to_uint16 aux spans transport)) =
      (\<Sum>s \<leftarrow> served aux spans. ?c 0 s + (?c 1 s + (?c 2 s + ?c 3 s)))"
    unfolding all_rows_def filter_append length_append direct collapse_rows_def depths
    by (simp add: branch sum_list_addf del: One_nat_def)
  have "?c 0 s + (?c 1 s + (?c 2 s + ?c 3 s)) = (if ?on s \<and> caller spans (set transport) 3 s = Some a then 1 else 0)" for s
    using callers_at_caller [OF assms(1,2), where d = 3 and s = s, unfolded depths] by (cases "?on s") (simp, auto)
  then have each: "(\<Sum>s \<leftarrow> served aux spans. ?c 0 s + (?c 1 s + (?c 2 s + ?c 3 s))) =
      (\<Sum>s \<leftarrow> served aux spans. if ?on s \<and> caller spans (set transport) 3 s = Some a then 1 else 0)"
    by (simp only:)
  note total
  also note each
  also have "\<dots> = length (filter (\<lambda>s. ?on s \<and> caller spans (set transport) 3 s = Some a) (served aux spans))"
    by (induction "served aux spans") (simp_all add: sum_list_map_filter' [symmetric] length_filter_map sum_list_triv)
  also have "\<dots> = length (filter (\<lambda>s. q \<longrightarrow> error_span to_uint16 s) (calls_between aux spans (set transport) a b))"
    by (simp add: calls_between_def conj_ac)
  finally show ?thesis .
qed

lemma row_graph_all_rows:
  assumes "distinct (span_ids spans)" "a \<notin> set transport" "b \<notin> set transport"
  shows "row_graph (all_rows to_uint16 aux spans transport) (a, b) =
    call_graph to_uint16 (calls_between aux spans (set transport) a b)"
proof -
  let ?rows = "filter (\<lambda>r. row_pair r = (a, b)) (all_rows to_uint16 aux spans transport)"
  let ?calls = "calls_between aux spans (set transport) a b"
  have n: "length ?rows = length ?calls"
    using all_rows_count [OF assms, where q = False] by simp
  moreover have "length (filter cr_error ?rows) = length (filter (error_span to_uint16) ?calls)"
    using all_rows_count [OF assms, where q = True] by (simp add: conj_commute)
  moreover have "?rows = [] \<longleftrightarrow> ?calls = []" using n by (metis length_0_conv)
  ultimately show ?thesis by (simp add: row_graph_def call_graph_def Let_def del: filter_filter)
qed

lemma no_transport_no_rows: "collapse_rows to_uint16 aux spans [] = []"
  by (simp add: collapse_rows_def collapse_branch_def max_collapse_depth_def upt_rec)

lemma collapsed_graph:
  "distinct (map edge_pair (collapsed_edges to_uint16 quantiles aux spans transport))"
  "edge_graph (collapsed_edges to_uint16 quantiles aux spans transport) k = row_graph (collapse_rows to_uint16 aux spans transport) k"
proof -
  let ?f = "\<lambda>e. e\<lparr>me_provenance := ''collapsed'', me_collapsed := me_count e, me_collapsed_errors := me_errors e\<rparr>"
  let ?es = "group_rows quantiles (collapse_rows to_uint16 aux spans transport)"
  have pairs: "map edge_pair (map ?f es) = map edge_pair es" for es by (simp add: edge_pair_def)
  have graph: "edge_graph (map ?f es) k = edge_graph es k" for es by (simp add: edge_graph_def comp_def edge_pair_def)
  show "distinct (map edge_pair (collapsed_edges to_uint16 quantiles aux spans transport))"
    unfolding collapsed_edges_def by (auto simp only: pairs group_rows_distinct list.map distinct.simps split: if_split)
  show "edge_graph (collapsed_edges to_uint16 quantiles aux spans transport) k = row_graph (collapse_rows to_uint16 aux spans transport) k"
    unfolding collapsed_edges_def
    by (cases "transport = []") (simp_all only: graph group_rows_graph if_False if_True simp_thms no_transport_no_rows,
      simp add: edge_graph_def row_graph_def)
qed

lemma hide_transport_eq:
  "hide_transport services es cls keep =
     filter (\<lambda>e. \<not> (fst (edge_pair e) \<in> set (transport_names cls services) - {keep} \<or>
       snd (edge_pair e) \<in> set (transport_names cls services) - {keep})) es"
proof -
  have removed: "{st_name s | s. s \<in> set (filter (\<lambda>s. st_name s \<noteq> keep \<and> is_transport cls (st_name s)) services)} =
      set (transport_names cls services) - {keep}"
    by (auto simp: transport_names_def)
  show ?thesis unfolding hide_transport_def Let_def removed by (auto simp: edge_pair_def intro!: filter_True [symmetric])
qed

lemma context_edges_rows:
  fixes cfg :: topology_config and services :: "map_service list"
  defines "transport \<equiv> transport_names (with_evidence (labelled_transport services) (new_classifier cfg)) services"
  shows "distinct (map edge_pair (context_edges to_uint16 quantiles aux cfg services spans name))"
    and "edge_graph (context_edges to_uint16 quantiles aux cfg services spans name) (a, b) =
      (if a \<in> set transport - {name} \<or> b \<in> set transport - {name} then None
       else row_graph (all_rows to_uint16 aux spans transport) (a, b))"
proof -
  let ?m = "merge_collapsed (service_edges to_uint16 quantiles aux spans) (collapsed_edges to_uint16 quantiles aux spans transport)"
  have e: "context_edges to_uint16 quantiles aux cfg services spans name =
      filter (\<lambda>e. \<not> (fst (edge_pair e) \<in> set transport - {name} \<or> snd (edge_pair e) \<in> set transport - {name})) ?m"
    by (simp add: context_edges_def Let_def transport_def hide_transport_eq)
  note m = merge_collapsed_graph [OF group_rows_distinct collapsed_graph(1)]
  show "distinct (map edge_pair (context_edges to_uint16 quantiles aux cfg services spans name))"
    unfolding e using m(1) by (simp add: service_edges_def distinct_map_filter)
  show "edge_graph (context_edges to_uint16 quantiles aux cfg services spans name) (a, b) =
      (if a \<in> set transport - {name} \<or> b \<in> set transport - {name} then None
       else row_graph (all_rows to_uint16 aux spans transport) (a, b))"
    unfolding e edge_graph_filter [where P = "\<lambda>k. \<not> (fst k \<in> set transport - {name} \<or> snd k \<in> set transport - {name})"]
    by (simp add: service_edges_def m(2) group_rows_graph collapsed_graph(2) all_rows_def row_graph_append)
qed

section \<open>Refinement\<close>

text \<open>C2. The edges of a service context are the call graph of its spans. Over spans with distinct
  ids, a pair has at most one edge; between two services that are not transport there is an edge
  exactly when some served request of the one has the other as its nearest caller through at most three
  transport spans, and the edge counts these requests and those of them that failed, each once,
  whether they came directly, through proxies, or both. No edge ends at a transport service other than the
  one the context is about.\<close>

theorem edges_are_callers:
  assumes ids: "distinct (span_ids spans)"
    and transport: "transport = set (transport_names (with_evidence (labelled_transport services) (new_classifier cfg)) services)"
    and edges: "edges = context_edges to_uint16 quantiles aux cfg services spans name"
  shows "distinct (map edge_pair edges) \<and>
    (a \<notin> transport \<and> b \<notin> transport \<longrightarrow>
       edge_graph edges (a, b) = call_graph to_uint16 (calls_between aux spans transport a b)) \<and>
    (a \<in> transport - {name} \<or> b \<in> transport - {name} \<longrightarrow> edge_graph edges (a, b) = None)"
  using context_edges_rows [of to_uint16 quantiles aux cfg services spans name] row_graph_all_rows [OF ids]
  unfolding transport edges by simp


text \<open>A request of \<open>web\<close> to \<open>app\<close>, once through a waypoint and once directly and failing.\<close>

definition edge_example :: "span list" where
  "edge_example =
     (let sp = (\<lambda>i p svc k st. \<lparr>sp_trace = ''t'', sp_id = i, sp_parent = p, sp_service = svc, sp_operation = ''GET /'', sp_kind = k,
            sp_scope_name = [], sp_scope_version = [], sp_start = 0, sp_duration = 5, sp_status = st, sp_message = [],
            sp_attributes = Map.empty, sp_resource = Map.empty, sp_events = []\<rparr>)
      in [sp ''1'' [] ''web'' ''Client'' [], sp ''2'' ''1'' ''waypoint'' ''Server'' [], sp ''3'' ''2'' ''waypoint'' ''Client'' [],
          sp ''4'' ''3'' ''app'' ''Server'' [], sp ''5'' [] ''web'' ''Client'' [], sp ''6'' ''5'' ''app'' ''Server'' ''Error''])"

definition edge_example_services :: "map_service list" where
  "edge_example_services = map (\<lambda>(n, ev). \<lparr>st_name = n, st_span_count = 2, st_error_count = 0, st_p95 = 5, ms_evidence = ev, ms_labels = Map.empty\<rparr>)
     [(''web'', False), (''waypoint'', True), (''app'', False)]"

definition edge_example_config :: topology_config where
  "edge_example_config = default_topology\<lparr>tp_disable_defaults := True\<rparr>"

lemma edge_example_transport:
  "set (transport_names (with_evidence (labelled_transport edge_example_services) (new_classifier edge_example_config)) edge_example_services) = {''waypoint''}"
  by code_simp

lemma edge_example_ids: "distinct (span_ids edge_example)"
  by code_simp

lemma edge_example_calls:
  "call_graph (\<lambda>_. 0) (calls_between False edge_example {''waypoint''} ''web'' ''app'') = Some (2, 1)"
  by code_simp

theorem edges_are_callers_witness:
  "edge_graph (context_edges (\<lambda>_. 0) (\<lambda>_. (0, 0)) False edge_example_config edge_example_services edge_example ''app'') (''web'', ''app'') = Some (2, 1)"
  using edges_are_callers [where services = edge_example_services and cfg = edge_example_config and ?to_uint16.0 = "\<lambda>_. 0"
      and quantiles = "\<lambda>_. (0, 0)" and aux = False and name = "''app''" and a = "''web''" and b = "''app''",
      OF edge_example_ids refl refl]
  by (simp add: edge_example_transport edge_example_calls)

end
