(* ===== verification/Schema.thy ===== *)
theory Schema
  imports InstallModules
begin

text \<open>
  The schema of the database: the ordered migrations and the modules that own them
  (hub/internal/storage/migrations/migrations.go), the migrator and the status of the ledger
  (hub/internal/storage/clickhouse/migrate.go) and the gate that waits for the schema and heals it
  (hub/cmd/hub/schema.go). A database is its ledger and the statements it has executed; \<open>answers\<close>
  says what becomes of each call, \<open>body\<close> are the embedded files.
\<close>

section \<open>Migrations\<close>

definition ordered_migrations :: "string list" where
  "ordered_migrations =
     [''0001_traces.sql'', ''0002_logs.sql'', ''0003_metrics.sql'', ''0004_profiles.sql'', ''0005_span_index.sql'',
      ''0006_errors.sql'', ''0007_errors_from_logs.sql'', ''0008_alerts.sql'', ''0009_alert_channels.sql'', ''0010_auth.sql'',
      ''0011_auth_oidc_groups.sql'', ''0012_projects.sql'', ''0013_auth_ingest_keys.sql'', ''0014_collection_overlay.sql'',
      ''0015_auth_user_deleted.sql'', ''0016_service_groups.sql'', ''0017_oidc_group_mapping.sql'', ''0018_auth_tokens.sql'',
      ''0019_project_retention.sql'', ''0020_endpoint_checks.sql'', ''0021_rates_overlay.sql'', ''0022_oauth.sql'',
      ''0023_error_fingerprint_v2.sql'', ''0024_error_fingerprint_v2_from_logs.sql'']"

definition by_module :: "string \<rightharpoonup> string list" where
  "by_module = map_of
     [(''0001_traces.sql'', [core]), (''0002_logs.sql'', [''logs'']), (''0003_metrics.sql'', [infra_metrics]),
      (''0004_profiles.sql'', [''profiling'']), (''0005_span_index.sql'', [core]), (''0006_errors.sql'', [''error-tracking'']),
      (''0007_errors_from_logs.sql'', [''error-tracking'', ''logs'']), (''0008_alerts.sql'', [''alerting'']),
      (''0009_alert_channels.sql'', [''alerting'']), (''0010_auth.sql'', [core]), (''0011_auth_oidc_groups.sql'', [core]),
      (''0012_projects.sql'', [core]), (''0013_auth_ingest_keys.sql'', [core]), (''0014_collection_overlay.sql'', [core]),
      (''0015_auth_user_deleted.sql'', [core]), (''0016_service_groups.sql'', [''service-health'']),
      (''0017_oidc_group_mapping.sql'', [core]), (''0018_auth_tokens.sql'', [core]), (''0019_project_retention.sql'', [core]),
      (''0020_endpoint_checks.sql'', [''service-health'']), (''0021_rates_overlay.sql'', [core]), (''0022_oauth.sql'', [''mcp'']),
      (''0023_error_fingerprint_v2.sql'', [''error-tracking'']),
      (''0024_error_fingerprint_v2_from_logs.sql'', [''error-tracking'', ''logs''])]"

definition all_enabled :: "module_set \<Rightarrow> string list \<Rightarrow> bool" where
  "all_enabled active mods = list_all (\<lambda>m. m \<in> active) mods"

text \<open>No set means every module.\<close>

definition expected :: "module_set option \<Rightarrow> string list" where
  "expected active =
     (let act = (case active of None \<Rightarrow> all_set | Some a \<Rightarrow> a)
      in filter (\<lambda>v. case by_module v of Some mods \<Rightarrow> all_enabled act mods | None \<Rightarrow> True) ordered_migrations)"

definition line_feed :: char where "line_feed = char_of (10 :: nat)"

text \<open>A line up to its comment.\<close>

fun strip_comment :: "string \<Rightarrow> string" where
  "strip_comment [] = []"
| "strip_comment (c # cs) = (if has_prefix ''--'' (c # cs) then [] else c # strip_comment cs)"

text \<open>\<open>strings.ReplaceAll\<close> of a non-empty pattern.\<close>

function replace_all :: "string \<Rightarrow> string \<Rightarrow> string \<Rightarrow> string" where
  "replace_all old new s =
     (if s = [] then []
      else if old \<noteq> [] \<and> has_prefix old s then new @ replace_all old new (drop (length old) s)
      else hd s # replace_all old new (tl s))"
  by pat_completeness auto
termination
  by (relation "measure (\<lambda>(old, new, s). length s)") auto

declare replace_all.simps [simp del]

definition database_placeholder :: string where "database_placeholder = ''{db}''"

definition statements :: "string \<Rightarrow> string \<Rightarrow> string list" where
  "statements body db =
     (let stripped = concat (map (\<lambda>line. strip_comment line @ [line_feed]) (split_on line_feed body))
      in map (replace_all database_placeholder db) (filter (\<lambda>c. c \<noteq> []) (map trim_space (split_on (CHR '';'') stripped))))"

section \<open>The database\<close>

text \<open>A call is answered, refused, or executed with its answer lost.\<close>

datatype outcome = Answered | Refused | Answer_Lost

record schema_db =
  sd_ledger :: "string list option"
  sd_executed :: "(string \<times> string) list"
  sd_calls :: nat

datatype ddl_call = Create_Database | Create_Ledger | Exec_Statement string string | Record_Version string

fun call_effect :: "ddl_call \<Rightarrow> schema_db \<Rightarrow> schema_db" where
  "call_effect Create_Database db = db"
| "call_effect Create_Ledger db = db\<lparr>sd_ledger := (case sd_ledger db of None \<Rightarrow> Some [] | Some l \<Rightarrow> Some l)\<rparr>"
| "call_effect (Exec_Statement v s) db = db\<lparr>sd_executed := (v, s) # sd_executed db\<rparr>"
| "call_effect (Record_Version v) db = db\<lparr>sd_ledger := (case sd_ledger db of None \<Rightarrow> None | Some l \<Rightarrow> Some (v # l))\<rparr>"

definition tick :: "schema_db \<Rightarrow> schema_db" where
  "tick db = db\<lparr>sd_calls := Suc (sd_calls db)\<rparr>"

definition do_call :: "(nat \<Rightarrow> outcome) \<Rightarrow> ddl_call \<Rightarrow> schema_db \<Rightarrow> bool \<times> schema_db" where
  "do_call answers c db =
     (case answers (sd_calls db) of
        Answered \<Rightarrow> (True, call_effect c (tick db))
      | Refused \<Rightarrow> (False, tick db)
      | Answer_Lost \<Rightarrow> (False, call_effect c (tick db)))"

fun run_calls :: "(nat \<Rightarrow> outcome) \<Rightarrow> ddl_call list \<Rightarrow> schema_db \<Rightarrow> bool \<times> schema_db" where
  "run_calls answers [] db = (True, db)"
| "run_calls answers (c # cs) db =
     (case do_call answers c db of
        (True, db') \<Rightarrow> run_calls answers cs db'
      | (False, db') \<Rightarrow> (False, db'))"

text \<open>Reading a ledger that does not exist is an error.\<close>

definition applied_versions :: "(nat \<Rightarrow> outcome) \<Rightarrow> schema_db \<Rightarrow> string set option \<times> schema_db" where
  "applied_versions answers db =
     (if answers (sd_calls db) = Answered then (map_option set (sd_ledger db), tick db) else (None, tick db))"

definition existing_ledger :: "(nat \<Rightarrow> outcome) \<Rightarrow> schema_db \<Rightarrow> bool option \<times> schema_db" where
  "existing_ledger answers db =
     (if answers (sd_calls db) = Answered then (Some (sd_ledger db \<noteq> None), tick db) else (None, tick db))"

section \<open>The migrator\<close>

definition ensure_ledger :: "ddl_call list" where
  "ensure_ledger = [Create_Database, Create_Ledger]"

definition version_calls :: "string \<Rightarrow> string \<Rightarrow> string \<Rightarrow> ddl_call list" where
  "version_calls name v b = map (Exec_Statement v) (statements b name) @ [Record_Version v]"

fun apply_versions :: "(nat \<Rightarrow> outcome) \<Rightarrow> (string \<rightharpoonup> string) \<Rightarrow> string \<Rightarrow> string set \<Rightarrow> string list \<Rightarrow> schema_db \<Rightarrow> bool \<times> schema_db" where
  "apply_versions answers body name applied [] db = (True, db)"
| "apply_versions answers body name applied (v # vs) db =
     (if v \<in> applied then apply_versions answers body name applied vs db
      else case body v of
        None \<Rightarrow> (False, db)
      | Some b \<Rightarrow>
          (case run_calls answers (version_calls name v b) db of
             (True, db') \<Rightarrow> apply_versions answers body name applied vs db'
           | (False, db') \<Rightarrow> (False, db')))"

definition migrate :: "(nat \<Rightarrow> outcome) \<Rightarrow> (string \<rightharpoonup> string) \<Rightarrow> string \<Rightarrow> module_set option \<Rightarrow> schema_db \<Rightarrow> bool \<times> schema_db" where
  "migrate answers body name active db =
     (case run_calls answers ensure_ledger db of
        (False, db1) \<Rightarrow> (False, db1)
      | (True, db1) \<Rightarrow>
          (case applied_versions answers db1 of
             (None, db2) \<Rightarrow> (False, db2)
           | (Some applied, db2) \<Rightarrow> apply_versions answers body name applied (expected active) db2))"

record schema_status =
  ss_ready :: bool
  ss_database :: string
  ss_expected :: "string list"
  ss_applied :: "string list"
  ss_missing :: "string list"

definition status_of :: "string \<Rightarrow> module_set option \<Rightarrow> string set \<Rightarrow> schema_status" where
  "status_of name active applied =
     (let missing = filter (\<lambda>v. v \<notin> applied) (expected active)
      in \<lparr>ss_ready = (missing = []), ss_database = name, ss_expected = expected active,
          ss_applied = filter (\<lambda>v. v \<in> applied) (expected active), ss_missing = missing\<rparr>)"

definition read_schema_status :: "(nat \<Rightarrow> outcome) \<Rightarrow> string \<Rightarrow> module_set option \<Rightarrow> schema_db \<Rightarrow> schema_status option \<times> schema_db" where
  "read_schema_status answers name active db =
     (case existing_ledger answers db of
        (None, db1) \<Rightarrow> (None, db1)
      | (Some False, db1) \<Rightarrow> (Some (status_of name active {}), db1)
      | (Some True, db1) \<Rightarrow>
          (case applied_versions answers db1 of
             (None, db2) \<Rightarrow> (None, db2)
           | (Some applied, db2) \<Rightarrow> (Some (status_of name active applied), db2)))"

section \<open>The gate\<close>

record schema_gate =
  sg_active :: "module_set option"
  sg_auto :: bool
  sg_recheck :: duration
  sg_open :: bool
  sg_status :: schema_status

definition schema_recheck_interval :: duration where "schema_recheck_interval = 30 * second"

definition schema_max_apply_attempts :: nat where "schema_max_apply_attempts = 5"

definition new_schema_gate :: "module_set option \<Rightarrow> string \<Rightarrow> bool \<Rightarrow> schema_gate" where
  "new_schema_gate active name auto =
     \<lparr>sg_active = active, sg_auto = auto, sg_recheck = schema_recheck_interval, sg_open = False,
      sg_status = \<lparr>ss_ready = False, ss_database = name, ss_expected = expected active, ss_applied = [], ss_missing = []\<rparr>\<rparr>"

text \<open>What the loop of the gate keeps beside it; \<open>gl_reports\<close> are the errors written to the log.\<close>

record gate_loop =
  gl_gate :: schema_gate
  gl_attempts :: nat
  gl_reported :: bool
  gl_reports :: "string list"
  gl_db :: schema_db

definition start_gate :: "schema_gate \<Rightarrow> schema_db \<Rightarrow> gate_loop" where
  "start_gate g db = \<lparr>gl_gate = g, gl_attempts = 0, gl_reported = False, gl_reports = [], gl_db = db\<rparr>"

datatype gate_next = Opened | Recheck_Now | Pause

definition report_once :: "string \<Rightarrow> gate_loop \<Rightarrow> gate_loop" where
  "report_once msg l = (if gl_reported l then l else l\<lparr>gl_reported := True, gl_reports := gl_reports l @ [msg]\<rparr>)"

definition gate_round :: "(nat \<Rightarrow> outcome) \<Rightarrow> (string \<rightharpoonup> string) \<Rightarrow> string \<Rightarrow> gate_loop \<Rightarrow> gate_next \<times> gate_loop" where
  "gate_round answers body name l =
     (let g = gl_gate l
      in case read_schema_status answers name (sg_active g) (gl_db l) of
        (None, db) \<Rightarrow> (Pause, l\<lparr>gl_db := db\<rparr>)
      | (Some status, db) \<Rightarrow>
          (let l1 = l\<lparr>gl_db := db, gl_gate := g\<lparr>sg_status := status\<rparr>\<rparr>
           in if ss_ready status then (Opened, l1\<lparr>gl_gate := g\<lparr>sg_status := status, sg_open := True\<rparr>\<rparr>)
              else if \<not> sg_auto g then (Pause, report_once ''automigrate is off, run hub migrate'' l1)
              else if schema_max_apply_attempts \<le> gl_attempts l1
                then (Pause, report_once ''still incomplete after repeated self-heal attempts'' l1)
              else (case migrate answers body name (sg_active g) db of
                  (False, db2) \<Rightarrow> (Pause, l1\<lparr>gl_attempts := Suc (gl_attempts l1), gl_db := db2\<rparr>)
                | (True, db2) \<Rightarrow> (Recheck_Now, l1\<lparr>gl_attempts := Suc (gl_attempts l1), gl_db := db2\<rparr>))))"

text \<open>The rounds between two pauses; \<open>None\<close> if the fuel runs out.\<close>

fun gate_pass :: "(nat \<Rightarrow> outcome) \<Rightarrow> (string \<rightharpoonup> string) \<Rightarrow> string \<Rightarrow> nat \<Rightarrow> gate_loop \<Rightarrow> gate_loop option" where
  "gate_pass answers body name 0 l = None"
| "gate_pass answers body name (Suc fuel) l =
     (case gate_round answers body name l of
        (Recheck_Now, l1) \<Rightarrow> gate_pass answers body name fuel l1
      | (_, l1) \<Rightarrow> Some l1)"

definition pass_fuel :: nat where "pass_fuel = Suc schema_max_apply_attempts"

text \<open>\<open>n\<close> passes of the gate; \<open>meanwhile\<close> is what others do to the database before each.\<close>

fun gate_run :: "(nat \<Rightarrow> outcome) \<Rightarrow> (string \<rightharpoonup> string) \<Rightarrow> string \<Rightarrow> (nat \<Rightarrow> schema_db \<Rightarrow> schema_db) \<Rightarrow> nat \<Rightarrow> gate_loop \<Rightarrow> gate_loop option" where
  "gate_run answers body name meanwhile 0 l = Some l"
| "gate_run answers body name meanwhile (Suc n) l =
     (case gate_run answers body name meanwhile n l of
        None \<Rightarrow> None
      | Some l1 \<Rightarrow>
          if sg_open (gl_gate l1) then Some l1
          else gate_pass answers body name pass_fuel (l1\<lparr>gl_db := meanwhile n (gl_db l1)\<rparr>))"

end
