(* ===== verification/SchemaLaws.thy ===== *)
theory SchemaLaws
  imports Schema
begin

text \<open>
  Laws of the schema: any number of migrators, interleaved call by call, keep the ledger honest and
  the order of the files; the gate opens only on a complete schema, applies it a bounded number of
  times, and opens as soon as the database answers.
\<close>

section \<open>Concurrent migrators\<close>

text \<open>The calls a migrator has yet to make after reading the ledger, up to a missing file.\<close>

fun migration_plan :: "(string \<rightharpoonup> string) \<Rightarrow> string \<Rightarrow> string set \<Rightarrow> string list \<Rightarrow> ddl_call list" where
  "migration_plan body name applied [] = []"
| "migration_plan body name applied (v # vs) =
     (if v \<in> applied then migration_plan body name applied vs
      else case body v of None \<Rightarrow> [] | Some b \<Rightarrow> version_calls name v b @ migration_plan body name applied vs)"

lemma run_calls_append:
  "run_calls answers (xs @ ys) db =
     (case run_calls answers xs db of (True, db') \<Rightarrow> run_calls answers ys db' | (False, db') \<Rightarrow> (False, db'))"
  by (induction xs arbitrary: db) (auto split: prod.split bool.split)

lemma apply_versions_plan:
  "snd (apply_versions answers body name applied vs db) = snd (run_calls answers (migration_plan body name applied vs) db)"
  by (induction vs arbitrary: db) (auto simp: run_calls_append split: option.split prod.split bool.split)

text \<open>The states a database and its migrators can reach: a migrator creates the ledger, reads it and
  then makes its calls one by one; each is answered, refused, or executed with its answer lost, and
  a migrator that gets no answer stops.\<close>

inductive migrating :: "(string \<rightharpoonup> string) \<Rightarrow> string \<Rightarrow> module_set option \<Rightarrow> schema_db \<Rightarrow> (nat \<Rightarrow> ddl_call list) \<Rightarrow> bool"
  for body name active where
  fresh: "migrating body name active \<lparr>sd_ledger = None, sd_executed = [], sd_calls = 0\<rparr> (\<lambda>_. [])"
| ticks: "migrating body name active db rs \<Longrightarrow> migrating body name active (tick db) rs"
| ledger: "migrating body name active db rs \<Longrightarrow> migrating body name active (call_effect Create_Ledger db) rs"
| reads: "migrating body name active db rs \<Longrightarrow> sd_ledger db = Some vs \<Longrightarrow>
    migrating body name active db (rs(i := migration_plan body name (set vs) (expected active)))"
| answered: "migrating body name active db rs \<Longrightarrow> rs i = c # cs \<Longrightarrow> migrating body name active (call_effect c db) (rs(i := cs))"
| stopped: "migrating body name active db rs \<Longrightarrow> migrating body name active db (rs(i := []))"

definition version_statements :: "(string \<rightharpoonup> string) \<Rightarrow> string \<Rightarrow> string \<Rightarrow> (string \<times> string) set" where
  "version_statements body name v = (case body v of None \<Rightarrow> {} | Some b \<Rightarrow> Pair v ` set (statements b name))"

definition versions_before :: "string \<Rightarrow> string list \<Rightarrow> string list" where
  "versions_before v vs = takeWhile (\<lambda>u. u \<noteq> v) vs"

definition ledger_honest :: "(string \<rightharpoonup> string) \<Rightarrow> string \<Rightarrow> schema_db \<Rightarrow> bool" where
  "ledger_honest body name db \<longleftrightarrow>
     (\<forall>vs v. sd_ledger db = Some vs \<longrightarrow> v \<in> set vs \<longrightarrow> version_statements body name v \<subseteq> set (sd_executed db))"

definition order_kept :: "(string \<rightharpoonup> string) \<Rightarrow> string \<Rightarrow> module_set option \<Rightarrow> schema_db \<Rightarrow> bool" where
  "order_kept body name active db \<longleftrightarrow>
     (\<forall>newer v s older u. sd_executed db = newer @ (v, s) # older \<longrightarrow> u \<in> set (versions_before v (expected active)) \<longrightarrow>
        version_statements body name u \<subseteq> set older)"

text \<open>What a migrator has yet to do is the end of a plan whose beginning is done.\<close>

definition plan_sound :: "(string \<rightharpoonup> string) \<Rightarrow> string \<Rightarrow> module_set option \<Rightarrow> schema_db \<Rightarrow> ddl_call list \<Rightarrow> bool" where
  "plan_sound body name active db rest \<longleftrightarrow> rest = [] \<or>
     (\<exists>applied past. migration_plan body name applied (expected active) = past @ rest \<and>
        (\<forall>v\<in>applied. version_statements body name v \<subseteq> set (sd_executed db)) \<and>
        (\<forall>v s. Exec_Statement v s \<in> set past \<longrightarrow> (v, s) \<in> set (sd_executed db)))"

lemma append_eq_split:
  assumes "xs @ ys = past @ c # rest" "c \<notin> set xs"
  obtains mid where "past = xs @ mid" "ys = mid @ c # rest"
  using assms by (auto simp: append_eq_append_conv2 append_eq_Cons_conv)

lemma plan_head:
  assumes "migration_plan body name applied vs = past @ Exec_Statement v s # rest" "distinct vs" "u \<in> set (versions_before v vs)"
  shows "u \<in> applied \<or> (\<forall>p\<in>version_statements body name u. Exec_Statement (fst p) (snd p) \<in> set past)"
  using assms
proof (induction vs arbitrary: past)
  case (Cons w ws)
  show ?case
  proof (cases "w \<in> applied \<or> body w = None")
    case True
    with Cons show ?thesis by (auto simp: versions_before_def split: if_splits)
  next
    case False
    then obtain b where b: "w \<notin> applied" "body w = Some b" by auto
    with Cons.prems(1) have plan: "version_calls name w b @ migration_plan body name applied ws = past @ Exec_Statement v s # rest"
      by simp
    from Cons.prems(3) have wv: "w \<noteq> v" by (auto simp: versions_before_def split: if_splits)
    then have "Exec_Statement v s \<notin> set (version_calls name w b)" by (auto simp: version_calls_def)
    from append_eq_split [OF plan this] obtain mid where mid: "past = version_calls name w b @ mid"
        "migration_plan body name applied ws = mid @ Exec_Statement v s # rest" by blast
    show ?thesis
    proof (cases "u = w")
      case True
      with b mid show ?thesis by (auto simp: version_statements_def version_calls_def)
    next
      case False
      with Cons.prems wv have "u \<in> set (versions_before v ws)" by (simp add: versions_before_def)
      with Cons.IH [OF mid(2)] Cons.prems(2) mid(1) show ?thesis by auto
    qed
  qed
qed simp

lemma plan_record:
  assumes "migration_plan body name applied vs = past @ Record_Version v # rest" "distinct vs"
  shows "\<forall>p\<in>version_statements body name v. Exec_Statement (fst p) (snd p) \<in> set past"
  using assms
proof (induction vs arbitrary: past)
  case (Cons w ws)
  show ?case
  proof (cases "w \<in> applied \<or> body w = None")
    case True
    with Cons show ?thesis by (auto split: if_splits)
  next
    case False
    then obtain b where b: "w \<notin> applied" "body w = Some b" by auto
    with Cons.prems(1) have plan: "map (Exec_Statement w) (statements b name) @ Record_Version w # migration_plan body name applied ws =
        past @ Record_Version v # rest"
      by (simp add: version_calls_def)
    have "Record_Version v \<notin> set (map (Exec_Statement w) (statements b name))" by auto
    from append_eq_split [OF plan this] obtain mid where mid: "past = map (Exec_Statement w) (statements b name) @ mid"
        "Record_Version w # migration_plan body name applied ws = mid @ Record_Version v # rest" by blast
    with b Cons show ?thesis by (cases mid) (auto simp: version_statements_def)
  qed
qed simp

lemma distinct_expected: "distinct (expected active)"
  unfolding expected_def Let_def by (rule distinct_filter) (simp add: ordered_migrations_def)

lemma plan_sound_mono:
  "plan_sound body name active db rest \<Longrightarrow> set (sd_executed db) \<subseteq> set (sd_executed db') \<Longrightarrow> plan_sound body name active db' rest"
  unfolding plan_sound_def by (meson subset_trans subsetD)

lemma call_effect_executed: "set (sd_executed db) \<subseteq> set (sd_executed (call_effect c db))"
  by (cases c) auto

lemma migrating_sound:
  assumes "migrating body name active db rs"
  shows "ledger_honest body name db \<and> order_kept body name active db \<and> (\<forall>i. plan_sound body name active db (rs i))"
  using assms
proof (induction rule: migrating.induct)
  case fresh
  then show ?case by (simp add: ledger_honest_def order_kept_def plan_sound_def)
next
  case (ticks db rs)
  then show ?case by (simp add: ledger_honest_def order_kept_def plan_sound_def tick_def)
next
  case (ledger db rs)
  then show ?case by (auto simp: ledger_honest_def order_kept_def plan_sound_def split: option.splits)
next
  case (reads db rs vs i)
  have "plan_sound body name active db (migration_plan body name (set vs) (expected active))"
    using reads unfolding plan_sound_def by (intro disjI2 exI [of _ "set vs"] exI [of _ "[]"]) (auto simp: ledger_honest_def)
  with reads show ?case by simp
next
  case (stopped db rs i)
  then show ?case by (simp add: plan_sound_def)
next
  case (answered db rs i c cs)
  from answered have honest: "ledger_honest body name db" and order: "order_kept body name active db"
    and sound: "\<And>j. plan_sound body name active db (rs j)" by auto
  from sound [of i] answered obtain applied past where
    plan: "migration_plan body name applied (expected active) = past @ c # cs"
    and kept: "\<forall>v\<in>applied. version_statements body name v \<subseteq> set (sd_executed db)"
      "\<forall>v s. Exec_Statement v s \<in> set past \<longrightarrow> (v, s) \<in> set (sd_executed db)"
    unfolding plan_sound_def by auto
  let ?db = "call_effect c db"
  have honest': "ledger_honest body name ?db"
  proof (cases c)
    case (Record_Version v)
    with plan_record [OF plan [unfolded Record_Version] distinct_expected] kept(2) honest show ?thesis
      by (auto simp: ledger_honest_def split: option.splits)
  qed (use honest in \<open>auto simp: ledger_honest_def split: option.splits\<close>)
  have order': "order_kept body name active ?db"
  proof (cases c)
    case (Exec_Statement v s)
    show ?thesis
      unfolding order_kept_def
    proof (intro allI impI)
      fix newer w t older u
      assume e: "sd_executed ?db = newer @ (w, t) # older" and u: "u \<in> set (versions_before w (expected active))"
      show "version_statements body name u \<subseteq> set older"
      proof (cases newer)
        case Nil
        with e Exec_Statement have "w = v" "older = sd_executed db" by auto
        with plan_head [OF plan [unfolded Exec_Statement] distinct_expected] u kept show ?thesis by fastforce
      next
        case (Cons n ns)
        with e Exec_Statement order u show ?thesis by (auto simp: order_kept_def)
      qed
    qed
  qed (use order in \<open>auto simp: order_kept_def\<close>)
  have "plan_sound body name active ?db cs"
    unfolding plan_sound_def
  proof (intro disjI2 exI conjI)
    show "migration_plan body name applied (expected active) = (past @ [c]) @ cs" using plan by simp
    show "\<forall>v\<in>applied. version_statements body name v \<subseteq> set (sd_executed ?db)"
      using kept(1) call_effect_executed by blast
    show "\<forall>v s. Exec_Statement v s \<in> set (past @ [c]) \<longrightarrow> (v, s) \<in> set (sd_executed ?db)"
      using kept(2) call_effect_executed [of db c] by auto
  qed
  moreover have "plan_sound body name active ?db (rs j)" for j
    using plan_sound_mono [OF sound call_effect_executed] .
  ultimately show ?case using honest' order' by simp
qed


section \<open>The migrator of the code is one of them\<close>

definition reachable :: "(string \<rightharpoonup> string) \<Rightarrow> string \<Rightarrow> module_set option \<Rightarrow> schema_db \<Rightarrow> bool" where
  "reachable body name active db \<longleftrightarrow> (\<exists>rs. migrating body name active db rs)"

lemma reachable_steps:
  "reachable body name active db \<Longrightarrow> reachable body name active (tick db)"
  "reachable body name active db \<Longrightarrow> reachable body name active (call_effect Create_Ledger db)"
  "reachable body name active db \<Longrightarrow> ledger_honest body name db"
  "reachable body name active db \<Longrightarrow> order_kept body name active db"
  unfolding reachable_def using migrating_sound by (blast intro: migrating.intros)+

lemma run_calls_migrating:
  "migrating body name active db rs \<Longrightarrow> rs i = cs \<Longrightarrow>
     \<exists>rs'. migrating body name active (snd (run_calls answers cs db)) rs'"
proof (induction cs arbitrary: db rs)
  case (Cons c cs)
  from migrating.answered [OF migrating.ticks [OF Cons.prems(1)] Cons.prems(2)]
  have after: "migrating body name active (call_effect c (tick db)) (rs(i := cs))" .
  show ?case
    using Cons.IH [OF after] after migrating.ticks [OF Cons.prems(1)]
    by (auto simp: do_call_def split: outcome.splits)
qed auto

lemma applied_versions_reachable:
  "reachable body name active db \<Longrightarrow> reachable body name active (snd (applied_versions answers db))"
  by (simp add: applied_versions_def reachable_steps)

lemma ensure_ledger_reachable:
  "reachable body name active db \<Longrightarrow> reachable body name active (snd (run_calls answers ensure_ledger db))"
  by (auto simp: ensure_ledger_def do_call_def reachable_steps simp del: call_effect.simps(2) split: outcome.split)

lemma apply_versions_reachable:
  assumes "reachable body name active db" "sd_ledger db = Some vs"
  shows "reachable body name active (snd (apply_versions answers body name (set vs) (expected active) db))"
proof -
  from assms obtain rs where "migrating body name active db rs" by (auto simp: reachable_def)
  from migrating.reads [OF this assms(2), of 0] show ?thesis
    unfolding apply_versions_plan reachable_def by (rule run_calls_migrating [where i = 0]) simp
qed

lemma do_call_True: "do_call answers c db = (True, db') \<Longrightarrow> db' = call_effect c (tick db)"
  by (auto simp: do_call_def split: outcome.splits)

lemma migrate_reachable:
  "reachable body name active db \<Longrightarrow> reachable body name active (snd (migrate answers body name active db))"
proof -
  assume r: "reachable body name active db"
  obtain ok db1 where e: "run_calls answers ensure_ledger db = (ok, db1)" by force
  from ensure_ledger_reachable [OF r, of answers] e have r1: "reachable body name active db1" by simp
  obtain applied db2 where a: "applied_versions answers db1 = (applied, db2)" by force
  from applied_versions_reachable [OF r1, of answers] a have r2: "reachable body name active db2" by simp
  show ?thesis
  proof (cases applied)
    case None
    with r1 r2 e a show ?thesis by (simp add: migrate_def split: bool.split)
  next
    case (Some A)
    with a obtain vs where "sd_ledger db2 = Some vs" "A = set vs"
      by (auto simp: applied_versions_def tick_def split: if_splits)
    with apply_versions_reachable [OF r2] r1 r2 e a Some show ?thesis
      by (simp add: migrate_def split: bool.split)
  qed
qed

text \<open>A run that reports success has recorded every version.\<close>

lemma run_calls_ledger:
  "run_calls answers cs db = (ok, db') \<Longrightarrow> sd_ledger db = Some vs \<Longrightarrow> \<exists>ws. sd_ledger db' = Some ws \<and> set vs \<subseteq> set ws"
proof (induction cs arbitrary: db vs)
  case (Cons c cs)
  have "\<exists>ws. sd_ledger (call_effect c (tick db)) = Some ws \<and> set vs \<subseteq> set ws"
    using Cons.prems(2) by (cases c) (auto simp: tick_def)
  with Cons show ?case by (fastforce simp: do_call_def tick_def split: outcome.splits)
qed auto

lemma version_calls_ledger:
  assumes "run_calls answers (version_calls name v b) db = (True, db')" "sd_ledger db = Some vs"
  shows "\<exists>ws. sd_ledger db' = Some ws \<and> insert v (set vs) \<subseteq> set ws"
proof -
  from assms(1) obtain db1 where 1: "run_calls answers (map (Exec_Statement v) (statements b name)) db = (True, db1)"
      and 2: "do_call answers (Record_Version v) db1 = (True, db')"
    by (auto simp: version_calls_def run_calls_append split: prod.splits bool.splits)
  from run_calls_ledger [OF 1 assms(2)] do_call_True [OF 2] show ?thesis by (auto simp: tick_def)
qed

lemma apply_versions_ledger:
  "apply_versions answers body name A us db = (True, db') \<Longrightarrow> sd_ledger db = Some vs \<Longrightarrow> A \<subseteq> set vs \<Longrightarrow>
     \<exists>ws. sd_ledger db' = Some ws \<and> set us \<union> set vs \<subseteq> set ws"
proof (induction us arbitrary: db vs)
  case (Cons u us)
  show ?case
  proof (cases "u \<in> A")
    case True
    with Cons show ?thesis by fastforce
  next
    case False
    with Cons.prems(1) obtain b db1 where b: "run_calls answers (version_calls name u b) db = (True, db1)"
        "apply_versions answers body name A us db1 = (True, db')"
      by (auto split: option.splits prod.splits bool.splits)
    from version_calls_ledger [OF b(1) Cons.prems(2)] obtain ws where "sd_ledger db1 = Some ws" "insert u (set vs) \<subseteq> set ws"
      by blast
    with Cons.IH [OF b(2), of ws] Cons.prems(3) show ?thesis by fastforce
  qed
qed auto

lemma migrate_complete:
  assumes "migrate answers body name active db = (True, db')"
  shows "\<exists>ws. sd_ledger db' = Some ws \<and> set (expected active) \<subseteq> set ws"
proof -
  from assms obtain db1 A db2 where "applied_versions answers db1 = (Some A, db2)"
      and run: "apply_versions answers body name A (expected active) db2 = (True, db')"
    by (auto simp: migrate_def split: prod.splits bool.splits option.splits)
  then obtain vs where "sd_ledger db2 = Some vs" "A = set vs" by (auto simp: applied_versions_def tick_def split: if_splits)
  with apply_versions_ledger [OF run] show ?thesis by blast
qed

lemma apply_versions_done:
  "set us \<subseteq> A \<Longrightarrow> apply_versions answers body name A us db = (True, db)"
  by (induction us) auto

lemma migrate_again:
  assumes "sd_ledger db = Some ws" "set (expected active) \<subseteq> set ws"
  shows "sd_executed (snd (migrate answers body name active db)) = sd_executed db"
  using assms
  by (auto simp: migrate_def ensure_ledger_def do_call_def applied_versions_def tick_def apply_versions_done split: outcome.splits)


text \<open>C11. However many migrators run at once, and whatever becomes of each of their calls, every
  version in the ledger has had all its statements executed, and no statement of a file was ever
  executed before all the statements of the files expected before it. A call of the migrator takes
  such a database to another; if it reports success the ledger holds every version the active
  modules expect, and migrating again then executes nothing.\<close>

theorem migrate_refines:
  assumes "reachable body name active db" "migrate answers body name active db = (ok, db')"
  shows "reachable body name active db' \<and> ledger_honest body name db' \<and> order_kept body name active db' \<and>
    (ok \<longrightarrow> (\<exists>vs. sd_ledger db' = Some vs \<and> set (expected active) \<subseteq> set vs) \<and>
       sd_executed (snd (migrate later body name active db')) = sd_executed db')"
proof -
  have r: "reachable body name active db'" using migrate_reachable [OF assms(1), of answers] assms(2) by simp
  moreover have "\<exists>vs. sd_ledger db' = Some vs \<and> set (expected active) \<subseteq> set vs" if ok
    using migrate_complete [of answers body name active db db'] assms(2) that by simp
  moreover from this have "sd_executed (snd (migrate later body name active db')) = sd_executed db'" if ok
    using migrate_again that by blast
  ultimately show ?thesis using reachable_steps(3,4) [OF r] by blast
qed

text \<open>An empty database, files with one statement each, and a database that always answers.\<close>

definition empty_db :: schema_db where
  "empty_db = \<lparr>sd_ledger = None, sd_executed = [], sd_calls = 0\<rparr>"

definition example_body :: "string \<rightharpoonup> string" where
  "example_body v = Some (''CREATE TABLE IF NOT EXISTS {db}.'' @ v @ '';'')"

lemma empty_db_reachable: "reachable body name active empty_db"
  unfolding reachable_def empty_db_def by (blast intro: migrating.fresh)

section \<open>The gate\<close>

definition gate_sound :: "gate_loop \<Rightarrow> bool" where
  "gate_sound l \<longleftrightarrow> gl_attempts l \<le> schema_max_apply_attempts \<and> length (gl_reports l) = (if gl_reported l then 1 else 0)"

lemma gate_round_bounds:
  assumes "gate_round answers body name l = (n, l')" "gate_sound l"
  shows "gate_sound l'" "n = Recheck_Now \<Longrightarrow> gl_attempts l' = Suc (gl_attempts l)" "gl_attempts l \<le> gl_attempts l'"
  using assms
  by (auto simp: gate_round_def gate_sound_def Let_def report_once_def schema_max_apply_attempts_def
      split: prod.splits option.splits if_splits bool.splits)

lemma gate_pass_bounds:
  "gate_sound l \<Longrightarrow> schema_max_apply_attempts - gl_attempts l < fuel \<Longrightarrow>
     \<exists>l'. gate_pass answers body name fuel l = Some l' \<and> gate_sound l'"
proof (induction fuel arbitrary: l)
  case (Suc fuel)
  obtain n l1 where r: "gate_round answers body name l = (n, l1)" by force
  note b = gate_round_bounds [OF r Suc.prems(1)]
  show ?case
  proof (cases n)
    case Recheck_Now
    have "schema_max_apply_attempts - gl_attempts l1 < fuel"
      using b(1) b(2) [OF Recheck_Now] Suc.prems(2) by (auto simp: gate_sound_def)
    from Suc.IH [OF b(1) this] r Recheck_Now show ?thesis by simp
  qed (use r b(1) in auto)
qed simp

lemma gate_run_bounds:
  "gate_sound l \<Longrightarrow> \<exists>l'. gate_run answers body name meanwhile n l = Some l' \<and> gate_sound l'"
proof (induction n)
  case (Suc n)
  then obtain l1 where l1: "gate_run answers body name meanwhile n l = Some l1" "gate_sound l1" by blast
  then have "gate_sound (l1\<lparr>gl_db := meanwhile n (gl_db l1)\<rparr>)" by (simp add: gate_sound_def)
  from gate_pass_bounds [OF this, of pass_fuel] l1 show ?case by (auto simp: pass_fuel_def)
qed simp

text \<open>C28. The gate terminates between its pauses and never floods: whatever the database answers
  and others do meanwhile, every pass of the loop ends (six rounds suffice), and over any number of
  passes the migrations are applied at most five times and at most one error is reported.\<close>

theorem gate_passes_end:
  "\<exists>l. gate_run answers body name meanwhile n (start_gate g db) = Some l \<and>
     gl_attempts l \<le> 5 \<and> length (gl_reports l) \<le> 1"
  using gate_run_bounds [of "start_gate g db" answers body name meanwhile n]
  by (auto simp: gate_sound_def start_gate_def schema_max_apply_attempts_def split: if_splits)

text \<open>Every version the modules expect is in the ledger.\<close>

definition schema_complete :: "module_set option \<Rightarrow> schema_db \<Rightarrow> bool" where
  "schema_complete active db \<longleftrightarrow> (\<forall>v\<in>set (expected active). \<exists>vs. sd_ledger db = Some vs \<and> v \<in> set vs)"

lemma status_ready: "ss_ready (status_of name active A) \<longleftrightarrow> set (expected active) \<subseteq> A"
  by (auto simp: status_of_def Let_def filter_empty_conv)

lemma tick_simps [simp]:
  "sd_ledger (tick db) = sd_ledger db" "sd_executed (tick db) = sd_executed db" "sd_calls (tick db) = Suc (sd_calls db)"
  by (simp_all add: tick_def)

lemma schema_status_facts:
  assumes "read_schema_status answers name active db = (st, db')"
  shows "reachable body name act db \<Longrightarrow> reachable body name act db'"
    and "st = Some status \<Longrightarrow> ss_ready status \<Longrightarrow> schema_complete active db'"
    and "sd_ledger db' = sd_ledger db"
    and "sd_calls db \<le> sd_calls db'"
    and "\<forall>k\<ge>sd_calls db. answers k = Answered \<Longrightarrow> \<exists>status. st = Some status \<and> (ss_ready status \<longleftrightarrow> schema_complete active db)"
  using assms
  by (auto simp: read_schema_status_def existing_ledger_def applied_versions_def schema_complete_def status_ready reachable_steps
      subset_iff split: if_splits option.splits prod.splits bool.splits)

definition gate_ok :: "(string \<rightharpoonup> string) \<Rightarrow> string \<Rightarrow> module_set option \<Rightarrow> gate_loop \<Rightarrow> bool" where
  "gate_ok body name active l \<longleftrightarrow> sg_active (gl_gate l) = active \<and> reachable body name active (gl_db l) \<and>
     (sg_open (gl_gate l) \<longrightarrow> schema_complete active (gl_db l))"

lemma gate_round_ok:
  assumes "gate_round answers body name l = (n, l')" "gate_ok body name active l" "\<not> sg_open (gl_gate l)"
  shows "gate_ok body name active l' \<and> (sg_open (gl_gate l') \<longleftrightarrow> n = Opened)"
proof -
  obtain st db where s: "read_schema_status answers name active (gl_db l) = (st, db)" by force
  have r: "reachable body name active db"
    using schema_status_facts(1) [OF s] assms(2) by (simp add: gate_ok_def)
  obtain ok db2 where m: "migrate answers body name active db = (ok, db2)" by force
  have r2: "reachable body name active db2" using migrate_reachable [OF r, of answers] m by simp
  have a: "sg_active (gl_gate l) = active" using assms(2) by (simp add: gate_ok_def)
  show ?thesis
  proof (cases st)
    case None
    with assms s a r show ?thesis by (auto simp: gate_round_def gate_ok_def)
  next
    case (Some status)
    with assms s a r r2 m schema_status_facts(2) [OF s Some] show ?thesis
      by (auto simp: gate_round_def gate_ok_def Let_def report_once_def split: if_splits bool.splits)
  qed
qed

lemma gate_pass_ok:
  "gate_pass answers body name fuel l = Some l' \<Longrightarrow> gate_ok body name active l \<Longrightarrow> \<not> sg_open (gl_gate l) \<Longrightarrow> gate_ok body name active l'"
proof (induction fuel arbitrary: l)
  case (Suc fuel)
  obtain n l1 where r: "gate_round answers body name l = (n, l1)" by force
  note ok = gate_round_ok [OF r Suc.prems(2,3)]
  with Suc r show ?case by (cases n) auto
qed simp

text \<open>The gate opens only on a complete schema. While others may do to the database what migrators
  do, whenever the gate is open every statement of every file the active modules expect has been
  executed.\<close>

theorem gate_opens_complete:
  assumes others: "\<And>n db. reachable body name active db \<Longrightarrow> reachable body name active (meanwhile n db)"
    and start: "reachable body name active db"
    and run: "gate_run answers body name meanwhile n (start_gate (new_schema_gate active name auto) db) = Some l"
    and opened: "sg_open (gl_gate l)"
    and v: "v \<in> set (expected active)"
  shows "version_statements body name v \<subseteq> set (sd_executed (gl_db l))"
proof -
  have "gate_ok body name active l"
    using run
  proof (induction n arbitrary: l)
    case 0
    with start show ?case by (auto simp: gate_ok_def start_gate_def new_schema_gate_def)
  next
    case (Suc n)
    then obtain l1 where l1: "gate_run answers body name meanwhile n (start_gate (new_schema_gate active name auto) db) = Some l1"
      by (auto split: option.splits)
    with Suc have ok: "gate_ok body name active l1" by blast
    show ?case
    proof (cases "sg_open (gl_gate l1)")
      case True
      with Suc.prems l1 ok show ?thesis by simp
    next
      case False
      with ok others have "gate_ok body name active (l1\<lparr>gl_db := meanwhile n (gl_db l1)\<rparr>)" by (simp add: gate_ok_def)
      from gate_pass_ok [OF _ this] False Suc.prems l1 show ?thesis by auto
    qed
  qed
  with opened v obtain vs where "sd_ledger (gl_db l) = Some vs" "v \<in> set vs" "ledger_honest body name (gl_db l)"
    unfolding gate_ok_def schema_complete_def using reachable_steps(3) by blast
  then show ?thesis by (auto simp: ledger_honest_def)
qed


section \<open>The gate opens\<close>

lemma call_effect_calls [simp]: "sd_calls (call_effect c db) = sd_calls db"
  by (cases c) auto

lemma run_calls_answered:
  "\<forall>k\<ge>sd_calls db. answers k = Answered \<Longrightarrow> fst (run_calls answers cs db) \<and> sd_calls db \<le> sd_calls (snd (run_calls answers cs db))"
proof (induction cs arbitrary: db)
  case (Cons c cs)
  then have "do_call answers c db = (True, call_effect c (tick db))" by (simp add: do_call_def)
  moreover have "\<forall>k\<ge>sd_calls (call_effect c (tick db)). answers k = Answered" using Cons.prems by simp
  from Cons.IH [OF this] have "fst (run_calls answers cs (call_effect c (tick db))) \<and>
      sd_calls db \<le> sd_calls (snd (run_calls answers cs (call_effect c (tick db))))" by simp
  ultimately show ?case by simp
qed simp

lemma apply_versions_answered:
  "\<forall>k\<ge>sd_calls db. answers k = Answered \<Longrightarrow> \<forall>v\<in>set vs. body v \<noteq> None \<Longrightarrow>
     fst (apply_versions answers body name A vs db) \<and> sd_calls db \<le> sd_calls (snd (apply_versions answers body name A vs db))"
proof (induction vs arbitrary: db)
  case (Cons v vs)
  then obtain b where b: "body v = Some b" by auto
  obtain db1 where r: "run_calls answers (version_calls name v b) db = (True, db1)" "sd_calls db \<le> sd_calls db1"
    using run_calls_answered [OF Cons.prems(1), of "version_calls name v b"] by (metis prod.collapse)
  have "fst (apply_versions answers body name A vs db1) \<and> sd_calls db1 \<le> sd_calls (snd (apply_versions answers body name A vs db1))"
    using Cons.IH [of db1] Cons.prems r(2) by simp
  with Cons.IH [OF Cons.prems(1)] Cons.prems(2) b r show ?case by auto
qed simp

lemma migrate_answered:
  assumes "\<forall>k\<ge>sd_calls db. answers k = Answered" "\<forall>v\<in>set (expected active). body v \<noteq> None"
  obtains db' where "migrate answers body name active db = (True, db')" "sd_calls db \<le> sd_calls db'"
proof -
  let ?db1 = "call_effect Create_Ledger (tick (tick db))"
  have "run_calls answers ensure_ledger db = (True, ?db1)"
    using assms(1) by (simp add: ensure_ledger_def do_call_def del: call_effect.simps(2))
  moreover have "\<exists>vs. sd_ledger ?db1 = Some vs" by (auto split: option.split)
  then obtain vs where "applied_versions answers ?db1 = (Some (set vs), tick ?db1)"
    using assms(1) by (auto simp: applied_versions_def simp del: call_effect.simps)
  moreover have "\<forall>k\<ge>sd_calls (tick ?db1). answers k = Answered" using assms(1) by simp
  from apply_versions_answered [OF this assms(2), of name "set vs"] obtain db' where
    "apply_versions answers body name (set vs) (expected active) (tick ?db1) = (True, db')" "sd_calls db \<le> sd_calls db'"
    by (cases "apply_versions answers body name (set vs) (expected active) (tick ?db1)") auto
  ultimately show thesis using that by (simp add: migrate_def)
qed

lemma complete_round_opens:
  assumes "\<forall>k\<ge>sd_calls (gl_db l). answers k = Answered" "schema_complete (sg_active (gl_gate l)) (gl_db l)"
  shows "\<exists>l'. gate_round answers body name l = (Opened, l') \<and> sg_open (gl_gate l')"
proof -
  obtain st db where s: "read_schema_status answers name (sg_active (gl_gate l)) (gl_db l) = (st, db)" by force
  from schema_status_facts(5) [OF s assms(1)] assms(2) s show ?thesis by (auto simp: gate_round_def Let_def)
qed

lemma healing_round:
  assumes answered: "\<forall>k\<ge>sd_calls (gl_db l). answers k = Answered"
    and bodies: "\<forall>v\<in>set (expected (sg_active (gl_gate l))). body v \<noteq> None"
    and "\<not> schema_complete (sg_active (gl_gate l)) (gl_db l)" "sg_auto (gl_gate l)" "gl_attempts l < schema_max_apply_attempts"
  shows "\<exists>l'. gate_round answers body name l = (Recheck_Now, l') \<and> sg_active (gl_gate l') = sg_active (gl_gate l) \<and>
    schema_complete (sg_active (gl_gate l)) (gl_db l') \<and> sd_calls (gl_db l) \<le> sd_calls (gl_db l')"
proof -
  let ?a = "sg_active (gl_gate l)"
  obtain st db where s: "read_schema_status answers name ?a (gl_db l) = (st, db)" by force
  from schema_status_facts(5) [OF s answered] assms(3) obtain status where st: "st = Some status" "\<not> ss_ready status" by blast
  have le: "sd_calls (gl_db l) \<le> sd_calls db" by (rule schema_status_facts(4) [OF s])
  then have "\<forall>k\<ge>sd_calls db. answers k = Answered" using answered by auto
  then obtain db2 where m: "migrate answers body name ?a db = (True, db2)" "sd_calls db \<le> sd_calls db2"
    using bodies by (rule migrate_answered)
  from migrate_complete [OF m(1)] have "schema_complete ?a db2" by (auto simp: schema_complete_def)
  with s st m le assms(4,5) show ?thesis by (auto simp: gate_round_def Let_def)
qed

text \<open>C10. The gate opens as soon as it can. If at some pass the database answers from then on, and
  either others have completed the schema by then, or the gate may heal it itself and has attempts
  left, the gate is open after this pass, however many passes failed before.\<close>

theorem gate_opens:
  assumes run: "gate_run answers body name meanwhile n l0 = Some l"
    and db: "db = meanwhile n (gl_db l)"
    and answered: "\<forall>k\<ge>sd_calls db. answers k = Answered"
    and bodies: "\<forall>v\<in>set (expected (sg_active (gl_gate l))). body v \<noteq> None"
    and able: "schema_complete (sg_active (gl_gate l)) db \<or> sg_auto (gl_gate l) \<and> gl_attempts l < schema_max_apply_attempts"
  shows "\<exists>l'. gate_run answers body name meanwhile (Suc n) l0 = Some l' \<and> sg_open (gl_gate l')"
proof (cases "sg_open (gl_gate l)")
  case True
  with run show ?thesis by simp
next
  case False
  let ?l = "l\<lparr>gl_db := db\<rparr>"
  have "\<exists>l'. gate_pass answers body name pass_fuel ?l = Some l' \<and> sg_open (gl_gate l')"
  proof (cases "schema_complete (sg_active (gl_gate l)) db")
    case True
    with complete_round_opens [of ?l answers body name] answered show ?thesis
      by (auto simp: pass_fuel_def)
  next
    case False
    with healing_round [of ?l answers body name] answered bodies able obtain l1 where
      l1: "gate_round answers body name ?l = (Recheck_Now, l1)" "sg_active (gl_gate l1) = sg_active (gl_gate l)"
        "schema_complete (sg_active (gl_gate l)) (gl_db l1)" "sd_calls db \<le> sd_calls (gl_db l1)" by auto
    with complete_round_opens [of l1 answers body name] answered show ?thesis
      by (auto simp: pass_fuel_def schema_max_apply_attempts_def numeral_eq_Suc)
  qed
  with False run db show ?thesis by simp
qed


section \<open>Witnesses\<close>

theorem migrate_refines_witness:
  "\<exists>db'. migrate (\<lambda>_. Answered) example_body ''otel'' (Some {core}) empty_db = (True, db') \<and>
     ledger_honest example_body ''otel'' db' \<and> (\<exists>vs. sd_ledger db' = Some vs \<and> set (expected (Some {core})) \<subseteq> set vs) \<and>
     sd_executed (snd (migrate (\<lambda>_. Answered) example_body ''otel'' (Some {core}) db')) = sd_executed db'"
proof -
  obtain db' where m: "migrate (\<lambda>_. Answered) example_body ''otel'' (Some {core}) empty_db = (True, db')"
    by (rule migrate_answered [where answers = "\<lambda>_. Answered" and body = example_body]) (auto simp: example_body_def)
  from migrate_refines [OF empty_db_reachable m, of "\<lambda>_. Answered"] m show ?thesis by auto
qed

definition example_gate :: schema_gate where
  "example_gate = new_schema_gate (Some {core}) ''otel'' True"

text \<open>A database that refuses its first three calls: the gate opens in the fourth pass.\<close>

theorem gate_opens_witness:
  "\<exists>l. gate_run (\<lambda>k. if k < 3 then Refused else Answered) example_body ''otel'' (\<lambda>_ db. db) (Suc 3) (start_gate example_gate empty_db) = Some l \<and>
     sg_open (gl_gate l)"
proof -
  let ?answers = "\<lambda>k. if k < (3 :: nat) then Refused else Answered"
  obtain l where l: "gate_run ?answers example_body ''otel'' (\<lambda>_ db. db) 3 (start_gate example_gate empty_db) = Some l"
      "sd_calls (gl_db l) = 3" "sg_auto (gl_gate l)" "gl_attempts l = 0"
    by (simp add: numeral_eq_Suc pass_fuel_def start_gate_def example_gate_def new_schema_gate_def empty_db_def
        gate_round_def read_schema_status_def existing_ledger_def tick_def)
  show ?thesis
    by (rule gate_opens [OF l(1) refl]) (use l in \<open>auto simp: example_body_def schema_max_apply_attempts_def\<close>)
qed

lemma traces_expected: "''0001_traces.sql'' \<in> set (expected (Some {core}))"
  by code_simp

theorem gate_opens_complete_witness:
  "\<exists>l. gate_run (\<lambda>_. Answered) example_body ''otel'' (\<lambda>_ db. db) 1 (start_gate example_gate empty_db) = Some l \<and>
     version_statements example_body ''otel'' ''0001_traces.sql'' \<subseteq> set (sd_executed (gl_db l))"
proof -
  let ?l = "start_gate example_gate empty_db"
  have active: "sg_active (gl_gate ?l) = Some {core}" "gl_db ?l = empty_db"
    by (simp_all add: start_gate_def example_gate_def new_schema_gate_def)
  then have "\<not> schema_complete (sg_active (gl_gate ?l)) (gl_db ?l)"
    using traces_expected by (auto simp: schema_complete_def empty_db_def)
  then obtain l1 where l1: "gate_round (\<lambda>_. Answered) example_body ''otel'' ?l = (Recheck_Now, l1)"
      "schema_complete (sg_active (gl_gate l1)) (gl_db l1)"
    using healing_round [of ?l "\<lambda>_. Answered" example_body "''otel''"]
    by (auto simp: example_body_def start_gate_def example_gate_def new_schema_gate_def schema_max_apply_attempts_def)
  from complete_round_opens [of l1 "\<lambda>_. Answered" example_body "''otel''", OF _ l1(2)] obtain l
    where "gate_round (\<lambda>_. Answered) example_body ''otel'' l1 = (Opened, l)" "sg_open (gl_gate l)" by auto
  with l1(1) have l: "gate_run (\<lambda>_. Answered) example_body ''otel'' (\<lambda>_ db. db) 1 ?l = Some l" "sg_open (gl_gate l)"
    by (simp_all add: pass_fuel_def schema_max_apply_attempts_def numeral_eq_Suc)
      (simp add: start_gate_def example_gate_def new_schema_gate_def)
  have "version_statements example_body ''otel'' ''0001_traces.sql'' \<subseteq> set (sd_executed (gl_db l))"
    by (rule gate_opens_complete [OF _ empty_db_reachable l(1) [unfolded example_gate_def] l(2) traces_expected])
  with l(1) show ?thesis by blast
qed

end
