(* ===== verification/Retention.thy ===== *)
theory Retention
  imports Schema ProjectStore
begin

text \<open>
  Per-project retention: the plan and the sweep of hub/cmd/hub/retention.go over the trimmer of
  hub/internal/storage/clickhouse/retention.go. A telemetry table is the tenants and times of its
  rows. A mutation deletes what matches when it finishes, also rows that arrived after it was issued,
  which the database would leave: more may go here than there. It is issued and finishes later: \<open>finishes n\<close> says whether those under way have
  finished by the \<open>n\<close>-th call, \<open>answers\<close> what becomes of the call.
\<close>

definition default_trim_interval :: duration where "default_trim_interval = 60 * minute"

definition trim_tables :: "(string \<times> string) list" where
  "trim_tables =
     [(''otel_traces'', ''Timestamp''), (''otel_logs'', ''Timestamp''), (''otel_metrics_gauge'', ''TimeUnix''),
      (''otel_metrics_sum'', ''TimeUnix''), (''otel_metrics_histogram'', ''TimeUnix''),
      (''otel_metrics_exponential_histogram'', ''TimeUnix''), (''otel_metrics_summary'', ''TimeUnix''),
      (''profiling_samples'', ''Timestamp''), (''error_events'', ''Timestamp''), (''alert_history'', ''FiredAt''),
      (''endpoint_check_result'', ''Timestamp'')]"

type_synonym mutation = "string \<times> string \<times> instant"

record telemetry =
  tm_tables :: "string \<rightharpoonup> (string \<times> instant) list"
  tm_pending :: "mutation list"
  tm_calls :: nat

definition mutate :: "mutation \<Rightarrow> (string \<rightharpoonup> (string \<times> instant) list) \<Rightarrow> string \<rightharpoonup> (string \<times> instant) list" where
  "mutate mu tables = (case mu of (t, tenant, cutoff) \<Rightarrow>
     (case tables t of None \<Rightarrow> tables | Some rows \<Rightarrow> tables(t \<mapsto> filter (\<lambda>r. \<not> (fst r = tenant \<and> snd r < cutoff)) rows)))"

definition settle :: "telemetry \<Rightarrow> telemetry" where
  "settle m = m\<lparr>tm_tables := fold mutate (tm_pending m) (tm_tables m), tm_pending := []\<rparr>"

definition contact :: "(nat \<Rightarrow> bool) \<Rightarrow> telemetry \<Rightarrow> telemetry" where
  "contact finishes m = (let m1 = if finishes (tm_calls m) then settle m else m in m1\<lparr>tm_calls := Suc (tm_calls m)\<rparr>)"

definition present_tables :: "(nat \<Rightarrow> outcome) \<Rightarrow> (nat \<Rightarrow> bool) \<Rightarrow> telemetry \<Rightarrow> string set option \<times> telemetry" where
  "present_tables answers finishes m =
     (let m1 = contact finishes m
      in (if answers (tm_calls m) = Answered then Some {t. tm_tables m1 t \<noteq> None} else None, m1))"

definition tables_with_running_mutations :: "(nat \<Rightarrow> outcome) \<Rightarrow> (nat \<Rightarrow> bool) \<Rightarrow> telemetry \<Rightarrow> string set option \<times> telemetry" where
  "tables_with_running_mutations answers finishes m =
     (let m1 = contact finishes m
      in (if answers (tm_calls m) = Answered then Some (fst ` set (tm_pending m1)) else None, m1))"

definition has_rows_before :: "(nat \<Rightarrow> outcome) \<Rightarrow> (nat \<Rightarrow> bool) \<Rightarrow> string \<Rightarrow> string \<Rightarrow> instant \<Rightarrow> telemetry \<Rightarrow> bool option \<times> telemetry" where
  "has_rows_before answers finishes t tenant cutoff m =
     (let m1 = contact finishes m
      in (if answers (tm_calls m) = Answered
            then Some (case tm_tables m1 t of None \<Rightarrow> False | Some rows \<Rightarrow> list_ex (\<lambda>r. fst r = tenant \<and> snd r < cutoff) rows)
          else None, m1))"

definition issue_delete :: "(nat \<Rightarrow> outcome) \<Rightarrow> (nat \<Rightarrow> bool) \<Rightarrow> mutation \<Rightarrow> telemetry \<Rightarrow> bool \<times> telemetry" where
  "issue_delete answers finishes mu m =
     (let m1 = contact finishes m
      in case answers (tm_calls m) of
        Answered \<Rightarrow> (True, m1\<lparr>tm_pending := tm_pending m1 @ [mu]\<rparr>)
      | Refused \<Rightarrow> (False, m1)
      | Answer_Lost \<Rightarrow> (False, m1\<lparr>tm_pending := tm_pending m1 @ [mu]\<rparr>))"

text \<open>The tables a mutation was issued on, whether the walk ended without an error, and the tables after.\<close>

fun trim_walk :: "(nat \<Rightarrow> outcome) \<Rightarrow> (nat \<Rightarrow> bool) \<Rightarrow> string set \<Rightarrow> string set \<Rightarrow> string \<Rightarrow> instant \<Rightarrow> (string \<times> string) list \<Rightarrow>
    string list \<Rightarrow> telemetry \<Rightarrow> string list \<times> bool \<times> telemetry" where
  "trim_walk answers finishes present busy tenant cutoff [] issued m = (issued, True, m)"
| "trim_walk answers finishes present busy tenant cutoff ((t, col) # ts) issued m =
     (if t \<notin> present \<or> t \<in> busy then trim_walk answers finishes present busy tenant cutoff ts issued m
      else case has_rows_before answers finishes t tenant cutoff m of
        (None, m1) \<Rightarrow> (issued, False, m1)
      | (Some False, m1) \<Rightarrow> trim_walk answers finishes present busy tenant cutoff ts issued m1
      | (Some True, m1) \<Rightarrow>
          (case issue_delete answers finishes (t, tenant, cutoff) m1 of
             (False, m2) \<Rightarrow> (issued, False, m2)
           | (True, m2) \<Rightarrow> trim_walk answers finishes present busy tenant cutoff ts (issued @ [t]) m2))"

definition trim_tenant :: "(nat \<Rightarrow> outcome) \<Rightarrow> (nat \<Rightarrow> bool) \<Rightarrow> string \<Rightarrow> instant \<Rightarrow> telemetry \<Rightarrow> string list \<times> bool \<times> telemetry" where
  "trim_tenant answers finishes tenant cutoff m =
     (if tenant = [] then ([], False, m)
      else case present_tables answers finishes m of
        (None, m1) \<Rightarrow> ([], False, m1)
      | (Some present, m1) \<Rightarrow>
          (case tables_with_running_mutations answers finishes m1 of
             (None, m2) \<Rightarrow> ([], False, m2)
           | (Some busy, m2) \<Rightarrow> trim_walk answers finishes present busy tenant cutoff trim_tables [] m2))"

section \<open>The sweep\<close>

text \<open>Days to nanoseconds, in 64 bits.\<close>

definition retention_cutoff :: "instant \<Rightarrow> int \<Rightarrow> instant" where
  "retention_cutoff now days = now + wrap64 (wrap64 (wrap64 (- days) * 24) * (60 * minute))"

definition plan_trim :: "project list \<Rightarrow> instant \<Rightarrow> (string \<times> instant) list" where
  "plan_trim projects now =
     map (\<lambda>p. (pj_id p, retention_cutoff now (pj_retention p)))
       (filter (\<lambda>p. \<not> (pj_retention p \<le> 0 \<or> 0 < length (pj_members p))) projects)"

fun trim_jobs :: "(nat \<Rightarrow> outcome) \<Rightarrow> (nat \<Rightarrow> bool) \<Rightarrow> (string \<times> instant) list \<Rightarrow> telemetry \<Rightarrow> telemetry" where
  "trim_jobs answers finishes [] m = m"
| "trim_jobs answers finishes ((tenant, cutoff) # jobs) m =
     (case trim_tenant answers finishes tenant cutoff m of (_, _, m1) \<Rightarrow> trim_jobs answers finishes jobs m1)"

text \<open>\<open>projects\<close> is what listing them answers, \<open>None\<close> for an error; \<open>connected\<close> that there is a store.\<close>

definition trim_once :: "(nat \<Rightarrow> outcome) \<Rightarrow> (nat \<Rightarrow> bool) \<Rightarrow> bool \<Rightarrow> project list option \<Rightarrow> instant \<Rightarrow> telemetry \<Rightarrow> telemetry" where
  "trim_once answers finishes connected projects now m =
     (if \<not> connected then m
      else case projects of None \<Rightarrow> m | Some ps \<Rightarrow> trim_jobs answers finishes (plan_trim ps now) m)"

text \<open>What the pipeline does between sweeps: rows arrive at the end of a table, and a table comes to be when its module
  is installed.\<close>

type_synonym arrivals = "string \<rightharpoonup> (string \<times> instant) list"

definition arrive_at :: "arrivals \<Rightarrow> (string \<rightharpoonup> (string \<times> instant) list) \<Rightarrow> string \<rightharpoonup> (string \<times> instant) list" where
  "arrive_at arrived tables =
     (\<lambda>t. case arrived t of None \<Rightarrow> tables t | Some new \<Rightarrow> (case tables t of None \<Rightarrow> Some new | Some rows \<Rightarrow> Some (rows @ new)))"

text \<open>The sweeps of the trimmer: at each tick what arrived since the last one, whether there is a store, what listing
  the projects answers, and the time. A mutation may outlive its sweep and be running in the next.\<close>

type_synonym trim_tick = "arrivals \<times> bool \<times> project list option \<times> instant"

fun trimmer :: "(nat \<Rightarrow> outcome) \<Rightarrow> (nat \<Rightarrow> bool) \<Rightarrow> trim_tick list \<Rightarrow> telemetry \<Rightarrow> telemetry" where
  "trimmer answers finishes [] m = m"
| "trimmer answers finishes ((arrived, connected, projects, now) # ticks) m =
     trimmer answers finishes ticks
       (trim_once answers finishes connected projects now (m\<lparr>tm_tables := arrive_at arrived (tm_tables m)\<rparr>))"

end
