(* ===== verification/RetentionLaws.thy ===== *)
theory RetentionLaws
  imports Retention
begin

text \<open>
  Laws of the retention trimmer: its sweeps delete only what a project asked to have deleted and never
  run two mutations on a table, also when mutations outlast a sweep; a sweep deletes all of it when
  the database keeps up; when mutations
  outlast a sweep, the first project in the list keeps the others waiting.
\<close>

section \<open>What may go\<close>

text \<open>Tables from which nothing but doomed rows is missing.\<close>

definition kept :: "(string \<times> instant \<Rightarrow> bool) \<Rightarrow> (string \<times> instant) list option \<Rightarrow> (string \<times> instant) list option \<Rightarrow> bool" where
  "kept doomed x y \<longleftrightarrow>
     (case (x, y) of
        (None, None) \<Rightarrow> True
      | (Some rows, Some rows') \<Rightarrow> set rows' \<subseteq> set rows \<and> filter (\<lambda>r. \<not> doomed r) rows' = filter (\<lambda>r. \<not> doomed r) rows
      | _ \<Rightarrow> False)"

text \<open>The rows that may go are given table by table.\<close>

definition keeps :: "(string \<Rightarrow> string \<times> instant \<Rightarrow> bool) \<Rightarrow> (string \<rightharpoonup> (string \<times> instant) list) \<Rightarrow> (string \<rightharpoonup> (string \<times> instant) list) \<Rightarrow> bool" where
  "keeps doomed tables tables' \<longleftrightarrow> (\<forall>t. kept (doomed t) (tables t) (tables' t))"

definition mutation_within :: "(string \<Rightarrow> string \<times> instant \<Rightarrow> bool) \<Rightarrow> mutation \<Rightarrow> bool" where
  "mutation_within doomed mu \<longleftrightarrow> (case mu of (t, tenant, cutoff) \<Rightarrow> \<forall>when < cutoff. doomed t (tenant, when))"

definition scoped :: "(string \<Rightarrow> string \<times> instant \<Rightarrow> bool) \<Rightarrow> (string \<rightharpoonup> (string \<times> instant) list) \<Rightarrow> telemetry \<Rightarrow> bool" where
  "scoped doomed tables m \<longleftrightarrow> keeps doomed tables (tm_tables m) \<and> list_all (mutation_within doomed) (tm_pending m)"

lemma keeps_refl: "keeps doomed tables tables"
  by (simp add: keeps_def kept_def split: option.split)

lemma kept_filter:
  assumes "kept doomed x (Some rows)" "\<And>r. \<not> Q r \<Longrightarrow> doomed r"
  shows "kept doomed x (Some (filter Q rows))"
proof -
  have "filter (\<lambda>r. \<not> doomed r) (filter Q rows) = filter (\<lambda>r. \<not> doomed r) rows"
    using assms(2) by (auto intro!: filter_cong)
  with assms(1) show ?thesis by (auto simp: kept_def simp del: filter_filter split: option.splits)
qed

lemma keeps_mutate:
  assumes "keeps doomed tables tables'" "mutation_within doomed mu"
  shows "keeps doomed tables (mutate mu tables')"
proof -
  obtain t tenant cutoff where mu: "mu = (t, tenant, cutoff)" by (cases mu)
  have "kept (doomed t) (tables t) (Some (filter (\<lambda>r. \<not> (fst r = tenant \<and> snd r < cutoff)) rows))" if "tables' t = Some rows" for rows
    by (rule kept_filter) (use assms that in \<open>auto simp: keeps_def mu mutation_within_def split: prod.splits\<close>, metis keeps_def)
  with assms(1) show ?thesis
    by (simp add: keeps_def mutate_def mu split: option.split)
qed

lemma keeps_fold_mutate:
  "keeps doomed tables tables' \<Longrightarrow> list_all (mutation_within doomed) mus \<Longrightarrow> keeps doomed tables (fold mutate mus tables')"
  by (induction mus arbitrary: tables') (simp_all add: keeps_mutate)

lemma scoped_settle: "scoped doomed tables m \<Longrightarrow> scoped doomed tables (settle m)"
  by (simp add: scoped_def settle_def keeps_fold_mutate)

lemma scoped_contact: "scoped doomed tables m \<Longrightarrow> scoped doomed tables (contact finishes m)"
  using scoped_settle [of doomed tables m] by (simp add: contact_def Let_def scoped_def)

section \<open>One mutation per table\<close>

definition one_each :: "telemetry \<Rightarrow> bool" where
  "one_each m \<longleftrightarrow> distinct (map fst (tm_pending m))"

lemma pending_contact: "tm_pending (contact finishes m) = [] \<or> tm_pending (contact finishes m) = tm_pending m"
  by (simp add: contact_def settle_def Let_def)

lemma one_each_contact: "one_each m \<Longrightarrow> one_each (contact finishes m)"
  using pending_contact [of finishes m] by (auto simp: one_each_def)

lemma has_rows_before_state: "snd (has_rows_before answers finishes t tenant cutoff m) = contact finishes m"
  by (simp add: has_rows_before_def Let_def)

lemma issue_delete_state:
  "snd (issue_delete answers finishes mu m) = contact finishes m \<or>
   snd (issue_delete answers finishes mu m) = (contact finishes m)\<lparr>tm_pending := tm_pending (contact finishes m) @ [mu]\<rparr>"
  by (simp add: issue_delete_def Let_def split: outcome.split)

definition pending_tables :: "telemetry \<Rightarrow> string set" where
  "pending_tables m = fst ` set (tm_pending m)"

lemma pending_tables_issue [simp]:
  "pending_tables (m\<lparr>tm_pending := tm_pending m' @ [(t, mu)]\<rparr>) = insert t (pending_tables m')"
  by (simp add: pending_tables_def)

lemma pending_tables_calls [simp]: "pending_tables (m\<lparr>tm_calls := c\<rparr>) = pending_tables m"
  by (simp add: pending_tables_def)

lemma pending_tables_contact: "pending_tables (contact finishes m) \<subseteq> pending_tables m"
  using pending_contact [of finishes m] by (auto simp: pending_tables_def)

text \<open>What holds of a walk holds of the sweep: an assertion kept by every call, and by a mutation on a
  table of the walk that has none.\<close>

definition walk_stable :: "string set \<Rightarrow> (nat \<Rightarrow> bool) \<Rightarrow> string \<Rightarrow> instant \<Rightarrow> (telemetry \<Rightarrow> bool) \<Rightarrow> bool" where
  "walk_stable names finishes tenant cutoff P \<longleftrightarrow> (\<forall>m. P m \<longrightarrow> P (contact finishes m)) \<and>
     (\<forall>m t. P m \<longrightarrow> t \<in> names \<longrightarrow> t \<notin> pending_tables m \<longrightarrow> P (m\<lparr>tm_pending := tm_pending m @ [(t, tenant, cutoff)]\<rparr>))"

lemma trim_walk_stable:
  assumes "walk_stable names finishes tenant cutoff P" "set (map fst ts) \<subseteq> names" "P m" "distinct (map fst ts)" "pending_tables m \<inter> set (map fst ts) \<subseteq> busy"
  shows "P (snd (snd (trim_walk answers finishes present busy tenant cutoff ts out m)))"
  using assms(2-5)
proof (induction ts arbitrary: m out)
  case (Cons a ts)
  note into = Cons.prems(1) and Cons_prems = Cons.prems(2-4)
  obtain t col where a: "a = (t, col)" by (cases a)
  have t: "t \<in> names" "set (map fst ts) \<subseteq> names" using into a by auto
  let ?m1 = "contact finishes m"
  have P1: "P ?m1" and P2: "P (contact finishes ?m1)"
    using assms(1) Cons_prems(1) by (auto simp: walk_stable_def)
  have sub: "pending_tables (contact finishes ?m1) \<subseteq> pending_tables m" "pending_tables ?m1 \<subseteq> pending_tables m"
    using pending_tables_contact by blast+
  show ?case
  proof (cases "t \<notin> present \<or> t \<in> busy")
    case True
    with Cons a show ?thesis by auto
  next
    case False
    with Cons_prems a have free: "t \<notin> pending_tables (contact finishes ?m1)" using sub by auto
    obtain h where h: "has_rows_before answers finishes t tenant cutoff m = (h, ?m1)"
      by (metis has_rows_before_state prod.collapse)
    obtain ok m2 where d: "issue_delete answers finishes (t, tenant, cutoff) ?m1 = (ok, m2)" by force
    have m2: "P m2 \<and> pending_tables m2 \<subseteq> insert t (pending_tables m)"
      using issue_delete_state [of answers finishes "(t, tenant, cutoff)" ?m1] d P2 free sub assms(1) t(1)
      by (auto simp: walk_stable_def)
    have rest: "distinct (map fst ts)" "pending_tables m2 \<inter> set (map fst ts) \<subseteq> busy" "pending_tables ?m1 \<inter> set (map fst ts) \<subseteq> busy"
    proof -
      from Cons_prems(2,3) a have ts: "distinct (map fst ts)" "t \<notin> set (map fst ts)"
          "pending_tables m \<inter> insert t (set (map fst ts)) \<subseteq> busy" by simp_all
      then show "distinct (map fst ts)" by simp
      show "pending_tables m2 \<inter> set (map fst ts) \<subseteq> busy" "pending_tables ?m1 \<inter> set (map fst ts) \<subseteq> busy"
        using ts m2 sub by blast+
    qed
    have "P (snd (snd (trim_walk answers finishes present busy tenant cutoff ts out' m2)))"
        "P (snd (snd (trim_walk answers finishes present busy tenant cutoff ts out' ?m1)))" for out'
      using Cons.IH [OF t(2)] rest m2 P1 by blast+
    with False a P1 m2 h d show ?thesis
      by (auto split: option.split bool.split)
  qed
qed simp

lemma trim_tables_distinct: "distinct (map fst trim_tables)"
  by (simp add: trim_tables_def)

definition trim_names :: "string set" where
  "trim_names = set (map fst trim_tables)"

lemma trim_tenant_stable:
  assumes "walk_stable trim_names finishes tenant cutoff P" "P m"
  shows "P (snd (snd (trim_tenant answers finishes tenant cutoff m)))"
proof -
  have P: "P (contact finishes m)" "P (contact finishes (contact finishes m))"
    using assms by (auto simp: walk_stable_def)
  then show ?thesis
    using trim_walk_stable [OF assms(1) _ P(2) trim_tables_distinct]
    by (auto simp: trim_names_def trim_tenant_def present_tables_def tables_with_running_mutations_def Let_def assms(2) pending_tables_def)
qed

lemma trim_jobs_stable:
  assumes "\<And>tenant cutoff. (tenant, cutoff) \<in> set jobs \<Longrightarrow> walk_stable trim_names finishes tenant cutoff P" "P m"
  shows "P (trim_jobs answers finishes jobs m)"
  using assms
proof (induction jobs arbitrary: m)
  case (Cons job jobs)
  obtain tenant cutoff where job: "job = (tenant, cutoff)" by (cases job)
  with Cons.prems trim_tenant_stable [of finishes tenant cutoff P m answers]
  have "P (snd (snd (trim_tenant answers finishes tenant cutoff m)))" by auto
  with Cons job show ?case by (simp add: case_prod_unfold)
qed simp

lemma one_each_stable: "walk_stable names finishes tenant cutoff one_each"
  by (auto simp: walk_stable_def one_each_contact) (auto simp: one_each_def pending_tables_def)

lemma scoped_stable:
  assumes "\<And>t when. t \<in> names \<Longrightarrow> when < cutoff \<Longrightarrow> doomed t (tenant, when)"
  shows "walk_stable names finishes tenant cutoff (scoped doomed tables)"
  using assms by (auto simp: walk_stable_def scoped_contact) (auto simp: scoped_def mutation_within_def)


section \<open>Cutoffs\<close>

text \<open>Sixteen bits of days do not overflow a duration.\<close>

lemma retention_cutoff_exact:
  assumes "0 \<le> days" "days \<le> 65535"
  shows "retention_cutoff now days = now - days * (24 * (60 * minute))"
proof -
  have "wrap64 (- days) = - days" "wrap64 (- days * 24) = - days * 24"
    "wrap64 (- days * 24 * (60 * minute)) = - days * 24 * (60 * minute)"
    using assms by (intro wrap64_id; simp add: minute_def second_def)+
  then show ?thesis by (simp add: retention_cutoff_def)
qed

text \<open>A row some project no longer wants.\<close>

definition unwanted :: "project list \<Rightarrow> instant \<Rightarrow> string \<times> instant \<Rightarrow> bool" where
  "unwanted ps now r \<longleftrightarrow>
     (\<exists>p\<in>set ps. fst r = pj_id p \<and> pj_members p = [] \<and> 0 < pj_retention p \<and> snd r < now - pj_retention p * (24 * (60 * minute)))"

definition retention_ok :: "project \<Rightarrow> bool" where
  "retention_ok p \<longleftrightarrow> 0 \<le> pj_retention p \<and> pj_retention p \<le> 65535"

lemma plan_unwanted:
  assumes "list_all retention_ok ps" "(tenant, cutoff) \<in> set (plan_trim ps now)" "when < cutoff"
  shows "unwanted ps now (tenant, when)"
  using assms by (force simp: plan_trim_def unwanted_def list_all_iff retention_ok_def retention_cutoff_exact)

section \<open>Sweep after sweep\<close>

text \<open>What has arrived by the end of the ticks, had nothing been deleted.\<close>

definition ingested :: "trim_tick list \<Rightarrow> (string \<rightharpoonup> (string \<times> instant) list) \<Rightarrow> string \<rightharpoonup> (string \<times> instant) list" where
  "ingested ticks tables = fold (\<lambda>(arrived, _). arrive_at arrived) ticks tables"

text \<open>The rows that may go: of a table the trimmer knows, what a sweep's projects did not want when it ran, and what
  the mutations under way at the start delete.\<close>

definition may_go :: "trim_tick list \<Rightarrow> mutation list \<Rightarrow> string \<Rightarrow> string \<times> instant \<Rightarrow> bool" where
  "may_go ticks running t r \<longleftrightarrow>
     t \<in> trim_names \<and> (\<exists>(_, connected, projects, now)\<in>set ticks. connected \<and> (\<exists>ps. projects = Some ps \<and> unwanted ps now r)) \<or>
     (\<exists>cutoff. (t, fst r, cutoff) \<in> set running \<and> snd r < cutoff)"

definition ticks_ok :: "trim_tick list \<Rightarrow> bool" where
  "ticks_ok ticks \<longleftrightarrow> (\<forall>(_, _, projects, _)\<in>set ticks. case projects of None \<Rightarrow> True | Some ps \<Rightarrow> list_all retention_ok ps)"

lemma kept_append: "kept doomed (Some rows) (Some rows') \<Longrightarrow> kept doomed (Some (rows @ new)) (Some (rows' @ new))"
  by (auto simp: kept_def)

lemma keeps_arrive: "keeps doomed tables tables' \<Longrightarrow> keeps doomed (arrive_at arrived tables) (arrive_at arrived tables')"
proof -
  assume k: "keeps doomed tables tables'"
  have "kept (doomed t) (arrive_at arrived tables t) (arrive_at arrived tables' t)" for t
  proof (cases "arrived t")
    case None
    then show ?thesis using k by (simp add: arrive_at_def keeps_def)
  next
    case (Some new)
    have "kept (doomed t) (tables t) (tables' t)" using k by (simp add: keeps_def)
    then show ?thesis using Some kept_append
      by (cases "tables t"; cases "tables' t") (auto simp: arrive_at_def, auto simp: kept_def)
  qed
  then show ?thesis by (simp add: keeps_def)
qed

lemma once_keeps:
  assumes "one_each m" and "scoped doomed tables m"
    and "\<And>ps t r. connected \<Longrightarrow> projects = Some ps \<Longrightarrow> t \<in> trim_names \<Longrightarrow> unwanted ps now r \<Longrightarrow> doomed t r"
    and "case projects of None \<Rightarrow> True | Some ps \<Rightarrow> list_all retention_ok ps"
  shows "one_each (trim_once answers finishes connected projects now m) \<and>
    scoped doomed tables (trim_once answers finishes connected projects now m)"
proof (cases "connected \<and> projects \<noteq> None")
  case True
  then obtain ps where ps: "connected" "projects = Some ps" by auto
  have "walk_stable trim_names finishes tenant cutoff (scoped doomed tables)" if "(tenant, cutoff) \<in> set (plan_trim ps now)" for tenant cutoff
    by (rule scoped_stable) (use assms(3) [OF ps] assms(4) ps plan_unwanted [OF _ that] in simp)
  then show ?thesis
    using trim_jobs_stable [of "plan_trim ps now", OF one_each_stable assms(1)] trim_jobs_stable [of "plan_trim ps now" finishes "scoped doomed tables" m] assms(2) ps
    by (simp add: trim_once_def)
qed (use assms(1,2) in \<open>auto simp: trim_once_def\<close>)

lemma trimmer_keeps:
  assumes "one_each m" and "scoped doomed tables m" and "ticks_ok ticks"
    and "\<And>t r. t \<in> trim_names \<Longrightarrow>
      \<exists>(_, connected, projects, now)\<in>set ticks. connected \<and> (\<exists>ps. projects = Some ps \<and> unwanted ps now r) \<Longrightarrow> doomed t r"
  shows "one_each (trimmer answers finishes ticks m) \<and> scoped doomed (ingested ticks tables) (trimmer answers finishes ticks m)"
  using assms
proof (induction ticks arbitrary: m tables)
  case Nil
  then show ?case by (simp add: ingested_def)
next
  case (Cons tick ticks)
  obtain arrived connected projects now where tick: "tick = (arrived, connected, projects, now)" by (metis surj_pair)
  let ?m = "m\<lparr>tm_tables := arrive_at arrived (tm_tables m)\<rparr>"
  have m: "one_each ?m" "scoped doomed (arrive_at arrived tables) ?m"
    using Cons.prems(1,2) keeps_arrive by (simp_all add: one_each_def scoped_def)
  have "one_each (trim_once answers finishes connected projects now ?m) \<and>
      scoped doomed (arrive_at arrived tables) (trim_once answers finishes connected projects now ?m)"
    by (rule once_keeps [OF m]) (use Cons.prems(3,4) in \<open>auto simp: tick ticks_ok_def\<close>)
  then have "one_each (trimmer answers finishes ticks (trim_once answers finishes connected projects now ?m)) \<and>
      scoped doomed (ingested ticks (arrive_at arrived tables)) (trimmer answers finishes ticks (trim_once answers finishes connected projects now ?m))"
    using Cons.prems(3,4) by (intro Cons.IH) (auto simp: ticks_ok_def)
  then show ?case by (simp add: tick ingested_def)
qed

text \<open>C20. The retention trimmer touches only what projects no longer want, sweep after sweep: whatever arrives between
  sweeps, whatever becomes of each call and whenever mutations finish, also in a later sweep or
  never, a row that had arrived is missing, now or once the mutations under way have run, only if it
  is in one of the trimmer's tables and some sweep so far saw its project listed as no aggregate with
  a window of its own that the row was older than, or if a mutation that was running at the start (of
  an earlier process) deletes it. No row is new, and the others keep their order. If no table had two
  unfinished mutations at the start, none has at the end of any sweep: a table whose mutation is still
  running when the next sweep comes is left alone. Retention windows are stored in 16 bits of days.\<close>

theorem trim_scoped:
  assumes "ticks_ok ticks" and "distinct (map fst (tm_pending m))"
  shows "let m' = trimmer answers finishes ticks m in
    distinct (map fst (tm_pending m')) \<and>
    keeps (may_go ticks (tm_pending m)) (ingested ticks (tm_tables m)) (tm_tables m') \<and>
    keeps (may_go ticks (tm_pending m)) (ingested ticks (tm_tables m)) (tm_tables (settle m'))"
proof -
  let ?doomed = "may_go ticks (tm_pending m)" and ?m = "trimmer answers finishes ticks m"
  have "list_all (mutation_within ?doomed) (tm_pending m)"
    by (auto simp: list_all_iff mutation_within_def may_go_def)
  then have start: "one_each m" "scoped ?doomed (tm_tables m) m"
    using assms(2) by (simp_all add: one_each_def scoped_def keeps_refl)
  have "one_each ?m \<and> scoped ?doomed (ingested ticks (tm_tables m)) ?m"
    by (rule trimmer_keeps [OF start assms(1)]) (simp add: may_go_def)
  then have "one_each ?m" and sc: "scoped ?doomed (ingested ticks (tm_tables m)) ?m" by blast+
  then show ?thesis
    using scoped_settle [OF sc] by (simp add: one_each_def scoped_def)
qed


section \<open>What does go\<close>

definition clean :: "string \<Rightarrow> string \<Rightarrow> instant \<Rightarrow> telemetry \<Rightarrow> bool" where
  "clean t tenant cutoff m \<longleftrightarrow>
     (case tm_tables (settle m) t of None \<Rightarrow> True | Some rows \<Rightarrow> list_all (\<lambda>r. \<not> (fst r = tenant \<and> snd r < cutoff)) rows)"

lemma settle_contact: "tm_tables (settle (contact finishes m)) = tm_tables (settle m)"
  by (simp add: contact_def settle_def Let_def)

lemma clean_contact: "clean t tenant cutoff (contact finishes m) \<longleftrightarrow> clean t tenant cutoff m"
  by (simp add: clean_def settle_contact)

lemma settle_issue: "tm_tables (settle (m\<lparr>tm_pending := tm_pending m @ [mu]\<rparr>)) = mutate mu (tm_tables (settle m))"
  by (simp add: settle_def)

lemma clean_stable: "walk_stable names finishes tenant' cutoff' (clean t tenant cutoff)"
  by (simp add: walk_stable_def clean_contact)
    (fastforce simp: clean_def settle_issue mutate_def list_all_iff split: option.splits)

lemma clean_issued: "clean t tenant cutoff (m\<lparr>tm_pending := tm_pending m @ [(t, tenant, cutoff)]\<rparr>)"
  by (auto simp: clean_def settle_issue mutate_def list_all_iff split: option.splits)

lemma contact_settles: "finishes (tm_calls m) \<Longrightarrow> tm_pending (contact finishes m) = [] \<and> tm_tables (contact finishes m) = tm_tables (settle m)"
  by (simp add: contact_def settle_def Let_def)

lemma absent_stable: "walk_stable names finishes tenant cutoff (\<lambda>m. tm_tables (settle m) t = None)"
  by (auto simp: walk_stable_def settle_contact settle_issue mutate_def split: option.split)

text \<open>The walk over one more table, on a database that answers and keeps up.\<close>

lemma trim_walk_step:
  fixes m tenant cutoff t
  defines "m1 \<equiv> contact (\<lambda>_. True) m"
  defines "m2 \<equiv> (contact (\<lambda>_. True) m1)\<lparr>tm_pending := tm_pending (contact (\<lambda>_. True) m1) @ [(t, tenant, cutoff)]\<rparr>"
  obtains "t \<notin> present"
      "trim_walk (\<lambda>_. Answered) (\<lambda>_. True) present {} tenant cutoff ((t, col) # ts) out m = trim_walk (\<lambda>_. Answered) (\<lambda>_. True) present {} tenant cutoff ts out m"
  | "clean t tenant cutoff m1"
      "trim_walk (\<lambda>_. Answered) (\<lambda>_. True) present {} tenant cutoff ((t, col) # ts) out m = trim_walk (\<lambda>_. Answered) (\<lambda>_. True) present {} tenant cutoff ts out m1"
  | "clean t tenant cutoff m2"
      "trim_walk (\<lambda>_. Answered) (\<lambda>_. True) present {} tenant cutoff ((t, col) # ts) out m = trim_walk (\<lambda>_. Answered) (\<lambda>_. True) present {} tenant cutoff ts (out @ [t]) m2"
proof (cases "t \<in> present")
  case False
  with that(1) show thesis by simp
next
  case True
  let ?old = "case tm_tables m1 t of None \<Rightarrow> False | Some rows \<Rightarrow> list_ex (\<lambda>r. fst r = tenant \<and> snd r < cutoff) rows"
  have rows: "has_rows_before (\<lambda>_. Answered) (\<lambda>_. True) t tenant cutoff m = (Some ?old, m1)"
    by (simp add: has_rows_before_def m1_def Let_def)
  have issue: "issue_delete (\<lambda>_. Answered) (\<lambda>_. True) (t, tenant, cutoff) m1 = (True, m2)"
    by (simp add: issue_delete_def m2_def Let_def)
  show thesis
  proof (cases ?old)
    case old: True
    have "clean t tenant cutoff m2" unfolding m2_def by (rule clean_issued)
    with that(3) True rows issue old show thesis by simp
  next
    case old: False
    have "tm_tables (settle m1) = tm_tables m1"
      by (simp add: m1_def settle_contact contact_settles)
    with old have "clean t tenant cutoff m1"
      by (auto simp: clean_def list_all_iff list_ex_iff split: option.splits)
    with that(2) True rows old show thesis by simp
  qed
qed

lemma trim_walk_clean:
  assumes "t \<in> set (map fst ts)" "distinct (map fst ts)" "t \<in> present \<or> tm_tables (settle m) t = None"
    "pending_tables m \<inter> set (map fst ts) = {}"
  shows "clean t tenant cutoff (snd (snd (trim_walk (\<lambda>_. Answered) (\<lambda>_. True) present {} tenant cutoff ts out m)))"
  using assms
proof (induction ts arbitrary: m out)
  case (Cons a ts)
  obtain u col where a: "a = (u, col)" by (cases a)
  let ?m1 = "contact (\<lambda>_. True) m" and ?m2 = "contact (\<lambda>_. True) (contact (\<lambda>_. True) m)"
  let ?i = "?m2\<lparr>tm_pending := tm_pending ?m2 @ [(u, tenant, cutoff)]\<rparr>"
  have free: "pending_tables m \<inter> set (map fst ts) \<subseteq> {}" "pending_tables ?m1 = {}" "pending_tables ?i = {u}"
      "u \<notin> set (map fst ts)" "distinct (map fst ts)"
    using Cons.prems a by (auto simp: pending_tables_def contact_settles)
  then have free': "pending_tables ?m1 \<inter> set (map fst ts) \<subseteq> {}" "pending_tables ?i \<inter> set (map fst ts) \<subseteq> {}" by auto
  have absent: "tm_tables (settle ?i) t = None" if "tm_tables (settle m) t = None"
    using that by (simp only: settle_issue settle_contact) (auto simp: mutate_def split: option.split)
  note stable = trim_walk_stable [OF clean_stable [where names = UNIV] subset_UNIV _ free(5)]
  show ?case
  proof (cases "u = t")
    case True
    have "clean t tenant cutoff m" if "t \<notin> present" using Cons.prems(3) that by (simp add: clean_def)
    then show ?thesis
      unfolding a
      by (cases rule: trim_walk_step [of u present tenant cutoff col ts out m])
        (use True stable free(1) free' in auto)
  next
    case False
    with Cons.prems a have t: "t \<in> set (map fst ts)" by auto
    show ?thesis
      unfolding a
      by (cases rule: trim_walk_step [of u present tenant cutoff col ts out m])
        (use Cons.IH [OF t free(5)] Cons.prems(3) free(1) free' absent in \<open>auto simp: settle_contact\<close>)
  qed
qed simp

lemma trim_tenant_clean:
  assumes "t \<in> set (map fst trim_tables)" "tenant \<noteq> []"
  shows "clean t tenant cutoff (snd (snd (trim_tenant (\<lambda>_. Answered) (\<lambda>_. True) tenant cutoff m)))"
proof -
  let ?m1 = "contact (\<lambda>_. True) m" and ?m2 = "contact (\<lambda>_. True) (contact (\<lambda>_. True) m)"
  have p: "tm_pending ?m1 = []" "tm_pending ?m2 = []" "tm_tables (settle ?m2) = tm_tables ?m1"
    by (simp_all add: contact_settles settle_contact)
  have "clean t tenant cutoff (snd (snd (trim_walk (\<lambda>_. Answered) (\<lambda>_. True) {t. tm_tables ?m1 t \<noteq> None} {} tenant cutoff trim_tables [] ?m2)))"
    by (rule trim_walk_clean [OF assms(1) trim_tables_distinct]) (auto simp: p pending_tables_def)
  with assms(2) p show ?thesis
    by (simp add: trim_tenant_def present_tables_def tables_with_running_mutations_def Let_def)
qed


lemma trim_jobs_clean:
  assumes "t \<in> set (map fst trim_tables)" "(tenant, cutoff) \<in> set jobs" "tenant \<noteq> []"
  shows "clean t tenant cutoff (trim_jobs (\<lambda>_. Answered) (\<lambda>_. True) jobs m)"
  using assms(2)
proof (induction jobs arbitrary: m)
  case (Cons job jobs)
  let ?m = "snd (snd (trim_tenant (\<lambda>_. Answered) (\<lambda>_. True) (fst job) (snd job) m))"
  have step: "trim_jobs (\<lambda>_. Answered) (\<lambda>_. True) (job # jobs) m = trim_jobs (\<lambda>_. Answered) (\<lambda>_. True) jobs ?m"
    by (cases job) (simp add: case_prod_unfold)
  show ?case
  proof (cases "job = (tenant, cutoff)")
    case True
    then show ?thesis
      unfolding step using trim_jobs_stable [where P = "clean t tenant cutoff", OF clean_stable trim_tenant_clean [OF assms(1,3)]] by simp
  next
    case False
    with Cons show ?thesis unfolding step by auto
  qed
qed simp

text \<open>On a database that answers and keeps up, a sweep does all that projects asked for: once its
  mutations have run, no telemetry table holds a row of a project with a window of its own that is
  older than this window.\<close>

theorem trim_complete:
  assumes "list_all retention_ok ps" "p \<in> set ps" "pj_members p = []" "0 < pj_retention p" "pj_id p \<noteq> []"
    and "t \<in> set (map fst trim_tables)"
    and "tm_tables (settle (trim_once (\<lambda>_. Answered) (\<lambda>_. True) True (Some ps) now m)) t = Some rows"
    and "(pj_id p, when) \<in> set rows"
  shows "now - pj_retention p * (24 * (60 * minute)) \<le> when"
proof -
  have "(pj_id p, retention_cutoff now (pj_retention p)) \<in> set (plan_trim ps now)"
    using assms(2-4) by (auto simp: plan_trim_def)
  from trim_jobs_clean [OF assms(6) this assms(5), of m] assms(7,8)
  have "retention_cutoff now (pj_retention p) \<le> when"
    by (auto simp: clean_def trim_once_def list_all_iff)
  moreover have "retention_ok p" using assms(1,2) by (simp add: list_all_iff)
  ultimately show ?thesis by (simp add: retention_ok_def retention_cutoff_exact)
qed

section \<open>When mutations outlast the sweep\<close>

lemma slow_contact: "contact (\<lambda>_. False) m = m\<lparr>tm_calls := Suc (tm_calls m)\<rparr>"
  by (simp add: contact_def)

lemma pending_kept: "walk_stable names (\<lambda>_. False) tenant cutoff (\<lambda>m. mu \<in> set (tm_pending m) \<and> tm_tables m = tables)"
  by (simp add: walk_stable_def slow_contact)

lemma trim_walk_slow:
  assumes "t \<in> set (map fst ts)" "distinct (map fst ts)" "t \<in> present" "t \<notin> busy" "tm_tables m t = Some rows"
    "list_ex (\<lambda>r. fst r = tenant \<and> snd r < cutoff) rows" "pending_tables m \<inter> set (map fst ts) \<subseteq> busy"
  shows "(t, tenant, cutoff) \<in> set (tm_pending (snd (snd (trim_walk (\<lambda>_. Answered) (\<lambda>_. False) present busy tenant cutoff ts out m))))"
  using assms
proof (induction ts arbitrary: m out)
  case (Cons a ts)
  obtain u col where a: "a = (u, col)" by (cases a)
  note issue = has_rows_before_def issue_delete_def Let_def slow_contact
  show ?case
  proof (cases "u = t")
    case True
    let ?i = "m\<lparr>tm_calls := Suc (Suc (tm_calls m)), tm_pending := tm_pending m @ [(t, tenant, cutoff)]\<rparr>"
    have "trim_walk (\<lambda>_. Answered) (\<lambda>_. False) present busy tenant cutoff (a # ts) out m =
        trim_walk (\<lambda>_. Answered) (\<lambda>_. False) present busy tenant cutoff ts (out @ [t]) ?i"
      using True Cons.prems by (simp add: a issue)
    moreover have "distinct (map fst ts)" "pending_tables ?i \<inter> set (map fst ts) \<subseteq> busy"
      using Cons.prems True a by (auto simp: pending_tables_def)
    from trim_walk_stable [OF pending_kept [where names = UNIV and mu = "(t, tenant, cutoff)" and tables = "tm_tables m"] subset_UNIV _ this]
    have "(t, tenant, cutoff) \<in> set (tm_pending (snd (snd (trim_walk (\<lambda>_. Answered) (\<lambda>_. False) present busy tenant cutoff ts (out @ [t]) ?i))))"
      by simp
    ultimately show ?thesis by simp
  next
    case False
    with Cons.prems a have t: "t \<in> set (map fst ts)" "distinct (map fst ts)" "u \<notin> set (map fst ts)" by auto
    have "\<exists>out' m'. trim_walk (\<lambda>_. Answered) (\<lambda>_. False) present busy tenant cutoff (a # ts) out m =
        trim_walk (\<lambda>_. Answered) (\<lambda>_. False) present busy tenant cutoff ts out' m' \<and>
        tm_tables m' = tm_tables m \<and> pending_tables m' \<subseteq> insert u (pending_tables m)"
    proof (cases "u \<notin> present \<or> u \<in> busy")
      case True
      then show ?thesis by (intro exI [of _ out] exI [of _ m]) (auto simp: a)
    next
      case False
      show ?thesis
      proof (cases "case tm_tables m u of None \<Rightarrow> False | Some rows \<Rightarrow> list_ex (\<lambda>r. fst r = tenant \<and> snd r < cutoff) rows")
        case True
        with False show ?thesis
          by (intro exI [of _ "out @ [u]"] exI [of _ "m\<lparr>tm_calls := Suc (Suc (tm_calls m)), tm_pending := tm_pending m @ [(u, tenant, cutoff)]\<rparr>"])
            (simp add: a issue)
      next
        case no: False
        with False show ?thesis
          by (intro exI [of _ out] exI [of _ "m\<lparr>tm_calls := Suc (tm_calls m)\<rparr>"]) (auto simp: a issue)
      qed
    qed
    then obtain out' m' where step: "trim_walk (\<lambda>_. Answered) (\<lambda>_. False) present busy tenant cutoff (a # ts) out m =
        trim_walk (\<lambda>_. Answered) (\<lambda>_. False) present busy tenant cutoff ts out' m'"
        "tm_tables m' = tm_tables m" "pending_tables m' \<subseteq> insert u (pending_tables m)" by blast
    have "pending_tables m \<inter> insert u (set (map fst ts)) \<subseteq> busy" using Cons.prems(7) a by simp
    then have "pending_tables m' \<inter> set (map fst ts) \<subseteq> busy" using step(3) t(3) by blast
    then show ?thesis
      unfolding step(1) using Cons.IH [OF t(1,2) Cons.prems(3,4) _ Cons.prems(6)] Cons.prems(5) step(2) by simp
  qed
qed simp

text \<open>The first project of the plan with old rows in a table takes the table for the sweep: no other
  project gets a mutation on it, in this sweep or in any later one the first project still has rows for.\<close>

lemma first_project_blocks:
  assumes "plan_trim ps now = (tenant, cutoff) # jobs" "tenant \<noteq> []" "tm_pending m = []" "t \<in> set (map fst trim_tables)"
    and "tm_tables m t = Some rows" "list_ex (\<lambda>r. fst r = tenant \<and> snd r < cutoff) rows"
    and "m' = trim_once (\<lambda>_. Answered) (\<lambda>_. False) True (Some ps) now m" "(t, mu) \<in> set (tm_pending m')"
  shows "mu = (tenant, cutoff)"
proof -
  let ?m1 = "snd (snd (trim_tenant (\<lambda>_. Answered) (\<lambda>_. False) tenant cutoff m))"
  have m': "m' = trim_jobs (\<lambda>_. Answered) (\<lambda>_. False) jobs ?m1"
    using assms(1,7) by (simp add: trim_once_def case_prod_unfold)
  have "(t, tenant, cutoff) \<in> set (tm_pending ?m1)"
    using assms(2,3,5) trim_walk_slow [OF assms(4) trim_tables_distinct _ _ _ assms(6)]
    by (simp add: trim_tenant_def present_tables_def tables_with_running_mutations_def Let_def slow_contact pending_tables_def)
  then have "(t, tenant, cutoff) \<in> set (tm_pending m')"
    unfolding m' using trim_jobs_stable [OF pending_kept [where mu = "(t, tenant, cutoff)" and tables = "tm_tables ?m1"]] by blast
  moreover have "one_each m'"
    unfolding assms(7) trim_once_def using trim_jobs_stable [OF one_each_stable] assms(3) by (simp add: one_each_def)
  ultimately show ?thesis
    using assms(8) unfolding one_each_def distinct_map by (metis fst_conv inj_onD snd_conv)
qed


section \<open>Witnesses\<close>

definition example_project :: "string \<Rightarrow> int \<Rightarrow> project" where
  "example_project i days = \<lparr>pj_id = i, pj_label = i, pj_members = [], pj_retention = days, pj_created_by = [], pj_created = 0\<rparr>"

definition example_day :: duration where "example_day = 24 * (60 * minute)"

definition example_telemetry :: telemetry where
  "example_telemetry =
     \<lparr>tm_tables = [''otel_traces'' \<mapsto> [(''a'', 0), (''b'', 0), (''a'', 3 * example_day)]], tm_pending = [], tm_calls = 0\<rparr>"

text \<open>Two sweeps over mutations that do not finish: the second finds more old rows in a table the first works on.\<close>

definition slow_ticks :: "trim_tick list" where
  "slow_ticks = [(Map.empty, True, Some [example_project ''a'' 1], 3 * example_day),
     ([''otel_traces'' \<mapsto> [(''b'', 1), (''a'', 5)]], True, Some [example_project ''a'' 1, example_project ''b'' 0], 4 * example_day)]"

lemma slow_run:
  "trimmer (\<lambda>_. Answered) (\<lambda>_. False) slow_ticks example_telemetry =
     \<lparr>tm_tables = [''otel_traces'' \<mapsto> [(''a'', 0), (''b'', 0), (''a'', 3 * example_day), (''b'', 1), (''a'', 5)]],
      tm_pending = [(''otel_traces'', ''a'', 2 * example_day)], tm_calls = 6\<rparr>"
  by (simp add: slow_ticks_def arrive_at_def trim_once_def plan_trim_def example_project_def example_telemetry_def trim_tenant_def
      present_tables_def tables_with_running_mutations_def Let_def contact_def settle_def trim_tables_def has_rows_before_def issue_delete_def
      mutate_def retention_cutoff_exact example_day_def minute_def second_def insert_Diff_if fun_eq_iff)

theorem trim_scoped_witness:
  "distinct (map fst (tm_pending (trimmer (\<lambda>_. Answered) (\<lambda>_. False) slow_ticks example_telemetry))) \<and>
   kept (may_go slow_ticks [] ''otel_traces'') (Some [(''a'', 0), (''b'', 0), (''a'', 3 * example_day), (''b'', 1), (''a'', 5)])
     (tm_tables (settle (trimmer (\<lambda>_. Answered) (\<lambda>_. False) slow_ticks example_telemetry)) ''otel_traces'') \<and>
   tm_tables (settle (trimmer (\<lambda>_. Answered) (\<lambda>_. False) slow_ticks example_telemetry)) ''otel_traces'' =
     Some [(''b'', 0), (''a'', 3 * example_day), (''b'', 1)] \<and>
   \<not> may_go slow_ticks [] ''otel_traces'' (''b'', 1) \<and> may_go slow_ticks [] ''otel_traces'' (''a'', 5)"
proof -
  have ok: "ticks_ok slow_ticks" by (simp add: ticks_ok_def slow_ticks_def retention_ok_def example_project_def)
  have start: "tm_pending example_telemetry = []" by (simp add: example_telemetry_def)
  have all: "ingested slow_ticks (tm_tables example_telemetry) ''otel_traces'' =
      Some [(''a'', 0), (''b'', 0), (''a'', 3 * example_day), (''b'', 1), (''a'', 5)]"
    by (simp add: ingested_def slow_ticks_def arrive_at_def example_telemetry_def)
  have gone: "tm_tables (settle (trimmer (\<lambda>_. Answered) (\<lambda>_. False) slow_ticks example_telemetry)) ''otel_traces'' =
      Some [(''b'', 0), (''a'', 3 * example_day), (''b'', 1)]"
    by (simp add: slow_run settle_def mutate_def example_day_def minute_def second_def)
  have t: "''otel_traces'' \<in> trim_names" by (simp add: trim_names_def trim_tables_def)
  have go: "\<not> may_go slow_ticks [] ''otel_traces'' (''b'', 1)" "may_go slow_ticks [] ''otel_traces'' (''a'', 5)"
    using t by (simp_all add: may_go_def slow_ticks_def unwanted_def example_project_def example_day_def minute_def second_def)
  have d: "distinct (map fst (tm_pending example_telemetry))" by (simp add: start)
  show ?thesis
    using trim_scoped [OF ok d, of "\<lambda>_. Answered" "\<lambda>_. False", unfolded Let_def start] gone go
    by (metis all keeps_def)
qed

lemma example_trimmed:
  "tm_tables (settle (trim_once (\<lambda>_. Answered) (\<lambda>_. True) True (Some [example_project ''a'' 1]) (3 * example_day) example_telemetry)) ''otel_traces'' =
     Some [(''b'', 0), (''a'', 3 * example_day)]"
  by (simp add: trim_once_def plan_trim_def example_project_def example_telemetry_def trim_tenant_def present_tables_def
      tables_with_running_mutations_def Let_def contact_def settle_def trim_tables_def has_rows_before_def issue_delete_def
      mutate_def retention_cutoff_exact example_day_def minute_def second_def insert_Diff_if)

theorem trim_complete_witness:
  "tm_tables (settle (trim_once (\<lambda>_. Answered) (\<lambda>_. True) True (Some [example_project ''a'' 1]) (3 * example_day) example_telemetry)) ''otel_traces'' =
     Some [(''b'', 0), (''a'', 3 * example_day)] \<and> 3 * example_day - 1 * (24 * (60 * minute)) \<le> 3 * example_day"
  using trim_complete [OF _ _ _ _ _ _ example_trimmed, of "example_project ''a'' 1" "3 * example_day"] example_trimmed
  by (simp add: retention_ok_def example_project_def trim_tables_def)

end
