(* ===== verification/MeshSpec.thy ===== *)
theory MeshSpec
  imports MapEdges
begin

text \<open>
  What the hub reads of a mesh (hub/internal/meshconfig): decoded specs (spec.go), objects, pods and
  snapshots (meshconfig.go), the joins on labels and names (match.go), the declared mTLS mode
  (mtls.go), namespace rows (extract.go) and the view of a project (narrow.go). A finding keeps its
  code, severity, reference and the values its message names; the fixed texts are left out. Sorting
  is by a key, ties in the given order.
\<close>

section \<open>Specs\<close>

text \<open>A spec as the decoder left it. A map is an association list, first key wins.\<close>

datatype val = VNull | VBool bool | VInt int | VFloat rat | VStr string | VList "val list" | VMap "(string \<times> val) list"

type_synonym spec = "(string \<times> val) list"

definition field :: "spec \<Rightarrow> string \<Rightarrow> val" where
  "field m k = (case map_of m k of None \<Rightarrow> VNull | Some v \<Rightarrow> v)"

definition has_field :: "spec \<Rightarrow> string \<Rightarrow> bool" where
  "has_field m k \<longleftrightarrow> map_of m k \<noteq> None"

definition val_str :: "val \<Rightarrow> string" where
  "val_str v = (case v of VStr s \<Rightarrow> s | _ \<Rightarrow> [])"

definition val_map :: "val \<Rightarrow> spec option" where
  "val_map v = (case v of VMap m \<Rightarrow> Some m | _ \<Rightarrow> None)"

definition val_slice :: "val \<Rightarrow> val list" where
  "val_slice v = (case v of VList vs \<Rightarrow> vs | _ \<Rightarrow> [])"

definition string_slice :: "val \<Rightarrow> string list" where
  "string_slice v = concat (map (\<lambda>i. case i of VStr s \<Rightarrow> [s] | _ \<Rightarrow> []) (val_slice v))"

definition map_slice :: "val \<Rightarrow> spec list" where
  "map_slice v = concat (map (\<lambda>i. case i of VMap m \<Rightarrow> [m] | _ \<Rightarrow> []) (val_slice v))"

fun nested_map :: "spec option \<Rightarrow> string list \<Rightarrow> spec option" where
  "nested_map m [] = m"
| "nested_map m (p # ps) = (case m of None \<Rightarrow> None | Some s \<Rightarrow> (case field s p of VMap t \<Rightarrow> nested_map (Some t) ps | _ \<Rightarrow> None))"

text \<open>Reading a nil map finds nothing.\<close>

definition of_map :: "spec option \<Rightarrow> string \<Rightarrow> val" where
  "of_map m k = (case m of None \<Rightarrow> VNull | Some s \<Rightarrow> field s k)"

definition nested_string_map :: "spec \<Rightarrow> string list \<Rightarrow> (string \<times> string) list" where
  "nested_string_map m path =
     (case nested_map (Some m) path of
        None \<Rightarrow> []
      | Some s \<Rightarrow> concat (map (\<lambda>(k, v). case v of VStr t \<Rightarrow> [(k, t)] | _ \<Rightarrow> []) (AList.clearjunk s)))"

text \<open>\<open>strconv.Itoa\<close> of a natural number.\<close>

fun decimal :: "nat \<Rightarrow> string" where
  "decimal n = (if n < 10 then [char_of (n + 48)] else decimal (n div 10) @ [char_of (n mod 10 + 48)])"

declare decimal.simps [simp del]

text \<open>The name and namespace of a cluster-shaped host.\<close>

definition split_host :: "string \<Rightarrow> (string \<times> string) option" where
  "split_host host = (case split_on (CHR ''.'') host of n # ns # _ \<Rightarrow> Some (n, ns) | _ \<Rightarrow> None)"

section \<open>Objects and snapshots\<close>

type_synonym labels = "(string \<times> string) list"

definition label :: "labels \<Rightarrow> string \<Rightarrow> string" where
  "label ls k = (case map_of ls k of None \<Rightarrow> [] | Some v \<Rightarrow> v)"

datatype finding_severity = ErrorSeverity | WarningSeverity | InfoSeverity

datatype code = RouteBackendMissing | RouteParentMissing | GatewayNoRoutes | HostUnresolved | WaypointMissing
  | AmbientNotEnrolled | MtlsConflict | PolicyNoMatch | L7WithoutWaypoint | DataplaneConflict | SubsetMissing
  | HostConflict | GatewayNoWorkload | ListenerConflict | PrincipalUnknown
  | MtlsNotEnforced | PlaintextCallers | MtlsReadyToTighten | TrafficUncarried

record finding =
  fd_code :: code
  fd_severity :: finding_severity
  fd_ref :: string
  fd_ref_kind :: string
  fd_values :: "string list"

record kobject =
  ob_kind :: string
  ob_namespace :: string
  ob_name :: string
  ob_labels :: labels
  ob_created :: instant
  ob_annotations :: labels
  ob_cut :: bool
  ob_spec :: spec
  ob_findings :: "finding list"

record mesh_namespace =
  mn_name :: string
  mn_labels :: labels
  mn_mode :: string
  mn_waypoint :: string
  mn_waypoint_ns :: string
  mn_mtls_mode :: string
  mn_mtls_source :: string
  mn_mtls_policy :: string
  mn_workloads :: nat
  mn_enrolled :: nat
  mn_findings :: "finding list"

record pod =
  po_namespace :: string
  po_name :: string
  po_labels :: labels
  po_annotations :: labels
  po_owner_kind :: string
  po_owner_name :: string
  po_account :: string
  po_node :: string
  po_host_network :: bool
  po_containers :: "string list"
  po_init :: "string list"
  po_phase :: string
  po_created :: instant

definition obj_key :: "string \<Rightarrow> string \<Rightarrow> string" where
  "obj_key namespace name = namespace @ ''/'' @ name"

section \<open>Joins\<close>

definition selector_labels :: "kobject \<Rightarrow> labels" where
  "selector_labels o1 =
     (let m = nested_string_map (ob_spec o1) [''selector'', ''matchLabels'']
      in if m \<noteq> [] then m else nested_string_map (ob_spec o1) [''workloadSelector'', ''labels''])"

definition has_target_ref :: "kobject \<Rightarrow> bool" where
  "has_target_ref o1 \<longleftrightarrow> has_field (ob_spec o1) ''targetRef'' \<or> val_slice (field (ob_spec o1) ''targetRefs'') \<noteq> []"

definition labels_match :: "labels \<Rightarrow> labels \<Rightarrow> bool" where
  "labels_match sel ls \<longleftrightarrow> sel \<noteq> [] \<and> list_all (\<lambda>(k, v). label ls k = v) sel"

type_synonym workload_key = "string \<times> string \<times> string"

text \<open>The namespace, the name and the kind of what made a pod.\<close>

definition workload_key_for :: "string set \<Rightarrow> pod \<Rightarrow> workload_key" where
  "workload_key_for deployments p =
     (if po_owner_kind p = [] then (po_namespace p, po_name p, ''Pod'')
      else if po_owner_kind p = ''ReplicaSet'' then
        (let h = label (po_labels p) ''pod-template-hash'';
             name = trim_suffix (''-'' @ h) (po_owner_name p)
         in if h \<noteq> [] \<and> has_suffix (''-'' @ h) (po_owner_name p) \<and> obj_key (po_namespace p) name \<in> deployments
            then (po_namespace p, name, ''Deployment'')
            else (po_namespace p, po_owner_name p, ''ReplicaSet''))
      else (po_namespace p, po_owner_name p, po_owner_kind p))"

definition key_id :: "workload_key \<Rightarrow> string" where
  "key_id k = (case k of (ns, name, kind) \<Rightarrow> obj_key ns name)"

definition deployment_set :: "kobject list \<Rightarrow> string set" where
  "deployment_set objects = (\<lambda>o1. obj_key (ob_namespace o1) (ob_name o1)) ` set (filter (\<lambda>o1. ob_kind o1 = ''Deployment'') objects)"

section \<open>Declared mTLS\<close>

record declared_mtls =
  dm_mode :: string
  dm_source :: string
  dm_policy :: string

definition no_mtls :: declared_mtls where
  "no_mtls = \<lparr>dm_mode = [], dm_source = [], dm_policy = []\<rparr>"

definition peer_auth_mode :: "kobject \<Rightarrow> string" where
  "peer_auth_mode o1 = (case field (ob_spec o1) ''mtls'' of VMap m \<Rightarrow> val_str (field m ''mode'') | _ \<Rightarrow> [])"

definition decided_by :: "string \<Rightarrow> kobject \<Rightarrow> declared_mtls" where
  "decided_by source pa = \<lparr>dm_mode = peer_auth_mode pa, dm_source = source, dm_policy = obj_key (ob_namespace pa) (ob_name pa)\<rparr>"

definition first_by_name :: "kobject option \<Rightarrow> kobject \<Rightarrow> kobject option" where
  "first_by_name cur candidate =
     (case cur of None \<Rightarrow> Some candidate | Some c \<Rightarrow> if ob_name candidate < ob_name c then Some candidate else Some c)"

text \<open>One policy: it may decide for the workload, the namespace or the mesh.\<close>

definition consider_policy :: "labels \<Rightarrow> string \<Rightarrow> string \<Rightarrow> kobject \<Rightarrow>
    kobject option \<times> kobject option \<times> kobject option \<Rightarrow> kobject option \<times> kobject option \<times> kobject option" where
  "consider_policy pod_labels namespace root_ns pa st = (case st of (wl, nswide, meshwide) \<Rightarrow>
     (if peer_auth_mode pa = [] then st
      else let sel = selector_labels pa
        in if sel \<noteq> [] then
             (if ob_namespace pa = namespace \<and> labels_match sel pod_labels then (first_by_name wl pa, nswide, meshwide) else st)
           else if ob_namespace pa = root_ns then (wl, nswide, first_by_name meshwide pa)
           else if ob_namespace pa = namespace then (wl, first_by_name nswide pa, meshwide)
           else st))"

definition declared_mtls_for :: "labels \<Rightarrow> string \<Rightarrow> kobject list \<Rightarrow> string \<Rightarrow> declared_mtls" where
  "declared_mtls_for pod_labels namespace peer_auths root_ns =
     (case fold (consider_policy pod_labels namespace root_ns) peer_auths (None, None, None) of
        (Some pa, _, _) \<Rightarrow> decided_by ''workload'' pa
      | (None, Some pa, _) \<Rightarrow> decided_by ''namespace'' pa
      | (None, None, Some pa) \<Rightarrow> decided_by ''mesh'' pa
      | (None, None, None) \<Rightarrow> no_mtls)"

section \<open>Namespace rows\<close>

definition dataplane_mode :: "labels \<Rightarrow> string" where
  "dataplane_mode ls =
     (if equal_fold (label ls ''istio.io/dataplane-mode'') ''ambient'' then ''ambient''
      else if equal_fold (label ls ''istio-injection'') ''enabled'' then ''sidecar''
      else if label ls ''istio.io/rev'' \<noteq> [] then ''sidecar''
      else [])"

definition namespace_row :: "kobject list \<Rightarrow> string \<Rightarrow> kobject \<Rightarrow> mesh_namespace" where
  "namespace_row peer_auths root_ns ns =
     (let wp = label (ob_labels ns) ''istio.io/use-waypoint'';
          bound = wp \<noteq> [] \<and> wp \<noteq> ''none'';
          wns = label (ob_labels ns) ''istio.io/use-waypoint-namespace'';
          mtls = declared_mtls_for [] (ob_name ns) peer_auths root_ns
      in \<lparr>mn_name = ob_name ns, mn_labels = ob_labels ns, mn_mode = dataplane_mode (ob_labels ns),
          mn_waypoint = (if bound then wp else []),
          mn_waypoint_ns = (if bound then (if wns = [] then ob_name ns else wns) else []),
          mn_mtls_mode = dm_mode mtls, mn_mtls_source = dm_source mtls, mn_mtls_policy = dm_policy mtls,
          mn_workloads = 0, mn_enrolled = 0, mn_findings = []\<rparr>)"

definition namespaces_from :: "kobject list \<Rightarrow> kobject list \<Rightarrow> string \<Rightarrow> mesh_namespace list" where
  "namespaces_from namespaces peer_auths root_ns = map (namespace_row peer_auths root_ns) namespaces"

definition is_waypoint :: "kobject \<Rightarrow> bool" where
  "is_waypoint o1 \<longleftrightarrow> ob_kind o1 = ''Gateway'' \<and>
     contains ''waypoint'' (to_lower (val_str (field (ob_spec o1) ''gatewayClassName'')))"

definition waypoint_scope :: "kobject \<Rightarrow> string" where
  "waypoint_scope o1 = (let v = label (ob_labels o1) ''istio.io/waypoint-for'' in if v \<noteq> [] then v else ''service'')"

end
