(* ===== verification/MeshWorkloads.thy ===== *)
theory MeshWorkloads
  imports MeshSpec
begin

text \<open>
  What a cluster runs, seen from its pods (hub/internal/meshconfig: workload.go, service.go, the
  bounds of pod.go), the snapshot and its assembly from the caches (meshconfig.go, snapshot.go) and
  its view for a project (narrow.go). The caches are the objects and pods they list.
\<close>

section \<open>Workloads\<close>

record policy_ref =
  pr_kind :: string
  pr_namespace :: string
  pr_name :: string
  pr_scope :: string

record route_ref =
  rr_kind :: string
  rr_namespace :: string
  rr_name :: string
  rr_service :: string
  rr_host :: string

record workload =
  wl_namespace :: string
  wl_name :: string
  wl_kind :: string
  wl_labels :: labels
  wl_account :: string
  wl_pods :: nat
  wl_running :: nat
  wl_created :: instant
  wl_created_from :: string
  wl_annotations :: labels
  wl_cut :: bool
  wl_declared :: string
  wl_injected :: bool
  wl_captured :: bool
  wl_mode :: string
  wl_waypoint :: string
  wl_waypoint_ns :: string
  wl_waypoint_source :: string
  wl_mtls :: declared_mtls
  wl_policies :: "policy_ref list"
  wl_services :: "string list"
  wl_routes :: "route_ref list"
  wl_findings :: "finding list"

definition workload_kinds :: "string set" where
  "workload_kinds = {''Deployment'', ''StatefulSet'', ''DaemonSet''}"

definition workload_policy_kinds :: "string set" where
  "workload_policy_kinds = {''PeerAuthentication'', ''AuthorizationPolicy'', ''Sidecar'', ''Telemetry'', ''WasmPlugin''}"

definition empty_namespace :: mesh_namespace where
  "empty_namespace = \<lparr>mn_name = [], mn_labels = [], mn_mode = [], mn_waypoint = [], mn_waypoint_ns = [], mn_mtls_mode = [],
     mn_mtls_source = [], mn_mtls_policy = [], mn_workloads = 0, mn_enrolled = 0, mn_findings = []\<rparr>"

text \<open>A missing namespace reads as the empty row; of two of a name the last counts.\<close>

definition namespace_named :: "mesh_namespace list \<Rightarrow> string \<Rightarrow> mesh_namespace" where
  "namespace_named nss n =
     (case find (\<lambda>ns. mn_name ns = n) (rev nss) of None \<Rightarrow> empty_namespace | Some ns \<Rightarrow> ns)"

definition declared_mode :: "pod \<Rightarrow> mesh_namespace \<Rightarrow> string" where
  "declared_mode p ns =
     (let own = to_lower (label (po_labels p) ''istio.io/dataplane-mode'')
      in if own = ''ambient'' then ''ambient''
         else if own = ''none'' then []
         else if mn_mode ns = ''sidecar'' \<and>
           (label (po_labels p) ''sidecar.istio.io/inject'' = ''false'' \<or> label (po_annotations p) ''sidecar.istio.io/inject'' = ''false'')
           then []
         else mn_mode ns)"

definition waypoint_binding :: "labels \<Rightarrow> string \<Rightarrow> mesh_namespace \<Rightarrow> string \<Rightarrow> string \<times> string \<times> string" where
  "waypoint_binding ls namespace ns own_source =
     (let wp = label ls ''istio.io/use-waypoint''; wns = label ls ''istio.io/use-waypoint-namespace''
      in if wp \<noteq> [] then
           (if wp = ''none'' then ([], [], own_source) else (wp, (if wns = [] then namespace else wns), own_source))
         else if mn_waypoint ns \<noteq> [] then (mn_waypoint ns, mn_waypoint_ns ns, ''namespace'')
         else ([], [], []))"

text \<open>The policy as it covers a workload, or nothing.\<close>

definition covering :: "labels \<Rightarrow> string \<Rightarrow> string \<Rightarrow> kobject \<Rightarrow> policy_ref list" where
  "covering ls namespace scope_wide pol =
     (let ref = (\<lambda>scope. \<lparr>pr_kind = ob_kind pol, pr_namespace = ob_namespace pol, pr_name = ob_name pol, pr_scope = scope\<rparr>);
          sel = selector_labels pol
      in if has_target_ref pol then []
         else if sel \<noteq> [] then (if ob_namespace pol = namespace \<and> labels_match sel ls then [ref ''workload''] else [])
         else [ref scope_wide])"

definition policies_in :: "kobject list \<Rightarrow> string \<Rightarrow> kobject list" where
  "policies_in objects ns = filter (\<lambda>o1. ob_kind o1 \<in> workload_policy_kinds \<and> ob_namespace o1 = ns) objects"

definition attached_policies :: "labels \<Rightarrow> string \<Rightarrow> kobject list \<Rightarrow> string \<Rightarrow> policy_ref list" where
  "attached_policies ls namespace objects root_ns =
     (let wide = (if namespace = root_ns then ''mesh'' else ''namespace'');
          own = concat (map (covering ls namespace wide) (policies_in objects namespace));
          mesh = (if namespace = root_ns then [] else concat (map (covering ls namespace ''mesh'') (policies_in objects root_ns)))
      in sort_key (\<lambda>r. (pr_kind r, pr_namespace r, pr_name r)) (own @ mesh))"

definition new_workload :: "kobject list \<Rightarrow> mesh_namespace list \<Rightarrow> workload_key \<Rightarrow> pod \<Rightarrow> workload" where
  "new_workload objects nss k p = (case k of (kns, kname, kkind) \<Rightarrow>
     (let ns = namespace_named nss kns;
          (wp, wpns, src) = waypoint_binding (po_labels p) (po_namespace p) ns ''workload'';
          c = find (\<lambda>o1. ob_kind o1 \<in> workload_kinds \<and> ob_kind o1 = kkind \<and> obj_key (ob_namespace o1) (ob_name o1) = obj_key kns kname) (rev objects)
      in \<lparr>wl_namespace = kns, wl_name = kname, wl_kind = kkind, wl_labels = po_labels p, wl_account = po_account p,
          wl_pods = 0, wl_running = 0,
          wl_created = (case c of None \<Rightarrow> zero_time | Some o1 \<Rightarrow> ob_created o1),
          wl_created_from = (case c of None \<Rightarrow> [] | Some _ \<Rightarrow> ''controller''),
          wl_annotations = (case c of None \<Rightarrow> [] | Some o1 \<Rightarrow> ob_annotations o1),
          wl_cut = (case c of None \<Rightarrow> False | Some o1 \<Rightarrow> ob_cut o1),
          wl_declared = declared_mode p ns, wl_injected = False, wl_captured = False, wl_mode = [],
          wl_waypoint = wp, wl_waypoint_ns = wpns, wl_waypoint_source = src,
          wl_mtls = no_mtls, wl_policies = [], wl_services = [], wl_routes = [], wl_findings = []\<rparr>))"

definition date_from_pod :: "pod \<Rightarrow> workload \<Rightarrow> workload" where
  "date_from_pod p w =
     (if wl_created_from w \<noteq> ''controller'' \<and> po_created p \<noteq> zero_time \<and> (wl_created w = zero_time \<or> po_created p < wl_created w)
      then w\<lparr>wl_created := po_created p, wl_created_from := ''pods''\<rparr> else w)"

definition injected_pod :: "pod \<Rightarrow> bool" where
  "injected_pod p \<longleftrightarrow> ''istio-proxy'' \<in> set (po_containers p)"

definition captured_pod :: "pod \<Rightarrow> bool" where
  "captured_pod p \<longleftrightarrow> label (po_annotations p) ''ambient.istio.io/redirection'' = ''enabled''"

definition count_pod :: "pod \<Rightarrow> workload \<Rightarrow> workload" where
  "count_pod p w =
     (let w1 = date_from_pod p (w\<lparr>wl_pods := Suc (wl_pods w)\<rparr>)
      in if po_phase p \<noteq> ''Running'' then w1
         else w1\<lparr>wl_running := Suc (wl_running w1), wl_injected := wl_injected w1 \<or> injected_pod p,
                wl_captured := wl_captured w1 \<or> captured_pod p\<rparr>)"

text \<open>The groups, in the order of their first pods.\<close>

definition add_pod :: "kobject list \<Rightarrow> mesh_namespace list \<Rightarrow> string set \<Rightarrow> pod \<Rightarrow> (workload_key \<times> workload) list \<Rightarrow> (workload_key \<times> workload) list" where
  "add_pod objects nss deployments p groups =
     (let k = workload_key_for deployments p;
          w = (case map_of groups k of None \<Rightarrow> new_workload objects nss k p | Some w \<Rightarrow> w)
      in AList.update k (count_pod p w) groups)"

section \<open>Services\<close>

record service_port =
  sp_port_name :: string
  sp_port :: int
  sp_protocol :: string
  sp_app_protocol :: string
  sp_declared :: string

record mesh_service =
  ms_namespace :: string
  ms_name :: string
  ms_selector :: labels
  ms_ports :: "service_port list"
  ms_workloads :: "string list"
  ms_waypoint :: string
  ms_waypoint_ns :: string
  ms_waypoint_source :: string
  ms_findings :: "finding list"

definition known_port_protocols :: "string set" where
  "known_port_protocols = {''http'', ''http2'', ''https'', ''grpc'', ''grpc-web'', ''mongo'', ''redis'', ''mysql'', ''tcp'', ''tls'', ''udp''}"

definition declared_protocol :: "string \<Rightarrow> string \<Rightarrow> string" where
  "declared_protocol name app =
     (if app \<noteq> [] then app
      else let n = to_lower name
        in if n = ''grpc-web'' \<or> has_prefix ''grpc-web-'' n then ''grpc-web''
           else let prefix = fst (cut (CHR ''-'') n) in if prefix \<in> known_port_protocols then prefix else [])"

definition port_number :: "val \<Rightarrow> int" where
  "port_number v = (case v of VInt n \<Rightarrow> n | VFloat x \<Rightarrow> (if 0 \<le> x then \<lfloor>x\<rfloor> else \<lceil>x\<rceil>) | _ \<Rightarrow> 0)"

definition service_ports :: "kobject \<Rightarrow> service_port list" where
  "service_ports o1 =
     map (\<lambda>m. \<lparr>sp_port_name = val_str (field m ''name''), sp_port = port_number (field m ''port''),
        sp_protocol = val_str (field m ''protocol''), sp_app_protocol = val_str (field m ''appProtocol''),
        sp_declared = declared_protocol (val_str (field m ''name'')) (val_str (field m ''appProtocol''))\<rparr>)
       (map_slice (field (ob_spec o1) ''ports''))"

text \<open>Every Service and workload a selector joins.\<close>

definition resolve_services :: "kobject list \<Rightarrow> pod list \<Rightarrow> string set \<Rightarrow> (string \<times> string) list" where
  "resolve_services objects pods deployments =
     concat (map (\<lambda>o1. let sel = nested_string_map (ob_spec o1) [''selector'']
         in if sel = [] then []
            else map (\<lambda>p. (obj_key (ob_namespace o1) (ob_name o1), key_id (workload_key_for deployments p)))
              (filter (\<lambda>p. po_namespace p = ob_namespace o1 \<and> labels_match sel (po_labels p)) pods))
       (filter (\<lambda>o1. ob_kind o1 = ''Service'') objects))"

definition workloads_by_service :: "(string \<times> string) list \<Rightarrow> string \<Rightarrow> string list" where
  "workloads_by_service links svc = sort (dedup (map snd (filter (\<lambda>l. fst l = svc) links)))"

definition services_by_workload :: "(string \<times> string) list \<Rightarrow> string \<Rightarrow> string list" where
  "services_by_workload links wk = sort (dedup (map fst (filter (\<lambda>l. snd l = wk) links)))"

definition service_row :: "mesh_namespace list \<Rightarrow> (string \<times> string) list \<Rightarrow> kobject \<Rightarrow> mesh_service" where
  "service_row nss links o1 =
     (case waypoint_binding (ob_labels o1) (ob_namespace o1) (namespace_named nss (ob_namespace o1)) ''service'' of (wp, wpns, src) \<Rightarrow>
       \<lparr>ms_namespace = ob_namespace o1, ms_name = ob_name o1, ms_selector = nested_string_map (ob_spec o1) [''selector''],
        ms_ports = service_ports o1, ms_workloads = workloads_by_service links (obj_key (ob_namespace o1) (ob_name o1)),
        ms_waypoint = wp, ms_waypoint_ns = wpns, ms_waypoint_source = src, ms_findings = []\<rparr>)"

definition services_from :: "kobject list \<Rightarrow> pod list \<Rightarrow> mesh_namespace list \<Rightarrow> mesh_service list" where
  "services_from objects pods nss =
     (let links = resolve_services objects pods (deployment_set objects)
      in sort_key (\<lambda>s. (ms_namespace s, ms_name s)) (map (service_row nss links) (filter (\<lambda>o1. ob_kind o1 = ''Service'') objects)))"

definition sort_pods :: "pod list \<Rightarrow> pod list" where
  "sort_pods pods = sort_key (\<lambda>p. (po_namespace p, po_name p)) pods"

definition finish_workload :: "kobject list \<Rightarrow> (string \<times> string) list \<Rightarrow> string \<Rightarrow> workload_key \<times> workload \<Rightarrow> workload" where
  "finish_workload objects links root_ns g = (case g of (k, w) \<Rightarrow>
     w\<lparr>wl_mode := (if wl_captured w then ''ambient'' else if wl_injected w then ''sidecar'' else []),
       wl_mtls := declared_mtls_for (wl_labels w) (wl_namespace w) (filter (\<lambda>o1. ob_kind o1 = ''PeerAuthentication'') objects) root_ns,
       wl_policies := attached_policies (wl_labels w) (wl_namespace w) objects root_ns,
       wl_services := services_by_workload links (key_id k)\<rparr>)"

definition workloads_from :: "pod list \<Rightarrow> mesh_namespace list \<Rightarrow> kobject list \<Rightarrow> string \<Rightarrow> workload list" where
  "workloads_from pods nss objects root_ns =
     (let deployments = deployment_set objects;
          links = resolve_services objects pods deployments;
          groups = fold (add_pod objects nss deployments) (sort_pods pods) []
      in sort_key (\<lambda>w. (wl_namespace w, wl_name w)) (map (finish_workload objects links root_ns) groups))"

text \<open>The counts of a namespace; of two rows of a name the last is counted on.\<close>

definition count_workloads :: "mesh_namespace list \<Rightarrow> workload list \<Rightarrow> mesh_namespace list" where
  "count_workloads nss wls =
     map (\<lambda>i. let ns = nss ! i; own = filter (\<lambda>w. wl_namespace w = mn_name ns) wls
         in if mn_name ns \<in> mn_name ` set (drop (Suc i) nss) then ns
            else ns\<lparr>mn_workloads := mn_workloads ns + length own,
                   mn_enrolled := mn_enrolled ns + length (filter (\<lambda>w. wl_captured w \<or> wl_injected w) own)\<rparr>)
       [0..<length nss]"

section \<open>Annotations\<close>

definition kept_pod_annotations :: "string list" where
  "kept_pod_annotations = [''ambient.istio.io/redirection'', ''sidecar.istio.io/inject'', ''sidecar.istio.io/status'', ''istio.io/rev'']"

definition keep_annotations :: "labels \<Rightarrow> labels" where
  "keep_annotations anns =
     concat (map (\<lambda>k. case map_of anns k of None \<Rightarrow> [] | Some v \<Rightarrow> [(k, v)]) kept_pod_annotations)"

definition max_object_annotations :: nat where "max_object_annotations = 64"

definition max_annotation_value :: nat where "max_annotation_value = 2048"

definition annotation_last_applied :: string where
  "annotation_last_applied = ''kubectl.kubernetes.io/last-applied-configuration''"

text \<open>The ellipsis, in UTF-8.\<close>

definition ellipsis :: string where "ellipsis = map char_of [226, 128, 166 :: nat]"

definition keep_object_annotations :: "labels \<Rightarrow> labels \<times> bool" where
  "keep_object_annotations anns =
     (let keys = sort (filter (\<lambda>k. k \<noteq> annotation_last_applied) (map fst (AList.clearjunk anns)));
          few = take max_object_annotations keys;
          long = (\<lambda>k. max_annotation_value < length (label anns k))
      in (map (\<lambda>k. (k, if long k then take max_annotation_value (label anns k) @ ellipsis else label anns k)) few,
          max_object_annotations < length keys \<or> list_ex long few))"

section \<open>Snapshots\<close>

datatype mesh_state = StateOK | StateUnconfigured | StateForbidden | StateNoCRDs

record kind_sync =
  ks_kind :: string
  ks_count :: nat
  ks_synced :: instant
  ks_changed :: instant
  ks_truncated :: bool

record mesh_snapshot =
  sn_state :: mesh_state
  sn_reason :: string
  sn_synced :: instant
  sn_missing :: "string list"
  sn_missing_reasons :: labels
  sn_truncated :: bool
  sn_pods_truncated :: bool
  sn_kinds :: "kind_sync list"
  sn_skipped :: string
  sn_namespaces :: "mesh_namespace list"
  sn_objects :: "kobject list"
  sn_pods :: "pod list"
  sn_workloads :: "workload list"
  sn_services :: "mesh_service list"

definition em_dash :: string where "em_dash = map char_of [226, 128, 148 :: nat]"

definition state_reason :: "mesh_state \<Rightarrow> string \<Rightarrow> string" where
  "state_reason s cluster_role =
     (case s of
        StateForbidden \<Rightarrow> ''the hub may not read mesh configuration '' @ em_dash @ '' grant the '' @ cluster_role @
          '' ClusterRole, which the chart renders with modules.meshConfig.enabled''
      | StateNoCRDs \<Rightarrow> ''this cluster has no Istio or Gateway API custom resources, so there is no mesh configuration to read''
      | StateUnconfigured \<Rightarrow> ''the hub is not running in a Kubernetes cluster, so there is no mesh configuration to read''
      | StateOK \<Rightarrow> [])"

definition namespace_mtls :: "mesh_snapshot \<Rightarrow> string \<Rightarrow> declared_mtls" where
  "namespace_mtls s namespace =
     (case find (\<lambda>ns. mn_name ns = namespace) (sn_namespaces s) of
        None \<Rightarrow> no_mtls
      | Some ns \<Rightarrow> \<lparr>dm_mode = mn_mtls_mode ns, dm_source = mn_mtls_source ns, dm_policy = mn_mtls_policy ns\<rparr>)"

text \<open>The mode a workload runs under, by name: the first row of the sorted list at or after it.\<close>

definition effective_mtls :: "mesh_snapshot \<Rightarrow> string \<Rightarrow> string \<Rightarrow> declared_mtls" where
  "effective_mtls s namespace name =
     (case find (\<lambda>w. namespace < wl_namespace w \<or> (wl_namespace w = namespace \<and> name \<le> wl_name w)) (sn_workloads s) of
        Some w \<Rightarrow> if wl_namespace w = namespace \<and> wl_name w = name then wl_mtls w else namespace_mtls s namespace
      | None \<Rightarrow> namespace_mtls s namespace)"

definition snapshot_dataplane_mode :: "mesh_snapshot \<Rightarrow> string \<Rightarrow> string" where
  "snapshot_dataplane_mode s namespace =
     (case find (\<lambda>ns. mn_name ns = namespace) (sn_namespaces s) of None \<Rightarrow> [] | Some ns \<Rightarrow> mn_mode ns)"

section \<open>The view of a project\<close>

definition recount_kinds :: "kind_sync list \<Rightarrow> mesh_snapshot \<Rightarrow> kind_sync list" where
  "recount_kinds kinds view =
     map (\<lambda>k. k\<lparr>ks_count :=
         if ks_kind k = ''Namespace'' then length (sn_namespaces view)
         else if ks_kind k = ''Pod'' then length (sn_pods view)
         else length (filter (\<lambda>o1. ob_kind o1 = ks_kind k) (sn_objects view))\<rparr>) kinds"

definition narrow :: "string set \<Rightarrow> mesh_snapshot \<Rightarrow> mesh_snapshot" where
  "narrow keep s =
     (if sn_state s \<noteq> StateOK then s
      else let view = s\<lparr>sn_namespaces := filter (\<lambda>ns. mn_name ns \<in> keep) (sn_namespaces s),
             sn_objects := filter (\<lambda>o1. ob_namespace o1 \<noteq> [] \<and> ob_namespace o1 \<in> keep) (sn_objects s),
             sn_pods := filter (\<lambda>p. po_namespace p \<in> keep) (sn_pods s),
             sn_workloads := filter (\<lambda>w. wl_namespace w \<in> keep) (sn_workloads s),
             sn_services := filter (\<lambda>v. ms_namespace v \<in> keep) (sn_services s)\<rparr>
        in view\<lparr>sn_kinds := recount_kinds (sn_kinds s) view\<rparr>)"

end
