(* ===== verification/MeshValidate.thy ===== *)
theory MeshValidate
  imports MeshWorkloads
begin

text \<open>
  The checks of a mesh snapshot (hub/internal/meshconfig: index.go, routes.go, validate.go,
  validate_ambient.go, validate_gateway.go, validate_hosts.go, validate_policy.go): the index, the
  routes that reach a workload and one definition per check. Workloads are referred to by their
  position in the snapshot.
\<close>

section \<open>The index\<close>

record mesh_index =
  ix_services :: "string set"
  ix_service_hosts :: "string \<rightharpoonup> string"
  ix_service_by_host :: "string \<rightharpoonup> string"
  ix_gateways :: "string set"
  ix_waypoints :: "string set"
  ix_routed :: "string set"
  ix_namespaces :: "mesh_namespace list"
  ix_all :: "workload list"
  ix_workloads :: "string \<rightharpoonup> nat"
  ix_services_by_key :: "string \<rightharpoonup> mesh_service"
  ix_pods :: "pod list"
  ix_deployments :: "string set"
  ix_accounts :: "string set"
  ix_gateway_pods :: "string \<Rightarrow> nat"
  ix_dr_host_subsets :: "string \<Rightarrow> string set"
  ix_dr_subsets :: "string \<Rightarrow> string set"
  ix_dr_policy :: "string \<Rightarrow> bool"
  ix_vs_by_host :: "string \<Rightarrow> string list"
  ix_dr_by_host :: "string \<Rightarrow> string list"
  ix_usable :: bool
  ix_why :: string

definition pods_usable :: "mesh_snapshot \<Rightarrow> bool \<times> string" where
  "pods_usable s =
     (if ''Pod'' \<in> set (sn_missing s)
      then (False, ''pods were not readable'' @
          (let r = label (sn_missing_reasons s) ''Pod'' in if r = [] then [] else '' ('' @ r @ '')'') @
          '' '' @ em_dash @ '' grant pods get, list and watch in the mesh-config ClusterRole'')
      else if sn_pods_truncated s
      then (False, ''the pod list was cut at '' @ decimal (length (sn_pods s)) @ '' '' @ em_dash @
          '' a check that cannot see every pod would report as absent what is only past the cap'')
      else (True, []))"

definition service_fqdn :: "kobject \<Rightarrow> string" where
  "service_fqdn o1 = ob_name o1 @ ''.'' @ ob_namespace o1 @ ''.svc.cluster.local''"

text \<open>The spellings an object answers to, each with its canonical host.\<close>

definition host_spellings :: "kobject \<Rightarrow> (string \<times> string) list" where
  "host_spellings o1 =
     (if ob_kind o1 = ''Service'' then
        map (\<lambda>sp. (sp, service_fqdn o1))
          [obj_key (ob_namespace o1) (ob_name o1), ob_name o1 @ ''.'' @ ob_namespace o1,
           ob_name o1 @ ''.'' @ ob_namespace o1 @ ''.svc'', service_fqdn o1]
      else if ob_kind o1 = ''ServiceEntry'' then map (\<lambda>h. (h, h)) (string_slice (field (ob_spec o1) ''hosts''))
      else [])"

definition of_kind :: "string \<Rightarrow> mesh_snapshot \<Rightarrow> kobject list" where
  "of_kind k s = filter (\<lambda>o1. ob_kind o1 = k) (sn_objects s)"

definition own_key :: "kobject \<Rightarrow> string" where
  "own_key o1 = obj_key (ob_namespace o1) (ob_name o1)"

text \<open>A map filled in order: the last entry of a key wins.\<close>

definition filled :: "('k \<times> 'v) list \<Rightarrow> 'k \<rightharpoonup> 'v" where
  "filled kvs = map_of (rev kvs)"

definition service_hosts :: "mesh_snapshot \<Rightarrow> string \<rightharpoonup> string" where
  "service_hosts s = filled (concat (map host_spellings (sn_objects s)))"

text \<open>The canonical host, empty for one the snapshot does not know.\<close>

definition resolve_host :: "(string \<rightharpoonup> string) \<Rightarrow> string \<Rightarrow> string \<Rightarrow> string" where
  "resolve_host hosts host0 namespace =
     (let host = trim_space host0; get = (\<lambda>h. case hosts h of None \<Rightarrow> [] | Some k \<Rightarrow> k)
      in if host = [] \<or> CHR ''*'' \<in> set host then []
         else if CHR ''.'' \<notin> set host \<and> get (host @ ''.'' @ namespace) \<noteq> [] then get (host @ ''.'' @ namespace)
         else get host)"

definition parent_refs :: "kobject \<Rightarrow> string list" where
  "parent_refs o1 =
     concat (map (\<lambda>p. let kind = val_str (field p ''kind''); name = val_str (field p ''name''); ns = val_str (field p ''namespace'')
         in if (kind \<noteq> [] \<and> kind \<noteq> ''Gateway'') \<or> name = [] then []
            else [obj_key (if ns \<noteq> [] then ns else ob_namespace o1) name])
       (map_slice (field (ob_spec o1) ''parentRefs'')))"

definition mesh_bound :: "kobject \<Rightarrow> bool" where
  "mesh_bound o1 \<longleftrightarrow> list_all (\<lambda>g. g = ''mesh'') (string_slice (field (ob_spec o1) ''gateways''))"

definition rule_host :: "kobject \<Rightarrow> string" where
  "rule_host o1 = val_str (field (ob_spec o1) ''host'')"

definition rule_subsets :: "kobject \<Rightarrow> string set" where
  "rule_subsets o1 =
     set (filter (\<lambda>n. n \<noteq> []) (map (\<lambda>m. val_str (field m ''name'')) (map_slice (field (ob_spec o1) ''subsets''))))"

definition is_route :: "kobject \<Rightarrow> bool" where
  "is_route o1 \<longleftrightarrow> ob_kind o1 = ''HTTPRoute'' \<or> ob_kind o1 = ''GRPCRoute''"

definition last_of :: "('a \<Rightarrow> bool) \<Rightarrow> 'a list \<Rightarrow> 'a option" where
  "last_of P xs = find P (rev xs)"

definition running_pods :: "mesh_snapshot \<Rightarrow> pod list" where
  "running_pods s = filter (\<lambda>p. po_phase p = ''Running'') (sn_pods s)"

definition new_index :: "mesh_snapshot \<Rightarrow> mesh_index" where
  "new_index s =
     (let hosts = service_hosts s;
          drs = of_kind ''DestinationRule'' s;
          host_of = (\<lambda>o1. resolve_host hosts (rule_host o1) (ob_namespace o1));
          vss = filter mesh_bound (of_kind ''VirtualService'' s);
          claims = concat (map (\<lambda>o1. map (\<lambda>h. (resolve_host hosts h (ob_namespace o1), own_key o1)) (string_slice (field (ob_spec o1) ''hosts''))) vss)
      in \<lparr>ix_services = own_key ` set (of_kind ''Service'' s),
          ix_service_hosts = hosts,
          ix_service_by_host = filled (map (\<lambda>o1. (service_fqdn o1, own_key o1)) (of_kind ''Service'' s)),
          ix_gateways = own_key ` set (of_kind ''Gateway'' s),
          ix_waypoints = own_key ` set (filter is_waypoint (of_kind ''Gateway'' s)),
          ix_routed = set (concat (map parent_refs (filter is_route (sn_objects s)))),
          ix_namespaces = sn_namespaces s,
          ix_all = sn_workloads s,
          ix_workloads = filled (map (\<lambda>i. (obj_key (wl_namespace (sn_workloads s ! i)) (wl_name (sn_workloads s ! i)), i)) [0..<length (sn_workloads s)]),
          ix_services_by_key = filled (map (\<lambda>v. (obj_key (ms_namespace v) (ms_name v), v)) (sn_services s)),
          ix_pods = sn_pods s,
          ix_deployments = deployment_set (sn_objects s),
          ix_accounts = (\<lambda>p. obj_key (po_namespace p) (if po_account p = [] then ''default'' else po_account p)) ` set (running_pods s),
          ix_gateway_pods = (\<lambda>k. length (filter (\<lambda>p. let gw = label (po_labels p) ''gateway.networking.k8s.io/gateway-name''
            in gw \<noteq> [] \<and> obj_key (po_namespace p) gw = k) (running_pods s))),
          ix_dr_host_subsets = (\<lambda>k. if k = [] then {} else \<Union> (rule_subsets ` set (filter (\<lambda>o1. host_of o1 = k) drs))),
          ix_dr_subsets = (\<lambda>d. case last_of (\<lambda>o1. own_key o1 = d) drs of None \<Rightarrow> {} | Some o1 \<Rightarrow> rule_subsets o1),
          ix_dr_policy = (\<lambda>d. case last_of (\<lambda>o1. own_key o1 = d) drs of None \<Rightarrow> False | Some o1 \<Rightarrow> val_map (field (ob_spec o1) ''trafficPolicy'') \<noteq> None),
          ix_vs_by_host = (\<lambda>k. if k = [] then [] else map snd (filter (\<lambda>c. fst c = k) claims)),
          ix_dr_by_host = (\<lambda>k. if k = [] then [] else map own_key (filter (\<lambda>o1. host_of o1 = k) drs)),
          ix_usable = fst (pods_usable s), ix_why = snd (pods_usable s)\<rparr>)"

definition host_key :: "mesh_index \<Rightarrow> string \<Rightarrow> string \<Rightarrow> string" where
  "host_key ix host namespace = resolve_host (ix_service_hosts ix) host namespace"

definition service_behind :: "mesh_index \<Rightarrow> string \<Rightarrow> string \<Rightarrow> mesh_service option" where
  "service_behind ix host namespace =
     (let k = host_key ix host namespace
      in ix_services_by_key ix (case ix_service_by_host ix k of None \<Rightarrow> [] | Some svc \<Rightarrow> svc))"

text \<open>The positions of the workloads a host resolves to.\<close>

definition workloads_behind :: "mesh_index \<Rightarrow> string \<Rightarrow> string \<Rightarrow> nat list" where
  "workloads_behind ix host namespace =
     (case service_behind ix host namespace of
        None \<Rightarrow> []
      | Some svc \<Rightarrow> concat (map (\<lambda>i. case ix_workloads ix i of None \<Rightarrow> [] | Some n \<Rightarrow> [n]) (ms_workloads svc)))"

definition workloads_in :: "mesh_index \<Rightarrow> string \<Rightarrow> workload list" where
  "workloads_in ix namespace = filter (\<lambda>w. wl_namespace w = namespace) (ix_all ix)"

definition selected_workloads :: "mesh_index \<Rightarrow> string \<Rightarrow> labels \<Rightarrow> workload list" where
  "selected_workloads ix namespace sel = filter (\<lambda>w. labels_match sel (wl_labels w)) (workloads_in ix namespace)"

definition pods_of_workload :: "mesh_index \<Rightarrow> string \<Rightarrow> pod list" where
  "pods_of_workload ix wk = filter (\<lambda>p. key_id (workload_key_for (ix_deployments ix) p) = wk) (ix_pods ix)"

section \<open>Routes of workloads\<close>

definition ref_host :: "spec \<Rightarrow> string \<Rightarrow> string" where
  "ref_host ref namespace =
     (let name = val_str (field ref ''name''); ns = val_str (field ref ''namespace'')
      in if name = [] then [] else if ns \<noteq> [] \<and> ns \<noteq> namespace then name @ ''.'' @ ns else name)"

definition protocol_routes :: "kobject \<Rightarrow> spec list" where
  "protocol_routes o1 =
     concat (map (\<lambda>proto. concat (map (\<lambda>rule. map_slice (field rule ''route'')) (map_slice (field (ob_spec o1) proto)))) [''http'', ''tcp'', ''tls''])"

text \<open>The hosts a route or rule names, in the order the code reads them.\<close>

definition route_hosts :: "kobject \<Rightarrow> string list" where
  "route_hosts o1 =
     (if is_route o1 then
        map (\<lambda>p. ref_host p (ob_namespace o1)) (filter (\<lambda>p. val_str (field p ''kind'') = ''Service'') (map_slice (field (ob_spec o1) ''parentRefs''))) @
        concat (map (\<lambda>r. map (\<lambda>b. ref_host b (ob_namespace o1))
            (filter (\<lambda>b. let k = val_str (field b ''kind'') in k = [] \<or> k = ''Service'') (map_slice (field r ''backendRefs''))))
          (map_slice (field (ob_spec o1) ''rules'')))
      else if ob_kind o1 = ''VirtualService'' then
        string_slice (field (ob_spec o1) ''hosts'') @
        filter (\<lambda>h. h \<noteq> []) (map (\<lambda>r. val_str (of_map (val_map (field r ''destination'')) ''host'')) (protocol_routes o1))
      else if ob_kind o1 = ''DestinationRule'' then (if rule_host o1 = [] then [] else [rule_host o1])
      else [])"

definition max_workload_routes :: nat where "max_workload_routes = 200"

definition route_ref_for :: "mesh_index \<Rightarrow> kobject \<Rightarrow> string \<Rightarrow> route_ref" where
  "route_ref_for ix o1 host =
     \<lparr>rr_kind = ob_kind o1, rr_namespace = ob_namespace o1, rr_name = ob_name o1,
      rr_service = (case ix_service_by_host ix (host_key ix host (ob_namespace o1)) of None \<Rightarrow> [] | Some svc \<Rightarrow> svc), rr_host = host\<rparr>"

definition add_route :: "route_ref \<Rightarrow> route_ref list \<Rightarrow> route_ref list" where
  "add_route r rs = (if r \<in> set rs \<or> max_workload_routes \<le> length rs then rs else rs @ [r])"

definition routes_to :: "mesh_index \<Rightarrow> kobject list \<Rightarrow> nat \<Rightarrow> route_ref list" where
  "routes_to ix objects i =
     concat (map (\<lambda>o1. map (route_ref_for ix o1)
       (concat (map (\<lambda>h. replicate (length (filter (\<lambda>n. n = i) (workloads_behind ix h (ob_namespace o1)))) h) (route_hosts o1)))) objects)"

definition attach_routes :: "mesh_snapshot \<Rightarrow> mesh_index \<Rightarrow> workload list" where
  "attach_routes s ix =
     map (\<lambda>i. let w = sn_workloads s ! i
         in if ix_workloads ix (obj_key (wl_namespace w) (wl_name w)) = Some i
            then w\<lparr>wl_routes := sort_key (\<lambda>r. (rr_kind r, rr_namespace r, rr_name r, rr_service r))
                   (fold add_route (routes_to ix (sn_objects s) i) (wl_routes w))\<rparr>
            else w)
       [0..<length (sn_workloads s)]"


section \<open>Findings\<close>

definition found_problem :: "code \<Rightarrow> finding_severity \<Rightarrow> string \<Rightarrow> string \<Rightarrow> string list \<Rightarrow> finding" where
  "found_problem c sev ref kind vs = \<lparr>fd_code = c, fd_severity = sev, fd_ref = ref, fd_ref_kind = kind, fd_values = vs\<rparr>"

section \<open>Routes and gateways\<close>

definition backend_refs :: "kobject \<Rightarrow> string list" where
  "backend_refs o1 =
     concat (map (\<lambda>r. concat (map (\<lambda>b. let name = val_str (field b ''name''); kind = val_str (field b ''kind''); ns = val_str (field b ''namespace'')
           in if name = [] \<or> (kind \<noteq> [] \<and> kind \<noteq> ''Service'') then []
              else [obj_key (if ns \<noteq> [] then ns else ob_namespace o1) name])
         (map_slice (field r ''backendRefs''))))
       (map_slice (field (ob_spec o1) ''rules'')))"

definition check_route :: "kobject \<Rightarrow> mesh_index \<Rightarrow> finding list" where
  "check_route o1 ix =
     map (\<lambda>p. found_problem RouteParentMissing ErrorSeverity p ''Gateway'' [p]) (filter (\<lambda>p. p \<notin> ix_gateways ix) (parent_refs o1)) @
     map (\<lambda>b. found_problem RouteBackendMissing ErrorSeverity b ''Service'' [b]) (filter (\<lambda>b. b \<notin> ix_services ix) (backend_refs o1))"

definition check_gateway :: "kobject \<Rightarrow> mesh_index \<Rightarrow> finding list" where
  "check_gateway o1 ix =
     (if is_waypoint o1 \<or> own_key o1 \<in> ix_routed ix then [] else [found_problem GatewayNoRoutes WarningSeverity [] [] []])"

definition check_gateway_workload :: "kobject \<Rightarrow> mesh_index \<Rightarrow> finding list" where
  "check_gateway_workload o1 ix =
     (if \<not> ix_usable ix \<or> 0 < ix_gateway_pods ix (own_key o1) \<or> has_field (ob_spec o1) ''infrastructure'' then []
      else [found_problem GatewayNoWorkload ErrorSeverity [] [] []])"

definition hostname_of :: "spec \<Rightarrow> string" where "hostname_of l = val_str (field l ''hostname'')"

definition protocol_of :: "spec \<Rightarrow> string" where "protocol_of l = val_str (field l ''protocol'')"

definition listener_pair :: "spec \<Rightarrow> spec \<Rightarrow> finding list" where
  "listener_pair a b =
     (let na = val_str (field a ''name''); nb = val_str (field b ''name'')
      in if na \<noteq> [] \<and> na = nb then [found_problem ListenerConflict ErrorSeverity [] [] [na]]
         else if port_number (field a ''port'') = port_number (field b ''port'') \<and> hostname_of a = hostname_of b \<and> protocol_of a \<noteq> protocol_of b
           then [found_problem ListenerConflict ErrorSeverity [] [] [na, protocol_of a, nb, protocol_of b, hostname_of a]]
         else [])"

fun listener_conflicts :: "spec list \<Rightarrow> finding list" where
  "listener_conflicts [] = []"
| "listener_conflicts (a # ls) = concat (map (listener_pair a) ls) @ listener_conflicts ls"

definition check_listeners :: "kobject \<Rightarrow> finding list" where
  "check_listeners o1 = listener_conflicts (map_slice (field (ob_spec o1) ''listeners''))"

section \<open>Hosts\<close>

definition check_host :: "string \<Rightarrow> string \<Rightarrow> mesh_index \<Rightarrow> finding list" where
  "check_host host0 namespace ix =
     (let host = trim_space host0
      in if host = [] \<or> CHR ''*'' \<in> set host then []
         else if host_key ix host namespace \<noteq> [] then []
         else if CHR ''.'' \<notin> set host \<or> has_suffix ''.svc'' host \<or> has_suffix ''.svc.cluster.local'' host
           then [found_problem HostUnresolved WarningSeverity host ''Host'' [host]]
         else [])"

definition destination :: "spec \<Rightarrow> string \<times> string" where
  "destination r =
     (let d = val_map (field r ''destination'') in (val_str (of_map d ''host''), val_str (of_map d ''subset'')))"

text \<open>The subsets no rule defines, each once per host.\<close>

fun subset_walk :: "mesh_index \<Rightarrow> string \<Rightarrow> string set \<Rightarrow> (string \<times> string) list \<Rightarrow> finding list" where
  "subset_walk ix namespace seen [] = []"
| "subset_walk ix namespace seen ((host, sub) # ds) =
     (let k = host_key ix host namespace; mark = k @ ''#'' @ sub
      in if sub = [] \<or> k = [] \<or> sub \<in> ix_dr_host_subsets ix k \<or> mark \<in> seen
         then subset_walk ix namespace seen ds
         else found_problem SubsetMissing ErrorSeverity host ''DestinationRule'' [sub, host] # subset_walk ix namespace (insert mark seen) ds)"

definition check_subsets :: "kobject \<Rightarrow> mesh_index \<Rightarrow> finding list" where
  "check_subsets o1 ix = subset_walk ix (ob_namespace o1) {} (map destination (protocol_routes o1))"

definition host_conflict :: "string \<Rightarrow> string \<Rightarrow> string \<Rightarrow> finding" where
  "host_conflict kind other host =
     found_problem HostConflict WarningSeverity other (if kind = ''DestinationRule'' then ''DestinationRule'' else ''VirtualService'') [kind, other, host]"

definition check_virtual_service :: "kobject \<Rightarrow> mesh_index \<Rightarrow> finding list" where
  "check_virtual_service o1 ix =
     (let hosts = string_slice (field (ob_spec o1) ''hosts'')
      in concat (map (\<lambda>h. check_host h (ob_namespace o1) ix) hosts) @ check_subsets o1 ix @
         (if mesh_bound o1
          then concat (map (\<lambda>h. map (\<lambda>other. host_conflict ''VirtualService'' other h)
            (filter (\<lambda>other. other \<noteq> own_key o1) (ix_vs_by_host ix (host_key ix h (ob_namespace o1))))) hosts)
          else []))"

definition rule_tls_mode :: "kobject \<Rightarrow> string" where
  "rule_tls_mode o1 = val_str (of_map (nested_map (Some (ob_spec o1)) [''trafficPolicy'', ''tls'']) ''mode'')"

definition mtls_conflict :: "string \<Rightarrow> string \<Rightarrow> string list \<Rightarrow> finding" where
  "mtls_conflict ref kind vs = found_problem MtlsConflict ErrorSeverity ref kind (ref # vs)"

definition conflicting :: "string \<Rightarrow> string \<Rightarrow> bool" where
  "conflicting mode declared \<longleftrightarrow>
     (mode = ''DISABLE'' \<and> declared = ''STRICT'') \<or> ((mode = ''ISTIO_MUTUAL'' \<or> mode = ''MUTUAL'') \<and> declared = ''DISABLE'')"

definition check_mtls :: "kobject \<Rightarrow> string \<Rightarrow> mesh_index \<Rightarrow> finding list" where
  "check_mtls o1 host ix =
     (let mode = rule_tls_mode o1; behind = map (\<lambda>i. ix_all ix ! i) (workloads_behind ix host (ob_namespace o1))
      in if mode \<notin> {''DISABLE'', ''ISTIO_MUTUAL'', ''MUTUAL''} then []
         else if behind \<noteq> [] then
           map (\<lambda>w. mtls_conflict (obj_key (wl_namespace w) (wl_name w)) ''Workload'' [dm_policy (wl_mtls w)]) (filter (\<lambda>w. conflicting mode (dm_mode (wl_mtls w))) behind)
         else let target = (case split_host host of None \<Rightarrow> ob_namespace o1 | Some (_, ns) \<Rightarrow> ns)
           in if conflicting mode (mn_mtls_mode (namespace_named (ix_namespaces ix) target)) then [mtls_conflict target ''Namespace'' []] else [])"

definition check_destination_rule :: "kobject \<Rightarrow> mesh_index \<Rightarrow> finding list" where
  "check_destination_rule o1 ix =
     (let host = rule_host o1; self = own_key o1
      in check_host host (ob_namespace o1) ix @ check_mtls o1 host ix @
         map (\<lambda>other. host_conflict ''DestinationRule'' other host)
           (filter (\<lambda>other. other \<noteq> self \<and>
               (ix_dr_subsets ix self \<inter> ix_dr_subsets ix other \<noteq> {} \<or> (ix_dr_policy ix self \<and> ix_dr_policy ix other)))
             (ix_dr_by_host ix (host_key ix host (ob_namespace o1)))))"

section \<open>Policies\<close>

definition target_refs :: "kobject \<Rightarrow> (string \<times> string) list" where
  "target_refs o1 =
     (let refs = map_slice (field (ob_spec o1) ''targetRefs'') @ (case val_map (field (ob_spec o1) ''targetRef'') of None \<Rightarrow> [] | Some m \<Rightarrow> [m])
      in concat (map (\<lambda>r. let kind = val_str (field r ''kind''); name = val_str (field r ''name''); ns = val_str (field r ''namespace'')
          in if kind = [] \<or> name = [] then [] else [(kind, obj_key (if ns \<noteq> [] then ns else ob_namespace o1) name)]) refs))"

definition format_labels :: "labels \<Rightarrow> string" where
  "format_labels ls = join_with '','' (sort (map (\<lambda>(k, v). k @ ''='' @ v) ls))"

definition check_policy_match :: "kobject \<Rightarrow> mesh_index \<Rightarrow> finding list" where
  "check_policy_match o1 ix =
     (let missing = (\<lambda>(kind, i). (kind = ''Gateway'' \<and> i \<notin> ix_gateways ix) \<or> (kind = ''Service'' \<and> i \<notin> ix_services ix));
          refs = map (\<lambda>(kind, i). found_problem PolicyNoMatch WarningSeverity i kind [kind, i]) (filter missing (target_refs o1));
          sel = selector_labels o1
      in if sel = [] \<or> \<not> ix_usable ix then refs
         else if list_ex (\<lambda>p. po_namespace p = ob_namespace o1 \<and> labels_match sel (po_labels p)) (ix_pods ix) then refs
         else refs @ [found_problem PolicyNoMatch WarningSeverity (ob_namespace o1) ''Namespace'' [format_labels sel, ob_namespace o1]])"

definition parse_principal :: "string \<Rightarrow> (string \<times> string) option" where
  "parse_principal spiffe =
     (case split_on (CHR ''/'') (trim_prefix ''spiffe://'' spiffe) of
        [td, a, ns, b, sa] \<Rightarrow>
          if a = ''ns'' \<and> b = ''sa'' \<and> CHR ''*'' \<notin> set ns \<and> CHR ''*'' \<notin> set sa \<and> ns \<noteq> [] \<and> sa \<noteq> [] then Some (ns, sa) else None
      | _ \<Rightarrow> None)"

definition rule_principals :: "kobject \<Rightarrow> string list" where
  "rule_principals o1 =
     concat (map (\<lambda>rule. concat (map (\<lambda>f. let src = nested_map (Some f) [''source'']
         in string_slice (of_map src ''principals'') @ string_slice (of_map src ''notPrincipals''))
       (map_slice (field rule ''from'')))) (map_slice (field (ob_spec o1) ''rules'')))"

fun principal_walk :: "mesh_index \<Rightarrow> string set \<Rightarrow> string list \<Rightarrow> finding list" where
  "principal_walk ix seen [] = []"
| "principal_walk ix seen (p # ps) =
     (case parse_principal p of
        None \<Rightarrow> principal_walk ix seen ps
      | Some (ns, sa) \<Rightarrow>
          let i = obj_key ns sa
          in if i \<in> seen \<or> i \<in> ix_accounts ix then principal_walk ix seen ps
             else found_problem PrincipalUnknown WarningSeverity i ''ServiceAccount'' [p] # principal_walk ix (insert i seen) ps)"

definition check_principals :: "kobject \<Rightarrow> mesh_index \<Rightarrow> finding list" where
  "check_principals o1 ix = (if \<not> ix_usable ix then [] else principal_walk ix {} (rule_principals o1))"


section \<open>Enrolment\<close>

definition opted_out_pod :: "pod \<Rightarrow> bool" where
  "opted_out_pod p \<longleftrightarrow> po_host_network p \<or> equal_fold (label (po_labels p) ''istio.io/dataplane-mode'') ''none''"

definition check_ambient_enrolment :: "workload \<Rightarrow> mesh_index \<Rightarrow> finding list" where
  "check_ambient_enrolment w ix =
     (if \<not> ix_usable ix \<or> wl_declared w \<noteq> ''ambient'' \<or> wl_running w = 0 \<or> wl_captured w \<or> wl_injected w then []
      else if list_ex (\<lambda>p. po_phase p = ''Running'' \<and> opted_out_pod p) (pods_of_workload ix (obj_key (wl_namespace w) (wl_name w))) then []
      else [found_problem AmbientNotEnrolled ErrorSeverity [] [] []])"

definition both_modes_pod :: "pod \<Rightarrow> bool" where
  "both_modes_pod p \<longleftrightarrow> equal_fold (label (po_labels p) ''istio.io/dataplane-mode'') ''ambient'' \<and> label (po_labels p) ''sidecar.istio.io/inject'' = ''true''"

definition check_dataplane_conflict :: "workload \<Rightarrow> mesh_index \<Rightarrow> finding list" where
  "check_dataplane_conflict w ix =
     (let warn = (\<lambda>ref kind vs. found_problem DataplaneConflict WarningSeverity ref kind vs);
          wp = obj_key (wl_waypoint_ns w) (wl_waypoint w)
      in if \<not> ix_usable ix then []
         else (if wl_injected w \<and> wl_captured w then [warn [] [] [''sidecar and captured'']]
               else if wl_injected w \<and> mn_mode (namespace_named (ix_namespaces ix) (wl_namespace w)) = ''ambient''
                 then [warn [] [] [''sidecar in an ambient namespace'']] else []) @
              (if list_ex both_modes_pod (pods_of_workload ix (obj_key (wl_namespace w) (wl_name w)))
               then [warn [] [] [''labelled for both'']] else []) @
              (if wl_waypoint w \<noteq> [] \<and> wl_declared w \<noteq> ''ambient'' then [warn wp ''Waypoint'' [wp]] else []))"

definition check_waypoint_binding :: "string \<Rightarrow> string \<Rightarrow> mesh_index \<Rightarrow> finding list" where
  "check_waypoint_binding waypoint waypoint_ns ix =
     (let i = obj_key waypoint_ns waypoint
      in if waypoint = [] \<or> i \<in> ix_waypoints ix then [] else [found_problem WaypointMissing ErrorSeverity i ''Waypoint'' [i]])"

section \<open>Objects only a waypoint honours\<close>

definition authorization_needs_l7 :: "kobject \<Rightarrow> bool" where
  "authorization_needs_l7 o1 \<longleftrightarrow>
     list_ex (\<lambda>rule.
       list_ex (\<lambda>t. let op = nested_map (Some t) [''operation'']
          in list_ex (\<lambda>f. val_slice (of_map op f) \<noteq> []) [''methods'', ''notMethods'', ''paths'', ''notPaths'', ''hosts'', ''notHosts''])
         (map_slice (field rule ''to'')) \<or>
       list_ex (\<lambda>f. let src = nested_map (Some f) [''source'']
          in val_slice (of_map src ''requestPrincipals'') \<noteq> [] \<or> val_slice (of_map src ''notRequestPrincipals'') \<noteq> [])
         (map_slice (field rule ''from'')) \<or>
       list_ex (\<lambda>w. has_prefix ''request.'' (val_str (field w ''key''))) (map_slice (field rule ''when'')))
     (map_slice (field (ob_spec o1) ''rules''))"

definition needs_l7 :: "kobject \<Rightarrow> bool" where
  "needs_l7 o1 \<longleftrightarrow>
     (if ob_kind o1 = ''AuthorizationPolicy'' then authorization_needs_l7 o1
      else if ob_kind o1 = ''RequestAuthentication'' then True
      else if ob_kind o1 = ''VirtualService'' then val_slice (field (ob_spec o1) ''http'') \<noteq> [] \<or> val_slice (field (ob_spec o1) ''grpc'') \<noteq> []
      else if ob_kind o1 = ''DestinationRule'' then
        (let tp = nested_map (Some (ob_spec o1)) [''trafficPolicy'']
         in nested_map tp [''connectionPool'', ''http''] \<noteq> None \<or> nested_map tp [''outlierDetection''] \<noteq> None \<or>
            nested_map tp [''loadBalancer'', ''consistentHash''] \<noteq> None)
      else ob_kind o1 = ''WasmPlugin'' \<and> selector_labels o1 \<noteq> [])"

definition hosts_have_waypoint :: "string list \<Rightarrow> string \<Rightarrow> mesh_namespace \<Rightarrow> mesh_index \<Rightarrow> bool" where
  "hosts_have_waypoint hosts namespace ns ix =
     list_all (\<lambda>h. case service_behind ix h namespace of
        None \<Rightarrow> mn_waypoint ns \<noteq> []
      | Some s \<Rightarrow> ms_waypoint s \<noteq> []) hosts"

definition l7_targets_have_waypoint :: "kobject \<Rightarrow> mesh_index \<Rightarrow> bool" where
  "l7_targets_have_waypoint o1 ix =
     (let ns = namespace_named (ix_namespaces ix) (ob_namespace o1); refs = target_refs o1; sel = selector_labels o1;
          targets = (if sel \<noteq> [] then selected_workloads ix (ob_namespace o1) sel else workloads_in ix (ob_namespace o1))
      in if ob_kind o1 = ''VirtualService''
           then \<not> mesh_bound o1 \<or> hosts_have_waypoint (string_slice (field (ob_spec o1) ''hosts'')) (ob_namespace o1) ns ix
         else if ob_kind o1 = ''DestinationRule'' then hosts_have_waypoint [rule_host o1] (ob_namespace o1) ns ix
         else if refs \<noteq> [] then
           list_all (\<lambda>(kind, i). \<not> (kind = ''Service'' \<and> (case ix_services_by_key ix i of None \<Rightarrow> False | Some s \<Rightarrow> ms_waypoint s = []))) refs
         else if targets = [] then mn_waypoint ns \<noteq> []
         else list_all (\<lambda>w. wl_waypoint w \<noteq> []) targets)"

definition check_l7_without_waypoint :: "kobject \<Rightarrow> mesh_index \<Rightarrow> finding list" where
  "check_l7_without_waypoint o1 ix =
     (if mn_mode (namespace_named (ix_namespaces ix) (ob_namespace o1)) \<noteq> ''ambient'' \<or> \<not> needs_l7 o1 \<or> l7_targets_have_waypoint o1 ix
      then [] else [found_problem L7WithoutWaypoint WarningSeverity [] [] [ob_kind o1]])"

section \<open>Validation\<close>

definition pod_gated_checks :: "code list" where
  "pod_gated_checks = [PolicyNoMatch, AmbientNotEnrolled, DataplaneConflict, GatewayNoWorkload, PrincipalUnknown]"

definition checks_skipped :: "string \<Rightarrow> string" where
  "checks_skipped why =
     ''MESH_POLICY_NO_MATCH, MESH_AMBIENT_NOT_ENROLLED, MESH_DATAPLANE_CONFLICT, MESH_GATEWAY_NO_WORKLOAD and MESH_PRINCIPAL_UNKNOWN were skipped: '' @ why"

definition object_findings :: "mesh_index \<Rightarrow> kobject \<Rightarrow> finding list" where
  "object_findings ix o1 =
     (if is_route o1 then check_route o1 ix
      else if ob_kind o1 = ''Gateway'' then check_gateway o1 ix @ check_gateway_workload o1 ix @ check_listeners o1
      else if ob_kind o1 = ''DestinationRule'' then check_destination_rule o1 ix
      else if ob_kind o1 = ''VirtualService'' then check_virtual_service o1 ix
      else if ob_kind o1 = ''AuthorizationPolicy'' then check_principals o1 ix
      else []) @
     (if ob_kind o1 \<in> workload_policy_kinds then check_policy_match o1 ix else []) @
     check_l7_without_waypoint o1 ix"

definition workload_findings :: "mesh_index \<Rightarrow> workload \<Rightarrow> finding list" where
  "workload_findings ix w =
     (if wl_waypoint_source w = ''workload'' then check_waypoint_binding (wl_waypoint w) (wl_waypoint_ns w) ix else []) @
     check_ambient_enrolment w ix @ check_dataplane_conflict w ix"

definition validate_mesh :: "mesh_snapshot \<Rightarrow> mesh_snapshot" where
  "validate_mesh s =
     (let ix = new_index s
      in s\<lparr>sn_objects := map (\<lambda>o1. o1\<lparr>ob_findings := ob_findings o1 @ object_findings ix o1\<rparr>) (sn_objects s),
           sn_namespaces := map (\<lambda>ns. ns\<lparr>mn_findings := mn_findings ns @ check_waypoint_binding (mn_waypoint ns) (mn_waypoint_ns ns) ix\<rparr>) (sn_namespaces s),
           sn_workloads := map (\<lambda>w. w\<lparr>wl_findings := wl_findings w @ workload_findings ix w\<rparr>) (attach_routes s ix),
           sn_services := map (\<lambda>v. v\<lparr>ms_findings := ms_findings v @
               (if ms_waypoint_source v = ''service'' then check_waypoint_binding (ms_waypoint v) (ms_waypoint_ns v) ix else [])\<rparr>) (sn_services s),
           sn_skipped := (if ix_usable ix then sn_skipped s else checks_skipped (ix_why ix))\<rparr>)"

end
