(* ===== verification/MeshReader.thy ===== *)
theory MeshReader
  imports MeshValidate
begin

text \<open>
  The reader of a cluster (hub/internal/meshconfig: k8sreader.go, snapshot.go): which kinds it could
  watch and why not, the assembly of a snapshot from the caches within its bounds, and the memo of
  the last snapshot. The probes of the API server, the warm-up of a cache and the caches' contents
  are arguments; an event of an informer stamps its kind.
\<close>

definition max_objects :: nat where "max_objects = 5000"

definition max_pods :: nat where "max_pods = 20000"

definition watched_kinds :: "string list" where
  "watched_kinds =
     [''Namespace'', ''Pod'', ''Service'', ''Gateway'', ''HTTPRoute'', ''GRPCRoute'', ''VirtualService'', ''DestinationRule'', ''ServiceEntry'',
      ''PeerAuthentication'', ''AuthorizationPolicy'', ''Sidecar'', ''Telemetry'', ''WasmPlugin'', ''Deployment'', ''DaemonSet'', ''StatefulSet'']"

definition reason_forbidden :: string where "reason_forbidden = ''the ClusterRole does not grant reading it''"

definition reason_no_type :: string where "reason_no_type = ''this cluster does not have the type''"

definition reason_not_warm :: string where "reason_not_warm = ''its cache did not warm in time''"

text \<open>What probing a kind answers; a reachable kind may still refuse its event handler.\<close>

datatype kind_probe = Reachable | HandlerRefused string | ProbeForbidden | ProbeNoType | ProbeFailed string

record mesh_reader =
  rd_root :: string
  rd_role :: string
  rd_listers :: "string list"
  rd_missing :: labels
  rd_state :: mesh_state
  rd_synced :: instant
  rd_synced_at :: "string \<rightharpoonup> instant"
  rd_changed :: "string \<rightharpoonup> instant"
  rd_memo :: "(mesh_snapshot \<times> instant) option"

definition probe_reason :: "kind_probe \<Rightarrow> string option" where
  "probe_reason p =
     (case p of Reachable \<Rightarrow> None | HandlerRefused e \<Rightarrow> Some e | ProbeForbidden \<Rightarrow> Some reason_forbidden
      | ProbeNoType \<Rightarrow> Some reason_no_type | ProbeFailed e \<Rightarrow> Some e)"

definition new_reader :: "(string \<Rightarrow> kind_probe) \<Rightarrow> (string \<Rightarrow> bool) \<Rightarrow> string \<Rightarrow> string \<Rightarrow> instant \<Rightarrow> mesh_reader" where
  "new_reader probes warms root_ns role now =
     (let started = filter (\<lambda>k. probe_reason (probes k) = None) watched_kinds;
          refused = concat (map (\<lambda>k. case probe_reason (probes k) of None \<Rightarrow> [] | Some r \<Rightarrow> [(k, r)]) watched_kinds);
          forbidden = list_ex (\<lambda>k. probes k = ProbeForbidden) watched_kinds;
          cold = filter (\<lambda>k. \<not> warms k) started
      in \<lparr>rd_root = root_ns, rd_role = role, rd_listers = filter warms started,
          rd_missing = refused @ map (\<lambda>k. (k, reason_not_warm)) cold,
          rd_state = (if started \<noteq> [] then StateOK else if forbidden then StateForbidden else StateNoCRDs),
          rd_synced = (if started \<noteq> [] then now else zero_time),
          rd_synced_at = (\<lambda>k. if k \<in> set started \<and> warms k then Some now else None),
          rd_changed = Map.empty, rd_memo = None\<rparr>)"

text \<open>What the caches hold.\<close>

record mesh_caches =
  mc_objects :: "string \<Rightarrow> kobject list"
  mc_pods :: "pod list"

definition list_sorted :: "kobject list \<Rightarrow> kobject list" where
  "list_sorted os = sort_key (\<lambda>o1. (ob_namespace o1, ob_name o1)) os"

definition with_peer_auths :: "kobject list \<Rightarrow> kobject list \<Rightarrow> kobject list" where
  "with_peer_auths objects peer_auths = filter (\<lambda>o1. ob_kind o1 \<noteq> ''PeerAuthentication'') objects @ peer_auths"

definition config_kinds :: "mesh_reader \<Rightarrow> string list" where
  "config_kinds rd = filter (\<lambda>k. k \<in> set (rd_listers rd) \<and> k \<noteq> ''Namespace'' \<and> k \<noteq> ''Pod'') watched_kinds"

definition cached :: "mesh_caches \<Rightarrow> string \<Rightarrow> kobject list" where
  "cached mc k = list_sorted (mc_objects mc k)"

definition kind_count :: "mesh_caches \<Rightarrow> string \<Rightarrow> nat" where
  "kind_count mc k = (if k = ''Pod'' then length (mc_pods mc) else length (cached mc k))"

text \<open>A kind is cut when the objects listed up to its last one exceed the cap.\<close>

definition kind_cut :: "mesh_reader \<Rightarrow> mesh_caches \<Rightarrow> string \<Rightarrow> bool" where
  "kind_cut rd mc k =
     (if k = ''Namespace'' then False
      else if k = ''Pod'' then max_pods < length (mc_pods mc)
      else cached mc k \<noteq> [] \<and>
        max_objects < sum_list (map (kind_count mc) (takeWhile (\<lambda>j. j \<noteq> k) (config_kinds rd))) + kind_count mc k)"

definition sync_row :: "mesh_reader \<Rightarrow> mesh_caches \<Rightarrow> string \<Rightarrow> kind_sync" where
  "sync_row rd mc k =
     \<lparr>ks_kind = k, ks_count = kind_count mc k,
      ks_synced = (case rd_synced_at rd k of None \<Rightarrow> zero_time | Some t \<Rightarrow> t),
      ks_changed = (case rd_changed rd k of None \<Rightarrow> zero_time | Some t \<Rightarrow> t), ks_truncated = kind_cut rd mc k\<rparr>"

definition unread_snapshot :: "mesh_reader \<Rightarrow> mesh_snapshot" where
  "unread_snapshot rd =
     \<lparr>sn_state = rd_state rd, sn_reason = state_reason (rd_state rd) (rd_role rd), sn_synced = rd_synced rd,
      sn_missing = sort (map fst (rd_missing rd)), sn_missing_reasons = rd_missing rd, sn_truncated = False, sn_pods_truncated = False,
      sn_kinds = [], sn_skipped = [], sn_namespaces = [], sn_objects = [], sn_pods = [], sn_workloads = [], sn_services = []\<rparr>"

definition build_snapshot :: "mesh_reader \<Rightarrow> mesh_caches \<Rightarrow> mesh_snapshot" where
  "build_snapshot rd mc =
     (if rd_state rd \<noteq> StateOK then unread_snapshot rd
      else let listed = (\<lambda>k. if k \<in> set (rd_listers rd) then cached mc k else []);
             all_objects = concat (map (cached mc) (config_kinds rd));
             objects = take max_objects all_objects;
             all_pods = (if ''Pod'' \<in> set (rd_listers rd) then sort_pods (mc_pods mc) else []);
             pods = take max_pods all_pods;
             peer_auths = listed ''PeerAuthentication'';
             rows = namespaces_from (listed ''Namespace'') peer_auths (rd_root rd);
             configured = with_peer_auths objects peer_auths;
             workloads = workloads_from pods rows configured (rd_root rd)
        in validate_mesh ((unread_snapshot rd)\<lparr>
             sn_truncated := max_objects < length all_objects,
             sn_pods_truncated := max_pods < length all_pods,
             sn_kinds := sort_key ks_kind (map (sync_row rd mc) (filter (\<lambda>k. k \<in> set (rd_listers rd)) watched_kinds)),
             sn_namespaces := sort_key mn_name (count_workloads rows workloads),
             sn_objects := sort_key (\<lambda>o1. (ob_kind o1, ob_namespace o1, ob_name o1)) objects,
             sn_pods := sort_pods pods,
             sn_workloads := workloads,
             sn_services := services_from configured pods rows\<rparr>))"

section \<open>The memo\<close>

definition snapshot_ttl :: duration where "snapshot_ttl = 2 * second"

definition changed_since :: "mesh_reader \<Rightarrow> instant \<Rightarrow> bool" where
  "changed_since rd t \<longleftrightarrow> list_ex (\<lambda>k. case rd_changed rd k of None \<Rightarrow> False | Some at1 \<Rightarrow> t \<le> at1) watched_kinds"

definition reader_snapshot :: "instant \<Rightarrow> mesh_caches \<Rightarrow> mesh_reader \<Rightarrow> mesh_snapshot \<times> mesh_reader" where
  "reader_snapshot now mc rd =
     (let fresh = build_snapshot rd mc
      in case rd_memo rd of
        Some (s, m) \<Rightarrow>
          if time_sub now m < snapshot_ttl \<and> \<not> changed_since rd m then (s, rd) else (fresh, rd\<lparr>rd_memo := Some (fresh, now)\<rparr>)
      | None \<Rightarrow> (fresh, rd\<lparr>rd_memo := Some (fresh, now)\<rparr>))"

definition stamp_kind :: "string \<Rightarrow> instant \<Rightarrow> mesh_reader \<Rightarrow> mesh_reader" where
  "stamp_kind k now rd = rd\<lparr>rd_changed := (rd_changed rd)(k \<mapsto> now)\<rparr>"

end
