(* ===== verification/MeshLaws.thy ===== *)
theory MeshLaws
  imports MeshReader
begin

text \<open>
  Laws of the mesh configuration: which PeerAuthentication decides a mode, how workloads partition
  the pods, that services and workloads are joined the same from both sides, what a narrowed
  snapshot shows, which checks stay silent without pods, and how old a served snapshot may be.
\<close>

section \<open>Precedence of PeerAuthentications\<close>

definition decides_workload :: "labels \<Rightarrow> string \<Rightarrow> kobject \<Rightarrow> bool" where
  "decides_workload ls namespace pa \<longleftrightarrow> peer_auth_mode pa \<noteq> [] \<and> selector_labels pa \<noteq> [] \<and>
     ob_namespace pa = namespace \<and> labels_match (selector_labels pa) ls"

definition decides_namespace :: "string \<Rightarrow> string \<Rightarrow> kobject \<Rightarrow> bool" where
  "decides_namespace namespace root_ns pa \<longleftrightarrow> peer_auth_mode pa \<noteq> [] \<and> selector_labels pa = [] \<and>
     ob_namespace pa \<noteq> root_ns \<and> ob_namespace pa = namespace"

definition decides_mesh :: "string \<Rightarrow> kobject \<Rightarrow> bool" where
  "decides_mesh root_ns pa \<longleftrightarrow> peer_auth_mode pa \<noteq> [] \<and> selector_labels pa = [] \<and> ob_namespace pa = root_ns"

text \<open>The first of the least name among those that qualify.\<close>

definition chosen :: "(kobject \<Rightarrow> bool) \<Rightarrow> kobject list \<Rightarrow> kobject option \<Rightarrow> bool" where
  "chosen P pas c \<longleftrightarrow>
     (case c of None \<Rightarrow> \<forall>pa\<in>set pas. \<not> P pa
      | Some pa \<Rightarrow> pa \<in> set pas \<and> P pa \<and> (\<forall>q\<in>set pas. P q \<longrightarrow> ob_name pa \<le> ob_name q))"

definition least_by_name :: "(kobject \<Rightarrow> bool) \<Rightarrow> kobject list \<Rightarrow> kobject option" where
  "least_by_name P pas = fold (\<lambda>pa c. if P pa then first_by_name c pa else c) pas None"

lemma chosen_step:
  assumes "chosen P pas c"
  shows "chosen P (pas @ [pa]) (if P pa then first_by_name c pa else c)"
  using assms by (auto simp: chosen_def first_by_name_def split: option.splits)

lemma chosen_least: "chosen P pas (least_by_name P pas)"
proof (induction pas rule: rev_induct)
  case Nil
  then show ?case by (simp add: chosen_def least_by_name_def)
next
  case (snoc pa pas)
  have "least_by_name P (pas @ [pa]) = (if P pa then first_by_name (least_by_name P pas) pa else least_by_name P pas)"
    by (simp add: least_by_name_def)
  with chosen_step [OF snoc] show ?case by simp
qed

lemma consider_policy_fold:
  "fold (consider_policy ls namespace root_ns) pas (None, None, None) =
     (least_by_name (decides_workload ls namespace) pas, least_by_name (decides_namespace namespace root_ns) pas,
      least_by_name (decides_mesh root_ns) pas)"
proof (induction pas rule: rev_induct)
  case Nil
  then show ?case by (simp add: least_by_name_def)
next
  case (snoc pa pas)
  then show ?case
    by (simp add: consider_policy_def Let_def least_by_name_def decides_workload_def decides_namespace_def decides_mesh_def)
qed

text \<open>The declared mTLS mode is decided by one policy, of the nearest scope that has one: a policy of the
  workload's namespace whose selector its labels match, else one of its namespace without a selector,
  else one without a selector in the root namespace; a policy without a mode decides nothing,
  and of several in a scope the least name decides. The answer names that policy and its scope.\<close>

theorem mtls_precedence:
  "(\<exists>pa. chosen (decides_workload ls namespace) pas (Some pa) \<and> declared_mtls_for ls namespace pas root_ns = decided_by ''workload'' pa) \<or>
   (chosen (decides_workload ls namespace) pas None \<and>
    ((\<exists>pa. chosen (decides_namespace namespace root_ns) pas (Some pa) \<and> declared_mtls_for ls namespace pas root_ns = decided_by ''namespace'' pa) \<or>
     (chosen (decides_namespace namespace root_ns) pas None \<and>
      ((\<exists>pa. chosen (decides_mesh root_ns) pas (Some pa) \<and> declared_mtls_for ls namespace pas root_ns = decided_by ''mesh'' pa) \<or>
       (chosen (decides_mesh root_ns) pas None \<and> declared_mtls_for ls namespace pas root_ns = no_mtls)))))"
proof -
  have c: "chosen (decides_workload ls namespace) pas (least_by_name (decides_workload ls namespace) pas)"
    "chosen (decides_namespace namespace root_ns) pas (least_by_name (decides_namespace namespace root_ns) pas)"
    "chosen (decides_mesh root_ns) pas (least_by_name (decides_mesh root_ns) pas)"
    by (rule chosen_least)+
  have d: "declared_mtls_for ls namespace pas root_ns =
      (case (least_by_name (decides_workload ls namespace) pas, least_by_name (decides_namespace namespace root_ns) pas,
          least_by_name (decides_mesh root_ns) pas) of
        (Some pa, _, _) \<Rightarrow> decided_by ''workload'' pa
      | (None, Some pa, _) \<Rightarrow> decided_by ''namespace'' pa
      | (None, None, Some pa) \<Rightarrow> decided_by ''mesh'' pa
      | (None, None, None) \<Rightarrow> no_mtls)"
    by (simp add: declared_mtls_for_def consider_policy_fold)
  show ?thesis
    using c d by (auto split: option.splits)
qed

section \<open>Workloads and pods\<close>

text \<open>A group, against the pods counted so far.\<close>

definition group_sound :: "string set \<Rightarrow> pod list \<Rightarrow> workload_key \<times> workload \<Rightarrow> bool" where
  "group_sound deployments pods g \<longleftrightarrow> (case g of (k, w) \<Rightarrow>
     (let own = filter (\<lambda>p. workload_key_for deployments p = k) pods; run = filter (\<lambda>p. po_phase p = ''Running'') own
      in k = (wl_namespace w, wl_name w, wl_kind w) \<and> own \<noteq> [] \<and> wl_pods w = length own \<and> wl_running w = length run \<and>
         wl_injected w = list_ex injected_pod run \<and> wl_captured w = list_ex captured_pod run))"

definition groups_sound :: "string set \<Rightarrow> pod list \<Rightarrow> (workload_key \<times> workload) list \<Rightarrow> bool" where
  "groups_sound deployments pods groups \<longleftrightarrow> distinct (map fst groups) \<and>
     set (map fst groups) = workload_key_for deployments ` set pods \<and> list_all (group_sound deployments pods) groups"

lemma new_workload_fields:
  "wl_namespace (new_workload objects nss k p) = fst k" "wl_name (new_workload objects nss k p) = fst (snd k)"
  "wl_kind (new_workload objects nss k p) = snd (snd k)" "wl_pods (new_workload objects nss k p) = 0"
  "wl_running (new_workload objects nss k p) = 0" "\<not> wl_injected (new_workload objects nss k p)"
  "\<not> wl_captured (new_workload objects nss k p)"
  by (simp_all add: new_workload_def Let_def split: prod.split)

lemma count_pod_fields:
  "wl_namespace (count_pod p w) = wl_namespace w" "wl_name (count_pod p w) = wl_name w" "wl_kind (count_pod p w) = wl_kind w"
  "wl_pods (count_pod p w) = Suc (wl_pods w)"
  "wl_running (count_pod p w) = wl_running w + (if po_phase p = ''Running'' then 1 else 0)"
  "wl_injected (count_pod p w) = (wl_injected w \<or> (po_phase p = ''Running'' \<and> injected_pod p))"
  "wl_captured (count_pod p w) = (wl_captured w \<or> (po_phase p = ''Running'' \<and> captured_pod p))"
  by (auto simp: count_pod_def date_from_pod_def Let_def)

lemma add_pod_sound:
  assumes "groups_sound deployments pods groups"
  shows "groups_sound deployments (pods @ [p]) (add_pod objects nss deployments p groups)"
proof -
  let ?k = "workload_key_for deployments p"
  let ?old = "case map_of groups ?k of None \<Rightarrow> new_workload objects nss ?k p | Some w \<Rightarrow> w"
  have d: "distinct (map fst groups)" and keys: "set (map fst groups) = workload_key_for deployments ` set pods"
    and each: "list_all (group_sound deployments pods) groups"
    using assms by (simp_all add: groups_sound_def)
  have new: "add_pod objects nss deployments p groups = AList.update ?k (count_pod p ?old) groups"
    by (simp add: add_pod_def Let_def)
  have mine: "group_sound deployments (pods @ [p]) (?k, count_pod p ?old)"
  proof (cases "map_of groups ?k")
    case None
    then have "?k \<notin> set (map fst groups)" by (simp add: map_of_eq_None_iff)
    then have "filter (\<lambda>q. workload_key_for deployments q = ?k) pods = []"
      unfolding keys by (auto simp: filter_empty_conv image_iff)
    with None show ?thesis
      by (simp add: group_sound_def Let_def count_pod_fields new_workload_fields del: filter_filter)
  next
    case (Some w)
    then have "group_sound deployments pods (?k, w)" using each by (auto simp: list_all_iff dest: map_of_SomeD)
    with Some show ?thesis
      by (auto simp: group_sound_def Let_def count_pod_fields simp del: filter_filter)
  qed
  have others: "group_sound deployments (pods @ [p]) (k, w)" if "(k, w) \<in> set groups" "k \<noteq> ?k" for k w
    using each that by (auto simp: group_sound_def list_all_iff Let_def)
  have sub: "set (AList.update ?k (count_pod p ?old) groups) \<subseteq> insert (?k, count_pod p ?old) {g \<in> set groups. fst g \<noteq> ?k}"
    using d
  proof (induction groups)
    case (Cons g gs)
    then show ?case by (cases g) (auto simp: image_iff)
  qed simp
  have "group_sound deployments (pods @ [p]) g" if "g \<in> set (add_pod objects nss deployments p groups)" for g
  proof (cases "g = (?k, count_pod p ?old)")
    case True
    with mine show ?thesis by simp
  next
    case False
    with sub that have "g \<in> set groups" "fst g \<noteq> ?k" unfolding new by blast+
    then show ?thesis using others [of "fst g" "snd g"] by simp
  qed
  then have "list_all (group_sound deployments (pods @ [p])) (add_pod objects nss deployments p groups)"
    by (simp add: list_all_iff)
  moreover have "set (map fst (add_pod objects nss deployments p groups)) = workload_key_for deployments ` set (pods @ [p])"
    using keys unfolding new by (auto simp: dom_update)
  ultimately show ?thesis
    using d by (simp add: groups_sound_def new distinct_update)
qed

lemma groups_all_pods: "groups_sound deployments pods (fold (add_pod objects nss deployments) pods [])"
proof (induction pods rule: rev_induct)
  case Nil
  then show ?case by (simp add: groups_sound_def)
next
  case (snoc p pods)
  from add_pod_sound [OF this] show ?case by simp
qed


lemma set_map_sorted: "set (map f (sort_key g xs)) = set (map f xs)"
  by simp

definition workload_key_of :: "workload \<Rightarrow> workload_key" where
  "workload_key_of w = (wl_namespace w, wl_name w, wl_kind w)"

lemma finish_workload_fields:
  "workload_key_of (finish_workload objects links root_ns g) = workload_key_of (snd g)"
  "wl_pods (finish_workload objects links root_ns g) = wl_pods (snd g)"
  "wl_running (finish_workload objects links root_ns g) = wl_running (snd g)"
  "wl_injected (finish_workload objects links root_ns g) = wl_injected (snd g)"
  "wl_captured (finish_workload objects links root_ns g) = wl_captured (snd g)"
  "wl_mode (finish_workload objects links root_ns g) = (if wl_captured (snd g) then ''ambient'' else if wl_injected (snd g) then ''sidecar'' else [])"
  "wl_services (finish_workload objects links root_ns g) = services_by_workload links (key_id (fst g))"
  by (simp_all add: finish_workload_def workload_key_of_def split: prod.split)

lemma length_filter_sort_pods: "length (filter P (sort_pods pods)) = length (filter P pods)"
  unfolding sort_pods_def by (metis mset_filter mset_sort size_mset)

lemma set_sort_pods: "set (sort_pods pods) = set pods"
  by (simp add: sort_pods_def)

lemma workload_groups:
  obtains groups where "groups_sound (deployment_set objects) (sort_pods pods) groups"
    "workloads_from pods nss objects root_ns =
       sort_key (\<lambda>w. (wl_namespace w, wl_name w)) (map (finish_workload objects (resolve_services objects pods (deployment_set objects)) root_ns) groups)"
  using groups_all_pods [of "deployment_set objects" "sort_pods pods" objects nss] by (simp add: workloads_from_def Let_def)

lemma workload_from_group:
  assumes "w \<in> set (workloads_from pods nss objects root_ns)"
  obtains k w0 where "group_sound (deployment_set objects) (sort_pods pods) (k, w0)" "workload_key_of w0 = k"
    "w = finish_workload objects (resolve_services objects pods (deployment_set objects)) root_ns (k, w0)"
proof -
  obtain groups where g: "groups_sound (deployment_set objects) (sort_pods pods) groups"
    "workloads_from pods nss objects root_ns =
       sort_key (\<lambda>w. (wl_namespace w, wl_name w)) (map (finish_workload objects (resolve_services objects pods (deployment_set objects)) root_ns) groups)"
    by (rule workload_groups)
  with assms obtain k w0 where "(k, w0) \<in> set groups" "w = finish_workload objects (resolve_services objects pods (deployment_set objects)) root_ns (k, w0)"
    by auto
  moreover from this g(1) have "group_sound (deployment_set objects) (sort_pods pods) (k, w0)"
    by (auto simp: groups_sound_def list_all_iff)
  ultimately show thesis by (intro that) (auto simp: group_sound_def workload_key_of_def Let_def)
qed

text \<open>C16. The workloads partition the pods. There is one workload for each owner of a pod and for nothing
  else; it counts its pods and its running pods; it is injected, or captured, exactly when one of its
  running pods is, and its data plane is ambient when captured, sidecar when only injected, and none
  otherwise, whatever its labels say.\<close>

theorem workloads_partition:
  "distinct (map workload_key_of (workloads_from pods nss objects root_ns)) \<and>
   set (map workload_key_of (workloads_from pods nss objects root_ns)) = workload_key_for (deployment_set objects) ` set pods \<and>
   list_all (\<lambda>w.
       wl_pods w = length (filter (\<lambda>p. workload_key_for (deployment_set objects) p = workload_key_of w) pods) \<and>
       wl_running w = length (filter (\<lambda>p. workload_key_for (deployment_set objects) p = workload_key_of w \<and> po_phase p = ''Running'') pods) \<and>
       wl_injected w = list_ex (\<lambda>p. workload_key_for (deployment_set objects) p = workload_key_of w \<and> po_phase p = ''Running'' \<and> injected_pod p) pods \<and>
       wl_captured w = list_ex (\<lambda>p. workload_key_for (deployment_set objects) p = workload_key_of w \<and> po_phase p = ''Running'' \<and> captured_pod p) pods \<and>
       wl_mode w = (if wl_captured w then ''ambient'' else if wl_injected w then ''sidecar'' else []))
     (workloads_from pods nss objects root_ns)"
proof -
  obtain groups where g: "groups_sound (deployment_set objects) (sort_pods pods) groups"
    and w: "workloads_from pods nss objects root_ns =
       sort_key (\<lambda>w. (wl_namespace w, wl_name w)) (map (finish_workload objects (resolve_services objects pods (deployment_set objects)) root_ns) groups)"
    by (rule workload_groups)
  have keys: "map (\<lambda>x. workload_key_of (snd x)) groups = map fst groups"
    using g by (auto simp: groups_sound_def list_all_iff group_sound_def workload_key_of_def Let_def intro!: map_cong)
  then have m: "map workload_key_of (map (finish_workload objects links root_ns) groups) = map fst groups" for links
    by (simp add: comp_def finish_workload_fields)
  have "distinct (map workload_key_of (workloads_from pods nss objects root_ns))"
    using g unfolding w by (simp only: distinct_map_sort_key m groups_sound_def)
  moreover have "set (map workload_key_of (workloads_from pods nss objects root_ns)) = set (map fst groups)"
    unfolding w by (simp only: set_map_sorted m)
  moreover have "set (map fst groups) = workload_key_for (deployment_set objects) ` set pods"
    using g by (simp only: groups_sound_def set_sort_pods)
  moreover have "wl_pods w = length (filter (\<lambda>p. workload_key_for (deployment_set objects) p = workload_key_of w) pods) \<and>
       wl_running w = length (filter (\<lambda>p. workload_key_for (deployment_set objects) p = workload_key_of w \<and> po_phase p = ''Running'') pods) \<and>
       wl_injected w = list_ex (\<lambda>p. workload_key_for (deployment_set objects) p = workload_key_of w \<and> po_phase p = ''Running'' \<and> injected_pod p) pods \<and>
       wl_captured w = list_ex (\<lambda>p. workload_key_for (deployment_set objects) p = workload_key_of w \<and> po_phase p = ''Running'' \<and> captured_pod p) pods \<and>
       wl_mode w = (if wl_captured w then ''ambient'' else if wl_injected w then ''sidecar'' else [])"
    if "w \<in> set (workloads_from pods nss objects root_ns)" for w
  proof (rule workload_from_group [OF that])
    fix k w0
    assume "group_sound (deployment_set objects) (sort_pods pods) (k, w0)" "workload_key_of w0 = k"
      "w = finish_workload objects (resolve_services objects pods (deployment_set objects)) root_ns (k, w0)"
    then show ?thesis
      by (auto simp: finish_workload_fields group_sound_def Let_def length_filter_sort_pods list_ex_iff set_sort_pods)
  qed
  ultimately show ?thesis by (simp add: list_all_iff)
qed

section \<open>Services and workloads\<close>

lemma links_iff:
  "(svc, wk) \<in> set (resolve_services objects pods deployments) \<longleftrightarrow>
     (\<exists>o1\<in>set objects. \<exists>p\<in>set pods. ob_kind o1 = ''Service'' \<and> obj_key (ob_namespace o1) (ob_name o1) = svc \<and>
        po_namespace p = ob_namespace o1 \<and> labels_match (nested_string_map (ob_spec o1) [''selector'']) (po_labels p) \<and>
        key_id (workload_key_for deployments p) = wk)"
  by (auto simp: resolve_services_def Let_def labels_match_def)

lemma service_workloads:
  assumes "s \<in> set (services_from objects pods nss)"
  shows "ms_workloads s = workloads_by_service (resolve_services objects pods (deployment_set objects)) (obj_key (ms_namespace s) (ms_name s))"
  using assms by (auto simp: services_from_def Let_def service_row_def split: prod.splits)

text \<open>A Service lists a workload exactly when the workload lists the Service, and both do exactly when
  the selector of a Service of this name matches the labels of a pod of this workload in its
  namespace.\<close>

theorem links_agree:
  assumes s: "s \<in> set (services_from objects pods nss)" and w: "w \<in> set (workloads_from pods nss objects root_ns)"
  shows "(obj_key (wl_namespace w) (wl_name w) \<in> set (ms_workloads s) \<longleftrightarrow> obj_key (ms_namespace s) (ms_name s) \<in> set (wl_services w)) \<and>
    (obj_key (wl_namespace w) (wl_name w) \<in> set (ms_workloads s) \<longleftrightarrow>
      (\<exists>o1\<in>set objects. \<exists>p\<in>set pods. ob_kind o1 = ''Service'' \<and> own_key o1 = obj_key (ms_namespace s) (ms_name s) \<and>
        po_namespace p = ob_namespace o1 \<and> labels_match (nested_string_map (ob_spec o1) [''selector'']) (po_labels p) \<and>
        key_id (workload_key_for (deployment_set objects) p) = obj_key (wl_namespace w) (wl_name w)))"
proof (rule workload_from_group [OF w])
  fix k w0
  assume "workload_key_of w0 = k" "w = finish_workload objects (resolve_services objects pods (deployment_set objects)) root_ns (k, w0)"
  then have "wl_services w = services_by_workload (resolve_services objects pods (deployment_set objects)) (obj_key (wl_namespace w) (wl_name w))"
    using finish_workload_fields(1) [of objects _ root_ns "(k, w0)"]
    by (auto simp: finish_workload_fields key_id_def workload_key_of_def)
  then show ?thesis
    unfolding service_workloads [OF s] own_key_def
    by (auto simp: workloads_by_service_def services_by_workload_def image_iff links_iff)
qed


section \<open>The view of a project\<close>

text \<open>C30. A narrowed snapshot shows a project the rows of its own namespaces and nothing else: every namespace,
  object, pod, workload and Service in it lies in a kept namespace, an object of no namespace is not
  shown, and each kind reports the count of what is shown of it. Rows of kept namespaces are all
  there, in order; the facts that are not rows are untouched. Narrowing twice is narrowing to
  the namespaces of both.\<close>

theorem narrow_confined:
  assumes "sn_state s = StateOK"
  shows "mn_name ` set (sn_namespaces (narrow keep s)) \<subseteq> keep \<and> ob_namespace ` set (sn_objects (narrow keep s)) \<subseteq> keep - {[]} \<and>
      po_namespace ` set (sn_pods (narrow keep s)) \<subseteq> keep \<and> wl_namespace ` set (sn_workloads (narrow keep s)) \<subseteq> keep \<and>
      ms_namespace ` set (sn_services (narrow keep s)) \<subseteq> keep \<and>
      sn_pods (narrow keep s) = filter (\<lambda>p. po_namespace p \<in> keep) (sn_pods s) \<and>
      sn_workloads (narrow keep s) = filter (\<lambda>w. wl_namespace w \<in> keep) (sn_workloads s) \<and>
      map ks_count (sn_kinds (narrow keep s)) = map (\<lambda>k.
        if ks_kind k = ''Namespace'' then length (sn_namespaces (narrow keep s))
        else if ks_kind k = ''Pod'' then length (sn_pods (narrow keep s))
        else length (filter (\<lambda>o1. ob_kind o1 = ks_kind k) (sn_objects (narrow keep s)))) (sn_kinds s) \<and>
      (sn_state (narrow keep s), sn_reason (narrow keep s), sn_missing (narrow keep s), sn_truncated (narrow keep s), sn_skipped (narrow keep s)) =
        (sn_state s, sn_reason s, sn_missing s, sn_truncated s, sn_skipped s) \<and>
      narrow keep' (narrow keep s) = narrow (keep \<inter> keep') s"
proof -
  have twice: "narrow keep' (narrow keep s) = narrow (keep \<inter> keep') s"
    using assms by (simp add: narrow_def Let_def recount_kinds_def conj_ac)
  have rows: "sn_namespaces (narrow keep s) = filter (\<lambda>ns. mn_name ns \<in> keep) (sn_namespaces s)"
    "sn_objects (narrow keep s) = filter (\<lambda>o1. ob_namespace o1 \<noteq> [] \<and> ob_namespace o1 \<in> keep) (sn_objects s)"
    "sn_pods (narrow keep s) = filter (\<lambda>p. po_namespace p \<in> keep) (sn_pods s)"
    "sn_workloads (narrow keep s) = filter (\<lambda>w. wl_namespace w \<in> keep) (sn_workloads s)"
    "sn_services (narrow keep s) = filter (\<lambda>v. ms_namespace v \<in> keep) (sn_services s)"
    using assms by (simp_all add: narrow_def Let_def)
  have counts: "map ks_count (sn_kinds (narrow keep s)) = map (\<lambda>k.
        if ks_kind k = ''Namespace'' then length (sn_namespaces (narrow keep s))
        else if ks_kind k = ''Pod'' then length (sn_pods (narrow keep s))
        else length (filter (\<lambda>o1. ob_kind o1 = ks_kind k) (sn_objects (narrow keep s)))) (sn_kinds s)"
    using assms by (simp add: narrow_def Let_def recount_kinds_def comp_def)
  have rest: "(sn_state (narrow keep s), sn_reason (narrow keep s), sn_missing (narrow keep s), sn_truncated (narrow keep s), sn_skipped (narrow keep s)) =
        (sn_state s, sn_reason s, sn_missing s, sn_truncated s, sn_skipped s)"
    using assms by (simp add: narrow_def Let_def)
  show ?thesis unfolding counts rest twice rows by auto
qed

section \<open>Checks without pods\<close>

definition fresh_findings :: "mesh_snapshot \<Rightarrow> bool" where
  "fresh_findings s \<longleftrightarrow> list_all (\<lambda>o1. ob_findings o1 = []) (sn_objects s) \<and> list_all (\<lambda>ns. mn_findings ns = []) (sn_namespaces s) \<and>
     list_all (\<lambda>w. wl_findings w = []) (sn_workloads s) \<and> list_all (\<lambda>v. ms_findings v = []) (sn_services s)"

definition all_findings :: "mesh_snapshot \<Rightarrow> finding list" where
  "all_findings s = concat (map ob_findings (sn_objects s)) @ concat (map mn_findings (sn_namespaces s)) @
     concat (map wl_findings (sn_workloads s)) @ concat (map ms_findings (sn_services s))"

definition claims_absence :: "finding \<Rightarrow> bool" where
  "claims_absence f \<longleftrightarrow> fd_code f \<in> {AmbientNotEnrolled, DataplaneConflict, GatewayNoWorkload, PrincipalUnknown} \<or>
     (fd_code f = PolicyNoMatch \<and> fd_ref_kind f \<noteq> ''Gateway'' \<and> fd_ref_kind f \<noteq> ''Service'')"

lemma subset_walk_codes: "f \<in> set (subset_walk ix ns seen ds) \<Longrightarrow> fd_code f = SubsetMissing"
  by (induction ix ns seen ds rule: subset_walk.induct) (auto simp: Let_def found_problem_def split: if_splits)

lemma check_host_codes: "f \<in> set (check_host h ns ix) \<Longrightarrow> fd_code f = HostUnresolved"
  by (auto simp: check_host_def Let_def found_problem_def split: if_splits option.splits prod.splits)

lemma check_mtls_codes: "f \<in> set (check_mtls o1 h ix) \<Longrightarrow> fd_code f = MtlsConflict"
  by (auto simp: check_mtls_def Let_def mtls_conflict_def found_problem_def split: if_splits option.splits prod.splits)

lemma listener_codes: "f \<in> set (listener_conflicts ls) \<Longrightarrow> fd_code f = ListenerConflict"
  by (induction ls) (auto simp: listener_pair_def Let_def found_problem_def split: if_splits)

lemma object_silent:
  assumes "\<not> ix_usable ix" "f \<in> set (object_findings ix o1)"
  shows "\<not> claims_absence f"
proof -
  have "f \<in> set (check_route o1 ix) \<or> f \<in> set (check_gateway o1 ix) \<or> f \<in> set (check_listeners o1) \<or>
      f \<in> set (check_destination_rule o1 ix) \<or> f \<in> set (check_virtual_service o1 ix) \<or>
      f \<in> set (check_policy_match o1 ix) \<or> f \<in> set (check_l7_without_waypoint o1 ix)"
    using assms by (auto simp: object_findings_def check_gateway_workload_def check_principals_def split: if_splits)
  moreover have "\<not> claims_absence f" if "f \<in> set (check_route o1 ix)"
    using that by (auto simp: check_route_def claims_absence_def found_problem_def)
  moreover have "\<not> claims_absence f" if "f \<in> set (check_gateway o1 ix)"
    using that by (auto simp: check_gateway_def claims_absence_def found_problem_def split: if_splits)
  moreover have "\<not> claims_absence f" if "f \<in> set (check_listeners o1)"
    using listener_codes [of f] that by (auto simp: check_listeners_def claims_absence_def)
  moreover have "\<not> claims_absence f" if "f \<in> set (check_destination_rule o1 ix)"
    using that unfolding check_destination_rule_def Let_def set_append Un_iff
    by (auto simp: host_conflict_def found_problem_def claims_absence_def dest: check_host_codes check_mtls_codes)
  moreover have "\<not> claims_absence f" if "f \<in> set (check_virtual_service o1 ix)"
    using that unfolding check_virtual_service_def check_subsets_def Let_def set_append Un_iff
    by (auto simp: host_conflict_def claims_absence_def found_problem_def dest: check_host_codes subset_walk_codes split: if_splits)
  moreover have "\<not> claims_absence f" if "f \<in> set (check_policy_match o1 ix)"
    using that assms(1) by (auto simp: check_policy_match_def Let_def claims_absence_def found_problem_def)
  moreover have "\<not> claims_absence f" if "f \<in> set (check_l7_without_waypoint o1 ix)"
    using that by (auto simp: check_l7_without_waypoint_def claims_absence_def found_problem_def split: if_splits)
  ultimately show ?thesis by blast
qed

lemma waypoint_silent: "f \<in> set (check_waypoint_binding w wns ix) \<Longrightarrow> \<not> claims_absence f"
  by (auto simp: check_waypoint_binding_def Let_def claims_absence_def found_problem_def split: if_splits)

lemma workload_silent:
  assumes "\<not> ix_usable ix" "f \<in> set (workload_findings ix w)"
  shows "\<not> claims_absence f"
  using assms waypoint_silent [of f]
  by (auto simp: workload_findings_def check_ambient_enrolment_def check_dataplane_conflict_def split: if_splits)

lemma attach_routes_findings: "wl_findings w = []" if "list_all (\<lambda>w. wl_findings w = []) (sn_workloads s)" "w \<in> set (attach_routes s ix)"
  using that by (auto simp: attach_routes_def Let_def list_all_length split: if_splits)

lemma new_index_usable: "ix_usable (new_index s) = fst (pods_usable s)"
  by (simp add: new_index_def Let_def)

lemma if_member: "f \<in> set (if b then xs else []) \<Longrightarrow> (f \<in> set xs \<Longrightarrow> P) \<Longrightarrow> P"
  by (auto split: if_splits)

lemma validated_findings:
  assumes "fresh_findings s"
  shows "map ob_findings (sn_objects (validate_mesh s)) = map (object_findings (new_index s)) (sn_objects s)"
    and "map mn_findings (sn_namespaces (validate_mesh s)) =
      map (\<lambda>ns. check_waypoint_binding (mn_waypoint ns) (mn_waypoint_ns ns) (new_index s)) (sn_namespaces s)"
    and "map wl_findings (sn_workloads (validate_mesh s)) = map (workload_findings (new_index s)) (attach_routes s (new_index s))"
    and "map ms_findings (sn_services (validate_mesh s)) = map (\<lambda>v.
      if ms_waypoint_source v = ''service'' then check_waypoint_binding (ms_waypoint v) (ms_waypoint_ns v) (new_index s) else []) (sn_services s)"
proof -
  have o1: "ob_findings x = []" if "x \<in> set (sn_objects s)" for x using assms that by (simp add: fresh_findings_def list_all_iff)
  have n1: "mn_findings x = []" if "x \<in> set (sn_namespaces s)" for x using assms that by (simp add: fresh_findings_def list_all_iff)
  have w1: "wl_findings x = []" if "x \<in> set (attach_routes s (new_index s))" for x
    using assms by (intro attach_routes_findings [OF _ that]) (simp add: fresh_findings_def)
  have v1: "ms_findings x = []" if "x \<in> set (sn_services s)" for x using assms that by (simp add: fresh_findings_def list_all_iff)
  show "map ob_findings (sn_objects (validate_mesh s)) = map (object_findings (new_index s)) (sn_objects s)"
    by (simp add: validate_mesh_def Let_def o1)
  show "map mn_findings (sn_namespaces (validate_mesh s)) =
      map (\<lambda>ns. check_waypoint_binding (mn_waypoint ns) (mn_waypoint_ns ns) (new_index s)) (sn_namespaces s)"
    by (simp add: validate_mesh_def Let_def n1)
  show "map wl_findings (sn_workloads (validate_mesh s)) = map (workload_findings (new_index s)) (attach_routes s (new_index s))"
    by (simp add: validate_mesh_def Let_def w1)
  show "map ms_findings (sn_services (validate_mesh s)) = map (\<lambda>v.
      if ms_waypoint_source v = ''service'' then check_waypoint_binding (ms_waypoint v) (ms_waypoint_ns v) (new_index s) else []) (sn_services s)"
    by (simp add: validate_mesh_def Let_def v1)
qed

lemma finding_source:
  assumes "f \<in> set (all_findings (validate_mesh s))" "fresh_findings s"
  shows "(\<exists>o1. f \<in> set (object_findings (new_index s) o1)) \<or> (\<exists>w. f \<in> set (workload_findings (new_index s) w)) \<or>
      (\<exists>wp wns. f \<in> set (check_waypoint_binding wp wns (new_index s)))"
  using assms(1) unfolding all_findings_def validated_findings [OF assms(2)] set_append set_concat set_map Un_iff UN_iff
  by (blast elim: if_member)

text \<open>C15. Where the pods cannot be read, or the list of them was cut, the checks stay silent that would report as
  absent what is only unseen: no workload is said not to be enrolled or to be of two modes, no
  Gateway to have no workload, no principal to be unknown, and no selector to match nothing; only a
  policy's reference to a missing Gateway or Service is reported. The snapshot then says that these
  checks were skipped, which it says in no other case.\<close>

theorem silent_without_pods:
  assumes "fresh_findings s" and "sn_skipped s = []"
  shows "(sn_skipped (validate_mesh s) \<noteq> [] \<longleftrightarrow> ''Pod'' \<in> set (sn_missing s) \<or> sn_pods_truncated s) \<and>
    (''Pod'' \<in> set (sn_missing s) \<or> sn_pods_truncated s \<longrightarrow> filter claims_absence (all_findings (validate_mesh s)) = [])"
proof -
  have usable: "ix_usable (new_index s) \<longleftrightarrow> \<not> (''Pod'' \<in> set (sn_missing s) \<or> sn_pods_truncated s)"
    by (simp add: new_index_usable pods_usable_def)
  have skipped: "sn_skipped (validate_mesh s) \<noteq> [] \<longleftrightarrow> ''Pod'' \<in> set (sn_missing s) \<or> sn_pods_truncated s"
    using assms(2) usable by (simp add: validate_mesh_def Let_def checks_skipped_def)
  have "filter claims_absence (all_findings (validate_mesh s)) = []" if "\<not> ix_usable (new_index s)"
  proof -
    have "\<not> claims_absence f" if "f \<in> set (all_findings (validate_mesh s))" for f
      using finding_source [OF that assms(1)] object_silent [OF \<open>\<not> ix_usable (new_index s)\<close>]
        workload_silent [OF \<open>\<not> ix_usable (new_index s)\<close>] waypoint_silent by blast
    then show ?thesis by (simp add: filter_empty_conv)
  qed
  with skipped usable show ?thesis by blast
qed


section \<open>The mode of a workload by its name\<close>

abbreviation row_name :: "workload \<Rightarrow> string \<times> string" where
  "row_name w \<equiv> (wl_namespace w, wl_name w)"

lemma sorted_find:
  assumes "sorted (map row_name ws)"
  shows "(case find (\<lambda>w. ns < wl_namespace w \<or> (wl_namespace w = ns \<and> name \<le> wl_name w)) ws of
      Some w \<Rightarrow> if wl_namespace w = ns \<and> wl_name w = name then g w else d | None \<Rightarrow> d) =
    (case find (\<lambda>w. row_name w = (ns, name)) ws of Some w \<Rightarrow> g w | None \<Rightarrow> d)"
  using assms
proof (induction ws)
  case (Cons w ws)
  have later: "find (\<lambda>w. row_name w = (ns, name)) ws = None"
    if "ns < wl_namespace w \<or> (wl_namespace w = ns \<and> name < wl_name w)"
    using Cons.prems that by (fastforce simp: find_None_iff less_eq_prod_def)
  show ?case
  proof (cases "row_name w = (ns, name)")
    case True
    then show ?thesis by simp
  next
    case False
    with Cons later show ?thesis by auto
  qed
qed simp

lemma validate_rows: "map (\<lambda>w. (row_name w, wl_mtls w)) (sn_workloads (validate_mesh s)) = map (\<lambda>w. (row_name w, wl_mtls w)) (sn_workloads s)"
  by (rule nth_equalityI) (simp_all add: validate_mesh_def attach_routes_def Let_def)

lemma built_sorted: "sorted (map row_name (sn_workloads (build_snapshot rd mc)))"
proof -
  have v: "map row_name (sn_workloads (validate_mesh s)) = map row_name (sn_workloads s)" for s
    using arg_cong [OF validate_rows [of s], of "map fst"] by (simp add: comp_def)
  show ?thesis by (simp add: build_snapshot_def unread_snapshot_def Let_def v workloads_from_def)
qed

lemma narrow_sorted: "sorted (map row_name (sn_workloads s)) \<Longrightarrow> sorted (map row_name (sn_workloads (narrow keep s)))"
  by (simp add: narrow_def Let_def sorted_filter)

text \<open>The mode a snapshot gives for a workload by its name, found by binary search, is that of its row of that
  namespace and name, and the namespace's mode when it has no such row: in every snapshot the reader
  builds, and in every view of one that a project gets.\<close>

theorem effective_mode_by_name:
  "effective_mtls (narrow keep (build_snapshot rd mc)) ns name =
     (case find (\<lambda>w. row_name w = (ns, name)) (sn_workloads (narrow keep (build_snapshot rd mc))) of
        Some w \<Rightarrow> wl_mtls w | None \<Rightarrow> namespace_mtls (narrow keep (build_snapshot rd mc)) ns)"
  unfolding effective_mtls_def by (rule sorted_find [OF narrow_sorted [OF built_sorted]])


section \<open>A concrete mesh\<close>

definition sample_object :: "string \<Rightarrow> string \<Rightarrow> spec \<Rightarrow> kobject" where
  "sample_object kind name sp = \<lparr>ob_kind = kind, ob_namespace = ''shop'', ob_name = name, ob_labels = [], ob_created = 0,
     ob_annotations = [], ob_cut = False, ob_spec = sp, ob_findings = []\<rparr>"

definition sample_objects :: "kobject list" where
  "sample_objects = [sample_object ''Service'' ''web'' [(''selector'', VMap [(''app'', VStr ''web'')])],
     sample_object ''Gateway'' ''front'' []]"

definition sample_pods :: "pod list" where
  "sample_pods = [\<lparr>po_namespace = ''shop'', po_name = ''web-1'', po_labels = [(''app'', ''web'')], po_annotations = [],
     po_owner_kind = ''StatefulSet'', po_owner_name = ''web'', po_account = [], po_node = ''n1'', po_host_network = False,
     po_containers = [''app''], po_init = [], po_phase = ''Running'', po_created = 0\<rparr>]"

definition sample_mesh :: "string list \<Rightarrow> mesh_snapshot" where
  "sample_mesh missing = \<lparr>sn_state = StateOK, sn_reason = [], sn_synced = 0, sn_missing = missing, sn_missing_reasons = [],
     sn_truncated = False, sn_pods_truncated = False, sn_kinds = [], sn_skipped = [], sn_namespaces = [], sn_objects = sample_objects,
     sn_pods = sample_pods, sn_workloads = workloads_from sample_pods [] sample_objects ''istio-system'',
     sn_services = services_from sample_objects sample_pods []\<rparr>"

lemma sample_service:
  "map (\<lambda>v. (ms_namespace v, ms_name v, ms_workloads v)) (services_from sample_objects sample_pods []) = [(''shop'', ''web'', [''shop/web''])]"
  by code_simp

lemma sample_workload:
  "map (\<lambda>w. (wl_namespace w, wl_name w, wl_services w)) (workloads_from sample_pods [] sample_objects ''istio-system'') = [(''shop'', ''web'', [''shop/web''])]"
  by code_simp

lemma map_singleton: "map f xs = [y] \<Longrightarrow> hd xs \<in> set xs \<and> f (hd xs) = y"
  by (cases xs) auto

theorem links_agree_witness:
  "obj_key ''shop'' ''web'' \<in> set (ms_workloads (hd (services_from sample_objects sample_pods []))) \<and>
   (\<exists>o1\<in>set sample_objects. \<exists>p\<in>set sample_pods. ob_kind o1 = ''Service'' \<and> own_key o1 = obj_key ''shop'' ''web'' \<and>
        po_namespace p = ob_namespace o1 \<and> labels_match (nested_string_map (ob_spec o1) [''selector'']) (po_labels p) \<and>
        key_id (workload_key_for (deployment_set sample_objects) p) = obj_key ''shop'' ''web'')"
proof -
  let ?s = "hd (services_from sample_objects sample_pods [])" and ?w = "hd (workloads_from sample_pods [] sample_objects ''istio-system'')"
  have s: "?s \<in> set (services_from sample_objects sample_pods [])" "ms_namespace ?s = ''shop''" "ms_name ?s = ''web''" "ms_workloads ?s = [''shop/web'']"
    using map_singleton [OF sample_service] by auto
  have w: "?w \<in> set (workloads_from sample_pods [] sample_objects ''istio-system'')" "wl_namespace ?w = ''shop''" "wl_name ?w = ''web''"
    using map_singleton [OF sample_workload] by auto
  have "obj_key ''shop'' ''web'' \<in> set (ms_workloads ?s)" by (simp add: s(4) obj_key_def)
  with conjunct2 [OF links_agree [OF s(1) w(1), unfolded s(2,3) w(2,3)]] show ?thesis by blast
qed

theorem narrow_confined_witness:
  "wl_namespace ` set (sn_workloads (narrow {''shop''} (sample_mesh []))) \<subseteq> {''shop''} \<and>
   narrow {''bank''} (narrow {''shop''} (sample_mesh [])) = narrow {} (sample_mesh [])"
proof -
  have "sn_state (sample_mesh []) = StateOK" by (simp add: sample_mesh_def)
  note n = narrow_confined [OF this, of "{''shop''}" "{''bank''}"]
  have "wl_namespace ` set (sn_workloads (narrow {''shop''} (sample_mesh []))) \<subseteq> {''shop''}" using n by blast
  moreover have "narrow {''bank''} (narrow {''shop''} (sample_mesh [])) = narrow ({''shop''} \<inter> {''bank''}) (sample_mesh [])" using n by blast
  moreover have "{''shop''} \<inter> {''bank''} = ({} :: string set)" by simp
  ultimately show ?thesis by metis
qed

theorem silent_without_pods_witness:
  "sn_skipped (validate_mesh (sample_mesh [''Pod''])) \<noteq> [] \<and> filter claims_absence (all_findings (validate_mesh (sample_mesh [''Pod'']))) = [] \<and>
   map fd_code (filter claims_absence (all_findings (validate_mesh (sample_mesh [])))) = [GatewayNoWorkload]"
proof -
  have "fresh_findings (sample_mesh [''Pod''])" "sn_skipped (sample_mesh [''Pod'']) = []" "sn_missing (sample_mesh [''Pod'']) = [''Pod'']"
    by code_simp+
  from silent_without_pods [OF this(1,2)] this(3)
  have "sn_skipped (validate_mesh (sample_mesh [''Pod''])) \<noteq> [] \<and> filter claims_absence (all_findings (validate_mesh (sample_mesh [''Pod'']))) = []"
    by simp
  moreover have "map fd_code (filter claims_absence (all_findings (validate_mesh (sample_mesh [])))) = [GatewayNoWorkload]"
    by code_simp
  ultimately show ?thesis by simp
qed

end
