(* ===== verification/Pricing.thy ===== *)
theory Pricing
  imports GoFloat GoStd
begin

text \<open>
  What an operator declares about AI spend: model prices, their lookup and the cost of tokens, and
  monthly budgets (hub/internal/ai/config.go). The JSON decoder is a parameter. Token counts are
  \<open>uint64\<close>, so below \<open>2 ^ 64\<close>; the cost is rounded after every operation.
\<close>

record price =
  pc_model :: string
  pc_input :: float64
  pc_output :: float64

record ai_budget =
  ab_name :: string
  ab_scope :: string
  ab_tokens :: int
  ab_cost :: float64
  ab_warn :: float64
  ab_channel :: string

record ai_config =
  ai_currency :: string
  ai_prices :: "price list"
  ai_budgets :: "ai_budget list"
  ai_check_sec :: int

definition default_warn_ratio :: float64 where "default_warn_ratio = fl (8 / 10)"

definition default_budget_check_sec :: int where "default_budget_check_sec = 300"

definition is_cost :: "ai_budget \<Rightarrow> bool" where
  "is_cost b \<longleftrightarrow> 0 < ab_cost b"

definition float_of_int :: "int \<Rightarrow> float64" where
  "float_of_int n = fl (of_int n)"

definition ai_limit :: "ai_budget \<Rightarrow> float64" where
  "ai_limit b = (if is_cost b then ab_cost b else float_of_int (ab_tokens b))"

definition ai_check_interval :: "ai_config \<Rightarrow> duration" where
  "ai_check_interval c = wrap64 ((if 0 < ai_check_sec c then ai_check_sec c else default_budget_check_sec) * second)"

definition default_ai :: ai_config where
  "default_ai = \<lparr>ai_currency = [], ai_prices = [], ai_budgets = [], ai_check_sec = 0\<rparr>"

datatype price_error = ModelRequired nat | DuplicateModel nat string | NegativePrice string | NoPrice string

datatype ai_error = AiJson | AiPrice price_error | BudgetNameRequired nat | DuplicateBudget nat string | NegativeLimit string
  | BothLimits string | NoLimit string | WarnRange string | CostUnpriced string

text \<open>The same loop validates the prices of both tables.\<close>

fun validate_prices :: "nat \<Rightarrow> string list \<Rightarrow> price list \<Rightarrow> price_error option" where
  "validate_prices i seen [] = None"
| "validate_prices i seen (p # ps) =
     (let model = trim_space (pc_model p)
      in if model = [] then Some (ModelRequired i)
         else if model \<in> set seen then Some (DuplicateModel i model)
         else if pc_input p < 0 \<or> pc_output p < 0 then Some (NegativePrice model)
         else if pc_input p = 0 \<and> pc_output p = 0 then Some (NoPrice model)
         else validate_prices (Suc i) (model # seen) ps)"

fun validate_ai_budgets :: "bool \<Rightarrow> nat \<Rightarrow> string list \<Rightarrow> ai_budget list \<Rightarrow> ai_error option" where
  "validate_ai_budgets is_priced i seen [] = None"
| "validate_ai_budgets is_priced i seen (b # bs) =
     (let name = trim_space (ab_name b)
      in if name = [] then Some (BudgetNameRequired i)
         else if name \<in> set seen then Some (DuplicateBudget i name)
         else if ab_tokens b < 0 \<or> ab_cost b < 0 then Some (NegativeLimit name)
         else if 0 < ab_tokens b \<and> 0 < ab_cost b then Some (BothLimits name)
         else if ab_tokens b = 0 \<and> ab_cost b = 0 then Some (NoLimit name)
         else if ab_warn b < 0 \<or> 1 \<le> ab_warn b then Some (WarnRange name)
         else if is_cost b \<and> \<not> is_priced then Some (CostUnpriced name)
         else validate_ai_budgets is_priced (Suc i) (name # seen) bs)"

definition ai_priced :: "ai_config \<Rightarrow> bool" where
  "ai_priced c \<longleftrightarrow> 0 < length (ai_prices c)"

definition validate_ai :: "ai_config \<Rightarrow> ai_error option" where
  "validate_ai c =
     (case validate_prices 0 [] (ai_prices c) of
        Some e \<Rightarrow> Some (AiPrice e)
      | None \<Rightarrow> validate_ai_budgets (ai_priced c) 0 [] (ai_budgets c))"

definition parse_ai_config :: "(string \<Rightarrow> ai_config option) \<Rightarrow> string \<Rightarrow> ai_error + ai_config" where
  "parse_ai_config json text1 =
     (if trim_space text1 = [] then Inr default_ai
      else case json text1 of
        None \<Rightarrow> Inl AiJson
      | Some c \<Rightarrow> (case validate_ai c of Some e \<Rightarrow> Inl e | None \<Rightarrow> Inr c))"

section \<open>Lookup\<close>

text \<open>The best prefix so far, and the entries still to look at.\<close>

fun lookup_loop :: "string \<Rightarrow> price option \<Rightarrow> price list \<Rightarrow> (price \<times> bool) option" where
  "lookup_loop model best [] = map_option (\<lambda>p. (p, True)) best"
| "lookup_loop model best (c # cs) =
     (if pc_model c = model then Some (c, False)
      else if has_prefix (pc_model c) model \<and> (case best of None \<Rightarrow> True | Some b \<Rightarrow> length (pc_model b) < length (pc_model c))
        then lookup_loop model (Some c) cs
      else lookup_loop model best cs)"

definition ai_lookup :: "ai_config \<Rightarrow> string \<Rightarrow> (price \<times> bool) option" where
  "ai_lookup c model = (if model = [] then None else lookup_loop model None (ai_prices c))"

definition price_cost :: "price \<Rightarrow> nat \<Rightarrow> nat \<Rightarrow> float64" where
  "price_cost p input output =
     fadd (fmul (fdiv (float_of_nat input) 1000000) (pc_input p)) (fmul (fdiv (float_of_nat output) 1000000) (pc_output p))"

section \<open>What a lookup finds\<close>

text \<open>The declared names a model's id starts with.\<close>

definition prefixes_of :: "string \<Rightarrow> price list \<Rightarrow> price list" where
  "prefixes_of model ps = filter (\<lambda>p. has_prefix (pc_model p) model) ps"

lemma lookup_exact:
  assumes "distinct (map pc_model ps)" "p \<in> set ps" "pc_model p = model"
  shows "lookup_loop model best ps = Some (p, False)"
  using assms
proof (induction ps arbitrary: best)
  case (Cons c cs)
  then show ?case by (cases "c = p") (auto simp: image_iff)
qed simp

text \<open>A prefix found among the entries is the longest of them and of the best given.\<close>

lemma lookup_prefix:
  assumes "model \<notin> pc_model ` set ps"
  shows "case lookup_loop model best ps of
      None \<Rightarrow> best = None \<and> prefixes_of model ps = []
    | Some (q, by_prefix) \<Rightarrow> by_prefix \<and> (best = Some q \<or> q \<in> set (prefixes_of model ps)) \<and>
        (\<forall>b. best = Some b \<longrightarrow> length (pc_model b) \<le> length (pc_model q)) \<and>
        (\<forall>p\<in>set (prefixes_of model ps). length (pc_model p) \<le> length (pc_model q))"
  using assms
proof (induction ps arbitrary: best)
  case Nil
  then show ?case by (cases best) (simp_all add: prefixes_of_def)
next
  case (Cons c cs)
  then have "pc_model c \<noteq> model" "model \<notin> pc_model ` set cs" by auto
  with Cons.IH [of best] Cons.IH [of "Some c"] show ?case
    by (cases best) (auto simp: prefixes_of_def filter_empty_conv split: option.splits)
qed

lemma lookup_prefix_none:
  assumes "model \<notin> pc_model ` set ps" "lookup_loop model None ps = None"
  shows "prefixes_of model ps = []"
  using lookup_prefix [OF assms(1), of None] assms(2) by simp

lemma lookup_prefix_some:
  assumes "model \<notin> pc_model ` set ps" "lookup_loop model None ps = Some (q, b)"
  shows "b" "q \<in> set (prefixes_of model ps)" "p \<in> set (prefixes_of model ps) \<Longrightarrow> length (pc_model p) \<le> length (pc_model q)"
  using lookup_prefix [OF assms(1), of None] assms(2) by auto

lemma prefixes_same_length:
  assumes "has_prefix a s" "has_prefix b s" "length a = length b"
  shows "a = b"
  using assms by (metis has_prefix_def)

lemma validated_prices:
  assumes "validate_prices i seen ps = None"
  shows "distinct (map (\<lambda>p. trim_space (pc_model p)) ps) \<and> (\<forall>p\<in>set ps. trim_space (pc_model p) \<notin> set seen \<and>
    trim_space (pc_model p) \<noteq> [] \<and> 0 \<le> pc_input p \<and> 0 \<le> pc_output p \<and> (0 < pc_input p \<or> 0 < pc_output p))"
  using assms by (induction i seen ps rule: validate_prices.induct) (auto simp: Let_def split: if_splits)

lemma trim_empty [simp]: "trim_space [] = []"
  by (simp add: trimmed_def)

lemma valid_price_names:
  assumes "validate_prices 0 [] ps = None"
  shows "distinct (map pc_model ps)" "[] \<notin> pc_model ` set ps"
proof -
  have "distinct (map trim_space (map pc_model ps))" using validated_prices [OF assms] by (simp add: comp_def)
  then show "distinct (map pc_model ps)" by (simp only: distinct_map [of trim_space])
  show "[] \<notin> pc_model ` set ps"
  proof
    assume "[] \<in> pc_model ` set ps"
    then obtain p where "p \<in> set ps" "pc_model p = []" by auto
    with validated_prices [OF assms] show False by auto
  qed
qed

end
