(* ===== verification/Rates.thy ===== *)
theory Rates
  imports Pricing Memo Access
begin

text \<open>
  The one rate table: chart-declared and stored rates, their merge and lookup
  (hub/internal/rates), the resolver with its memo of the stored overlay, its two queries
  (hub/internal/storage/clickhouse/rates.go) and the handlers (hub/internal/api/rates.go). The JSON
  encoder and decoder are parameters. A handler's queries may fail: what they answer is an
  argument.
\<close>

section \<open>Tables\<close>

record compute_rates =
  cr_cpu :: float64
  cr_mem :: float64

definition no_compute :: compute_rates where "no_compute = \<lparr>cr_cpu = 0, cr_mem = 0\<rparr>"

record rate_table =
  rt_currency :: string
  rt_compute :: compute_rates
  rt_models :: "price list"

definition empty_table :: rate_table where
  "empty_table = \<lparr>rt_currency = [], rt_compute = no_compute, rt_models = []\<rparr>"

definition declares_nothing :: "rate_table \<Rightarrow> bool" where
  "declares_nothing t \<longleftrightarrow> rt_currency t = [] \<and> rt_compute t = no_compute \<and> length (rt_models t) = 0"

datatype rates_error = NegativeCompute | BadPrice price_error | OverlayJson

definition validate_table :: "rate_table \<Rightarrow> rates_error option" where
  "validate_table t =
     (if cr_cpu (rt_compute t) < 0 \<or> cr_mem (rt_compute t) < 0 then Some NegativeCompute
      else map_option BadPrice (validate_prices 0 [] (rt_models t)))"

definition parse_overlay :: "(string \<Rightarrow> rate_table option) \<Rightarrow> string \<Rightarrow> rates_error + rate_table" where
  "parse_overlay json data =
     (if trim_space data = [] then Inr empty_table
      else case json data of
        None \<Rightarrow> Inl OverlayJson
      | Some t \<Rightarrow> (case validate_table t of Some e \<Rightarrow> Inl e | None \<Rightarrow> Inr t))"

datatype provenance = FromChart | FromOverlay

record priced_model =
  pp_price :: price
  pp_source :: provenance

record resolved_rates =
  rs_currency :: string
  rs_currency_source :: provenance
  rs_compute :: compute_rates
  rs_compute_source :: provenance
  rs_models :: "priced_model list"

type_synonym merging = "(string \<rightharpoonup> nat) \<times> priced_model list"

definition add_declared :: "price \<Rightarrow> merging \<Rightarrow> merging" where
  "add_declared m st = (case st of (by_model, out) \<Rightarrow>
     (by_model(pc_model m \<mapsto> length out), out @ [\<lparr>pp_price = m, pp_source = FromChart\<rparr>]))"

definition add_overlaid :: "price \<Rightarrow> merging \<Rightarrow> merging" where
  "add_overlaid m st = (case st of (by_model, out) \<Rightarrow>
     let row = \<lparr>pp_price = m, pp_source = FromOverlay\<rparr>
     in case by_model (pc_model m) of
          Some i \<Rightarrow> (by_model, out[i := row])
        | None \<Rightarrow> (by_model(pc_model m \<mapsto> length out), out @ [row]))"

definition merge_rates :: "rate_table \<Rightarrow> rate_table \<Rightarrow> resolved_rates" where
  "merge_rates chart overlay =
     \<lparr>rs_currency = (if rt_currency overlay \<noteq> [] then rt_currency overlay else rt_currency chart),
      rs_currency_source = (if rt_currency overlay \<noteq> [] then FromOverlay else FromChart),
      rs_compute = (if rt_compute overlay \<noteq> no_compute then rt_compute overlay else rt_compute chart),
      rs_compute_source = (if rt_compute overlay \<noteq> no_compute then FromOverlay else FromChart),
      rs_models = snd (fold add_overlaid (rt_models overlay) (fold add_declared (rt_models chart) (Map.empty, [])))\<rparr>"

definition rates_lookup :: "resolved_rates \<Rightarrow> string \<Rightarrow> (price \<times> bool) option" where
  "rates_lookup r model = (if model = [] then None else lookup_loop model None (map pp_price (rs_models r)))"

definition rates_priced :: "resolved_rates \<Rightarrow> bool" where
  "rates_priced r \<longleftrightarrow> 0 < length (rs_models r)"

definition compute_priced :: "resolved_rates \<Rightarrow> bool" where
  "compute_priced r \<longleftrightarrow> 0 < cr_cpu (rs_compute r) \<and> 0 < cr_mem (rs_compute r)"

text \<open>The table of the two configurations that came before, and whether their currencies disagree.\<close>

definition from_legacy :: "ai_config \<Rightarrow> float64 \<Rightarrow> float64 \<Rightarrow> string \<Rightarrow> rate_table \<times> bool" where
  "from_legacy cfg cpu mem cost_currency =
     (\<lparr>rt_currency = (if ai_currency cfg \<noteq> [] then ai_currency cfg else cost_currency),
       rt_compute = \<lparr>cr_cpu = cpu, cr_mem = mem\<rparr>, rt_models = ai_prices cfg\<rparr>,
      ai_currency cfg \<noteq> [] \<and> cost_currency \<noteq> [] \<and> ai_currency cfg \<noteq> cost_currency)"

section \<open>The resolver\<close>

record rates_doc =
  ro_overlay :: string
  ro_updated :: instant
  ro_by :: string

text \<open>What a query for the stored overlay meets.\<close>

datatype rates_answer = RatesUnset | RatesNoStore | RatesFailed | RatesRow "rates_doc option"

definition rates_ttl :: duration where "rates_ttl = 5 * second"

record rates_cell =
  rc_cached :: rate_table
  rc_fetched :: instant
  rc_warm :: bool

definition new_rates_cell :: rates_cell where
  "new_rates_cell = \<lparr>rc_cached = empty_table, rc_fetched = zero_time, rc_warm = False\<rparr>"

definition stored_rates :: "(string \<Rightarrow> rate_table option) \<Rightarrow> rates_answer \<Rightarrow> rate_table option" where
  "stored_rates json ans =
     (case ans of
        RatesUnset \<Rightarrow> Some empty_table
      | RatesNoStore \<Rightarrow> None
      | RatesFailed \<Rightarrow> None
      | RatesRow None \<Rightarrow> Some empty_table
      | RatesRow (Some d) \<Rightarrow> (case parse_overlay json (ro_overlay d) of Inl _ \<Rightarrow> None | Inr t \<Rightarrow> Some t))"

definition fresh_rates :: "rates_cell \<Rightarrow> instant \<Rightarrow> rate_table option" where
  "fresh_rates c now = (if rc_warm c \<and> time_sub now (rc_fetched c) < rates_ttl then Some (rc_cached c) else None)"

definition last_known_rates :: "rates_cell \<Rightarrow> rate_table" where
  "last_known_rates c = rc_cached c"

definition fill_rates :: "rate_table \<Rightarrow> instant \<Rightarrow> rates_cell \<Rightarrow> rates_cell" where
  "fill_rates t now c = c\<lparr>rc_cached := t, rc_fetched := now, rc_warm := True\<rparr>"

definition invalidate_rates :: "rates_cell \<Rightarrow> rates_cell" where
  "invalidate_rates c = c\<lparr>rc_fetched := zero_time\<rparr>"

definition stored_rates_cached :: "(string \<Rightarrow> rate_table option) \<Rightarrow> rates_answer \<Rightarrow> instant \<Rightarrow> rates_cell \<Rightarrow> rate_table \<times> rates_cell" where
  "stored_rates_cached json ans now c =
     (if ans = RatesUnset then (empty_table, c)
      else case fresh_rates c now of
        Some t \<Rightarrow> (t, c)
      | None \<Rightarrow> (case stored_rates json ans of None \<Rightarrow> (last_known_rates c, c) | Some t \<Rightarrow> (t, fill_rates t now c)))"

definition resolve_rates :: "(string \<Rightarrow> rate_table option) \<Rightarrow> rate_table \<Rightarrow> rates_answer \<Rightarrow> instant \<Rightarrow> rates_cell \<Rightarrow> resolved_rates \<times> rates_cell" where
  "resolve_rates json chart ans now c = (case stored_rates_cached json ans now c of (t, c') \<Rightarrow> (merge_rates chart t, c'))"

section \<open>Handlers\<close>

text \<open>Whether the store is there, whether each of a handler's queries works, and the two rows of the hub.\<close>

record rates_env =
  re_connected :: bool
  re_resolver_loads :: bool
  re_loads :: bool
  re_saves :: bool

type_synonym rates_state = "rates_doc option \<times> rates_cell"

datatype rates_failure = Http http_error | BadOverlay rates_error

record rates_response =
  rp_overlay :: rate_table
  rp_chart :: rate_table
  rp_effective :: resolved_rates
  rp_updated :: "instant option"
  rp_by :: string

definition load_rates_overlay :: "bool \<Rightarrow> rates_doc option \<Rightarrow> rates_answer" where
  "load_rates_overlay ok row = (if ok then RatesRow row else RatesFailed)"

definition save_rates_overlay :: "string \<Rightarrow> string \<Rightarrow> instant \<Rightarrow> rates_doc option" where
  "save_rates_overlay data by1 now = Some \<lparr>ro_overlay = data, ro_updated = now, ro_by = by1\<rparr>"

definition requested_by :: "identity option \<Rightarrow> string" where
  "requested_by i = (case i of None \<Rightarrow> ''unknown'' | Some x \<Rightarrow> if id_email x = [] then ''unknown'' else id_email x)"

definition read_rates_body :: "(string \<Rightarrow> rate_table option) \<Rightarrow> string body \<Rightarrow> rates_failure + rate_table" where
  "read_rates_body json b =
     (case decode b of
        Inl e \<Rightarrow> Inl (Http e)
      | Inr raw \<Rightarrow>
          (let data = trim_space raw
           in if data = [] then Inl (Http (Bad_Request ''empty request body''))
              else case parse_overlay json data of Inl e \<Rightarrow> Inl (BadOverlay e) | Inr t \<Rightarrow> Inr t))"

definition handle_get_rates :: "(string \<Rightarrow> rate_table option) \<Rightarrow> rate_table \<Rightarrow> rates_env \<Rightarrow> instant \<Rightarrow> rates_state \<Rightarrow>
    (rates_failure + rates_response) \<times> rates_state" where
  "handle_get_rates json chart env now st = (case st of (row, c) \<Rightarrow>
     if \<not> re_connected env then (Inl (Http Unavailable), st)
     else case resolve_rates json chart (load_rates_overlay (re_resolver_loads env) row) now c of (eff, c') \<Rightarrow>
       let resp = \<lparr>rp_overlay = empty_table, rp_chart = chart, rp_effective = eff, rp_updated = None, rp_by = []\<rparr>
       in if \<not> re_loads env then (Inl (Http (Failed_With ''load rates overlay'')), (row, c'))
          else case row of
            None \<Rightarrow> (Inr resp, (row, c'))
          | Some d \<Rightarrow>
              (case parse_overlay json (ro_overlay d) of
                 Inl _ \<Rightarrow> (Inl (Http (Failed_With ''parse stored rates overlay'')), (row, c'))
               | Inr t \<Rightarrow> (Inr (resp\<lparr>rp_overlay := t, rp_by := ro_by d,
                   rp_updated := (if ro_updated d = zero_time then None else Some (ro_updated d))\<rparr>), (row, c'))))"

definition commit_rates :: "(string \<Rightarrow> rate_table option) \<Rightarrow> rate_table \<Rightarrow> rates_env \<Rightarrow> instant \<Rightarrow> identity option \<Rightarrow> string \<Rightarrow> rate_table \<Rightarrow>
    rates_state \<Rightarrow> (rates_failure + rates_response) \<times> rates_state" where
  "commit_rates json chart env now who data t st =
     (if \<not> re_saves env then (Inl (Http (Failed_With ''save rates overlay'')), st)
      else let row = save_rates_overlay data (requested_by who) now
        in case resolve_rates json chart (load_rates_overlay (re_resolver_loads env) row) now (invalidate_rates (snd st)) of (eff, c') \<Rightarrow>
          (Inr \<lparr>rp_overlay = t, rp_chart = chart, rp_effective = eff, rp_updated = None, rp_by = []\<rparr>, (row, c')))"

definition handle_put_rates :: "(string \<Rightarrow> rate_table option) \<Rightarrow> (rate_table \<Rightarrow> string) \<Rightarrow> rate_table \<Rightarrow> rates_env \<Rightarrow> instant \<Rightarrow> identity option \<Rightarrow>
    string body \<Rightarrow> rates_state \<Rightarrow> (rates_failure + rates_response) \<times> rates_state" where
  "handle_put_rates json encode chart env now who b st =
     (if \<not> re_connected env then (Inl (Http Unavailable), st)
      else case read_rates_body json b of
        Inl e \<Rightarrow> (Inl e, st)
      | Inr t \<Rightarrow> commit_rates json chart env now who (encode t) t st)"

definition handle_delete_rates :: "(string \<Rightarrow> rate_table option) \<Rightarrow> rate_table \<Rightarrow> rates_env \<Rightarrow> instant \<Rightarrow> identity option \<Rightarrow> rates_state \<Rightarrow>
    (rates_failure + rates_response) \<times> rates_state" where
  "handle_delete_rates json chart env now who st =
     (if \<not> re_connected env then (Inl (Http Unavailable), st)
      else commit_rates json chart env now who ''{}'' empty_table st)"

end
