(* ===== verification/RatesLaws.thy ===== *)
theory RatesLaws
  imports Rates
begin

text \<open>
  Laws of the rate table: which price a model gets after a merge, that the earlier configuration
  keeps its prices, and what is read after a write. The memo of the overlay is one more provider of
  \<open>memo_cell\<close>.
\<close>

section \<open>Merging\<close>

definition names_of :: "priced_model list \<Rightarrow> string list" where
  "names_of ms = map (\<lambda>m. pc_model (pp_price m)) ms"

text \<open>The index knows every row by its name.\<close>

definition merging_sound :: "merging \<Rightarrow> bool" where
  "merging_sound st \<longleftrightarrow> (case st of (by_model, out) \<Rightarrow>
     distinct (names_of out) \<and> (\<forall>m i. by_model m = Some i \<longleftrightarrow> i < length out \<and> names_of out ! i = m))"

definition price_of :: "price list \<Rightarrow> string \<Rightarrow> price option" where
  "price_of ps m = find (\<lambda>p. pc_model p = m) ps"

definition declared_price :: "rate_table \<Rightarrow> rate_table \<Rightarrow> string \<Rightarrow> price option" where
  "declared_price chart overlay m =
     (case price_of (rt_models overlay) m of None \<Rightarrow> price_of (rt_models chart) m | Some p \<Rightarrow> Some p)"

lemma price_of_Some: "price_of ps m = Some p \<Longrightarrow> p \<in> set ps \<and> pc_model p = m"
  by (auto simp: price_of_def find_Some_iff)

lemma price_of_None: "price_of ps m = None \<longleftrightarrow> m \<notin> pc_model ` set ps"
  by (auto simp: price_of_def find_None_iff)

lemma price_of_in: "distinct (map pc_model ps) \<Longrightarrow> p \<in> set ps \<Longrightarrow> price_of ps (pc_model p) = Some p"
  by (induction ps) (auto simp: price_of_def)

lemma price_of_append: "price_of (ps @ qs) m = (case price_of ps m of None \<Rightarrow> price_of qs m | Some p \<Rightarrow> Some p)"
  by (induction ps) (auto simp: price_of_def)

abbreviation prices_in :: "merging \<Rightarrow> price list" where
  "prices_in st \<equiv> map pp_price (snd st)"

lemma names_in: "names_of out = map pc_model (map pp_price out)"
  by (simp add: names_of_def)

lemma unknown_name:
  assumes "merging_sound (by_model, out)"
  shows "by_model n = None \<longleftrightarrow> n \<notin> set (names_of out)"
proof -
  have known: "by_model n = Some i \<longleftrightarrow> i < length (names_of out) \<and> names_of out ! i = n" for i
    using assms by (simp add: merging_sound_def names_of_def)
  show ?thesis
  proof (cases "by_model n")
    case None
    with known show ?thesis by (metis in_set_conv_nth option.distinct(1))
  next
    case (Some i)
    with known [of i] show ?thesis by (metis nth_mem option.distinct(1))
  qed
qed

lemma append_sound:
  assumes "merging_sound (by_model, out)" "by_model (pc_model m) = None"
  shows "merging_sound (by_model(pc_model m \<mapsto> length out), out @ [\<lparr>pp_price = m, pp_source = src\<rparr>])"
proof -
  have known: "by_model n = Some i \<longleftrightarrow> i < length out \<and> names_of out ! i = n" for n i
    using assms(1) by (simp add: merging_sound_def)
  have fresh: "pc_model m \<notin> set (names_of out)" using assms unknown_name by blast
  have d: "distinct (names_of out)" using assms(1) by (simp add: merging_sound_def)
  have names: "names_of (out @ [\<lparr>pp_price = m, pp_source = src\<rparr>]) = names_of out @ [pc_model m]" by (simp add: names_of_def)
  have len: "length (names_of out) = length out" by (simp add: names_of_def)
  have "(by_model(pc_model m \<mapsto> length out)) n = Some i \<longleftrightarrow>
      i < length (names_of out @ [pc_model m]) \<and> (names_of out @ [pc_model m]) ! i = n" for n i
  proof (cases "n = pc_model m")
    case True
    have "names_of out ! i \<noteq> n" if "i < length (names_of out)" using fresh True that nth_mem by metis
    with True len show ?thesis by (auto simp: nth_append less_Suc_eq)
  next
    case False
    with known [of n i] len show ?thesis by (auto simp: nth_append less_Suc_eq)
  qed
  with d fresh len show ?thesis by (simp add: merging_sound_def names)
qed

lemma overlay_step:
  assumes "merging_sound st"
  shows "merging_sound (add_overlaid m st) \<and>
    (\<forall>n. price_of (prices_in (add_overlaid m st)) n = (if n = pc_model m then Some m else price_of (prices_in st) n))"
proof -
  obtain by_model out where st: "st = (by_model, out)" by (cases st)
  show ?thesis
  proof (cases "by_model (pc_model m)")
    case None
    from assms have fresh: "pc_model m \<notin> set (names_of out)"
      using None unknown_name st by blast
    have "merging_sound (add_overlaid m st)"
      using append_sound [of by_model out m FromOverlay] assms None by (simp add: st add_overlaid_def Let_def)
    moreover have "price_of (prices_in (add_overlaid m st)) n = (if n = pc_model m then Some m else price_of (prices_in st) n)" for n
      using None fresh price_of_None [of "map pp_price out" "pc_model m"]
      by (auto simp: st add_overlaid_def Let_def price_of_append names_of_def image_image split: option.splits)
        (auto simp: price_of_def)
    ultimately show ?thesis by blast
  next
    case (Some i)
    then have i: "i < length out" "names_of out ! i = pc_model m" and d: "distinct (names_of out)"
      using assms by (auto simp: merging_sound_def st)
    let ?row = "\<lparr>pp_price = m, pp_source = FromOverlay\<rparr>"
    have new: "add_overlaid m st = (by_model, out[i := ?row])" by (simp add: st add_overlaid_def Let_def Some)
    have same: "names_of (out[i := ?row]) = names_of out"
      using i by (auto simp: names_of_def map_update list_update_same_conv)
    have "merging_sound (by_model, out[i := ?row])" using assms by (simp add: same merging_sound_def st)
    then have "merging_sound (add_overlaid m st)" by (simp only: new)
    moreover have "price_of (prices_in (add_overlaid m st)) n = (if n = pc_model m then Some m else price_of (prices_in st) n)" for n
    proof -
      let ?ps = "map pp_price out" and ?qs = "map pp_price (out[i := ?row])"
      have qs: "?qs = ?ps[i := m]" by (simp add: map_update)
      have dq: "distinct (map pc_model ?qs)" using d same by (simp add: names_of_def comp_def)
      have dp: "distinct (map pc_model ?ps)" using d by (simp add: names_of_def comp_def)
      have "price_of ?qs n = price_of ?ps n" if "n \<noteq> pc_model m"
      proof (cases "price_of ?ps n")
        case None
        then have "n \<notin> pc_model ` set ?qs" using same
          by (metis (no_types, lifting) list.set_map names_in price_of_None)
        with None show ?thesis by (simp only: price_of_None [symmetric])
      next
        case p: (Some p)
        then obtain j where j: "j < length out" "?ps ! j = p" "pc_model p = n"
          using price_of_Some [OF p] by (auto simp: in_set_conv_nth)
        with i that have "j \<noteq> i" by (auto simp: names_of_def)
        with j have "?qs ! j = p" "j < length ?qs" by (auto simp: qs)
        then have "p \<in> set ?qs" by (metis nth_mem)
        with price_of_in [OF dq] p j(3) show ?thesis by auto
      qed
      moreover have "m \<in> set ?qs" using i by (simp add: qs set_update_memI)
      then have "price_of ?qs (pc_model m) = Some m" by (rule price_of_in [OF dq])
      ultimately show ?thesis unfolding new unfolding st snd_conv by auto
    qed
    ultimately show ?thesis by blast
  qed
qed

lemma overlay_fold:
  assumes "merging_sound st" "distinct (map pc_model ms)"
  shows "merging_sound (fold add_overlaid ms st) \<and>
    (\<forall>n. price_of (prices_in (fold add_overlaid ms st)) n =
      (case price_of ms n of Some p \<Rightarrow> Some p | None \<Rightarrow> price_of (prices_in st) n))"
  using assms
proof (induction ms arbitrary: st)
  case Nil
  then show ?case by (simp add: price_of_def)
next
  case (Cons m ms)
  have s: "merging_sound (add_overlaid m st)"
    "price_of (prices_in (add_overlaid m st)) n = (if n = pc_model m then Some m else price_of (prices_in st) n)" for n
    using overlay_step [OF Cons.prems(1)] by blast+
  have "pc_model m \<notin> pc_model ` set ms" using Cons.prems(2) by simp
  then have "price_of ms (pc_model m) = None" by (simp add: price_of_None)
  then have "(case price_of ms n of Some p \<Rightarrow> Some p | None \<Rightarrow> (if n = pc_model m then Some m else price_of (prices_in st) n)) =
      (case price_of (m # ms) n of Some p \<Rightarrow> Some p | None \<Rightarrow> price_of (prices_in st) n)" for n
    by (auto simp: price_of_def split: option.splits)
  moreover have "distinct (map pc_model ms)" using Cons.prems(2) by simp
  note ih = Cons.IH [OF s(1) this]
  ultimately show ?case unfolding fold_simps comp_apply using ih by (simp only: s(2)) blast
qed

lemma chart_fold:
  assumes "distinct (map pc_model ms)"
  shows "merging_sound (fold add_declared ms (Map.empty, [])) \<and> prices_in (fold add_declared ms (Map.empty, [])) = ms"
  using assms
proof (induction ms rule: rev_induct)
  case Nil
  then show ?case by (simp add: merging_sound_def names_of_def)
next
  case (snoc m ms)
  then obtain by_model out where st: "fold add_declared ms (Map.empty, []) = (by_model, out)"
    and sound: "merging_sound (by_model, out)" and prices: "map pp_price out = ms"
    by (cases "fold add_declared ms (Map.empty, [])") auto
  have "pc_model m \<notin> set (names_of out)" using snoc.prems prices by (simp add: names_in)
  then have "by_model (pc_model m) = None"
    using sound unknown_name by blast
  moreover have "add_declared m (by_model, out) = (by_model(pc_model m \<mapsto> length out), out @ [\<lparr>pp_price = m, pp_source = FromChart\<rparr>])"
    by (simp add: add_declared_def)
  ultimately show ?case using append_sound [OF sound, of m FromChart] by (simp add: st prices)
qed

lemma merged_prices:
  assumes "distinct (map pc_model (rt_models chart))" "distinct (map pc_model (rt_models overlay))"
  shows "distinct (map pc_model (map pp_price (rs_models (merge_rates chart overlay)))) \<and>
    (\<forall>n. price_of (map pp_price (rs_models (merge_rates chart overlay))) n = declared_price chart overlay n)"
proof -
  note c = chart_fold [OF assms(1)]
  note o1 = overlay_fold [OF conjunct1 [OF c] assms(2)]
  have "distinct (names_of (rs_models (merge_rates chart overlay)))"
    using conjunct1 [OF o1] by (auto simp: merge_rates_def merging_sound_def split: prod.splits)
  moreover have "\<forall>n. price_of (map pp_price (rs_models (merge_rates chart overlay))) n = declared_price chart overlay n"
    using conjunct2 [OF o1] c by (simp add: merge_rates_def declared_price_def split: option.split)
  ultimately show ?thesis unfolding names_in by blast
qed

text \<open>C32. A model is priced by the entry declared for exactly its id, the stored one before the chart's; failing
  that, by the longest declared name that is a prefix of the id, again the stored entry before the
  chart's; and it has no price only when no declared name is a prefix of its id.\<close>

theorem price_decided:
  assumes "validate_table chart = None" "validate_table overlay = None" "model \<noteq> []"
  shows "(\<forall>p. declared_price chart overlay model = Some p \<longrightarrow> rates_lookup (merge_rates chart overlay) model = Some (p, False)) \<and>
    (\<forall>q b. declared_price chart overlay model = None \<and> rates_lookup (merge_rates chart overlay) model = Some (q, b) \<longrightarrow>
       b \<and> declared_price chart overlay (pc_model q) = Some q \<and> has_prefix (pc_model q) model \<and>
       (\<forall>n. has_prefix n model \<and> declared_price chart overlay n \<noteq> None \<longrightarrow> length n \<le> length (pc_model q))) \<and>
    (rates_lookup (merge_rates chart overlay) model = None \<longleftrightarrow>
       (\<forall>n. has_prefix n model \<longrightarrow> declared_price chart overlay n = None))"
proof -
  let ?ps = "map pp_price (rs_models (merge_rates chart overlay))"
  have v: "distinct (map pc_model (rt_models t))" if "validate_table t = None" for t
    using that valid_price_names(1) [of "rt_models t"] by (simp add: validate_table_def split: if_splits)
  note m = merged_prices [OF v [OF assms(1)] v [OF assms(2)]]
  have d: "distinct (map pc_model ?ps)" and at: "price_of ?ps n = declared_price chart overlay n" for n using m by blast+
  have l: "rates_lookup (merge_rates chart overlay) model = lookup_loop model None ?ps"
    using assms(3) by (simp add: rates_lookup_def)
  have row: "p \<in> set ?ps \<longleftrightarrow> declared_price chart overlay (pc_model p) = Some p" for p
    using price_of_in [OF d, of p] price_of_Some [of ?ps "pc_model p" p] unfolding at by blast
  have in_prefixes: "p \<in> set (prefixes_of model ?ps) \<longleftrightarrow> declared_price chart overlay (pc_model p) = Some p \<and> has_prefix (pc_model p) model" for p
    unfolding prefixes_of_def set_filter mem_Collect_eq row by blast
  have exact: "lookup_loop model None ?ps = Some (p, False)" if "declared_price chart overlay model = Some p" for p
    using that price_of_Some [of ?ps model p] lookup_exact [OF d, of p model None] unfolding at by blast
  have absent: "model \<notin> pc_model ` set ?ps" if "declared_price chart overlay model = None"
    using that price_of_None [of ?ps model] unfolding at by blast
  have longest: "b \<and> declared_price chart overlay (pc_model q) = Some q \<and> has_prefix (pc_model q) model \<and>
       (\<forall>n. has_prefix n model \<and> declared_price chart overlay n \<noteq> None \<longrightarrow> length n \<le> length (pc_model q))"
    if none: "declared_price chart overlay model = None" and q: "lookup_loop model None ?ps = Some (q, b)" for q b
  proof -
    note s = lookup_prefix_some [OF absent [OF none] q]
    have "length n \<le> length (pc_model q)" if n: "has_prefix n model" "declared_price chart overlay n \<noteq> None" for n
    proof -
      obtain p where p: "declared_price chart overlay n = Some p" using n(2) by auto
      then have "price_of ?ps n = Some p" unfolding at .
      then have "pc_model p = n" using price_of_Some by blast
      with p n(1) have "p \<in> set (prefixes_of model ?ps)" by (simp only: in_prefixes)
      with s(3) \<open>pc_model p = n\<close> show ?thesis by blast
    qed
    with s(1,2) show ?thesis by (simp only: in_prefixes) blast
  qed
  have unpriced: "lookup_loop model None ?ps = None \<longleftrightarrow> (\<forall>n. has_prefix n model \<longrightarrow> declared_price chart overlay n = None)"
  proof
    assume none: "lookup_loop model None ?ps = None"
    with exact have e: "declared_price chart overlay model = None" by (cases "declared_price chart overlay model") auto
    from lookup_prefix_none [OF absent [OF e] none] have "set (prefixes_of model ?ps) = {}" by simp
    then show "\<forall>n. has_prefix n model \<longrightarrow> declared_price chart overlay n = None"
      using in_prefixes price_of_Some [of ?ps] at by (metis empty_iff not_Some_eq)
  next
    assume none: "\<forall>n. has_prefix n model \<longrightarrow> declared_price chart overlay n = None"
    then have "declared_price chart overlay model = None" by simp
    show "lookup_loop model None ?ps = None"
    proof (rule ccontr)
      assume "lookup_loop model None ?ps \<noteq> None"
      then obtain q b where "lookup_loop model None ?ps = Some (q, b)" by auto
      from longest [OF \<open>declared_price chart overlay model = None\<close> this] none show False by auto
    qed
  qed
  show ?thesis unfolding l using exact longest unpriced by blast
qed


text \<open>An install that declares its prices the earlier way keeps every one of them: on the table built from
  its AI configuration, with nothing stored, each model has the price and the kind of match it had
  before.\<close>

theorem legacy_prices_kept:
  "rates_lookup (merge_rates (fst (from_legacy cfg cpu mem cur)) empty_table) model = ai_lookup cfg model"
proof -
  have "prices_in (fold add_declared ms st) = prices_in st @ ms" for ms st
    by (induction ms arbitrary: st) (auto simp: add_declared_def split: prod.splits)
  then show ?thesis by (simp add: rates_lookup_def ai_lookup_def merge_rates_def from_legacy_def empty_table_def)
qed

section \<open>The memo\<close>

lemma rates_ttl_less [simp]: "time_sub now t < rates_ttl \<longleftrightarrow> now - t < rates_ttl"
  by (rule time_sub_less) (simp_all add: rates_ttl_def duration_defs)

interpretation rates_memo: memo_cell fresh_rates last_known_rates fill_rates invalidate_rates rates_ttl new_rates_cell empty_table
  by unfold_locales
    (auto simp: fresh_rates_def last_known_rates_def fill_rates_def invalidate_rates_def new_rates_cell_def)

text \<open>A query begun before a write may fill the memo after it; its answer is then served for the whole window.\<close>

lemma late_fill_serves_old:
  assumes "now - filled < rates_ttl" "rates_ttl \<le> now"
  shows "fresh_rates (fill_rates old filled (invalidate_rates c)) now = Some old"
  using assms by (simp add: rates_memo.fresh_put)

section \<open>Reading a write back\<close>

lemma dropped_misses: "rates_ttl \<le> now \<Longrightarrow> fresh_rates (invalidate_rates c) now = None"
  by (rule rates_memo.fresh_drop)

lemma parsed_valid: "parse_overlay json data = Inr t \<Longrightarrow> t = empty_table \<or> json data = Some t"
  by (auto simp: parse_overlay_def split: if_splits option.splits)

text \<open>The decoder reads back what the encoder wrote of a table it once decoded, and an encoding is not blank.\<close>

definition json_faithful :: "(string \<Rightarrow> rate_table option) \<Rightarrow> (rate_table \<Rightarrow> string) \<Rightarrow> bool" where
  "json_faithful json encode \<longleftrightarrow>
     (\<forall>data t. json data = Some t \<longrightarrow> json (encode t) = Some t \<and> trim_space (encode t) \<noteq> []) \<and> trim_space ''{}'' \<noteq> [] \<and> json ''{}'' = Some empty_table"

lemma parse_encoded:
  assumes "json_faithful json encode" "parse_overlay json data = Inr t" "trim_space data \<noteq> []"
  shows "parse_overlay json (encode t) = Inr t"
  using assms by (auto simp: parse_overlay_def json_faithful_def split: option.splits)

text \<open>C33. A rate table that is accepted is the one in force. When its write and the queries succeed, the answer to
  the write, and every read after it until the next write, show the table as stored by its author and
  price by its merge with the chart's, whatever the memo held before; and a body that is not a valid
  table, like a write that fails, changes neither the stored table nor the memo.\<close>

theorem put_rates_in_force:
  assumes "json_faithful json encode" and "rates_ttl \<le> now" and "now \<le> later"
    and "re_connected env" "re_resolver_loads env" and "re_connected env'" "re_resolver_loads env'" "re_loads env'"
    and put: "handle_put_rates json encode chart env now who b st = (res, st')"
  shows "case res of
      Inl _ \<Rightarrow> st' = st
    | Inr resp \<Rightarrow> rp_effective resp = merge_rates chart (rp_overlay resp) \<and> validate_table (rp_overlay resp) = None \<and>
        (\<exists>resp' st''. handle_get_rates json chart env' later st' = (Inr resp', st'') \<and> rp_overlay resp' = rp_overlay resp \<and>
           rp_effective resp' = rp_effective resp \<and> rp_by resp' = requested_by who \<and> fst st'' = fst st')"
proof (cases res)
  case (Inl e)
  with put show ?thesis
    by (auto simp: handle_put_rates_def commit_rates_def Let_def split: if_splits sum.splits prod.splits)
next
  case (Inr resp)
  with put assms(4) obtain t where t: "read_rates_body json b = Inr t"
    by (auto simp: handle_put_rates_def split: if_splits sum.splits)
  then obtain data where data: "parse_overlay json data = Inr t" "trim_space data \<noteq> []"
    by (auto simp: read_rates_body_def Let_def split: sum.splits if_splits)
  have enc: "parse_overlay json (encode t) = Inr t" by (rule parse_encoded [OF assms(1) data])
  let ?row = "save_rates_overlay (encode t) (requested_by who) now"
  have stored: "stored_rates json (RatesRow ?row) = Some t" by (simp add: stored_rates_def save_rates_overlay_def enc)
  have "re_saves env" using put Inr assms(4) t by (auto simp: handle_put_rates_def commit_rates_def split: if_splits)
  with put Inr assms(4,5) t have out: "resp = \<lparr>rp_overlay = t, rp_chart = chart, rp_effective = merge_rates chart t, rp_updated = None, rp_by = []\<rparr>"
    "st' = (?row, fill_rates t now (invalidate_rates (snd st)))"
    using stored dropped_misses [OF assms(2)]
    by (auto simp: handle_put_rates_def commit_rates_def Let_def resolve_rates_def stored_rates_cached_def load_rates_overlay_def)
  have valid: "validate_table t = None"
    using data by (auto simp: parse_overlay_def split: option.splits)
  have read: "stored_rates_cached json (RatesRow ?row) later (fill_rates t now c) =
      (t, if later - now < rates_ttl then fill_rates t now c else fill_rates t later (fill_rates t now c))" for c
    by (simp add: stored_rates_cached_def rates_memo.fresh_put stored)
  have "\<exists>resp' st''. handle_get_rates json chart env' later st' = (Inr resp', st'') \<and> rp_overlay resp' = t \<and>
           rp_effective resp' = merge_rates chart t \<and> rp_by resp' = requested_by who \<and> fst st'' = fst st'"
    using assms(6-8) enc
    by (simp add: out(2) handle_get_rates_def resolve_rates_def load_rates_overlay_def read Let_def save_rates_overlay_def [of "encode t" "requested_by who" now]
      read [unfolded save_rates_overlay_def])
  with valid show ?thesis by (simp add: Inr out(1))
qed


section \<open>Concrete tables\<close>

definition sample_price :: "string \<Rightarrow> float64 \<Rightarrow> price" where
  "sample_price m rate = \<lparr>pc_model = m, pc_input = rate, pc_output = rate\<rparr>"

definition sample_table :: "price list \<Rightarrow> rate_table" where
  "sample_table ps = empty_table\<lparr>rt_models := ps\<rparr>"

definition sample_json :: "string \<Rightarrow> rate_table option" where
  "sample_json data = (if data = ''{m}'' then Some (sample_table [sample_price ''gpt'' 2]) else if data = ''{}'' then Some empty_table else None)"

definition sample_encode :: "rate_table \<Rightarrow> string" where
  "sample_encode t = (if t = empty_table then ''{}'' else ''{m}'')"

theorem price_decided_witness:
  "rates_lookup (merge_rates (sample_table [sample_price ''gpt'' 1, sample_price ''gpt-4'' 3]) (sample_table [sample_price ''gpt'' 2])) ''gpt'' =
     Some (sample_price ''gpt'' 2, False)"
proof -
  have v: "validate_table (sample_table [sample_price ''gpt'' 1, sample_price ''gpt-4'' 3]) = None"
    "validate_table (sample_table [sample_price ''gpt'' 2]) = None" by code_simp+
  have "declared_price (sample_table [sample_price ''gpt'' 1, sample_price ''gpt-4'' 3]) (sample_table [sample_price ''gpt'' 2]) ''gpt'' = Some (sample_price ''gpt'' 2)"
    by code_simp
  with price_decided [OF v, of "''gpt''"] show ?thesis by simp
qed

theorem put_rates_in_force_witness:
  "let env = \<lparr>re_connected = True, re_resolver_loads = True, re_loads = True, re_saves = True\<rparr>;
       (res, st) = handle_put_rates sample_json sample_encode (sample_table [sample_price ''gpt'' 1]) env (10 * second) None (Body ''{m}'') (None, new_rates_cell)
   in \<exists>resp st'. handle_get_rates sample_json (sample_table [sample_price ''gpt'' 1]) env (11 * second) st = (Inr resp, st') \<and>
        rates_lookup (rp_effective resp) ''gpt'' = Some (sample_price ''gpt'' 2, False) \<and> rp_by resp = ''unknown''"
proof -
  define env where "env = \<lparr>re_connected = True, re_resolver_loads = True, re_loads = True, re_saves = True\<rparr>"
  define chart where "chart = sample_table [sample_price ''gpt'' 1]"
  define put where "put = handle_put_rates sample_json sample_encode chart env (10 * second) None (Body ''{m}'') (None, new_rates_cell)"
  have "trim_space ''{m}'' \<noteq> []" "trim_space ''{}'' \<noteq> []" by code_simp+
  then have faithful: "json_faithful sample_json sample_encode"
    by (auto simp: json_faithful_def sample_json_def sample_encode_def sample_table_def empty_table_def)
  have e: "re_connected env" "re_resolver_loads env" "re_loads env" by (simp_all add: env_def)
  have clock: "rates_ttl \<le> 10 * second" "10 * second \<le> 11 * second" by (simp_all add: rates_ttl_def second_def)
  have ok: "isl (fst put) = False" "map_sum id rp_overlay (fst put) = Inr (sample_table [sample_price ''gpt'' 2])"
    unfolding put_def env_def chart_def by code_simp+
  obtain res st where p: "put = (res, st)" by (cases put)
  from ok(2) p obtain resp where r: "res = Inr resp" "rp_overlay resp = sample_table [sample_price ''gpt'' 2]" by (cases res) auto
  from put_rates_in_force [OF faithful clock e(1,2) e p [unfolded put_def]] r(1)
  obtain resp' st' where g: "handle_get_rates sample_json chart env (11 * second) st = (Inr resp', st')"
    "rp_effective resp' = merge_rates chart (rp_overlay resp)" "rp_by resp' = requested_by None" by auto
  have "rates_lookup (merge_rates chart (sample_table [sample_price ''gpt'' 2])) ''gpt'' = Some (sample_price ''gpt'' 2, False)"
    unfolding chart_def by code_simp
  with g r(2) have "\<exists>resp st'. handle_get_rates sample_json chart env (11 * second) st = (Inr resp, st') \<and>
        rates_lookup (rp_effective resp) ''gpt'' = Some (sample_price ''gpt'' 2, False) \<and> rp_by resp = ''unknown''"
    by (auto simp: requested_by_def)
  then show ?thesis using p unfolding put_def chart_def env_def Let_def by simp
qed

end
