(* ===== verification/Budgets.thy ===== *)
theory Budgets
  imports Pricing Alerting
begin

text \<open>
  Monthly budgets on AI spend and on carbon (hub/internal/ai/budgets.go; hub/internal/green:
  config.go, intensity.go, budgets.go). Each budget is two rules of the alert state, one at its warn
  ratio and one at the budget. A ratio that overflows is above every threshold, as is the exact
  quotient the model takes. The bundled intensities are listed as the source has them; printed
  reasons keep what they print.
\<close>

section \<open>Rules of a budget\<close>

definition warn_suffix :: string where "warn_suffix = '':warn''"

definition over_suffix :: string where "over_suffix = '':over''"

definition ai_prefix :: string where "ai_prefix = ''ai:''"

definition green_prefix :: string where "green_prefix = ''green:''"

definition no_state :: target_state where
  "no_state = \<lparr>ts_status = [], ts_since = zero_time, ts_last_notified = zero_time\<rparr>"

text \<open>What one rule does: the key it leaves in the next state, if any, and its notification, if any.\<close>

definition green_rule_step :: "alert_state \<Rightarrow> string \<Rightarrow> string \<Rightarrow> string \<Rightarrow> bool \<Rightarrow> string \<Rightarrow> target_reason \<Rightarrow> instant \<Rightarrow>
    alert_state \<times> notification list \<Rightarrow> alert_state \<times> notification list" where
  "green_rule_step prev rule target channel1 crossed firing_status reason now acc = (case acc of (nxt, notes) \<Rightarrow>
     let st = (case map_of prev (rule, target) of None \<Rightarrow> no_state | Some s \<Rightarrow> s);
         note = (\<lambda>kind status. \<lparr>nt_rule = rule, nt_target = target, nt_kind = kind, nt_status = status, nt_reason = reason, nt_at = now, nt_channel = channel1\<rparr>)
     in if crossed \<and> ts_status st = ''firing'' then (AList.update (rule, target) st nxt, notes)
        else if crossed then (AList.update (rule, target) \<lparr>ts_status = ''firing'', ts_since = now, ts_last_notified = now\<rparr> nxt, notes @ [note ''fired'' firing_status])
        else if ts_status st = ''firing'' then (nxt, notes @ [note ''resolved'' ''ok''])
        else (nxt, notes))"

definition ai_rule_step :: "alert_state \<Rightarrow> string \<Rightarrow> string \<Rightarrow> string \<Rightarrow> bool \<Rightarrow> string \<Rightarrow> target_reason \<Rightarrow> instant \<Rightarrow>
    alert_state \<times> notification list \<Rightarrow> alert_state \<times> notification list" where
  "ai_rule_step prev rule target channel1 crossed firing_status reason now acc = (case acc of (nxt, notes) \<Rightarrow>
     let st = (case map_of prev (rule, target) of None \<Rightarrow> no_state | Some s \<Rightarrow> s);
         note = (\<lambda>kind status. \<lparr>nt_rule = rule, nt_target = target, nt_kind = kind, nt_status = status, nt_reason = reason, nt_at = now, nt_channel = channel1\<rparr>)
     in if crossed \<and> ts_status st = ''firing'' then (AList.update (rule, target) st nxt, notes)
        else if crossed then (AList.update (rule, target) \<lparr>ts_status = ''firing'', ts_since = now, ts_last_notified = now\<rparr> nxt, notes @ [note ''fired'' firing_status])
        else if ts_status st = ''firing'' then (nxt, notes @ [note ''resolved'' ''ok''])
        else (nxt, notes))"

section \<open>AI spend\<close>

record ai_usage =
  au_tokens :: "string \<rightharpoonup> int"
  au_costs :: "string \<rightharpoonup> float64"
  au_estate_tokens :: int
  au_estate_cost :: float64
  au_unpriced :: "string \<rightharpoonup> nat"
  au_estate_unpriced :: nat
  au_known :: "string set"

definition or_zero :: "(string \<rightharpoonup> 'a::zero) \<Rightarrow> string \<Rightarrow> 'a" where
  "or_zero m k = (case m k of None \<Rightarrow> 0 | Some v \<Rightarrow> v)"

definition ai_used :: "ai_usage \<Rightarrow> ai_budget \<Rightarrow> float64 \<times> bool" where
  "ai_used u b =
     (if ab_scope b = [] then
        (if is_cost b then (au_estate_cost u, 0 < au_estate_unpriced u) else (float_of_int (au_estate_tokens u), False))
      else if is_cost b then (or_zero (au_costs u) (ab_scope b), 0 < or_zero (au_unpriced u) (ab_scope b))
      else (float_of_int (or_zero (au_tokens u) (ab_scope b)), False))"

definition ai_target :: "ai_budget \<Rightarrow> string" where
  "ai_target b = (if ab_scope b = [] then ''estate'' else ''service:'' @ ab_scope b)"

definition ai_reason :: "ai_budget \<Rightarrow> float64 \<Rightarrow> float64 \<Rightarrow> bool \<Rightarrow> target_reason" where
  "ai_reason b used ratio partial =
     BudgetReason (ab_name b) (ab_scope b) (if is_cost b then ''cost'' else ''tokens'') ratio used (ai_limit b) partial"

definition ai_warn :: "ai_budget \<Rightarrow> float64" where
  "ai_warn b = (if ab_warn b \<le> 0 then default_warn_ratio else ab_warn b)"

definition ai_ratio :: "ai_usage \<Rightarrow> ai_budget \<Rightarrow> float64" where
  "ai_ratio u b = fdiv (fst (ai_used u b)) (ai_limit b)"

definition eval_ai_budget :: "ai_usage \<Rightarrow> alert_state \<Rightarrow> instant \<Rightarrow> ai_budget \<Rightarrow> alert_state \<times> notification list \<Rightarrow> alert_state \<times> notification list" where
  "eval_ai_budget u prev now b acc =
     (if ai_limit b \<le> 0 then acc
      else let ratio = ai_ratio u b;
             reason = ai_reason b (fst (ai_used u b)) ratio (snd (ai_used u b))
        in ai_rule_step prev (ai_prefix @ ab_name b @ over_suffix) (ai_target b) (ab_channel b) (1 \<le> ratio) ''exceeded'' reason now
             (ai_rule_step prev (ai_prefix @ ab_name b @ warn_suffix) (ai_target b) (ab_channel b) (ai_warn b \<le> ratio) ''warn'' reason now acc))"

definition evaluate_ai_budgets :: "ai_config \<Rightarrow> ai_usage \<Rightarrow> alert_state \<Rightarrow> instant \<Rightarrow> alert_state \<times> notification list" where
  "evaluate_ai_budgets c u prev now = fold (eval_ai_budget u prev now) (ai_budgets c) ([], [])"

section \<open>Green configuration\<close>

record green_metrics =
  gm_pod_energy :: "string list"
  gm_node_energy :: "string list"
  gm_pod_name :: string
  gm_pod_namespace :: string

record green_budget =
  gb_name :: string
  gb_group :: string
  gb_monthly :: float64
  gb_warn :: float64
  gb_channel :: string

record green_config =
  gc_region :: string
  gc_intensity :: float64
  gc_pue :: float64
  gc_metrics :: green_metrics
  gc_budgets :: "green_budget list"
  gc_check_sec :: int

definition default_pue :: float64 where "default_pue = 3 / 2"

definition default_metrics :: green_metrics where
  "default_metrics = \<lparr>gm_pod_energy = [''kepler_pod_cpu_joules_total''], gm_node_energy = [''kepler_node_cpu_joules_total''],
     gm_pod_name = ''pod_name'', gm_pod_namespace = ''pod_namespace''\<rparr>"

definition default_green :: green_config where
  "default_green = \<lparr>gc_region = [], gc_intensity = 0, gc_pue = default_pue, gc_metrics = default_metrics, gc_budgets = [],
     gc_check_sec = default_budget_check_sec\<rparr>"

definition region_world :: string where "region_world = ''WORLD''"

definition world_intensity :: float64 where "world_intensity = 480"

definition country_intensities :: "(string \<times> float64) list" where
  "country_intensities =
     [(''AT'', 110), (''BE'', 130), (''BG'', 400), (''CZ'', 410), (''DE'', 380), (''DK'', 150), (''EE'', 460), (''ES'', 160), (''FI'', 70),
      (''FR'', 50), (''GR'', 340), (''HR'', 200), (''HU'', 200), (''IE'', 280), (''IT'', 330), (''LT'', 160), (''LU'', 120), (''LV'', 120),
      (''NL'', 270), (''PL'', 660), (''PT'', 130), (''RO'', 250), (''SE'', 30), (''SI'', 230), (''SK'', 110),
      (''CH'', 35), (''GB'', 220), (''NO'', 30), (''TR'', 430),
      (''BR'', 100), (''CA'', 130), (''MX'', 430), (''US'', 370),
      (''AU'', 550), (''CN'', 560), (''ID'', 680), (''IN'', 710), (''JP'', 460), (''KR'', 430), (''NZ'', 110), (''SG'', 470), (''TW'', 560), (''ZA'', 700)]"

text \<open>Upper case on ASCII letters.\<close>

definition to_upper :: "string \<Rightarrow> string" where
  "to_upper s = map (\<lambda>c. if 97 \<le> (of_char c :: nat) \<and> (of_char c :: nat) \<le> 122 then char_of ((of_char c :: nat) - 32) else c) s"

definition or_default :: "string \<Rightarrow> string \<Rightarrow> string" where
  "or_default d s = (if s = [] then d else s)"

definition normalize_metrics :: "green_metrics \<Rightarrow> green_metrics" where
  "normalize_metrics m =
     \<lparr>gm_pod_energy = map trim_space (if gm_pod_energy m = [] then gm_pod_energy default_metrics else gm_pod_energy m),
      gm_node_energy = map trim_space (if gm_node_energy m = [] then gm_node_energy default_metrics else gm_node_energy m),
      gm_pod_name = trim_space (or_default (gm_pod_name default_metrics) (gm_pod_name m)),
      gm_pod_namespace = trim_space (or_default (gm_pod_namespace default_metrics) (gm_pod_namespace m))\<rparr>"

definition normalize_green :: "green_config \<Rightarrow> green_config" where
  "normalize_green c =
     c\<lparr>gc_region := to_upper (trim_space (gc_region c)),
       gc_pue := (if gc_pue c = 0 then default_pue else gc_pue c),
       gc_check_sec := (if gc_check_sec c = 0 then default_budget_check_sec else gc_check_sec c),
       gc_metrics := normalize_metrics (gc_metrics c),
       gc_budgets := map (\<lambda>b. if gb_warn b = 0 then b\<lparr>gb_warn := default_warn_ratio\<rparr> else b) (gc_budgets c)\<rparr>"

datatype green_error = GreenJson | NegativeIntensity | PueBelowOne | UnknownRegion string | CheckInterval | EmptyPodEnergy nat | EmptyNodeEnergy nat
  | EmptyPodName | EmptyPodNamespace | BudgetUnnamed nat | BudgetTwice string | BudgetNoGroup string | BudgetNotPositive string | BudgetWarnRange string

fun first_empty :: "nat \<Rightarrow> string list \<Rightarrow> nat option" where
  "first_empty i [] = None"
| "first_empty i (x # xs) = (if x = [] then Some i else first_empty (Suc i) xs)"

fun validate_green_budgets :: "nat \<Rightarrow> string list \<Rightarrow> green_budget list \<Rightarrow> green_error option" where
  "validate_green_budgets i seen [] = None"
| "validate_green_budgets i seen (b # bs) =
     (if trim_space (gb_name b) = [] then Some (BudgetUnnamed i)
      else if gb_name b \<in> set seen then Some (BudgetTwice (gb_name b))
      else if trim_space (gb_group b) = [] then Some (BudgetNoGroup (gb_name b))
      else if gb_monthly b \<le> 0 then Some (BudgetNotPositive (gb_name b))
      else if gb_warn b \<le> 0 \<or> 1 < gb_warn b then Some (BudgetWarnRange (gb_name b))
      else validate_green_budgets (Suc i) (gb_name b # seen) bs)"

definition validate_metrics :: "green_metrics \<Rightarrow> green_error option" where
  "validate_metrics m =
     (case first_empty 0 (gm_pod_energy m) of
        Some i \<Rightarrow> Some (EmptyPodEnergy i)
      | None \<Rightarrow> (case first_empty 0 (gm_node_energy m) of
          Some i \<Rightarrow> Some (EmptyNodeEnergy i)
        | None \<Rightarrow> if gm_pod_name m = [] then Some EmptyPodName else if gm_pod_namespace m = [] then Some EmptyPodNamespace else None))"

definition validate_green :: "green_config \<Rightarrow> green_error option" where
  "validate_green c =
     (if gc_intensity c < 0 then Some NegativeIntensity
      else if gc_pue c < 1 then Some PueBelowOne
      else if gc_region c \<noteq> [] \<and> gc_region c \<noteq> region_world \<and> gc_intensity c = 0 \<and> map_of country_intensities (gc_region c) = None
        then Some (UnknownRegion (gc_region c))
      else if gc_check_sec c \<le> 0 then Some CheckInterval
      else case validate_metrics (gc_metrics c) of Some e \<Rightarrow> Some e | None \<Rightarrow> validate_green_budgets 0 [] (gc_budgets c))"

definition parse_green_config :: "(string \<Rightarrow> green_config option) \<Rightarrow> string \<Rightarrow> green_error + green_config" where
  "parse_green_config json text1 =
     (if trim_space text1 = [] then Inr default_green
      else case json text1 of
        None \<Rightarrow> Inl GreenJson
      | Some c0 \<Rightarrow> (let c = normalize_green c0 in case validate_green c of Some e \<Rightarrow> Inl e | None \<Rightarrow> Inr c))"

definition green_check_interval :: "green_config \<Rightarrow> duration" where
  "green_check_interval c = wrap64 ((if gc_check_sec c \<le> 0 then default_budget_check_sec else gc_check_sec c) * second)"

datatype intensity_source = OperatorSet | BundledRegion string | BundledWorld

definition effective_intensity :: "green_config \<Rightarrow> float64 \<times> intensity_source" where
  "effective_intensity c =
     (if 0 < gc_intensity c then (gc_intensity c, OperatorSet)
      else let region = to_upper (trim_space (gc_region c))
        in case map_of country_intensities region of Some v \<Rightarrow> (v, BundledRegion region) | None \<Rightarrow> (world_intensity, BundledWorld))"

section \<open>Carbon\<close>

definition green_target :: "green_budget \<Rightarrow> string" where
  "green_target b = ''group:'' @ gb_group b"

definition green_warn :: "green_budget \<Rightarrow> float64" where
  "green_warn b = (if gb_warn b \<le> 0 then default_warn_ratio else gb_warn b)"

definition green_ratio :: "(string \<rightharpoonup> float64) \<Rightarrow> green_budget \<Rightarrow> float64" where
  "green_ratio used b = fdiv (or_zero used (gb_group b)) (gb_monthly b)"

definition eval_green_budget :: "(string \<rightharpoonup> float64) \<Rightarrow> alert_state \<Rightarrow> instant \<Rightarrow> green_budget \<Rightarrow> alert_state \<times> notification list \<Rightarrow>
    alert_state \<times> notification list" where
  "eval_green_budget used prev now b acc =
     (if gb_monthly b \<le> 0 then acc
      else let ratio = green_ratio used b;
             reason = BudgetReason (gb_name b) (gb_group b) ''kgCO2e'' ratio (or_zero used (gb_group b)) (gb_monthly b) False
        in green_rule_step prev (green_prefix @ gb_name b @ over_suffix) (green_target b) (gb_channel b) (1 \<le> ratio) ''exceeded'' reason now
             (green_rule_step prev (green_prefix @ gb_name b @ warn_suffix) (green_target b) (gb_channel b) (green_warn b \<le> ratio) ''warn'' reason now acc))"

definition evaluate_green_budgets :: "green_config \<Rightarrow> (string \<rightharpoonup> float64) \<Rightarrow> alert_state \<Rightarrow> instant \<Rightarrow> alert_state \<times> notification list" where
  "evaluate_green_budgets c used prev now = fold (eval_green_budget used prev now) (gc_budgets c) ([], [])"

end
