(* ===== verification/AlertTick.thy ===== *)
theory AlertTick
  imports Budgets AlertLaws InstallModules
begin

text \<open>
  One tick of the background evaluator (hub/cmd/hub: alerting.go, green_budgets.go, ai_budgets.go;
  hub/internal/storage/clickhouse/alerts.go) and the delivery of a notification
  (hub/internal/alerting/notifier.go). The table of alert states is its newest rows; what the queries
  of a tick answer is an argument, a failure being no answer. The tenants come in some order, which
  the code leaves to a map; logging is left out.
\<close>

section \<open>Queries\<close>

text \<open>The answers for one tenant; the usages are what a recomputation would give.\<close>

record green_usage =
  gu_used :: "string \<rightharpoonup> float64"
  gu_known :: "string set"

record tenant_answers =
  ta_stats :: "service_stats list option"
  ta_labels :: "service_label list option"
  ta_edges :: "service_edge list option"
  ta_loads :: bool
  ta_saves :: bool
  ta_appends :: bool
  ta_green :: "green_usage option"
  ta_ai :: "ai_usage option"

definition compute_health :: "((string \<times> assignment) list \<Rightarrow> (string \<times> assignment) list) \<Rightarrow> health_config \<Rightarrow> duration \<Rightarrow> tenant_answers \<Rightarrow>
    report option" where
  "compute_health reorder gcfg w ans =
     (case (ta_stats ans, ta_labels ans, ta_edges ans) of
        (Some stats, Some labels, Some edges) \<Rightarrow> Some (rollup reorder gcfg w stats labels edges)
      | _ \<Rightarrow> None)"

definition alert_default_tenant :: string where "alert_default_tenant = ''default''"

definition tenants_to_evaluate :: "string list \<Rightarrow> string list option \<Rightarrow> string list" where
  "tenants_to_evaluate projects observed =
     dedup (alert_default_tenant # projects @ (case observed of None \<Rightarrow> [] | Some ts \<Rightarrow> ts))"

section \<open>The table of states\<close>

type_synonym alert_table = "((string \<times> string \<times> string) \<times> target_state) list"

definition load_alert_states :: "string \<Rightarrow> alert_table \<Rightarrow> alert_state" where
  "load_alert_states tenant tab =
     concat (map (\<lambda>((t, rule, target), st). if t = tenant \<and> ts_status st \<noteq> ''ok'' then [((rule, target), st)] else []) tab)"

definition diff_to_save :: "alert_state \<Rightarrow> alert_state \<Rightarrow> instant \<Rightarrow> alert_state" where
  "diff_to_save prev nxt now =
     nxt @ map (\<lambda>(k, v). (k, \<lparr>ts_status = ''ok'', ts_since = now, ts_last_notified = ts_last_notified v\<rparr>))
       (filter (\<lambda>(k, v). map_of nxt k = None) prev)"

definition save_alert_states :: "string \<Rightarrow> alert_state \<Rightarrow> alert_table \<Rightarrow> alert_table" where
  "save_alert_states tenant rows tab = fold (\<lambda>((rule, target), st). AList.update (tenant, rule, target) st) rows tab"

section \<open>Budgets in the tick\<close>

type_synonym 'u usage_cache = "string \<rightharpoonup> instant \<times> 'u"

definition green_usage_get :: "green_usage usage_cache \<Rightarrow> string \<Rightarrow> instant \<Rightarrow> duration \<Rightarrow> green_usage option \<Rightarrow>
    green_usage option \<times> green_usage usage_cache" where
  "green_usage_get cache tenant now interval computed =
     (let recompute = (case computed of None \<Rightarrow> (None, cache) | Some u \<Rightarrow> (Some u, cache(tenant \<mapsto> (now, u))))
      in case cache tenant of
           Some (t, u) \<Rightarrow> if 0 < interval \<and> time_sub now t < interval then (Some u, cache) else recompute
         | None \<Rightarrow> recompute)"

definition ai_usage_get :: "ai_usage usage_cache \<Rightarrow> string \<Rightarrow> instant \<Rightarrow> duration \<Rightarrow> ai_usage option \<Rightarrow>
    ai_usage option \<times> ai_usage usage_cache" where
  "ai_usage_get cache tenant now interval computed =
     (let recompute = (case computed of None \<Rightarrow> (None, cache) | Some u \<Rightarrow> (Some u, cache(tenant \<mapsto> (now, u))))
      in case cache tenant of
           Some (t, u) \<Rightarrow> if 0 < interval \<and> time_sub now t < interval then (Some u, cache) else recompute
         | None \<Rightarrow> recompute)"

definition merge_green_key :: "(string \<times> string) \<times> target_state \<Rightarrow> alert_state \<Rightarrow> alert_state" where
  "merge_green_key kv nxt = (if map_of nxt (fst kv) = None then AList.update (fst kv) (snd kv) nxt else nxt)"

definition merge_ai_key :: "(string \<times> string) \<times> target_state \<Rightarrow> alert_state \<Rightarrow> alert_state" where
  "merge_ai_key kv nxt = (if map_of nxt (fst kv) = None then AList.update (fst kv) (snd kv) nxt else nxt)"

text \<open>The hook is there when both its module and alerting are active.\<close>

definition new_green_budgets :: "module_set \<Rightarrow> green_config \<Rightarrow> green_config option" where
  "new_green_budgets active cfg = (if green_module \<notin> active \<or> ''alerting'' \<notin> active then None else Some cfg)"

definition new_ai_budgets :: "module_set \<Rightarrow> ai_config \<Rightarrow> ai_config option" where
  "new_ai_budgets active cfg = (if ''ai'' \<notin> active \<or> ''alerting'' \<notin> active then None else Some cfg)"

definition eval_green_budgets :: "green_config option \<Rightarrow> string \<Rightarrow> instant \<Rightarrow> green_usage option \<Rightarrow> alert_state \<Rightarrow>
    green_usage usage_cache \<times> alert_state \<times> notification list \<Rightarrow> green_usage usage_cache \<times> alert_state \<times> notification list" where
  "eval_green_budgets hook tenant now computed prev acc = (case acc of (cache, nxt, notes) \<Rightarrow>
     (case hook of
        None \<Rightarrow> acc
      | Some cfg \<Rightarrow>
          if gc_budgets cfg = [] then acc
          else (case green_usage_get cache tenant now (green_check_interval cfg) computed of
              (None, cache') \<Rightarrow> (cache', fold merge_green_key (filter (\<lambda>(k, v). has_prefix green_prefix (fst k)) prev) nxt, notes)
            | (Some u, cache') \<Rightarrow>
                (case evaluate_green_budgets cfg (gu_used u) prev now of
                   (g_next, g_notes) \<Rightarrow> (cache', fold merge_green_key g_next nxt, notes @ g_notes)))))"

definition eval_ai_budgets :: "ai_config option \<Rightarrow> string \<Rightarrow> instant \<Rightarrow> ai_usage option \<Rightarrow> alert_state \<Rightarrow>
    ai_usage usage_cache \<times> alert_state \<times> notification list \<Rightarrow> ai_usage usage_cache \<times> alert_state \<times> notification list" where
  "eval_ai_budgets hook tenant now computed prev acc = (case acc of (cache, nxt, notes) \<Rightarrow>
     (case hook of
        None \<Rightarrow> acc
      | Some cfg \<Rightarrow>
          if ai_budgets cfg = [] then acc
          else (case ai_usage_get cache tenant now (ai_check_interval cfg) computed of
              (None, cache') \<Rightarrow> (cache', fold merge_ai_key (filter (\<lambda>(k, v). has_prefix ai_prefix (fst k)) prev) nxt, notes)
            | (Some u, cache') \<Rightarrow>
                (case evaluate_ai_budgets cfg u prev now of
                   (a_next, a_notes) \<Rightarrow> (cache', fold merge_ai_key a_next nxt, notes @ a_notes)))))"

section \<open>Delivery\<close>

definition channel_resolver :: "channel list option \<Rightarrow> alert_config \<Rightarrow> string \<Rightarrow> channel option" where
  "channel_resolver stored acfg name =
     (case find (\<lambda>c. ch_name c = name) (rev (case stored of None \<Rightarrow> [] | Some cs \<Rightarrow> cs)) of
        Some c \<Rightarrow> Some c
      | None \<Rightarrow> channel_by_name acfg name)"

text \<open>The notifications handed to the notifier, each with its channel.\<close>

definition deliver :: "(string \<Rightarrow> channel option) \<Rightarrow> notification list \<Rightarrow> (channel \<times> notification) list" where
  "deliver resolve_channel notes =
     concat (map (\<lambda>n. if trim_space (nt_channel n) = [] then []
         else case resolve_channel (nt_channel n) of None \<Rightarrow> [] | Some c \<Rightarrow> [(c, n)]) notes)"

section \<open>The tick\<close>

record tick_config =
  tc_reorder :: "(string \<times> assignment) list \<Rightarrow> (string \<times> assignment) list"
  tc_health :: health_config
  tc_alerts :: alert_config
  tc_green :: "green_config option"
  tc_ai :: "ai_config option"
  tc_projects :: "string list"

text \<open>What a tick meets. The budgets are read from their configuration again for each project of the tick.\<close>

record tick_answers =
  tk_connected :: bool
  tk_channels :: "channel list option"
  tk_tenants :: "string list option"
  tk_tenant :: "string \<Rightarrow> tenant_answers"
  tk_green :: "string \<Rightarrow> green_config option"
  tk_ai :: "string \<Rightarrow> ai_config option"

record evaluator =
  ev_table :: alert_table
  ev_history :: "(string \<times> notification) list"
  ev_sent :: "(channel \<times> string \<times> notification) list"
  ev_emitted :: "(string \<times> notification) list"
  ev_green :: "green_usage usage_cache"
  ev_ai :: "ai_usage usage_cache"

definition idle_evaluator :: evaluator where
  "idle_evaluator = \<lparr>ev_table = [], ev_history = [], ev_sent = [], ev_emitted = [], ev_green = Map.empty, ev_ai = Map.empty\<rparr>"

text \<open>\<open>ev_emitted\<close> records every notification a tick made, delivered or not.\<close>

definition evaluate_tenant :: "tick_config \<Rightarrow> (string \<Rightarrow> channel option) \<Rightarrow> instant \<Rightarrow> (string \<Rightarrow> tenant_answers) \<Rightarrow> string \<Rightarrow> evaluator \<Rightarrow> evaluator" where
  "evaluate_tenant tc resolve_channel now answers tenant ev =
     (let ans = answers tenant
      in case compute_health (tc_reorder tc) (tc_health tc) (alert_window (tc_alerts tc)) ans of
           None \<Rightarrow> ev
         | Some rep \<Rightarrow>
             if \<not> ta_loads ans then ev
             else let prev = load_alert_states tenant (ev_table ev);
                      (nxt0, notes0) = evaluate (tc_alerts tc) rep prev now;
                      (green, nxt1, notes1) = eval_green_budgets (tc_green tc) tenant now (ta_green ans) prev (ev_green ev, nxt0, notes0);
                      (ai, nxt, notes) = eval_ai_budgets (tc_ai tc) tenant now (ta_ai ans) prev (ev_ai ev, nxt1, notes1)
               in ev\<lparr>ev_green := green, ev_ai := ai,
                     ev_emitted := ev_emitted ev @ map (\<lambda>n. (tenant, n)) notes,
                     ev_sent := ev_sent ev @ map (\<lambda>(c, n). (c, tenant, n)) (deliver resolve_channel notes),
                     ev_table := (if ta_saves ans then save_alert_states tenant (diff_to_save prev nxt now) (ev_table ev) else ev_table ev),
                     ev_history := ev_history ev @ (if ta_appends ans then map (\<lambda>n. (tenant, n)) notes else [])\<rparr>)"

text \<open>The configuration a project of the tick is evaluated with.\<close>

definition tenant_config :: "tick_config \<Rightarrow> tick_answers \<Rightarrow> string \<Rightarrow> tick_config" where
  "tenant_config tc ta tenant = tc\<lparr>tc_green := tk_green ta tenant, tc_ai := tk_ai ta tenant\<rparr>"

definition evaluate_once :: "tick_config \<Rightarrow> instant \<Rightarrow> tick_answers \<Rightarrow> evaluator \<Rightarrow> evaluator" where
  "evaluate_once tc now ta ev =
     (if \<not> tk_connected ta then ev
      else fold (\<lambda>t. evaluate_tenant (tenant_config tc ta t) (channel_resolver (tk_channels ta) (tc_alerts tc)) now (tk_tenant ta) t)
        (tenants_to_evaluate (tc_projects tc) (tk_tenants ta)) ev)"

text \<open>The loop: every tick reads the configuration anew, so it may have been reloaded since the last one.\<close>

definition run_ticks :: "(tick_config \<times> instant \<times> tick_answers) list \<Rightarrow> evaluator" where
  "run_ticks ticks = fold (\<lambda>(tc, now, ta). evaluate_once tc now ta) ticks idle_evaluator"

section \<open>The webhook\<close>

datatype post_result = Posted | Retryable | Terminal

text \<open>What each attempt would meet; the attempts made and whether one was accepted.\<close>

fun send_loop :: "nat \<Rightarrow> (nat \<Rightarrow> post_result) \<Rightarrow> nat \<Rightarrow> nat \<times> bool" where
  "send_loop 0 answers made = (made, False)"
| "send_loop (Suc left) answers made =
     (case answers made of
        Posted \<Rightarrow> (Suc made, True)
      | Terminal \<Rightarrow> (Suc made, False)
      | Retryable \<Rightarrow> send_loop left answers (Suc made))"

definition send_webhook :: "nat \<Rightarrow> (nat \<Rightarrow> post_result) \<Rightarrow> nat \<times> bool" where
  "send_webhook max_retries answers = send_loop (Suc max_retries) answers 0"

definition post_status :: "nat option \<Rightarrow> post_result" where
  "post_status code1 =
     (case code1 of None \<Rightarrow> Retryable
      | Some n \<Rightarrow> if 500 \<le> n then Retryable else if 300 \<le> n then Terminal else Posted)"

text \<open>An address as its bytes, four or sixteen; an IPv4 address may come in its IPv6 form.\<close>

type_synonym ip = "nat list"

definition to4 :: "ip \<Rightarrow> ip option" where
  "to4 a = (if length a = 4 then Some a
     else if length a = 16 \<and> take 10 a = replicate 10 0 \<and> a ! 10 = 255 \<and> a ! 11 = 255 then Some (drop 12 a) else None)"

definition is_loopback :: "ip \<Rightarrow> bool" where
  "is_loopback a = (case to4 a of Some v \<Rightarrow> v ! 0 = 127 | None \<Rightarrow> a = replicate 15 0 @ [1])"

definition is_link_local :: "ip \<Rightarrow> bool" where
  "is_link_local a =
     (case to4 a of
        Some v \<Rightarrow> (v ! 0 = 169 \<and> v ! 1 = 254) \<or> (v ! 0 = 224 \<and> v ! 1 = 0 \<and> v ! 2 = 0)
      | None \<Rightarrow> length a = 16 \<and> ((a ! 0 = 254 \<and> a ! 1 div 64 = 2) \<or> (a ! 0 = 255 \<and> a ! 1 mod 16 = 2)))"

definition is_private :: "ip \<Rightarrow> bool" where
  "is_private a =
     (case to4 a of
        Some v \<Rightarrow> v ! 0 = 10 \<or> (v ! 0 = 172 \<and> v ! 1 div 16 = 1) \<or> (v ! 0 = 192 \<and> v ! 1 = 168)
      | None \<Rightarrow> length a = 16 \<and> a ! 0 div 2 = 126)"

definition is_unspecified :: "ip \<Rightarrow> bool" where
  "is_unspecified a = (case to4 a of Some v \<Rightarrow> v = [0, 0, 0, 0] | None \<Rightarrow> a = replicate 16 0)"

definition blocked_ip :: "ip \<Rightarrow> bool" where
  "blocked_ip a \<longleftrightarrow> is_loopback a \<or> is_link_local a \<or> is_private a \<or> is_unspecified a"

text \<open>The dial of a resolved address: the parser of addresses and the containment of networks are arguments.\<close>

definition dial_allowed :: "('net \<Rightarrow> ip \<Rightarrow> bool) \<Rightarrow> 'net list \<Rightarrow> ip option \<Rightarrow> bool" where
  "dial_allowed contains_ip allow addr =
     (case addr of None \<Rightarrow> False | Some a \<Rightarrow> list_ex (\<lambda>n. contains_ip n a) allow \<or> \<not> blocked_ip a)"

end
