(* ===== verification/AlertTickLaws.thy ===== *)
theory AlertTickLaws
  imports AlertTick
begin

text \<open>
  Laws of the evaluator. Both kinds of budget are the same machine, a step for each of a list of
  rules; the locale states what the tick needs of such a machine and is interpreted by both. One tick
  then relates every key of the stored states to the notifications made for it, whichever of the
  three sources owns the key.
\<close>

section \<open>States of keys\<close>

definition firing :: "alert_state \<Rightarrow> string \<times> string \<Rightarrow> bool" where
  "firing st k \<longleftrightarrow> (case map_of st k of None \<Rightarrow> False | Some s \<Rightarrow> ts_status s = ''firing'')"

definition kinds_of :: "string \<times> string \<Rightarrow> notification list \<Rightarrow> string list" where
  "kinds_of k ns = map nt_kind (notes_of k ns)"

lemma kinds_of_append [simp]: "kinds_of k (xs @ ys) = kinds_of k xs @ kinds_of k ys"
  by (simp add: kinds_of_def)

lemma kinds_of_Nil [simp]: "kinds_of k [] = []"
  by (simp add: kinds_of_def)

definition fired_state :: "alert_state \<Rightarrow> string \<times> string \<Rightarrow> instant \<Rightarrow> target_state" where
  "fired_state prev k now =
     (case map_of prev k of
        Some s \<Rightarrow> if ts_status s = ''firing'' then s else \<lparr>ts_status = ''firing'', ts_since = now, ts_last_notified = now\<rparr>
      | None \<Rightarrow> \<lparr>ts_status = ''firing'', ts_since = now, ts_last_notified = now\<rparr>)"

text \<open>A next state: one entry for a key, none of them an explicit ok.\<close>

definition live :: "alert_state \<Rightarrow> bool" where
  "live st \<longleftrightarrow> distinct (map fst st) \<and> (\<forall>kv\<in>set st. ts_status (snd kv) \<noteq> ''ok'')"

lemma set_update_subset: "set (AList.update k v st) \<subseteq> insert (k, v) (set st)"
  by (induction st) auto

lemma live_update: "live st \<Longrightarrow> ts_status v \<noteq> ''ok'' \<Longrightarrow> live (AList.update k v st)"
  using set_update_subset [of k v st] by (fastforce simp: live_def distinct_update)

lemma fired_state_fires [simp]: "ts_status (fired_state prev k now) = ''firing''"
  by (simp add: fired_state_def split: option.split)

section \<open>The machine of budgets\<close>

text \<open>A rule of a budget: its key and channel, whether it is crossed, and what it says.\<close>

type_synonym budget_rule = "(string \<times> string) \<times> string \<times> bool \<times> string \<times> target_reason"

definition rule_step :: "alert_state \<Rightarrow> instant \<Rightarrow> budget_rule \<Rightarrow> alert_state \<times> notification list \<Rightarrow> alert_state \<times> notification list" where
  "rule_step prev now r acc = (case r of ((rule, target), ch, crossed, status, reason) \<Rightarrow>
     green_rule_step prev rule target ch crossed status reason now acc)"

definition rule_key :: "budget_rule \<Rightarrow> string \<times> string" where "rule_key r = fst r"

definition rule_crossed :: "budget_rule \<Rightarrow> bool" where "rule_crossed r = fst (snd (snd r))"

lemma ai_rule_is_green: "ai_rule_step = green_rule_step"
  by (intro ext) (simp add: ai_rule_step_def green_rule_step_def)

lemma rule_step_state:
  "map_of (fst (rule_step prev now r acc)) k =
     (if k = rule_key r \<and> rule_crossed r then Some (fired_state prev k now) else map_of (fst acc) k)"
  by (auto simp: rule_step_def green_rule_step_def rule_key_def rule_crossed_def fired_state_def no_state_def Let_def update_conv'
      split: prod.splits option.splits)

lemma firing_status: "ts_status (case map_of prev k of None \<Rightarrow> no_state | Some s \<Rightarrow> s) = ''firing'' \<longleftrightarrow> firing prev k"
  by (simp add: firing_def no_state_def split: option.split)

lemma green_rule_kinds:
  "kinds_of k (snd (green_rule_step prev rule target ch crossed status reason now acc)) =
     kinds_of k (snd acc) @ (if k = (rule, target) then kind_of_step (firing prev k) crossed else [])"
  unfolding green_rule_step_def Let_def firing_status
  by (cases acc; cases k; cases "firing prev (rule, target)"; cases crossed)
    (auto simp: kinds_of_def notes_of_def kind_of_step_def)

lemma rule_step_kinds:
  "kinds_of k (snd (rule_step prev now r acc)) =
     kinds_of k (snd acc) @ (if k = rule_key r then kind_of_step (firing prev k) (rule_crossed r) else [])"
proof -
  obtain rule target ch crossed status reason where "r = ((rule, target), ch, crossed, status, reason)" by (metis surj_pair)
  then show ?thesis by (simp add: rule_step_def rule_key_def rule_crossed_def green_rule_kinds)
qed

lemma rule_step_live: "live (fst acc) \<Longrightarrow> live (fst (rule_step prev now r acc))"
  by (auto simp: rule_step_def green_rule_step_def no_state_def Let_def split: prod.splits option.splits intro!: live_update)

lemma find_key_None: "find (\<lambda>r. f r = k) xs = None \<longleftrightarrow> k \<notin> set (map f xs)"
  by (induction xs) auto

lemma find_key_Some: "distinct (map f xs) \<Longrightarrow> x \<in> set xs \<Longrightarrow> find (\<lambda>r. f r = f x) xs = Some x"
  by (induction xs) force+

lemma rules_fold:
  assumes "distinct (map rule_key rs)"
  shows "map_of (fst (fold (rule_step prev now) rs acc)) k =
      (case find (\<lambda>r. rule_key r = k) rs of
         Some r \<Rightarrow> if rule_crossed r then Some (fired_state prev k now) else map_of (fst acc) k
       | None \<Rightarrow> map_of (fst acc) k) \<and>
    kinds_of k (snd (fold (rule_step prev now) rs acc)) = kinds_of k (snd acc) @
      (case find (\<lambda>r. rule_key r = k) rs of Some r \<Rightarrow> kind_of_step (firing prev k) (rule_crossed r) | None \<Rightarrow> [])"
  using assms
proof (induction rs arbitrary: acc)
  case (Cons r rs)
  have none: "find (\<lambda>q. rule_key q = rule_key r) rs = None" using Cons.prems unfolding find_key_None by simp
  from Cons.prems have d: "distinct (map rule_key rs)" by simp
  show ?case
  proof (cases "rule_key r = k")
    case True
    with none Cons.IH [OF d, of "rule_step prev now r acc"] show ?thesis
      by (simp add: rule_step_state rule_step_kinds)
  next
    case False
    then have "k \<noteq> rule_key r" by simp
    with False Cons.IH [OF d, of "rule_step prev now r acc"] show ?thesis
      by (simp add: rule_step_state rule_step_kinds split: option.split)
  qed
qed simp

lemma rules_live: "live (fst acc) \<Longrightarrow> live (fst (fold (rule_step prev now) rs acc))"
  by (induction rs arbitrary: acc) (simp_all add: rule_step_live)

definition green_rules :: "(string \<rightharpoonup> float64) \<Rightarrow> green_budget \<Rightarrow> budget_rule list" where
  "green_rules used b =
     (let reason = BudgetReason (gb_name b) (gb_group b) ''kgCO2e'' (green_ratio used b) (or_zero used (gb_group b)) (gb_monthly b) False
      in if gb_monthly b \<le> 0 then []
         else [((green_prefix @ gb_name b @ warn_suffix, green_target b), gb_channel b, green_warn b \<le> green_ratio used b, ''warn'', reason),
               ((green_prefix @ gb_name b @ over_suffix, green_target b), gb_channel b, 1 \<le> green_ratio used b, ''exceeded'', reason)])"

definition ai_rules :: "ai_usage \<Rightarrow> ai_budget \<Rightarrow> budget_rule list" where
  "ai_rules u b =
     (let reason = ai_reason b (fst (ai_used u b)) (ai_ratio u b) (snd (ai_used u b))
      in if ai_limit b \<le> 0 then []
         else [((ai_prefix @ ab_name b @ warn_suffix, ai_target b), ab_channel b, ai_warn b \<le> ai_ratio u b, ''warn'', reason),
               ((ai_prefix @ ab_name b @ over_suffix, ai_target b), ab_channel b, 1 \<le> ai_ratio u b, ''exceeded'', reason)])"

lemma green_budget_rules: "eval_green_budget used prev now b acc = fold (rule_step prev now) (green_rules used b) acc"
  by (simp add: eval_green_budget_def green_rules_def rule_step_def Let_def)

lemma ai_budget_rules: "eval_ai_budget u prev now b acc = fold (rule_step prev now) (ai_rules u b) acc"
  by (simp add: eval_ai_budget_def ai_rules_def rule_step_def ai_rule_is_green Let_def)

lemma fold_concat_rules:
  assumes "\<And>b acc. step b acc = fold (rule_step prev now) (rules b) acc"
  shows "fold step bs acc = fold (rule_step prev now) (concat (map rules bs)) acc"
  by (induction bs arbitrary: acc) (simp_all add: assms)

text \<open>A source of budgets: its rules for a configuration and a usage, and the prefix that marks its keys.\<close>

locale budget_machine =
  fixes eval :: "'c \<Rightarrow> 'u \<Rightarrow> alert_state \<Rightarrow> instant \<Rightarrow> alert_state \<times> notification list"
    and rules :: "'c \<Rightarrow> 'u \<Rightarrow> budget_rule list"
    and keys :: "'c \<Rightarrow> (string \<times> string) list"
    and valid :: "'c \<Rightarrow> bool"
    and prefix :: string
  assumes eval_rules: "eval c u prev now = fold (rule_step prev now) (rules c u) ([], [])"
    and rule_keys: "valid c \<Longrightarrow> map rule_key (rules c u) = keys c"
    and keys_distinct: "valid c \<Longrightarrow> distinct (keys c)"
    and keys_prefixed: "k \<in> set (keys c) \<Longrightarrow> has_prefix prefix (fst k)"
begin

lemma eval_live: "live (fst (eval c u prev now))"
  using rules_live [of "([], [])"] by (simp add: eval_rules live_def)

lemma eval_state:
  assumes "valid c"
  shows "map_of (fst (eval c u prev now)) k =
     (case find (\<lambda>r. rule_key r = k) (rules c u) of
        Some r \<Rightarrow> if rule_crossed r then Some (fired_state prev k now) else None | None \<Rightarrow> None)"
  using rules_fold [of "rules c u" prev now "([], [])" k] rule_keys [OF assms] keys_distinct [OF assms]
  by (auto simp: eval_rules split: option.splits)

lemma eval_kinds:
  assumes "valid c"
  shows "kinds_of k (snd (eval c u prev now)) =
     (if k \<in> set (keys c) then kind_of_step (firing prev k) (firing (fst (eval c u prev now)) k) else [])"
proof -
  have k: "find (\<lambda>r. rule_key r = k) (rules c u) = None \<longleftrightarrow> k \<notin> set (keys c)"
    unfolding find_key_None rule_keys [OF assms] ..
  have "kinds_of k (snd (eval c u prev now)) =
      (case find (\<lambda>r. rule_key r = k) (rules c u) of Some r \<Rightarrow> kind_of_step (firing prev k) (rule_crossed r) | None \<Rightarrow> [])"
    using rules_fold [of "rules c u" prev now "([], [])" k] rule_keys [OF assms] keys_distinct [OF assms]
    by (auto simp: eval_rules split: option.splits)
  with k eval_state [OF assms, of u prev now k] show ?thesis by (auto simp: firing_def split: option.splits)
qed

lemma eval_foreign:
  assumes "valid c" "k \<notin> set (keys c)"
  shows "map_of (fst (eval c u prev now)) k = None"
proof -
  have "find (\<lambda>r. rule_key r = k) (rules c u) = None"
    unfolding find_key_None rule_keys [OF assms(1)] by (rule assms(2))
  with eval_state [OF assms(1)] show ?thesis by simp
qed

end

definition green_keys :: "green_config \<Rightarrow> (string \<times> string) list" where
  "green_keys c = concat (map (\<lambda>b. [(green_prefix @ gb_name b @ warn_suffix, green_target b), (green_prefix @ gb_name b @ over_suffix, green_target b)]) (gc_budgets c))"

definition ai_keys :: "ai_config \<Rightarrow> (string \<times> string) list" where
  "ai_keys c = concat (map (\<lambda>b. [(ai_prefix @ ab_name b @ warn_suffix, ai_target b), (ai_prefix @ ab_name b @ over_suffix, ai_target b)]) (ai_budgets c))"

lemma suffixes_apart: "xs @ warn_suffix \<noteq> ys @ over_suffix"
proof
  assume "xs @ warn_suffix = ys @ over_suffix"
  then have "last (xs @ warn_suffix) = last (ys @ over_suffix)" by simp
  then show False by (simp add: warn_suffix_def over_suffix_def)
qed

lemma pair_keys_distinct:
  assumes "distinct (map nm bs)"
  shows "distinct (concat (map (\<lambda>b. [(p @ nm b @ warn_suffix, tg b), (p @ nm b @ over_suffix, tg b)]) bs))"
  using assms
proof (induction bs)
  case (Cons b bs)
  have "(p @ nm b @ sf, tg b) \<notin> set (concat (map (\<lambda>b. [(p @ nm b @ warn_suffix, tg b), (p @ nm b @ over_suffix, tg b)]) bs))"
    if "sf = warn_suffix \<or> sf = over_suffix" for sf
    using Cons.prems that suffixes_apart suffixes_apart [symmetric] by fastforce
  note apart = this [of warn_suffix] this [of over_suffix]
  with Cons suffixes_apart [of "nm b" "nm b"] show ?case by simp
qed simp

lemma valid_green_budgets:
  "validate_green_budgets i seen bs = None \<Longrightarrow> distinct (map gb_name bs) \<and> (\<forall>b\<in>set bs. gb_name b \<notin> set seen \<and> 0 < gb_monthly b)"
  by (induction i seen bs rule: validate_green_budgets.induct) (auto split: if_splits)

lemma valid_ai_budgets:
  "validate_ai_budgets pr i seen bs = None \<Longrightarrow> distinct (map (\<lambda>b. trim_space (ab_name b)) bs) \<and>
     (\<forall>b\<in>set bs. trim_space (ab_name b) \<notin> set seen \<and> (0 < ab_tokens b \<or> 0 < ab_cost b))"
  by (induction pr i seen bs rule: validate_ai_budgets.induct) (auto simp: Let_def split: if_splits)


lemma green_rules_keys:
  assumes "validate_green c = None"
  shows "map rule_key (concat (map (green_rules used) (gc_budgets c))) = green_keys c" and "distinct (green_keys c)"
proof -
  have b: "distinct (map gb_name (gc_budgets c))" "\<forall>b\<in>set (gc_budgets c). 0 < gb_monthly b"
    using assms valid_green_budgets [of 0 "[]" "gc_budgets c"] by (auto simp: validate_green_def split: if_splits option.splits)
  show "map rule_key (concat (map (green_rules used) (gc_budgets c))) = green_keys c"
    using b(2) by (auto simp: green_keys_def green_rules_def rule_key_def Let_def map_concat comp_def not_le intro!: arg_cong [of _ _ concat])
  show "distinct (green_keys c)" unfolding green_keys_def by (rule pair_keys_distinct [OF b(1)])
qed

lemma ai_limit_positive:
  assumes "0 < ab_tokens b \<or> 0 < ab_cost b"
  shows "0 < ai_limit b"
proof (cases "is_cost b")
  case False
  with assms have "(1 :: rat) \<le> of_int (ab_tokens b)" by (auto simp: is_cost_def)
  then have "fl 1 \<le> fl (of_int (ab_tokens b))" by (rule fl_mono)
  with False show ?thesis by (simp add: ai_limit_def float_of_int_def)
qed (simp add: ai_limit_def is_cost_def)

lemma ai_rules_keys:
  assumes "validate_ai c = None"
  shows "map rule_key (concat (map (ai_rules u) (ai_budgets c))) = ai_keys c" and "distinct (ai_keys c)"
proof -
  have b: "distinct (map trim_space (map ab_name (ai_budgets c)))" "\<forall>b\<in>set (ai_budgets c). 0 < ai_limit b"
    using assms valid_ai_budgets [of "ai_priced c" 0 "[]" "ai_budgets c"] ai_limit_positive
    by (auto simp: validate_ai_def comp_def split: option.splits)
  then have d: "distinct (map ab_name (ai_budgets c))" by (simp only: distinct_map [of trim_space])
  show "map rule_key (concat (map (ai_rules u) (ai_budgets c))) = ai_keys c"
    using b(2) by (auto simp: ai_keys_def ai_rules_def rule_key_def Let_def map_concat comp_def not_le intro!: arg_cong [of _ _ concat])
  show "distinct (ai_keys c)" unfolding ai_keys_def by (rule pair_keys_distinct [OF d])
qed

lemma prefixed_pairs:
  "k \<in> set (concat (map (\<lambda>b. [(p @ nm b @ warn_suffix, tg b), (p @ nm b @ over_suffix, tg b)]) bs)) \<Longrightarrow> has_prefix p (fst k)"
  by auto

interpretation green: budget_machine evaluate_green_budgets "\<lambda>c used. concat (map (green_rules used) (gc_budgets c))" green_keys
  "\<lambda>c. validate_green c = None" green_prefix
proof
  show "evaluate_green_budgets c u prev now = fold (rule_step prev now) (concat (map (green_rules u) (gc_budgets c))) ([], [])" for c u prev now
    unfolding evaluate_green_budgets_def by (rule fold_concat_rules [OF green_budget_rules])
  show "k \<in> set (green_keys c) \<Longrightarrow> has_prefix green_prefix (fst k)" for k c unfolding green_keys_def by (rule prefixed_pairs)
qed (fact green_rules_keys)+

interpretation ai: budget_machine evaluate_ai_budgets "\<lambda>c u. concat (map (ai_rules u) (ai_budgets c))" ai_keys
  "\<lambda>c. validate_ai c = None" ai_prefix
proof
  show "evaluate_ai_budgets c u prev now = fold (rule_step prev now) (concat (map (ai_rules u) (ai_budgets c))) ([], [])" for c u prev now
    unfolding evaluate_ai_budgets_def by (rule fold_concat_rules [OF ai_budget_rules])
  show "k \<in> set (ai_keys c) \<Longrightarrow> has_prefix ai_prefix (fst k)" for k c unfolding ai_keys_def by (rule prefixed_pairs)
qed (fact ai_rules_keys)+

section \<open>Merging into the next state\<close>

lemma merge_ai_is_green: "merge_ai_key = merge_green_key"
  by (intro ext) (simp add: merge_ai_key_def merge_green_key_def)

lemma merge_live:
  "live nxt \<Longrightarrow> \<forall>kv\<in>set st. ts_status (snd kv) \<noteq> ''ok'' \<Longrightarrow> live (fold merge_green_key st nxt)"
  by (induction st arbitrary: nxt) (auto simp: merge_green_key_def intro: live_update)

lemma merge_lookup:
  "map_of (fold merge_green_key st nxt) k = (case map_of nxt k of Some v \<Rightarrow> Some v | None \<Rightarrow> map_of st k)"
proof (induction st arbitrary: nxt)
  case (Cons kv st)
  then show ?case by (cases kv) (auto simp: merge_green_key_def update_conv' split: option.splits)
qed (simp split: option.split)

lemma carried: "map_of (filter (\<lambda>(k, v). P (fst k)) prev) k = (if P (fst k) then map_of prev k else None)"
  by (induction prev) auto

section \<open>The table\<close>

lemma load_lookup:
  assumes "distinct (map fst tab)"
  shows "map_of (load_alert_states t tab) (r, g) =
     (case map_of tab (t, r, g) of Some st \<Rightarrow> if ts_status st \<noteq> ''ok'' then Some st else None | None \<Rightarrow> None)"
  using assms
proof (induction tab)
  case (Cons row tab)
  obtain t' r' g' st where row: "row = ((t', r', g'), st)" by (metis surj_pair)
  have l: "load_alert_states t (row # tab) = (if t' = t \<and> ts_status st \<noteq> ''ok'' then [((r', g'), st)] else []) @ load_alert_states t tab"
    by (simp add: load_alert_states_def row)
  have ih: "map_of (load_alert_states t tab) (r, g) =
     (case map_of tab (t, r, g) of Some st \<Rightarrow> if ts_status st \<noteq> ''ok'' then Some st else None | None \<Rightarrow> None)"
    using Cons by simp
  show ?case
  proof (cases "(t', r', g') = (t, r, g)")
    case True
    with Cons.prems have "map_of tab (t, r, g) = None" by (simp add: row map_of_eq_None_iff)
    with True ih show ?thesis unfolding l by (simp add: row)
  next
    case False
    then have "map_of (row # tab) (t, r, g) = map_of tab (t, r, g)" by (auto simp: row)
    moreover have "map_of (load_alert_states t (row # tab)) (r, g) = map_of (load_alert_states t tab) (r, g)"
      using False by (auto simp: l)
    ultimately show ?thesis using ih by simp
  qed
qed (simp add: load_alert_states_def)

lemma load_live:
  assumes "distinct (map fst tab)"
  shows "live (load_alert_states t tab)"
  using assms
proof (induction tab)
  case (Cons row tab)
  obtain t' r g st where row: "row = ((t', r, g), st)" by (metis surj_pair)
  have "(r, g) \<notin> set (map fst (load_alert_states t tab))" if "t' = t"
    using Cons.prems that unfolding row by (force simp: load_alert_states_def)
  with Cons show ?case by (auto simp: row live_def load_alert_states_def)
qed (simp add: load_alert_states_def live_def)

lemma save_distinct: "distinct (map fst tab) \<Longrightarrow> distinct (map fst (save_alert_states t rows tab))"
  by (induction rows arbitrary: tab) (auto simp: save_alert_states_def distinct_update split: prod.splits)

lemma save_lookup:
  assumes "distinct (map fst rows)"
  shows "map_of (save_alert_states t rows tab) (t', k) =
    (if t' = t then (case map_of rows k of Some st \<Rightarrow> Some st | None \<Rightarrow> map_of tab (t', k)) else map_of tab (t', k))"
  using assms
proof (induction rows arbitrary: tab)
  case (Cons row rows)
  obtain r g st where row: "row = ((r, g), st)" by (metis surj_pair)
  have "save_alert_states t (row # rows) tab = save_alert_states t rows (AList.update (t, r, g) st tab)"
    by (simp add: save_alert_states_def row)
  moreover have "distinct (map fst rows)" "map_of rows (r, g) = None" using Cons.prems by (auto simp: row map_of_eq_None_iff)
  ultimately show ?case using Cons.IH [of "AList.update (t, r, g) st tab"]
    by (auto simp: row update_conv' simp del: distinct_map split: option.split)
qed (simp add: save_alert_states_def)

text \<open>What is loaded after a save is the next state; other tenants keep theirs.\<close>

lemma saved_then_loaded:
  assumes tab: "distinct (map fst tab)" and nxt: "live nxt" and prev: "prev = load_alert_states t tab"
  shows "map_of (load_alert_states t' (save_alert_states t (diff_to_save prev nxt now) tab)) k =
    (if t' = t then map_of nxt k else map_of (load_alert_states t' tab) k)"
proof -
  have p: "live prev" using load_live [OF tab] prev by simp
  let ?gone = "filter (\<lambda>(k, v). map_of nxt k = None) prev"
  have keys: "map fst (diff_to_save prev nxt now) = map fst nxt @ map fst ?gone"
    by (simp add: diff_to_save_def comp_def case_prod_beta')
  have d: "distinct (map fst (diff_to_save prev nxt now))"
  proof -
    have "fst kv \<notin> set (map fst nxt)" if "kv \<in> set ?gone" for kv
    proof -
      have "map_of nxt (fst kv) = None" using that by (simp add: case_prod_beta')
      then show ?thesis by (simp add: map_of_eq_None_iff)
    qed
    then have "set (map fst nxt) \<inter> fst ` set ?gone = {}" by blast
    then have "set (map fst nxt) \<inter> set (map fst ?gone) = {}" by (simp only: set_map)
    moreover have "distinct (map fst nxt)" "distinct (map fst ?gone)" using nxt p by (simp_all add: live_def distinct_map_filter)
    ultimately show ?thesis unfolding keys by (simp only: distinct_append simp_thms)
  qed
  have rows: "map_of (diff_to_save prev nxt now) j =
      (case map_of nxt j of Some st \<Rightarrow> Some st
       | None \<Rightarrow> map_option (\<lambda>v. \<lparr>ts_status = ''ok'', ts_since = now, ts_last_notified = ts_last_notified v\<rparr>) (map_of prev j))" for j
  proof -
    have "map_of (map (\<lambda>(k, v). (k, f v)) (filter (\<lambda>(k, v). map_of nxt k = None) q)) j =
        (if map_of nxt j = None then map_option f (map_of q j) else None)" for f q
      by (induction q) auto
    note r = this [of "\<lambda>v. \<lparr>ts_status = ''ok'', ts_since = now, ts_last_notified = ts_last_notified v\<rparr>" prev]
    show ?thesis unfolding diff_to_save_def map_of_append map_add_def r by (simp split: option.split)
  qed
  obtain r g where k: "k = (r, g)" by (cases k)
  have ok: "ts_status st \<noteq> ''ok''" if "map_of nxt (r, g) = Some st" for st
    using nxt that by (auto simp: live_def dest: map_of_SomeD)
  have old: "map_of prev (r, g) = (case map_of tab (t, r, g) of Some st \<Rightarrow> if ts_status st \<noteq> ''ok'' then Some st else None | None \<Rightarrow> None)"
    unfolding prev by (rule load_lookup [OF tab])
  show ?thesis
    using ok old load_lookup [OF tab, of t' r g] load_lookup [OF save_distinct [OF tab], of t' t "diff_to_save prev nxt now" r g]
    by (auto simp: k save_lookup [OF d] rows split: option.splits if_splits)
qed


section \<open>One tick of a tenant\<close>

text \<open>What a source may change: a stage adds only keys of its own, and says of each of them what changed. The keys
  it may carry from the stored state without owning them (those of budgets no longer configured) are
  \<open>carries\<close>; of a key that has no stored state it carries nothing.\<close>

definition stage_ok :: "alert_state \<Rightarrow> (string \<times> string) set \<Rightarrow> (string \<times> string \<Rightarrow> bool) \<Rightarrow>
    alert_state \<times> notification list \<Rightarrow> alert_state \<times> notification list \<Rightarrow> bool" where
  "stage_ok prev own carries before1 after1 \<longleftrightarrow>
     (\<forall>k. if k \<in> own then map_of (fst before1) k = None \<longrightarrow>
            kinds_of k (snd after1) = kinds_of k (snd before1) @ kind_of_step (firing prev k) (firing (fst after1) k)
          else (carries k \<longrightarrow> map_of prev k = None) \<longrightarrow>
            map_of (fst after1) k = map_of (fst before1) k \<and> kinds_of k (snd after1) = kinds_of k (snd before1)) \<and>
     (live (fst before1) \<longrightarrow> live (fst after1))"

text \<open>The keys a configuration has rules for.\<close>

definition hook_green_keys :: "green_config option \<Rightarrow> (string \<times> string) set" where
  "hook_green_keys hook = (case hook of None \<Rightarrow> {} | Some c \<Rightarrow> set (green_keys c))"

definition hook_ai_keys :: "ai_config option \<Rightarrow> (string \<times> string) set" where
  "hook_ai_keys hook = (case hook of None \<Rightarrow> {} | Some c \<Rightarrow> set (ai_keys c))"

lemma kind_of_step_same [simp]: "kind_of_step b b = []"
  by (simp add: kind_of_step_def)

lemma firing_lookup: "map_of st k = map_of st' k' \<Longrightarrow> firing st k = firing st' k'"
  by (simp add: firing_def)

context budget_machine begin

text \<open>Merging what the machine says of a usage, or carrying the prior keys when there is none.\<close>

lemma merge_stage:
  assumes v: "valid c" and prev: "live prev"
  shows "stage_ok prev (set (keys c)) (\<lambda>k. has_prefix prefix (fst k)) (nxt, ns)
    (case u of None \<Rightarrow> (fold merge_green_key (filter (\<lambda>(k, v). has_prefix prefix (fst k)) prev) nxt, ns)
     | Some u1 \<Rightarrow> (fold merge_green_key (fst (eval c u1 prev now)) nxt, ns @ snd (eval c u1 prev now)))"
proof (cases u)
  case None
  have c1: "map_of (filter (\<lambda>(k, v). has_prefix prefix (fst k)) prev) k = (if has_prefix prefix (fst k) then map_of prev k else None)" for k
    by (rule carried)
  have l: "live nxt \<Longrightarrow> live (fold merge_green_key (filter (\<lambda>(k, v). has_prefix prefix (fst k)) prev) nxt)"
    using prev by (intro merge_live) (auto simp: live_def)
  have own: "firing (fold merge_green_key (filter (\<lambda>(k, v). has_prefix prefix (fst k)) prev) nxt) k = firing prev k"
    if "k \<in> set (keys c)" "map_of nxt k = None" for k
    using that keys_prefixed [OF that(1)] by (intro firing_lookup) (simp add: merge_lookup c1)
  have other: "map_of (fold merge_green_key (filter (\<lambda>(k, v). has_prefix prefix (fst k)) prev) nxt) k = map_of nxt k" if "has_prefix prefix (fst k) \<longrightarrow> map_of prev k = None" for k
  proof -
    have "(if has_prefix prefix (fst k) then map_of prev k else None) = None" using that by simp
    then show ?thesis by (simp add: merge_lookup c1 split: option.split)
  qed
  show ?thesis using None l own other by (simp add: stage_ok_def)
next
  case (Some u1)
  have l: "live nxt \<Longrightarrow> live (fold merge_green_key (fst (eval c u1 prev now)) nxt)"
    using eval_live by (intro merge_live) (auto simp: live_def)
  have own: "firing (fold merge_green_key (fst (eval c u1 prev now)) nxt) k = firing (fst (eval c u1 prev now)) k" if "map_of nxt k = None" for k
    using that by (intro firing_lookup) (simp add: merge_lookup)
  have other: "map_of (fold merge_green_key (fst (eval c u1 prev now)) nxt) k = map_of nxt k" if "k \<notin> set (keys c)" for k
    using eval_foreign [OF v that, of u1 prev now] by (simp add: merge_lookup split: option.split)
  show ?thesis using Some l own other eval_kinds [OF v, of _ u1 prev now] by (simp add: stage_ok_def)
qed

end

lemma stage_refl: "stage_ok prev {} carries acc acc"
  by (simp add: stage_ok_def)


section \<open>The whole tick\<close>

text \<open>The configuration as the hub loads it: each part valid, and no health rule named in a reserved prefix.\<close>

definition tick_config_ok :: "tick_config \<Rightarrow> bool" where
  "tick_config_ok tc \<longleftrightarrow> validate_alerts (tc_alerts tc) = None \<and>
     (case tc_green tc of None \<Rightarrow> True | Some c \<Rightarrow> validate_green c = None) \<and>
     (case tc_ai tc of None \<Rightarrow> True | Some c \<Rightarrow> validate_ai c = None) \<and>
     (\<forall>r\<in>set (ac_rules (tc_alerts tc)). \<not> has_prefix green_prefix (ar_name r) \<and> \<not> has_prefix ai_prefix (ar_name r))"

definition configured :: "tick_config \<Rightarrow> (string \<times> string) set" where
  "configured tc = {k. fst k \<in> ar_name ` set (ac_rules (tc_alerts tc))} \<union> hook_green_keys (tc_green tc) \<union> hook_ai_keys (tc_ai tc)"

lemma eval_target_kinds:
  "map nt_kind (opt_list (snd (eval_target r targets prev now t))) =
     kind_of_step (firing prev (ar_name r, t)) (case fst (eval_target r targets prev now t) of None \<Rightarrow> False | Some s \<Rightarrow> ts_status s = ''firing'')"
  by (auto simp: eval_target_def Let_def firing_def kind_of_step_def fire_def resolve_note_def split: option.splits)

lemma eval_target_status: "fst (eval_target r targets prev now t) = Some s \<Longrightarrow> ts_status s = ''pending'' \<or> ts_status s = ''firing''"
  by (auto simp: eval_target_def Let_def split: if_splits)

lemma evaluate_live: "live (fst (evaluate cfg rep prev now))"
proof -
  have step: "live (fst acc) \<Longrightarrow> live (fst (eval_step r targets prev now acc t))" for acc r targets t
    using eval_target_status [of r targets prev now t]
    by (auto simp: eval_step_def split: prod.splits option.splits intro!: live_update)
  have targets: "live (fst acc) \<Longrightarrow> live (fst (foldl (eval_step r targets prev now) acc ts))" for acc r targets ts
    by (induction ts arbitrary: acc) (simp_all add: step)
  have rules: "live (fst acc) \<Longrightarrow> live (fst (foldl (eval_rule targets prev now) acc rs))" for acc rs targets
    by (induction rs arbitrary: acc) (simp_all add: eval_rule_def targets)
  have "live (fst ([] :: alert_state, [] :: notification list))" by (simp add: live_def)
  from rules [OF this] show ?thesis by (simp only: evaluate_def)
qed

lemma evaluate_stage:
  assumes "validate_alerts cfg = None"
  shows "stage_ok prev {k. fst k \<in> ar_name ` set (ac_rules cfg)} (\<lambda>_. False) ([], []) (evaluate cfg rep prev now)"
proof -
  have own: "kinds_of k (snd (evaluate cfg rep prev now)) = kind_of_step (firing prev k) (firing (fst (evaluate cfg rep prev now)) k)"
    if "fst k \<in> ar_name ` set (ac_rules cfg)" for k
  proof -
    from that obtain r where r: "fst k = ar_name r" "r \<in> set (ac_rules cfg)" by (rule imageE)
    then have k: "k = (ar_name r, snd k)" by (simp add: prod_eq_iff)
    note e = evaluate_key [OF valid_distinct [OF assms] r(2), where rep = rep and prev = prev and now = now and t = "snd k", folded k]
    show ?thesis
      using eval_target_kinds [of r "build_targets rep" prev now "snd k", folded k] by (simp add: kinds_of_def firing_def e)
  qed
  have other: "map_of (fst (evaluate cfg rep prev now)) k = None \<and> kinds_of k (snd (evaluate cfg rep prev now)) = []"
    if "fst k \<notin> ar_name ` set (ac_rules cfg)" for k
  proof -
    have "\<forall>r\<in>set (ac_rules cfg). ar_name r \<noteq> fst k" using that by (metis image_eqI)
    from eval_rules_other [OF this, of "build_targets rep" prev now "([], [])"] show ?thesis
      by (simp add: evaluate_def kinds_of_def)
  qed
  show ?thesis using own other evaluate_live by (simp add: stage_ok_def)
qed

lemma ai_usage_same: "ai_usage_get cache t now i c = (case cache t of
      Some (t', u) \<Rightarrow> if 0 < i \<and> time_sub now t' < i then (Some u, cache) else (case c of None \<Rightarrow> (None, cache) | Some u \<Rightarrow> (Some u, cache(t \<mapsto> (now, u))))
    | None \<Rightarrow> (case c of None \<Rightarrow> (None, cache) | Some u \<Rightarrow> (Some u, cache(t \<mapsto> (now, u)))))"
  by (simp add: ai_usage_get_def Let_def)

lemma green_stage:
  assumes "case hook of None \<Rightarrow> True | Some c \<Rightarrow> validate_green c = None" and "live prev"
  shows "stage_ok prev (hook_green_keys hook) (\<lambda>k. has_prefix green_prefix (fst k)) (nxt, notes) (snd (eval_green_budgets hook t now computed prev (cache, nxt, notes)))"
proof (cases hook)
  case None
  then show ?thesis by (simp add: eval_green_budgets_def hook_green_keys_def stage_refl)
next
  case (Some c)
  then have keys: "hook_green_keys hook = set (green_keys c)" by (simp add: hook_green_keys_def)
  show ?thesis
  proof (cases "gc_budgets c = []")
    case True
    then show ?thesis by (simp add: Some eval_green_budgets_def hook_green_keys_def green_keys_def stage_refl)
  next
    case False
    obtain u cache' where u: "green_usage_get cache t now (green_check_interval c) computed = (u, cache')" by fastforce
    have "snd (eval_green_budgets hook t now computed prev (cache, nxt, notes)) =
        (case map_option gu_used u of
           None \<Rightarrow> (fold merge_green_key (filter (\<lambda>(k, v). has_prefix green_prefix (fst k)) prev) nxt, notes)
         | Some u1 \<Rightarrow> (fold merge_green_key (fst (evaluate_green_budgets c u1 prev now)) nxt, notes @ snd (evaluate_green_budgets c u1 prev now)))"
      using False u by (cases u) (simp_all add: Some eval_green_budgets_def case_prod_beta')
    moreover have "validate_green c = None" using assms(1) Some by simp
    ultimately show ?thesis
      using green.merge_stage [where c = c and prev = prev and u = "map_option gu_used u" and now = now and nxt = nxt and ns = "notes"] assms(2)
      unfolding keys by presburger
  qed
qed

lemma ai_stage:
  assumes "case hook of None \<Rightarrow> True | Some c \<Rightarrow> validate_ai c = None" and "live prev"
  shows "stage_ok prev (hook_ai_keys hook) (\<lambda>k. has_prefix ai_prefix (fst k)) (nxt, notes) (snd (eval_ai_budgets hook t now computed prev (cache, nxt, notes)))"
proof (cases hook)
  case None
  then show ?thesis by (simp add: eval_ai_budgets_def hook_ai_keys_def stage_refl)
next
  case (Some c)
  then have keys: "hook_ai_keys hook = set (ai_keys c)" by (simp add: hook_ai_keys_def)
  show ?thesis
  proof (cases "ai_budgets c = []")
    case True
    then show ?thesis by (simp add: Some eval_ai_budgets_def hook_ai_keys_def ai_keys_def stage_refl)
  next
    case False
    obtain u cache' where u: "ai_usage_get cache t now (ai_check_interval c) computed = (u, cache')" by fastforce
    have "snd (eval_ai_budgets hook t now computed prev (cache, nxt, notes)) =
        (case u of
           None \<Rightarrow> (fold merge_green_key (filter (\<lambda>(k, v). has_prefix ai_prefix (fst k)) prev) nxt, notes)
         | Some u1 \<Rightarrow> (fold merge_green_key (fst (evaluate_ai_budgets c u1 prev now)) nxt, notes @ snd (evaluate_ai_budgets c u1 prev now)))"
      using False u by (cases u) (simp_all add: Some eval_ai_budgets_def merge_ai_is_green case_prod_beta')
    moreover have "validate_ai c = None" using assms(1) Some by simp
    ultimately show ?thesis
      using ai.merge_stage [where c = c and prev = prev and u = u and now = now and nxt = nxt and ns = "notes"] assms(2)
      unfolding keys by presburger
  qed
qed


lemma prefixes_apart: "has_prefix green_prefix s \<Longrightarrow> \<not> has_prefix ai_prefix s"
  by (auto simp: has_prefix_iff green_prefix_def ai_prefix_def)

lemma hook_keys_prefixed:
  "k \<in> hook_green_keys g \<Longrightarrow> has_prefix green_prefix (fst k)"
  "k \<in> hook_ai_keys a \<Longrightarrow> has_prefix ai_prefix (fst k)"
  by (auto simp: hook_green_keys_def hook_ai_keys_def split: option.splits dest: green.keys_prefixed ai.keys_prefixed)

lemma rule_unreserved:
  assumes "tick_config_ok tc" "fst k \<in> ar_name ` set (ac_rules (tc_alerts tc))"
  shows "\<not> has_prefix green_prefix (fst k)" "\<not> has_prefix ai_prefix (fst k)"
proof -
  from assms(2) obtain r where "fst k = ar_name r" "r \<in> set (ac_rules (tc_alerts tc))" by (rule imageE)
  with assms(1) show "\<not> has_prefix green_prefix (fst k)" "\<not> has_prefix ai_prefix (fst k)" by (simp_all add: tick_config_ok_def)
qed

lemma reserved_names:
  assumes "tick_config_ok tc" "fst k \<in> ar_name ` set (ac_rules (tc_alerts tc))"
  shows "k \<notin> hook_green_keys (tc_green tc)" "k \<notin> hook_ai_keys (tc_ai tc)"
  using rule_unreserved [OF assms] hook_keys_prefixed by blast+

text \<open>The three stages of a tick, from the stored state to the next one.\<close>

definition tick_stages :: "tick_config \<Rightarrow> report \<Rightarrow> string \<Rightarrow> instant \<Rightarrow> tenant_answers \<Rightarrow> evaluator \<Rightarrow> alert_state \<Rightarrow>
    (green_usage usage_cache \<times> alert_state \<times> notification list) \<times> (ai_usage usage_cache \<times> alert_state \<times> notification list)" where
  "tick_stages tc rep t now ans ev prev =
     (let s1 = eval_green_budgets (tc_green tc) t now (ta_green ans) prev (ev_green ev, evaluate (tc_alerts tc) rep prev now)
      in (s1, eval_ai_budgets (tc_ai tc) t now (ta_ai ans) prev (ev_ai ev, snd s1)))"

lemma stages_sound:
  fixes rep :: report and now :: instant and t :: string and ans :: tenant_answers and ev :: evaluator
  assumes tc: "tick_config_ok tc" and prev: "live prev"
  defines "acc0 \<equiv> evaluate (tc_alerts tc) rep prev now"
    and "acc1 \<equiv> snd (fst (tick_stages tc rep t now ans ev prev))"
    and "acc2 \<equiv> snd (snd (tick_stages tc rep t now ans ev prev))"
  shows "stage_ok prev {k. fst k \<in> ar_name ` set (ac_rules (tc_alerts tc))} (\<lambda>_. False) ([], []) acc0"
    and "stage_ok prev (hook_green_keys (tc_green tc)) (\<lambda>k. has_prefix green_prefix (fst k)) acc0 acc1"
    and "stage_ok prev (hook_ai_keys (tc_ai tc)) (\<lambda>k. has_prefix ai_prefix (fst k)) acc1 acc2"
proof -
  have v: "validate_alerts (tc_alerts tc) = None" "case tc_green tc of None \<Rightarrow> True | Some c \<Rightarrow> validate_green c = None"
    "case tc_ai tc of None \<Rightarrow> True | Some c \<Rightarrow> validate_ai c = None"
    using tc by (simp_all add: tick_config_ok_def)
  show "stage_ok prev {k. fst k \<in> ar_name ` set (ac_rules (tc_alerts tc))} (\<lambda>_. False) ([], []) acc0"
    unfolding acc0_def by (rule evaluate_stage [OF v(1)])
  show "stage_ok prev (hook_green_keys (tc_green tc)) (\<lambda>k. has_prefix green_prefix (fst k)) acc0 acc1"
    using green_stage [OF v(2) prev, of "fst acc0" "snd acc0" t now "ta_green ans" "ev_green ev"]
    by (simp add: acc1_def acc0_def tick_stages_def Let_def)
  show "stage_ok prev (hook_ai_keys (tc_ai tc)) (\<lambda>k. has_prefix ai_prefix (fst k)) acc1 acc2"
    using ai_stage [OF v(3) prev, of "fst acc1" "snd acc1" t now "ta_ai ans" "ev_ai ev"]
    by (simp add: acc2_def acc1_def tick_stages_def Let_def)
qed

lemma stage_own:
  assumes "stage_ok prev own carries b a" "k \<in> own" "map_of (fst b) k = None"
  shows "kinds_of k (snd a) = kinds_of k (snd b) @ kind_of_step (firing prev k) (firing (fst a) k)"
  using conjunct1 [OF assms(1) [unfolded stage_ok_def], THEN spec, of k] assms(2,3) by simp

lemma stage_other:
  assumes "stage_ok prev own carries b a" "k \<notin> own" "carries k \<Longrightarrow> map_of prev k = None"
  shows "map_of (fst a) k = map_of (fst b) k \<and> kinds_of k (snd a) = kinds_of k (snd b)"
  using conjunct1 [OF assms(1) [unfolded stage_ok_def], THEN spec, of k] assms(2,3) by simp

lemma stage_live: "stage_ok prev own carries b a \<Longrightarrow> live (fst b) \<Longrightarrow> live (fst a)"
  by (simp add: stage_ok_def)

lemma tick_live:
  assumes "tick_config_ok tc" "live prev"
  shows "live (fst (snd (snd (tick_stages tc rep t now ans ev prev))))"
  using stage_live [OF stages_sound(3) [OF assms] stage_live [OF stages_sound(2) [OF assms] stage_live [OF stages_sound(1) [OF assms]]]]
  by (simp add: live_def)

text \<open>The law of a tick: what is notified of a key is how its stored state changes, if the key is configured or has
  no stored state; and of a key that is not configured and has none, no state is stored.\<close>

lemma tick_law:
  fixes rep :: report and now :: instant and t :: string and ans :: tenant_answers and ev :: evaluator
  assumes tc: "tick_config_ok tc" and prev: "live prev" and known: "k \<in> configured tc \<or> map_of prev k = None"
  defines "acc \<equiv> snd (snd (tick_stages tc rep t now ans ev prev))"
  shows "kinds_of k (snd acc) = kind_of_step (firing prev k) (firing (fst acc) k) \<and>
    (k \<notin> configured tc \<longrightarrow> map_of (fst acc) k = None)"
proof -
  note st = stages_sound(1) [OF tc prev, where rep = rep and now = now]
    stages_sound(2) [OF tc prev, where rep = rep and now = now and t = t and ans = ans and ev = ev]
    stages_sound(3) [OF tc prev, where rep = rep and now = now and t = t and ans = ans and ev = ev, folded acc_def]
  let ?acc0 = "evaluate (tc_alerts tc) rep prev now" and ?acc1 = "snd (fst (tick_stages tc rep t now ans ev prev))"
  consider (rule) "fst k \<in> ar_name ` set (ac_rules (tc_alerts tc))"
    | (green) "fst k \<notin> ar_name ` set (ac_rules (tc_alerts tc))" "k \<in> hook_green_keys (tc_green tc)"
    | (ai) "fst k \<notin> ar_name ` set (ac_rules (tc_alerts tc))" "k \<notin> hook_green_keys (tc_green tc)" "k \<in> hook_ai_keys (tc_ai tc)"
    | (none) "k \<notin> configured tc" "fst k \<notin> ar_name ` set (ac_rules (tc_alerts tc))" "k \<notin> hook_green_keys (tc_green tc)" "k \<notin> hook_ai_keys (tc_ai tc)"
    unfolding configured_def by blast
  then show ?thesis
  proof cases
    case rule
    note un = rule_unreserved [OF tc rule] reserved_names [OF tc rule]
    have "kinds_of k (snd ?acc0) = kind_of_step (firing prev k) (firing (fst ?acc0) k)"
      using stage_own [OF st(1)] rule by simp
    moreover have "map_of (fst acc) k = map_of (fst ?acc0) k" "kinds_of k (snd acc) = kinds_of k (snd ?acc0)"
      using stage_other [OF st(2) un(3)] stage_other [OF st(3) un(4)] un(1,2) by auto
    ultimately show ?thesis using rule firing_lookup [of "fst acc" k "fst ?acc0" k] by (simp add: configured_def)
  next
    case green
    have px: "has_prefix green_prefix (fst k)" by (rule hook_keys_prefixed(1) [OF green(2)])
    then have a: "k \<notin> hook_ai_keys (tc_ai tc)" "\<not> has_prefix ai_prefix (fst k)" using hook_keys_prefixed(2) prefixes_apart by blast+
    have z: "map_of (fst ?acc0) k = None" "kinds_of k (snd ?acc0) = []" using stage_other [OF st(1)] green(1) by simp_all
    have "kinds_of k (snd ?acc1) = kind_of_step (firing prev k) (firing (fst ?acc1) k)" using stage_own [OF st(2) green(2) z(1)] z(2) by simp
    moreover have "map_of (fst acc) k = map_of (fst ?acc1) k" "kinds_of k (snd acc) = kinds_of k (snd ?acc1)"
      using stage_other [OF st(3) a(1)] a(2) by auto
    ultimately show ?thesis using green firing_lookup [of "fst acc" k "fst ?acc1" k] by (simp add: configured_def)
  next
    case ai
    have "\<not> has_prefix green_prefix (fst k)" using hook_keys_prefixed(2) [OF ai(3)] prefixes_apart by blast
    then have "map_of (fst ?acc1) k = None" "kinds_of k (snd ?acc1) = []"
      using stage_other [OF st(1), of k] stage_other [OF st(2) ai(2)] ai(1) by auto
    then show ?thesis using stage_own [OF st(3) ai(3)] ai(3) by (simp add: configured_def)
  next
    case none
    then have p: "map_of prev k = None" using known by blast
    have "map_of (fst acc) k = None" "kinds_of k (snd acc) = []"
      using stage_other [OF st(1), of k] stage_other [OF st(2) none(3) p] stage_other [OF st(3) none(4) p] none(2) by simp_all
    then show ?thesis using p by (simp add: firing_def)
  qed
qed

section \<open>Runs of the evaluator\<close>

definition emitted_kinds :: "string \<Rightarrow> string \<times> string \<Rightarrow> evaluator \<Rightarrow> string list" where
  "emitted_kinds t k ev = kinds_of k (map snd (filter (\<lambda>p. fst p = t) (ev_emitted ev)))"

text \<open>What a run keeps of a key of a project; \<open>seen\<close> says that some tick so far was configured to have it.\<close>

definition evaluator_ok :: "string \<Rightarrow> string \<times> string \<Rightarrow> bool \<Rightarrow> evaluator \<Rightarrow> bool" where
  "evaluator_ok t k seen ev \<longleftrightarrow> distinct (map fst (ev_table ev)) \<and>
     (\<not> seen \<longrightarrow> map_of (load_alert_states t (ev_table ev)) k = None) \<and>
     alternating ''fired'' (emitted_kinds t k ev) \<and>
     (firing (load_alert_states t (ev_table ev)) k \<longleftrightarrow> odd (length (emitted_kinds t k ev)))"

lemma alternating_step:
  assumes "alternating ''fired'' ks" "was \<longleftrightarrow> odd (length ks)"
  shows "alternating ''fired'' (ks @ kind_of_step was is_now) \<and> (is_now \<longleftrightarrow> odd (length (ks @ kind_of_step was is_now)))"
  using assms by (auto simp: kind_of_step_def alternating_snoc)

lemma evaluate_tenant_stages:
  "evaluate_tenant tc res now answers t ev =
     (case compute_health (tc_reorder tc) (tc_health tc) (alert_window (tc_alerts tc)) (answers t) of
        None \<Rightarrow> ev
      | Some rep \<Rightarrow>
          if \<not> ta_loads (answers t) then ev
          else let prev = load_alert_states t (ev_table ev); st = tick_stages tc rep t now (answers t) ev prev; acc = snd (snd st)
            in ev\<lparr>ev_green := fst (fst st), ev_ai := fst (snd st),
                  ev_emitted := ev_emitted ev @ map (\<lambda>n. (t, n)) (snd acc),
                  ev_sent := ev_sent ev @ map (\<lambda>(c, n). (c, t, n)) (deliver res (snd acc)),
                  ev_table := (if ta_saves (answers t) then save_alert_states t (diff_to_save prev (fst acc) now) (ev_table ev) else ev_table ev),
                  ev_history := ev_history ev @ (if ta_appends (answers t) then map (\<lambda>n. (t, n)) (snd acc) else [])\<rparr>)"
  by (cases "compute_health (tc_reorder tc) (tc_health tc) (alert_window (tc_alerts tc)) (answers t)"; cases "ta_loads (answers t)")
    (simp_all add: evaluate_tenant_def tick_stages_def Let_def case_prod_beta')

lemma tenant_distinct:
  "distinct (map fst (ev_table ev)) \<Longrightarrow> distinct (map fst (ev_table (evaluate_tenant tc res now answers t ev)))"
  by (auto simp: evaluate_tenant_stages Let_def save_distinct simp del: distinct_map split: option.split)

lemma tenant_keeps_ok:
  assumes tc: "tick_config_ok tc" and ev: "evaluator_ok t k seen ev" and saves: "ta_saves (answers t')"
    and stays: "t' = t \<Longrightarrow> (k \<in> configured tc \<longleftrightarrow> seen)"
  shows "evaluator_ok t k seen (evaluate_tenant tc res now answers t' ev)"
proof (cases "compute_health (tc_reorder tc) (tc_health tc) (alert_window (tc_alerts tc)) (answers t') = None \<or> \<not> ta_loads (answers t')")
  case True
  with ev show ?thesis by (auto simp: evaluate_tenant_stages split: option.split)
next
  case False
  then obtain rep where rep: "compute_health (tc_reorder tc) (tc_health tc) (alert_window (tc_alerts tc)) (answers t') = Some rep"
    and loads: "ta_loads (answers t')" by auto
  let ?tab = "ev_table ev" and ?prev = "load_alert_states t' (ev_table ev)"
  let ?acc = "snd (snd (tick_stages tc rep t' now (answers t') ev ?prev))"
  let ?ev = "evaluate_tenant tc res now answers t' ev"
  have d: "distinct (map fst ?tab)" using ev by (simp add: evaluator_ok_def)
  have tab: "ev_table ?ev = save_alert_states t' (diff_to_save ?prev (fst ?acc) now) ?tab"
    and em: "ev_emitted ?ev = ev_emitted ev @ map (\<lambda>n. (t', n)) (snd ?acc)"
    using rep loads saves by (simp_all add: evaluate_tenant_stages Let_def)
  have load: "map_of (load_alert_states t (ev_table ?ev)) k = (if t = t' then map_of (fst ?acc) k else map_of (load_alert_states t ?tab) k)"
    unfolding tab by (rule saved_then_loaded [OF d tick_live [OF tc load_live [OF d]] refl])
  have kinds: "emitted_kinds t k ?ev = emitted_kinds t k ev @ (if t = t' then kinds_of k (snd ?acc) else [])"
    by (auto simp: emitted_kinds_def em comp_def)
  show ?thesis
  proof (cases "t' = t")
    case True
    have "k \<in> configured tc \<or> map_of ?prev k = None" using stays [OF True] ev True by (auto simp: evaluator_ok_def)
    from tick_law [OF tc load_live [OF d] this, where t = t' and rep = rep and now = now and ans = "answers t'" and ev = ev]
    have law: "kinds_of k (snd ?acc) = kind_of_step (firing ?prev k) (firing (fst ?acc) k)" "\<not> seen \<longrightarrow> map_of (fst ?acc) k = None"
      using stays [OF True] by simp_all
    have old: "alternating ''fired'' (emitted_kinds t k ev)" "firing ?prev k \<longleftrightarrow> odd (length (emitted_kinds t k ev))"
      using ev True by (simp_all add: evaluator_ok_def)
    have f: "firing (load_alert_states t (ev_table ?ev)) k = firing (fst ?acc) k" using load True by (simp add: firing_def)
    show ?thesis
      using alternating_step [OF old, of "firing (fst ?acc) k"] tenant_distinct [OF d, of tc res now answers t'] load law True
      unfolding evaluator_ok_def kinds f by simp
  next
    case False
    then have "firing (load_alert_states t (ev_table ?ev)) k = firing (load_alert_states t ?tab) k" using load by (simp add: firing_def)
    then show ?thesis using ev load kinds False tenant_distinct [OF d, of tc res now answers t'] by (simp add: evaluator_ok_def)
  qed
qed

text \<open>Whether a tick is configured to have a key of a project.\<close>

definition configured_at :: "string \<Rightarrow> string \<times> string \<Rightarrow> tick_config \<times> instant \<times> tick_answers \<Rightarrow> bool" where
  "configured_at t k tick \<longleftrightarrow> (case tick of (tc, now, ta) \<Rightarrow> k \<in> configured (tenant_config tc ta t))"

lemma once_keeps_ok:
  assumes tc: "\<And>t. tick_config_ok (tenant_config tc ta t)" and ev: "evaluator_ok t k seen ev"
    and saves: "\<forall>t. ta_saves (tk_tenant ta t)" and stays: "seen \<Longrightarrow> configured_at t k (tc, now, ta)"
  shows "evaluator_ok t k (seen \<or> configured_at t k (tc, now, ta)) (evaluate_once tc now ta ev)"
proof -
  let ?seen = "seen \<or> configured_at t k (tc, now, ta)"
  have "evaluator_ok t k ?seen ev \<Longrightarrow>
      evaluator_ok t k ?seen (fold (\<lambda>t. evaluate_tenant (tenant_config tc ta t) res now (tk_tenant ta) t) ts ev)" for res ts ev
  proof (induction ts arbitrary: ev)
    case (Cons t' ts)
    have "evaluator_ok t k ?seen (evaluate_tenant (tenant_config tc ta t') res now (tk_tenant ta) t' ev)"
      by (rule tenant_keeps_ok [OF tc Cons.prems]) (use saves stays in \<open>auto simp: configured_at_def\<close>)
    then show ?case using Cons.IH by simp
  qed simp
  moreover have "evaluator_ok t k ?seen ev" using ev by (simp add: evaluator_ok_def)
  ultimately show ?thesis by (simp add: evaluate_once_def)
qed

text \<open>The configurations of a run: every tick reads one the hub would load; every write of states succeeds; and a key
  that some tick has is not taken out of the configuration by a later one.\<close>

definition configs_ok :: "(tick_config \<times> instant \<times> tick_answers) list \<Rightarrow> bool" where
  "configs_ok ticks \<longleftrightarrow> (\<forall>(tc, now, ta)\<in>set ticks. \<forall>t. tick_config_ok (tenant_config tc ta t))"

definition saves_hold :: "(tick_config \<times> instant \<times> tick_answers) list \<Rightarrow> bool" where
  "saves_hold ticks \<longleftrightarrow> (\<forall>(tc, now, ta)\<in>set ticks. \<forall>t. ta_saves (tk_tenant ta t))"

definition stays_configured :: "string \<Rightarrow> string \<times> string \<Rightarrow> (tick_config \<times> instant \<times> tick_answers) list \<Rightarrow> bool" where
  "stays_configured t k ticks \<longleftrightarrow> sorted_wrt (\<lambda>x y. configured_at t k x \<longrightarrow> configured_at t k y) ticks"

lemma run_ok:
  assumes "configs_ok ticks" "saves_hold ticks" "stays_configured t k ticks"
  shows "evaluator_ok t k (\<exists>x\<in>set ticks. configured_at t k x) (run_ticks ticks)"
  using assms unfolding run_ticks_def
proof (induction ticks rule: rev_induct)
  case Nil
  show ?case by (simp add: evaluator_ok_def idle_evaluator_def load_alert_states_def emitted_kinds_def firing_def)
next
  case (snoc x ticks)
  obtain tc now ta where x: "x = (tc, now, ta)" by (metis surj_pair)
  let ?ev = "fold (\<lambda>(tc, now, ta). evaluate_once tc now ta) ticks idle_evaluator"
  have "evaluator_ok t k (\<exists>x\<in>set ticks. configured_at t k x) ?ev"
    by (rule snoc.IH) (use snoc.prems in \<open>simp_all add: configs_ok_def saves_hold_def stays_configured_def sorted_wrt_append\<close>)
  moreover have "\<And>t. tick_config_ok (tenant_config tc ta t)" "\<forall>t. ta_saves (tk_tenant ta t)"
    using snoc.prems(1,2) by (simp_all add: configs_ok_def saves_hold_def x)
  moreover have "configured_at t k (tc, now, ta)" if "\<exists>x\<in>set ticks. configured_at t k x"
    using snoc.prems(3) that by (auto simp: stays_configured_def sorted_wrt_append x)
  ultimately have "evaluator_ok t k ((\<exists>x\<in>set ticks. configured_at t k x) \<or> configured_at t k (tc, now, ta)) (evaluate_once tc now ta ?ev)"
    by (intro once_keeps_ok)
  then show ?case by (simp add: x disj_commute)
qed

lemma run_distinct: "distinct (map fst (ev_table (run_ticks ticks)))"
proof -
  have once: "distinct (map fst (ev_table ev)) \<Longrightarrow> distinct (map fst (ev_table (evaluate_once tc now ta ev)))" for tc now ta ev
  proof -
    have "distinct (map fst (ev_table ev)) \<Longrightarrow>
        distinct (map fst (ev_table (fold (\<lambda>t. evaluate_tenant (tenant_config tc ta t) res now (tk_tenant ta) t) ts ev)))" for res ts
      by (induction ts arbitrary: ev) (simp_all add: tenant_distinct del: distinct_map)
    then show "distinct (map fst (ev_table ev)) \<Longrightarrow> distinct (map fst (ev_table (evaluate_once tc now ta ev)))"
      by (simp add: evaluate_once_def del: distinct_map)
  qed
  show ?thesis unfolding run_ticks_def
    by (induction ticks rule: rev_induct) (simp_all add: idle_evaluator_def once case_prod_beta' del: distinct_map)
qed



section \<open>Budgets after a tick\<close>

text \<open>The usage a tick goes by, or nothing when it could not be had.\<close>

definition green_in_force :: "green_config \<Rightarrow> string \<Rightarrow> instant \<Rightarrow> tenant_answers \<Rightarrow> evaluator \<Rightarrow> (string \<rightharpoonup> float64) option" where
  "green_in_force c t now ans ev = map_option gu_used (fst (green_usage_get (ev_green ev) t now (green_check_interval c) (ta_green ans)))"

definition ai_in_force :: "ai_config \<Rightarrow> string \<Rightarrow> instant \<Rightarrow> tenant_answers \<Rightarrow> evaluator \<Rightarrow> ai_usage option" where
  "ai_in_force c t now ans ev = fst (ai_usage_get (ev_ai ev) t now (ai_check_interval c) (ta_ai ans))"

context budget_machine begin

lemma merged_firing:
  assumes v: "valid c" and r: "r \<in> set (rules c u)" and free: "map_of nxt (rule_key r) = None"
  shows "firing (fold merge_green_key (fst (eval c u prev now)) nxt) (rule_key r) \<longleftrightarrow> rule_crossed r"
proof -
  have "find (\<lambda>q. rule_key q = rule_key r) (rules c u) = Some r"
    using keys_distinct [OF v] r unfolding rule_keys [OF v, of u, symmetric] by (rule find_key_Some)
  with eval_state [OF v, of u prev now "rule_key r"] free show ?thesis
    by (simp add: firing_def merge_lookup)
qed

end


lemma carried_firing:
  assumes "has_prefix p (fst k)" "map_of nxt k = None"
  shows "firing (fold merge_green_key (filter (\<lambda>(k, v). has_prefix p (fst k)) prev) nxt) k \<longleftrightarrow> firing prev k"
  by (rule firing_lookup) (simp add: merge_lookup assms carried)

lemma green_stage_firing:
  assumes v: "validate_green c = None" and b: "b \<in> set (gc_budgets c)" and free: "map_of nxt k = None"
    and k: "(k, crossed) = ((green_prefix @ gb_name b @ warn_suffix, green_target b), \<lambda>u. green_warn b \<le> green_ratio u b) \<or>
       (k, crossed) = ((green_prefix @ gb_name b @ over_suffix, green_target b), \<lambda>u. 1 \<le> green_ratio u b)"
  shows "firing (fst (snd (eval_green_budgets (Some c) t now (ta_green ans) prev (ev_green ev, nxt, ns)))) k \<longleftrightarrow>
    (case green_in_force c t now ans ev of Some u \<Rightarrow> crossed u | None \<Rightarrow> firing prev k)"
proof -
  obtain u cache where u: "green_usage_get (ev_green ev) t now (green_check_interval c) (ta_green ans) = (u, cache)" by fastforce
  have ne: "gc_budgets c \<noteq> []" using b by auto
  have pos: "0 < gb_monthly b" using v valid_green_budgets [of 0 "[]" "gc_budgets c"] b by (auto simp: validate_green_def split: if_splits option.splits)
  show ?thesis
  proof (cases u)
    case None
    have "has_prefix green_prefix (fst k)" using k by auto
    with None u ne carried_firing [OF this free] show ?thesis
      by (simp add: eval_green_budgets_def green_in_force_def)
  next
    case (Some w)
    obtain r where r: "r \<in> set (green_rules (gu_used w) b)" "rule_key r = k" "rule_crossed r = crossed (gu_used w)"
      using k pos by (fastforce simp: green_rules_def Let_def rule_key_def rule_crossed_def)
    then have "r \<in> set (concat (map (green_rules (gu_used w)) (gc_budgets c)))" using b by auto
    from green.merged_firing [OF v this, of nxt prev now] free r Some u ne show ?thesis
      by (simp add: eval_green_budgets_def green_in_force_def case_prod_beta')
  qed
qed

lemma ai_stage_firing:
  assumes v: "validate_ai c = None" and b: "b \<in> set (ai_budgets c)" and free: "map_of nxt k = None"
    and k: "(k, crossed) = ((ai_prefix @ ab_name b @ warn_suffix, ai_target b), \<lambda>u. ai_warn b \<le> ai_ratio u b) \<or>
       (k, crossed) = ((ai_prefix @ ab_name b @ over_suffix, ai_target b), \<lambda>u. 1 \<le> ai_ratio u b)"
  shows "firing (fst (snd (eval_ai_budgets (Some c) t now (ta_ai ans) prev (ev_ai ev, nxt, ns)))) k \<longleftrightarrow>
    (case ai_in_force c t now ans ev of Some u \<Rightarrow> crossed u | None \<Rightarrow> firing prev k)"
proof -
  obtain u cache where u: "ai_usage_get (ev_ai ev) t now (ai_check_interval c) (ta_ai ans) = (u, cache)" by fastforce
  have ne: "ai_budgets c \<noteq> []" using b by auto
  have pos: "0 < ai_limit b"
    using v valid_ai_budgets [of "ai_priced c" 0 "[]" "ai_budgets c"] b ai_limit_positive by (auto simp: validate_ai_def split: option.splits)
  show ?thesis
  proof (cases u)
    case None
    have "has_prefix ai_prefix (fst k)" using k by auto
    with None u ne carried_firing [OF this free] show ?thesis
      by (simp add: eval_ai_budgets_def ai_in_force_def merge_ai_is_green)
  next
    case (Some w)
    obtain r where r: "r \<in> set (ai_rules w b)" "rule_key r = k" "rule_crossed r = crossed w"
      using k pos by (fastforce simp: ai_rules_def Let_def rule_key_def rule_crossed_def)
    then have "r \<in> set (concat (map (ai_rules w) (ai_budgets c)))" using b by auto
    from ai.merged_firing [OF v this, of nxt prev now] free r Some u ne show ?thesis
      by (simp add: eval_ai_budgets_def ai_in_force_def merge_ai_is_green case_prod_beta')
  qed
qed



section \<open>Webhooks\<close>

lemma send_loop_law:
  assumes "send_loop left answers made = (n, ok)" "0 < left"
  shows "made < n \<and> n \<le> made + left \<and> list_all (\<lambda>i. answers i = Retryable) [made..<n - 1] \<and>
    (ok \<longleftrightarrow> answers (n - 1) = Posted) \<and> (ok \<or> answers (n - 1) = Terminal \<or> n = made + left)"
  using assms
proof (induction left answers made rule: send_loop.induct)
  case (2 left answers made)
  show ?case
  proof (cases "answers made")
    case Retryable
    with 2(2) have e: "send_loop left answers (Suc made) = (n, ok)" by simp
    show ?thesis
    proof (cases "left = 0")
      case True
      with e Retryable show ?thesis by auto
    next
      case False
      then have "0 < left" by simp
      from 2(1) [OF Retryable e this] have ih: "Suc made < n \<and> n \<le> Suc made + left \<and> list_all (\<lambda>i. answers i = Retryable) [Suc made..<n - 1] \<and>
        (ok \<longleftrightarrow> answers (n - 1) = Posted) \<and> (ok \<or> answers (n - 1) = Terminal \<or> n = Suc made + left)" .
      have "made < n - 1" using conjunct1 [OF ih] by arith
      then have "[made..<n - 1] = made # [Suc made..<n - 1]" by (rule upt_conv_Cons)
      then have l: "list_all (\<lambda>i. answers i = Retryable) [made..<n - 1]" using ih Retryable by simp
      from ih have "made < n" "n \<le> made + Suc left" by simp_all
      with ih l show ?thesis unfolding add_Suc add_Suc_right by blast
    qed
  qed (use 2 in auto)
qed simp

text \<open>Delivering a notification ends: it makes at least one attempt and at most one more than its retries, tries
  again only after a failure worth retrying, and succeeds exactly when its last attempt was accepted;
  if it fails with attempts left, the last answer was a refusal no retry would change.\<close>

theorem webhook_bounded:
  "case send_webhook max_retries answers of (n, ok) \<Rightarrow>
     0 < n \<and> n \<le> Suc max_retries \<and> list_all (\<lambda>i. answers i = Retryable) [0..<n - 1] \<and>
     (ok \<longleftrightarrow> answers (n - 1) = Posted) \<and> (ok \<or> answers (n - 1) = Terminal \<or> n = Suc max_retries)"
proof -
  obtain n ok where e: "send_loop (Suc max_retries) answers 0 = (n, ok)" by fastforce
  from send_loop_law [OF this] show ?thesis unfolding send_webhook_def e by (simp, blast)
qed

lemma blocked_either_form:
  assumes "length a = 4"
  shows "blocked_ip (replicate 10 0 @ [255, 255] @ a) \<longleftrightarrow> blocked_ip a"
proof -
  have "to4 (replicate 10 0 @ [255, 255] @ a) = Some a" "to4 a = Some a"
    using assms by (simp_all add: to4_def nth_append)
  then show ?thesis by (simp only: blocked_ip_def is_loopback_def is_link_local_def is_private_def is_unspecified_def option.case)
qed

section \<open>A concrete evaluator\<close>

text \<open>One carbon budget of a monthly limit, for one project.\<close>

definition sample_budget :: "float64 \<Rightarrow> green_budget" where
  "sample_budget limit = \<lparr>gb_name = ''q'', gb_group = ''g'', gb_monthly = limit, gb_warn = 1 / 2, gb_channel = []\<rparr>"

definition sample_green :: "float64 \<Rightarrow> green_config" where
  "sample_green limit = default_green\<lparr>gc_budgets := [sample_budget limit]\<rparr>"

definition sample_tick_config :: "float64 \<Rightarrow> tick_config" where
  "sample_tick_config limit = \<lparr>tc_reorder = (\<lambda>x. x), tc_health = default_config, tc_alerts = default_alert_config,
     tc_green = Some (sample_green limit), tc_ai = None, tc_projects = []\<rparr>"

definition sample_answers :: "green_usage option \<Rightarrow> tenant_answers" where
  "sample_answers u = \<lparr>ta_stats = Some [], ta_labels = Some [], ta_edges = Some [], ta_loads = True, ta_saves = True, ta_appends = True,
     ta_green = u, ta_ai = None\<rparr>"

definition used_kg :: "float64 \<Rightarrow> green_usage" where
  "used_kg x = \<lparr>gu_used = [''g'' \<mapsto> x], gu_known = {''g''}\<rparr>"

definition sample_tick :: "float64 \<Rightarrow> instant \<Rightarrow> green_usage option \<Rightarrow> tick_config \<times> instant \<times> tick_answers" where
  "sample_tick limit now u = (sample_tick_config limit, now,
     \<lparr>tk_connected = True, tk_channels = None, tk_tenants = None, tk_tenant = (\<lambda>t. sample_answers u),
       tk_green = (\<lambda>_. Some (sample_green limit)), tk_ai = (\<lambda>_. None)\<rparr>)"

text \<open>A budget is crossed; the usage cannot be had; the limit is raised and the budget is no longer crossed.\<close>

definition sample_ticks :: "(tick_config \<times> instant \<times> tick_answers) list" where
  "sample_ticks = [sample_tick 10 (1000 * second) (Some (used_kg 6)), sample_tick 10 (2000 * second) None,
     sample_tick 100 (9000 * second) (Some (used_kg 6))]"

lemma sample_view: "tenant_config (fst (sample_tick limit now u)) (snd (snd (sample_tick limit now u))) t = sample_tick_config limit"
  by (simp add: tenant_config_def sample_tick_def sample_tick_config_def)

lemma sample_ok: "limit = 10 \<or> limit = 100 \<Longrightarrow> tick_config_ok (sample_tick_config limit)"
proof (elim disjE)
  show "limit = 10 \<Longrightarrow> tick_config_ok (sample_tick_config limit)" by (simp, code_simp)
  show "limit = 100 \<Longrightarrow> tick_config_ok (sample_tick_config limit)" by (simp, code_simp)
qed

lemma sample_run_ok: "configs_ok sample_ticks" "saves_hold sample_ticks" "stays_configured ''default'' (''green:q:warn'', ''group:g'') sample_ticks"
proof -
  show "configs_ok sample_ticks"
    by (simp add: configs_ok_def sample_ticks_def sample_tick_def tenant_config_def sample_tick_config_def)
      (use sample_ok in \<open>simp add: sample_tick_config_def\<close>)
  show "saves_hold sample_ticks"
    by (simp add: saves_hold_def sample_ticks_def sample_tick_def sample_answers_def)
  have "configured_at ''default'' (''green:q:warn'', ''group:g'') (sample_tick limit now u)" for limit now u
    by (simp add: configured_at_def sample_tick_def tenant_config_def configured_def hook_green_keys_def green_keys_def sample_green_def
      sample_budget_def green_prefix_def warn_suffix_def green_target_def)
  then show "stays_configured ''default'' (''green:q:warn'', ''group:g'') sample_ticks"
    by (simp add: stays_configured_def sample_ticks_def)
qed

text \<open>With no health rules the report of a tick does not matter.\<close>

definition sample_step :: "float64 \<Rightarrow> instant \<Rightarrow> green_usage option \<Rightarrow> string \<Rightarrow> evaluator \<Rightarrow> evaluator" where
  "sample_step limit now u t ev =
     (case eval_green_budgets (Some (sample_green limit)) t now u (load_alert_states t (ev_table ev)) (ev_green ev, [], []) of (green, nxt, notes) \<Rightarrow>
       ev\<lparr>ev_green := green, ev_emitted := ev_emitted ev @ map (\<lambda>n. (t, n)) notes,
          ev_table := save_alert_states t (diff_to_save (load_alert_states t (ev_table ev)) nxt now) (ev_table ev),
          ev_history := ev_history ev @ map (\<lambda>n. (t, n)) notes\<rparr>)"

lemma undelivered: "list_all (\<lambda>n. nt_channel n = []) ns \<Longrightarrow> deliver res ns = []"
  by (induction ns) (simp_all add: deliver_def)

lemma sample_channels:
  "list_all (\<lambda>n. nt_channel n = []) (snd (snd (eval_green_budgets (Some (sample_green limit)) t now u prev (cache, [], []))))"
  by (simp add: eval_green_budgets_def sample_green_def default_green_def evaluate_green_budgets_def eval_green_budget_def sample_budget_def
    green_rule_step_def Let_def split: prod.split option.split)

lemma sample_tenant: "evaluate_tenant (sample_tick_config limit) res now (\<lambda>t. sample_answers u) t ev = sample_step limit now u t ev"
proof -
  have e: "evaluate (tc_alerts (sample_tick_config limit)) rep prev now = ([], [])" for rep prev
    by (simp add: evaluate_def sample_tick_config_def default_alert_config_def)
  have h: "compute_health r g w (sample_answers u) = Some (rollup r g w [] [] [])" for r g w
    by (simp add: compute_health_def sample_answers_def)
  have a: "tc_ai (sample_tick_config limit) = None" "tc_green (sample_tick_config limit) = Some (sample_green limit)"
    "ta_loads (sample_answers u)" "ta_saves (sample_answers u)" "ta_appends (sample_answers u)" "ta_green (sample_answers u) = u"
    by (simp_all add: sample_tick_config_def sample_answers_def)
  show ?thesis
    using undelivered [OF sample_channels, of res limit t now u "load_alert_states t (ev_table ev)" "ev_green ev"]
    by (simp add: evaluate_tenant_def h e a sample_step_def Let_def case_prod_beta' eval_ai_budgets_def)
qed

lemma sample_once:
  "evaluate_once (fst (sample_tick limit now u)) now (snd (snd (sample_tick limit now u))) ev = sample_step limit now u ''default'' ev"
proof -
  have "tenants_to_evaluate (tc_projects (sample_tick_config limit)) None = [''default'']"
    unfolding sample_tick_config_def by code_simp
  then show ?thesis using sample_view [of limit now u]
    by (simp add: evaluate_once_def sample_tick_def sample_tenant)
qed

lemma sample_run: "run_ticks sample_ticks = sample_step 100 (9000 * second) (Some (used_kg 6)) ''default''
    (sample_step 10 (2000 * second) None ''default'' (sample_step 10 (1000 * second) (Some (used_kg 6)) ''default'' idle_evaluator))"
  using sample_once by (simp add: run_ticks_def sample_ticks_def sample_tick_def)



end
