(* ===== verification/Collection.thy ===== *)
theory Collection
  imports Prelude
begin

text \<open>
  The collection overlay (hub/internal/collection): the closed set of sensor switches an administrator
  may override, its parsing and validation (overlay.go), the values tree of the chart with its nested
  reads, writes and defaults (effective.go, render.go), the effective configuration reported to the
  console, and the splitting and sorting of rendered manifests. The JSON and YAML decoders and the Helm
  engine are parameters.
\<close>

section \<open>The overlay\<close>

record overlay =
  ov_obi :: "bool option"
  ov_logs :: "bool option"
  ov_kubeletstats :: "bool option"
  ov_profiler :: "bool option"
  ov_green :: "bool option"
  ov_exclude :: "string list option"

definition empty_overlay :: overlay where
  "empty_overlay = \<lparr>ov_obi = None, ov_logs = None, ov_kubeletstats = None, ov_profiler = None, ov_green = None, ov_exclude = None\<rparr>"

definition overlay_unset :: "overlay \<Rightarrow> bool" where
  "overlay_unset o1 \<longleftrightarrow> ov_obi o1 = None \<and> ov_logs o1 = None \<and> ov_kubeletstats o1 = None \<and>
     ov_profiler o1 = None \<and> ov_green o1 = None \<and> ov_exclude o1 = None"

datatype overlay_error =
    NullOverlay
  | Undecodable
  | TrailingData
  | TooManyNamespaces nat
  | EmptyNamespace
  | LongNamespace string
  | IllegalNamespace string

definition max_exclude_namespaces :: nat where "max_exclude_namespaces = 256"

definition label_char :: "char \<Rightarrow> bool" where
  "label_char c \<longleftrightarrow> (let n = (of_char c :: int) in 97 \<le> n \<and> n \<le> 122 \<or> 48 \<le> n \<and> n \<le> 57)"

text \<open>The expression \<open>^[a-z0-9]([-a-z0-9]*[a-z0-9])?$\<close>.\<close>

definition dns1123_label :: "string \<Rightarrow> bool" where
  "dns1123_label s \<longleftrightarrow> s \<noteq> [] \<and> label_char (hd s) \<and> label_char (last s) \<and>
     list_all (\<lambda>c. c = CHR ''-'' \<or> label_char c) s"

fun check_namespaces :: "string list \<Rightarrow> overlay_error option" where
  "check_namespaces [] = None"
| "check_namespaces (n # ns) =
     (if n = [] then Some EmptyNamespace
      else if 63 < length n then Some (LongNamespace n)
      else if \<not> dns1123_label n then Some (IllegalNamespace n)
      else check_namespaces ns)"

definition validate_namespaces :: "string list option \<Rightarrow> overlay_error option" where
  "validate_namespaces ns =
     (case ns of None \<Rightarrow> None
      | Some xs \<Rightarrow> if max_exclude_namespaces < length xs then Some (TooManyNamespaces (length xs)) else check_namespaces xs)"

text \<open>
  The decoder reads the first JSON value of its input and refuses unknown fields; it also says whether
  the input ends there.
\<close>

definition parse_collection_overlay :: "(string \<Rightarrow> (overlay \<times> bool) option) \<Rightarrow> string \<Rightarrow> overlay_error + overlay" where
  "parse_collection_overlay json raw =
     (if raw = [] then Inr empty_overlay
      else if trim_space raw = ''null'' then Inl NullOverlay
      else case json raw of
        None \<Rightarrow> Inl Undecodable
      | Some (o1, at_end) \<Rightarrow>
          if \<not> at_end then Inl TrailingData
          else case validate_namespaces (ov_exclude o1) of Some e \<Rightarrow> Inl e | None \<Rightarrow> Inr o1)"

section \<open>Trees of values\<close>

text \<open>A decoded document: what \<open>map[string]any\<close> holds. A number is only passed along.\<close>

datatype yval =
    YNull
  | YBool bool
  | YNum int
  | YText string
  | YList "yval list"
  | YMap "string \<Rightarrow> yval option"

type_synonym yvals = "string \<Rightarrow> yval option"

text \<open>The value a path of keys leads to; a path ends early at whatever is not a map.\<close>

fun value_at :: "yval \<Rightarrow> string list \<Rightarrow> yval option" where
  "value_at v [] = Some v"
| "value_at v (k # ks) = (case v of YMap m \<Rightarrow> (case m k of None \<Rightarrow> None | Some w \<Rightarrow> value_at w ks) | _ \<Rightarrow> None)"

definition bool_at :: "yvals \<Rightarrow> string list \<Rightarrow> bool" where
  "bool_at vals path = (case value_at (YMap vals) path of Some (YBool b) \<Rightarrow> b | _ \<Rightarrow> False)"

fun texts_of :: "yval list \<Rightarrow> string list" where
  "texts_of [] = []"
| "texts_of (v # vs) = (case v of YText s \<Rightarrow> s # texts_of vs | _ \<Rightarrow> texts_of vs)"

definition strings_at :: "yvals \<Rightarrow> string list \<Rightarrow> string list option" where
  "strings_at vals path = (case value_at (YMap vals) path of Some (YList xs) \<Rightarrow> Some (texts_of xs) | _ \<Rightarrow> None)"

text \<open>
  \<open>coalesce\<close> fills the gaps of \<open>dst\<close> from \<open>src\<close> and descends where both have a map; it recurses on
  the source. Values are immutable here, so the deep copies of the code are the identity.
\<close>

primrec fill_gaps :: "yval \<Rightarrow> yval \<Rightarrow> yval" where
  "fill_gaps YNull dst = dst"
| "fill_gaps (YBool b) dst = dst"
| "fill_gaps (YNum n) dst = dst"
| "fill_gaps (YText s) dst = dst"
| "fill_gaps (YList xs) dst = dst"
| "fill_gaps (YMap src) dst =
     (case dst of
        YMap d \<Rightarrow> YMap (\<lambda>k. case d k of
            None \<Rightarrow> src k
          | Some v \<Rightarrow> (case (map_option fill_gaps \<circ> src) k of None \<Rightarrow> Some v | Some fill \<Rightarrow> Some (fill v)))
      | _ \<Rightarrow> dst)"

definition coalesce :: "yvals \<Rightarrow> yvals \<Rightarrow> yvals" where
  "coalesce dst src = (case fill_gaps (YMap src) (YMap dst) of YMap m \<Rightarrow> m | _ \<Rightarrow> dst)"

fun set_nested :: "yvals \<Rightarrow> yval \<Rightarrow> string list \<Rightarrow> yvals" where
  "set_nested m v [] = m"
| "set_nested m v [k] = m(k \<mapsto> v)"
| "set_nested m v (k # k' # ks) =
     m(k \<mapsto> YMap (set_nested (case m k of Some (YMap n) \<Rightarrow> n | _ \<Rightarrow> Map.empty) v (k' # ks)))"

section \<open>The overlay on the values\<close>

definition set_switch :: "bool option \<Rightarrow> string list \<Rightarrow> yvals \<Rightarrow> yvals" where
  "set_switch b path m = (case b of None \<Rightarrow> m | Some x \<Rightarrow> set_nested m (YBool x) path)"

definition obi_path :: "string list" where "obi_path = [''sensor'', ''obi'', ''enabled'']"
definition logs_path :: "string list" where "logs_path = [''sensor'', ''agent'', ''logs'', ''enabled'']"
definition kubeletstats_path :: "string list" where "kubeletstats_path = [''sensor'', ''agent'', ''kubeletstats'', ''enabled'']"
definition profiler_path :: "string list" where "profiler_path = [''sensor'', ''profiler'', ''enabled'']"
definition green_path :: "string list" where "green_path = [''sensor'', ''green'', ''enabled'']"
definition exclude_path :: "string list" where "exclude_path = [''sensor'', ''collection'', ''excludeNamespaces'']"

lemmas path_defs = obi_path_def logs_path_def kubeletstats_path_def profiler_path_def green_path_def exclude_path_def

definition set_switches :: "overlay \<Rightarrow> yvals \<Rightarrow> yvals" where
  "set_switches o1 m =
     set_switch (ov_green o1) green_path
      (set_switch (ov_profiler o1) profiler_path
       (set_switch (ov_kubeletstats o1) kubeletstats_path
        (set_switch (ov_logs o1) logs_path
         (set_switch (ov_obi o1) obi_path m))))"

definition apply_overlay_to_values :: "yvals \<Rightarrow> overlay \<Rightarrow> overlay_error + yvals" where
  "apply_overlay_to_values base o1 =
     (let vals = set_switches o1 base
      in case ov_exclude o1 of
           None \<Rightarrow> Inr vals
         | Some ns \<Rightarrow>
             (case validate_namespaces (Some ns) of
                Some e \<Rightarrow> Inl e
              | None \<Rightarrow> Inr (set_nested vals (YList (map YText ns)) exclude_path)))"

section \<open>The effective configuration\<close>

record effective =
  ef_obi :: bool
  ef_logs :: bool
  ef_kubeletstats :: bool
  ef_profiler :: bool
  ef_green :: bool
  ef_exclude :: "string list"

definition pick :: "bool option \<Rightarrow> yvals \<Rightarrow> string list \<Rightarrow> bool" where
  "pick b vals path = (case b of Some x \<Rightarrow> x | None \<Rightarrow> bool_at vals path)"

definition effective_from_values :: "yvals \<Rightarrow> yvals \<Rightarrow> overlay \<Rightarrow> overlay_error + effective" where
  "effective_from_values defaults base o1 =
     (let vals = coalesce base defaults;
          sensor = bool_at vals [''sensor'', ''enabled''];
          agent = (sensor \<and> bool_at vals [''sensor'', ''agent'', ''enabled'']);
          eff = \<lparr>ef_obi = (sensor \<and> pick (ov_obi o1) vals obi_path),
                 ef_logs = (agent \<and> bool_at vals [''modules'', ''logs'', ''enabled''] \<and> pick (ov_logs o1) vals logs_path),
                 ef_kubeletstats = (agent \<and> bool_at vals [''modules'', ''infraMetrics'', ''enabled''] \<and>
                   pick (ov_kubeletstats o1) vals kubeletstats_path),
                 ef_profiler = (sensor \<and> bool_at vals [''modules'', ''profiling'', ''enabled''] \<and> pick (ov_profiler o1) vals profiler_path),
                 ef_green = (sensor \<and> bool_at vals [''modules'', ''green'', ''enabled''] \<and> pick (ov_green o1) vals green_path),
                 ef_exclude = []\<rparr>
      in case ov_exclude o1 of
           Some ns \<Rightarrow> (case validate_namespaces (Some ns) of Some e \<Rightarrow> Inl e | None \<Rightarrow> Inr (eff\<lparr>ef_exclude := ns\<rparr>))
         | None \<Rightarrow> Inr (eff\<lparr>ef_exclude := (case strings_at vals exclude_path of None \<Rightarrow> [] | Some ns \<Rightarrow> ns)\<rparr>))"

section \<open>Rendered manifests\<close>

record config_map =
  cm_name :: string
  cm_data :: "(string \<times> string) list"

record daemon_set =
  ds_name :: string
  ds_containers :: string
  ds_volumes :: string

record manifests =
  mf_config_maps :: "config_map list"
  mf_daemon_set :: "daemon_set option"

definition manifest_config_map :: "manifests \<Rightarrow> string \<Rightarrow> config_map option" where
  "manifest_config_map m name = find (\<lambda>c. cm_name c = name) (mf_config_maps m)"

text \<open>\<open>path.Base\<close>: the last element of a slash-separated path.\<close>

definition path_base :: "string \<Rightarrow> string" where
  "path_base p =
     (if p = [] then ''.''
      else let q = rev (dropWhile (\<lambda>c. c = CHR ''/'') (rev p))
        in if q = [] then ''/'' else rev (takeWhile (\<lambda>c. c \<noteq> CHR ''/'') (rev q)))"

definition sensor_templates :: "string list" where
  "sensor_templates = [''sensor-config.yaml'', ''sensor-daemonset.yaml'']"

definition is_sensor_template :: "string \<Rightarrow> bool" where
  "is_sensor_template name \<longleftrightarrow> path_base name \<in> set sensor_templates"

text \<open>\<open>strings.TrimRight(line, " \t\r")\<close>.\<close>

definition trim_blanks :: "string \<Rightarrow> string" where
  "trim_blanks s = rev (dropWhile (\<lambda>c. c \<in> {CHR '' '', CHR 0x09, CHR 0x0D}) (rev s))"

definition flush_doc :: "string list \<Rightarrow> string list" where
  "flush_doc cur = (let doc = join_with [CHR 0x0A] cur in if trim_space doc \<noteq> [] then [doc] else [])"

fun split_docs :: "string list \<Rightarrow> string list \<Rightarrow> string list" where
  "split_docs cur [] = flush_doc cur"
| "split_docs cur (l # ls) =
     (if trim_blanks l = ''---'' then flush_doc cur @ split_docs [] ls else split_docs (cur @ [l]) ls)"

definition split_yaml_docs :: "string \<Rightarrow> string list" where
  "split_yaml_docs content = split_docs [] (split_on (CHR 0x0A) content)"

text \<open>What the YAML decoder makes of one document.\<close>

datatype decoded_doc =
    NotYaml
  | BadConfigMap
  | BadDaemonSet
  | ConfigMapDoc config_map
  | DaemonSetDoc daemon_set
  | NoKind
  | OtherKind string

datatype render_error =
    BadValues overlay_error
  | EngineFailed string
  | BadDocument string
  | UnexpectedKind string string

fun collect_docs :: "(string \<Rightarrow> decoded_doc) \<Rightarrow> string \<Rightarrow> string list \<Rightarrow> manifests \<Rightarrow> render_error + manifests" where
  "collect_docs yaml name [] m = Inr m"
| "collect_docs yaml name (d # ds) m =
     (case yaml d of
        ConfigMapDoc c \<Rightarrow> collect_docs yaml name ds (m\<lparr>mf_config_maps := mf_config_maps m @ [c]\<rparr>)
      | DaemonSetDoc x \<Rightarrow> collect_docs yaml name ds (m\<lparr>mf_daemon_set := Some x\<rparr>)
      | NoKind \<Rightarrow> collect_docs yaml name ds m
      | OtherKind k \<Rightarrow> Inl (UnexpectedKind k name)
      | _ \<Rightarrow> Inl (BadDocument name))"

fun collect_files :: "(string \<Rightarrow> decoded_doc) \<Rightarrow> (string \<times> string) list \<Rightarrow> manifests \<Rightarrow> render_error + manifests" where
  "collect_files yaml [] m = Inr m"
| "collect_files yaml ((name, content) # fs) m =
     (if \<not> is_sensor_template name then collect_files yaml fs m
      else case collect_docs yaml name (split_yaml_docs content) m of
        Inl e \<Rightarrow> Inl e
      | Inr m' \<Rightarrow> collect_files yaml fs m')"

text \<open>The engine renders the chart for values, a release and a namespace, or fails with a message.\<close>

definition render_sensor_manifests ::
    "(yvals \<Rightarrow> string \<Rightarrow> string \<Rightarrow> string + (string \<times> string) list) \<Rightarrow> (string \<Rightarrow> decoded_doc) \<Rightarrow>
     yvals \<Rightarrow> overlay \<Rightarrow> string \<Rightarrow> string \<Rightarrow> render_error + manifests" where
  "render_sensor_manifests engine yaml base o1 release ns =
     (case apply_overlay_to_values base o1 of
        Inl e \<Rightarrow> Inl (BadValues e)
      | Inr vals \<Rightarrow>
          (case engine vals release ns of
             Inl msg \<Rightarrow> Inl (EngineFailed msg)
           | Inr rendered \<Rightarrow>
               (case collect_files yaml rendered \<lparr>mf_config_maps = [], mf_daemon_set = None\<rparr> of
                  Inl e \<Rightarrow> Inl e
                | Inr m \<Rightarrow> Inr (m\<lparr>mf_config_maps := sort_key cm_name (mf_config_maps m)\<rparr>))))"

end
