(* ===== verification/CollectionApply.thy ===== *)
theory CollectionApply
  imports Collection Rates
begin

text \<open>
  The Kubernetes applier of the collection overlay (hub/internal/collection/k8sapplier.go) over the
  objects of one namespace, the stored overlay (hub/internal/storage/clickhouse/collection.go) and the
  handlers of /api/v1/collection/overlay (hub/internal/api/collection.go). Each call of the cluster's
  API may fail: which ones do is an argument. The chart's engine, the decoders and the hash are
  parameters.
\<close>

section \<open>The cluster\<close>

text \<open>An object as it lives in the cluster; \<open>meta\<close> stands for every field the applier leaves alone.\<close>

record live_config_map =
  lc_data :: "(string \<times> string) list"
  lc_meta :: string

record live_daemon_set =
  ld_containers :: string
  ld_volumes :: string
  ld_annotations :: "(string \<times> string) list"
  ld_meta :: string

datatype api_call =
    GetConfigMap string
  | UpdateConfigMap string
  | GetDaemonSet string
  | PatchDaemonSet string

text \<open>\<open>cl_writes\<close> records the writes the cluster accepted, oldest first.\<close>

record cluster =
  cl_config_maps :: "string \<Rightarrow> live_config_map option"
  cl_daemon_sets :: "string \<Rightarrow> live_daemon_set option"
  cl_writes :: "api_call list"

datatype apply_error =
    BaseUnread
  | BaseKeyMissing
  | BaseGarbled
  | NotRendered render_error
  | NoSensorPod
  | ForeignConfigMap string
  | ForeignDaemonSet string
  | AbsentConfigMap string
  | AbsentDaemonSet string
  | CallFailed api_call

section \<open>The applier\<close>

record applier =
  ap_release :: string
  ap_namespace :: string
  ap_fullname :: string

definition overlay_checksum_annotation :: string where
  "overlay_checksum_annotation = ''avuru.obs/overlay-checksum''"

definition base_values_name :: "applier \<Rightarrow> string" where
  "base_values_name a = ap_fullname a @ ''-collection-base-values''"

definition daemon_set_name :: "applier \<Rightarrow> string" where
  "daemon_set_name a = ap_fullname a @ ''-sensor''"

definition allowed_config_maps :: "applier \<Rightarrow> string list" where
  "allowed_config_maps a =
     map (\<lambda>s. ap_fullname a @ ''-sensor-'' @ s) [''obi'', ''agent'', ''profiler'', ''kepler'']"

definition load_base_values :: "(string \<Rightarrow> yvals option) \<Rightarrow> (api_call \<Rightarrow> bool) \<Rightarrow> applier \<Rightarrow> cluster \<Rightarrow> apply_error + yvals" where
  "load_base_values json fails a cl =
     (if fails (GetConfigMap (base_values_name a)) then Inl BaseUnread
      else case cl_config_maps cl (base_values_name a) of
        None \<Rightarrow> Inl BaseUnread
      | Some cm \<Rightarrow>
          (case map_of (lc_data cm) ''values.json'' of
             None \<Rightarrow> Inl BaseKeyMissing
           | Some raw \<Rightarrow> (case json raw of None \<Rightarrow> Inl BaseGarbled | Some base \<Rightarrow> Inr base)))"

fun first_foreign :: "string list \<Rightarrow> config_map list \<Rightarrow> string option" where
  "first_foreign allowed [] = None"
| "first_foreign allowed (c # cs) = (if cm_name c \<in> set allowed then first_foreign allowed cs else Some (cm_name c))"

definition verify_names :: "applier \<Rightarrow> config_map list \<Rightarrow> daemon_set \<Rightarrow> apply_error option" where
  "verify_names a cms ds =
     (case first_foreign (allowed_config_maps a) cms of
        Some n \<Rightarrow> Some (ForeignConfigMap n)
      | None \<Rightarrow> if ds_name ds \<noteq> daemon_set_name a then Some (ForeignDaemonSet (ds_name ds)) else None)"

definition equal_string_maps :: "(string \<times> string) list \<Rightarrow> (string \<times> string) list \<Rightarrow> bool" where
  "equal_string_maps a b \<longleftrightarrow> length a = length b \<and> list_all (\<lambda>(k, v). map_of b k = Some v) a"

definition apply_config_map :: "(api_call \<Rightarrow> bool) \<Rightarrow> config_map \<Rightarrow> cluster \<Rightarrow> cluster \<times> apply_error option" where
  "apply_config_map fails want cl =
     (let name = cm_name want in
      if fails (GetConfigMap name) then (cl, Some (CallFailed (GetConfigMap name)))
      else case cl_config_maps cl name of
        None \<Rightarrow> (cl, Some (AbsentConfigMap name))
      | Some live \<Rightarrow>
          if equal_string_maps (lc_data live) (cm_data want) then (cl, None)
          else if fails (UpdateConfigMap name) then (cl, Some (CallFailed (UpdateConfigMap name)))
          else (cl\<lparr>cl_config_maps := (cl_config_maps cl)(name \<mapsto> live\<lparr>lc_data := cm_data want\<rparr>),
                   cl_writes := cl_writes cl @ [UpdateConfigMap name]\<rparr>, None))"

fun apply_config_maps :: "(api_call \<Rightarrow> bool) \<Rightarrow> config_map list \<Rightarrow> cluster \<Rightarrow> cluster \<times> apply_error option" where
  "apply_config_maps fails [] cl = (cl, None)"
| "apply_config_maps fails (c # cs) cl =
     (case apply_config_map fails c cl of
        (cl', Some e) \<Rightarrow> (cl', Some e)
      | (cl', None) \<Rightarrow> apply_config_maps fails cs cl')"

definition patch_daemon_set :: "(api_call \<Rightarrow> bool) \<Rightarrow> applier \<Rightarrow> daemon_set \<Rightarrow> string \<Rightarrow> cluster \<Rightarrow> cluster \<times> apply_error option" where
  "patch_daemon_set fails a ds checksum cl =
     (let name = daemon_set_name a in
      if fails (GetDaemonSet name) then (cl, Some (CallFailed (GetDaemonSet name)))
      else case cl_daemon_sets cl name of
        None \<Rightarrow> (cl, Some (AbsentDaemonSet name))
      | Some live \<Rightarrow>
          if map_of (ld_annotations live) overlay_checksum_annotation = Some checksum then (cl, None)
          else if fails (PatchDaemonSet name) then (cl, Some (CallFailed (PatchDaemonSet name)))
          else (cl\<lparr>cl_daemon_sets := (cl_daemon_sets cl)(name \<mapsto>
                    live\<lparr>ld_containers := ds_containers ds, ld_volumes := ds_volumes ds,
                         ld_annotations := AList.update overlay_checksum_annotation checksum (ld_annotations live)\<rparr>),
                   cl_writes := cl_writes cl @ [PatchDaemonSet name]\<rparr>, None))"

text \<open>
  What the applier is built from: the JSON of the base values, the chart's engine, the YAML of its
  output, and the hash of what a render writes (the names and data of its config maps in order, its
  containers and its volumes).
\<close>

record chart_tools =
  ct_json :: "string \<Rightarrow> yvals option"
  ct_engine :: "yvals \<Rightarrow> string \<Rightarrow> string \<Rightarrow> string + (string \<times> string) list"
  ct_yaml :: "string \<Rightarrow> decoded_doc"
  ct_hash :: "(string \<times> (string \<times> string) list) list \<Rightarrow> string \<Rightarrow> string \<Rightarrow> string"

definition overlay_checksum :: "chart_tools \<Rightarrow> config_map list \<Rightarrow> daemon_set \<Rightarrow> string" where
  "overlay_checksum t cms ds = ct_hash t (map (\<lambda>c. (cm_name c, cm_data c)) cms) (ds_containers ds) (ds_volumes ds)"

text \<open>What one overlay renders to, once it has passed every check that precedes the first write.\<close>

definition plan_apply :: "chart_tools \<Rightarrow> (api_call \<Rightarrow> bool) \<Rightarrow> applier \<Rightarrow> overlay \<Rightarrow> cluster \<Rightarrow>
    apply_error + config_map list \<times> daemon_set" where
  "plan_apply t fails a o1 cl =
     (case load_base_values (ct_json t) fails a cl of
        Inl e \<Rightarrow> Inl e
      | Inr base \<Rightarrow>
          (case render_sensor_manifests (ct_engine t) (ct_yaml t) base o1 (ap_release a) (ap_namespace a) of
             Inl e \<Rightarrow> Inl (NotRendered e)
           | Inr m \<Rightarrow>
               (case mf_daemon_set m of
                  None \<Rightarrow> Inl NoSensorPod
                | Some ds \<Rightarrow>
                    (case verify_names a (mf_config_maps m) ds of
                       Some e \<Rightarrow> Inl e
                     | None \<Rightarrow> Inr (mf_config_maps m, ds)))))"

definition apply_overlay :: "chart_tools \<Rightarrow> (api_call \<Rightarrow> bool) \<Rightarrow> applier \<Rightarrow> overlay \<Rightarrow> cluster \<Rightarrow>
    cluster \<times> apply_error option" where
  "apply_overlay t fails a o1 cl =
     (case plan_apply t fails a o1 cl of
        Inl e \<Rightarrow> (cl, Some e)
      | Inr (cms, ds) \<Rightarrow>
          (case apply_config_maps fails cms cl of
             (cl', Some e) \<Rightarrow> (cl', Some e)
           | (cl', None) \<Rightarrow> patch_daemon_set fails a ds (overlay_checksum t cms ds) cl'))"

text \<open>\<open>chart\<close> is the chart's own values, against which the gaps of the base are filled.\<close>

datatype effective_error = NoBase apply_error | BadOverride overlay_error

definition effective_of :: "chart_tools \<Rightarrow> yvals \<Rightarrow> (api_call \<Rightarrow> bool) \<Rightarrow> applier \<Rightarrow> overlay \<Rightarrow> cluster \<Rightarrow> effective_error + effective" where
  "effective_of t chart fails a o1 cl =
     (case load_base_values (ct_json t) fails a cl of
        Inl e \<Rightarrow> Inl (NoBase e)
      | Inr base \<Rightarrow>
          (case effective_from_values chart base o1 of Inl e \<Rightarrow> Inl (BadOverride e) | Inr eff \<Rightarrow> Inr eff))"

section \<open>The handlers\<close>

record overlay_row =
  or_overlay :: string
  or_updated :: instant
  or_by :: string

definition save_collection_overlay :: "string \<Rightarrow> string \<Rightarrow> instant \<Rightarrow> overlay_row option" where
  "save_collection_overlay data by1 now = Some \<lparr>or_overlay = data, or_updated = now, or_by = by1\<rparr>"

text \<open>
  The hub's side of a request: whether there is a store, which of its queries work, the applier if
  one is wired for a cluster, and which calls to that cluster fail.
\<close>

record collection_env =
  ce_connected :: bool
  ce_loads :: bool
  ce_saves :: bool
  ce_applier :: "applier option"
  ce_fails :: "api_call \<Rightarrow> bool"

type_synonym collection_state = "overlay_row option \<times> cluster"

datatype collection_failure =
    Refused http_error
  | RefusedOverlay overlay_error
  | StoredUnparsable overlay_error
  | SavedNotApplied apply_error

definition collection_status :: "collection_failure \<Rightarrow> nat" where
  "collection_status f = (case f of Refused e \<Rightarrow> http_status e | RefusedOverlay _ \<Rightarrow> 400 | StoredUnparsable _ \<Rightarrow> 500
     | SavedNotApplied _ \<Rightarrow> 502)"

record collection_response =
  co_overlay :: overlay
  co_effective :: "effective option"
  co_updated :: "instant option"
  co_by :: string

text \<open>The applier of an install without a cluster only logs.\<close>

definition run_applier :: "chart_tools \<Rightarrow> collection_env \<Rightarrow> overlay \<Rightarrow> cluster \<Rightarrow> cluster \<times> apply_error option" where
  "run_applier t env o1 cl =
     (case ce_applier env of None \<Rightarrow> (cl, None) | Some a \<Rightarrow> apply_overlay t (ce_fails env) a o1 cl)"

definition effective_or_nil :: "chart_tools \<Rightarrow> yvals \<Rightarrow> collection_env \<Rightarrow> overlay \<Rightarrow> cluster \<Rightarrow> effective option" where
  "effective_or_nil t chart env o1 cl =
     (case ce_applier env of
        None \<Rightarrow> None
      | Some a \<Rightarrow> (case effective_of t chart (ce_fails env) a o1 cl of Inl _ \<Rightarrow> None | Inr eff \<Rightarrow> Some eff))"

definition handle_get_collection :: "(string \<Rightarrow> (overlay \<times> bool) option) \<Rightarrow> chart_tools \<Rightarrow> yvals \<Rightarrow> collection_env \<Rightarrow> collection_state \<Rightarrow>
    collection_failure + collection_response" where
  "handle_get_collection json t chart env st =
     (if \<not> ce_connected env then Inl (Refused Unavailable)
      else if \<not> ce_loads env then Inl (Refused (Failed_With ''load collection overlay''))
      else case fst st of
        None \<Rightarrow> Inr \<lparr>co_overlay = empty_overlay, co_effective = effective_or_nil t chart env empty_overlay (snd st),
                     co_updated = None, co_by = []\<rparr>
      | Some row \<Rightarrow>
          (case parse_collection_overlay json (or_overlay row) of
             Inl e \<Rightarrow> Inl (StoredUnparsable e)
           | Inr o1 \<Rightarrow> Inr \<lparr>co_overlay = o1, co_effective = effective_or_nil t chart env o1 (snd st),
               co_updated = (if or_updated row = zero_time then None else Some (or_updated row)), co_by = or_by row\<rparr>))"

definition read_overlay_body :: "(string \<Rightarrow> (overlay \<times> bool) option) \<Rightarrow> string body \<Rightarrow> collection_failure + overlay" where
  "read_overlay_body json b =
     (case decode b of
        Inl e \<Rightarrow> Inl (Refused e)
      | Inr raw \<Rightarrow>
          (let data = trim_space raw
           in if data = [] then Inl (Refused (Bad_Request ''empty request body''))
              else case parse_collection_overlay json data of Inl e \<Rightarrow> Inl (RefusedOverlay e) | Inr o1 \<Rightarrow> Inr o1))"

text \<open>The part under \<open>collectionMu\<close>: the save and the apply are one step.\<close>

definition save_and_apply :: "(overlay \<Rightarrow> string) \<Rightarrow> chart_tools \<Rightarrow> collection_env \<Rightarrow> instant \<Rightarrow> string \<Rightarrow> overlay \<Rightarrow> collection_response \<Rightarrow>
    collection_state \<Rightarrow> (collection_failure + collection_response) \<times> collection_state" where
  "save_and_apply encode t env now who o1 resp st =
     (if \<not> ce_saves env then (Inl (Refused (Failed_With ''save collection overlay'')), st)
      else let row = save_collection_overlay (encode o1) who now
        in case run_applier t env o1 (snd st) of
             (cl, Some e) \<Rightarrow> (Inl (SavedNotApplied e), (row, cl))
           | (cl, None) \<Rightarrow> (Inr resp, (row, cl)))"

definition handle_put_collection :: "(string \<Rightarrow> (overlay \<times> bool) option) \<Rightarrow> (overlay \<Rightarrow> string) \<Rightarrow> chart_tools \<Rightarrow> collection_env \<Rightarrow>
    instant \<Rightarrow> identity option \<Rightarrow> string body \<Rightarrow> collection_state \<Rightarrow>
    (collection_failure + collection_response) \<times> collection_state" where
  "handle_put_collection json encode t env now who b st =
     (if \<not> ce_connected env then (Inl (Refused Unavailable), st)
      else case read_overlay_body json b of
        Inl e \<Rightarrow> (Inl e, st)
      | Inr o1 \<Rightarrow> save_and_apply encode t env now (requested_by who) o1
          \<lparr>co_overlay = o1, co_effective = None, co_updated = None, co_by = requested_by who\<rparr> st)"

definition handle_delete_collection :: "(overlay \<Rightarrow> string) \<Rightarrow> chart_tools \<Rightarrow> collection_env \<Rightarrow> instant \<Rightarrow> identity option \<Rightarrow>
    collection_state \<Rightarrow> (collection_failure + collection_response) \<times> collection_state" where
  "handle_delete_collection encode t env now who st =
     (if \<not> ce_connected env then (Inl (Refused Unavailable), st)
      else save_and_apply encode t env now (requested_by who) empty_overlay
        \<lparr>co_overlay = empty_overlay, co_effective = None, co_updated = None, co_by = []\<rparr> st)"

end
