(* ===== verification/CollectionLaws.thy ===== *)
theory CollectionLaws
  imports CollectionApply
begin

text \<open>
  What the collection overlay promises: the configuration reported to the console is the one the values
  given to the renderer have; the applier writes to the sensor's own objects only, reconciles them,
  and may be run again after any failure; what is stored reads back.
\<close>

section \<open>Reading and writing nested values\<close>

lemma map_fill [simp]: "YMap (coalesce d s) = fill_gaps (YMap s) (YMap d)"
  by (simp add: coalesce_def)

text \<open>A leaf is what the gaps of nothing are filled from.\<close>

definition leaf :: "yval \<Rightarrow> bool" where
  "leaf v \<longleftrightarrow> (case v of YMap _ \<Rightarrow> False | _ \<Rightarrow> True)"

lemma leaf_simps [simp]: "leaf (YBool b)" "leaf (YList xs)"
  by (simp_all add: leaf_def)

lemma fill_leaf [simp]: "leaf v \<Longrightarrow> fill_gaps s v = v"
  by (cases s; cases v) (auto simp: leaf_def)

text \<open>Following a path into a filled map, one key at a time.\<close>

fun apart :: "string list \<Rightarrow> string list \<Rightarrow> bool" where
  "apart (a # p) (b # q) = (a \<noteq> b \<or> apart p q)"
| "apart _ _ = False"

text \<open>Nothing but maps stands on the way to the last key of a path.\<close>

fun open_path :: "yvals \<Rightarrow> string list \<Rightarrow> bool" where
  "open_path m (k # k' # ks) =
     (case m k of None \<Rightarrow> True | Some (YMap n) \<Rightarrow> open_path n (k' # ks) | _ \<Rightarrow> False)"
| "open_path m _ = True"

lemma value_at_YNull [simp]: "q \<noteq> [] \<Longrightarrow> value_at YNull q = None"
  by (cases q) auto

lemma value_at_empty [simp]: "q \<noteq> [] \<Longrightarrow> value_at (YMap Map.empty) q = None"
  by (cases q) auto

lemma apart_nonempty: "apart p q \<Longrightarrow> p \<noteq> [] \<and> q \<noteq> []"
  by (cases p; cases q) auto

lemma value_at_scalar: "\<forall>m. w \<noteq> YMap m \<Longrightarrow> q \<noteq> [] \<Longrightarrow> value_at w q = None"
  by (cases q; cases w) auto

text \<open>The gaps of an empty map are filled with all there is.\<close>

lemma value_at_fill_empty: "q \<noteq> [] \<Longrightarrow> value_at (fill_gaps w (YMap Map.empty)) q = value_at w q"
  by (cases w; cases q) auto

lemma read_set_same:
  "leaf v \<Longrightarrow> p \<noteq> [] \<Longrightarrow> value_at (fill_gaps s (YMap (set_nested m v p))) p = Some v"
proof (induction m v p arbitrary: s rule: set_nested.induct)
  case (2 m v k)
  then show ?case by (cases s) (auto split: option.splits)
next
  case (3 m v k k' ks)
  let ?n = "case m k of Some (YMap n) \<Rightarrow> n | _ \<Rightarrow> Map.empty"
  have IH: "value_at (fill_gaps w (YMap (set_nested ?n v (k' # ks)))) (k' # ks) = Some v" for w
    using 3 by blast
  show ?case
    using IH IH [of YNull] by (cases s) (auto split: option.splits)
qed simp

lemma value_at_fill_cons:
  "value_at (fill_gaps s (YMap d)) (k # q) =
     (case d k of
        Some v \<Rightarrow> value_at (fill_gaps (case s of YMap m \<Rightarrow> (case m k of None \<Rightarrow> YNull | Some w \<Rightarrow> w) | _ \<Rightarrow> YNull) v) q
      | None \<Rightarrow> (case s of YMap m \<Rightarrow> (case m k of None \<Rightarrow> None | Some w \<Rightarrow> value_at w q) | _ \<Rightarrow> None))"
  by (cases s) (auto split: option.splits)

lemma read_set_other:
  "apart p q \<Longrightarrow> open_path m p \<Longrightarrow>
     value_at (fill_gaps s (YMap (set_nested m v p))) q = value_at (fill_gaps s (YMap m)) q"
proof (induction m v p arbitrary: s q rule: set_nested.induct)
  case (2 m v k)
  then obtain b q' where q: "q = b # q'" "b \<noteq> k" by (cases q) auto
  then show ?case by (simp only: q value_at_fill_cons set_nested.simps fun_upd_other [OF q(2)])
next
  case (3 m v k k' ks)
  then obtain b q' where q: "q = b # q'" by (cases q) auto
  let ?n = "case m k of Some (YMap n) \<Rightarrow> n | _ \<Rightarrow> Map.empty"
  have IH: "value_at (fill_gaps w (YMap (set_nested ?n v (k' # ks)))) r = value_at (fill_gaps w (YMap ?n)) r"
    if "apart (k' # ks) r" "open_path ?n (k' # ks)" for w r
    using 3(1) that by blast
  show ?case
  proof (cases "b = k")
    case False
    then show ?thesis by (simp only: q value_at_fill_cons set_nested.simps fun_upd_other [OF False])
  next
    case True
    with 3(2) q have ap: "apart (k' # ks) q'" by simp
    have ne: "q' \<noteq> []" using apart_nonempty [OF ap] by simp
    have op: "open_path ?n (k' # ks)"
      using 3(3) by (cases "m k"; cases ks) (auto split: yval.splits)
    show ?thesis
    proof (cases "m k")
      case None
      then show ?thesis
        using True ne IH [OF ap op]
        by (simp add: q value_at_fill_cons value_at_fill_empty del: value_at.simps fill_gaps.simps
          split: yval.splits option.splits)
    next
      case (Some x)
      with 3(3) obtain n where x: "x = YMap n" by (cases x) auto
      then show ?thesis
        using Some True IH [OF ap op] by (simp add: q value_at_fill_cons del: value_at.simps fill_gaps.simps)
    qed
  qed
qed simp

lemma open_path_empty [simp]: "open_path Map.empty q"
  by (cases "(Map.empty :: yvals, q)" rule: open_path.cases) auto

lemma open_path_set:
  "apart p q \<Longrightarrow> open_path m p \<Longrightarrow> open_path m q \<Longrightarrow> open_path (set_nested m v p) q"
proof (induction m v p arbitrary: q rule: set_nested.induct)
  case (2 m v k)
  then show ?case by (cases "(m, q)" rule: open_path.cases) auto
next
  case (3 m v k k' ks)
  let ?n = "case m k of Some (YMap n) \<Rightarrow> n | _ \<Rightarrow> Map.empty"
  have IH: "open_path (set_nested ?n v (k' # ks)) r"
    if "apart (k' # ks) r" "open_path ?n (k' # ks)" "open_path ?n r" for r
    using 3(1) that by blast
  have op: "open_path ?n (k' # ks)"
    using 3(3) by (cases "m k"; cases ks) (auto split: yval.splits)
  show ?case
  proof (cases "(m, q)" rule: open_path.cases)
    case (1 n b b' bs)
    show ?thesis
    proof (cases "k = b")
      case True
      with 1 3 have "apart (k' # ks) (b' # bs)" by simp
      moreover have "open_path ?n (b' # bs)"
        using 1 3(4) True by (cases "m k") (auto split: yval.splits)
      ultimately have "open_path (set_nested ?n v (k' # ks)) (b' # bs)" using IH op by blast
      then show ?thesis using 1 True by simp
    qed (use 3 1 in auto)
  qed auto
qed simp

section \<open>The effective configuration\<close>

declare fill_gaps.simps [simp del] value_at.simps [simp del]

lemma read_switch_other:
  "apart p q \<Longrightarrow> open_path m p \<Longrightarrow> value_at (fill_gaps s (YMap (set_switch b p m))) q = value_at (fill_gaps s (YMap m)) q"
  by (simp add: set_switch_def read_set_other split: option.split)

lemma open_path_switch:
  "apart p q \<Longrightarrow> open_path m p \<Longrightarrow> open_path m q \<Longrightarrow> open_path (set_switch b p m) q"
  by (simp add: set_switch_def open_path_set split: option.split)

lemma pick_switch:
  "p \<noteq> [] \<Longrightarrow> bool_at (coalesce (set_switch b p m) c) p = pick b (coalesce m c) p"
  by (simp add: pick_def bool_at_def set_switch_def read_set_same split: option.split)

definition overlay_paths :: "string list list" where
  "overlay_paths = [obi_path, logs_path, kubeletstats_path, profiler_path, green_path, exclude_path]"

definition gate_paths :: "string list list" where
  "gate_paths = [[''sensor'', ''enabled''], [''sensor'', ''agent'', ''enabled''], [''modules'', ''logs'', ''enabled''],
     [''modules'', ''infraMetrics'', ''enabled''], [''modules'', ''profiling'', ''enabled''], [''modules'', ''green'', ''enabled'']]"

lemma paths_apart:
  "list_all (\<lambda>p. list_all (\<lambda>q. p = q \<or> apart p q) (overlay_paths @ gate_paths)) overlay_paths"
  "list_all (\<lambda>p. p \<notin> set gate_paths \<and> p \<noteq> []) overlay_paths" "distinct overlay_paths"
  by code_simp+

lemma apartI: "p \<in> set overlay_paths \<Longrightarrow> q \<in> set (overlay_paths @ gate_paths) \<Longrightarrow> p \<noteq> q \<Longrightarrow> apart p q"
  using paths_apart(1) by (auto simp: list_all_iff)

text \<open>The overlay's writes as a list, so that one induction serves every path.\<close>

definition switches :: "overlay \<Rightarrow> (bool option \<times> string list) list" where
  "switches o1 = [(ov_obi o1, obi_path), (ov_logs o1, logs_path), (ov_kubeletstats o1, kubeletstats_path),
     (ov_profiler o1, profiler_path), (ov_green o1, green_path)]"

lemma set_switches_fold: "set_switches o1 m = fold (\<lambda>(b, p). set_switch b p) (switches o1) m"
  by (simp add: set_switches_def switches_def)

definition open_values :: "yvals \<Rightarrow> bool" where
  "open_values m \<longleftrightarrow> list_all (open_path m) overlay_paths"

lemma open_path_set_same: "open_path (set_nested m v p) p"
  by (induction m v p rule: set_nested.induct) auto

lemma open_values_set:
  assumes "open_values m" and p: "p \<in> set overlay_paths"
  shows "open_values (set_nested m v p)"
proof -
  have "open_path (set_nested m v p) q" if q: "q \<in> set overlay_paths" for q
  proof (cases "p = q")
    case False
    then have "apart p q" using apartI p q by simp
    then show ?thesis using assms q by (auto simp: open_values_def list_all_iff intro: open_path_set)
  qed (simp add: open_path_set_same)
  then show ?thesis by (simp add: open_values_def list_all_iff)
qed

lemma open_values_switch: "open_values m \<Longrightarrow> p \<in> set overlay_paths \<Longrightarrow> open_values (set_switch b p m)"
  by (simp add: set_switch_def open_values_set split: option.split)

lemma open_valuesD: "open_values m \<Longrightarrow> p \<in> set overlay_paths \<Longrightarrow> open_path m p"
  by (simp add: open_values_def list_all_iff)

abbreviation written :: "(bool option \<times> string list) list \<Rightarrow> yvals \<Rightarrow> yvals" where
  "written xs \<equiv> fold (\<lambda>(b, p). set_switch b p) xs"

lemma written_open: "open_values m \<Longrightarrow> snd ` set xs \<subseteq> set overlay_paths \<Longrightarrow> open_values (written xs m)"
  by (induction xs arbitrary: m) (auto simp: open_values_switch)

lemma read_written_other:
  "open_values m \<Longrightarrow> snd ` set xs \<subseteq> set overlay_paths \<Longrightarrow> q \<in> set (overlay_paths @ gate_paths) \<Longrightarrow> q \<notin> snd ` set xs \<Longrightarrow>
     value_at (fill_gaps s (YMap (written xs m))) q = value_at (fill_gaps s (YMap m)) q"
proof (induction xs arbitrary: m)
  case (Cons x xs)
  obtain b p where x: "x = (b, p)" by (cases x)
  then have "apart p q" "open_path m p" using Cons.prems by (auto intro!: apartI dest: open_valuesD)
  then show ?case using Cons x by (simp add: open_values_switch read_switch_other)
qed simp

lemma pick_written:
  "open_values m \<Longrightarrow> snd ` set xs \<subseteq> set overlay_paths \<Longrightarrow> distinct (map snd xs) \<Longrightarrow> (b, p) \<in> set xs \<Longrightarrow>
     bool_at (coalesce (written xs m) c) p = pick b (coalesce m c) p"
proof (induction xs arbitrary: m)
  case (Cons x xs)
  obtain b' p' where x: "x = (b', p')" by (cases x)
  show ?case
  proof (cases "p = p'")
    case True
    then have b: "b = b'" "p \<notin> snd ` set xs" using Cons.prems x by force+
    have p: "p \<in> set overlay_paths" "p \<noteq> []" using Cons.prems x True paths_apart(2) by (auto simp: list_all_iff)
    have "bool_at (coalesce (written (x # xs) m) c) p = bool_at (coalesce (set_switch b p m) c) p"
      using Cons.prems x True b p by (simp add: bool_at_def read_written_other open_values_switch)
    then show ?thesis using p by (simp add: pick_switch)
  next
    case False
    then have i: "(b, p) \<in> set xs" using Cons.prems x by auto
    then have p: "p \<in> set overlay_paths" and p': "p' \<in> set overlay_paths" using Cons.prems x by auto
    have "apart p' p" using apartI p p' False by simp
    moreover have "open_path m p'" using Cons.prems(1) p' by (rule open_valuesD)
    ultimately have "pick b (coalesce (set_switch b' p' m) c) p = pick b (coalesce m c) p"
      by (simp add: pick_def bool_at_def read_switch_other split: option.split)
    then show ?thesis using Cons.IH [of "set_switch b' p' m"] Cons.prems x i p' by (simp add: open_values_switch)
  qed
qed simp

lemma switches_paths: "snd ` set (switches o1) \<subseteq> set overlay_paths" "distinct (map snd (switches o1))"
  "exclude_path \<notin> snd ` set (switches o1)"
  using paths_apart(3) by (auto simp: switches_def overlay_paths_def)

lemma texts_of_texts [simp]: "texts_of (map YText xs) = xs"
  by (induction xs) auto

text \<open>C9. What the console reports as collected is what the sensor renders from: resolving the base
  values with the overlay on the side gives the same configuration as resolving the values the overlay
  has been written into, the ones the chart is rendered with, for base values that have a map, or
  nothing, wherever a switch is nested.\<close>

theorem effective_is_rendered:
  assumes "open_values base" and "apply_overlay_to_values base o1 = Inr vals"
  shows "effective_from_values chart base o1 = effective_from_values chart vals empty_overlay"
proof -
  let ?w = "written (switches o1) base" and ?S = "YMap chart"
  have ow: "open_values ?w" using written_open assms(1) switches_paths(1) by blast
  have vals: "vals = ?w \<or> (\<exists>ns. ov_exclude o1 = Some ns \<and> vals = set_nested ?w (YList (map YText ns)) exclude_path)"
    and none: "ov_exclude o1 = None \<Longrightarrow> vals = ?w"
    and some: "\<And>ns. ov_exclude o1 = Some ns \<Longrightarrow>
      validate_namespaces (Some ns) = None \<and> vals = set_nested ?w (YList (map YText ns)) exclude_path"
    using assms(2) by (auto simp: apply_overlay_to_values_def Let_def set_switches_fold split: option.splits)
  have ex: "exclude_path \<in> set overlay_paths" by (simp add: overlay_paths_def)
  have other: "value_at (fill_gaps ?S (YMap vals)) q = value_at (fill_gaps ?S (YMap ?w)) q"
    if "q \<in> set (overlay_paths @ gate_paths)" "q \<noteq> exclude_path" for q
  proof -
    have "apart exclude_path q" by (rule apartI [OF ex that(1)]) (use that(2) in simp)
    then show ?thesis using vals open_valuesD [OF ow ex] by (auto simp: read_set_other)
  qed
  have gate: "bool_at (coalesce vals chart) q = bool_at (coalesce base chart) q" if "q \<in> set gate_paths" for q
  proof -
    have "q \<noteq> exclude_path" "q \<notin> snd ` set (switches o1)"
      using that paths_apart(2) ex switches_paths(1) by (auto simp: list_all_iff)
    then show ?thesis using that assms(1) switches_paths(1) by (simp add: bool_at_def other read_written_other)
  qed
  have switch: "bool_at (coalesce vals chart) p = pick b (coalesce base chart) p" if "(b, p) \<in> set (switches o1)" for b p
  proof -
    have "p \<in> set overlay_paths" "p \<noteq> exclude_path" using that switches_paths by force+
    then have "bool_at (coalesce vals chart) p = bool_at (coalesce ?w chart) p" by (simp add: bool_at_def other)
    then show ?thesis using pick_written assms(1) switches_paths that by simp
  qed
  have list: "strings_at (coalesce vals chart) exclude_path =
      (case ov_exclude o1 of None \<Rightarrow> strings_at (coalesce base chart) exclude_path | Some ns \<Rightarrow> Some ns)"
  proof (cases "ov_exclude o1")
    case None
    then show ?thesis
      using none ex assms(1) switches_paths by (simp add: strings_at_def read_written_other)
  next
    case (Some ns)
    have "exclude_path \<noteq> []" by (simp add: exclude_path_def)
    then show ?thesis using some [OF Some] Some by (simp add: strings_at_def read_set_same)
  qed
  have sw: "bool_at (coalesce vals chart) obi_path = pick (ov_obi o1) (coalesce base chart) obi_path"
    "bool_at (coalesce vals chart) logs_path = pick (ov_logs o1) (coalesce base chart) logs_path"
    "bool_at (coalesce vals chart) kubeletstats_path = pick (ov_kubeletstats o1) (coalesce base chart) kubeletstats_path"
    "bool_at (coalesce vals chart) profiler_path = pick (ov_profiler o1) (coalesce base chart) profiler_path"
    "bool_at (coalesce vals chart) green_path = pick (ov_green o1) (coalesce base chart) green_path"
    by (simp_all add: switch switches_def)
  show ?thesis
    using some by (simp add: effective_from_values_def Let_def empty_overlay_def list gate gate_paths_def sw
      pick_def [of None] split: option.split)
qed

definition sample_chart :: yvals where
  "sample_chart = [''sensor'' \<mapsto> YMap [''enabled'' \<mapsto> YBool True,
       ''agent'' \<mapsto> YMap [''enabled'' \<mapsto> YBool True, ''logs'' \<mapsto> YMap [''enabled'' \<mapsto> YBool False]],
       ''obi'' \<mapsto> YMap [''enabled'' \<mapsto> YBool True]],
     ''modules'' \<mapsto> YMap [''logs'' \<mapsto> YMap [''enabled'' \<mapsto> YBool True]]]"

definition sample_overlay :: overlay where
  "sample_overlay = empty_overlay\<lparr>ov_logs := Some True, ov_exclude := Some [''kube-system'']\<rparr>"

lemmas tree_eval = set_nested.simps value_at.simps fill_gaps.simps value_at_fill_cons coalesce_def bool_at_def strings_at_def
  path_defs set_switches_def set_switch_def pick_def

theorem effective_is_rendered_witness:
  "\<exists>vals. apply_overlay_to_values [''sensor'' \<mapsto> YMap [''obi'' \<mapsto> YMap [''enabled'' \<mapsto> YBool False]]] sample_overlay = Inr vals \<and>
     effective_from_values sample_chart [''sensor'' \<mapsto> YMap [''obi'' \<mapsto> YMap [''enabled'' \<mapsto> YBool False]]] sample_overlay =
       effective_from_values sample_chart vals empty_overlay \<and>
     effective_from_values sample_chart vals empty_overlay =
       Inr \<lparr>ef_obi = False, ef_logs = True, ef_kubeletstats = False, ef_profiler = False, ef_green = False, ef_exclude = [''kube-system'']\<rparr>"
proof -
  let ?b = "[''sensor'' \<mapsto> YMap [''obi'' \<mapsto> YMap [''enabled'' \<mapsto> YBool False]]] :: yvals"
  have ok: "validate_namespaces (Some [''kube-system'']) = None" by code_simp
  have o: "open_values ?b" by (simp add: open_values_def overlay_paths_def path_defs)
  obtain vals where v: "apply_overlay_to_values ?b sample_overlay = Inr vals"
    by (simp add: apply_overlay_to_values_def sample_overlay_def empty_overlay_def ok)
  have e: "effective_from_values sample_chart ?b sample_overlay =
      Inr \<lparr>ef_obi = False, ef_logs = True, ef_kubeletstats = False, ef_profiler = False, ef_green = False, ef_exclude = [''kube-system'']\<rparr>"
    by (simp add: effective_from_values_def sample_overlay_def empty_overlay_def sample_chart_def ok tree_eval)
  have "effective_from_values sample_chart ?b sample_overlay = effective_from_values sample_chart vals empty_overlay"
    using effective_is_rendered [OF o v] by simp
  then show ?thesis using v e by auto
qed

text \<open>
  Where the base has an explicit null above a switch the two differ: the report reads the section as
  off, the renderer replaces the null by a map and the chart's defaults come back.
\<close>

lemma null_section_diverges:
  "\<exists>vals. apply_overlay_to_values [''sensor'' \<mapsto> YNull] (empty_overlay\<lparr>ov_obi := Some True\<rparr>) = Inr vals \<and>
     map_sum id ef_obi (effective_from_values sample_chart [''sensor'' \<mapsto> YNull] (empty_overlay\<lparr>ov_obi := Some True\<rparr>)) = Inr False \<and>
     map_sum id ef_obi (effective_from_values sample_chart vals empty_overlay) = Inr True"
  by (simp add: apply_overlay_to_values_def effective_from_values_def empty_overlay_def sample_chart_def tree_eval)

end
