(* ===== verification/ApplierLaws.thy ===== *)
theory ApplierLaws
  imports CollectionApply
begin

text \<open>
  The applier of the collection overlay on the cluster: it writes the sensor's own objects only, a
  successful run leaves them as rendered, a failed one can be repeated, and a second run changes
  nothing. What is stored through the handlers reads back.
\<close>

section \<open>One config map\<close>

lemma equal_string_maps_refl: "distinct (map fst a) \<Longrightarrow> equal_string_maps a a"
  by (auto simp: equal_string_maps_def list_all_iff)

lemma equal_string_mapsD: "equal_string_maps a b \<Longrightarrow> distinct (map fst a) \<Longrightarrow> distinct (map fst b) \<Longrightarrow> map_of a = map_of b"
proof -
  assume e: "equal_string_maps a b" and d: "distinct (map fst a)" "distinct (map fst b)"
  then have sub: "set a \<subseteq> set b" by (auto simp: equal_string_maps_def list_all_iff dest!: map_of_SomeD)
  have "card (set a) = length a" "card (set b) = length b"
    using d by (simp_all add: distinct_card distinct_map)
  then have "set a = set b" using sub e by (simp add: card_subset_eq equal_string_maps_def)
  then show ?thesis using d by (simp add: map_of_inject_set)
qed

lemma equal_string_maps_single: "equal_string_maps d [(k, v)] \<Longrightarrow> d = [(k, v)]"
  by (cases d) (auto simp: equal_string_maps_def split: if_splits)

text \<open>The object after a config map has been written over it; the write is skipped when it says the same.\<close>

definition written_over :: "live_config_map \<Rightarrow> config_map \<Rightarrow> live_config_map" where
  "written_over live want = (if equal_string_maps (lc_data live) (cm_data want) then live else live\<lparr>lc_data := cm_data want\<rparr>)"

definition keyed :: "config_map \<Rightarrow> bool" where
  "keyed c \<longleftrightarrow> distinct (map fst (cm_data c))"

lemma written_over_again: "keyed c \<Longrightarrow> written_over (written_over live c) c = written_over live c"
  by (simp add: written_over_def keyed_def equal_string_maps_refl)

lemma written_over_equal: "keyed c \<Longrightarrow> equal_string_maps (lc_data (written_over live c)) (cm_data c)"
  by (simp add: written_over_def keyed_def equal_string_maps_refl)

lemma written_over_meta [simp]: "lc_meta (written_over live c) = lc_meta live"
  by (simp add: written_over_def)

lemma apply_config_map_ok:
  assumes "apply_config_map fails c cl = (cl', None)"
  obtains live where "cl_config_maps cl (cm_name c) = Some live"
    "cl_config_maps cl' = (cl_config_maps cl)(cm_name c \<mapsto> written_over live c)" "cl_daemon_sets cl' = cl_daemon_sets cl"
  using assms by (auto simp: apply_config_map_def Let_def written_over_def fun_upd_idem split: if_splits option.splits)

lemma apply_config_map_fail:
  "apply_config_map fails c cl = (cl', Some e) \<Longrightarrow> cl' = cl"
  by (auto simp: apply_config_map_def Let_def split: if_splits option.splits)

section \<open>All of them\<close>

text \<open>Two clusters that hold the same objects, whatever was written to get there.\<close>

definition same_objects :: "cluster \<Rightarrow> cluster \<Rightarrow> bool" where
  "same_objects c d \<longleftrightarrow> cl_config_maps c = cl_config_maps d \<and> cl_daemon_sets c = cl_daemon_sets d"

definition wanted :: "config_map list \<Rightarrow> (string \<Rightarrow> live_config_map option) \<Rightarrow> string \<Rightarrow> live_config_map option" where
  "wanted cms m n = (case find (\<lambda>c. cm_name c = n) cms of
     None \<Rightarrow> m n | Some c \<Rightarrow> map_option (\<lambda>live. written_over live c) (m n))"

lemma wanted_Nil [simp]: "wanted [] m = m"
  by (simp add: wanted_def fun_eq_iff)

lemma wanted_Cons:
  "cm_name c \<notin> cm_name ` set cs \<Longrightarrow> m (cm_name c) = Some live \<Longrightarrow>
     wanted cs (m(cm_name c \<mapsto> written_over live c)) = wanted (c # cs) m"
proof (rule ext)
  fix n
  assume "cm_name c \<notin> cm_name ` set cs" and live: "m (cm_name c) = Some live"
  then have "find (\<lambda>x. cm_name x = cm_name c) cs = None" by (simp add: find_None_iff) (metis image_eqI)
  then show "wanted cs (m(cm_name c \<mapsto> written_over live c)) n = wanted (c # cs) m n"
    using live by (auto simp: wanted_def split: option.split)
qed

lemma apply_config_maps_ok:
  "apply_config_maps fails cms cl = (cl', None) \<Longrightarrow> distinct (map cm_name cms) \<Longrightarrow>
     cl_config_maps cl' = wanted cms (cl_config_maps cl) \<and> cl_daemon_sets cl' = cl_daemon_sets cl \<and>
     (\<forall>c\<in>set cms. cl_config_maps cl (cm_name c) \<noteq> None)"
proof (induction cms arbitrary: cl)
  case (Cons c cs)
  then obtain cl1 where one: "apply_config_map fails c cl = (cl1, None)" and
    rest: "apply_config_maps fails cs cl1 = (cl', None)" by (auto split: prod.splits option.splits)
  obtain live where live: "cl_config_maps cl (cm_name c) = Some live"
    and m1: "cl_config_maps cl1 = (cl_config_maps cl)(cm_name c \<mapsto> written_over live c)"
    and d1: "cl_daemon_sets cl1 = cl_daemon_sets cl"
    using one by (rule apply_config_map_ok)
  have new: "cm_name c \<notin> cm_name ` set cs" using Cons.prems(2) by simp
  have "cl_config_maps cl' = wanted cs (cl_config_maps cl1)" "cl_daemon_sets cl' = cl_daemon_sets cl1"
    "\<forall>x\<in>set cs. cl_config_maps cl1 (cm_name x) \<noteq> None"
    using Cons.IH [OF rest] Cons.prems(2) by auto
  moreover have "\<forall>x\<in>set cs. cl_config_maps cl (cm_name x) \<noteq> None"
    using \<open>\<forall>x\<in>set cs. cl_config_maps cl1 (cm_name x) \<noteq> None\<close> new m1 by (metis fun_upd_apply image_eqI)
  ultimately show ?case using m1 d1 live wanted_Cons [of c cs "cl_config_maps cl" live] new live by simp
qed simp

text \<open>A run that fails has written a first part of the config maps, and no DaemonSet.\<close>

lemma apply_config_maps_fail:
  "apply_config_maps fails cms cl = (cl', Some e) \<Longrightarrow> distinct (map cm_name cms) \<Longrightarrow>
     \<exists>pre post. cms = pre @ post \<and> cl_config_maps cl' = wanted pre (cl_config_maps cl) \<and> cl_daemon_sets cl' = cl_daemon_sets cl"
proof (induction cms arbitrary: cl)
  case (Cons c cs)
  show ?case
  proof (cases "apply_config_map fails c cl")
    case (Pair cl1 r)
    show ?thesis
    proof (cases r)
      case (Some e1)
      then have "cl' = cl" using Cons.prems Pair apply_config_map_fail by auto
      then show ?thesis by (intro exI [of _ "[]"] exI [of _ "c # cs"]) simp
    next
      case None
      with Pair obtain live where live: "cl_config_maps cl (cm_name c) = Some live"
        and m1: "cl_config_maps cl1 = (cl_config_maps cl)(cm_name c \<mapsto> written_over live c)"
        and d1: "cl_daemon_sets cl1 = cl_daemon_sets cl"
        by (auto elim: apply_config_map_ok)
      obtain pre post where p: "cs = pre @ post" "cl_config_maps cl' = wanted pre (cl_config_maps cl1)"
        "cl_daemon_sets cl' = cl_daemon_sets cl1"
        using Cons.IH [of cl1] Cons.prems Pair None by auto
      have "cm_name c \<notin> cm_name ` set pre" using Cons.prems(2) p(1) by auto
      then show ?thesis using p m1 d1 wanted_Cons [of c pre "cl_config_maps cl" live] live
        by (intro exI [of _ "c # pre"] exI [of _ post]) simp
    qed
  qed
qed simp

lemma find_append: "find P (xs @ ys) = (case find P xs of None \<Rightarrow> find P ys | Some x \<Rightarrow> Some x)"
  by (induction xs) auto

lemma wanted_prefix:
  assumes "list_all keyed (pre @ post)"
  shows "wanted (pre @ post) (wanted pre m) = wanted (pre @ post) m"
proof (rule ext)
  fix n
  show "wanted (pre @ post) (wanted pre m) n = wanted (pre @ post) m n"
  proof (cases "find (\<lambda>c. cm_name c = n) pre")
    case (Some c)
    then have "keyed c" using assms by (auto simp: find_Some_iff list_all_iff)
    then show ?thesis using Some
      by (simp add: wanted_def find_append option.map_comp comp_def written_over_again)
  next
    case None
    then have "wanted pre m n = m n" by (simp add: wanted_def)
    then show ?thesis using None by (simp add: wanted_def find_append split: option.split)
  qed
qed

lemma wanted_dom: "wanted cms m n = None \<longleftrightarrow> m n = None"
  by (simp add: wanted_def split: option.split)

section \<open>A whole run\<close>

definition patched :: "daemon_set \<Rightarrow> string \<Rightarrow> live_daemon_set \<Rightarrow> live_daemon_set" where
  "patched ds checksum live =
     (if map_of (ld_annotations live) overlay_checksum_annotation = Some checksum then live
      else live\<lparr>ld_containers := ds_containers ds, ld_volumes := ds_volumes ds,
                ld_annotations := AList.update overlay_checksum_annotation checksum (ld_annotations live)\<rparr>)"

lemma patched_annotation [simp]:
  "map_of (ld_annotations (patched ds checksum live)) overlay_checksum_annotation = Some checksum"
  by (simp add: patched_def update_conv')

lemma patched_again [simp]: "patched ds checksum (patched ds checksum live) = patched ds checksum live"
  by (simp add: patched_def [of ds checksum "patched ds checksum live"])

lemma patch_ok:
  assumes "patch_daemon_set fails a ds checksum cl = (cl', None)"
  obtains live where "cl_daemon_sets cl (daemon_set_name a) = Some live" "cl_config_maps cl' = cl_config_maps cl"
    "cl_daemon_sets cl' = (cl_daemon_sets cl)(daemon_set_name a \<mapsto> patched ds checksum live)"
  using assms by (auto simp: patch_daemon_set_def Let_def patched_def fun_upd_idem split: if_splits option.splits)

lemma patch_fail: "patch_daemon_set fails a ds checksum cl = (cl', Some e) \<Longrightarrow> cl' = cl"
  by (auto simp: patch_daemon_set_def Let_def split: if_splits option.splits)

text \<open>The base values are not among the objects the applier writes.\<close>

lemma base_not_allowed: "base_values_name a \<notin> set (allowed_config_maps a)"
  by (simp add: base_values_name_def allowed_config_maps_def)

lemma first_foreign_None: "first_foreign allowed cs = None \<longleftrightarrow> (\<forall>c\<in>set cs. cm_name c \<in> set allowed)"
  by (induction cs) auto

lemma plan_names:
  assumes "plan_apply t fails a o1 cl = Inr (cms, ds)"
  shows "\<forall>c\<in>set cms. cm_name c \<in> set (allowed_config_maps a)" "ds_name ds = daemon_set_name a"
  using assms by (auto simp: plan_apply_def verify_names_def first_foreign_None split: sum.splits option.splits if_splits)

lemma wanted_outside: "n \<notin> cm_name ` set cms \<Longrightarrow> wanted cms m n = m n"
proof -
  assume "n \<notin> cm_name ` set cms"
  then have "find (\<lambda>c. cm_name c = n) cms = None" by (auto simp: find_None_iff)
  then show ?thesis by (simp add: wanted_def)
qed

lemma plan_stable:
  assumes "cl_config_maps cl' (base_values_name a) = cl_config_maps cl (base_values_name a)"
    and "fails' (GetConfigMap (base_values_name a)) = fails (GetConfigMap (base_values_name a))"
  shows "plan_apply t fails' a o1 cl' = plan_apply t fails a o1 cl"
  using assms by (simp add: plan_apply_def load_base_values_def)

lemma plan_deterministic:
  assumes "plan_apply t fails a o1 cl = Inr p" and "\<not> fails' (GetConfigMap (base_values_name a))"
  shows "plan_apply t fails' a o1 cl = Inr p"
proof -
  have "\<not> fails (GetConfigMap (base_values_name a))"
    using assms(1) by (auto simp: plan_apply_def load_base_values_def split: if_splits)
  then show ?thesis using assms by (simp add: plan_apply_def load_base_values_def)
qed

text \<open>The objects a run leaves that planned to write these manifests and succeeded.\<close>

lemma apply_ok:
  assumes run: "apply_overlay t fails a o1 cl = (cl', None)" and plan: "plan_apply t fails a o1 cl = Inr (cms, ds)"
    and d: "distinct (map cm_name cms)"
  obtains live where "cl_daemon_sets cl (daemon_set_name a) = Some live"
    "cl_config_maps cl' = wanted cms (cl_config_maps cl)"
    "cl_daemon_sets cl' = (cl_daemon_sets cl)(daemon_set_name a \<mapsto> patched ds (overlay_checksum t cms ds) live)"
    "\<forall>c\<in>set cms. cl_config_maps cl (cm_name c) \<noteq> None"
proof -
  obtain cl1 where c: "apply_config_maps fails cms cl = (cl1, None)"
    and p: "patch_daemon_set fails a ds (overlay_checksum t cms ds) cl1 = (cl', None)"
    using run plan by (auto simp: apply_overlay_def split: prod.splits option.splits)
  show thesis
    by (rule patch_ok [OF p]) (use apply_config_maps_ok [OF c d] that in auto)
qed

lemma apply_fail:
  assumes run: "apply_overlay t fails a o1 cl = (cl', Some e)" and plan: "plan_apply t fails a o1 cl = Inr (cms, ds)"
    and d: "distinct (map cm_name cms)"
  shows "\<exists>pre post. cms = pre @ post \<and> cl_config_maps cl' = wanted pre (cl_config_maps cl) \<and> cl_daemon_sets cl' = cl_daemon_sets cl"
proof (cases "apply_config_maps fails cms cl")
  case (Pair cl1 r)
  show ?thesis
  proof (cases r)
    case None
    then have "cl' = cl1" using run plan Pair patch_fail by (auto simp: apply_overlay_def)
    then show ?thesis using apply_config_maps_ok [OF _ d, of fails cl cl1] Pair None
      by (intro exI [of _ cms] exI [of _ "[]"]) simp
  next
    case (Some e1)
    then have "cl' = cl1" using run plan Pair by (auto simp: apply_overlay_def)
    then show ?thesis using apply_config_maps_fail [OF _ d, of fails cl cl1 e1] Pair Some by simp
  qed
qed

text \<open>When no call fails, a run needs the objects to be there and nothing else.\<close>

lemma apply_config_maps_total:
  "\<forall>c\<in>set cms. cl_config_maps cl (cm_name c) \<noteq> None \<Longrightarrow> \<exists>cl'. apply_config_maps (\<lambda>_. False) cms cl = (cl', None)"
proof (induction cms arbitrary: cl)
  case (Cons c cs)
  then obtain live where live: "cl_config_maps cl (cm_name c) = Some live" by auto
  obtain cl1 r where one: "apply_config_map (\<lambda>_. False) c cl = (cl1, r)" by (metis surj_pair)
  have r: "r = None" using one live by (auto simp: apply_config_map_def Let_def split: if_splits)
  have "\<forall>x\<in>set cs. cl_config_maps cl1 (cm_name x) \<noteq> None"
    using one r live Cons.prems by (auto simp: apply_config_map_def Let_def split: if_splits)
  then show ?case using Cons.IH [of cl1] one r by simp
qed simp

lemma apply_total:
  assumes plan: "plan_apply t (\<lambda>_. False) a o1 cl = Inr (cms, ds)" and d: "distinct (map cm_name cms)"
    and there: "\<forall>c\<in>set cms. cl_config_maps cl (cm_name c) \<noteq> None" "cl_daemon_sets cl (daemon_set_name a) \<noteq> None"
  shows "\<exists>cl'. apply_overlay t (\<lambda>_. False) a o1 cl = (cl', None)"
proof -
  obtain cl1 where c: "apply_config_maps (\<lambda>_. False) cms cl = (cl1, None)" using apply_config_maps_total there(1) by blast
  have "cl_daemon_sets cl1 = cl_daemon_sets cl" using apply_config_maps_ok [OF c d] by simp
  then show ?thesis using there(2) plan c by (auto simp: apply_overlay_def patch_daemon_set_def Let_def)
qed

lemma base_not_planned:
  assumes "plan_apply t fails a o1 cl = Inr (cms, ds)"
  shows "base_values_name a \<notin> cm_name ` set cms"
  using plan_names(1) [OF assms] base_not_allowed [of a] by auto

lemma apply_config_maps_again:
  assumes "\<forall>c\<in>set cms. \<exists>live. cl_config_maps cl (cm_name c) = Some live \<and> equal_string_maps (lc_data live) (cm_data c)"
    and "\<And>n. \<not> fails (GetConfigMap n)"
  shows "apply_config_maps fails cms cl = (cl, None)"
  using assms(1)
proof (induction cms)
  case (Cons c xs)
  then have "apply_config_map fails c cl = (cl, None)" using assms(2) by (auto simp: apply_config_map_def Let_def)
  then show ?case using Cons by simp
qed simp

lemma wanted_member:
  assumes "c \<in> set cms" and "distinct (map cm_name cms)"
  shows "wanted cms m (cm_name c) = map_option (\<lambda>l. written_over l c) (m (cm_name c))"
proof -
  have "find (\<lambda>x. cm_name x = cm_name c) cms = Some c"
    using assms by (induction cms) (auto simp: image_iff)
  then show ?thesis by (simp add: wanted_def)
qed

lemma config_maps_reconciled:
  assumes "distinct (map cm_name cms)" and "list_all keyed cms" and "\<forall>c\<in>set cms. m (cm_name c) \<noteq> None" and "c \<in> set cms"
  shows "\<exists>was live. m (cm_name c) = Some was \<and> wanted cms m (cm_name c) = Some live \<and>
    equal_string_maps (lc_data live) (cm_data c) \<and> lc_meta live = lc_meta was"
proof -
  obtain was where was: "m (cm_name c) = Some was" using assms(3,4) by auto
  have k: "keyed c" using assms(2,4) by (simp add: list_all_iff)
  show ?thesis
    by (rule exI [of _ was], rule exI [of _ "written_over was c"])
      (simp add: wanted_member [OF assms(4,1)] was written_over_equal [OF k])
qed

text \<open>C18. A run of the applier that succeeds leaves every rendered config map live with the rendered data and
  everything else of the object as it was, and the sensor's DaemonSet under the checksum of the render:
  with the rendered containers and volumes, or untouched where it already carried that checksum. A
  second run then changes nothing, whether or not the cluster would accept a write.\<close>

theorem apply_reconciles:
  assumes run: "apply_overlay t fails a o1 cl = (cl', None)" and plan: "plan_apply t fails a o1 cl = Inr (cms, ds)"
    and d: "distinct (map cm_name cms)" and k: "list_all keyed cms"
    and g: "\<And>n. \<not> fails2 (GetConfigMap n)" and gd: "\<And>n. \<not> fails2 (GetDaemonSet n)"
  shows "(\<forall>c\<in>set cms. \<exists>was live. cl_config_maps cl (cm_name c) = Some was \<and> cl_config_maps cl' (cm_name c) = Some live \<and>
      equal_string_maps (lc_data live) (cm_data c) \<and> lc_meta live = lc_meta was) \<and>
    (\<exists>was live. cl_daemon_sets cl (daemon_set_name a) = Some was \<and> cl_daemon_sets cl' (daemon_set_name a) = Some live \<and>
      map_of (ld_annotations live) overlay_checksum_annotation = Some (overlay_checksum t cms ds) \<and>
      (if map_of (ld_annotations was) overlay_checksum_annotation = Some (overlay_checksum t cms ds) then live = was
       else ld_containers live = ds_containers ds \<and> ld_volumes live = ds_volumes ds \<and> ld_meta live = ld_meta was)) \<and>
    apply_overlay t fails2 a o1 cl' = (cl', None)"
proof -
  obtain was where was: "cl_daemon_sets cl (daemon_set_name a) = Some was"
    and cms': "cl_config_maps cl' = wanted cms (cl_config_maps cl)"
    and ds': "cl_daemon_sets cl' = (cl_daemon_sets cl)(daemon_set_name a \<mapsto> patched ds (overlay_checksum t cms ds) was)"
    and there: "\<forall>c\<in>set cms. cl_config_maps cl (cm_name c) \<noteq> None"
    using run plan d by (rule apply_ok)
  note maps = config_maps_reconciled [OF d k there, folded cms']
  have "plan_apply t fails2 a o1 cl' = plan_apply t fails2 a o1 cl"
    using cms' wanted_outside [OF base_not_planned [OF plan]] by (intro plan_stable) simp_all
  then have "plan_apply t fails2 a o1 cl' = Inr (cms, ds)" using plan_deterministic [OF plan] g by simp
  moreover have "apply_config_maps fails2 cms cl' = (cl', None)"
    by (rule apply_config_maps_again) (use maps g in blast)+
  ultimately have again: "apply_overlay t fails2 a o1 cl' = (cl', None)"
    using ds' gd by (simp add: apply_overlay_def patch_daemon_set_def Let_def)
  show ?thesis using maps was ds' again by (auto simp: patched_def update_conv')
qed

definition sample_tools :: chart_tools where
  "sample_tools =
     \<lparr>ct_json = (\<lambda>_. Some Map.empty),
      ct_engine = (\<lambda>_ _ _. Inr [(''avuruobs/templates/sensor-config.yaml'', ''c''), (''avuruobs/templates/sensor-daemonset.yaml'', ''d'')]),
      ct_yaml = (\<lambda>d. if d = ''c'' then ConfigMapDoc \<lparr>cm_name = ''o-sensor-obi'', cm_data = [(''k'', ''new'')]\<rparr>
                     else DaemonSetDoc \<lparr>ds_name = ''o-sensor'', ds_containers = ''two'', ds_volumes = ''v''\<rparr>),
      ct_hash = (\<lambda>cms c v. concat (map fst cms) @ c @ v)\<rparr>"

definition sample_applier :: applier where
  "sample_applier = \<lparr>ap_release = ''o'', ap_namespace = ''ns'', ap_fullname = ''o''\<rparr>"

definition sample_cluster :: cluster where
  "sample_cluster =
     \<lparr>cl_config_maps = [''o-collection-base-values'' \<mapsto> \<lparr>lc_data = [(''values.json'', ''{}'')], lc_meta = ''m''\<rparr>,
                        ''o-sensor-obi'' \<mapsto> \<lparr>lc_data = [(''k'', ''old'')], lc_meta = ''m''\<rparr>],
      cl_daemon_sets = [''o-sensor'' \<mapsto> \<lparr>ld_containers = ''one'', ld_volumes = ''v'', ld_annotations = [], ld_meta = ''m''\<rparr>],
      cl_writes = []\<rparr>"

abbreviation sample_maps :: "config_map list" where
  "sample_maps \<equiv> [\<lparr>cm_name = ''o-sensor-obi'', cm_data = [(''k'', ''new'')]\<rparr>]"

abbreviation sample_pod :: daemon_set where
  "sample_pod \<equiv> \<lparr>ds_name = ''o-sensor'', ds_containers = ''two'', ds_volumes = ''v''\<rparr>"

lemma sample_render:
  "render_sensor_manifests (ct_engine sample_tools) (ct_yaml sample_tools) Map.empty empty_overlay ''o'' ''ns'' =
     Inr \<lparr>mf_config_maps = sample_maps, mf_daemon_set = Some sample_pod\<rparr>"
proof -
  have f: "is_sensor_template ''avuruobs/templates/sensor-config.yaml''" "is_sensor_template ''avuruobs/templates/sensor-daemonset.yaml''"
    "split_yaml_docs ''c'' = [''c'']" "split_yaml_docs ''d'' = [''d'']"
    by code_simp+
  show ?thesis
    by (simp add: render_sensor_manifests_def apply_overlay_to_values_def set_switches_def set_switch_def empty_overlay_def
      sample_tools_def f)
qed

lemma sample_planned: "plan_apply sample_tools (\<lambda>_. False) sample_applier empty_overlay sample_cluster = Inr (sample_maps, sample_pod)"
proof -
  have "load_base_values (ct_json sample_tools) (\<lambda>_. False) sample_applier sample_cluster = Inr Map.empty"
    by (simp add: load_base_values_def sample_tools_def sample_applier_def sample_cluster_def base_values_name_def)
  moreover have "verify_names sample_applier sample_maps sample_pod = None" by code_simp
  ultimately show ?thesis using sample_render by (simp add: plan_apply_def sample_applier_def)
qed

theorem apply_reconciles_witness:
  "\<exists>cl'. apply_overlay sample_tools (\<lambda>_. False) sample_applier empty_overlay sample_cluster = (cl', None) \<and>
     map_option lc_data (cl_config_maps cl' ''o-sensor-obi'') = Some [(''k'', ''new'')] \<and>
     map_option ld_containers (cl_daemon_sets cl' ''o-sensor'') = Some ''two'' \<and>
     apply_overlay sample_tools (\<lambda>c. case c of UpdateConfigMap _ \<Rightarrow> True | PatchDaemonSet _ \<Rightarrow> True | _ \<Rightarrow> False)
       sample_applier empty_overlay cl' = (cl', None)"
proof -
  have n: "daemon_set_name sample_applier = ''o-sensor''" by (simp add: daemon_set_name_def sample_applier_def)
  obtain cl' where run: "apply_overlay sample_tools (\<lambda>_. False) sample_applier empty_overlay sample_cluster = (cl', None)"
    using apply_total [OF sample_planned] n by (auto simp: sample_cluster_def)
  have d: "distinct (map cm_name sample_maps)" and k: "list_all keyed sample_maps" by (simp_all add: keyed_def)
  show ?thesis
    using apply_reconciles [OF run sample_planned d k,
        of "\<lambda>c. case c of UpdateConfigMap _ \<Rightarrow> True | PatchDaemonSet _ \<Rightarrow> True | _ \<Rightarrow> False"] run n
    by (auto simp: sample_cluster_def dest: equal_string_maps_single)
qed

text \<open>C5. A run that failed at any call can be repeated: once the cluster answers, applying the same
  overlay again succeeds and leaves exactly the objects a first run without failures would have left.\<close>

theorem apply_retry_converges:
  assumes failed: "apply_overlay t fails a o1 cl = (cl1, Some e)"
    and direct: "apply_overlay t (\<lambda>_. False) a o1 cl = (cl3, None)" and plan: "plan_apply t (\<lambda>_. False) a o1 cl = Inr (cms, ds)"
    and d: "distinct (map cm_name cms)" and k: "list_all keyed cms"
  shows "\<exists>cl2. apply_overlay t (\<lambda>_. False) a o1 cl1 = (cl2, None) \<and> same_objects cl2 cl3"
proof -
  obtain was where was: "cl_daemon_sets cl (daemon_set_name a) = Some was"
    and cms3: "cl_config_maps cl3 = wanted cms (cl_config_maps cl)"
    and ds3: "cl_daemon_sets cl3 = (cl_daemon_sets cl)(daemon_set_name a \<mapsto> patched ds (overlay_checksum t cms ds) was)"
    and there: "\<forall>c\<in>set cms. cl_config_maps cl (cm_name c) \<noteq> None"
    using direct plan d by (rule apply_ok)
  obtain pre post where p: "cms = pre @ post" and m1: "cl_config_maps cl1 = wanted pre (cl_config_maps cl)"
    and d1: "cl_daemon_sets cl1 = cl_daemon_sets cl"
  proof (cases "plan_apply t fails a o1 cl")
    case (Inl x)
    then have "cl1 = cl" using failed by (simp add: apply_overlay_def)
    then show thesis using that [of "[]" cms] by simp
  next
    case (Inr q)
    then have "plan_apply t fails a o1 cl = Inr (cms, ds)" using plan plan_deterministic [OF Inr, of "\<lambda>_. False"] by simp
    then show thesis using apply_fail [OF failed _ d] that by blast
  qed
  have "base_values_name a \<notin> cm_name ` set pre" using base_not_planned [OF plan] p by auto
  then have plan1: "plan_apply t (\<lambda>_. False) a o1 cl1 = Inr (cms, ds)"
    using plan plan_stable [of cl1 a cl] m1 wanted_outside by simp
  have there1: "\<forall>c\<in>set cms. cl_config_maps cl1 (cm_name c) \<noteq> None" using there m1 by (simp add: wanted_dom)
  obtain cl2 where run: "apply_overlay t (\<lambda>_. False) a o1 cl1 = (cl2, None)"
    using apply_total [OF plan1 d there1] was d1 by auto
  obtain was2 where "cl_daemon_sets cl1 (daemon_set_name a) = Some was2" "cl_config_maps cl2 = wanted cms (cl_config_maps cl1)"
    "cl_daemon_sets cl2 = (cl_daemon_sets cl1)(daemon_set_name a \<mapsto> patched ds (overlay_checksum t cms ds) was2)"
    using run plan1 d by (rule apply_ok)
  moreover have "wanted cms (wanted pre (cl_config_maps cl)) = wanted cms (cl_config_maps cl)"
    using wanted_prefix k unfolding p by blast
  ultimately show ?thesis using run was d1 m1 cms3 ds3 by (auto simp: same_objects_def)
qed

theorem apply_retry_converges_witness:
  "\<exists>cl1 cl2 cl3. apply_overlay sample_tools (\<lambda>c. c = PatchDaemonSet ''o-sensor'') sample_applier empty_overlay sample_cluster =
       (cl1, Some (CallFailed (PatchDaemonSet ''o-sensor''))) \<and>
     map_option lc_data (cl_config_maps cl1 ''o-sensor-obi'') = Some [(''k'', ''new'')] \<and>
     apply_overlay sample_tools (\<lambda>_. False) sample_applier empty_overlay cl1 = (cl2, None) \<and>
     apply_overlay sample_tools (\<lambda>_. False) sample_applier empty_overlay sample_cluster = (cl3, None) \<and> same_objects cl2 cl3"
proof -
  let ?f = "\<lambda>c. c = PatchDaemonSet ''o-sensor''"
  have n: "daemon_set_name sample_applier = ''o-sensor''" by (simp add: daemon_set_name_def sample_applier_def)
  have b: "plan_apply sample_tools ?f sample_applier empty_overlay sample_cluster = Inr (sample_maps, sample_pod)"
    by (rule plan_deterministic [OF sample_planned]) simp
  obtain cl3 where run: "apply_overlay sample_tools (\<lambda>_. False) sample_applier empty_overlay sample_cluster = (cl3, None)"
    using apply_total [OF sample_planned] n by (auto simp: sample_cluster_def)
  obtain cl1 where f: "apply_overlay sample_tools ?f sample_applier empty_overlay sample_cluster =
      (cl1, Some (CallFailed (PatchDaemonSet ''o-sensor'')))" "map_option lc_data (cl_config_maps cl1 ''o-sensor-obi'') = Some [(''k'', ''new'')]"
    by (simp add: apply_overlay_def b [unfolded sample_cluster_def] apply_config_map_def patch_daemon_set_def n sample_cluster_def equal_string_maps_def Let_def)
  have "distinct (map cm_name sample_maps)" "list_all keyed sample_maps" by (simp_all add: keyed_def)
  then show ?thesis using apply_retry_converges [OF f(1) run sample_planned] f run by blast
qed

section \<open>What it may touch\<close>

text \<open>
  Going from one cluster to another, only config maps in \<open>M\<close> and DaemonSets in \<open>D\<close> differ, and those
  only in what is rendered: no object appears or disappears, the fields the applier leaves alone are
  kept, and so is every annotation but the checksum.
\<close>

definition writes_within :: "api_call set \<Rightarrow> cluster \<Rightarrow> cluster \<Rightarrow> bool" where
  "writes_within S cl cl' \<longleftrightarrow> (\<exists>ws. cl_writes cl' = cl_writes cl @ ws \<and> set ws \<subseteq> S)"

lemma writes_within_refl [simp]: "writes_within S cl cl"
  by (simp add: writes_within_def)

lemma writes_within_mono: "writes_within S cl cl' \<Longrightarrow> S \<subseteq> T \<Longrightarrow> writes_within T cl cl'"
  by (auto simp: writes_within_def)

lemma writes_within_trans: "writes_within S cl cl1 \<Longrightarrow> writes_within S cl1 cl2 \<Longrightarrow> writes_within S cl cl2"
  by (auto simp: writes_within_def)

definition confined :: "string set \<Rightarrow> string set \<Rightarrow> cluster \<Rightarrow> cluster \<Rightarrow> bool" where
  "confined M D cl cl' \<longleftrightarrow>
     (\<forall>n. n \<notin> M \<longrightarrow> cl_config_maps cl' n = cl_config_maps cl n) \<and>
     (\<forall>n. n \<notin> D \<longrightarrow> cl_daemon_sets cl' n = cl_daemon_sets cl n) \<and>
     (\<forall>n. map_option lc_meta (cl_config_maps cl' n) = map_option lc_meta (cl_config_maps cl n)) \<and>
     (\<forall>n. map_option ld_meta (cl_daemon_sets cl' n) = map_option ld_meta (cl_daemon_sets cl n)) \<and>
     (\<forall>n k. k \<noteq> overlay_checksum_annotation \<longrightarrow>
        map_option (\<lambda>d. map_of (ld_annotations d) k) (cl_daemon_sets cl' n) =
        map_option (\<lambda>d. map_of (ld_annotations d) k) (cl_daemon_sets cl n)) \<and>
     writes_within (UpdateConfigMap ` M \<union> PatchDaemonSet ` D) cl cl'"

lemma confined_refl [simp]: "confined M D cl cl"
  by (simp add: confined_def)

lemma confined_writes: "confined M D cl cl' \<Longrightarrow> writes_within (UpdateConfigMap ` M \<union> PatchDaemonSet ` D) cl cl'"
  by (simp add: confined_def)

lemma confined_mono:
  assumes "confined M D cl cl'" and "M \<subseteq> M'" and "D \<subseteq> D'"
  shows "confined M' D' cl cl'"
proof -
  have "UpdateConfigMap ` M \<union> PatchDaemonSet ` D \<subseteq> UpdateConfigMap ` M' \<union> PatchDaemonSet ` D'" using assms(2,3) by blast
  then have "writes_within (UpdateConfigMap ` M' \<union> PatchDaemonSet ` D') cl cl'"
    by (rule writes_within_mono [OF confined_writes [OF assms(1)]])
  moreover have "n \<notin> M" if "n \<notin> M'" for n using that assms(2) by blast
  moreover have "n \<notin> D" if "n \<notin> D'" for n using that assms(3) by blast
  ultimately show ?thesis using assms(1) unfolding confined_def by simp
qed

lemma confined_trans:
  assumes "confined M D cl cl1" and "confined M D cl1 cl2"
  shows "confined M D cl cl2"
proof -
  have "writes_within (UpdateConfigMap ` M \<union> PatchDaemonSet ` D) cl cl2"
    using assms by (blast intro: writes_within_trans dest: confined_writes)
  then show ?thesis using assms unfolding confined_def by simp
qed

lemma apply_config_map_confined: "apply_config_map fails c cl = (cl', r) \<Longrightarrow> confined {cm_name c} {} cl cl'"
  by (auto simp: apply_config_map_def Let_def confined_def writes_within_def split: if_splits option.splits)

lemma patch_confined: "patch_daemon_set fails a ds checksum cl = (cl', r) \<Longrightarrow> confined {} {daemon_set_name a} cl cl'"
  by (auto simp: patch_daemon_set_def Let_def confined_def writes_within_def update_conv' split: if_splits option.splits)

lemma apply_config_maps_confined:
  "apply_config_maps fails cms cl = (cl', r) \<Longrightarrow> cm_name ` set cms \<subseteq> M \<Longrightarrow> confined M {} cl cl'"
proof (induction cms arbitrary: cl)
  case (Cons c cs)
  obtain cl1 r1 where one: "apply_config_map fails c cl = (cl1, r1)" by (metis surj_pair)
  have a: "confined M {} cl cl1" using confined_mono [OF apply_config_map_confined [OF one]] Cons.prems(2) by simp
  show ?case
  proof (cases r1)
    case (Some e)
    then show ?thesis using Cons.prems one a by simp
  next
    case None
    then have "confined M {} cl1 cl'" using Cons one by simp
    then show ?thesis using a confined_trans by blast
  qed
qed simp

text \<open>C29. Whatever the overlay renders to and whichever calls fail, the applier writes to no object but the four
  config maps and the DaemonSet of its release, creates and deletes none, and leaves on every object all
  that is not rendered: its other fields, and every annotation but the checksum.\<close>

theorem apply_confined:
  assumes "apply_overlay t fails a o1 cl = (cl', r)"
  shows "confined (set (allowed_config_maps a)) {daemon_set_name a} cl cl'"
proof (cases "plan_apply t fails a o1 cl")
  case (Inr p)
  obtain cms ds where p: "p = (cms, ds)" by (cases p)
  have names: "cm_name ` set cms \<subseteq> set (allowed_config_maps a)" using plan_names(1) Inr p by blast
  obtain cl1 r1 where one: "apply_config_maps fails cms cl = (cl1, r1)" by (metis surj_pair)
  have m: "confined (set (allowed_config_maps a)) {daemon_set_name a} cl cl1"
    using confined_mono [OF apply_config_maps_confined [OF one names]] by simp
  show ?thesis
  proof (cases r1)
    case None
    then have "patch_daemon_set fails a ds (overlay_checksum t cms ds) cl1 = (cl', r)"
      using assms Inr p one by (simp add: apply_overlay_def)
    from confined_mono [OF patch_confined [OF this]] have
      "confined (set (allowed_config_maps a)) {daemon_set_name a} cl1 cl'" by simp
    then show ?thesis using m confined_trans by blast
  qed (use assms Inr p one m in \<open>simp add: apply_overlay_def\<close>)
qed (use assms in \<open>simp add: apply_overlay_def\<close>)

theorem apply_confined_witness:
  "\<exists>cl'. apply_overlay sample_tools (\<lambda>_. False) sample_applier empty_overlay sample_cluster = (cl', None) \<and>
     cl_config_maps cl' ''o-collection-base-values'' = cl_config_maps sample_cluster ''o-collection-base-values'' \<and>
     map_option ld_meta (cl_daemon_sets cl' ''o-sensor'') = Some ''m''"
proof -
  have n: "daemon_set_name sample_applier = ''o-sensor''" by (simp add: daemon_set_name_def sample_applier_def)
  have out: "''o-collection-base-values'' \<notin> set (allowed_config_maps sample_applier)" by code_simp
  obtain cl' where run: "apply_overlay sample_tools (\<lambda>_. False) sample_applier empty_overlay sample_cluster = (cl', None)"
    using apply_total [OF sample_planned] n by (auto simp: sample_cluster_def)
  show ?thesis
    by (rule exI [of _ cl']) (use apply_confined [OF run] run out in \<open>simp add: sample_cluster_def confined_def\<close>)
qed

section \<open>Through the handlers\<close>

lemma http_status_not_502: "http_status e \<noteq> 502"
  by (auto simp: http_status_def split: http_error.split)

text \<open>A PUT answers 200 when the overlay is stored and applied, 502 when it is stored and applying it
  failed, and anything else when nothing was changed.\<close>

lemma collection_put_outcome:
  assumes "handle_put_collection json encode t env now who b st = (r, st')"
  shows "case r of
      Inr resp \<Rightarrow> fst st' = save_collection_overlay (encode (co_overlay resp)) (requested_by who) now \<and>
        run_applier t env (co_overlay resp) (snd st) = (snd st', None)
    | Inl f \<Rightarrow> if collection_status f = 502
        then \<exists>o1 e. fst st' = save_collection_overlay (encode o1) (requested_by who) now \<and> run_applier t env o1 (snd st) = (snd st', Some e)
        else st' = st"
proof (cases "ce_connected env \<and> (\<exists>o1. read_overlay_body json b = Inr o1) \<and> ce_saves env")
  case True
  then obtain o1 where o1: "read_overlay_body json b = Inr o1" by blast
  obtain cl e where run: "run_applier t env o1 (snd st) = (cl, e)" by (metis surj_pair)
  show ?thesis
  proof (cases e)
    case None
    then show ?thesis using assms True o1 run by (auto simp: handle_put_collection_def save_and_apply_def Let_def)
  next
    case (Some a)
    then have "r = Inl (SavedNotApplied a)" "st' = (save_collection_overlay (encode o1) (requested_by who) now, cl)"
      using assms True o1 run by (auto simp: handle_put_collection_def save_and_apply_def Let_def)
    moreover have "run_applier t env o1 (snd st) = (cl, Some a)" using run Some by simp
    ultimately show ?thesis by (auto simp: collection_status_def)
  qed
next
  case False
  have refused: "collection_status f \<noteq> 502" if "read_overlay_body json b = Inl f" for f
    using that by (auto simp: read_overlay_body_def collection_status_def http_status_not_502 Let_def split: sum.splits if_splits)
  show ?thesis
    using assms False refused
    by (cases "read_overlay_body json b")
      (auto simp: handle_put_collection_def save_and_apply_def collection_status_def http_status_not_502 split: if_splits)
qed

lemma read_overlay_valid: "read_overlay_body json b = Inr o1 \<Longrightarrow> validate_namespaces (ov_exclude o1) = None"
  by (auto simp: read_overlay_body_def parse_collection_overlay_def Let_def empty_overlay_def validate_namespaces_def
      split: sum.splits if_splits option.splits prod.splits)

text \<open>An overlay that was put reads back: when the decoder reads what the encoder wrote for it, a GET
  after a successful PUT answers that overlay, when it was stored and by whom, and the configuration
  effective under it on the cluster the PUT left.\<close>

theorem put_then_get_collection:
  assumes put: "handle_put_collection json encode t env now who b st = (Inr resp, st')"
    and codec: "json (encode (co_overlay resp)) = Some (co_overlay resp, True)" "encode (co_overlay resp) \<noteq> []"
      "trim_space (encode (co_overlay resp)) \<noteq> ''null''"
    and "now \<noteq> zero_time" and "ce_connected env2" and "ce_loads env2"
  shows "handle_get_collection json t chart env2 st' =
    Inr \<lparr>co_overlay = co_overlay resp, co_effective = effective_or_nil t chart env2 (co_overlay resp) (snd st'),
         co_updated = Some now, co_by = requested_by who\<rparr>"
proof -
  have row: "fst st' = save_collection_overlay (encode (co_overlay resp)) (requested_by who) now"
    using collection_put_outcome [OF put] by simp
  obtain o1 where o1: "read_overlay_body json b = Inr o1" and "co_overlay resp = o1"
    using put by (auto simp: handle_put_collection_def save_and_apply_def Let_def split: if_splits sum.splits prod.splits option.splits)
  then have "parse_collection_overlay json (encode (co_overlay resp)) = Inr (co_overlay resp)"
    using codec read_overlay_valid [OF o1] by (simp add: parse_collection_overlay_def)
  then show ?thesis using row assms(5-7) by (simp add: handle_get_collection_def save_collection_overlay_def)
qed

theorem put_then_get_collection_witness:
  "\<exists>resp st'. handle_put_collection (\<lambda>_. Some (empty_overlay\<lparr>ov_obi := Some False\<rparr>, True)) (\<lambda>_. ''{}'') sample_tools
       \<lparr>ce_connected = True, ce_loads = True, ce_saves = True, ce_applier = None, ce_fails = (\<lambda>_. False)\<rparr> 7 None (Body ''{}'')
       (None, sample_cluster) = (Inr resp, st') \<and>
     handle_get_collection (\<lambda>_. Some (empty_overlay\<lparr>ov_obi := Some False\<rparr>, True)) sample_tools Map.empty
       \<lparr>ce_connected = True, ce_loads = True, ce_saves = True, ce_applier = None, ce_fails = (\<lambda>_. False)\<rparr> st' =
       Inr \<lparr>co_overlay = empty_overlay\<lparr>ov_obi := Some False\<rparr>, co_effective = None, co_updated = Some 7, co_by = ''unknown''\<rparr>"
proof -
  let ?env = "\<lparr>ce_connected = True, ce_loads = True, ce_saves = True, ce_applier = None, ce_fails = (\<lambda>_. False)\<rparr>"
  let ?o = "empty_overlay\<lparr>ov_obi := Some False\<rparr>"
  let ?r = "\<lparr>co_overlay = ?o, co_effective = None, co_updated = None, co_by = ''unknown''\<rparr>"
  have t: "trim_space ''{}'' = ''{}''" by code_simp
  have put: "handle_put_collection (\<lambda>_. Some (?o, True)) (\<lambda>_. ''{}'') sample_tools ?env 7 None (Body ''{}'') (None, sample_cluster) =
      (Inr ?r, (save_collection_overlay ''{}'' ''unknown'' 7, sample_cluster))"
    by (simp add: handle_put_collection_def read_overlay_body_def decode_def t parse_collection_overlay_def save_and_apply_def
      run_applier_def requested_by_def validate_namespaces_def empty_overlay_def)
  show ?thesis
    using put put_then_get_collection [OF put, of ?env Map.empty]
    by (simp add: t effective_or_nil_def requested_by_def)
qed

end
