(* ===== verification/Sentry.thy ===== *)
theory Sentry
  imports MeshSpec Collection
begin

text \<open>
  The Sentry receiver of the gateway (gateway/sentryreceiver): the envelope parser, the event's
  normalisation into a log record, the record's shape and the two HTTP handlers. The JSON decoder, the
  timestamp and number parsers and the pipeline behind the receiver are parameters.
\<close>

section \<open>Events\<close>

record sentry_frame =
  sf_filename :: string
  sf_abs_path :: string
  sf_function :: string
  sf_lineno :: int
  sf_colno :: int

record sentry_exception =
  sx_type :: string
  sx_value :: string
  sx_frames :: "sentry_frame list option"

text \<open>
  \<open>Timestamp\<close> and \<open>Message\<close> are kept raw, as the code keeps them; \<open>se_exceptions\<close> is the list of
  values when there is an exception interface, and \<open>se_contexts\<close> a decoded document.
\<close>

record sentry_event =
  se_event_id :: string
  se_timestamp :: string
  se_platform :: string
  se_level :: string
  se_environment :: string
  se_release :: string
  se_server_name :: string
  se_message :: string
  se_exceptions :: "sentry_exception list option"
  se_sdk :: "(string \<times> string) option"
  se_contexts :: "string \<Rightarrow> yval option"
  se_tags :: "(string \<times> string) list"
  se_url :: "string option"

section \<open>Envelopes\<close>

text \<open>\<open>ReadBytes\<close> up to the next line feed; nothing at the end of the input.\<close>

definition line_feed :: char where "line_feed = CHR 0x0A"

definition read_line :: "string \<Rightarrow> (string \<times> string) option" where
  "read_line s = (if s = [] then None
     else Some (takeWhile (\<lambda>c. c \<noteq> line_feed) s, tl (dropWhile (\<lambda>c. c \<noteq> line_feed) s)))"

text \<open>
  A payload of a stated length is made before it is read: \<open>make\<close> panics on a negative length and on
  one no allocation can have. The line feed behind it is optional.
\<close>

definition max_alloc :: int where "max_alloc = 2 ^ 48"

datatype payload = Payload string string | ShortPayload | MakePanics

definition read_item_payload :: "string \<Rightarrow> int option \<Rightarrow> payload" where
  "read_item_payload s len =
     (case len of
        Some n \<Rightarrow>
          if n < 0 \<or> max_alloc < n then MakePanics
          else if int (length s) < n then ShortPayload
          else (let rest = drop (nat n) s
                in Payload (take (nat n) s) (case rest of [] \<Rightarrow> [] | c # cs \<Rightarrow> if c = line_feed then cs else rest))
      | None \<Rightarrow> (case read_line s of None \<Rightarrow> Payload [] [] | Some (line, rest) \<Rightarrow> Payload line rest))"

datatype envelope_error = NoHeader | BadHeader | BadItemHeader | BadPayload

datatype envelope_result = Parsed "sentry_event list" | Malformed envelope_error | Panicked

text \<open>What the JSON decoder makes of a header line, an item header and an event.\<close>

record sentry_json =
  sj_header :: "string \<Rightarrow> bool"
  sj_item :: "string \<Rightarrow> (string \<times> int option) option"
  sj_event :: "string \<Rightarrow> sentry_event option"

lemma read_line_shorter: "read_line s = Some (l, r) \<Longrightarrow> length r < length s"
proof (induction s arbitrary: l r)
  case (Cons c s)
  then show ?case
    by (cases s) (auto simp: read_line_def split: if_splits)
qed (simp add: read_line_def)

lemma read_line_le: "read_line s = Some (l, r) \<Longrightarrow> length r \<le> length s"
  using read_line_shorter by fastforce

lemma drop_cons_le: "drop n s = c # r \<Longrightarrow> Suc (length r) \<le> length s"
  by (metis diff_le_self length_Cons length_drop)

lemma payload_le: "read_item_payload s len = Payload p r \<Longrightarrow> length r \<le> length s"
  by (auto simp: read_item_payload_def Let_def dest: read_line_le drop_cons_le split: option.splits if_splits list.splits)

function parse_items :: "sentry_json \<Rightarrow> sentry_event list \<Rightarrow> string \<Rightarrow> envelope_result" where
  "parse_items j events s =
     (case read_line s of
        None \<Rightarrow> Parsed events
      | Some (line, r) \<Rightarrow>
          if length (trim_space line) = 0 then parse_items j events r
          else case sj_item j line of
            None \<Rightarrow> Malformed BadItemHeader
          | Some (kind, len) \<Rightarrow>
              (case read_item_payload r len of
                 MakePanics \<Rightarrow> Panicked
               | ShortPayload \<Rightarrow> Malformed BadPayload
               | Payload p r' \<Rightarrow>
                   if kind \<noteq> ''event'' then parse_items j events r'
                   else case sj_event j p of
                     None \<Rightarrow> parse_items j events r'
                   | Some ev \<Rightarrow> parse_items j (events @ [ev]) r'))"
  by pat_completeness auto
termination
  by (relation "measure (\<lambda>(j, es, s). length s)") (auto dest!: read_line_shorter payload_le)

declare parse_items.simps [simp del]

definition parse_envelope :: "sentry_json \<Rightarrow> string \<Rightarrow> envelope_result" where
  "parse_envelope j body =
     (case read_line body of
        None \<Rightarrow> Malformed NoHeader
      | Some (line, r) \<Rightarrow> if \<not> sj_header j line then Malformed BadHeader else parse_items j [] r)"

section \<open>Normalisation\<close>

definition sentry_severity :: "string \<Rightarrow> int \<times> string" where
  "sentry_severity level =
     (let l = to_lower level in
      if l = ''fatal'' then (21, ''FATAL'')
      else if l = ''warning'' then (13, ''WARN'')
      else if l = ''info'' then (9, ''INFO'')
      else if l = ''debug'' then (5, ''DEBUG'')
      else (17, ''ERROR''))"

definition first_exception :: "sentry_event \<Rightarrow> sentry_exception option" where
  "first_exception ev = (case se_exceptions ev of None \<Rightarrow> None | Some xs \<Rightarrow> if length xs = 0 then None else Some (last xs))"

definition int_text :: "int \<Rightarrow> string" where
  "int_text n = (if n < 0 then CHR ''-'' # decimal (nat (- n)) else decimal (nat n))"

definition render_frame :: "sentry_frame \<Rightarrow> string" where
  "render_frame f =
     (let loc = (if sf_abs_path f = [] then sf_filename f else sf_abs_path f);
          fn = (if sf_function f = [] then ''?'' else sf_function f)
      in ''  at '' @ fn @ '' ('' @ loc @ '':'' @ int_text (sf_lineno f) @ '':'' @ int_text (sf_colno f) @ '')'' @ [line_feed])"

definition render_stacktrace :: "sentry_frame list option \<Rightarrow> string" where
  "render_stacktrace st =
     (case st of None \<Rightarrow> []
      | Some fs \<Rightarrow> if length fs = 0 then []
          else rev (dropWhile (\<lambda>c. c = line_feed) (rev (concat (map render_frame (rev fs))))))"

definition hex_text :: "nat \<Rightarrow> string \<Rightarrow> bool" where
  "hex_text n s \<longleftrightarrow> length s = n \<and> list_all (\<lambda>c. hex_val c \<noteq> None) s"

definition hex_field :: "yval \<Rightarrow> string \<Rightarrow> nat \<Rightarrow> string" where
  "hex_field ctx key n =
     (case value_at ctx [key] of Some (YText v) \<Rightarrow> if hex_text n v then to_lower v else [] | _ \<Rightarrow> [])"

definition trace_context :: "sentry_event \<Rightarrow> string \<times> string" where
  "trace_context ev =
     (case se_contexts ev ''trace'' of
        Some (YMap m) \<Rightarrow> (hex_field (YMap m) ''trace_id'' 32, hex_field (YMap m) ''span_id'' 16)
      | _ \<Rightarrow> ([], []))"

text \<open>
  The remaining parsers: a JSON string, an object with \<open>formatted\<close> and \<open>message\<close>, an RFC 3339
  instant and a decimal number.
\<close>

record sentry_text =
  st_string :: "string \<Rightarrow> string option"
  st_object :: "string \<Rightarrow> (string \<times> string) option"
  st_instant :: "string \<Rightarrow> instant option"
  st_number :: "string \<Rightarrow> float64 option"

definition message_text :: "sentry_text \<Rightarrow> sentry_event \<Rightarrow> string" where
  "message_text p ev =
     (let raw = trim_space (se_message ev) in
      if raw = [] \<or> raw = ''null'' then []
      else if has_prefix [CHR 0x22] raw then (case st_string p (se_message ev) of None \<Rightarrow> [] | Some s \<Rightarrow> s)
      else case st_object p (se_message ev) of
        None \<Rightarrow> []
      | Some (formatted, msg) \<Rightarrow> if formatted \<noteq> [] then formatted else msg)"

definition truncate :: "rat \<Rightarrow> int" where
  "truncate q = (if q < 0 then \<lceil>q\<rceil> else \<lfloor>q\<rfloor>)"

text \<open>\<open>int64(f)\<close> of a value out of range is the least integer on amd64.\<close>

definition int64_of_float :: "float64 \<Rightarrow> int" where
  "int64_of_float f = (let n = truncate f in if - (2 ^ 63) \<le> n \<and> n < 2 ^ 63 then n else - (2 ^ 63))"

definition unix_epoch :: instant where "unix_epoch = 62135596800 * second"

definition event_time :: "sentry_text \<Rightarrow> instant \<Rightarrow> sentry_event \<Rightarrow> instant" where
  "event_time p now ev =
     (let raw = trim_space (se_timestamp ev) in
      if raw = [] \<or> raw = ''null'' then now
      else if has_prefix [CHR 0x22] raw then
        (case st_string p (se_timestamp ev) of
           None \<Rightarrow> now
         | Some s \<Rightarrow> (case st_instant p s of None \<Rightarrow> now | Some t \<Rightarrow> t))
      else case st_number p raw of
        None \<Rightarrow> now
      | Some f \<Rightarrow>
          (let sec = int64_of_float f;
               nsec = int64_of_float (fmul (fl (f - fl (of_int sec))) 1000000000)
           in unix_epoch + sec * second + nsec))"

record normalized_error =
  ne_timestamp :: instant
  ne_severity :: "int \<times> string"
  ne_body :: string
  ne_service :: string
  ne_environment :: string
  ne_trace_id :: string
  ne_span_id :: string
  ne_attributes :: "string \<Rightarrow> string option"

definition put_attr :: "string \<Rightarrow> string \<Rightarrow> (string \<Rightarrow> string option) \<Rightarrow> string \<Rightarrow> string option" where
  "put_attr k v m = (if v = [] then m else m(k \<mapsto> v))"

definition put_tag :: "string \<times> string \<Rightarrow> (string \<Rightarrow> string option) \<Rightarrow> string \<Rightarrow> string option" where
  "put_tag kv m = m(''sentry.tag.'' @ fst kv \<mapsto> snd kv)"

definition base_attributes :: "sentry_event \<Rightarrow> string \<Rightarrow> string option" where
  "base_attributes ev =
     fold put_tag (se_tags ev)
      (put_attr ''url.full'' (case se_url ev of None \<Rightarrow> [] | Some u \<Rightarrow> u)
       (put_attr ''sentry.sdk.version'' (case se_sdk ev of None \<Rightarrow> [] | Some (_, v) \<Rightarrow> v)
        (put_attr ''sentry.sdk.name'' (case se_sdk ev of None \<Rightarrow> [] | Some (n, _) \<Rightarrow> n)
         (put_attr ''sentry.release'' (se_release ev)
          (put_attr ''sentry.platform'' (se_platform ev)
           (put_attr ''sentry.event_id'' (se_event_id ev)
            [''avuru.error.source'' \<mapsto> ''sentry'']))))))"

definition normalize_event :: "sentry_text \<Rightarrow> sentry_event \<Rightarrow> string \<Rightarrow> instant \<Rightarrow> normalized_error" where
  "normalize_event p ev service now =
     (let (attrs, body) =
        (case first_exception ev of
           None \<Rightarrow> (base_attributes ev, message_text p ev)
         | Some x \<Rightarrow>
             (put_attr ''exception.stacktrace'' (render_stacktrace (sx_frames x))
               ((base_attributes ev)(''exception.type'' \<mapsto> sx_type x, ''exception.message'' \<mapsto> sx_value x)),
              if message_text p ev = [] then trim_space (sx_type x @ '': '' @ sx_value x) else message_text p ev));
          (trace, span) = trace_context ev
      in \<lparr>ne_timestamp = event_time p now ev, ne_severity = sentry_severity (se_level ev),
          ne_body = (if body = [] then ''sentry event '' @ se_event_id ev else body),
          ne_service = service, ne_environment = se_environment ev,
          ne_trace_id = trace, ne_span_id = span, ne_attributes = attrs\<rparr>)"

section \<open>Records\<close>

fun hex_decode :: "string \<Rightarrow> string option" where
  "hex_decode [] = Some []"
| "hex_decode [_] = None"
| "hex_decode (a # b # s) =
     (case (hex_val a, hex_val b, hex_decode s) of
        (Some x, Some y, Some r) \<Rightarrow> Some (char_of (x * 16 + y) # r)
      | _ \<Rightarrow> None)"

definition id_bytes :: "nat \<Rightarrow> string \<Rightarrow> string option" where
  "id_bytes n s = (case hex_decode s of Some b \<Rightarrow> if length b = n then Some b else None | None \<Rightarrow> None)"

text \<open>One record with its resource and scope; an id that is not set is \<open>None\<close>.\<close>

record log_record =
  lr_resource :: "string \<Rightarrow> string option"
  lr_scope :: string
  lr_timestamp :: instant
  lr_observed :: instant
  lr_severity :: "int \<times> string"
  lr_body :: string
  lr_trace_id :: "string option"
  lr_span_id :: "string option"
  lr_attributes :: "string \<Rightarrow> string option"

definition to_logs :: "normalized_error \<Rightarrow> log_record" where
  "to_logs n =
     \<lparr>lr_resource = put_attr ''deployment.environment.name'' (ne_environment n) [''service.name'' \<mapsto> ne_service n],
      lr_scope = ''sentryreceiver'', lr_timestamp = ne_timestamp n, lr_observed = ne_timestamp n,
      lr_severity = ne_severity n, lr_body = ne_body n, lr_trace_id = id_bytes 16 (ne_trace_id n),
      lr_span_id = id_bytes 8 (ne_span_id n), lr_attributes = ne_attributes n\<rparr>"

section \<open>The receiver\<close>

definition sentry_service_name :: "(string \<Rightarrow> string option) \<Rightarrow> string \<Rightarrow> sentry_event \<Rightarrow> string" where
  "sentry_service_name projects project ev =
     (case projects project of
        Some name \<Rightarrow> if name \<noteq> [] then name else if se_server_name ev \<noteq> [] then se_server_name ev else ''sentry-project-'' @ project
      | None \<Rightarrow> if se_server_name ev \<noteq> [] then se_server_name ev else ''sentry-project-'' @ project)"

text \<open>What is handed to the pipeline, in order; an error of the pipeline is logged and dropped.\<close>

definition consume_events :: "sentry_text \<Rightarrow> (string \<Rightarrow> string option) \<Rightarrow> string \<Rightarrow> instant \<Rightarrow> sentry_event list \<Rightarrow> log_record list" where
  "consume_events p projects project now events =
     map (\<lambda>ev. to_logs (normalize_event p ev (sentry_service_name projects project ev) now)) events"

definition max_body_bytes :: nat where "max_body_bytes = 5 * 1024 * 1024"

datatype sentry_answer =
    Accepted string
  | SentryRejected string
  | ConnectionLost

text \<open>A body that cannot be read is \<open>None\<close>; a longer one is cut. A panic ends the request without an
  answer.\<close>

definition handle_envelope :: "sentry_json \<Rightarrow> sentry_text \<Rightarrow> (string \<Rightarrow> string option) \<Rightarrow> string \<Rightarrow> instant \<Rightarrow> string option \<Rightarrow>
    sentry_answer \<times> log_record list" where
  "handle_envelope j p projects project now body =
     (case body of
        None \<Rightarrow> (SentryRejected ''cannot read body'', [])
      | Some b \<Rightarrow>
          (case parse_envelope j (take max_body_bytes b) of
             Malformed _ \<Rightarrow> (SentryRejected ''invalid envelope'', [])
           | Panicked \<Rightarrow> (ConnectionLost, [])
           | Parsed events \<Rightarrow> (Accepted [], consume_events p projects project now events)))"

definition handle_store :: "sentry_json \<Rightarrow> sentry_text \<Rightarrow> (string \<Rightarrow> string option) \<Rightarrow> string \<Rightarrow> instant \<Rightarrow> string option \<Rightarrow>
    sentry_answer \<times> log_record list" where
  "handle_store j p projects project now body =
     (case body of
        None \<Rightarrow> (SentryRejected ''cannot read body'', [])
      | Some b \<Rightarrow>
          (case sj_event j (take max_body_bytes b) of
             None \<Rightarrow> (SentryRejected ''invalid event'', [])
           | Some ev \<Rightarrow> (Accepted (se_event_id ev), consume_events p projects project now [ev])))"

end
