(* ===== verification/SentryLaws.thy ===== *)
theory SentryLaws
  imports Sentry
begin

text \<open>
  What the Sentry receiver promises: the events of a well-framed envelope come out of the parser, in
  order and unchanged; every record handed to the pipeline is well formed; a trace id the event carries
  is the record's.
\<close>

section \<open>Framing\<close>

lemma read_line_append: "line_feed \<notin> set l \<Longrightarrow> read_line (l @ line_feed # r) = Some (l, r)"
  by (auto simp: read_line_def takeWhile_append dropWhile_append)

text \<open>An item as a client writes it: the header line, and a payload that ends in a line feed.\<close>

record envelope_item =
  ei_header :: string
  ei_kind :: string
  ei_length :: "int option"
  ei_payload :: string

definition render_item :: "envelope_item \<Rightarrow> string" where
  "render_item i = ei_header i @ line_feed # ei_payload i @ [line_feed]"

text \<open>The header says what the item is, and its length when the payload could hold a line feed.\<close>

definition framed :: "sentry_json \<Rightarrow> envelope_item \<Rightarrow> bool" where
  "framed j i \<longleftrightarrow> line_feed \<notin> set (ei_header i) \<and> trim_space (ei_header i) \<noteq> [] \<and>
     sj_item j (ei_header i) = Some (ei_kind i, ei_length i) \<and>
     (case ei_length i of None \<Rightarrow> line_feed \<notin> set (ei_payload i)
      | Some n \<Rightarrow> n = int (length (ei_payload i)) \<and> n \<le> max_alloc)"

definition item_events :: "sentry_json \<Rightarrow> envelope_item \<Rightarrow> sentry_event list" where
  "item_events j i = (if ei_kind i = ''event'' then (case sj_event j (ei_payload i) of None \<Rightarrow> [] | Some ev \<Rightarrow> [ev]) else [])"

lemma read_payload_framed:
  assumes "framed j i"
  shows "read_item_payload (ei_payload i @ line_feed # r) (ei_length i) = Payload (ei_payload i) r"
  using assms by (auto simp: framed_def read_item_payload_def read_line_append split: option.splits)

lemma parse_item:
  assumes "framed j i"
  shows "parse_items j es (render_item i @ r) = parse_items j (es @ item_events j i) r"
proof -
  have "read_line (render_item i @ r) = Some (ei_header i, ei_payload i @ line_feed # r)"
    using assms read_line_append [of "ei_header i" "ei_payload i @ line_feed # r"] by (simp add: render_item_def framed_def)
  then show ?thesis
    using assms read_payload_framed [OF assms, of r]
    by (subst parse_items.simps) (auto simp: framed_def item_events_def split: option.split)
qed

lemma parse_rendered:
  "list_all (framed j) is \<Longrightarrow> parse_items j es (concat (map render_item is)) = Parsed (es @ concat (map (item_events j) is))"
proof (induction "is" arbitrary: es)
  case Nil
  then show ?case by (subst parse_items.simps) (simp add: read_line_def)
qed (simp add: parse_item)

text \<open>C27. An envelope of well-framed items parses back to its events: every item of kind event that decodes,
  in order, each from exactly its payload, line feeds in it included; the others are skipped.\<close>

theorem envelope_round_trip:
  assumes "line_feed \<notin> set header" and "sj_header j header" and "list_all (framed j) items"
  shows "parse_envelope j (header @ line_feed # concat (map render_item items)) = Parsed (concat (map (item_events j) items))"
  using assms parse_rendered [of j items "[]"] by (simp add: parse_envelope_def read_line_append)

definition blank_event :: sentry_event where
  "blank_event = \<lparr>se_event_id = [], se_timestamp = [], se_platform = [], se_level = [], se_environment = [], se_release = [],
     se_server_name = [], se_message = [], se_exceptions = None, se_sdk = None, se_contexts = Map.empty, se_tags = [], se_url = None\<rparr>"

definition sample_json :: sentry_json where
  "sample_json = \<lparr>sj_header = (\<lambda>s. s = ''{}''),
     sj_item = (\<lambda>s. map_of [(''E2'', (''event'', Some 2)), (''E'', (''event'', None)), (''S'', (''session'', None))] s),
     sj_event = (\<lambda>s. if s = ''bad'' then None else Some (blank_event\<lparr>se_event_id := s\<rparr>))\<rparr>"

theorem envelope_round_trip_witness:
  "parse_envelope sample_json (''{}'' @ line_feed # concat (map render_item
      [\<lparr>ei_header = ''E2'', ei_kind = ''event'', ei_length = Some 2, ei_payload = [CHR ''a'', line_feed]\<rparr>,
       \<lparr>ei_header = ''S'', ei_kind = ''session'', ei_length = None, ei_payload = ''x''\<rparr>,
       \<lparr>ei_header = ''E'', ei_kind = ''event'', ei_length = None, ei_payload = ''bad''\<rparr>,
       \<lparr>ei_header = ''E'', ei_kind = ''event'', ei_length = None, ei_payload = ''b''\<rparr>])) =
   Parsed [blank_event\<lparr>se_event_id := [CHR ''a'', line_feed]\<rparr>, blank_event\<lparr>se_event_id := ''b''\<rparr>]"
proof -
  let ?is = "[\<lparr>ei_header = ''E2'', ei_kind = ''event'', ei_length = Some 2, ei_payload = [CHR ''a'', line_feed]\<rparr>,
       \<lparr>ei_header = ''S'', ei_kind = ''session'', ei_length = None, ei_payload = ''x''\<rparr>,
       \<lparr>ei_header = ''E'', ei_kind = ''event'', ei_length = None, ei_payload = ''bad''\<rparr>,
       \<lparr>ei_header = ''E'', ei_kind = ''event'', ei_length = None, ei_payload = ''b''\<rparr>]"
  have t: "trim_space ''E2'' = ''E2''" "trim_space ''E'' = ''E''" "trim_space ''S'' = ''S''" by code_simp+
  have "list_all (framed sample_json) ?is"
    by (simp add: framed_def t sample_json_def max_alloc_def line_feed_def)
  from envelope_round_trip [OF _ _ this, of "''{}''"] show ?thesis
    by (simp add: item_events_def sample_json_def line_feed_def)
qed

text \<open>
  A length below zero makes the handler panic: the client gets no answer, and the events in front of the
  item are lost with it.
\<close>

lemma negative_length_panics:
  assumes "line_feed \<notin> set header" "sj_header j header" "list_all (framed j) items"
    and "line_feed \<notin> set h" "trim_space h \<noteq> []" "sj_item j h = Some (kind, Some n)" "n < 0"
  shows "parse_envelope j (header @ line_feed # concat (map render_item items) @ h @ [line_feed]) = Panicked"
proof -
  have "parse_items j es (concat (map render_item items) @ h @ [line_feed]) = Panicked" for es
    using assms(3)
  proof (induction items arbitrary: es)
    case Nil
    then show ?case using assms(4-7) read_line_append [of h "[]"]
      by (subst parse_items.simps) (simp add: read_item_payload_def)
  qed (simp add: parse_item)
  then show ?thesis using assms(1,2) by (simp add: parse_envelope_def read_line_append)
qed

section \<open>Records\<close>

lemma put_attr_other: "k \<noteq> k' \<Longrightarrow> put_attr k v m k' = m k'"
  by (simp add: put_attr_def)

lemma tags_keep: "\<not> has_prefix ''sentry.tag.'' k \<Longrightarrow> fold put_tag ts m k = m k"
proof (induction ts arbitrary: m)
  case (Cons t ts)
  have "k \<noteq> ''sentry.tag.'' @ fst t" using Cons.prems by (auto simp del: append.simps)
  then show ?case using Cons by (simp add: put_tag_def del: append.simps)
qed simp

lemma not_a_tag: "\<not> has_prefix ''sentry.tag.'' ''avuru.error.source''" "\<not> has_prefix ''sentry.tag.'' ''exception.type''"
  "\<not> has_prefix ''sentry.tag.'' ''exception.message''"
  by code_simp+

lemma base_source: "base_attributes ev ''avuru.error.source'' = Some ''sentry''"
  by (simp add: base_attributes_def tags_keep not_a_tag put_attr_other)

definition well_formed_record :: "log_record \<Rightarrow> bool" where
  "well_formed_record r \<longleftrightarrow>
     lr_body r \<noteq> [] \<and>
     (case lr_resource r ''service.name'' of None \<Rightarrow> False | Some s \<Rightarrow> s \<noteq> []) \<and>
     lr_severity r \<in> {(5, ''DEBUG''), (9, ''INFO''), (13, ''WARN''), (17, ''ERROR''), (21, ''FATAL'')} \<and>
     (case lr_trace_id r of None \<Rightarrow> True | Some t \<Rightarrow> length t = 16) \<and>
     (case lr_span_id r of None \<Rightarrow> True | Some s \<Rightarrow> length s = 8) \<and>
     lr_attributes r ''avuru.error.source'' = Some ''sentry'' \<and>
     (lr_attributes r ''exception.type'' = None \<longleftrightarrow> lr_attributes r ''exception.message'' = None)"

lemma id_bytes_length: "id_bytes n s = Some b \<Longrightarrow> length b = n"
  by (auto simp: id_bytes_def split: option.splits if_splits)

lemma base_exception: "k \<in> {''exception.type'', ''exception.message''} \<Longrightarrow> base_attributes ev k = None"
  by (auto simp: base_attributes_def tags_keep not_a_tag put_attr_other)

lemma normalized_body: "ne_body (normalize_event p ev service now) \<noteq> []"
  by (simp add: normalize_event_def Let_def split: prod.split)

lemma normalized_attributes:
  "ne_attributes (normalize_event p ev service now) ''avuru.error.source'' = Some ''sentry''"
  "ne_attributes (normalize_event p ev service now) ''exception.type'' = map_option sx_type (first_exception ev)"
  "ne_attributes (normalize_event p ev service now) ''exception.message'' = map_option sx_value (first_exception ev)"
  by (cases "first_exception ev"; cases "trace_context ev";
      simp add: normalize_event_def base_source base_exception put_attr_other)+

lemma service_name_nonempty: "sentry_service_name projects project ev \<noteq> []"
  by (simp add: sentry_service_name_def split: option.split)

lemma record_well_formed: "well_formed_record (to_logs (normalize_event p ev (sentry_service_name projects project ev) now))"
proof -
  let ?n = "normalize_event p ev (sentry_service_name projects project ev) now"
  have s: "ne_service ?n = sentry_service_name projects project ev" "ne_severity ?n = sentry_severity (se_level ev)"
    by (simp_all add: normalize_event_def Let_def split: prod.split)
  have "sentry_severity l \<in> {(5, ''DEBUG''), (9, ''INFO''), (13, ''WARN''), (17, ''ERROR''), (21, ''FATAL'')}" for l
    by (simp add: sentry_severity_def Let_def)
  then show ?thesis
    by (simp add: well_formed_record_def to_logs_def s normalized_body normalized_attributes put_attr_other service_name_nonempty
      split: option.split) (auto dest: id_bytes_length)
qed

text \<open>Whatever a client posts to the envelope endpoint, each record handed to the pipeline is well formed: a
  body, a service name, one of the five severities, ids of 16 and 8 bytes or none, the mark of its
  source, and an exception's type together with its message. An answer other than accepted hands on
  nothing.\<close>

theorem sentry_records_well_formed:
  "list_all well_formed_record (snd (handle_envelope j p projects project now body)) \<and>
   list_all well_formed_record (snd (handle_store j p projects project now body)) \<and>
   (snd (handle_envelope j p projects project now body) = [] \<or> fst (handle_envelope j p projects project now body) = Accepted [])"
  by (auto simp: handle_envelope_def handle_store_def consume_events_def list_all_iff record_well_formed
    split: option.splits envelope_result.splits)

section \<open>Trace ids\<close>

lemma hex_val_lower: "hex_val (lower_char c) = hex_val c"
  by (auto simp: hex_val_def lower_char_def Let_def)

lemma hex_decode_lower: "hex_decode (to_lower s) = hex_decode s"
  by (induction s rule: hex_decode.induct) (simp_all add: to_lower_def hex_val_lower)

lemma hex_decode_total: "list_all (\<lambda>c. hex_val c \<noteq> None) s \<Longrightarrow> even (length s) \<Longrightarrow> \<exists>b. hex_decode s = Some b \<and> length s = 2 * length b"
  by (induction s rule: hex_decode.induct) auto

lemma id_bytes_hex: "hex_text (2 * n) v \<Longrightarrow> id_bytes n (to_lower v) = hex_decode v \<and> hex_decode v \<noteq> None"
  using hex_decode_total [of v] by (auto simp: hex_text_def id_bytes_def hex_decode_lower)

text \<open>An event whose trace context carries a trace id of 32 hexadecimal digits, in either case, is a record of
  that very trace; any other text there, and any other type of value, gives a record without one.\<close>

theorem sentry_trace_linked:
  assumes "se_contexts ev ''trace'' = Some (YMap m)"
  shows "lr_trace_id (to_logs (normalize_event p ev service now)) =
      (case m ''trace_id'' of Some (YText v) \<Rightarrow> if hex_text 32 v then hex_decode v else None | _ \<Rightarrow> None) \<and>
    lr_span_id (to_logs (normalize_event p ev service now)) =
      (case m ''span_id'' of Some (YText v) \<Rightarrow> if hex_text 16 v then hex_decode v else None | _ \<Rightarrow> None)"
proof -
  have e: "id_bytes n [] = None" if "0 < n" for n using that by (simp add: id_bytes_def)
  have f: "id_bytes n (hex_field (YMap m) k l) =
      (case m k of Some (YText v) \<Rightarrow> if hex_text l v then hex_decode v else None | _ \<Rightarrow> None)" if "0 < n" "l = 2 * n" for n k l
    using that id_bytes_hex by (auto simp: hex_field_def e split: option.split yval.split)
  show ?thesis
    using assms f [of 16 32 "''trace_id''"] f [of 8 16 "''span_id''"]
    by (simp add: to_logs_def normalize_event_def Let_def trace_context_def split: prod.split)
qed

theorem sentry_trace_linked_witness:
  "lr_trace_id (to_logs (normalize_event p (blank_event\<lparr>se_contexts := [''trace'' \<mapsto> YMap [''trace_id'' \<mapsto> YText (replicate 32 CHR ''A'')]]\<rparr>) service now))
     = Some (replicate 16 (CHR 0xAA))"
proof -
  let ?m = "[''trace_id'' \<mapsto> YText (replicate 32 CHR ''A'')]"
  let ?e = "blank_event\<lparr>se_contexts := [''trace'' \<mapsto> YMap ?m]\<rparr>"
  have "hex_text 32 (replicate 32 CHR ''A'')" "hex_decode (replicate 32 CHR ''A'') = Some (replicate 16 (CHR 0xAA))" by code_simp+
  then show ?thesis using sentry_trace_linked [of ?e ?m p service now] by simp
qed

end
