(* ===== verification/EditDistance.thy ===== *)
theory EditDistance
  imports Prelude
begin

text \<open>
  The two-row edit distance that ranks suggestions for a misspelt service
  (hub/internal/mcp/args.go, \<open>levenshtein\<close>), and its specification: the least number of
  insertions, deletions and replacements of one element that turn one list into the other.
\<close>

section \<open>The algorithm\<close>

text \<open>
  One row: \<open>prev\<close> is the previous row from the column before the current one, \<open>left\<close> the value
  just computed.
\<close>

fun lev_row :: "'a \<Rightarrow> 'a list \<Rightarrow> nat list \<Rightarrow> nat \<Rightarrow> nat list" where
  "lev_row x (y # ys) (d # u # prev) left =
     (let v = min (u + 1) (min (left + 1) (d + (if x = y then 0 else 1)))
      in v # lev_row x ys (u # prev) v)"
| "lev_row x _ _ left = []"

fun lev_rows :: "nat \<Rightarrow> 'a list \<Rightarrow> 'a list \<Rightarrow> nat list \<Rightarrow> nat list" where
  "lev_rows i [] b prev = prev"
| "lev_rows i (x # a) b prev = lev_rows (i + 1) a b (i # lev_row x b prev i)"

definition levenshtein :: "'a list \<Rightarrow> 'a list \<Rightarrow> nat" where
  "levenshtein a b = (if a = b then 0 else lev_rows 1 a b [0..<length b + 1] ! length b)"

section \<open>Edits\<close>

inductive one_edit :: "'a list \<Rightarrow> 'a list \<Rightarrow> bool" where
  insert_one: "one_edit (u @ w) (u @ c # w)"
| delete_one: "one_edit (u @ c # w) (u @ w)"
| replace_one: "one_edit (u @ c # w) (u @ d # w)"

inductive edits :: "nat \<Rightarrow> 'a list \<Rightarrow> 'a list \<Rightarrow> bool" where
  no_edit: "edits 0 a a"
| more_edits: "one_edit a b \<Longrightarrow> edits n b c \<Longrightarrow> edits (Suc n) a c"

inductive_cases edits_SucE: "edits (Suc n) a c"
inductive_cases edits_0E: "edits 0 a c"

lemma one_edit_Cons: "one_edit a b \<Longrightarrow> one_edit (x # a) (x # b)"
  by (induction rule: one_edit.induct) (metis append_Cons one_edit.intros)+

lemma edits_Cons: "edits n a b \<Longrightarrow> edits n (x # a) (x # b)"
  by (induction rule: edits.induct) (auto intro: edits.intros one_edit_Cons)

lemma one_edit_rev: "one_edit a b \<Longrightarrow> one_edit (rev a) (rev b)"
proof (induction rule: one_edit.induct)
  case (insert_one u w c)
  show ?case using one_edit.insert_one [of "rev w" "rev u" c] by simp
next
  case (delete_one u c w)
  show ?case using one_edit.delete_one [of "rev w" c "rev u"] by simp
next
  case (replace_one u c w d)
  show ?case using one_edit.replace_one [of "rev w" c "rev u" d] by simp
qed

lemma edits_rev: "edits n a b \<Longrightarrow> edits n (rev a) (rev b)"
  by (induction rule: edits.induct) (auto intro: edits.intros one_edit_rev)

section \<open>The recursion\<close>

fun edit_distance :: "'a list \<Rightarrow> 'a list \<Rightarrow> nat" where
  "edit_distance [] ys = length ys"
| "edit_distance xs [] = length xs"
| "edit_distance (x # xs) (y # ys) =
     min (edit_distance xs (y # ys) + 1)
       (min (edit_distance (x # xs) ys + 1) (edit_distance xs ys + (if x = y then 0 else 1)))"

lemma edit_distance_Nil2 [simp]: "edit_distance xs [] = length xs"
  by (cases xs) auto

lemma edit_distance_refl [simp]: "edit_distance xs xs = 0"
  by (induction xs) auto

lemma edit_distance_Cons2: "edit_distance xs (y # ys) \<le> edit_distance xs ys + 1"
  by (cases xs) auto

lemma edit_distance_Cons1: "edit_distance (x # xs) ys \<le> edit_distance xs ys + 1"
  by (cases ys) auto

lemma distance_insert: "edit_distance w zs \<le> edit_distance (c # w) zs + 1"
proof (induction zs)
  case (Cons z zs)
  have "edit_distance w (z # zs) \<le> edit_distance w zs + 1" by (rule edit_distance_Cons2)
  with Cons show ?case by (auto simp: min_def)
qed simp

lemma distance_replace: "edit_distance (c # w) zs \<le> edit_distance (d # w) zs + 1"
  by (induction zs) (auto simp: min_def)

lemma distance_under:
  assumes "\<And>zs. edit_distance a zs \<le> edit_distance b zs + 1"
  shows "edit_distance (x # a) zs \<le> edit_distance (x # b) zs + 1"
proof (induction zs)
  case Nil
  then show ?case using assms [of "[]"] by simp
next
  case (Cons z zs)
  show ?case using Cons assms [of "z # zs"] assms [of zs] by (auto simp: min_def)
qed

lemma distance_prefix:
  assumes "\<And>zs. edit_distance a zs \<le> edit_distance b zs + 1"
  shows "edit_distance (u @ a) zs \<le> edit_distance (u @ b) zs + 1"
proof (induction u arbitrary: zs)
  case (Cons x u)
  then show ?case using distance_under [of "u @ a" "u @ b" x zs] by simp
qed (use assms in simp)

lemma distance_one_edit: "one_edit a b \<Longrightarrow> edit_distance a zs \<le> edit_distance b zs + 1"
proof (induction arbitrary: zs rule: one_edit.induct)
  case (insert_one u w c)
  show ?case by (rule distance_prefix) (rule distance_insert)
next
  case (delete_one u c w)
  show ?case by (rule distance_prefix) (rule edit_distance_Cons1)
next
  case (replace_one u c w d)
  show ?case by (rule distance_prefix) (rule distance_replace)
qed

lemma distance_least: "edits n a b \<Longrightarrow> edit_distance a b \<le> n"
proof (induction rule: edits.induct)
  case (more_edits a b n c)
  then show ?case using distance_one_edit [of a b c] by linarith
qed simp

lemma edits_insert: "edits n a b \<Longrightarrow> edits (Suc n) a (y # b)"
proof (induction rule: edits.induct)
  case (no_edit a)
  have "one_edit a (y # a)" using insert_one [of "[]" a y] by simp
  then show ?case by (blast intro: edits.intros)
qed (blast intro: edits.intros)

lemma edits_delete: "edits n a b \<Longrightarrow> edits (Suc n) (x # a) b"
  using delete_one [of "[]" x a] by (auto intro: edits.intros)

lemma edits_replace: "edits n a b \<Longrightarrow> edits (Suc n) (x # a) (y # b)"
proof -
  assume "edits n a b"
  then have "edits n (y # a) (y # b)" by (rule edits_Cons)
  moreover have "one_edit (x # a) (y # a)" using replace_one [of "[]" x a y] by simp
  ultimately show ?thesis by (blast intro: edits.intros)
qed

lemma distance_reached: "edits (edit_distance a b) a b"
proof (induction a b rule: edit_distance.induct)
  case (1 ys)
  show ?case by (induction ys) (auto intro: edits.intros edits_insert)
next
  case (2 x xs)
  have "edits (length zs) zs []" for zs :: "'a list"
    by (induction zs) (auto intro: edits.intros edits_delete)
  then show ?case by (metis edit_distance_Nil2)
next
  case (3 x xs y ys)
  have d: "edits (edit_distance xs (y # ys) + 1) (x # xs) (y # ys)" using edits_delete [OF 3(1)] by simp
  have i: "edits (edit_distance (x # xs) ys + 1) (x # xs) (y # ys)" using edits_insert [OF 3(2)] by simp
  have r: "edits (edit_distance xs ys + (if x = y then 0 else 1)) (x # xs) (y # ys)"
    using edits_Cons [OF 3(3)] edits_replace [OF 3(3)] by simp
  show ?case using d i r by (simp only: edit_distance.simps min_def split: if_splits) auto
qed

lemma edit_distance_rev: "edit_distance (rev a) (rev b) = edit_distance a b"
proof (rule antisym)
  show "edit_distance (rev a) (rev b) \<le> edit_distance a b"
    by (rule distance_least) (rule edits_rev [OF distance_reached])
  show "edit_distance a b \<le> edit_distance (rev a) (rev b)"
    using distance_least [OF edits_rev [OF distance_reached [of "rev a" "rev b"]]] by simp
qed

section \<open>The rows\<close>

text \<open>The row of a prefix holds its distance from each prefix of \<open>b\<close>.\<close>

definition distance_row :: "'a list \<Rightarrow> 'a list \<Rightarrow> 'a list \<Rightarrow> nat list" where
  "distance_row p q ys = map (\<lambda>k. edit_distance p (rev (take k ys) @ q)) [0..<length ys + 1]"

lemma distance_row_Nil: "distance_row p q [] = [edit_distance p q]"
  by (simp add: distance_row_def)

lemma distance_row_Cons: "distance_row p q (y # ys) = edit_distance p q # distance_row p (y # q) ys"
proof -
  have "[0..<length (y # ys) + 1] = 0 # map Suc [0..<length ys + 1]" by (simp add: map_Suc_upt upt_conv_Cons del: upt_Suc)
  then show ?thesis by (simp add: distance_row_def del: upt_Suc)
qed

lemma lev_row_distance:
  "lev_row x ys (distance_row p q ys) (edit_distance (x # p) q) = tl (distance_row (x # p) q ys)"
proof (induction ys arbitrary: q)
  case Nil
  then show ?case by (simp add: distance_row_Nil)
next
  case (Cons y ys)
  have v: "min (edit_distance p (y # q) + 1) (min (edit_distance (x # p) q + 1) (edit_distance p q + (if x = y then 0 else 1)))
      = edit_distance (x # p) (y # q)"
    by simp
  obtain rest where rest: "distance_row p (y # q) ys = edit_distance p (y # q) # rest"
    by (cases ys) (simp_all add: distance_row_Nil distance_row_Cons)
  have "lev_row x (y # ys) (distance_row p q (y # ys)) (edit_distance (x # p) q) =
      edit_distance (x # p) (y # q) # lev_row x ys (distance_row p (y # q) ys) (edit_distance (x # p) (y # q))"
    using v by (simp add: distance_row_Cons rest Let_def del: edit_distance.simps)
  also have "\<dots> = edit_distance (x # p) (y # q) # tl (distance_row (x # p) (y # q) ys)" by (simp only: Cons)
  also have "\<dots> = distance_row (x # p) (y # q) ys"
    by (cases ys) (simp_all add: distance_row_Nil distance_row_Cons del: edit_distance.simps)
  finally show ?case by (simp add: distance_row_Cons)
qed

lemma lev_rows_distance:
  "lev_rows (length p + 1) a b (distance_row p [] b) = distance_row (rev a @ p) [] b"
proof (induction a arbitrary: p)
  case (Cons x a)
  have "(length p + 1) # lev_row x b (distance_row p [] b) (length p + 1) = distance_row (x # p) [] b"
    using lev_row_distance [of x b p "[]"] by (cases b) (simp_all add: distance_row_Nil distance_row_Cons)
  then show ?case using Cons [of "x # p"] by simp
qed simp

lemma levenshtein_distance: "levenshtein a b = edit_distance a b"
proof (cases "a = b")
  case False
  have "[0..<length b + 1] = distance_row [] [] b"
    by (rule nth_equalityI) (simp_all add: distance_row_def del: upt_Suc)
  then have "levenshtein a b = distance_row (rev a) [] b ! length b"
    using False lev_rows_distance [of "[]" a b] by (simp add: levenshtein_def)
  also have "\<dots> = edit_distance (rev a) (rev b)" by (simp add: distance_row_def nth_append)
  finally show ?thesis by (simp add: edit_distance_rev)
qed (simp add: levenshtein_def)

text \<open>C17. The distance suggestions are ranked by is the least number of edits: that many insertions, deletions and
  replacements of one element turn the one name into the other, and no fewer do.\<close>

theorem levenshtein_least: "edits (levenshtein a b) a b \<and> \<not> (\<exists>n. n < levenshtein a b \<and> edits n a b)"
proof -
  have "edits (levenshtein a b) a b" by (simp add: levenshtein_distance distance_reached)
  moreover have "levenshtein a b \<le> n" if "edits n a b" for n
    using distance_least [OF that] by (simp add: levenshtein_distance)
  ultimately show ?thesis by (meson linorder_not_less)
qed

end
