(* ===== verification/McpArgs.thy ===== *)
theory McpArgs
  imports EditDistance MeshSpec GoStd InstallModules
begin

text \<open>
  What every tool of the Model Context Protocol server shares (hub/internal/mcp/args.go): the window of
  a call, the bound on its rows, the resolution of a service name with its suggestions, and the
  conversions of a payload; and the parts of Go's standard library they use, the runes of a string and
  the text of an instant. The parser of RFC 3339 instants is a parameter.
\<close>

section \<open>Library\<close>

text \<open>\<open>[]rune(s)\<close>: the code points of a UTF-8 string; a byte that starts no encoding is U+FFFD.\<close>

definition trail :: "int \<Rightarrow> bool" where "trail b \<longleftrightarrow> 128 \<le> b \<and> b \<le> 191"

definition second_ok :: "int \<Rightarrow> int \<Rightarrow> bool" where
  "second_ok b0 b1 \<longleftrightarrow>
     (if b0 = 0xE0 then 0xA0 \<le> b1 \<and> b1 \<le> 0xBF
      else if b0 = 0xED then 0x80 \<le> b1 \<and> b1 \<le> 0x9F
      else if b0 = 0xF0 then 0x90 \<le> b1 \<and> b1 \<le> 0xBF
      else if b0 = 0xF4 then 0x80 \<le> b1 \<and> b1 \<le> 0x8F
      else trail b1)"

text \<open>The first rune and how many bytes it takes.\<close>

definition first_rune :: "int list \<Rightarrow> int \<times> nat" where
  "first_rune bs =
     (case bs of
        [] \<Rightarrow> (0xFFFD, 1)
      | b0 # r \<Rightarrow>
          if b0 < 128 then (b0, 1)
          else (case r of
             b1 # r1 \<Rightarrow>
               if 0xC2 \<le> b0 \<and> b0 \<le> 0xDF \<and> trail b1 then ((b0 - 0xC0) * 64 + (b1 - 128), 2)
               else (case r1 of
                  b2 # r2 \<Rightarrow>
                    if 0xE0 \<le> b0 \<and> b0 \<le> 0xEF \<and> second_ok b0 b1 \<and> trail b2
                      then ((b0 - 0xE0) * 4096 + (b1 - 128) * 64 + (b2 - 128), 3)
                    else (case r2 of
                       b3 # _ \<Rightarrow>
                         if 0xF0 \<le> b0 \<and> b0 \<le> 0xF4 \<and> second_ok b0 b1 \<and> trail b2 \<and> trail b3
                           then ((b0 - 0xF0) * 262144 + (b1 - 128) * 4096 + (b2 - 128) * 64 + (b3 - 128), 4)
                         else (0xFFFD, 1)
                     | [] \<Rightarrow> (0xFFFD, 1))
                | [] \<Rightarrow> (0xFFFD, 1))
           | [] \<Rightarrow> (0xFFFD, 1)))"

lemma first_rune_size: "0 < snd (first_rune bs)"
  by (auto simp: first_rune_def split: list.split)

function runes_of :: "int list \<Rightarrow> int list" where
  "runes_of bs = (if bs = [] then [] else fst (first_rune bs) # runes_of (drop (snd (first_rune bs)) bs))"
  by pat_completeness auto
termination
  by (relation "measure length") (auto simp: first_rune_size)

declare runes_of.simps [simp del]

definition runes :: "string \<Rightarrow> int list" where
  "runes s = runes_of (map of_char s)"

text \<open>The text of an instant in UTC: year, month and day of the proleptic Gregorian calendar.\<close>

definition leap_year :: "nat \<Rightarrow> bool" where
  "leap_year y \<longleftrightarrow> y mod 4 = 0 \<and> (y mod 100 \<noteq> 0 \<or> y mod 400 = 0)"

definition month_days :: "nat \<Rightarrow> nat list" where
  "month_days y = [31, if leap_year y then 29 else 28, 31, 30, 31, 30, 31, 31, 30, 31, 30, 31]"

fun month_of :: "nat \<Rightarrow> nat list \<Rightarrow> nat \<Rightarrow> nat \<times> nat" where
  "month_of m [] d = (m, d + 1)"
| "month_of m (n # ns) d = (if d < n then (m, d + 1) else month_of (m + 1) ns (d - n))"

definition civil_date :: "nat \<Rightarrow> nat \<times> nat \<times> nat" where
  "civil_date days =
     (let n400 = days div 146097; r1 = days mod 146097;
          n100 = min 3 (r1 div 36524); r2 = r1 - n100 * 36524;
          n4 = r2 div 1461; r3 = r2 mod 1461;
          n1 = min 3 (r3 div 365); yday = r3 - n1 * 365;
          year = 400 * n400 + 100 * n100 + 4 * n4 + n1 + 1
      in (year, month_of 1 (month_days year) yday))"

definition padded :: "nat \<Rightarrow> nat \<Rightarrow> string" where
  "padded w n = replicate (w - length (decimal n)) CHR ''0'' @ decimal n"

definition format_seconds :: "nat \<Rightarrow> string" where
  "format_seconds s =
     (case civil_date (s div 86400) of (y, mo, d) \<Rightarrow>
        padded 4 y @ ''-'' @ padded 2 mo @ ''-'' @ padded 2 d @ ''T'' @
        padded 2 (s mod 86400 div 3600) @ '':'' @ padded 2 (s mod 3600 div 60) @ '':'' @ padded 2 (s mod 60))"

text \<open>\<open>time.RFC3339\<close> drops the fraction of the second, \<open>time.RFC3339Nano\<close> its trailing zeros.\<close>

definition format_rfc3339 :: "instant \<Rightarrow> string" where
  "format_rfc3339 t = format_seconds (nat (t div second)) @ ''Z''"

definition nano_fraction :: "nat \<Rightarrow> string" where
  "nano_fraction n =
     (if n = 0 then [] else CHR ''.'' # rev (dropWhile (\<lambda>c. c = CHR ''0'') (rev (padded 9 n))))"

definition format_nano :: "instant \<Rightarrow> string" where
  "format_nano t = format_seconds (nat (t div second)) @ nano_fraction (nat (t mod second)) @ ''Z''"

section \<open>The window\<close>

record time_range =
  tr_start :: instant
  tr_end :: instant

record window_args =
  wa_window :: string
  wa_start :: string
  wa_end :: string

datatype tool_error =
    BadWindow string
  | BadEnd string
  | BadStart string
  | EmptyRange
  | ServiceRequired
  | UnknownService string bool "string list"
  | BadChoice string string
  | TraceRequired
  | NoSuchTrace string
  | BadArguments

text \<open>What the model is told, or a failure of the store with the read it happened in.\<close>

datatype tool_failure = Told tool_error | ReadFailed string

definition default_window :: duration where "default_window = 60 * minute"

definition time_range_of :: "(string \<Rightarrow> instant option) \<Rightarrow> window_args \<Rightarrow> instant \<Rightarrow> tool_error + time_range" where
  "time_range_of rfc3339 w now =
     (case (if wa_window w = [] then Some default_window
            else case parse_duration (wa_window w) of None \<Rightarrow> None | Some d \<Rightarrow> if d \<le> 0 then None else Some d) of
        None \<Rightarrow> Inl (BadWindow (wa_window w))
      | Some d \<Rightarrow>
          (case (if wa_end w = [] then Some now else rfc3339 (wa_end w)) of
             None \<Rightarrow> Inl (BadEnd (wa_end w))
           | Some end1 \<Rightarrow>
               (case (if wa_start w = [] then Some (end1 - d) else rfc3339 (wa_start w)) of
                  None \<Rightarrow> Inl (BadStart (wa_start w))
                | Some start \<Rightarrow> if end1 \<le> start then Inl EmptyRange else Inr \<lparr>tr_start = start, tr_end = end1\<rparr>)))"

type_synonym window_dto = "string \<times> string"

definition to_window_dto :: "time_range \<Rightarrow> window_dto" where
  "to_window_dto tr = (format_rfc3339 (tr_start tr), format_rfc3339 (tr_end tr))"

definition default_rows :: int where "default_rows = 20"
definition max_rows :: int where "max_rows = 100"
definition max_spans :: int where "max_spans = 500"

definition clamp_rows :: "int \<Rightarrow> int \<Rightarrow> int \<Rightarrow> int" where
  "clamp_rows v def1 max1 = (if v \<le> 0 then def1 else if max1 < v then max1 else v)"

section \<open>The store\<close>

text \<open>
  What the tools read. Every query carries the tenant and the tenants of the caller; an answer is
  \<open>None\<close> when the query failed. Counts of the store are \<open>uint64\<close>, read here as natural numbers.
\<close>

record service_query =
  sq_tenant :: string
  sq_tenants :: "string list"
  sq_range :: time_range
  sq_exclude_aux :: bool

record service_row_stats =
  sv_base :: map_service
  sv_p50 :: duration
  sv_p99 :: duration

record presence =
  psn_name :: string
  psn_spans :: nat
  psn_logs :: nat
  psn_error_logs :: nat
  psn_last :: instant

datatype signal = SignalSpans | SignalLogs

record trace_query =
  tq_tenant :: string
  tq_tenants :: "string list"
  tq_range :: time_range
  tq_service :: string
  tq_operation :: string
  tq_status :: string
  tq_order :: string
  tq_min_duration :: duration
  tq_exclude_aux :: bool
  tq_limit :: int

record trace_summary =
  tu_trace :: string
  tu_root_service :: string
  tu_root_operation :: string
  tu_start :: instant
  tu_duration :: duration
  tu_spans :: nat
  tu_errors :: nat
  tu_status :: string
  tu_http :: nat

record log_query =
  lq_tenant :: string
  lq_tenants :: "string list"
  lq_range :: time_range
  lq_service :: string
  lq_min_severity :: string
  lq_text :: string
  lq_limit :: int

record log_line =
  ll_time :: instant
  ll_severity :: string
  ll_service :: string
  ll_body :: string
  ll_trace :: string
  ll_span :: string

record issue_query =
  iq_tenant :: string
  iq_tenants :: "string list"
  iq_range :: time_range
  iq_status :: string
  iq_service :: string
  iq_text :: string
  iq_sort :: string
  iq_limit :: int

record error_issue =
  is_fingerprint :: nat
  is_service :: string
  is_type :: string
  is_message :: string
  is_source :: string
  is_status :: string
  is_regressed :: bool
  is_first :: instant
  is_last :: instant
  is_count :: nat
  is_trace :: string

record alert_row_state =
  aw_rule :: string
  aw_target :: string
  aw_status :: string
  aw_since :: instant

text \<open>A trace that is not there is \<open>Some None\<close>; the flag of a page says that more matched.\<close>

record mcp_store =
  mc_services :: "service_query \<Rightarrow> service_row_stats list option"
  mc_presence :: "service_query \<Rightarrow> signal list \<Rightarrow> presence list option"
  mc_edges :: "service_query \<Rightarrow> map_edge list option"
  mc_collapsed :: "service_query \<Rightarrow> string list \<Rightarrow> map_edge list option"
  mc_traces :: "trace_query \<Rightarrow> (trace_summary list \<times> bool) option"
  mc_trace :: "string list \<Rightarrow> string \<Rightarrow> (string \<times> span list) option option"
  mc_logs :: "log_query \<Rightarrow> (log_line list \<times> bool) option"
  mc_trace_logs :: "string list \<Rightarrow> string \<Rightarrow> log_line list option"
  mc_issues :: "issue_query \<Rightarrow> error_issue list option"
  mc_alerts :: "string \<Rightarrow> alert_row_state list option"

section \<open>Resolving a service\<close>

record mcp_server =
  sr_store :: mcp_store
  sr_modules :: module_set
  sr_tenant :: string
  sr_tenants :: "string list"
  sr_topology :: classifier
  sr_version :: string
  sr_actor :: string
  sr_now :: instant

definition service_query_of :: "mcp_server \<Rightarrow> time_range \<Rightarrow> service_query" where
  "service_query_of s tr =
     \<lparr>sq_tenant = sr_tenant s, sq_tenants = sr_tenants s, sq_range = tr, sq_exclude_aux = True\<rparr>"

record resolved_service =
  rv_name :: string
  rv_stats :: "service_row_stats option"
  rv_presence :: "presence option"

fun index_where :: "('a \<Rightarrow> bool) \<Rightarrow> nat \<Rightarrow> 'a list \<Rightarrow> nat option" where
  "index_where P i [] = None"
| "index_where P i (x # xs) = (if P x then Some i else index_where P (i + 1) xs)"

definition match_name :: "string \<Rightarrow> string list \<Rightarrow> nat option" where
  "match_name want cands =
     (case index_where (\<lambda>c. c = want) 0 cands of
        Some i \<Rightarrow> Some i
      | None \<Rightarrow> index_where (\<lambda>c. equal_fold c want) 0 cands)"

definition presence_signals :: "mcp_server \<Rightarrow> signal list" where
  "presence_signals s = SignalSpans # (if ''logs'' \<in> sr_modules s then [SignalLogs] else [])"

text \<open>Names that contain one another are at distance zero; a name farther than the budget is left out.\<close>

definition suggestion_distance :: "string \<Rightarrow> string \<Rightarrow> nat option" where
  "suggestion_distance want k =
     (let lw = to_lower want; lk = to_lower k; d = levenshtein (runes lw) (runes lk)
      in if contains lw lk \<or> contains lk lw then Some 0
         else if length lw div 3 + 1 < d then None else Some d)"

definition nearest :: "string \<Rightarrow> string list \<Rightarrow> nat \<Rightarrow> string list" where
  "nearest want known n =
     (let ranked = filter (\<lambda>k. suggestion_distance want k \<noteq> None) known
      in take n (sort_key (\<lambda>k. the (suggestion_distance want k)) (sort ranked)))"

definition resolve_service_stats :: "mcp_server \<Rightarrow> time_range \<Rightarrow> string \<Rightarrow>
    tool_failure + resolved_service \<times> service_row_stats list" where
  "resolve_service_stats s tr name =
     (if trim_space name = [] then Inl (Told ServiceRequired)
      else case mc_services (sr_store s) (service_query_of s tr) of
        None \<Rightarrow> Inl (ReadFailed ''listing services'')
      | Some services \<Rightarrow>
          (let known = map (\<lambda>v. st_name (sv_base v)) services in
           case match_name name known of
             Some i \<Rightarrow> Inr (\<lparr>rv_name = known ! i, rv_stats = Some (services ! i), rv_presence = None\<rparr>, services)
           | None \<Rightarrow>
               (case mc_presence (sr_store s) (service_query_of s tr) (presence_signals s) of
                  None \<Rightarrow> Inl (ReadFailed ''probing service presence'')
                | Some present \<Rightarrow>
                    (let others = map psn_name present in
                     case match_name name others of
                       Some i \<Rightarrow> Inr (\<lparr>rv_name = others ! i, rv_stats = None, rv_presence = Some (present ! i)\<rparr>, services)
                     | None \<Rightarrow> Inl (Told (UnknownService name (''logs'' \<in> sr_modules s) (nearest name (known @ others) 5)))))))"

section \<open>Conversions\<close>

definition milliseconds :: "duration \<Rightarrow> float64" where
  "milliseconds d = fdiv (fl (of_int d)) (fl (of_int millisecond))"

definition ratio_of :: "nat \<Rightarrow> nat \<Rightarrow> float64" where
  "ratio_of part whole = (if whole = 0 then 0 else fdiv (float_of_nat part) (float_of_nat whole))"

definition per_sec :: "nat \<Rightarrow> time_range \<Rightarrow> float64" where
  "per_sec n tr =
     (let secs = seconds_of (time_sub (tr_end tr) (tr_start tr)) in if secs \<le> 0 then 0 else fdiv (float_of_nat n) secs)"

text \<open>What is said of a service without entry spans: its evidence, and when it was last seen.\<close>

datatype evidence = SawLogs nat nat | SawSpans nat | SawNothing

record no_spans_note =
  nn_service :: string
  nn_evidence :: evidence
  nn_last :: "string option"

definition no_presence :: presence where
  "no_presence = \<lparr>psn_name = [], psn_spans = 0, psn_logs = 0, psn_error_logs = 0, psn_last = zero_time\<rparr>"

definition no_spans_note_of :: "resolved_service \<Rightarrow> no_spans_note" where
  "no_spans_note_of r =
     (let p = (case rv_presence r of None \<Rightarrow> no_presence | Some p \<Rightarrow> p)
      in \<lparr>nn_service = rv_name r,
          nn_evidence = (if 0 < psn_logs p then SawLogs (psn_logs p) (psn_error_logs p)
                         else if 0 < psn_spans p then SawSpans (psn_spans p) else SawNothing),
          nn_last = (if psn_last p = zero_time then None else Some (format_rfc3339 (psn_last p)))\<rparr>)"

end
