(* ===== verification/McpTools.thy ===== *)
theory McpTools
  imports McpArgs
begin

text \<open>
  The six tools of the Model Context Protocol server: the signals tools (hub/internal/mcp/signals.go)
  and the service context (hub/internal/mcp/context.go). A tool takes its decoded arguments, or none
  when the decoder refused them, and answers a payload or a failure; a payload keeps its rows, its
  count and whether it was cut.
\<close>

section \<open>list_services\<close>

record tool_service_row =
  sw_service :: string
  sw_rate :: float64
  sw_error_rate :: float64
  sw_p50 :: float64
  sw_p95 :: float64
  sw_p99 :: float64
  sw_spans :: nat

definition to_service_row :: "time_range \<Rightarrow> service_row_stats \<Rightarrow> tool_service_row" where
  "to_service_row tr v =
     (let b = sv_base v
      in \<lparr>sw_service = st_name b, sw_rate = per_sec (st_span_count b) tr,
          sw_error_rate = ratio_of (st_error_count b) (st_span_count b),
          sw_p50 = milliseconds (sv_p50 v), sw_p95 = milliseconds (st_p95 b), sw_p99 = milliseconds (sv_p99 v),
          sw_spans = st_span_count b\<rparr>)"

text \<open>A page: its window when it has one, its rows, how many there were when that is known, and whether
  more matched.\<close>

record 'a page =
  pg_window :: "window_dto option"
  pg_rows :: "'a list"
  pg_total :: "nat option"
  pg_truncated :: bool

text \<open>The first \<open>limit\<close> rows, and whether any were cut.\<close>

definition cut_rows :: "int \<Rightarrow> 'a list \<Rightarrow> 'a list \<times> bool" where
  "cut_rows limit rows = (if limit < int (length rows) then (take (nat limit) rows, True) else (rows, False))"

record list_services_args =
  ls_window :: window_args
  ls_unhealthy :: bool
  ls_limit :: int

text \<open>Worst first, busiest next, then by name.\<close>

definition worst_first :: "tool_service_row list \<Rightarrow> tool_service_row list" where
  "worst_first rows =
     sort_key (\<lambda>r. - sw_error_rate r) (sort_key (\<lambda>r. - sw_rate r) (sort_key sw_service rows))"

type_synonym rfc3339 = "string \<Rightarrow> instant option"

definition run_list_services :: "rfc3339 \<Rightarrow> mcp_server \<Rightarrow> list_services_args option \<Rightarrow> tool_failure + tool_service_row page" where
  "run_list_services rfc s args =
     (case args of
        None \<Rightarrow> Inl (Told BadArguments)
      | Some a \<Rightarrow>
          (case time_range_of rfc (ls_window a) (sr_now s) of
             Inl e \<Rightarrow> Inl (Told e)
           | Inr tr \<Rightarrow>
               (case mc_services (sr_store s) (service_query_of s tr) of
                  None \<Rightarrow> Inl (ReadFailed ''listing services'')
                | Some services \<Rightarrow>
                    (let rows = worst_first (map (to_service_row tr)
                           (filter (\<lambda>v. \<not> (ls_unhealthy a \<and> st_error_count (sv_base v) = 0)) services));
                         (kept, cut_off) = cut_rows (clamp_rows (ls_limit a) default_rows max_rows) rows
                     in Inr \<lparr>pg_window = Some (to_window_dto tr), pg_rows = kept, pg_total = Some (length rows),
                             pg_truncated = cut_off\<rparr>))))"

section \<open>search_traces\<close>

record search_traces_args =
  sa_window :: window_args
  sa_service :: string
  sa_operation :: string
  sa_status :: string
  sa_min_duration :: float64
  sa_order :: string
  sa_limit :: int

record trace_row =
  tw_trace :: string
  tw_service :: string
  tw_operation :: string
  tw_start :: string
  tw_duration :: float64
  tw_spans :: nat
  tw_errors :: nat
  tw_status :: string
  tw_http :: nat

definition to_trace_row :: "trace_summary \<Rightarrow> trace_row" where
  "to_trace_row t =
     \<lparr>tw_trace = tu_trace t, tw_service = tu_root_service t, tw_operation = tu_root_operation t,
      tw_start = format_rfc3339 (tu_start t), tw_duration = milliseconds (tu_duration t), tw_spans = tu_spans t,
      tw_errors = tu_errors t, tw_status = tu_status t, tw_http = tu_http t\<rparr>"

definition choice :: "string \<Rightarrow> string \<Rightarrow> string list \<Rightarrow> tool_error option" where
  "choice value name allowed = (if value = [] \<or> value \<in> set allowed then None else Some (BadChoice name value))"

text \<open>A named service is resolved; no name stands for every service.\<close>

definition optional_service :: "mcp_server \<Rightarrow> time_range \<Rightarrow> string \<Rightarrow> tool_failure + string \<times> no_spans_note list" where
  "optional_service s tr name =
     (if name = [] then Inr ([], [])
      else case resolve_service_stats s tr name of
        Inl e \<Rightarrow> Inl e
      | Inr (r, _) \<Rightarrow> Inr (rv_name r, if rv_stats r = None then [no_spans_note_of r] else []))"

text \<open>\<open>time.Duration(x)\<close> of a float truncates.\<close>

definition duration_of_float :: "float64 \<Rightarrow> duration" where
  "duration_of_float x = (if x < 0 then \<lceil>x\<rceil> else \<lfloor>x\<rfloor>)"

definition run_search_traces :: "rfc3339 \<Rightarrow> mcp_server \<Rightarrow> search_traces_args option \<Rightarrow>
    tool_failure + trace_row page \<times> no_spans_note list" where
  "run_search_traces rfc s args =
     (case args of
        None \<Rightarrow> Inl (Told BadArguments)
      | Some a \<Rightarrow>
          (case time_range_of rfc (sa_window a) (sr_now s) of
             Inl e \<Rightarrow> Inl (Told e)
           | Inr tr \<Rightarrow>
               (case choice (sa_status a) ''status'' [''ok'', ''error''] of
                  Some e \<Rightarrow> Inl (Told e)
                | None \<Rightarrow>
                    (case choice (sa_order a) ''order'' [''newest'', ''oldest'', ''slowest''] of
                       Some e \<Rightarrow> Inl (Told e)
                     | None \<Rightarrow>
                         (case optional_service s tr (sa_service a) of
                            Inl e \<Rightarrow> Inl e
                          | Inr (service, notes1) \<Rightarrow>
                              (case mc_traces (sr_store s)
                                  \<lparr>tq_tenant = sr_tenant s, tq_tenants = sr_tenants s, tq_range = tr, tq_service = service,
                                   tq_operation = sa_operation a, tq_status = sa_status a, tq_order = sa_order a,
                                   tq_min_duration = duration_of_float (fmul (sa_min_duration a) (fl (of_int millisecond))),
                                   tq_exclude_aux = True, tq_limit = clamp_rows (sa_limit a) default_rows max_rows\<rparr> of
                                 None \<Rightarrow> Inl (ReadFailed ''searching traces'')
                               | Some (traces, cut_off) \<Rightarrow>
                                   Inr (\<lparr>pg_window = Some (to_window_dto tr), pg_rows = map to_trace_row traces, pg_total = None,
                                         pg_truncated = cut_off\<rparr>, notes1)))))))"

section \<open>get_trace\<close>

record get_trace_args =
  ga_trace :: string
  ga_limit :: int

record span_row =
  pw_span :: string
  pw_parent :: string
  pw_service :: string
  pw_operation :: string
  pw_kind :: string
  pw_start :: string
  pw_duration :: float64
  pw_status :: string
  pw_message :: string

record self_time_row =
  fw_service :: string
  fw_self :: float64
  fw_spans :: int
  fw_errors :: int
  fw_refused :: int

definition to_span_row :: "span \<Rightarrow> span_row" where
  "to_span_row p =
     \<lparr>pw_span = sp_id p, pw_parent = sp_parent p, pw_service = sp_service p, pw_operation = sp_operation p, pw_kind = sp_kind p,
      pw_start = format_nano (sp_start p), pw_duration = milliseconds (sp_duration p), pw_status = sp_status p,
      pw_message = sp_message p\<rparr>"

definition to_self_time_row :: "service_self_time \<Rightarrow> self_time_row" where
  "to_self_time_row r =
     \<lparr>fw_service = ss_service r, fw_self = milliseconds (ss_self r), fw_spans = ss_spans r, fw_errors = ss_errors r,
      fw_refused = ss_refused r\<rparr>"

text \<open>The spans are ordered by the text of their start, then by id.\<close>

definition by_start :: "span_row list \<Rightarrow> span_row list" where
  "by_start rows = sort_key pw_start (sort_key pw_span rows)"

record trace_payload =
  tp_trace :: string
  tp_page :: "span_row page"
  tp_services :: "self_time_row list"

definition run_get_trace :: "mcp_server \<Rightarrow> get_trace_args option \<Rightarrow> tool_failure + trace_payload" where
  "run_get_trace s args =
     (case args of
        None \<Rightarrow> Inl (Told BadArguments)
      | Some a \<Rightarrow>
          if trim_space (ga_trace a) = [] then Inl (Told TraceRequired)
          else case mc_trace (sr_store s) (sr_tenants s) (ga_trace a) of
            None \<Rightarrow> Inl (ReadFailed ''reading trace'')
          | Some None \<Rightarrow> Inl (Told (NoSuchTrace (ga_trace a)))
          | Some (Some (trace, spans)) \<Rightarrow>
              (let rows = by_start (map to_span_row spans);
                   (kept, cut_off) = cut_rows (clamp_rows (ga_limit a) max_spans max_spans) rows
               in Inr \<lparr>tp_trace = trace,
                       tp_page = \<lparr>pg_window = None, pg_rows = kept, pg_total = Some (length rows), pg_truncated = cut_off\<rparr>,
                       tp_services = map to_self_time_row (self_time_by_service spans)\<rparr>))"

section \<open>search_logs\<close>

record search_logs_args =
  la_window :: window_args
  la_service :: string
  la_level :: string
  la_query :: string
  la_trace :: string
  la_limit :: int

record log_row =
  lw_time :: string
  lw_severity :: string
  lw_service :: string
  lw_body :: string
  lw_trace :: string
  lw_span :: string

definition to_log_row :: "log_line \<Rightarrow> log_row" where
  "to_log_row l =
     \<lparr>lw_time = format_nano (ll_time l), lw_severity = ll_severity l, lw_service = ll_service l, lw_body = ll_body l,
      lw_trace = ll_trace l, lw_span = ll_span l\<rparr>"

definition run_search_logs :: "rfc3339 \<Rightarrow> mcp_server \<Rightarrow> search_logs_args option \<Rightarrow> tool_failure + log_row page" where
  "run_search_logs rfc s args =
     (case args of
        None \<Rightarrow> Inl (Told BadArguments)
      | Some a \<Rightarrow>
          (let limit = clamp_rows (la_limit a) default_rows max_rows in
           if la_trace a \<noteq> [] then
             (case mc_trace_logs (sr_store s) (sr_tenants s) (la_trace a) of
                None \<Rightarrow> Inl (ReadFailed ''reading logs for trace'')
              | Some records \<Rightarrow>
                  (let (kept, cut_off) = cut_rows limit (map to_log_row records)
                   in Inr \<lparr>pg_window = None, pg_rows = kept, pg_total = None, pg_truncated = cut_off\<rparr>))
           else case time_range_of rfc (la_window a) (sr_now s) of
             Inl e \<Rightarrow> Inl (Told e)
           | Inr tr \<Rightarrow>
               (case optional_service s tr (la_service a) of
                  Inl e \<Rightarrow> Inl e
                | Inr (service, _) \<Rightarrow>
                    (case mc_logs (sr_store s)
                        \<lparr>lq_tenant = sr_tenant s, lq_tenants = sr_tenants s, lq_range = tr, lq_service = service,
                         lq_min_severity = la_level a, lq_text = la_query a, lq_limit = limit\<rparr> of
                       None \<Rightarrow> Inl (ReadFailed ''searching logs'')
                     | Some (lines, cut_off) \<Rightarrow>
                         Inr \<lparr>pg_window = Some (to_window_dto tr), pg_rows = map to_log_row lines, pg_total = None,
                              pg_truncated = cut_off\<rparr>))))"

section \<open>list_error_issues\<close>

record issues_args =
  ia_window :: window_args
  ia_service :: string
  ia_query :: string
  ia_status :: string
  ia_sort :: string
  ia_limit :: int

record issue_row =
  iw_fingerprint :: string
  iw_issue :: error_issue
  iw_first :: string
  iw_last :: string

fun hex_digits :: "nat \<Rightarrow> nat \<Rightarrow> string" where
  "hex_digits 0 n = []"
| "hex_digits (Suc w) n = hex_digits w (n div 16) @ [(''0123456789abcdef'') ! (n mod 16)]"

text \<open>\<open>%016x\<close> of a \<open>uint64\<close>.\<close>

definition to_issue_row :: "error_issue \<Rightarrow> issue_row" where
  "to_issue_row i =
     \<lparr>iw_fingerprint = hex_digits 16 (is_fingerprint i), iw_issue = i, iw_first = format_rfc3339 (is_first i),
      iw_last = format_rfc3339 (is_last i)\<rparr>"

definition run_list_error_issues :: "rfc3339 \<Rightarrow> mcp_server \<Rightarrow> issues_args option \<Rightarrow> tool_failure + issue_row page" where
  "run_list_error_issues rfc s args =
     (case args of
        None \<Rightarrow> Inl (Told BadArguments)
      | Some a \<Rightarrow>
          (case time_range_of rfc (ia_window a) (sr_now s) of
             Inl e \<Rightarrow> Inl (Told e)
           | Inr tr \<Rightarrow>
               (case choice (ia_status a) ''status'' [''unresolved'', ''resolved'', ''ignored'', ''all''] of
                  Some e \<Rightarrow> Inl (Told e)
                | None \<Rightarrow>
                    (case choice (ia_sort a) ''sort'' [''lastSeen'', ''count'', ''firstSeen''] of
                       Some e \<Rightarrow> Inl (Told e)
                     | None \<Rightarrow>
                         (case optional_service s tr (ia_service a) of
                            Inl e \<Rightarrow> Inl e
                          | Inr (service, _) \<Rightarrow>
                              (let limit = clamp_rows (ia_limit a) default_rows max_rows in
                               case mc_issues (sr_store s)
                                  \<lparr>iq_tenant = sr_tenant s, iq_tenants = sr_tenants s, iq_range = tr,
                                   iq_status = (if ia_status a = [] then ''unresolved'' else ia_status a), iq_service = service,
                                   iq_text = ia_query a, iq_sort = ia_sort a, iq_limit = limit + 1\<rparr> of
                                 None \<Rightarrow> Inl (ReadFailed ''searching error issues'')
                               | Some issues \<Rightarrow>
                                   (let (kept, cut_off) = cut_rows limit issues
                                    in Inr \<lparr>pg_window = Some (to_window_dto tr), pg_rows = map to_issue_row kept, pg_total = None,
                                            pg_truncated = cut_off\<rparr>)))))))"

end
