(* ===== verification/McpServer.thy ===== *)
theory McpServer
  imports McpTools Access
begin

text \<open>
  The service context tool (hub/internal/mcp/context.go), the registry of tools and their calls
  (tools.go) with the audit line (audit.go), the JSON-RPC envelope (protocol.go) and the handler of
  POST /mcp (hub/internal/api/mcp.go). The JSON decoders and the encoder are parameters; the tenants a
  request may read are what the API resolved for it.
\<close>

section \<open>service_context\<close>

record neighbour_row =
  nr_service :: string
  nr_via :: "string list"
  nr_collapsed :: "64 word"
  nr_calls :: "64 word"
  nr_rate :: float64
  nr_error_rate :: float64
  nr_p95 :: float64

datatype direction = Inbound | Outbound

text \<open>The other end of an edge of the named service; a service is no neighbour of its own.\<close>

definition counterpart :: "direction \<Rightarrow> string \<Rightarrow> map_edge \<Rightarrow> string option" where
  "counterpart dir name e =
     (case dir of
        Inbound \<Rightarrow> if ed_target e \<noteq> name then None
                   else if ed_source e = [] \<or> ed_source e = name then None else Some (ed_source e)
      | Outbound \<Rightarrow> if ed_source e \<noteq> name then None
                    else if ed_target e = [] \<or> ed_target e = name then None else Some (ed_target e))"

definition sum_edge :: "map_edge \<Rightarrow> map_edge \<Rightarrow> map_edge" where
  "sum_edge cur e =
     cur\<lparr>me_count := me_count cur + me_count e, me_errors := me_errors cur + me_errors e,
         me_collapsed := me_collapsed cur + me_collapsed e, me_via := me_via cur @ me_via e,
         me_p95 := max (me_p95 cur) (me_p95 e)\<rparr>"

definition add_neighbour :: "direction \<Rightarrow> string \<Rightarrow> map_edge \<Rightarrow> (string \<times> map_edge) list \<Rightarrow> (string \<times> map_edge) list" where
  "add_neighbour dir name e agg =
     (case counterpart dir name e of
        None \<Rightarrow> agg
      | Some other \<Rightarrow>
          (case map_of agg other of
             None \<Rightarrow> AList.update other e agg
           | Some cur \<Rightarrow> AList.update other (sum_edge cur e) agg))"

definition neighbour_of :: "time_range \<Rightarrow> string \<times> map_edge \<Rightarrow> neighbour_row" where
  "neighbour_of tr p = (case p of (other, e) \<Rightarrow>
     \<lparr>nr_service = other, nr_via = dedup (me_via e), nr_collapsed = me_collapsed e, nr_calls = me_count e,
      nr_rate = per_sec (unat (me_count e)) tr, nr_error_rate = ratio_of (unat (me_errors e)) (unat (me_count e)),
      nr_p95 = milliseconds (me_p95 e)\<rparr>)"

definition worst_neighbours :: "neighbour_row list \<Rightarrow> neighbour_row list" where
  "worst_neighbours rows =
     sort_key (\<lambda>r. - nr_error_rate r) (sort_key (\<lambda>r. - int (unat (nr_calls r))) (sort_key nr_service rows))"

definition neighbours :: "map_edge list \<Rightarrow> string \<Rightarrow> time_range \<Rightarrow> direction \<Rightarrow> neighbour_row list" where
  "neighbours es name tr dir =
     worst_neighbours (map (neighbour_of tr) (fold (add_neighbour dir name) es []))"

record alert_row =
  ar_rule :: string
  ar_target :: string
  ar_since :: string

fun load_firing :: "mcp_store \<Rightarrow> string list \<Rightarrow> alert_row list option" where
  "load_firing st [] = Some []"
| "load_firing st (t # ts) =
     (case mc_alerts st t of
        None \<Rightarrow> None
      | Some states \<Rightarrow>
          map_option ((@) (map (\<lambda>a. \<lparr>ar_rule = aw_rule a, ar_target = aw_target a, ar_since = format_rfc3339 (aw_since a)\<rparr>)
            (filter (\<lambda>a. aw_status a = ''firing'') states))) (load_firing st ts))"

text \<open>Longest firing first, then by rule.\<close>

definition firing_alerts :: "mcp_server \<Rightarrow> tool_failure + alert_row list" where
  "firing_alerts s =
     (case load_firing (sr_store s) (sr_tenants s) of
        None \<Rightarrow> Inl (ReadFailed ''reading alert state'')
      | Some rows \<Rightarrow> Inr (sort_key ar_since (sort_key ar_rule rows)))"

record context_args =
  ca_window :: window_args
  ca_service :: string

datatype context_note = Untraced no_spans_note | NoErrorTracking | NoAlerting | NoLogs

text \<open>A section whose module is off is absent, not empty.\<close>

record context_payload =
  cp_service :: string
  cp_window :: window_dto
  cp_red :: "tool_service_row option"
  cp_callers :: "neighbour_row list"
  cp_dependencies :: "neighbour_row list"
  cp_issues :: "issue_row list option"
  cp_alerts :: "alert_row list option"
  cp_notes :: "context_note list"
  cp_signals :: "(nat \<times> nat \<times> nat \<times> string option) option"
  cp_returned :: nat

definition context_issues :: "mcp_server \<Rightarrow> time_range \<Rightarrow> string \<Rightarrow> tool_failure + issue_row list option" where
  "context_issues s tr name =
     (if ''error-tracking'' \<notin> sr_modules s then Inr None
      else case mc_issues (sr_store s)
          \<lparr>iq_tenant = sr_tenant s, iq_tenants = sr_tenants s, iq_range = tr, iq_status = ''unresolved'', iq_service = name,
           iq_text = [], iq_sort = ''count'', iq_limit = 5\<rparr> of
        None \<Rightarrow> Inl (ReadFailed ''reading error issues'')
      | Some issues \<Rightarrow> Inr (Some (map to_issue_row issues)))"

definition context_alerts :: "mcp_server \<Rightarrow> tool_failure + alert_row list option" where
  "context_alerts s =
     (if ''alerting'' \<notin> sr_modules s then Inr None
      else case firing_alerts s of Inl e \<Rightarrow> Inl e | Inr rows \<Rightarrow> Inr (Some rows))"

text \<open>The edges both surfaces describe: the mesh's hops recovered, merged and hidden.\<close>

definition described_edges :: "mcp_server \<Rightarrow> time_range \<Rightarrow> service_row_stats list \<Rightarrow> string \<Rightarrow> tool_failure + map_edge list" where
  "described_edges s tr services name =
     (let all1 = map sv_base services in
      case mc_edges (sr_store s) (service_query_of s tr) of
        None \<Rightarrow> Inl (ReadFailed ''reading service edges'')
      | Some es \<Rightarrow>
          (let cls = with_evidence (labelled_transport all1) (sr_topology s);
               transport = transport_names cls all1
           in case mc_collapsed (sr_store s) (service_query_of s tr) transport of
                None \<Rightarrow> Inl (ReadFailed ''recovering mesh-hidden dependencies'')
              | Some cs \<Rightarrow> Inr (hide_transport all1 (merge_collapsed es cs) cls name)))"

definition signals_of :: "resolved_service \<Rightarrow> (nat \<times> nat \<times> nat \<times> string option) option" where
  "signals_of r =
     (case rv_stats r of
        Some _ \<Rightarrow> None
      | None \<Rightarrow> (let p = (case rv_presence r of None \<Rightarrow> no_presence | Some p \<Rightarrow> p)
                 in Some (psn_spans p, psn_logs p, psn_error_logs p,
                          if psn_last p = zero_time then None else Some (format_rfc3339 (psn_last p)))))"

definition run_service_context :: "rfc3339 \<Rightarrow> mcp_server \<Rightarrow> context_args option \<Rightarrow> tool_failure + context_payload" where
  "run_service_context rfc s args =
     (case args of
        None \<Rightarrow> Inl (Told BadArguments)
      | Some a \<Rightarrow>
          (case time_range_of rfc (ca_window a) (sr_now s) of
             Inl e \<Rightarrow> Inl (Told e)
           | Inr tr \<Rightarrow>
               (case resolve_service_stats s tr (ca_service a) of
                  Inl e \<Rightarrow> Inl e
                | Inr (r, services) \<Rightarrow>
                    (case described_edges s tr services (rv_name r) of
                       Inl e \<Rightarrow> Inl e
                     | Inr es \<Rightarrow>
                         (case context_issues s tr (rv_name r) of
                            Inl e \<Rightarrow> Inl e
                          | Inr issues \<Rightarrow>
                              (case context_alerts s of
                                 Inl e \<Rightarrow> Inl e
                               | Inr alerts \<Rightarrow>
                                   (let callers1 = neighbours es (rv_name r) tr Inbound;
                                        deps = neighbours es (rv_name r) tr Outbound
                                    in Inr \<lparr>cp_service = rv_name r, cp_window = to_window_dto tr,
                                            cp_red = map_option (to_service_row tr) (rv_stats r),
                                            cp_callers = callers1, cp_dependencies = deps, cp_issues = issues, cp_alerts = alerts,
                                            cp_notes = (if rv_stats r = None then [Untraced (no_spans_note_of r)] else []) @
                                              (if issues = None then [NoErrorTracking] else []) @
                                              (if alerts = None then [NoAlerting] else []) @
                                              (if ''logs'' \<notin> sr_modules s then [NoLogs] else []),
                                            cp_signals = signals_of r,
                                            cp_returned = length callers1 + length deps +
                                              (case issues of None \<Rightarrow> 0 | Some xs \<Rightarrow> length xs) +
                                              (case alerts of None \<Rightarrow> 0 | Some xs \<Rightarrow> length xs)\<rparr>)))))))"

section \<open>The tools\<close>

text \<open>The registry in the order it is listed, with the module a tool needs; no name is a core tool.\<close>

definition tools :: "(string \<times> string) list" where
  "tools = [(''service_context'', []), (''list_services'', []), (''search_traces'', []), (''get_trace'', []),
     (''search_logs'', ''logs''), (''list_error_issues'', ''error-tracking'')]"

definition tool_active :: "module_set \<Rightarrow> string \<Rightarrow> bool" where
  "tool_active ms m \<longleftrightarrow> m = [] \<or> m \<in> ms"

definition tool_defs :: "mcp_server \<Rightarrow> string list" where
  "tool_defs s = map fst (filter (\<lambda>t. tool_active (sr_modules s) (snd t)) tools)"

datatype tool_payload =
    ContextPayload context_payload
  | ServicesPayload "tool_service_row page"
  | TracesPayload "trace_row page" "no_spans_note list"
  | TracePayload trace_payload
  | LogsPayload "log_row page"
  | IssuesPayload "issue_row page"

definition rows_of :: "tool_payload \<Rightarrow> nat" where
  "rows_of p = (case p of
     ContextPayload c \<Rightarrow> cp_returned c
   | ServicesPayload g \<Rightarrow> length (pg_rows g)
   | TracesPayload g _ \<Rightarrow> length (pg_rows g)
   | TracePayload t \<Rightarrow> length (pg_rows (tp_page t))
   | LogsPayload g \<Rightarrow> length (pg_rows g)
   | IssuesPayload g \<Rightarrow> length (pg_rows g))"

text \<open>
  The decoders: a request, the parameters of a call, and the arguments of each tool, which refuse
  unknown fields; and the encoder of a payload and of a tool's error.
\<close>

record rpc_request =
  rq_version :: string
  rq_id :: string
  rq_method_name :: string
  rq_params :: string

record mcp_json =
  mj_request :: "string \<Rightarrow> rpc_request option"
  mj_call :: "string \<Rightarrow> (string \<times> string) option"
  mj_context :: "string \<Rightarrow> context_args option"
  mj_services :: "string \<Rightarrow> list_services_args option"
  mj_traces :: "string \<Rightarrow> search_traces_args option"
  mj_trace :: "string \<Rightarrow> get_trace_args option"
  mj_logs :: "string \<Rightarrow> search_logs_args option"
  mj_issues :: "string \<Rightarrow> issues_args option"
  mj_payload :: "tool_payload \<Rightarrow> string option"
  mj_error :: "tool_error \<Rightarrow> string option"

definition no_window :: window_args where "no_window = \<lparr>wa_window = [], wa_start = [], wa_end = []\<rparr>"

definition decode_args :: "(string \<Rightarrow> 'a option) \<Rightarrow> 'a \<Rightarrow> string \<Rightarrow> 'a option" where
  "decode_args dec zero raw = (if raw = [] \<or> raw = ''null'' then Some zero else dec raw)"

definition run_named :: "mcp_json \<Rightarrow> rfc3339 \<Rightarrow> mcp_server \<Rightarrow> string \<Rightarrow> string \<Rightarrow> tool_failure + tool_payload" where
  "run_named j rfc s name raw =
     (if name = ''service_context'' then
        map_sum id ContextPayload (run_service_context rfc s
          (decode_args (mj_context j) \<lparr>ca_window = no_window, ca_service = []\<rparr> raw))
      else if name = ''list_services'' then
        map_sum id ServicesPayload (run_list_services rfc s
          (decode_args (mj_services j) \<lparr>ls_window = no_window, ls_unhealthy = False, ls_limit = 0\<rparr> raw))
      else if name = ''search_traces'' then
        map_sum id (\<lambda>(g, ns). TracesPayload g ns) (run_search_traces rfc s
          (decode_args (mj_traces j) \<lparr>sa_window = no_window, sa_service = [], sa_operation = [], sa_status = [],
             sa_min_duration = 0, sa_order = [], sa_limit = 0\<rparr> raw))
      else if name = ''get_trace'' then
        map_sum id TracePayload (run_get_trace s (decode_args (mj_trace j) \<lparr>ga_trace = [], ga_limit = 0\<rparr> raw))
      else if name = ''search_logs'' then
        map_sum id LogsPayload (run_search_logs rfc s
          (decode_args (mj_logs j) \<lparr>la_window = no_window, la_service = [], la_level = [], la_query = [], la_trace = [], la_limit = 0\<rparr> raw))
      else
        map_sum id IssuesPayload (run_list_error_issues rfc s
          (decode_args (mj_issues j) \<lparr>ia_window = no_window, ia_service = [], ia_query = [], ia_status = [], ia_sort = [], ia_limit = 0\<rparr> raw)))"

section \<open>The envelope\<close>

datatype rpc_error =
    BatchRefused
  | NotJson
  | WrongVersion
  | NoMethod
  | UnknownMethod string
  | NoToolName
  | NamelessTool
  | ModuleOff string string
  | UnknownTool string
  | StoreFailed
  | Unencodable

definition rpc_code :: "rpc_error \<Rightarrow> int" where
  "rpc_code e = (case e of
     NotJson \<Rightarrow> - 32700
   | BatchRefused \<Rightarrow> - 32600 | WrongVersion \<Rightarrow> - 32600 | NoMethod \<Rightarrow> - 32600
   | UnknownMethod _ \<Rightarrow> - 32601
   | NoToolName \<Rightarrow> - 32602 | NamelessTool \<Rightarrow> - 32602 | ModuleOff _ _ \<Rightarrow> - 32602 | UnknownTool _ \<Rightarrow> - 32602
   | StoreFailed \<Rightarrow> - 32603 | Unencodable \<Rightarrow> - 32603)"

text \<open>Who asked for what, how much came back, and what went wrong; never the rows.\<close>

record audit_line =
  au_tool :: string
  au_actor :: string
  au_project :: string
  au_args :: string
  au_rows :: nat
  au_error :: "tool_failure option"

definition audit_call :: "mcp_server \<Rightarrow> string \<Rightarrow> string \<Rightarrow> nat \<Rightarrow> tool_failure option \<Rightarrow> audit_line" where
  "audit_call s name raw n err =
     \<lparr>au_tool = name, au_actor = (if sr_actor s = [] then ''anonymous'' else sr_actor s), au_project = sr_tenant s,
      au_args = raw, au_rows = n, au_error = err\<rparr>"

datatype rpc_result =
    InitializeResult string string string
  | PongResult
  | ToolsResult "string list"
  | CallResult string bool

definition json_result :: "string option \<Rightarrow> bool \<Rightarrow> rpc_error + rpc_result" where
  "json_result text is_err = (case text of None \<Rightarrow> Inl Unencodable | Some t \<Rightarrow> Inr (CallResult t is_err))"

definition run_tool :: "mcp_json \<Rightarrow> rfc3339 \<Rightarrow> mcp_server \<Rightarrow> string \<Rightarrow> string \<Rightarrow> (rpc_error + rpc_result) \<times> audit_line list" where
  "run_tool j rfc s name raw =
     (case run_named j rfc s name raw of
        Inl (Told e) \<Rightarrow> (json_result (mj_error j e) True, [audit_call s name raw 0 (Some (Told e))])
      | Inl (ReadFailed r) \<Rightarrow> (Inl StoreFailed, [audit_call s name raw 0 (Some (ReadFailed r))])
      | Inr p \<Rightarrow> (json_result (mj_payload j p) False, [audit_call s name raw (rows_of p) None]))"

definition call_tool :: "mcp_json \<Rightarrow> rfc3339 \<Rightarrow> mcp_server \<Rightarrow> string \<Rightarrow> (rpc_error + rpc_result) \<times> audit_line list" where
  "call_tool j rfc s raw =
     (case (if raw = [] then None else mj_call j raw) of
        None \<Rightarrow> (Inl NoToolName, [])
      | Some (name, args) \<Rightarrow>
          if name = [] then (Inl NamelessTool, [])
          else case map_of tools name of
            None \<Rightarrow> (Inl (UnknownTool name), [])
          | Some m \<Rightarrow> if \<not> tool_active (sr_modules s) m then (Inl (ModuleOff name m), []) else run_tool j rfc s name args)"

definition protocol_version :: string where "protocol_version = ''2025-06-18''"

definition dispatch_rpc :: "mcp_json \<Rightarrow> rfc3339 \<Rightarrow> mcp_server \<Rightarrow> rpc_request \<Rightarrow> (rpc_error + rpc_result) \<times> audit_line list" where
  "dispatch_rpc j rfc s r =
     (if rq_method_name r = ''initialize'' then (Inr (InitializeResult protocol_version ''avuru-obs'' (sr_version s)), [])
      else if rq_method_name r = ''ping'' then (Inr PongResult, [])
      else if rq_method_name r = ''tools/list'' then (Inr (ToolsResult (tool_defs s)), [])
      else if rq_method_name r = ''tools/call'' then call_tool j rfc s (rq_params r)
      else (Inl (UnknownMethod (rq_method_name r)), []))"

definition first_non_space :: "string \<Rightarrow> char option" where
  "first_non_space b = (case dropWhile (\<lambda>c. c \<in> {CHR '' '', CHR 0x09, CHR 0x0D, CHR 0x0A}) b of [] \<Rightarrow> None | c # _ \<Rightarrow> Some c)"

text \<open>A reply carries the id of its request, empty when the request could not be read.\<close>

record rpc_reply =
  ry_id :: string
  ry_answer :: "rpc_error + rpc_result"

definition reply_to :: "rpc_request \<Rightarrow> rpc_error + rpc_result \<Rightarrow> rpc_reply option" where
  "reply_to r a = (if rq_id r = [] then None else Some \<lparr>ry_id = rq_id r, ry_answer = a\<rparr>)"

definition handle_rpc :: "mcp_json \<Rightarrow> rfc3339 \<Rightarrow> mcp_server \<Rightarrow> string \<Rightarrow> rpc_reply option \<times> audit_line list" where
  "handle_rpc j rfc s b =
     (if first_non_space b = Some (CHR ''['') then (Some \<lparr>ry_id = [], ry_answer = Inl BatchRefused\<rparr>, [])
      else case mj_request j b of
        None \<Rightarrow> (Some \<lparr>ry_id = [], ry_answer = Inl NotJson\<rparr>, [])
      | Some r \<Rightarrow>
          if rq_version r \<noteq> ''2.0'' then (reply_to r (Inl WrongVersion), [])
          else if rq_method_name r = [] then (reply_to r (Inl NoMethod), [])
          else case dispatch_rpc j rfc s r of (a, audit) \<Rightarrow> (reply_to r a, audit))"

section \<open>The endpoint\<close>

definition actor_name :: "identity option \<Rightarrow> string" where
  "actor_name i = (case i of None \<Rightarrow> [] | Some x \<Rightarrow> if id_email x \<noteq> [] then id_email x else id_user x)"

definition max_mcp_body :: nat where "max_mcp_body = 65536"

datatype mcp_answer = Delivered | Replied rpc_reply

text \<open>\<open>store\<close> is the connected store, \<open>tenants\<close> what the project of the request resolved to, the tenant
  and the tenants its reads span, and \<open>body\<close> the request's body, \<open>None\<close> when it cannot be read.\<close>

definition handle_mcp :: "mcp_json \<Rightarrow> rfc3339 \<Rightarrow> mcp_store option \<Rightarrow> http_error + string \<times> string list \<Rightarrow> module_set \<Rightarrow> classifier \<Rightarrow> string \<Rightarrow>
    instant \<Rightarrow> identity option \<Rightarrow> string option \<Rightarrow> (http_error + mcp_answer) \<times> audit_line list" where
  "handle_mcp j rfc store tenants ms cls version now who body =
     (case store of
        None \<Rightarrow> (Inl Unavailable, [])
      | Some st \<Rightarrow>
          (case tenants of
             Inl e \<Rightarrow> (Inl e, [])
           | Inr (t, ts) \<Rightarrow>
               (case body of
                  None \<Rightarrow> (Inl (Failed_With ''read body''), [])
                | Some b \<Rightarrow>
                    if max_mcp_body < length b then (Inl Too_Large, [])
                    else case handle_rpc j rfc
                        \<lparr>sr_store = st, sr_modules = ms, sr_tenant = t, sr_tenants = ts, sr_topology = cls, sr_version = version,
                         sr_actor = actor_name who, sr_now = now\<rparr> b of
                      (None, audit) \<Rightarrow> (Inr Delivered, audit)
                    | (Some r, audit) \<Rightarrow> (Inr (Replied r), audit))))"

end
