(* ===== verification/McpLaws.thy ===== *)
theory McpLaws
  imports McpServer
begin

text \<open>
  What the Model Context Protocol server promises: its answers depend on nothing in the store but what
  belongs to the caller's tenants; a tool is listed exactly when it can be called, and each call leaves
  one audit line; a service resolves to a stored spelling; a cut list keeps the worst rows and says so.
\<close>

section \<open>Tenants\<close>

text \<open>Two stores that answer alike whatever is asked for one tenant and its tenants.\<close>

definition same_for :: "string \<Rightarrow> string list \<Rightarrow> mcp_store \<Rightarrow> mcp_store \<Rightarrow> bool" where
  "same_for t ts a b \<longleftrightarrow>
     (\<forall>q. sq_tenant q = t \<longrightarrow> sq_tenants q = ts \<longrightarrow> mc_services a q = mc_services b q \<and> mc_edges a q = mc_edges b q \<and>
        (\<forall>sigs. mc_presence a q sigs = mc_presence b q sigs) \<and> (\<forall>names. mc_collapsed a q names = mc_collapsed b q names)) \<and>
     (\<forall>q. tq_tenant q = t \<longrightarrow> tq_tenants q = ts \<longrightarrow> mc_traces a q = mc_traces b q) \<and>
     (\<forall>q. lq_tenant q = t \<longrightarrow> lq_tenants q = ts \<longrightarrow> mc_logs a q = mc_logs b q) \<and>
     (\<forall>q. iq_tenant q = t \<longrightarrow> iq_tenants q = ts \<longrightarrow> mc_issues a q = mc_issues b q) \<and>
     (\<forall>i. mc_trace a ts i = mc_trace b ts i \<and> mc_trace_logs a ts i = mc_trace_logs b ts i) \<and>
     (\<forall>x\<in>set ts. mc_alerts a x = mc_alerts b x)"

definition served_alike :: "mcp_server \<Rightarrow> mcp_server \<Rightarrow> bool" where
  "served_alike s s' \<longleftrightarrow> same_for (sr_tenant s) (sr_tenants s) (sr_store s) (sr_store s') \<and> s' = s\<lparr>sr_store := sr_store s'\<rparr>"

lemma alike_fields:
  assumes "served_alike s s'"
  shows "sr_modules s' = sr_modules s" "sr_tenant s' = sr_tenant s" "sr_tenants s' = sr_tenants s"
    "sr_topology s' = sr_topology s" "sr_version s' = sr_version s" "sr_actor s' = sr_actor s" "sr_now s' = sr_now s"
  using assms unfolding served_alike_def by (metis mcp_server.select_convs mcp_server.surjective mcp_server.update_convs(1))+

lemma alike_reads:
  assumes "served_alike s s'"
  shows "mc_services (sr_store s') (service_query_of s tr) = mc_services (sr_store s) (service_query_of s tr)"
    "mc_presence (sr_store s') (service_query_of s tr) sigs = mc_presence (sr_store s) (service_query_of s tr) sigs"
    "mc_edges (sr_store s') (service_query_of s tr) = mc_edges (sr_store s) (service_query_of s tr)"
    "mc_collapsed (sr_store s') (service_query_of s tr) names = mc_collapsed (sr_store s) (service_query_of s tr) names"
    "tq_tenant q = sr_tenant s \<Longrightarrow> tq_tenants q = sr_tenants s \<Longrightarrow> mc_traces (sr_store s') q = mc_traces (sr_store s) q"
    "lq_tenant l = sr_tenant s \<Longrightarrow> lq_tenants l = sr_tenants s \<Longrightarrow> mc_logs (sr_store s') l = mc_logs (sr_store s) l"
    "iq_tenant i = sr_tenant s \<Longrightarrow> iq_tenants i = sr_tenants s \<Longrightarrow> mc_issues (sr_store s') i = mc_issues (sr_store s) i"
    "mc_trace (sr_store s') (sr_tenants s) x = mc_trace (sr_store s) (sr_tenants s) x"
    "mc_trace_logs (sr_store s') (sr_tenants s) x = mc_trace_logs (sr_store s) (sr_tenants s) x"
  using assms by (simp_all add: served_alike_def same_for_def service_query_of_def)

lemma alike_query: "served_alike s s' \<Longrightarrow> service_query_of s' tr = service_query_of s tr"
  by (simp add: service_query_of_def alike_fields)

lemma resolve_alike: "served_alike s s' \<Longrightarrow> resolve_service_stats s' tr name = resolve_service_stats s tr name"
  by (simp add: resolve_service_stats_def alike_query alike_reads alike_fields presence_signals_def Let_def
    cong: option.case_cong sum.case_cong prod.case_cong if_cong)

lemma optional_alike: "served_alike s s' \<Longrightarrow> optional_service s' tr name = optional_service s tr name"
  by (simp add: optional_service_def resolve_alike Let_def
    cong: option.case_cong sum.case_cong prod.case_cong if_cong)

lemma list_services_alike: "served_alike s s' \<Longrightarrow> run_list_services rfc s' args = run_list_services rfc s args"
  by (simp add: run_list_services_def alike_fields alike_query alike_reads Let_def
    cong: option.case_cong sum.case_cong prod.case_cong if_cong)

lemma search_traces_alike: "served_alike s s' \<Longrightarrow> run_search_traces rfc s' args = run_search_traces rfc s args"
  by (simp add: run_search_traces_def alike_fields optional_alike alike_reads Let_def
    cong: option.case_cong sum.case_cong prod.case_cong if_cong)

lemma get_trace_alike: "served_alike s s' \<Longrightarrow> run_get_trace s' args = run_get_trace s args"
  by (simp add: run_get_trace_def alike_fields alike_reads Let_def
    cong: option.case_cong sum.case_cong prod.case_cong if_cong)

lemma search_logs_alike: "served_alike s s' \<Longrightarrow> run_search_logs rfc s' args = run_search_logs rfc s args"
  by (simp add: run_search_logs_def alike_fields optional_alike alike_reads Let_def
    cong: option.case_cong sum.case_cong prod.case_cong if_cong)

lemma issues_alike: "served_alike s s' \<Longrightarrow> run_list_error_issues rfc s' args = run_list_error_issues rfc s args"
  by (simp add: run_list_error_issues_def alike_fields optional_alike alike_reads Let_def
    cong: option.case_cong sum.case_cong prod.case_cong if_cong)

lemma load_firing_cong: "\<forall>x\<in>set ts. mc_alerts a x = mc_alerts b x \<Longrightarrow> load_firing a ts = load_firing b ts"
  by (induction ts) (auto split: option.split)

lemma alerts_alike: "served_alike s s' \<Longrightarrow> context_alerts s' = context_alerts s"
proof -
  assume a: "served_alike s s'"
  then have "load_firing (sr_store s') (sr_tenants s) = load_firing (sr_store s) (sr_tenants s)"
    by (intro load_firing_cong) (simp add: served_alike_def same_for_def)
  with a show ?thesis by (simp add: context_alerts_def firing_alerts_def alike_fields Let_def
    cong: option.case_cong sum.case_cong prod.case_cong if_cong)
qed

lemma context_alike: "served_alike s s' \<Longrightarrow> run_service_context rfc s' args = run_service_context rfc s args"
  by (simp add: run_service_context_def alike_fields resolve_alike described_edges_def alike_query alike_reads context_issues_def
    alerts_alike Let_def cong: option.case_cong sum.case_cong prod.case_cong if_cong)

lemma run_named_alike: "served_alike s s' \<Longrightarrow> run_named j rfc s' name raw = run_named j rfc s name raw"
  by (simp add: run_named_def context_alike list_services_alike search_traces_alike get_trace_alike search_logs_alike issues_alike)

lemma run_tool_alike: "served_alike s s' \<Longrightarrow> run_tool j rfc s' name raw = run_tool j rfc s name raw"
proof -
  assume a: "served_alike s s'"
  then have "audit_call s' name raw n e = audit_call s name raw n e" for n e by (simp add: audit_call_def alike_fields)
  then show ?thesis by (simp add: run_tool_def run_named_alike [OF a] split: sum.split tool_failure.split)
qed

lemma call_tool_alike: "served_alike s s' \<Longrightarrow> call_tool j rfc s' raw = call_tool j rfc s raw"
  by (simp add: call_tool_def run_tool_alike alike_fields split: option.split prod.split)

lemma handle_rpc_alike: "served_alike s s' \<Longrightarrow> handle_rpc j rfc s' b = handle_rpc j rfc s b"
  by (simp add: handle_rpc_def dispatch_rpc_def call_tool_alike tool_defs_def alike_fields
    cong: option.case_cong prod.case_cong if_cong)

text \<open>C8. No answer of the server, and no audit line, depends on telemetry outside the tenants the caller's project
  resolved to: two stores that agree on what belongs to them, and differ anywhere else, give the same
  reply to every request.\<close>

theorem mcp_reads_confined:
  assumes "same_for t ts a b"
  shows "handle_mcp j rfc (Some a) (Inr (t, ts)) ms cls version now who body =
    handle_mcp j rfc (Some b) (Inr (t, ts)) ms cls version now who body"
proof -
  let ?s = "\<lambda>st. \<lparr>sr_store = st, sr_modules = ms, sr_tenant = t, sr_tenants = ts, sr_topology = cls, sr_version = version,
    sr_actor = actor_name who, sr_now = now\<rparr>"
  have "served_alike (?s a) (?s b)" using assms by (simp add: served_alike_def)
  then have "handle_rpc j rfc (?s b) x = handle_rpc j rfc (?s a) x" for x by (rule handle_rpc_alike)
  then show ?thesis by (simp add: handle_mcp_def split: option.split)
qed

definition empty_store :: mcp_store where
  "empty_store = \<lparr>mc_services = (\<lambda>_. Some []), mc_presence = (\<lambda>_ _. Some []), mc_edges = (\<lambda>_. Some []), mc_collapsed = (\<lambda>_ _. Some []),
     mc_traces = (\<lambda>_. Some ([], False)), mc_trace = (\<lambda>_ _. Some None), mc_logs = (\<lambda>_. Some ([], False)), mc_trace_logs = (\<lambda>_ _. Some []),
     mc_issues = (\<lambda>_. Some []), mc_alerts = (\<lambda>_. Some [])\<rparr>"

definition sample_rpc :: mcp_json where
  "sample_rpc = \<lparr>mj_request = (\<lambda>_. Some \<lparr>rq_version = ''2.0'', rq_id = ''1'', rq_method_name = ''tools/call'', rq_params = ''p''\<rparr>),
     mj_call = (\<lambda>_. Some (''get_trace'', ''{}'')), mj_context = (\<lambda>_. None), mj_services = (\<lambda>_. None), mj_traces = (\<lambda>_. None),
     mj_trace = (\<lambda>_. Some \<lparr>ga_trace = ''t1'', ga_limit = 0\<rparr>), mj_logs = (\<lambda>_. None), mj_issues = (\<lambda>_. None),
     mj_payload = (\<lambda>_. Some ''payload''), mj_error = (\<lambda>_. Some ''error'')\<rparr>"

text \<open>Another project's trace of that id is in the one store and not in the other.\<close>

theorem mcp_reads_confined_witness:
  "handle_mcp sample_rpc (\<lambda>_. None) (Some (empty_store\<lparr>mc_trace := (\<lambda>ts i. if ts = [''other''] then Some (Some (i, [])) else Some None)\<rparr>))
      (Inr (''mine'', [''mine''])) {} (new_classifier default_topology) ''v'' 0 None (Some ''{}'') =
   handle_mcp sample_rpc (\<lambda>_. None) (Some empty_store) (Inr (''mine'', [''mine''])) {} (new_classifier default_topology) ''v'' 0 None (Some ''{}'') \<and>
   handle_mcp sample_rpc (\<lambda>_. None) (Some empty_store) (Inr (''mine'', [''mine''])) {} (new_classifier default_topology) ''v'' 0 None (Some ''{}'') =
     (Inr (Replied \<lparr>ry_id = ''1'', ry_answer = Inr (CallResult ''error'' True)\<rparr>),
      [\<lparr>au_tool = ''get_trace'', au_actor = ''anonymous'', au_project = ''mine'', au_args = ''{}'', au_rows = 0,
        au_error = Some (Told (NoSuchTrace ''t1''))\<rparr>])"
proof
  let ?a = "empty_store\<lparr>mc_trace := (\<lambda>ts i. if ts = [''other''] then Some (Some (i, [])) else Some None)\<rparr>"
  have "same_for ''mine'' [''mine''] ?a empty_store" by (simp add: same_for_def empty_store_def)
  then show "handle_mcp sample_rpc (\<lambda>_. None) (Some ?a) (Inr (''mine'', [''mine''])) {} (new_classifier default_topology) ''v'' 0 None (Some ''{}'') =
     handle_mcp sample_rpc (\<lambda>_. None) (Some empty_store) (Inr (''mine'', [''mine''])) {} (new_classifier default_topology) ''v'' 0 None (Some ''{}'')"
    by (rule mcp_reads_confined)
  have t: "trim_space ''t1'' = ''t1''" by code_simp
  show "handle_mcp sample_rpc (\<lambda>_. None) (Some empty_store) (Inr (''mine'', [''mine''])) {} (new_classifier default_topology) ''v'' 0 None (Some ''{}'') =
     (Inr (Replied \<lparr>ry_id = ''1'', ry_answer = Inr (CallResult ''error'' True)\<rparr>),
      [\<lparr>au_tool = ''get_trace'', au_actor = ''anonymous'', au_project = ''mine'', au_args = ''{}'', au_rows = 0,
        au_error = Some (Told (NoSuchTrace ''t1''))\<rparr>])"
    by (simp add: handle_mcp_def max_mcp_body_def actor_name_def handle_rpc_def first_non_space_def sample_rpc_def dispatch_rpc_def
      call_tool_def tools_def tool_active_def run_tool_def run_named_def run_get_trace_def decode_args_def t empty_store_def
      json_result_def reply_to_def audit_call_def)
qed

section \<open>The registry\<close>

lemma tools_distinct: "distinct (map fst tools)"
  by (simp add: tools_def)

lemma listed_active: "name \<in> set (tool_defs s) \<longleftrightarrow> (\<exists>m. map_of tools name = Some m \<and> tool_active (sr_modules s) m)"
  using map_of_eq_Some_iff [OF tools_distinct] by (force simp: tool_defs_def)

text \<open>C36. A tool is listed exactly when it can be called: a call of a listed tool runs it and leaves one audit line
  with the tool, the caller, the project, the arguments and how many rows came back, and a call of
  anything else is refused by name, runs nothing and leaves none.\<close>

theorem tools_listed_callable:
  assumes "raw \<noteq> []" and "mj_call j raw = Some (name, args)" and "name \<noteq> []"
  shows "if name \<in> set (tool_defs s)
    then \<exists>l. snd (call_tool j rfc s raw) = [l] \<and> au_tool l = name \<and> au_args l = args \<and> au_project l = sr_tenant s \<and>
      au_actor l = (if sr_actor s = [] then ''anonymous'' else sr_actor s) \<and>
      (case run_named j rfc s name args of
         Inr p \<Rightarrow> au_rows l = rows_of p \<and> au_error l = None | Inl e \<Rightarrow> au_rows l = 0 \<and> au_error l = Some e)
    else call_tool j rfc s raw = (Inl (case map_of tools name of None \<Rightarrow> UnknownTool name | Some m \<Rightarrow> ModuleOff name m), [])"
proof (cases "name \<in> set (tool_defs s)")
  case True
  then obtain m where "map_of tools name = Some m" "tool_active (sr_modules s) m" by (auto simp: listed_active)
  then have "call_tool j rfc s raw = run_tool j rfc s name args" using assms by (simp add: call_tool_def)
  then show ?thesis using True
    by (cases "run_named j rfc s name args")
      (auto simp: run_tool_def audit_call_def split: tool_failure.split)
next
  case False
  then show ?thesis using assms by (auto simp: call_tool_def listed_active split: option.split)
qed

definition bare_server :: mcp_server where
  "bare_server = \<lparr>sr_store = empty_store, sr_modules = {''mcp''}, sr_tenant = ''mine'', sr_tenants = [''mine''],
     sr_topology = new_classifier default_topology, sr_version = ''v'', sr_actor = [], sr_now = 0\<rparr>"

theorem tools_listed_callable_witness:
  "tool_defs bare_server = [''service_context'', ''list_services'', ''search_traces'', ''get_trace''] \<and>
   (\<exists>l. snd (call_tool sample_rpc (\<lambda>_. None) bare_server ''p'') = [l] \<and> au_tool l = ''get_trace'' \<and> au_actor l = ''anonymous'') \<and>
   call_tool (sample_rpc\<lparr>mj_call := (\<lambda>_. Some (''search_logs'', ''{}''))\<rparr>) (\<lambda>_. None) bare_server ''p'' =
     (Inl (ModuleOff ''search_logs'' ''logs''), [])"
proof -
  let ?j = "sample_rpc\<lparr>mj_call := (\<lambda>_. Some (''search_logs'', ''{}''))\<rparr>"
  have d: "tool_defs bare_server = [''service_context'', ''list_services'', ''search_traces'', ''get_trace'']"
    by (simp add: tool_defs_def tools_def tool_active_def bare_server_def)
  have j: "mj_call sample_rpc ''p'' = Some (''get_trace'', ''{}'')" "mj_call ?j ''p'' = Some (''search_logs'', ''{}'')"
    by (simp_all add: sample_rpc_def)
  have a: "sr_actor bare_server = []" by (simp add: bare_server_def)
  show ?thesis
    using tools_listed_callable [of "''p''" sample_rpc, OF _ j(1), of bare_server "\<lambda>_. None"]
      tools_listed_callable [of "''p''" ?j, OF _ j(2), of bare_server "\<lambda>_. None"] d a
    by (auto simp: tools_def)
qed

section \<open>Names\<close>

lemma index_where_Some: "index_where P i xs = Some k \<Longrightarrow> \<exists>m. k = i + m \<and> m < length xs \<and> P (xs ! m) \<and> (\<forall>l<m. \<not> P (xs ! l))"
proof (induction xs arbitrary: i)
  case (Cons x xs)
  show ?case
  proof (cases "P x")
    case True
    then show ?thesis using Cons.prems by (intro exI [of _ 0]) simp
  next
    case False
    then obtain m where "k = i + 1 + m" "m < length xs" "P (xs ! m)" "\<forall>l<m. \<not> P (xs ! l)"
      using Cons.IH [of "i + 1"] Cons.prems by auto
    then show ?thesis using False by (intro exI [of _ "Suc m"]) (auto simp: nth_Cons split: nat.split)
  qed
qed simp

lemma index_where_None: "index_where P i xs = None \<longleftrightarrow> (\<forall>x\<in>set xs. \<not> P x)"
  by (induction xs arbitrary: i) auto

lemma match_name_Some:
  "match_name want cands = Some k \<Longrightarrow> k < length cands \<and> equal_fold (cands ! k) want \<and> (want \<in> set cands \<longrightarrow> cands ! k = want)"
  by (auto simp: match_name_def index_where_None split: option.splits dest!: index_where_Some)

lemma match_name_None: "match_name want cands = None \<longleftrightarrow> (\<forall>c\<in>set cands. \<not> equal_fold c want)"
proof (cases "index_where (\<lambda>c. c = want) 0 cands")
  case None
  show ?thesis unfolding match_name_def None by (simp add: index_where_None)
next
  case (Some i)
  then have "want \<in> set cands" by (auto dest!: index_where_Some)
  then show ?thesis using Some by (auto simp: match_name_def intro!: bexI [of _ want])
qed

lemma nearest_known: "set (nearest want known n) \<subseteq> set known \<and> length (nearest want known n) \<le> n"
  using set_take_subset [of n] by (fastforce simp: nearest_def Let_def)

text \<open>A service is resolved to a name the estate has reported, in its stored spelling: an exact name to itself,
  any other to one that differs in case only; entry spans are preferred, and only a service without
  them is described by its presence. When nothing matches, the answer says so with suggestions that are
  all known names.\<close>

theorem service_resolved:
  assumes "mc_services (sr_store s) (service_query_of s tr) = Some services"
    and "mc_presence (sr_store s) (service_query_of s tr) (presence_signals s) = Some present"
    and "trim_space name \<noteq> []"
  shows "case resolve_service_stats s tr name of
      Inr (r, all1) \<Rightarrow> all1 = services \<and> equal_fold (rv_name r) name \<and>
        (case rv_stats r of
           Some v \<Rightarrow> v \<in> set services \<and> rv_name r = st_name (sv_base v) \<and> (name \<in> (st_name \<circ> sv_base) ` set services \<longrightarrow> rv_name r = name)
         | None \<Rightarrow> (\<forall>v\<in>set services. \<not> equal_fold (st_name (sv_base v)) name) \<and>
             (\<exists>p\<in>set present. rv_presence r = Some p \<and> rv_name r = psn_name p))
    | Inl e \<Rightarrow> (\<forall>v\<in>set services. \<not> equal_fold (st_name (sv_base v)) name) \<and> (\<forall>p\<in>set present. \<not> equal_fold (psn_name p) name) \<and>
        (\<exists>ns. e = Told (UnknownService name (''logs'' \<in> sr_modules s) ns) \<and> length ns \<le> 5 \<and>
           set ns \<subseteq> (st_name \<circ> sv_base) ` set services \<union> psn_name ` set present)"
proof (cases "match_name name (map (\<lambda>v. st_name (sv_base v)) services)")
  case (Some i)
  note m = match_name_Some [OF Some]
  then have "resolve_service_stats s tr name =
      Inr (\<lparr>rv_name = st_name (sv_base (services ! i)), rv_stats = Some (services ! i), rv_presence = None\<rparr>, services)"
    using assms Some by (simp add: resolve_service_stats_def)
  then show ?thesis using m by (auto simp: image_iff)
next
  case None
  note n = None [unfolded match_name_None]
  show ?thesis
  proof (cases "match_name name (map psn_name present)")
    case (Some i)
    note m = match_name_Some [OF Some]
    then have "resolve_service_stats s tr name =
        Inr (\<lparr>rv_name = psn_name (present ! i), rv_stats = None, rv_presence = Some (present ! i)\<rparr>, services)"
      using assms Some None by (simp add: resolve_service_stats_def)
    then show ?thesis using m n by auto
  next
    case none: None
    let ?ns = "nearest name (map (\<lambda>v. st_name (sv_base v)) services @ map psn_name present) 5"
    have "resolve_service_stats s tr name = Inl (Told (UnknownService name (''logs'' \<in> sr_modules s) ?ns))"
      using assms none None by (simp add: resolve_service_stats_def)
    moreover have "set ?ns \<subseteq> (st_name \<circ> sv_base) ` set services \<union> psn_name ` set present" "length ?ns \<le> 5"
      using nearest_known [of name "map (\<lambda>v. st_name (sv_base v)) services @ map psn_name present" 5] by auto
    ultimately show ?thesis using n none [unfolded match_name_None] by simp
  qed
qed

definition one_service :: service_row_stats where
  "one_service = \<lparr>sv_base = \<lparr>st_name = ''checkout'', st_span_count = 10, st_error_count = 1, st_p95 = 0, ms_evidence = False, ms_labels = Map.empty\<rparr>,
     sv_p50 = 0, sv_p99 = 0\<rparr>"

theorem service_resolved_witness:
  "\<exists>r. resolve_service_stats (bare_server\<lparr>sr_store := empty_store\<lparr>mc_services := (\<lambda>_. Some [one_service])\<rparr>\<rparr>) \<lparr>tr_start = 0, tr_end = 1\<rparr> ''Checkout'' =
      Inr (r, [one_service]) \<and> rv_name r = ''checkout''"
proof -
  let ?s = "bare_server\<lparr>sr_store := empty_store\<lparr>mc_services := (\<lambda>_. Some [one_service])\<rparr>\<rparr>"
  have t: "trim_space ''Checkout'' \<noteq> []" by code_simp
  have f: "equal_fold ''checkout'' ''Checkout''" by code_simp
  have a: "mc_services (sr_store ?s) q = Some [one_service]" "mc_presence (sr_store ?s) q g = Some []" for q g
    by (simp_all add: empty_store_def)
  show ?thesis using service_resolved [OF a(1) a(2) t, of "\<lparr>tr_start = 0, tr_end = 1\<rparr>"] f
    by (auto simp: one_service_def split: sum.splits option.splits)
qed

section \<open>Pages\<close>

text \<open>A stable sort refines the order the list came in.\<close>

definition then_by :: "('a \<Rightarrow> 'k::linorder) \<Rightarrow> ('a \<Rightarrow> 'a \<Rightarrow> bool) \<Rightarrow> 'a \<Rightarrow> 'a \<Rightarrow> bool" where
  "then_by f R x y \<longleftrightarrow> f x < f y \<or> f x = f y \<and> R x y"

lemma insort_then_by:
  "sorted_wrt (then_by f R) ys \<Longrightarrow> \<forall>y\<in>set ys. R x y \<Longrightarrow> sorted_wrt (then_by f R) (insort_key f x ys)"
  by (induction ys) (auto simp: then_by_def set_insort_key)

lemma sort_then_by: "sorted_wrt R xs \<Longrightarrow> sorted_wrt (then_by f R) (sort_key f xs)"
  by (induction xs) (simp_all add: insort_then_by)

text \<open>A row that may not stand behind another: a higher error rate, then more traffic, then the earlier name.\<close>

definition at_least_as_bad :: "tool_service_row \<Rightarrow> tool_service_row \<Rightarrow> bool" where
  "at_least_as_bad a b \<longleftrightarrow> sw_error_rate b < sw_error_rate a \<or>
     sw_error_rate a = sw_error_rate b \<and> (sw_rate b < sw_rate a \<or> sw_rate a = sw_rate b \<and> sw_service a \<le> sw_service b)"

lemma worst_first_sorted: "sorted_wrt at_least_as_bad (worst_first rows)"
proof -
  have "sorted_wrt (\<lambda>a b. sw_service a \<le> sw_service b) (sort_key sw_service rows)"
    by (metis sorted_sort_key sorted_map)
  then have "sorted_wrt (then_by (\<lambda>r. - sw_error_rate r) (then_by (\<lambda>r. - sw_rate r) (\<lambda>a b. sw_service a \<le> sw_service b)))
      (worst_first rows)"
    unfolding worst_first_def by (intro sort_then_by)
  then show ?thesis by (rule sorted_wrt_mono_rel [rotated]) (auto simp: then_by_def at_least_as_bad_def)
qed

lemma cut_rows_prefix:
  assumes "cut_rows limit rows = (kept, cut_off)" and "0 < limit"
  shows "\<exists>gone. rows = kept @ gone \<and> int (length kept) \<le> limit \<and> (cut_off \<longleftrightarrow> gone \<noteq> []) \<and> (gone \<noteq> [] \<longrightarrow> int (length kept) = limit)"
proof (cases "limit < int (length rows)")
  case True
  then have "kept = take (nat limit) rows" "cut_off" using assms by (auto simp: cut_rows_def)
  then show ?thesis using True assms(2) by (intro exI [of _ "drop (nat limit) rows"]) auto
next
  case False
  then show ?thesis using assms by (intro exI [of _ "[]"]) (auto simp: cut_rows_def)
qed

lemma clamp_rows_bounds: "0 < d \<Longrightarrow> d \<le> m \<Longrightarrow> 0 < clamp_rows v d m \<and> clamp_rows v d m \<le> m"
  by (simp add: clamp_rows_def)

text \<open>The list of services is a page of the worst ones: at most a hundred rows, every matching service is on the page
  or no worse than each row of it, the rows run from worst to best, the total counts all that matched,
  and the page says it was cut exactly when something was.\<close>

theorem list_services_worst:
  assumes "time_range_of rfc (ls_window a) (sr_now s) = Inr tr"
    and "mc_services (sr_store s) (service_query_of s tr) = Some services"
  shows "\<exists>p gone. run_list_services rfc s (Some a) = Inr p \<and>
    mset (pg_rows p @ gone) = mset (map (to_service_row tr) (filter (\<lambda>v. ls_unhealthy a \<longrightarrow> st_error_count (sv_base v) \<noteq> 0) services)) \<and>
    sorted_wrt at_least_as_bad (pg_rows p) \<and> (\<forall>x\<in>set (pg_rows p). \<forall>y\<in>set gone. at_least_as_bad x y) \<and>
    length (pg_rows p) \<le> 100 \<and> pg_total p = Some (length (pg_rows p) + length gone) \<and> (pg_truncated p \<longleftrightarrow> gone \<noteq> [])"
proof -
  let ?found = "map (to_service_row tr) (filter (\<lambda>v. \<not> (ls_unhealthy a \<and> st_error_count (sv_base v) = 0)) services)"
  obtain kept cut_off where c: "cut_rows (clamp_rows (ls_limit a) default_rows max_rows) (worst_first ?found) = (kept, cut_off)"
    by (cases "cut_rows (clamp_rows (ls_limit a) default_rows max_rows) (worst_first ?found)") blast
  have b: "0 < clamp_rows (ls_limit a) default_rows max_rows" "clamp_rows (ls_limit a) default_rows max_rows \<le> 100"
    using clamp_rows_bounds [of default_rows max_rows] by (auto simp: default_rows_def max_rows_def)
  obtain gone where g: "worst_first ?found = kept @ gone" "int (length kept) \<le> 100" "cut_off \<longleftrightarrow> gone \<noteq> []"
    using cut_rows_prefix [OF c b(1)] b(2) by auto
  have "run_list_services rfc s (Some a) =
      Inr \<lparr>pg_window = Some (to_window_dto tr), pg_rows = kept, pg_total = Some (length (worst_first ?found)), pg_truncated = cut_off\<rparr>"
    using assms c by (simp add: run_list_services_def Let_def)
  moreover have "mset (kept @ gone) = mset ?found" using g(1) by (metis worst_first_def mset_sort)
  moreover have "sorted_wrt at_least_as_bad (kept @ gone)" using worst_first_sorted [of ?found] g(1) by simp
  moreover have "(\<lambda>v. \<not> (ls_unhealthy a \<and> st_error_count (sv_base v) = 0)) = (\<lambda>v. ls_unhealthy a \<longrightarrow> st_error_count (sv_base v) \<noteq> 0)"
    by auto
  ultimately show ?thesis using g by (intro exI [of _ gone] exI conjI) (auto simp: sorted_wrt_append)
qed

theorem list_services_worst_witness:
  "\<exists>p. run_list_services (\<lambda>_. None) (bare_server\<lparr>sr_store := empty_store\<lparr>mc_services := (\<lambda>_. Some [one_service])\<rparr>\<rparr>)
      (Some \<lparr>ls_window = \<lparr>wa_window = [], wa_start = [], wa_end = []\<rparr>, ls_unhealthy = True, ls_limit = 0\<rparr>) = Inr p \<and>
    map sw_service (pg_rows p) = [''checkout''] \<and> \<not> pg_truncated p"
proof -
  let ?s = "bare_server\<lparr>sr_store := empty_store\<lparr>mc_services := (\<lambda>_. Some [one_service])\<rparr>\<rparr>"
  let ?a = "\<lparr>ls_window = \<lparr>wa_window = [], wa_start = [], wa_end = []\<rparr>, ls_unhealthy = True, ls_limit = 0\<rparr>"
  have t: "time_range_of (\<lambda>_. None) (ls_window ?a) (sr_now ?s) = Inr \<lparr>tr_start = - default_window, tr_end = 0\<rparr>"
    by (simp add: time_range_of_def bare_server_def default_window_def minute_def second_def)
  have q: "mc_services (sr_store ?s) (service_query_of ?s tr) = Some [one_service]" for tr by (simp add: empty_store_def)
  obtain p gone where p: "run_list_services (\<lambda>_. None) ?s (Some ?a) = Inr p"
    "mset (pg_rows p @ gone) = mset (map (to_service_row \<lparr>tr_start = - default_window, tr_end = 0\<rparr>) [one_service])"
    using list_services_worst [OF t q] by (auto simp: one_service_def)
  have "run_list_services (\<lambda>_. None) ?s (Some ?a) = Inr \<lparr>pg_window = Some (to_window_dto \<lparr>tr_start = - default_window, tr_end = 0\<rparr>),
      pg_rows = [to_service_row \<lparr>tr_start = - default_window, tr_end = 0\<rparr> one_service], pg_total = Some 1, pg_truncated = False\<rparr>"
    using t q by (simp add: run_list_services_def worst_first_def cut_rows_def clamp_rows_def default_rows_def one_service_def)
  then show ?thesis by (simp add: to_service_row_def one_service_def)
qed

section \<open>The order of a trace\<close>

text \<open>The spans of a trace are ordered by the text of their start, which drops the fraction's trailing zeros: one that
  began half a second later is listed first, and a cut page keeps it instead.\<close>

lemma later_span_first:
  "map pw_span (by_start [\<lparr>pw_span = ''a'', pw_parent = p, pw_service = v, pw_operation = w, pw_kind = k,
      pw_start = format_nano 0, pw_duration = d, pw_status = u, pw_message = m\<rparr>,
     \<lparr>pw_span = ''b'', pw_parent = p, pw_service = v, pw_operation = w, pw_kind = k,
      pw_start = format_nano (500 * millisecond), pw_duration = d, pw_status = u, pw_message = m\<rparr>]) = [''b'', ''a'']"
proof -
  have d: "decimal (Suc 0) = ''1''" "decimal 0 = ''0''" "decimal 500000000 = ''500000000''"
    by (simp_all add: decimal.simps char_of_def bit_0)
  have r: "replicate 3 CHR ''0'' = ''000''" by (simp add: numeral_eq_Suc)
  have "format_nano 0 = ''0001-01-01T00:00:00Z''" "format_nano (500 * millisecond) = ''0001-01-01T00:00:00.5Z''"
    by (simp_all add: format_nano_def format_seconds_def civil_date_def leap_year_def month_days_def padded_def nano_fraction_def
      second_def millisecond_def d r)
  then show ?thesis by (simp add: by_start_def)
qed

end
