(* ===== verification/CpuModel.thy ===== *)
theory CpuModel
  imports GoFloat GoStd
begin

text \<open>
  The power coefficients of a node (sensor/tdp-estimator: coefficients.go, coefficients_table.go): the
  patterns that recognise a processor by its model name, the bundled table and the precedence of the
  four sources. A regular expression of the source is a list of items, matched by backtracking; all of
  them repeat single classes only. Coefficients are \<open>float64\<close>: a decimal literal is rounded. The
  parser of floats is a parameter; a provenance keeps what its text names.
\<close>

section \<open>Patterns\<close>

datatype item =
    Class "char \<Rightarrow> bool"
  | Many "char \<Rightarrow> bool"
  | Some_of "char \<Rightarrow> bool"
  | Maybe "char \<Rightarrow> bool"
  | Word "string list"
  | At_end

definition re_space :: "char \<Rightarrow> bool" where
  "re_space c \<longleftrightarrow> c \<in> {CHR 0x09, CHR 0x0A, CHR 0x0C, CHR 0x0D, CHR '' ''}"

text \<open>Whether a string starts with what the items describe; \<open>At_end\<close> is \<open>$\<close>.\<close>

function starts_like :: "item list \<Rightarrow> string \<Rightarrow> bool" where
  "starts_like [] s = True"
| "starts_like (Class p # is) s = (case s of [] \<Rightarrow> False | c # cs \<Rightarrow> p c \<and> starts_like is cs)"
| "starts_like (Maybe p # is) s =
     (starts_like is s \<or> (case s of [] \<Rightarrow> False | c # cs \<Rightarrow> p c \<and> starts_like is cs))"
| "starts_like (Many p # is) s =
     (starts_like is s \<or> (case s of [] \<Rightarrow> False | c # cs \<Rightarrow> p c \<and> starts_like (Many p # is) cs))"
| "starts_like (Some_of p # is) s = (case s of [] \<Rightarrow> False | c # cs \<Rightarrow> p c \<and> starts_like (Many p # is) cs)"
| "starts_like (Word ws # is) s = list_ex (\<lambda>w. has_prefix w s \<and> starts_like is (drop (length w) s)) ws"
| "starts_like (At_end # is) s = (s = [] \<and> starts_like is s)"
  by pat_completeness auto
termination
  by (relation "measures [length \<circ> fst, length \<circ> snd]") auto

text \<open>\<open>MatchString\<close>: some suffix starts like the pattern.\<close>

fun matches_in :: "item list \<Rightarrow> string \<Rightarrow> bool" where
  "matches_in is s = (starts_like is s \<or> (case s of [] \<Rightarrow> False | c # cs \<Rightarrow> matches_in is cs))"

definition lit :: "string \<Rightarrow> item" where "lit w = Word [w]"
definition spaces :: item where "spaces = Some_of re_space"
definition digits :: "nat \<Rightarrow> item list" where "digits n = replicate n (Class is_digit)"
definition one_of :: "string \<Rightarrow> item" where "one_of cs = Class (\<lambda>c. c \<in> set cs)"

section \<open>The architecture of a processor\<close>

definition xeon :: "item list" where "xeon = [lit ''Xeon(R)'', spaces]"

definition arch_patterns :: "(item list \<times> string) list" where
  "arch_patterns =
     [(xeon @ [Word [''Platinum'', ''Gold''], spaces, lit ''8'', one_of ''0123''] @ digits 2, ''CASCADE_LAKE''),
      (xeon @ [Word [''Platinum'', ''Gold''], spaces, lit ''6'', one_of ''23''] @ digits 2, ''SKYLAKE''),
      (xeon @ [lit ''CPU'', spaces, lit ''E5-2''] @ digits 3 @ [spaces, lit ''v4''], ''BROADWELL''),
      (xeon @ [lit ''CPU'', spaces, lit ''E5-2''] @ digits 3 @ [spaces, lit ''v3''], ''HASWELL''),
      (xeon @ [lit ''CPU'', spaces, lit ''E5-2''] @ digits 3 @ [spaces, lit ''v2''], ''IVY_BRIDGE''),
      (xeon @ [lit ''CPU'', spaces, lit ''E5-2''] @ digits 3 @ [spaces, lit ''0'', spaces, lit ''@''], ''SANDY_BRIDGE''),
      (xeon @ [lit ''Platinum'', spaces, lit ''84''] @ digits 2, ''SAPPHIRE_RAPIDS''),
      (xeon @ [lit ''6''] @ digits 3 @ [Maybe (\<lambda>c. c \<in> {CHR ''N'', CHR ''P''}), Many re_space, At_end], ''ICELAKE''),
      ([lit ''EPYC'', spaces, lit ''9''] @ digits 3, ''AMD_EPYC_4TH_GEN''),
      ([lit ''Graviton2''], ''AWS_GRAVITON_2''),
      ([lit ''Graviton3E''], ''AWS_GRAVITON_3E''),
      ([lit ''Graviton3''], ''AWS_GRAVITON_3''),
      ([lit ''Graviton4''], ''AWS_GRAVITON_4''),
      ([lit ''Apple'', spaces] @ [lit ''M''] @ digits 1, ''APPLE'')]"

text \<open>The number of an EPYC of the first three generations: four digits, the first a 7, of the leftmost match.\<close>

definition sku_at :: "string \<Rightarrow> string option" where
  "sku_at s =
     (if starts_like ([lit ''EPYC'', spaces, lit ''7''] @ digits 3) s
      then Some (take 4 (dropWhile re_space (drop 4 s))) else None)"

fun epyc_sku_number :: "string \<Rightarrow> string option" where
  "epyc_sku_number s =
     (case sku_at s of
        Some n \<Rightarrow> Some n
      | None \<Rightarrow> (case s of [] \<Rightarrow> None | c # cs \<Rightarrow> epyc_sku_number cs))"

declare matches_in.simps [simp del] epyc_sku_number.simps [simp del]

definition epyc_sku_generation :: "(string \<times> string) list" where
  "epyc_sku_generation =
     [(''7551'', ''AMD_EPYC_1ST_GEN''), (''7601'', ''AMD_EPYC_1ST_GEN''), (''7501'', ''AMD_EPYC_1ST_GEN''),
      (''7401'', ''AMD_EPYC_1ST_GEN''), (''7351'', ''AMD_EPYC_1ST_GEN''), (''7301'', ''AMD_EPYC_1ST_GEN''),
      (''7251'', ''AMD_EPYC_1ST_GEN''),
      (''7742'', ''AMD_EPYC_2ND_GEN''), (''7702'', ''AMD_EPYC_2ND_GEN''), (''7552'', ''AMD_EPYC_2ND_GEN''),
      (''7502'', ''AMD_EPYC_2ND_GEN''), (''7452'', ''AMD_EPYC_2ND_GEN''), (''7402'', ''AMD_EPYC_2ND_GEN''),
      (''7302'', ''AMD_EPYC_2ND_GEN''),
      (''7763'', ''AMD_EPYC_3RD_GEN''), (''7713'', ''AMD_EPYC_3RD_GEN''), (''7543'', ''AMD_EPYC_3RD_GEN''),
      (''7513'', ''AMD_EPYC_3RD_GEN''), (''7453'', ''AMD_EPYC_3RD_GEN''), (''7413'', ''AMD_EPYC_3RD_GEN''),
      (''7313'', ''AMD_EPYC_3RD_GEN'')]"

definition matched_pattern :: "string \<Rightarrow> string" where
  "matched_pattern m = (case find (\<lambda>p. matches_in (fst p) m) arch_patterns of None \<Rightarrow> [] | Some p \<Rightarrow> snd p)"

definition match_architecture :: "string \<Rightarrow> string" where
  "match_architecture m =
     (case epyc_sku_number m of
        None \<Rightarrow> matched_pattern m
      | Some n \<Rightarrow> (case map_of epyc_sku_generation n of None \<Rightarrow> matched_pattern m | Some g \<Rightarrow> g))"

section \<open>Coefficients\<close>

datatype curve_source = FromAnnotation | FromValues | FromTable string | FromFallback string

record coefficients =
  co_idle :: float64
  co_max :: float64
  co_tier :: string
  co_from :: curve_source

text \<open>The bundled table: idle and maximal watts, as written.\<close>

definition arch_coefficients :: "(string \<times> rat \<times> rat) list" where
  "arch_coefficients =
     [(''CASCADE_LAKE'', 64/100, 397/100), (''SKYLAKE'', 65/100, 426/100), (''BROADWELL'', 71/100, 369/100),
      (''COFFEE_LAKE'', 114/100, 542/100), (''SANDY_BRIDGE'', 217/100, 858/100),
      (''AMD_EPYC_1ST_GEN'', 82/100, 255/100), (''AMD_EPYC_2ND_GEN'', 47/100, 169/100),
      (''IVY_BRIDGE'', 304/100, 825/100), (''HASWELL'', 1, 474/100), (''AMD_EPYC_3RD_GEN'', 45/100, 202/100),
      (''AMD_EPYC_4TH_GEN'', 74/100, 228/100), (''EMERALD_RAPIDS'', 81/100, 448/100),
      (''GRANITE_RAPIDS'', 58/100, 253/100), (''ICELAKE'', 77/100, 376/100), (''SAPPHIRE_RAPIDS'', 104/100, 416/100),
      (''AWS_GRAVITON_2'', 47/100, 169/100), (''AWS_GRAVITON_3'', 47/100, 169/100),
      (''AWS_GRAVITON_3E'', 47/100, 169/100), (''AWS_GRAVITON_4'', 47/100, 169/100), (''APPLE'', 68/10, 39)]"

definition generic_fallback :: "rat \<times> rat" where "generic_fallback = (74/100, 35/10)"

definition idle_annotation :: string where "idle_annotation = ''obs.avuru.io/power-idle-watts''"
definition max_annotation :: string where "max_annotation = ''obs.avuru.io/power-max-watts''"

text \<open>The annotations of the node, the values of the chart, the bundled table by the model of the processor, the
  fallback. A key the table lacks reads as no watts at all, the zero of a Go map.\<close>

definition annotated :: "(string \<Rightarrow> float64 option) \<Rightarrow> (string \<rightharpoonup> string) option \<Rightarrow> (float64 \<times> float64) option" where
  "annotated parse_float anns =
     (case anns of
        None \<Rightarrow> None
      | Some m \<Rightarrow>
          (case (m idle_annotation, m max_annotation) of
             (Some i, Some x) \<Rightarrow> (case (parse_float i, parse_float x) of (Some i', Some x') \<Rightarrow> Some (i', x') | _ \<Rightarrow> None)
           | _ \<Rightarrow> None))"

definition resolve_coefficients :: "(string \<Rightarrow> float64 option) \<Rightarrow> (string \<rightharpoonup> string) option \<Rightarrow> float64 \<Rightarrow> float64 \<Rightarrow> string \<Rightarrow> coefficients" where
  "resolve_coefficients parse_float anns values_idle values_max cpu_model =
     (case annotated parse_float anns of
        Some (i, x) \<Rightarrow> \<lparr>co_idle = i, co_max = x, co_tier = ''annotation'', co_from = FromAnnotation\<rparr>
      | None \<Rightarrow>
          if 0 < values_idle \<and> 0 < values_max then
            \<lparr>co_idle = values_idle, co_max = values_max, co_tier = ''values'', co_from = FromValues\<rparr>
          else let key = match_architecture cpu_model in
            if key \<noteq> [] then
              (case map_of arch_coefficients key of
                 None \<Rightarrow> \<lparr>co_idle = 0, co_max = 0, co_tier = ''table'', co_from = FromTable key\<rparr>
               | Some (i, x) \<Rightarrow> \<lparr>co_idle = fl i, co_max = fl x, co_tier = ''table'', co_from = FromTable key\<rparr>)
            else \<lparr>co_idle = fl (fst generic_fallback), co_max = fl (snd generic_fallback), co_tier = ''fallback'',
                  co_from = FromFallback cpu_model\<rparr>)"

text \<open>The first line of \<open>/proc/cpuinfo\<close> that names the model and has a colon; none when the file cannot be read.\<close>

fun model_name_of :: "string list \<Rightarrow> string" where
  "model_name_of [] = []"
| "model_name_of (l # ls) =
     (if has_prefix ''model name'' l \<and> CHR '':'' \<in> set l then trim_space (tl (dropWhile (\<lambda>c. c \<noteq> CHR '':'') l))
      else model_name_of ls)"

definition cpu_model_name :: "string option \<Rightarrow> string" where
  "cpu_model_name file = (case file of None \<Rightarrow> [] | Some b \<Rightarrow> model_name_of (split_on (CHR 0x0A) b))"

section \<open>What the table promises\<close>

lemma table_keys: "snd ` set arch_patterns \<union> snd ` set epyc_sku_generation \<subseteq> fst ` set arch_coefficients"
  by (simp add: arch_patterns_def epyc_sku_generation_def arch_coefficients_def)

lemma matched_pattern_listed: "matched_pattern m \<noteq> [] \<Longrightarrow> matched_pattern m \<in> snd ` set arch_patterns"
proof (cases "find (\<lambda>p. matches_in (fst p) m) arch_patterns")
  case (Some p)
  then have "p \<in> set arch_patterns" by (metis find_Some_iff nth_mem)
  then show ?thesis using Some by (simp add: matched_pattern_def)
qed (simp add: matched_pattern_def)

lemma match_architecture_known:
  assumes "match_architecture m \<noteq> []"
  shows "match_architecture m \<in> fst ` set arch_coefficients"
proof -
  have g: "map_of epyc_sku_generation n = Some g \<Longrightarrow> g \<in> snd ` set epyc_sku_generation" for n g
    by (force dest: map_of_SomeD)
  have "match_architecture m \<in> snd ` set arch_patterns \<union> snd ` set epyc_sku_generation"
    using assms matched_pattern_listed [of m] g by (auto simp: match_architecture_def split: option.splits)
  then show ?thesis using table_keys by blast
qed

text \<open>The fallback is the one number for a whole node, however many cores it has.\<close>

lemma fl_quarter: "fl (1/4) = 1/4"
proof -
  have "ilog2 (1/4) = - 2" by (rule ilog2_unique) (simp_all add: power_int_minus)
  then have "(1/4 :: rat) = of_int (2 ^ 52) * 2 powi quantum (1/4)"
    by (simp add: quantum_def power_int_minus)
  then have "fl_pos (1/4) = 1/4" by (rule fl_pos_exact)
  then show ?thesis by (simp add: fl_def)
qed

lemma fl_table: "1/4 \<le> i \<Longrightarrow> i \<le> x \<Longrightarrow> 0 < fl i \<and> fl i \<le> fl x"
  using fl_mono [of "1/4" i] fl_mono [of i x] by (simp add: fl_quarter)

lemma table_bounds: "(k, i, x) \<in> set arch_coefficients \<Longrightarrow> 1/4 \<le> i \<and> i \<le> x"
  by (auto simp: arch_coefficients_def)

text \<open>Without an operator's numbers the power curve of a node still has watts: the bundled table answers for every
  architecture a model name is recognised as, and the fallback for every other, and the curve rises from
  a positive idle power.\<close>

theorem bundled_curve_usable:
  assumes "annotated pf anns = None" and "\<not> (0 < vi \<and> 0 < vx)"
  shows "0 < co_idle (resolve_coefficients pf anns vi vx m) \<and>
    co_idle (resolve_coefficients pf anns vi vx m) \<le> co_max (resolve_coefficients pf anns vi vx m) \<and>
    co_tier (resolve_coefficients pf anns vi vx m) = (if match_architecture m = [] then ''fallback'' else ''table'')"
proof (cases "match_architecture m = []")
  case True
  then show ?thesis using assms fl_table [of "fst generic_fallback" "snd generic_fallback"]
    by (auto simp: resolve_coefficients_def generic_fallback_def)
next
  case False
  then obtain i x where t: "map_of arch_coefficients (match_architecture m) = Some (i, x)"
    using match_architecture_known [OF False] by (metis map_of_eq_None_iff not_None_eq surj_pair)
  then have "1/4 \<le> i \<and> i \<le> x" using table_bounds by (blast dest: map_of_SomeD)
  then show ?thesis using assms False t fl_table [of i x] by (auto simp: resolve_coefficients_def Let_def)
qed

end
