(* ===== verification/Estimator.thy ===== *)
theory Estimator
  imports CpuModel TraceStats "HOL-Library.Word"
begin

text \<open>
  The node's energy estimator (sensor/tdp-estimator): utilisation from /proc/stat (sampler.go), the pods
  of the kubelet (kubelet.go) and their cgroups (cgroup.go), the power model (model.go), the sampler's
  tick (sampler_loop.go) and the registry of counters it serves (metrics.go). Files are their lines, a
  failed read is \<open>None\<close>, and so is an error, which is only logged. What a tick reads is an argument.
\<close>

section \<open>Utilisation\<close>

record cpu_times =
  ct_user :: "64 word"
  ct_nice :: "64 word"
  ct_system :: "64 word"
  ct_idle :: "64 word"
  ct_iowait :: "64 word"
  ct_irq :: "64 word"
  ct_softirq :: "64 word"
  ct_steal :: "64 word"

definition cpu_total :: "cpu_times \<Rightarrow> 64 word" where
  "cpu_total c = ct_user c + ct_nice c + ct_system c + ct_idle c + ct_iowait c + ct_irq c + ct_softirq c + ct_steal c"

definition cpu_idle :: "cpu_times \<Rightarrow> 64 word" where
  "cpu_idle c = ct_idle c + ct_iowait c"

text \<open>\<open>strconv.ParseUint(s, 10, 64)\<close>.\<close>

definition parse_uint64 :: "string \<Rightarrow> 64 word option" where
  "parse_uint64 s =
     (if s = [] then None
      else case digits_value 0 s of None \<Rightarrow> None | Some n \<Rightarrow> if n < 2 ^ 64 then Some (word_of_int n) else None)"

definition cpu_times_of :: "string list \<Rightarrow> cpu_times option" where
  "cpu_times_of ws =
     (case map parse_uint64 (take 8 (tl ws)) of
        [Some a, Some b, Some c, Some d, Some e, Some f, Some g, Some h] \<Rightarrow>
          Some \<lparr>ct_user = a, ct_nice = b, ct_system = c, ct_idle = d, ct_iowait = e, ct_irq = f, ct_softirq = g, ct_steal = h\<rparr>
      | _ \<Rightarrow> None)"

fun scan_cpu_times :: "string list \<Rightarrow> cpu_times option" where
  "scan_cpu_times [] = None"
| "scan_cpu_times (l # ls) =
     (let ws = str_fields l in
      if length ws < 9 \<or> hd ws \<noteq> ''cpu'' then scan_cpu_times ls else cpu_times_of ws)"

definition read_cpu_times :: "string list option \<Rightarrow> cpu_times option" where
  "read_cpu_times file = (case file of None \<Rightarrow> None | Some ls \<Rightarrow> scan_cpu_times ls)"

definition utilization_delta :: "cpu_times \<Rightarrow> cpu_times \<Rightarrow> float64" where
  "utilization_delta prev cur =
     (let total = cpu_total cur - cpu_total prev; idled = cpu_idle cur - cpu_idle prev in
      if total = 0 then 0 else fl (1 - fdiv (float_of_nat (unat idled)) (float_of_nat (unat total))))"

section \<open>Power\<close>

type_synonym watt_sample = "float64 \<times> float64"

definition node_power :: "coefficients \<Rightarrow> float64 \<Rightarrow> float64" where
  "node_power c util = fadd (co_idle c) (fmul util (fl (co_max c - co_idle c)))"

fun integrate_from :: "float64 \<Rightarrow> watt_sample list \<Rightarrow> float64" where
  "integrate_from joules (a # b # rest) =
     integrate_from (fadd joules (fmul (fdiv (fadd (snd b) (snd a)) 2) (fl (fst b - fst a)))) (b # rest)"
| "integrate_from joules _ = joules"

definition integrate_joules :: "watt_sample list \<Rightarrow> float64" where
  "integrate_joules samples = integrate_from 0 samples"

definition pod_share_of_active :: "float64 \<Rightarrow> float64 \<Rightarrow> float64" where
  "pod_share_of_active pod node = (if node \<le> 0 then 0 else fdiv pod node)"

definition pod_dynamic_power :: "float64 \<Rightarrow> float64 \<Rightarrow> float64 \<Rightarrow> float64" where
  "pod_dynamic_power node idled share =
     (let dynamic = fl (node - idled) in fmul (if dynamic < 0 then 0 else dynamic) share)"

section \<open>Pods and cgroups\<close>

type_synonym pod_identity = "string \<times> string"

text \<open>What the kubelet answered: its status and the decoded list of uid, name and namespace.\<close>

record kubelet_answer =
  ka_status :: int
  ka_items :: "(string \<times> pod_identity) list option"

definition fetch_pods :: "kubelet_answer option \<Rightarrow> (string \<rightharpoonup> pod_identity) option" where
  "fetch_pods ans =
     (case ans of
        None \<Rightarrow> None
      | Some a \<Rightarrow> if ka_status a \<noteq> 200 then None else map_option (map_from fst snd) (ka_items a))"

definition is_hex :: "char \<Rightarrow> bool" where
  "is_hex c \<longleftrightarrow> hex_val c \<noteq> None"

text \<open>Both patterns end in a uid of 36 characters, of hexadecimal groups of 8, 4, 4, 4 and 12 set apart by an underscore
  in the one, of hexadecimal digits and dashes in the other.\<close>

definition grouped_uid :: "char \<Rightarrow> string \<Rightarrow> bool" where
  "grouped_uid sep u \<longleftrightarrow>
     length u = 36 \<and> (\<forall>i\<in>set [0..<36]. if i \<in> {8, 13, 18, 23} then u ! i = sep else is_hex (u ! i))"

definition last_36 :: "string \<Rightarrow> string \<times> string" where
  "last_36 p = (take (length p - 36) p, drop (length p - 36) p)"

definition systemd_uid :: "string \<Rightarrow> string option" where
  "systemd_uid path =
     (if \<not> has_suffix ''.slice'' path then None
      else case last_36 (trim_suffix ''.slice'' path) of (before1, u) \<Rightarrow>
        if grouped_uid (CHR ''_'') u \<and>
           (has_suffix ''kubepods-pod'' before1 \<or> has_suffix ''kubepods-burstable-pod'' before1 \<or>
            has_suffix ''kubepods-besteffort-pod'' before1)
        then Some u else None)"

definition cgroupfs_uid :: "string \<Rightarrow> string option" where
  "cgroupfs_uid path =
     (case last_36 path of (before1, u) \<Rightarrow>
        if length u = 36 \<and> list_all (\<lambda>c. is_hex c \<or> c = CHR ''-'') u \<and>
           (has_suffix ''kubepods/pod'' before1 \<or> has_suffix ''kubepods/burstable/pod'' before1 \<or>
            has_suffix ''kubepods/besteffort/pod'' before1)
        then Some u else None)"

definition pod_uid :: "string \<Rightarrow> string option" where
  "pod_uid path =
     (case systemd_uid path of
        Some u \<Rightarrow> Some (map (\<lambda>c. if c = CHR ''_'' then CHR ''-'' else c) u)
      | None \<Rightarrow> cgroupfs_uid path)"

text \<open>An entry of the walk: its path, whether it could be read, is a directory, and has a cpu.stat.\<close>

record walk_entry =
  we_path :: string
  we_read :: bool
  we_dir :: bool
  we_stat :: bool

definition pod_cgroup :: "walk_entry \<Rightarrow> (string \<times> string) option" where
  "pod_cgroup e =
     (if \<not> we_read e \<or> \<not> we_dir e then None
      else case pod_uid (we_path e) of
        None \<Rightarrow> None
      | Some u \<Rightarrow> if we_stat e then Some (u, we_path e) else None)"

definition discover_pod_cgroups :: "walk_entry list option \<Rightarrow> (string \<times> string) list option" where
  "discover_pod_cgroups walk = map_option (List.map_filter pod_cgroup) walk"

fun scan_cpu_usage :: "string list \<Rightarrow> 64 word option" where
  "scan_cpu_usage [] = None"
| "scan_cpu_usage (l # ls) =
     (case str_fields l of
        [k, v] \<Rightarrow> if k = ''usage_usec'' then parse_uint64 v else scan_cpu_usage ls
      | _ \<Rightarrow> scan_cpu_usage ls)"

definition read_cpu_stat_usage :: "string list option \<Rightarrow> 64 word option" where
  "read_cpu_stat_usage file = (case file of None \<Rightarrow> None | Some ls \<Rightarrow> scan_cpu_usage ls)"

section \<open>The registry\<close>

record registry =
  rg_node :: string
  rg_joules :: float64
  rg_pods :: "(pod_identity \<times> float64) list"

definition new_registry :: registry where
  "new_registry = \<lparr>rg_node = [], rg_joules = 0, rg_pods = []\<rparr>"

definition set_node_energy :: "string \<Rightarrow> float64 \<Rightarrow> registry \<Rightarrow> registry" where
  "set_node_energy node j r = r\<lparr>rg_node := node, rg_joules := j\<rparr>"

definition set_pod_energy :: "pod_identity \<Rightarrow> float64 \<Rightarrow> registry \<Rightarrow> registry" where
  "set_pod_energy p j r = r\<lparr>rg_pods := AList.update p j (rg_pods r)\<rparr>"

definition remove_pod :: "pod_identity \<Rightarrow> registry \<Rightarrow> registry" where
  "remove_pod p r = r\<lparr>rg_pods := AList.delete p (rg_pods r)\<rparr>"

text \<open>The lines of /metrics: the type line of a family comes before its samples.\<close>

datatype metric_line = Family string | NodeSample string float64 | PodSample pod_identity float64

definition exposition :: "registry \<Rightarrow> metric_line list" where
  "exposition r =
     (if rg_node r \<noteq> [] then [Family ''kepler_node_cpu_joules_total'', NodeSample (rg_node r) (rg_joules r)] else []) @
     (if rg_pods r \<noteq> [] then [Family ''kepler_pod_cpu_joules_total''] else []) @
     map (\<lambda>p. PodSample (fst p) (snd p)) (sort_key (snd \<circ> fst) (sort_key (fst \<circ> fst) (rg_pods r)))"

section \<open>The sampler\<close>

record sampler =
  sm_cpu :: "cpu_times option"
  sm_watts :: "float64 option"
  sm_joules :: float64
  sm_usage :: "(string \<times> 64 word) list"
  sm_pod_joules :: "(string \<times> float64) list"
  sm_ids :: "(string \<times> pod_identity) list"
  sm_registry :: registry

definition new_sampler :: sampler where
  "new_sampler = \<lparr>sm_cpu = None, sm_watts = None, sm_joules = 0, sm_usage = [], sm_pod_joules = [], sm_ids = [],
     sm_registry = new_registry\<rparr>"

record tick_input =
  ti_stat :: "string list option"
  ti_kubelet :: "kubelet_answer option"
  ti_walk :: "walk_entry list option"
  ti_usage :: "string \<Rightarrow> string list option"

text \<open>One cgroup of a known pod: the time since its last reading is its share of the node's dynamic power.\<close>

definition attribute_pod :: "coefficients \<Rightarrow> float64 \<Rightarrow> float64 \<Rightarrow> float64 \<Rightarrow> (string \<rightharpoonup> pod_identity) \<Rightarrow> (string \<Rightarrow> string list option) \<Rightarrow>
    string \<times> string \<Rightarrow> string list \<times> sampler \<Rightarrow> string list \<times> sampler" where
  "attribute_pod c secs node_w active pods usage_of cg st = (case (cg, st) of ((uid, path), (seen, s)) \<Rightarrow>
     (case pods uid of
        None \<Rightarrow> (seen, s)
      | Some who \<Rightarrow>
          (case read_cpu_stat_usage (usage_of path) of
             None \<Rightarrow> (seen, s)
           | Some usage \<Rightarrow>
               (let delta = (case map_of (sm_usage s) uid of
                      Some prev \<Rightarrow> if prev \<le> usage then float_of_nat (unat (usage - prev)) else 0
                    | None \<Rightarrow> 0);
                    watts = pod_dynamic_power node_w (co_idle c) (pod_share_of_active (fdiv delta 1000000) active);
                    before1 = (case map_of (sm_pod_joules s) uid of None \<Rightarrow> 0 | Some j \<Rightarrow> j);
                    joules = fadd before1 (fmul watts secs)
                in (uid # seen, s\<lparr>sm_usage := AList.update uid usage (sm_usage s), sm_ids := AList.update uid who (sm_ids s),
                       sm_pod_joules := AList.update uid joules (sm_pod_joules s),
                       sm_registry := set_pod_energy who joules (sm_registry s)\<rparr>)))))"

text \<open>A pod whose cgroup was not read in this tick has exited.\<close>

definition retire_pod :: "string \<Rightarrow> sampler \<Rightarrow> sampler" where
  "retire_pod uid s =
     s\<lparr>sm_registry := (case map_of (sm_ids s) uid of None \<Rightarrow> sm_registry s | Some who \<Rightarrow> remove_pod who (sm_registry s)),
       sm_usage := AList.delete uid (sm_usage s), sm_pod_joules := AList.delete uid (sm_pod_joules s),
       sm_ids := AList.delete uid (sm_ids s)\<rparr>"

definition retire_unseen :: "string list \<Rightarrow> sampler \<Rightarrow> sampler" where
  "retire_unseen seen s = fold retire_pod (filter (\<lambda>u. u \<notin> set seen) (map fst (sm_usage s))) s"

text \<open>The node's own counter: the power of this tick and the last one over the interval.\<close>

definition measure_node :: "string \<Rightarrow> float64 \<Rightarrow> float64 \<Rightarrow> sampler \<Rightarrow> sampler" where
  "measure_node node secs node_w s =
     (let prev_w = (case sm_watts s of None \<Rightarrow> node_w | Some w \<Rightarrow> w);
          joules = fadd (sm_joules s) (integrate_joules [(0, prev_w), (secs, node_w)])
      in s\<lparr>sm_joules := joules, sm_watts := Some node_w, sm_registry := set_node_energy node joules (sm_registry s)\<rparr>)"

text \<open>The pods' counters: left as they are when the kubelet or the walk failed.\<close>

definition measure_pods :: "coefficients \<Rightarrow> float64 \<Rightarrow> float64 \<Rightarrow> float64 \<Rightarrow> tick_input \<Rightarrow> sampler \<Rightarrow> sampler" where
  "measure_pods c secs node_w util inp s =
     (case (fetch_pods (ti_kubelet inp), discover_pod_cgroups (ti_walk inp)) of
        (Some pods, Some cgs) \<Rightarrow>
          (case fold (attribute_pod c secs node_w (fmul util secs) pods (ti_usage inp)) cgs ([], s) of
             (seen, s') \<Rightarrow> retire_unseen seen s')
      | _ \<Rightarrow> s)"

definition sampler_tick :: "string \<Rightarrow> duration \<Rightarrow> coefficients \<Rightarrow> tick_input \<Rightarrow> sampler \<Rightarrow> sampler" where
  "sampler_tick node interval c inp s =
     (case read_cpu_times (ti_stat inp) of
        None \<Rightarrow> s
      | Some cur \<Rightarrow>
          (case sm_cpu s of
             None \<Rightarrow> s\<lparr>sm_cpu := Some cur\<rparr>
           | Some prev \<Rightarrow>
               (let util = utilization_delta prev cur; node_w = node_power c util; secs = seconds_of interval
                in (measure_pods c secs node_w util inp (measure_node node secs node_w s))\<lparr>sm_cpu := Some cur\<rparr>)))"

definition run_sampler :: "string \<Rightarrow> duration \<Rightarrow> coefficients \<Rightarrow> tick_input list \<Rightarrow> sampler \<Rightarrow> sampler" where
  "run_sampler node interval c = fold (sampler_tick node interval c)"

text \<open>Whether a node measures its power itself: the estimator then stays dormant. Each match of the glob is paired with
  whether its counter opens.\<close>

definition rapl_present :: "bool list option \<Rightarrow> bool" where
  "rapl_present zones = (case zones of None \<Rightarrow> False | Some opens \<Rightarrow> list_ex id opens)"

definition resolve_kubelet_host :: "string \<Rightarrow> string \<Rightarrow> string" where
  "resolve_kubelet_host host node = (if host \<noteq> [] then host else node)"

end
