(* ===== verification/EstimatorLaws.thy ===== *)
theory EstimatorLaws
  imports Estimator
begin

text \<open>
  What the energy estimator promises: the counters /metrics exports never fall while the kernel's do not, the registry
  exports the pods that were read in the last tick, and a pod is found whichever driver names its cgroup.
\<close>

section \<open>Counters\<close>

text \<open>Between two readings the idle counters gained no more than all of them.\<close>

definition steady :: "cpu_times \<Rightarrow> cpu_times \<Rightarrow> bool" where
  "steady prev cur \<longleftrightarrow> unat (cpu_idle cur - cpu_idle prev) \<le> unat (cpu_total cur - cpu_total prev)"

lemma utilization_range: "steady prev cur \<Longrightarrow> 0 \<le> utilization_delta prev cur \<and> utilization_delta prev cur \<le> 1"
proof (cases "cpu_total cur - cpu_total prev = 0")
  case False
  assume s: "steady prev cur"
  define a b where "a = float_of_nat (unat (cpu_idle cur - cpu_idle prev))" and "b = float_of_nat (unat (cpu_total cur - cpu_total prev))"
  have "0 < unat (cpu_total cur - cpu_total prev)" using False by (simp add: unat_gt_0)
  then have b: "1 \<le> b" unfolding b_def by (rule float_of_nat_ge1)
  have a: "0 \<le> a" "a \<le> b" using s by (simp_all add: a_def b_def steady_def float_of_nat_mono)
  have "a / b \<le> 1" using a b by simp
  then have "0 \<le> fdiv a b" "fdiv a b \<le> 1" using a b fl_le_1 by (simp_all add: fdiv_nonneg) (simp add: fdiv_def)
  then show ?thesis using False fl_nonneg [of "1 - fdiv a b"] fl_le_1 [of "1 - fdiv a b"]
    by (simp add: utilization_delta_def Let_def a_def b_def)
qed (simp add: utilization_delta_def)

definition sane_curve :: "coefficients \<Rightarrow> bool" where
  "sane_curve c \<longleftrightarrow> 0 \<le> co_idle c \<and> co_idle c \<le> co_max c"

lemma node_power_nonneg: "sane_curve c \<Longrightarrow> 0 \<le> u \<Longrightarrow> 0 \<le> node_power c u"
  by (simp add: node_power_def sane_curve_def float_nonneg fl_nonneg)

lemma pod_power_nonneg: "0 \<le> p \<Longrightarrow> 0 \<le> pod_dynamic_power w i (pod_share_of_active p a)"
  by (auto simp: pod_dynamic_power_def pod_share_of_active_def Let_def intro!: float_nonneg fdiv_nonneg)

lemma seconds_nonneg: "0 \<le> d \<Longrightarrow> 0 \<le> seconds_of d"
  by (auto simp: seconds_of_def second_def Let_def minus_div_mult_eq_mod intro!: float_nonneg fdiv_nonneg fl_nonneg)

text \<open>The integral of one interval adds what is not negative to a representable sum.\<close>

lemma interval_nonneg: "0 \<le> a \<Longrightarrow> 0 \<le> b \<Longrightarrow> 0 \<le> t \<Longrightarrow> 0 \<le> integrate_joules [(0, a), (t, b)]"
  by (auto simp: integrate_joules_def intro!: float_nonneg fdiv_nonneg fl_nonneg)

text \<open>The exported counter of the node is the sampler's.\<close>

definition counters_ok :: "sampler \<Rightarrow> bool" where
  "counters_ok s \<longleftrightarrow> rg_joules (sm_registry s) = sm_joules s \<and> fl (sm_joules s) = sm_joules s \<and> (\<forall>w. sm_watts s = Some w \<longrightarrow> 0 \<le> w) \<and>
     (\<forall>u j. map_of (sm_pod_joules s) u = Some j \<longrightarrow> fl j = j)"

text \<open>What attribution and retirement leave of the node's own counter and of the counters of pods.\<close>

definition pods_grow :: "sampler \<Rightarrow> sampler \<Rightarrow> bool" where
  "pods_grow s s' \<longleftrightarrow> rg_node (sm_registry s') = rg_node (sm_registry s) \<and> rg_joules (sm_registry s') = rg_joules (sm_registry s) \<and>
     sm_joules s' = sm_joules s \<and> sm_watts s' = sm_watts s \<and>
     (\<forall>u j. map_of (sm_pod_joules s') u = Some j \<longrightarrow> fl j = j \<and> (\<forall>i. map_of (sm_pod_joules s) u = Some i \<longrightarrow> i \<le> j))"

lemma pods_grow_refl: "counters_ok s \<Longrightarrow> pods_grow s s"
  by (simp add: pods_grow_def counters_ok_def)

lemma attribute_cases:
  obtains "attribute_pod c secs w a pods usage_of (uid, path) (seen, s) = (seen, s)"
      "pods uid = None \<or> read_cpu_stat_usage (usage_of path) = None"
  | who v j where "pods uid = Some who" "read_cpu_stat_usage (usage_of path) = Some v"
      "attribute_pod c secs w a pods usage_of (uid, path) (seen, s) =
        (uid # seen, s\<lparr>sm_usage := AList.update uid v (sm_usage s), sm_ids := AList.update uid who (sm_ids s),
           sm_pod_joules := AList.update uid j (sm_pod_joules s), sm_registry := set_pod_energy who j (sm_registry s)\<rparr>)"
      "\<exists>e. (0 \<le> secs \<longrightarrow> 0 \<le> e) \<and> j = fadd (case map_of (sm_pod_joules s) uid of None \<Rightarrow> 0 | Some i \<Rightarrow> i) e"
proof (cases "pods uid")
  case (Some who)
  show thesis
  proof (cases "read_cpu_stat_usage (usage_of path)")
    case (Some v)
    define d where "d = (case map_of (sm_usage s) uid of Some prev \<Rightarrow> if prev \<le> v then float_of_nat (unat (v - prev)) else 0 | None \<Rightarrow> 0)"
    define e where "e = fmul (pod_dynamic_power w (co_idle c) (pod_share_of_active (fdiv d 1000000) a)) secs"
    have "0 \<le> d" by (simp add: d_def split: option.split)
    then have "0 \<le> secs \<longrightarrow> 0 \<le> e" by (auto simp: e_def intro!: float_nonneg pod_power_nonneg fdiv_nonneg)
    then show thesis using that(2) [OF \<open>pods uid = Some who\<close> Some] Some \<open>pods uid = Some who\<close>
      by (auto simp: attribute_pod_def Let_def d_def e_def)
  qed (use Some that(1) in \<open>auto simp: attribute_pod_def\<close>)
qed (use that(1) in \<open>auto simp: attribute_pod_def\<close>)

lemma attribute_grows:
  assumes "0 \<le> secs" and "pods_grow s0 s" and "attribute_pod c secs w a pods usage_of cg (seen, s) = (seen', s')"
    and ok: "\<forall>u j. map_of (sm_pod_joules s0) u = Some j \<longrightarrow> u \<in> dom (map_of (sm_pod_joules s))"
  shows "pods_grow s0 s' \<and> dom (map_of (sm_pod_joules s)) \<subseteq> dom (map_of (sm_pod_joules s'))"
proof -
  obtain uid path where cg: "cg = (uid, path)" by (cases cg)
  show ?thesis
  proof (cases rule: attribute_cases [of c secs w a pods usage_of uid path seen s])
    case 1
    then show ?thesis using assms cg by simp
  next
    case (2 who v j)
    then obtain e where e: "0 \<le> e" "j = fadd (case map_of (sm_pod_joules s) uid of None \<Rightarrow> 0 | Some i \<Rightarrow> i) e"
      using assms(1) by blast
    have s': "s' = s\<lparr>sm_usage := AList.update uid v (sm_usage s), sm_ids := AList.update uid who (sm_ids s),
           sm_pod_joules := AList.update uid j (sm_pod_joules s), sm_registry := set_pod_energy who j (sm_registry s)\<rparr>"
      using 2(3) assms(3) cg by simp
    have g: "i \<le> k" "fl k = k" if "map_of (sm_pod_joules s) u = Some k" "map_of (sm_pod_joules s0) u = Some i" for u i k
      using assms(2) that by (auto simp: pods_grow_def)
    have "i \<le> j" if i: "map_of (sm_pod_joules s0) uid = Some i" for i
    proof -
      obtain k where k: "map_of (sm_pod_joules s) uid = Some k" using ok i by blast
      then have "i \<le> k" "fl k = k" using g i by blast+
      then show ?thesis using e fadd_grows [of k e] k by simp
    qed
    moreover have "fl j = j" using e(2) by (simp add: fadd_def)
    ultimately show ?thesis using assms(2) unfolding s' by (auto simp: pods_grow_def set_pod_energy_def update_conv' split: if_splits)
  qed
qed

lemma fold_attribute_grows:
  assumes "0 \<le> secs" and "fold (attribute_pod c secs w a pods usage_of) cgs (seen, s) = (seen', s')"
    and "pods_grow s0 s" and "dom (map_of (sm_pod_joules s0)) \<subseteq> dom (map_of (sm_pod_joules s))"
  shows "pods_grow s0 s'"
  using assms(2-)
proof (induction cgs arbitrary: seen s)
  case (Cons cg cgs)
  obtain seen1 s1 where 1: "attribute_pod c secs w a pods usage_of cg (seen, s) = (seen1, s1)" by fastforce
  have "pods_grow s0 s1 \<and> dom (map_of (sm_pod_joules s)) \<subseteq> dom (map_of (sm_pod_joules s1))"
    by (rule attribute_grows [OF assms(1) Cons.prems(2) 1]) (use Cons.prems(3) in auto)
  then show ?case using Cons.IH [of seen1 s1] Cons.prems 1 by auto
qed simp

lemma retire_pods_grow: "pods_grow s0 s \<Longrightarrow> pods_grow s0 (retire_pod u s)"
  by (auto simp: pods_grow_def retire_pod_def remove_pod_def delete_conv' split: if_splits option.splits)

lemma retire_unseen_grow: "pods_grow s0 s \<Longrightarrow> pods_grow s0 (retire_unseen seen s)"
proof -
  have "pods_grow s0 s \<Longrightarrow> pods_grow s0 (fold retire_pod us s)" for us
    by (induction us arbitrary: s) (simp_all add: retire_pods_grow)
  then show "pods_grow s0 s \<Longrightarrow> pods_grow s0 (retire_unseen seen s)" by (simp add: retire_unseen_def)
qed

lemma measure_pods_grow:
  assumes "0 \<le> secs" and "pods_grow s s"
  shows "pods_grow s (measure_pods c secs w util inp s)"
proof (cases "(fetch_pods (ti_kubelet inp), discover_pod_cgroups (ti_walk inp))")
  case (Pair p q)
  show ?thesis
  proof (cases "p = None \<or> q = None")
    case False
    then obtain pods cgs where "p = Some pods" "q = Some cgs" by auto
    moreover obtain seen s' where f: "fold (attribute_pod c secs w (fmul util secs) pods (ti_usage inp)) cgs ([], s) = (seen, s')" by fastforce
    moreover have "pods_grow s s'" by (rule fold_attribute_grows [OF assms(1) f assms(2) order_refl])
    ultimately show ?thesis using Pair by (simp add: measure_pods_def retire_unseen_grow)
  qed (use Pair assms(2) in \<open>auto simp: measure_pods_def split: option.split\<close>)
qed

text \<open>The readings a tick sees: the one before it and its own.\<close>

definition steady_tick :: "tick_input \<Rightarrow> sampler \<Rightarrow> bool" where
  "steady_tick inp s \<longleftrightarrow> (\<forall>prev cur. sm_cpu s = Some prev \<longrightarrow> read_cpu_times (ti_stat inp) = Some cur \<longrightarrow> steady prev cur)"

lemma tick_counters:
  assumes "sane_curve c" and "0 \<le> d" and "counters_ok s" and "steady_tick inp s"
  shows "counters_ok (sampler_tick node d c inp s) \<and> sm_joules s \<le> sm_joules (sampler_tick node d c inp s) \<and>
    rg_node (sm_registry (sampler_tick node d c inp s)) =
      (if sm_cpu s \<noteq> None \<and> read_cpu_times (ti_stat inp) \<noteq> None then node else rg_node (sm_registry s)) \<and>
    (\<forall>u i j. map_of (sm_pod_joules s) u = Some i \<longrightarrow> map_of (sm_pod_joules (sampler_tick node d c inp s)) u = Some j \<longrightarrow> i \<le> j)"
proof (cases "read_cpu_times (ti_stat inp)")
  case None
  then show ?thesis using assms(3) by (simp add: sampler_tick_def)
next
  case cur: (Some cur)
  show ?thesis
  proof (cases "sm_cpu s")
    case None
    then show ?thesis using assms(3) cur by (simp add: sampler_tick_def counters_ok_def)
  next
    case prev: (Some prev)
    define util w secs where "util = utilization_delta prev cur" and "w = node_power c util" and "secs = seconds_of d"
    define s1 where "s1 = measure_node node secs w s"
    define s2 where "s2 = measure_pods c secs w util inp s1"
    have t: "sampler_tick node d c inp s = s2\<lparr>sm_cpu := Some cur\<rparr>"
      using cur prev by (simp add: sampler_tick_def Let_def util_def w_def secs_def s1_def s2_def)
    have "steady prev cur" using assms(4) cur prev by (simp add: steady_tick_def)
    then have w: "0 \<le> w" using utilization_range node_power_nonneg [OF assms(1)] by (simp add: w_def util_def)
    have secs: "0 \<le> secs" using seconds_nonneg [OF assms(2)] by (simp add: secs_def)
    have "0 \<le> (case sm_watts s of None \<Rightarrow> w | Some v \<Rightarrow> v)" using w assms(3) by (auto simp: counters_ok_def split: option.split)
    then have "0 \<le> integrate_joules [(0, case sm_watts s of None \<Rightarrow> w | Some v \<Rightarrow> v), (secs, w)]"
      using w secs by (intro interval_nonneg)
    then have j: "sm_joules s \<le> sm_joules s1" using assms(3) fadd_grows by (simp add: s1_def measure_node_def counters_ok_def Let_def)
    have p: "sm_pod_joules s1 = sm_pod_joules s" by (simp add: s1_def measure_node_def Let_def)
    have 1: "counters_ok s1" "rg_node (sm_registry s1) = node"
      using assms(3) w by (simp_all add: counters_ok_def s1_def measure_node_def set_node_energy_def Let_def fadd_def)
    have g: "pods_grow s1 s2" unfolding s2_def by (rule measure_pods_grow [OF secs pods_grow_refl [OF 1(1)]])
    then have "counters_ok s2" using 1 by (auto simp: counters_ok_def pods_grow_def)
    moreover have "sm_joules s2 = sm_joules s1" using g by (simp add: pods_grow_def)
    ultimately show ?thesis using g j p 1(2) cur prev unfolding t by (auto simp: counters_ok_def pods_grow_def)
  qed
qed

text \<open>A run all of whose readings are steady.\<close>

fun steady_run :: "string \<Rightarrow> duration \<Rightarrow> coefficients \<Rightarrow> tick_input list \<Rightarrow> sampler \<Rightarrow> bool" where
  "steady_run node d c [] s = True"
| "steady_run node d c (i # rest) s = (steady_tick i s \<and> steady_run node d c rest (sampler_tick node d c i s))"

lemma run_counters:
  assumes "sane_curve c" and "0 \<le> d" and "counters_ok s" and "steady_run node d c inputs s"
  shows "counters_ok (run_sampler node d c inputs s) \<and> sm_joules s \<le> sm_joules (run_sampler node d c inputs s) \<and>
    rg_node (sm_registry (run_sampler node d c inputs s)) \<in> {rg_node (sm_registry s), node}"
  using assms(3,4)
proof (induction inputs arbitrary: s)
  case (Cons i rest)
  have t: "counters_ok (sampler_tick node d c i s)" "sm_joules s \<le> sm_joules (sampler_tick node d c i s)"
    "rg_node (sm_registry (sampler_tick node d c i s)) \<in> {rg_node (sm_registry s), node}"
    using tick_counters [OF assms(1,2), of s i node] Cons.prems by (auto split: if_splits)
  have "steady_run node d c rest (sampler_tick node d c i s)" using Cons.prems(2) by simp
  from Cons.IH [OF t(1) this] t(2,3) show ?case by (auto simp: run_sampler_def)
qed (simp add: run_sampler_def)

lemma run_append: "run_sampler node d c (xs @ ys) s = run_sampler node d c ys (run_sampler node d c xs s)"
  by (simp add: run_sampler_def)

lemma steady_append:
  "steady_run node d c (xs @ ys) s \<longleftrightarrow> steady_run node d c xs s \<and> steady_run node d c ys (run_sampler node d c xs s)"
  by (induction xs arbitrary: s) (simp_all add: run_sampler_def)

lemma new_counters: "counters_ok new_sampler"
  by (simp add: counters_ok_def new_sampler_def new_registry_def)

text \<open>Reading a line of single spaces.\<close>

lemma space_at_ascii: "c \<in> set ''cpu0357'' \<Longrightarrow> space_at (c # cs) = 0"
  by (auto simp: space_at_zero space_encodings_def has_prefix_def char_of_def)

lemma space_at_blank: "space_at (CHR '' '' # cs) = 1"
  by (simp add: space_at_def space_encodings_def has_prefix_def char_of_def)

lemma fields_ascii:
  "c \<in> set ''cpu0357'' \<Longrightarrow> str_fields_from w (c # cs) = str_fields_from (w @ [c]) cs"
  "str_fields_from w (CHR '' '' # cs) = (if w = [] then [] else [w]) @ str_fields_from [] cs"
  "str_fields_from w [] = (if w = [] then [] else [w])"
  by (simp_all add: str_fields_from.simps [of w] space_at_ascii space_at_blank)

definition flat_curve :: coefficients where
  "flat_curve = \<lparr>co_idle = 1, co_max = 5, co_tier = ''values'', co_from = FromValues\<rparr>"

section \<open>Live pods\<close>

text \<open>What the sampler tracks of its pods, for the naming \<open>f\<close> of pods by their uids: the three tables have the same keys,
  the names are those of \<open>f\<close>, and an exported counter is that of a tracked pod of its name.\<close>

definition tracks :: "(string \<Rightarrow> pod_identity) \<Rightarrow> sampler \<Rightarrow> bool" where
  "tracks f s \<longleftrightarrow> distinct (map fst (sm_usage s)) \<and> dom (map_of (sm_ids s)) = dom (map_of (sm_usage s)) \<and> dom (map_of (sm_pod_joules s)) = dom (map_of (sm_usage s)) \<and>
     (\<forall>u i. map_of (sm_ids s) u = Some i \<longrightarrow> i = f u) \<and> distinct (map fst (rg_pods (sm_registry s))) \<and>
     (\<forall>p j. map_of (rg_pods (sm_registry s)) p = Some j \<longrightarrow> (\<exists>u. f u = p \<and> map_of (sm_pod_joules s) u = Some j))"

definition tracked :: "sampler \<Rightarrow> string set" where
  "tracked s = dom (map_of (sm_usage s))"

definition exported :: "sampler \<Rightarrow> pod_identity set" where
  "exported s = dom (map_of (rg_pods (sm_registry s)))"

lemma tracks_id: "tracks f s \<Longrightarrow> map_of (sm_ids s) u = Some i \<Longrightarrow> i = f u"
  unfolding tracks_def by blast

lemma tracks_entry: "tracks f s \<Longrightarrow> map_of (rg_pods (sm_registry s)) p = Some j \<Longrightarrow> \<exists>u. f u = p \<and> map_of (sm_pod_joules s) u = Some j"
  unfolding tracks_def by blast

lemma tracks_exported:
  assumes "tracks f s"
  shows "exported s \<subseteq> f ` tracked s"
proof
  fix p
  assume "p \<in> exported s"
  then obtain j where "map_of (rg_pods (sm_registry s)) p = Some j" by (auto simp: exported_def)
  then obtain u where u: "f u = p" "map_of (sm_pod_joules s) u = Some j" using tracks_entry [OF assms] by blast
  then have "u \<in> dom (map_of (sm_pod_joules s))" by blast
  then have "u \<in> tracked s" using assms by (simp add: tracks_def tracked_def)
  then show "p \<in> f ` tracked s" using u(1) by blast
qed

text \<open>The pods a tick reads: known to the kubelet, with a cgroup whose usage can be read.\<close>

definition read_now :: "(string \<rightharpoonup> pod_identity) \<Rightarrow> (string \<Rightarrow> string list option) \<Rightarrow> (string \<times> string) list \<Rightarrow> string set" where
  "read_now pods usage_of cgs = {u. \<exists>path. (u, path) \<in> set cgs \<and> pods u \<noteq> None \<and> read_cpu_stat_usage (usage_of path) \<noteq> None}"

lemma attribute_tracks:
  assumes "tracks f s" and "\<forall>u i. pods u = Some i \<longrightarrow> i = f u"
    and "attribute_pod c secs w a pods usage_of cg (seen, s) = (seen', s')"
  shows "tracks f s' \<and> set seen' = set seen \<union> read_now pods usage_of [cg] \<and>
    tracked s' = tracked s \<union> read_now pods usage_of [cg] \<and> exported s' = exported s \<union> f ` read_now pods usage_of [cg]"
proof -
  obtain uid path where cg: "cg = (uid, path)" by (cases cg)
  show ?thesis
  proof (cases rule: attribute_cases [of c secs w a pods usage_of uid path seen s])
    case 1
    then have "read_now pods usage_of [cg] = {}" by (auto simp: read_now_def cg)
    then show ?thesis using 1 assms cg by simp
  next
    case (2 who v j)
    have r: "read_now pods usage_of [cg] = {uid}" using 2(1,2) by (auto simp: read_now_def cg)
    have who: "who = f uid" using assms(2) 2(1) by blast
    have s': "s' = s\<lparr>sm_usage := AList.update uid v (sm_usage s), sm_ids := AList.update uid who (sm_ids s),
           sm_pod_joules := AList.update uid j (sm_pod_joules s), sm_registry := set_pod_energy who j (sm_registry s)\<rparr>"
      "seen' = uid # seen" using 2(3) assms(3) cg by simp_all
    have "\<exists>u. f u = p \<and> ((map_of (sm_pod_joules s))(uid \<mapsto> j)) u = Some k"
      if k: "((map_of (rg_pods (sm_registry s)))(f uid \<mapsto> j)) p = Some k" for p k
    proof (cases "p = f uid")
      case False
      then have "map_of (rg_pods (sm_registry s)) p = Some k" using k by simp
      then obtain u where "f u = p" "map_of (sm_pod_joules s) u = Some k" using tracks_entry [OF assms(1)] by blast
      then show ?thesis using False by (intro exI [of _ u]) auto
    qed (use k in auto)
    then have "tracks f s'" using assms(1) unfolding tracks_def s' who by (auto simp: update_conv' set_pod_energy_def distinct_update split: if_splits)
    then show ?thesis using r s' who by (auto simp: tracked_def exported_def update_conv' set_pod_energy_def)
  qed
qed

lemma fold_attribute_tracks:
  assumes "tracks f s" and "\<forall>u i. pods u = Some i \<longrightarrow> i = f u"
    and "fold (attribute_pod c secs w a pods usage_of) cgs (seen, s) = (seen', s')"
  shows "tracks f s' \<and> set seen' = set seen \<union> read_now pods usage_of cgs \<and>
    tracked s' = tracked s \<union> read_now pods usage_of cgs \<and> exported s' = exported s \<union> f ` read_now pods usage_of cgs"
  using assms(1,3)
proof (induction cgs arbitrary: seen s)
  case Nil
  then show ?case by (simp add: read_now_def)
next
  case (Cons cg cgs)
  obtain seen1 s1 where 1: "attribute_pod c secs w a pods usage_of cg (seen, s) = (seen1, s1)" by fastforce
  note a = attribute_tracks [OF Cons.prems(1) assms(2) 1]
  then have "fold (attribute_pod c secs w a pods usage_of) cgs (seen1, s1) = (seen', s')" using Cons.prems(2) 1 by simp
  note b = Cons.IH [OF conjunct1 [OF a] this]
  have "read_now pods usage_of (cg # cgs) = read_now pods usage_of [cg] \<union> read_now pods usage_of cgs" by (auto simp: read_now_def)
  then show ?case using a b by (simp add: image_Un Un_assoc)
qed

lemma retire_tracks:
  assumes "tracks f s" and "u \<in> tracked s"
  shows "tracks f (retire_pod u s) \<and> tracked (retire_pod u s) = tracked s - {u} \<and> exported (retire_pod u s) = exported s - {f u}"
proof -
  have "u \<in> dom (map_of (sm_ids s))" using assms by (simp add: tracks_def tracked_def)
  then have u: "map_of (sm_ids s) u = Some (f u)" using tracks_id [OF assms(1)] by blast
  have "\<exists>v. f v = p \<and> ((map_of (sm_pod_joules s))(u := None)) v = Some k"
    if k: "((map_of (rg_pods (sm_registry s)))(f u := None)) p = Some k" for p k
  proof -
    have "p \<noteq> f u" "map_of (rg_pods (sm_registry s)) p = Some k" using k by (auto split: if_splits)
    then obtain v where "f v = p" "map_of (sm_pod_joules s) v = Some k" using tracks_entry [OF assms(1)] by blast
    then show ?thesis using \<open>p \<noteq> f u\<close> by (intro exI [of _ v]) auto
  qed
  note entry = this
  define s' where "s' = retire_pod u s"
  have m: "map_of (sm_ids s') = (map_of (sm_ids s))(u := None)" "map_of (sm_usage s') = (map_of (sm_usage s))(u := None)"
    "map_of (sm_pod_joules s') = (map_of (sm_pod_joules s))(u := None)"
    "map_of (rg_pods (sm_registry s')) = (map_of (rg_pods (sm_registry s)))(f u := None)"
    using u by (simp_all add: s'_def retire_pod_def remove_pod_def delete_conv')
  have d: "dom (map_of (sm_ids s)) = dom (map_of (sm_usage s))" "dom (map_of (sm_pod_joules s)) = dom (map_of (sm_usage s))"
    using assms(1) by (simp_all add: tracks_def)
  have "\<forall>v i. map_of (sm_ids s') v = Some i \<longrightarrow> i = f v" using tracks_id [OF assms(1)] unfolding m by (metis fun_upd_apply option.distinct(1))
  moreover have "\<forall>p j. map_of (rg_pods (sm_registry s')) p = Some j \<longrightarrow> (\<exists>v. f v = p \<and> map_of (sm_pod_joules s') v = Some j)"
    using entry unfolding m by blast
  moreover have "distinct (map fst (sm_usage s'))" "distinct (map fst (rg_pods (sm_registry s')))"
    using assms(1) u by (simp_all add: s'_def retire_pod_def remove_pod_def tracks_def distinct_delete)
  ultimately have "tracks f s'" using d by (simp add: tracks_def m)
  moreover have "tracked s' = tracked s - {u}" "exported s' = exported s - {f u}" by (simp_all add: tracked_def exported_def m)
  ultimately show ?thesis by (simp add: s'_def)
qed

lemma fold_retire_tracks:
  "tracks f s \<Longrightarrow> set us \<subseteq> tracked s \<Longrightarrow> distinct us \<Longrightarrow>
   tracks f (fold retire_pod us s) \<and> tracked (fold retire_pod us s) = tracked s - set us \<and>
   exported (fold retire_pod us s) = exported s - f ` set us"
proof (induction us arbitrary: s)
  case (Cons u us)
  have "u \<in> tracked s" using Cons.prems(2) by simp
  note r = retire_tracks [OF Cons.prems(1) this]
  moreover have "set us \<subseteq> tracked (retire_pod u s)" using r Cons.prems(2,3) by auto
  moreover have "distinct us" using Cons.prems(3) by simp
  ultimately have "tracks f (fold retire_pod us (retire_pod u s)) \<and>
      tracked (fold retire_pod us (retire_pod u s)) = tracked (retire_pod u s) - set us \<and>
      exported (fold retire_pod us (retire_pod u s)) = exported (retire_pod u s) - f ` set us"
    using Cons.IH [of "retire_pod u s"] by blast
  then show ?case using r by (auto simp: fold_Cons)
qed simp

lemma retire_unseen_tracks:
  assumes "tracks f s"
  shows "tracks f (retire_unseen seen s) \<and> tracked (retire_unseen seen s) = tracked s \<inter> set seen \<and>
    exported (retire_unseen seen s) = exported s - f ` (tracked s - set seen)"
proof -
  let ?us = "filter (\<lambda>u. u \<notin> set seen) (map fst (sm_usage s))"
  have us: "set ?us = tracked s - set seen" by (auto simp: tracked_def dom_map_of_conv_image_fst)
  have "distinct ?us" using assms by (simp add: tracks_def)
  then have "tracks f (fold retire_pod ?us s) \<and> tracked (fold retire_pod ?us s) = tracked s - set ?us \<and>
      exported (fold retire_pod ?us s) = exported s - f ` set ?us"
    using fold_retire_tracks [OF assms] us by auto
  then show ?thesis unfolding retire_unseen_def us by auto
qed

lemma measured_fields:
  "tracks f s \<Longrightarrow> tracks f (measure_node node secs w s)" "tracked (measure_node node secs w s) = tracked s"
  "exported (measure_node node secs w s) = exported s"
  by (simp_all add: tracks_def tracked_def exported_def measure_node_def set_node_energy_def Let_def)

lemma measure_pods_tracks:
  assumes "tracks f s" and "\<forall>pods. fetch_pods (ti_kubelet inp) = Some pods \<longrightarrow> (\<forall>u i. pods u = Some i \<longrightarrow> i = f u)"
  shows "tracks f (measure_pods c secs w util inp s)"
    and "fetch_pods (ti_kubelet inp) = Some pods \<Longrightarrow> discover_pod_cgroups (ti_walk inp) = Some cgs \<Longrightarrow>
      tracked (measure_pods c secs w util inp s) = read_now pods (ti_usage inp) cgs \<and>
      exported (measure_pods c secs w util inp s) =
        f ` read_now pods (ti_usage inp) cgs - f ` (tracked s - read_now pods (ti_usage inp) cgs)"
proof -
  have done1: "tracks f (measure_pods c secs w util inp s) \<and>
      tracked (measure_pods c secs w util inp s) = read_now pods (ti_usage inp) cgs \<and>
      exported (measure_pods c secs w util inp s) =
        f ` read_now pods (ti_usage inp) cgs - f ` (tracked s - read_now pods (ti_usage inp) cgs)"
    if p: "fetch_pods (ti_kubelet inp) = Some pods" and g: "discover_pod_cgroups (ti_walk inp) = Some cgs" for pods cgs
  proof -
    let ?live = "read_now pods (ti_usage inp) cgs"
    obtain seen s' where f: "fold (attribute_pod c secs w (fmul util secs) pods (ti_usage inp)) cgs ([], s) = (seen, s')" by fastforce
    have "\<forall>u i. pods u = Some i \<longrightarrow> i = f u" using assms(2) p by blast
    note a = fold_attribute_tracks [OF assms(1) this f]
    then have t: "tracks f s'" and seen: "set seen = ?live" and tr: "tracked s' = tracked s \<union> ?live"
      and ex: "exported s' = exported s \<union> f ` ?live" by simp_all
    have m: "measure_pods c secs w util inp s = retire_unseen seen s'" using p g f by (simp add: measure_pods_def)
    note r = retire_unseen_tracks [OF t, of seen]
    have "exported s \<subseteq> f ` tracked s" by (rule tracks_exported [OF assms(1)])
    then have "exported s' - f ` (tracked s' - ?live) = f ` ?live - f ` (tracked s - ?live)" unfolding ex tr by auto
    moreover have "tracked s' \<inter> ?live = ?live" using tr by blast
    ultimately show ?thesis using r unfolding m seen by simp
  qed
  show "fetch_pods (ti_kubelet inp) = Some pods \<Longrightarrow> discover_pod_cgroups (ti_walk inp) = Some cgs \<Longrightarrow>
      tracked (measure_pods c secs w util inp s) = read_now pods (ti_usage inp) cgs \<and>
      exported (measure_pods c secs w util inp s) =
        f ` read_now pods (ti_usage inp) cgs - f ` (tracked s - read_now pods (ti_usage inp) cgs)"
    using done1 by blast
  show "tracks f (measure_pods c secs w util inp s)"
  proof (cases "fetch_pods (ti_kubelet inp) = None \<or> discover_pod_cgroups (ti_walk inp) = None")
    case True
    then show ?thesis using assms(1) by (auto simp: measure_pods_def split: option.split)
  next
    case False
    then obtain pods cgs where "fetch_pods (ti_kubelet inp) = Some pods" "discover_pod_cgroups (ti_walk inp) = Some cgs" by auto
    then show ?thesis using done1 by simp
  qed
qed

lemma sm_cpu_fields: "tracks f (s\<lparr>sm_cpu := x\<rparr>) = tracks f s" "tracked (s\<lparr>sm_cpu := x\<rparr>) = tracked s" "exported (s\<lparr>sm_cpu := x\<rparr>) = exported s"
  by (simp_all add: tracks_def tracked_def exported_def)

text \<open>The kubelet gives a uid one name.\<close>

definition names_pods :: "(string \<Rightarrow> pod_identity) \<Rightarrow> tick_input \<Rightarrow> bool" where
  "names_pods f inp \<longleftrightarrow> (\<forall>pods. fetch_pods (ti_kubelet inp) = Some pods \<longrightarrow> (\<forall>u i. pods u = Some i \<longrightarrow> i = f u))"

lemma tick_tracks: "tracks f s \<Longrightarrow> names_pods f inp \<Longrightarrow> tracks f (sampler_tick node d c inp s)"
  by (auto simp: sampler_tick_def Let_def sm_cpu_fields names_pods_def intro!: measure_pods_tracks(1) measured_fields(1) split: option.split)

lemma run_tracks: "tracks f s \<Longrightarrow> \<forall>i\<in>set inputs. names_pods f i \<Longrightarrow> tracks f (run_sampler node d c inputs s)"
  by (induction inputs arbitrary: s) (simp_all add: run_sampler_def tick_tracks)

lemma new_tracks: "tracks f new_sampler"
  by (simp add: tracks_def new_sampler_def new_registry_def)

lemma tick_complete:
  assumes "tracks f s" and "names_pods f inp" and "sm_cpu s \<noteq> None" and "read_cpu_times (ti_stat inp) \<noteq> None"
    and "fetch_pods (ti_kubelet inp) = Some pods" and "discover_pod_cgroups (ti_walk inp) = Some cgs"
  shows "tracked (sampler_tick node d c inp s) = read_now pods (ti_usage inp) cgs \<and>
    exported (sampler_tick node d c inp s) =
      f ` read_now pods (ti_usage inp) cgs - f ` (tracked s - read_now pods (ti_usage inp) cgs)"
proof -
  obtain prev cur where pc: "sm_cpu s = Some prev" "read_cpu_times (ti_stat inp) = Some cur" using assms(3,4) by blast
  define u w secs where "u = utilization_delta prev cur" and "w = node_power c u" and "secs = seconds_of d"
  have t: "sampler_tick node d c inp s = (measure_pods c secs w u inp (measure_node node secs w s))\<lparr>sm_cpu := Some cur\<rparr>"
    using pc by (simp add: sampler_tick_def Let_def w_def u_def secs_def)
  have i: "\<forall>pods. fetch_pods (ti_kubelet inp) = Some pods \<longrightarrow> (\<forall>u i. pods u = Some i \<longrightarrow> i = f u)"
    using assms(2) by (simp add: names_pods_def)
  from measure_pods_tracks(2) [OF measured_fields(1) [OF assms(1)] i assms(5,6)] show ?thesis
    unfolding t by (simp add: sm_cpu_fields measured_fields)
qed

text \<open>The lines of /metrics.\<close>

lemma node_lines: "NodeSample n j \<in> set (exposition r) \<longleftrightarrow> rg_node r \<noteq> [] \<and> n = rg_node r \<and> j = rg_joules r"
  by (auto simp: exposition_def)

lemma pod_lines: "PodSample p j \<in> set (exposition r) \<longleftrightarrow> (p, j) \<in> set (rg_pods r)"
  by (force simp: exposition_def)

lemma tracks_line: "tracks f s \<Longrightarrow> PodSample p j \<in> set (exposition (sm_registry s)) \<longleftrightarrow> map_of (rg_pods (sm_registry s)) p = Some j"
  by (simp add: pod_lines tracks_def)

text \<open>C21. After a tick that reached the kubelet and the cgroups the sampler tracks exactly the pods it read, and /metrics
  exports exactly their names, less the names of pods that exited in this very tick; each value is the
  counter of a tracked pod of that name.\<close>

theorem registry_is_live:
  assumes "\<forall>i\<in>set (inp # inputs). names_pods f i" and "sm_cpu (run_sampler node d c inputs new_sampler) \<noteq> None"
    and "read_cpu_times (ti_stat inp) \<noteq> None"
    and "fetch_pods (ti_kubelet inp) = Some pods" and "discover_pod_cgroups (ti_walk inp) = Some cgs"
  shows "tracked (run_sampler node d c (inputs @ [inp]) new_sampler) = read_now pods (ti_usage inp) cgs \<and>
    {p. \<exists>j. PodSample p j \<in> set (exposition (sm_registry (run_sampler node d c (inputs @ [inp]) new_sampler)))} =
      f ` read_now pods (ti_usage inp) cgs - f ` (tracked (run_sampler node d c inputs new_sampler) - read_now pods (ti_usage inp) cgs) \<and>
    (\<forall>p j. map_of (rg_pods (sm_registry (run_sampler node d c (inputs @ [inp]) new_sampler))) p = Some j \<longrightarrow>
      (\<exists>u. f u = p \<and> map_of (sm_pod_joules (run_sampler node d c (inputs @ [inp]) new_sampler)) u = Some j))"
proof -
  let ?s = "run_sampler node d c inputs new_sampler" and ?t = "run_sampler node d c (inputs @ [inp]) new_sampler"
  have t: "?t = sampler_tick node d c inp ?s" by (simp add: run_sampler_def)
  have s: "tracks f ?s" by (rule run_tracks [OF new_tracks]) (use assms(1) in simp)
  have i: "names_pods f inp" using assms(1) by simp
  have e: "{p. \<exists>j. PodSample p j \<in> set (exposition r)} = dom (map_of (rg_pods r))" for r
    by (force simp: pod_lines dom_map_of_conv_image_fst)
  show ?thesis using tick_tracks [OF s i, THEN tracks_entry] tick_complete [OF s i assms(2-5)] unfolding e t
    by (simp add: exported_def [symmetric])
qed

definition sample_uid :: string where
  "sample_uid = ''00000000-0000-0000-0000-00000000000a''"

definition sample_path :: string where
  "sample_path = ''/kubepods/pod'' @ sample_uid"

lemma sample_pod: "pod_uid sample_path = Some sample_uid"
  by code_simp

definition full_tick :: tick_input where
  "full_tick = \<lparr>ti_stat = Some [''cpu 5 0 0 3 0 0 0 0''],
     ti_kubelet = Some \<lparr>ka_status = 200, ka_items = Some [(sample_uid, (''web-0'', ''shop''))]\<rparr>,
     ti_walk = Some [\<lparr>we_path = sample_path, we_read = True, we_dir = True, we_stat = True\<rparr>],
     ti_usage = (\<lambda>_. Some [''usage_usec 7''])\<rparr>"

definition sample_pods :: "string \<rightharpoonup> pod_identity" where
  "sample_pods = map_from fst snd [(sample_uid, (''web-0'', ''shop''))]"

text \<open>A pod of the node in every tick, with a reading of the kernel's counters of its own.\<close>

definition tick_at :: "string \<Rightarrow> tick_input" where
  "tick_at l = full_tick\<lparr>ti_stat := Some [l]\<rparr>"

definition spent :: "64 word \<Rightarrow> 64 word \<Rightarrow> cpu_times" where
  "spent u i = \<lparr>ct_user = u, ct_nice = 0, ct_system = 0, ct_idle = i, ct_iowait = 0, ct_irq = 0, ct_softirq = 0, ct_steal = 0\<rparr>"

lemma sample_fields:
  "str_fields ''cpu 0 0 0 0 0 0 0 0'' = [''cpu'', ''0'', ''0'', ''0'', ''0'', ''0'', ''0'', ''0'', ''0'']"
  "str_fields ''cpu 5 0 0 3 0 0 0 0'' = [''cpu'', ''5'', ''0'', ''0'', ''3'', ''0'', ''0'', ''0'', ''0'']"
  "str_fields ''cpu 7 0 0 5 0 0 0 0'' = [''cpu'', ''7'', ''0'', ''0'', ''5'', ''0'', ''0'', ''0'', ''0'']"
  by (simp_all add: str_fields_def fields_ascii)

lemma sample_digits: "parse_uint64 ''0'' = Some 0" "parse_uint64 ''3'' = Some 3" "parse_uint64 ''5'' = Some 5" "parse_uint64 ''7'' = Some 7"
  by (simp_all add: parse_uint64_def is_digit_def digit_val_def)

lemma sample_reads:
  "read_cpu_times (ti_stat (tick_at ''cpu 0 0 0 0 0 0 0 0'')) = Some (spent 0 0)"
  "read_cpu_times (ti_stat (tick_at ''cpu 5 0 0 3 0 0 0 0'')) = Some (spent 5 3)"
  "read_cpu_times (ti_stat (tick_at ''cpu 7 0 0 5 0 0 0 0'')) = Some (spent 7 5)"
  by (simp_all add: tick_at_def read_cpu_times_def sample_fields cpu_times_of_def sample_digits spent_def)

lemma sample_usage: "read_cpu_stat_usage (Some [''usage_usec 7'']) = Some 7"
proof -
  have "str_fields ''usage_usec 7'' = [''usage_usec'', ''7'']" by code_simp
  then show ?thesis by (simp add: read_cpu_stat_usage_def sample_digits)
qed

lemma tick_at_names: "names_pods (\<lambda>_. (''web-0'', ''shop'')) (tick_at l)"
  by (auto simp: names_pods_def tick_at_def full_tick_def fetch_pods_def map_from_def split: if_splits)

lemma tick_at_pods: "fetch_pods (ti_kubelet (tick_at l)) = Some sample_pods"
  by (simp add: tick_at_def full_tick_def fetch_pods_def sample_pods_def)

lemma tick_at_cgroups: "discover_pod_cgroups (ti_walk (tick_at l)) = Some [(sample_uid, sample_path)]"
  by (simp add: tick_at_def full_tick_def discover_pod_cgroups_def pod_cgroup_def sample_pod map_filter_simps)

lemma tick_at_live: "read_now sample_pods (ti_usage (tick_at l)) [(sample_uid, sample_path)] = {sample_uid}"
  by (simp add: read_now_def tick_at_def full_tick_def sample_pods_def map_from_def sample_usage)

lemma sm_cpu_tick: "read_cpu_times (ti_stat inp) = Some cur \<Longrightarrow> sm_cpu (sampler_tick node d c inp s) = Some cur"
  by (simp add: sampler_tick_def Let_def split: option.split)

text \<open>The first tick only reads the counters.\<close>

definition first_reading :: sampler where
  "first_reading = run_sampler ''node'' (5 * second) flat_curve [tick_at ''cpu 0 0 0 0 0 0 0 0''] new_sampler"

lemma first_reading: "first_reading = new_sampler\<lparr>sm_cpu := Some (spent 0 0)\<rparr>"
  using sample_reads(1) by (simp add: first_reading_def run_sampler_def sampler_tick_def new_sampler_def)

theorem registry_is_live_witness:
  "{p. \<exists>j. PodSample p j \<in> set (exposition (sm_registry (run_sampler ''node'' (5 * second) flat_curve
      ([tick_at ''cpu 0 0 0 0 0 0 0 0''] @ [tick_at ''cpu 5 0 0 3 0 0 0 0'']) new_sampler)))} = {(''web-0'', ''shop'')}"
proof -
  have n: "\<forall>i\<in>set (tick_at ''cpu 5 0 0 3 0 0 0 0'' # [tick_at ''cpu 0 0 0 0 0 0 0 0'']). names_pods (\<lambda>_. (''web-0'', ''shop'')) i"
    by (simp add: tick_at_names)
  have "sm_cpu first_reading \<noteq> None" "tracked first_reading = {}"
    by (simp_all add: first_reading new_sampler_def tracked_def)
  then show ?thesis
    using registry_is_live [OF n, where pods = sample_pods and node = "''node''" and d = "5 * second" and c = flat_curve]
    by (simp add: first_reading_def [symmetric] sample_reads tick_at_pods tick_at_cgroups tick_at_live)
qed

section \<open>Exported counters\<close>

text \<open>One pod bears the name: it is tracked, and no other tracked pod is called so.\<close>

definition sole_pod :: "(string \<Rightarrow> pod_identity) \<Rightarrow> pod_identity \<Rightarrow> string \<Rightarrow> sampler \<Rightarrow> bool" where
  "sole_pod f p u s \<longleftrightarrow> u \<in> tracked s \<and> f u = p \<and> (\<forall>v\<in>tracked s. f v = p \<longrightarrow> v = u)"

lemma sole_pod_line:
  assumes "tracks f s" and "sole_pod f p u s" and "PodSample p j \<in> set (exposition (sm_registry s))"
  shows "map_of (sm_pod_joules s) u = Some j"
proof -
  have "map_of (rg_pods (sm_registry s)) p = Some j" using assms(3) tracks_line [OF assms(1)] by blast
  then obtain v where v: "f v = p" "map_of (sm_pod_joules s) v = Some j" using tracks_entry [OF assms(1)] by blast
  then have "v \<in> dom (map_of (sm_pod_joules s))" by blast
  then have "v \<in> tracked s" using assms(1) by (simp add: tracks_def tracked_def)
  then show ?thesis using assms(2) v by (simp add: sole_pod_def)
qed

lemma pod_counters:
  assumes "sane_curve c" and "0 \<le> d" and "counters_ok s" and "steady_run node d c inputs s" and "tracks f s" and "\<forall>i\<in>set inputs. names_pods f i"
    and "\<And>k. k \<le> length inputs \<Longrightarrow> u \<in> tracked (run_sampler node d c (take k inputs) s)"
    and "map_of (sm_pod_joules s) u = Some i" and "map_of (sm_pod_joules (run_sampler node d c inputs s)) u = Some j"
  shows "i \<le> j"
  using assms(3-)
proof (induction inputs arbitrary: s i)
  case Nil
  then show ?case by (simp add: run_sampler_def)
next
  case (Cons inp inputs)
  let ?s = "sampler_tick node d c inp s"
  have t: "counters_ok ?s" "\<And>k. map_of (sm_pod_joules ?s) u = Some k \<Longrightarrow> i \<le> k"
    using tick_counters [OF assms(1,2) Cons.prems(1), of inp node] Cons.prems(2,6) by auto
  have tr: "tracks f ?s" using tick_tracks [OF Cons.prems(3)] Cons.prems(4) by simp
  have later: "u \<in> tracked (run_sampler node d c (take k inputs) ?s)" if "k \<le> length inputs" for k
    using Cons.prems(5) [of "Suc k"] that by (simp add: run_sampler_def)
  have "u \<in> tracked ?s" using later [of 0] by (simp add: run_sampler_def)
  then have "u \<in> dom (map_of (sm_pod_joules ?s))" using tr by (simp add: tracks_def tracked_def)
  then obtain k where k: "map_of (sm_pod_joules ?s) u = Some k" by blast
  have "k \<le> j"
    by (rule Cons.IH [OF t(1) _ tr _ later k]) (use Cons.prems(2,4,7) in \<open>simp_all add: run_sampler_def\<close>)
  with t(2) [OF k] show ?case by simp
qed


text \<open>Two readings later both counters are exported.\<close>

definition second_reading :: sampler where
  "second_reading = sampler_tick ''node'' (5 * second) flat_curve (tick_at ''cpu 5 0 0 3 0 0 0 0'') first_reading"

definition third_reading :: sampler where
  "third_reading = sampler_tick ''node'' (5 * second) flat_curve (tick_at ''cpu 7 0 0 5 0 0 0 0'') second_reading"

lemma readings_run:
  "run_sampler ''node'' (5 * second) flat_curve [tick_at ''cpu 0 0 0 0 0 0 0 0'', tick_at ''cpu 5 0 0 3 0 0 0 0''] new_sampler = second_reading"
  "run_sampler ''node'' (5 * second) flat_curve
     ([tick_at ''cpu 0 0 0 0 0 0 0 0'', tick_at ''cpu 5 0 0 3 0 0 0 0''] @ [tick_at ''cpu 7 0 0 5 0 0 0 0'']) new_sampler = third_reading"
  by (simp_all add: run_sampler_def first_reading_def second_reading_def third_reading_def)

lemma readings_cpu: "sm_cpu first_reading = Some (spent 0 0)" "sm_cpu second_reading = Some (spent 5 3)"
  by (simp add: first_reading) (simp add: second_reading_def sm_cpu_tick [OF sample_reads(2)])

lemma readings_track:
  "tracks (\<lambda>_. (''web-0'', ''shop'')) second_reading" "tracks (\<lambda>_. (''web-0'', ''shop'')) third_reading"
  "tracked second_reading = {sample_uid}" "exported second_reading = {(''web-0'', ''shop'')}"
  "tracked third_reading = {sample_uid}" "exported third_reading = {(''web-0'', ''shop'')}"
proof -
  have 1: "tracks (\<lambda>_. (''web-0'', ''shop'')) first_reading" by (simp add: first_reading sm_cpu_fields new_tracks)
  then show 2: "tracks (\<lambda>_. (''web-0'', ''shop'')) second_reading" by (simp add: second_reading_def tick_tracks tick_at_names)
  then show "tracks (\<lambda>_. (''web-0'', ''shop'')) third_reading" by (simp add: third_reading_def tick_tracks tick_at_names)
  have "tracked first_reading = {}" by (simp add: first_reading new_sampler_def tracked_def)
  with tick_complete [OF 1 tick_at_names _ _ tick_at_pods tick_at_cgroups]
  show t: "tracked second_reading = {sample_uid}" "exported second_reading = {(''web-0'', ''shop'')}"
    by (simp_all add: second_reading_def readings_cpu sample_reads tick_at_live)
  with tick_complete [OF 2 tick_at_names _ _ tick_at_pods tick_at_cgroups]
  show "tracked third_reading = {sample_uid}" "exported third_reading = {(''web-0'', ''shop'')}"
    by (simp_all add: third_reading_def readings_cpu sample_reads tick_at_live)
qed

lemma exported_line: "tracks f s \<Longrightarrow> p \<in> exported s \<Longrightarrow> \<exists>j. PodSample p j \<in> set (exposition (sm_registry s))"
  using tracks_line unfolding exported_def by blast


text \<open>A pod that comes back under its old name, as those of a StatefulSet do, in the tick its predecessor exits in is not
  exported by that tick: the name is set for the new uid and removed with the old one.\<close>

lemma reborn_pod_dropped:
  assumes "tracks f s" and "\<forall>pods. fetch_pods (ti_kubelet inp) = Some pods \<longrightarrow> (\<forall>u i. pods u = Some i \<longrightarrow> i = f u)"
    and "fetch_pods (ti_kubelet inp) = Some pods" and "discover_pod_cgroups (ti_walk inp) = Some cgs"
    and "old \<in> tracked s" and "old \<notin> read_now pods (ti_usage inp) cgs" and "new \<in> read_now pods (ti_usage inp) cgs" and "f new = f old"
  shows "new \<in> tracked (measure_pods c secs w util inp s) \<and> f new \<notin> exported (measure_pods c secs w util inp s)"
  using measure_pods_tracks(2) [OF assms(1-4)] assms(5-8) by auto

text \<open>The kernel's iowait may fall. Then the difference of the idle counters wraps, the utilisation is far below zero and
  so is the power of the node, which takes its counter down.\<close>

lemma falling_iowait:
  "utilization_delta \<lparr>ct_user = 0, ct_nice = 0, ct_system = 0, ct_idle = 0, ct_iowait = 1, ct_irq = 0, ct_softirq = 0, ct_steal = 0\<rparr>
     \<lparr>ct_user = 2, ct_nice = 0, ct_system = 0, ct_idle = 0, ct_iowait = 0, ct_irq = 0, ct_softirq = 0, ct_steal = 0\<rparr> < 0"
proof -
  have d: "float_of_nat (2 ^ 64 - 1) \<ge> float_of_nat (2 ^ 52)" by (rule float_of_nat_mono) simp
  have "(2 :: rat) ^ 52 \<le> float_of_nat (2 ^ 64 - 1)" using d by (simp add: float_of_nat_exact)
  then have "fdiv (2 ^ 52) 1 \<le> fdiv (float_of_nat (2 ^ 64 - 1)) 1" by (intro fdiv_mono) auto
  moreover have "fdiv (2 ^ 52) 1 = (2 :: rat) ^ 52" using float_of_nat_exact [of "2 ^ 52"] by (simp add: fdiv_def float_of_nat_def)
  ultimately have "1 - fdiv (float_of_nat (2 ^ 64 - 1)) 1 \<le> - 1" by simp
  then have "fl (1 - fdiv (float_of_nat (2 ^ 64 - 1)) 1) \<le> fl (- 1)" by (rule fl_mono)
  moreover have "fl (- 1) = - 1" using fl_1 by (simp add: fl_def)
  ultimately have "fl (1 - fdiv (float_of_nat (2 ^ 64 - 1)) 1) < 0" by simp
  moreover have "unat (- 1 :: 64 word) = 2 ^ 64 - 1" by (simp add: unsigned_minus_1_eq_mask mask_eq_exp_minus_1)
  moreover have "float_of_nat 1 = 1" using float_of_nat_exact [of 1] by simp
  ultimately show ?thesis by (simp add: utilization_delta_def cpu_total_def cpu_idle_def)
qed

text \<open>The share of a pod divides its seconds on all processors by a fraction of the interval: of a node with two busy
  processors a pod that has both for five seconds is given twice the dynamic power there is.\<close>

lemma pod_exceeds_node:
  "pod_dynamic_power 5 1 (pod_share_of_active 10 (fmul 1 5)) = 8 \<and> fl (5 - 1) = 4"
proof -
  have "fl 2 = 2" "fl 4 = 4" "fl 5 = 5" "fl 8 = 8"
    using fl_of_nat [of 2] fl_of_nat [of 4] fl_of_nat [of 5] fl_of_nat [of 8] by simp_all
  then show ?thesis by (simp add: pod_dynamic_power_def pod_share_of_active_def fmul_def fdiv_def)
qed

section \<open>Drivers\<close>

text \<open>A pod of a quality of service, as either driver names its directory under any base.\<close>

definition systemd_path :: "string \<Rightarrow> string \<Rightarrow> string \<Rightarrow> string" where
  "systemd_path base qos u = base @ ''kubepods'' @ (if qos = [] then [] else ''-'' @ qos) @ ''-pod'' @
     map (\<lambda>c. if c = CHR ''-'' then CHR ''_'' else c) u @ ''.slice''"

definition cgroupfs_path :: "string \<Rightarrow> string \<Rightarrow> string \<Rightarrow> string" where
  "cgroupfs_path base qos u = base @ ''kubepods/'' @ (if qos = [] then [] else qos @ ''/'') @ ''pod'' @ u"

lemma grouped_length: "grouped_uid sep u \<Longrightarrow> length u = 36"
  by (simp add: grouped_uid_def)

lemma hex_chars: "is_hex c \<Longrightarrow> c \<noteq> CHR ''-'' \<and> c \<noteq> CHR ''_'' \<and> c \<noteq> CHR ''.''"
  by (auto simp: is_hex_def hex_val_def)

lemma grouped_nth: "grouped_uid sep u \<Longrightarrow> i < 36 \<Longrightarrow> if i \<in> {8, 13, 18, 23} then u ! i = sep else is_hex (u ! i)"
  by (simp add: grouped_uid_def)

lemma underscored:
  assumes "grouped_uid (CHR ''-'') u"
  shows "grouped_uid (CHR ''_'') (map (\<lambda>c. if c = CHR ''-'' then CHR ''_'' else c) u)"
  unfolding grouped_uid_def
proof (intro conjI ballI)
  show "length (map (\<lambda>c. if c = CHR ''-'' then CHR ''_'' else c) u) = 36" using grouped_length [OF assms] by simp
  fix i :: nat
  assume "i \<in> set [0..<36]"
  then have i: "i < 36" by simp
  then have m: "map (\<lambda>c. if c = CHR ''-'' then CHR ''_'' else c) u ! i = (if u ! i = CHR ''-'' then CHR ''_'' else u ! i)"
    using grouped_length [OF assms] by simp
  show "if i \<in> {8, 13, 18, 23} then map (\<lambda>c. if c = CHR ''-'' then CHR ''_'' else c) u ! i = CHR ''_''
      else is_hex (map (\<lambda>c. if c = CHR ''-'' then CHR ''_'' else c) u ! i)"
    using grouped_nth [OF assms i] hex_chars [of "u ! i"] unfolding m by (simp split: if_splits)
qed

lemma grouped_chars:
  assumes "grouped_uid sep u" and "c \<in> set u"
  shows "is_hex c \<or> c = sep"
proof -
  obtain i where "i < 36" "c = u ! i" using assms(2) grouped_length [OF assms(1)] by (metis in_set_conv_nth)
  then show ?thesis using grouped_nth [OF assms(1), of i] by (simp split: if_splits)
qed

lemma dashed_again:
  assumes "grouped_uid (CHR ''-'') u"
  shows "map ((\<lambda>c. if c = CHR ''_'' then CHR ''-'' else c) \<circ> (\<lambda>c. if c = CHR ''-'' then CHR ''_'' else c)) u = u"
proof (rule map_idI)
  fix c
  assume "c \<in> set u"
  then have "is_hex c \<or> c = CHR ''-''" by (rule grouped_chars [OF assms])
  then show "((\<lambda>c. if c = CHR ''_'' then CHR ''-'' else c) \<circ> (\<lambda>c. if c = CHR ''-'' then CHR ''_'' else c)) c = c"
    using hex_chars by auto
qed

lemma last_36_append: "length u = 36 \<Longrightarrow> last_36 (p @ u) = (p, u)"
  by (simp add: last_36_def)

lemma suffix_within: "has_suffix s (p @ u) \<Longrightarrow> length s \<le> length u \<Longrightarrow> has_suffix s u"
  by (auto simp: has_suffix_def)

text \<open>A pod is found under the uid the kubelet gives it, whichever driver named its cgroup and whatever its quality
  of service: the path of either driver reads back as the uid.\<close>

theorem either_driver:
  assumes "grouped_uid (CHR ''-'') u" and "qos \<in> {[], ''burstable'', ''besteffort''}"
  shows "pod_uid (systemd_path base qos u) = Some u \<and> pod_uid (cgroupfs_path base qos u) = Some u"
proof
  let ?v = "map (\<lambda>c. if c = CHR ''-'' then CHR ''_'' else c) u"
  let ?pre = "base @ ''kubepods'' @ (if qos = [] then [] else ''-'' @ qos) @ ''-pod''"
  have l: "length u = 36" "length ?v = 36" using grouped_length [OF assms(1)] by simp_all
  have p: "systemd_path base qos u = (?pre @ ?v) @ ''.slice''" by (simp add: systemd_path_def)
  have "has_suffix ''kubepods-pod'' ?pre \<or> has_suffix ''kubepods-burstable-pod'' ?pre \<or> has_suffix ''kubepods-besteffort-pod'' ?pre"
    using assms(2) by auto
  then have "systemd_uid (systemd_path base qos u) = Some ?v"
    unfolding systemd_uid_def p using last_36_append [OF l(2), of ?pre] underscored [OF assms(1)]
    by (simp del: append_assoc)
  then show "pod_uid (systemd_path base qos u) = Some u" using dashed_again [OF assms(1)] by (simp add: pod_uid_def)
next
  let ?pre = "base @ ''kubepods/'' @ (if qos = [] then [] else qos @ ''/'') @ ''pod''"
  have l: "length u = 36" by (rule grouped_length [OF assms(1)])
  have p: "cgroupfs_path base qos u = ?pre @ u" by (simp add: cgroupfs_path_def)
  have "\<not> has_suffix ''.slice'' (?pre @ u)"
  proof
    assume "has_suffix ''.slice'' (?pre @ u)"
    then have "has_suffix ''.slice'' u" by (rule suffix_within) (simp add: l)
    then have "drop 30 u = ''.slice''" using l by (simp add: has_suffix_def)
    then have "drop 30 u ! 0 = CHR ''.''" by simp
    then have "u ! 30 = CHR ''.''" using l by simp
    then show False using grouped_nth [OF assms(1), of 30] hex_chars by auto
  qed
  then have "systemd_uid (?pre @ u) = None" by (simp add: systemd_uid_def del: append_assoc)
  moreover have "list_all (\<lambda>c. is_hex c \<or> c = CHR ''-'') u"
    using grouped_chars [OF assms(1)] by (auto simp: list_all_iff)
  moreover have "has_suffix ''kubepods/pod'' ?pre \<or> has_suffix ''kubepods/burstable/pod'' ?pre \<or> has_suffix ''kubepods/besteffort/pod'' ?pre"
    using assms(2) by auto
  ultimately have "cgroupfs_uid (?pre @ u) = Some u" "systemd_uid (?pre @ u) = None"
    using l last_36_append [OF l, of ?pre] by (simp_all add: cgroupfs_uid_def del: append_assoc)
  then show "pod_uid (cgroupfs_path base qos u) = Some u" unfolding p pod_uid_def by simp
qed

end
