(* ===== verification/GroupAdmin.thy ===== *)
theory GroupAdmin
  imports HealthResolver GroupMapping Access
begin

text \<open>
  Administration of the two overlays of the chart's configuration: health groups
  (hub/internal/api/service_groups.go, hub/internal/storage/clickhouse/servicegroup.go) and rules that
  map the groups of the identity provider to roles (hub/internal/api/oidc_mapping.go,
  clickhouse/oidcmapping.go). A table is its live rows by key: every query filters the tombstones out.
  Which calls to the store fail is an argument; a write is followed by what makes it visible, the memo
  of groups dropped or the snapshot of rules refreshed, in one step: a periodic refresh of the rules
  that read before the write and stores its snapshot after it is not modelled.
\<close>

text \<open>Which calls fail: the list, the check of a delete, the write, the refresh after it, and the tombstones of a reset.\<close>

record admin_faults =
  af_list :: bool
  af_check :: bool
  af_write :: bool
  af_refresh :: bool
  af_tombstone :: "string \<Rightarrow> bool"

definition no_faults :: admin_faults where
  "no_faults = \<lparr>af_list = False, af_check = False, af_write = False, af_refresh = False, af_tombstone = (\<lambda>_. False)\<rparr>"

section \<open>Service groups\<close>

record group_row = stored_group +
  gw_created_by :: string
  gw_created :: instant

record group_admin =
  gt_rows :: "(string \<times> group_row) list"
  gt_resolver :: group_resolver

record group_input =
  gi_name :: string
  gi_tier :: string
  gi_namespaces :: "string list"
  gi_services :: "string list"

record group_dto =
  gd_name :: string
  gd_tier :: string
  gd_namespaces :: "string list"
  gd_services :: "string list"
  gd_source :: string
  gd_editable :: bool
  gd_shadowed :: bool

definition max_group_name_len :: nat where "max_group_name_len = 100"
definition max_group_members :: nat where "max_group_members = 200"

definition list_service_groups :: "(string \<times> group_row) list \<Rightarrow> group_row list" where
  "list_service_groups rows = sort_key sg_name (map snd rows)"

text \<open>\<open>Resolver.Stored\<close> over the table: the list straight from the store, which also fills the memo.\<close>

definition stored_groups :: "admin_faults \<Rightarrow> instant \<Rightarrow> group_admin \<Rightarrow> group_row list option \<times> group_admin" where
  "stored_groups fails now st =
     (if af_list fails then (None, st)
      else let rows = list_service_groups (gt_rows st)
        in (Some rows, st\<lparr>gt_resolver := fill_groups (map stored_group.truncate rows) now (gt_resolver st)\<rparr>))"

definition service_group_dto :: "hgroup \<Rightarrow> string \<Rightarrow> bool \<Rightarrow> group_dto" where
  "service_group_dto g source shadowed =
     \<lparr>gd_name = grp_name g, gd_tier = grp_tier g, gd_namespaces = sel_namespaces (grp_selector g),
      gd_services = sel_services (grp_selector g), gd_source = source, gd_editable = (source = ''db''), gd_shadowed = shadowed\<rparr>"

definition row_dto :: "group_row \<Rightarrow> bool \<Rightarrow> group_dto" where
  "row_dto r shadowed = service_group_dto (stored_group_of (stored_group.truncate r)) ''db'' shadowed"

text \<open>\<open>store\<close> says whether the store is connected.\<close>

definition handle_service_groups :: "health_config \<Rightarrow> bool \<Rightarrow> admin_faults \<Rightarrow> instant \<Rightarrow> group_admin \<Rightarrow> group_dto list \<times> group_admin" where
  "handle_service_groups declared store fails now st =
     (let config = map (\<lambda>g. service_group_dto g ''config'' False) (hc_groups declared);
          (rows, st') = (if store then stored_groups fails now st else (Some [], st))
      in (config @ map (\<lambda>r. row_dto r (sg_name r \<in> set (map grp_name (hc_groups declared)))) (case rows of None \<Rightarrow> [] | Some rs \<Rightarrow> rs), st'))"

definition clean_selector_list :: "string list \<Rightarrow> string list" where
  "clean_selector_list v = dedup (filter (\<lambda>s. s \<noteq> []) (map trim_space v))"

definition decode_group_input :: "group_input body \<Rightarrow> http_error + group_input" where
  "decode_group_input b =
     (case decode b of
        Inl e \<Rightarrow> Inl e
      | Inr i \<Rightarrow> Inr \<lparr>gi_name = trim_space (gi_name i), gi_tier = trim_space (gi_tier i),
          gi_namespaces = clean_selector_list (gi_namespaces i), gi_services = clean_selector_list (gi_services i)\<rparr>)"

definition input_group :: "group_input \<Rightarrow> hgroup" where
  "input_group i = \<lparr>grp_name = gi_name i, grp_tier = gi_tier i,
     grp_selector = \<lparr>sel_namespaces = gi_namespaces i, sel_services = gi_services i\<rparr>, grp_checks = []\<rparr>"

definition validate_service_group :: "health_config \<Rightarrow> group_input \<Rightarrow> http_error option" where
  "validate_service_group declared i =
     (if gi_name i = [] then Some (Bad_Request ''name is required'')
      else if max_group_name_len < length (gi_name i) then Some (Bad_Request ''name too long'')
      else if max_group_members < length (gi_namespaces i) + length (gi_services i) then Some (Bad_Request ''too many members'')
      else case validate_config (declared\<lparr>hc_groups := [input_group i]\<rparr>) of
        Some _ \<Rightarrow> Some (Bad_Request ''invalid group'')
      | None \<Rightarrow> None)"

definition declared_service_group :: "health_config \<Rightarrow> string \<Rightarrow> http_error option" where
  "declared_service_group declared name =
     (if name \<in> set (map grp_name (hc_groups declared)) then Some (Conflict ''declared'') else None)"

definition stored_service_group :: "group_row list \<Rightarrow> string \<Rightarrow> group_row option" where
  "stored_service_group rows name = find (\<lambda>r. sg_name r = name) rows"

definition save_service_group :: "admin_faults \<Rightarrow> group_row \<Rightarrow> group_admin \<Rightarrow> (http_error + group_dto) \<times> group_admin" where
  "save_service_group fails r st =
     (if af_write fails then (Inl (From_Store StoreFailed), st)
      else (Inr (row_dto r False),
        st\<lparr>gt_rows := AList.update (sg_name r) r (gt_rows st), gt_resolver := invalidate_groups (gt_resolver st)\<rparr>))"

definition handle_create_group :: "health_config \<Rightarrow> bool \<Rightarrow> admin_faults \<Rightarrow> string \<Rightarrow> instant \<Rightarrow> group_input body \<Rightarrow> group_admin \<Rightarrow>
    (http_error + group_dto) \<times> group_admin" where
  "handle_create_group declared store fails user now b st =
     (if \<not> store then (Inl Unavailable, st)
      else case decode_group_input b of
        Inl e \<Rightarrow> (Inl e, st)
      | Inr i \<Rightarrow>
          (case validate_service_group declared i of
             Some e \<Rightarrow> (Inl e, st)
           | None \<Rightarrow>
               (case declared_service_group declared (gi_name i) of
                  Some e \<Rightarrow> (Inl e, st)
                | None \<Rightarrow>
                    (case stored_groups fails now st of
                       (None, st1) \<Rightarrow> (Inl (From_Store StoreFailed), st1)
                     | (Some rows, st1) \<Rightarrow>
                         if stored_service_group rows (gi_name i) \<noteq> None then (Inl (Conflict ''already exists''), st1)
                         else save_service_group fails
                           \<lparr>sg_name = gi_name i, sg_tier = gi_tier i, sg_namespaces = gi_namespaces i, sg_services = gi_services i,
                            gw_created_by = user, gw_created = now\<rparr> st1))))"

definition handle_update_group :: "health_config \<Rightarrow> bool \<Rightarrow> admin_faults \<Rightarrow> string \<Rightarrow> instant \<Rightarrow> group_input body \<Rightarrow> group_admin \<Rightarrow>
    (http_error + group_dto) \<times> group_admin" where
  "handle_update_group declared store fails name now b st =
     (if \<not> store then (Inl Unavailable, st)
      else case decode_group_input b of
        Inl e \<Rightarrow> (Inl e, st)
      | Inr i0 \<Rightarrow>
          (let i = i0\<lparr>gi_name := name\<rparr> in
           case validate_service_group declared i of
             Some e \<Rightarrow> (Inl e, st)
           | None \<Rightarrow>
               (case declared_service_group declared name of
                  Some e \<Rightarrow> (Inl e, st)
                | None \<Rightarrow>
                    (case stored_groups fails now st of
                       (None, st1) \<Rightarrow> (Inl (From_Store StoreFailed), st1)
                     | (Some rows, st1) \<Rightarrow>
                         (case stored_service_group rows name of
                            None \<Rightarrow> (Inl (From_Store NotFound), st1)
                          | Some cur \<Rightarrow> save_service_group fails
                              \<lparr>sg_name = name, sg_tier = gi_tier i, sg_namespaces = gi_namespaces i, sg_services = gi_services i,
                               gw_created_by = gw_created_by cur, gw_created = gw_created cur\<rparr> st1)))))"

definition delete_service_group :: "admin_faults \<Rightarrow> string \<Rightarrow> group_admin \<Rightarrow> store_error option \<times> group_admin" where
  "delete_service_group fails name st =
     (if af_check fails then (Some StoreFailed, st)
      else if map_of (gt_rows st) name = None then (Some NotFound, st)
      else if af_write fails then (Some StoreFailed, st)
      else (None, st\<lparr>gt_rows := AList.delete name (gt_rows st)\<rparr>))"

definition handle_delete_group :: "health_config \<Rightarrow> bool \<Rightarrow> admin_faults \<Rightarrow> string \<Rightarrow> group_admin \<Rightarrow> http_error option \<times> group_admin" where
  "handle_delete_group declared store fails name st =
     (if \<not> store then (Some Unavailable, st)
      else case declared_service_group declared name of
        Some e \<Rightarrow> (Some e, st)
      | None \<Rightarrow>
          (case delete_service_group fails name st of
             (Some e, st1) \<Rightarrow> (Some (From_Store e), st1)
           | (None, st1) \<Rightarrow> (None, st1\<lparr>gt_resolver := invalidate_groups (gt_resolver st1)\<rparr>)))"

section \<open>Rules of the identity provider's groups\<close>

record mapping_admin =
  mt_rows :: "(string \<times> stored_rule \<times> string) list"
  mt_cache :: mapping_cache

record rule_dto =
  rd_group :: string
  rd_role :: string
  rd_projects :: "string list"
  rd_source :: string
  rd_editable :: bool
  rd_shadowed :: bool
  rd_invalid :: "string option"

definition list_group_mappings :: "(string \<times> stored_rule \<times> string) list \<Rightarrow> stored_rule list" where
  "list_group_mappings rows = sort_key sr_group (map (fst \<circ> snd) rows)"

definition rule_dto_of :: "effective_mapping \<Rightarrow> rule_dto" where
  "rule_dto_of m = \<lparr>rd_group = em_group m, rd_role = em_role m, rd_projects = em_projects m, rd_source = em_source m,
     rd_editable = em_editable m, rd_shadowed = em_shadowed m, rd_invalid = None\<rparr>"

definition invalid_rules :: "bool \<Rightarrow> admin_faults \<Rightarrow> mapping_admin \<Rightarrow> rule_dto list" where
  "invalid_rules store fails st =
     (if \<not> store \<or> af_list fails then []
      else map (\<lambda>r. \<lparr>rd_group = sr_group r, rd_role = [], rd_projects = sr_projects r, rd_source = ''db'', rd_editable = True,
                 rd_shadowed = False, rd_invalid = Some (sr_role r)\<rparr>)
             (filter (\<lambda>r. parse_role (sr_role r) = None) (list_group_mappings (mt_rows st))))"

definition handle_mapping_list :: "bool \<Rightarrow> admin_faults \<Rightarrow> mapping_admin \<Rightarrow> rule_dto list" where
  "handle_mapping_list store fails st =
     map rule_dto_of (ms_mapping (cache_snapshot (mt_cache st))) @ invalid_rules store fails st"

definition declared_oidc_group :: "string \<Rightarrow> mapping_admin \<Rightarrow> bool" where
  "declared_oidc_group g st = list_ex (\<lambda>m. em_source m = ''config'' \<and> em_group m = g) (ms_mapping (cache_snapshot (mt_cache st)))"

definition refresh_mapping :: "admin_faults \<Rightarrow> mapping_admin \<Rightarrow> mapping_admin" where
  "refresh_mapping fails st =
     st\<lparr>mt_cache := snd (refresh (if af_refresh fails then QueryFailed else Rules (list_group_mappings (mt_rows st))) (mt_cache st))\<rparr>"

definition handle_upsert_mapping :: "bool \<Rightarrow> admin_faults \<Rightarrow> string \<Rightarrow> string \<Rightarrow> (string \<times> string list) body \<Rightarrow> mapping_admin \<Rightarrow>
    (http_error + rule_dto) \<times> mapping_admin" where
  "handle_upsert_mapping store fails user g b st =
     (if \<not> store then (Inl Unavailable, st)
      else case decode b of
        Inl e \<Rightarrow> (Inl e, st)
      | Inr (role0, projects0) \<Rightarrow>
          (case parse_role (trim_space role0) of
             None \<Rightarrow> (Inl (Bad_Request ''unknown role''), st)
           | Some r \<Rightarrow>
               if af_write fails then (Inl (From_Store StoreFailed), st)
               else let rule = \<lparr>sr_group = g, sr_role = r, sr_projects = clean_selector_list projects0\<rparr>;
                        st1 = refresh_mapping fails (st\<lparr>mt_rows := AList.update g (rule, user) (mt_rows st)\<rparr>)
                 in (Inr \<lparr>rd_group = g, rd_role = r, rd_projects = sr_projects rule, rd_source = ''db'', rd_editable = True,
                          rd_shadowed = declared_oidc_group g st1, rd_invalid = None\<rparr>, st1)))"

definition delete_group_mapping :: "admin_faults \<Rightarrow> string \<Rightarrow> mapping_admin \<Rightarrow> store_error option \<times> mapping_admin" where
  "delete_group_mapping fails g st =
     (if af_check fails then (Some StoreFailed, st)
      else if map_of (mt_rows st) g = None then (Some NotFound, st)
      else if af_write fails then (Some StoreFailed, st)
      else (None, st\<lparr>mt_rows := AList.delete g (mt_rows st)\<rparr>))"

definition handle_delete_mapping :: "bool \<Rightarrow> admin_faults \<Rightarrow> string \<Rightarrow> mapping_admin \<Rightarrow> http_error option \<times> mapping_admin" where
  "handle_delete_mapping store fails g st =
     (if \<not> store then (Some Unavailable, st)
      else case delete_group_mapping fails g st of
        (Some e, st1) \<Rightarrow>
          (if e = NotFound \<and> declared_oidc_group g st1 then (Some (Bad_Request ''declared in the chart''), st1)
           else (Some (From_Store e), st1))
      | (None, st1) \<Rightarrow> (None, refresh_mapping fails st1))"

fun tombstone_rules :: "admin_faults \<Rightarrow> string list \<Rightarrow> mapping_admin \<Rightarrow> store_error option \<times> mapping_admin" where
  "tombstone_rules fails [] st = (None, st)"
| "tombstone_rules fails (g # gs) st =
     (if af_tombstone fails g then (Some StoreFailed, st)
      else tombstone_rules fails gs (st\<lparr>mt_rows := AList.delete g (mt_rows st)\<rparr>))"

definition handle_reset_mapping :: "bool \<Rightarrow> admin_faults \<Rightarrow> mapping_admin \<Rightarrow> http_error option \<times> mapping_admin" where
  "handle_reset_mapping store fails st =
     (if \<not> store then (Some Unavailable, st)
      else if af_list fails then (Some (From_Store StoreFailed), st)
      else case tombstone_rules fails (map sr_group (list_group_mappings (mt_rows st))) st of
        (Some e, st1) \<Rightarrow> (Some (From_Store e), st1)
      | (None, st1) \<Rightarrow> (None, refresh_mapping fails st1))"

end
