(* ===== verification/GroupAdminLaws.thy ===== *)
theory GroupAdminLaws
  imports GroupAdmin
begin

text \<open>
  What the administration of groups and rules promises: a stored group never makes the merged
  configuration one its loader would refuse, and a rule that was saved is what its group is granted by,
  until it is deleted.
\<close>

section \<open>Groups the loader accepts\<close>

definition sound_group :: "hgroup \<Rightarrow> bool" where
  "sound_group g \<longleftrightarrow> trim_space (grp_name g) \<noteq> [] \<and> known_tier (grp_tier g) \<and> grp_checks g = [] \<and>
     (sel_namespaces (grp_selector g) \<noteq> [] \<or> sel_services (grp_selector g) \<noteq> [])"

lemma validate_sound:
  "\<forall>h\<in>set hs. sound_group h \<Longrightarrow> distinct (map grp_name hs) \<Longrightarrow> set (map grp_name hs) \<inter> set seen = {} \<Longrightarrow>
   validate_groups i seen ids hs = None"
  by (induction hs arbitrary: i seen) (auto simp: sound_group_def)

lemma validate_append:
  "validate_groups i seen ids gs = None \<Longrightarrow> \<forall>h\<in>set hs. sound_group h \<Longrightarrow> distinct (map grp_name hs) \<Longrightarrow>
   set (map grp_name hs) \<inter> (set seen \<union> set (map grp_name gs)) = {} \<Longrightarrow> validate_groups i seen ids (gs @ hs) = None"
proof (induction gs arbitrary: i seen ids)
  case Nil
  then show ?case by (simp add: validate_sound)
next
  case (Cons g gs)
  obtain ids' where v: "validate_checks (grp_name g) 0 ids (grp_checks g) = Inr ids'"
    using Cons.prems(1) by (cases "validate_checks (grp_name g) 0 ids (grp_checks g)") (auto split: if_splits)
  have "validate_groups (Suc i) (grp_name g # seen) ids' gs = None" using Cons.prems(1) v by (auto split: if_splits)
  moreover have "set (map grp_name hs) \<inter> (set (grp_name g # seen) \<union> set (map grp_name gs)) = {}" using Cons.prems(4) by auto
  ultimately have "validate_groups (Suc i) (grp_name g # seen) ids' (gs @ hs) = None"
    using Cons.IH Cons.prems(2,3) by blast
  then show ?case using Cons.prems(1) v by (auto split: if_splits)
qed

lemma single_valid: "validate_config (c\<lparr>hc_groups := [g]\<rparr>) = None \<Longrightarrow> grp_checks g = [] \<Longrightarrow> sound_group g"
  by (auto simp: validate_config_def sound_group_def split: if_splits option.splits)

lemma merged_valid:
  assumes "validate_config c = None" and "\<forall>s\<in>set rows. sound_group (stored_group_of s)" and "distinct (map sg_name rows)"
  shows "validate_config (merge_groups c rows) = None"
proof (cases "rows = []")
  case False
  let ?hs = "map stored_group_of (filter (\<lambda>s. sg_name s \<notin> set (map grp_name (hc_groups c))) rows)"
  have n: "grp_name (stored_group_of s) = sg_name s" for s by (simp add: stored_group_of_def)
  have "distinct (map sg_name (filter (\<lambda>s. sg_name s \<notin> set (map grp_name (hc_groups c))) rows))"
    using assms(3) by (simp add: distinct_map inj_on_def)
  then have d: "distinct (map grp_name ?hs)" by (simp add: n comp_def)
  have i: "set (map grp_name ?hs) \<inter> (set [] \<union> set (map grp_name (hc_groups c))) = {}" by (auto simp: n)
  have "validate_groups 0 [] [] (hc_groups c) = None" using assms(1) by (auto simp: validate_config_def split: if_splits option.splits)
  then have "validate_groups 0 [] [] (hc_groups c @ ?hs) = None" by (rule validate_append [OF _ _ d i]) (use assms(2) in auto)
  then show ?thesis using assms(1) False by (simp add: merge_groups_def validate_config_def split: if_splits option.splits)
qed (use assms(1) in \<open>simp add: merge_groups_def\<close>)

text \<open>The table of groups: rows under their own names, each a group the loader accepts, within the bounds of the form.\<close>

definition group_table_ok :: "group_admin \<Rightarrow> bool" where
  "group_table_ok st \<longleftrightarrow> distinct (map fst (gt_rows st)) \<and>
     (\<forall>(n, r)\<in>set (gt_rows st). sg_name r = n \<and> sound_group (stored_group_of (stored_group.truncate r)) \<and> length n \<le> max_group_name_len \<and>
        length (sg_namespaces r) + length (sg_services r) \<le> max_group_members)"

lemma stored_groups_rows: "gt_rows (snd (stored_groups fails now st)) = gt_rows st"
  by (simp add: stored_groups_def Let_def)

lemma group_table_rows: "gt_rows st' = gt_rows st \<Longrightarrow> group_table_ok st \<Longrightarrow> group_table_ok st'"
  by (simp add: group_table_ok_def)

lemma save_group_ok:
  assumes "group_table_ok st" and "validate_service_group declared i = None"
    and "sg_name r = gi_name i" "sg_tier r = gi_tier i" "sg_namespaces r = gi_namespaces i" "sg_services r = gi_services i"
  shows "group_table_ok (snd (save_service_group fails r st))"
proof -
  have v: "length (gi_name i) \<le> max_group_name_len" "length (gi_namespaces i) + length (gi_services i) \<le> max_group_members"
    "validate_config (declared\<lparr>hc_groups := [input_group i]\<rparr>) = None"
    using assms(2) by (auto simp: validate_service_group_def split: if_splits option.splits)
  have "sound_group (input_group i)" by (rule single_valid [OF v(3)]) (simp add: input_group_def)
  moreover have "stored_group_of (stored_group.truncate r) = input_group i"
    using assms(3-6) by (simp add: stored_group_of_def input_group_def stored_group.defs)
  ultimately show ?thesis using assms v set_alist_update [of "sg_name r" r "gt_rows st"]
    by (auto simp: save_service_group_def group_table_ok_def distinct_update)
qed

lemma create_group_ok: "group_table_ok st \<Longrightarrow> group_table_ok (snd (handle_create_group declared store fails user now b st))"
  using group_table_rows [OF stored_groups_rows, of st fails now]
  by (auto simp: handle_create_group_def intro!: save_group_ok split: sum.split option.split prod.split)

lemma update_group_ok: "group_table_ok st \<Longrightarrow> group_table_ok (snd (handle_update_group declared store fails name now b st))"
  using group_table_rows [OF stored_groups_rows, of st fails now]
  by (auto simp: handle_update_group_def Let_def intro!: save_group_ok split: sum.split option.split prod.split)

lemma delete_group_ok: "group_table_ok st \<Longrightarrow> group_table_ok (snd (handle_delete_group declared store fails name st))"
  by (auto simp: handle_delete_group_def delete_service_group_def group_table_ok_def distinct_delete AList.delete_eq declared_service_group_def
      distinct_map_filter split: option.split prod.split)

datatype group_request =
    CreateGroup health_config bool admin_faults string instant "group_input body"
  | UpdateGroup health_config bool admin_faults string instant "group_input body"
  | DeleteGroup health_config bool admin_faults string

fun admin_step :: "group_request \<Rightarrow> group_admin \<Rightarrow> group_admin" where
  "admin_step (CreateGroup declared store fails user now b) st = snd (handle_create_group declared store fails user now b st)"
| "admin_step (UpdateGroup declared store fails name now b) st = snd (handle_update_group declared store fails name now b st)"
| "admin_step (DeleteGroup declared store fails name) st = snd (handle_delete_group declared store fails name st)"

definition no_groups :: group_admin where
  "no_groups = \<lparr>gt_rows = [], gt_resolver = new_resolver\<rparr>"

lemma run_groups_ok: "group_table_ok st \<Longrightarrow> group_table_ok (fold admin_step reqs st)"
proof (induction reqs arbitrary: st)
  case (Cons r reqs)
  then show ?case by (cases r) (simp_all add: create_group_ok update_group_ok delete_group_ok)
qed simp

text \<open>C23. Whatever administrators create, update and delete, whichever calls fail and however the chart's file changes
  meanwhile, the stored groups merge with every configuration its loader accepts into one it would accept:
  names stay unique, tiers known and selectors non-empty.\<close>

theorem merged_groups_load:
  assumes "validate_config declared = None"
  shows "validate_config (merge_groups declared
    (map stored_group.truncate (list_service_groups (gt_rows (fold admin_step reqs no_groups))))) = None"
proof (rule merged_valid [OF assms])
  let ?st = "fold admin_step reqs no_groups"
  have ok: "group_table_ok ?st" by (rule run_groups_ok) (simp add: group_table_ok_def no_groups_def)
  then show "\<forall>s\<in>set (map stored_group.truncate (list_service_groups (gt_rows ?st))). sound_group (stored_group_of s)"
    by (auto simp: group_table_ok_def list_service_groups_def)
  have e: "map (sg_name \<circ> snd) (gt_rows ?st) = map fst (gt_rows ?st)" using ok by (auto simp: group_table_ok_def)
  have "distinct (map (sg_name \<circ> snd) (gt_rows ?st))" unfolding e using ok by (simp add: group_table_ok_def)
  then have "distinct (map sg_name (map snd (gt_rows ?st)))" by simp
  then have "distinct (map sg_name (sort_key sg_name (map snd (gt_rows ?st))))"
    unfolding distinct_map_sort_key .
  then show "distinct (map sg_name (map stored_group.truncate (list_service_groups (gt_rows ?st))))"
    by (simp add: list_service_groups_def stored_group.defs comp_def)
qed

theorem merged_groups_load_witness:
  "validate_config (merge_groups default_config (map stored_group.truncate (list_service_groups (gt_rows (fold admin_step
     [CreateGroup default_config True no_faults ''admin'' 0
        (Body \<lparr>gi_name = ''checkout'', gi_tier = ''T0'', gi_namespaces = [], gi_services = [''cart'']\<rparr>)] no_groups))))) = None"
proof -
  have "validate_config default_config = None" by (simp add: validate_config_def default_config_def known_tier_def)
  then show ?thesis by (rule merged_groups_load)
qed

section \<open>Rules\<close>

definition rule_table_ok :: "mapping_admin \<Rightarrow> bool" where
  "rule_table_ok st \<longleftrightarrow> distinct (map fst (mt_rows st)) \<and> (\<forall>(g, r, who)\<in>set (mt_rows st). sr_group r = g)"

lemma rules_of_group:
  assumes "rule_table_ok st"
  shows "{r \<in> set (list_group_mappings (mt_rows st)). sr_group r = g} = (case map_of (mt_rows st) g of None \<Rightarrow> {} | Some (r, who) \<Rightarrow> {r})"
proof -
  have "{r \<in> set (list_group_mappings (mt_rows st)). sr_group r = g} = {r. \<exists>who. (g, r, who) \<in> set (mt_rows st)}"
    using assms by (force simp: list_group_mappings_def rule_table_ok_def)
  also have "\<dots> = {r. \<exists>who. map_of (mt_rows st) g = Some (r, who)}"
    using assms by (auto simp: rule_table_ok_def dest: map_of_SomeD)
  finally show ?thesis by (auto split: option.split)
qed

lemma update_rule_ok: "rule_table_ok st \<Longrightarrow> sr_group r = g \<Longrightarrow> rule_table_ok (st\<lparr>mt_rows := AList.update g (r, who) (mt_rows st)\<rparr>)"
  using set_alist_update [of g "(r, who)" "mt_rows st"] by (auto simp: rule_table_ok_def distinct_update)

lemma delete_rule_ok: "rule_table_ok st \<Longrightarrow> rule_table_ok (st\<lparr>mt_rows := AList.delete g (mt_rows st)\<rparr>)"
  by (auto simp: rule_table_ok_def AList.delete_eq distinct_map_filter)

text \<open>The groups of a member of one group only, after a refresh that did not fail.\<close>

lemma mapper_refreshed:
  assumes "rule_table_ok st" and "\<not> af_refresh fails"
    and "cache_cfg (mt_cache st) = \<lparr>mc_mapping = cfg, mc_default_role = dr, mc_default_projects = dp\<rparr>"
    and "\<forall>m\<in>set cfg. 0 < role_rank (gm_role m)" and "dr = [] \<or> 0 < role_rank dr"
  shows "set (mapper (mt_cache (refresh_mapping fails st)) [g]) =
    (if g \<in> gm_group ` set cfg then \<Union>m\<in>{m\<in>set cfg. gm_group m = g}. rule_grants (gm_role m) (gm_projects m)
     else case map_of (mt_rows st) g of
       Some (r, who) \<Rightarrow> if 0 < role_rank (sr_role r) then rule_grants (sr_role r) (sr_projects r) else if dr \<noteq> [] then rule_grants dr dp else {}
     | None \<Rightarrow> if dr \<noteq> [] then rule_grants dr dp else {})"
proof -
  let ?db = "list_group_mappings (mt_rows st)"
  have m: "mapper (mt_cache (refresh_mapping fails st)) [g] = grants_for (merge_mapping cfg ?db) [g] dr dp"
    using assms(2,3) by (simp add: mapper_def refresh_mapping_def refresh_def take_snapshot_def)
  have live: "{m \<in> set ?db. db_live cfg [g] m} = (if g \<in> gm_group ` set cfg then {} else {m \<in> set ?db. sr_group m = g \<and> 0 < role_rank (sr_role m)})"
    by (auto simp: db_live_def)
  have own: "{m \<in> set ?db. sr_group m = g \<and> 0 < role_rank (sr_role m)} =
      (case map_of (mt_rows st) g of None \<Rightarrow> {} | Some (r, who) \<Rightarrow> if 0 < role_rank (sr_role r) then {r} else {})"
  proof -
    have "{m \<in> set ?db. sr_group m = g \<and> 0 < role_rank (sr_role m)} = {m \<in> {r \<in> set ?db. sr_group r = g}. 0 < role_rank (sr_role m)}" by auto
    then show ?thesis unfolding rules_of_group [OF assms(1)] by (auto split: option.split)
  qed
  have ex: "(\<exists>m\<in>set ?db. db_live cfg [g] m) \<longleftrightarrow> {m \<in> set ?db. db_live cfg [g] m} \<noteq> {}" by blast
  have cfg: "{m \<in> set cfg. gm_group m \<in> set [g]} = {m \<in> set cfg. gm_group m = g}" "(\<exists>m\<in>set cfg. gm_group m \<in> set [g]) \<longleftrightarrow> g \<in> gm_group ` set cfg"
    by auto
  have none: "g \<notin> gm_group ` set cfg \<Longrightarrow> {m \<in> set cfg. gm_group m = g} = {}" by auto
  show ?thesis unfolding m merged_grants [OF assms(4,5) refl] ex live own cfg using none by (auto split: option.split)
qed

text \<open>C24. A rule an administrator saves is in force as soon as its refresh did not fail: a member of that group alone is
  granted exactly its role on its projects, or what the chart declares for the group when it does; and
  deleting it leaves the member what the chart declares, or else the defaults.\<close>

theorem rule_in_force:
  assumes "rule_table_ok st" and "\<not> af_refresh fails"
    and "cache_cfg (mt_cache st) = \<lparr>mc_mapping = cfg, mc_default_role = dr, mc_default_projects = dp\<rparr>"
    and "\<forall>m\<in>set cfg. 0 < role_rank (gm_role m)" and "dr = [] \<or> 0 < role_rank dr"
    and "handle_upsert_mapping store fails user g b st = (Inr d, st')"
  shows "set (mapper (mt_cache st') [g]) =
      (if g \<in> gm_group ` set cfg then \<Union>m\<in>{m\<in>set cfg. gm_group m = g}. rule_grants (gm_role m) (gm_projects m)
       else rule_grants (rd_role d) (rd_projects d)) \<and>
    (\<exists>st''. handle_delete_mapping True no_faults g st' = (None, st'') \<and>
      set (mapper (mt_cache st'') [g]) =
        (if g \<in> gm_group ` set cfg then \<Union>m\<in>{m\<in>set cfg. gm_group m = g}. rule_grants (gm_role m) (gm_projects m)
         else if dr \<noteq> [] then rule_grants dr dp else {}))"
proof -
  obtain r ps where r: "parse_role r = Some (rd_role d)" "rd_projects d = ps"
    and st': "st' = refresh_mapping fails (st\<lparr>mt_rows := AList.update g (\<lparr>sr_group = g, sr_role = rd_role d, sr_projects = ps\<rparr>, user) (mt_rows st)\<rparr>)"
    using assms(6) by (auto simp: handle_upsert_mapping_def Let_def split: if_splits sum.splits option.splits)
  define st1 where "st1 = st\<lparr>mt_rows := AList.update g (\<lparr>sr_group = g, sr_role = rd_role d, sr_projects = ps\<rparr>, user) (mt_rows st)\<rparr>"
  have ok: "rule_table_ok st1" unfolding st1_def by (rule update_rule_ok [OF assms(1)]) simp
  have c1: "cache_cfg (mt_cache st1) = \<lparr>mc_mapping = cfg, mc_default_role = dr, mc_default_projects = dp\<rparr>" using assms(3) by (simp add: st1_def)
  have row: "map_of (mt_rows st1) g = Some (\<lparr>sr_group = g, sr_role = rd_role d, sr_projects = ps\<rparr>, user)" by (simp add: st1_def update_conv')
  have rank: "0 < role_rank (rd_role d)" using r(1) by (auto simp: parse_role_def role_rank_def split: if_splits)
  have a: "set (mapper (mt_cache st') [g]) =
      (if g \<in> gm_group ` set cfg then \<Union>m\<in>{m\<in>set cfg. gm_group m = g}. rule_grants (gm_role m) (gm_projects m)
       else rule_grants (rd_role d) (rd_projects d))"
    using mapper_refreshed [OF ok assms(2) c1 assms(4,5), of g] row rank r(2) by (simp add: st' st1_def [symmetric])
  define st2 where "st2 = st'\<lparr>mt_rows := AList.delete g (mt_rows st')\<rparr>"
  have rows: "mt_rows st' = mt_rows st1" "cache_cfg (mt_cache st') = cache_cfg (mt_cache st1)"
    using assms(2) by (simp_all add: st' st1_def refresh_mapping_def refresh_def)
  have "rule_table_ok st'" using ok rows by (simp add: rule_table_ok_def)
  then have ok2: "rule_table_ok st2" unfolding st2_def by (rule delete_rule_ok)
  have c2: "cache_cfg (mt_cache st2) = \<lparr>mc_mapping = cfg, mc_default_role = dr, mc_default_projects = dp\<rparr>" using rows c1 by (simp add: st2_def)
  have gone: "map_of (mt_rows st2) g = None" by (simp add: st2_def delete_conv')
  have "handle_delete_mapping True no_faults g st' = (None, refresh_mapping no_faults st2)"
    using row rows by (simp add: handle_delete_mapping_def delete_group_mapping_def no_faults_def st2_def)
  moreover have "\<not> af_refresh no_faults" by (simp add: no_faults_def)
  then have "set (mapper (mt_cache (refresh_mapping no_faults st2)) [g]) =
        (if g \<in> gm_group ` set cfg then \<Union>m\<in>{m\<in>set cfg. gm_group m = g}. rule_grants (gm_role m) (gm_projects m)
         else if dr \<noteq> [] then rule_grants dr dp else {})"
    using mapper_refreshed [OF ok2 _ c2 assms(4,5), of no_faults g] gone by simp
  ultimately show ?thesis using a by blast
qed

definition no_rules :: mapping_admin where
  "no_rules = \<lparr>mt_rows = [], mt_cache = new_mapping_cache\<rparr>"

theorem rule_in_force_witness:
  "\<exists>st' d. handle_upsert_mapping True no_faults ''admin'' ''devs'' (Body (''editor'', [''shop''])) no_rules = (Inr d, st') \<and>
     set (mapper (mt_cache st') [''devs'']) = rule_grants ''editor'' [''shop'']"
proof -
  have t: "trim_space ''editor'' = ''editor''" "trim_space ''shop'' = ''shop''" by code_simp+
  define d where "d = \<lparr>rd_group = ''devs'', rd_role = ''editor'', rd_projects = [''shop''], rd_source = ''db'', rd_editable = True,
    rd_shadowed = False, rd_invalid = None\<rparr>"
  obtain st' where u: "handle_upsert_mapping True no_faults ''admin'' ''devs'' (Body (''editor'', [''shop''])) no_rules = (Inr d, st')"
    by (simp add: handle_upsert_mapping_def no_faults_def decode_def t parse_role_def role_editor_def role_admin_def role_viewer_def clean_selector_list_def d_def
      declared_oidc_group_def refresh_mapping_def refresh_def take_snapshot_def merge_mapping_def merge_rows_def no_rules_def new_mapping_cache_def
      list_group_mappings_def map_filter_simps Let_def)
  have ok: "rule_table_ok no_rules" "\<not> af_refresh no_faults" by (simp_all add: rule_table_ok_def no_rules_def no_faults_def)
  have c: "cache_cfg (mt_cache no_rules) = \<lparr>mc_mapping = [], mc_default_role = [], mc_default_projects = []\<rparr>"
    by (simp add: no_rules_def new_mapping_cache_def)
  from rule_in_force [OF ok c _ _ u] u show ?thesis by (auto simp: d_def)
qed

end
