(* ===== verification/Spec2Isabelle.thy ===== *)
theory Spec2Isabelle
  imports Prelude GoFloat Ranking Roles Limiter Registrar RateLimit LastUsed GroupMapping GoStd HealthConfig HealthRollup HealthLaws HealthChecks Memo HealthResolver Alerting AlertLaws CheckScheduler OAuthProtocol AuthStore AuthService StoreLaws Credentials AuthLaws OAuthServer OAuthTokens OAuthLaws OAuthConsent OAuthRace ProjectStore Access Outages AccessLaws Projects ProjectLaws ProjectList IngestAuth IngestLaws UserAdmin UserLaws InstallModules Routes TraceStats Topology MapEdges EdgeLaws Schema SchemaLaws Retention RetentionLaws MeshSpec MeshWorkloads MeshValidate MeshReader MeshLaws Pricing Rates RatesLaws Budgets AlertTick AlertTickLaws Collection CollectionApply CollectionLaws ApplierLaws Sentry SentryLaws EditDistance McpArgs McpTools McpServer McpLaws CpuModel Estimator EstimatorLaws GroupAdmin GroupAdminLaws
begin

text \<open>
  A verification library for avuru-obs, an observability platform for Kubernetes written in Go
  (src/hub, src/gateway, src/sensor). This theory imports the whole library; each theory models one
  part of the program and opens with what it holds. Theories whose name ends in \<open>Laws\<close> only prove.

  \<^bold>\<open>The program\<close>

  A sensor on every node and the applications send telemetry to the gateway, an OpenTelemetry
  collector whose authenticator asks the hub whether an ingest key is good and stamps the key's
  project on the data. The hub stores projects, users, keys and settings beside the telemetry in
  ClickHouse, answers the console's API and, to agents, the tools of the Model Context Protocol, and
  is an OAuth authorization server for the latter. Its background loops evaluate alert rules and
  budgets, probe endpoints, trim old data and apply the collection overlay to the sensor. Who may
  read what is decided once, by the identity of a request and the tenants of its project; every
  component below that serves a request takes those as given.

  \<^bold>\<open>Foundations\<close>

  \<^item> \<open>Prelude\<close>: Go's strings (lists of bytes), instants and durations in nanoseconds as \<open>int\<close>,
    ordered association lists for maps whose iteration matters, shared list lemmas.
    \<open>GoStd\<close>: time.ParseDuration, net/url, label syntax. \<open>GoFloat\<close>: \<open>float64\<close> as the rational it
    denotes with rounding to nearest, even; infinities and NaN are left out.
  \<^item> Locales state the interfaces more than one component provides: \<open>Ranking.worst_of\<close> (health
    statuses, criticality), \<open>Limiter.sliding_limiter\<close> (registrations, last-used writes),
    \<open>RateLimit.fixed_window_axis\<close> (three axes of failed logins), \<open>Memo.memo_cell\<close> (service groups,
    project list, rates), \<open>StoreLaws.credential\<close> with \<open>Outages.honest_credential\<close> (sessions, API
    tokens, OAuth access tokens), \<open>AlertTickLaws.budget_machine\<close> (carbon and AI budgets). Each is
    interpreted on the definitions of the code.

  \<^bold>\<open>Identity and access\<close>

  \<^item> \<open>Roles\<close> (hub/internal/auth/auth.go), \<open>RateLimit\<close>, \<open>LastUsed\<close>, \<open>GroupMapping\<close> (ratelimit.go, lastused.go,
    oidcconfig.go, mapping.go, mappingcache.go), \<open>Registrar\<close> (hub/internal/oauth/limit.go). Guesses of
    passwords are interleaved; how many a minute holds is bounded by the limit and those in flight.
  \<^item> \<open>AuthStore\<close>, \<open>ProjectStore\<close> (hub/internal/storage/clickhouse: auth.go, authtoken.go, oauth.go,
    project.go, ingestkeys.go): the newest row per key of each table; any call may fail, as the list
    of faults a state carries says. \<open>StoreLaws\<close> and \<open>Outages\<close>: what composed calls answer whatever
    fails, and that "not found" never stands for an outage.
  \<^item> \<open>AuthService\<close>, \<open>Credentials\<close>, \<open>AuthLaws\<close> (hub/internal/auth): login, rotation, single sign-on,
    startup accounts; a secret resolves only to a live row of an owner that is not disabled.
  \<^item> \<open>OAuthProtocol\<close>, \<open>OAuthServer\<close>, \<open>OAuthTokens\<close>, \<open>OAuthLaws\<close>, \<open>OAuthConsent\<close>, \<open>OAuthRace\<close>
    (hub/internal/oauth, hub/internal/api/oauth_*.go): the authorization server. \<open>OAuthRace\<close> is a
    step relation of concurrent exchanges; a code is redeemed once in every interleaving.
  \<^item> \<open>Access\<close>, \<open>AccessLaws\<close>, \<open>Routes\<close> (hub/internal/api: auth_middleware.go, router.go, permissions.go):
    wrappers as functions of handlers, the routing table, the matrix shown to administrators.
  \<^item> \<open>Projects\<close>, \<open>ProjectLaws\<close>, \<open>ProjectList\<close>, \<open>UserAdmin\<close>, \<open>UserLaws\<close>, \<open>InstallModules\<close>: the
    handlers of projects, users, tokens and sign-in, and the module registry. \<open>GroupAdmin\<close>,
    \<open>GroupAdminLaws\<close> (service_groups.go, oidc_mapping.go): what administrators store over the chart's groups and rules.
  \<^item> \<open>IngestAuth\<close>, \<open>IngestLaws\<close> (ingest_keys.go, ingest_validate.go, gateway/avuruingestauth,
    gateway/tenantfromauth): keys from the hub to the stamped payload, requests interleaved; a revoked
    key stops within a bounded time.

  \<^bold>\<open>Health, alerts and budgets\<close>

  \<^item> \<open>HealthConfig\<close>, \<open>HealthRollup\<close>, \<open>HealthChecks\<close>, \<open>HealthLaws\<close>, \<open>HealthResolver\<close>
    (hub/internal/health), \<open>CheckScheduler\<close> (hub/internal/checks).
  \<^item> \<open>Alerting\<close>, \<open>AlertLaws\<close> (hub/internal/alerting): one target's state machine. \<open>Pricing\<close>, \<open>Budgets\<close>
    (hub/internal/ai, hub/internal/green), \<open>Rates\<close>, \<open>RatesLaws\<close> (hub/internal/rates). \<open>AlertTick\<close>,
    \<open>AlertTickLaws\<close> (hub/cmd/hub: alerting.go, green_budgets.go, ai_budgets.go): a tick over all tenants;
    over any run of ticks, each under the configuration it reads, the notifications of a rule that
    stays configured alternate.
  \<^item> \<open>CpuModel\<close>, \<open>Estimator\<close>, \<open>EstimatorLaws\<close> (sensor/tdp-estimator): the power of a node without energy
    counters, from its utilisation, and its share per pod; the values on /metrics never fall while the
    kernel's do not and the power curve is a sane one, and the pods on it are those of the last tick.

  \<^bold>\<open>Telemetry, mesh and schema\<close>

  \<^item> \<open>TraceStats\<close>, \<open>Topology\<close>, \<open>MapEdges\<close>, \<open>EdgeLaws\<close> (hub/internal/tracestats, hub/internal/topology,
    clickhouse/services.go, collapse.go): where the time of a trace went, service by service; the edges of a service context refine the relation "nearest
    ancestor outside the mesh" on spans.
  \<^item> \<open>MeshSpec\<close>, \<open>MeshWorkloads\<close>, \<open>MeshValidate\<close>, \<open>MeshReader\<close>, \<open>MeshLaws\<close> (hub/internal/meshconfig).
  \<^item> \<open>Schema\<close>, \<open>SchemaLaws\<close> (clickhouse/migrate.go, migrations, hub/cmd/hub/schema.go): any number of
    migrators interleaved call by call refine an atomic history; the gate opens on a complete schema
    only, and opens once the database answers. \<open>Retention\<close>, \<open>RetentionLaws\<close>: the trimmer, sweep
    after sweep over mutations that may outlive one.
  \<^item> \<open>Collection\<close>, \<open>CollectionApply\<close>, \<open>CollectionLaws\<close>, \<open>ApplierLaws\<close> (hub/internal/collection): the
    overlay, its rendering and its application over a cluster whose calls may fail.
  \<^item> \<open>Sentry\<close>, \<open>SentryLaws\<close> (gateway/sentryreceiver): the envelope parser and the records made of events.
  \<^item> \<open>EditDistance\<close>, \<open>McpArgs\<close>, \<open>McpTools\<close>, \<open>McpServer\<close>, \<open>McpLaws\<close> (hub/internal/mcp, api/mcp.go): the
    tools, their registry and envelope; an answer depends on the caller's tenants only, suggestions
    are ranked by the least number of edits.

  \<^bold>\<open>How the code is rendered\<close>

  A struct is a record, an enumeration of strings stays a string where the code compares strings, an
  error is a constructor of a sum or \<open>None\<close>, a handler is one function from the request, the identity
  and the state to the answer and the state. Code under a mutex is one step; where the code leaves a
  lock around a query, the query and what follows are separate steps. Counters of type \<open>uint64\<close> are
  words where they are added or subtracted and naturals where they are only read. Sorting by keys is
  stable here and need not be in Go: the theorems that order matters to either have distinct keys or
  state the order only. Case is folded for ASCII only. A call to the store that fails has changed
  nothing.

  Not under src/, hence arguments of the definitions: cryptographic hashes and random text, the
  JSON and YAML decoders, the Helm engine, the HTTP answers of the hub and of webhooks, Kubernetes
  informers and their projections, the answers of telemetry queries and their quantiles, RFC 3339
  parsing. Hypotheses on them state documented behaviour (a hash without collisions, a decoder that
  reads what the encoder wrote), and each property that has one is also applied to concrete functions.

  \<^bold>\<open>Bounds\<close>

  The schema gate's loop takes fuel; six passes are enough for every sequence of answers
  (\<open>SchemaLaws.gate_passes_end\<close>). Recovery of edges looks three hops up, as its query does; a
  snapshot of the mesh is cut at 5000 objects of a kind and 20000 pods; a Go allocation is bounded by
  \<open>2 ^ 48\<close> bytes in the envelope parser. All of these are the code's or the runtime's own numbers.

  \<^bold>\<open>Not modelled\<close>

  \<^item> The remaining queries (hub/internal/storage/clickhouse): SQL text whose meaning lies in the database.
  \<^item> The remaining console handlers (hub/internal/api: traces, logs, infrastructure, mesh and others): they
    pass a window and a project to a query and its rows to JSON. The texts of messages and hints.
  \<^item> Wiring, flags, servers and signal handling (hub/cmd), the OIDC, Kubernetes and HTTP clients, the
    factories of the collector's components, the command line, the Grafana data source, developer
    tools.
  \<^item> The user interface, charts and install scripts.
\<close>

end
